(* ===== verification/Prelude.thy ===== *)
theory Prelude
  imports "HOL-Library.Finite_Map" "HOL-Library.List_Lexorder" "HOL-Library.Char_ord"
    "HOL-Library.Product_Lexorder" "HOL-Library.Multiset" "HOL-Library.Word"
begin

text \<open>
  Shared vocabulary of the development.

  \<^item> A Go \<open>string\<close> is a byte sequence compared byte by byte: \<open>string\<close> with the
    lexicographic order of \<open>List_Lexorder\<close> and \<open>Char_ord\<close>.
  \<^item> A Go \<open>map\<close> is a finite map (\<open>fmap\<close>). Ranging over a Go map has no defined order;
    the sources always sort the keys they collect before using them, which is \<open>fm_keys\<close>.
    Reading a missing key yields the zero value, which is \<open>fm_getd\<close>.
  \<^item> A fallible operation returns \<open>'e + 'a\<close>: \<open>Inl\<close> is the error return, \<open>Inr\<close> the value.
  \<^item> \<open>sort.Strings\<close> and \<open>sort.Slice\<close> return a sorted permutation. They are unstable, but
    every comparator modelled here is total on distinct keys, so the result is unique and
    \<open>sort\<close> / \<open>sort_key\<close> computes it.

  The collection \<open>eval_simps\<close> gathers the equations that evaluate finite maps and key
  lists on concrete inputs.
\<close>

named_theorems eval_simps \<open>equations that evaluate finite maps on concrete inputs\<close>

type_synonym time = int  \<comment> \<open>nanoseconds since Go's zero \<open>time.Time\<close>, so the zero time is 0\<close>
type_synonym u64 = "64 word"

text \<open>A Go \<open>int\<close> is 64 bits wide and wraps around; it is written \<open>int\<close> with \<open>wrap_int\<close> where that matters.\<close>

definition wrap_int :: "int \<Rightarrow> int" where
  "wrap_int i = (i + 2 ^ 63) mod 2 ^ 64 - 2 ^ 63"

section \<open>Finite maps as Go maps\<close>

definition fm_keys :: "('k::linorder, 'v) fmap \<Rightarrow> 'k list" where
  "fm_keys m = sorted_list_of_fset (fmdom m)"

definition fm_getd :: "'v \<Rightarrow> ('k, 'v) fmap \<Rightarrow> 'k \<Rightarrow> 'v" where
  "fm_getd d m k = (case fmlookup m k of None \<Rightarrow> d | Some v \<Rightarrow> v)"

definition fm_vals :: "('k::linorder, 'v) fmap \<Rightarrow> 'v list" where
  "fm_vals m = List.map_filter (fmlookup m) (fm_keys m)"

lemma set_fm_keys [simp]: "set (fm_keys m) = fmdom' m"
  by (simp add: fm_keys_def fmdom'_alt_def)

lemma sorted_fm_keys [simp]: "sorted (fm_keys m)"
  by (simp add: fm_keys_def sorted_list_of_fset_def)

lemma distinct_fm_keys [simp]: "distinct (fm_keys m)"
  by (simp add: fm_keys_def sorted_list_of_fset_def)

lemma fm_keys_empty [simp, eval_simps]: "fm_keys fmempty = []"
  by (simp add: fm_keys_def sorted_list_of_fset_def)

lemma fm_keys_fmupd [eval_simps]:
  "fm_keys (fmupd k v m) = (if k \<in> set (fm_keys m) then fm_keys m else insort k (fm_keys m))"
proof (cases "k \<in> fset (fmdom m)")
  case True
  then have "finsert k (fmdom m) = fmdom m" by auto
  with True show ?thesis by (simp add: fm_keys_def fmdom'_alt_def)
next
  case False
  then show ?thesis
    by (simp add: fm_keys_def sorted_list_of_fset_def fmdom'_alt_def)
qed

lemma fm_keys_eqI: "sorted ks \<Longrightarrow> distinct ks \<Longrightarrow> set ks = fmdom' m \<Longrightarrow> fm_keys m = ks"
  by (metis set_fm_keys sorted_fm_keys distinct_fm_keys sorted_distinct_set_unique)

lemma fm_keys_of_list [code]: "fm_keys (fmap_of_list xs) = sort (remdups (map fst xs))"
  by (rule fm_keys_eqI) (auto simp: fmdom'_alt_def fset_of_list.rep_eq)

lemma length_fm_keys: "length (fm_keys m) = card (fmdom' m)"
  by (metis set_fm_keys distinct_fm_keys distinct_card)

lemma fm_getd_empty [simp, eval_simps]: "fm_getd d fmempty k = d"
  by (simp add: fm_getd_def)

lemma fm_getd_fmupd [simp, eval_simps]:
  "fm_getd d (fmupd k v m) k' = (if k = k' then v else fm_getd d m k')"
  by (simp add: fm_getd_def)

lemma fm_getd_Some [simp]: "fmlookup m k = Some v \<Longrightarrow> fm_getd d m k = v"
  by (simp add: fm_getd_def)

lemma fm_getd_None [simp]: "fmlookup m k = None \<Longrightarrow> fm_getd d m k = d"
  by (simp add: fm_getd_def)

lemma fmlookup_Some_dom: "fmlookup m k = Some v \<Longrightarrow> k \<in> fmdom' m"
  by (rule fmdom'I)

lemma in_fmdom'_iff: "k \<in> fmdom' m \<longleftrightarrow> (\<exists>v. fmlookup m k = Some v)"
  by (simp add: fmlookup_dom'_iff)

lemma card_insert_fmdom' [simp]:
  "fmlookup m k = None \<Longrightarrow> card (insert k (fmdom' m)) = Suc (card (fmdom' m))"
  "fmlookup m k = Some v \<Longrightarrow> insert k (fmdom' m) = fmdom' m"
  by (auto simp: in_fmdom'_iff card_insert_if insert_absorb)

lemma set_fm_vals: "set (fm_vals m) = {v. \<exists>k. fmlookup m k = Some v}"
  by (force simp: fm_vals_def List.map_filter_def in_fmdom'_iff)

lemma length_map_filter_all:
  "(\<And>x. x \<in> set xs \<Longrightarrow> f x \<noteq> None) \<Longrightarrow> length (List.map_filter f xs) = length xs"
  by (induction xs) (auto simp: List.map_filter_def)

lemma length_fm_vals: "length (fm_vals m) = card (fmdom' m)"
proof -
  have "length (fm_vals m) = length (fm_keys m)"
    unfolding fm_vals_def by (rule length_map_filter_all) (auto simp: in_fmdom'_iff)
  then show ?thesis by (simp add: length_fm_keys)
qed

lemma fm_vals_map: "fm_vals d = map (\<lambda>i. the (fmlookup d i)) (fm_keys d)"
proof -
  have "set ks \<subseteq> fmdom' d \<Longrightarrow> List.map_filter (fmlookup d) ks = map (\<lambda>i. the (fmlookup d i)) ks" for ks
    by (induction ks) (auto simp: List.map_filter_simps in_fmdom'_iff)
  then show ?thesis by (simp add: fm_vals_def)
qed

text \<open>Values that carry their own keys come out in the order of the keys.\<close>

lemma fm_vals_keys: "(\<And>k v. fmlookup d k = Some v \<Longrightarrow> f v = k) \<Longrightarrow> map f (fm_vals d) = fm_keys d"
  by (auto simp: fm_vals_map in_fmdom'_iff intro!: map_idI)

section \<open>Results\<close>

abbreviation Ok :: "'a \<Rightarrow> 'e + 'a" where "Ok \<equiv> Inr"
abbreviation Err :: "'e \<Rightarrow> 'e + 'a" where "Err \<equiv> Inl"

fun is_Ok :: "'e + 'a \<Rightarrow> bool" where
  "is_Ok (Inr _) = True"
| "is_Ok (Inl _) = False"

fun ok_val :: "'a \<Rightarrow> 'e + 'a \<Rightarrow> 'a" where
  "ok_val _ (Inr x) = x"
| "ok_val d (Inl _) = d"

lemma is_Ok_iff: "is_Ok r \<longleftrightarrow> (\<exists>x. r = Ok x)"
  by (cases r) auto

text \<open>A Go loop that validates elements and returns the first error.\<close>

fun first_err :: "('a \<Rightarrow> 'e option) \<Rightarrow> 'a list \<Rightarrow> 'e option" where
  "first_err f [] = None"
| "first_err f (x # xs) = (case f x of Some e \<Rightarrow> Some e | None \<Rightarrow> first_err f xs)"

lemma first_err_None_iff [simp]: "first_err f xs = None \<longleftrightarrow> (\<forall>x\<in>set xs. f x = None)"
  by (induction xs) (auto split: option.splits)

lemma first_err_SomeD: "first_err f xs = Some e \<Longrightarrow> \<exists>x\<in>set xs. f x = Some e"
  by (induction xs) (auto split: option.splits)

text \<open>The same with the element's index, counted from \<open>i\<close>.\<close>

fun first_err_at :: "(nat \<Rightarrow> 'a \<Rightarrow> 'e option) \<Rightarrow> nat \<Rightarrow> 'a list \<Rightarrow> 'e option" where
  "first_err_at f i [] = None"
| "first_err_at f i (x # xs) = (case f i x of Some e \<Rightarrow> Some e | None \<Rightarrow> first_err_at f (Suc i) xs)"

lemma first_err_at_None_iff [simp]:
  "first_err_at f i xs = None \<longleftrightarrow> (\<forall>j<length xs. f (i + j) (xs ! j) = None)"
proof (induction xs arbitrary: i)
  case (Cons x xs)
  then show ?case by (auto split: option.splits simp: nth_Cons' less_Suc_eq_0_disj)
qed simp

text \<open>A sequence of checks with early returns.\<close>

fun first_some :: "'e option list \<Rightarrow> 'e option" where
  "first_some [] = None"
| "first_some (c # cs) = (case c of Some e \<Rightarrow> Some e | None \<Rightarrow> first_some cs)"

lemma first_some_None_iff [simp]: "first_some cs = None \<longleftrightarrow> (\<forall>c\<in>set cs. c = None)"
  by (induction cs) (auto split: option.splits)

declare first_some.simps(2) [simp del, eval_simps]

text \<open>The first of the elements with each key, as a loop with a map of the keys seen keeps them.\<close>

fun dedup_by :: "('a \<Rightarrow> 'k) \<Rightarrow> 'k list \<Rightarrow> 'a list \<Rightarrow> 'a list" where
  "dedup_by key seen [] = []"
| "dedup_by key seen (x # xs) =
     (if key x \<in> set seen then dedup_by key seen xs else x # dedup_by key (key x # seen) xs)"

lemma set_dedup_by: "set (dedup_by key seen xs) \<subseteq> set xs"
  by (induction key seen xs rule: dedup_by.induct) auto

section \<open>Sorted lists\<close>

lemma sort_perm_eq: "mset xs = mset ys \<Longrightarrow> sort xs = (sort ys :: 'a::linorder list)"
  by (metis properties_for_sort sorted_sort mset_sort)

lemma sort_Nil_iff [simp]: "sort xs = [] \<longleftrightarrow> xs = []"
  by (metis length_0_conv length_sort)

lemma sorted_head_le: "sorted (x # xs) \<Longrightarrow> y \<in> set xs \<Longrightarrow> x \<le> y"
  by simp

lemma sorted_map_filter: "sorted xs \<Longrightarrow> sorted (filter P xs)"
  by (rule sorted_wrt_filter)

lemma filter_sort_comm: "filter P (sort xs) = sort (filter P (xs :: 'a::linorder list))"
  by (simp add: filter_sort)

section \<open>Decimal text\<close>

text \<open>\<open>%d\<close> of \<open>fmt\<close> and \<open>strconv.Itoa\<close>.\<close>

fun itoa :: "nat \<Rightarrow> string" where
  "itoa n = (if n < 10 then [char_of (48 + n)] else itoa (n div 10) @ [char_of (48 + n mod 10)])"

declare itoa.simps [simp del]

definition itoa_int :: "int \<Rightarrow> string" where
  "itoa_int i = (if i < 0 then ''-'' @ itoa (nat (- i)) else itoa (nat i))"

definition atoi :: "string \<Rightarrow> nat" where
  "atoi s = foldl (\<lambda>a c. a * 10 + (of_char c - 48)) 0 s"

lemma atoi_itoa [simp]: "atoi (itoa n) = n"
proof (induction n rule: itoa.induct)
  case (1 n)
  then show ?case
    by (subst itoa.simps) (auto simp: atoi_def)
qed

lemma itoa_inject [simp]: "itoa m = itoa n \<longleftrightarrow> m = n"
  by (metis atoi_itoa)

lemma itoa_not_Nil [simp]: "itoa n \<noteq> []"
  by (subst itoa.simps) simp

definition is_digit :: "char \<Rightarrow> bool" where
  "is_digit c \<longleftrightarrow> 48 \<le> (of_char c :: nat) \<and> (of_char c :: nat) \<le> 57"

lemma is_digit_char_of: "(n::nat) < 10 \<Longrightarrow> is_digit (char_of (48 + n))"
  by (simp add: is_digit_def)

lemma itoa_digits: "c \<in> set (itoa n) \<Longrightarrow> is_digit c"
proof (induction n arbitrary: c rule: itoa.induct)
  case (1 n)
  from 1(2) have "c \<in> set (if n < 10 then [char_of (48 + n)] else itoa (n div 10) @ [char_of (48 + n mod 10)])"
    by (subst (asm) itoa.simps)
  then show ?case
    using is_digit_char_of [of n] is_digit_char_of [of "n mod 10"] 1(1) by (auto split: if_splits)
qed

lemma itoa_int_nonneg: "0 \<le> i \<Longrightarrow> itoa_int i = itoa (nat i)"
  by (simp add: itoa_int_def)

text \<open>\<open>strings.Join\<close>.\<close>

fun strings_Join :: "string \<Rightarrow> string list \<Rightarrow> string" where
  "strings_Join sep [] = []"
| "strings_Join sep [s] = s"
| "strings_Join sep (s # t # ss) = s @ sep @ strings_Join sep (t # ss)"

text \<open>A separator that is not a digit splits an id from its decimal suffix.\<close>

lemma append_sep_itoa_inject:
  assumes "\<not> is_digit c"
  shows "a @ c # itoa m = b @ c # itoa n \<longleftrightarrow> a = b \<and> m = n"
proof
  assume eq: "a @ c # itoa m = b @ c # itoa n"
  have no: "c \<notin> set (itoa k)" for k using itoa_digits assms by blast
  have tw: "takeWhile (\<lambda>x. x \<noteq> c) (rev (itoa k) @ c # xs) = rev (itoa k)" for k xs
    using no [of k] by (subst takeWhile_append2) auto
  have "rev (itoa m) @ c # rev a = rev (itoa n) @ c # rev b"
    using arg_cong [OF eq, of rev] by simp
  then have "rev (itoa m) = rev (itoa n)" by (metis tw)
  with eq show "a = b \<and> m = n" by simp
qed simp

end
