(* ===== verification/Kahn.thy ===== *)
theory Kahn
  imports Prelude
begin

text \<open>
  Deterministic topological ordering. \<open>kernel/allocator/planner\<close> and \<open>toolbox/workflow\<close>
  both run Kahn's algorithm over a sorted queue: pop the smallest ready id, emit it, decrement
  the indegree of every dependent, append those that reach zero, sort the queue again. The
  loop is modelled once (\<open>kahn_loop\<close>); the locale \<open>dep_graph\<close> is the interface between the
  loop and the two components that build its input maps, and its lemmas say when the order is
  complete, that it respects dependencies and that each choice is the least one.
\<close>

section \<open>The loop\<close>

fun relax :: "('a, int) fmap \<Rightarrow> 'a list \<Rightarrow> 'a list \<Rightarrow> ('a, int) fmap \<times> 'a list" where
  "relax indeg q [] = (indeg, q)"
| "relax indeg q (c # cs) =
     (let d = fm_getd 0 indeg c - 1 in
      relax (fmupd c d indeg) (if d = 0 then q @ [c] else q) cs)"

definition positives :: "('a, int) fmap \<Rightarrow> 'a set" where
  "positives m = {k \<in> fmdom' m. 0 < fm_getd 0 m k}"

lemma positives_iff: "k \<in> positives m \<longleftrightarrow> 0 < fm_getd 0 m k"
  by (cases "fmlookup m k") (auto simp: positives_def in_fmdom'_iff)

lemma finite_positives [simp]: "finite (positives m)"
  by (rule finite_subset [of _ "fmdom' m"]) (auto simp: positives_def)

lemma positives_fmupd:
  "positives (fmupd k v m) = (if 0 < v then insert k (positives m) else positives m - {k})"
  by (auto simp: positives_iff set_eq_iff)

lemma relax_measure:
  "card (positives (fst (relax m q cs))) + length (snd (relax m q cs))
     \<le> card (positives m) + length q"
proof (induction m q cs rule: relax.induct)
  case (1 indeg q)
  then show ?case by simp
next
  case (2 indeg q c cs)
  define d where "d = fm_getd 0 indeg c - 1"
  have "card (positives (fmupd c d indeg)) + length (if d = 0 then q @ [c] else q)
      \<le> card (positives indeg) + length q"
  proof (cases "0 \<le> d")
    case True
    then have "c \<in> positives indeg" by (simp add: positives_iff d_def)
    then show ?thesis
      using card_Suc_Diff1 [OF finite_positives, of c indeg] True
      by (auto simp: positives_fmupd insert_absorb)
  next
    case False
    then show ?thesis by (auto simp: positives_fmupd intro: card_mono)
  qed
  with 2 [OF d_def] show ?case by (simp add: Let_def d_def)
qed

function kahn_loop ::
  "('a::linorder \<Rightarrow> 'a list) \<Rightarrow> ('a, int) fmap \<Rightarrow> 'a list \<Rightarrow> 'a list \<Rightarrow> 'a list" where
  "kahn_loop nxt indeg [] out = out"
| "kahn_loop nxt indeg (k # q) out =
     kahn_loop nxt (fst (relax indeg q (nxt k))) (sort (snd (relax indeg q (nxt k)))) (out @ [k])"
  by pat_completeness auto
termination
proof (relation "measure (\<lambda>(nxt, m, q, out). card (positives m) + length q)", simp)
  fix nxt and indeg :: "('a, int) fmap" and k q and out :: "'a list"
  show "((nxt, fst (relax indeg q (nxt k)), sort (snd (relax indeg q (nxt k))), out @ [k]),
         nxt, indeg, k # q, out)
      \<in> measure (\<lambda>(nxt, m, q, out). card (positives m) + length q)"
    using relax_measure [of indeg q "nxt k"] by simp
qed

definition topo_run :: "('a::linorder \<Rightarrow> 'a list) \<Rightarrow> ('a, int) fmap \<Rightarrow> 'a list \<Rightarrow> 'a list" where
  "topo_run nxt indeg ids =
     kahn_loop nxt indeg (sort (filter (\<lambda>k. fm_getd 0 indeg k = 0) ids)) []"

section \<open>One relaxation pass\<close>

lemma relax_indeg: "fm_getd 0 (fst (relax m q cs)) k = fm_getd 0 m k - int (count_list cs k)"
  by (induction m q cs rule: relax.induct) (auto simp: Let_def)

lemma relax_queue_set:
  "set (snd (relax m q cs))
     = set q \<union> {k. 0 < fm_getd 0 m k \<and> fm_getd 0 m k \<le> int (count_list cs k)}"
proof (induction m q cs rule: relax.induct)
  case (1 indeg q)
  then show ?case by auto
next
  case (2 indeg q c cs)
  have IH: "set (snd (relax indeg q (c # cs)))
     = set (if fm_getd 0 indeg c - 1 = 0 then q @ [c] else q)
       \<union> {k. 0 < fm_getd 0 (fmupd c (fm_getd 0 indeg c - 1) indeg) k
              \<and> fm_getd 0 (fmupd c (fm_getd 0 indeg c - 1) indeg) k \<le> int (count_list cs k)}"
    using 2 by (simp add: Let_def)
  show ?case unfolding IH by auto
qed

lemma relax_queue_distinct:
  "distinct q \<Longrightarrow> \<forall>k\<in>set q. fm_getd 0 m k \<le> 0 \<Longrightarrow> distinct (snd (relax m q cs))"
proof (induction m q cs rule: relax.induct)
  case (1 indeg q)
  then show ?case by simp
next
  case (2 indeg q c cs)
  from 2(1) [OF refl] 2(2,3) show ?case
    by (cases "fm_getd 0 indeg c = 1") (fastforce simp: Let_def)+
qed

section \<open>Specification of the order\<close>

text \<open>Every element comes after all of its dependencies.\<close>

definition topo_sorted :: "('a \<Rightarrow> 'a list) \<Rightarrow> 'a list \<Rightarrow> bool" where
  "topo_sorted deps out \<longleftrightarrow> (\<forall>i<length out. set (deps (out ! i)) \<subseteq> set (take i out))"

text \<open>The ids that may come next once \<open>done\<close> has been emitted.\<close>

definition candidates :: "'a list \<Rightarrow> ('a \<Rightarrow> 'a list) \<Rightarrow> 'a list \<Rightarrow> 'a list" where
  "candidates ids deps done = filter (\<lambda>k. k \<notin> set done \<and> set (deps k) \<subseteq> set done) ids"

text \<open>Every choice is the least candidate, which makes the order unique.\<close>

definition least_first :: "'a::linorder list \<Rightarrow> ('a \<Rightarrow> 'a list) \<Rightarrow> 'a list \<Rightarrow> bool" where
  "least_first ids deps out \<longleftrightarrow>
     (\<forall>i<length out. out ! i \<in> set (candidates ids deps (take i out))
        \<and> (\<forall>k\<in>set (candidates ids deps (take i out)). out ! i \<le> k))"

definition dep_rel :: "'a list \<Rightarrow> ('a \<Rightarrow> 'a list) \<Rightarrow> ('a \<times> 'a) set" where
  "dep_rel ids deps = {(d, k). k \<in> set ids \<and> d \<in> set (deps k)}"

lemma finite_dep_rel [simp]: "finite (dep_rel ids deps)"
proof -
  have "dep_rel ids deps = (\<Union>k\<in>set ids. (\<lambda>d. (d, k)) ` set (deps k))"
    by (auto simp: dep_rel_def)
  then show ?thesis by simp
qed

lemma topo_sorted_snoc:
  "topo_sorted deps (out @ [k]) \<longleftrightarrow> topo_sorted deps out \<and> set (deps k) \<subseteq> set out"
  by (auto simp: topo_sorted_def less_Suc_eq nth_append)

lemma least_first_snoc:
  "least_first ids deps (out @ [k]) \<longleftrightarrow>
     least_first ids deps out \<and> k \<in> set (candidates ids deps out)
       \<and> (\<forall>j\<in>set (candidates ids deps out). k \<le> j)"
  by (auto simp: least_first_def less_Suc_eq nth_append)

lemma least_first_topo_sorted: "least_first ids deps out \<Longrightarrow> topo_sorted deps out"
  by (auto simp: least_first_def topo_sorted_def candidates_def)

lemma topo_sorted_closed: "topo_sorted deps out \<Longrightarrow> k \<in> set out \<Longrightarrow> set (deps k) \<subseteq> set out"
  by (fastforce simp: topo_sorted_def in_set_conv_nth [of k] dest: in_set_takeD)

lemma topo_sorted_acyclic:
  assumes ts: "topo_sorted deps out" and d: "distinct out" and s: "set ids \<subseteq> set out"
  shows "acyclic (dep_rel ids deps)"
proof -
  define pos where "pos x = length (takeWhile ((\<noteq>) x) out)" for x
  have "dep_rel ids deps \<subseteq> measure pos"
  proof
    fix p assume "p \<in> dep_rel ids deps"
    then obtain a k where p: "p = (a, k)" "k \<in> set ids" "a \<in> set (deps k)"
      by (auto simp: dep_rel_def)
    with s obtain i where i: "i < length out" "out ! i = k"
      by (metis in_set_conv_nth subsetD)
    with p ts have "a \<in> set (take i out)" by (auto simp: topo_sorted_def)
    then obtain j where j: "j < i" "out ! j = a"
      using i(1) by (auto simp: in_set_conv_nth)
    have pos_nth: "pos (out ! n) = n" if "n < length out" for n
    proof -
      have "takeWhile ((\<noteq>) (out ! n)) out = take n out"
        using that d by (intro takeWhile_eq_take_P_nth) (auto simp: nth_eq_iff_index_eq)
      with that show ?thesis by (simp add: pos_def)
    qed
    show "p \<in> measure pos" using p i j pos_nth [of i] pos_nth [of j] by auto
  qed
  then show ?thesis by (meson wf_measure wf_subset wf_acyclic)
qed

section \<open>The loop invariant\<close>

definition topo_inv ::
  "'a::linorder list \<Rightarrow> ('a \<Rightarrow> 'a list) \<Rightarrow> ('a, int) fmap \<Rightarrow> 'a list \<Rightarrow> 'a list \<Rightarrow> bool" where
  "topo_inv ids deps m q out \<longleftrightarrow>
     distinct (out @ q) \<and> sorted q \<and> set out \<subseteq> set ids
     \<and> set q = set (candidates ids deps out)
     \<and> (\<forall>k\<in>set ids. fm_getd 0 m k = int (length (filter (\<lambda>d. d \<notin> set out) (deps k))))
     \<and> least_first ids deps out"

lemma filter_not_in_snoc:
  "length (filter (\<lambda>d. d \<notin> set (out @ [k])) xs)
     = length (filter (\<lambda>d. d \<notin> set out) xs) - (if k \<in> set out then 0 else count_list xs k)"
  and count_le_filter:
  "k \<notin> set out \<Longrightarrow> count_list xs k \<le> length (filter (\<lambda>d. d \<notin> set out) xs)"
proof -
  have *: "k \<notin> set out \<Longrightarrow> length (filter (\<lambda>d. d \<notin> set out) xs)
      = length (filter (\<lambda>d. d \<notin> set (out @ [k])) xs) + count_list xs k" for xs
    by (induction xs) auto
  show "length (filter (\<lambda>d. d \<notin> set (out @ [k])) xs)
     = length (filter (\<lambda>d. d \<notin> set out) xs) - (if k \<in> set out then 0 else count_list xs k)"
    using * [of xs] by (cases "k \<in> set out") (auto intro: arg_cong [where f = length] filter_cong)
  show "k \<notin> set out \<Longrightarrow> count_list xs k \<le> length (filter (\<lambda>d. d \<notin> set out) xs)"
    using * [of xs] by simp
qed

lemma topo_inv_step:
  assumes inv: "topo_inv ids deps m (k # q) out"
    and nxt: "\<And>c. count_list (nxt k) c = (if c \<in> set ids then count_list (deps c) k else 0)"
  shows "topo_inv ids deps (fst (relax m q (nxt k))) (sort (snd (relax m q (nxt k)))) (out @ [k])"
proof -
  let ?m = "fst (relax m q (nxt k))" and ?q = "snd (relax m q (nxt k))"
  from inv have dis: "distinct (out @ k # q)" and srt: "sorted (k # q)"
    and sub: "set out \<subseteq> set ids" and qset: "set (k # q) = set (candidates ids deps out)"
    and deg: "\<And>c. c \<in> set ids \<Longrightarrow>
        fm_getd 0 m c = int (length (filter (\<lambda>d. d \<notin> set out) (deps c)))"
    and lf: "least_first ids deps out"
    by (auto simp: topo_inv_def)
  from qset have kc: "k \<in> set (candidates ids deps out)" by auto
  then have kid: "k \<in> set ids" and kout: "k \<notin> set out" by (auto simp: candidates_def)
  have deg': "fm_getd 0 ?m c = int (length (filter (\<lambda>d. d \<notin> set (out @ [k])) (deps c)))"
    if "c \<in> set ids" for c
    using deg [OF that] nxt [of c] that kout count_le_filter [of k out "deps c"]
    by (simp add: relax_indeg filter_not_in_snoc del: set_append)
  have zero: "fm_getd 0 m c = 0 \<longleftrightarrow> set (deps c) \<subseteq> set out" if "c \<in> set ids" for c
    using deg [OF that] by (auto simp: filter_empty_conv)
  have zero': "fm_getd 0 ?m c = 0 \<longleftrightarrow> set (deps c) \<subseteq> set (out @ [k])" if "c \<in> set ids" for c
    using deg' [OF that] by (auto simp: filter_empty_conv)
  have pushed: "0 < fm_getd 0 m c \<and> fm_getd 0 m c \<le> int (count_list (nxt k) c)
      \<longleftrightarrow> c \<in> set ids \<and> \<not> set (deps c) \<subseteq> set out \<and> set (deps c) \<subseteq> set (out @ [k])" for c
  proof (cases "c \<in> set ids")
    case True
    have "0 \<le> fm_getd 0 m c" "0 \<le> fm_getd 0 ?m c" using deg [OF True] deg' [OF True] by auto
    with zero [OF True] zero' [OF True] True show ?thesis
      by (simp add: relax_indeg) linarith
  next
    case False
    then show ?thesis using nxt [of c] by simp
  qed
  have qset': "set ?q = set (candidates ids deps (out @ [k]))"
    unfolding relax_queue_set pushed using qset dis kid
    using topo_sorted_closed [OF least_first_topo_sorted [OF lf]]
    by (fastforce simp: candidates_def set_eq_iff)
  have qle: "\<forall>c\<in>set q. fm_getd 0 m c \<le> 0"
  proof
    fix c assume "c \<in> set q"
    then have "c \<in> set (candidates ids deps out)" using qset by auto
    then have "fm_getd 0 m c = 0" using zero by (auto simp: candidates_def)
    then show "fm_getd 0 m c \<le> 0" by simp
  qed
  have dq: "distinct ?q" using dis qle by (intro relax_queue_distinct) auto
  have "set ?q \<inter> set (out @ [k]) = {}" unfolding qset' by (auto simp: candidates_def)
  moreover have "least_first ids deps (out @ [k])"
    using lf kc srt unfolding least_first_snoc qset [symmetric] by auto
  ultimately show ?thesis
    using dis dq sub kid qset' deg' by (auto simp: topo_inv_def)
qed

lemma kahn_loop_inv:
  assumes "\<And>k c. k \<in> set ids \<Longrightarrow>
      count_list (nxt k) c = (if c \<in> set ids then count_list (deps c) k else 0)"
    and "topo_inv ids deps m q out"
  shows "\<exists>m'. topo_inv ids deps m' [] (kahn_loop nxt m q out)"
  using assms
proof (induction nxt m q out rule: kahn_loop.induct)
  case (1 nxt indeg out)
  then show ?case by auto
next
  case (2 nxt indeg k q out)
  have "k \<in> set ids" using 2(3) by (auto simp: topo_inv_def candidates_def)
  then have "topo_inv ids deps (fst (relax indeg q (nxt k)))
      (sort (snd (relax indeg q (nxt k)))) (out @ [k])"
    by (intro topo_inv_step [OF 2(3)] 2(2))
  from 2(1) [OF 2(2) this] show ?case by simp
qed

section \<open>Building the input maps\<close>

text \<open>The components collect the dependents of each id by appending while they range over the ids.\<close>

definition add_child :: "'a \<Rightarrow> 'a \<Rightarrow> ('a, 'a list) fmap \<Rightarrow> ('a, 'a list) fmap" where
  "add_child k dep m = fmupd dep (fm_getd [] m dep @ [k]) m"

lemma fold_indegree:
  "fm_getd 0 (fold (\<lambda>k. fmupd k (f k)) ks m) k = (if k \<in> set ks then f k else fm_getd 0 m k)"
  by (induction ks arbitrary: m) auto

lemma fold_add_child:
  "fm_getd [] (fold (add_child k) ds m) d = fm_getd [] m d @ replicate (count_list ds d) k"
proof (induction ds arbitrary: m)
  case (Cons a ds)
  then show ?case by (simp add: add_child_def replicate_append_same)
qed simp

lemma fold_children_count:
  "count_list (fm_getd [] (fold (\<lambda>k. fold (add_child k) (deps k)) ks m) d) c
     = count_list (fm_getd [] m d) c + count_list ks c * count_list (deps c) d"
proof (induction ks arbitrary: m)
  case (Cons k ks)
  have "count_list (replicate n k) c = (if c = k then n else 0)" for n by (induction n) auto
  with Cons show ?case by (simp add: fold_add_child)
qed simp

lemma fm_getd_fmmap_sort: "fm_getd [] (fmmap sort m) d = sort (fm_getd [] m d)"
  by (cases "fmlookup m d") (auto simp: fm_getd_def)

lemma count_list_sort: "count_list (sort xs) c = count_list xs (c :: 'a::linorder)"
  by (metis count_mset mset_sort)

lemma count_list_distinct: "distinct ks \<Longrightarrow> count_list ks c = (if c \<in> set ks then 1 else 0)"
  by (induction ks) auto

section \<open>The interface\<close>

text \<open>
  A component that orders a graph supplies, for each graph \<open>g\<close> it accepts, the list of its ids,
  the dependencies of an id, the initial indegree map and the dependents of an id.
\<close>

locale dep_graph =
  fixes good :: "'g \<Rightarrow> bool"
    and ids :: "'g \<Rightarrow> 'a::linorder list"
    and deps :: "'g \<Rightarrow> 'a \<Rightarrow> 'a list"
    and indeg :: "'g \<Rightarrow> ('a, int) fmap"
    and nxt :: "'g \<Rightarrow> 'a \<Rightarrow> 'a list"
  assumes ids_distinct: "good g \<Longrightarrow> distinct (ids g)"
    and indeg_init: "good g \<Longrightarrow> k \<in> set (ids g) \<Longrightarrow> fm_getd 0 (indeg g) k = int (length (deps g k))"
    and nxt_count: "good g \<Longrightarrow> k \<in> set (ids g) \<Longrightarrow>
      count_list (nxt g k) c = (if c \<in> set (ids g) then count_list (deps g c) k else 0)"
begin

definition order :: "'g \<Rightarrow> 'a list" where
  "order g = topo_run (nxt g) (indeg g) (ids g)"

lemma order_inv:
  assumes "good g"
  shows "\<exists>m. topo_inv (ids g) (deps g) m [] (order g)"
  unfolding order_def topo_run_def
proof (rule kahn_loop_inv)
  have "filter (\<lambda>k. fm_getd 0 (indeg g) k = 0) (ids g) = candidates (ids g) (deps g) []"
    using assms by (auto simp: candidates_def indeg_init intro: filter_cong)
  then show "topo_inv (ids g) (deps g) (indeg g)
      (sort (filter (\<lambda>k. fm_getd 0 (indeg g) k = 0) (ids g))) []"
    using assms by (auto simp: topo_inv_def least_first_def ids_distinct indeg_init candidates_def)
qed (simp add: assms nxt_count)

lemma order_distinct: "good g \<Longrightarrow> distinct (order g)"
  and order_subset: "good g \<Longrightarrow> set (order g) \<subseteq> set (ids g)"
  and order_least_first: "good g \<Longrightarrow> least_first (ids g) (deps g) (order g)"
  and order_maximal: "good g \<Longrightarrow> candidates (ids g) (deps g) (order g) = []"
  using order_inv [of g] by (auto simp: topo_inv_def)

lemma order_sorted: "good g \<Longrightarrow> topo_sorted (deps g) (order g)"
  by (rule least_first_topo_sorted) (rule order_least_first)

lemma order_complete_iff_set:
  "good g \<Longrightarrow> length (order g) = length (ids g) \<longleftrightarrow> set (order g) = set (ids g)"
  by (metis card_subset_eq distinct_card finite_set ids_distinct order_distinct order_subset)

text \<open>The order is complete exactly when every dependency exists and there is no cycle.\<close>

lemma order_complete_iff:
  assumes gd: "good g"
  shows "length (order g) = length (ids g) \<longleftrightarrow>
    (\<forall>k\<in>set (ids g). set (deps g k) \<subseteq> set (ids g)) \<and> acyclic (dep_rel (ids g) (deps g))"
    (is "?full \<longleftrightarrow> ?closed \<and> ?acyc")
proof
  assume ?full
  then have eq: "set (order g) = set (ids g)" using gd by (simp add: order_complete_iff_set)
  then show "?closed \<and> ?acyc"
    using topo_sorted_closed [OF order_sorted [OF gd]]
      topo_sorted_acyclic [OF order_sorted [OF gd] order_distinct [OF gd], of "ids g"] by blast
next
  assume ca: "?closed \<and> ?acyc"
  let ?S = "set (ids g) - set (order g)"
  have blocked: "\<exists>d\<in>?S. (d, k) \<in> dep_rel (ids g) (deps g)" if "k \<in> ?S" for k
  proof -
    have "k \<notin> set (candidates (ids g) (deps g) (order g))" using order_maximal [OF gd] by simp
    with that obtain d where "d \<in> set (deps g k)" "d \<notin> set (order g)"
      by (auto simp: candidates_def)
    with that ca show ?thesis by (auto simp: dep_rel_def)
  qed
  have "wf (dep_rel (ids g) (deps g))"
    using ca by (intro finite_acyclic_wf) auto
  then have "?S = {}" using blocked by (metis (lifting) wfE_min equals0I)
  then show ?full using gd order_subset [OF gd] by (auto simp: order_complete_iff_set)
qed

end

end
