(* ===== verification/Planner.thy ===== *)
theory Planner
  imports Kahn
begin

text \<open>
  \<open>kernel/allocator/planner/planner.go\<close>: work packages, their dependency graph, validation,
  deterministic topological order and dispatch readiness. The mutex around every method makes
  each method one atomic step, so the methods are functions of the graph value. Node pointers
  never escape (\<open>Add\<close> and \<open>Get\<close> copy), so the node map holds records. \<open>Graph_node\<close> reads a
  node known to exist; \<open>graph_wf\<close>, which every method keeps, says that every id of \<open>order\<close> does.
\<close>

section \<open>Data\<close>

datatype wp_state = StateProposed | StateReady | StateRunning | StateCompleted | StateDeficient
  | StateOther string

record WorkPackage =
  wp_ID :: string
  wp_Title :: string
  wp_Role :: string
  wp_Capabilities :: "string list"
  wp_DependsOn :: "string list"
  wp_Acceptance :: "string list"
  wp_State :: wp_state

record Graph =
  g_ProjectID :: string
  g_ID :: string
  g_Revision :: int
  g_nodes :: "(string, WorkPackage) fmap"
  g_order :: "string list"

datatype planner_error = PlanIDRequired | PlanDuplicate string | PlanSelfDep string
  | PlanMissingDep string string | PlanCycle | ErrUnknownNode string

definition NewGraph :: "string \<Rightarrow> string \<Rightarrow> Graph" where
  "NewGraph projectID gid =
     \<lparr>g_ProjectID = projectID, g_ID = gid, g_Revision = 1, g_nodes = fmempty, g_order = []\<rparr>"

section \<open>Operations\<close>

definition Graph_Add :: "Graph \<Rightarrow> WorkPackage \<Rightarrow> planner_error + Graph" where
  "Graph_Add g wp =
     (if wp_ID wp = [] then Err PlanIDRequired
      else if fmlookup (g_nodes g) (wp_ID wp) \<noteq> None then Err (PlanDuplicate (wp_ID wp))
      else
        let wp' = (if wp_State wp = StateOther [] then wp\<lparr>wp_State := StateProposed\<rparr> else wp)
        in Ok (g\<lparr>g_nodes := fmupd (wp_ID wp) wp' (g_nodes g), g_order := g_order g @ [wp_ID wp]\<rparr>))"

definition Graph_Get :: "Graph \<Rightarrow> string \<Rightarrow> WorkPackage option" where
  "Graph_Get g k = fmlookup (g_nodes g) k"

definition Graph_node :: "Graph \<Rightarrow> string \<Rightarrow> WorkPackage" where
  "Graph_node g k = fm_getd \<lparr>wp_ID = [], wp_Title = [], wp_Role = [], wp_Capabilities = [],
     wp_DependsOn = [], wp_Acceptance = [], wp_State = StateOther []\<rparr> (g_nodes g) k"

definition Graph_List :: "Graph \<Rightarrow> WorkPackage list" where
  "Graph_List g = map (Graph_node g) (g_order g)"

abbreviation Graph_deps :: "Graph \<Rightarrow> string \<Rightarrow> string list" where
  "Graph_deps g k \<equiv> wp_DependsOn (Graph_node g k)"

definition Graph_indegree :: "Graph \<Rightarrow> (string, int) fmap" where
  "Graph_indegree g =
     fold (\<lambda>k. fmupd k (int (length (Graph_deps g k)))) (g_order g) fmempty"

definition Graph_children :: "Graph \<Rightarrow> (string, string list) fmap" where
  "Graph_children g =
     fmmap sort (fold (\<lambda>k. fold (add_child k) (Graph_deps g k)) (g_order g) fmempty)"

definition Graph_Topological :: "Graph \<Rightarrow> planner_error + string list" where
  "Graph_Topological g =
     (let out = topo_run (fm_getd [] (Graph_children g)) (Graph_indegree g) (g_order g)
      in if length out \<noteq> card (fmdom' (g_nodes g)) then Err PlanCycle else Ok out)"

definition check_dep :: "Graph \<Rightarrow> string \<Rightarrow> string \<Rightarrow> planner_error option" where
  "check_dep g k dep =
     (if dep = k then Some (PlanSelfDep k)
      else if fmlookup (g_nodes g) dep = None then Some (PlanMissingDep k dep)
      else None)"

definition Graph_Validate :: "Graph \<Rightarrow> planner_error option" where
  "Graph_Validate g =
     (case first_err (\<lambda>k. first_err (check_dep g k) (Graph_deps g k)) (g_order g) of
        Some e \<Rightarrow> Some e
      | None \<Rightarrow> (case Graph_Topological g of Inl e \<Rightarrow> Some e | Inr _ \<Rightarrow> None))"

definition Graph_SetState :: "Graph \<Rightarrow> string \<Rightarrow> wp_state \<Rightarrow> planner_error + Graph" where
  "Graph_SetState g k st =
     (case fmlookup (g_nodes g) k of
        None \<Rightarrow> Err (ErrUnknownNode k)
      | Some wp \<Rightarrow> Ok (g\<lparr>g_nodes := fmupd k (wp\<lparr>wp_State := st\<rparr>) (g_nodes g)\<rparr>))"

definition dep_blocked :: "Graph \<Rightarrow> string \<Rightarrow> bool" where
  "dep_blocked g dep =
     (case fmlookup (g_nodes g) dep of
        None \<Rightarrow> True
      | Some d \<Rightarrow> wp_State d \<noteq> StateCompleted)"

definition node_ready :: "Graph \<Rightarrow> string \<Rightarrow> bool" where
  "node_ready g k =
     ((wp_State (Graph_node g k) = StateProposed \<or> wp_State (Graph_node g k) = StateReady)
      \<and> \<not> list_ex (dep_blocked g) (Graph_deps g k))"

definition Graph_Ready :: "Graph \<Rightarrow> string list" where
  "Graph_Ready g = sort (filter (node_ready g) (g_order g))"

section \<open>Well-formedness\<close>

definition graph_wf :: "Graph \<Rightarrow> bool" where
  "graph_wf g \<longleftrightarrow> distinct (g_order g) \<and> set (g_order g) = fmdom' (g_nodes g)"

lemma graph_wf_New [simp]: "graph_wf (NewGraph p i)"
  by (simp add: graph_wf_def NewGraph_def)

lemma graph_wf_node: "graph_wf g \<Longrightarrow> k \<in> set (g_order g) \<Longrightarrow> fmlookup (g_nodes g) k = Some (Graph_node g k)"
  by (auto simp: graph_wf_def Graph_node_def in_fmdom'_iff)

lemma graph_wf_card: "graph_wf g \<Longrightarrow> card (fmdom' (g_nodes g)) = length (g_order g)"
  by (metis graph_wf_def distinct_card)

lemma Graph_SetState_order: "Graph_SetState g k st = Ok g' \<Longrightarrow> g_order g' = g_order g"
  by (auto simp: Graph_SetState_def split: option.splits)

lemma Graph_SetState_node:
  "Graph_SetState g k st = Ok g' \<Longrightarrow>
     Graph_node g' j = (if j = k then (Graph_node g k)\<lparr>wp_State := st\<rparr> else Graph_node g j)"
  by (auto simp: Graph_SetState_def Graph_node_def split: option.splits)

lemma Graph_SetState_deps: "Graph_SetState g k st = Ok g' \<Longrightarrow> Graph_deps g' j = Graph_deps g j"
  by (simp add: Graph_SetState_node)

lemma Graph_SetState_dom: "Graph_SetState g k st = Ok g' \<Longrightarrow> fmdom' (g_nodes g') = fmdom' (g_nodes g)"
  by (auto simp: Graph_SetState_def insert_absorb in_fmdom'_iff split: option.splits)

lemma graph_wf_SetState: "graph_wf g \<Longrightarrow> Graph_SetState g k st = Ok g' \<Longrightarrow> graph_wf g'"
  by (simp add: graph_wf_def Graph_SetState_order Graph_SetState_dom)

lemma Graph_SetState_total:
  "graph_wf g \<Longrightarrow> k \<in> set (g_order g) \<Longrightarrow> \<exists>g'. Graph_SetState g k st = Ok g'"
  by (simp add: Graph_SetState_def graph_wf_node)

lemma graph_wf_Add: "graph_wf g \<Longrightarrow> Graph_Add g wp = Ok g' \<Longrightarrow> graph_wf g'"
  by (auto simp: graph_wf_def Graph_Add_def Let_def in_fmdom'_iff split: if_splits)

section \<open>The order\<close>

interpretation planner: dep_graph graph_wf g_order Graph_deps Graph_indegree
  "\<lambda>g. fm_getd [] (Graph_children g)"
proof
  fix g k assume "graph_wf g" "k \<in> set (g_order g)"
  then show "fm_getd 0 (Graph_indegree g) k = int (length (Graph_deps g k))"
    by (simp add: Graph_indegree_def fold_indegree)
next
  fix g k c assume "graph_wf g"
  then show "count_list (fm_getd [] (Graph_children g) k) c
      = (if c \<in> set (g_order g) then count_list (Graph_deps g c) k else 0)"
    by (simp add: Graph_children_def fm_getd_fmmap_sort count_list_sort fold_children_count
        count_list_distinct graph_wf_def)
qed (simp add: graph_wf_def)

lemma Graph_Topological_order:
  "graph_wf g \<Longrightarrow> Graph_Topological g =
     (if length (planner.order g) = length (g_order g) then Ok (planner.order g) else Err PlanCycle)"
  by (simp add: Graph_Topological_def planner.order_def graph_wf_card Let_def)

text \<open>The dependency edges between existing nodes.\<close>

abbreviation graph_rel :: "Graph \<Rightarrow> (string \<times> string) set" where
  "graph_rel g \<equiv> dep_rel (g_order g) (Graph_deps g)"

definition deps_closed :: "Graph \<Rightarrow> bool" where
  "deps_closed g \<longleftrightarrow> list_all (\<lambda>k. list_all (\<lambda>d. d \<in> set (g_order g)) (Graph_deps g k)) (g_order g)"

lemma Graph_Topological_iff:
  "graph_wf g \<Longrightarrow> is_Ok (Graph_Topological g) \<longleftrightarrow> deps_closed g \<and> acyclic (graph_rel g)"
  by (auto simp: Graph_Topological_order planner.order_complete_iff deps_closed_def list_all_iff)

lemma check_dep_None:
  "graph_wf g \<Longrightarrow> check_dep g k dep = None \<longleftrightarrow> dep \<noteq> k \<and> dep \<in> set (g_order g)"
  by (auto simp: check_dep_def graph_wf_def in_fmdom'_iff)

lemma acyclic_no_self: "acyclic (graph_rel g) \<Longrightarrow> k \<in> set (g_order g) \<Longrightarrow> k \<notin> set (Graph_deps g k)"
  by (auto simp: acyclic_def dep_rel_def)

lemma Graph_Validate_checks:
  assumes "graph_wf g"
  shows "Graph_Validate g = None \<longleftrightarrow>
    (\<forall>k\<in>set (g_order g). \<forall>d\<in>set (Graph_deps g k). d \<noteq> k \<and> d \<in> set (g_order g))
      \<and> is_Ok (Graph_Topological g)"
proof (cases "first_err (\<lambda>k. first_err (check_dep g k) (Graph_deps g k)) (g_order g)")
  case None
  from None have "\<forall>k\<in>set (g_order g). \<forall>d\<in>set (Graph_deps g k). d \<noteq> k \<and> d \<in> set (g_order g)"
    by (simp add: check_dep_None [OF assms])
  then show ?thesis
    unfolding Graph_Validate_def None by (auto simp: is_Ok_iff split: sum.splits)
next
  case (Some e)
  then have "\<not> (\<forall>k\<in>set (g_order g). \<forall>d\<in>set (Graph_deps g k). check_dep g k d = None)"
    by (fastforce dest!: first_err_SomeD)
  with Some show ?thesis by (auto simp: Graph_Validate_def check_dep_None [OF assms])
qed

lemma Validate_iff:
  assumes "graph_wf g"
  shows "Graph_Validate g = None \<longleftrightarrow> deps_closed g \<and> acyclic (graph_rel g)"
  using acyclic_no_self [of g]
  by (auto simp: Graph_Validate_checks [OF assms] Graph_Topological_iff [OF assms] deps_closed_def
      list_all_iff)

text \<open>
  Validation accepts a graph exactly when every dependency names a node of the graph and
  the dependency relation is acyclic (which rules out self-dependencies too).
\<close>

lemma Graph_Validate_iff:
  assumes "graph_wf g"
  shows "Graph_Validate g = None \<longleftrightarrow> deps_closed g \<and> acyclic (graph_rel g)"
  by (rule Validate_iff [OF assms])

definition ex_wp :: "string \<Rightarrow> string list \<Rightarrow> WorkPackage" where
  "ex_wp k ds = \<lparr>wp_ID = k, wp_Title = [], wp_Role = [], wp_Capabilities = [''run_tests''],
     wp_DependsOn = ds, wp_Acceptance = [], wp_State = StateOther []\<rparr>"

definition ex_graph :: Graph where
  "ex_graph = ok_val (NewGraph ''p'' ''g'')
     (Graph_Add (ok_val (NewGraph ''p'' ''g'') (Graph_Add (NewGraph ''p'' ''g'') (ex_wp ''b'' [''a''])))
        (ex_wp ''a'' []))"

lemma ex_graph_eq:
  "ex_graph = \<lparr>g_ProjectID = ''p'', g_ID = ''g'', g_Revision = 1,
     g_nodes = fmupd ''a'' ((ex_wp ''a'' [])\<lparr>wp_State := StateProposed\<rparr>)
       (fmupd ''b'' ((ex_wp ''b'' [''a''])\<lparr>wp_State := StateProposed\<rparr>) fmempty),
     g_order = [''b'', ''a'']\<rparr>"
  by (simp add: ex_graph_def Graph_Add_def NewGraph_def ex_wp_def Let_def)

lemma ex_graph_wf: "graph_wf ex_graph"
  by (auto simp: graph_wf_def ex_graph_eq)

lemma ex_graph_order: "g_order ex_graph = [''b'', ''a'']"
  by (simp add: ex_graph_eq)

lemma ex_graph_nodes:
  "Graph_node ex_graph ''a'' = (ex_wp ''a'' [])\<lparr>wp_State := StateProposed\<rparr>"
  "Graph_node ex_graph ''b'' = (ex_wp ''b'' [''a''])\<lparr>wp_State := StateProposed\<rparr>"
  by (simp_all add: Graph_node_def ex_graph_eq)

lemma ex_graph_topological: "Graph_Topological ex_graph = Ok [''a'', ''b'']"
  by (simp add: Graph_Topological_def Let_def topo_run_def Graph_children_def Graph_indegree_def
      add_child_def ex_graph_eq Graph_node_def ex_wp_def fm_getd_fmmap_sort)

lemma ex_graph_valid: "Graph_Validate ex_graph = None"
  unfolding Graph_Validate_def ex_graph_topological
  by (simp add: check_dep_def ex_graph_eq Graph_node_def ex_wp_def)



section \<open>Readiness\<close>

lemma node_ready_iff:
  "node_ready g k \<longleftrightarrow> wp_State (Graph_node g k) \<in> {StateProposed, StateReady}
     \<and> (\<forall>d\<in>set (Graph_deps g k). \<exists>wp. fmlookup (g_nodes g) d = Some wp \<and> wp_State wp = StateCompleted)"
  by (auto simp: node_ready_def list_ex_iff dep_blocked_def split: option.splits)

lemma set_Graph_Ready: "set (Graph_Ready g) = {k \<in> set (g_order g). node_ready g k}"
  by (auto simp: Graph_Ready_def)

lemma distinct_Graph_Ready: "graph_wf g \<Longrightarrow> distinct (Graph_Ready g)"
  by (simp add: Graph_Ready_def graph_wf_def)

lemma sorted_Graph_Ready: "sorted (Graph_Ready g)"
  by (simp add: Graph_Ready_def)

text \<open>A node that is neither finished nor failed: the state from which it can still be dispatched.\<close>

definition open_state :: "wp_state \<Rightarrow> bool" where
  "open_state st \<longleftrightarrow> st = StateProposed \<or> st = StateReady"

text \<open>
  Progress: in a validated graph whose nodes are all completed or still to be dispatched,
  some node is ready unless every node is completed. Dispatch never deadlocks on dependencies.
\<close>

lemma Graph_Ready_progress:
  assumes wf: "graph_wf g" and valid: "Graph_Validate g = None"
    and states: "\<forall>k\<in>set (g_order g). open_state (wp_State (Graph_node g k))
        \<or> wp_State (Graph_node g k) = StateCompleted"
    and todo: "\<exists>k\<in>set (g_order g). wp_State (Graph_node g k) \<noteq> StateCompleted"
  shows "Graph_Ready g \<noteq> []"
proof -
  let ?S = "{k \<in> set (g_order g). wp_State (Graph_node g k) \<noteq> StateCompleted}"
  from valid wf have closed: "deps_closed g" and "acyclic (graph_rel g)"
    by (auto simp: Validate_iff)
  then have "wf (graph_rel g)" by (intro finite_acyclic_wf) auto
  moreover from todo have "\<exists>k. k \<in> ?S" by auto
  ultimately obtain k where k: "k \<in> ?S" and least: "\<And>d. (d, k) \<in> graph_rel g \<Longrightarrow> d \<notin> ?S"
    by (metis (lifting) wfE_min)
  have "fmlookup (g_nodes g) d = Some (Graph_node g d) \<and> wp_State (Graph_node g d) = StateCompleted"
    if "d \<in> set (Graph_deps g k)" for d
  proof -
    from that k closed have "d \<in> set (g_order g)" by (auto simp: deps_closed_def list_all_iff)
    moreover from that k have "(d, k) \<in> graph_rel g" by (auto simp: dep_rel_def)
    ultimately show ?thesis using least graph_wf_node [OF wf] by auto
  qed
  with k states have "node_ready g k" by (auto simp: node_ready_iff open_state_def)
  with k have "k \<in> set (Graph_Ready g)" by (simp add: set_Graph_Ready)
  then show ?thesis by auto
qed

lemma Graph_SetState_rel: "Graph_SetState g k st = Ok g' \<Longrightarrow> graph_rel g' = graph_rel g"
  by (simp add: Graph_SetState_order Graph_SetState_deps)

lemma Graph_SetState_Validate:
  assumes "graph_wf g" and "Graph_SetState g k st = Ok g'"
  shows "Graph_Validate g' = None \<longleftrightarrow> Graph_Validate g = None"
proof -
  have "deps_closed g' = deps_closed g"
    using assms(2) by (simp add: deps_closed_def Graph_SetState_order Graph_SetState_deps)
  then show ?thesis
    using assms graph_wf_SetState [OF assms]
    by (simp add: Validate_iff Graph_SetState_rel)
qed

text \<open>
  \<open>Ready\<close> is exactly the set of undispatched nodes whose dependencies are all completed,
  sorted and without repetition.
\<close>

lemma Graph_Ready_correct:
  assumes "graph_wf g"
  shows "sorted (Graph_Ready g) \<and> distinct (Graph_Ready g) \<and>
    (\<forall>k. k \<in> set (Graph_Ready g) \<longleftrightarrow>
      (\<exists>wp. Graph_Get g k = Some wp \<and> open_state (wp_State wp)
         \<and> (\<forall>d\<in>set (wp_DependsOn wp). \<exists>dwp. Graph_Get g d = Some dwp \<and> wp_State dwp = StateCompleted)))"
proof -
  have "k \<in> set (g_order g) \<longleftrightarrow> (\<exists>wp. fmlookup (g_nodes g) k = Some wp)" for k
    using assms by (simp add: graph_wf_def in_fmdom'_iff)
  then show ?thesis
    using assms graph_wf_node [OF assms]
    by (fastforce simp: sorted_Graph_Ready distinct_Graph_Ready set_Graph_Ready node_ready_iff
        Graph_Get_def open_state_def)
qed

text \<open>
  \<open>Add\<close> rejects an empty id and a repeated id, otherwise it keeps the graph well formed,
  stores the package under its id with the state defaulted to \<open>PROPOSED\<close>, appends the id to the
  order and leaves every other node alone.
\<close>

lemma Graph_Add_spec:
  assumes "graph_wf g"
  shows "(case Graph_Add g wp of
      Inl e \<Rightarrow> (e = PlanIDRequired \<and> wp_ID wp = [])
        \<or> (e = PlanDuplicate (wp_ID wp) \<and> wp_ID wp \<in> set (g_order g))
    | Inr g' \<Rightarrow> wp_ID wp \<notin> set (g_order g) \<and> graph_wf g' \<and> g_order g' = g_order g @ [wp_ID wp]
        \<and> (\<forall>k. Graph_Get g' k = (if k = wp_ID wp
             then Some (if wp_State wp = StateOther [] then wp\<lparr>wp_State := StateProposed\<rparr> else wp)
             else Graph_Get g k)))"
proof (cases "Graph_Add g wp")
  case (Inl e)
  then show ?thesis
    using assms by (auto simp: Graph_Add_def Let_def graph_wf_def in_fmdom'_iff split: if_splits)
next
  case (Inr g')
  with graph_wf_Add [OF assms Inr] show ?thesis
    using assms
    by (auto simp: Graph_Add_def Graph_Get_def Let_def graph_wf_def in_fmdom'_iff split: if_splits)
qed

end
