(* ===== verification/Assignment.thy ===== *)
theory Assignment
  imports Prelude "HOL-Library.Sublist"
begin

text \<open>
  \<open>kernel/scheduler/assignment.go\<close>: the assignment state machine and its leases. Transitions
  fail closed: a move that is not in the table returns \<open>ErrInvalidTransition\<close> and leaves the
  assignment as it was. A state string outside the registry (possible after a restore from a
  durable record) is \<open>AsgOther\<close> and has no outgoing transition.
\<close>

section \<open>Data\<close>

datatype asg_state = AsgPlanned | AsgLeased | AsgPreparing | AsgRunning | AsgPaused | AsgCollecting
  | AsgAwaitingGates | AsgAccepted | AsgFailed | AsgCanceled | AsgExpired | AsgOther string

datatype asg_error = ErrInvalidTransition asg_state asg_state | ErrCannotRetry asg_state

record Lease =
  l_Owner :: string
  l_ExpiresAt :: time

record Assignment =
  a_ID :: string
  a_ProjectID :: string
  a_WorkPackageID :: string
  a_WorkerID :: string
  a_State :: asg_state
  a_Lease :: Lease
  a_Attempt :: int

section \<open>Operations\<close>

fun transitions :: "asg_state \<Rightarrow> asg_state set" where
  "transitions AsgPlanned = {AsgLeased, AsgCanceled}"
| "transitions AsgLeased = {AsgPreparing, AsgExpired, AsgCanceled}"
| "transitions AsgPreparing = {AsgRunning, AsgFailed, AsgExpired, AsgCanceled}"
| "transitions AsgRunning = {AsgPaused, AsgCollecting, AsgFailed, AsgCanceled}"
| "transitions AsgPaused = {AsgRunning, AsgFailed, AsgCanceled}"
| "transitions AsgCollecting = {AsgAwaitingGates, AsgFailed}"
| "transitions AsgAwaitingGates = {AsgAccepted, AsgFailed}"
| "transitions AsgAccepted = {}"
| "transitions AsgFailed = {AsgPlanned}"
| "transitions AsgCanceled = {}"
| "transitions AsgExpired = {AsgPlanned}"
| "transitions (AsgOther _) = {}"

definition Lease_zero :: Lease where
  "Lease_zero = \<lparr>l_Owner = [], l_ExpiresAt = 0\<rparr>"

definition Lease_Expired :: "Lease \<Rightarrow> time \<Rightarrow> bool" where
  "Lease_Expired l now \<longleftrightarrow> \<not> now < l_ExpiresAt l"

definition NewAssignment :: "string \<Rightarrow> string \<Rightarrow> string \<Rightarrow> string \<Rightarrow> Assignment" where
  "NewAssignment aid projectID workPackageID workerID =
     \<lparr>a_ID = aid, a_ProjectID = projectID, a_WorkPackageID = workPackageID, a_WorkerID = workerID,
      a_State = AsgPlanned, a_Lease = Lease_zero, a_Attempt = 0\<rparr>"

definition Assignment_Transition :: "Assignment \<Rightarrow> asg_state \<Rightarrow> asg_error + Assignment" where
  "Assignment_Transition a to =
     (if a_State a = to then Ok a
      else if to \<notin> transitions (a_State a) then Err (ErrInvalidTransition (a_State a) to)
      else Ok (a\<lparr>a_State := to\<rparr>))"

definition Assignment_CanTransition :: "Assignment \<Rightarrow> asg_state \<Rightarrow> bool" where
  "Assignment_CanTransition a to \<longleftrightarrow> a_State a = to \<or> to \<in> transitions (a_State a)"

definition Assignment_LeaseFor :: "Assignment \<Rightarrow> string \<Rightarrow> time \<Rightarrow> int \<Rightarrow> Assignment" where
  "Assignment_LeaseFor a owner now ttl = a\<lparr>a_Lease := \<lparr>l_Owner = owner, l_ExpiresAt = now + ttl\<rparr>\<rparr>"

definition Assignment_Expire :: "Assignment \<Rightarrow> time \<Rightarrow> asg_error + Assignment" where
  "Assignment_Expire a now =
     (if a_State a \<noteq> AsgLeased \<and> a_State a \<noteq> AsgPreparing then Ok a
      else if \<not> Lease_Expired (a_Lease a) now then Ok a
      else Assignment_Transition a AsgExpired)"

definition Assignment_Retry :: "Assignment \<Rightarrow> asg_error + Assignment" where
  "Assignment_Retry a =
     (if a_State a \<noteq> AsgExpired \<and> a_State a \<noteq> AsgFailed then Err (ErrCannotRetry (a_State a))
      else (case Assignment_Transition a AsgPlanned of
              Inl e \<Rightarrow> Err e
            | Inr a' \<Rightarrow> Ok (a'\<lparr>a_Attempt := a_Attempt a' + 1, a_Lease := Lease_zero\<rparr>)))"

text \<open>The callers that write \<open>_ = a.Transition(to)\<close> drop the error and keep the old state.\<close>

definition Assignment_force :: "Assignment \<Rightarrow> asg_state \<Rightarrow> Assignment" where
  "Assignment_force a to = ok_val a (Assignment_Transition a to)"

section \<open>Lemmas\<close>

lemma Transition_ok_iff: "is_Ok (Assignment_Transition a to) \<longleftrightarrow> Assignment_CanTransition a to"
  by (simp add: Assignment_Transition_def Assignment_CanTransition_def)

lemma Transition_state: "Assignment_Transition a to = Ok a' \<Longrightarrow> a' = a\<lparr>a_State := to\<rparr>"
  by (auto simp: Assignment_Transition_def split: if_splits)

lemma Assignment_force_id [simp]:
  "a_ID (Assignment_force a to) = a_ID a"
  "a_WorkPackageID (Assignment_force a to) = a_WorkPackageID a"
  "a_WorkerID (Assignment_force a to) = a_WorkerID a"
  "a_ProjectID (Assignment_force a to) = a_ProjectID a"
  "a_Attempt (Assignment_force a to) = a_Attempt a"
  "a_Lease (Assignment_force a to) = a_Lease a"
  by (auto simp: Assignment_force_def Assignment_Transition_def)

lemma Assignment_force_state:
  "a_State (Assignment_force a to) = (if Assignment_CanTransition a to then to else a_State a)"
  by (auto simp: Assignment_force_def Assignment_Transition_def Assignment_CanTransition_def)

lemma Expire_total: "\<exists>a'. Assignment_Expire a now = Ok a'"
  by (auto simp: Assignment_Expire_def Assignment_Transition_def)

section \<open>Histories\<close>

text \<open>A history is the list of states an assignment has gone through.\<close>

inductive asg_history :: "asg_state list \<Rightarrow> bool" where
  start: "asg_history [AsgPlanned]"
| move: "asg_history (h @ [s]) \<Longrightarrow> t \<in> transitions s \<Longrightarrow> asg_history (h @ [s, t])"

text \<open>The states that must already have been visited when a state is reached.\<close>

fun must_visit :: "asg_state \<Rightarrow> asg_state list" where
  "must_visit AsgPlanned = [AsgPlanned]"
| "must_visit AsgLeased = [AsgPlanned, AsgLeased]"
| "must_visit AsgPreparing = [AsgPlanned, AsgLeased, AsgPreparing]"
| "must_visit AsgRunning = [AsgPlanned, AsgLeased, AsgPreparing, AsgRunning]"
| "must_visit AsgPaused = [AsgPlanned, AsgLeased, AsgPreparing, AsgRunning, AsgPaused]"
| "must_visit AsgCollecting = [AsgPlanned, AsgLeased, AsgPreparing, AsgRunning, AsgCollecting]"
| "must_visit AsgAwaitingGates =
     [AsgPlanned, AsgLeased, AsgPreparing, AsgRunning, AsgCollecting, AsgAwaitingGates]"
| "must_visit AsgAccepted =
     [AsgPlanned, AsgLeased, AsgPreparing, AsgRunning, AsgCollecting, AsgAwaitingGates, AsgAccepted]"
| "must_visit AsgFailed = [AsgPlanned, AsgLeased, AsgPreparing, AsgFailed]"
| "must_visit AsgExpired = [AsgPlanned, AsgLeased, AsgExpired]"
| "must_visit AsgCanceled = [AsgPlanned, AsgCanceled]"
| "must_visit _ = []"

lemma subseq_step:
  assumes "subseq (must_visit s) xs" and "t \<in> transitions s"
  shows "subseq (must_visit t) (xs @ [t])"
proof -
  have "must_visit t = [] \<or> (\<exists>ys. subseq ys (must_visit s) \<and> must_visit t = ys @ [t])"
    using assms(2) by (cases s) auto
  moreover have "subseq (ys @ [t]) (xs @ [t])" if "subseq ys (must_visit s)" for ys
    using subseq_order.order_trans [OF that assms(1)] by (intro list_emb_append_mono) auto
  ultimately show ?thesis by auto
qed

text \<open>
  No assignment is accepted without having been leased, prepared, run, collected and put
  before the gates, in that order, whatever retries, pauses and expiries happened in between.
\<close>

lemma accepted_went_through_gates:
  assumes "asg_history h" and "last h = AsgAccepted"
  shows "subseq [AsgPlanned, AsgLeased, AsgPreparing, AsgRunning, AsgCollecting, AsgAwaitingGates,
    AsgAccepted] h"
proof -
  from assms(1) have "subseq (must_visit (last h)) h"
  proof induction
    case (move h s t)
    from subseq_step [OF move.IH [simplified] move.hyps(2)] show ?case by simp
  qed simp
  with assms(2) show ?thesis by simp
qed

section \<open>Runs of operations\<close>

text \<open>A caller's operations in sequence; a failing operation leaves the assignment unchanged.\<close>

datatype asg_op = OpTransition asg_state | OpLeaseFor string time int | OpExpire time | OpRetry

fun asg_apply :: "asg_op \<Rightarrow> Assignment \<Rightarrow> asg_error + Assignment" where
  "asg_apply (OpTransition to) a = Assignment_Transition a to"
| "asg_apply (OpLeaseFor owner now ttl) a = Ok (Assignment_LeaseFor a owner now ttl)"
| "asg_apply (OpExpire now) a = Assignment_Expire a now"
| "asg_apply OpRetry a = Assignment_Retry a"

fun asg_run :: "asg_op list \<Rightarrow> Assignment \<Rightarrow> Assignment" where
  "asg_run [] a = a"
| "asg_run (p # ps) a = asg_run ps (ok_val a (asg_apply p a))"

fun retries :: "asg_op list \<Rightarrow> Assignment \<Rightarrow> nat" where
  "retries [] a = 0"
| "retries (p # ps) a =
     (if p = OpRetry \<and> is_Ok (Assignment_Retry a) then 1 else 0) + retries ps (ok_val a (asg_apply p a))"

lemma asg_apply_terminal:
  "a_State a \<in> {AsgAccepted, AsgCanceled} \<Longrightarrow> a_State (ok_val a (asg_apply p a)) = a_State a"
  by (cases p) (auto simp: Assignment_Transition_def Assignment_LeaseFor_def Assignment_Expire_def
      Assignment_Retry_def)

text \<open>
  Accepted and canceled assignments are final: no sequence of transitions, leases, expiries
  and retries changes their state.
\<close>

lemma terminal_absorbing:
  "a_State a \<in> {AsgAccepted, AsgCanceled} \<Longrightarrow> a_State (asg_run ps a) = a_State a"
proof (induction ps arbitrary: a)
  case (Cons p ps)
  then show ?case using asg_apply_terminal [OF Cons.prems, of p] by simp
qed simp

lemma asg_apply_attempt:
  "a_Attempt (ok_val a (asg_apply p a))
     = a_Attempt a + (if p = OpRetry \<and> is_Ok (Assignment_Retry a) then 1 else 0)"
  by (cases p) (auto simp: Assignment_Transition_def Assignment_LeaseFor_def Assignment_Expire_def
      Assignment_Retry_def split: sum.splits)

text \<open>The attempt counter counts exactly the successful retries.\<close>

lemma attempt_counts_retries: "a_Attempt (asg_run ps a) = a_Attempt a + int (retries ps a)"
proof (induction ps arbitrary: a)
  case (Cons p ps)
  then show ?case using asg_apply_attempt [of a p] by (auto split: if_splits)
qed simp

text \<open>
  \<open>Expire\<close> never fails; it moves to \<open>expired\<close> exactly the leased or preparing assignments whose
  lease deadline has been reached, and touches nothing else.
\<close>

lemma Expire_spec:
  "Assignment_Expire a now =
     Ok (if (a_State a = AsgLeased \<or> a_State a = AsgPreparing) \<and> l_ExpiresAt (a_Lease a) \<le> now
         then a\<lparr>a_State := AsgExpired\<rparr> else a)"
  by (auto simp: Assignment_Expire_def Assignment_Transition_def Lease_Expired_def)

end
