(* ===== verification/Gate.thy ===== *)
theory Gate
  imports Prelude
begin

text \<open>
  \<open>kernel/gate/gate.go\<close>: acceptance gates. \<open>TestsGate\<close> looks at the reported tests, \<open>HumanGate\<close>
  keeps explicit decisions per work package; a gate from elsewhere is \<open>OtherGate\<close> with its name
  and its evaluation function. \<open>Gates_Evaluate\<close> is the package function \<open>Evaluate\<close>, which runs the
  gates in name order and combines their decisions.
\<close>

section \<open>Data\<close>

record TestSummary =
  ts_Name :: string
  ts_Outcome :: string

record Subject =
  s_WorkPackageID :: string
  s_Status :: string
  s_Tests :: "TestSummary list"
  s_ContractID :: string

record Decision =
  d_Gate :: string
  d_Passed :: bool
  d_Pending :: bool
  d_Reason :: string

record HumanGateState =
  hg_approved :: "(string, bool) fmap"
  hg_rejected :: "(string, string) fmap"

datatype Gate = TestsGate | HumanGate HumanGateState | OtherGate string "Subject \<Rightarrow> Decision"

record Report =
  r_Passed :: bool
  r_Pending :: bool
  r_Decisions :: "Decision list"

section \<open>Single gates\<close>

fun tests_decide :: "TestSummary list \<Rightarrow> Decision" where
  "tests_decide [] =
     \<lparr>d_Gate = ''tests'', d_Passed = True, d_Pending = False, d_Reason = ''all tests passed''\<rparr>"
| "tests_decide (t # ts) =
     (if ts_Outcome t \<noteq> ''passed''
      then \<lparr>d_Gate = ''tests'', d_Passed = False, d_Pending = False,
            d_Reason = ''test did not pass: '' @ ts_Name t\<rparr>
      else tests_decide ts)"

definition TestsGate_Evaluate :: "Subject \<Rightarrow> Decision" where
  "TestsGate_Evaluate s =
     (if s_Tests s = []
      then \<lparr>d_Gate = ''tests'', d_Passed = False, d_Pending = False, d_Reason = ''no tests reported''\<rparr>
      else tests_decide (s_Tests s))"

definition NewHumanGate :: HumanGateState where
  "NewHumanGate = \<lparr>hg_approved = fmempty, hg_rejected = fmempty\<rparr>"

definition HumanGate_Approve :: "HumanGateState \<Rightarrow> string \<Rightarrow> HumanGateState" where
  "HumanGate_Approve g wp = g\<lparr>hg_approved := fmupd wp True (hg_approved g)\<rparr>"

definition HumanGate_Reject :: "HumanGateState \<Rightarrow> string \<Rightarrow> string \<Rightarrow> HumanGateState" where
  "HumanGate_Reject g wp reason =
     g\<lparr>hg_approved := fmdrop wp (hg_approved g), hg_rejected := fmupd wp reason (hg_rejected g)\<rparr>"

definition HumanGate_Evaluate :: "HumanGateState \<Rightarrow> Subject \<Rightarrow> Decision" where
  "HumanGate_Evaluate g s =
     (case fmlookup (hg_rejected g) (s_WorkPackageID s) of
        Some reason \<Rightarrow>
          \<lparr>d_Gate = ''human_review'', d_Passed = False, d_Pending = False,
           d_Reason = ''rejected: '' @ (if reason = [] then ''no reason given'' else reason)\<rparr>
      | None \<Rightarrow>
          (if fm_getd False (hg_approved g) (s_WorkPackageID s)
           then \<lparr>d_Gate = ''human_review'', d_Passed = True, d_Pending = False, d_Reason = ''approved''\<rparr>
           else \<lparr>d_Gate = ''human_review'', d_Passed = False, d_Pending = True,
                 d_Reason = ''awaiting human approval''\<rparr>))"

fun Gate_Name :: "Gate \<Rightarrow> string" where
  "Gate_Name TestsGate = ''tests''"
| "Gate_Name (HumanGate _) = ''human_review''"
| "Gate_Name (OtherGate n _) = n"

fun Gate_Evaluate :: "Gate \<Rightarrow> Subject \<Rightarrow> Decision" where
  "Gate_Evaluate TestsGate s = TestsGate_Evaluate s"
| "Gate_Evaluate (HumanGate g) s = HumanGate_Evaluate g s"
| "Gate_Evaluate (OtherGate _ f) s = f s"

section \<open>The combined report\<close>

fun combine :: "Report \<Rightarrow> Decision list \<Rightarrow> Report" where
  "combine r [] = r"
| "combine r (d # ds) =
     (let r1 = r\<lparr>r_Decisions := r_Decisions r @ [d]\<rparr> in
      if d_Pending d then combine (r1\<lparr>r_Pending := True, r_Passed := False\<rparr>) ds
      else if \<not> d_Passed d then combine (r1\<lparr>r_Passed := False\<rparr>) ds
      else combine r1 ds)"

definition Gates_Evaluate :: "Gate list \<Rightarrow> Subject \<Rightarrow> Report" where
  "Gates_Evaluate gates s =
     combine \<lparr>r_Passed = True, r_Pending = False, r_Decisions = []\<rparr>
       (map (\<lambda>g. Gate_Evaluate g s) (sort_key Gate_Name gates))"

lemma combine_Passed:
  "r_Passed (combine r ds) \<longleftrightarrow> r_Passed r \<and> (\<forall>d\<in>set ds. d_Passed d \<and> \<not> d_Pending d)"
  by (induction r ds rule: combine.induct) (auto simp: Let_def)

lemma combine_Pending: "r_Pending (combine r ds) \<longleftrightarrow> r_Pending r \<or> (\<exists>d\<in>set ds. d_Pending d)"
  by (induction r ds rule: combine.induct) (auto simp: Let_def)

lemma combine_Decisions: "r_Decisions (combine r ds) = r_Decisions r @ ds"
  by (induction r ds rule: combine.induct) (auto simp: Let_def)

lemma Gates_Evaluate_Passed:
  "r_Passed (Gates_Evaluate gates s) \<longleftrightarrow>
     (\<forall>g\<in>set gates. d_Passed (Gate_Evaluate g s) \<and> \<not> d_Pending (Gate_Evaluate g s))"
  by (simp add: Gates_Evaluate_def combine_Passed)

lemma Gates_Evaluate_Pending:
  "r_Pending (Gates_Evaluate gates s) \<longleftrightarrow> (\<exists>g\<in>set gates. d_Pending (Gate_Evaluate g s))"
  by (simp add: Gates_Evaluate_def combine_Pending)

text \<open>
  The combined report passes exactly when every gate passes and none is pending, it is
  pending exactly when some gate is, never both, and it lists one decision per gate in gate-name
  order.
\<close>

lemma Gates_Evaluate_spec:
  "(let r = Gates_Evaluate gates s in
     (r_Passed r \<longleftrightarrow> list_all (\<lambda>g. d_Passed (Gate_Evaluate g s) \<and> \<not> d_Pending (Gate_Evaluate g s)) gates)
   \<and> (r_Pending r \<longleftrightarrow> list_ex (\<lambda>g. d_Pending (Gate_Evaluate g s)) gates)
   \<and> \<not> (r_Passed r \<and> r_Pending r)
   \<and> r_Decisions r = map (\<lambda>g. Gate_Evaluate g s) (sort_key Gate_Name gates))"
  unfolding Let_def Gates_Evaluate_Passed Gates_Evaluate_Pending list_all_iff list_ex_iff
  by (auto simp: Gates_Evaluate_def combine_Decisions)

section \<open>The gate contract\<close>

text \<open>
  What the scheduler relies on when it calls a gate: the decision carries the gate's name and a
  pending decision is not a pass. \<open>lawful\<close> picks out the gates that promise this; a gate from
  elsewhere may or may not.
\<close>

locale gate_contract =
  fixes lawful :: "'g \<Rightarrow> bool"
    and gname :: "'g \<Rightarrow> string"
    and eval :: "'g \<Rightarrow> Subject \<Rightarrow> Decision"
  assumes decision_named: "lawful g \<Longrightarrow> d_Gate (eval g s) = gname g"
    and pending_not_passed: "lawful g \<Longrightarrow> d_Pending (eval g s) \<Longrightarrow> \<not> d_Passed (eval g s)"
begin

lemma lawful_report_passed:
  "\<forall>g\<in>set gs. lawful g \<Longrightarrow>
     r_Passed (combine \<lparr>r_Passed = True, r_Pending = False, r_Decisions = []\<rparr> (map (\<lambda>g. eval g s) gs))
       \<longleftrightarrow> (\<forall>g\<in>set gs. d_Passed (eval g s))"
  using pending_not_passed by (auto simp: combine_Passed)

lemma lawful_report_names:
  "\<forall>g\<in>set gs. lawful g \<Longrightarrow> map d_Gate (map (\<lambda>g. eval g s) gs) = map gname gs"
  by (simp add: decision_named)

end

fun builtin_gate :: "Gate \<Rightarrow> bool" where
  "builtin_gate (OtherGate _ _) = False"
| "builtin_gate _ = True"

lemma tests_decide_fields: "d_Gate (tests_decide ts) = ''tests''" "\<not> d_Pending (tests_decide ts)"
  by (induction ts) auto

lemma tests_decide_Passed: "d_Passed (tests_decide ts) \<longleftrightarrow> (\<forall>t\<in>set ts. ts_Outcome t = ''passed'')"
  by (induction ts) auto

lemma TestsGate_Passed:
  "d_Passed (TestsGate_Evaluate s) \<longleftrightarrow> s_Tests s \<noteq> [] \<and> (\<forall>t\<in>set (s_Tests s). ts_Outcome t = ''passed'')"
  by (simp add: TestsGate_Evaluate_def tests_decide_Passed)

lemma HumanGate_fields:
  "d_Gate (HumanGate_Evaluate g s) = ''human_review''"
  "d_Passed (HumanGate_Evaluate g s) \<longleftrightarrow>
     fmlookup (hg_rejected g) (s_WorkPackageID s) = None \<and> fm_getd False (hg_approved g) (s_WorkPackageID s)"
  "d_Pending (HumanGate_Evaluate g s) \<longleftrightarrow>
     fmlookup (hg_rejected g) (s_WorkPackageID s) = None \<and> \<not> fm_getd False (hg_approved g) (s_WorkPackageID s)"
  by (auto simp: HumanGate_Evaluate_def split: option.splits)

interpretation builtin: gate_contract builtin_gate Gate_Name Gate_Evaluate
proof
  fix g s assume "builtin_gate g"
  then show "d_Gate (Gate_Evaluate g s) = Gate_Name g"
    by (cases g) (auto simp: TestsGate_Evaluate_def tests_decide_fields HumanGate_fields)
next
  fix g s assume "builtin_gate g" "d_Pending (Gate_Evaluate g s)"
  then show "\<not> d_Passed (Gate_Evaluate g s)"
    by (cases g) (auto simp: TestsGate_Evaluate_def tests_decide_fields HumanGate_fields split: if_splits)
qed

text \<open>
  With the gates the repository provides, work passes exactly when tests were reported and
  all passed (if the tests gate is configured) and every human gate holds an approval that no
  rejection has overridden.
\<close>

lemma builtin_report_passed:
  assumes "list_all builtin_gate gates"
  shows "r_Passed (Gates_Evaluate gates s) \<longleftrightarrow>
     (TestsGate \<in> set gates \<longrightarrow> s_Tests s \<noteq> [] \<and> list_all (\<lambda>t. ts_Outcome t = ''passed'') (s_Tests s))
   \<and> (\<forall>h. HumanGate h \<in> set gates \<longrightarrow>
        fmlookup (hg_rejected h) (s_WorkPackageID s) = None
        \<and> fm_getd False (hg_approved h) (s_WorkPackageID s))"
proof -
  have "r_Passed (Gates_Evaluate gates s) \<longleftrightarrow> (\<forall>g\<in>set gates. d_Passed (Gate_Evaluate g s))"
    using builtin.lawful_report_passed [of "sort_key Gate_Name gates" s] assms
    by (simp add: Gates_Evaluate_def list_all_iff)
  also have "\<dots> \<longleftrightarrow> (TestsGate \<in> set gates \<longrightarrow> d_Passed (TestsGate_Evaluate s))
      \<and> (\<forall>h. HumanGate h \<in> set gates \<longrightarrow> d_Passed (HumanGate_Evaluate h s))"
    using assms unfolding list_all_iff
    by (metis Gate_Evaluate.simps(1,2) builtin_gate.simps(1) Gate.exhaust)
  finally show ?thesis by (simp add: TestsGate_Passed HumanGate_fields list_all_iff)
qed

definition ex_subject :: Subject where
  "ex_subject = \<lparr>s_WorkPackageID = ''w'', s_Status = ''succeeded'',
     s_Tests = [\<lparr>ts_Name = ''t'', ts_Outcome = ''passed''\<rparr>], s_ContractID = []\<rparr>"

section \<open>Human decisions over time\<close>

datatype human_op = HApprove string | HReject string string

fun human_apply :: "human_op \<Rightarrow> HumanGateState \<Rightarrow> HumanGateState" where
  "human_apply (HApprove wp) g = HumanGate_Approve g wp"
| "human_apply (HReject wp r) g = HumanGate_Reject g wp r"

definition human_run :: "human_op list \<Rightarrow> HumanGateState \<Rightarrow> HumanGateState" where
  "human_run ops g = fold human_apply ops g"

lemma human_run_rejected:
  "fmlookup (hg_rejected (human_run ops g)) wp \<noteq> None \<longleftrightarrow>
     fmlookup (hg_rejected g) wp \<noteq> None \<or> (\<exists>r. HReject wp r \<in> set ops)"
proof (induction ops arbitrary: g)
  case (Cons p ops)
  have "human_run (p # ops) g = human_run ops (human_apply p g)" by (simp add: human_run_def)
  with Cons [of "human_apply p g"] show ?case
    by (cases p) (auto simp: HumanGate_Approve_def HumanGate_Reject_def)
qed (simp add: human_run_def)

lemma human_run_approved:
  "\<nexists>r. HReject wp r \<in> set ops \<Longrightarrow>
     fm_getd False (hg_approved (human_run ops g)) wp \<longleftrightarrow>
       fm_getd False (hg_approved g) wp \<or> HApprove wp \<in> set ops"
proof (induction ops arbitrary: g)
  case (Cons p ops)
  have "human_run (p # ops) g = human_run ops (human_apply p g)" by (simp add: human_run_def)
  with Cons(1) [of "human_apply p g"] Cons(2) show ?case
    by (cases p) (auto simp: HumanGate_Approve_def HumanGate_Reject_def fm_getd_def)
qed (simp add: human_run_def)

text \<open>
  From a fresh human gate, a work package passes after any sequence of decisions exactly when
  it was approved at least once and never rejected: a rejection is permanent, whether the
  approval comes before it or after it, and other packages' decisions do not matter.
\<close>

lemma human_gate_history:
  "d_Passed (HumanGate_Evaluate (human_run ops NewHumanGate) s) \<longleftrightarrow>
     HApprove (s_WorkPackageID s) \<in> set ops \<and> (\<nexists>r. HReject (s_WorkPackageID s) r \<in> set ops)"
  using human_run_rejected [of ops NewHumanGate "s_WorkPackageID s"]
    human_run_approved [of "s_WorkPackageID s" ops NewHumanGate]
  by (auto simp: HumanGate_fields NewHumanGate_def)

end
