(* ===== verification/Contract.thy ===== *)
theory Contract
  imports Prelude
begin

text \<open>
  \<open>registry/capabilities/capabilities.go\<close> and \<open>kernel/contract/contract.go\<close>: the closed capability
  vocabulary and the least-privilege execution contract. The budget is carried through unread, so
  its type is a parameter. \<open>digest\<close> stands for \<open>computeDigest\<close>'s standard-library part, the JSON
  encoding of the contract with an empty digest followed by its SHA-256 in hex; encoding can fail
  (JSON has no encoding for some floats), so it is a sum.
\<close>

section \<open>Data\<close>

definition capabilities_Known :: "string list" where
  "capabilities_Known = [''read_project'', ''write_workspace'', ''execute_command'', ''run_tests'',
     ''network_access'', ''install_dependencies'', ''call_model'', ''read_secrets'',
     ''create_artifact'', ''open_pull_request'', ''merge'', ''deploy'']"

record RuntimeSpec =
  rs_Kind :: string
  rs_Provider :: string
  rs_Model :: string
  rs_NodeID :: string

record 'b Contract =
  c_ID :: string
  c_ProjectID :: string
  c_WorkPackageID :: string
  c_AssignmentID :: string
  c_Capabilities :: "string list"
  c_Denied :: "string list"
  c_Runtime :: "RuntimeSpec option"
  c_Budget :: 'b
  c_Gates :: "string list"
  c_Digest :: string

record 'b ContractRequest =
  cr_ID :: string
  cr_ProjectID :: string
  cr_WorkPackageID :: string
  cr_AssignmentID :: string
  cr_Requested :: "string list"
  cr_Permitted :: "string list"
  cr_Budget :: 'b
  cr_Runtime :: "RuntimeSpec option"
  cr_Gates :: "string list"

datatype contract_error = ContractIDsRequired | UnknownCapability string | DigestFailed

section \<open>Operations\<close>

fun unique_loop :: "string list \<Rightarrow> string list \<Rightarrow> string list \<Rightarrow> string list" where
  "unique_loop seen out [] = out"
| "unique_loop seen out (v # vs) =
     (if v = [] \<or> v \<in> set seen then unique_loop seen out vs
      else unique_loop (v # seen) (out @ [v]) vs)"

definition sortedUnique :: "string list \<Rightarrow> string list" where
  "sortedUnique values = sort (unique_loop [] [] values)"

definition check_capability :: "string \<Rightarrow> contract_error option" where
  "check_capability cap = (if cap \<in> set capabilities_Known then None else Some (UnknownCapability cap))"

definition Contract_Build ::
  "('b Contract \<Rightarrow> unit + string) \<Rightarrow> 'b ContractRequest \<Rightarrow> contract_error + 'b Contract" where
  "Contract_Build digest req =
     (if cr_WorkPackageID req = [] \<or> cr_AssignmentID req = [] then Err ContractIDsRequired
      else case first_err check_capability (cr_Requested req @ cr_Permitted req) of
        Some e \<Rightarrow> Err e
      | None \<Rightarrow>
          let requested = sortedUnique (cr_Requested req);
              granted = filter (\<lambda>cap. cap \<in> set (cr_Permitted req)) requested;
              denied = filter (\<lambda>cap. cap \<notin> set (cr_Permitted req)) requested;
              c = \<lparr>c_ID = cr_ID req, c_ProjectID = cr_ProjectID req,
                   c_WorkPackageID = cr_WorkPackageID req, c_AssignmentID = cr_AssignmentID req,
                   c_Capabilities = granted, c_Denied = denied, c_Runtime = cr_Runtime req,
                   c_Budget = cr_Budget req, c_Gates = sortedUnique (cr_Gates req), c_Digest = []\<rparr>
          in (case digest c of
                Inl _ \<Rightarrow> Err DigestFailed
              | Inr d \<Rightarrow> Ok (c\<lparr>c_Digest := d\<rparr>)))"

definition Contract_Has :: "'b Contract \<Rightarrow> string \<Rightarrow> bool" where
  "Contract_Has c capability = list_ex (\<lambda>x. x = capability) (c_Capabilities c)"

section \<open>Lemmas\<close>

lemma unique_loop_props:
  "set out = set seen \<Longrightarrow> distinct out \<Longrightarrow> [] \<notin> set out \<Longrightarrow>
     set (unique_loop seen out vs) = set out \<union> (set vs - {[]})
     \<and> distinct (unique_loop seen out vs)"
proof (induction seen out vs rule: unique_loop.induct)
  case (2 seen out v vs)
  show ?case
  proof (cases "v = [] \<or> v \<in> set seen")
    case True
    with 2 show ?thesis by auto
  next
    case False
    have "set (unique_loop (v # seen) (out @ [v]) vs) = set (out @ [v]) \<union> (set vs - {[]})
        \<and> distinct (unique_loop (v # seen) (out @ [v]) vs)"
      by (rule 2(2) [OF False]) (use 2 False in auto)
    with False show ?thesis by auto
  qed
qed auto

lemma sortedUnique_props:
  "set (sortedUnique vs) = set vs - {[]}" "distinct (sortedUnique vs)" "sorted (sortedUnique vs)"
  using unique_loop_props [of "[]" "[]" vs] by (simp_all add: sortedUnique_def)

lemma check_capability_None: "check_capability cap = None \<longleftrightarrow> cap \<in> set capabilities_Known"
  by (simp add: check_capability_def)

lemma Nil_not_Known: "[] \<notin> set capabilities_Known"
  by (simp add: capabilities_Known_def)

lemma first_err_capability:
  "first_err check_capability vs =
     (if list_all (\<lambda>cap. cap \<in> set capabilities_Known) vs then None
      else Some (UnknownCapability (hd (filter (\<lambda>cap. cap \<notin> set capabilities_Known) vs))))"
  by (induction vs) (auto simp: check_capability_def)

lemma Contract_Build_ok_iff:
  assumes "\<forall>c. is_Ok (digest c)"
  shows "is_Ok (Contract_Build digest req) \<longleftrightarrow>
     cr_WorkPackageID req \<noteq> [] \<and> cr_AssignmentID req \<noteq> []
     \<and> set (cr_Requested req) \<union> set (cr_Permitted req) \<subseteq> set capabilities_Known"
proof -
  have "digest = (\<lambda>c. Ok (ok_val [] (digest c)))"
  proof
    fix c show "digest c = Ok (ok_val [] (digest c))"
      using assms by (cases "digest c") (auto dest: spec [of _ c])
  qed
  then obtain f where "digest = (\<lambda>c. Ok (f c))" by (rule that)
  then show ?thesis
    by (auto simp: Contract_Build_def Let_def first_err_capability list_all_iff)
qed

text \<open>
  Least privilege. A built contract grants exactly the requested capabilities that the project
  permits and records exactly the other requested ones as denied, each list sorted and without
  repetition; every capability is in the closed vocabulary, and the identifiers, runtime and budget
  are the requested ones.
\<close>

lemma Contract_Build_least_privilege:
  assumes "Contract_Build digest req = Ok c"
  shows "set (c_Capabilities c) = set (cr_Requested req) \<inter> set (cr_Permitted req)
    \<and> set (c_Denied c) = set (cr_Requested req) - set (cr_Permitted req)
    \<and> sorted (c_Capabilities c) \<and> distinct (c_Capabilities c)
    \<and> sorted (c_Denied c) \<and> distinct (c_Denied c)
    \<and> set (cr_Requested req) \<union> set (cr_Permitted req) \<subseteq> set capabilities_Known
    \<and> c_WorkPackageID c = cr_WorkPackageID req \<and> c_AssignmentID c = cr_AssignmentID req
    \<and> c_Runtime c = cr_Runtime req \<and> c_Budget c = cr_Budget req
    \<and> digest (c\<lparr>c_Digest := []\<rparr>) = Ok (c_Digest c)"
proof -
  from assms have known: "set (cr_Requested req) \<union> set (cr_Permitted req) \<subseteq> set capabilities_Known"
    by (auto simp: Contract_Build_def first_err_capability list_all_iff split: if_splits)
  then have "[] \<notin> set (cr_Requested req)" using Nil_not_Known by auto
  with known assms sortedUnique_props [of "cr_Requested req"] show ?thesis
    by (auto simp: Contract_Build_def Let_def sorted_map_filter split: if_splits option.splits sum.splits)
qed

definition ex_contract_request :: "unit ContractRequest" where
  "ex_contract_request = \<lparr>cr_ID = ''ec'', cr_ProjectID = ''p'', cr_WorkPackageID = ''w'',
     cr_AssignmentID = ''a'', cr_Requested = [''run_tests'', ''merge'', ''run_tests''],
     cr_Permitted = [''run_tests'', ''deploy''], cr_Budget = (), cr_Runtime = None, cr_Gates = []\<rparr>"

text \<open>
  When the digest can be computed, building fails only for a missing work package or assignment
  id or a capability outside the vocabulary (requested or permitted): it fails closed, never by
  granting less silently.
\<close>

lemma Contract_Build_fails_closed:
  assumes "\<forall>c. is_Ok (digest c)"
  shows "Contract_Build digest req =
      (if cr_WorkPackageID req = [] \<or> cr_AssignmentID req = [] then Err ContractIDsRequired
       else if list_all (\<lambda>cap. cap \<in> set capabilities_Known) (cr_Requested req @ cr_Permitted req)
       then Ok (ok_val undefined (Contract_Build digest req))
       else Err (UnknownCapability (hd (filter (\<lambda>cap. cap \<notin> set capabilities_Known)
          (cr_Requested req @ cr_Permitted req)))))"
proof -
  have ok: "is_Ok r \<Longrightarrow> r = Ok (ok_val undefined r)" for r :: "contract_error + 'a Contract"
    by (cases r) auto
  show ?thesis
  proof (cases "is_Ok (Contract_Build digest req)")
    case True
    then show ?thesis
      using ok [OF True] assms Contract_Build_ok_iff [of digest req] by (auto simp: list_all_iff)
  next
    case False
    then show ?thesis
      using assms Contract_Build_ok_iff [of digest req]
      by (auto simp: Contract_Build_def first_err_capability list_all_iff simp del: first_err_None_iff)
  qed
qed

end
