(* ===== verification/Intake.thy ===== *)
theory Intake
  imports Prelude
begin

text \<open>
  \<open>runtime/worker/worker.go\<close> (the provider-neutral adapter boundary, its scripted fake and the
  disabled adapter) and \<open>runtime/intake/intake.go\<close> (validation and deduplication of untrusted
  results). \<open>hash\<close> stands for the hex SHA-256 of the JSON encoding that \<open>hashResult\<close> builds from
  the four fields it is given; that encoding cannot fail on strings.
\<close>

section \<open>Worker adapters\<close>

record WorkerRequest =
  wr_AssignmentID :: string
  wr_WorkPackageID :: string
  wr_ContractID :: string
  wr_ContractDigest :: string
  wr_ContextDigest :: string
  wr_Instructions :: string
  wr_Capabilities :: "string list"

record TestResult =
  tr_Name :: string
  tr_Outcome :: string

record Artifact =
  art_ID :: string
  art_Kind :: string
  art_URI :: string

record Failure =
  f_Class :: string
  f_Message :: string
  f_Retryable :: bool

record WorkerResult =
  res_Status :: string
  res_Summary :: string
  res_Tests :: "TestResult list"
  res_Artifacts :: "Artifact list"
  res_Failure :: "Failure option"

text \<open>The errors \<open>Run\<close> callers distinguish: the two context errors and everything else.\<close>

datatype run_error = CtxCanceled | CtxDeadlineExceeded | RunError string

definition context_error :: "run_error \<Rightarrow> bool" where
  "context_error e \<longleftrightarrow> e = CtxCanceled \<or> e = CtxDeadlineExceeded"

fun run_error_text :: "run_error \<Rightarrow> string" where
  "run_error_text CtxCanceled = ''context canceled''"
| "run_error_text CtxDeadlineExceeded = ''context deadline exceeded''"
| "run_error_text (RunError s) = s"

definition failed_result :: "string \<Rightarrow> string \<Rightarrow> string \<Rightarrow> WorkerResult" where
  "failed_result status cls msg = \<lparr>res_Status = status, res_Summary = [], res_Tests = [],
     res_Artifacts = [], res_Failure = Some \<lparr>f_Class = cls, f_Message = msg, f_Retryable = False\<rparr>\<rparr>"

definition Disabled_Run :: "WorkerRequest \<Rightarrow> run_error + WorkerResult" where
  "Disabled_Run req = Ok (failed_result ''blocked'' ''execution_disabled'' ''execution is disabled'')"

record Fake =
  fk_scripted :: "(string, WorkerResult) fmap"
  fk_calls :: "WorkerRequest list"

definition NewFake :: Fake where
  "NewFake = \<lparr>fk_scripted = fmempty, fk_calls = []\<rparr>"

definition Fake_Script :: "Fake \<Rightarrow> string \<Rightarrow> WorkerResult \<Rightarrow> Fake" where
  "Fake_Script f wp r = f\<lparr>fk_scripted := fmupd wp r (fk_scripted f)\<rparr>"

text \<open>\<open>ctx_err\<close> is what \<open>ctx.Err()\<close> returns at the check.\<close>

definition Fake_Run :: "run_error option \<Rightarrow> Fake \<Rightarrow> WorkerRequest \<Rightarrow> Fake \<times> (run_error + WorkerResult)" where
  "Fake_Run ctx_err f req =
     (f\<lparr>fk_calls := fk_calls f @ [req]\<rparr>,
      case ctx_err of
        Some e \<Rightarrow> Err e
      | None \<Rightarrow>
          (case fmlookup (fk_scripted f) (wr_WorkPackageID req) of
             None \<Rightarrow> Ok (failed_result ''failed'' ''no_script'' ''no scripted result'')
           | Some r \<Rightarrow> Ok r))"

definition Fake_CallCount :: "Fake \<Rightarrow> nat" where
  "Fake_CallCount f = length (fk_calls f)"

section \<open>Intake\<close>

record IntakeResult =
  ir_ID :: string
  ir_AttemptID :: string
  ir_AssignmentID :: string
  ir_WorkPackageID :: string
  ir_Status :: string
  ir_Summary :: string
  ir_Tests :: "TestResult list"
  ir_Artifacts :: "Artifact list"
  ir_Failure :: "Failure option"

type_synonym content = "string \<times> string \<times> TestResult list \<times> Artifact list"
type_synonym Intake = "(string, string) fmap"  \<comment> \<open>\<open>Service.seen\<close>\<close>

datatype intake_error = IntakeIDsRequired | InvalidStatus string | FailureRequired string
  | IntakeConflict string

definition New_Intake :: Intake where "New_Intake = fmempty"

definition result_content :: "IntakeResult \<Rightarrow> content" where
  "result_content r = (ir_Status r, ir_Summary r, ir_Tests r, ir_Artifacts r)"

definition intake_statuses :: "string list" where
  "intake_statuses = [''succeeded'', ''failed'', ''partial'', ''blocked'', ''cancelled'']"

definition intake_check :: "IntakeResult \<Rightarrow> intake_error option" where
  "intake_check r =
     (if ir_ID r = [] \<or> ir_AttemptID r = [] \<or> ir_AssignmentID r = [] \<or> ir_WorkPackageID r = []
      then Some IntakeIDsRequired
      else if ir_Status r \<notin> set intake_statuses then Some (InvalidStatus (ir_Status r))
      else if (ir_Status r = ''failed'' \<or> ir_Status r = ''blocked'') \<and> ir_Failure r = None
      then Some (FailureRequired (ir_Status r))
      else None)"

definition Intake_Submit ::
  "(content \<Rightarrow> string) \<Rightarrow> Intake \<Rightarrow> IntakeResult \<Rightarrow> Intake \<times> (intake_error + bool)" where
  "Intake_Submit hash seen r =
     (case intake_check r of
        Some e \<Rightarrow> (seen, Err e)
      | None \<Rightarrow>
          let h = hash (result_content r) in
          (case fmlookup seen (ir_ID r) of
             Some existing \<Rightarrow> (seen, if existing \<noteq> h then Err (IntakeConflict (ir_ID r)) else Ok False)
           | None \<Rightarrow> (fmupd (ir_ID r) h seen, Ok True)))"

definition Intake_Len :: "Intake \<Rightarrow> nat" where
  "Intake_Len seen = card (fmdom' seen)"

section \<open>Properties\<close>

fun intake_run :: "(content \<Rightarrow> string) \<Rightarrow> Intake \<Rightarrow> IntakeResult list \<Rightarrow> Intake \<times> (intake_error + bool) list" where
  "intake_run hash seen [] = (seen, [])"
| "intake_run hash seen (r # rs) =
     (let (seen1, o1) = Intake_Submit hash seen r;
          (seen2, os) = intake_run hash seen1 rs
      in (seen2, o1 # os))"

lemma Submit_seen_mono:
  "fmlookup seen k = Some h \<Longrightarrow> fmlookup (fst (Intake_Submit hash seen r)) k = Some h"
  by (auto simp: Intake_Submit_def Let_def split: option.splits)

lemma intake_run_seen_mono:
  "fmlookup seen k = Some h \<Longrightarrow> fmlookup (fst (intake_run hash seen rs)) k = Some h"
proof (induction rs arbitrary: seen)
  case (Cons r rs)
  from Cons.IH [OF Submit_seen_mono [OF Cons.prems, of hash r]] show ?case
    by (auto simp: Let_def split: prod.splits)
qed simp

lemma Submit_True_iff:
  "snd (Intake_Submit hash seen r) = Ok True \<longleftrightarrow> intake_check r = None \<and> fmlookup seen (ir_ID r) = None"
  by (auto simp: Intake_Submit_def Let_def split: option.splits)

text \<open>
  Exactly-once intake: over any sequence of submissions, the number of results reported as new
  equals the growth of the number of recorded ids.
\<close>

lemma intake_counts_new:
  "Intake_Len (fst (intake_run hash seen rs))
     = Intake_Len seen + length (filter (\<lambda>out. out = Ok True) (snd (intake_run hash seen rs)))"
proof (induction rs arbitrary: seen)
  case (Cons r rs)
  have "Intake_Len (fst (Intake_Submit hash seen r))
      = Intake_Len seen + (if snd (Intake_Submit hash seen r) = Ok True then 1 else 0)"
    by (auto simp: Intake_Submit_def Intake_Len_def Let_def split: option.splits)
  then show ?case
    using Cons [of "fst (Intake_Submit hash seen r)"]
    by (auto simp: Let_def split: prod.splits)
qed simp

text \<open>
  Idempotence and conflict: once a valid result was taken in as new, then whatever else is
  submitted in between, a later valid result with the same id is a no-op when its hashed content
  is the same and a conflict otherwise; it is never taken in again.
\<close>

lemma intake_resubmit:
  assumes first: "snd (Intake_Submit hash seen r) = Ok True"
    and valid: "intake_check r' = None" and same: "ir_ID r' = ir_ID r"
  shows "(let seen' = fst (intake_run hash (fst (Intake_Submit hash seen r)) rs) in
    Intake_Submit hash seen' r' =
      (seen', if hash (result_content r') = hash (result_content r) then Ok False
              else Err (IntakeConflict (ir_ID r))))"
proof -
  have "fmlookup (fst (Intake_Submit hash seen r)) (ir_ID r) = Some (hash (result_content r))"
    using first by (auto simp: Intake_Submit_def Let_def split: option.splits if_splits)
  from intake_run_seen_mono [OF this, of hash rs] show ?thesis
    using valid same by (auto simp: Intake_Submit_def Let_def)
qed

definition ex_intake_result :: "string \<Rightarrow> IntakeResult" where
  "ex_intake_result summary = \<lparr>ir_ID = ''r'', ir_AttemptID = ''t'', ir_AssignmentID = ''a'',
     ir_WorkPackageID = ''w'', ir_Status = ''succeeded'', ir_Summary = summary, ir_Tests = [],
     ir_Artifacts = [], ir_Failure = None\<rparr>"

text \<open>
  What deduplication does not see: two valid results with the same id, status, summary, tests
  and artifacts are the same submission even when their failure, attempt, assignment or work package
  differ, so the second one is dropped without a conflict.
\<close>

lemma intake_ignores_failure:
  assumes "fmlookup seen (ir_ID r) = Some (hash (result_content r))"
    and "intake_check (r\<lparr>ir_Failure := f, ir_AttemptID := t, ir_WorkPackageID := w\<rparr>) = None"
  shows "Intake_Submit hash seen (r\<lparr>ir_Failure := f, ir_AttemptID := t, ir_WorkPackageID := w\<rparr>)
    = (seen, Ok False)"
  using assms by (simp add: Intake_Submit_def Let_def result_content_def)

end
