(* ===== verification/RoleAllocator.thy ===== *)
theory RoleAllocator
  imports Prelude
begin

text \<open>
  \<open>kernel/allocator/role_allocator/role_allocator.go\<close>: the set of worker instances and the
  deterministic selection of an eligible one. \<open>List\<close> ranges over a Go map and sorts by id, which
  is \<open>fm_vals\<close>; every stored worker sits under its own id (\<open>registry_wf\<close>), so the comparators are
  total on it and the sorted results are unique.
\<close>

section \<open>Data\<close>

record Worker =
  w_ID :: string
  w_Roles :: "string list"
  w_Capabilities :: "string list"
  w_Available :: bool
  w_Node :: string
  w_Provider :: string
  w_CostWeight :: int

type_synonym Registry = "(string, Worker) fmap"

record Requirement =
  rq_Roles :: "string list"
  rq_Capabilities :: "string list"

record Candidate =
  cd_Worker :: Worker
  cd_Reasons :: "string list"

record Rejection =
  rj_Worker :: Worker
  rj_Reason :: string

datatype registry_error = WorkerIDRequired | ErrDuplicateWorker string

section \<open>Operations\<close>

definition Registry_New :: Registry where "Registry_New = fmempty"

definition Registry_Add :: "Registry \<Rightarrow> Worker \<Rightarrow> registry_error + Registry" where
  "Registry_Add r w =
     (if w_ID w = [] then Err WorkerIDRequired
      else if fmlookup r (w_ID w) \<noteq> None then Err (ErrDuplicateWorker (w_ID w))
      else Ok (fmupd (w_ID w) w r))"

definition Registry_Get :: "Registry \<Rightarrow> string \<Rightarrow> Worker option" where
  "Registry_Get r k = fmlookup r k"

definition Registry_List :: "Registry \<Rightarrow> Worker list" where
  "Registry_List r = sort_key w_ID (fm_vals r)"

definition hasAnyRole :: "string list \<Rightarrow> string list \<Rightarrow> bool" where
  "hasAnyRole have want = list_ex (\<lambda>w. list_ex (\<lambda>h. h = w) have) want"

definition missingCapabilities :: "string list \<Rightarrow> string list \<Rightarrow> string list" where
  "missingCapabilities have want = sort (filter (\<lambda>c. c \<notin> set have) want)"

text \<open>The rejection reason of one worker, or \<open>None\<close> when it is eligible.\<close>

definition reject_reason :: "Requirement \<Rightarrow> Worker \<Rightarrow> string option" where
  "reject_reason req w =
     (if \<not> w_Available w then Some ''unavailable''
      else if rq_Roles req \<noteq> [] \<and> \<not> hasAnyRole (w_Roles w) (rq_Roles req) then Some ''role mismatch''
      else (case missingCapabilities (w_Capabilities w) (rq_Capabilities req) of
              [] \<Rightarrow> None
            | missing \<Rightarrow> Some (''missing capabilities: '' @ strings_Join '','' missing)))"

fun select_loop ::
  "Requirement \<Rightarrow> Candidate list \<Rightarrow> Rejection list \<Rightarrow> Worker list \<Rightarrow> Candidate list \<times> Rejection list" where
  "select_loop req acc rej [] = (acc, rej)"
| "select_loop req acc rej (w # ws) =
     (case reject_reason req w of
        Some reason \<Rightarrow> select_loop req acc (rej @ [\<lparr>rj_Worker = w, rj_Reason = reason\<rparr>]) ws
      | None \<Rightarrow> select_loop req (acc @ [\<lparr>cd_Worker = w, cd_Reasons = [''eligible'']\<rparr>]) rej ws)"

definition candidate_key :: "Candidate \<Rightarrow> int \<times> string" where
  "candidate_key c = (w_CostWeight (cd_Worker c), w_ID (cd_Worker c))"

definition Registry_Select :: "Registry \<Rightarrow> Requirement \<Rightarrow> Candidate list \<times> Rejection list" where
  "Registry_Select r req =
     (let (acc, rej) = select_loop req [] [] (Registry_List r)
      in (sort_key candidate_key acc, sort_key (\<lambda>x. w_ID (rj_Worker x)) rej))"

definition Registry_SelectOne :: "Registry \<Rightarrow> Requirement \<Rightarrow> Worker option" where
  "Registry_SelectOne r req =
     (case fst (Registry_Select r req) of [] \<Rightarrow> None | c # _ \<Rightarrow> Some (cd_Worker c))"

section \<open>Lemmas\<close>

definition registry_wf :: "Registry \<Rightarrow> bool" where
  "registry_wf r \<longleftrightarrow> (\<forall>k w. fmlookup r k = Some w \<longrightarrow> w_ID w = k \<and> k \<noteq> [])"

definition eligible :: "Requirement \<Rightarrow> Worker \<Rightarrow> bool" where
  "eligible req w \<longleftrightarrow> w_Available w
     \<and> (rq_Roles req = [] \<or> set (w_Roles w) \<inter> set (rq_Roles req) \<noteq> {})
     \<and> set (rq_Capabilities req) \<subseteq> set (w_Capabilities w)"

lemma registry_wf_New [simp]: "registry_wf Registry_New"
  by (simp add: registry_wf_def Registry_New_def)

lemma registry_wf_Add: "registry_wf r \<Longrightarrow> Registry_Add r w = Ok r' \<Longrightarrow> registry_wf r'"
  unfolding registry_wf_def Registry_Add_def by (fastforce split: if_splits)

lemma missing_Nil_iff: "missingCapabilities have want = [] \<longleftrightarrow> set want \<subseteq> set have"
proof -
  have "missingCapabilities have want = [] \<longleftrightarrow> set (missingCapabilities have want) = {}" by simp
  then show ?thesis by (auto simp: missingCapabilities_def)
qed

lemma reject_reason_None: "reject_reason req w = None \<longleftrightarrow> eligible req w"
  using missing_Nil_iff [of "w_Capabilities w" "rq_Capabilities req"]
  by (auto simp: reject_reason_def eligible_def hasAnyRole_def list_ex_iff split: list.splits)

lemma select_loop_eq:
  "select_loop req acc rej ws =
     (acc @ map (\<lambda>w. \<lparr>cd_Worker = w, cd_Reasons = [''eligible'']\<rparr>) (filter (eligible req) ws),
      rej @ map (\<lambda>w. \<lparr>rj_Worker = w, rj_Reason = the (reject_reason req w)\<rparr>)
        (filter (\<lambda>w. \<not> eligible req w) ws))"
proof (induction ws arbitrary: acc rej)
  case (Cons w ws)
  then show ?case
    using reject_reason_None [of req w] by (cases "reject_reason req w") auto
qed simp

lemma mset_Registry_List: "mset (Registry_List r) = mset (fm_vals r)"
  by (simp add: Registry_List_def)

lemma set_Registry_List: "set (Registry_List r) = {w. \<exists>k. fmlookup r k = Some w}"
  by (simp add: Registry_List_def set_fm_vals)

lemma Select_spec:
  "(let (acc, rej) = Registry_Select r req in
     mset (map cd_Worker acc) + mset (map rj_Worker rej) = mset (fm_vals r)
     \<and> set (map cd_Worker acc) = {w. (\<exists>k. fmlookup r k = Some w) \<and> eligible req w}
     \<and> sorted (map candidate_key acc)
     \<and> sorted (map (\<lambda>x. w_ID (rj_Worker x)) rej))"
proof -
  define acc where "acc = fst (Registry_Select r req)"
  define rej where "rej = snd (Registry_Select r req)"
  have acc: "acc = sort_key candidate_key (map (\<lambda>w. \<lparr>cd_Worker = w, cd_Reasons = [''eligible'']\<rparr>)
        (filter (eligible req) (Registry_List r)))"
    and rej: "rej = sort_key (\<lambda>x. w_ID (rj_Worker x))
        (map (\<lambda>w. \<lparr>rj_Worker = w, rj_Reason = the (reject_reason req w)\<rparr>)
          (filter (\<lambda>w. \<not> eligible req w) (Registry_List r)))"
    by (simp_all add: acc_def rej_def Registry_Select_def select_loop_eq)
  have macc: "mset (map cd_Worker acc) = filter_mset (eligible req) (mset (fm_vals r))"
    by (simp add: acc mset_Registry_List multiset.map_comp comp_def)
  have mrej: "mset (map rj_Worker rej) = filter_mset (\<lambda>w. \<not> eligible req w) (mset (fm_vals r))"
    by (simp add: rej mset_Registry_List multiset.map_comp comp_def)
  have "set (map cd_Worker acc) = set_mset (mset (map cd_Worker acc))" by simp
  then have "set (map cd_Worker acc) = {w. (\<exists>k. fmlookup r k = Some w) \<and> eligible req w}"
    unfolding macc by (auto simp: set_fm_vals)
  moreover have "sorted (map candidate_key acc)" by (simp add: acc)
  moreover have "sorted (map (\<lambda>x. w_ID (rj_Worker x)) rej)" by (simp add: rej)
  moreover have "mset (map cd_Worker acc) + mset (map rj_Worker rej) = mset (fm_vals r)"
    unfolding macc mrej by (rule multiset_partition [symmetric])
  ultimately show ?thesis
    by (simp add: acc_def rej_def case_prod_beta Let_def)
qed

text \<open>
  Selection partitions the registry: every registered worker is either a candidate or a
  rejection, never both, candidates are exactly the available workers with a wanted role (when
  roles are asked for) and every wanted capability, the candidates come ordered by cost
  weight then id, the rejections by id.
\<close>

lemma Select_partition:
  "(let (acc, rej) = Registry_Select r req in
     mset (map cd_Worker acc) + mset (map rj_Worker rej) = mset (fm_vals r)
     \<and> set (map cd_Worker acc) = {w. (\<exists>k. fmlookup r k = Some w) \<and> eligible req w}
     \<and> sorted (map candidate_key acc)
     \<and> sorted (map (\<lambda>x. w_ID (rj_Worker x)) rej))"
  by (rule Select_spec)

text \<open>
  \<open>SelectOne\<close> returns the eligible worker with the least cost weight, ties broken by the least
  id, and reports that there is none exactly when no registered worker is eligible.
\<close>

lemma SelectOne_least:
  assumes "registry_wf r"
  shows "(case Registry_SelectOne r req of
      None \<Rightarrow> \<nexists>k w. fmlookup r k = Some w \<and> eligible req w
    | Some w \<Rightarrow> Registry_Get r (w_ID w) = Some w \<and> eligible req w
        \<and> (\<forall>k v. fmlookup r k = Some v \<and> eligible req v \<longrightarrow>
             (w_CostWeight w, w_ID w) \<le> (w_CostWeight v, w_ID v)))"
proof -
  obtain acc rej where sel: "Registry_Select r req = (acc, rej)" by fastforce
  with Select_spec [of r req]
  have set: "cd_Worker ` set acc = {w. (\<exists>k. fmlookup r k = Some w) \<and> eligible req w}"
    and srt: "sorted (map candidate_key acc)" by (auto simp: Let_def)
  show ?thesis
  proof (cases acc)
    case Nil
    with sel set show ?thesis by (auto simp: Registry_SelectOne_def)
  next
    case (Cons c cs)
    let ?w = "cd_Worker c"
    from Cons set obtain k where k: "fmlookup r k = Some ?w" and el: "eligible req ?w" by auto
    have least: "(w_CostWeight ?w, w_ID ?w) \<le> (w_CostWeight v, w_ID v)"
      if "fmlookup r j = Some v" "eligible req v" for j v
    proof -
      have "v \<in> cd_Worker ` set acc" unfolding set using that by (intro CollectI conjI exI)
      then obtain d where d: "d \<in> set acc" "cd_Worker d = v" by (elim imageE) simp
      have "\<forall>d\<in>set acc. candidate_key c \<le> candidate_key d"
        using srt unfolding Cons list.map sorted_simps(2) by (simp del: less_eq_prod_simp)
      with d have "candidate_key c \<le> candidate_key d" by blast
      with d(2) show ?thesis by (simp only: candidate_key_def)
    qed
    from k assms have "w_ID ?w = k" by (auto simp: registry_wf_def)
    with k have get: "Registry_Get r (w_ID ?w) = Some ?w" by (simp add: Registry_Get_def)
    have one: "Registry_SelectOne r req = Some ?w" using sel Cons by (simp add: Registry_SelectOne_def)
    show ?thesis unfolding one option.case using get el least by blast
  qed
qed

definition ex_worker :: "string \<Rightarrow> int \<Rightarrow> string list \<Rightarrow> Worker" where
  "ex_worker k cost caps = \<lparr>w_ID = k, w_Roles = [''Builder''], w_Capabilities = caps, w_Available = True,
     w_Node = [], w_Provider = [], w_CostWeight = cost\<rparr>"

definition ex_registry :: Registry where
  "ex_registry = fmupd ''b'' (ex_worker ''b'' 1 [''run_tests''])
     (fmupd ''a'' (ex_worker ''a'' 2 [''run_tests'']) (fmupd ''c'' (ex_worker ''c'' 0 []) fmempty))"

lemma ex_registry_wf: "registry_wf ex_registry"
  by (auto simp: registry_wf_def ex_registry_def ex_worker_def)

lemma ex_registry_SelectOne:
  "Registry_SelectOne ex_registry \<lparr>rq_Roles = [], rq_Capabilities = [''run_tests'']\<rparr>
     = Some (ex_worker ''b'' 1 [''run_tests''])"
  by (simp add: Registry_SelectOne_def Registry_Select_def Registry_List_def ex_registry_def fm_vals_def
      eval_simps List.map_filter_def reject_reason_def missingCapabilities_def ex_worker_def
      candidate_key_def)

end
