(* ===== verification/Telemetry.thy ===== *)
theory Telemetry
  imports Prelude
begin

text \<open>
  \<open>kernel/telemetry/telemetry.go\<close>: bounded execution evidence and the learning candidates derived
  from it. A Go \<open>float64\<close> cost is an abstract type \<open>'f\<close>; the operations the code applies to it (the
  comparison with 1.00, the two-decimal rendering, addition and zero) are parameters. Confidence
  literals are the decimals the source writes.
\<close>

record 'f TelemetryRecord =
  t_AttemptID :: string
  t_AssignmentID :: string
  t_WorkPackageID :: string
  t_Outcome :: string
  t_Calls :: int
  t_Tokens :: int
  t_CostUSD :: 'f
  t_DurationMS :: int

record LearningCandidate =
  lc_Kind :: string
  lc_Level :: string
  lc_Title :: string
  lc_Content :: string
  lc_Evidence :: "string list"
  lc_Confidence :: rat

definition outcome_candidates :: "'f TelemetryRecord \<Rightarrow> string list \<Rightarrow> LearningCandidate list" where
  "outcome_candidates r failedTests =
     (if t_Outcome r = ''succeeded'' then
        [\<lparr>lc_Kind = ''success'', lc_Level = ''task'',
          lc_Title = ''Work package '' @ t_WorkPackageID r @ '' succeeded'',
          lc_Content = ''Succeeded with '' @ itoa_int (t_Calls r) @ '' calls and ''
             @ itoa_int (t_Tokens r) @ '' tokens'',
          lc_Evidence = [t_AttemptID r], lc_Confidence = 6 / 10\<rparr>]
      else if t_Outcome r = ''failed'' then
        (if failedTests \<noteq> [] then
           [\<lparr>lc_Kind = ''pitfall'', lc_Level = ''project'', lc_Title = ''Failure in '' @ t_WorkPackageID r,
             lc_Content = ''Tests failed: '' @ strings_Join '', '' (sort failedTests),
             lc_Evidence = [t_AttemptID r], lc_Confidence = 5 / 10\<rparr>]
         else
           [\<lparr>lc_Kind = ''failure'', lc_Level = ''project'', lc_Title = ''Failure in '' @ t_WorkPackageID r,
             lc_Content = ''Attempt failed without test detail'',
             lc_Evidence = [t_AttemptID r], lc_Confidence = 4 / 10\<rparr>])
      else [])"

definition cost_candidates ::
  "('f \<Rightarrow> bool) \<Rightarrow> ('f \<Rightarrow> string) \<Rightarrow> 'f TelemetryRecord \<Rightarrow> LearningCandidate list" where
  "cost_candidates ge1 fmt2 r =
     (if ge1 (t_CostUSD r) then
        [\<lparr>lc_Kind = ''cost'', lc_Level = ''project'', lc_Title = ''High cost for '' @ t_WorkPackageID r,
          lc_Content = ''Cost '' @ fmt2 (t_CostUSD r) @ '' USD exceeded the 1.00 USD threshold'',
          lc_Evidence = [t_AttemptID r], lc_Confidence = 5 / 10\<rparr>]
      else [])"

definition Telemetry_Derive ::
  "('f \<Rightarrow> bool) \<Rightarrow> ('f \<Rightarrow> string) \<Rightarrow> 'f TelemetryRecord \<Rightarrow> string list \<Rightarrow> LearningCandidate list" where
  "Telemetry_Derive ge1 fmt2 r failedTests =
     sort_key (\<lambda>c. (lc_Kind c, lc_Title c))
       (outcome_candidates r failedTests @ cost_candidates ge1 fmt2 r)"

record 'f Summary =
  sm_Attempts :: int
  sm_Successes :: int
  sm_Failures :: int
  sm_TotalCalls :: int
  sm_TotalTokens :: int
  sm_TotalCost :: 'f

definition summarize_step :: "('f \<Rightarrow> 'f \<Rightarrow> 'f) \<Rightarrow> 'f Summary \<Rightarrow> 'f TelemetryRecord \<Rightarrow> 'f Summary" where
  "summarize_step fadd s r =
     \<lparr>sm_Attempts = sm_Attempts s + 1,
      sm_Successes = sm_Successes s + (if t_Outcome r = ''succeeded'' then 1 else 0),
      sm_Failures = sm_Failures s + (if t_Outcome r = ''failed'' then 1 else 0),
      sm_TotalCalls = sm_TotalCalls s + t_Calls r,
      sm_TotalTokens = sm_TotalTokens s + t_Tokens r,
      sm_TotalCost = fadd (sm_TotalCost s) (t_CostUSD r)\<rparr>"

definition Telemetry_Summarize :: "('f \<Rightarrow> 'f \<Rightarrow> 'f) \<Rightarrow> 'f \<Rightarrow> 'f TelemetryRecord list \<Rightarrow> 'f Summary" where
  "Telemetry_Summarize fadd fzero rs =
     foldl (summarize_step fadd)
       \<lparr>sm_Attempts = 0, sm_Successes = 0, sm_Failures = 0, sm_TotalCalls = 0, sm_TotalTokens = 0,
        sm_TotalCost = fzero\<rparr> rs"

lemma Derive_length: "length (Telemetry_Derive ge1 fmt2 r fs) \<le> 2"
  by (simp add: Telemetry_Derive_def outcome_candidates_def cost_candidates_def)

lemma Derive_evidence: "c \<in> set (Telemetry_Derive ge1 fmt2 r fs) \<Longrightarrow> lc_Evidence c = [t_AttemptID r]"
  by (auto simp: Telemetry_Derive_def outcome_candidates_def cost_candidates_def split: if_splits)

lemma summarize_foldl:
  "sm_Attempts (foldl (summarize_step fadd) s rs) = sm_Attempts s + int (length rs)"
  "sm_Successes (foldl (summarize_step fadd) s rs)
     = sm_Successes s + int (length (filter (\<lambda>r. t_Outcome r = ''succeeded'') rs))"
  "sm_Failures (foldl (summarize_step fadd) s rs)
     = sm_Failures s + int (length (filter (\<lambda>r. t_Outcome r = ''failed'') rs))"
  "sm_TotalCalls (foldl (summarize_step fadd) s rs) = sm_TotalCalls s + sum_list (map t_Calls rs)"
  "sm_TotalTokens (foldl (summarize_step fadd) s rs) = sm_TotalTokens s + sum_list (map t_Tokens rs)"
  by (induction rs arbitrary: s) (simp_all add: summarize_step_def)

text \<open>
  A summary counts attempts, successes and failures and totals calls and tokens over the
  records, whatever their order; successes and failures never exceed the attempts.
\<close>

lemma Summarize_spec:
  "(let s = Telemetry_Summarize fadd fzero rs in
     sm_Attempts s = int (length rs)
   \<and> sm_Successes s = int (length (filter (\<lambda>r. t_Outcome r = ''succeeded'') rs))
   \<and> sm_Failures s = int (length (filter (\<lambda>r. t_Outcome r = ''failed'') rs))
   \<and> sm_TotalCalls s = sum_list (map t_Calls rs) \<and> sm_TotalTokens s = sum_list (map t_Tokens rs)
   \<and> sm_Successes s + sm_Failures s \<le> sm_Attempts s)"
proof -
  have "length (filter (\<lambda>r. t_Outcome r = ''succeeded'') rs) + length (filter (\<lambda>r. t_Outcome r = ''failed'') rs)
      \<le> length rs"
    by (induction rs) auto
  then show ?thesis by (simp add: Telemetry_Summarize_def summarize_foldl Let_def)
qed

end
