(* ===== verification/Scheduler.thy ===== *)
theory Scheduler
  imports Planner Assignment Gate Contract Intake RoleAllocator Telemetry
begin

text \<open>
  \<open>kernel/scheduler/scheduler.go\<close>: the supervised control cycle. Every method holds \<open>o.mu\<close> while
  it touches the state, so the model splits \<open>dispatchOne\<close> at its unlock points: \<open>dispatch_begin\<close>
  (select, contract, lease, mark running), the runtime call, and \<open>dispatch_finish\<close> (intake,
  telemetry, gates, accept). \<open>dispatchOne\<close> composes them for one work package.

  The outside world is an environment: \<open>env_sink_err\<close> is the error a sink call returns given the
  calls made before it, \<open>env_state_sink\<close> says whether the sink implements
  \<open>RecordWorkPackageState\<close>, \<open>env_begin\<close> is the optional lifecycle hook, and \<open>env_digest\<close>,
  \<open>env_hash\<close>, \<open>env_context_digest\<close> are the digests the code computes with the standard library
  (the last one through the context compiler). Every call is appended to \<open>o_log\<close>.

  The Go code keeps a pointer to an assignment in \<open>o.assignments\<close> and mutates it afterwards; the
  model stores the assignment again after each such mutation.
\<close>

section \<open>Data\<close>

record AssignmentRecord =
  ar_ID :: string
  ar_ProjectID :: string
  ar_WorkPackageID :: string
  ar_WorkerID :: string
  ar_State :: asg_state
  ar_Attempt :: int
  ar_LeaseOwner :: string
  ar_LeaseExpiresAt :: "time option"  \<comment> \<open>rendered as RFC3339Nano; absent for the zero time\<close>

datatype world_call =
    SinkEvent int string "(string \<times> string) list"
  | SinkRecord AssignmentRecord
  | SinkWorkPackageState string string wp_state
  | LifecycleBegin string string string "string list"
  | LifecycleEnd string "run_error + WorkerResult"

record Env =
  env_sink_err :: "world_call list \<Rightarrow> world_call \<Rightarrow> string option"
  env_state_sink :: bool
  env_begin :: "(string \<Rightarrow> string \<Rightarrow> string \<Rightarrow> string list \<Rightarrow> string) option"
  env_digest :: "unit Contract \<Rightarrow> unit + string"
  env_hash :: "content \<Rightarrow> string"
  env_context_digest :: "string \<Rightarrow> string"

type_synonym Runtime = "WorkerRequest \<Rightarrow> run_error + WorkerResult"

record Config =
  cfg_Registry :: "Registry option"
  cfg_Runtime :: "Runtime option"
  cfg_Gates :: "Gate list"
  cfg_Permitted :: "string list"
  cfg_Enabled :: bool
  cfg_LeaseTTL :: int
  cfg_MaxConcurrency :: int
  cfg_MaxAttempts :: int

record Scheduler =
  o_projectID :: string
  o_graph :: Graph
  o_registry :: Registry
  o_runtime :: Runtime
  o_gates :: "Gate list"
  o_permitted :: "string list"
  o_leaseTTL :: int
  o_maxConcurrency :: int
  o_maxAttempts :: int
  o_intake :: Intake
  o_assignments :: "(string, Assignment) fmap"
  o_attempts :: "(string, int) fmap"
  o_results :: "(string, WorkerResult) fmap"
  o_telemetry :: "rat TelemetryRecord list"
  o_candidates :: "LearningCandidate list"
  o_sequence :: int
  o_log :: "world_call list"

datatype sched_error =
    GraphRequired | RegistryRequired | GraphInvalid planner_error | RuntimeRequired
  | UnknownWorkPackage string | NoEligibleWorker string | ContractFailed contract_error
  | TransitionFailed asg_error | PersistFailed string string | IntakeFailed intake_error
  | ContextDone run_error | UnknownAssignment string | NotAwaitingGates string
  | RestoreLease string

record DispatchReport =
  dr_WorkPackageID :: string
  dr_WorkerID :: string
  dr_State :: asg_state
  dr_Status :: string
  dr_Gates :: Report
  dr_IntakeAccepted :: bool

definition Report_zero :: Report where
  "Report_zero = \<lparr>r_Passed = False, r_Pending = False, r_Decisions = []\<rparr>"

definition WorkerResult_zero :: WorkerResult where
  "WorkerResult_zero = \<lparr>res_Status = [], res_Summary = [], res_Tests = [], res_Artifacts = [],
     res_Failure = None\<rparr>"

fun wp_state_string :: "wp_state \<Rightarrow> string" where
  "wp_state_string StateProposed = ''PROPOSED''"
| "wp_state_string StateReady = ''READY''"
| "wp_state_string StateRunning = ''RUNNING''"
| "wp_state_string StateCompleted = ''COMPLETED''"
| "wp_state_string StateDeficient = ''DEFICIENT''"
| "wp_state_string (StateOther s) = s"

fun asg_state_string :: "asg_state \<Rightarrow> string" where
  "asg_state_string AsgPlanned = ''planned''"
| "asg_state_string AsgLeased = ''leased''"
| "asg_state_string AsgPreparing = ''preparing''"
| "asg_state_string AsgRunning = ''running''"
| "asg_state_string AsgPaused = ''paused''"
| "asg_state_string AsgCollecting = ''collecting''"
| "asg_state_string AsgAwaitingGates = ''awaiting_gates''"
| "asg_state_string AsgAccepted = ''accepted''"
| "asg_state_string AsgFailed = ''failed''"
| "asg_state_string AsgCanceled = ''canceled''"
| "asg_state_string AsgExpired = ''expired''"
| "asg_state_string (AsgOther s) = s"

section \<open>Construction\<close>

definition minute :: int where "minute = 60 * 10 ^ 9"

definition Scheduler_New :: "Graph option \<Rightarrow> Config \<Rightarrow> sched_error + Scheduler" where
  "Scheduler_New graph cfg =
     (case graph of None \<Rightarrow> Err GraphRequired | Some g \<Rightarrow>
      (case cfg_Registry cfg of None \<Rightarrow> Err RegistryRequired | Some reg \<Rightarrow>
       (case Graph_Validate g of Some e \<Rightarrow> Err (GraphInvalid e) | None \<Rightarrow>
        (if cfg_Enabled cfg \<and> cfg_Runtime cfg = None then Err RuntimeRequired
         else Ok \<lparr>o_projectID = g_ProjectID g, o_graph = g, o_registry = reg,
                o_runtime = (if cfg_Enabled cfg then the (cfg_Runtime cfg) else Disabled_Run),
                o_gates = cfg_Gates cfg, o_permitted = cfg_Permitted cfg,
                o_leaseTTL = (if cfg_LeaseTTL cfg \<le> 0 then minute else cfg_LeaseTTL cfg),
                o_maxConcurrency = cfg_MaxConcurrency cfg, o_maxAttempts = cfg_MaxAttempts cfg,
                o_intake = New_Intake, o_assignments = fmempty, o_attempts = fmempty,
                o_results = fmempty, o_telemetry = [], o_candidates = [], o_sequence = 0,
                o_log = []\<rparr>))))"

section \<open>Emitting and persisting\<close>

definition log_call :: "world_call \<Rightarrow> Scheduler \<Rightarrow> Scheduler" where
  "log_call c s = s\<lparr>o_log := o_log s @ [c]\<rparr>"

definition emit :: "string \<Rightarrow> (string \<times> string) list \<Rightarrow> Scheduler \<Rightarrow> Scheduler" where
  "emit eventType payload s =
     (let s1 = s\<lparr>o_sequence := o_sequence s + 1\<rparr>
      in log_call (SinkEvent (o_sequence s1) eventType payload) s1)"

definition setWorkPackageState :: "Env \<Rightarrow> string \<Rightarrow> wp_state \<Rightarrow> Scheduler \<Rightarrow> Scheduler" where
  "setWorkPackageState env wp st s =
     (let s1 = (case Graph_SetState (o_graph s) wp st of Inl _ \<Rightarrow> s | Inr g \<Rightarrow> s\<lparr>o_graph := g\<rparr>) in
      if \<not> env_state_sink env then s1
      else
        let call = SinkWorkPackageState (o_projectID s) wp st;
            s2 = log_call call s1 in
        (case env_sink_err env (o_log s1) call of
           None \<Rightarrow> s2
         | Some e \<Rightarrow> emit ''WORK_PACKAGE_STATE_PERSIST_FAILED''
             [(''workPackageId'', wp), (''state'', wp_state_string st), (''error'', e)] s2))"

definition assignment_record :: "Assignment \<Rightarrow> AssignmentRecord" where
  "assignment_record a =
     \<lparr>ar_ID = a_ID a, ar_ProjectID = a_ProjectID a, ar_WorkPackageID = a_WorkPackageID a,
      ar_WorkerID = a_WorkerID a, ar_State = a_State a, ar_Attempt = a_Attempt a,
      ar_LeaseOwner = l_Owner (a_Lease a),
      ar_LeaseExpiresAt =
        (if l_ExpiresAt (a_Lease a) = 0 then None else Some (l_ExpiresAt (a_Lease a)))\<rparr>"

definition recordAssignment :: "Env \<Rightarrow> Assignment \<Rightarrow> Scheduler \<Rightarrow> Scheduler \<times> sched_error option" where
  "recordAssignment env a s =
     (let call = SinkRecord (assignment_record a); s1 = log_call call s in
      (case env_sink_err env (o_log s) call of
         None \<Rightarrow> (s1, None)
       | Some e \<Rightarrow> (emit ''ASSIGNMENT_PERSIST_FAILED''
            [(''assignmentId'', a_ID a), (''workPackageId'', a_WorkPackageID a),
             (''state'', asg_state_string (a_State a)), (''error'', e)] s1,
          Some (PersistFailed (a_ID a) e))))"

definition store_assignment :: "string \<Rightarrow> Assignment \<Rightarrow> Scheduler \<Rightarrow> Scheduler" where
  "store_assignment wp a s = s\<lparr>o_assignments := fmupd wp a (o_assignments s)\<rparr>"

definition failed_tests :: "TestResult list \<Rightarrow> string list" where
  "failed_tests ts = map tr_Name (filter (\<lambda>t. tr_Outcome t \<noteq> ''passed'') ts)"

definition recordTelemetry :: "Assignment \<Rightarrow> WorkerResult \<Rightarrow> Scheduler \<Rightarrow> Scheduler" where
  "recordTelemetry a result s =
     (let record = \<lparr>t_AttemptID = ''att_'' @ a_ID a, t_AssignmentID = a_ID a,
                    t_WorkPackageID = a_WorkPackageID a, t_Outcome = res_Status result,
                    t_Calls = 0, t_Tokens = 0, t_CostUSD = (0::rat), t_DurationMS = 0\<rparr>
      in s\<lparr>o_telemetry := o_telemetry s @ [record],
           o_candidates := o_candidates s
             @ Telemetry_Derive (\<lambda>c. 1 \<le> c) (\<lambda>_. []) record (failed_tests (res_Tests result))\<rparr>)"

definition subject :: "string \<Rightarrow> WorkerResult \<Rightarrow> Subject" where
  "subject wp result =
     \<lparr>s_WorkPackageID = wp, s_Status = res_Status result,
      s_Tests = map (\<lambda>t. \<lparr>ts_Name = tr_Name t, ts_Outcome = tr_Outcome t\<rparr>) (res_Tests result),
      s_ContractID = []\<rparr>"

definition gateNames :: "Gate list \<Rightarrow> string list" where
  "gateNames gates = sort (map Gate_Name gates)"

definition mk_report :: "string \<Rightarrow> Assignment \<Rightarrow> string \<Rightarrow> Report \<Rightarrow> bool \<Rightarrow> DispatchReport" where
  "mk_report wp a status gates accepted =
     \<lparr>dr_WorkPackageID = wp, dr_WorkerID = a_WorkerID a, dr_State = a_State a, dr_Status = status,
      dr_Gates = gates, dr_IntakeAccepted = accepted\<rparr>"

definition accept_work ::
  "Env \<Rightarrow> Assignment \<Rightarrow> Report \<Rightarrow> bool \<Rightarrow> Scheduler \<Rightarrow> Scheduler \<times> (sched_error + DispatchReport)" where
  "accept_work env a report accepted s =
     (let a1 = Assignment_force a AsgAccepted;
          s1 = setWorkPackageState env (a_WorkPackageID a) StateCompleted
                 (store_assignment (a_WorkPackageID a) a1 s)
      in (case recordAssignment env a1 s1 of
            (s2, Some e) \<Rightarrow> (s2, Err e)
          | (s2, None) \<Rightarrow>
              (emit ''WORK_ACCEPTED''
                 [(''workPackageId'', a_WorkPackageID a), (''assignmentId'', a_ID a)] s2,
               Ok (mk_report (a_WorkPackageID a) a1 ''succeeded'' report accepted))))"

section \<open>Dispatching one work package\<close>

record Ticket =
  tk_wp :: string
  tk_assignment :: Assignment
  tk_request :: WorkerRequest
  tk_instance :: string

definition assignment_id :: "string \<Rightarrow> int \<Rightarrow> string" where
  "assignment_id wp attempt = ''asg_'' @ wp @ ''_'' @ itoa_int attempt"

text \<open>The transitions of the lease loop, planned to running.\<close>

fun transition_all :: "asg_state list \<Rightarrow> Assignment \<Rightarrow> asg_error + Assignment" where
  "transition_all [] a = Ok a"
| "transition_all (st # sts) a =
     (case Assignment_Transition a st of Inl e \<Rightarrow> Err e | Inr a' \<Rightarrow> transition_all sts a')"

definition contract_request :: "Scheduler \<Rightarrow> WorkPackage \<Rightarrow> string \<Rightarrow> string \<Rightarrow> unit ContractRequest" where
  "contract_request s wp wpID asgID =
     \<lparr>cr_ID = ''ec_'' @ asgID, cr_ProjectID = o_projectID s, cr_WorkPackageID = wpID,
      cr_AssignmentID = asgID, cr_Requested = wp_Capabilities wp, cr_Permitted = o_permitted s,
      cr_Budget = (),
      cr_Runtime = Some \<lparr>rs_Kind = ''runtime'', rs_Provider = [], rs_Model = [], rs_NodeID = []\<rparr>,
      cr_Gates = gateNames (o_gates s)\<rparr>"

text \<open>The locked section up to the first unlock.\<close>

definition dispatch_begin ::
  "Env \<Rightarrow> time \<Rightarrow> string \<Rightarrow> Scheduler \<Rightarrow> Scheduler \<times> (sched_error + Ticket)" where
  "dispatch_begin env now wpID s =
     (case Graph_Get (o_graph s) wpID of None \<Rightarrow> (s, Err (UnknownWorkPackage wpID)) | Some wp \<Rightarrow>
     (case Registry_SelectOne (o_registry s) \<lparr>rq_Roles = [], rq_Capabilities = wp_Capabilities wp\<rparr> of
        None \<Rightarrow> (s, Err (NoEligibleWorker wpID)) | Some selected \<Rightarrow>
     (let attempt = fm_getd 0 (o_attempts s) wpID + 1;
          s1 = s\<lparr>o_attempts := fmupd wpID attempt (o_attempts s)\<rparr>;
          asgID = assignment_id wpID attempt
      in (case Contract_Build (env_digest env) (contract_request s wp wpID asgID) of
            Inl e \<Rightarrow> (s1, Err (ContractFailed e))
          | Inr c \<Rightarrow>
     (case transition_all [AsgLeased, AsgPreparing, AsgRunning]
             ((NewAssignment asgID (o_projectID s) wpID (w_ID selected))\<lparr>a_Attempt := attempt\<rparr>) of
        Inl e \<Rightarrow> (s1, Err (TransitionFailed e))
      | Inr a0 \<Rightarrow>
     (let a = Assignment_LeaseFor a0 (w_ID selected) now (o_leaseTTL s);
          s2 = emit ''EXECUTION_STARTED'' [(''workPackageId'', wpID), (''assignmentId'', asgID),
                 (''workerId'', w_ID selected)] (setWorkPackageState env wpID StateRunning s1)
      in (case recordAssignment env a s2 of
            (s3, Some e) \<Rightarrow> (setWorkPackageState env wpID StateDeficient s3, Err e)
          | (s3, None) \<Rightarrow>
              (s3, Ok \<lparr>tk_wp = wpID, tk_assignment = a,
                 tk_request = \<lparr>wr_AssignmentID = asgID, wr_WorkPackageID = wpID,
                   wr_ContractID = c_ID c, wr_ContractDigest = c_Digest c,
                   wr_ContextDigest = env_context_digest env wpID, wr_Instructions = [],
                   wr_Capabilities = c_Capabilities c\<rparr>,
                 tk_instance = []\<rparr>))))))))"

text \<open>The lifecycle hooks around the runtime call, made without the lock.\<close>

definition lifecycle_begin :: "Env \<Rightarrow> Ticket \<Rightarrow> Scheduler \<Rightarrow> Scheduler \<times> Ticket" where
  "lifecycle_begin env t s =
     (case env_begin env of
        None \<Rightarrow> (s, t)
      | Some f \<Rightarrow>
          (log_call (LifecycleBegin (a_ID (tk_assignment t)) (tk_wp t) (a_WorkerID (tk_assignment t))
                      (wr_Capabilities (tk_request t))) s,
           t\<lparr>tk_instance := f (a_ID (tk_assignment t)) (tk_wp t) (a_WorkerID (tk_assignment t))
                (wr_Capabilities (tk_request t))\<rparr>))"

definition lifecycle_end :: "Env \<Rightarrow> Ticket \<Rightarrow> run_error + WorkerResult \<Rightarrow> Scheduler \<Rightarrow> Scheduler" where
  "lifecycle_end env t out s =
     (case env_begin env of None \<Rightarrow> s | Some _ \<Rightarrow> log_call (LifecycleEnd (tk_instance t) out) s)"

text \<open>The runtime returned an error.\<close>

definition finish_error ::
  "Env \<Rightarrow> Ticket \<Rightarrow> run_error \<Rightarrow> Scheduler \<Rightarrow> Scheduler \<times> (sched_error + DispatchReport)" where
  "finish_error env t e s =
     (let wp = tk_wp t in
      if context_error e then
        (let a = Assignment_force (tk_assignment t) AsgCanceled in
         (case recordAssignment env a (store_assignment wp a s) of
            (s1, Some pe) \<Rightarrow> (s1, Err pe)
          | (s1, None) \<Rightarrow> (s1, Err (ContextDone e))))
      else
        (let a = Assignment_force (tk_assignment t) AsgFailed in
         (case recordAssignment env a
                 (store_assignment wp a (setWorkPackageState env wp StateDeficient s)) of
            (s1, Some pe) \<Rightarrow> (s1, Err pe)
          | (s1, None) \<Rightarrow> (s1, Ok (mk_report wp a ''failed'' Report_zero False)))))"

definition intake_result :: "Assignment \<Rightarrow> string \<Rightarrow> WorkerResult \<Rightarrow> IntakeResult" where
  "intake_result a wp result =
     \<lparr>ir_ID = ''res_'' @ a_ID a, ir_AttemptID = ''att_'' @ a_ID a, ir_AssignmentID = a_ID a,
      ir_WorkPackageID = wp, ir_Status = res_Status result, ir_Summary = res_Summary result,
      ir_Tests = res_Tests result, ir_Artifacts = res_Artifacts result,
      ir_Failure = res_Failure result\<rparr>"

text \<open>After intake: gates, then accept, fail or wait.\<close>

definition finish_gates ::
  "Env \<Rightarrow> string \<Rightarrow> Assignment \<Rightarrow> WorkerResult \<Rightarrow> bool \<Rightarrow> Scheduler \<Rightarrow>
     Scheduler \<times> (sched_error + DispatchReport)" where
  "finish_gates env wp a result accepted s =
     (let report = Gates_Evaluate (o_gates s) (subject wp result) in
      if res_Status result \<noteq> ''succeeded'' \<and> res_Status result \<noteq> ''partial'' then
        (let a1 = Assignment_force a AsgFailed in
         (case recordAssignment env a1
                 (setWorkPackageState env wp StateDeficient (store_assignment wp a1 s)) of
            (s1, Some e) \<Rightarrow> (s1, Err e)
          | (s1, None) \<Rightarrow> (s1, Ok (mk_report wp a1 ''failed'' report accepted))))
      else
        (case Assignment_Transition a AsgAwaitingGates of
           Inl e \<Rightarrow> (s, Err (TransitionFailed e))
         | Inr a1 \<Rightarrow>
        (case recordAssignment env a1 (store_assignment wp a1 s) of
           (s1, Some e) \<Rightarrow> (s1, Err e)
         | (s1, None) \<Rightarrow>
             if r_Passed report then accept_work env a1 report accepted s1
             else if \<not> r_Pending report then
               (let a2 = Assignment_force a1 AsgFailed in
                (setWorkPackageState env wp StateDeficient (store_assignment wp a2 s1),
                 Ok (mk_report wp a2 ''failed'' report accepted)))
             else (s1, Ok (mk_report wp a1 ''pending'' report accepted)))))"

definition finish_result ::
  "Env \<Rightarrow> Ticket \<Rightarrow> WorkerResult \<Rightarrow> Scheduler \<Rightarrow> Scheduler \<times> (sched_error + DispatchReport)" where
  "finish_result env t result s =
     (let wp = tk_wp t in
      (case Assignment_Transition (tk_assignment t) AsgCollecting of
         Inl e \<Rightarrow> (s, Err (TransitionFailed e))
       | Inr a \<Rightarrow>
      (case Intake_Submit (env_hash env) (o_intake s) (intake_result a wp result) of
         (seen, Inl e) \<Rightarrow> (s\<lparr>o_intake := seen\<rparr>, Err (IntakeFailed e))
       | (seen, Inr accepted) \<Rightarrow>
           let s1 = recordTelemetry a result
                      ((store_assignment wp a (s\<lparr>o_intake := seen\<rparr>))
                         \<lparr>o_results := fmupd wp result (o_results s)\<rparr>)
           in (case recordAssignment env a s1 of
                 (s2, Some e) \<Rightarrow> (s2, Err e)
               | (s2, None) \<Rightarrow> finish_gates env wp a result accepted s2))))"

definition dispatch_finish ::
  "Env \<Rightarrow> Ticket \<Rightarrow> run_error + WorkerResult \<Rightarrow> Scheduler \<Rightarrow>
     Scheduler \<times> (sched_error + DispatchReport)" where
  "dispatch_finish env t out s =
     (case out of Inl e \<Rightarrow> finish_error env t e s | Inr result \<Rightarrow> finish_result env t result s)"

definition dispatchOne ::
  "Env \<Rightarrow> time \<Rightarrow> string \<Rightarrow> Scheduler \<Rightarrow> Scheduler \<times> (sched_error + DispatchReport)" where
  "dispatchOne env now wpID s =
     (case dispatch_begin env now wpID s of
        (s1, Inl e) \<Rightarrow> (s1, Err e)
      | (s1, Inr t) \<Rightarrow>
          let (s2, t') = lifecycle_begin env t s1;
              out = o_runtime s (tk_request t')
          in dispatch_finish env t' out (lifecycle_end env t' out s2))"

definition Scheduler_Dispatch ::
  "Env \<Rightarrow> time \<Rightarrow> Scheduler \<Rightarrow> Scheduler \<times> (sched_error + DispatchReport) option" where
  "Scheduler_Dispatch env now s =
     (case Graph_Ready (o_graph s) of
        [] \<Rightarrow> (s, None)
      | wp # _ \<Rightarrow> (let (s1, r) = dispatchOne env now wp s in (s1, Some r)))"

section \<open>Resolving, approving, restoring\<close>

definition Scheduler_Resolve ::
  "Env \<Rightarrow> string \<Rightarrow> Scheduler \<Rightarrow> Scheduler \<times> (sched_error + DispatchReport)" where
  "Scheduler_Resolve env wp s =
     (case fmlookup (o_assignments s) wp of
        None \<Rightarrow> (s, Err (UnknownAssignment wp))
      | Some a \<Rightarrow>
          if a_State a \<noteq> AsgAwaitingGates then (s, Err (NotAwaitingGates wp))
          else
            let result = fm_getd WorkerResult_zero (o_results s) wp;
                report = Gates_Evaluate (o_gates s) (subject wp result) in
            if r_Passed report then accept_work env a report True s
            else if r_Pending report then (s, Ok (mk_report wp a ''pending'' report False))
            else
              (let a1 = Assignment_force a AsgFailed in
               (case recordAssignment env a1
                       (setWorkPackageState env wp StateDeficient (store_assignment wp a1 s)) of
                  (s1, Some e) \<Rightarrow> (s1, Err e)
                | (s1, None) \<Rightarrow> (s1, Ok (mk_report wp a1 ''failed'' report False)))))"

fun Gate_Approve :: "string \<Rightarrow> Gate \<Rightarrow> Gate" where
  "Gate_Approve wp (HumanGate h) = HumanGate (HumanGate_Approve h wp)"
| "Gate_Approve wp g = g"

fun Gate_Reject :: "string \<Rightarrow> string \<Rightarrow> Gate \<Rightarrow> Gate" where
  "Gate_Reject wp reason (HumanGate h) = HumanGate (HumanGate_Reject h wp reason)"
| "Gate_Reject wp reason g = g"

definition Scheduler_Approve :: "string \<Rightarrow> Scheduler \<Rightarrow> Scheduler" where
  "Scheduler_Approve wp s = s\<lparr>o_gates := map (Gate_Approve wp) (o_gates s)\<rparr>"

definition Scheduler_Reject :: "string \<Rightarrow> string \<Rightarrow> Scheduler \<Rightarrow> Scheduler" where
  "Scheduler_Reject wp reason s = s\<lparr>o_gates := map (Gate_Reject wp reason) (o_gates s)\<rparr>"

record RestoreAssignment =
  ra_ID :: string
  ra_ProjectID :: string
  ra_WorkPackageID :: string
  ra_WorkerID :: string
  ra_State :: asg_state
  ra_Attempt :: int
  ra_LeaseOwner :: string
  ra_LeaseExpiresAt :: string

definition restore_assignment :: "RestoreAssignment \<Rightarrow> Lease \<Rightarrow> Assignment" where
  "restore_assignment r l =
     \<lparr>a_ID = ra_ID r, a_ProjectID = ra_ProjectID r, a_WorkPackageID = ra_WorkPackageID r,
      a_WorkerID = ra_WorkerID r, a_State = ra_State r, a_Lease = l, a_Attempt = ra_Attempt r\<rparr>"

text \<open>\<open>parse\<close> is \<open>time.Parse\<close> with the RFC3339Nano layout.\<close>

definition restore_lease :: "(string \<Rightarrow> time option) \<Rightarrow> RestoreAssignment \<Rightarrow> sched_error + Lease" where
  "restore_lease parse r =
     (if ra_LeaseExpiresAt r = [] then Ok Lease_zero
      else (case parse (ra_LeaseExpiresAt r) of
              None \<Rightarrow> Err (RestoreLease (ra_ID r))
            | Some t \<Rightarrow> Ok \<lparr>l_Owner = ra_LeaseOwner r, l_ExpiresAt = t\<rparr>))"

fun restore_loop ::
  "(string \<Rightarrow> time option) \<Rightarrow> time \<Rightarrow> RestoreAssignment list \<Rightarrow> RestoreAssignment list \<Rightarrow> Scheduler \<Rightarrow>
     Scheduler \<times> (sched_error + RestoreAssignment list)" where
  "restore_loop parse now upd [] s = (s, Ok upd)"
| "restore_loop parse now upd (r # rs) s =
     (case restore_lease parse r of
        Inl e \<Rightarrow> (s, Err e)
      | Inr l \<Rightarrow>
     (case Assignment_Expire (restore_assignment r l) now of
        Inl e \<Rightarrow> (s, Err (TransitionFailed e))
      | Inr a \<Rightarrow>
          let s1 = store_assignment (a_WorkPackageID a) a s;
              s2 = (if fm_getd 0 (o_attempts s1) (a_WorkPackageID a) < a_Attempt a
                    then s1\<lparr>o_attempts := fmupd (a_WorkPackageID a) (a_Attempt a) (o_attempts s1)\<rparr>
                    else s1)
          in restore_loop parse now
               (if a_State a \<noteq> ra_State r then upd @ [r\<lparr>ra_State := a_State a\<rparr>] else upd) rs s2))"

definition Scheduler_Restore ::
  "(string \<Rightarrow> time option) \<Rightarrow> RestoreAssignment list \<Rightarrow> time \<Rightarrow> Scheduler \<Rightarrow>
     Scheduler \<times> (sched_error + RestoreAssignment list)" where
  "Scheduler_Restore parse records now s = restore_loop parse now [] records s"

record AssignmentStatus =
  as_ID :: string
  as_WorkPackageID :: string
  as_WorkerID :: string
  as_State :: asg_state
  as_Attempt :: int

definition Scheduler_Status :: "Scheduler \<Rightarrow> string \<times> string \<times> WorkPackage list \<times> AssignmentStatus list" where
  "Scheduler_Status s =
     (g_ProjectID (o_graph s), g_ID (o_graph s), Graph_List (o_graph s),
      map (\<lambda>a. \<lparr>as_ID = a_ID a, as_WorkPackageID = a_WorkPackageID a, as_WorkerID = a_WorkerID a,
                as_State = a_State a, as_Attempt = a_Attempt a\<rparr>) (fm_vals (o_assignments s)))"

end
