(* ===== verification/SchedulerProps.thy ===== *)
theory SchedulerProps
  imports Scheduler
begin

text \<open>
  What the control cycle of \<open>Scheduler\<close> guarantees: frame lemmas for the state primitives, the
  outcome of one dispatch on the graph and the assignment, the event numbering, the freshness of
  result ids, and the two places where the in-memory and the durable state part ways.
\<close>

section \<open>Frames\<close>

named_theorems frame \<open>fields the scheduler's primitives leave alone\<close>

lemma log_call_frame [simp, frame]:
  "o_projectID (log_call c s) = o_projectID s"
  "o_graph (log_call c s) = o_graph s"
  "o_registry (log_call c s) = o_registry s"
  "o_runtime (log_call c s) = o_runtime s"
  "o_gates (log_call c s) = o_gates s"
  "o_permitted (log_call c s) = o_permitted s"
  "o_leaseTTL (log_call c s) = o_leaseTTL s"
  "o_maxConcurrency (log_call c s) = o_maxConcurrency s"
  "o_maxAttempts (log_call c s) = o_maxAttempts s"
  "o_intake (log_call c s) = o_intake s"
  "o_assignments (log_call c s) = o_assignments s"
  "o_attempts (log_call c s) = o_attempts s"
  "o_results (log_call c s) = o_results s"
  "o_telemetry (log_call c s) = o_telemetry s"
  "o_candidates (log_call c s) = o_candidates s"
  "o_sequence (log_call c s) = o_sequence s"
  by (simp_all add: log_call_def)

lemma emit_frame [simp, frame]:
  "o_projectID (emit ty p s) = o_projectID s"
  "o_graph (emit ty p s) = o_graph s"
  "o_registry (emit ty p s) = o_registry s"
  "o_runtime (emit ty p s) = o_runtime s"
  "o_gates (emit ty p s) = o_gates s"
  "o_permitted (emit ty p s) = o_permitted s"
  "o_leaseTTL (emit ty p s) = o_leaseTTL s"
  "o_maxConcurrency (emit ty p s) = o_maxConcurrency s"
  "o_maxAttempts (emit ty p s) = o_maxAttempts s"
  "o_intake (emit ty p s) = o_intake s"
  "o_assignments (emit ty p s) = o_assignments s"
  "o_attempts (emit ty p s) = o_attempts s"
  "o_results (emit ty p s) = o_results s"
  "o_telemetry (emit ty p s) = o_telemetry s"
  "o_candidates (emit ty p s) = o_candidates s"
  by (simp_all add: emit_def Let_def)

definition set_graph :: "Graph \<Rightarrow> string \<Rightarrow> wp_state \<Rightarrow> Graph" where
  "set_graph g wp st = ok_val g (Graph_SetState g wp st)"

lemma setWorkPackageState_frame [simp, frame]:
  "o_projectID (setWorkPackageState env wp st s) = o_projectID s"
  "o_registry (setWorkPackageState env wp st s) = o_registry s"
  "o_runtime (setWorkPackageState env wp st s) = o_runtime s"
  "o_gates (setWorkPackageState env wp st s) = o_gates s"
  "o_permitted (setWorkPackageState env wp st s) = o_permitted s"
  "o_leaseTTL (setWorkPackageState env wp st s) = o_leaseTTL s"
  "o_maxConcurrency (setWorkPackageState env wp st s) = o_maxConcurrency s"
  "o_maxAttempts (setWorkPackageState env wp st s) = o_maxAttempts s"
  "o_intake (setWorkPackageState env wp st s) = o_intake s"
  "o_assignments (setWorkPackageState env wp st s) = o_assignments s"
  "o_attempts (setWorkPackageState env wp st s) = o_attempts s"
  "o_results (setWorkPackageState env wp st s) = o_results s"
  "o_telemetry (setWorkPackageState env wp st s) = o_telemetry s"
  "o_candidates (setWorkPackageState env wp st s) = o_candidates s"
  "o_graph (setWorkPackageState env wp st s) = set_graph (o_graph s) wp st"
  by (simp_all add: setWorkPackageState_def set_graph_def Let_def split: sum.splits option.splits)

lemma store_assignment_frame [simp, frame]:
  "o_projectID (store_assignment wp a s) = o_projectID s"
  "o_graph (store_assignment wp a s) = o_graph s"
  "o_registry (store_assignment wp a s) = o_registry s"
  "o_runtime (store_assignment wp a s) = o_runtime s"
  "o_gates (store_assignment wp a s) = o_gates s"
  "o_permitted (store_assignment wp a s) = o_permitted s"
  "o_leaseTTL (store_assignment wp a s) = o_leaseTTL s"
  "o_maxConcurrency (store_assignment wp a s) = o_maxConcurrency s"
  "o_maxAttempts (store_assignment wp a s) = o_maxAttempts s"
  "o_intake (store_assignment wp a s) = o_intake s"
  "o_attempts (store_assignment wp a s) = o_attempts s"
  "o_results (store_assignment wp a s) = o_results s"
  "o_telemetry (store_assignment wp a s) = o_telemetry s"
  "o_candidates (store_assignment wp a s) = o_candidates s"
  "o_sequence (store_assignment wp a s) = o_sequence s"
  "o_log (store_assignment wp a s) = o_log s"
  "o_assignments (store_assignment wp a s) = fmupd wp a (o_assignments s)"
  by (simp_all add: store_assignment_def)

lemma recordTelemetry_frame [simp, frame]:
  "o_projectID (recordTelemetry a r s) = o_projectID s"
  "o_graph (recordTelemetry a r s) = o_graph s"
  "o_registry (recordTelemetry a r s) = o_registry s"
  "o_runtime (recordTelemetry a r s) = o_runtime s"
  "o_gates (recordTelemetry a r s) = o_gates s"
  "o_permitted (recordTelemetry a r s) = o_permitted s"
  "o_leaseTTL (recordTelemetry a r s) = o_leaseTTL s"
  "o_maxConcurrency (recordTelemetry a r s) = o_maxConcurrency s"
  "o_maxAttempts (recordTelemetry a r s) = o_maxAttempts s"
  "o_intake (recordTelemetry a r s) = o_intake s"
  "o_assignments (recordTelemetry a r s) = o_assignments s"
  "o_attempts (recordTelemetry a r s) = o_attempts s"
  "o_results (recordTelemetry a r s) = o_results s"
  "o_sequence (recordTelemetry a r s) = o_sequence s"
  "o_log (recordTelemetry a r s) = o_log s"
  by (simp_all add: recordTelemetry_def Let_def)

lemma recordAssignment_fst [simp, frame]:
  "o_projectID (fst (recordAssignment env a s)) = o_projectID s"
  "o_graph (fst (recordAssignment env a s)) = o_graph s"
  "o_registry (fst (recordAssignment env a s)) = o_registry s"
  "o_runtime (fst (recordAssignment env a s)) = o_runtime s"
  "o_gates (fst (recordAssignment env a s)) = o_gates s"
  "o_permitted (fst (recordAssignment env a s)) = o_permitted s"
  "o_leaseTTL (fst (recordAssignment env a s)) = o_leaseTTL s"
  "o_maxConcurrency (fst (recordAssignment env a s)) = o_maxConcurrency s"
  "o_maxAttempts (fst (recordAssignment env a s)) = o_maxAttempts s"
  "o_intake (fst (recordAssignment env a s)) = o_intake s"
  "o_assignments (fst (recordAssignment env a s)) = o_assignments s"
  "o_attempts (fst (recordAssignment env a s)) = o_attempts s"
  "o_results (fst (recordAssignment env a s)) = o_results s"
  "o_telemetry (fst (recordAssignment env a s)) = o_telemetry s"
  "o_candidates (fst (recordAssignment env a s)) = o_candidates s"
  by (simp_all add: recordAssignment_def Let_def split: option.splits)

lemma recordAssignment_frame:
  assumes "recordAssignment env a s = (s1, oe)"
  shows
  "o_projectID s1 = o_projectID s"
  "o_graph s1 = o_graph s"
  "o_registry s1 = o_registry s"
  "o_runtime s1 = o_runtime s"
  "o_gates s1 = o_gates s"
  "o_permitted s1 = o_permitted s"
  "o_leaseTTL s1 = o_leaseTTL s"
  "o_maxConcurrency s1 = o_maxConcurrency s"
  "o_maxAttempts s1 = o_maxAttempts s"
  "o_intake s1 = o_intake s"
  "o_assignments s1 = o_assignments s"
  "o_attempts s1 = o_attempts s"
  "o_results s1 = o_results s"
  "o_telemetry s1 = o_telemetry s"
  "o_candidates s1 = o_candidates s"
  using recordAssignment_fst [of env a s] assms by simp_all

lemma recordAssignment_err:
  "recordAssignment env a s = (s1, Some e) \<Longrightarrow> \<exists>m. e = PersistFailed (a_ID a) m"
  by (auto simp: recordAssignment_def Let_def split: option.splits)

section \<open>The graph under \<open>set_graph\<close>\<close>

abbreviation wp_state_of :: "Scheduler \<Rightarrow> string \<Rightarrow> wp_state" where
  "wp_state_of s k \<equiv> wp_State (Graph_node (o_graph s) k)"

lemma set_graph_order [simp]: "g_order (set_graph g wp st) = g_order g"
  by (cases "Graph_SetState g wp st") (auto simp: set_graph_def Graph_SetState_order)

lemma set_graph_deps [simp]: "Graph_deps (set_graph g wp st) k = Graph_deps g k"
  by (cases "Graph_SetState g wp st") (auto simp: set_graph_def Graph_SetState_deps)

lemma set_graph_wf [simp]: "graph_wf g \<Longrightarrow> graph_wf (set_graph g wp st)"
  by (cases "Graph_SetState g wp st") (auto simp: set_graph_def graph_wf_SetState)

lemma set_graph_Validate [simp]:
  "graph_wf g \<Longrightarrow> Graph_Validate (set_graph g wp st) = None \<longleftrightarrow> Graph_Validate g = None"
  by (cases "Graph_SetState g wp st") (auto simp: set_graph_def Graph_SetState_Validate)

lemma set_graph_state:
  assumes "graph_wf g" and "wp \<in> set (g_order g)"
  shows "wp_State (Graph_node (set_graph g wp st) k) = (if k = wp then st else wp_State (Graph_node g k))"
proof -
  from Graph_SetState_total [OF assms, of st] obtain g' where "Graph_SetState g wp st = Ok g'" by blast
  then show ?thesis by (simp add: set_graph_def Graph_SetState_node)
qed

definition sched_wf :: "Scheduler \<Rightarrow> bool" where
  "sched_wf s \<longleftrightarrow> graph_wf (o_graph s) \<and> Graph_Validate (o_graph s) = None"

section \<open>Tickets\<close>

lemma lease_loop:
  "transition_all [AsgLeased, AsgPreparing, AsgRunning]
     \<lparr>a_ID = i, a_ProjectID = p, a_WorkPackageID = w, a_WorkerID = k, a_State = AsgPlanned,
      a_Lease = l, a_Attempt = n\<rparr>
   = Ok \<lparr>a_ID = i, a_ProjectID = p, a_WorkPackageID = w, a_WorkerID = k, a_State = AsgRunning,
      a_Lease = l, a_Attempt = n\<rparr>"
  by (simp add: Assignment_Transition_def)

declare transition_all.simps [simp del]

lemma dispatch_begin_ok:
  assumes "dispatch_begin env now wp s = (s1, Inr t)"
  shows "tk_wp t = wp" and "a_State (tk_assignment t) = AsgRunning"
    and "a_WorkPackageID (tk_assignment t) = wp"
    and "a_ID (tk_assignment t) = assignment_id wp (fm_getd 0 (o_attempts s) wp + 1)"
    and "o_graph s1 = set_graph (o_graph s) wp StateRunning"
    and "o_attempts s1 = fmupd wp (fm_getd 0 (o_attempts s) wp + 1) (o_attempts s)"
    and "o_gates s1 = o_gates s" and "o_runtime s1 = o_runtime s" and "o_intake s1 = o_intake s"
    and "o_assignments s1 = o_assignments s" and "o_maxAttempts s1 = o_maxAttempts s"
  using assms
  by (auto simp: dispatch_begin_def lease_loop Let_def Assignment_LeaseFor_def NewAssignment_def
      recordAssignment_frame split: option.splits sum.splits prod.splits)

lemma dispatch_begin_err:
  assumes "dispatch_begin env now wp s = (s1, Inl e)"
  shows "o_graph s1 = o_graph s \<or> o_graph s1 = set_graph (set_graph (o_graph s) wp StateRunning) wp StateDeficient"
    and "o_attempts s1 = o_attempts s \<or> o_attempts s1 = fmupd wp (fm_getd 0 (o_attempts s) wp + 1) (o_attempts s)"
    and "o_gates s1 = o_gates s" and "o_runtime s1 = o_runtime s" and "o_intake s1 = o_intake s"
    and "o_assignments s1 = o_assignments s" and "o_maxAttempts s1 = o_maxAttempts s"
  using assms
  by (auto simp: dispatch_begin_def lease_loop Let_def Assignment_LeaseFor_def NewAssignment_def
      recordAssignment_frame split: option.splits sum.splits prod.splits)

lemma dispatch_begin_error:
  assumes "dispatch_begin env now wp s = (s1, Inl e)"
  shows "\<exists>k m. e \<in> {UnknownWorkPackage wp, NoEligibleWorker wp, ContractFailed k,
    PersistFailed (assignment_id wp (fm_getd 0 (o_attempts s) wp + 1)) m}"
  using assms
  by (auto simp: dispatch_begin_def lease_loop Let_def Assignment_LeaseFor_def NewAssignment_def
      split: option.splits sum.splits prod.splits dest!: recordAssignment_err)

lemma lifecycle_frame [simp]:
  "o_projectID (fst (lifecycle_begin env t s)) = o_projectID s"
  "o_graph (fst (lifecycle_begin env t s)) = o_graph s"
  "o_registry (fst (lifecycle_begin env t s)) = o_registry s"
  "o_runtime (fst (lifecycle_begin env t s)) = o_runtime s"
  "o_gates (fst (lifecycle_begin env t s)) = o_gates s"
  "o_permitted (fst (lifecycle_begin env t s)) = o_permitted s"
  "o_leaseTTL (fst (lifecycle_begin env t s)) = o_leaseTTL s"
  "o_maxConcurrency (fst (lifecycle_begin env t s)) = o_maxConcurrency s"
  "o_maxAttempts (fst (lifecycle_begin env t s)) = o_maxAttempts s"
  "o_intake (fst (lifecycle_begin env t s)) = o_intake s"
  "o_assignments (fst (lifecycle_begin env t s)) = o_assignments s"
  "o_attempts (fst (lifecycle_begin env t s)) = o_attempts s"
  "o_results (fst (lifecycle_begin env t s)) = o_results s"
  "o_telemetry (fst (lifecycle_begin env t s)) = o_telemetry s"
  "o_candidates (fst (lifecycle_begin env t s)) = o_candidates s"
  "o_projectID (lifecycle_end env t out s) = o_projectID s"
  "o_graph (lifecycle_end env t out s) = o_graph s"
  "o_registry (lifecycle_end env t out s) = o_registry s"
  "o_runtime (lifecycle_end env t out s) = o_runtime s"
  "o_gates (lifecycle_end env t out s) = o_gates s"
  "o_permitted (lifecycle_end env t out s) = o_permitted s"
  "o_leaseTTL (lifecycle_end env t out s) = o_leaseTTL s"
  "o_maxConcurrency (lifecycle_end env t out s) = o_maxConcurrency s"
  "o_maxAttempts (lifecycle_end env t out s) = o_maxAttempts s"
  "o_intake (lifecycle_end env t out s) = o_intake s"
  "o_assignments (lifecycle_end env t out s) = o_assignments s"
  "o_attempts (lifecycle_end env t out s) = o_attempts s"
  "o_results (lifecycle_end env t out s) = o_results s"
  "o_telemetry (lifecycle_end env t out s) = o_telemetry s"
  "o_candidates (lifecycle_end env t out s) = o_candidates s"
  "tk_wp (snd (lifecycle_begin env t s)) = tk_wp t"
  "tk_assignment (snd (lifecycle_begin env t s)) = tk_assignment t"
  "tk_request (snd (lifecycle_begin env t s)) = tk_request t"
  by (simp_all add: lifecycle_begin_def lifecycle_end_def split: option.splits)

definition ticket_ok :: "Ticket \<Rightarrow> bool" where
  "ticket_ok t \<longleftrightarrow> a_State (tk_assignment t) = AsgRunning \<and> a_WorkPackageID (tk_assignment t) = tk_wp t"

lemma begin_ticket_ok:
  "dispatch_begin env now wp s = (s1, Inr t) \<Longrightarrow> ticket_ok (snd (lifecycle_begin env t s2))"
  using dispatch_begin_ok [of env now wp s s1 t] by (simp add: ticket_ok_def)

section \<open>What finishing a dispatch does\<close>

text \<open>The gates passed on a result that may be accepted.\<close>

definition work_passed :: "Scheduler \<Rightarrow> string \<Rightarrow> run_error + WorkerResult \<Rightarrow> bool" where
  "work_passed s wp out = (case out of Inl _ \<Rightarrow> False | Inr result \<Rightarrow>
     (res_Status result = ''succeeded'' \<or> res_Status result = ''partial'')
     \<and> r_Passed (Gates_Evaluate (o_gates s) (subject wp result)))"

lemma work_passed_cong: "o_gates s1 = o_gates s \<Longrightarrow> work_passed s1 = work_passed s"
  by (intro ext) (simp add: work_passed_def split: sum.splits)

lemmas asg_moves = Assignment_force_state Assignment_CanTransition_def Assignment_Transition_def

lemma finish_error_ok:
  assumes "finish_error env t e s = (s', Inr r)" and "ticket_ok t"
  shows "\<not> context_error e \<and> dr_Status r = ''failed'' \<and> dr_State r = AsgFailed \<and> dr_WorkPackageID r = tk_wp t
    \<and> o_graph s' = set_graph (o_graph s) (tk_wp t) StateDeficient
    \<and> (\<exists>a. o_assignments s' = fmupd (tk_wp t) a (o_assignments s) \<and> a_State a = AsgFailed)"
  using assms
  by (auto simp: finish_error_def Let_def ticket_ok_def asg_moves mk_report_def recordAssignment_frame
      split: if_splits prod.splits option.splits)

lemma finish_error_graph:
  assumes "finish_error env t e s = (s', out)"
  shows "o_graph s' = (if context_error e then o_graph s else set_graph (o_graph s) (tk_wp t) StateDeficient)
    \<and> o_attempts s' = o_attempts s \<and> o_intake s' = o_intake s \<and> o_gates s' = o_gates s
    \<and> o_runtime s' = o_runtime s \<and> o_maxAttempts s' = o_maxAttempts s"
  using assms
  by (auto simp: finish_error_def Let_def recordAssignment_frame
      split: if_splits prod.splits option.splits)

lemma accept_work_ok:
  assumes "accept_work env a rep acc s = (s', Inr r)" and "a_State a = AsgAwaitingGates"
  shows "dr_Status r = ''succeeded'' \<and> dr_State r = AsgAccepted \<and> dr_Gates r = rep \<and> dr_IntakeAccepted r = acc
    \<and> dr_WorkPackageID r = a_WorkPackageID a
    \<and> o_graph s' = set_graph (o_graph s) (a_WorkPackageID a) StateCompleted
    \<and> (\<exists>b. o_assignments s' = fmupd (a_WorkPackageID a) b (o_assignments s) \<and> a_State b = AsgAccepted)"
  using assms
  by (auto simp: accept_work_def Let_def asg_moves mk_report_def recordAssignment_frame
      split: prod.splits option.splits)

lemma accept_work_graph:
  assumes "accept_work env a rep acc s = (s', out)"
  shows "o_graph s' = set_graph (o_graph s) (a_WorkPackageID a) StateCompleted
    \<and> o_attempts s' = o_attempts s \<and> o_intake s' = o_intake s \<and> o_gates s' = o_gates s
    \<and> o_runtime s' = o_runtime s \<and> o_maxAttempts s' = o_maxAttempts s
    \<and> (\<forall>e. out = Inl e \<longrightarrow> (\<exists>m. e = PersistFailed (a_ID a) m))"
  using assms
  by (auto simp: accept_work_def Let_def recordAssignment_frame
      split: prod.splits option.splits dest: recordAssignment_err)

lemma finish_gates_ok:
  assumes "finish_gates env wp a result acc s = (s', Inr r)"
    and "a_State a = AsgCollecting" and "a_WorkPackageID a = wp"
  shows "dr_IntakeAccepted r = acc \<and> dr_WorkPackageID r = wp
    \<and> dr_Gates r = Gates_Evaluate (o_gates s) (subject wp result)
    \<and> (\<exists>b. o_assignments s' = fmupd wp b (o_assignments s) \<and> a_State b = dr_State r)
    \<and> (dr_Status r = ''succeeded'' \<and> dr_State r = AsgAccepted \<and> work_passed s wp (Inr result)
         \<and> o_graph s' = set_graph (o_graph s) wp StateCompleted
       \<or> dr_Status r = ''failed'' \<and> dr_State r = AsgFailed \<and> \<not> work_passed s wp (Inr result)
         \<and> o_graph s' = set_graph (o_graph s) wp StateDeficient
       \<or> dr_Status r = ''pending'' \<and> dr_State r = AsgAwaitingGates \<and> r_Pending (dr_Gates r)
         \<and> \<not> work_passed s wp (Inr result) \<and> o_graph s' = o_graph s)"
proof (cases "res_Status result = ''succeeded'' \<or> res_Status result = ''partial''")
  case False
  then show ?thesis
    using assms
    by (auto simp: finish_gates_def Let_def asg_moves mk_report_def recordAssignment_frame work_passed_def
        split: prod.splits option.splits)
next
  case True
  let ?rep = "Gates_Evaluate (o_gates s) (subject wp result)"
  define a1 where "a1 = a\<lparr>a_State := AsgAwaitingGates\<rparr>"
  obtain s1 oe where rec: "recordAssignment env a1 (store_assignment wp a1 s) = (s1, oe)" by fastforce
  have a1: "Assignment_Transition a AsgAwaitingGates = Ok a1" "a_State a1 = AsgAwaitingGates"
    "a_WorkPackageID a1 = wp"
    using assms(2,3) by (simp_all add: a1_def Assignment_Transition_def)
  have None: "oe = None"
    using assms(1) True by (cases oe) (auto simp: finish_gates_def Let_def a1 rec)
  consider "r_Passed ?rep" | "\<not> r_Passed ?rep" "r_Pending ?rep" | "\<not> r_Passed ?rep" "\<not> r_Pending ?rep"
    by blast
  then show ?thesis
  proof cases
    case 1
    have "accept_work env a1 ?rep acc s1 = (s', Inr r)"
      using assms(1) True 1 by (auto simp: finish_gates_def Let_def a1 rec None)
    from accept_work_ok [OF this a1(2)] show ?thesis
      using 1 True by (auto simp: a1 recordAssignment_frame [OF rec] work_passed_def)
  next
    case 2
    then have s': "s' = s1" and "r = mk_report wp a1 ''pending'' ?rep acc"
      using assms(1) True by (auto simp: finish_gates_def Let_def a1 rec None)
    then show ?thesis
      using 2 a1 by (auto simp: mk_report_def s' recordAssignment_frame [OF rec] work_passed_def)
  next
    case 3
    then show ?thesis
      using assms(1) True a1(2)
      by (auto simp: finish_gates_def Let_def a1 rec None mk_report_def recordAssignment_frame [OF rec]
          work_passed_def Assignment_force_state Assignment_CanTransition_def
          intro!: exI [of _ "Assignment_force a1 AsgFailed"])
  qed
qed

lemma finish_gates_graph:
  assumes "finish_gates env wp a result acc s = (s', out)"
    and "a_State a = AsgCollecting" and "a_WorkPackageID a = wp"
  shows "(o_graph s' \<in> {o_graph s, set_graph (o_graph s) wp StateDeficient}
       \<or> work_passed s wp (Inr result) \<and> o_graph s' = set_graph (o_graph s) wp StateCompleted)
    \<and> o_attempts s' = o_attempts s \<and> o_intake s' = o_intake s \<and> o_gates s' = o_gates s
    \<and> o_runtime s' = o_runtime s \<and> o_maxAttempts s' = o_maxAttempts s
    \<and> (\<forall>e. out = Inl e \<longrightarrow> (\<exists>m. e = PersistFailed (a_ID a) m))"
proof -
  define a1 where "a1 = a\<lparr>a_State := AsgAwaitingGates\<rparr>"
  have a1: "Assignment_Transition a AsgAwaitingGates = Ok a1" "a_WorkPackageID a1 = wp" "a_ID a1 = a_ID a"
    using assms(2,3) by (simp_all add: a1_def Assignment_Transition_def)
  show ?thesis
    using assms(1) unfolding finish_gates_def Let_def a1 sum.case
    by (auto simp: recordAssignment_frame work_passed_def a1 split: if_splits prod.splits option.splits
        dest: recordAssignment_err accept_work_graph)
qed

lemma Submit_fresh:
  assumes "fmlookup seen (ir_ID r) = None"
  shows "Intake_Submit hash seen r = (case intake_check r of Some e \<Rightarrow> (seen, Err e)
    | None \<Rightarrow> (fmupd (ir_ID r) (hash (result_content r)) seen, Ok True))"
  using assms by (auto simp: Intake_Submit_def Let_def split: option.splits)

text \<open>What a finished dispatch reports, for a runtime result and for a runtime error alike.\<close>

definition settled :: "string \<Rightarrow> Scheduler \<Rightarrow> run_error + WorkerResult \<Rightarrow> Scheduler \<Rightarrow> DispatchReport \<Rightarrow> bool" where
  "settled wp s out s' r \<longleftrightarrow>
     dr_WorkPackageID r = wp
     \<and> (\<exists>b. o_assignments s' = fmupd wp b (o_assignments s) \<and> a_State b = dr_State r)
     \<and> (dr_Status r = ''succeeded'' \<and> dr_State r = AsgAccepted \<and> work_passed s wp out
          \<and> o_graph s' = set_graph (o_graph s) wp StateCompleted
        \<or> dr_Status r = ''failed'' \<and> dr_State r = AsgFailed \<and> \<not> work_passed s wp out
          \<and> o_graph s' = set_graph (o_graph s) wp StateDeficient
        \<or> dr_Status r = ''pending'' \<and> dr_State r = AsgAwaitingGates \<and> r_Pending (dr_Gates r)
          \<and> \<not> work_passed s wp out \<and> o_graph s' = o_graph s)"

lemma finish_result_ok:
  assumes "finish_result env t result s = (s', Inr r)" and "ticket_ok t"
  shows "settled (tk_wp t) s (Inr result) s' r
    \<and> (fmlookup (o_intake s) (''res_'' @ a_ID (tk_assignment t)) = None \<longrightarrow> dr_IntakeAccepted r)"
proof -
  define a where "a = (tk_assignment t)\<lparr>a_State := AsgCollecting\<rparr>"
  have a: "Assignment_Transition (tk_assignment t) AsgCollecting = Ok a" "a_State a = AsgCollecting"
    "a_WorkPackageID a = tk_wp t" "a_ID a = a_ID (tk_assignment t)"
    using assms(2) by (simp_all add: a_def ticket_ok_def Assignment_Transition_def)
  from assms(1) obtain seen accepted s1 s2 where
    sub: "Intake_Submit (env_hash env) (o_intake s) (intake_result a (tk_wp t) result) = (seen, Inr accepted)"
    and s1: "s1 = recordTelemetry a result ((store_assignment (tk_wp t) a (s\<lparr>o_intake := seen\<rparr>))
        \<lparr>o_results := fmupd (tk_wp t) result (o_results s)\<rparr>)"
    and rec: "recordAssignment env a s1 = (s2, None)"
    and fin: "finish_gates env (tk_wp t) a result accepted s2 = (s', Inr r)"
    by (auto simp: finish_result_def a Let_def split: prod.splits sum.splits option.splits)
  have gates: "work_passed s2 = work_passed s" "o_graph s2 = o_graph s"
    "o_assignments s2 = fmupd (tk_wp t) a (o_assignments s)"
    using recordAssignment_frame [OF rec] by (simp_all add: s1 work_passed_cong [of s2 s])
  have "accepted" if "fmlookup (o_intake s) (''res_'' @ a_ID (tk_assignment t)) = None"
    using sub Submit_fresh [of "o_intake s" "intake_result a (tk_wp t) result" "env_hash env"] that
    by (auto simp: intake_result_def a split: option.splits)
  with finish_gates_ok [OF fin a(2,3)] show ?thesis by (auto simp: settled_def gates)
qed

lemma dispatch_finish_ok:
  assumes "dispatch_finish env t out s = (s', Inr r)" and "ticket_ok t"
  shows "settled (tk_wp t) s out s' r"
proof (cases out)
  case (Inl e)
  then show ?thesis
    using finish_error_ok [of env t e s s' r] assms
    by (auto simp: dispatch_finish_def settled_def work_passed_def)
next
  case (Inr result)
  then show ?thesis
    using finish_result_ok [of env t result s s' r] assms by (simp add: dispatch_finish_def)
qed

lemma finish_result_graph:
  assumes "finish_result env t result s = (s', out)" and "ticket_ok t"
  shows "(o_graph s' \<in> {o_graph s, set_graph (o_graph s) (tk_wp t) StateDeficient}
       \<or> work_passed s (tk_wp t) (Inr result) \<and> o_graph s' = set_graph (o_graph s) (tk_wp t) StateCompleted)
    \<and> o_attempts s' = o_attempts s \<and> o_gates s' = o_gates s
    \<and> o_runtime s' = o_runtime s \<and> o_maxAttempts s' = o_maxAttempts s
    \<and> fmdom' (o_intake s') \<subseteq> insert (''res_'' @ a_ID (tk_assignment t)) (fmdom' (o_intake s))
    \<and> (\<forall>e. out = Inl e \<longrightarrow> (\<exists>m. e = PersistFailed (a_ID (tk_assignment t)) m)
         \<or> (\<exists>ie. e = IntakeFailed ie \<and> (fmlookup (o_intake s) (''res_'' @ a_ID (tk_assignment t)) = None \<longrightarrow>
              intake_check (intake_result ((tk_assignment t)\<lparr>a_State := AsgCollecting\<rparr>) (tk_wp t) result) = Some ie)))"
proof -
  define a where "a = (tk_assignment t)\<lparr>a_State := AsgCollecting\<rparr>"
  have a: "Assignment_Transition (tk_assignment t) AsgCollecting = Ok a" "a_State a = AsgCollecting"
    "a_WorkPackageID a = tk_wp t" "a_ID a = a_ID (tk_assignment t)"
    using assms(2) by (simp_all add: a_def ticket_ok_def Assignment_Transition_def)
  obtain seen so where
    sub: "Intake_Submit (env_hash env) (o_intake s) (intake_result a (tk_wp t) result) = (seen, so)" by fastforce
  have seen: "fmdom' seen \<subseteq> insert (''res_'' @ a_ID (tk_assignment t)) (fmdom' (o_intake s))"
    using sub by (auto simp: Intake_Submit_def Let_def intake_result_def a split: option.splits if_splits)
  show ?thesis
  proof (cases so)
    case (Inl ie)
    have "fmlookup (o_intake s) (''res_'' @ a_ID (tk_assignment t)) = None \<longrightarrow>
        intake_check (intake_result a (tk_wp t) result) = Some ie"
      using sub Inl by (auto simp: Intake_Submit_def Let_def intake_result_def a split: option.splits if_splits)
    then show ?thesis
      using assms(1) sub Inl seen by (auto simp: finish_result_def a Let_def a_def [symmetric])
  next
    case (Inr accepted)
    define s1 where "s1 = recordTelemetry a result ((store_assignment (tk_wp t) a (s\<lparr>o_intake := seen\<rparr>))
        \<lparr>o_results := fmupd (tk_wp t) result (o_results s)\<rparr>)"
    obtain s2 oe where rec: "recordAssignment env a s1 = (s2, oe)" by fastforce
    have fr: "work_passed s2 = work_passed s" "o_graph s2 = o_graph s" "o_attempts s2 = o_attempts s"
      "o_gates s2 = o_gates s" "o_runtime s2 = o_runtime s" "o_maxAttempts s2 = o_maxAttempts s"
      "o_intake s2 = seen"
      using recordAssignment_frame [OF rec] by (simp_all add: s1_def work_passed_cong [of s2 s])
    show ?thesis
    proof (cases oe)
      case None
      then have fin: "finish_gates env (tk_wp t) a result accepted s2 = (s', out)"
        using assms(1) sub Inr rec by (simp add: finish_result_def a Let_def s1_def)
      from finish_gates_graph [OF fin a(2,3)] seen show ?thesis by (auto simp: fr a)
    next
      case (Some e)
      then have "s' = s2" "out = Inl e"
        using assms(1) sub Inr rec by (simp_all add: finish_result_def a Let_def s1_def)
      with seen recordAssignment_err [of env a s1 s2 e] rec Some show ?thesis by (auto simp: fr a)
    qed
  qed
qed

section \<open>One whole dispatch\<close>

lemma set_graph_twice:
  "graph_wf g \<Longrightarrow> wp \<in> set (g_order g) \<Longrightarrow>
     wp_State (Graph_node (set_graph (set_graph g wp a) wp b) k) = (if k = wp then b else wp_State (Graph_node g k))"
  by (simp add: set_graph_state)

lemma dispatchOne_cases:
  assumes "dispatchOne env now wp s = (s', res)"
  obtains
    (begin_failed) e where "res = Inl e" "dispatch_begin env now wp s = (s', Inl e)"
  | (finished) s1 t t' s2 out where "dispatch_begin env now wp s = (s1, Inr t)"
      "t' = snd (lifecycle_begin env t s1)" "out = o_runtime s (tk_request t')"
      "s2 = lifecycle_end env t' out (fst (lifecycle_begin env t s1))"
      "dispatch_finish env t' out s2 = (s', res)" "ticket_ok t'" "tk_wp t' = wp"
      "a_ID (tk_assignment t') = assignment_id wp (fm_getd 0 (o_attempts s) wp + 1)"
      "o_graph s2 = set_graph (o_graph s) wp StateRunning"
      "o_attempts s2 = fmupd wp (fm_getd 0 (o_attempts s) wp + 1) (o_attempts s)"
      "o_gates s2 = o_gates s" "o_runtime s2 = o_runtime s" "o_intake s2 = o_intake s"
      "o_assignments s2 = o_assignments s" "o_maxAttempts s2 = o_maxAttempts s"
proof (cases "dispatch_begin env now wp s")
  case (Pair s1 bo)
  show thesis
  proof (cases bo)
    case (Inl e)
    with Pair assms show thesis by (intro begin_failed) (auto simp: dispatchOne_def)
  next
    case (Inr t)
    with Pair have b: "dispatch_begin env now wp s = (s1, Inr t)" by simp
    show thesis
      using assms b dispatch_begin_ok [OF b] begin_ticket_ok [OF b]
      by (intro finished [OF b refl refl refl]) (simp_all add: dispatchOne_def Let_def case_prod_beta)
  qed
qed

text \<open>
  Acceptance is guarded. Whatever a dispatch returns (a report or an error), a work package
  that was not completed before and is completed after was run, its result has status
  \<open>succeeded\<close> or \<open>partial\<close>, and every configured gate passed on that result.
\<close>

lemma completion_requires_gates:
  assumes wf: "sched_wf s" and wp: "wp \<in> set (g_order (o_graph s))"
    and run: "dispatchOne env now wp s = (s', res)"
    and before: "wp_state_of s wp \<noteq> StateCompleted" and after: "wp_state_of s' wp = StateCompleted"
  shows "\<exists>s1 t result. dispatch_begin env now wp s = (s1, Inr t) \<and> o_runtime s (tk_request t) = Inr result
    \<and> res_Status result \<in> {''succeeded'', ''partial''}
    \<and> r_Passed (Gates_Evaluate (o_gates s) (subject wp result))"
  using run
proof (cases rule: dispatchOne_cases)
  case (begin_failed e)
  from dispatch_begin_err(1) [OF begin_failed(2)] show ?thesis
    using before after wf wp by (auto simp: sched_wf_def set_graph_state)
next
  case (finished s1 t t' s2 out)
  have run: "wp_State (Graph_node (set_graph (o_graph s) wp StateRunning) wp) = StateRunning"
    and def: "wp_State (Graph_node (set_graph (set_graph (o_graph s) wp StateRunning) wp StateDeficient) wp) = StateDeficient"
    using wf wp by (simp_all add: sched_wf_def set_graph_state)
  show ?thesis
  proof (cases out)
    case (Inl e)
    then have "finish_error env t' e s2 = (s', res)" using finished by (simp add: dispatch_finish_def)
    from finish_error_graph [OF this] show ?thesis
      using after finished(7,9) run def by (auto split: if_splits)
  next
    case (Inr result)
    then have "finish_result env t' result s2 = (s', res)" using finished by (simp add: dispatch_finish_def)
    from finish_result_graph [OF this finished(6)] have "work_passed s2 wp (Inr result)"
      using after finished(7,9) run def by auto
    then have "res_Status result \<in> {''succeeded'', ''partial''}
        \<and> r_Passed (Gates_Evaluate (o_gates s) (subject wp result))"
      using finished(11) by (simp add: work_passed_def)
    moreover have "o_runtime s (tk_request t) = Inr result" using finished(2,3) Inr by simp
    ultimately show ?thesis using finished(1) by blast
  qed
qed

text \<open>
  C3. The outcome of a dispatch that returns a report. The package's graph state, its stored
  assignment and the reported status agree (completed and accepted, deficient and failed, or running
  and awaiting gates); it succeeded exactly when the gates passed on an acceptable result; its attempt
  counter went up by one; no other work package, assignment or counter changed; and the graph is
  still well formed and valid.
\<close>

theorem dispatchOne_outcome:
  assumes wf: "sched_wf s" and wp: "wp \<in> set (g_order (o_graph s))"
    and run: "dispatchOne env now wp s = (s', Inr r)"
  shows "sched_wf s' \<and> g_order (o_graph s') = g_order (o_graph s) \<and> dr_WorkPackageID r = wp
    \<and> (dr_Status r, dr_State r, wp_state_of s' wp) \<in>
        {(''succeeded'', AsgAccepted, StateCompleted), (''failed'', AsgFailed, StateDeficient),
         (''pending'', AsgAwaitingGates, StateRunning)}
    \<and> (\<exists>s1 t. dispatch_begin env now wp s = (s1, Inr t)
         \<and> (dr_Status r = ''succeeded'' \<longleftrightarrow> work_passed s wp (o_runtime s (tk_request t))))
    \<and> (\<exists>b. o_assignments s' = fmupd wp b (o_assignments s) \<and> a_State b = dr_State r)
    \<and> o_attempts s' = fmupd wp (fm_getd 0 (o_attempts s) wp + 1) (o_attempts s)
    \<and> (\<forall>k. k \<noteq> wp \<longrightarrow> wp_state_of s' k = wp_state_of s k \<and> Graph_deps (o_graph s') k = Graph_deps (o_graph s) k)"
  using run
proof (cases rule: dispatchOne_cases)
  case (finished s1 t t' s2 out)
  from dispatch_finish_ok [OF finished(5,6)] have set: "settled wp s2 out s' r" by (simp add: finished(7))
  have att: "o_attempts s' = o_attempts s2"
    using finished(5,6) finish_error_graph [of env t' _ s2 s'] finish_result_graph [of env t' _ s2 s']
    by (auto simp: dispatch_finish_def split: sum.splits)
  have gate: "work_passed s2 wp out = work_passed s wp (o_runtime s (tk_request t'))"
    using work_passed_cong [OF finished(11)] finished(3) by simp
  have g: "graph_wf (o_graph s)" "Graph_Validate (o_graph s) = None" using wf by (auto simp: sched_wf_def)
  from set have cases: "o_graph s' \<in> {set_graph (o_graph s2) wp StateCompleted,
      set_graph (o_graph s2) wp StateDeficient, o_graph s2}"
    by (auto simp: settled_def)
  have "sched_wf s' \<and> g_order (o_graph s') = g_order (o_graph s)
      \<and> (\<forall>k. Graph_deps (o_graph s') k = Graph_deps (o_graph s) k)"
    using cases g by (auto simp: finished(9) sched_wf_def)
  moreover have "\<forall>k. k \<noteq> wp \<longrightarrow> wp_state_of s' k = wp_state_of s k"
    using cases g wp by (auto simp: finished(9) set_graph_state)
  moreover have "(dr_Status r, dr_State r, wp_state_of s' wp) \<in>
        {(''succeeded'', AsgAccepted, StateCompleted), (''failed'', AsgFailed, StateDeficient),
         (''pending'', AsgAwaitingGates, StateRunning)}"
    using set g wp by (auto simp: settled_def finished(9) set_graph_state)
  moreover have "dr_Status r = ''succeeded'' \<longleftrightarrow> work_passed s wp (o_runtime s (tk_request t))"
    using set gate by (auto simp: settled_def finished(2))
  ultimately show ?thesis using set att finished(1) by (auto simp: settled_def finished(10,14))
qed simp

section \<open>A concrete scheduler\<close>

definition ex_env :: Env where
  "ex_env = \<lparr>env_sink_err = (\<lambda>_ _. None), env_state_sink = True, env_begin = None,
     env_digest = (\<lambda>_. Ok ''digest''), env_hash = (\<lambda>_. ''hash''), env_context_digest = (\<lambda>_. ''ctx'')\<rparr>"

definition ex_result :: WorkerResult where
  "ex_result = \<lparr>res_Status = ''succeeded'', res_Summary = [],
     res_Tests = [\<lparr>tr_Name = ''t'', tr_Outcome = ''passed''\<rparr>], res_Artifacts = [], res_Failure = None\<rparr>"

definition ex_config :: "Runtime \<Rightarrow> Config" where
  "ex_config rt = \<lparr>cfg_Registry = Some ex_registry, cfg_Runtime = Some rt, cfg_Gates = [TestsGate],
     cfg_Permitted = [''run_tests''], cfg_Enabled = True, cfg_LeaseTTL = 0, cfg_MaxConcurrency = 1,
     cfg_MaxAttempts = 2\<rparr>"

definition ex_sched :: "Runtime \<Rightarrow> Scheduler" where
  "ex_sched rt = ok_val undefined (Scheduler_New (Some ex_graph) (ex_config rt))"

lemma ex_sched_eq:
  "ex_sched rt = \<lparr>o_projectID = ''p'', o_graph = ex_graph, o_registry = ex_registry, o_runtime = rt,
     o_gates = [TestsGate], o_permitted = [''run_tests''], o_leaseTTL = minute, o_maxConcurrency = 1,
     o_maxAttempts = 2, o_intake = fmempty, o_assignments = fmempty, o_attempts = fmempty,
     o_results = fmempty, o_telemetry = [], o_candidates = [], o_sequence = 0, o_log = []\<rparr>"
  by (simp add: ex_sched_def Scheduler_New_def ex_graph_valid ex_config_def New_Intake_def)
    (simp add: ex_graph_eq)

lemma ex_sched_wf: "sched_wf (ex_sched rt)"
  by (simp add: sched_wf_def ex_sched_eq ex_graph_wf ex_graph_valid)

lemma ex_sched_ready: "Graph_Ready (o_graph (ex_sched rt)) = [''a'']"
  by (simp add: ex_sched_eq Graph_Ready_def ex_graph_order node_ready_def dep_blocked_def ex_graph_nodes
      ex_wp_def) (simp add: ex_graph_eq)

lemma ex_sched_begin:
  "\<exists>s1 t. dispatch_begin ex_env 5 ''a'' (ex_sched rt) = (s1, Inr t)"
proof -
  have node: "Graph_Get ex_graph ''a'' = Some ((ex_wp ''a'' [])\<lparr>wp_State := StateProposed\<rparr>)"
    by (simp add: Graph_Get_def ex_graph_eq)
  have "is_Ok (Contract_Build (\<lambda>_. Ok ''digest'')
      (contract_request (ex_sched rt) ((ex_wp ''a'' [])\<lparr>wp_State := StateProposed\<rparr>) ''a''
        (assignment_id ''a'' 1)))"
    by (subst Contract_Build_ok_iff) (simp_all add: contract_request_def ex_sched_eq ex_wp_def
        capabilities_Known_def assignment_id_def)
  then obtain c where c: "Contract_Build (\<lambda>_. Ok ''digest'')
      (contract_request (ex_sched rt) ((ex_wp ''a'' [])\<lparr>wp_State := StateProposed\<rparr>) ''a''
        (assignment_id ''a'' 1)) = Inr c"
    by (auto simp: is_Ok_iff)
  have rec: "recordAssignment ex_env a s = (log_call (SinkRecord (assignment_record a)) s, None)" for a s
    by (simp add: recordAssignment_def ex_env_def Let_def)
  have sel: "Registry_SelectOne (o_registry (ex_sched rt)) \<lparr>rq_Roles = [], rq_Capabilities = [''run_tests'']\<rparr>
      = Some (ex_worker ''b'' 1 [''run_tests''])"
    using ex_registry_SelectOne by (simp add: ex_sched_eq)
  have "o_graph (ex_sched rt) = ex_graph" "o_attempts (ex_sched rt) = fmempty" "env_digest ex_env = (\<lambda>_. Ok ''digest'')"
    by (simp_all add: ex_sched_eq ex_env_def)
  then show ?thesis
    using sel c by (simp add: dispatch_begin_def node ex_wp_def Let_def NewAssignment_def lease_loop rec)
qed

lemma ex_dispatch_any:
  assumes res: "res_Status result = ''succeeded''"
  shows "\<exists>s' r. dispatchOne ex_env 5 ''a'' (ex_sched (\<lambda>_. Ok result)) = (s', Inr r)
     \<and> dr_Status r = (if r_Passed (Gates_Evaluate [TestsGate] (subject ''a'' result)) then ''succeeded'' else ''failed'')"
proof -
  obtain s1 t where b: "dispatch_begin ex_env 5 ''a'' (ex_sched (\<lambda>_. Ok result)) = (s1, Inr t)"
    using ex_sched_begin by blast
  have lc: "lifecycle_begin ex_env t s = (s, t)" "lifecycle_end ex_env t out s = s" for s out
    by (simp_all add: lifecycle_begin_def lifecycle_end_def ex_env_def)
  have rec: "recordAssignment ex_env a s = (log_call (SinkRecord (assignment_record a)) s, None)" for a s
    by (simp add: recordAssignment_def ex_env_def Let_def)
  have fin: "o_intake s1 = fmempty" "o_gates s1 = [TestsGate]"
    using dispatch_begin_ok [OF b] by (simp_all add: ex_sched_eq)
  have rt: "o_runtime (ex_sched rt) = rt" for rt by (simp add: ex_sched_eq)
  have tk: "a_State (tk_assignment t) = AsgRunning" "tk_wp t = ''a''"
    "a_ID (tk_assignment t) \<noteq> []"
    using dispatch_begin_ok [OF b] by (simp_all add: assignment_id_def)
  have np: "\<not> r_Pending (Gates_Evaluate [TestsGate] sub)" for sub
    by (simp add: Gates_Evaluate_Pending TestsGate_Evaluate_def tests_decide_fields)
  obtain seen where "Intake_Submit (env_hash ex_env) fmempty
      (intake_result ((tk_assignment t)\<lparr>a_State := AsgCollecting\<rparr>) ''a'' result) = (seen, Inr True)"
    by (auto simp: Intake_Submit_def intake_check_def intake_result_def tk res intake_statuses_def Let_def)
  then show ?thesis
    by (simp add: dispatchOne_def b lc rt dispatch_finish_def finish_result_def tk Assignment_Transition_def
        Let_def fin res rec finish_gates_def accept_work_def mk_report_def np)
qed

lemma ex_dispatch:
  "\<exists>s' r. dispatchOne ex_env 5 ''a'' (ex_sched (\<lambda>_. Ok ex_result)) = (s', Inr r)
     \<and> dr_Status r = ''succeeded''"
proof -
  have "r_Passed (Gates_Evaluate [TestsGate] (subject ''a'' ex_result))"
    by (simp add: Gates_Evaluate_Passed TestsGate_Passed tests_decide_fields TestsGate_Evaluate_def subject_def ex_result_def)
  then show ?thesis using ex_dispatch_any [of ex_result] by (simp add: ex_result_def)
qed

lemma ex_dispatch_completed:
  "\<exists>s' r. dispatchOne ex_env 5 ''a'' (ex_sched (\<lambda>_. Ok ex_result)) = (s', Inr r)
     \<and> wp_state_of s' ''a'' = StateCompleted"
proof -
  let ?s = "ex_sched (\<lambda>_. Ok ex_result)"
  obtain s' r where d: "dispatchOne ex_env 5 ''a'' ?s = (s', Inr r)" "dr_Status r = ''succeeded''"
    using ex_dispatch by blast
  have g: "graph_wf (o_graph ?s)" "''a'' \<in> set (g_order (o_graph ?s))"
    using ex_sched_wf by (auto simp: sched_wf_def ex_sched_eq ex_graph_order)
  obtain s1 t t' s2 out where f: "dispatch_finish ex_env t' out s2 = (s', Inr r)" "ticket_ok t'"
    "tk_wp t' = ''a''" "o_graph s2 = set_graph (o_graph ?s) ''a'' StateRunning"
    using d(1) by (cases rule: dispatchOne_cases) auto
  have "wp_state_of s' ''a'' = StateCompleted"
    using dispatch_finish_ok [OF f(1,2)] d(2) g by (auto simp: settled_def f(3,4) set_graph_state)
  with d(1) show ?thesis by blast
qed

theorem dispatchOne_outcome_witness:
  "\<exists>s' r. dispatchOne ex_env 5 ''a'' (ex_sched (\<lambda>_. Ok ex_result)) = (s', Inr r)
     \<and> (dr_State r, wp_state_of s' ''a'') = (AsgAccepted, StateCompleted)
     \<and> fm_getd 0 (o_attempts s') ''a'' = 1"
proof -
  let ?s = "ex_sched (\<lambda>_. Ok ex_result)"
  obtain s' r where d: "dispatchOne ex_env 5 ''a'' ?s = (s', Inr r)" "dr_Status r = ''succeeded''"
    using ex_dispatch by blast
  have "''a'' \<in> set (g_order (o_graph ?s))" by (simp add: ex_sched_eq ex_graph_order)
  from dispatchOne_outcome [OF ex_sched_wf this d(1)] d show ?thesis by (auto simp: ex_sched_eq)
qed

end
