(* ===== verification/SchedulerRun.thy ===== *)
theory SchedulerRun
  imports SchedulerProps
begin

text \<open>
  \<open>kernel/scheduler/run.go\<close>: \<open>Scheduler.Run\<close> with its goroutines. A batch of ready work packages
  is dispatched concurrently; each goroutine is a \<open>job\<close> that moves through the lock sections and the
  unlocked calls of \<open>dispatchOne\<close>, in any interleaving with the others, and sends its outcome into
  the channel the main loop receives from. \<open>run_apply\<close> performs one action of the whole program;
  a run is any sequence of actions. Jobs keep running after \<open>Run\<close> has returned an error.
  \<open>clock\<close> gives the time \<open>cfg.Now\<close> returns, from the calls made so far.
\<close>

section \<open>Jobs\<close>

record RunReport =
  rr_ProjectID :: string
  rr_Dispatched :: int
  rr_Accepted :: int
  rr_Failed :: int
  rr_Pending :: int
  rr_Attempts :: "(string, int) fmap"

type_synonym outcome = "string \<times> (sched_error + DispatchReport)"

datatype job = Waiting string | Begun Ticket | Called Ticket | Returned Ticket "run_error + WorkerResult"

fun job_wp :: "job \<Rightarrow> string" where
  "job_wp (Waiting wp) = wp"
| "job_wp (Begun t) = tk_wp t"
| "job_wp (Called t) = tk_wp t"
| "job_wp (Returned t _) = tk_wp t"

fun job_step :: "Env \<Rightarrow> time \<Rightarrow> job \<Rightarrow> Scheduler \<Rightarrow> Scheduler \<times> (job + outcome)" where
  "job_step env now (Waiting wp) s =
     (case dispatch_begin env now wp s of
        (s1, Inl e) \<Rightarrow> (s1, Inr (wp, Err e))
      | (s1, Inr t) \<Rightarrow> (s1, Inl (Begun t)))"
| "job_step env now (Begun t) s = (let (s1, t') = lifecycle_begin env t s in (s1, Inl (Called t')))"
| "job_step env now (Called t) s =
     (let out = o_runtime s (tk_request t) in (lifecycle_end env t out s, Inl (Returned t out)))"
| "job_step env now (Returned t out) s =
     (let (s1, res) = dispatch_finish env t out s in (s1, Inr (tk_wp t, res)))"

section \<open>The main loop\<close>

definition resetForRetry :: "string \<Rightarrow> Scheduler \<Rightarrow> Scheduler \<times> bool" where
  "resetForRetry wp s =
     (case fmlookup (o_assignments s) wp of
        None \<Rightarrow> (s, False)
      | Some _ \<Rightarrow>
          (case Graph_SetState (o_graph s) wp StateReady of
             Inl _ \<Rightarrow> (s, False)
           | Inr g \<Rightarrow> (s\<lparr>o_graph := g\<rparr>, True)))"

definition run_maxAttempts :: "Scheduler \<Rightarrow> int" where
  "run_maxAttempts s = (if o_maxAttempts s < 1 then 1 else o_maxAttempts s)"

definition run_concurrency :: "Scheduler \<Rightarrow> nat" where
  "run_concurrency s = (if o_maxConcurrency s < 1 then 1 else nat (o_maxConcurrency s))"

text \<open>One received outcome without an error.\<close>

definition run_collect :: "string \<Rightarrow> DispatchReport \<Rightarrow> Scheduler \<times> RunReport \<Rightarrow> Scheduler \<times> RunReport" where
  "run_collect wp r sr =
     (let (s, rep) = sr;
          n = fm_getd 0 (rr_Attempts rep) wp + 1;
          rep1 = rep\<lparr>rr_Dispatched := rr_Dispatched rep + 1, rr_Attempts := fmupd wp n (rr_Attempts rep)\<rparr>
      in if dr_Status r = ''succeeded'' then (s, rep1\<lparr>rr_Accepted := rr_Accepted rep1 + 1\<rparr>)
         else if dr_Status r = ''failed'' then
           (if n < run_maxAttempts s then
              (case resetForRetry wp s of
                 (s1, True) \<Rightarrow> (s1, rep1)
               | (s1, False) \<Rightarrow> (s1, rep1\<lparr>rr_Failed := rr_Failed rep1 + 1\<rparr>))
            else (s, rep1\<lparr>rr_Failed := rr_Failed rep1 + 1\<rparr>))
         else (s, rep1\<lparr>rr_Pending := rr_Pending rep1 + 1\<rparr>))"

record RunState =
  rn_sched :: Scheduler
  rn_jobs :: "job list"
  rn_chan :: "outcome list"
  rn_left :: nat  \<comment> \<open>outcomes of the current batch still to be received\<close>
  rn_report :: RunReport
  rn_done :: "sched_error option option"  \<comment> \<open>\<open>None\<close> while running, then the returned error\<close>

datatype run_action = ActRound | ActCancel run_error | ActJob nat | ActRecv

definition run_init :: "Scheduler \<Rightarrow> RunState" where
  "run_init s =
     \<lparr>rn_sched = s, rn_jobs = [], rn_chan = [], rn_left = 0,
      rn_report = \<lparr>rr_ProjectID = o_projectID s, rr_Dispatched = 0, rr_Accepted = 0, rr_Failed = 0,
                   rr_Pending = 0, rr_Attempts = fmempty\<rparr>,
      rn_done = None\<rparr>"

definition at_round :: "RunState \<Rightarrow> bool" where
  "at_round R \<longleftrightarrow> rn_done R = None \<and> rn_left R = 0"

definition run_round :: "RunState \<Rightarrow> RunState" where
  "run_round R =
     (let ready = Graph_Ready (o_graph (rn_sched R));
          batch = take (run_concurrency (rn_sched R)) ready
      in if ready = [] then R\<lparr>rn_done := Some None\<rparr>
         else R\<lparr>rn_jobs := rn_jobs R @ map Waiting batch, rn_left := length batch\<rparr>)"

definition run_job :: "Env \<Rightarrow> (world_call list \<Rightarrow> time) \<Rightarrow> nat \<Rightarrow> RunState \<Rightarrow> RunState" where
  "run_job env clock i R =
     (let s = rn_sched R in
      (case job_step env (clock (o_log s)) (rn_jobs R ! i) s of
         (s1, Inl j) \<Rightarrow> R\<lparr>rn_sched := s1, rn_jobs := (rn_jobs R)[i := j]\<rparr>
       | (s1, Inr out) \<Rightarrow>
           R\<lparr>rn_sched := s1, rn_jobs := take i (rn_jobs R) @ drop (Suc i) (rn_jobs R),
             rn_chan := rn_chan R @ [out]\<rparr>))"

fun run_recv :: "outcome list \<Rightarrow> RunState \<Rightarrow> RunState" where
  "run_recv [] R = R"
| "run_recv ((wp, Inl e) # outs) R =
     R\<lparr>rn_chan := outs, rn_left := rn_left R - 1, rn_done := Some (Some e)\<rparr>"
| "run_recv ((wp, Inr r) # outs) R =
     (let (s1, rep) = run_collect wp r (rn_sched R, rn_report R)
      in R\<lparr>rn_sched := s1, rn_chan := outs, rn_left := rn_left R - 1, rn_report := rep\<rparr>)"

text \<open>\<open>None\<close>: the action is not possible in this state.\<close>

fun run_apply :: "Env \<Rightarrow> (world_call list \<Rightarrow> time) \<Rightarrow> run_action \<Rightarrow> RunState \<Rightarrow> RunState option" where
  "run_apply env clock ActRound R = (if at_round R then Some (run_round R) else None)"
| "run_apply env clock (ActCancel e) R =
     (if at_round R \<and> context_error e then Some (R\<lparr>rn_done := Some (Some (ContextDone e))\<rparr>) else None)"
| "run_apply env clock (ActJob i) R =
     (if i < length (rn_jobs R) then Some (run_job env clock i R) else None)"
| "run_apply env clock ActRecv R =
     (if rn_done R = None \<and> rn_left R \<noteq> 0 \<and> rn_chan R \<noteq> [] then Some (run_recv (rn_chan R) R) else None)"

inductive run_reach :: "Env \<Rightarrow> (world_call list \<Rightarrow> time) \<Rightarrow> Scheduler \<Rightarrow> RunState \<Rightarrow> bool"
  for env clock s0 where
  start: "run_reach env clock s0 (run_init s0)"
| step: "run_reach env clock s0 R \<Longrightarrow> run_apply env clock act R = Some R' \<Longrightarrow> run_reach env clock s0 R'"

inductive_cases run_reachE: "run_reach env clock s0 R"

text \<open>Jobs run back to back are \<open>dispatchOne\<close>.\<close>

fun job_run :: "nat \<Rightarrow> Env \<Rightarrow> time \<Rightarrow> job \<Rightarrow> Scheduler \<Rightarrow> Scheduler \<times> (job + outcome)" where
  "job_run 0 env now j s = (s, Inl j)"
| "job_run (Suc n) env now j s =
     (case job_step env now j s of
        (s1, Inl j1) \<Rightarrow> job_run n env now j1 s1
      | (s1, Inr out) \<Rightarrow> (s1, Inr out))"

lemma job_run_dispatchOne:
  "job_run 4 env now (Waiting wp) s =
     (fst (dispatchOne env now wp s), Inr (wp, snd (dispatchOne env now wp s)))"
proof (cases "dispatch_begin env now wp s")
  case (Pair s1 bo)
  have 4: "(4::nat) = Suc (Suc (Suc (Suc 0)))" by simp
  show ?thesis
  proof (cases bo)
    case (Inl e)
    with Pair show ?thesis by (simp add: 4 dispatchOne_def)
  next
    case (Inr t)
    with Pair have b: "dispatch_begin env now wp s = (s1, Inr t)" by simp
    obtain s2 t' where l: "lifecycle_begin env t s1 = (s2, t')" by fastforce
    have "tk_wp (snd (lifecycle_begin env t s1)) = wp"
      "o_runtime (fst (lifecycle_begin env t s1)) = o_runtime s"
      "tk_request (snd (lifecycle_begin env t s1)) = tk_request t"
      using dispatch_begin_ok [OF b] by simp_all
    then have "tk_wp t' = wp" "o_runtime s2 = o_runtime s" "tk_request t' = tk_request t"
      by (simp_all add: l)
    then show ?thesis
      by (simp add: 4 dispatchOne_def b l Let_def case_prod_beta)
  qed
qed


section \<open>What one job may do\<close>

text \<open>The errors a dispatched work package of a valid graph can end with.\<close>

fun expected_error :: "sched_error \<Rightarrow> bool" where
  "expected_error (NoEligibleWorker _) = True"
| "expected_error (ContractFailed _) = True"
| "expected_error (PersistFailed _ _) = True"
| "expected_error (ContextDone e) = context_error e"
| "expected_error (IntakeFailed (InvalidStatus _)) = True"
| "expected_error (IntakeFailed (FailureRequired _)) = True"
| "expected_error _ = False"

definition attempts_of :: "Scheduler \<Rightarrow> string \<Rightarrow> int" where
  "attempts_of s wp = fm_getd 0 (o_attempts s) wp"

definition result_id :: "string \<Rightarrow> int \<Rightarrow> string" where
  "result_id wp n = ''res_'' @ assignment_id wp n"

lemma result_id_inject:
  "0 \<le> m \<Longrightarrow> 0 \<le> n \<Longrightarrow> result_id wp m = result_id wp' n \<longleftrightarrow> wp = wp' \<and> m = n"
  using append_sep_itoa_inject [of "CHR ''_''" wp "nat m" wp' "nat n"]
  by (auto simp: result_id_def assignment_id_def itoa_int_nonneg is_digit_def)

text \<open>Every recorded result belongs to an attempt that was counted.\<close>

definition ids_ok :: "Scheduler \<Rightarrow> bool" where
  "ids_ok s \<longleftrightarrow> (\<forall>wp. 0 \<le> attempts_of s wp)
     \<and> (\<forall>k\<in>fmdom' (o_intake s). \<exists>wp n. 1 \<le> n \<and> n \<le> attempts_of s wp \<and> k = result_id wp n)"

lemma ids_ok_fresh: "ids_ok s \<Longrightarrow> result_id wp (attempts_of s wp + 1) \<notin> fmdom' (o_intake s)"
proof
  assume ok: "ids_ok s" and "result_id wp (attempts_of s wp + 1) \<in> fmdom' (o_intake s)"
  then obtain wp' n where "1 \<le> n" "n \<le> attempts_of s wp'"
      "result_id wp (attempts_of s wp + 1) = result_id wp' n"
    by (auto simp: ids_ok_def)
  moreover have "0 \<le> attempts_of s wp" using ok by (simp add: ids_ok_def)
  ultimately show False
    using result_id_inject [of "attempts_of s wp + 1" n wp wp'] by auto
qed

definition in_flight :: "Scheduler \<Rightarrow> Ticket \<Rightarrow> bool" where
  "in_flight s t \<longleftrightarrow> ticket_ok t \<and> tk_wp t \<noteq> [] \<and> tk_wp t \<in> set (g_order (o_graph s))
     \<and> wp_state_of s (tk_wp t) = StateRunning
     \<and> 1 \<le> attempts_of s (tk_wp t)
     \<and> a_ID (tk_assignment t) = assignment_id (tk_wp t) (attempts_of s (tk_wp t))
     \<and> result_id (tk_wp t) (attempts_of s (tk_wp t)) \<notin> fmdom' (o_intake s)"

fun job_ok :: "Scheduler \<Rightarrow> job \<Rightarrow> bool" where
  "job_ok s (Waiting wp) \<longleftrightarrow> wp \<in> set (g_order (o_graph s))"
| "job_ok s (Begun t) \<longleftrightarrow> in_flight s t"
| "job_ok s (Called t) \<longleftrightarrow> in_flight s t"
| "job_ok s (Returned t _) \<longleftrightarrow> in_flight s t"

definition outcome_ok :: "Scheduler \<Rightarrow> outcome \<Rightarrow> bool" where
  "outcome_ok s out \<longleftrightarrow> (case snd out of
       Inl e \<Rightarrow> expected_error e
     | Inr r \<Rightarrow> fst out \<in> set (g_order (o_graph s))
         \<and> dr_Status r \<in> {''succeeded'', ''failed'', ''pending''}
         \<and> wp_state_of s (fst out) \<in> {StateCompleted, StateDeficient, StateRunning})"

lemma finish_error_errors:
  assumes "finish_error env t e s = (s', Inl er)"
  shows "expected_error er"
  using assms
  by (auto simp: finish_error_def Let_def split: if_splits prod.splits option.splits
      dest: recordAssignment_err)

lemma dispatch_begin_nonempty:
  assumes "dispatch_begin env now wp s = (s1, Inr t)"
  shows "wp \<noteq> []"
  using assms
  by (auto simp: dispatch_begin_def Contract_Build_def contract_request_def Let_def
      split: option.splits sum.splits prod.splits)

lemma intake_check_errors:
  assumes "intake_check r = Some ie" and "ir_ID r \<noteq> []" "ir_AttemptID r \<noteq> []"
    "ir_AssignmentID r \<noteq> []" "ir_WorkPackageID r \<noteq> []"
  shows "expected_error (IntakeFailed ie)"
  using assms by (auto simp: intake_check_def split: if_splits)

lemma assignment_id_nonempty [simp]: "assignment_id wp n \<noteq> []"
  by (simp add: assignment_id_def)

lemma finish_graph_cases:
  assumes "dispatch_finish env t out s = (s', res)" and "ticket_ok t"
  shows "o_graph s' \<in> {o_graph s, set_graph (o_graph s) (tk_wp t) StateDeficient,
      set_graph (o_graph s) (tk_wp t) StateCompleted}"
    and "o_attempts s' = o_attempts s" and "o_maxAttempts s' = o_maxAttempts s"
    and "fmdom' (o_intake s') \<subseteq> insert (''res_'' @ a_ID (tk_assignment t)) (fmdom' (o_intake s))"
proof -
  consider e where "finish_error env t e s = (s', res)" | r where "finish_result env t r s = (s', res)"
    using assms(1) by (cases out) (auto simp: dispatch_finish_def)
  then have "o_graph s' \<in> {o_graph s, set_graph (o_graph s) (tk_wp t) StateDeficient,
      set_graph (o_graph s) (tk_wp t) StateCompleted}
    \<and> o_attempts s' = o_attempts s \<and> o_maxAttempts s' = o_maxAttempts s
    \<and> fmdom' (o_intake s') \<subseteq> insert (''res_'' @ a_ID (tk_assignment t)) (fmdom' (o_intake s))"
  proof cases
    case (1 e)
    from finish_error_graph [OF 1] show ?thesis by auto
  next
    case (2 r)
    from finish_result_graph [OF 2 assms(2)] show ?thesis by blast
  qed
  then show "o_graph s' \<in> {o_graph s, set_graph (o_graph s) (tk_wp t) StateDeficient,
      set_graph (o_graph s) (tk_wp t) StateCompleted}"
    and "o_attempts s' = o_attempts s" and "o_maxAttempts s' = o_maxAttempts s"
    and "fmdom' (o_intake s') \<subseteq> insert (''res_'' @ a_ID (tk_assignment t)) (fmdom' (o_intake s))"
    by blast+
qed

lemma finish_errors:
  assumes fin: "dispatch_finish env t out s = (s', Inl e)" and fl: "in_flight s t"
  shows "expected_error e"
proof (cases out)
  case (Inl x)
  with fin have "finish_error env t x s = (s', Inl e)" by (simp add: dispatch_finish_def)
  then show ?thesis by (rule finish_error_errors)
next
  case (Inr result)
  have t: "ticket_ok t" "tk_wp t \<noteq> []" "a_ID (tk_assignment t) \<noteq> []"
    and fresh: "fmlookup (o_intake s) (''res_'' @ a_ID (tk_assignment t)) = None"
    using fl by (auto simp: in_flight_def result_id_def in_fmdom'_iff)
  from fin Inr have "finish_result env t result s = (s', Inl e)" by (simp add: dispatch_finish_def)
  from finish_result_graph [OF this t(1)] consider
      m where "e = PersistFailed (a_ID (tk_assignment t)) m"
    | ie where "e = IntakeFailed ie"
        "intake_check (intake_result ((tk_assignment t)\<lparr>a_State := AsgCollecting\<rparr>) (tk_wp t) result) = Some ie"
    using fresh by blast
  then show ?thesis
  proof cases
    case 2
    from intake_check_errors [OF 2(2)] 2(1) t show ?thesis by (simp add: intake_result_def)
  qed simp
qed

lemma finish_outcome:
  assumes fin: "dispatch_finish env t out s = (s', res)" and fl: "in_flight s t" and wf: "sched_wf s"
  shows "outcome_ok s' (tk_wp t, res)"
proof (cases res)
  case (Inl e)
  with finish_errors [of env t out s s' e] fin fl show ?thesis by (simp add: outcome_ok_def)
next
  case (Inr r)
  from fl have t: "ticket_ok t" by (simp add: in_flight_def)
  from dispatch_finish_ok [of env t out s s' r] fin t Inr have "settled (tk_wp t) s out s' r" by simp
  with fl wf Inr show ?thesis
    by (auto simp: outcome_ok_def settled_def in_flight_def sched_wf_def set_graph_state)
qed

lemma finish_effect:
  assumes fin: "dispatch_finish env t out s = (s', res)" and fl: "in_flight s t" and wf: "sched_wf s"
  shows "g_order (o_graph s') = g_order (o_graph s)"
    and "sched_wf s'"
    and "fmdom' (o_intake s') \<subseteq> insert (result_id (tk_wp t) (attempts_of s (tk_wp t))) (fmdom' (o_intake s))"
    and "\<And>k. k \<noteq> tk_wp t \<Longrightarrow> wp_state_of s' k = wp_state_of s k"
proof -
  from fl have t: "ticket_ok t" and id: "''res_'' @ a_ID (tk_assignment t)
      = result_id (tk_wp t) (attempts_of s (tk_wp t))" and ord: "tk_wp t \<in> set (g_order (o_graph s))"
    by (simp_all add: in_flight_def result_id_def)
  note c = finish_graph_cases [OF fin t]
  show "g_order (o_graph s') = g_order (o_graph s)" and "sched_wf s'"
    using c(1) wf by (auto simp: sched_wf_def)
  show "fmdom' (o_intake s') \<subseteq> insert (result_id (tk_wp t) (attempts_of s (tk_wp t))) (fmdom' (o_intake s))"
    using c(4) by (simp only: id)
  show "wp_state_of s' k = wp_state_of s k" if "k \<noteq> tk_wp t" for k
    using c(1) wf that ord by (auto simp: sched_wf_def set_graph_state)
qed

text \<open>What a step on behalf of \<open>wp\<close> leaves alone.\<close>

definition step_frame :: "string \<Rightarrow> Scheduler \<Rightarrow> Scheduler \<Rightarrow> bool" where
  "step_frame wp s s' \<longleftrightarrow> g_order (o_graph s') = g_order (o_graph s)
     \<and> sched_wf s' \<and> ids_ok s' \<and> o_maxAttempts s' = o_maxAttempts s
     \<and> (\<forall>k. k \<noteq> wp \<longrightarrow> wp_state_of s' k = wp_state_of s k \<and> attempts_of s' k = attempts_of s k)
     \<and> fmdom' (o_intake s') \<subseteq> insert (result_id wp (attempts_of s' wp)) (fmdom' (o_intake s))"

lemma job_ok_frame:
  assumes fr: "step_frame wp s s'" and j: "job_ok s j" and other: "job_wp j \<noteq> wp"
  shows "job_ok s' j"
proof -
  have fl: "in_flight s' t" if "in_flight s t" "tk_wp t \<noteq> wp" for t
  proof -
    have "0 \<le> attempts_of s' wp" using fr by (simp add: step_frame_def ids_ok_def)
    then have "result_id (tk_wp t) (attempts_of s (tk_wp t)) \<noteq> result_id wp (attempts_of s' wp)"
      using that by (subst result_id_inject) (auto simp: in_flight_def)
    with that fr show ?thesis by (auto simp: in_flight_def step_frame_def)
  qed
  show ?thesis using j other fl fr by (cases j) (auto simp: step_frame_def)
qed

lemma outcome_ok_frame:
  assumes fr: "step_frame wp s s'" and out: "outcome_ok s out" and other: "fst out \<noteq> wp"
  shows "outcome_ok s' out"
  using assms by (auto simp: outcome_ok_def step_frame_def split: sum.splits)

lemma ids_ok_step:
  assumes ok: "ids_ok s"
    and att: "\<And>k. attempts_of s k \<le> attempts_of s' k" and pos: "1 \<le> attempts_of s' wp \<or> fmdom' (o_intake s') \<subseteq> fmdom' (o_intake s)"
    and dom: "fmdom' (o_intake s') \<subseteq> insert (result_id wp (attempts_of s' wp)) (fmdom' (o_intake s))"
  shows "ids_ok s'"
  unfolding ids_ok_def
proof (intro conjI allI ballI)
  fix k
  have "0 \<le> attempts_of s k" using ok by (simp add: ids_ok_def)
  with att [of k] show "0 \<le> attempts_of s' k" by linarith
next
  fix i assume i: "i \<in> fmdom' (o_intake s')"
  show "\<exists>k n. 1 \<le> n \<and> n \<le> attempts_of s' k \<and> i = result_id k n"
  proof (cases "i \<in> fmdom' (o_intake s)")
    case True
    with ok obtain k n where "1 \<le> n" "n \<le> attempts_of s k" "i = result_id k n" by (auto simp: ids_ok_def)
    with att [of k] show ?thesis by (metis order_trans)
  next
    case False
    with i dom pos show ?thesis by blast
  qed
qed

lemma begin_known:
  assumes "dispatch_begin env now wp s = (s1, Inl e)" and "sched_wf s" and "wp \<in> set (g_order (o_graph s))"
  shows "expected_error e"
proof -
  have "e \<noteq> UnknownWorkPackage wp"
    using assms graph_wf_node [of "o_graph s" wp]
    by (auto simp: dispatch_begin_def Graph_Get_def sched_wf_def Let_def
        split: option.splits sum.splits prod.splits dest: recordAssignment_err)
  with dispatch_begin_error [OF assms(1)] show ?thesis by auto
qed

lemma begin_effect:
  assumes b: "dispatch_begin env now wp s = (s1, out)" and wf: "sched_wf s" and ids: "ids_ok s"
    and wp: "wp \<in> set (g_order (o_graph s))"
  shows "step_frame wp s s1"
    and "case out of Inl e \<Rightarrow> expected_error e | Inr t \<Rightarrow> tk_wp t = wp \<and> in_flight s1 t"
proof -
  have g: "o_graph s1 \<in> {o_graph s, set_graph (o_graph s) wp StateRunning,
      set_graph (set_graph (o_graph s) wp StateRunning) wp StateDeficient}"
    and a: "o_attempts s1 \<in> {o_attempts s, fmupd wp (attempts_of s wp + 1) (o_attempts s)}"
    and i: "o_intake s1 = o_intake s" and m: "o_maxAttempts s1 = o_maxAttempts s"
    using b dispatch_begin_ok [of env now wp s s1] dispatch_begin_err [of env now wp s s1]
    by (cases out; auto simp: attempts_of_def)+
  have att: "attempts_of s k \<le> attempts_of s1 k" "k \<noteq> wp \<Longrightarrow> attempts_of s1 k = attempts_of s k" for k
    using a by (auto simp: attempts_of_def)
  have "ids_ok s1"
    by (rule ids_ok_step [OF ids att(1)]) (simp_all add: i subset_insertI)
  then show "step_frame wp s s1"
    using g wf wp att(2) by (auto simp: step_frame_def sched_wf_def set_graph_state i m)
  show "case out of Inl e \<Rightarrow> expected_error e | Inr t \<Rightarrow> tk_wp t = wp \<and> in_flight s1 t"
  proof (cases out)
    case (Inl e)
    with begin_known [of env now wp s s1 e] b wf wp show ?thesis by simp
  next
    case (Inr t)
    with b have b': "dispatch_begin env now wp s = (s1, Inr t)" by simp
    note k = dispatch_begin_ok [OF b']
    have "attempts_of s1 wp = attempts_of s wp + 1" by (simp add: attempts_of_def k(6))
    moreover have "0 \<le> attempts_of s wp" using ids by (simp add: ids_ok_def)
    moreover have "result_id wp (attempts_of s wp + 1) \<notin> fmdom' (o_intake s1)"
      unfolding i by (rule ids_ok_fresh [OF ids])
    ultimately show ?thesis
      using Inr k dispatch_begin_nonempty [OF b'] wf wp
      by (simp add: in_flight_def ticket_ok_def attempts_of_def sched_wf_def set_graph_state)
  qed
qed

lemma job_effect:
  assumes j: "job_step env now j s = (s1, out)" and ok: "job_ok s j" and wf: "sched_wf s" and ids: "ids_ok s"
  shows "step_frame (job_wp j) s s1"
    and "case out of Inl j1 \<Rightarrow> job_wp j1 = job_wp j \<and> job_ok s1 j1
      | Inr oc \<Rightarrow> fst oc = job_wp j \<and> outcome_ok s1 oc"
proof -
  have "step_frame (job_wp j) s s1 \<and> (case out of Inl j1 \<Rightarrow> job_wp j1 = job_wp j \<and> job_ok s1 j1
      | Inr oc \<Rightarrow> fst oc = job_wp j \<and> outcome_ok s1 oc)"
  proof (cases j)
    case (Waiting wp)
    obtain o1 where b: "dispatch_begin env now wp s = (s1, o1)"
      and out: "out = (case o1 of Inl e \<Rightarrow> Inr (wp, Err e) | Inr t \<Rightarrow> Inl (Begun t))"
      using j Waiting by (auto split: prod.splits sum.splits)
    from begin_effect [OF b wf ids] ok Waiting show ?thesis
      by (auto simp: out outcome_ok_def split: sum.splits)
  next
    case (Begun t)
    obtain s2 t' where l: "lifecycle_begin env t s = (s2, t')" by fastforce
    have fr: "o_graph (fst (lifecycle_begin env t s)) = o_graph s"
      "o_intake (fst (lifecycle_begin env t s)) = o_intake s"
      "o_attempts (fst (lifecycle_begin env t s)) = o_attempts s"
      "o_maxAttempts (fst (lifecycle_begin env t s)) = o_maxAttempts s"
      "tk_wp (snd (lifecycle_begin env t s)) = tk_wp t"
      "tk_assignment (snd (lifecycle_begin env t s)) = tk_assignment t" by simp_all
    with j Begun ok wf ids show ?thesis
      by (auto simp: l step_frame_def in_flight_def ticket_ok_def sched_wf_def ids_ok_def attempts_of_def)
  next
    case (Called t)
    with j ok wf ids show ?thesis
      by (auto simp: Let_def step_frame_def in_flight_def sched_wf_def ids_ok_def attempts_of_def)
  next
    case (Returned t r)
    obtain res where f: "dispatch_finish env t r s = (s1, res)" and out: "out = Inr (tk_wp t, res)"
      using j Returned by (auto simp: Let_def split: prod.splits)
    have fl: "in_flight s t" using ok Returned by simp
    then have t: "ticket_ok t" by (simp add: in_flight_def)
    note e = finish_effect [OF f fl wf]
    have att: "attempts_of s1 k = attempts_of s k" for k
      using finish_graph_cases(2) [OF f t] by (simp add: attempts_of_def)
    have "ids_ok s1"
      by (rule ids_ok_step [OF ids, of s1 "tk_wp t"])
        (use e(3) fl in \<open>auto simp: att in_flight_def\<close>)
    then have "step_frame (tk_wp t) s s1"
      using e finish_graph_cases(3) [OF f t] by (simp add: step_frame_def att)
    with finish_outcome [OF f fl wf] show ?thesis by (simp add: Returned out)
  qed
  then show "step_frame (job_wp j) s s1"
    and "case out of Inl j1 \<Rightarrow> job_wp j1 = job_wp j \<and> job_ok s1 j1
      | Inr oc \<Rightarrow> fst oc = job_wp j \<and> outcome_ok s1 oc" by blast+
qed

section \<open>The invariant of a run\<close>

abbreviation rep_att :: "RunState \<Rightarrow> string \<Rightarrow> int" where
  "rep_att R wp \<equiv> fm_getd 0 (rr_Attempts (rn_report R)) wp"

abbreviation run_busy :: "RunState \<Rightarrow> string list" where
  "run_busy R \<equiv> map job_wp (rn_jobs R) @ map fst (rn_chan R)"

definition inv_sched :: "Scheduler \<Rightarrow> Scheduler \<Rightarrow> bool" where
  "inv_sched s0 s \<longleftrightarrow> sched_wf s \<and> ids_ok s \<and> g_order (o_graph s) = g_order (o_graph s0)
     \<and> o_maxAttempts s = o_maxAttempts s0"

definition inv_jobs :: "Scheduler \<Rightarrow> Scheduler \<Rightarrow> job list \<Rightarrow> outcome list \<Rightarrow> bool" where
  "inv_jobs s0 s js ch \<longleftrightarrow> (\<forall>j\<in>set js. job_ok s j) \<and> (\<forall>oc\<in>set ch. outcome_ok s oc)
     \<and> distinct (map job_wp js @ map fst ch)
     \<and> job_wp ` set js \<union> fst ` set ch \<subseteq> set (g_order (o_graph s0))"

definition inv_budget :: "Scheduler \<Rightarrow> RunState \<Rightarrow> bool" where
  "inv_budget s0 R \<longleftrightarrow>
     (rn_done R = None \<longrightarrow> rn_left R = length (rn_jobs R) + length (rn_chan R))
     \<and> (rn_done R = None \<longrightarrow> (\<forall>wp\<in>set (g_order (o_graph s0)).
          wp \<in> set (run_busy R) \<or> open_state (wp_state_of (rn_sched R) wp) \<longrightarrow> rep_att R wp < run_maxAttempts s0))"

definition inv_report :: "Scheduler \<Rightarrow> RunReport \<Rightarrow> bool" where
  "inv_report s0 rep \<longleftrightarrow>
     (\<forall>wp. 0 \<le> fm_getd 0 (rr_Attempts rep) wp \<and> fm_getd 0 (rr_Attempts rep) wp \<le> run_maxAttempts s0)
     \<and> rr_Dispatched rep = (\<Sum>wp\<in>set (g_order (o_graph s0)). fm_getd 0 (rr_Attempts rep) wp)"

definition run_inv :: "Scheduler \<Rightarrow> RunState \<Rightarrow> bool" where
  "run_inv s0 R \<longleftrightarrow> inv_sched s0 (rn_sched R) \<and> inv_jobs s0 (rn_sched R) (rn_jobs R) (rn_chan R)
     \<and> inv_budget s0 R \<and> inv_report s0 (rn_report R)"

lemma run_inv_init:
  assumes "sched_wf s0" and "ids_ok s0"
  shows "run_inv s0 (run_init s0)"
  using assms
  by (auto simp: run_inv_def run_init_def run_maxAttempts_def inv_sched_def inv_jobs_def inv_budget_def
      inv_report_def)

text \<open>An action on a job, with the list of jobs split at it.\<close>

lemma run_jobE:
  assumes "i < length (rn_jobs R)"
  obtains xs j ys s1 out where "rn_jobs R = xs @ j # ys"
    "job_step env (clock (o_log (rn_sched R))) j (rn_sched R) = (s1, out)"
    "run_job env clock i R = (case out of
        Inl j1 \<Rightarrow> R\<lparr>rn_sched := s1, rn_jobs := xs @ j1 # ys\<rparr>
      | Inr oc \<Rightarrow> R\<lparr>rn_sched := s1, rn_jobs := xs @ ys, rn_chan := rn_chan R @ [oc]\<rparr>)"
proof -
  obtain s1 out where "job_step env (clock (o_log (rn_sched R))) (rn_jobs R ! i) (rn_sched R) = (s1, out)"
    by fastforce
  with assms show thesis
    by (intro that [of "take i (rn_jobs R)" "rn_jobs R ! i" "drop (Suc i) (rn_jobs R)" s1 out])
      (auto simp: run_job_def Let_def id_take_nth_drop [symmetric] upd_conv_take_nth_drop split: sum.splits)
qed

lemma inv_sched_frame: "inv_sched s0 s \<Longrightarrow> step_frame wp s s1 \<Longrightarrow> inv_sched s0 s1"
  by (simp add: inv_sched_def step_frame_def)

lemma inv_jobs_frame:
  assumes "inv_jobs s0 s js ch" and fr: "step_frame wp s s1"
    and "wp \<notin> job_wp ` set js" and "wp \<notin> fst ` set ch"
  shows "inv_jobs s0 s1 js ch"
  using assms by (auto simp: inv_jobs_def intro!: job_ok_frame [OF fr] outcome_ok_frame [OF fr])

lemma inv_jobs_add:
  "inv_jobs s0 s (xs @ j # ys) ch \<longleftrightarrow> job_ok s j \<and> job_wp j \<in> set (g_order (o_graph s0))
     \<and> job_wp j \<notin> job_wp ` set (xs @ ys) \<and> job_wp j \<notin> fst ` set ch \<and> inv_jobs s0 s (xs @ ys) ch"
  by (auto simp: inv_jobs_def)

lemma inv_jobs_send:
  "inv_jobs s0 s js (ch @ [oc]) \<longleftrightarrow> outcome_ok s oc \<and> fst oc \<in> set (g_order (o_graph s0))
     \<and> fst oc \<notin> job_wp ` set js \<and> fst oc \<notin> fst ` set ch \<and> inv_jobs s0 s js ch"
  by (auto simp: inv_jobs_def)

lemma inv_jobs_recv:
  "inv_jobs s0 s js (oc # ch) \<longleftrightarrow> outcome_ok s oc \<and> fst oc \<in> set (g_order (o_graph s0))
     \<and> fst oc \<notin> job_wp ` set js \<and> fst oc \<notin> fst ` set ch \<and> inv_jobs s0 s js ch"
  by (auto simp: inv_jobs_def)

lemma run_inv_job:
  assumes inv: "run_inv s0 R" and i: "i < length (rn_jobs R)"
  shows "run_inv s0 (run_job env clock i R)"
proof -
  obtain xs j ys s1 out where jobs: "rn_jobs R = xs @ j # ys"
    and st: "job_step env (clock (o_log (rn_sched R))) j (rn_sched R) = (s1, out)"
    and R': "run_job env clock i R = (case out of
        Inl j1 \<Rightarrow> R\<lparr>rn_sched := s1, rn_jobs := xs @ j1 # ys\<rparr>
      | Inr oc \<Rightarrow> R\<lparr>rn_sched := s1, rn_jobs := xs @ ys, rn_chan := rn_chan R @ [oc]\<rparr>)"
    by (rule run_jobE [OF i, of env clock]) (rule that)
  have sc: "inv_sched s0 (rn_sched R)" and js: "inv_jobs s0 (rn_sched R) (xs @ j # ys) (rn_chan R)"
    using inv jobs by (simp_all add: run_inv_def)
  have ok: "job_ok (rn_sched R) j" "sched_wf (rn_sched R)" "ids_ok (rn_sched R)"
    using sc js by (simp_all add: inv_sched_def inv_jobs_def)
  note e = job_effect [OF st ok]
  from js have rest: "inv_jobs s0 s1 (xs @ ys) (rn_chan R)"
    and new: "job_wp j \<in> set (g_order (o_graph s0))" "job_wp j \<notin> job_wp ` set (xs @ ys)"
      "job_wp j \<notin> fst ` set (rn_chan R)"
    unfolding inv_jobs_add by (auto intro: inv_jobs_frame [OF _ e(1)])
  have st1: "wp_state_of s1 k = wp_state_of (rn_sched R) k" if "k \<noteq> job_wp j" for k
    using e(1) that by (simp add: step_frame_def)
  have bud: "inv_budget s0 R" and rep: "inv_report s0 (rn_report R)" using inv by (simp_all add: run_inv_def)
  show ?thesis
  proof (cases out)
    case (Inl j1)
    have "inv_jobs s0 s1 (xs @ j1 # ys) (rn_chan R)"
      using e(2) rest new unfolding inv_jobs_add by (simp add: Inl)
    moreover have "inv_budget s0 (R\<lparr>rn_sched := s1, rn_jobs := xs @ j1 # ys\<rparr>)"
      using bud e(2) st1 by (simp add: inv_budget_def jobs Inl) (metis st1)
    ultimately show ?thesis
      using rep inv_sched_frame [OF sc e(1)] by (simp add: run_inv_def R' Inl)
  next
    case (Inr oc)
    have "inv_jobs s0 s1 (xs @ ys) (rn_chan R @ [oc])"
      using e(2) rest new unfolding inv_jobs_send by (simp add: Inr)
    moreover have "inv_budget s0 (R\<lparr>rn_sched := s1, rn_jobs := xs @ ys, rn_chan := rn_chan R @ [oc]\<rparr>)"
      using bud e(2) st1 by (simp add: inv_budget_def jobs Inr) (metis st1)
    ultimately show ?thesis
      using rep inv_sched_frame [OF sc e(1)] by (simp add: run_inv_def R' Inr)
  qed
qed

lemma run_inv_round:
  assumes inv: "run_inv s0 R" and at: "at_round R"
  shows "run_inv s0 (run_round R)"
proof -
  let ?ready = "Graph_Ready (o_graph (rn_sched R))"
  let ?batch = "take (run_concurrency (rn_sched R)) ?ready"
  have idle: "rn_jobs R = []" "rn_chan R = []" "rn_done R = None"
    using inv at by (auto simp: run_inv_def inv_budget_def at_round_def)
  have wf: "graph_wf (o_graph (rn_sched R))" and ord: "g_order (o_graph (rn_sched R)) = g_order (o_graph s0)"
    using inv by (auto simp: run_inv_def inv_sched_def sched_wf_def)
  note r = distinct_Graph_Ready [OF wf] set_Graph_Ready [of "o_graph (rn_sched R)"]
  have b: "distinct ?batch" "\<forall>k\<in>set ?batch. k \<in> set (g_order (o_graph s0)) \<and> open_state (wp_state_of (rn_sched R) k)"
    using r ord by (auto dest!: in_set_takeD simp: node_ready_iff open_state_def)
  show ?thesis
  proof (cases "?ready = []")
    case True
    with inv show ?thesis by (simp add: run_round_def Let_def run_inv_def inv_budget_def)
  next
    case False
    have "job_wp ` set (map Waiting ?batch) = set ?batch" "map job_wp (map Waiting ?batch) = ?batch"
      by (force, simp add: comp_def)
    then have "inv_jobs s0 (rn_sched R) (map Waiting ?batch) []"
      using b ord by (auto simp: inv_jobs_def)
    moreover have "inv_budget s0 (R\<lparr>rn_jobs := map Waiting ?batch, rn_left := length ?batch\<rparr>)"
      using inv b idle by (auto simp: run_inv_def inv_budget_def comp_def)
    ultimately show ?thesis
      using inv idle False by (simp add: run_round_def Let_def run_inv_def)
  qed
qed

text \<open>Receiving an outcome touches its own work package only.\<close>

lemma resetForRetry_frame:
  assumes "resetForRetry wp s = (s1, b)" and "inv_sched s0 s" and "wp \<in> set (g_order (o_graph s0))"
  shows "step_frame wp s s1 \<and> (\<not> b \<longrightarrow> s1 = s)"
proof -
  have "s1 = s \<and> \<not> b \<or> b \<and> s1 = s\<lparr>o_graph := set_graph (o_graph s) wp StateReady\<rparr>"
    using assms(1) by (auto simp: resetForRetry_def set_graph_def split: option.splits sum.splits)
  then show ?thesis
    using assms(2,3)
    by (auto simp: step_frame_def inv_sched_def sched_wf_def ids_ok_def attempts_of_def set_graph_state)
qed

lemma run_collect_effect:
  assumes c: "run_collect wp r (s, rep) = (s1, rep1)" and sc: "inv_sched s0 s"
    and wp: "wp \<in> set (g_order (o_graph s0))" and ok: "outcome_ok s (wp, Inr r)"
  shows "step_frame wp s s1"
    and "rr_Attempts rep1 = fmupd wp (fm_getd 0 (rr_Attempts rep) wp + 1) (rr_Attempts rep)"
    and "rr_Dispatched rep1 = rr_Dispatched rep + 1"
    and "open_state (wp_state_of s1 wp) \<Longrightarrow> fm_getd 0 (rr_Attempts rep) wp + 1 < run_maxAttempts s0"
proof -
  have self: "step_frame wp s s"
    using sc by (simp add: step_frame_def inv_sched_def subset_insertI)
  have max: "run_maxAttempts s = run_maxAttempts s0" using sc by (simp add: inv_sched_def run_maxAttempts_def)
  have closed: "\<not> open_state (wp_state_of s wp)" using ok by (auto simp: outcome_ok_def open_state_def)
  have "step_frame wp s s1 \<and> rr_Attempts rep1 = fmupd wp (fm_getd 0 (rr_Attempts rep) wp + 1) (rr_Attempts rep)
    \<and> rr_Dispatched rep1 = rr_Dispatched rep + 1
    \<and> (open_state (wp_state_of s1 wp) \<longrightarrow> fm_getd 0 (rr_Attempts rep) wp + 1 < run_maxAttempts s0)"
  proof (cases "dr_Status r = ''failed'' \<and> fm_getd 0 (rr_Attempts rep) wp + 1 < run_maxAttempts s")
    case True
    obtain s2 b where rs: "resetForRetry wp s = (s2, b)" by fastforce
    from resetForRetry_frame [OF rs sc wp] True c max show ?thesis
      by (cases b) (auto simp: run_collect_def Let_def rs)
  next
    case False
    with c self closed show ?thesis by (auto simp: run_collect_def Let_def split: if_splits)
  qed
  then show "step_frame wp s s1"
    and "rr_Attempts rep1 = fmupd wp (fm_getd 0 (rr_Attempts rep) wp + 1) (rr_Attempts rep)"
    and "rr_Dispatched rep1 = rr_Dispatched rep + 1"
    and "open_state (wp_state_of s1 wp) \<Longrightarrow> fm_getd 0 (rr_Attempts rep) wp + 1 < run_maxAttempts s0" by blast+
qed

lemma run_inv_recv:
  assumes inv: "run_inv s0 R" and run: "rn_done R = None" and ch: "rn_chan R = oc # outs"
  shows "run_inv s0 (run_recv (rn_chan R) R)"
proof -
  obtain wp res where oc: "oc = (wp, res)" by fastforce
  have sc: "inv_sched s0 (rn_sched R)" and bud: "inv_budget s0 R" and rep: "inv_report s0 (rn_report R)"
    and js: "inv_jobs s0 (rn_sched R) (rn_jobs R) (oc # outs)"
    using inv ch by (simp_all add: run_inv_def)
  from js have rest: "inv_jobs s0 (rn_sched R) (rn_jobs R) outs" and out: "outcome_ok (rn_sched R) (wp, res)"
    and wp: "wp \<in> set (g_order (o_graph s0))" "wp \<notin> job_wp ` set (rn_jobs R)" "wp \<notin> fst ` set outs"
    unfolding inv_jobs_recv by (auto simp: oc)
  show ?thesis
  proof (cases res)
    case (Inl e)
    with rest sc rep show ?thesis by (simp add: ch oc run_inv_def inv_budget_def)
  next
    case (Inr r)
    obtain s1 rep1 where c: "run_collect wp r (rn_sched R, rn_report R) = (s1, rep1)" by fastforce
    note e = run_collect_effect [OF c sc wp(1)] 
    have ok: "outcome_ok (rn_sched R) (wp, Inr r)" using out Inr by simp
    have lt: "rep_att R wp < run_maxAttempts s0" using bud run wp(1) ch oc by (simp add: inv_budget_def)
    have "inv_jobs s0 s1 (rn_jobs R) outs" using inv_jobs_frame [OF rest e(1) [OF ok] wp(2,3)] .
    moreover have "inv_report s0 rep1"
    proof -
      have "(\<Sum>k\<in>set (g_order (o_graph s0)). fm_getd 0 (rr_Attempts rep1) k)
          = (\<Sum>k\<in>set (g_order (o_graph s0)). rep_att R k + (if k = wp then 1 else 0))"
        by (rule sum.cong) (auto simp: e(2) [OF ok])
      also have "\<dots> = (\<Sum>k\<in>set (g_order (o_graph s0)). rep_att R k) + 1"
        using wp(1) by (simp add: sum.distrib)
      finally show ?thesis
        using rep lt e(3) [OF ok] by (simp add: inv_report_def e(2) [OF ok])
    qed
    moreover have "inv_budget s0 (R\<lparr>rn_sched := s1, rn_chan := outs, rn_left := rn_left R - 1, rn_report := rep1\<rparr>)"
      using bud run e(1) [OF ok] e(4) [OF ok] wp
      by (auto simp: inv_budget_def ch oc e(2) [OF ok] step_frame_def)
    ultimately show ?thesis
      using inv_sched_frame [OF sc e(1) [OF ok]] by (simp add: run_inv_def ch oc Inr c)
  qed
qed

lemma run_inv_apply:
  assumes "run_inv s0 R" and "run_apply env clock act R = Some R'"
  shows "run_inv s0 R'"
proof (cases act)
  case ActRound
  with assms show ?thesis by (auto intro: run_inv_round split: if_splits)
next
  case (ActCancel e)
  with assms show ?thesis by (auto simp: run_inv_def inv_budget_def split: if_splits)
next
  case (ActJob i)
  with assms show ?thesis by (auto intro: run_inv_job split: if_splits)
next
  case ActRecv
  with assms obtain oc outs where "rn_chan R = oc # outs" "rn_done R = None" "R' = run_recv (rn_chan R) R"
    by (auto split: if_splits simp: neq_Nil_conv)
  with run_inv_recv [OF assms(1)] show ?thesis by simp
qed

lemma run_reach_inv:
  assumes "run_reach env clock s0 R" and "sched_wf s0" and "ids_ok s0"
  shows "run_inv s0 R"
  using assms(1)
  by induction (auto intro: run_inv_init [OF assms(2,3)] run_inv_apply)

section \<open>Termination\<close>

fun job_stage :: "job \<Rightarrow> nat" where
  "job_stage (Waiting _) = 5"
| "job_stage (Begun _) = 4"
| "job_stage (Called _) = 3"
| "job_stage (Returned _ _) = 2"

text \<open>The stages a work package has before it in the current batch; 0 when it is not in it.\<close>

definition busy_stage :: "RunState \<Rightarrow> string \<Rightarrow> nat" where
  "busy_stage R wp = (\<Sum>j\<leftarrow>rn_jobs R. if job_wp j = wp then job_stage j else 0)
     + (\<Sum>oc\<leftarrow>rn_chan R. if fst oc = wp then 1 else 0)"

definition budget_left :: "Scheduler \<Rightarrow> RunState \<Rightarrow> string \<Rightarrow> nat" where
  "budget_left s0 R wp = nat (run_maxAttempts s0 - rep_att R wp)"

definition wp_potential :: "Scheduler \<Rightarrow> RunState \<Rightarrow> string \<Rightarrow> nat" where
  "wp_potential s0 R wp =
     (if busy_stage R wp \<noteq> 0 then 6 * (budget_left s0 R wp - 1) + busy_stage R wp
      else if rn_done R = None \<and> open_state (wp_state_of (rn_sched R) wp) then 6 * budget_left s0 R wp
      else 0)"

definition run_measure :: "Scheduler \<Rightarrow> RunState \<Rightarrow> nat" where
  "run_measure s0 R = (\<Sum>wp\<in>set (g_order (o_graph s0)). wp_potential s0 R wp)
     + (if rn_done R = None then 1 else 0)"

lemma busy_stage_pos: "busy_stage R wp \<noteq> 0 \<longleftrightarrow> wp \<in> set (run_busy R)"
proof -
  have "0 < job_stage j" for j by (cases j) auto
  then show ?thesis by (auto simp: busy_stage_def sum_list_eq_0_iff)
qed

lemma run_measure_less:
  assumes le: "\<And>k. k \<in> set (g_order (o_graph s0)) \<Longrightarrow> wp_potential s0 R' k \<le> wp_potential s0 R k"
    and wp: "wp \<in> set (g_order (o_graph s0))" and less: "wp_potential s0 R' wp < wp_potential s0 R wp"
    and dn: "rn_done R \<noteq> None \<Longrightarrow> rn_done R' \<noteq> None"
  shows "run_measure s0 R' < run_measure s0 R"
proof -
  have "(\<Sum>k\<in>set (g_order (o_graph s0)). wp_potential s0 R' k)
      < (\<Sum>k\<in>set (g_order (o_graph s0)). wp_potential s0 R k)"
    using le wp less by (intro sum_strict_mono_ex1) auto
  then show ?thesis using dn by (auto simp: run_measure_def)
qed

lemma job_stage_step: "job_step env now j s = (s1, Inl j1) \<Longrightarrow> job_stage j1 < job_stage j"
  by (cases j) (auto simp: Let_def split: prod.splits sum.splits)

lemma run_measure_job:
  assumes inv: "run_inv s0 R" and i: "i < length (rn_jobs R)"
  shows "run_measure s0 (run_job env clock i R) < run_measure s0 R"
proof -
  obtain xs j ys s1 out where jobs: "rn_jobs R = xs @ j # ys"
    and st: "job_step env (clock (o_log (rn_sched R))) j (rn_sched R) = (s1, out)"
    and R': "run_job env clock i R = (case out of
        Inl j1 \<Rightarrow> R\<lparr>rn_sched := s1, rn_jobs := xs @ j1 # ys\<rparr>
      | Inr oc \<Rightarrow> R\<lparr>rn_sched := s1, rn_jobs := xs @ ys, rn_chan := rn_chan R @ [oc]\<rparr>)"
    by (rule run_jobE [OF i, of env clock]) (rule that)
  have ok: "job_ok (rn_sched R) j" "sched_wf (rn_sched R)" "ids_ok (rn_sched R)"
    and wp: "job_wp j \<in> set (g_order (o_graph s0))"
    using inv jobs by (simp_all add: run_inv_def inv_sched_def inv_jobs_def)
  note e = job_effect [OF st ok]
  have st1: "wp_state_of s1 k = wp_state_of (rn_sched R) k" if "k \<noteq> job_wp j" for k
    using e(1) that by (simp add: step_frame_def)
  have pos: "0 < job_stage j" and two: "1 < job_stage j" by (cases j; simp)+
  have same: "rn_report (run_job env clock i R) = rn_report R" "rn_done (run_job env clock i R) = rn_done R"
    "rn_sched (run_job env clock i R) = s1"
    by (simp_all add: R' split: sum.splits)
  have bs: "busy_stage (run_job env clock i R) k = busy_stage R k" if "k \<noteq> job_wp j" for k
    using that e(2) by (auto simp: busy_stage_def jobs R' split: sum.splits)
  have less: "busy_stage (run_job env clock i R) (job_wp j) < busy_stage R (job_wp j)"
    using e(2) job_stage_step [of env _ j "rn_sched R" s1] st two
    by (cases out) (auto simp: busy_stage_def jobs R')
  have nz: "busy_stage (run_job env clock i R) (job_wp j) \<noteq> 0"
    unfolding busy_stage_pos using e(2) by (auto simp: R' split: sum.splits)
  have bl: "budget_left s0 (run_job env clock i R) k = budget_left s0 R k" for k
    by (simp add: budget_left_def same)
  show ?thesis
  proof (rule run_measure_less [OF _ wp])
    show lt: "wp_potential s0 (run_job env clock i R) (job_wp j) < wp_potential s0 R (job_wp j)"
      using less nz by (simp add: wp_potential_def bl)
    show "wp_potential s0 (run_job env clock i R) k \<le> wp_potential s0 R k" for k
    proof (cases "k = job_wp j")
      case True
      with lt show ?thesis by simp
    next
      case False
      then show ?thesis by (simp add: wp_potential_def bs bl same st1)
    qed
  qed (simp add: same)
qed

lemma sum_none: "k \<notin> f ` set xs \<Longrightarrow> (\<Sum>x\<leftarrow>xs. if f x = k then g x else (0::nat)) = 0"
  by (induction xs) auto

lemma waiting_stages:
  "distinct ks \<Longrightarrow>
     (\<Sum>j\<leftarrow>map Waiting ks. if job_wp j = k then job_stage j else 0) = (if k \<in> set ks then 5 else 0)"
  by (induction ks) auto

lemma run_measure_round:
  assumes inv: "run_inv s0 R" and at: "at_round R"
  shows "run_measure s0 (run_round R) < run_measure s0 R"
proof (cases "Graph_Ready (o_graph (rn_sched R)) = []")
  case True
  have idle: "rn_jobs R = []" "rn_chan R = []" "rn_done R = None"
    using inv at by (auto simp: run_inv_def inv_budget_def at_round_def)
  have "(\<Sum>k\<in>set (g_order (o_graph s0)). wp_potential s0 (R\<lparr>rn_done := Some None\<rparr>) k)
      \<le> (\<Sum>k\<in>set (g_order (o_graph s0)). wp_potential s0 R k)"
    by (intro sum_mono) (simp add: wp_potential_def busy_stage_def idle)
  then show ?thesis using idle True by (simp add: run_round_def Let_def run_measure_def)
next
  case False
  let ?ready = "Graph_Ready (o_graph (rn_sched R))"
  let ?batch = "take (run_concurrency (rn_sched R)) ?ready"
  let ?R = "R\<lparr>rn_jobs := map Waiting ?batch, rn_left := length ?batch\<rparr>"
  have idle: "rn_jobs R = []" "rn_chan R = []" "rn_done R = None"
    using inv at by (auto simp: run_inv_def inv_budget_def at_round_def)
  have R': "run_round R = ?R" using False idle by (simp add: run_round_def Let_def)
  have wf: "graph_wf (o_graph (rn_sched R))" and ord: "g_order (o_graph (rn_sched R)) = g_order (o_graph s0)"
    using inv by (auto simp: run_inv_def inv_sched_def sched_wf_def)
  note r = distinct_Graph_Ready [OF wf] set_Graph_Ready [of "o_graph (rn_sched R)"]
  have open_ready: "k \<in> set (g_order (o_graph s0)) \<and> open_state (wp_state_of (rn_sched R) k) \<and> 1 \<le> budget_left s0 R k"
    if "k \<in> set ?batch" for k
  proof -
    from that have "k \<in> set ?ready" by (rule in_set_takeD)
    then have k: "k \<in> set (g_order (o_graph s0))" "open_state (wp_state_of (rn_sched R) k)"
      using r(2) ord by (auto simp: node_ready_iff open_state_def)
    with inv idle show ?thesis by (auto simp: run_inv_def inv_budget_def budget_left_def)
  qed
  have bs: "busy_stage ?R k = (if k \<in> set ?batch then 5 else 0)" for k
    using waiting_stages [of ?batch k] r(1) by (simp add: busy_stage_def idle)
  have pot: "wp_potential s0 ?R k \<le> wp_potential s0 R k \<and> (k \<in> set ?batch \<longrightarrow> wp_potential s0 ?R k < wp_potential s0 R k)" for k
  proof (cases "k \<in> set ?batch")
    case True
    from open_ready [OF True] idle have "wp_potential s0 R k = 6 * budget_left s0 R k"
      by (simp add: wp_potential_def busy_stage_def)
    moreover have "wp_potential s0 ?R k = 6 * (budget_left s0 R k - 1) + 5"
      using True unfolding wp_potential_def bs by (simp add: budget_left_def)
    ultimately show ?thesis using open_ready [OF True] by linarith
  next
    case False
    then have "busy_stage ?R k = 0" unfolding bs by simp
    moreover have "busy_stage R k = 0" by (simp add: busy_stage_def idle)
    ultimately show ?thesis using False by (simp add: wp_potential_def budget_left_def)
  qed
  have "?batch \<noteq> []" using False by (auto simp: run_concurrency_def)
  then obtain k where k: "k \<in> set ?batch" by (meson list.set_sel(1))
  show ?thesis
    unfolding R' by (rule run_measure_less [of s0 ?R R k]) (use pot k open_ready [OF k] idle in auto)
qed

lemma run_measure_recv:
  assumes inv: "run_inv s0 R" and run: "rn_done R = None" and ch: "rn_chan R = oc # outs"
  shows "run_measure s0 (run_recv (rn_chan R) R) < run_measure s0 R"
proof -
  obtain wp res where oc: "oc = (wp, res)" by fastforce
  have sc: "inv_sched s0 (rn_sched R)" and bud: "inv_budget s0 R"
    and js: "inv_jobs s0 (rn_sched R) (rn_jobs R) (oc # outs)"
    using inv ch by (simp_all add: run_inv_def)
  from js have out: "outcome_ok (rn_sched R) (wp, res)"
    and wp: "wp \<in> set (g_order (o_graph s0))" "wp \<notin> job_wp ` set (rn_jobs R)" "wp \<notin> fst ` set outs"
    unfolding inv_jobs_recv by (auto simp: oc)
  let ?R = "run_recv (rn_chan R) R"
  have lists: "rn_jobs ?R = rn_jobs R" "rn_chan ?R = outs"
    by (cases res; simp add: ch oc case_prod_beta)+
  have bs: "busy_stage R wp = 1" "busy_stage ?R wp = 0" "k \<noteq> wp \<Longrightarrow> busy_stage ?R k = busy_stage R k" for k
  proof -
    define S where "S k = (\<Sum>j\<leftarrow>rn_jobs R. if job_wp j = k then job_stage j else 0)" for k
    define C where "C k = (\<Sum>x\<leftarrow>outs. if fst x = k then 1 else (0::nat))" for k
    have b: "busy_stage R k = S k + ((if wp = k then 1 else 0) + C k)" for k
      by (simp add: busy_stage_def S_def C_def ch oc)
    have b': "busy_stage ?R k = S k + C k" for k
      by (simp only: busy_stage_def S_def C_def lists)
    have "S wp = 0" unfolding S_def by (rule sum_none [OF wp(2)])
    moreover have "C wp = 0" unfolding C_def by (rule sum_none [OF wp(3)])
    ultimately show "busy_stage R wp = 1" "busy_stage ?R wp = 0"
      by (simp_all only: b b') simp
    show "busy_stage ?R k = busy_stage R k" if "k \<noteq> wp"
      using that by (simp only: b b') simp
  qed
  show ?thesis
  proof (cases res)
    case (Inl e)
    then have R': "?R = R\<lparr>rn_chan := outs, rn_left := rn_left R - 1, rn_done := Some (Some e)\<rparr>"
      by (simp add: ch oc)
    have bl: "budget_left s0 ?R k = budget_left s0 R k" for k by (simp add: R' budget_left_def)
    have dn: "rn_done ?R = Some (Some e)" by (simp add: R')
    have "wp_potential s0 ?R k \<le> wp_potential s0 R k" for k
      unfolding wp_potential_def using bs by (cases "k = wp") (simp_all add: bl dn)
    moreover have "wp_potential s0 ?R wp < wp_potential s0 R wp"
      unfolding wp_potential_def using bs by (simp add: dn)
    ultimately show ?thesis using wp(1) run by (intro run_measure_less [of s0 ?R R wp]) auto
  next
    case (Inr r)
    obtain s1 rep1 where c: "run_collect wp r (rn_sched R, rn_report R) = (s1, rep1)" by fastforce
    have ok: "outcome_ok (rn_sched R) (wp, Inr r)" using out Inr by simp
    note e = run_collect_effect [OF c sc wp(1) ok]
    have R': "?R = R\<lparr>rn_sched := s1, rn_chan := outs, rn_left := rn_left R - 1, rn_report := rep1\<rparr>"
      by (simp add: ch oc Inr c)
    have st1: "wp_state_of (rn_sched ?R) k = wp_state_of (rn_sched R) k" if "k \<noteq> wp" for k
      using e(1) that by (simp add: step_frame_def R')
    have bl: "k \<noteq> wp \<Longrightarrow> budget_left s0 ?R k = budget_left s0 R k"
      "budget_left s0 ?R wp = budget_left s0 R wp - 1" for k
      by (simp_all add: R' budget_left_def e(2))
    have dn: "rn_done ?R = None" by (simp add: R' run)
    have less: "wp_potential s0 ?R wp < wp_potential s0 R wp"
      unfolding wp_potential_def using bs bl by simp
    have "wp_potential s0 ?R k \<le> wp_potential s0 R k" for k
    proof (cases "k = wp")
      case False
      then show ?thesis unfolding wp_potential_def using bs(3) bl st1 dn run by simp
    qed (use less in simp)
    with less show ?thesis using wp(1) run by (intro run_measure_less [of s0 ?R R wp]) auto
  qed
qed

lemma run_measure_apply:
  assumes "run_inv s0 R" and "run_apply env clock act R = Some R'"
  shows "run_measure s0 R' < run_measure s0 R"
proof (cases act)
  case ActRound
  with assms show ?thesis by (auto intro: run_measure_round split: if_splits)
next
  case (ActCancel e)
  with assms have at: "at_round R" and R': "R' = R\<lparr>rn_done := Some (Some (ContextDone e))\<rparr>"
    by (auto split: if_splits)
  have idle: "rn_jobs R = []" "rn_chan R = []" "rn_done R = None"
    using assms(1) at by (auto simp: run_inv_def inv_budget_def at_round_def)
  have "(\<Sum>k\<in>set (g_order (o_graph s0)). wp_potential s0 R' k)
      \<le> (\<Sum>k\<in>set (g_order (o_graph s0)). wp_potential s0 R k)"
    by (intro sum_mono) (simp add: R' wp_potential_def busy_stage_def idle)
  then show ?thesis using idle by (simp add: R' run_measure_def)
next
  case (ActJob i)
  with assms show ?thesis by (auto intro: run_measure_job split: if_splits)
next
  case ActRecv
  with assms obtain oc outs where "rn_chan R = oc # outs" "rn_done R = None" "R' = run_recv (rn_chan R) R"
    by (auto split: if_splits simp: neq_Nil_conv)
  with run_measure_recv [OF assms(1)] show ?thesis by simp
qed

end
