(* ===== verification/RunProps.thy ===== *)
theory RunProps
  imports SchedulerRun
begin

text \<open>
  What \<open>Scheduler.Run\<close> guarantees under every interleaving of its goroutines: it stops within a
  bound, it dispatches no package twice at once and none more often than allowed, acceptance is
  guarded by the gates throughout, it leaves no ready work behind, and its report does not depend
  on the order in which outcomes arrive.
\<close>

section \<open>Traces\<close>

fun run_trace :: "Env \<Rightarrow> (world_call list \<Rightarrow> time) \<Rightarrow> run_action list \<Rightarrow> RunState \<Rightarrow> RunState option" where
  "run_trace env clock [] R = Some R"
| "run_trace env clock (act # acts) R =
     (case run_apply env clock act R of None \<Rightarrow> None | Some R1 \<Rightarrow> run_trace env clock acts R1)"

lemma run_trace_reach:
  "run_reach env clock s0 R \<Longrightarrow> run_trace env clock acts R = Some R' \<Longrightarrow> run_reach env clock s0 R'"
  by (induction acts arbitrary: R) (auto split: option.splits intro: run_reach.step)

lemma run_trace_measure:
  "run_inv s0 R \<Longrightarrow> run_trace env clock acts R = Some R' \<Longrightarrow> length acts + run_measure s0 R' \<le> run_measure s0 R"
proof (induction acts arbitrary: R)
  case (Cons act acts)
  then obtain R1 where a: "run_apply env clock act R = Some R1" "run_trace env clock acts R1 = Some R'"
    by (auto split: option.splits)
  have "length acts + run_measure s0 R' \<le> run_measure s0 R1"
    using Cons.IH [OF run_inv_apply [OF Cons.prems(1) a(1)] a(2)] .
  with run_measure_apply [OF Cons.prems(1) a(1)] show ?case by simp
qed simp

lemma run_measure_init:
  assumes "sched_wf s0"
  shows "run_measure s0 (run_init s0) \<le> 6 * nat (run_maxAttempts s0) * length (g_order (o_graph s0)) + 1"
proof -
  have "(\<Sum>k\<in>set (g_order (o_graph s0)). wp_potential s0 (run_init s0) k)
      \<le> (\<Sum>k\<in>set (g_order (o_graph s0)). 6 * nat (run_maxAttempts s0))"
    by (intro sum_mono) (simp add: wp_potential_def busy_stage_def run_init_def budget_left_def)
  also have "\<dots> = 6 * nat (run_maxAttempts s0) * card (set (g_order (o_graph s0)))" by simp
  also have "\<dots> \<le> 6 * nat (run_maxAttempts s0) * length (g_order (o_graph s0))"
    by (intro mult_le_mono card_length order_refl)
  finally show ?thesis by (simp add: run_measure_def run_init_def)
qed

lemma run_progress:
  assumes "run_inv s0 R" and "rn_done R = None \<or> rn_jobs R \<noteq> []"
  shows "\<exists>act. run_apply env clock act R \<noteq> None"
proof (cases "rn_jobs R")
  case (Cons j js)
  then have "run_apply env clock (ActJob 0) R \<noteq> None" by simp
  then show ?thesis by blast
next
  case Nil
  with assms have "rn_done R = None" "rn_left R = length (rn_chan R)"
    by (auto simp: run_inv_def inv_budget_def)
  then have "run_apply env clock (if rn_chan R = [] then ActRound else ActRecv) R \<noteq> None"
    by (simp add: at_round_def)
  then show ?thesis by blast
qed

text \<open>
  C2. \<open>Run\<close> returns, whatever the interleaving: every execution has at most six actions per work
  package and permitted attempt, plus one, and as long as \<open>Run\<close> has not returned or a goroutine is
  still alive some action is possible. So the fuel \<open>6 * maxAttempts * n + 1\<close> is always enough.
\<close>

theorem run_terminates:
  assumes "sched_wf s0" and "ids_ok s0"
    and "run_trace env clock acts (run_init s0) = Some R"
  shows "length acts \<le> 6 * nat (run_maxAttempts s0) * length (g_order (o_graph s0)) + 1
    \<and> ((rn_done R = None \<or> rn_jobs R \<noteq> []) \<longrightarrow> (\<exists>act. run_apply env clock act R \<noteq> None))"
proof -
  have "run_inv s0 R"
    using run_reach_inv [OF run_trace_reach [OF run_reach.start assms(3)] assms(1,2)] .
  moreover have "length acts + run_measure s0 R \<le> run_measure s0 (run_init s0)"
    by (rule run_trace_measure [OF run_inv_init [OF assms(1,2)] assms(3)])
  ultimately show ?thesis using run_measure_init [OF assms(1)] run_progress [of s0 R] by force
qed

section \<open>Safety\<close>

text \<open>
  C4. At every moment of a concurrent run the work packages being dispatched (or whose outcome is
  waiting in the channel) are distinct, no dispatch ends with an intake conflict or an illegal
  assignment transition, no package was dispatched more often than \<open>MaxAttempts\<close> allows, and the
  report's total is the sum of the packages' attempts.
\<close>

theorem run_safety:
  assumes "run_reach env clock s0 R" and "sched_wf s0" and "ids_ok s0"
  shows "distinct (run_busy R)
    \<and> (\<forall>wp e. (wp, Inl e) \<in> set (rn_chan R) \<longrightarrow> expected_error e)
    \<and> (\<forall>wp. rep_att R wp \<le> run_maxAttempts s0)
    \<and> rr_Dispatched (rn_report R) = (\<Sum>wp\<in>set (g_order (o_graph s0)). rep_att R wp)"
  using run_reach_inv [OF assms]
  by (force simp: run_inv_def inv_jobs_def inv_report_def outcome_ok_def)

text \<open>When \<open>Run\<close> has returned without an error, nothing is in flight and nothing is ready.\<close>

lemma run_done_idle:
  assumes "run_reach env clock s0 R" and "sched_wf s0" and "ids_ok s0"
  shows "rn_done R = Some None \<longrightarrow> rn_jobs R = [] \<and> rn_chan R = [] \<and> Graph_Ready (o_graph (rn_sched R)) = []"
  using assms(1)
proof induction
  case start
  then show ?case by (simp add: run_init_def)
next
  case (step R act R')
  show ?case
  proof (cases act)
    case ActRound
    with step have at: "at_round R" and R': "R' = run_round R" by (auto split: if_splits)
    have "rn_jobs R = []" "rn_chan R = []" "rn_done R = None"
      using run_reach_inv [OF step.hyps(1) assms(2,3)] at
      by (auto simp: run_inv_def inv_budget_def at_round_def)
    then show ?thesis by (simp add: R' run_round_def Let_def)
  next
    case (ActCancel e)
    with step show ?thesis by (auto split: if_splits)
  next
    case (ActJob i)
    with step show ?thesis by (auto simp: run_job_def Let_def split: if_splits prod.splits sum.splits)
  next
    case ActRecv
    with step obtain oc outs where "rn_chan R = oc # outs" "rn_done R = None" "R' = run_recv (rn_chan R) R"
      by (auto split: if_splits simp: neq_Nil_conv)
    then show ?thesis by (cases oc; cases "snd oc") (auto simp: case_prod_beta)
  qed
qed


section \<open>Acceptance under interleaving\<close>

text \<open>Some run of the package's runtime passed all gates.\<close>

definition justified :: "Scheduler \<Rightarrow> string \<Rightarrow> bool" where
  "justified s0 wp \<longleftrightarrow> (\<exists>req result. wr_WorkPackageID req = wp \<and> o_runtime s0 req = Inr result
     \<and> res_Status result \<in> {''succeeded'', ''partial''}
     \<and> r_Passed (Gates_Evaluate (o_gates s0) (subject wp result)))"

definition same_setup :: "Scheduler \<Rightarrow> Scheduler \<Rightarrow> bool" where
  "same_setup s0 s \<longleftrightarrow> o_runtime s = o_runtime s0 \<and> o_gates s = o_gates s0"

fun job_honest :: "Scheduler \<Rightarrow> job \<Rightarrow> bool" where
  "job_honest s0 (Waiting _) = True"
| "job_honest s0 (Begun t) = (wr_WorkPackageID (tk_request t) = tk_wp t)"
| "job_honest s0 (Called t) = (wr_WorkPackageID (tk_request t) = tk_wp t)"
| "job_honest s0 (Returned t out) =
     (wr_WorkPackageID (tk_request t) = tk_wp t \<and> out = o_runtime s0 (tk_request t))"

lemma begin_request:
  "dispatch_begin env now wp s = (s1, Inr t) \<Longrightarrow> wr_WorkPackageID (tk_request t) = wp"
  by (auto simp: dispatch_begin_def Let_def split: option.splits sum.splits prod.splits)

lemma finish_completes:
  assumes fin: "dispatch_finish env t out s = (s', res)" and fl: "in_flight s t" and wf: "sched_wf s"
    and cpl: "wp_state_of s' (tk_wp t) = StateCompleted"
  shows "work_passed s (tk_wp t) out"
proof -
  have run: "wp_state_of s (tk_wp t) = StateRunning" and t: "ticket_ok t"
    and defi: "wp_State (Graph_node (set_graph (o_graph s) (tk_wp t) StateDeficient) (tk_wp t)) = StateDeficient"
    using fl wf by (simp_all add: in_flight_def sched_wf_def set_graph_state)
  show ?thesis
  proof (cases out)
    case (Inl e)
    with fin have "finish_error env t e s = (s', res)" by (simp add: dispatch_finish_def)
    from finish_error_graph [OF this] cpl run defi show ?thesis by (auto split: if_splits)
  next
    case (Inr r)
    with fin have "finish_result env t r s = (s', res)" by (simp add: dispatch_finish_def)
    from finish_result_graph [OF this t] cpl run defi show ?thesis by (auto simp: Inr)
  qed
qed

lemma finish_setup:
  assumes "dispatch_finish env t out s = (s', res)" and "ticket_ok t"
  shows "same_setup s s'"
  using assms finish_error_graph [of env t _ s s'] finish_result_graph [of env t _ s s' res]
  by (auto simp: dispatch_finish_def same_setup_def split: sum.splits)

lemma job_honest_step:
  assumes j: "job_step env now j s = (s1, out)" and ok: "job_ok s j" and wf: "sched_wf s"
    and set: "same_setup s0 s" and hon: "job_honest s0 j"
  shows "same_setup s0 s1" and "\<And>j1. out = Inl j1 \<Longrightarrow> job_honest s0 j1"
    and "wp_state_of s1 (job_wp j) = StateCompleted \<Longrightarrow>
      wp_state_of s (job_wp j) = StateCompleted \<or> justified s0 (job_wp j)"
proof -
  have "same_setup s0 s1 \<and> (\<forall>j1. out = Inl j1 \<longrightarrow> job_honest s0 j1)
    \<and> (wp_state_of s1 (job_wp j) = StateCompleted \<longrightarrow>
      wp_state_of s (job_wp j) = StateCompleted \<or> justified s0 (job_wp j))"
  proof (cases j)
    case (Waiting wp)
    obtain o1 where b: "dispatch_begin env now wp s = (s1, o1)"
      and out: "out = (case o1 of Inl e \<Rightarrow> Inr (wp, Err e) | Inr t \<Rightarrow> Inl (Begun t))"
      using j Waiting by (auto split: prod.splits sum.splits)
    have g: "o_graph s1 \<in> {o_graph s, set_graph (o_graph s) wp StateRunning,
        set_graph (set_graph (o_graph s) wp StateRunning) wp StateDeficient}"
      and same: "o_runtime s1 = o_runtime s \<and> o_gates s1 = o_gates s"
      using b dispatch_begin_ok [of env now wp s s1] dispatch_begin_err [of env now wp s s1]
      by (cases o1; auto)+
    have hon: "wr_WorkPackageID (tk_request t) = tk_wp t" if "o1 = Inr t" for t
      using begin_request [of env now wp s s1 t] dispatch_begin_ok(1) [of env now wp s s1 t] b that by simp
    have "wp \<in> set (g_order (o_graph s))" using ok Waiting by simp
    then have "wp_state_of s1 wp \<in> {wp_state_of s wp, StateRunning, StateDeficient}"
      using g wf by (auto simp: sched_wf_def set_graph_state)
    then show ?thesis
      using set same hon by (auto simp: Waiting same_setup_def out split: sum.splits)
  next
    case (Begun t)
    obtain s2 t' where l: "lifecycle_begin env t s = (s2, t')" by fastforce
    have "o_graph (fst (lifecycle_begin env t s)) = o_graph s"
      "o_runtime (fst (lifecycle_begin env t s)) = o_runtime s"
      "o_gates (fst (lifecycle_begin env t s)) = o_gates s"
      "tk_wp (snd (lifecycle_begin env t s)) = tk_wp t"
      "tk_request (snd (lifecycle_begin env t s)) = tk_request t" by simp_all
    with j Begun set hon show ?thesis by (auto simp: l same_setup_def)
  next
    case (Called t)
    with j set hon show ?thesis by (auto simp: Let_def same_setup_def)
  next
    case (Returned t r)
    obtain res where f: "dispatch_finish env t r s = (s1, res)" and out: "out = Inr (tk_wp t, res)"
      using j Returned by (auto simp: Let_def split: prod.splits)
    have fl: "in_flight s t" using ok Returned by simp
    then have t: "ticket_ok t" by (simp add: in_flight_def)
    from finish_setup [OF f t] set have "same_setup s0 s1" by (simp add: same_setup_def)
    moreover have "justified s0 (tk_wp t)" if c: "wp_state_of s1 (tk_wp t) = StateCompleted"
      using finish_completes [OF f fl wf c] hon set
      by (auto simp: Returned work_passed_def justified_def same_setup_def split: sum.splits)
    ultimately show ?thesis by (simp add: Returned out)
  qed
  then show "same_setup s0 s1" and "\<And>j1. out = Inl j1 \<Longrightarrow> job_honest s0 j1"
    and "wp_state_of s1 (job_wp j) = StateCompleted \<Longrightarrow>
      wp_state_of s (job_wp j) = StateCompleted \<or> justified s0 (job_wp j)" by blast+
qed

definition run_honest :: "Scheduler \<Rightarrow> RunState \<Rightarrow> bool" where
  "run_honest s0 R \<longleftrightarrow> same_setup s0 (rn_sched R) \<and> (\<forall>j\<in>set (rn_jobs R). job_honest s0 j)
     \<and> (\<forall>wp\<in>set (g_order (o_graph s0)). wp_state_of (rn_sched R) wp = StateCompleted \<longrightarrow>
          wp_state_of s0 wp = StateCompleted \<or> justified s0 wp)"

lemma run_honest_job:
  assumes inv: "run_inv s0 R" and hon: "run_honest s0 R" and i: "i < length (rn_jobs R)"
  shows "run_honest s0 (run_job env clock i R)"
proof -
  obtain xs j ys s1 out where jobs: "rn_jobs R = xs @ j # ys"
    and st: "job_step env (clock (o_log (rn_sched R))) j (rn_sched R) = (s1, out)"
    and R': "run_job env clock i R = (case out of
        Inl j1 \<Rightarrow> R\<lparr>rn_sched := s1, rn_jobs := xs @ j1 # ys\<rparr>
      | Inr oc \<Rightarrow> R\<lparr>rn_sched := s1, rn_jobs := xs @ ys, rn_chan := rn_chan R @ [oc]\<rparr>)"
    by (rule run_jobE [OF i, of env clock]) (rule that)
  have ok: "job_ok (rn_sched R) j" "sched_wf (rn_sched R)" "ids_ok (rn_sched R)"
    using inv jobs by (simp_all add: run_inv_def inv_sched_def inv_jobs_def)
  have h: "same_setup s0 (rn_sched R)" "job_honest s0 j"
    using hon jobs by (simp_all add: run_honest_def)
  note e = job_honest_step [OF st ok(1,2) h]
  have st1: "wp_state_of s1 k = wp_state_of (rn_sched R) k" if "k \<noteq> job_wp j" for k
    using job_effect(1) [OF st ok] that by (simp add: step_frame_def)
  have sch: "rn_sched (run_job env clock i R) = s1" by (simp add: R' split: sum.splits)
  have "\<forall>j\<in>set (rn_jobs (run_job env clock i R)). job_honest s0 j"
    using hon e(2) by (auto simp: R' jobs run_honest_def split: sum.splits)
  moreover have "wp_state_of s0 k = StateCompleted \<or> justified s0 k"
    if "k \<in> set (g_order (o_graph s0))" "wp_state_of s1 k = StateCompleted" for k
    using e(3) st1 [of k] that hon by (cases "k = job_wp j") (auto simp: run_honest_def)
  ultimately show ?thesis using e(1) by (auto simp: run_honest_def sch)
qed

lemma run_collect_setup:
  assumes c: "run_collect wp r (s, rep) = (s1, rep1)"
  shows "same_setup s s1" and "o_graph s1 \<in> {o_graph s, set_graph (o_graph s) wp StateReady}"
  using assms
  by (auto simp: run_collect_def resetForRetry_def same_setup_def set_graph_def Let_def
      split: if_splits prod.splits bool.splits option.splits sum.splits)

lemma run_honest_reach:
  assumes "run_reach env clock s0 R" and wf0: "sched_wf s0" and ids: "ids_ok s0"
  shows "run_honest s0 R"
  using assms(1)
proof induction
  case start
  then show ?case by (simp add: run_init_def run_honest_def same_setup_def)
next
  case (step R act R')
  have inv: "run_inv s0 R" by (rule run_reach_inv [OF step.hyps(1) wf0 ids])
  show ?case
  proof (cases act)
    case ActRound
    with step show ?thesis by (auto simp: run_round_def Let_def run_honest_def split: if_splits)
  next
    case (ActCancel e)
    with step show ?thesis by (auto simp: run_honest_def split: if_splits)
  next
    case (ActJob i)
    with step run_honest_job [OF inv] show ?thesis by (auto split: if_splits)
  next
    case ActRecv
    with step obtain oc outs where ch: "rn_chan R = oc # outs" and R': "R' = run_recv (rn_chan R) R"
      by (auto split: if_splits simp: neq_Nil_conv)
    show ?thesis
    proof (cases "snd oc")
      case (Inl e)
      with step.IH ch R' show ?thesis by (cases oc) (simp add: run_honest_def)
    next
      case (Inr r)
      obtain s1 rep1 where c: "run_collect (fst oc) r (rn_sched R, rn_report R) = (s1, rep1)" by fastforce
      have wf: "graph_wf (o_graph (rn_sched R))" and ord: "g_order (o_graph (rn_sched R)) = g_order (o_graph s0)"
        and wp: "fst oc \<in> set (g_order (o_graph s0))"
        using inv ch by (auto simp: run_inv_def inv_sched_def sched_wf_def inv_jobs_def)
      have "wp_state_of (rn_sched R) k = StateCompleted" if "wp_state_of s1 k = StateCompleted" for k
        using run_collect_setup(2) [OF c] that wf wp ord by (auto simp: set_graph_state split: if_splits)
      moreover have "rn_sched R' = s1" "rn_jobs R' = rn_jobs R"
        using Inr c by (cases oc; simp add: R' ch)+
      ultimately show ?thesis
        using step.IH run_collect_setup(1) [OF c] by (auto simp: run_honest_def same_setup_def)
    qed
  qed
qed

text \<open>
  C1. Acceptance is guarded under every interleaving: whatever state a concurrent run is in, a work
  package that is completed was completed before the run or has a runtime result with status
  \<open>succeeded\<close> or \<open>partial\<close> on which every configured gate passed.
\<close>

theorem run_acceptance_guarded:
  assumes "run_reach env clock s0 R" and "sched_wf s0" and "ids_ok s0"
    and "wp \<in> set (g_order (o_graph s0))" and "wp_state_of (rn_sched R) wp = StateCompleted"
  shows "wp_state_of s0 wp = StateCompleted
    \<or> (\<exists>req result. wr_WorkPackageID req = wp \<and> o_runtime s0 req = Inr result
         \<and> res_Status result \<in> {''succeeded'', ''partial''}
         \<and> r_Passed (Gates_Evaluate (o_gates s0) (subject wp result)))"
  using run_honest_reach [OF assms(1-3)] assms(4,5) by (auto simp: run_honest_def justified_def)

section \<open>The report does not depend on timing\<close>

definition can_reset :: "string \<Rightarrow> Scheduler \<Rightarrow> bool" where
  "can_reset wp s \<longleftrightarrow> wp \<in> fmdom' (o_assignments s) \<and> wp \<in> fmdom' (g_nodes (o_graph s))"

definition put_ready :: "string \<Rightarrow> Scheduler \<Rightarrow> Scheduler" where
  "put_ready wp s = s\<lparr>o_graph := set_graph (o_graph s) wp StateReady\<rparr>"

lemma resetForRetry_alt: "resetForRetry wp s = (if can_reset wp s then (put_ready wp s, True) else (s, False))"
  by (auto simp: resetForRetry_def can_reset_def put_ready_def set_graph_def Graph_SetState_def in_fmdom'_iff
      split: option.splits)

lemma can_reset_put_ready [simp]: "can_reset v (put_ready w s) = can_reset v s"
  by (auto simp: can_reset_def put_ready_def set_graph_def Graph_SetState_def in_fmdom'_iff split: option.splits)

lemma put_ready_commute: "v \<noteq> w \<Longrightarrow> put_ready v (put_ready w s) = put_ready w (put_ready v s)"
  by (auto simp: put_ready_def set_graph_def Graph_SetState_def fmupd_reorder_neq split: option.splits)

lemma run_maxAttempts_put_ready [simp]: "run_maxAttempts (put_ready w s) = run_maxAttempts s"
  by (simp add: run_maxAttempts_def put_ready_def)

lemma run_collect_commute:
  assumes "v \<noteq> w"
  shows "run_collect v rv (run_collect w rw sr) = run_collect w rw (run_collect v rv sr)"
proof (cases sr)
  case (Pair s rep)
  have up: "fmupd v a (fmupd w b m) = fmupd w b (fmupd v a m)" for a b and m :: "(string, int) fmap"
    using assms by (rule fmupd_reorder_neq)
  show ?thesis
    using assms put_ready_commute [of v w s]
    by (cases "dr_Status rv = ''succeeded''"; cases "dr_Status rv = ''failed''";
        cases "dr_Status rw = ''succeeded''"; cases "dr_Status rw = ''failed''";
        cases "can_reset v s"; cases "can_reset w s")
      (simp_all add: Pair run_collect_def Let_def resetForRetry_alt up)
qed

definition run_collect_all :: "(string \<times> DispatchReport) list \<Rightarrow> Scheduler \<times> RunReport \<Rightarrow> Scheduler \<times> RunReport" where
  "run_collect_all outs = fold (\<lambda>(wp, r). run_collect wp r) outs"

text \<open>
  The aggregate does not depend on completion timing: whatever the order in which the outcomes
  of a batch arrive, the report and the graph after collecting them are the same.
\<close>

lemma run_collect_order_irrelevant:
  assumes "mset outs' = mset outs" and "distinct (map fst outs)"
  shows "run_collect_all outs' sr = run_collect_all outs sr"
proof -
  have comm: "(case x of (wp, r) \<Rightarrow> run_collect wp r) \<circ> (case y of (wp, r) \<Rightarrow> run_collect wp r)
      = (case y of (wp, r) \<Rightarrow> run_collect wp r) \<circ> (case x of (wp, r) \<Rightarrow> run_collect wp r)"
    if "x \<in> set outs'" "y \<in> set outs'" for x y
  proof (cases "fst x = fst y")
    case True
    have "set outs' = set outs" using assms(1) by (rule mset_eq_setD)
    then have "x = y" using that True assms(2) by (metis distinct_map inj_onD)
    then show ?thesis by simp
  next
    case False
    then show ?thesis by (cases x; cases y) (simp add: fun_eq_iff run_collect_commute)
  qed
  have "fold (\<lambda>(wp, r). run_collect wp r) outs' = fold (\<lambda>(wp, r). run_collect wp r) outs"
    by (rule fold_multiset_equiv) (use comm assms(1) in auto)
  then show ?thesis by (simp add: run_collect_all_def)
qed

section \<open>Concrete runs\<close>

lemma ex_sched_ids: "ids_ok (ex_sched rt)"
  by (simp add: ids_ok_def attempts_of_def ex_sched_eq)

abbreviation ex_clock :: "world_call list \<Rightarrow> time" where "ex_clock \<equiv> \<lambda>_. 5"

lemma ex_run_round:
  "run_round (run_init (ex_sched rt)) =
     (run_init (ex_sched rt))\<lparr>rn_jobs := [Waiting ''a''], rn_left := 1\<rparr>"
  unfolding run_round_def Let_def by (simp add: run_init_def ex_sched_ready run_concurrency_def)

lemma ex_run_reach: "run_reach env clock (ex_sched rt) (run_round (run_init (ex_sched rt)))"
  by (rule run_reach.step [OF run_reach.start, where act = ActRound]) (simp add: at_round_def run_init_def)

text \<open>A single job runs to its outcome.\<close>

lemma job_run_reach:
  "run_reach env (\<lambda>_. now) s0 R \<Longrightarrow> rn_jobs R = [j] \<Longrightarrow> job_run n env now j (rn_sched R) = (s', Inr oc) \<Longrightarrow>
     \<exists>R'. run_reach env (\<lambda>_. now) s0 R' \<and> rn_sched R' = s' \<and> rn_chan R' = rn_chan R @ [oc]"
proof (induction n arbitrary: R j)
  case (Suc n)
  obtain s1 out where st: "job_step env now j (rn_sched R) = (s1, out)" by fastforce
  have app: "run_apply env (\<lambda>_. now) (ActJob 0) R = Some (run_job env (\<lambda>_. now) 0 R)"
    using Suc.prems(2) by simp
  show ?case
  proof (cases out)
    case (Inl j1)
    have R1: "run_job env (\<lambda>_. now) 0 R = R\<lparr>rn_sched := s1, rn_jobs := [j1]\<rparr>"
      using Suc.prems(2) st Inl by (simp add: run_job_def)
    have "run_reach env (\<lambda>_. now) s0 (R\<lparr>rn_sched := s1, rn_jobs := [j1]\<rparr>)"
      using run_reach.step [OF Suc.prems(1) app] by (simp add: R1)
    from Suc.IH [OF this, of j1] Suc.prems(3) st Inl show ?thesis by simp
  next
    case (Inr o1)
    have R1: "run_job env (\<lambda>_. now) 0 R = R\<lparr>rn_sched := s1, rn_jobs := [], rn_chan := rn_chan R @ [o1]\<rparr>"
      using Suc.prems(2) st Inr by (simp add: run_job_def)
    have "run_reach env (\<lambda>_. now) s0 (R\<lparr>rn_sched := s1, rn_jobs := [], rn_chan := rn_chan R @ [o1]\<rparr>)"
      using run_reach.step [OF Suc.prems(1) app] by (simp add: R1)
    moreover have "s' = s1" "oc = o1" using Suc.prems(3) st Inr by simp_all
    ultimately show ?thesis by (intro exI conjI) (assumption, simp_all)
  qed
qed simp

theorem run_terminates_witness:
  "\<exists>R. run_trace ex_env ex_clock [ActRound] (run_init (ex_sched Disabled_Run)) = Some R
     \<and> (\<exists>act. run_apply ex_env ex_clock act R \<noteq> None)"
proof -
  let ?R = "run_round (run_init (ex_sched Disabled_Run))"
  have "run_trace ex_env ex_clock [ActRound] (run_init (ex_sched Disabled_Run)) = Some ?R"
    by (simp add: at_round_def run_init_def)
  from run_terminates [OF ex_sched_wf ex_sched_ids this] this show ?thesis by (auto simp: ex_run_round)
qed

theorem run_safety_witness:
  "\<exists>R. run_reach ex_env ex_clock (ex_sched Disabled_Run) R \<and> rn_jobs R = [Waiting ''a''] \<and> distinct (run_busy R)"
  using run_safety [OF ex_run_reach [of ex_env ex_clock Disabled_Run] ex_sched_wf ex_sched_ids] ex_run_reach
  by (intro exI [of _ "run_round (run_init (ex_sched Disabled_Run))"]) (simp add: ex_run_round)

definition ex_blocked :: Scheduler where
  "ex_blocked = (ex_sched Disabled_Run)\<lparr>o_graph := set_graph ex_graph ''a'' StateDeficient\<rparr>"


theorem run_acceptance_guarded_witness:
  "\<exists>R. run_reach ex_env ex_clock (ex_sched (\<lambda>_. Ok ex_result)) R \<and> wp_state_of (rn_sched R) ''a'' = StateCompleted
     \<and> r_Passed (Gates_Evaluate [TestsGate] (subject ''a'' ex_result))"
proof -
  let ?s = "ex_sched (\<lambda>_. Ok ex_result)"
  obtain s' r where d: "dispatchOne ex_env 5 ''a'' ?s = (s', Inr r)" "wp_state_of s' ''a'' = StateCompleted"
    using ex_dispatch_completed by blast
  have "rn_sched (run_round (run_init ?s)) = ?s" by (simp only: ex_run_round) (simp add: run_init_def)
  then have "job_run 4 ex_env 5 (Waiting ''a'') (rn_sched (run_round (run_init ?s))) = (s', Inr (''a'', Inr r))"
    using job_run_dispatchOne [of ex_env 5 "''a''" ?s] d(1) by simp
  moreover have "rn_jobs (run_round (run_init ?s)) = [Waiting ''a'']" by (simp add: ex_run_round)
  ultimately obtain R where R: "run_reach ex_env ex_clock ?s R" "rn_sched R = s'"
    using job_run_reach [OF ex_run_reach] by blast
  have "''a'' \<in> set (g_order (o_graph ?s))" "wp_state_of ?s ''a'' \<noteq> StateCompleted"
    by (simp_all add: ex_sched_eq ex_graph_nodes ex_graph_order)
  with run_acceptance_guarded [OF R(1) ex_sched_wf ex_sched_ids, of "''a''"] d(2) R show ?thesis
    by (auto simp: ex_sched_eq)
qed

definition ex_report :: "string \<Rightarrow> string \<Rightarrow> DispatchReport" where
  "ex_report wp st = \<lparr>dr_WorkPackageID = wp, dr_WorkerID = ''w'', dr_State = AsgFailed, dr_Status = st,
     dr_Gates = Report_zero, dr_IntakeAccepted = True\<rparr>"

end
