(* ===== verification/Contracts.thy ===== *)
theory Contracts
  imports Prelude
begin

text \<open>
  \<open>contracts/go/v2\<close>: the shared records of the modules and their \<open>Validate\<close> methods. A method that
  returns \<open>nil\<close> is \<open>None\<close>; a returned error is \<open>Some\<close> of a \<open>val_error\<close>, which carries the field and
  the value the message is built from. A regular expression is the predicate it matches. \<open>parse\<close> is
  \<open>time.Parse\<close> with the RFC 3339 layout. The typed strings of the enums are strings.
\<close>

section \<open>Errors and field checks\<close>

datatype val_error =
    IdentifierRequired string
  | IdentifierInvalid string string
  | VersionInvalid string string
  | TimestampRequired string
  | TimestampInvalid string string
  | EnumInvalid string string
  | HashInvalid string
  | KindExpected string string
  | IsRequired string
  | MustNotBeNegative string
  | DuplicateId string string
  | UnknownCapability string string
  | OutOfRange string
  | TierMismatch string string
  | Within string val_error  \<comment> \<open>an error wrapped with a prefix\<close>

definition is_alnum :: "char \<Rightarrow> bool" where
  "is_alnum c \<longleftrightarrow> is_digit c \<or> (let n = of_char c :: nat in (65 \<le> n \<and> n \<le> 90) \<or> (97 \<le> n \<and> n \<le> 122))"

definition identifierRE :: "string \<Rightarrow> bool" where
  "identifierRE s = (case s of [] \<Rightarrow> False
     | c # cs \<Rightarrow> is_alnum c \<and> list_all (\<lambda>d. is_alnum d \<or> d \<in> set ''_.:@+-'') cs)"

definition versionRE :: "string \<Rightarrow> bool" where
  "versionRE s = (takeWhile is_digit s \<noteq> [] \<and> (case dropWhile is_digit s of [] \<Rightarrow> False
     | c # minor \<Rightarrow> c = CHR ''.'' \<and> minor \<noteq> [] \<and> list_all is_digit minor))"

definition hashRE :: "string \<Rightarrow> bool" where
  "hashRE s \<longleftrightarrow> length s = 64 \<and> list_all (\<lambda>c. c \<in> set ''abcdef0123456789'') s"

definition RequireIdentifier :: "string \<Rightarrow> string \<Rightarrow> val_error option" where
  "RequireIdentifier field value =
     (if value = [] then Some (IdentifierRequired field)
      else if 256 < length value \<or> \<not> identifierRE value then Some (IdentifierInvalid field value)
      else None)"

definition OptionalIdentifier :: "string \<Rightarrow> string \<Rightarrow> val_error option" where
  "OptionalIdentifier field value = (if value = [] then None else RequireIdentifier field value)"

definition RequireVersion :: "string \<Rightarrow> string \<Rightarrow> val_error option" where
  "RequireVersion field value = (if \<not> versionRE value then Some (VersionInvalid field value) else None)"

definition RequireTimestamp :: "(string \<Rightarrow> time option) \<Rightarrow> string \<Rightarrow> string \<Rightarrow> val_error option" where
  "RequireTimestamp parse field value =
     (if value = [] then Some (TimestampRequired field)
      else if parse value = None then Some (TimestampInvalid field value)
      else None)"

definition OptionalTimestamp :: "(string \<Rightarrow> time option) \<Rightarrow> string \<Rightarrow> string \<Rightarrow> val_error option" where
  "OptionalTimestamp parse field value = (if value = [] then None else RequireTimestamp parse field value)"

definition RequireEnum :: "string \<Rightarrow> string \<Rightarrow> string list \<Rightarrow> val_error option" where
  "RequireEnum field value allowed =
     (if list_ex (\<lambda>a. value = a) allowed then None else Some (EnumInvalid field value))"

definition RequireHash :: "string \<Rightarrow> string \<Rightarrow> val_error option" where
  "RequireHash field value = (if \<not> hashRE value then Some (HashInvalid field) else None)"

text \<open>A field name with an index, \<open>fmt.Sprintf("%s[%d]%s")\<close>.\<close>

definition field_at :: "string \<Rightarrow> nat \<Rightarrow> string \<Rightarrow> string" where
  "field_at field i rest = field @ ''['' @ itoa i @ '']'' @ rest"

section \<open>The shared header\<close>

record Reference =
  ref_Kind :: string
  ref_ID :: string
  ref_Version :: string

record Actor =
  ac_Kind :: string
  ac_ID :: string
  ac_Role :: string
  ac_WorkerID :: string
  ac_Model :: string

record Provenance =
  pv_Source :: string
  pv_ProducedAt :: string
  pv_ProducedBy :: "Actor option"
  pv_Confidence :: string
  pv_Evidence :: "Reference list"
  pv_ContentHash :: string

record Envelope =
  ev_ContractVersion :: string
  ev_Kind :: string
  ev_ID :: string
  ev_ProjectID :: string
  ev_CreatedAt :: string
  ev_Revision :: "int option"
  ev_Provenance :: "Provenance option"

definition Reference_Validate :: "Reference \<Rightarrow> val_error option" where
  "Reference_Validate r =
     first_some [RequireIdentifier ''reference.kind'' (ref_Kind r), RequireIdentifier ''reference.id'' (ref_ID r)]"

definition Actor_Validate :: "Actor \<Rightarrow> val_error option" where
  "Actor_Validate a =
     first_some [RequireEnum ''actor.kind'' (ac_Kind a) [''human'', ''agent'', ''system'', ''service''],
       RequireIdentifier ''actor.id'' (ac_ID a)]"

definition Provenance_Validate :: "(string \<Rightarrow> time option) \<Rightarrow> Provenance \<Rightarrow> val_error option" where
  "Provenance_Validate parse p =
     first_some
      [RequireIdentifier ''provenance.source'' (pv_Source p),
       RequireTimestamp parse ''provenance.producedAt'' (pv_ProducedAt p),
       if pv_Confidence p \<noteq> [] then RequireEnum ''provenance.confidence'' (pv_Confidence p)
         [''exact'', ''correlated'', ''observed'', ''inferred''] else None,
       if pv_ContentHash p \<noteq> [] then RequireHash ''provenance.contentHash'' (pv_ContentHash p) else None,
       (case pv_ProducedBy p of None \<Rightarrow> None | Some a \<Rightarrow> Actor_Validate a),
       first_err_at (\<lambda>i e. map_option (Within (field_at ''provenance.evidence'' i [])) (Reference_Validate e))
         0 (pv_Evidence p)]"

definition Envelope_Validate :: "(string \<Rightarrow> time option) \<Rightarrow> Envelope \<Rightarrow> val_error option" where
  "Envelope_Validate parse e =
     first_some
      [RequireVersion ''contractVersion'' (ev_ContractVersion e),
       RequireIdentifier ''kind'' (ev_Kind e),
       RequireIdentifier ''id'' (ev_ID e),
       OptionalIdentifier ''projectId'' (ev_ProjectID e),
       OptionalTimestamp parse ''createdAt'' (ev_CreatedAt e),
       (case ev_Provenance e of None \<Rightarrow> None | Some p \<Rightarrow> Provenance_Validate parse p)]"

text \<open>The first two checks of every contract.\<close>

definition header_check :: "(string \<Rightarrow> time option) \<Rightarrow> string \<Rightarrow> Envelope \<Rightarrow> val_error option" where
  "header_check parse want e =
     first_some [if ev_Kind e \<noteq> want then Some (KindExpected want (ev_Kind e)) else None, Envelope_Validate parse e]"

section \<open>Enumerations\<close>

definition ProjectState_Validate :: "string \<Rightarrow> val_error option" where
  "ProjectState_Validate s = RequireEnum ''state'' s
     [''CREATED'', ''DISCOVERY'', ''PLANNING'', ''EXECUTING'', ''VERIFYING'',
      ''COMPLETE'', ''BLOCKED'', ''FAILED'', ''CANCELLED'', ''PAUSED'']"

definition WorkPackageState_Validate :: "string \<Rightarrow> val_error option" where
  "WorkPackageState_Validate s = RequireEnum ''state'' s
     [''PROPOSED'', ''READY'', ''QUEUED'', ''RUNNING'', ''COMPLETE'', ''VERIFYING'', ''VERIFIED'', ''DEFICIENT'']"

definition AssignmentState_Validate :: "string \<Rightarrow> val_error option" where
  "AssignmentState_Validate s = RequireEnum ''state'' s
     [''planned'', ''leased'', ''preparing'', ''running'', ''paused'', ''collecting'',
      ''awaiting_gates'', ''accepted'', ''failed'', ''canceled'', ''expired'']"

definition ReadinessState_Validate :: "string \<Rightarrow> val_error option" where
  "ReadinessState_Validate s = RequireEnum ''readiness'' s [''blocked'', ''ready'', ''dispatched'', ''satisfied'']"

definition IssueState_Validate :: "string \<Rightarrow> val_error option" where
  "IssueState_Validate s = RequireEnum ''status'' s
     [''open'', ''in_progress'', ''review'', ''closed'', ''deferred'', ''cancelled'']"

definition MemoryLifecycle_Validate :: "string \<Rightarrow> val_error option" where
  "MemoryLifecycle_Validate s = RequireEnum ''lifecycle'' s
     [''EPHEMERAL'', ''CANDIDATE'', ''VALIDATED'', ''ACTIVE'', ''SUPERSEDED'', ''ARCHIVED'']"

section \<open>Dynamic values\<close>

text \<open>
  A Go value of type \<open>any\<close>, as decoded from JSON or built by a caller. A floating-point number is its
  rational value; \<open>NotFinite\<close> is a NaN or an infinity with its text. \<open>AStrings\<close> is a \<open>[]string\<close>, \<open>AList\<close> a \<open>[]any\<close>.
\<close>

datatype go_float = Finite rat | NotFinite string

datatype go_any = ANil | AString string | ABool bool | AInt int | AInt64 int
  | AFloat64 go_float | AFloat32 go_float | AStrings "string list" | AList "go_any list" | AOther

text \<open>
  \<open>float64(int64(v))\<close> equals \<open>v\<close>. Outside the range of \<open>int64\<close>, and for a NaN or an infinity, Go leaves the
  conversion to the platform; on amd64 it yields the least integer, which differs from such a \<open>v\<close>
  unless \<open>v\<close> is that integer, which is in range.
\<close>

definition float_integral :: "go_float \<Rightarrow> bool" where
  "float_integral f = (case f of NotFinite _ \<Rightarrow> False
     | Finite r \<Rightarrow> - (2 ^ 63) \<le> r \<and> r < 2 ^ 63 \<and> r = of_int \<lfloor>r\<rfloor>)"

section \<open>Workflows\<close>

type_synonym config = "(string, go_any) fmap"

record WorkflowStep =
  st_ID :: string
  st_Kind :: string
  st_Role :: string
  st_ToolID :: string
  st_DependsOn :: "string list"
  st_Retries :: "int option"
  st_Gates :: "string list"
  st_OnFailure :: string
  st_Config :: "config option"  \<comment> \<open>\<open>None\<close> is a nil map\<close>

record 'b Workflow =
  wf_Envelope :: Envelope
  wf_Name :: string
  wf_Version :: string
  wf_Description :: string
  wf_Budget :: "'b option"
  wf_Steps :: "WorkflowStep list"

text \<open>The loop over the steps with the ids seen so far.\<close>

fun steps_check :: "nat \<Rightarrow> string list \<Rightarrow> WorkflowStep list \<Rightarrow> val_error option" where
  "steps_check i seen [] = None"
| "steps_check i seen (s # ss) =
     first_some
      [RequireIdentifier (field_at ''steps'' i ''.id'') (st_ID s),
       if st_ID s \<in> set seen then Some (DuplicateId (field_at ''steps'' i ''.id'') (st_ID s)) else None,
       RequireEnum (field_at ''steps'' i ''.kind'') (st_Kind s)
         [''task'', ''tool'', ''gate'', ''human_approval'', ''parallel'', ''conditional''],
       if st_OnFailure s \<noteq> [] then RequireEnum (field_at ''steps'' i ''.onFailure'') (st_OnFailure s)
         [''fail'', ''retry'', ''skip'', ''compensate''] else None,
       steps_check (Suc i) (st_ID s # seen) ss]"

definition Workflow_Validate :: "(string \<Rightarrow> time option) \<Rightarrow> 'b Workflow \<Rightarrow> val_error option" where
  "Workflow_Validate parse w =
     first_some
      [header_check parse ''workflow'' (wf_Envelope w),
       if wf_Version w = [] then Some (IsRequired ''version'') else None,
       if wf_Steps w = [] then Some (IsRequired ''steps'') else None,
       steps_check 0 [] (wf_Steps w)]"

lemma steps_check_ids:
  "steps_check i seen ss = None \<Longrightarrow>
     distinct (map st_ID ss) \<and> set (map st_ID ss) \<inter> set seen = {} \<and> [] \<notin> set (map st_ID ss)"
  by (induction i seen ss rule: steps_check.induct)
    (auto simp: RequireIdentifier_def split: if_splits)

end
