(* ===== verification/MemoryStore.thy ===== *)
theory MemoryStore
  imports Contracts
begin

text \<open>
  \<open>memory/store\<close>: the record and event store on disk (\<open>store.go\<close>, \<open>record.go\<close>, \<open>layout.go\<close>, \<open>retention.go\<close>,
  \<open>ingest.go\<close>) and \<open>memory/projection\<close>: the derived view of its records. A store's files are values of the
  model: \<open>st_records\<close> maps a kind's directory to its files by id, and a file holds a record or bytes that do
  not decode. Writing through a temporary file and a rename makes \<open>writeFileAtomic\<close> one step that happens
  or fails: \<open>st_writes\<close> is what the coming writes return, and writes succeed once it is empty. A partial line
  of an append that failed is not modelled. JSON and SHA-256 are the parameters in \<open>StoreEnv\<close>.
\<close>

section \<open>Records\<close>

record StoreRecord =
  sr_Kind :: string
  sr_ID :: string
  sr_Revision :: int
  sr_Data :: string
  sr_Hash :: string

datatype store_error =
    StContract val_error
  | StNegativeRevision
  | StCanonicalize
  | StHashMismatch
  | StSegmentRequired string
  | StSegmentInvalid string string
  | StSegmentSeparator string
  | StStale string string int int
  | StNotFound
  | StCorrupt
  | StCorruptEvents
  | StWrite string
  | StEventInvalid
  | StEventIdRequired
  | StLineTooLong
  | StCorruptRetention
  | StInvalidFloor int
  | StFloorNegative
  | StFloorDecreased int int
  | StProvenance val_error
  | StProvenanceMissing

text \<open>
  \<open>Canonicalize\<close> and the hex SHA-256; decoding the id and the sequence of an event, and the provenance of a record:
  \<open>None\<close> when the bytes do not decode, \<open>Some None\<close> when there is none, else its source and time.
\<close>

record StoreEnv =
  se_canon :: "string \<Rightarrow> string option"
  se_sha :: "string \<Rightarrow> string"
  se_event :: "string \<Rightarrow> (string \<times> int) option"
  se_provenance :: "string \<Rightarrow> (string \<times> string) option option"
  se_parse :: "string \<Rightarrow> time option"

definition HashBytes :: "StoreEnv \<Rightarrow> string \<Rightarrow> string option" where
  "HashBytes E data = map_option (se_sha E) (se_canon E data)"

definition NewRecord :: "StoreEnv \<Rightarrow> string \<Rightarrow> string \<Rightarrow> int \<Rightarrow> string \<Rightarrow> store_error + StoreRecord" where
  "NewRecord E kind rid revision data =
     (case first_some [RequireIdentifier ''kind'' kind, RequireIdentifier ''id'' rid] of Some e \<Rightarrow> Err (StContract e)
      | None \<Rightarrow>
        if revision < 0 then Err StNegativeRevision
        else (case se_canon E data of None \<Rightarrow> Err StCanonicalize | Some canonical \<Rightarrow>
          (case HashBytes E canonical of None \<Rightarrow> Err StCanonicalize | Some h \<Rightarrow>
             Ok \<lparr>sr_Kind = kind, sr_ID = rid, sr_Revision = revision, sr_Data = canonical, sr_Hash = h\<rparr>)))"

definition StoreRecord_Validate :: "StoreEnv \<Rightarrow> StoreRecord \<Rightarrow> store_error option" where
  "StoreRecord_Validate E r =
     (case first_some [RequireIdentifier ''kind'' (sr_Kind r), RequireIdentifier ''id'' (sr_ID r)] of
        Some e \<Rightarrow> Some (StContract e)
      | None \<Rightarrow>
        if sr_Revision r < 0 then Some StNegativeRevision
        else (case HashBytes E (sr_Data r) of None \<Rightarrow> Some StCanonicalize
          | Some h \<Rightarrow> if h \<noteq> sr_Hash r then Some StHashMismatch else None))"

section \<open>Paths\<close>

definition safeSegment :: "string \<Rightarrow> string \<Rightarrow> store_error option" where
  "safeSegment field value =
     (if value = [] then Some (StSegmentRequired field)
      else if value = ''.'' \<or> value = ''..'' then Some (StSegmentInvalid field value)
      else if list_ex (\<lambda>c. c = CHR ''/'' \<or> c = CHR 0x5C \<or> c = CHR 0x00) value then Some (StSegmentSeparator field)
      else if \<not> identifierRE value then Some (StSegmentInvalid field value)
      else None)"

definition RecordPath :: "string \<Rightarrow> string \<Rightarrow> store_error option" where
  "RecordPath kind rid = (case safeSegment ''kind'' kind of Some e \<Rightarrow> Some e | None \<Rightarrow> safeSegment ''id'' rid)"

section \<open>The store\<close>

datatype rec_file = GoodFile StoreRecord | CorruptFile

datatype floor_file = FloorFile int | CorruptFloor

record Store =
  st_records :: "(string, (string, rec_file) fmap) fmap"
  st_manifest :: "string option"
  st_events :: "string list"  \<comment> \<open>the lines of the log; empty when there is no file\<close>
  st_floor :: "floor_file option"
  st_seen :: "string list"
  st_writes :: "string option list"

text \<open>A new process over the files of a store; creating the directories is left out.\<close>

definition store_Open :: "Store \<Rightarrow> Store" where "store_Open s = s\<lparr>st_seen := []\<rparr>"

definition store_empty :: Store where
  "store_empty = \<lparr>st_records = fmempty, st_manifest = None, st_events = [], st_floor = None, st_seen = [], st_writes = []\<rparr>"

text \<open>The next write: its error, and the store without its entry.\<close>

definition write_outcome :: "Store \<Rightarrow> Store \<times> string option" where
  "write_outcome s = (case st_writes s of [] \<Rightarrow> (s, None) | w # ws \<Rightarrow> (s\<lparr>st_writes := ws\<rparr>, w))"

definition writeFileAtomic :: "(Store \<Rightarrow> Store) \<Rightarrow> Store \<Rightarrow> Store \<times> store_error option" where
  "writeFileAtomic f s = (case write_outcome s of (s1, Some e) \<Rightarrow> (s1, Some (StWrite e)) | (s1, None) \<Rightarrow> (f s1, None))"

definition kind_dir :: "Store \<Rightarrow> string \<Rightarrow> (string, rec_file) fmap" where
  "kind_dir s kind = fm_getd fmempty (st_records s) kind"

definition readRecord :: "Store \<Rightarrow> string \<Rightarrow> string \<Rightarrow> store_error + StoreRecord" where
  "readRecord s kind rid =
     (case fmlookup (kind_dir s kind) rid of None \<Rightarrow> Err StNotFound
      | Some CorruptFile \<Rightarrow> Err StCorrupt | Some (GoodFile r) \<Rightarrow> Ok r)"

definition put_file :: "StoreRecord \<Rightarrow> Store \<Rightarrow> Store" where
  "put_file r s = s\<lparr>st_records :=
     fmupd (sr_Kind r) (fmupd (sr_ID r) (GoodFile r) (kind_dir s (sr_Kind r))) (st_records s)\<rparr>"

definition InitProject :: "StoreEnv \<Rightarrow> string \<Rightarrow> Store \<Rightarrow> Store \<times> (store_error + bool)" where
  "InitProject E manifest s =
     (case se_canon E manifest of None \<Rightarrow> (s, Err StCanonicalize)
      | Some canonical \<Rightarrow>
          if st_manifest s \<noteq> None then (s, Ok False)
          else (case writeFileAtomic (\<lambda>s1. s1\<lparr>st_manifest := Some canonical\<rparr>) s of
              (s1, Some e) \<Rightarrow> (s1, Err e) | (s1, None) \<Rightarrow> (s1, Ok True)))"

definition store_Manifest :: "Store \<Rightarrow> store_error + string" where
  "store_Manifest s = (case st_manifest s of None \<Rightarrow> Err StNotFound | Some m \<Rightarrow> Ok m)"

definition PutRecord :: "StoreEnv \<Rightarrow> StoreRecord \<Rightarrow> Store \<Rightarrow> Store \<times> (store_error + bool)" where
  "PutRecord E r s =
     (let write = (case writeFileAtomic (put_file r) s of (s1, Some e) \<Rightarrow> (s1, Err e) | (s1, None) \<Rightarrow> (s1, Ok True)) in
      (case StoreRecord_Validate E r of Some e \<Rightarrow> (s, Err e) | None \<Rightarrow>
      (case RecordPath (sr_Kind r) (sr_ID r) of Some e \<Rightarrow> (s, Err e) | None \<Rightarrow>
      (case readRecord s (sr_Kind r) (sr_ID r) of
         Inr existing \<Rightarrow>
           if sr_Hash existing = sr_Hash r then (s, Ok False)
           else if sr_Revision r \<le> sr_Revision existing then
             (s, Err (StStale (sr_Kind r) (sr_ID r) (sr_Revision r) (sr_Revision existing)))
           else write
       | Inl e \<Rightarrow> if e = StNotFound then write else (s, Err e)))))"

definition GetRecord :: "string \<Rightarrow> string \<Rightarrow> Store \<Rightarrow> store_error + StoreRecord" where
  "GetRecord kind rid s = (case RecordPath kind rid of Some e \<Rightarrow> Err e | None \<Rightarrow> readRecord s kind rid)"

text \<open>Read the files of a directory in order; the first that does not decode is an error.\<close>

fun read_files :: "rec_file list \<Rightarrow> store_error + StoreRecord list" where
  "read_files [] = Ok []"
| "read_files (CorruptFile # fs) = Err StCorrupt"
| "read_files (GoodFile r # fs) = (case read_files fs of Inl e \<Rightarrow> Err e | Inr rs \<Rightarrow> Ok (r # rs))"

definition ListRecords :: "string \<Rightarrow> Store \<Rightarrow> store_error + StoreRecord list" where
  "ListRecords kind s =
     (case safeSegment ''kind'' kind of Some e \<Rightarrow> Err e | None \<Rightarrow>
      (case read_files (fm_vals (kind_dir s kind)) of Inl e \<Rightarrow> Err e | Inr rs \<Rightarrow> Ok (sort_key sr_ID rs)))"

text \<open>Sorting by kind, then id: a stable sort by id and one by kind.\<close>

definition ListAllRecords :: "Store \<Rightarrow> store_error + StoreRecord list" where
  "ListAllRecords s =
     (case read_files (concat (map fm_vals (fm_vals (st_records s)))) of Inl e \<Rightarrow> Err e
      | Inr rs \<Rightarrow> Ok (sort_key sr_Kind (sort_key sr_ID rs)))"

section \<open>Retention\<close>

definition store_Retention :: "Store \<Rightarrow> store_error + int" where
  "store_Retention s =
     (case st_floor s of None \<Rightarrow> Ok 0 | Some CorruptFloor \<Rightarrow> Err StCorruptRetention
      | Some (FloorFile n) \<Rightarrow> if n < 0 then Err (StInvalidFloor n) else Ok n)"

definition RetainAfter :: "int \<Rightarrow> Store \<Rightarrow> Store \<times> store_error option" where
  "RetainAfter sequence s =
     (if sequence < 0 then (s, Some StFloorNegative)
      else (case store_Retention s of Inl e \<Rightarrow> (s, Some e)
        | Inr current \<Rightarrow>
            if sequence < current then (s, Some (StFloorDecreased current sequence))
            else if sequence = current then (s, None)
            else writeFileAtomic (\<lambda>s1. s1\<lparr>st_floor := Some (FloorFile sequence)\<rparr>) s))"

section \<open>Events\<close>

record EventRecord =
  er_ID :: string
  er_Sequence :: int
  er_Data :: string

definition max_event_line :: nat where "max_event_line = 4 * 1024 * 1024"

text \<open>The scanner stops at the first line that does not fit its buffer; empty lines are skipped.\<close>

fun scan_events :: "StoreEnv \<Rightarrow> string list \<Rightarrow> store_error + EventRecord list" where
  "scan_events E [] = Ok []"
| "scan_events E (l # ls) =
     (if max_event_line \<le> length l then Err StLineTooLong
      else if l = [] then scan_events E ls
      else (case se_event E l of None \<Rightarrow> Err StCorruptEvents
        | Some (eid, sq) \<Rightarrow> (case scan_events E ls of Inl e \<Rightarrow> Err e
            | Inr es \<Rightarrow> Ok (\<lparr>er_ID = eid, er_Sequence = sq, er_Data = l\<rparr> # es))))"

definition allEvents :: "StoreEnv \<Rightarrow> Store \<Rightarrow> store_error + EventRecord list" where
  "allEvents E s = scan_events E (st_events s)"

definition store_Events :: "StoreEnv \<Rightarrow> Store \<Rightarrow> store_error + EventRecord list" where
  "store_Events E s =
     (case allEvents E s of Inl e \<Rightarrow> Err e | Inr all \<Rightarrow>
      (case store_Retention s of Inl e \<Rightarrow> Err e | Inr n \<Rightarrow>
         if n \<le> 0 then Ok all else Ok (filter (\<lambda>e. n < er_Sequence e) all)))"

definition loadSeen :: "StoreEnv \<Rightarrow> Store \<Rightarrow> Store \<times> store_error option" where
  "loadSeen E s =
     (if st_seen s \<noteq> [] then (s, None)
      else (case allEvents E s of Inl e \<Rightarrow> (s, Some e)
        | Inr es \<Rightarrow> (s\<lparr>st_seen := map er_ID es\<rparr>, None)))"

definition AppendEvent :: "StoreEnv \<Rightarrow> string \<Rightarrow> Store \<Rightarrow> Store \<times> (store_error + bool)" where
  "AppendEvent E event s =
     (case se_canon E event of None \<Rightarrow> (s, Err StCanonicalize) | Some canonical \<Rightarrow>
      (case se_event E canonical of None \<Rightarrow> (s, Err StEventInvalid) | Some (eid, sq) \<Rightarrow>
       if eid = [] then (s, Err StEventIdRequired)
       else (case loadSeen E s of (s1, Some e) \<Rightarrow> (s1, Err e) | (s1, None) \<Rightarrow>
         if eid \<in> set (st_seen s1) then (s1, Ok False)
         else (case write_outcome s1 of (s2, Some e) \<Rightarrow> (s2, Err (StWrite e))
           | (s2, None) \<Rightarrow> (s2\<lparr>st_events := st_events s2 @ [canonical], st_seen := st_seen s2 @ [eid]\<rparr>, Ok True)))))"

section \<open>Ingestion\<close>

definition HasProvenance :: "StoreEnv \<Rightarrow> string \<Rightarrow> bool" where
  "HasProvenance E data = (case se_provenance E data of None \<Rightarrow> False | Some p \<Rightarrow> p \<noteq> None)"

definition RequireProvenance :: "StoreEnv \<Rightarrow> string \<Rightarrow> store_error option" where
  "RequireProvenance E data =
     (case se_provenance E data of None \<Rightarrow> Some StCorrupt
      | Some None \<Rightarrow> Some StProvenanceMissing
      | Some (Some (source, producedAt)) \<Rightarrow>
          if source = [] then Some (StProvenance (IsRequired ''provenance.source''))
          else if se_parse E producedAt = None then Some (StProvenance (TimestampInvalid ''provenance.producedAt'' producedAt))
          else None)"

definition ValidateProvenance :: "StoreEnv \<Rightarrow> string \<Rightarrow> store_error option" where
  "ValidateProvenance E data = (if \<not> HasProvenance E data then None else RequireProvenance E data)"

text \<open>The counts of new and unchanged records, and the error that stopped the loop.\<close>

fun IngestRecords ::
  "StoreEnv \<Rightarrow> bool \<Rightarrow> int \<Rightarrow> int \<Rightarrow> StoreRecord list \<Rightarrow> Store \<Rightarrow> Store \<times> (int \<times> int) \<times> store_error option" where
  "IngestRecords E need new unchanged [] s = (s, (new, unchanged), None)"
| "IngestRecords E need new unchanged (r # rs) s =
     (case (if need then RequireProvenance E (sr_Data r) else None) of Some e \<Rightarrow> (s, (new, unchanged), Some e)
      | None \<Rightarrow>
        (case PutRecord E r s of (s1, Inl e) \<Rightarrow> (s1, (new, unchanged), Some e)
         | (s1, Inr True) \<Rightarrow> IngestRecords E need (new + 1) unchanged rs s1
         | (s1, Inr False) \<Rightarrow> IngestRecords E need new (unchanged + 1) rs s1))"

definition IngestEvent :: "StoreEnv \<Rightarrow> string \<Rightarrow> Store \<Rightarrow> Store \<times> (store_error + (int \<times> int))" where
  "IngestEvent E event s =
     (case AppendEvent E event s of (s1, Inl e) \<Rightarrow> (s1, Err e)
      | (s1, Inr True) \<Rightarrow> (s1, Ok (1, 0)) | (s1, Inr False) \<Rightarrow> (s1, Ok (0, 1)))"

section \<open>Projections\<close>

text \<open>An entry has the same fields as a record.\<close>

type_synonym Projection = "(string, StoreRecord) fmap"

datatype proj_error = ProjKeyRequired | ProjStale int string string

definition proj_key :: "string \<Rightarrow> string \<Rightarrow> string" where "proj_key kind rid = kind @ [CHR 0x00] @ rid"

definition proj_Put :: "StoreRecord \<Rightarrow> Projection \<Rightarrow> Projection \<times> proj_error option" where
  "proj_Put e p =
     (if sr_Kind e = [] \<or> sr_ID e = [] then (p, Some ProjKeyRequired)
      else let k = proj_key (sr_Kind e) (sr_ID e) in
        (case fmlookup p k of None \<Rightarrow> (fmupd k e p, None)
         | Some existing \<Rightarrow>
             if sr_Hash existing = sr_Hash e then (p, None)
             else if sr_Revision e < sr_Revision existing then (p, Some (ProjStale (sr_Revision e) (sr_Kind e) (sr_ID e)))
             else (fmupd k e p, None)))"

definition proj_Get :: "string \<Rightarrow> string \<Rightarrow> Projection \<Rightarrow> StoreRecord option" where
  "proj_Get kind rid p = fmlookup p (proj_key kind rid)"

definition proj_List :: "string \<Rightarrow> Projection \<Rightarrow> StoreRecord list" where
  "proj_List kind p = sort_key sr_ID (filter (\<lambda>e. sr_Kind e = kind) (fm_vals p))"

definition proj_Kinds :: "Projection \<Rightarrow> string list" where
  "proj_Kinds p = sort (remdups (map sr_Kind (fm_vals p)))"

definition proj_Reset :: "Projection \<Rightarrow> Projection" where "proj_Reset p = fmempty"

text \<open>What the digest hashes: kind, id, revision and hash of every entry in key order.\<close>

definition proj_Digest :: "(string \<Rightarrow> string) \<Rightarrow> Projection \<Rightarrow> string" where
  "proj_Digest sha p = sha (concat (map (\<lambda>e. sr_Kind e @ [CHR 0x00] @ sr_ID e @ [CHR 0x00] @ itoa_int (sr_Revision e)
     @ [CHR 0x00] @ sr_Hash e @ [CHR 0x0A]) (fm_vals p)))"

fun put_entries :: "StoreRecord list \<Rightarrow> Projection \<Rightarrow> Projection \<times> proj_error option" where
  "put_entries [] p = (p, None)"
| "put_entries (r # rs) p = (case proj_Put r p of (p1, Some e) \<Rightarrow> (p1, Some e) | (p1, None) \<Rightarrow> put_entries rs p1)"

definition proj_Rebuild :: "Store \<Rightarrow> Projection \<Rightarrow> Projection \<times> (store_error + proj_error) option" where
  "proj_Rebuild s p =
     (case ListAllRecords s of Inl e \<Rightarrow> (p, Some (Inl e))
      | Inr rs \<Rightarrow> (case put_entries rs (proj_Reset p) of (p1, None) \<Rightarrow> (p1, None) | (p1, Some e) \<Rightarrow> (p1, Some (Inr e))))"

end
