(* ===== verification/ContractEvidence.thy ===== *)
theory ContractEvidence
  imports Contracts
begin

text \<open>
  \<open>contracts/go/v2\<close>: the contracts of projects, memory, issues, events, results, traces, routing and the named
  specifications, with their \<open>Validate\<close> methods. Of a float only its sign and order matter; a comparison with
  a NaN is false.
\<close>

definition float_below :: "rat \<Rightarrow> go_float \<Rightarrow> bool" where
  "float_below q x = (case x of Finite r \<Rightarrow> r < q | NotFinite t \<Rightarrow> t = ''-Inf'')"

definition float_above :: "rat \<Rightarrow> go_float \<Rightarrow> bool" where
  "float_above q x = (case x of Finite r \<Rightarrow> q < r | NotFinite t \<Rightarrow> t = ''+Inf'')"

definition required :: "string \<Rightarrow> string \<Rightarrow> val_error option" where
  "required field value = (if value = [] then Some (IsRequired field) else None)"

definition optional_check :: "string \<Rightarrow> val_error option \<Rightarrow> val_error option" where
  "optional_check value check = (if value = [] then None else check)"

section \<open>Projects and memory\<close>

record ProjectRecord =
  pr_Envelope :: Envelope
  pr_Name :: string
  pr_State :: string
  pr_LayoutVersion :: string
  pr_AuthorityID :: string
  pr_ReplicaIDs :: "string list"
  pr_Records :: "Reference list"
  pr_Digest :: string

definition ProjectRecord_Validate :: "(string \<Rightarrow> time option) \<Rightarrow> ProjectRecord \<Rightarrow> val_error option" where
  "ProjectRecord_Validate parse p =
     first_some
      [header_check parse ''project_record'' (pr_Envelope p), required ''name'' (pr_Name p),
       ProjectState_Validate (pr_State p), required ''layoutVersion'' (pr_LayoutVersion p),
       OptionalIdentifier ''authorityId'' (pr_AuthorityID p),
       optional_check (pr_Digest p) (RequireHash ''digest'' (pr_Digest p))]"

record MemoryContent =
  mc_Summary :: string
  mc_Details :: string
  mc_Tags :: "string list"

record Applicability =
  ap_Roles :: "string list"
  ap_Languages :: "string list"

record MemoryRecord =
  mr_Envelope :: Envelope
  mr_Level :: string
  mr_Lifecycle :: string
  mr_Title :: string
  mr_Content :: MemoryContent
  mr_Applicability :: "Applicability option"
  mr_Evidence :: "Reference list"
  mr_Confidence :: "go_float option"
  mr_Supersedes :: string

definition MemoryRecord_Validate :: "(string \<Rightarrow> time option) \<Rightarrow> MemoryRecord \<Rightarrow> val_error option" where
  "MemoryRecord_Validate parse m =
     first_some
      [header_check parse ''memory_record'' (mr_Envelope m),
       RequireEnum ''level'' (mr_Level m) [''session'', ''task'', ''project'', ''role'', ''workforce''],
       MemoryLifecycle_Validate (mr_Lifecycle m), required ''content.summary'' (mc_Summary (mr_Content m)),
       (case mr_Confidence m of None \<Rightarrow> None
        | Some x \<Rightarrow> if float_below 0 x \<or> float_above 1 x then Some (OutOfRange ''confidence'') else None),
       OptionalIdentifier ''supersedes'' (mr_Supersedes m)]"

record Strategy =
  sg_Envelope :: Envelope
  sg_Title :: string
  sg_Lifecycle :: string
  sg_Guidance :: string
  sg_WhenToUse :: string
  sg_WhenNotToUse :: string
  sg_Applicability :: "Applicability option"
  sg_Evidence :: "Reference list"
  sg_Supersedes :: string

definition Strategy_Validate :: "(string \<Rightarrow> time option) \<Rightarrow> Strategy \<Rightarrow> val_error option" where
  "Strategy_Validate parse s =
     first_some
      [header_check parse ''strategy'' (sg_Envelope s), required ''title'' (sg_Title s),
       MemoryLifecycle_Validate (sg_Lifecycle s), required ''guidance'' (sg_Guidance s),
       OptionalIdentifier ''supersedes'' (sg_Supersedes s)]"

section \<open>Issues and events\<close>

record IssueLinks =
  il_WorkPackages :: "string list"
  il_Commits :: "string list"
  il_PullRequests :: "Reference list"
  il_ADRs :: "string list"

record Issue =
  is_Envelope :: Envelope
  is_Title :: string
  is_Type :: string
  is_Status :: string
  is_Severity :: string
  is_Body :: string
  is_Milestone :: string
  is_ForgeRef :: "Reference option"
  is_Links :: "IssueLinks option"
  is_DeferredTo :: string

definition Issue_Validate :: "(string \<Rightarrow> time option) \<Rightarrow> Issue \<Rightarrow> val_error option" where
  "Issue_Validate parse i =
     first_some
      [header_check parse ''issue'' (is_Envelope i), required ''title'' (is_Title i),
       RequireEnum ''type'' (is_Type i)
         [''feature'', ''user_story'', ''bug'', ''tech_debt'', ''refactor'', ''test'', ''documentation'', ''audit'',
          ''investigation'', ''deficiency''],
       IssueState_Validate (is_Status i),
       optional_check (is_Severity i) (RequireEnum ''severity'' (is_Severity i) [''P0'', ''P1'', ''P2'', ''P3'', ''none'']),
       OptionalIdentifier ''deferredTo'' (is_DeferredTo i)]"

definition eventTypes :: "string list" where
  "eventTypes =
     [''PROJECT_REGISTERED'', ''PROJECT_UPDATED'', ''WORK_PACKAGE_CREATED'', ''WORK_PACKAGE_READY'',
      ''WORK_PACKAGE_COMPLETED'', ''DEPENDENCY_GRAPH_REVISED'', ''EXECUTION_PLANNED'', ''EXECUTION_LEASED'',
      ''EXECUTION_STARTED'', ''EXECUTION_PAUSED'', ''EXECUTION_RESUMED'', ''EXECUTION_COMPLETED'', ''EXECUTION_FAILED'',
      ''EXECUTION_EXPIRED'', ''RESULT_RECORDED'', ''TEST_RECORDED'', ''REVIEW_RECORDED'', ''HANDOFF_CREATED'',
      ''ARTIFACT_RECORDED'', ''WORK_ACCEPTED'', ''WORK_REJECTED'', ''DEFICIENCY_RAISED'', ''TELEMETRY_RECORDED'',
      ''MEMORY_CANDIDATE_CREATED'', ''MEMORY_VALIDATED'', ''MEMORY_PROMOTED'', ''MEMORY_SUPERSEDED'', ''MEMORY_ARCHIVED'']"

record EventAggregate =
  ea_Kind :: string
  ea_ID :: string
  ea_Version :: "int option"

record Event =
  en_Envelope :: Envelope
  en_Sequence :: int
  en_OccurredAt :: string
  en_RecordedAt :: string
  en_Type :: string
  en_Aggregate :: EventAggregate
  en_Actor :: Actor
  en_CausationID :: string
  en_CorrelationID :: string
  en_Payload :: "(string \<times> go_any) list"

definition Event_Validate :: "(string \<Rightarrow> time option) \<Rightarrow> Event \<Rightarrow> val_error option" where
  "Event_Validate parse e =
     first_some
      [header_check parse ''event'' (en_Envelope e),
       if en_Sequence e < 0 then Some (MustNotBeNegative ''sequence'') else None,
       RequireTimestamp parse ''occurredAt'' (en_OccurredAt e),
       OptionalTimestamp parse ''recordedAt'' (en_RecordedAt e),
       if en_Type e \<notin> set eventTypes then Some (EnumInvalid ''type'' (en_Type e)) else None,
       RequireEnum ''aggregate.kind'' (ea_Kind (en_Aggregate e))
         [''project'', ''work_package'', ''assignment'', ''attempt'', ''artifact'', ''issue'', ''strategy'', ''memory'',
          ''tool'', ''workflow''],
       RequireIdentifier ''aggregate.id'' (ea_ID (en_Aggregate e)),
       Actor_Validate (en_Actor e),
       OptionalIdentifier ''causationId'' (en_CausationID e),
       OptionalIdentifier ''correlationId'' (en_CorrelationID e)]"

section \<open>Results and telemetry\<close>

record ResultArtifact =
  rf_Kind :: string
  rf_ID :: string
  rf_Hash :: string
  rf_URI :: string

record ResultTest =
  rt_Name :: string
  rt_Outcome :: string
  rt_DurationMS :: "int option"

record ResultFailure =
  rl_Class :: string
  rl_Message :: string
  rl_Retryable :: "bool option"

record ResultEnvelope =
  re_Envelope :: Envelope
  re_AttemptID :: string
  re_AssignmentID :: string
  re_WorkPackageID :: string
  re_Status :: string
  re_Summary :: string
  re_Artifacts :: "ResultArtifact list"
  re_Tests :: "ResultTest list"
  re_TelemetryRef :: "Reference option"
  re_Failure :: "ResultFailure option"
  re_ProducedBy :: "Actor option"

definition artifact_check :: "nat \<Rightarrow> ResultArtifact \<Rightarrow> val_error option" where
  "artifact_check i a =
     first_some
      [RequireIdentifier (field_at ''artifacts'' i ''.kind'') (rf_Kind a), RequireIdentifier (field_at ''artifacts'' i ''.id'') (rf_ID a),
       optional_check (rf_Hash a) (RequireHash (field_at ''artifacts'' i ''.hash'') (rf_Hash a))]"

definition test_check :: "nat \<Rightarrow> ResultTest \<Rightarrow> val_error option" where
  "test_check i t =
     first_some
      [required (field_at ''tests'' i ''.name'') (rt_Name t),
       RequireEnum (field_at ''tests'' i ''.outcome'') (rt_Outcome t) [''passed'', ''failed'', ''skipped'', ''error'']]"

definition ResultEnvelope_Validate :: "(string \<Rightarrow> time option) \<Rightarrow> ResultEnvelope \<Rightarrow> val_error option" where
  "ResultEnvelope_Validate parse r =
     first_some
      [header_check parse ''result_envelope'' (re_Envelope r), RequireIdentifier ''attemptId'' (re_AttemptID r),
       RequireIdentifier ''assignmentId'' (re_AssignmentID r), RequireIdentifier ''workPackageId'' (re_WorkPackageID r),
       RequireEnum ''status'' (re_Status r) [''succeeded'', ''failed'', ''partial'', ''blocked'', ''cancelled''],
       first_err_at artifact_check 0 (re_Artifacts r), first_err_at test_check 0 (re_Tests r),
       (case re_TelemetryRef r of None \<Rightarrow> None | Some x \<Rightarrow> Reference_Validate x),
       (case re_ProducedBy r of None \<Rightarrow> None | Some a \<Rightarrow> Actor_Validate a)]"

record CallCounts =
  cl_Total :: "int option"
  cl_Local :: "int option"
  cl_Cloud :: "int option"
  cl_Retries :: "int option"

record TokenCounts =
  tc_Input :: "int option"
  tc_Output :: "int option"

record TelemetryContract =
  tl_Envelope :: Envelope
  tl_AttemptID :: string
  tl_AssignmentID :: string
  tl_MetricVersion :: string
  tl_Outcome :: string
  tl_Calls :: "CallCounts option"
  tl_Tokens :: "TokenCounts option"
  tl_CostUSD :: "go_float option"
  tl_DurationMS :: "int option"
  tl_Resources :: "(string \<times> go_any) list"
  tl_Versions :: "(string \<times> string) list"

definition Telemetry_Validate :: "(string \<Rightarrow> time option) \<Rightarrow> TelemetryContract \<Rightarrow> val_error option" where
  "Telemetry_Validate parse t =
     first_some
      [header_check parse ''telemetry'' (tl_Envelope t), RequireIdentifier ''attemptId'' (tl_AttemptID t),
       required ''metricVersion'' (tl_MetricVersion t),
       RequireEnum ''outcome'' (tl_Outcome t) [''succeeded'', ''failed'', ''partial'', ''blocked'', ''cancelled'', ''unknown'']]"

section \<open>Traces\<close>

record TraceStep =
  ts_Sequence :: "int option"
  ts_At :: string
  ts_Phase :: string
  ts_Actor :: "Actor option"
  ts_Operation :: string
  ts_Target :: "Reference option"
  ts_InputHash :: string
  ts_OutputHash :: string
  ts_Outcome :: string
  ts_ErrorClass :: string
  ts_DurationMS :: "int option"
  ts_Tokens :: "TokenCounts option"
  ts_CostUSD :: "go_float option"
  ts_Redacted :: "bool option"
  ts_Evidence :: "Reference list"

record Trace =
  tr_Envelope :: Envelope
  tr_AttemptID :: string
  tr_AssignmentID :: string
  tr_WorkPackageID :: string
  tr_RedactionVersion :: string
  tr_Truncated :: "bool option"
  tr_Steps :: "TraceStep list"

definition TraceStep_Validate :: "(string \<Rightarrow> time option) \<Rightarrow> TraceStep \<Rightarrow> val_error option" where
  "TraceStep_Validate parse s =
     first_some
      [(case ts_Sequence s of None \<Rightarrow> Some (IsRequired ''sequence'') | Some n \<Rightarrow> if n < 0 then Some (IsRequired ''sequence'') else None),
       RequireEnum ''phase'' (ts_Phase s)
         [''observe'', ''plan'', ''model'', ''tool'', ''edit'', ''test'', ''gate'', ''verify'', ''integrate''],
       RequireEnum ''outcome'' (ts_Outcome s) [''succeeded'', ''failed'', ''skipped'', ''blocked''],
       OptionalTimestamp parse ''at'' (ts_At s),
       optional_check (ts_InputHash s) (RequireHash ''inputHash'' (ts_InputHash s)),
       optional_check (ts_OutputHash s) (RequireHash ''outputHash'' (ts_OutputHash s)),
       (case ts_Actor s of None \<Rightarrow> None | Some a \<Rightarrow> map_option (Within ''actor'') (Actor_Validate a)),
       (case ts_Target s of None \<Rightarrow> None | Some x \<Rightarrow> map_option (Within ''target'') (Reference_Validate x)),
       first_err_at (\<lambda>i e. map_option (Within (field_at ''evidence'' i [])) (Reference_Validate e)) 0 (ts_Evidence s)]"

definition Trace_Validate :: "(string \<Rightarrow> time option) \<Rightarrow> Trace \<Rightarrow> val_error option" where
  "Trace_Validate parse t =
     first_some
      [header_check parse ''trace'' (tr_Envelope t), RequireIdentifier ''attemptId'' (tr_AttemptID t),
       OptionalIdentifier ''assignmentId'' (tr_AssignmentID t), OptionalIdentifier ''workPackageId'' (tr_WorkPackageID t),
       if tr_Steps t = [] then Some (IsRequired ''steps'') else None,
       first_err_at (\<lambda>i s. map_option (Within (field_at ''steps'' i [])) (TraceStep_Validate parse s)) 0 (tr_Steps t)]"

section \<open>Routing\<close>

definition decision_levels :: "string list" where
  "decision_levels = [''routine'', ''significant'', ''major'', ''critical'']"

record RoutingDecision =
  rd_Locality :: string
  rd_Tier :: string
  rd_Blocked :: bool
  rd_Reason :: string
  rd_EstimatedCostUSD :: go_float
  rd_DecisionLevel :: string
  rd_RequiresHumanApproval :: bool

definition RoutingDecision_Validate :: "RoutingDecision \<Rightarrow> val_error option" where
  "RoutingDecision_Validate d =
     first_some
      [RequireEnum ''locality'' (rd_Locality d) [''local'', ''cloud''], RequireEnum ''tier'' (rd_Tier d) [''local'', ''expert''],
       if rd_Locality d = ''local'' \<and> rd_Tier d \<noteq> ''local'' then Some (TierMismatch (rd_Locality d) (rd_Tier d)) else None,
       if rd_Locality d = ''cloud'' \<and> rd_Tier d \<noteq> ''expert'' then Some (TierMismatch (rd_Locality d) (rd_Tier d)) else None,
       if float_below 0 (rd_EstimatedCostUSD d) then Some (MustNotBeNegative ''estimatedCostUsd'') else None,
       optional_check (rd_DecisionLevel d) (RequireEnum ''decisionLevel'' (rd_DecisionLevel d) decision_levels)]"

record 'b RouteRequest =
  rq_Envelope :: Envelope
  rq_AttemptID :: string
  rq_Prompt :: string
  rq_Context :: string
  rq_Policy :: string
  rq_Budget :: "'b option"
  rq_RoutingDecision :: "RoutingDecision option"
  rq_Metadata :: "(string \<times> go_any) list"

definition RouteRequest_Validate :: "(string \<Rightarrow> time option) \<Rightarrow> 'b RouteRequest \<Rightarrow> val_error option" where
  "RouteRequest_Validate parse r =
     first_some
      [header_check parse ''route_request'' (rq_Envelope r), required ''prompt'' (rq_Prompt r),
       optional_check (rq_Policy r) (RequireEnum ''policy'' (rq_Policy r)
         [''local_only'', ''cloud_only'', ''local_first'', ''expert_first'', ''adaptive'', ''budget_constrained'']),
       (case rq_RoutingDecision r of None \<Rightarrow> None | Some d \<Rightarrow> RoutingDecision_Validate d),
       OptionalIdentifier ''attemptId'' (rq_AttemptID r)]"

record RouteResponse =
  rp_Envelope :: Envelope
  rp_RequestID :: string
  rp_Route :: string
  rp_DecisionLevel :: string
  rp_PlannerTier :: string
  rp_ExecutorTier :: string
  rp_ReviewTier :: string
  rp_RequiresHumanApproval :: bool
  rp_BlockedReason :: string
  rp_EstimatedCostUSD :: "go_float option"
  rp_Reasons :: "string list"

text \<open>The code ranges over a map of the three tiers: \<open>perm\<close> is the order it happens to take.\<close>

definition RouteResponse_Validate ::
  "(string \<Rightarrow> time option) \<Rightarrow> ((string \<times> string) list \<Rightarrow> (string \<times> string) list) \<Rightarrow> RouteResponse \<Rightarrow> val_error option" where
  "RouteResponse_Validate parse perm r =
     first_some
      [header_check parse ''route_response'' (rp_Envelope r), RequireIdentifier ''requestId'' (rp_RequestID r),
       RequireEnum ''route'' (rp_Route r) [''local'', ''hybrid'', ''cloud'', ''blocked''],
       RequireEnum ''decisionLevel'' (rp_DecisionLevel r) decision_levels,
       first_err (\<lambda>(field, tier). optional_check tier (RequireEnum field tier [''local'', ''expert'', ''none'']))
         (perm [(''plannerTier'', rp_PlannerTier r), (''executorTier'', rp_ExecutorTier r), (''reviewTier'', rp_ReviewTier r)])]"

section \<open>Named specifications\<close>

record ModelSpec =
  mo_Envelope :: Envelope
  mo_Provider :: string
  mo_Identifier :: string
  mo_ModelVersion :: string
  mo_Capabilities :: "string list"
  mo_ContextWindow :: int
  mo_ToolUse :: bool
  mo_Locality :: string
  mo_Available :: bool
  mo_CostPer1KInput :: "go_float option"
  mo_CostPer1KOut :: "go_float option"
  mo_LatencyMS :: int

definition ModelSpec_Validate :: "(string \<Rightarrow> time option) \<Rightarrow> ModelSpec \<Rightarrow> val_error option" where
  "ModelSpec_Validate parse m =
     first_some
      [header_check parse ''model_spec'' (mo_Envelope m), required ''provider'' (mo_Provider m),
       required ''identifier'' (mo_Identifier m),
       optional_check (mo_Locality m) (RequireEnum ''locality'' (mo_Locality m) [''local'', ''cloud'', ''either''])]"

record RoleSpec =
  ro_Envelope :: Envelope
  ro_Title :: string
  ro_Capabilities :: "string list"
  ro_Rules :: "string list"
  ro_Tools :: "string list"
  ro_Permissions :: "string list"
  ro_ContextExpectations :: "string list"
  ro_EvalCriteria :: "string list"
  ro_Observability :: "string list"
  ro_CostExpectation :: string

definition RoleSpec_Validate :: "(string \<Rightarrow> time option) \<Rightarrow> RoleSpec \<Rightarrow> val_error option" where
  "RoleSpec_Validate parse r = first_some [header_check parse ''role_spec'' (ro_Envelope r), required ''title'' (ro_Title r)]"

record TeamSpec =
  te_Envelope :: Envelope
  te_Title :: string
  te_Roles :: "string list"

definition TeamSpec_Validate :: "(string \<Rightarrow> time option) \<Rightarrow> TeamSpec \<Rightarrow> val_error option" where
  "TeamSpec_Validate parse t = first_some [header_check parse ''team_spec'' (te_Envelope t), required ''title'' (te_Title t)]"

record RoutineStage =
  ru_ID :: string
  ru_Title :: string
  ru_Teams :: "string list"
  ru_Roles :: "string list"
  ru_Gates :: "string list"

record Routine =
  rn_Envelope :: Envelope
  rn_Name :: string
  rn_Version :: string
  rn_Description :: string
  rn_Teams :: "string list"
  rn_Roles :: "string list"
  rn_Stages :: "RoutineStage list"
  rn_Inputs :: "string list"
  rn_Outputs :: "string list"
  rn_Observability :: "string list"

fun stages_check :: "nat \<Rightarrow> string list \<Rightarrow> RoutineStage list \<Rightarrow> val_error option" where
  "stages_check i seen [] = None"
| "stages_check i seen (s # ss) =
     (case RequireIdentifier (field_at ''stages'' i ''.id'') (ru_ID s) of Some e \<Rightarrow> Some e
      | None \<Rightarrow> if ru_ID s \<in> set seen then Some (DuplicateId (field_at ''stages'' i ''.id'') (ru_ID s))
                else stages_check (Suc i) (ru_ID s # seen) ss)"

definition Routine_Validate :: "(string \<Rightarrow> time option) \<Rightarrow> Routine \<Rightarrow> val_error option" where
  "Routine_Validate parse r =
     first_some
      [header_check parse ''routine'' (rn_Envelope r), required ''name'' (rn_Name r), required ''version'' (rn_Version r),
       if rn_Stages r = [] then Some (IsRequired ''stages'') else None, stages_check 0 [] (rn_Stages r)]"

section \<open>What valid contracts satisfy\<close>

lemma stages_check_ids:
  "stages_check i seen ss = None \<Longrightarrow>
     distinct (map ru_ID ss) \<and> set (map ru_ID ss) \<inter> set seen = {} \<and> [] \<notin> set (map ru_ID ss)"
  by (induction i seen ss rule: stages_check.induct)
    (auto simp: RequireIdentifier_def split: if_splits)

lemma valid_event_type:
  "Event_Validate parse e = None \<Longrightarrow> en_Type e \<in> set eventTypes \<and> 0 \<le> en_Sequence e \<and> ea_ID (en_Aggregate e) \<noteq> []"
  by (auto simp: Event_Validate_def first_some_None_iff RequireIdentifier_def split: if_splits)

end
