(* ===== verification/ContractRecords.thy ===== *)
theory ContractRecords
  imports Contracts
begin

text \<open>
  \<open>contracts/go/v2\<close>: tool manifests, execution contracts, work packages, task graphs, work plans and
  execution plans with their \<open>Validate\<close> methods. The cost bound of a budget is a float that no check
  looks at: the budget's type is a parameter.
\<close>

section \<open>Tool manifests\<close>

record SandboxSpec =
  sb_Required :: bool
  sb_Kind :: string
  sb_Network :: bool

record ToolManifest =
  tm_Envelope :: Envelope
  tm_Name :: string
  tm_ToolKind :: string
  tm_Version :: string
  tm_Description :: string
  tm_Capabilities :: "string list"
  tm_Permissions :: "string list"
  tm_InputSchema :: "config option"
  tm_OutputSchema :: "config option"
  tm_Sandbox :: "SandboxSpec option"
  tm_Endpoint :: string

definition ToolManifest_Validate :: "(string \<Rightarrow> time option) \<Rightarrow> ToolManifest \<Rightarrow> val_error option" where
  "ToolManifest_Validate parse t =
     first_some
      [header_check parse ''tool_manifest'' (tm_Envelope t),
       if tm_Name t = [] then Some (IsRequired ''name'') else None,
       RequireEnum ''toolKind'' (tm_ToolKind t) [''tool'', ''plugin'', ''mcp'', ''builtin''],
       if tm_Version t = [] then Some (IsRequired ''version'') else None,
       if tm_Capabilities t = [] then Some (IsRequired ''capabilities'') else None]"

section \<open>Execution contracts\<close>

definition contract_capabilities :: "string list" where
  "contract_capabilities =
     [''read_project'', ''write_workspace'', ''execute_command'', ''run_tests'', ''network_access'',
      ''install_dependencies'', ''call_model'', ''read_secrets'', ''create_artifact'',
      ''open_pull_request'', ''merge'', ''deploy'']"

record RuntimeSpec =
  rs_Kind :: string
  rs_Provider :: string
  rs_Model :: string
  rs_NodeID :: string

record WorkspaceSpec =
  wk_Required :: bool
  wk_Kind :: string
  wk_Root :: string

record 'b ExecutionContract =
  ec_Envelope :: Envelope
  ec_WorkPackageID :: string
  ec_AssignmentID :: string
  ec_Capabilities :: "string list"
  ec_Denied :: "string list"
  ec_Runtime :: "RuntimeSpec option"
  ec_Workspace :: "WorkspaceSpec option"
  ec_Budget :: 'b
  ec_Gates :: "string list"
  ec_ExpiresAt :: string
  ec_Digest :: string

definition capability_check :: "string \<Rightarrow> nat \<Rightarrow> string \<Rightarrow> val_error option" where
  "capability_check field i cap =
     (if cap \<notin> set contract_capabilities then Some (UnknownCapability (field_at field i []) cap) else None)"

definition ExecutionContract_Validate ::
  "(string \<Rightarrow> time option) \<Rightarrow> 'b ExecutionContract \<Rightarrow> val_error option" where
  "ExecutionContract_Validate parse c =
     first_some
      [header_check parse ''execution_contract'' (ec_Envelope c),
       RequireIdentifier ''workPackageId'' (ec_WorkPackageID c),
       RequireIdentifier ''assignmentId'' (ec_AssignmentID c),
       first_err_at (capability_check ''capabilities'') 0 (ec_Capabilities c),
       first_err_at (capability_check ''denied'') 0 (ec_Denied c),
       OptionalTimestamp parse ''expiresAt'' (ec_ExpiresAt c),
       if ec_Digest c \<noteq> [] then RequireHash ''digest'' (ec_Digest c) else None]"

section \<open>Work packages\<close>

record Scope =
  sc_Allowed :: "string list"
  sc_Inspect :: "string list"
  sc_Forbidden :: "string list"

record 'b WorkPackageContract =
  wc_Envelope :: Envelope
  wc_Title :: string
  wc_Description :: string
  wc_State :: string
  wc_Role :: string
  wc_Dependencies :: "string list"
  wc_Inputs :: "Reference list"
  wc_Deliverables :: "string list"
  wc_Acceptance :: "string list"
  wc_Scope :: "Scope option"
  wc_Budget :: "'b option"
  wc_Risk :: string

definition WorkPackage_Validate :: "(string \<Rightarrow> time option) \<Rightarrow> 'b WorkPackageContract \<Rightarrow> val_error option" where
  "WorkPackage_Validate parse w =
     first_some
      [header_check parse ''work_package'' (wc_Envelope w),
       if wc_Title w = [] then Some (IsRequired ''title'') else None,
       WorkPackageState_Validate (wc_State w),
       if wc_Acceptance w = [] then Some (IsRequired ''acceptance'') else None,
       first_err_at (\<lambda>i d. RequireIdentifier (field_at ''dependencies'' i []) d) 0 (wc_Dependencies w),
       first_err_at (\<lambda>i r. map_option (Within (field_at ''inputs'' i [])) (Reference_Validate r)) 0 (wc_Inputs w),
       if wc_Risk w \<noteq> [] then RequireEnum ''risk'' (wc_Risk w) [''low'', ''moderate'', ''high'', ''critical''] else None]"

section \<open>Task graphs\<close>

record TaskGraphNode =
  tn_WorkPackageID :: string
  tn_DependsOn :: "string list"
  tn_Readiness :: string

record TaskGraph =
  tg_Envelope :: Envelope
  tg_Nodes :: "TaskGraphNode list"
  tg_Digest :: string

definition TaskGraphNode_check :: "nat \<Rightarrow> TaskGraphNode \<Rightarrow> val_error option" where
  "TaskGraphNode_check i n =
     first_some
      [RequireIdentifier (field_at ''nodes'' i ''.workPackageId'') (tn_WorkPackageID n),
       map_option (Within (field_at ''nodes'' i [])) (ReadinessState_Validate (tn_Readiness n)),
       first_err_at (\<lambda>j d. RequireIdentifier (field_at ''nodes'' i (field_at ''.dependsOn'' j [])) d) 0 (tn_DependsOn n)]"

definition TaskGraph_Validate :: "(string \<Rightarrow> time option) \<Rightarrow> TaskGraph \<Rightarrow> val_error option" where
  "TaskGraph_Validate parse g =
     first_some
      [header_check parse ''task_graph'' (tg_Envelope g),
       RequireIdentifier ''projectId'' (ev_ProjectID (tg_Envelope g)),
       (case ev_Revision (tg_Envelope g) of None \<Rightarrow> Some (MustNotBeNegative ''revision'')
        | Some r \<Rightarrow> if r < 0 then Some (MustNotBeNegative ''revision'') else None),
       if tg_Nodes g = [] then Some (IsRequired ''nodes'') else None,
       first_err_at TaskGraphNode_check 0 (tg_Nodes g),
       if tg_Digest g \<noteq> [] then RequireHash ''digest'' (tg_Digest g) else None]"

section \<open>Work plans and execution plans\<close>

record WorkUnit =
  wu_ID :: string
  wu_Title :: string
  wu_Outputs :: "string list"
  wu_Completion :: "string list"
  wu_DependsOn :: "string list"

record WorkPlan =
  wp_Envelope :: Envelope
  wp_SourceWorkflow :: "Reference option"
  wp_Units :: "WorkUnit list"
  wp_Constraints :: "string list"

fun units_check :: "nat \<Rightarrow> string list \<Rightarrow> WorkUnit list \<Rightarrow> val_error option" where
  "units_check i seen [] = None"
| "units_check i seen (u # us) =
     first_some
      [RequireIdentifier (field_at ''units'' i ''.id'') (wu_ID u),
       if wu_ID u \<in> set seen then Some (DuplicateId (field_at ''units'' i ''.id'') (wu_ID u)) else None,
       units_check (Suc i) (wu_ID u # seen) us]"

definition WorkPlan_Validate :: "(string \<Rightarrow> time option) \<Rightarrow> WorkPlan \<Rightarrow> val_error option" where
  "WorkPlan_Validate parse w =
     first_some
      [header_check parse ''work_plan'' (wp_Envelope w),
       if wp_Units w = [] then Some (IsRequired ''units'') else None,
       units_check 0 [] (wp_Units w)]"

record PlanAssignment =
  pa_Role :: string
  pa_Model :: string
  pa_Workers :: int

record 'b ExecutionPlan =
  ep_Envelope :: Envelope
  ep_WorkPlan :: "Reference option"
  ep_Assignments :: "PlanAssignment list"
  ep_Budget :: "'b option"
  ep_Concurrency :: int
  ep_Placement :: "string list"
  ep_Constraints :: "string list"

definition PlanAssignment_check :: "nat \<Rightarrow> PlanAssignment \<Rightarrow> val_error option" where
  "PlanAssignment_check i a =
     first_some
      [OptionalIdentifier (field_at ''assignments'' i ''.role'') (pa_Role a),
       if pa_Workers a < 0 then Some (MustNotBeNegative (field_at ''assignments'' i ''.workers'')) else None]"

definition ExecutionPlan_Validate :: "(string \<Rightarrow> time option) \<Rightarrow> 'b ExecutionPlan \<Rightarrow> val_error option" where
  "ExecutionPlan_Validate parse p =
     first_some
      [header_check parse ''execution_plan'' (ep_Envelope p),
       first_err_at PlanAssignment_check 0 (ep_Assignments p),
       if ep_Concurrency p < 0 then Some (MustNotBeNegative ''concurrency'') else None]"

text \<open>Unlike task graphs, work plans have distinct, well-formed ids.\<close>

lemma units_check_ids:
  "units_check i seen us = None \<Longrightarrow>
     distinct (map wu_ID us) \<and> set (map wu_ID us) \<inter> set seen = {} \<and> [] \<notin> set (map wu_ID us)"
  by (induction i seen us rule: units_check.induct) (auto simp: RequireIdentifier_def split: if_splits)

end
