(* ===== verification/MemoryRepo.thy ===== *)
theory MemoryRepo
  imports MemoryStore ContractEvidence ContractRecords
begin

text \<open>
  \<open>memory/repo\<close>: typed repositories over the store, each writing through \<open>putTyped\<close> into the store and its
  projection. Encoding and decoding one type in JSON is a \<open>Codec\<close>; fresh ids and the current time are
  arguments. Memory records and strategies share their operations: \<open>memory.go\<close> and \<open>strategy.go\<close> are the
  same code at two types, described by a \<open>LifecycleKind\<close>.
\<close>

section \<open>Typed access\<close>

record 'a Codec =
  cd_enc :: "'a \<Rightarrow> string option"
  cd_dec :: "string \<Rightarrow> 'a option"

record MemState =
  ms_store :: Store
  ms_proj :: "Projection option"

datatype repo_error =
    RepoStore store_error
  | RepoEncode
  | RepoDecode
  | RepoContract val_error
  | RepoExists string
  | RepoIdRequired
  | RepoNotCandidate string
  | RepoTransition string string
  | RepoSelfSupersede
  | RepoFieldsRequired
  | RepoNegativeAttempt
  | RepoDecisionInvalid
  | RepoActorRequired
  | RepoDecidedAt

definition putTyped ::
  "StoreEnv \<Rightarrow> 'a Codec \<Rightarrow> string \<Rightarrow> string \<Rightarrow> int \<Rightarrow> 'a \<Rightarrow> MemState \<Rightarrow> MemState \<times> (repo_error + bool)" where
  "putTyped E cd kind rid revision v m =
     (case cd_enc cd v of None \<Rightarrow> (m, Err RepoEncode) | Some data \<Rightarrow>
      (case NewRecord E kind rid revision data of Inl e \<Rightarrow> (m, Err (RepoStore e)) | Inr rec \<Rightarrow>
       (case PutRecord E rec (ms_store m) of
          (s1, Inl e) \<Rightarrow> (m\<lparr>ms_store := s1\<rparr>, Err (RepoStore e))
        | (s1, Inr changed) \<Rightarrow>
            (m\<lparr>ms_store := s1,
               ms_proj := (case ms_proj m of None \<Rightarrow> None
                 | Some p \<Rightarrow> if changed then Some (fst (proj_Put rec p)) else Some p)\<rparr>, Ok changed))))"

definition getTyped :: "'a Codec \<Rightarrow> string \<Rightarrow> string \<Rightarrow> MemState \<Rightarrow> repo_error + 'a" where
  "getTyped cd kind rid m =
     (case GetRecord kind rid (ms_store m) of Inl e \<Rightarrow> Err (RepoStore e)
      | Inr rec \<Rightarrow> (case cd_dec cd (sr_Data rec) of None \<Rightarrow> Err RepoDecode | Some v \<Rightarrow> Ok v))"

definition revisionOf :: "string \<Rightarrow> string \<Rightarrow> MemState \<Rightarrow> int" where
  "revisionOf kind rid m = (case GetRecord kind rid (ms_store m) of Inl _ \<Rightarrow> 0 | Inr rec \<Rightarrow> sr_Revision rec)"

text \<open>Read a type with the check its repository applies.\<close>

definition getChecked :: "'a Codec \<Rightarrow> ('a \<Rightarrow> repo_error option) \<Rightarrow> string \<Rightarrow> string \<Rightarrow> MemState \<Rightarrow> repo_error + 'a" where
  "getChecked cd check kind rid m =
     (case getTyped cd kind rid m of Inl e \<Rightarrow> Err e
      | Inr v \<Rightarrow> (case check v of Some e \<Rightarrow> Err e | None \<Rightarrow> Ok v))"

fun decode_all :: "'a Codec \<Rightarrow> ('a \<Rightarrow> repo_error option) \<Rightarrow> StoreRecord list \<Rightarrow> repo_error + 'a list" where
  "decode_all cd check [] = Ok []"
| "decode_all cd check (rec # recs) =
     (case cd_dec cd (sr_Data rec) of None \<Rightarrow> Err RepoDecode | Some v \<Rightarrow>
      (case check v of Some e \<Rightarrow> Err e | None \<Rightarrow>
       (case decode_all cd check recs of Inl e \<Rightarrow> Err e | Inr vs \<Rightarrow> Ok (v # vs))))"

definition listChecked :: "'a Codec \<Rightarrow> ('a \<Rightarrow> repo_error option) \<Rightarrow> string \<Rightarrow> MemState \<Rightarrow> repo_error + 'a list" where
  "listChecked cd check kind m =
     (case ListRecords kind (ms_store m) of Inl e \<Rightarrow> Err (RepoStore e) | Inr recs \<Rightarrow> decode_all cd check recs)"

abbreviation no_check :: "'a \<Rightarrow> repo_error option" where "no_check \<equiv> \<lambda>_. None"

definition filter_list :: "('a \<Rightarrow> bool) \<Rightarrow> repo_error + 'a list \<Rightarrow> repo_error + 'a list" where
  "filter_list P r = (case r of Inl e \<Rightarrow> Err e | Inr vs \<Rightarrow> Ok (filter P vs))"

definition contract_check :: "val_error option \<Rightarrow> repo_error option" where
  "contract_check = map_option RepoContract"

section \<open>The memory lifecycle\<close>

definition lifecycle_next :: "string \<Rightarrow> string list" where
  "lifecycle_next from_state =
     (if from_state = ''EPHEMERAL'' then [''CANDIDATE'', ''ARCHIVED'']
      else if from_state = ''CANDIDATE'' then [''VALIDATED'', ''ARCHIVED'']
      else if from_state = ''VALIDATED'' then [''ACTIVE'', ''ARCHIVED'']
      else if from_state = ''ACTIVE'' then [''SUPERSEDED'', ''ARCHIVED'']
      else if from_state = ''SUPERSEDED'' then [''ARCHIVED'']
      else [])"

definition CanTransition :: "string \<Rightarrow> string \<Rightarrow> bool" where
  "CanTransition from_state to_state \<longleftrightarrow> from_state = to_state \<or> to_state \<in> set (lifecycle_next from_state)"

definition Transition :: "string \<Rightarrow> string \<Rightarrow> repo_error + string" where
  "Transition from_state to_state =
     (if from_state = to_state then Ok to_state
      else if to_state \<notin> set (lifecycle_next from_state) then Err (RepoTransition from_state to_state)
      else Ok to_state)"

text \<open>What differs between memory records and strategies: the kind, the codec, the check, and the fields.\<close>

record 'a LifecycleKind =
  lk_kind :: string
  lk_codec :: "'a Codec"
  lk_validate :: "'a \<Rightarrow> val_error option"
  lk_env :: "'a \<Rightarrow> Envelope"
  lk_set_env :: "Envelope \<Rightarrow> 'a \<Rightarrow> 'a"
  lk_lifecycle :: "'a \<Rightarrow> string"
  lk_set_lifecycle :: "string \<Rightarrow> 'a \<Rightarrow> 'a"
  lk_set_supersedes :: "string \<Rightarrow> 'a \<Rightarrow> 'a"

definition set_revision :: "'a LifecycleKind \<Rightarrow> int \<Rightarrow> 'a \<Rightarrow> 'a" where
  "set_revision K revn v = lk_set_env K ((lk_env K v)\<lparr>ev_Revision := Some revn\<rparr>) v"

definition default_version :: string where "default_version = ''2.0''"

text \<open>The header \<open>Propose\<close> and \<open>Create\<close> give a record: version and id default, the kind is fixed, the revision is 1.\<close>

definition new_envelope :: "string \<Rightarrow> string \<Rightarrow> Envelope \<Rightarrow> Envelope" where
  "new_envelope kind fresh e =
     e\<lparr>ev_ContractVersion := (if ev_ContractVersion e = [] then default_version else ev_ContractVersion e),
       ev_Kind := kind, ev_ID := (if ev_ID e = [] then fresh else ev_ID e), ev_Revision := Some 1\<rparr>"

definition store_valid ::
  "StoreEnv \<Rightarrow> 'a LifecycleKind \<Rightarrow> string \<Rightarrow> int \<Rightarrow> 'a \<Rightarrow> MemState \<Rightarrow> MemState \<times> (repo_error + 'a)" where
  "store_valid E K rid revn v m =
     (case lk_validate K v of Some e \<Rightarrow> (m, Err (RepoContract e)) | None \<Rightarrow>
      (case putTyped E (lk_codec K) (lk_kind K) rid revn v m of (m1, Inl e) \<Rightarrow> (m1, Err e) | (m1, Inr _) \<Rightarrow> (m1, Ok v)))"

definition Propose :: "StoreEnv \<Rightarrow> 'a LifecycleKind \<Rightarrow> string \<Rightarrow> 'a \<Rightarrow> MemState \<Rightarrow> MemState \<times> (repo_error + 'a)" where
  "Propose E K fresh v0 m =
     (let v1 = (if lk_lifecycle K v0 = [] then lk_set_lifecycle K ''CANDIDATE'' v0 else v0) in
      if lk_lifecycle K v1 \<noteq> ''CANDIDATE'' then (m, Err (RepoNotCandidate (lk_lifecycle K v1)))
      else (let v = lk_set_env K (new_envelope (lk_kind K) fresh (lk_env K v1)) v1
            in store_valid E K (ev_ID (lk_env K v)) 1 v m))"

definition lc_Get :: "'a LifecycleKind \<Rightarrow> string \<Rightarrow> MemState \<Rightarrow> repo_error + 'a" where
  "lc_Get K rid m = getTyped (lk_codec K) (lk_kind K) rid m"

definition lc_List :: "'a LifecycleKind \<Rightarrow> MemState \<Rightarrow> repo_error + 'a list" where
  "lc_List K m = listChecked (lk_codec K) no_check (lk_kind K) m"

definition lc_Transition ::
  "StoreEnv \<Rightarrow> 'a LifecycleKind \<Rightarrow> string \<Rightarrow> string \<Rightarrow> MemState \<Rightarrow> MemState \<times> (repo_error + 'a)" where
  "lc_Transition E K rid to_state m =
     (case lc_Get K rid m of Inl e \<Rightarrow> (m, Err e) | Inr v \<Rightarrow>
      (case Transition (lk_lifecycle K v) to_state of Inl e \<Rightarrow> (m, Err e) | Inr _ \<Rightarrow>
       if lk_lifecycle K v = to_state then (m, Ok v)
       else (let revn = revisionOf (lk_kind K) rid m + 1; v1 = set_revision K revn (lk_set_lifecycle K to_state v)
             in store_valid E K (ev_ID (lk_env K v1)) revn v1 m)))"

definition Supersede ::
  "StoreEnv \<Rightarrow> 'a LifecycleKind \<Rightarrow> string \<Rightarrow> string \<Rightarrow> MemState \<Rightarrow> MemState \<times> repo_error option" where
  "Supersede E K oldID newID m =
     (if oldID = newID then (m, Some RepoSelfSupersede)
      else (case lc_Transition E K oldID ''SUPERSEDED'' m of (m1, Inl e) \<Rightarrow> (m1, Some e) | (m1, Inr _) \<Rightarrow>
        (case lc_Get K newID m1 of Inl e \<Rightarrow> (m1, Some e) | Inr v \<Rightarrow>
         (let revn = revisionOf (lk_kind K) newID m1 + 1; v1 = set_revision K revn (lk_set_supersedes K oldID v)
          in (case store_valid E K (ev_ID (lk_env K v1)) revn v1 m1 of
              (m2, Inl e) \<Rightarrow> (m2, Some e) | (m2, Inr _) \<Rightarrow> (m2, None))))))"

section \<open>Memory records and strategies\<close>

definition memory_kind :: "(string \<Rightarrow> time option) \<Rightarrow> MemoryRecord Codec \<Rightarrow> MemoryRecord LifecycleKind" where
  "memory_kind parse cd =
     \<lparr>lk_kind = ''memory_record'', lk_codec = cd, lk_validate = MemoryRecord_Validate parse, lk_env = mr_Envelope,
      lk_set_env = (\<lambda>e v. v\<lparr>mr_Envelope := e\<rparr>), lk_lifecycle = mr_Lifecycle,
      lk_set_lifecycle = (\<lambda>l v. v\<lparr>mr_Lifecycle := l\<rparr>), lk_set_supersedes = (\<lambda>i v. v\<lparr>mr_Supersedes := i\<rparr>)\<rparr>"

definition strategy_kind :: "(string \<Rightarrow> time option) \<Rightarrow> Strategy Codec \<Rightarrow> Strategy LifecycleKind" where
  "strategy_kind parse cd =
     \<lparr>lk_kind = ''strategy'', lk_codec = cd, lk_validate = Strategy_Validate parse, lk_env = sg_Envelope,
      lk_set_env = (\<lambda>e v. v\<lparr>sg_Envelope := e\<rparr>), lk_lifecycle = sg_Lifecycle,
      lk_set_lifecycle = (\<lambda>l v. v\<lparr>sg_Lifecycle := l\<rparr>), lk_set_supersedes = (\<lambda>i v. v\<lparr>sg_Supersedes := i\<rparr>)\<rparr>"

text \<open>The strategy repository is the same code at the other kind.\<close>

definition Strategy_Propose ::
  "StoreEnv \<Rightarrow> (string \<Rightarrow> time option) \<Rightarrow> Strategy Codec \<Rightarrow> string \<Rightarrow> Strategy \<Rightarrow> MemState \<Rightarrow>
     MemState \<times> (repo_error + Strategy)" where
  "Strategy_Propose E parse cd = Propose E (strategy_kind parse cd)"

definition Strategy_Get :: "(string \<Rightarrow> time option) \<Rightarrow> Strategy Codec \<Rightarrow> string \<Rightarrow> MemState \<Rightarrow> repo_error + Strategy" where
  "Strategy_Get parse cd = lc_Get (strategy_kind parse cd)"

definition Strategy_List :: "(string \<Rightarrow> time option) \<Rightarrow> Strategy Codec \<Rightarrow> MemState \<Rightarrow> repo_error + Strategy list" where
  "Strategy_List parse cd = lc_List (strategy_kind parse cd)"

definition Strategy_Transition ::
  "StoreEnv \<Rightarrow> (string \<Rightarrow> time option) \<Rightarrow> Strategy Codec \<Rightarrow> string \<Rightarrow> string \<Rightarrow> MemState \<Rightarrow>
     MemState \<times> (repo_error + Strategy)" where
  "Strategy_Transition E parse cd = lc_Transition E (strategy_kind parse cd)"

definition Strategy_Supersede ::
  "StoreEnv \<Rightarrow> (string \<Rightarrow> time option) \<Rightarrow> Strategy Codec \<Rightarrow> string \<Rightarrow> string \<Rightarrow> MemState \<Rightarrow>
     MemState \<times> repo_error option" where
  "Strategy_Supersede E parse cd = Supersede E (strategy_kind parse cd)"

definition Memory_ListByLifecycle ::
  "(string \<Rightarrow> time option) \<Rightarrow> MemoryRecord Codec \<Rightarrow> string \<Rightarrow> MemState \<Rightarrow> repo_error + MemoryRecord list" where
  "Memory_ListByLifecycle parse cd l m =
     (case contract_check (MemoryLifecycle_Validate l) of Some e \<Rightarrow> Err e
      | None \<Rightarrow> filter_list (\<lambda>r. mr_Lifecycle r = l) (lc_List (memory_kind parse cd) m))"

definition Strategy_ListActive ::
  "(string \<Rightarrow> time option) \<Rightarrow> Strategy Codec \<Rightarrow> MemState \<Rightarrow> repo_error + Strategy list" where
  "Strategy_ListActive parse cd m = filter_list (\<lambda>s. sg_Lifecycle s = ''ACTIVE'') (lc_List (strategy_kind parse cd) m)"

section \<open>Issues and traces\<close>

definition Issue_Create ::
  "StoreEnv \<Rightarrow> (string \<Rightarrow> time option) \<Rightarrow> Issue Codec \<Rightarrow> string \<Rightarrow> Issue \<Rightarrow> MemState \<Rightarrow> MemState \<times> (repo_error + Issue)" where
  "Issue_Create E parse cd fresh i0 m =
     (let i = i0\<lparr>is_Envelope := new_envelope ''issue'' fresh (is_Envelope i0),
                is_Status := (if is_Status i0 = [] then ''open'' else is_Status i0)\<rparr>
      in (case Issue_Validate parse i of Some e \<Rightarrow> (m, Err (RepoContract e)) | None \<Rightarrow>
          (case putTyped E cd ''issue'' (ev_ID (is_Envelope i)) 1 i m of (m1, Inl e) \<Rightarrow> (m1, Err e) | (m1, Inr _) \<Rightarrow> (m1, Ok i))))"

definition Issue_Get :: "Issue Codec \<Rightarrow> string \<Rightarrow> MemState \<Rightarrow> repo_error + Issue" where
  "Issue_Get cd rid m = getTyped cd ''issue'' rid m"

definition Issue_List :: "Issue Codec \<Rightarrow> MemState \<Rightarrow> repo_error + Issue list" where
  "Issue_List cd m = listChecked cd no_check ''issue'' m"

definition Issue_SetStatus ::
  "StoreEnv \<Rightarrow> (string \<Rightarrow> time option) \<Rightarrow> Issue Codec \<Rightarrow> string \<Rightarrow> string \<Rightarrow> MemState \<Rightarrow> MemState \<times> (repo_error + Issue)" where
  "Issue_SetStatus E parse cd rid status m =
     (case Issue_Get cd rid m of Inl e \<Rightarrow> (m, Err e) | Inr i0 \<Rightarrow>
      if is_Status i0 = status then (m, Ok i0)
      else (case contract_check (IssueState_Validate status) of Some e \<Rightarrow> (m, Err e) | None \<Rightarrow>
        (let revn = revisionOf ''issue'' rid m + 1;
             i = i0\<lparr>is_Status := status, is_Envelope := (is_Envelope i0)\<lparr>ev_Revision := Some revn\<rparr>\<rparr>
         in (case Issue_Validate parse i of Some e \<Rightarrow> (m, Err (RepoContract e)) | None \<Rightarrow>
             (case putTyped E cd ''issue'' (ev_ID (is_Envelope i)) revn i m of
                (m1, Inl e) \<Rightarrow> (m1, Err e) | (m1, Inr _) \<Rightarrow> (m1, Ok i))))))"

definition Trace_Ingest ::
  "StoreEnv \<Rightarrow> (string \<Rightarrow> time option) \<Rightarrow> Trace Codec \<Rightarrow> string \<Rightarrow> Trace \<Rightarrow> MemState \<Rightarrow>
     MemState \<times> (repo_error + Trace \<times> bool)" where
  "Trace_Ingest E parse cd fresh t0 m =
     (let e0 = tr_Envelope t0; revn = (case ev_Revision e0 of None \<Rightarrow> 1 | Some r \<Rightarrow> r);
          t = t0\<lparr>tr_Envelope := e0\<lparr>ev_Kind := ''trace'', ev_ID := (if ev_ID e0 = [] then fresh else ev_ID e0),
                                    ev_Revision := Some revn\<rparr>\<rparr>
      in (case Trace_Validate parse t of Some e \<Rightarrow> (m, Err (RepoContract e)) | None \<Rightarrow>
          (case putTyped E cd ''trace'' (ev_ID (tr_Envelope t)) revn t m of
             (m1, Inl e) \<Rightarrow> (m1, Err e) | (m1, Inr changed) \<Rightarrow> (m1, Ok (t, changed)))))"

definition Trace_Get :: "Trace Codec \<Rightarrow> string \<Rightarrow> MemState \<Rightarrow> repo_error + Trace" where
  "Trace_Get cd rid m = getTyped cd ''trace'' rid m"

definition Trace_List :: "Trace Codec \<Rightarrow> MemState \<Rightarrow> repo_error + Trace list" where
  "Trace_List cd m =
     (case listChecked cd no_check ''trace'' m of Inl e \<Rightarrow> Err e
      | Inr ts \<Rightarrow> Ok (sort_key (\<lambda>t. ev_ID (tr_Envelope t)) ts))"

definition Trace_ListByAttempt :: "Trace Codec \<Rightarrow> string \<Rightarrow> MemState \<Rightarrow> repo_error + Trace list" where
  "Trace_ListByAttempt cd attempt m =
     (case RequireIdentifier ''attemptId'' attempt of Some e \<Rightarrow> Err (RepoContract e)
      | None \<Rightarrow> filter_list (\<lambda>t. tr_AttemptID t = attempt) (Trace_List cd m))"

definition Trace_ListByProject :: "Trace Codec \<Rightarrow> string \<Rightarrow> MemState \<Rightarrow> repo_error + Trace list" where
  "Trace_ListByProject cd project m =
     (case RequireIdentifier ''projectId'' project of Some e \<Rightarrow> Err (RepoContract e)
      | None \<Rightarrow> filter_list (\<lambda>t. ev_ProjectID (tr_Envelope t) = project) (Trace_List cd m))"

section \<open>Projects\<close>

definition Project_Get ::
  "(string \<Rightarrow> time option) \<Rightarrow> ProjectRecord Codec \<Rightarrow> string \<Rightarrow> MemState \<Rightarrow> repo_error + ProjectRecord" where
  "Project_Get parse cd rid m = getChecked cd (contract_check \<circ> ProjectRecord_Validate parse) ''project_record'' rid m"

definition Project_List ::
  "(string \<Rightarrow> time option) \<Rightarrow> ProjectRecord Codec \<Rightarrow> MemState \<Rightarrow> repo_error + ProjectRecord list" where
  "Project_List parse cd m = listChecked cd (contract_check \<circ> ProjectRecord_Validate parse) ''project_record'' m"

definition new_project :: "string \<Rightarrow> string \<Rightarrow> ProjectRecord" where
  "new_project rid name =
     \<lparr>pr_Envelope = \<lparr>ev_ContractVersion = default_version, ev_Kind = ''project_record'', ev_ID = rid, ev_ProjectID = [],
        ev_CreatedAt = [], ev_Revision = Some 1, ev_Provenance = None\<rparr>,
      pr_Name = name, pr_State = ''CREATED'', pr_LayoutVersion = ''1'', pr_AuthorityID = [], pr_ReplicaIDs = [],
      pr_Records = [], pr_Digest = []\<rparr>"

definition Project_Create ::
  "StoreEnv \<Rightarrow> (string \<Rightarrow> time option) \<Rightarrow> ProjectRecord Codec \<Rightarrow> string \<Rightarrow> string \<Rightarrow> MemState \<Rightarrow>
     MemState \<times> (repo_error + ProjectRecord)" where
  "Project_Create E parse cd rid name m =
     (if rid = [] then (m, Err RepoIdRequired)
      else (case Project_Get parse cd rid m of
        Inr _ \<Rightarrow> (m, Err (RepoExists rid))
      | Inl e \<Rightarrow>
          if e \<noteq> RepoStore StNotFound then (m, Err e)
          else (let record = new_project rid name in
            (case ProjectRecord_Validate parse record of Some e1 \<Rightarrow> (m, Err (RepoContract e1)) | None \<Rightarrow>
             (case putTyped E cd ''project_record'' rid 1 record m of
                (m1, Inl e1) \<Rightarrow> (m1, Err e1) | (m1, Inr _) \<Rightarrow> (m1, Ok record))))))"

section \<open>Work packages\<close>

record 'b WorkPackageRecord = "'b WorkPackageContract" +
  wc_Capabilities :: "string list"

definition DefaultAcceptance :: "string list" where
  "DefaultAcceptance = [''Work package is implemented and verified.'']"

definition work_check :: "(string \<Rightarrow> time option) \<Rightarrow> 'b WorkPackageRecord \<Rightarrow> repo_error option" where
  "work_check parse w = contract_check (WorkPackage_Validate parse (WorkPackageContract.truncate w))"

definition Work_Create ::
  "StoreEnv \<Rightarrow> (string \<Rightarrow> time option) \<Rightarrow> 'b WorkPackageRecord Codec \<Rightarrow> string \<Rightarrow> 'b WorkPackageRecord \<Rightarrow> MemState \<Rightarrow>
     MemState \<times> (repo_error + 'b WorkPackageRecord)" where
  "Work_Create E parse cd fresh w0 m =
     (let w = w0\<lparr>wc_Envelope := new_envelope ''work_package'' fresh (wc_Envelope w0),
                wc_State := (if wc_State w0 = [] then ''PROPOSED'' else wc_State w0),
                wc_Acceptance := (if wc_Acceptance w0 = [] then DefaultAcceptance else wc_Acceptance w0)\<rparr>
      in (case work_check parse w of Some e \<Rightarrow> (m, Err e) | None \<Rightarrow>
          (case putTyped E cd ''work_package'' (ev_ID (wc_Envelope w)) 1 w m of
             (m1, Inl e) \<Rightarrow> (m1, Err e) | (m1, Inr _) \<Rightarrow> (m1, Ok w))))"

definition Work_Get ::
  "(string \<Rightarrow> time option) \<Rightarrow> 'b WorkPackageRecord Codec \<Rightarrow> string \<Rightarrow> MemState \<Rightarrow> repo_error + 'b WorkPackageRecord" where
  "Work_Get parse cd rid m = getChecked cd (work_check parse) ''work_package'' rid m"

definition Work_List ::
  "(string \<Rightarrow> time option) \<Rightarrow> 'b WorkPackageRecord Codec \<Rightarrow> MemState \<Rightarrow> repo_error + 'b WorkPackageRecord list" where
  "Work_List parse cd m = listChecked cd (work_check parse) ''work_package'' m"

definition Work_ListByProject ::
  "(string \<Rightarrow> time option) \<Rightarrow> 'b WorkPackageRecord Codec \<Rightarrow> string \<Rightarrow> MemState \<Rightarrow> repo_error + 'b WorkPackageRecord list" where
  "Work_ListByProject parse cd project m = filter_list (\<lambda>w. ev_ProjectID (wc_Envelope w) = project) (Work_List parse cd m)"

definition Work_UpdateState ::
  "StoreEnv \<Rightarrow> (string \<Rightarrow> time option) \<Rightarrow> 'b WorkPackageRecord Codec \<Rightarrow> string \<Rightarrow> string \<Rightarrow> MemState \<Rightarrow>
     MemState \<times> (repo_error + 'b WorkPackageRecord)" where
  "Work_UpdateState E parse cd rid state m =
     (case Work_Get parse cd rid m of Inl e \<Rightarrow> (m, Err e) | Inr w0 \<Rightarrow>
      (case contract_check (WorkPackageState_Validate state) of Some e \<Rightarrow> (m, Err e) | None \<Rightarrow>
       if wc_State w0 = state then (m, Ok w0)
       else (let revn = revisionOf ''work_package'' rid m + 1;
                 w = w0\<lparr>wc_State := state, wc_Envelope := (wc_Envelope w0)\<lparr>ev_Revision := Some revn\<rparr>\<rparr>
             in (case work_check parse w of Some e \<Rightarrow> (m, Err e) | None \<Rightarrow>
                 (case putTyped E cd ''work_package'' rid revn w m of
                    (m1, Inl e) \<Rightarrow> (m1, Err e) | (m1, Inr _) \<Rightarrow> (m1, Ok w))))))"

section \<open>Assignments\<close>

record DurableAssignment =
  da_ID :: string
  da_ProjectID :: string
  da_WorkPackageID :: string
  da_WorkerID :: string
  da_State :: string
  da_Attempt :: int
  da_LeaseOwner :: string
  da_LeaseExpiresAt :: string

definition DurableAssignment_Validate :: "DurableAssignment \<Rightarrow> repo_error option" where
  "DurableAssignment_Validate r =
     (if da_ID r = [] \<or> da_ProjectID r = [] \<or> da_WorkPackageID r = [] \<or> da_WorkerID r = [] then Some RepoFieldsRequired
      else if da_Attempt r < 0 then Some RepoNegativeAttempt
      else contract_check (AssignmentState_Validate (da_State r)))"

definition Assignment_Save ::
  "StoreEnv \<Rightarrow> DurableAssignment Codec \<Rightarrow> DurableAssignment \<Rightarrow> MemState \<Rightarrow> MemState \<times> (repo_error + DurableAssignment)" where
  "Assignment_Save E cd r m =
     (case DurableAssignment_Validate r of Some e \<Rightarrow> (m, Err e) | None \<Rightarrow>
      (case putTyped E cd ''assignment'' (da_ID r) (revisionOf ''assignment'' (da_ID r) m + 1) r m of
         (m1, Inl e) \<Rightarrow> (m1, Err e) | (m1, Inr _) \<Rightarrow> (m1, Ok r)))"

definition Assignment_SaveJSON ::
  "StoreEnv \<Rightarrow> DurableAssignment Codec \<Rightarrow> string \<Rightarrow> MemState \<Rightarrow> MemState \<times> repo_error option" where
  "Assignment_SaveJSON E cd data m =
     (case cd_dec cd data of None \<Rightarrow> (m, Some RepoDecode)
      | Some r \<Rightarrow> (case Assignment_Save E cd r m of (m1, Inl e) \<Rightarrow> (m1, Some e) | (m1, Inr _) \<Rightarrow> (m1, None)))"

definition Assignment_Get :: "DurableAssignment Codec \<Rightarrow> string \<Rightarrow> MemState \<Rightarrow> repo_error + DurableAssignment" where
  "Assignment_Get cd rid m = getChecked cd DurableAssignment_Validate ''assignment'' rid m"

definition Assignment_List :: "DurableAssignment Codec \<Rightarrow> MemState \<Rightarrow> repo_error + DurableAssignment list" where
  "Assignment_List cd m = listChecked cd DurableAssignment_Validate ''assignment'' m"

definition Assignment_ListByProject ::
  "DurableAssignment Codec \<Rightarrow> string \<Rightarrow> MemState \<Rightarrow> repo_error + DurableAssignment list" where
  "Assignment_ListByProject cd project m = filter_list (\<lambda>r. da_ProjectID r = project) (Assignment_List cd m)"

section \<open>Approvals\<close>

record ApprovalRecord =
  av_WorkPackageID :: string
  av_ProjectID :: string
  av_Decision :: string
  av_Actor :: string
  av_Reason :: string
  av_DecidedAt :: string

definition ApprovalRecord_Validate :: "(string \<Rightarrow> time option) \<Rightarrow> ApprovalRecord \<Rightarrow> repo_error option" where
  "ApprovalRecord_Validate parse r =
     (if av_WorkPackageID r = [] \<or> av_ProjectID r = [] then Some RepoFieldsRequired
      else if av_Decision r \<noteq> ''approve'' \<and> av_Decision r \<noteq> ''reject'' then Some RepoDecisionInvalid
      else if av_Actor r = [] then Some RepoActorRequired
      else if av_DecidedAt r \<noteq> [] \<and> parse (av_DecidedAt r) = None then Some RepoDecidedAt
      else None)"

definition approval_id :: "string \<Rightarrow> string" where "approval_id wp = ''approval_'' @ wp"

definition Approval_Save ::
  "StoreEnv \<Rightarrow> (string \<Rightarrow> time option) \<Rightarrow> ApprovalRecord Codec \<Rightarrow> string \<Rightarrow> ApprovalRecord \<Rightarrow> MemState \<Rightarrow>
     MemState \<times> (repo_error + ApprovalRecord)" where
  "Approval_Save E parse cd now r0 m =
     (let r = (if av_DecidedAt r0 = [] then r0\<lparr>av_DecidedAt := now\<rparr> else r0) in
      (case ApprovalRecord_Validate parse r of Some e \<Rightarrow> (m, Err e) | None \<Rightarrow>
       (let rid = approval_id (av_WorkPackageID r) in
        (case putTyped E cd ''approval'' rid (revisionOf ''approval'' rid m + 1) r m of
           (m1, Inl e) \<Rightarrow> (m1, Err e) | (m1, Inr _) \<Rightarrow> (m1, Ok r)))))"

definition Approval_Get ::
  "(string \<Rightarrow> time option) \<Rightarrow> ApprovalRecord Codec \<Rightarrow> string \<Rightarrow> MemState \<Rightarrow> repo_error + ApprovalRecord" where
  "Approval_Get parse cd wp m = getChecked cd (ApprovalRecord_Validate parse) ''approval'' (approval_id wp) m"

definition Approval_List ::
  "(string \<Rightarrow> time option) \<Rightarrow> ApprovalRecord Codec \<Rightarrow> MemState \<Rightarrow> repo_error + ApprovalRecord list" where
  "Approval_List parse cd m = listChecked cd (ApprovalRecord_Validate parse) ''approval'' m"

definition Approval_ListByProject ::
  "(string \<Rightarrow> time option) \<Rightarrow> ApprovalRecord Codec \<Rightarrow> string \<Rightarrow> MemState \<Rightarrow> repo_error + ApprovalRecord list" where
  "Approval_ListByProject parse cd project m = filter_list (\<lambda>r. av_ProjectID r = project) (Approval_List parse cd m)"

end
