(* ===== verification/ProjectState.thy ===== *)
theory ProjectState
  imports Scheduler MemoryRepo
begin

text \<open>
  \<open>kernel/api/api.go\<close> and \<open>app/internal/projectstate/projectstate.go\<close>: the control plane's projects. Every
  project has a durable record, and in the process a scheduler behind an API service; the graph of a \<open>Project\<close> is
  the graph of its scheduler, which the code shares by pointer. A step takes and returns the memory as well.

  The scheduler's sink is the durable state itself: \<open>sink_step\<close> is \<open>assignmentSink\<close>. A scheduler operation logs the
  calls it makes; the answer of a call is that of \<open>sink_step\<close> on the memory after the calls before it
  (\<open>project_env\<close>), and the memory after the operation is the memory after all of them (\<open>run_scheduler\<close>).

  Ranging over a Go map visits the keys in some order: \<open>visit_order v ks\<close> is a permutation of \<open>ks\<close>, and every
  permutation is one for some \<open>v\<close>.
\<close>

section \<open>The control-plane service\<close>

record Service =
  sv_orch :: Scheduler
  sv_enabled :: bool

datatype api_error = ApiSchedulerRequired | ApiDisabled

definition api_New :: "Scheduler option \<Rightarrow> bool \<Rightarrow> api_error + Service" where
  "api_New orch enabled =
     (case orch of None \<Rightarrow> Err ApiSchedulerRequired | Some s \<Rightarrow> Ok \<lparr>sv_orch = s, sv_enabled = enabled\<rparr>)"

definition api_Enabled :: "Service \<Rightarrow> bool" where "api_Enabled s = sv_enabled s"

definition api_Status :: "Service \<Rightarrow> string \<times> string \<times> WorkPackage list \<times> AssignmentStatus list" where
  "api_Status s = Scheduler_Status (sv_orch s)"

definition api_Dispatch ::
  "Env \<Rightarrow> time \<Rightarrow> Service \<Rightarrow> Service \<times> (api_error + (sched_error + DispatchReport) option)" where
  "api_Dispatch env now s =
     (if \<not> sv_enabled s then (s, Err ApiDisabled)
      else (case Scheduler_Dispatch env now (sv_orch s) of (o1, r) \<Rightarrow> (s\<lparr>sv_orch := o1\<rparr>, Ok r)))"

definition api_Approve :: "string \<Rightarrow> Service \<Rightarrow> Service" where
  "api_Approve wp s = s\<lparr>sv_orch := Scheduler_Approve wp (sv_orch s)\<rparr>"

definition api_Reject :: "string \<Rightarrow> string \<Rightarrow> Service \<Rightarrow> Service" where
  "api_Reject wp reason s = s\<lparr>sv_orch := Scheduler_Reject wp reason (sv_orch s)\<rparr>"

definition api_Resolve :: "Env \<Rightarrow> string \<Rightarrow> Service \<Rightarrow> Service \<times> (sched_error + DispatchReport)" where
  "api_Resolve env wp s = (case Scheduler_Resolve env wp (sv_orch s) of (o1, r) \<Rightarrow> (s\<lparr>sv_orch := o1\<rparr>, r))"

section \<open>Durable and planner states\<close>

definition toContractState :: "string \<Rightarrow> string option" where
  "toContractState state =
     (if state = ''PROPOSED'' then Some ''PROPOSED''
      else if state = ''READY'' then Some ''READY''
      else if state = ''RUNNING'' then Some ''RUNNING''
      else if state = ''COMPLETED'' then Some ''COMPLETE''
      else if state = ''DEFICIENT'' then Some ''DEFICIENT''
      else None)"

definition fromContractState :: "string \<Rightarrow> wp_state option" where
  "fromContractState state =
     (if state = ''PROPOSED'' then Some StateProposed
      else if state = ''READY'' then Some StateReady
      else if state = ''QUEUED'' \<or> state = ''RUNNING'' \<or> state = ''VERIFYING'' then Some StateRunning
      else if state = ''COMPLETE'' \<or> state = ''VERIFIED'' then Some StateCompleted
      else if state = ''DEFICIENT'' then Some StateDeficient
      else None)"

definition toPlanner :: "'b WorkPackageRecord \<Rightarrow> WorkPackage option" where
  "toPlanner w =
     map_option (\<lambda>st. \<lparr>wp_ID = ev_ID (wc_Envelope w), wp_Title = wc_Title w, wp_Role = wc_Role w,
        wp_Capabilities = wc_Capabilities w, wp_DependsOn = wc_Dependencies w, wp_Acceptance = wc_Acceptance w,
        wp_State = st\<rparr>) (fromContractState (wc_State w))"

text \<open>The scheduler's view of a stored state string: Go converts the string, whatever it is.\<close>

definition asg_state_of :: "string \<Rightarrow> asg_state" where
  "asg_state_of s =
     (case filter (\<lambda>st. asg_state_string st = s)
        [AsgPlanned, AsgLeased, AsgPreparing, AsgRunning, AsgPaused, AsgCollecting, AsgAwaitingGates, AsgAccepted,
         AsgFailed, AsgCanceled, AsgExpired] of [] \<Rightarrow> AsgOther s | st # _ \<Rightarrow> st)"

definition readinessFor :: "WorkPackage \<Rightarrow> string list \<Rightarrow> string" where
  "readinessFor wp ready =
     (case wp_State wp of
        StateCompleted \<Rightarrow> ''satisfied''
      | StateRunning \<Rightarrow> ''dispatched''
      | StateReady \<Rightarrow> ''ready''
      | StateProposed \<Rightarrow> if wp_ID wp \<in> set ready then ''ready'' else ''blocked''
      | _ \<Rightarrow> ''blocked'')"

section \<open>State\<close>

record Project =
  pj_Record :: ProjectRecord
  pj_API :: Service

abbreviation pj_Scheduler :: "Project \<Rightarrow> Scheduler" where "pj_Scheduler p \<equiv> sv_orch (pj_API p)"
abbreviation pj_Graph :: "Project \<Rightarrow> Graph" where "pj_Graph p \<equiv> o_graph (pj_Scheduler p)"

record ControlState =
  cs_projects :: "(string, Project) fmap"
  cs_mem :: MemState

text \<open>
  The world: the store's, the codecs of the repositories, the JSON a scheduler writes for an assignment, the text
  of an error, the layout of lease times, and the scheduler's environment, whose sink is replaced.
\<close>

record 'b PsEnv =
  px_store :: StoreEnv
  px_parse :: "string \<Rightarrow> time option"
  px_nano :: "string \<Rightarrow> time option"
  px_project :: "ProjectRecord Codec"
  px_work :: "'b WorkPackageRecord Codec"
  px_assignment :: "DurableAssignment Codec"
  px_approval :: "ApprovalRecord Codec"
  px_sched_json :: "AssignmentRecord \<Rightarrow> string"
  px_error_text :: "repo_error \<Rightarrow> string"
  px_env :: Env

datatype ps_error =
    PsRepo repo_error
  | PsScheduler sched_error
  | PsApi api_error
  | PsPlanner planner_error
  | PsUnknownState string
  | PsDuplicateProject string
  | PsUnknownProject string
  | PsUnknownWork string
  | PsExists string
  | PsTitleRequired
  | PsDependencyRequired
  | PsUnknownDependency string
  | PsInvalidApproval
  | PsNotFound string
  | PsApprovalResolved string

section \<open>The sink of a scheduler\<close>

definition sink_step :: "'b PsEnv \<Rightarrow> world_call \<Rightarrow> MemState \<Rightarrow> MemState \<times> string option" where
  "sink_step X c m =
     (case c of
        SinkRecord r \<Rightarrow> (case Assignment_SaveJSON (px_store X) (px_assignment X) (px_sched_json X r) m of
            (m1, e) \<Rightarrow> (m1, map_option (px_error_text X) e))
      | SinkWorkPackageState p wp st \<Rightarrow>
          (case toContractState (wp_state_string st) of
             None \<Rightarrow> (m, Some (''unknown planner state '' @ wp_state_string st))
           | Some cst \<Rightarrow> (case Work_UpdateState (px_store X) (px_parse X) (px_work X) wp cst m of
                (m1, Inl e) \<Rightarrow> (m1, Some (px_error_text X e)) | (m1, Inr _) \<Rightarrow> (m1, None)))
      | _ \<Rightarrow> (m, None))"

definition sink_run :: "'b PsEnv \<Rightarrow> world_call list \<Rightarrow> MemState \<Rightarrow> MemState" where
  "sink_run X cs m = fold (\<lambda>c m. fst (sink_step X c m)) cs m"

definition project_env :: "'b PsEnv \<Rightarrow> MemState \<Rightarrow> nat \<Rightarrow> Env" where
  "project_env X m n =
     (px_env X)\<lparr>env_state_sink := True, env_sink_err := (\<lambda>log c. snd (sink_step X c (sink_run X (drop n log) m)))\<rparr>"

definition run_scheduler ::
  "'b PsEnv \<Rightarrow> (Env \<Rightarrow> Service \<Rightarrow> Service \<times> 'r) \<Rightarrow> Service \<Rightarrow> MemState \<Rightarrow> MemState \<times> Service \<times> 'r" where
  "run_scheduler X f s m =
     (let n = length (o_log (sv_orch s)) in
      (case f (project_env X m n) s of (s1, r) \<Rightarrow> (sink_run X (drop n (o_log (sv_orch s1))) m, s1, r)))"

section \<open>Loading\<close>

definition visit_order :: "'k list \<Rightarrow> 'k list \<Rightarrow> 'k list" where
  "visit_order v ks = filter (\<lambda>k. k \<in> set ks) (remdups v) @ filter (\<lambda>k. k \<notin> set v) ks"

text \<open>A human gate, an empty registry, no runtime: a project's scheduler can not execute.\<close>

definition runtime_config :: Config where
  "runtime_config = \<lparr>cfg_Registry = Some Registry_New, cfg_Runtime = None, cfg_Gates = [HumanGate NewHumanGate],
     cfg_Permitted = [], cfg_Enabled = False, cfg_LeaseTTL = 0, cfg_MaxConcurrency = 0, cfg_MaxAttempts = 0\<rparr>"

definition attachRuntime :: "ProjectRecord \<Rightarrow> Graph \<Rightarrow> ps_error + Project" where
  "attachRuntime record g =
     (case Scheduler_New (Some g) runtime_config of Inl e \<Rightarrow> Err (PsScheduler e) | Inr sched \<Rightarrow>
      (case api_New (Some sched) False of Inl e \<Rightarrow> Err (PsApi e) | Inr service \<Rightarrow>
        Ok \<lparr>pj_Record = record, pj_API = service\<rparr>))"

type_synonym Loading = "(string, ProjectRecord \<times> Graph) fmap"

fun load_projects :: "ProjectRecord list \<Rightarrow> Loading \<Rightarrow> ps_error + Loading" where
  "load_projects [] L = Ok L"
| "load_projects (r # rs) L =
     (let pid = ev_ID (pr_Envelope r) in
      if fmlookup L pid \<noteq> None then Err (PsDuplicateProject pid)
      else load_projects rs (fmupd pid (r, NewGraph pid (''graph_'' @ pid)) L))"

fun load_work :: "'b WorkPackageRecord list \<Rightarrow> Loading \<Rightarrow> ps_error + Loading" where
  "load_work [] L = Ok L"
| "load_work (w # ws) L =
     (let pid = ev_ProjectID (wc_Envelope w) in
      (case fmlookup L pid of None \<Rightarrow> Err (PsUnknownProject pid) | Some (r, g) \<Rightarrow>
       (case toPlanner w of None \<Rightarrow> Err (PsUnknownState (wc_State w)) | Some wp \<Rightarrow>
        (case Graph_Add g wp of Inl e \<Rightarrow> Err (PsPlanner e) | Inr g1 \<Rightarrow> load_work ws (fmupd pid (r, g1) L)))))"

fun attach_all :: "string list \<Rightarrow> Loading \<Rightarrow> (string, Project) fmap \<Rightarrow> ps_error + (string, Project) fmap" where
  "attach_all [] L P = Ok P"
| "attach_all (pid # pids) L P =
     (case fmlookup L pid of None \<Rightarrow> attach_all pids L P | Some (r, g) \<Rightarrow>
      (case Graph_Validate g of Some e \<Rightarrow> Err (PsPlanner e) | None \<Rightarrow>
       (case attachRuntime r g of Inl e \<Rightarrow> Err e | Inr p \<Rightarrow> attach_all pids L (fmupd pid p P))))"

section \<open>Restoring assignments and approvals\<close>

definition restore_record :: "DurableAssignment \<Rightarrow> RestoreAssignment" where
  "restore_record d =
     \<lparr>ra_ID = da_ID d, ra_ProjectID = da_ProjectID d, ra_WorkPackageID = da_WorkPackageID d,
      ra_WorkerID = da_WorkerID d, ra_State = asg_state_of (da_State d), ra_Attempt = da_Attempt d,
      ra_LeaseOwner = da_LeaseOwner d, ra_LeaseExpiresAt = da_LeaseExpiresAt d\<rparr>"

definition durable_record :: "RestoreAssignment \<Rightarrow> DurableAssignment" where
  "durable_record r =
     \<lparr>da_ID = ra_ID r, da_ProjectID = ra_ProjectID r, da_WorkPackageID = ra_WorkPackageID r,
      da_WorkerID = ra_WorkerID r, da_State = asg_state_string (ra_State r), da_Attempt = ra_Attempt r,
      da_LeaseOwner = ra_LeaseOwner r, da_LeaseExpiresAt = ra_LeaseExpiresAt r\<rparr>"

definition assignment_known :: "(string, Project) fmap \<Rightarrow> DurableAssignment \<Rightarrow> ps_error option" where
  "assignment_known P d =
     (case fmlookup P (da_ProjectID d) of None \<Rightarrow> Some (PsUnknownProject (da_ProjectID d))
      | Some p \<Rightarrow> if Graph_Get (pj_Graph p) (da_WorkPackageID d) = None then Some (PsUnknownWork (da_WorkPackageID d))
                  else None)"

fun save_updated ::
  "'b PsEnv \<Rightarrow> RestoreAssignment list \<Rightarrow> MemState \<Rightarrow> MemState \<times> ps_error option" where
  "save_updated X [] m = (m, None)"
| "save_updated X (r # rs) m =
     (case Assignment_Save (px_store X) (px_assignment X) (durable_record r) m of
        (m1, Inl e) \<Rightarrow> (m1, Some (PsRepo e)) | (m1, Inr _) \<Rightarrow> save_updated X rs m1)"

fun restore_projects ::
  "'b PsEnv \<Rightarrow> time \<Rightarrow> DurableAssignment list \<Rightarrow> string list \<Rightarrow> ControlState \<Rightarrow> ControlState \<times> ps_error option" where
  "restore_projects X now ds [] c = (c, None)"
| "restore_projects X now ds (pid # pids) c =
     (case fmlookup (cs_projects c) pid of None \<Rightarrow> restore_projects X now ds pids c | Some p \<Rightarrow>
      (case Scheduler_Restore (px_nano X) (map restore_record (filter (\<lambda>d. da_ProjectID d = pid) ds)) now (pj_Scheduler p) of
         (s1, Inl e) \<Rightarrow> (c, Some (PsScheduler e))
       | (s1, Inr updated) \<Rightarrow>
           (case save_updated X updated (cs_mem c) of (m1, e) \<Rightarrow>
             let c1 = c\<lparr>cs_projects := fmupd pid (p\<lparr>pj_API := (pj_API p)\<lparr>sv_orch := s1\<rparr>\<rparr>) (cs_projects c), cs_mem := m1\<rparr>
             in (case e of Some _ \<Rightarrow> (c1, e) | None \<Rightarrow> restore_projects X now ds pids c1))))"

definition restoreAssignments ::
  "'b PsEnv \<Rightarrow> time \<Rightarrow> string list \<Rightarrow> ControlState \<Rightarrow> ControlState \<times> ps_error option" where
  "restoreAssignments X now visit c =
     (case Assignment_List (px_assignment X) (cs_mem c) of Inl e \<Rightarrow> (c, Some (PsRepo e)) | Inr ds \<Rightarrow>
      (case first_err (assignment_known (cs_projects c)) ds of Some e \<Rightarrow> (c, Some e)
       | None \<Rightarrow> restore_projects X now ds (visit_order visit (remdups (map da_ProjectID ds))) c))"

definition update_api :: "(Service \<Rightarrow> Service) \<Rightarrow> string \<Rightarrow> ControlState \<Rightarrow> ControlState" where
  "update_api f pid c =
     (case fmlookup (cs_projects c) pid of None \<Rightarrow> c
      | Some p \<Rightarrow> c\<lparr>cs_projects := fmupd pid (p\<lparr>pj_API := f (pj_API p)\<rparr>) (cs_projects c)\<rparr>)"

definition apply_decision :: "string \<Rightarrow> string \<Rightarrow> string \<Rightarrow> Service \<Rightarrow> Service" where
  "apply_decision decision wp reason =
     (if decision = ''approve'' then api_Approve wp else api_Reject wp reason)"

fun restore_approvals :: "ApprovalRecord list \<Rightarrow> ControlState \<Rightarrow> ControlState \<times> ps_error option" where
  "restore_approvals [] c = (c, None)"
| "restore_approvals (a # as) c =
     (case fmlookup (cs_projects c) (av_ProjectID a) of None \<Rightarrow> (c, Some (PsUnknownProject (av_ProjectID a)))
      | Some p \<Rightarrow>
        if Graph_Get (pj_Graph p) (av_WorkPackageID a) = None then (c, Some (PsUnknownWork (av_WorkPackageID a)))
        else restore_approvals as
          (update_api (apply_decision (av_Decision a) (av_WorkPackageID a) (av_Reason a)) (av_ProjectID a) c))"

definition restoreApprovals :: "'b PsEnv \<Rightarrow> ControlState \<Rightarrow> ControlState \<times> ps_error option" where
  "restoreApprovals X c =
     (case Approval_List (px_parse X) (px_approval X) (cs_mem c) of Inl e \<Rightarrow> (c, Some (PsRepo e))
      | Inr as \<Rightarrow> restore_approvals as c)"

text \<open>Load the projects and the work packages and validate the graphs: the part of \<open>New\<close> that only reads.\<close>

definition load_state :: "'b PsEnv \<Rightarrow> MemState \<Rightarrow> ps_error + (string, Project) fmap" where
  "load_state X m =
     (case Project_List (px_parse X) (px_project X) m of Inl e \<Rightarrow> Err (PsRepo e) | Inr rs \<Rightarrow>
      (case load_projects rs fmempty of Inl e \<Rightarrow> Err e | Inr L \<Rightarrow>
      (case Work_List (px_parse X) (px_work X) m of Inl e \<Rightarrow> Err (PsRepo e) | Inr ws \<Rightarrow>
      (case load_work ws L of Inl e \<Rightarrow> Err e | Inr L1 \<Rightarrow> attach_all (fm_keys L1) L1 fmempty))))"

text \<open>The memory is returned with an error too: \<open>New\<close> may have saved expired assignments.\<close>

definition State_New :: "'b PsEnv \<Rightarrow> time \<Rightarrow> string list \<Rightarrow> MemState \<Rightarrow> MemState \<times> (ps_error + ControlState)" where
  "State_New X now visit m =
     (case load_state X m of Inl e \<Rightarrow> (m, Err e) | Inr P \<Rightarrow>
      (case restoreAssignments X now visit \<lparr>cs_projects = P, cs_mem = m\<rparr> of
         (c, Some e) \<Rightarrow> (cs_mem c, Err e)
       | (c, None) \<Rightarrow> (case restoreApprovals X c of (c1, Some e) \<Rightarrow> (cs_mem c1, Err e) | (c1, None) \<Rightarrow> (cs_mem c1, Ok c1))))"

section \<open>Operations\<close>

definition Projects :: "ControlState \<Rightarrow> ProjectRecord list" where
  "Projects c = sort_key (\<lambda>r. ev_ID (pr_Envelope r)) (map pj_Record (fm_vals (cs_projects c)))"

definition Project_lookup :: "string \<Rightarrow> ControlState \<Rightarrow> ProjectRecord option" where
  "Project_lookup pid c = map_option pj_Record (fmlookup (cs_projects c) pid)"

definition createLocked ::
  "'b PsEnv \<Rightarrow> string \<Rightarrow> string \<Rightarrow> ControlState \<Rightarrow> ControlState \<times> (ps_error + ProjectRecord)" where
  "createLocked X pid name c =
     (if fmlookup (cs_projects c) pid \<noteq> None then (c, Err (PsExists pid))
      else (case Project_Create (px_store X) (px_parse X) (px_project X) pid name (cs_mem c) of
         (m1, Inl e) \<Rightarrow> (c\<lparr>cs_mem := m1\<rparr>, Err (PsRepo e))
       | (m1, Inr record) \<Rightarrow>
           let rid = ev_ID (pr_Envelope record); c1 = c\<lparr>cs_mem := m1\<rparr> in
           (case attachRuntime record (NewGraph rid (''graph_'' @ rid)) of Inl e \<Rightarrow> (c1, Err e)
            | Inr p \<Rightarrow> (c1\<lparr>cs_projects := fmupd pid p (cs_projects c)\<rparr>, Ok record))))"

definition CreateProject ::
  "'b PsEnv \<Rightarrow> string \<Rightarrow> string \<Rightarrow> ControlState \<Rightarrow> ControlState \<times> (ps_error + ProjectRecord)" where
  "CreateProject X pid name c = createLocked X pid name c"

definition EnsureProject ::
  "'b PsEnv \<Rightarrow> string \<Rightarrow> string \<Rightarrow> ControlState \<Rightarrow> ControlState \<times> (ps_error + ProjectRecord \<times> bool)" where
  "EnsureProject X pid name c =
     (case fmlookup (cs_projects c) pid of Some p \<Rightarrow> (c, Ok (pj_Record p, False))
      | None \<Rightarrow> (case createLocked X pid name c of (c1, Inl e) \<Rightarrow> (c1, Err e) | (c1, Inr r) \<Rightarrow> (c1, Ok (r, True))))"

definition WorkPackages ::
  "'b PsEnv \<Rightarrow> string \<Rightarrow> ControlState \<Rightarrow> ps_error + 'b WorkPackageRecord list" where
  "WorkPackages X pid c =
     (if fmlookup (cs_projects c) pid = None then Err (PsUnknownProject pid)
      else (case Work_ListByProject (px_parse X) (px_work X) pid (cs_mem c) of Inl e \<Rightarrow> Err (PsRepo e) | Inr ws \<Rightarrow> Ok ws))"

definition dep_known :: "Graph \<Rightarrow> string \<Rightarrow> ps_error option" where
  "dep_known g dep =
     (if dep = [] then Some PsDependencyRequired
      else if Graph_Get g dep = None then Some (PsUnknownDependency dep) else None)"

definition submitted :: "string \<Rightarrow> string \<Rightarrow> string \<Rightarrow> string list \<Rightarrow> 'b WorkPackageRecord" where
  "submitted fresh pid title deps =
     \<lparr>wc_Envelope = \<lparr>ev_ContractVersion = default_version, ev_Kind = ''work_package'', ev_ID = fresh, ev_ProjectID = pid,
        ev_CreatedAt = [], ev_Revision = None, ev_Provenance = None\<rparr>,
      wc_Title = title, wc_Description = [], wc_State = ''PROPOSED'', wc_Role = [], wc_Dependencies = deps,
      wc_Inputs = [], wc_Deliverables = [], wc_Acceptance = DefaultAcceptance, wc_Scope = None, wc_Budget = None,
      wc_Risk = [], wc_Capabilities = []\<rparr>"

definition SubmitWork ::
  "'b PsEnv \<Rightarrow> string \<Rightarrow> string \<Rightarrow> string \<Rightarrow> string list \<Rightarrow> ControlState \<Rightarrow>
     ControlState \<times> (ps_error + 'b WorkPackageRecord)" where
  "SubmitWork X fresh pid title deps c =
     (case fmlookup (cs_projects c) pid of None \<Rightarrow> (c, Err (PsUnknownProject pid)) | Some p \<Rightarrow>
      if title = [] then (c, Err PsTitleRequired)
      else (case first_err (dep_known (pj_Graph p)) deps of Some e \<Rightarrow> (c, Err e) | None \<Rightarrow>
       (case Work_Create (px_store X) (px_parse X) (px_work X) fresh (submitted fresh pid title deps) (cs_mem c) of
          (m1, Inl e) \<Rightarrow> (c\<lparr>cs_mem := m1\<rparr>, Err (PsRepo e))
        | (m1, Inr w) \<Rightarrow>
            let c1 = c\<lparr>cs_mem := m1\<rparr> in
            (case toPlanner w of None \<Rightarrow> (c1, Err (PsUnknownState (wc_State w))) | Some wp \<Rightarrow>
             (case Graph_Add (pj_Graph p) wp of Inl e \<Rightarrow> (c1, Err (PsPlanner e))
              | Inr g \<Rightarrow> (update_api (\<lambda>s. s\<lparr>sv_orch := (sv_orch s)\<lparr>o_graph := g\<rparr>\<rparr>) pid c1, Ok w))))))"

text \<open>The first project in visiting order that owns the package.\<close>

definition ProjectForWorkPackage :: "string list \<Rightarrow> string \<Rightarrow> ControlState \<Rightarrow> string option" where
  "ProjectForWorkPackage visit wp c =
     (case filter (\<lambda>pid. case fmlookup (cs_projects c) pid of None \<Rightarrow> False
                          | Some p \<Rightarrow> Graph_Get (pj_Graph p) wp \<noteq> None)
             (visit_order visit (fm_keys (cs_projects c))) of [] \<Rightarrow> None | pid # _ \<Rightarrow> Some pid)"

definition AssignmentStatuses :: "'b PsEnv \<Rightarrow> ControlState \<Rightarrow> AssignmentStatus list" where
  "AssignmentStatuses X c =
     (case Assignment_List (px_assignment X) (cs_mem c) of Inl _ \<Rightarrow> []
      | Inr ds \<Rightarrow> map (\<lambda>d. \<lparr>as_ID = da_ID d, as_WorkPackageID = da_WorkPackageID d, as_WorkerID = da_WorkerID d,
                           as_State = asg_state_of (da_State d), as_Attempt = da_Attempt d\<rparr>) ds)"

definition ActiveAssignments :: "'b PsEnv \<Rightarrow> ControlState \<Rightarrow> nat" where
  "ActiveAssignments X c =
     length (filter (\<lambda>a. as_State a \<notin> {AsgAccepted, AsgFailed, AsgCanceled, AsgExpired}) (AssignmentStatuses X c))"

text \<open>The latest attempt of a work package; of equal attempts, the last one listed.\<close>

definition latest_assignment :: "string \<Rightarrow> DurableAssignment list \<Rightarrow> DurableAssignment option" where
  "latest_assignment wp ds =
     fold (\<lambda>d latest. if da_WorkPackageID d \<noteq> wp then latest
        else (case latest of None \<Rightarrow> Some d | Some l \<Rightarrow> if da_Attempt l \<le> da_Attempt d then Some d else latest)) ds None"

definition RecordApproval ::
  "'b PsEnv \<Rightarrow> string \<Rightarrow> string \<Rightarrow> string \<Rightarrow> string \<Rightarrow> string \<Rightarrow> string \<Rightarrow> ControlState \<Rightarrow>
     ControlState \<times> (ps_error + ApprovalRecord)" where
  "RecordApproval X now pid wp decision actor reason c =
     (if decision \<noteq> ''approve'' \<and> decision \<noteq> ''reject'' then (c, Err PsInvalidApproval)
      else if actor = [] then (c, Err PsInvalidApproval)
      else (case fmlookup (cs_projects c) pid of None \<Rightarrow> (c, Err (PsNotFound pid)) | Some p \<Rightarrow>
      if Graph_Get (pj_Graph p) wp = None then (c, Err (PsNotFound wp))
      else (case Approval_Get (px_parse X) (px_approval X) wp (cs_mem c) of
        Inr _ \<Rightarrow> (c, Err (PsApprovalResolved wp))
      | Inl e \<Rightarrow>
      if e \<noteq> RepoStore StNotFound then (c, Err (PsRepo e))
      else (case Assignment_ListByProject (px_assignment X) pid (cs_mem c) of Inl e1 \<Rightarrow> (c, Err (PsRepo e1)) | Inr ds \<Rightarrow>
      (case latest_assignment wp ds of None \<Rightarrow> (c, Err (PsApprovalResolved wp)) | Some latest \<Rightarrow>
      if da_State latest \<noteq> ''awaiting_gates'' then (c, Err (PsApprovalResolved wp))
      else (case Approval_Save (px_store X) (px_parse X) (px_approval X) now
             \<lparr>av_WorkPackageID = wp, av_ProjectID = pid, av_Decision = decision, av_Actor = actor, av_Reason = reason,
              av_DecidedAt = []\<rparr> (cs_mem c) of
        (m1, Inl e2) \<Rightarrow> (c\<lparr>cs_mem := m1\<rparr>, Err (PsRepo e2))
      | (m1, Inr record) \<Rightarrow>
          (case run_scheduler X (\<lambda>env s. api_Resolve env wp s) (apply_decision decision wp reason (pj_API p)) m1 of
             (m2, s1, _) \<Rightarrow>
               (c\<lparr>cs_mem := m2, cs_projects := fmupd pid (p\<lparr>pj_API := s1\<rparr>) (cs_projects c)\<rparr>, Ok record))))))))"

definition ApprovalRecords :: "'b PsEnv \<Rightarrow> ControlState \<Rightarrow> repo_error + ApprovalRecord list" where
  "ApprovalRecords X c = Approval_List (px_parse X) (px_approval X) (cs_mem c)"

definition State_WorkPackage :: "'b PsEnv \<Rightarrow> string \<Rightarrow> string \<Rightarrow> ControlState \<Rightarrow> 'b WorkPackageRecord option" where
  "State_WorkPackage X pid wid c =
     (case Work_Get (px_parse X) (px_work X) wid (cs_mem c) of Inl _ \<Rightarrow> None
      | Inr w \<Rightarrow> if ev_ProjectID (wc_Envelope w) \<noteq> pid then None else Some w)"

definition State_Graph :: "string \<Rightarrow> ControlState \<Rightarrow> TaskGraph option" where
  "State_Graph pid c =
     (case fmlookup (cs_projects c) pid of None \<Rightarrow> None | Some p \<Rightarrow>
       let g = pj_Graph p; ready = Graph_Ready g in
       Some \<lparr>tg_Envelope = \<lparr>ev_ContractVersion = default_version, ev_Kind = ''task_graph'', ev_ID = ''graph_'' @ pid,
               ev_ProjectID = pid, ev_CreatedAt = [], ev_Revision = Some (g_Revision g), ev_Provenance = None\<rparr>,
             tg_Nodes = map (\<lambda>wp. \<lparr>tn_WorkPackageID = wp_ID wp, tn_DependsOn = wp_DependsOn wp,
               tn_Readiness = readinessFor wp ready\<rparr>) (Graph_List g),
             tg_Digest = []\<rparr>)"

text \<open>What a caller that got the project's runtime can do with it.\<close>

datatype runtime_op = RtDispatch time | RtApprove string | RtReject string string | RtResolve string

fun runtime_apply :: "runtime_op \<Rightarrow> Env \<Rightarrow> Service \<Rightarrow> Service \<times> unit" where
  "runtime_apply (RtDispatch now) env s = (fst (api_Dispatch env now s), ())"
| "runtime_apply (RtApprove wp) env s = (api_Approve wp s, ())"
| "runtime_apply (RtReject wp reason) env s = (api_Reject wp reason s, ())"
| "runtime_apply (RtResolve wp) env s = (fst (api_Resolve env wp s), ())"

definition ProjectRuntime :: "'b PsEnv \<Rightarrow> string \<Rightarrow> runtime_op \<Rightarrow> ControlState \<Rightarrow> ControlState" where
  "ProjectRuntime X pid rop c =
     (case fmlookup (cs_projects c) pid of None \<Rightarrow> c | Some p \<Rightarrow>
      (case run_scheduler X (runtime_apply rop) (pj_API p) (cs_mem c) of
         (m1, s1, _) \<Rightarrow> c\<lparr>cs_mem := m1, cs_projects := fmupd pid (p\<lparr>pj_API := s1\<rparr>) (cs_projects c)\<rparr>))"

end
