(* ===== verification/MemoryStoreProps.thy ===== *)
theory MemoryStoreProps
  imports MemoryStore
begin

text \<open>The contract of the record store, and what its records, events and projections keep.\<close>

section \<open>The interface of a record store\<close>

locale record_store =
  fixes get :: "'s \<Rightarrow> string \<Rightarrow> string \<Rightarrow> 'e + StoreRecord"
    and put :: "StoreRecord \<Rightarrow> 's \<Rightarrow> 's \<times> ('e + bool)"
  assumes put_changes: "put r s = (s', Ok True) \<Longrightarrow> get s' (sr_Kind r) (sr_ID r) = Ok r"
    and put_others: "put r s = (s', res) \<Longrightarrow> (k, i) \<noteq> (sr_Kind r, sr_ID r) \<or> res \<noteq> Ok True \<Longrightarrow> get s' k i = get s k i"
    and put_unchanged: "put r s = (s', Ok False) \<Longrightarrow>
          \<exists>x. get s (sr_Kind r) (sr_ID r) = Ok x \<and> sr_Hash x = sr_Hash r"
    and put_newer: "put r s = (s', Ok True) \<Longrightarrow> get s (sr_Kind r) (sr_ID r) = Ok x \<Longrightarrow> sr_Revision x < sr_Revision r"
begin

definition newer_or_same :: "StoreRecord \<Rightarrow> StoreRecord \<Rightarrow> bool" where
  "newer_or_same x y \<longleftrightarrow> x = y \<or> sr_Revision x < sr_Revision y"

lemma put_grows:
  assumes "get s k i = Ok x" and "put r s = (s', res)"
  shows "\<exists>y. get s' k i = Ok y \<and> newer_or_same x y"
proof (cases "(k, i) = (sr_Kind r, sr_ID r) \<and> res = Ok True")
  case True
  then show ?thesis using assms put_changes [of r s s'] put_newer [of r s s' x] by (auto simp: newer_or_same_def)
next
  case False
  then have "get s' k i = get s k i" using put_others [OF assms(2)] by blast
  then show ?thesis using assms(1) by (simp add: newer_or_same_def)
qed

lemma puts_grow:
  "get s k i = Ok x \<Longrightarrow> \<exists>y. get (fold (\<lambda>r s. fst (put r s)) rs s) k i = Ok y \<and> newer_or_same x y"
proof (induction rs arbitrary: s x)
  case (Cons r rs)
  obtain s' res where p: "put r s = (s', res)" by fastforce
  then obtain y where y: "get s' k i = Ok y" "newer_or_same x y" using put_grows [OF Cons.prems] by blast
  obtain z where "get (fold (\<lambda>r s. fst (put r s)) rs s') k i = Ok z" "newer_or_same y z" using Cons.IH [OF y(1)] by blast
  then show ?case using y(2) p by (auto simp: newer_or_same_def)
qed (simp add: newer_or_same_def)

end

section \<open>The model is one\<close>

lemma write_outcome_records [simp]:
  "write_outcome s = (s', w) \<Longrightarrow> kind_dir s' = kind_dir s"
  "write_outcome s = (s', w) \<Longrightarrow> st_records s' = st_records s"
  by (auto simp: write_outcome_def kind_dir_def fun_eq_iff split: list.splits)

lemma kind_dir_put_file:
  "kind_dir (put_file r s) k = (if k = sr_Kind r then fmupd (sr_ID r) (GoodFile r) (kind_dir s k) else kind_dir s k)"
  by (simp add: kind_dir_def put_file_def)

lemma readRecord_put_file:
  "readRecord (put_file r s) k i = (if (k, i) = (sr_Kind r, sr_ID r) then Ok r else readRecord s k i)"
  by (auto simp: readRecord_def kind_dir_put_file)

text \<open>What \<open>PutRecord\<close> did when it wrote, and when it did not.\<close>

lemma PutRecord_cases:
  assumes "PutRecord E r s = (s', res)"
  obtains (wrote) s1 where "res = Ok True" "s' = put_file r s1" "write_outcome s = (s1, None)"
      "StoreRecord_Validate E r = None" "RecordPath (sr_Kind r) (sr_ID r) = None"
      "\<And>x. readRecord s (sr_Kind r) (sr_ID r) = Ok x \<Longrightarrow> sr_Revision x < sr_Revision r \<and> sr_Hash x \<noteq> sr_Hash r"
    | (kept) "res \<noteq> Ok True" "st_records s' = st_records s" "kind_dir s' = kind_dir s"
      "res = Ok False \<Longrightarrow> \<exists>x. readRecord s (sr_Kind r) (sr_ID r) = Ok x \<and> sr_Hash x = sr_Hash r"
  using assms
  by (fastforce simp: PutRecord_def Let_def writeFileAtomic_def split: option.splits sum.splits if_splits prod.splits)

interpretation disk: record_store readRecord "PutRecord E" for E
proof
  fix r :: StoreRecord and s s' :: Store and res :: "store_error + bool" and k i :: string and x :: StoreRecord
  show "readRecord s' (sr_Kind r) (sr_ID r) = Ok r" if "PutRecord E r s = (s', Ok True)"
    using that by (cases rule: PutRecord_cases) (simp_all add: readRecord_put_file)
  show "readRecord s' k i = readRecord s k i"
    if "PutRecord E r s = (s', res)" "(k, i) \<noteq> (sr_Kind r, sr_ID r) \<or> res \<noteq> Ok True"
    using that(1)
  proof (cases rule: PutRecord_cases)
    case (wrote s1)
    then have "readRecord s' k i = readRecord s1 k i" using that(2) by (auto simp: readRecord_put_file)
    then show ?thesis using wrote(3) by (simp add: readRecord_def)
  qed (simp add: readRecord_def)
  show "\<exists>x. readRecord s (sr_Kind r) (sr_ID r) = Ok x \<and> sr_Hash x = sr_Hash r" if "PutRecord E r s = (s', Ok False)"
    using that by (cases rule: PutRecord_cases) auto
  show "sr_Revision x < sr_Revision r" if "PutRecord E r s = (s', Ok True)" "readRecord s (sr_Kind r) (sr_ID r) = Ok x"
    using that(1) by (cases rule: PutRecord_cases) (use that(2) in auto)
qed

section \<open>Projections\<close>

lemma identifierRE_no_null: "identifierRE s \<Longrightarrow> CHR 0x00 \<notin> set s \<and> s \<noteq> []"
  by (auto simp: identifierRE_def is_alnum_def is_digit_def list_all_iff split: list.splits)

lemma proj_key_inject:
  assumes "identifierRE k" and "identifierRE k2" and "proj_key k i = proj_key k2 i2"
  shows "k = k2 \<and> i = i2"
proof -
  have t: "takeWhile (\<lambda>c. c \<noteq> CHR 0x00) (proj_key x y) = x" if "identifierRE x" for x y
  proof -
    have "\<And>c. c \<in> set x \<Longrightarrow> c \<noteq> CHR 0x00" using identifierRE_no_null [OF that] by metis
    then show ?thesis unfolding proj_key_def by (subst takeWhile_append2) auto
  qed
  have "k = k2" using t [OF assms(1), of i] t [OF assms(2), of i2] assms(3) by simp
  then show ?thesis using assms(3) by (simp add: proj_key_def)
qed

definition rec_key :: "StoreRecord \<Rightarrow> string" where "rec_key r = proj_key (sr_Kind r) (sr_ID r)"

definition rec_ok :: "StoreRecord \<Rightarrow> bool" where "rec_ok r \<longleftrightarrow> identifierRE (sr_Kind r) \<and> identifierRE (sr_ID r)"

text \<open>Every file holds the record its path names.\<close>

definition store_wf :: "Store \<Rightarrow> bool" where
  "store_wf s \<longleftrightarrow> (\<forall>k i f. fmlookup (kind_dir s k) i = Some f \<longrightarrow>
     (\<exists>r. f = GoodFile r \<and> sr_Kind r = k \<and> sr_ID r = i \<and> rec_ok r))"

text \<open>The projection holds the store's records and nothing else.\<close>

definition proj_agrees :: "Store \<Rightarrow> Projection \<Rightarrow> bool" where
  "proj_agrees s p \<longleftrightarrow> (\<forall>K r. fmlookup p K = Some r \<longleftrightarrow>
     rec_key r = K \<and> readRecord s (sr_Kind r) (sr_ID r) = Ok r)"

lemma store_wf_read:
  assumes "store_wf s" and "readRecord s k i = Ok r"
  shows "sr_Kind r = k \<and> sr_ID r = i \<and> rec_ok r"
  using assms by (fastforce simp: store_wf_def readRecord_def split: option.splits rec_file.splits)

lemma rec_key_inject:
  "rec_ok r \<Longrightarrow> rec_ok r2 \<Longrightarrow> rec_key r = rec_key r2 \<Longrightarrow> sr_Kind r = sr_Kind r2 \<and> sr_ID r = sr_ID r2"
  unfolding rec_key_def rec_ok_def by (metis proj_key_inject)

lemma RecordPath_ok: "RecordPath k i = None \<Longrightarrow> identifierRE k \<and> identifierRE i"
  by (auto simp: RecordPath_def safeSegment_def split: option.splits if_splits)

lemma PutRecord_wf:
  assumes wf: "store_wf s" and p: "PutRecord E r s = (s', res)"
  shows "store_wf s'"
  using p
proof (cases rule: PutRecord_cases)
  case (wrote s1)
  have "kind_dir s1 = kind_dir s" using wrote(3) by simp
  moreover have "rec_ok r" using RecordPath_ok [OF wrote(5)] by (simp add: rec_ok_def)
  ultimately show ?thesis
    using wf by (auto simp: store_wf_def wrote(2) kind_dir_put_file split: if_splits)
next
  case kept
  then show ?thesis using wf by (simp add: store_wf_def)
qed

lemma PutRecord_agrees:
  assumes wf: "store_wf s" and ag: "proj_agrees s p" and p: "PutRecord E r s = (s', res)"
  shows "proj_agrees s' (if res = Ok True then fst (proj_Put r p) else p)"
  using p
proof (cases rule: PutRecord_cases)
  case (wrote s1)
  have rd: "readRecord s' k i = (if (k, i) = (sr_Kind r, sr_ID r) then Ok r else readRecord s k i)" for k i
    using wrote(2,3) by (simp add: readRecord_put_file) (simp add: readRecord_def)
  have ok: "rec_ok r" using RecordPath_ok [OF wrote(5)] by (simp add: rec_ok_def)
  have "fst (proj_Put r p) = fmupd (rec_key r) r p"
  proof (cases "fmlookup p (rec_key r)")
    case None
    then show ?thesis using identifierRE_no_null ok by (auto simp: proj_Put_def rec_key_def rec_ok_def Let_def)
  next
    case (Some x)
    then have x: "rec_key x = rec_key r" "readRecord s (sr_Kind x) (sr_ID x) = Ok x" using ag by (auto simp: proj_agrees_def)
    then have "rec_ok x" using store_wf_read [OF wf] by blast
    then have "readRecord s (sr_Kind r) (sr_ID r) = Ok x" using rec_key_inject [OF _ ok x(1)] x(2) by simp
    then have "sr_Revision x < sr_Revision r \<and> sr_Hash x \<noteq> sr_Hash r" by (rule wrote(6))
    then show ?thesis using Some identifierRE_no_null ok by (auto simp: proj_Put_def rec_key_def rec_ok_def Let_def)
  qed
  moreover have "fmlookup (fmupd (rec_key r) r p) K = Some x \<longleftrightarrow> rec_key x = K \<and> readRecord s' (sr_Kind x) (sr_ID x) = Ok x" for K x
  proof (cases "K = rec_key r")
    case True
    have "rec_key x = rec_key r \<Longrightarrow> readRecord s' (sr_Kind x) (sr_ID x) = Ok x \<Longrightarrow> x = r"
      using rec_key_inject [of x r] ok store_wf_read [OF PutRecord_wf [OF wf p]] rd by (metis Inr_inject prod.inject)
    then show ?thesis using True rd [of "sr_Kind r" "sr_ID r"] by auto
  next
    case False
    then have "rec_key x = K \<Longrightarrow> (sr_Kind x, sr_ID x) \<noteq> (sr_Kind r, sr_ID r)" by (auto simp: rec_key_def)
    then show ?thesis using False ag rd by (auto simp: proj_agrees_def)
  qed
  ultimately show ?thesis using wrote(1) by (simp add: proj_agrees_def)
next
  case kept
  have "readRecord s' k i = readRecord s k i" for k i using kept(3) by (simp add: readRecord_def)
  then show ?thesis using ag kept(1) by (simp add: proj_agrees_def)
qed

lemma read_files_good:
  "(\<And>f. f \<in> set fs \<Longrightarrow> \<exists>r. f = GoodFile r) \<Longrightarrow> \<exists>rs. read_files fs = Ok rs \<and> fs = map GoodFile rs"
proof (induction fs)
  case (Cons f fs)
  then obtain r rs where "f = GoodFile r" "read_files fs = Ok rs" "fs = map GoodFile rs" by fastforce
  then show ?case by (intro exI [of _ "r # rs"]) simp
qed simp

lemma ListAllRecords_set:
  assumes wf: "store_wf s"
  shows "\<exists>rs. ListAllRecords s = Ok rs \<and> set rs = {r. readRecord s (sr_Kind r) (sr_ID r) = Ok r}"
proof -
  let ?fs = "concat (map fm_vals (fm_vals (st_records s)))"
  have mem: "f \<in> set ?fs \<longleftrightarrow> (\<exists>k i. fmlookup (kind_dir s k) i = Some f)" for f
  proof
    assume "f \<in> set ?fs"
    then obtain k d i where "fmlookup (st_records s) k = Some d" "fmlookup d i = Some f" by (auto simp: set_fm_vals)
    then have "fmlookup (kind_dir s k) i = Some f" by (simp add: kind_dir_def fm_getd_Some)
    then show "\<exists>k i. fmlookup (kind_dir s k) i = Some f" by blast
  next
    assume "\<exists>k i. fmlookup (kind_dir s k) i = Some f"
    then obtain k i where f: "fmlookup (kind_dir s k) i = Some f" by blast
    then obtain d where "fmlookup (st_records s) k = Some d" "d = kind_dir s k"
      by (cases "fmlookup (st_records s) k") (auto simp: kind_dir_def fm_getd_None fm_getd_Some)
    then show "f \<in> set ?fs" using f by (auto simp: set_fm_vals)
  qed
  have good: "\<exists>r. f = GoodFile r" if "f \<in> set ?fs" for f
    using that wf unfolding mem store_wf_def by blast
  from read_files_good [OF this] obtain rs where rs: "read_files ?fs = Ok rs" "?fs = map GoodFile rs" by blast
  have "r \<in> set rs \<longleftrightarrow> readRecord s (sr_Kind r) (sr_ID r) = Ok r" for r
  proof -
    have "r \<in> set rs \<longleftrightarrow> GoodFile r \<in> set ?fs" unfolding rs(2) by auto
    also have "\<dots> \<longleftrightarrow> fmlookup (kind_dir s (sr_Kind r)) (sr_ID r) = Some (GoodFile r)"
      unfolding mem using wf by (fastforce simp: store_wf_def)
    finally show ?thesis by (auto simp: readRecord_def split: option.splits rec_file.splits)
  qed
  then have "set rs = {r. readRecord s (sr_Kind r) (sr_ID r) = Ok r}" by blast
  then show ?thesis using rs(1) by (simp add: ListAllRecords_def)
qed

lemma put_entries_set:
  assumes "\<And>r. r \<in> set rs \<Longrightarrow> rec_ok r" and "\<And>r x. r \<in> set rs \<Longrightarrow> x \<in> set rs \<Longrightarrow> rec_key r = rec_key x \<Longrightarrow> r = x"
    and "\<And>r x. r \<in> set rs \<Longrightarrow> fmlookup p (rec_key r) = Some x \<Longrightarrow> x = r"
  shows "\<exists>p'. put_entries rs p = (p', None)
    \<and> (\<forall>K x. fmlookup p' K = Some x \<longleftrightarrow> (x \<in> set rs \<and> rec_key x = K) \<or> ((\<forall>r\<in>set rs. rec_key r \<noteq> K) \<and> fmlookup p K = Some x))"
  using assms
proof (induction rs arbitrary: p)
  case (Cons r rs)
  have ne: "sr_Kind r \<noteq> []" "sr_ID r \<noteq> []" using Cons.prems(1) [of r] identifierRE_no_null by (auto simp: rec_ok_def)
  have put: "proj_Put r p = (fmupd (rec_key r) r p, None)"
  proof (cases "fmlookup p (rec_key r)")
    case None
    then show ?thesis using ne by (simp add: proj_Put_def rec_key_def Let_def)
  next
    case (Some x)
    then have "x = r" using Cons.prems(3) [of r x] by simp
    then have "fmupd (rec_key r) r p = p" using Some by (intro fmap_ext) auto
    then show ?thesis using Some \<open>x = r\<close> ne by (simp add: proj_Put_def rec_key_def Let_def)
  qed
  have "\<exists>p'. put_entries rs (fmupd (rec_key r) r p) = (p', None)
    \<and> (\<forall>K x. fmlookup p' K = Some x \<longleftrightarrow> (x \<in> set rs \<and> rec_key x = K)
        \<or> ((\<forall>r\<in>set rs. rec_key r \<noteq> K) \<and> fmlookup (fmupd (rec_key r) r p) K = Some x))"
  proof (rule Cons.IH)
    show "x = y" if "y \<in> set rs" "fmlookup (fmupd (rec_key r) r p) (rec_key y) = Some x" for y x
    proof (cases "rec_key y = rec_key r")
      case True
      have "y = r" by (rule Cons.prems(2)) (use that(1) True in simp_all)
      then show ?thesis using that(2) by simp
    next
      case False
      have "fmlookup p (rec_key y) = Some x" using that(2) False by simp
      then show ?thesis by (rule Cons.prems(3) [rotated]) (use that(1) in simp)
    qed
    show "rec_ok y" if "y \<in> set rs" for y by (rule Cons.prems(1)) (use that in simp)
    show "y = x" if "y \<in> set rs" "x \<in> set rs" "rec_key y = rec_key x" for y x
      by (rule Cons.prems(2)) (use that in simp_all)
  qed
  then obtain p' where p': "put_entries rs (fmupd (rec_key r) r p) = (p', None)"
    and look: "\<And>K x. fmlookup p' K = Some x \<longleftrightarrow> (x \<in> set rs \<and> rec_key x = K)
        \<or> ((\<forall>r\<in>set rs. rec_key r \<noteq> K) \<and> fmlookup (fmupd (rec_key r) r p) K = Some x)" by blast
  have "fmlookup p' K = Some x \<longleftrightarrow> (x \<in> set (r # rs) \<and> rec_key x = K)
      \<or> ((\<forall>y\<in>set (r # rs). rec_key y \<noteq> K) \<and> fmlookup p K = Some x)" for K x
  proof (cases "K = rec_key r")
    case True
    have "rec_key y = rec_key r \<Longrightarrow> y \<in> set rs \<Longrightarrow> y = r" for y using Cons.prems(2) [of y r] by simp
    then show ?thesis unfolding look using True by auto
  next
    case False
    then show ?thesis unfolding look by auto
  qed
  then show ?case using p' put by (intro exI [of _ p']) simp
qed simp

lemma rebuild_agrees:
  assumes wf: "store_wf s" and ag: "proj_agrees s p"
  shows "proj_Rebuild s q = (p, None)"
proof -
  obtain rs where rs: "ListAllRecords s = Ok rs" "set rs = {r. readRecord s (sr_Kind r) (sr_ID r) = Ok r}"
    using ListAllRecords_set [OF wf] by blast
  have ok: "rec_ok r" if "r \<in> set rs" for r using that rs(2) store_wf_read [OF wf] by blast
  have same: "r = x" if "r \<in> set rs" "x \<in> set rs" "rec_key r = rec_key x" for r x
  proof -
    have r: "readRecord s (sr_Kind r) (sr_ID r) = Ok r" using that(1) unfolding rs(2) by (rule CollectD)
    have x: "readRecord s (sr_Kind x) (sr_ID x) = Ok x" using that(2) unfolding rs(2) by (rule CollectD)
    from rec_key_inject [OF ok [OF that(1)] ok [OF that(2)] that(3)] have k: "sr_Kind r = sr_Kind x" and i: "sr_ID r = sr_ID x" by blast+
    have "Ok r = (Ok x :: store_error + StoreRecord)" by (rule trans [OF r [unfolded k i, symmetric] x])
    then show ?thesis by (rule Inr_inject)
  qed
  have none: "x = r" if "r \<in> set rs" "fmlookup fmempty (rec_key r) = Some x" for r x using that by simp
  from put_entries_set [OF ok same none] obtain p' where p': "put_entries rs fmempty = (p', None)"
    and look: "\<forall>K x. fmlookup p' K = Some x \<longleftrightarrow> (x \<in> set rs \<and> rec_key x = K)
      \<or> ((\<forall>r\<in>set rs. rec_key r \<noteq> K) \<and> fmlookup fmempty K = Some x)" by blast
  have "fmlookup p' K = fmlookup p K" for K
  proof -
    have "fmlookup p' K = Some x \<longleftrightarrow> fmlookup p K = Some x" for x
    proof -
      have "fmlookup p' K = Some x \<longleftrightarrow> x \<in> set rs \<and> rec_key x = K" using look by simp
      then show ?thesis using ag by (simp add: proj_agrees_def rs(2) conj_commute)
    qed
    then show ?thesis by (cases "fmlookup p K"; cases "fmlookup p' K") auto
  qed
  then have "p' = p" by (rule fmap_ext)
  then show ?thesis using rs(1) p' by (simp add: proj_Rebuild_def proj_Reset_def)
qed

section \<open>Examples\<close>

definition ex_store_env :: StoreEnv where
  "ex_store_env = \<lparr>se_canon = (\<lambda>d. if d = [] \<or> 100 < length d then None else Some d), se_sha = (\<lambda>d. d),
     se_event = (\<lambda>d. Some (d, int (length d))), se_provenance = (\<lambda>d. Some None), se_parse = (\<lambda>s. Some 0)\<rparr>"

definition ex_record :: "int \<Rightarrow> string \<Rightarrow> StoreRecord" where
  "ex_record n d = \<lparr>sr_Kind = ''k'', sr_ID = ''a'', sr_Revision = n, sr_Data = d, sr_Hash = d\<rparr>"

definition ex_stored :: Store where "ex_stored = fst (PutRecord ex_store_env (ex_record 1 ''x'') store_empty)"

lemma ex_stored_read: "readRecord ex_stored ''k'' ''a'' = Ok (ex_record 1 ''x'')"
  by code_simp

lemma ex_env_fits: "se_canon ex_store_env e = Some c \<Longrightarrow> c \<noteq> [] \<and> length c < max_event_line"
  by (auto simp: ex_store_env_def max_event_line_def split: if_splits)

datatype event_op = OpAppend string | OpRetain int | OpReopen

definition ex_event_ops :: "event_op list" where
  "ex_event_ops = [OpAppend ''a'', OpAppend ''ab'', OpReopen, OpAppend ''a'', OpRetain 1, OpAppend ''abc'']"

section \<open>Records\<close>

text \<open>
  C22. No sequence of writes loses a record or takes it back: whatever is put later, a stored record is still there
  or was replaced by one of a strictly greater revision. Two contents never share a revision.
\<close>

theorem revisions_grow:
  assumes "readRecord s k i = Ok x"
  shows "\<exists>y. readRecord (fold (\<lambda>r s. fst (PutRecord E r s)) rs s) k i = Ok y
    \<and> (x = y \<or> sr_Revision x < sr_Revision y)"
  using disk.puts_grow [OF assms, of E rs] unfolding disk.newer_or_same_def .

theorem revisions_grow_witness:
  "\<exists>y. readRecord (fold (\<lambda>r s. fst (PutRecord ex_store_env r s)) [ex_record 1 ''z'', ex_record 2 ''y''] ex_stored) ''k'' ''a'' = Ok y
     \<and> (ex_record 1 ''x'' = y \<or> sr_Revision (ex_record 1 ''x'') < sr_Revision y)"
  by (rule revisions_grow [OF ex_stored_read])

section \<open>The event log\<close>

text \<open>The store, and the events it has accepted so far.\<close>

fun event_step :: "StoreEnv \<Rightarrow> event_op \<Rightarrow> Store \<times> EventRecord list \<Rightarrow> Store \<times> EventRecord list" where
  "event_step E (OpAppend ev) (s, acc) =
     (case AppendEvent E ev s of
        (s1, Inr True) \<Rightarrow>
          (case se_canon E ev of None \<Rightarrow> (s1, acc) | Some c \<Rightarrow>
           (case se_event E c of None \<Rightarrow> (s1, acc)
            | Some (eid, sq) \<Rightarrow> (s1, acc @ [\<lparr>er_ID = eid, er_Sequence = sq, er_Data = c\<rparr>])))
      | (s1, _) \<Rightarrow> (s1, acc))"
| "event_step E (OpRetain n) (s, acc) = (fst (RetainAfter n s), acc)"
| "event_step E OpReopen (s, acc) = (store_Open s, acc)"

definition event_log_ok :: "StoreEnv \<Rightarrow> Store \<Rightarrow> EventRecord list \<Rightarrow> bool" where
  "event_log_ok E s acc \<longleftrightarrow> allEvents E s = Ok acc \<and> distinct (map er_ID acc)
     \<and> (st_seen s = [] \<or> set (st_seen s) = er_ID ` set acc)
     \<and> (st_floor s = None \<or> (\<exists>n\<ge>0. st_floor s = Some (FloorFile n)))"

lemma scan_events_snoc:
  "scan_events E ls = Ok es \<Longrightarrow> length l < max_event_line \<Longrightarrow> l \<noteq> [] \<Longrightarrow> se_event E l = Some (eid, sq) \<Longrightarrow>
     scan_events E (ls @ [l]) = Ok (es @ [\<lparr>er_ID = eid, er_Sequence = sq, er_Data = l\<rparr>])"
  by (induction ls arbitrary: es) (auto split: option.splits sum.splits if_splits)

lemma write_outcome_fields [simp]:
  "write_outcome s = (s', w) \<Longrightarrow> st_events s' = st_events s"
  "write_outcome s = (s', w) \<Longrightarrow> st_seen s' = st_seen s"
  "write_outcome s = (s', w) \<Longrightarrow> st_floor s' = st_floor s"
  by (cases "st_writes s"; force simp: write_outcome_def simp del: write_outcome_records)+

lemma event_log_seen:
  assumes "event_log_ok E s acc"
  shows "\<exists>s1. loadSeen E s = (s1, None) \<and> event_log_ok E s1 acc \<and> set (st_seen s1) = er_ID ` set acc"
proof (cases "st_seen s = []")
  case True
  with assms show ?thesis by (simp add: loadSeen_def event_log_ok_def allEvents_def)
next
  case False
  with assms show ?thesis by (auto simp: loadSeen_def event_log_ok_def)
qed

lemma event_log_ok_append:
  assumes ok: "event_log_ok E s acc" and fits: "\<And>e c. se_canon E e = Some c \<Longrightarrow> c \<noteq> [] \<and> length c < max_event_line"
  shows "event_log_ok E (fst (event_step E (OpAppend ev) (s, acc))) (snd (event_step E (OpAppend ev) (s, acc)))"
proof -
  obtain s1 where l: "loadSeen E s = (s1, None)" and ok1: "event_log_ok E s1 acc" and seen: "set (st_seen s1) = er_ID ` set acc"
    using event_log_seen [OF ok] by blast
  show ?thesis
  proof (cases "\<exists>c eid sq. se_canon E ev = Some c \<and> se_event E c = Some (eid, sq) \<and> eid \<noteq> [] \<and> eid \<notin> set (st_seen s1)
      \<and> snd (write_outcome s1) = None")
    case True
    then obtain c eid sq where c: "se_canon E ev = Some c" "se_event E c = Some (eid, sq)" "eid \<noteq> []" "eid \<notin> set (st_seen s1)"
      "snd (write_outcome s1) = None" by blast
    obtain s2 where w: "write_outcome s1 = (s2, None)" using c(5) by (cases "write_outcome s1") simp
    let ?s3 = "s2\<lparr>st_events := st_events s2 @ [c], st_seen := st_seen s2 @ [eid]\<rparr>"
    have step: "event_step E (OpAppend ev) (s, acc) = (?s3, acc @ [\<lparr>er_ID = eid, er_Sequence = sq, er_Data = c\<rparr>])"
      using c l w by (simp add: AppendEvent_def)
    have "allEvents E ?s3 = Ok (acc @ [\<lparr>er_ID = eid, er_Sequence = sq, er_Data = c\<rparr>])"
      using ok1 w fits [OF c(1)] c(2) scan_events_snoc [of E "st_events s1" acc c eid sq]
      by (simp add: allEvents_def event_log_ok_def)
    moreover have "eid \<notin> er_ID ` set acc" using c(4) seen by simp
    ultimately show ?thesis
      unfolding step using ok1 seen w by (simp add: event_log_ok_def)
  next
    case False
    then have "snd (event_step E (OpAppend ev) (s, acc)) = acc \<and>
        (\<exists>s2. fst (event_step E (OpAppend ev) (s, acc)) = s2 \<and> (s2 = s \<or> s2 = s1 \<or> (\<exists>w. write_outcome s1 = (s2, Some w))))"
      using l by (auto simp: AppendEvent_def split: option.splits prod.splits)
    then show ?thesis using ok ok1 by (auto simp: event_log_ok_def allEvents_def)
  qed
qed

lemma event_log_ok_step:
  assumes ok: "event_log_ok E s acc" and fits: "\<And>e c. se_canon E e = Some c \<Longrightarrow> c \<noteq> [] \<and> length c < max_event_line"
  shows "event_log_ok E (fst (event_step E a (s, acc))) (snd (event_step E a (s, acc)))"
proof (cases a)
  case (OpAppend ev)
  then show ?thesis using event_log_ok_append [OF ok fits] by simp
next
  case (OpRetain n)
  have "event_log_ok E (fst (RetainAfter n s)) acc"
    using ok by (auto simp: RetainAfter_def writeFileAtomic_def event_log_ok_def allEvents_def split: sum.splits prod.splits option.splits)
  then show ?thesis by (simp add: OpRetain)
next
  case OpReopen
  then show ?thesis using ok by (simp add: event_log_ok_def store_Open_def allEvents_def)
qed

lemma event_log_ok_run:
  "event_log_ok E s acc \<Longrightarrow> (\<And>e c. se_canon E e = Some c \<Longrightarrow> c \<noteq> [] \<and> length c < max_event_line) \<Longrightarrow>
     fold (event_step E) ops (s, acc) = (s', acc') \<Longrightarrow> event_log_ok E s' acc'"
proof (induction ops arbitrary: s acc)
  case (Cons a ops)
  obtain s1 acc1 where st: "event_step E a (s, acc) = (s1, acc1)" by fastforce
  have "event_log_ok E s1 acc1" using event_log_ok_step [OF Cons.prems(1,2), where a = a] st by simp
  then show ?case by (rule Cons.IH) (use Cons.prems st in auto)
qed simp



text \<open>The retention floor never goes back.\<close>

lemma retention_monotone:
  assumes "store_Retention s = Ok n" and "RetainAfter m s = (s', res)"
  shows "\<exists>n'. store_Retention s' = Ok n' \<and> n \<le> n'"
  using assms
  by (auto simp: RetainAfter_def writeFileAtomic_def store_Retention_def split: option.splits floor_file.splits if_splits prod.splits)

text \<open>
  An event whose canonical form reaches the scanner's limit is accepted, and afterwards neither the log can be
  read nor, in a new process, anything be appended.
\<close>

lemma oversized_store_event:
  assumes c: "se_canon E ev = Some c" "max_event_line \<le> length c" "se_event E c = Some (eid, sq)" "eid \<noteq> []"
    and s: "s = store_empty" and a: "AppendEvent E ev s = (s', res)"
  shows "res = Ok True \<and> store_Events E s' = Err StLineTooLong
    \<and> (\<forall>ev2 c2 i2 q2. se_canon E ev2 = Some c2 \<longrightarrow> se_event E c2 = Some (i2, q2) \<longrightarrow> i2 \<noteq> [] \<longrightarrow>
         snd (AppendEvent E ev2 (store_Open s')) = Err StLineTooLong)"
proof -
  have "res = Ok True" "st_events s' = [c]"
    using a c s by (auto simp: AppendEvent_def store_empty_def loadSeen_def allEvents_def write_outcome_def)
  then show ?thesis
    using c(2) by (auto simp: store_Events_def allEvents_def AppendEvent_def loadSeen_def store_Open_def)
qed

end
