(* ===== verification/MemoryRepoProps.thy ===== *)
theory MemoryRepoProps
  imports MemoryRepo MemoryStoreProps
begin

text \<open>What the typed repositories keep: projections that a rebuild reproduces, and the memory lifecycle.\<close>

section \<open>Writing one record\<close>

text \<open>A decoded canonical form is the value that was encoded, and canonical forms are canonical.\<close>

definition codec_ok :: "StoreEnv \<Rightarrow> 'a Codec \<Rightarrow> bool" where
  "codec_ok E cd \<longleftrightarrow> (\<forall>v d c. cd_enc cd v = Some d \<longrightarrow> se_canon E d = Some c \<longrightarrow> cd_dec cd c = Some v)"

lemma NewRecord_fields:
  assumes "NewRecord E k i n d = Ok r"
  shows "sr_Kind r = k" "sr_ID r = i" "sr_Revision r = n" "se_canon E d = Some (sr_Data r)" "0 \<le> n"
    "HashBytes E (sr_Data r) = Some (sr_Hash r)" "RequireIdentifier ''kind'' k = None" "RequireIdentifier ''id'' i = None"
  using assms by (auto simp: NewRecord_def split: option.splits if_splits)

lemma putTyped_cases:
  assumes "putTyped E cd k i n v m = (m', res)"
  obtains (wrote) r d where "res = Ok True" "cd_enc cd v = Some d" "NewRecord E k i n d = Ok r"
      "PutRecord E r (ms_store m) = (ms_store m', Ok True)" "ms_proj m' = map_option (\<lambda>p. fst (proj_Put r p)) (ms_proj m)"
    | (kept) r d where "res \<noteq> Ok True" "cd_enc cd v = Some d" "NewRecord E k i n d = Ok r"
      "\<exists>x. x \<noteq> Ok True \<and> PutRecord E r (ms_store m) = (ms_store m', x)" "ms_proj m' = ms_proj m"
    | (refused) "\<exists>e. res = Err e" "m' = m"
  using assms by (fastforce simp: putTyped_def split: option.splits sum.splits prod.splits if_splits)

lemma putTyped_read:
  assumes p: "putTyped E cd k i n v m = (m', res)" and cd: "codec_ok E cd"
  obtains (wrote) r where "res = Ok True" "sr_Revision r = n" "cd_dec cd (sr_Data r) = Some v" "RecordPath k i = None"
      "\<And>k2 i2. readRecord (ms_store m') k2 i2 = (if (k2, i2) = (k, i) then Ok r else readRecord (ms_store m) k2 i2)"
      "\<And>x. readRecord (ms_store m) k i = Ok x \<Longrightarrow> sr_Revision x < n"
    | (kept) "res \<noteq> Ok True" "\<And>k2 i2. readRecord (ms_store m') k2 i2 = readRecord (ms_store m) k2 i2"
  using p
proof (cases rule: putTyped_cases)
  case (wrote r d)
  note f = NewRecord_fields [OF wrote(3)]
  have dec: "cd_dec cd (sr_Data r) = Some v" using cd wrote(2) f(4) by (simp add: codec_ok_def)
  have path: "RecordPath k i = None" using wrote(4) by (cases rule: PutRecord_cases) (simp_all add: f)
  have new: "readRecord (ms_store m') k2 i2 = (if (k2, i2) = (k, i) then Ok r else readRecord (ms_store m) k2 i2)" for k2 i2
    using disk.put_changes [OF wrote(4)] disk.put_others [OF wrote(4), of k2 i2] by (auto simp: f)
  have less: "sr_Revision x < n" if "readRecord (ms_store m) k i = Ok x" for x
    using disk.put_newer [OF wrote(4)] that by (simp add: f)
  show thesis by (rule that(1)) (fact wrote(1) f(3) dec path new less)+
next
  case (kept r d)
  then obtain x where x: "x \<noteq> Ok True" "PutRecord E r (ms_store m) = (ms_store m', x)" by blast
  show thesis by (rule that(2)) (use kept(1) disk.put_others [OF x(2)] x(1) in auto)
next
  case refused
  then show thesis by (intro that(2)) auto
qed

section \<open>Projections\<close>

text \<open>Every write of a repository is a write of encoded bytes.\<close>

definition raw_codec :: "string option Codec" where
  "raw_codec = \<lparr>cd_enc = (\<lambda>d. d), cd_dec = (\<lambda>s. Some (Some s))\<rparr>"

lemma putTyped_raw: "putTyped E cd k i n v m = putTyped E raw_codec k i n (cd_enc cd v) m"
  by (simp add: putTyped_def raw_codec_def)

lemma putTyped_agrees:
  assumes p: "putTyped E cd k i n v m = (m', res)" and wf: "store_wf (ms_store m)"
    and ag: "ms_proj m = Some q" "proj_agrees (ms_store m) q"
  shows "store_wf (ms_store m') \<and> (\<exists>q'. ms_proj m' = Some q' \<and> proj_agrees (ms_store m') q')"
  using p
proof (cases rule: putTyped_cases)
  case (wrote r d)
  then show ?thesis using PutRecord_wf [OF wf wrote(4)] PutRecord_agrees [OF wf ag(2) wrote(4)] ag(1) by simp
next
  case (kept r d)
  then obtain x where x: "x \<noteq> Ok True" "PutRecord E r (ms_store m) = (ms_store m', x)" by blast
  then show ?thesis using PutRecord_wf [OF wf x(2)] PutRecord_agrees [OF wf ag(2) x(2)] ag(1) kept(5) by simp
next
  case refused
  then show ?thesis using wf ag by simp
qed

definition mem_start :: "string option list \<Rightarrow> MemState" where
  "mem_start ws = \<lparr>ms_store = store_empty\<lparr>st_writes := ws\<rparr>, ms_proj = Some fmempty\<rparr>"

definition raw_writes :: "StoreEnv \<Rightarrow> (string \<times> string \<times> int \<times> string option) list \<Rightarrow> MemState \<Rightarrow> MemState" where
  "raw_writes E ws m = fold (\<lambda>(k, i, n, d) m. fst (putTyped E raw_codec k i n d m)) ws m"

lemma raw_writes_agree:
  "store_wf (ms_store m) \<Longrightarrow> ms_proj m = Some q \<Longrightarrow> proj_agrees (ms_store m) q \<Longrightarrow>
     store_wf (ms_store (raw_writes E ws m))
     \<and> (\<exists>q'. ms_proj (raw_writes E ws m) = Some q' \<and> proj_agrees (ms_store (raw_writes E ws m)) q')"
  unfolding raw_writes_def
proof (induction ws arbitrary: m q)
  case (Cons w ws)
  obtain k i n d where w: "w = (k, i, n, d)" by (cases w)
  obtain m' res where p: "putTyped E raw_codec k i n d m = (m', res)" by fastforce
  from putTyped_agrees [OF p Cons.prems] obtain q' where
    "store_wf (ms_store m')" "ms_proj m' = Some q'" "proj_agrees (ms_store m') q'" by blast
  from Cons.IH [OF this] show ?case by (simp add: w p)
qed simp

text \<open>
  C20. Whatever the repositories write, and however many writes fail, the projection they keep up to date is the
  one a rebuild from the records gives: it can be thrown away at any time. It answers exactly as the store does.
\<close>

theorem projection_rebuilds:
  assumes "m = raw_writes E ws (mem_start faults)"
  shows "\<exists>p. ms_proj m = Some p \<and> proj_Rebuild (ms_store m) q = (p, None)
    \<and> (\<forall>k i r. identifierRE k \<longrightarrow> identifierRE i \<longrightarrow> (proj_Get k i p = Some r \<longleftrightarrow> readRecord (ms_store m) k i = Ok r))"
proof -
  have "store_wf (ms_store (mem_start faults))"
    by (simp add: mem_start_def store_empty_def store_wf_def kind_dir_def)
  moreover have "proj_agrees (ms_store (mem_start faults)) fmempty"
    by (simp add: mem_start_def store_empty_def proj_agrees_def readRecord_def kind_dir_def)
  ultimately obtain p where wf: "store_wf (ms_store m)" and p: "ms_proj m = Some p" "proj_agrees (ms_store m) p"
    using raw_writes_agree [of "mem_start faults" fmempty E ws] assms by (auto simp: mem_start_def)
  have "proj_Get k i p = Some r \<longleftrightarrow> readRecord (ms_store m) k i = Ok r" if "identifierRE k" "identifierRE i" for k i r
  proof -
    have "proj_Get k i p = Some r \<longleftrightarrow> rec_key r = proj_key k i \<and> readRecord (ms_store m) (sr_Kind r) (sr_ID r) = Ok r"
      using p(2) by (simp add: proj_agrees_def proj_Get_def)
    also have "\<dots> \<longleftrightarrow> readRecord (ms_store m) k i = Ok r"
    proof
      assume r: "rec_key r = proj_key k i \<and> readRecord (ms_store m) (sr_Kind r) (sr_ID r) = Ok r"
      then have "rec_ok r" using store_wf_read [OF wf] by blast
      then have "sr_Kind r = k \<and> sr_ID r = i"
        using r that proj_key_inject [of "sr_Kind r" k "sr_ID r" i] by (simp add: rec_key_def rec_ok_def)
      then show "readRecord (ms_store m) k i = Ok r" using r by simp
    next
      assume r: "readRecord (ms_store m) k i = Ok r"
      then have "sr_Kind r = k \<and> sr_ID r = i" using store_wf_read [OF wf] by blast
      then show "rec_key r = proj_key k i \<and> readRecord (ms_store m) (sr_Kind r) (sr_ID r) = Ok r"
        using r by (simp add: rec_key_def)
    qed
    finally show ?thesis .
  qed
  then show ?thesis using p(1) rebuild_agrees [OF wf p(2)] by blast
qed

theorem projection_rebuilds_witness:
  "\<exists>p. ms_proj (raw_writes ex_store_env [(''k'', ''a'', 1, Some ''x''), (''k'', ''b'', 1, Some ''y''), (''k'', ''a'', 2, Some ''z'')] (mem_start [])) = Some p
     \<and> proj_Get ''k'' ''a'' p = Some (ex_record 2 ''z'')"
proof -
  let ?m = "raw_writes ex_store_env [(''k'', ''a'', 1, Some ''x''), (''k'', ''b'', 1, Some ''y''), (''k'', ''a'', 2, Some ''z'')] (mem_start [])"
  have "readRecord (ms_store ?m) ''k'' ''a'' = Ok (ex_record 2 ''z'')" by code_simp
  moreover have "identifierRE ''k'' \<and> identifierRE ''a''" by code_simp
  ultimately show ?thesis using projection_rebuilds [OF refl, of ex_store_env _ "[]"] by blast
qed

end
