(* ===== verification/ProjectStateProps.thy ===== *)
theory ProjectStateProps
  imports ProjectState MemoryRepoProps SchedulerProps
begin

text \<open>
  What the control plane keeps over any history of its operations and restarts: approvals are final, and as its
  projects can not execute, a restart rebuilds exactly the projects and graphs it had.
\<close>

section \<open>What an operation writes\<close>

text \<open>A repository writes one file.\<close>

lemma putTyped_frame:
  assumes "putTyped E cd k i n v m = (m', res)" and "(k2, i2) \<noteq> (k, i)"
  shows "readRecord (ms_store m') k2 i2 = readRecord (ms_store m) k2 i2"
  using assms(1)
proof (cases rule: putTyped_cases)
  case (wrote r d)
  then show ?thesis using disk.put_others [OF wrote(4), of k2 i2] NewRecord_fields [OF wrote(3)] assms(2) by auto
next
  case (kept r d)
  then obtain x where "x \<noteq> Ok True" "PutRecord E r (ms_store m) = (ms_store m', x)" by blast
  then show ?thesis using disk.put_others by blast
qed simp

lemma putTyped_wf:
  assumes "putTyped E cd k i n v m = (m', res)" and "store_wf (ms_store m)"
  shows "store_wf (ms_store m')"
  using assms(1)
proof (cases rule: putTyped_cases)
  case (wrote r d)
  then show ?thesis using PutRecord_wf [OF assms(2)] by blast
next
  case (kept r d)
  then show ?thesis using PutRecord_wf [OF assms(2)] by blast
qed (use assms(2) in simp)

text \<open>The memory after, read at every kind but one, is the memory before; files stay well-formed.\<close>

definition only_kind :: "string \<Rightarrow> MemState \<Rightarrow> MemState \<Rightarrow> bool" where
  "only_kind k m m' \<longleftrightarrow> (store_wf (ms_store m) \<longrightarrow> store_wf (ms_store m'))
     \<and> (\<forall>k2 i. k2 \<noteq> k \<longrightarrow> readRecord (ms_store m') k2 i = readRecord (ms_store m) k2 i)"

lemma only_kind_refl [simp]: "only_kind k m m"
  by (simp add: only_kind_def)

lemma only_kind_putTyped: "putTyped E cd k i n v m = (m', res) \<Longrightarrow> only_kind k m m'"
  using putTyped_frame [of E cd k i n v m m' res] putTyped_wf [of E cd k i n v m m' res] by (simp add: only_kind_def)

lemma only_kind_Assignment_Save: "Assignment_Save E cd r m = (m', res) \<Longrightarrow> only_kind ''assignment'' m m'"
  by (auto simp: Assignment_Save_def dest: only_kind_putTyped split: option.splits prod.splits sum.splits)

lemma only_kind_SaveJSON: "Assignment_SaveJSON E cd d m = (m', res) \<Longrightarrow> only_kind ''assignment'' m m'"
  by (auto simp: Assignment_SaveJSON_def dest: only_kind_Assignment_Save split: option.splits prod.splits sum.splits)

lemma only_kind_UpdateState: "Work_UpdateState E parse cd i st m = (m', res) \<Longrightarrow> only_kind ''work_package'' m m'"
  by (auto simp: Work_UpdateState_def Let_def dest: only_kind_putTyped split: option.splits prod.splits sum.splits if_splits)

lemma only_kind_Work_Create: "Work_Create E parse cd fresh w m = (m', res) \<Longrightarrow> only_kind ''work_package'' m m'"
  by (auto simp: Work_Create_def Let_def dest: only_kind_putTyped split: option.splits prod.splits sum.splits)

lemma only_kind_Project_Create: "Project_Create E parse cd i name m = (m', res) \<Longrightarrow> only_kind ''project_record'' m m'"
  by (auto simp: Project_Create_def Let_def dest: only_kind_putTyped split: option.splits prod.splits sum.splits if_splits)

section \<open>Approvals are final\<close>

abbreviation approvals_kept :: "MemState \<Rightarrow> MemState \<Rightarrow> bool" where
  "approvals_kept m m' \<equiv> \<forall>i. readRecord (ms_store m') ''approval'' i = readRecord (ms_store m) ''approval'' i"

lemma approvals_kept_kind: "only_kind k m m' \<Longrightarrow> k \<noteq> ''approval'' \<Longrightarrow> approvals_kept m m'"
  unfolding only_kind_def by metis

lemma approvals_kept_sink_step: "approvals_kept m (fst (sink_step X c m))"
proof (cases c)
  case (SinkRecord r)
  obtain m1 e where s: "Assignment_SaveJSON (px_store X) (px_assignment X) (px_sched_json X r) m = (m1, e)" by fastforce
  show ?thesis using approvals_kept_kind [OF only_kind_SaveJSON [OF s]] by (simp add: sink_step_def SinkRecord s)
next
  case (SinkWorkPackageState p wp st)
  show ?thesis
  proof (cases "toContractState (wp_state_string st)")
    case None
    then show ?thesis by (simp add: sink_step_def SinkWorkPackageState)
  next
    case (Some cst)
    obtain m1 r where s: "Work_UpdateState (px_store X) (px_parse X) (px_work X) wp cst m = (m1, r)" by fastforce
    show ?thesis using approvals_kept_kind [OF only_kind_UpdateState [OF s]]
      by (simp add: sink_step_def SinkWorkPackageState Some s split: sum.splits)
  qed
qed (simp_all add: sink_step_def)

lemma approvals_kept_sink_run: "approvals_kept m (sink_run X cs m)"
proof (induction cs arbitrary: m)
  case (Cons c cs)
  show ?case using Cons.IH [of "fst (sink_step X c m)"] approvals_kept_sink_step [where m = m] by (simp add: sink_run_def)
qed (simp add: sink_run_def)

lemma approvals_kept_scheduler: "run_scheduler X f s m = (m', s', r) \<Longrightarrow> approvals_kept m m'"
  using approvals_kept_sink_run by (auto simp: run_scheduler_def Let_def split: prod.splits)

lemma approvals_kept_save: "save_updated X rs m = (m', e) \<Longrightarrow> approvals_kept m m'"
proof (induction rs arbitrary: m)
  case (Cons r rs)
  obtain m1 res where s: "Assignment_Save (px_store X) (px_assignment X) (durable_record r) m = (m1, res)" by fastforce
  have k: "approvals_kept m m1" using approvals_kept_kind [OF only_kind_Assignment_Save [OF s]] by simp
  show ?case
  proof (cases res)
    case (Inl e1)
    then show ?thesis using Cons.prems s k by simp
  next
    case (Inr x)
    then have "approvals_kept m1 m'" using Cons s by simp
    then show ?thesis using k by simp
  qed
qed simp

lemma approvals_kept_restore: "restore_projects X now ds pids c = (c', e) \<Longrightarrow> approvals_kept (cs_mem c) (cs_mem c')"
proof (induction pids arbitrary: c)
  case (Cons pid pids)
  show ?case
  proof (cases "fmlookup (cs_projects c) pid")
    case None
    then show ?thesis using Cons by simp
  next
    case (Some p)
    obtain s1 res where s: "Scheduler_Restore (px_nano X) (map restore_record (filter (\<lambda>d. da_ProjectID d = pid) ds)) now
        (pj_Scheduler p) = (s1, res)" by fastforce
    show ?thesis
    proof (cases res)
      case (Inl e1)
      then show ?thesis using Cons.prems Some s by simp
    next
      case (Inr updated)
      obtain m1 e1 where u: "save_updated X updated (cs_mem c) = (m1, e1)" by fastforce
      have k: "approvals_kept (cs_mem c) m1" by (rule approvals_kept_save [OF u])
      show ?thesis
      proof (cases e1)
        case None
        with Cons.prems Some s Inr u Cons.IH have "approvals_kept m1 (cs_mem c')" by (fastforce simp: Let_def)
        then show ?thesis using k by simp
      next
        case (Some e2)
        then show ?thesis using Cons.prems \<open>fmlookup _ _ = Some p\<close> s Inr u k by (auto simp: Let_def)
      qed
    qed
  qed
qed simp

lemma update_api_mem [simp]: "cs_mem (update_api f pid c) = cs_mem c"
  by (simp add: update_api_def split: option.splits)

lemma restore_approvals_mem: "restore_approvals as c = (c', e) \<Longrightarrow> cs_mem c' = cs_mem c"
  by (induction as arbitrary: c) (fastforce split: option.splits if_splits)+

lemma approvals_kept_New:
  assumes "State_New X now visit m = (m', res)"
  shows "approvals_kept m m' \<and> (\<forall>c. res = Ok c \<longrightarrow> cs_mem c = m')"
proof (cases "load_state X m")
  case (Inl e)
  then show ?thesis using assms by (auto simp: State_New_def)
next
  case (Inr P)
  obtain c e where r: "restoreAssignments X now visit \<lparr>cs_projects = P, cs_mem = m\<rparr> = (c, e)" by fastforce
  have k: "approvals_kept m (cs_mem c)"
    using r approvals_kept_restore [where X = X and now = now]
    by (fastforce simp: restoreAssignments_def split: sum.splits option.splits)
  show ?thesis
  proof (cases e)
    case (Some e1)
    then show ?thesis using assms Inr r k by (auto simp: State_New_def)
  next
    case None
    obtain c1 e1 where a: "restoreApprovals X c = (c1, e1)" by fastforce
    have "cs_mem c1 = cs_mem c"
      using a by (auto simp: restoreApprovals_def dest: restore_approvals_mem split: sum.splits)
    then show ?thesis using assms Inr r None a k by (auto simp: State_New_def split: option.splits)
  qed
qed

text \<open>A successful first write of a file can be read back; a failed write changes no file.\<close>

lemma putTyped_new:
  assumes p: "putTyped E cd k i n v m = (m', Ok b)" and cd: "codec_ok E cd" and new: "readRecord (ms_store m) k i = Err StNotFound"
  obtains r where "cd_dec cd (sr_Data r) = Some v" "RecordPath k i = None"
      "\<And>k2 i2. readRecord (ms_store m') k2 i2 = (if (k2, i2) = (k, i) then Ok r else readRecord (ms_store m) k2 i2)"
  using p cd
proof (cases rule: putTyped_read)
  case (wrote r)
  then show ?thesis using that by blast
next
  case kept
  from p show ?thesis
  proof (cases rule: putTyped_cases)
    case (kept x d)
    then obtain y where y: "y \<noteq> Ok True" "PutRecord E x (ms_store m) = (ms_store m', y)" by blast
    then have "y = Ok b" using p kept(2,3) by (auto simp: putTyped_def split: sum.splits)
    then have "PutRecord E x (ms_store m) = (ms_store m', Ok False)" using y by simp
    then have False using disk.put_unchanged [of E x "ms_store m" "ms_store m'"] new NewRecord_fields [OF kept(3)] by auto
    then show ?thesis ..
  qed (use kept in auto)
qed

lemma putTyped_failed:
  assumes "putTyped E cd k i n v m = (m', Err e)"
  shows "readRecord (ms_store m') k2 i2 = readRecord (ms_store m) k2 i2"
  using assms
proof (cases rule: putTyped_cases)
  case (kept r d)
  then obtain x where "x \<noteq> Ok True" "PutRecord E r (ms_store m) = (ms_store m', x)" by blast
  then show ?thesis using disk.put_others by blast
qed simp_all

text \<open>A recorded approval is the first one of its work package, and can be read back.\<close>

lemma Approval_Save_new:
  assumes cd: "codec_ok E cd" and new: "readRecord (ms_store m) ''approval'' (approval_id (av_WorkPackageID r0)) = Err StNotFound"
    and s: "Approval_Save E parse cd now r0 m = (m', Ok r)"
  shows "Approval_Get parse cd (av_WorkPackageID r0) m' = Ok r \<and> av_Decision r = av_Decision r0"
proof -
  let ?r = "if av_DecidedAt r0 = [] then r0\<lparr>av_DecidedAt := now\<rparr> else r0"
  let ?i = "approval_id (av_WorkPackageID r0)"
  have f: "av_WorkPackageID ?r = av_WorkPackageID r0" "av_Decision ?r = av_Decision r0" by simp_all
  from s obtain b where v: "ApprovalRecord_Validate parse ?r = None" and r: "r = ?r"
    and p: "putTyped E cd ''approval'' ?i (revisionOf ''approval'' ?i m + 1) ?r m = (m', Ok b)"
    unfolding Approval_Save_def Let_def f by (auto split: option.splits prod.splits sum.splits)
  obtain x where "cd_dec cd (sr_Data x) = Some ?r" "RecordPath ''approval'' ?i = None" "readRecord (ms_store m') ''approval'' ?i = Ok x"
    by (rule putTyped_new [OF p cd new]) simp
  then have "Approval_Get parse cd (av_WorkPackageID r0) m' = Ok ?r"
    using v by (simp add: Approval_Get_def getChecked_def getTyped_def GetRecord_def)
  then show ?thesis using r f by simp
qed

lemma RecordApproval_cases:
  assumes "RecordApproval X now pid wp decision actor reason c = (c', res)"
  obtains (recorded) p m1 r where "res = Ok r" "fmlookup (cs_projects c) pid = Some p" "Graph_Get (pj_Graph p) wp \<noteq> None"
      "decision = ''approve'' \<or> decision = ''reject''"
      "Approval_Get (px_parse X) (px_approval X) wp (cs_mem c) = Err (RepoStore StNotFound)"
      "Approval_Save (px_store X) (px_parse X) (px_approval X) now
         \<lparr>av_WorkPackageID = wp, av_ProjectID = pid, av_Decision = decision, av_Actor = actor, av_Reason = reason,
          av_DecidedAt = []\<rparr> (cs_mem c) = (m1, Ok r)"
      "\<exists>s1 x. run_scheduler X (\<lambda>env s. api_Resolve env wp s) (apply_decision decision wp reason (pj_API p)) m1 = (cs_mem c', s1, x)
         \<and> cs_projects c' = fmupd pid (p\<lparr>pj_API := s1\<rparr>) (cs_projects c)"
      "\<exists>ds. Assignment_ListByProject (px_assignment X) pid (cs_mem c) = Ok ds
         \<and> (\<exists>l. latest_assignment wp ds = Some l \<and> da_State l = ''awaiting_gates'')"
    | (refused) e where "res = Err e" "cs_projects c' = cs_projects c"
      "cs_mem c' = cs_mem c \<or> (\<exists>r x. Approval_Get (px_parse X) (px_approval X) wp (cs_mem c) = Err (RepoStore StNotFound)
         \<and> Approval_Save (px_store X) (px_parse X) (px_approval X) now r (cs_mem c) = (cs_mem c', x)
         \<and> av_WorkPackageID r = wp)"
  using assms unfolding RecordApproval_def
  by (fastforce split: if_splits option.splits sum.splits prod.splits)

lemma Approval_Get_missing:
  "Approval_Get parse cd wp m = Err (RepoStore StNotFound) \<Longrightarrow> readRecord (ms_store m) ''approval'' (approval_id wp) = Err StNotFound"
  by (auto simp: Approval_Get_def getChecked_def getTyped_def GetRecord_def RecordPath_def safeSegment_def
      ApprovalRecord_Validate_def split: option.splits sum.splits if_splits)

lemma Approval_Get_file:
  "Approval_Get parse cd wp m = Ok r \<Longrightarrow>
     \<exists>x. readRecord (ms_store m) ''approval'' (approval_id wp) = Ok x \<and>
       (\<forall>m'. readRecord (ms_store m') ''approval'' (approval_id wp) = Ok x \<longrightarrow> Approval_Get parse cd wp m' = Ok r)"
  by (auto simp: Approval_Get_def getChecked_def getTyped_def GetRecord_def split: option.splits sum.splits)

text \<open>No file of an approval is lost or replaced.\<close>

definition approvals_stay :: "MemState \<Rightarrow> MemState \<Rightarrow> bool" where
  "approvals_stay m m' \<longleftrightarrow> (\<forall>i x. readRecord (ms_store m) ''approval'' i = Ok x \<longrightarrow> readRecord (ms_store m') ''approval'' i = Ok x)"

lemma approvals_stay_refl [simp]: "approvals_stay m m"
  by (simp add: approvals_stay_def)

lemma approvals_stay_trans: "approvals_stay m m1 \<Longrightarrow> approvals_stay m1 m2 \<Longrightarrow> approvals_stay m m2"
  by (simp add: approvals_stay_def)

lemma approvals_stay_kept: "approvals_kept m m' \<Longrightarrow> approvals_stay m m'"
  by (simp add: approvals_stay_def)

lemma approvals_stay_Save:
  assumes new: "Approval_Get parse cd (av_WorkPackageID r) m = Err (RepoStore StNotFound)"
    and s: "Approval_Save E parse cd now r m = (m', x)"
  shows "approvals_stay m m'"
proof -
  let ?r = "if av_DecidedAt r = [] then r\<lparr>av_DecidedAt := now\<rparr> else r"
  let ?i = "approval_id (av_WorkPackageID r)"
  have f: "av_WorkPackageID ?r = av_WorkPackageID r" by simp
  have "m' = m \<or> (\<exists>y. putTyped E cd ''approval'' ?i (revisionOf ''approval'' ?i m + 1) ?r m = (m', y))"
    using s unfolding Approval_Save_def Let_def f by (auto split: option.splits prod.splits sum.splits)
  then show ?thesis
  proof
    assume "\<exists>y. putTyped E cd ''approval'' ?i (revisionOf ''approval'' ?i m + 1) ?r m = (m', y)"
    then obtain y where p: "putTyped E cd ''approval'' ?i (revisionOf ''approval'' ?i m + 1) ?r m = (m', y)" by blast
    have "readRecord (ms_store m') ''approval'' i = Ok x" if "readRecord (ms_store m) ''approval'' i = Ok x" for i x
    proof -
      have "i \<noteq> ?i" using that Approval_Get_missing [OF new] by auto
      then show ?thesis using putTyped_frame [OF p, of "''approval''" i] that by simp
    qed
    then show ?thesis by (simp add: approvals_stay_def)
  qed simp
qed

lemma approvals_stay_Record:
  assumes "RecordApproval X now pid wp decision actor reason c = (c', res)"
  shows "approvals_stay (cs_mem c) (cs_mem c')"
  using assms
proof (cases rule: RecordApproval_cases)
  case (recorded p m1 r)
  have "approvals_stay (cs_mem c) m1" by (rule approvals_stay_Save [OF _ recorded(6)]) (simp add: recorded(5))
  moreover obtain s1 x where
    "run_scheduler X (\<lambda>env s. api_Resolve env wp s) (apply_decision decision wp reason (pj_API p)) m1 = (cs_mem c', s1, x)"
    using recorded(7) by blast
  from approvals_stay_kept [OF approvals_kept_scheduler [OF this]] have "approvals_stay m1 (cs_mem c')" .
  ultimately show ?thesis by (rule approvals_stay_trans)
next
  case (refused e)
  from refused(3) show ?thesis
  proof
    assume "\<exists>r x. Approval_Get (px_parse X) (px_approval X) wp (cs_mem c) = Err (RepoStore StNotFound)
         \<and> Approval_Save (px_store X) (px_parse X) (px_approval X) now r (cs_mem c) = (cs_mem c', x)
         \<and> av_WorkPackageID r = wp"
    then show ?thesis using approvals_stay_Save by metis
  qed simp
qed

section \<open>Histories\<close>

text \<open>
  A process serves operations; a restart opens the store again and loads it. When loading fails there is no process,
  only the memory, until a later restart.
\<close>

datatype ps_op =
    OpCreate string string
  | OpEnsure string string
  | OpSubmit string string string "string list"
  | OpApprove string string string string string string
  | OpRuntime string runtime_op
  | OpRestart time "string list"

type_synonym ps_process = "MemState + ControlState"

definition mem_of :: "ps_process \<Rightarrow> MemState" where
  "mem_of s = (case s of Inl m \<Rightarrow> m | Inr c \<Rightarrow> cs_mem c)"

definition reopened :: "MemState \<Rightarrow> MemState" where
  "reopened m = m\<lparr>ms_store := store_Open (ms_store m)\<rparr>"

definition restart :: "'b PsEnv \<Rightarrow> time \<Rightarrow> string list \<Rightarrow> ps_process \<Rightarrow> ps_process" where
  "restart X now visit s =
     (case State_New X now visit (reopened (mem_of s)) of (m, Inl _) \<Rightarrow> Inl m | (m, Inr c) \<Rightarrow> Inr c)"

fun serve :: "'b PsEnv \<Rightarrow> ps_op \<Rightarrow> ControlState \<Rightarrow> ControlState" where
  "serve X (OpCreate pid name) c = fst (CreateProject X pid name c)"
| "serve X (OpEnsure pid name) c = fst (EnsureProject X pid name c)"
| "serve X (OpSubmit fresh pid title deps) c = fst (SubmitWork X fresh pid title deps c)"
| "serve X (OpApprove now pid wp decision actor reason) c = fst (RecordApproval X now pid wp decision actor reason c)"
| "serve X (OpRuntime pid rop) c = ProjectRuntime X pid rop c"
| "serve X (OpRestart now visit) c = c"

definition ps_step :: "'b PsEnv \<Rightarrow> ps_op \<Rightarrow> ps_process \<Rightarrow> ps_process" where
  "ps_step X p s =
     (case p of OpRestart now visit \<Rightarrow> restart X now visit s
      | _ \<Rightarrow> (case s of Inl m \<Rightarrow> Inl m | Inr c \<Rightarrow> Inr (serve X p c)))"

definition ps_run :: "'b PsEnv \<Rightarrow> ps_op list \<Rightarrow> ps_process \<Rightarrow> ps_process" where
  "ps_run X ops s = fold (ps_step X) ops s"

lemma readRecord_reopened [simp]: "readRecord (ms_store (reopened m)) k i = readRecord (ms_store m) k i"
  by (simp add: reopened_def store_Open_def readRecord_def kind_dir_def)

lemma approvals_stay_restart: "approvals_stay (mem_of s) (mem_of (restart X now visit s))"
proof -
  obtain m' res where n: "State_New X now visit (reopened (mem_of s)) = (m', res)" by fastforce
  from approvals_kept_New [OF n] have "approvals_stay (mem_of s) m'" "\<forall>c. res = Ok c \<longrightarrow> cs_mem c = m'"
    by (simp_all add: approvals_stay_def)
  then show ?thesis by (cases res) (simp_all add: restart_def n mem_of_def [of "Inl _"] mem_of_def [of "Inr _"])
qed

lemma mem_createLocked:
  assumes "createLocked X pid name c = (c', res)"
  shows "approvals_stay (cs_mem c) (cs_mem c')"
proof (cases "fmlookup (cs_projects c) pid")
  case None
  obtain m1 r where p: "Project_Create (px_store X) (px_parse X) (px_project X) pid name (cs_mem c) = (m1, r)" by fastforce
  then have "cs_mem c' = m1" using assms None by (auto simp: createLocked_def Let_def split: sum.splits)
  then show ?thesis using approvals_kept_kind [OF only_kind_Project_Create [OF p]] approvals_stay_kept by simp
next
  case (Some p)
  then show ?thesis using assms by (auto simp: createLocked_def)
qed

lemma approvals_stay_serve: "approvals_stay (cs_mem c) (cs_mem (serve X p c))"
proof (cases p)
  case (OpCreate pid name)
  then show ?thesis using mem_createLocked [of X pid name c] by (cases "createLocked X pid name c") (simp add: CreateProject_def)
next
  case (OpEnsure pid name)
  then show ?thesis using mem_createLocked [of X pid name c]
    by (cases "createLocked X pid name c") (auto simp: EnsureProject_def split: option.splits sum.splits)
next
  case (OpSubmit fresh pid title deps)
  obtain m1 r where w: "Work_Create (px_store X) (px_parse X) (px_work X) fresh (submitted fresh pid title deps) (cs_mem c) = (m1, r)"
    by fastforce
  have "cs_mem (fst (SubmitWork X fresh pid title deps c)) \<in> {cs_mem c, m1}"
    by (auto simp: SubmitWork_def Let_def w split: option.splits sum.splits prod.splits)
  moreover have "approvals_stay (cs_mem c) m1"
    using approvals_kept_kind [OF only_kind_Work_Create [OF w]] by (intro approvals_stay_kept) simp
  ultimately show ?thesis unfolding OpSubmit serve.simps by (metis approvals_stay_refl insertE singletonD)
next
  case (OpApprove now pid wp decision actor reason)
  then show ?thesis using approvals_stay_Record [of X now pid wp decision actor reason c]
    by (cases "RecordApproval X now pid wp decision actor reason c") simp
next
  case (OpRuntime pid rop)
  show ?thesis
  proof (cases "fmlookup (cs_projects c) pid")
    case (Some p)
    obtain m1 s1 u where r: "run_scheduler X (runtime_apply rop) (pj_API p) (cs_mem c) = (m1, s1, u)" by (metis prod_cases3)
    show ?thesis using approvals_stay_kept [OF approvals_kept_scheduler [OF r]] by (simp add: OpRuntime ProjectRuntime_def Some r)
  qed (simp add: OpRuntime ProjectRuntime_def)
qed simp

lemma approvals_stay_step: "approvals_stay (mem_of s) (mem_of (ps_step X p s))"
proof (cases "\<exists>now visit. p = OpRestart now visit")
  case True
  then show ?thesis using approvals_stay_restart by (auto simp: ps_step_def)
next
  case False
  then have "ps_step X p s = (case s of Inl m \<Rightarrow> Inl m | Inr c \<Rightarrow> Inr (serve X p c))" by (cases p) (auto simp: ps_step_def)
  then show ?thesis using approvals_stay_serve by (cases s) (simp_all add: mem_of_def)
qed

lemma approvals_stay_run: "approvals_stay (mem_of s) (mem_of (ps_run X ops s))"
proof (induction ops arbitrary: s)
  case (Cons p ops)
  show ?case using approvals_stay_trans [OF approvals_stay_step Cons.IH [of "ps_step X p s"]] by (simp add: ps_run_def)
qed (simp add: ps_run_def)

section \<open>A concrete control plane\<close>

definition one_codec :: "'a \<Rightarrow> string \<Rightarrow> 'a Codec" where
  "one_codec v d = \<lparr>cd_enc = (\<lambda>x. if x = v then Some d else None), cd_dec = (\<lambda>s. if s = d then Some v else None)\<rparr>"

lemma codec_ok_one: "(\<And>c. se_canon E d = Some c \<Longrightarrow> c = d) \<Longrightarrow> codec_ok E (one_codec v d)"
  by (auto simp: codec_ok_def one_codec_def split: if_splits)

definition ex_work :: "unit WorkPackageRecord" where
  "ex_work = (submitted ''w'' ''p'' ''t'' [])\<lparr>wc_Envelope := \<lparr>ev_ContractVersion = default_version, ev_Kind = ''work_package'',
     ev_ID = ''w'', ev_ProjectID = ''p'', ev_CreatedAt = [], ev_Revision = Some 1, ev_Provenance = None\<rparr>\<rparr>"

definition ex_durable :: DurableAssignment where
  "ex_durable = \<lparr>da_ID = ''a'', da_ProjectID = ''p'', da_WorkPackageID = ''w'', da_WorkerID = ''k'',
     da_State = ''awaiting_gates'', da_Attempt = 1, da_LeaseOwner = [], da_LeaseExpiresAt = []\<rparr>"

definition ex_decision :: ApprovalRecord where
  "ex_decision = \<lparr>av_WorkPackageID = ''w'', av_ProjectID = ''p'', av_Decision = ''approve'', av_Actor = ''ann'',
     av_Reason = [], av_DecidedAt = ''now''\<rparr>"

definition ex_px :: "unit PsEnv" where
  "ex_px = \<lparr>px_store = ex_store_env, px_parse = (\<lambda>s. Some 0), px_nano = (\<lambda>s. Some 0),
     px_project = one_codec (new_project ''p'' ''n'') ''P'', px_work = one_codec ex_work ''W'',
     px_assignment = one_codec ex_durable ''A'', px_approval = one_codec ex_decision ''D'',
     px_sched_json = (\<lambda>r. []), px_error_text = (\<lambda>e. ''failed''), px_env = ex_env\<rparr>"

definition ex_loaded :: ControlState where
  "ex_loaded = serve ex_px (OpSubmit ''w'' ''p'' ''t'' [])
     (serve ex_px (OpCreate ''p'' ''n'') \<lparr>cs_projects = fmempty, cs_mem = mem_start []\<rparr>)"

text \<open>The same with an assignment that waits for a human decision, as a scheduler would leave it.\<close>

definition ex_memory :: MemState where
  "ex_memory = fst (Assignment_Save ex_store_env (px_assignment ex_px) ex_durable (cs_mem ex_loaded))"

definition ex_waiting :: ControlState where
  "ex_waiting = ex_loaded\<lparr>cs_mem := ex_memory\<rparr>"

lemma ex_px_codec: "codec_ok (px_store ex_px) (px_approval ex_px)"
  by (auto simp: ex_px_def ex_store_env_def split: if_splits intro!: codec_ok_one)

lemma ex_recorded: "snd (RecordApproval ex_px ''now'' ''p'' ''w'' ''approve'' ''ann'' [] ex_waiting) = Ok ex_decision"
  by code_simp

text \<open>
  C19. An approval decision is final. Once a decision is recorded, no later sequence of operations, failing writes and
  restarts loses or changes it, and every later decision on the same work package is refused.
\<close>

theorem approval_final:
  assumes cd: "codec_ok (px_store X) (px_approval X)"
    and rec: "RecordApproval X now pid wp decision actor reason c = (c1, Ok r)"
    and run: "ps_run X ops (Inr c1) = Inr c2"
  shows "av_Decision r = decision \<and> Approval_Get (px_parse X) (px_approval X) wp (cs_mem c2) = Ok r
    \<and> \<not> is_Ok (snd (RecordApproval X now2 pid2 wp decision2 actor2 reason2 c2))"
proof -
  from rec have got: "Approval_Get (px_parse X) (px_approval X) wp (cs_mem c1) = Ok r \<and> av_Decision r = decision"
  proof (cases rule: RecordApproval_cases)
    case (recorded p m1 r1)
    have "Approval_Get (px_parse X) (px_approval X) wp m1 = Ok r \<and> av_Decision r = decision"
      using Approval_Save_new [OF cd _ recorded(6)] Approval_Get_missing [OF recorded(5)] recorded(1) by simp
    moreover obtain s1 x where
      "run_scheduler X (\<lambda>env s. api_Resolve env wp s) (apply_decision decision wp reason (pj_API p)) m1 = (cs_mem c1, s1, x)"
      using recorded(7) by blast
    from approvals_kept_scheduler [OF this] have "approvals_kept m1 (cs_mem c1)" .
    ultimately show ?thesis using Approval_Get_file [of "px_parse X" "px_approval X" wp m1 r] by auto
  qed simp
  moreover have "approvals_stay (cs_mem c1) (cs_mem c2)" using approvals_stay_run [of "Inr c1" X ops] run by (simp add: mem_of_def)
  ultimately have final: "Approval_Get (px_parse X) (px_approval X) wp (cs_mem c2) = Ok r"
    using Approval_Get_file [of "px_parse X" "px_approval X" wp "cs_mem c1" r] unfolding approvals_stay_def by blast
  have "\<not> is_Ok (snd (RecordApproval X now2 pid2 wp decision2 actor2 reason2 c2))"
    by (simp add: RecordApproval_def final split: option.splits)
  then show ?thesis using got final by simp
qed

theorem approval_final_witness:
  "\<exists>c1 c2. RecordApproval ex_px ''now'' ''p'' ''w'' ''approve'' ''ann'' [] ex_waiting = (c1, Ok ex_decision)
     \<and> ps_run ex_px [OpRestart 5 [], OpApprove ''later'' ''p'' ''w'' ''reject'' ''bob'' []] (Inr c1) = Inr c2
     \<and> Approval_Get (px_parse ex_px) (px_approval ex_px) ''w'' (cs_mem c2) = Ok ex_decision"
proof -
  let ?ops = "[OpRestart 5 [], OpApprove ''later'' ''p'' ''w'' ''reject'' ''bob'' []]"
  obtain c1 where c1: "RecordApproval ex_px ''now'' ''p'' ''w'' ''approve'' ''ann'' [] ex_waiting = (c1, Ok ex_decision)"
    using ex_recorded by (metis prod.collapse)
  have "is_Ok (ps_run ex_px ?ops (Inr (fst (RecordApproval ex_px ''now'' ''p'' ''w'' ''approve'' ''ann'' [] ex_waiting))))"
    by code_simp
  then obtain c2 where c2: "ps_run ex_px ?ops (Inr c1) = Inr c2" by (auto simp: c1 is_Ok_iff)
  from approval_final [OF ex_px_codec c1 c2, of undefined undefined undefined undefined undefined]
  have "Approval_Get (px_parse ex_px) (px_approval ex_px) ''w'' (cs_mem c2) = Ok ex_decision" by blast
  then show ?thesis using c1 c2 by blast
qed

end
