(* ===== verification/ProjectRestart.thy ===== *)
theory ProjectRestart
  imports ProjectStateProps
begin

text \<open>
  A restart against the state it replaces: the loaded projects and graphs are those of the process before, after any
  history that starts from an empty store.
\<close>

section \<open>Reading a directory back\<close>

lemma readRecord_iff: "readRecord s k i = Ok r \<longleftrightarrow> fmlookup (kind_dir s k) i = Some (GoodFile r)"
  by (auto simp: readRecord_def split: option.splits rec_file.splits)

lemma ListRecords_files:
  assumes wf: "store_wf s" and seg: "safeSegment ''kind'' k = None"
  shows "\<exists>rs. ListRecords k s = Ok rs \<and> distinct (map sr_ID rs) \<and> set rs = {r. \<exists>i. readRecord s k i = Ok r}"
proof -
  let ?d = "kind_dir s k"
  have good: "\<exists>r. f = GoodFile r" if "f \<in> set (fm_vals ?d)" for f
    using that wf unfolding set_fm_vals store_wf_def by blast
  from read_files_good [OF this] obtain rs where rs: "read_files (fm_vals ?d) = Ok rs" "fm_vals ?d = map GoodFile rs" by blast
  have id: "sr_ID r = i" if "fmlookup ?d i = Some (GoodFile r)" for i r
  proof -
    from that wf obtain x where "GoodFile r = GoodFile x" "sr_ID x = i" unfolding store_wf_def by blast
    then show ?thesis by simp
  qed
  have len: "length rs = length (fm_keys ?d)" using arg_cong [OF rs(2), of length] by (simp add: fm_vals_map)
  have nth: "fmlookup ?d (fm_keys ?d ! j) = Some (GoodFile (rs ! j))" if "j < length rs" for j
  proof -
    have "fm_keys ?d ! j \<in> fmdom' ?d" using that len set_fm_keys nth_mem by metis
    then obtain v where v: "fmlookup ?d (fm_keys ?d ! j) = Some v" by (auto simp: in_fmdom'_iff)
    have "the (fmlookup ?d (fm_keys ?d ! j)) = GoodFile (rs ! j)"
      using arg_cong [OF rs(2), of "\<lambda>l. l ! j"] that len by (simp add: fm_vals_map)
    then show ?thesis using v by simp
  qed
  have "map sr_ID rs = fm_keys ?d"
    by (rule nth_equalityI) (use len nth id in auto)
  then have "distinct (map sr_ID rs)" by (metis distinct_fm_keys)
  moreover have "r \<in> set rs \<longleftrightarrow> (\<exists>i. readRecord s k i = Ok r)" for r
  proof -
    have "r \<in> set rs \<longleftrightarrow> GoodFile r \<in> set (fm_vals ?d)" unfolding rs(2) by auto
    then show ?thesis by (simp add: set_fm_vals readRecord_iff)
  qed
  then have "set rs = {r. \<exists>i. readRecord s k i = Ok r}" by blast
  moreover have "distinct (map sr_ID (sort_key sr_ID rs))"
    using \<open>distinct (map sr_ID rs)\<close> by (simp add: distinct_map)
  ultimately show ?thesis using rs(1) seg by (simp add: ListRecords_def)
qed

text \<open>When every file decodes to a valid value, listing gives those values.\<close>

lemma decode_all_ok:
  "(\<And>r. r \<in> set rs \<Longrightarrow> \<exists>v. cd_dec cd (sr_Data r) = Some v \<and> check v = None) \<Longrightarrow>
     decode_all cd check rs = Ok (map (\<lambda>r. the (cd_dec cd (sr_Data r))) rs)"
  by (induction rs) fastforce+

lemma listChecked_files:
  assumes wf: "store_wf (ms_store m)" and seg: "safeSegment ''kind'' k = None"
    and all: "\<And>i x. readRecord (ms_store m) k i = Ok x \<Longrightarrow> \<exists>v. cd_dec cd (sr_Data x) = Some v \<and> check v = None \<and> key v = i"
  shows "\<exists>vs. listChecked cd check k m = Ok vs \<and> distinct (map key vs)
    \<and> set vs = {v. \<exists>i x. readRecord (ms_store m) k i = Ok x \<and> cd_dec cd (sr_Data x) = Some v}"
proof -
  obtain rs where rs: "ListRecords k (ms_store m) = Ok rs" "distinct (map sr_ID rs)"
      "set rs = {r. \<exists>i. readRecord (ms_store m) k i = Ok r}"
    using ListRecords_files [OF wf seg] by blast
  let ?v = "\<lambda>r. the (cd_dec cd (sr_Data r))"
  have r: "cd_dec cd (sr_Data r) = Some (?v r) \<and> check (?v r) = None \<and> key (?v r) = sr_ID r" if "r \<in> set rs" for r
  proof -
    from that rs(3) obtain i where i: "readRecord (ms_store m) k i = Ok r" by blast
    then have "sr_ID r = i" using store_wf_read [OF wf] by blast
    then show ?thesis using all [OF i] by auto
  qed
  have "decode_all cd check rs = Ok (map ?v rs)" by (rule decode_all_ok) (use r in blast)
  then have "listChecked cd check k m = Ok (map ?v rs)" using rs(1) by (simp add: listChecked_def)
  moreover have "map key (map ?v rs) = map sr_ID rs" using r by simp
  then have "distinct (map key (map ?v rs))" using rs(2) by metis
  moreover have "set (map ?v rs) = {v. \<exists>i x. readRecord (ms_store m) k i = Ok x \<and> cd_dec cd (sr_Data x) = Some v}"
  proof -
    have "v \<in> set (map ?v rs) \<longleftrightarrow> (\<exists>x \<in> set rs. cd_dec cd (sr_Data x) = Some v)" for v
      using r by force
    then show ?thesis unfolding rs(3) by blast
  qed
  ultimately show ?thesis by blast
qed

section \<open>Loading\<close>

abbreviation project_id :: "ProjectRecord \<Rightarrow> string" where "project_id r \<equiv> ev_ID (pr_Envelope r)"
abbreviation work_id :: "'b WorkPackageRecord \<Rightarrow> string" where "work_id w \<equiv> ev_ID (wc_Envelope w)"
abbreviation work_project :: "'b WorkPackageRecord \<Rightarrow> string" where "work_project w \<equiv> ev_ProjectID (wc_Envelope w)"

definition empty_graph :: "string \<Rightarrow> Graph" where "empty_graph pid = NewGraph pid (''graph_'' @ pid)"

lemma distinct_map_other: "distinct (map f (x # xs)) \<Longrightarrow> y \<in> set xs \<Longrightarrow> f y \<noteq> f x"
  by (metis distinct.simps(2) image_eqI list.set_map list.simps(9))

lemma load_projects_ok:
  "distinct (map project_id rs) \<Longrightarrow> (\<And>r. r \<in> set rs \<Longrightarrow> fmlookup L (project_id r) = None) \<Longrightarrow>
     \<exists>L1. load_projects rs L = Ok L1 \<and> (\<forall>pid. fmlookup L1 pid =
       (case find (\<lambda>r. project_id r = pid) rs of Some r \<Rightarrow> Some (r, empty_graph pid) | None \<Rightarrow> fmlookup L pid))"
proof (induction rs arbitrary: L)
  case (Cons r rs)
  let ?L = "fmupd (project_id r) (r, empty_graph (project_id r)) L"
  have "\<exists>L1. load_projects rs ?L = Ok L1 \<and> (\<forall>pid. fmlookup L1 pid =
       (case find (\<lambda>r. project_id r = pid) rs of Some r \<Rightarrow> Some (r, empty_graph pid) | None \<Rightarrow> fmlookup ?L pid))"
    by (rule Cons.IH) (use Cons.prems in force)+
  then obtain L1 where L1: "load_projects rs ?L = Ok L1"
    "\<And>pid. fmlookup L1 pid =
       (case find (\<lambda>r. project_id r = pid) rs of Some r \<Rightarrow> Some (r, empty_graph pid) | None \<Rightarrow> fmlookup ?L pid)" by blast
  have "find (\<lambda>x. project_id x = project_id r) rs = None"
    using distinct_map_other [OF Cons.prems(1)] by (simp add: find_None_iff)
  then have "fmlookup L1 pid = (case find (\<lambda>x. project_id x = pid) (r # rs) of Some x \<Rightarrow> Some (x, empty_graph pid)
      | None \<Rightarrow> fmlookup L pid)" for pid
    unfolding L1(2) by (auto split: option.splits)
  moreover have "load_projects (r # rs) L = Ok L1"
    using L1(1) Cons.prems(2) [of r] by (simp add: empty_graph_def Let_def)
  ultimately show ?case by blast
qed simp

text \<open>The packages of a project after adding those of a list.\<close>

definition added :: "string \<Rightarrow> 'b WorkPackageRecord list \<Rightarrow> Graph \<Rightarrow> string \<Rightarrow> WorkPackage option" where
  "added pid ws g k = (case find (\<lambda>w. work_id w = k \<and> work_project w = pid) ws of Some w \<Rightarrow> toPlanner w | None \<Rightarrow> Graph_Get g k)"

lemma toPlanner_fields:
  "toPlanner w = Some n \<Longrightarrow> wp_ID n = work_id w \<and> wp_State n \<noteq> StateOther [] \<and> wp_DependsOn n = wc_Dependencies w"
  by (auto simp: toPlanner_def fromContractState_def split: if_splits)

lemma Graph_Add_new:
  assumes "graph_wf g" and "Graph_Get g (wp_ID n) = None" and "wp_ID n \<noteq> []" and "wp_State n \<noteq> StateOther []"
  shows "\<exists>g1. Graph_Add g n = Ok g1 \<and> graph_wf g1 \<and> (\<forall>k. Graph_Get g1 k = (if k = wp_ID n then Some n else Graph_Get g k))"
proof -
  obtain g1 where a: "Graph_Add g n = Ok g1" using assms(2,3) by (auto simp: Graph_Add_def Graph_Get_def Let_def)
  moreover have "graph_wf g1" by (rule graph_wf_Add [OF assms(1) a])
  ultimately show ?thesis using Graph_Add_spec [OF assms(1), of n] assms(4) by auto
qed

lemma load_work_ok:
  assumes "distinct (map work_id ws)"
    and "\<And>w. w \<in> set ws \<Longrightarrow> work_id w \<noteq> [] \<and> toPlanner w \<noteq> None
      \<and> (\<exists>r g. fmlookup L (work_project w) = Some (r, g) \<and> Graph_Get g (work_id w) = None)"
    and "\<forall>pid r g. fmlookup L pid = Some (r, g) \<longrightarrow> graph_wf g"
  shows "\<exists>L1. load_work ws L = Ok L1 \<and> (\<forall>pid. case fmlookup L pid of None \<Rightarrow> fmlookup L1 pid = None
    | Some (r, g) \<Rightarrow> \<exists>g1. fmlookup L1 pid = Some (r, g1) \<and> graph_wf g1 \<and> (\<forall>k. Graph_Get g1 k = added pid ws g k))"
  using assms
proof (induction ws arbitrary: L)
  case Nil
  then show ?case by (auto simp: added_def split: option.splits)
next
  case (Cons w ws)
  obtain n r g where n: "toPlanner w = Some n" and L: "fmlookup L (work_project w) = Some (r, g)" "Graph_Get g (work_id w) = None"
    using Cons.prems(2) [of w] by auto
  have wf: "graph_wf g" using Cons.prems(3) L(1) by blast
  obtain g1 where g1: "Graph_Add g n = Ok g1" "graph_wf g1" "\<And>k. Graph_Get g1 k = (if k = work_id w then Some n else Graph_Get g k)"
    using Graph_Add_new [OF wf, of n] toPlanner_fields [OF n] L(2) Cons.prems(2) [of w] by auto
  let ?L = "fmupd (work_project w) (r, g1) L"
  have other: "work_id x \<noteq> work_id w" if "x \<in> set ws" for x by (rule distinct_map_other [OF Cons.prems(1) that])
  have "\<exists>L1. load_work ws ?L = Ok L1 \<and> (\<forall>pid. case fmlookup ?L pid of None \<Rightarrow> fmlookup L1 pid = None
    | Some (r, g) \<Rightarrow> \<exists>g1. fmlookup L1 pid = Some (r, g1) \<and> graph_wf g1 \<and> (\<forall>k. Graph_Get g1 k = added pid ws g k))"
  proof (rule Cons.IH)
    show "distinct (map work_id ws)" using Cons.prems(1) by simp
    show "\<forall>pid q h. fmlookup ?L pid = Some (q, h) \<longrightarrow> graph_wf h"
      using g1(2) Cons.prems(3) by auto
    show "work_id x \<noteq> [] \<and> toPlanner x \<noteq> None
        \<and> (\<exists>q h. fmlookup ?L (work_project x) = Some (q, h) \<and> Graph_Get h (work_id x) = None)" if "x \<in> set ws" for x
      using Cons.prems(2) [of x] that L(1) g1(3) other [OF that] by auto
  qed
  then obtain L1 where load: "load_work ws ?L = Ok L1" and L1: "\<And>pid. case fmlookup ?L pid of None \<Rightarrow> fmlookup L1 pid = None
    | Some (r, g) \<Rightarrow> \<exists>g1. fmlookup L1 pid = Some (r, g1) \<and> graph_wf g1 \<and> (\<forall>k. Graph_Get g1 k = added pid ws g k)" by blast
  have none: "find (\<lambda>x. work_id x = work_id w \<and> work_project x = pid) ws = None" for pid
    using other by (auto simp: find_None_iff)
  have "added (work_project w) ws g1 k = added (work_project w) (w # ws) g k" for k
    using n none [of "work_project w"] by (auto simp: added_def g1(3) split: option.splits)
  moreover have "added pid ws h k = added pid (w # ws) h k" if "pid \<noteq> work_project w" for pid h k
    using that by (simp add: added_def)
  ultimately have "case fmlookup L pid of None \<Rightarrow> fmlookup L1 pid = None
    | Some (r, g) \<Rightarrow> \<exists>g1. fmlookup L1 pid = Some (r, g1) \<and> graph_wf g1 \<and> (\<forall>k. Graph_Get g1 k = added pid (w # ws) g k)" for pid
    using L1 [of pid] L(1) by (cases "pid = work_project w") (auto split: option.splits)
  moreover have "load_work (w # ws) L = Ok L1" using load L(1) n g1(1) by (simp add: Let_def)
  ultimately show ?case by blast
qed

text \<open>A project as \<open>attachRuntime\<close> makes it.\<close>

definition idle :: "Graph \<Rightarrow> Service \<Rightarrow> bool" where
  "idle g s \<longleftrightarrow> o_graph (sv_orch s) = g \<and> o_assignments (sv_orch s) = fmempty \<and> \<not> sv_enabled s"

lemma attachRuntime_ok:
  "Graph_Validate g = None \<Longrightarrow> \<exists>p. attachRuntime r g = Ok p \<and> pj_Record p = r \<and> idle g (pj_API p)"
  by (simp add: attachRuntime_def Scheduler_New_def runtime_config_def api_New_def idle_def)

lemma attach_all_ok:
  "\<forall>pid r g. fmlookup L pid = Some (r, g) \<longrightarrow> Graph_Validate g = None \<Longrightarrow>
     \<exists>P1. attach_all pids L P = Ok P1 \<and> (\<forall>pid. if pid \<in> set pids \<and> fmlookup L pid \<noteq> None
       then \<exists>r g p. fmlookup L pid = Some (r, g) \<and> fmlookup P1 pid = Some p \<and> pj_Record p = r \<and> idle g (pj_API p)
       else fmlookup P1 pid = fmlookup P pid)"
proof (induction pids arbitrary: P)
  case (Cons k pids)
  show ?case
  proof (cases "fmlookup L k")
    case None
    with Cons.IH [where P = P, OF Cons.prems] show ?thesis by (fastforce split: if_splits)
  next
    case (Some v)
    obtain r g where v: "v = (r, g)" by (cases v)
    have valid: "Graph_Validate g = None" using Cons.prems Some v by blast
    then obtain p where p: "attachRuntime r g = Ok p" "pj_Record p = r" "idle g (pj_API p)" using attachRuntime_ok by blast
    obtain P1 where P1: "attach_all pids L (fmupd k p P) = Ok P1" "\<And>pid. if pid \<in> set pids \<and> fmlookup L pid \<noteq> None
       then \<exists>r g p. fmlookup L pid = Some (r, g) \<and> fmlookup P1 pid = Some p \<and> pj_Record p = r \<and> idle g (pj_API p)
       else fmlookup P1 pid = fmlookup (fmupd k p P) pid" using Cons.IH [where P = "fmupd k p P", OF Cons.prems] by blast
    have "if pid \<in> set (k # pids) \<and> fmlookup L pid \<noteq> None
       then \<exists>r g p. fmlookup L pid = Some (r, g) \<and> fmlookup P1 pid = Some p \<and> pj_Record p = r \<and> idle g (pj_API p)
       else fmlookup P1 pid = fmlookup P pid" for pid
      using P1(2) [of pid] Some v p(2,3) by (cases "pid = k") (auto split: if_splits)
    moreover have "attach_all (k # pids) L P = Ok P1" using P1(1) Some v valid p(1) by simp
    ultimately show ?thesis by blast
  qed
qed simp

section \<open>Memory and process agree\<close>

definition project_check :: "'b PsEnv \<Rightarrow> ProjectRecord \<Rightarrow> repo_error option" where
  "project_check X = contract_check \<circ> ProjectRecord_Validate (px_parse X)"

text \<open>What a file of a kind decodes to.\<close>

definition holds :: "'a Codec \<Rightarrow> string \<Rightarrow> MemState \<Rightarrow> string \<Rightarrow> 'a \<Rightarrow> bool" where
  "holds cd k m i v \<longleftrightarrow> (\<exists>x. readRecord (ms_store m) k i = Ok x \<and> cd_dec cd (sr_Data x) = Some v)"

text \<open>The process has the project with these packages, all of them valid, and nothing runs.\<close>

definition runs_graph :: "(string, Project) fmap \<Rightarrow> string \<Rightarrow> ProjectRecord \<Rightarrow> (string \<Rightarrow> WorkPackage option) \<Rightarrow> bool" where
  "runs_graph P pid r pkgs \<longleftrightarrow> (\<exists>p g. fmlookup P pid = Some p \<and> pj_Record p = r \<and> idle g (pj_API p)
     \<and> graph_wf g \<and> Graph_Validate g = None \<and> (\<forall>k. Graph_Get g k = pkgs k))"

definition files_ok :: "'b PsEnv \<Rightarrow> string set \<Rightarrow> MemState \<Rightarrow> bool" where
  "files_ok X used m \<longleftrightarrow> store_wf (ms_store m)
     \<and> (\<forall>i x. readRecord (ms_store m) ''assignment'' i \<noteq> Ok x) \<and> (\<forall>i x. readRecord (ms_store m) ''approval'' i \<noteq> Ok x)
     \<and> (\<forall>i x. readRecord (ms_store m) ''project_record'' i = Ok x \<longrightarrow>
          (\<exists>r. holds (px_project X) ''project_record'' m i r \<and> project_check X r = None \<and> project_id r = i))
     \<and> (\<forall>i x. readRecord (ms_store m) ''work_package'' i = Ok x \<longrightarrow> i \<in> used \<and>
          (\<exists>w r. holds (px_work X) ''work_package'' m i w \<and> work_check (px_parse X) w = None \<and> work_id w = i \<and> i \<noteq> []
             \<and> toPlanner w \<noteq> None \<and> holds (px_project X) ''project_record'' m (work_project w) r))"

definition packages_of :: "'b PsEnv \<Rightarrow> MemState \<Rightarrow> string \<Rightarrow> string \<Rightarrow> WorkPackage option" where
  "packages_of X m pid k =
     (case readRecord (ms_store m) ''work_package'' k of Inl _ \<Rightarrow> None
      | Inr x \<Rightarrow> (case cd_dec (px_work X) (sr_Data x) of None \<Rightarrow> None
         | Some w \<Rightarrow> if work_project w = pid then toPlanner w else None))"

definition projects_ok :: "'b PsEnv \<Rightarrow> MemState \<Rightarrow> (string, Project) fmap \<Rightarrow> bool" where
  "projects_ok X m P \<longleftrightarrow> (\<forall>pid r. holds (px_project X) ''project_record'' m pid r \<longrightarrow> runs_graph P pid r (packages_of X m pid))
     \<and> (\<forall>pid p. fmlookup P pid = Some p \<longrightarrow> (\<exists>r. holds (px_project X) ''project_record'' m pid r))"

definition control_ok :: "'b PsEnv \<Rightarrow> string set \<Rightarrow> ControlState \<Rightarrow> bool" where
  "control_ok X used c \<longleftrightarrow> files_ok X used (cs_mem c) \<and> projects_ok X (cs_mem c) (cs_projects c)"

text \<open>A validated graph depends on its packages only, not on the order they were added in.\<close>

lemma graph_same_order:
  assumes "graph_wf g" and "graph_wf h" and "\<And>k. Graph_Get g k = Graph_Get h k"
  shows "set (g_order g) = set (g_order h)" and "Graph_node g k = Graph_node h k"
proof -
  have "g_nodes g = g_nodes h" by (rule fmap_ext) (use assms(3) in \<open>simp add: Graph_Get_def\<close>)
  then show "set (g_order g) = set (g_order h)" "Graph_node g k = Graph_node h k"
    using assms(1,2) by (simp_all add: graph_wf_def Graph_node_def)
qed

lemma Validate_same:
  assumes "graph_wf g" and "graph_wf h" and "\<And>k. Graph_Get g k = Graph_Get h k"
  shows "Graph_Validate g = None \<longleftrightarrow> Graph_Validate h = None"
proof -
  note s = graph_same_order [OF assms]
  have "graph_rel g = graph_rel h" by (simp add: dep_rel_def s)
  moreover have "deps_closed g = deps_closed h" by (simp add: deps_closed_def list_all_iff s)
  ultimately show ?thesis using Validate_iff [OF assms(1)] Validate_iff [OF assms(2)] by simp
qed

lemma Ready_same:
  assumes "graph_wf g" and "graph_wf h" and "\<And>k. Graph_Get g k = Graph_Get h k"
  shows "Graph_Ready g = Graph_Ready h"
proof -
  have "set (Graph_Ready g) = set (Graph_Ready h)"
    using Graph_Ready_correct [OF assms(1)] Graph_Ready_correct [OF assms(2)] assms(3) by auto
  then show ?thesis using Graph_Ready_correct [OF assms(1)] Graph_Ready_correct [OF assms(2)]
    by (intro sorted_distinct_set_unique) blast+
qed

lemma holds_unique: "holds cd k m i v \<Longrightarrow> holds cd k m i w \<Longrightarrow> v = w"
  by (auto simp: holds_def)

lemma packages_of_found:
  assumes ok: "files_ok X used m" and d: "distinct (map work_id ws)" and ws: "set ws = {w. \<exists>i. holds (px_work X) ''work_package'' m i w}"
  shows "added pid ws (empty_graph q) k = packages_of X m pid k"
proof -
  have id: "work_id w = i" if "holds (px_work X) ''work_package'' m i w" for i w
  proof -
    from that obtain x where "readRecord (ms_store m) ''work_package'' i = Ok x" by (auto simp: holds_def)
    then obtain w2 where "holds (px_work X) ''work_package'' m i w2" "work_id w2 = i" using ok unfolding files_ok_def by blast
    then show ?thesis using holds_unique [OF that] by blast
  qed
  show ?thesis
  proof (cases "find (\<lambda>w. work_id w = k \<and> work_project w = pid) ws")
    case None
    then have no: "\<not> (holds (px_work X) ''work_package'' m k w \<and> work_project w = pid)" for w
      using ws id by (auto simp: find_None_iff)
    have "packages_of X m pid k = None"
      using no by (auto simp: packages_of_def holds_def split: sum.splits option.splits)
    then show ?thesis by (simp add: added_def None empty_graph_def Graph_Get_def NewGraph_def)
  next
    case (Some w)
    then have w: "w \<in> set ws" "work_id w = k" "work_project w = pid" by (auto simp: find_Some_iff)
    then obtain i where "holds (px_work X) ''work_package'' m i w" using ws by blast
    then have "holds (px_work X) ''work_package'' m k w" using id w(2) by blast
    then have "packages_of X m pid k = toPlanner w" using w(3) by (auto simp: packages_of_def holds_def)
    then show ?thesis by (simp add: added_def Some)
  qed
qed

section \<open>A restart\<close>

lemma kinds_safe [simp]:
  "safeSegment ''kind'' ''project_record'' = None" "safeSegment ''kind'' ''work_package'' = None"
  "safeSegment ''kind'' ''assignment'' = None" "safeSegment ''kind'' ''approval'' = None"
  by code_simp+

lemma list_nothing:
  assumes "store_wf (ms_store m)" and "\<And>i x. readRecord (ms_store m) k i \<noteq> Ok x" and "safeSegment ''kind'' k = None"
  shows "listChecked cd check k m = Ok []"
  using listChecked_files [OF assms(1,3), of cd check "\<lambda>_. []"] assms(2) by auto

lemma list_projects:
  assumes ok: "files_ok X used m"
  obtains rs where "Project_List (px_parse X) (px_project X) m = Ok rs" "distinct (map project_id rs)"
    "set rs = {r. \<exists>i. holds (px_project X) ''project_record'' m i r}"
proof -
  have "store_wf (ms_store m)" using ok by (simp add: files_ok_def)
  moreover have "\<exists>v. cd_dec (px_project X) (sr_Data x) = Some v \<and> project_check X v = None \<and> project_id v = i"
    if "readRecord (ms_store m) ''project_record'' i = Ok x" for i x
    using that ok unfolding files_ok_def holds_def by fastforce
  ultimately show ?thesis
    using listChecked_files [of m "''project_record''" "px_project X" "project_check X" project_id] that
    by (fastforce simp: Project_List_def project_check_def holds_def)
qed

lemma list_work:
  assumes ok: "files_ok X used m"
  obtains ws where "Work_List (px_parse X) (px_work X) m = Ok ws" "distinct (map work_id ws)"
    "set ws = {w. \<exists>i. holds (px_work X) ''work_package'' m i w}"
proof -
  have "store_wf (ms_store m)" using ok by (simp add: files_ok_def)
  moreover have "\<exists>v. cd_dec (px_work X) (sr_Data x) = Some v \<and> work_check (px_parse X) v = None \<and> work_id v = i"
    if "readRecord (ms_store m) ''work_package'' i = Ok x" for i x
    using that ok unfolding files_ok_def holds_def by fastforce
  ultimately show ?thesis
    using listChecked_files [of m "''work_package''" "px_work X" "work_check (px_parse X)" work_id] that
    by (fastforce simp: Work_List_def holds_def)
qed

lemma holds_project_id:
  assumes "files_ok X used m" and "holds (px_project X) ''project_record'' m i r"
  shows "project_id r = i"
  using assms holds_unique [OF assms(2)] unfolding files_ok_def holds_def by metis

lemma load_state_ok:
  assumes ok: "files_ok X used m" and old: "projects_ok X m P0"
  shows "\<exists>P. load_state X m = Ok P \<and> projects_ok X m P"
proof -
  obtain rs where rs: "Project_List (px_parse X) (px_project X) m = Ok rs" "distinct (map project_id rs)"
    "set rs = {r. \<exists>i. holds (px_project X) ''project_record'' m i r}" by (rule list_projects [OF ok])
  obtain ws where ws: "Work_List (px_parse X) (px_work X) m = Ok ws" "distinct (map work_id ws)"
    "set ws = {w. \<exists>i. holds (px_work X) ''work_package'' m i w}" by (rule list_work [OF ok])
  obtain L where L: "load_projects rs fmempty = Ok L" "\<And>pid. fmlookup L pid =
       (case find (\<lambda>r. project_id r = pid) rs of Some r \<Rightarrow> Some (r, empty_graph pid) | None \<Rightarrow> fmlookup fmempty pid)"
    using load_projects_ok [OF rs(2), of fmempty] by (metis fmempty_lookup)
  have inL: "fmlookup L pid = Some (r, g) \<longleftrightarrow> holds (px_project X) ''project_record'' m pid r \<and> g = empty_graph pid" for pid r g
  proof (cases "find (\<lambda>r. project_id r = pid) rs")
    case None
    then have "\<not> holds (px_project X) ''project_record'' m pid r"
      using rs(3) holds_project_id [OF ok] by (auto simp: find_None_iff)
    then show ?thesis by (simp add: L(2) None)
  next
    case (Some q)
    then have "q \<in> set rs" "project_id q = pid" by (auto simp: find_Some_iff)
    then have "holds (px_project X) ''project_record'' m pid q" using rs(3) holds_project_id [OF ok] by auto
    then show ?thesis using holds_unique [of "px_project X" "''project_record''" m pid] by (auto simp: L(2) Some)
  qed
  have wf: "\<forall>pid r g. fmlookup L pid = Some (r, g) \<longrightarrow> graph_wf g" by (simp add: inL empty_graph_def)
  have each: "work_id w \<noteq> [] \<and> toPlanner w \<noteq> None
      \<and> (\<exists>r g. fmlookup L (work_project w) = Some (r, g) \<and> Graph_Get g (work_id w) = None)" if "w \<in> set ws" for w
  proof -
    from that ws(3) obtain i where h: "holds (px_work X) ''work_package'' m i w" by blast
    then obtain x where "readRecord (ms_store m) ''work_package'' i = Ok x" by (auto simp: holds_def)
    then obtain w2 r where w2: "holds (px_work X) ''work_package'' m i w2" "work_id w2 = i" "i \<noteq> []" "toPlanner w2 \<noteq> None"
        "holds (px_project X) ''project_record'' m (work_project w2) r"
      using ok unfolding files_ok_def by blast
    have "w2 = w" by (rule holds_unique [OF w2(1) h])
    then show ?thesis using w2 inL by (auto simp: empty_graph_def Graph_Get_def NewGraph_def)
  qed
  from load_work_ok [OF ws(2) each wf] obtain L1 where L1: "load_work ws L = Ok L1"
    "\<And>pid. case fmlookup L pid of None \<Rightarrow> fmlookup L1 pid = None
      | Some (r, g) \<Rightarrow> \<exists>g1. fmlookup L1 pid = Some (r, g1) \<and> graph_wf g1 \<and> (\<forall>k. Graph_Get g1 k = added pid ws g k)" by blast
  have fwd: "graph_wf g1 \<and> holds (px_project X) ''project_record'' m pid r \<and> (\<forall>k. Graph_Get g1 k = packages_of X m pid k)"
    if "fmlookup L1 pid = Some (r, g1)" for pid r g1
  proof -
    from that L1(2) [of pid] obtain g where "fmlookup L pid = Some (r, g)" "graph_wf g1" "\<forall>k. Graph_Get g1 k = added pid ws g k"
      by (auto split: option.splits)
    then show ?thesis using inL packages_of_found [OF ok ws(2,3)] by auto
  qed
  have valid: "Graph_Validate g1 = None" if l: "fmlookup L1 pid = Some (r, g1)" for pid r g1
  proof -
    have "runs_graph P0 pid r (packages_of X m pid)" using fwd [OF l] old unfolding projects_ok_def by blast
    then obtain g0 where "graph_wf g0" "Graph_Validate g0 = None" "\<And>k. Graph_Get g0 k = packages_of X m pid k"
      unfolding runs_graph_def by blast
    then show ?thesis using Validate_same [of g1 g0] fwd [OF l] by simp
  qed
  obtain P where P: "attach_all (fm_keys L1) L1 fmempty = Ok P" "\<And>pid. if pid \<in> set (fm_keys L1) \<and> fmlookup L1 pid \<noteq> None
       then \<exists>r g p. fmlookup L1 pid = Some (r, g) \<and> fmlookup P pid = Some p \<and> pj_Record p = r \<and> idle g (pj_API p)
       else fmlookup P pid = fmlookup fmempty pid"
    using attach_all_ok [of L1 "fm_keys L1" fmempty] valid by blast
  have "runs_graph P pid r (packages_of X m pid)" if "holds (px_project X) ''project_record'' m pid r" for pid r
  proof -
    have "fmlookup L pid = Some (r, empty_graph pid)" using that inL by blast
    then obtain g1 where g1: "fmlookup L1 pid = Some (r, g1)" using L1(2) [of pid] by auto
    then show ?thesis using P(2) [of pid] fwd [OF g1] valid [OF g1] by (auto simp: runs_graph_def in_fmdom'_iff)
  qed
  moreover have "\<exists>r. holds (px_project X) ''project_record'' m pid r" if "fmlookup P pid = Some p" for pid p
    using that P(2) [of pid] fwd by (auto split: if_splits)
  ultimately have "projects_ok X m P" by (simp add: projects_ok_def)
  then show ?thesis using rs(1) L(1) ws(1) L1(1) P(1) by (simp add: load_state_def)
qed

lemma nothing_listed:
  assumes "files_ok X used m"
  shows "Assignment_List (px_assignment X) m = Ok []" and "Approval_List (px_parse X) (px_approval X) m = Ok []"
proof -
  have f: "store_wf (ms_store m)" "\<And>i x. readRecord (ms_store m) ''assignment'' i \<noteq> Ok x"
    "\<And>i x. readRecord (ms_store m) ''approval'' i \<noteq> Ok x" using assms unfolding files_ok_def by blast+
  show "Assignment_List (px_assignment X) m = Ok []"
    unfolding Assignment_List_def by (rule list_nothing [OF f(1,2)]) simp
  show "Approval_List (px_parse X) (px_approval X) m = Ok []"
    unfolding Approval_List_def by (rule list_nothing [OF f(1,3)]) simp
qed

text \<open>Files read the same after the store is opened again.\<close>

definition same_files :: "MemState \<Rightarrow> MemState \<Rightarrow> bool" where
  "same_files m m' \<longleftrightarrow> store_wf (ms_store m') = store_wf (ms_store m)
     \<and> (\<forall>k i. readRecord (ms_store m') k i = readRecord (ms_store m) k i)"

lemma same_files_control:
  assumes "same_files m m'"
  shows "files_ok X used m' = files_ok X used m" "projects_ok X m' P = projects_ok X m P" "packages_of X m' = packages_of X m"
  using assms by (simp_all add: files_ok_def projects_ok_def packages_of_def [abs_def] holds_def same_files_def)

lemma same_files_reopened: "same_files m (reopened m)"
  by (simp add: same_files_def reopened_def store_Open_def readRecord_def kind_dir_def store_wf_def)

lemma restart_ok:
  assumes ok: "control_ok X used c"
  shows "\<exists>c'. restart X now visit (Inr c) = Inr c' \<and> control_ok X used c' \<and> same_files (cs_mem c) (cs_mem c')"
proof -
  let ?m = "reopened (cs_mem c)"
  note same = same_files_control [OF same_files_reopened [of "cs_mem c"], where X = X]
  have f: "files_ok X used ?m" and p: "projects_ok X ?m (cs_projects c)" using ok same by (simp_all add: control_ok_def)
  obtain P where P: "load_state X ?m = Ok P" "projects_ok X ?m P" using load_state_ok [OF f p] by blast
  note none = nothing_listed [OF f]
  have "restoreAssignments X now visit \<lparr>cs_projects = P, cs_mem = ?m\<rparr> = (\<lparr>cs_projects = P, cs_mem = ?m\<rparr>, None)"
    by (simp add: restoreAssignments_def none visit_order_def)
  moreover have "restoreApprovals X \<lparr>cs_projects = P, cs_mem = ?m\<rparr> = (\<lparr>cs_projects = P, cs_mem = ?m\<rparr>, None)"
    by (simp add: restoreApprovals_def none)
  ultimately have "restart X now visit (Inr c) = Inr \<lparr>cs_projects = P, cs_mem = ?m\<rparr>"
    by (simp add: restart_def mem_of_def State_New_def P(1))
  then show ?thesis using P(2) f same_files_reopened [of "cs_mem c"] by (simp add: control_ok_def)
qed

section \<open>Operations keep the agreement\<close>

lemma wf_star: "k \<notin> D \<Longrightarrow> wf (D \<times> {k})" for k :: string
  by (rule wf_subset [OF wf_measure [of "\<lambda>x. if x = k then 1 else 0"]]) auto

text \<open>A new package whose dependencies exist keeps a valid graph valid.\<close>

lemma Validate_add:
  assumes g: "graph_wf g" "Graph_Validate g = None" and h: "graph_wf h"
    and get: "\<And>k. Graph_Get h k = (if k = wp_ID n then Some n else Graph_Get g k)"
    and new: "Graph_Get g (wp_ID n) = None" and deps: "\<And>d. d \<in> set (wp_DependsOn n) \<Longrightarrow> Graph_Get g d \<noteq> None"
  shows "Graph_Validate h = None"
proof -
  have mem: "k \<in> set (g_order g') \<longleftrightarrow> Graph_Get g' k \<noteq> None" if "graph_wf g'" for g' k
    using that by (simp add: graph_wf_def Graph_Get_def in_fmdom'_iff)
  have node: "Graph_node h k = (if k = wp_ID n then n else Graph_node g k)" for k
    using get [of k] by (simp add: Graph_node_def fm_getd_def Graph_Get_def)
  from g have closed: "deps_closed g" and acy: "acyclic (graph_rel g)" by (simp_all add: Validate_iff)
  have out: "wp_ID n \<notin> set (Graph_deps g k)" if "k \<in> set (g_order g)" for k
  proof
    assume "wp_ID n \<in> set (Graph_deps g k)"
    then have "wp_ID n \<in> set (g_order g)" using closed that unfolding deps_closed_def list_all_iff by blast
    then show False using mem [OF g(1)] new by simp
  qed
  have set_h: "set (g_order h) = insert (wp_ID n) (set (g_order g))"
    using mem [OF h] mem [OF g(1)] get by (auto split: if_splits)
  have "deps_closed h"
    using closed deps mem [OF g(1)] by (auto simp: deps_closed_def list_all_iff set_h node)
  moreover have rel: "graph_rel h \<subseteq> graph_rel g \<union> set (wp_DependsOn n) \<times> {wp_ID n}"
    using out deps new by (auto simp: dep_rel_def set_h node split: if_splits)
  have "wf (graph_rel g \<union> set (wp_DependsOn n) \<times> {wp_ID n})"
  proof (rule wf_Un)
    show "wf (graph_rel g)" using acy by (intro finite_acyclic_wf) auto
    show "wf (set (wp_DependsOn n) \<times> {wp_ID n})" by (rule wf_star) (use deps [of "wp_ID n"] new in auto)
    show "Domain (graph_rel g) \<inter> Range (set (wp_DependsOn n) \<times> {wp_ID n}) = {}"
      using out by (auto simp: dep_rel_def)
  qed
  then have "acyclic (graph_rel h)" using rel by (metis wf_subset wf_acyclic)
  ultimately show ?thesis by (simp add: Validate_iff [OF h])
qed

lemma empty_graph_ok [simp]:
  "graph_wf (empty_graph pid)" "Graph_Get (empty_graph pid) k = None" "Graph_Validate (empty_graph pid) = None"
proof -
  show wf: "graph_wf (empty_graph pid)" by (simp add: empty_graph_def)
  show "Graph_Get (empty_graph pid) k = None" by (simp add: empty_graph_def NewGraph_def Graph_Get_def)
  show "Graph_Validate (empty_graph pid) = None"
    unfolding Validate_iff [OF wf] by (simp add: empty_graph_def NewGraph_def deps_closed_def dep_rel_def acyclic_def)
qed

lemma project_added:
  assumes ok: "files_ok X used m" "projects_ok X m P" and new: "fmlookup P pid = None" and wf: "store_wf (ms_store m1)"
    and rd: "\<And>k i. readRecord (ms_store m1) k i = (if (k, i) = (''project_record'', pid) then Ok x else readRecord (ms_store m) k i)"
    and r: "cd_dec (px_project X) (sr_Data x) = Some r" "project_check X r = None" "project_id r = pid"
    and p: "pj_Record p = r" "idle (empty_graph pid) (pj_API p)"
  shows "files_ok X used m1 \<and> projects_ok X m1 (fmupd pid p P)"
proof -
  have no: "\<not> holds (px_project X) ''project_record'' m pid q" for q
    using ok(2) new unfolding projects_ok_def runs_graph_def by fastforce
  have hp: "holds (px_project X) ''project_record'' m1 i q \<longleftrightarrow> (if i = pid then q = r else holds (px_project X) ''project_record'' m i q)" for i q
    using r(1) by (auto simp: holds_def rd)
  have hw: "holds (px_work X) ''work_package'' m1 i w = holds (px_work X) ''work_package'' m i w" for i w
    by (simp add: holds_def rd)
  have "work_project w \<noteq> pid" if "holds (px_work X) ''work_package'' m i w" for i w
    using that ok(1) no holds_unique [OF that] unfolding files_ok_def holds_def by metis
  then have none: "packages_of X m pid k = None" for k
    by (auto simp: packages_of_def holds_def split: sum.splits option.splits)
  have same: "packages_of X m1 = packages_of X m" by (simp add: packages_of_def [abs_def] rd)
  have "files_ok X used m1"
    using ok(1) wf r(2,3) no unfolding files_ok_def hp hw by (auto simp: rd split: if_splits) metis+
  moreover have "runs_graph (fmupd pid p P) i q (packages_of X m1 i)" if "holds (px_project X) ''project_record'' m1 i q" for i q
  proof (cases "i = pid")
    case True
    have "Graph_Get (empty_graph pid) k = packages_of X m1 pid k" for k by (simp add: none same)
    then show ?thesis using True that p empty_graph_ok unfolding hp runs_graph_def by fastforce
  next
    case False
    then show ?thesis using that ok(2) by (auto simp: hp runs_graph_def same projects_ok_def)
  qed
  moreover have "\<exists>q. holds (px_project X) ''project_record'' m1 i q" if "fmlookup (fmupd pid p P) i = Some p1" for i p1
    using that ok(2) by (auto simp: hp projects_ok_def split: if_splits)
  ultimately show ?thesis by (simp add: projects_ok_def)
qed

lemma work_added:
  assumes ok: "files_ok X used m" "projects_ok X m P" and new: "wid \<notin> used" and wf: "store_wf (ms_store m1)"
    and rd: "\<And>k i. readRecord (ms_store m1) k i = (if (k, i) = (''work_package'', wid) then Ok x else readRecord (ms_store m) k i)"
    and w: "cd_dec (px_work X) (sr_Data x) = Some w" "work_check (px_parse X) w = None" "work_id w = wid" "wid \<noteq> []"
      "work_project w = pid" "toPlanner w = Some n"
    and p: "fmlookup P pid = Some p" "pj_Record p1 = pj_Record p" "idle g1 (pj_API p1)" "graph_wf g1"
      "\<And>k. Graph_Get g1 k = (if k = wid then Some n else Graph_Get (pj_Graph p) k)"
    and deps: "\<And>d. d \<in> set (wp_DependsOn n) \<Longrightarrow> Graph_Get (pj_Graph p) d \<noteq> None"
  shows "files_ok X (insert wid used) m1 \<and> projects_ok X m1 (fmupd pid p1 P)"
proof -
  obtain r where r: "holds (px_project X) ''project_record'' m pid r" using ok(2) p(1) unfolding projects_ok_def by blast
  have hp: "holds (px_project X) ''project_record'' m1 = holds (px_project X) ''project_record'' m"
    by (simp add: holds_def [abs_def] rd)
  have hw: "holds (px_work X) ''work_package'' m1 i v \<longleftrightarrow> (if i = wid then v = w else holds (px_work X) ''work_package'' m i v)" for i v
    using w(1) by (auto simp: holds_def rd)
  have id: "wp_ID n = wid" using toPlanner_fields [OF w(6)] w(3) by simp
  from r ok(2) obtain g where g: "pj_Record p = r" "idle g (pj_API p)" "graph_wf g" "Graph_Validate g = None"
      "\<And>k. Graph_Get g k = packages_of X m pid k"
    using p(1) unfolding projects_ok_def runs_graph_def by fastforce
  have gp: "pj_Graph p = g" using g(2) by (simp add: idle_def)
  have fresh: "readRecord (ms_store m) ''work_package'' wid \<noteq> Ok y" for y using ok(1) new unfolding files_ok_def by blast
  have none: "packages_of X m q wid = None" for q using fresh by (auto simp: packages_of_def split: sum.splits)
  have same: "packages_of X m1 q k = (if k = wid \<and> q = pid then Some n else packages_of X m q k)" for q k
    using w(1,5,6) none by (simp add: packages_of_def rd)
  have "files_ok X (insert wid used) m1"
    using ok(1) wf w(2-6) r unfolding files_ok_def hp hw by (auto simp: rd split: if_splits)
  moreover have "runs_graph (fmupd pid p1 P) i q (packages_of X m1 i)" if "holds (px_project X) ''project_record'' m1 i q" for i q
  proof (cases "i = pid")
    case True
    have "q = r" using that True holds_unique [OF r] by (simp add: hp)
    moreover have "Graph_Validate g1 = None"
      by (rule Validate_add [OF g(3,4) p(4), of n]) (use p(5) deps none g(5) id gp in auto)
    moreover have "Graph_Get g1 k = packages_of X m1 pid k" for k using p(5) g(5) by (simp add: same gp)
    ultimately show ?thesis using True p(2,3,4) g(1) by (auto simp: runs_graph_def)
  next
    case False
    then show ?thesis using that ok(2) by (auto simp: hp runs_graph_def same projects_ok_def)
  qed
  moreover have "\<exists>q. holds (px_project X) ''project_record'' m1 i q" if "fmlookup (fmupd pid p1 P) i = Some p2" for i p2
    using that ok(2) r by (auto simp: hp projects_ok_def split: if_splits)
  ultimately show ?thesis by (simp add: projects_ok_def)
qed

lemma control_same:
  assumes ok: "control_ok X used c" and wf: "store_wf (ms_store m1)"
    and rd: "\<And>k i. readRecord (ms_store m1) k i = readRecord (ms_store (cs_mem c)) k i"
  shows "control_ok X used (c\<lparr>cs_mem := m1\<rparr>)"
proof -
  have "same_files (cs_mem c) m1" using ok wf rd by (simp add: same_files_def control_ok_def files_ok_def)
  then show ?thesis using ok by (simp add: control_ok_def same_files_control)
qed

lemma control_wf: "control_ok X used c \<Longrightarrow> store_wf (ms_store (cs_mem c))"
  by (simp add: control_ok_def files_ok_def)

lemma readRecord_missing: "store_wf s \<Longrightarrow> (\<And>x. readRecord s k i \<noteq> Ok x) \<Longrightarrow> readRecord s k i = Err StNotFound"
  by (fastforce simp: readRecord_def store_wf_def split: option.splits rec_file.splits)

lemma Project_Create_cases:
  assumes "Project_Create E parse cd i name m = (m', q)"
  obtains (made) b where "q = Ok (new_project i name)" "ProjectRecord_Validate parse (new_project i name) = None"
      "putTyped E cd ''project_record'' i 1 (new_project i name) m = (m', Ok b)"
    | (failed) e where "q = Err e" "m' = m \<or> (\<exists>e1. putTyped E cd ''project_record'' i 1 (new_project i name) m = (m', Err e1))"
proof (cases "i \<noteq> [] \<and> Project_Get parse cd i m = Err (RepoStore StNotFound) \<and> ProjectRecord_Validate parse (new_project i name) = None")
  case True
  obtain m1 r where "putTyped E cd ''project_record'' i 1 (new_project i name) m = (m1, r)" by fastforce
  then show ?thesis using assms True that by (cases r) (auto simp: Project_Create_def Let_def)
next
  case False
  obtain got where got: "Project_Get parse cd i m = got" by blast
  have "m' = m \<and> \<not> is_Ok q"
    using assms False unfolding Project_Create_def Let_def got by (cases got) (auto split: if_splits option.splits)
  then show ?thesis using that(2) by (cases q) auto
qed

lemma createLocked_ok:
  assumes ok: "control_ok X used c" and cd: "codec_ok (px_store X) (px_project X)"
    and call: "createLocked X pid name c = (c', res)"
  shows "control_ok X used c'"
proof (cases "fmlookup (cs_projects c) pid")
  case (Some p)
  then show ?thesis using call ok by (auto simp: createLocked_def)
next
  case None
  note wf = control_wf [OF ok]
  have "readRecord (ms_store (cs_mem c)) ''project_record'' pid \<noteq> Ok x" for x
  proof
    assume "readRecord (ms_store (cs_mem c)) ''project_record'' pid = Ok x"
    then obtain r where "holds (px_project X) ''project_record'' (cs_mem c) pid r"
      using ok unfolding control_ok_def files_ok_def by blast
    then have "runs_graph (cs_projects c) pid r (packages_of X (cs_mem c) pid)"
      using ok unfolding control_ok_def projects_ok_def by blast
    then show False using None by (auto simp: runs_graph_def)
  qed
  then have new: "readRecord (ms_store (cs_mem c)) ''project_record'' pid = Err StNotFound" by (rule readRecord_missing [OF wf])
  let ?r = "new_project pid name"
  have id: "project_id ?r = pid" by (simp add: new_project_def)
  obtain m1 q where create: "Project_Create (px_store X) (px_parse X) (px_project X) pid name (cs_mem c) = (m1, q)" by fastforce
  have wf1: "store_wf (ms_store m1)" using only_kind_Project_Create [OF create] wf by (simp add: only_kind_def)
  from create show ?thesis
  proof (cases rule: Project_Create_cases)
    case (failed e)
    have "readRecord (ms_store m1) k i = readRecord (ms_store (cs_mem c)) k i" for k i
      using failed(2)
    proof
      assume "\<exists>e1. putTyped (px_store X) (px_project X) ''project_record'' pid 1 ?r (cs_mem c) = (m1, Err e1)"
      then obtain e1 where e1: "putTyped (px_store X) (px_project X) ''project_record'' pid 1 ?r (cs_mem c) = (m1, Err e1)" ..
      show ?thesis by (rule putTyped_failed [OF e1])
    qed simp
    then have "control_ok X used (c\<lparr>cs_mem := m1\<rparr>)" by (rule control_same [OF ok wf1])
    then show ?thesis using call None create failed(1) by (simp add: createLocked_def)
  next
    case (made b)
    note v = made(2) and put = made(3)
    obtain x where x: "cd_dec (px_project X) (sr_Data x) = Some ?r" "\<And>k i. readRecord (ms_store m1) k i =
        (if (k, i) = (''project_record'', pid) then Ok x else readRecord (ms_store (cs_mem c)) k i)"
      by (rule putTyped_new [OF put cd new]) blast
    from attachRuntime_ok [OF empty_graph_ok(3), of ?r] obtain p where p: "attachRuntime ?r (empty_graph pid) = Ok p" "pj_Record p = ?r"
      "idle (empty_graph pid) (pj_API p)" by blast
    have "files_ok X used m1 \<and> projects_ok X m1 (fmupd pid p (cs_projects c))"
      using ok by (intro project_added [OF _ _ None wf1 x(2) x(1) _ id p(2,3)])
        (simp_all add: control_ok_def project_check_def contract_check_def v)
    moreover have "c' = c\<lparr>cs_mem := m1, cs_projects := fmupd pid p (cs_projects c)\<rparr>"
      using call None create made(1) p(1) id by (simp add: createLocked_def Let_def empty_graph_def)
    ultimately show ?thesis by (simp add: control_ok_def)
  qed
qed

lemma Graph_Add_cases:
  assumes "graph_wf g" and "Graph_Add g n = Ok g1" and "wp_State n \<noteq> StateOther []"
  shows "graph_wf g1 \<and> (\<forall>k. Graph_Get g1 k = (if k = wp_ID n then Some n else Graph_Get g k))"
  using Graph_Add_spec [OF assms(1), of n] assms(2,3) by auto

text \<open>The record that is stored for a submission.\<close>

definition submitted_record :: "string \<Rightarrow> string \<Rightarrow> string \<Rightarrow> string list \<Rightarrow> 'b WorkPackageRecord" where
  "submitted_record fresh pid title deps = (submitted fresh pid title deps)
     \<lparr>wc_Envelope := new_envelope ''work_package'' fresh (wc_Envelope (submitted fresh pid title deps :: 'b WorkPackageRecord))\<rparr>"

lemma submitted_record_fields:
  fixes w :: "'b WorkPackageRecord"
  assumes "w = submitted_record fresh pid title deps"
  shows "work_id w = fresh" "work_project w = pid" "\<exists>n. toPlanner w = Some n \<and> wp_ID n = fresh \<and> wp_DependsOn n = deps \<and> wp_State n = StateProposed"
  using assms
  by (auto simp: submitted_record_def submitted_def new_envelope_def toPlanner_def fromContractState_def)

lemma Work_Create_submitted:
  fixes cd :: "'b WorkPackageRecord Codec"
  shows "Work_Create E parse cd fresh (submitted fresh pid title deps) m =
     (let w = submitted_record fresh pid title deps in
      (case work_check parse w of Some e \<Rightarrow> (m, Err e) | None \<Rightarrow>
       (case putTyped E cd ''work_package'' fresh 1 w m of (m1, Inl e) \<Rightarrow> (m1, Err e) | (m1, Inr _) \<Rightarrow> (m1, Ok w))))"
proof -
  let ?w = "submitted fresh pid title deps :: 'b WorkPackageRecord"
  have "?w\<lparr>wc_Envelope := new_envelope ''work_package'' fresh (wc_Envelope ?w),
      wc_State := (if wc_State ?w = [] then ''PROPOSED'' else wc_State ?w),
      wc_Acceptance := (if wc_Acceptance ?w = [] then DefaultAcceptance else wc_Acceptance ?w)\<rparr>
    = submitted_record fresh pid title deps"
    by (simp add: submitted_record_def submitted_def DefaultAcceptance_def)
  then show ?thesis unfolding Work_Create_def by (simp only: Let_def submitted_record_fields(1) [OF refl])
qed

lemma SubmitWork_ok:
  fixes X :: "'b PsEnv"
  assumes ok: "control_ok X used c" and cd: "codec_ok (px_store X) (px_work X)" and fresh: "fresh \<notin> used"
    and call: "SubmitWork X fresh pid title deps c = (c', res)"
  shows "control_ok X (insert fresh used) c'"
proof -
  have mono: "control_ok X (insert fresh used) d" if "control_ok X used d" for d
    using that unfolding control_ok_def files_ok_def by blast
  show ?thesis
  proof (cases "fmlookup (cs_projects c) pid")
    case None
    then show ?thesis using call mono [OF ok] by (auto simp: SubmitWork_def)
  next
    case (Some p)
    note wf = control_wf [OF ok]
    let ?w = "submitted_record fresh pid title deps :: 'b WorkPackageRecord"
    note w = submitted_record_fields [OF refl, of fresh pid title deps, where ?'b = 'b]
    obtain n where n: "toPlanner ?w = Some n" "wp_ID n = fresh" "wp_DependsOn n = deps" "wp_State n = StateProposed" using w(3) by blast
    show ?thesis
    proof (cases "title = [] \<or> first_err (dep_known (pj_Graph p)) deps \<noteq> None \<or> work_check (px_parse X) ?w \<noteq> None")
      case True
      then have "c' = c" using call Some
        by (cases "title = []"; cases "first_err (dep_known (pj_Graph p)) deps"; cases "work_check (px_parse X) ?w")
          (simp_all add: SubmitWork_def Work_Create_submitted Let_def del: first_err_None_iff)
      then show ?thesis using mono [OF ok] by simp
    next
      case False
      then have v: "title \<noteq> []" "first_err (dep_known (pj_Graph p)) deps = None" "work_check (px_parse X) ?w = None" by blast+
      then have deps: "Graph_Get (pj_Graph p) d \<noteq> None" if "d \<in> set deps" for d
        using that by (auto simp: dep_known_def split: if_splits)
      obtain m1 q where put: "putTyped (px_store X) (px_work X) ''work_package'' fresh 1 ?w (cs_mem c) = (m1, q)" by fastforce
      have wf1: "store_wf (ms_store m1)" by (rule putTyped_wf [OF put wf])
      show ?thesis
      proof (cases q)
        case (Inl e)
        have "control_ok X used (c\<lparr>cs_mem := m1\<rparr>)"
          by (rule control_same [OF ok wf1]) (rule putTyped_failed [OF put [unfolded Inl]])
        moreover have "c' = c\<lparr>cs_mem := m1\<rparr>" using call Some v put Inl by (simp add: SubmitWork_def Work_Create_submitted Let_def)
        ultimately show ?thesis using mono by simp
      next
        case (Inr b)
        have "readRecord (ms_store (cs_mem c)) ''work_package'' fresh \<noteq> Ok x" for x
          using ok fresh unfolding control_ok_def files_ok_def by blast
        then have new: "readRecord (ms_store (cs_mem c)) ''work_package'' fresh = Err StNotFound" by (rule readRecord_missing [OF wf])
        obtain x where x: "cd_dec (px_work X) (sr_Data x) = Some ?w" "RecordPath ''work_package'' fresh = None"
            "\<And>k i. readRecord (ms_store m1) k i = (if (k, i) = (''work_package'', fresh) then Ok x else readRecord (ms_store (cs_mem c)) k i)"
          by (rule putTyped_new [OF put [unfolded Inr] cd new]) blast
        have ne: "fresh \<noteq> []" using x(2) by (auto simp: RecordPath_def safeSegment_def split: option.splits if_splits)
        obtain r where r: "runs_graph (cs_projects c) pid r (packages_of X (cs_mem c) pid)"
          using ok Some unfolding control_ok_def projects_ok_def by blast
        then have g: "graph_wf (pj_Graph p)" "idle (pj_Graph p) (pj_API p)" "\<And>k. Graph_Get (pj_Graph p) k = packages_of X (cs_mem c) pid k"
          using Some by (auto simp: runs_graph_def idle_def)
        have absent: "Graph_Get (pj_Graph p) (wp_ID n) = None" by (simp add: g(3) packages_of_def n(2) new)
        obtain g1 where g1: "Graph_Add (pj_Graph p) n = Ok g1" "graph_wf g1"
            "\<And>k. Graph_Get g1 k = (if k = fresh then Some n else Graph_Get (pj_Graph p) k)"
          using Graph_Add_new [OF g(1) absent] n(2,4) ne by auto
        let ?p = "p\<lparr>pj_API := (pj_API p)\<lparr>sv_orch := (pj_Scheduler p)\<lparr>o_graph := g1\<rparr>\<rparr>\<rparr>"
        have "files_ok X (insert fresh used) m1 \<and> projects_ok X m1 (fmupd pid ?p (cs_projects c))"
          by (rule work_added [OF _ _ fresh wf1 x(3) x(1) v(3) w(1) ne w(2) n(1) Some])
            (use ok g(2) g1(2) g1(3) deps n(3) in \<open>simp_all add: control_ok_def idle_def split del: if_split\<close>)
        moreover have "c' = c\<lparr>cs_mem := m1, cs_projects := fmupd pid ?p (cs_projects c)\<rparr>"
          using call Some v put Inr n(1) g1(1) by (simp add: SubmitWork_def Work_Create_submitted Let_def update_api_def)
        ultimately show ?thesis by (simp add: control_ok_def)
      qed
    qed
  qed
qed

text \<open>With no assignment on record every decision is refused, and an idle project does nothing.\<close>

lemma RecordApproval_idle:
  assumes "control_ok X used c"
  shows "fst (RecordApproval X now pid wp decision actor reason c) = c"
proof -
  have "Assignment_ListByProject (px_assignment X) pid (cs_mem c) = Ok []"
    using nothing_listed(1) [of X used "cs_mem c"] assms by (simp add: Assignment_ListByProject_def filter_list_def control_ok_def)
  then show ?thesis
    by (auto simp: RecordApproval_def latest_assignment_def split: option.splits sum.splits)
qed

lemma runtime_idle:
  assumes "idle g s" and "run_scheduler X (runtime_apply rop) s m = (m1, s1, u)"
  shows "m1 = m \<and> idle g s1"
  using assms
  by (cases rop) (auto simp: run_scheduler_def Let_def idle_def api_Dispatch_def api_Approve_def Scheduler_Approve_def
      api_Reject_def Scheduler_Reject_def api_Resolve_def Scheduler_Resolve_def sink_run_def split: prod.splits)

lemma ProjectRuntime_ok:
  assumes ok: "control_ok X used c"
  shows "control_ok X used (ProjectRuntime X pid rop c)"
proof (cases "fmlookup (cs_projects c) pid")
  case None
  then show ?thesis using ok by (simp add: ProjectRuntime_def)
next
  case (Some p)
  obtain r where "holds (px_project X) ''project_record'' (cs_mem c) pid r" "runs_graph (cs_projects c) pid r (packages_of X (cs_mem c) pid)"
    using ok Some unfolding control_ok_def projects_ok_def by blast
  then obtain g where g: "pj_Record p = r" "idle g (pj_API p)" "graph_wf g" "Graph_Validate g = None"
      "\<And>k. Graph_Get g k = packages_of X (cs_mem c) pid k"
    using Some unfolding runs_graph_def by fastforce
  obtain m1 s1 u where run: "run_scheduler X (runtime_apply rop) (pj_API p) (cs_mem c) = (m1, s1, u)" by (metis prod_cases3)
  from runtime_idle [OF g(2) run] have idle: "m1 = cs_mem c" "idle g s1" by blast+
  have eq: "ProjectRuntime X pid rop c = c\<lparr>cs_mem := cs_mem c, cs_projects := fmupd pid (p\<lparr>pj_API := s1\<rparr>) (cs_projects c)\<rparr>"
    by (simp add: ProjectRuntime_def Some run idle(1))
  have "runs_graph (fmupd pid (p\<lparr>pj_API := s1\<rparr>) (cs_projects c)) i q (packages_of X (cs_mem c) i)"
    if "holds (px_project X) ''project_record'' (cs_mem c) i q" for i q
  proof (cases "i = pid")
    case True
    then have "runs_graph (cs_projects c) pid q (packages_of X (cs_mem c) pid)"
      using that ok unfolding control_ok_def projects_ok_def by blast
    then have "q = pj_Record p" using Some by (auto simp: runs_graph_def)
    then show ?thesis using True idle(2) g by (auto simp: runs_graph_def)
  next
    case False
    then show ?thesis using that ok by (auto simp: control_ok_def projects_ok_def runs_graph_def)
  qed
  then show ?thesis using ok Some unfolding eq by (auto simp: control_ok_def projects_ok_def split: if_splits)
qed

section \<open>Histories from an empty store\<close>

fun submit_id :: "ps_op \<Rightarrow> string list" where
  "submit_id (OpSubmit fresh pid title deps) = [fresh]"
| "submit_id _ = []"

definition submit_ids :: "ps_op list \<Rightarrow> string list" where "submit_ids ops = concat (map submit_id ops)"

definition empty_control :: "string option list \<Rightarrow> ControlState" where
  "empty_control faults = \<lparr>cs_projects = fmempty, cs_mem = mem_start faults\<rparr>"

lemma empty_control_ok: "control_ok X {} (empty_control faults)"
proof -
  have "readRecord (ms_store (mem_start faults)) k i \<noteq> Ok x" for k i x
    by (simp add: mem_start_def store_empty_def readRecord_def kind_dir_def)
  moreover have "store_wf (ms_store (mem_start faults))"
    by (simp add: mem_start_def store_empty_def store_wf_def kind_dir_def)
  ultimately show ?thesis by (simp add: control_ok_def files_ok_def projects_ok_def holds_def empty_control_def)
qed

lemma control_ok_step:
  assumes ok: "control_ok X used c" and cd: "codec_ok (px_store X) (px_project X)" "codec_ok (px_store X) (px_work X)"
    and fresh: "set (submit_id p) \<inter> used = {}"
  shows "\<exists>c'. ps_step X p (Inr c) = Inr c' \<and> control_ok X (used \<union> set (submit_id p)) c'"
proof (cases p)
  case (OpCreate pid name)
  then show ?thesis using createLocked_ok [OF ok cd(1), of pid name]
    by (cases "createLocked X pid name c") (simp add: ps_step_def CreateProject_def)
next
  case (OpEnsure pid name)
  have "control_ok X used (fst (EnsureProject X pid name c))"
    using createLocked_ok [OF ok cd(1), of pid name] ok
    by (cases "createLocked X pid name c") (auto simp: EnsureProject_def split: option.splits sum.splits)
  then show ?thesis using OpEnsure by (simp add: ps_step_def)
next
  case (OpSubmit i pid title deps)
  then show ?thesis using SubmitWork_ok [OF ok cd(2), of i pid title deps] fresh
    by (cases "SubmitWork X i pid title deps c") (simp add: ps_step_def)
next
  case (OpApprove now pid wp decision actor reason)
  then show ?thesis using RecordApproval_idle [OF ok] ok by (simp add: ps_step_def)
next
  case (OpRuntime pid rop)
  then show ?thesis using ProjectRuntime_ok [OF ok] by (simp add: ps_step_def)
next
  case (OpRestart now visit)
  then show ?thesis using restart_ok [OF ok, of now visit] by (auto simp: ps_step_def)
qed

lemma control_ok_run:
  assumes "control_ok X used c" and "codec_ok (px_store X) (px_project X)" "codec_ok (px_store X) (px_work X)"
    and "distinct (submit_ids ops)" "set (submit_ids ops) \<inter> used = {}"
  shows "\<exists>c'. ps_run X ops (Inr c) = Inr c' \<and> control_ok X (used \<union> set (submit_ids ops)) c'"
  using assms(1,4,5)
proof (induction ops arbitrary: used c)
  case Nil
  then show ?case by (simp add: ps_run_def submit_ids_def)
next
  case (Cons p ops)
  have split: "submit_ids (p # ops) = submit_id p @ submit_ids ops" by (simp add: submit_ids_def)
  obtain c1 where c1: "ps_step X p (Inr c) = Inr c1" "control_ok X (used \<union> set (submit_id p)) c1"
    using control_ok_step [OF Cons.prems(1) assms(2,3), of p] Cons.prems(3) unfolding split by auto
  have "\<exists>c'. ps_run X ops (Inr c1) = Inr c' \<and> control_ok X ((used \<union> set (submit_id p)) \<union> set (submit_ids ops)) c'"
    by (rule Cons.IH [OF c1(2)]) (use Cons.prems(2,3) in \<open>auto simp: split\<close>)
  then show ?case using c1(1) by (simp add: ps_run_def split Un_assoc)
qed

text \<open>
  C18. A restart is faithful. After any history of a control plane that started on an empty store, with restarts in
  between and any writes failing, another restart succeeds and has the same projects with the same work packages
  and the same ready lists; no assignment exists and no project can execute. Fresh ids do not repeat.
\<close>

theorem restart_faithful:
  assumes cd: "codec_ok (px_store X) (px_project X)" "codec_ok (px_store X) (px_work X)"
    and ids: "distinct (submit_ids ops)"
  shows "\<exists>c c'. ps_run X ops (Inr (empty_control faults)) = Inr c \<and> restart X now visit (Inr c) = Inr c'
    \<and> (\<forall>pid. (fmlookup (cs_projects c) pid = None \<longleftrightarrow> fmlookup (cs_projects c') pid = None)
         \<and> (\<forall>p p'. fmlookup (cs_projects c) pid = Some p \<longrightarrow> fmlookup (cs_projects c') pid = Some p' \<longrightarrow>
              pj_Record p' = pj_Record p \<and> (\<forall>k. Graph_Get (pj_Graph p') k = Graph_Get (pj_Graph p) k)
              \<and> Graph_Ready (pj_Graph p') = Graph_Ready (pj_Graph p)
              \<and> o_assignments (pj_Scheduler p') = fmempty \<and> \<not> api_Enabled (pj_API p')))"
proof -
  obtain c where c: "ps_run X ops (Inr (empty_control faults)) = Inr c" "control_ok X (set (submit_ids ops)) c"
    using control_ok_run [OF empty_control_ok cd ids, of faults] by auto
  obtain c' where c': "restart X now visit (Inr c) = Inr c'" "control_ok X (set (submit_ids ops)) c'" "same_files (cs_mem c) (cs_mem c')"
    using restart_ok [OF c(2)] by blast
  have old: "projects_ok X (cs_mem c) (cs_projects c)" using c(2) by (simp add: control_ok_def)
  have new: "projects_ok X (cs_mem c) (cs_projects c')"
    using c'(2) same_files_control(2) [OF c'(3), of X] by (simp add: control_ok_def)
  have dom: "fmlookup P pid = None \<longleftrightarrow> (\<nexists>r. holds (px_project X) ''project_record'' (cs_mem c) pid r)"
    if "projects_ok X (cs_mem c) P" for P pid
  proof -
    have "holds (px_project X) ''project_record'' (cs_mem c) pid r \<Longrightarrow> \<exists>p. fmlookup P pid = Some p" for r
      using that unfolding projects_ok_def runs_graph_def by blast
    moreover have "fmlookup P pid = Some p \<Longrightarrow> \<exists>r. holds (px_project X) ''project_record'' (cs_mem c) pid r" for p
      using that unfolding projects_ok_def by blast
    ultimately show ?thesis by (cases "fmlookup P pid") auto
  qed
  have "pj_Record p' = pj_Record p \<and> (\<forall>k. Graph_Get (pj_Graph p') k = Graph_Get (pj_Graph p) k)
      \<and> Graph_Ready (pj_Graph p') = Graph_Ready (pj_Graph p)
      \<and> o_assignments (pj_Scheduler p') = fmempty \<and> \<not> api_Enabled (pj_API p')"
    if p: "fmlookup (cs_projects c) pid = Some p" "fmlookup (cs_projects c') pid = Some p'" for pid p p'
  proof -
    obtain r where "holds (px_project X) ''project_record'' (cs_mem c) pid r" using old p(1) unfolding projects_ok_def by blast
    then have "runs_graph (cs_projects c) pid r (packages_of X (cs_mem c) pid)" "runs_graph (cs_projects c') pid r (packages_of X (cs_mem c) pid)"
      using old new unfolding projects_ok_def by blast+
    then have f: "pj_Record p = r" "pj_Record p' = r" "graph_wf (pj_Graph p)" "graph_wf (pj_Graph p')" "idle (pj_Graph p') (pj_API p')"
        "\<And>k. Graph_Get (pj_Graph p) k = packages_of X (cs_mem c) pid k" "\<And>k. Graph_Get (pj_Graph p') k = packages_of X (cs_mem c) pid k"
      using p by (auto simp: runs_graph_def idle_def)
    then show ?thesis using Ready_same [OF f(4,3)] by (simp add: idle_def api_Enabled_def)
  qed
  then show ?thesis using c(1) c'(1) dom [OF old] dom [OF new] by blast
qed

definition ex_ops :: "ps_op list" where
  "ex_ops = [OpCreate ''p'' ''n'', OpSubmit ''w'' ''p'' ''t'' [], OpSubmit ''v'' ''p'' ''t'' [''w''], OpRestart 3 [],
     OpApprove ''t'' ''p'' ''w'' ''approve'' ''ann'' []]"

lemma ex_px_codecs: "codec_ok (px_store ex_px) (px_project ex_px)" "codec_ok (px_store ex_px) (px_work ex_px)"
  by (auto simp: ex_px_def ex_store_env_def split: if_splits intro!: codec_ok_one)

theorem restart_faithful_witness:
  "\<exists>c c'. ps_run ex_px ex_ops (Inr (empty_control [])) = Inr c \<and> restart ex_px 9 [] (Inr c) = Inr c'
     \<and> (fmlookup (cs_projects c) ''p'' = None \<longleftrightarrow> fmlookup (cs_projects c') ''p'' = None)"
proof -
  have "distinct (submit_ids ex_ops)" by code_simp
  from restart_faithful [OF ex_px_codecs this, of "[]" 9 "[]"] show ?thesis by blast
qed

section \<open>What a restart does not repair\<close>

text \<open>
  A process that stops after a decision was saved and before the scheduler applied it leaves an assignment that waits
  for its gates. Restoring assignments only expires leases, and restoring approvals only sets gates: the assignment
  still waits. Another decision is refused (\<open>approval_final\<close>), and nothing but a decision calls \<open>Resolve\<close>.
\<close>

lemma restore_only_expires:
  "restore_loop parse now upd rs s = (s', Ok upd') \<Longrightarrow> r \<in> set upd' \<Longrightarrow> r \<in> set upd \<or> ra_State r = AsgExpired"
proof (induction rs arbitrary: upd s)
  case (Cons x rs)
  from Cons.prems(1) obtain l a s1 where l: "Assignment_Expire (restore_assignment x l) now = Ok a"
    and step: "restore_loop parse now (if a_State a \<noteq> ra_State x then upd @ [x\<lparr>ra_State := a_State a\<rparr>] else upd) rs s1 = (s', Ok upd')"
    by (auto simp: Let_def split: sum.splits)
  have "a_State a = ra_State x \<or> a_State a = AsgExpired"
    using l by (auto simp: Assignment_Expire_def Assignment_Transition_def restore_assignment_def split: if_splits)
  then show ?case using Cons.IH [OF step Cons.prems(2)] by (auto split: if_splits)
qed simp

lemma approval_keeps_assignments:
  "o_assignments (sv_orch (apply_decision d wp reason s)) = o_assignments (sv_orch s)"
  by (simp add: apply_decision_def api_Approve_def api_Reject_def Scheduler_Approve_def Scheduler_Reject_def)

text \<open>
  Assignments are listed by id and restored in that order, so the last id wins: the tenth attempt is replaced by the
  ninth.
\<close>

definition ex_attempt :: "int \<Rightarrow> asg_state \<Rightarrow> RestoreAssignment" where
  "ex_attempt n st = \<lparr>ra_ID = assignment_id ''w'' n, ra_ProjectID = ''p'', ra_WorkPackageID = ''w'', ra_WorkerID = ''k'',
     ra_State = st, ra_Attempt = n, ra_LeaseOwner = [], ra_LeaseExpiresAt = []\<rparr>"

lemma ninth_attempt_wins:
  "map_option a_Attempt (fmlookup (o_assignments (fst (Scheduler_Restore parse
     (sort_key ra_ID [ex_attempt 9 AsgFailed, ex_attempt 10 AsgAwaitingGates]) now s))) ''w'') = Some 9"
proof -
  have "ra_ID (ex_attempt 10 st) < ra_ID (ex_attempt 9 st')" for st st' by code_simp
  then have "sort_key ra_ID [ex_attempt 9 AsgFailed, ex_attempt 10 AsgAwaitingGates]
      = [ex_attempt 10 AsgAwaitingGates, ex_attempt 9 AsgFailed]"
    by (simp add: not_le [symmetric] del: not_le)
  then show ?thesis
    by (simp add: Scheduler_Restore_def restore_lease_def Assignment_Expire_def restore_assignment_def ex_attempt_def
        store_assignment_def Let_def)
qed

end
