(* ===== verification/Floats.thy ===== *)
theory Floats
  imports Contracts
begin

text \<open>
  A \<open>float64\<close> is a \<open>go_float\<close>. Its comparisons are defined here (a NaN compares false with everything); its rounded
  arithmetic and its printing are the parameter \<open>FloatOps\<close>. A signed zero is the zero.
\<close>

section \<open>Floating-point numbers\<close>

fun float_lt :: "go_float \<Rightarrow> go_float \<Rightarrow> bool" where
  "float_lt (Finite a) (Finite b) \<longleftrightarrow> a < b"
| "float_lt (Finite a) (NotFinite t) \<longleftrightarrow> t = ''+Inf''"
| "float_lt (NotFinite s) (Finite b) \<longleftrightarrow> s = ''-Inf''"
| "float_lt (NotFinite s) (NotFinite t) \<longleftrightarrow> s = ''-Inf'' \<and> t = ''+Inf''"

fun float_eq :: "go_float \<Rightarrow> go_float \<Rightarrow> bool" where
  "float_eq (Finite a) (Finite b) \<longleftrightarrow> a = b"
| "float_eq (NotFinite s) (NotFinite t) \<longleftrightarrow> s = t \<and> (s = ''+Inf'' \<or> s = ''-Inf'')"
| "float_eq _ _ \<longleftrightarrow> False"

definition float_le :: "go_float \<Rightarrow> go_float \<Rightarrow> bool" where "float_le x y \<longleftrightarrow> float_lt x y \<or> float_eq x y"

text \<open>The range check of the package: \<open>v < 0 || v > 1\<close>.\<close>

definition outside_unit :: "go_float \<Rightarrow> bool" where "outside_unit v \<longleftrightarrow> float_lt v (Finite 0) \<or> float_lt (Finite 1) v"

record FloatOps =
  fa_add :: "go_float \<Rightarrow> go_float \<Rightarrow> go_float"
  fa_sub :: "go_float \<Rightarrow> go_float \<Rightarrow> go_float"
  fa_mul :: "go_float \<Rightarrow> go_float \<Rightarrow> go_float"
  fa_div :: "go_float \<Rightarrow> go_float \<Rightarrow> go_float"
  fa_lit :: "rat \<Rightarrow> go_float"  \<comment> \<open>a decimal literal\<close>
  fa_int :: "int \<Rightarrow> go_float"  \<comment> \<open>\<open>float64(n)\<close>\<close>
  fa_show :: "go_float \<Rightarrow> string"  \<comment> \<open>\<open>%v\<close> and \<open>%g\<close>\<close>
  fa_fixed :: "nat \<Rightarrow> go_float \<Rightarrow> string"  \<comment> \<open>\<open>%.2f\<close>, \<open>%.3f\<close>\<close>

text \<open>Exact arithmetic, the instance used by the examples.\<close>

definition exact_op :: "(rat \<Rightarrow> rat \<Rightarrow> rat) \<Rightarrow> go_float \<Rightarrow> go_float \<Rightarrow> go_float" where
  "exact_op h x y = (case (x, y) of (Finite a, Finite b) \<Rightarrow> Finite (h a b) | _ \<Rightarrow> NotFinite ''NaN'')"

end
