(* ===== verification/JobLearn.thy ===== *)
theory JobLearn
  imports Floats ContractEvidence Telemetry RoleAllocator
begin

text \<open>
  \<open>kernel/joblearn\<close>: the types of the learning package, \<open>features\<close>: what is kept of a trace, and \<open>attribution\<close>:
  outcomes linked to their work and normalized into scores.
\<close>

section \<open>Types\<close>

datatype learn_error =
    JlInvalid string
  | JlNotFound string
  | JlDisabled string
  | JlNotReady
  | JlBudget
  | JlContract val_error

definition Outcome_Valid :: "string \<Rightarrow> bool" where
  "Outcome_Valid t \<longleftrightarrow> t \<in> set [''succeeded'', ''failed'', ''partial'', ''blocked'', ''cancelled'', ''unknown'']"

record Attribution =
  jat_ProjectID :: string
  jat_WorkPackageID :: string
  jat_AttemptID :: string
  jat_AssignmentID :: string
  jat_Role :: string
  jat_Worker :: string
  jat_Outcome :: string
  jat_Sequence :: int
  jat_Evidence :: "Reference list"

definition Attribution_Validate :: "Attribution \<Rightarrow> learn_error option" where
  "Attribution_Validate a =
     (if jat_WorkPackageID a = [] then Some (JlInvalid ''attribution.workPackageId is required'')
      else if jat_AttemptID a = [] then Some (JlInvalid ''attribution.attemptId is required'')
      else if \<not> Outcome_Valid (jat_Outcome a) then Some (JlInvalid ''attribution.outcome is unknown'')
      else None)"

record Score =
  jsc_Version :: string
  jsc_Success :: go_float
  jsc_Cost :: go_float
  jsc_Duration :: go_float
  jsc_Retries :: go_float
  jsc_Quality :: go_float
  jsc_Overall :: go_float

definition MetricVersion :: string where "MetricVersion = ''1.0''"

text \<open>The code visits the components in the random order of a map and reports the first that is out of range.\<close>

definition Score_Validate :: "Score \<Rightarrow> learn_error option" where
  "Score_Validate s =
     (if jsc_Version s = [] then Some (JlInvalid ''score.version is required'')
      else if list_ex outside_unit [jsc_Success s, jsc_Cost s, jsc_Duration s, jsc_Retries s, jsc_Quality s, jsc_Overall s]
        then Some (JlInvalid ''score is outside [0,1]'')
      else None)"

definition CandidateKind_Valid :: "string \<Rightarrow> bool" where
  "CandidateKind_Valid k \<longleftrightarrow> k \<in> set [''pattern'', ''pitfall'', ''strategy'', ''routing'']"

definition CandidateLevel_Valid :: "string \<Rightarrow> bool" where
  "CandidateLevel_Valid l \<longleftrightarrow> l \<in> set [''session'', ''task'', ''project'', ''role'', ''workforce'']"

record LearnedCandidate =
  jc_Kind :: string
  jc_Level :: string
  jc_Scope :: string
  jc_Title :: string
  jc_Content :: string
  jc_Applicability :: "Applicability option"
  jc_Evidence :: "Reference list"
  jc_Provenance :: "Provenance option"
  jc_Confidence :: go_float

definition Candidate_Validate :: "LearnedCandidate \<Rightarrow> learn_error option" where
  "Candidate_Validate c =
     (if \<not> CandidateKind_Valid (jc_Kind c) then Some (JlInvalid ''candidate.kind is unknown'')
      else if \<not> CandidateLevel_Valid (jc_Level c) then Some (JlInvalid ''candidate.level is unknown'')
      else if jc_Title c = [] then Some (JlInvalid ''candidate.title is required'')
      else if jc_Content c = [] then Some (JlInvalid ''candidate.content is required'')
      else if outside_unit (jc_Confidence c) then Some (JlInvalid ''candidate.confidence is outside [0,1]'')
      else None)"

definition Capability_Valid :: "string \<Rightarrow> bool" where
  "Capability_Valid c \<longleftrightarrow> c \<in> set [''similarity'', ''retrospective'', ''estimator'', ''recommender'', ''conflict'', ''learned_routing'']"

datatype capability_state = CapabilityDisabled | CapabilityEnabled

record GatePolicy =
  gp_MinOutcomes :: int
  gp_MinImprovement :: go_float
  gp_RequireBaseline :: bool
  gp_RequireFallback :: bool
  gp_RequireNoGateBypass :: bool

definition DefaultGatePolicy :: "FloatOps \<Rightarrow> GatePolicy" where
  "DefaultGatePolicy F =
     \<lparr>gp_MinOutcomes = 20, gp_MinImprovement = fa_lit F (5 / 100), gp_RequireBaseline = True, gp_RequireFallback = True,
      gp_RequireNoGateBypass = True\<rparr>"

definition GatePolicy_Validate :: "GatePolicy \<Rightarrow> learn_error option" where
  "GatePolicy_Validate p =
     (if gp_MinOutcomes p < 0 then Some (JlInvalid ''gatePolicy.minOutcomes must be >= 0'')
      else if outside_unit (gp_MinImprovement p) then Some (JlInvalid ''gatePolicy.minImprovement is outside [0,1]'')
      else None)"

section \<open>Features of a trace\<close>

record FeatureStep =
  fs_Sequence :: int
  fs_Phase :: string
  fs_Operation :: string
  fs_Outcome :: string
  fs_ErrorClass :: string
  fs_DurationMS :: int
  fs_TokensIn :: int
  fs_TokensOut :: int
  fs_CostUSD :: go_float
  fs_Redacted :: bool

record FeatureSet =
  ft_TraceID :: string
  ft_AttemptID :: string
  ft_Steps :: "FeatureStep list"
  ft_Truncated :: bool
  ft_Redacted :: bool
  ft_Succeeded :: int
  ft_Failed :: int
  ft_Blocked :: int
  ft_Skipped :: int
  ft_DurationMS :: int
  ft_TokensIn :: int
  ft_TokensOut :: int
  ft_CostUSD :: go_float

definition or_zero :: "int option \<Rightarrow> int" where "or_zero x = (case x of None \<Rightarrow> 0 | Some n \<Rightarrow> n)"

definition step_features :: "TraceStep \<Rightarrow> FeatureStep" where
  "step_features s =
     \<lparr>fs_Sequence = or_zero (ts_Sequence s), fs_Phase = ts_Phase s, fs_Operation = ts_Operation s, fs_Outcome = ts_Outcome s,
      fs_ErrorClass = ts_ErrorClass s, fs_DurationMS = or_zero (ts_DurationMS s),
      fs_TokensIn = (case ts_Tokens s of None \<Rightarrow> 0 | Some t \<Rightarrow> or_zero (tc_Input t)),
      fs_TokensOut = (case ts_Tokens s of None \<Rightarrow> 0 | Some t \<Rightarrow> or_zero (tc_Output t)),
      fs_CostUSD = (case ts_CostUSD s of None \<Rightarrow> Finite 0 | Some c \<Rightarrow> c),
      fs_Redacted = (case ts_Redacted s of None \<Rightarrow> False | Some b \<Rightarrow> b)\<rparr>"

definition bump :: "bool \<Rightarrow> int \<Rightarrow> int" where "bump b n = (if b then n + 1 else n)"

text \<open>The sums of durations and tokens are 64-bit and wrap around.\<close>

definition add_step :: "FloatOps \<Rightarrow> TraceStep \<Rightarrow> FeatureSet \<Rightarrow> FeatureSet" where
  "add_step F s t =
     (let x = step_features s in
      t\<lparr>ft_Succeeded := bump (ts_Outcome s = ''succeeded'') (ft_Succeeded t),
        ft_Failed := bump (ts_Outcome s = ''failed'') (ft_Failed t),
        ft_Blocked := bump (ts_Outcome s = ''blocked'') (ft_Blocked t),
        ft_Skipped := bump (ts_Outcome s = ''skipped'') (ft_Skipped t),
        ft_DurationMS := wrap_int (ft_DurationMS t + fs_DurationMS x),
        ft_TokensIn := wrap_int (ft_TokensIn t + fs_TokensIn x),
        ft_TokensOut := wrap_int (ft_TokensOut t + fs_TokensOut x),
        ft_CostUSD := fa_add F (ft_CostUSD t) (fs_CostUSD x),
        ft_Redacted := (ft_Redacted t \<or> fs_Redacted x), ft_Steps := ft_Steps t @ [x]\<rparr>)"

definition Features_Extract :: "FloatOps \<Rightarrow> Trace \<Rightarrow> FeatureSet" where
  "Features_Extract F tr =
     fold (add_step F) (tr_Steps tr)
       \<lparr>ft_TraceID = ev_ID (tr_Envelope tr), ft_AttemptID = tr_AttemptID tr, ft_Steps = [],
        ft_Truncated = (tr_Truncated tr = Some True), ft_Redacted = False, ft_Succeeded = 0, ft_Failed = 0, ft_Blocked = 0,
        ft_Skipped = 0, ft_DurationMS = 0, ft_TokensIn = 0, ft_TokensOut = 0, ft_CostUSD = Finite 0\<rparr>"

definition ExtractAll :: "FloatOps \<Rightarrow> Trace list \<Rightarrow> FeatureSet list" where
  "ExtractAll F trs = sort_key ft_TraceID (map (Features_Extract F) trs)"

definition bool_text :: "bool \<Rightarrow> string" where "bool_text b = (if b then ''true'' else ''false'')"

definition step_key :: "FloatOps \<Rightarrow> FeatureStep \<Rightarrow> string" where
  "step_key F s = CHR ''|'' # strings_Join '','' [itoa_int (fs_Sequence s), fs_Phase s, fs_Operation s, fs_Outcome s, fs_ErrorClass s,
     itoa_int (fs_DurationMS s), itoa_int (fs_TokensIn s), itoa_int (fs_TokensOut s), fa_show F (fs_CostUSD s), bool_text (fs_Redacted s)]"

definition Set_Key :: "FloatOps \<Rightarrow> FeatureSet \<Rightarrow> string" where
  "Set_Key F t =
     strings_Join ''|'' ([ft_TraceID t, ft_AttemptID t, bool_text (ft_Truncated t), bool_text (ft_Redacted t)]
       @ map itoa_int [ft_Succeeded t, ft_Failed t, ft_Blocked t, ft_Skipped t, ft_DurationMS t, ft_TokensIn t, ft_TokensOut t]
       @ [fa_show F (ft_CostUSD t)])
     @ concat (map (step_key F) (ft_Steps t))"

section \<open>Attribution\<close>

record GateOutcome =
  go_Gate :: string
  go_Passed :: bool
  go_Pending :: bool
  go_Reason :: string

record Meta =
  me_ProjectID :: string
  me_Role :: string
  me_Worker :: string
  me_Retries :: int
  me_Sequence :: int
  me_Gates :: "GateOutcome list"
  me_References :: "Reference list"

definition MetaForWorker :: "Worker \<Rightarrow> string \<Rightarrow> Meta" where
  "MetaForWorker w role =
     \<lparr>me_ProjectID = [], me_Role = (if role = [] then (case sort (w_Roles w) of [] \<Rightarrow> [] | r # _ \<Rightarrow> r) else role),
      me_Worker = w_ID w, me_Retries = 0, me_Sequence = 0, me_Gates = [], me_References = []\<rparr>"

record Limits =
  lm_MaxCostUSD :: go_float
  lm_MaxDurationMS :: int
  lm_MaxRetries :: int

definition DefaultLimits :: Limits where
  "DefaultLimits = \<lparr>lm_MaxCostUSD = Finite 5, lm_MaxDurationMS = 3600000, lm_MaxRetries = 5\<rparr>"

definition Limits_Validate :: "Limits \<Rightarrow> learn_error option" where
  "Limits_Validate l =
     (if float_lt (lm_MaxCostUSD l) (Finite 0) \<or> lm_MaxDurationMS l < 0 \<or> lm_MaxRetries l < 0
      then Some (JlInvalid ''limits must be >= 0'') else None)"

record AttrResult =
  jr_Attribution :: Attribution
  jr_Score :: Score

definition ParseOutcome :: "string \<Rightarrow> learn_error + string" where
  "ParseOutcome s = (if Outcome_Valid s then Ok s else Err (JlInvalid ''outcome is unknown''))"

definition Attribute :: "go_float TelemetryRecord \<Rightarrow> Meta \<Rightarrow> learn_error + Attribution" where
  "Attribute r m =
     (if t_WorkPackageID r = [] then Err (JlInvalid ''workPackageId is required'')
      else if t_AttemptID r = [] then Err (JlInvalid ''attemptId is required'')
      else (case ParseOutcome (t_Outcome r) of Inl e \<Rightarrow> Err e
        | Inr out \<Rightarrow> Ok \<lparr>jat_ProjectID = me_ProjectID m, jat_WorkPackageID = t_WorkPackageID r, jat_AttemptID = t_AttemptID r,
            jat_AssignmentID = t_AssignmentID r, jat_Role = me_Role m, jat_Worker = me_Worker m, jat_Outcome = out,
            jat_Sequence = me_Sequence m, jat_Evidence = me_References m\<rparr>))"

definition successScore :: "string \<Rightarrow> go_float" where
  "successScore out = (if out = ''succeeded'' then Finite 1 else if out = ''partial'' then Finite (1 / 2)
     else if out = ''unknown'' then Finite (1 / 4) else Finite 0)"

definition clamp01 :: "go_float \<Rightarrow> go_float" where
  "clamp01 v = (if float_lt v (Finite 0) then Finite 0 else if float_lt (Finite 1) v then Finite 1 else v)"

definition normalize :: "FloatOps \<Rightarrow> go_float \<Rightarrow> go_float \<Rightarrow> go_float" where
  "normalize F v limit = (if float_le limit (Finite 0) then Finite 0 else clamp01 (fa_div F v limit))"

definition qualityScore :: "FloatOps \<Rightarrow> GateOutcome list \<Rightarrow> go_float" where
  "qualityScore F gates =
     (if gates = [] then Finite (1 / 2)
      else fa_div F (fa_int F (int (length (filter go_Passed gates)))) (fa_int F (int (length gates))))"

text \<open>The score that telemetry and traces share: from an outcome, a cost and a duration.\<close>

definition overallScore :: "FloatOps \<Rightarrow> go_float \<Rightarrow> go_float \<Rightarrow> go_float \<Rightarrow> go_float \<Rightarrow> go_float \<Rightarrow> go_float" where
  "overallScore F success quality cost duration retries =
     (let tenth = fa_lit F (1 / 10); fifth = fa_lit F (2 / 10); rest = (\<lambda>x. fa_mul F tenth (fa_sub F (Finite 1) x)) in
      clamp01 (fa_add F (fa_add F (fa_add F (fa_add F (fa_mul F (Finite (1 / 2)) success) (fa_mul F fifth quality))
        (rest cost)) (rest duration)) (rest retries)))"

definition score_of :: "FloatOps \<Rightarrow> string \<Rightarrow> go_float \<Rightarrow> int \<Rightarrow> Meta \<Rightarrow> Limits \<Rightarrow> learn_error + Score" where
  "score_of F out cost duration m l =
     (let success = successScore out;
          c = normalize F cost (lm_MaxCostUSD l);
          d = normalize F (fa_int F duration) (fa_int F (lm_MaxDurationMS l));
          r = normalize F (fa_int F (me_Retries m)) (fa_int F (lm_MaxRetries l));
          q = qualityScore F (me_Gates m);
          s = \<lparr>jsc_Version = MetricVersion, jsc_Success = success, jsc_Cost = c, jsc_Duration = d, jsc_Retries = r,
               jsc_Quality = q, jsc_Overall = overallScore F success q c d r\<rparr>
      in (case Score_Validate s of Some e \<Rightarrow> Err e | None \<Rightarrow> Ok s))"

definition attr_Score :: "FloatOps \<Rightarrow> go_float TelemetryRecord \<Rightarrow> Meta \<Rightarrow> Limits \<Rightarrow> learn_error + Score" where
  "attr_Score F rec m l =
     (case Limits_Validate l of Some e \<Rightarrow> Err e
      | None \<Rightarrow> (case ParseOutcome (t_Outcome rec) of Inl e \<Rightarrow> Err e
        | Inr out \<Rightarrow> score_of F out (t_CostUSD rec) (t_DurationMS rec) m l))"

definition attr_Derive :: "FloatOps \<Rightarrow> go_float TelemetryRecord \<Rightarrow> Meta \<Rightarrow> Limits \<Rightarrow> learn_error + AttrResult" where
  "attr_Derive F rec m l =
     (case Attribute rec m of Inl e \<Rightarrow> Err e
      | Inr a \<Rightarrow> (case attr_Score F rec m l of Inl e \<Rightarrow> Err e | Inr s \<Rightarrow> Ok \<lparr>jr_Attribution = a, jr_Score = s\<rparr>))"

section \<open>Attribution of traces\<close>

definition TraceOutcome :: "FloatOps \<Rightarrow> Trace \<Rightarrow> string" where
  "TraceOutcome F tr =
     (let t = Features_Extract F tr in
      if 0 < ft_Failed t then ''failed''
      else if 0 < ft_Blocked t then ''blocked''
      else if ft_Truncated t then ''partial''
      else if ft_Steps t = [] \<or> ft_Skipped t = int (length (ft_Steps t)) then ''unknown''
      else ''succeeded'')"

text \<open>
  Keep the first of equal references, then sort by kind and id. The sort leaves open how references that differ in
  their version only are ordered; here they keep their order. The key of the code joins the parts with a NUL byte.
\<close>

definition ref_key :: "Reference \<Rightarrow> string" where
  "ref_key r = ref_Kind r @ [CHR 0x00] @ ref_ID r @ [CHR 0x00] @ ref_Version r"

definition sort_refs :: "Reference list \<Rightarrow> Reference list" where
  "sort_refs rs = sort_key (\<lambda>r. (ref_Kind r, ref_ID r)) rs"

definition unique_refs :: "Reference list \<Rightarrow> Reference list" where
  "unique_refs rs = sort_refs (dedup_by ref_key [] rs)"

definition traceEvidence :: "Trace \<Rightarrow> Reference list \<Rightarrow> Reference list" where
  "traceEvidence tr extra =
     unique_refs (filter (\<lambda>r. ref_ID r \<noteq> [])
       (\<lparr>ref_Kind = ''trace'', ref_ID = ev_ID (tr_Envelope tr), ref_Version = []\<rparr> # concat (map ts_Evidence (tr_Steps tr)) @ extra))"

definition AttributeTrace :: "FloatOps \<Rightarrow> Trace \<Rightarrow> Meta \<Rightarrow> learn_error + Attribution" where
  "AttributeTrace F tr m =
     (if tr_WorkPackageID tr = [] then Err (JlInvalid ''trace.workPackageId is required'')
      else if tr_AttemptID tr = [] then Err (JlInvalid ''trace.attemptId is required'')
      else Ok \<lparr>jat_ProjectID = me_ProjectID m, jat_WorkPackageID = tr_WorkPackageID tr, jat_AttemptID = tr_AttemptID tr,
            jat_AssignmentID = tr_AssignmentID tr, jat_Role = me_Role m, jat_Worker = me_Worker m,
            jat_Outcome = TraceOutcome F tr, jat_Sequence = me_Sequence m, jat_Evidence = traceEvidence tr (me_References m)\<rparr>)"

definition ScoreTrace :: "FloatOps \<Rightarrow> Trace \<Rightarrow> Meta \<Rightarrow> Limits \<Rightarrow> learn_error + Score" where
  "ScoreTrace F tr m l =
     (case Limits_Validate l of Some e \<Rightarrow> Err e
      | None \<Rightarrow> (let t = Features_Extract F tr in score_of F (TraceOutcome F tr) (ft_CostUSD t) (ft_DurationMS t) m l))"

definition DeriveTrace :: "FloatOps \<Rightarrow> Trace \<Rightarrow> Meta \<Rightarrow> Limits \<Rightarrow> learn_error + AttrResult" where
  "DeriveTrace F tr m l =
     (case AttributeTrace F tr m of Inl e \<Rightarrow> Err e
      | Inr a \<Rightarrow> (case ScoreTrace F tr m l of Inl e \<Rightarrow> Err e | Inr s \<Rightarrow> Ok \<lparr>jr_Attribution = a, jr_Score = s\<rparr>))"

fun DeriveTraces :: "FloatOps \<Rightarrow> Trace list \<Rightarrow> (Trace \<Rightarrow> Meta) \<Rightarrow> Limits \<Rightarrow> learn_error + AttrResult list" where
  "DeriveTraces F [] meta l = Ok []"
| "DeriveTraces F (tr # trs) meta l =
     (case DeriveTrace F tr (meta tr) l of Inl e \<Rightarrow> Err e
      | Inr r \<Rightarrow> (case DeriveTraces F trs meta l of Inl e \<Rightarrow> Err e | Inr rs \<Rightarrow> Ok (r # rs)))"

section \<open>Summaries\<close>

record Summary =
  su_Outcomes :: int
  su_Successes :: int
  su_Failures :: int
  su_MeanOverall :: go_float
  su_MeanCost :: go_float
  su_MeanDuration :: go_float

definition Summary_zero :: Summary where
  "Summary_zero = \<lparr>su_Outcomes = 0, su_Successes = 0, su_Failures = 0, su_MeanOverall = Finite 0, su_MeanCost = Finite 0,
     su_MeanDuration = Finite 0\<rparr>"

definition score_texts :: "FloatOps \<Rightarrow> Score \<Rightarrow> string list" where
  "score_texts F s = map (fa_show F) [jsc_Success s, jsc_Cost s, jsc_Duration s, jsc_Retries s, jsc_Quality s, jsc_Overall s]"

definition attr_sortKey :: "FloatOps \<Rightarrow> AttrResult \<Rightarrow> string" where
  "attr_sortKey F r =
     (let a = jr_Attribution r in
      strings_Join ''|'' ([jat_ProjectID a, jat_WorkPackageID a, jat_AttemptID a, jat_AssignmentID a, jat_Role a, jat_Worker a,
        itoa_int (jat_Sequence a), jat_Outcome a, jsc_Version (jr_Score r)] @ score_texts F (jr_Score r)))"

definition attr_canonical :: "FloatOps \<Rightarrow> AttrResult list \<Rightarrow> AttrResult list" where
  "attr_canonical F rs = sort_key (attr_sortKey F) rs"

definition summary_add :: "FloatOps \<Rightarrow> AttrResult \<Rightarrow> Summary \<Rightarrow> Summary" where
  "summary_add F r s =
     (let x = jat_Outcome (jr_Attribution r) in
      s\<lparr>su_Outcomes := su_Outcomes s + 1, su_Successes := bump (x = ''succeeded'') (su_Successes s),
        su_Failures := bump (x = ''failed'') (su_Failures s),
        su_MeanOverall := fa_add F (su_MeanOverall s) (jsc_Overall (jr_Score r)),
        su_MeanCost := fa_add F (su_MeanCost s) (jsc_Cost (jr_Score r)),
        su_MeanDuration := fa_add F (su_MeanDuration s) (jsc_Duration (jr_Score r))\<rparr>)"

definition summary_finish :: "FloatOps \<Rightarrow> nat \<Rightarrow> Summary \<Rightarrow> Summary" where
  "summary_finish F n s =
     (let k = fa_int F (int n) in
      s\<lparr>su_MeanOverall := fa_div F (su_MeanOverall s) k, su_MeanCost := fa_div F (su_MeanCost s) k,
        su_MeanDuration := fa_div F (su_MeanDuration s) k\<rparr>)"

definition Summarize :: "FloatOps \<Rightarrow> AttrResult list \<Rightarrow> Summary" where
  "Summarize F rs =
     (if rs = [] then Summary_zero
      else summary_finish F (length rs) (fold (summary_add F) (attr_canonical F rs) Summary_zero))"

record AttrGroup =
  ag_Dimension :: string
  ag_Value :: string
  ag_Summary :: Summary

definition keyFunc :: "string \<Rightarrow> (Attribution \<Rightarrow> string) option" where
  "keyFunc dimension =
     (if dimension = ''role'' then Some jat_Role else if dimension = ''worker'' then Some jat_Worker
      else if dimension = ''work_package'' then Some jat_WorkPackageID else None)"

text \<open>The map of groups with its keys sorted: each value with its results in their order.\<close>

definition groups_of :: "('a \<Rightarrow> string) \<Rightarrow> 'a list \<Rightarrow> (string \<times> 'a list) list" where
  "groups_of key xs = map (\<lambda>v. (v, filter (\<lambda>x. key x = v) xs)) (sort (remdups (map key xs)))"

definition GroupBy :: "FloatOps \<Rightarrow> AttrResult list \<Rightarrow> string \<Rightarrow> learn_error + AttrGroup list" where
  "GroupBy F rs dimension =
     (case keyFunc dimension of None \<Rightarrow> Err (JlInvalid ''unknown dimension'')
      | Some key \<Rightarrow> Ok (map (\<lambda>(v, g). \<lparr>ag_Dimension = dimension, ag_Value = v, ag_Summary = Summarize F g\<rparr>)
          (groups_of (\<lambda>r. key (jr_Attribution r)) rs)))"

end
