(* ===== verification/Texts.thy ===== *)
theory Texts
  imports Prelude
begin

text \<open>
  Strings are bytes, as in Go. What the sources do with runes: decoding UTF-8, where an invalid byte stands for the
  replacement rune, \<open>strings.TrimSpace\<close>, and texts cut at a number of runes.
\<close>

section \<open>Spaces\<close>

text \<open>The UTF-8 encodings of the runes \<open>unicode.IsSpace\<close> accepts.\<close>

definition space_encodings :: "string list" where
  "space_encodings =
     [[CHR 0x09], [CHR 0x0A], [CHR 0x0B], [CHR 0x0C], [CHR 0x0D], [CHR 0x20],
      [CHR 0xC2, CHR 0x85], [CHR 0xC2, CHR 0xA0], [CHR 0xE1, CHR 0x9A, CHR 0x80], [CHR 0xE2, CHR 0x80, CHR 0xA8],
      [CHR 0xE2, CHR 0x80, CHR 0xA9], [CHR 0xE2, CHR 0x80, CHR 0xAF], [CHR 0xE2, CHR 0x81, CHR 0x9F],
      [CHR 0xE3, CHR 0x80, CHR 0x80]]
     @ map (\<lambda>n. [CHR 0xE2, CHR 0x80, char_of (128 + n :: nat)]) [0..<11]"

fun trim_prefix :: "string list \<Rightarrow> string \<Rightarrow> string" where
  "trim_prefix encs [] = []"
| "trim_prefix encs (c # cs) =
     (case find (\<lambda>e. e \<noteq> [] \<and> take (length e) (c # cs) = e) encs of None \<Rightarrow> c # cs
      | Some e \<Rightarrow> trim_prefix encs (drop (length e - 1) cs))"

definition trim_space :: "string \<Rightarrow> string" where
  "trim_space s = rev (trim_prefix (map rev space_encodings) (rev (trim_prefix space_encodings s)))"

text \<open>A text that starts and ends with an ASCII character that is no space is left as it is; evaluation uses this.\<close>

definition ascii_text :: "char \<Rightarrow> bool" where
  "ascii_text c \<longleftrightarrow> \<not> digit7 c \<and> c \<notin> set [CHR 0x09, CHR 0x0A, CHR 0x0B, CHR 0x0C, CHR 0x0D, CHR 0x20]"

lemma space_encodings_ascii: "list_all (\<lambda>e. e \<noteq> [] \<and> \<not> ascii_text (hd e) \<and> \<not> ascii_text (last e)) space_encodings"
  by code_simp

lemma trim_prefix_ascii:
  assumes "list_all (\<lambda>e. e \<noteq> [] \<and> \<not> ascii_text (hd e)) encs" and "ascii_text c"
  shows "trim_prefix encs (c # cs) = c # cs"
proof -
  have "find (\<lambda>e. e \<noteq> [] \<and> take (length e) (c # cs) = e) encs = None"
    unfolding find_None_iff
  proof
    assume "\<exists>e. e \<in> set encs \<and> e \<noteq> [] \<and> take (length e) (c # cs) = e"
    then obtain e where e: "e \<in> set encs" "e \<noteq> []" "take (length e) (c # cs) = e" by blast
    have "hd e = hd (take (length e) (c # cs))" using e(3) by simp
    also have "\<dots> = c" using e(2) by (simp add: hd_take)
    finally have "hd e = c" .
    then show False using e(1) assms by (auto simp: list_all_iff)
  qed
  then show ?thesis by (simp del: find.simps)
qed

lemma trim_space_ascii:
  assumes "s \<noteq> []" and "ascii_text (hd s)" and "ascii_text (last s)"
  shows "trim_space s = s"
proof -
  have front: "trim_prefix space_encodings s = s"
    using assms(1,2) space_encodings_ascii by (cases s) (auto simp: list_all_iff intro!: trim_prefix_ascii simp del: trim_prefix.simps)
  obtain c cs where r: "rev s = c # cs" using assms(1) by (cases "rev s") auto
  then have "s = rev cs @ [c]" by (metis rev_rev_ident rev.simps(2))
  then have "ascii_text c" using assms(3) by simp
  then have "trim_prefix (map rev space_encodings) (rev s) = rev s"
    unfolding r using space_encodings_ascii by (intro trim_prefix_ascii) (auto simp: list_all_iff hd_rev)
  then show ?thesis by (simp add: trim_space_def front)
qed

lemma trim_space_code [code]:
  "trim_space s = (if s \<noteq> [] \<and> ascii_text (hd s) \<and> ascii_text (last s) then s
     else rev (trim_prefix (map rev space_encodings) (rev (trim_prefix space_encodings s))))"
  using trim_space_ascii by (simp add: trim_space_def)

lemma set_trim_prefix: "set (trim_prefix encs s) \<subseteq> set s"
proof (induction encs s rule: trim_prefix.induct)
  case (2 encs c cs)
  then show ?case by (auto split: option.splits dest: in_set_dropD)
qed simp

lemma set_trim_space: "set (trim_space s) \<subseteq> set s"
  unfolding trim_space_def using set_trim_prefix by (metis set_rev subset_trans)

text \<open>\<open>strings.Split\<close> at a separator of one byte.\<close>

fun split_on :: "char \<Rightarrow> string \<Rightarrow> string list" where
  "split_on d [] = [[]]"
| "split_on d (c # cs) = (if c = d then [] # split_on d cs else (case split_on d cs of [] \<Rightarrow> [[c]] | p # ps \<Rightarrow> (c # p) # ps))"

section \<open>Runes\<close>

abbreviation byte :: "char \<Rightarrow> nat" where "byte c \<equiv> of_char c"

text \<open>
  The number of bytes of the rune that a text starts with: 1 for an invalid byte.
\<close>

definition second_ok :: "nat \<Rightarrow> nat \<Rightarrow> bool" where
  "second_ok b d \<longleftrightarrow> (if b = 0xE0 then 0xA0 else if b = 0xF0 then 0x90 else 0x80) \<le> d \<and>
     d \<le> (if b = 0xED then 0x9F else if b = 0xF4 then 0x8F else 0xBF)"

text \<open>The number of continuation bytes that a leading byte asks for, 0 when it leads no longer rune.\<close>

definition rune_need :: "char \<Rightarrow> nat" where
  "rune_need c = (let b = byte c in if 0xC2 \<le> b \<and> b \<le> 0xDF then 1 else if 0xE0 \<le> b \<and> b \<le> 0xEF then 2
     else if 0xF0 \<le> b \<and> b \<le> 0xF4 then 3 else 0)"

definition rune_width :: "char \<Rightarrow> string \<Rightarrow> nat" where
  "rune_width c cs =
     (if rune_need c = 0 then 1
      else (case cs of [] \<Rightarrow> 1
        | d # ds \<Rightarrow> if rune_need c \<le> length cs \<and> second_ok (byte c) (byte d) \<and>
              list_all (\<lambda>x. 0x80 \<le> byte x \<and> byte x \<le> 0xBF) (take (rune_need c - 1) ds)
            then rune_need c + 1 else 1))"

text \<open>\<open>[]rune(s)\<close>: the encodings of the runes of a text.\<close>

definition replacement :: string where "replacement = [CHR 0xEF, CHR 0xBF, CHR 0xBD]"

function runes_of :: "string \<Rightarrow> string list" where
  "runes_of [] = []"
| "runes_of (c # cs) =
     (let w = rune_width c cs in
      (if w = 1 \<and> 0x80 \<le> byte c then replacement else take w (c # cs)) # runes_of (drop (w - 1) cs))"
  by pat_completeness auto
termination by (relation "measure length") auto

text \<open>A text that decodes to one rune, which is itself.\<close>

definition one_rune :: "string \<Rightarrow> bool" where
  "one_rune e \<longleftrightarrow> (case e of [] \<Rightarrow> False | c # cs \<Rightarrow> rune_width c cs = length e \<and> (length e = 1 \<longrightarrow> byte c < 0x80))"

lemma rune_width_bounds: "1 \<le> rune_width c cs \<and> rune_width c cs \<le> Suc (length cs)"
  by (auto simp: rune_width_def Let_def split: list.splits)

text \<open>The width of a rune depends on its own bytes only.\<close>

lemma rune_width_prefix:
  assumes "rune_width c cs = w" and "1 < w"
  shows "rune_width c (take (w - 1) cs @ s) = w"
proof -
  have cs: "rune_need c \<noteq> 0" "w = rune_need c + 1" using assms unfolding rune_width_def by (auto split: if_splits list.splits)
  then obtain d ds where d: "cs = d # ds" using assms unfolding rune_width_def by (cases cs) auto
  have ok: "rune_need c \<le> length cs" "second_ok (byte c) (byte d)" "list_all (\<lambda>x. 0x80 \<le> byte x \<and> byte x \<le> 0xBF) (take (rune_need c - 1) ds)"
    using assms cs unfolding d rune_width_def by (auto split: if_splits)
  have t: "take (w - 1) cs @ s = d # take (rune_need c - 1) ds @ s" using cs d by (cases "rune_need c") simp_all
  have "min (length ds) (rune_need c - 1) = rune_need c - 1" using ok(1) d by simp
  then have "take (rune_need c - 1) (take (rune_need c - 1) ds @ s) = take (rune_need c - 1) ds" by simp
  moreover have "rune_need c \<le> length (d # take (rune_need c - 1) ds @ s)" using ok(1) d cs(1) by simp
  ultimately show ?thesis unfolding t rune_width_def using cs ok by (simp del: take_append)
qed

lemma one_rune_decodes:
  assumes "one_rune e"
  shows "runes_of (e @ s) = e # runes_of s"
proof -
  obtain c cs where e: "e = c # cs" and w: "rune_width c cs = Suc (length cs)" "cs = [] \<Longrightarrow> byte c < 0x80"
    using assms by (auto simp: one_rune_def split: list.splits)
  have "rune_width c (cs @ s) = Suc (length cs)"
  proof (cases cs)
    case Nil
    then show ?thesis using w(2) by (auto simp: rune_width_def rune_need_def Let_def)
  next
    case (Cons d ds)
    then show ?thesis using rune_width_prefix [OF w(1), of s] by simp
  qed
  then show ?thesis using w(2) by (cases cs) (simp_all add: e Let_def)
qed

lemma runes_one: "e \<in> set (runes_of s) \<Longrightarrow> one_rune e"
proof (induction s rule: runes_of.induct)
  case (2 c cs)
  let ?w = "rune_width c cs"
  have "one_rune (if ?w = 1 \<and> 0x80 \<le> byte c then replacement else take ?w (c # cs))"
  proof (cases "?w = 1")
    case True
    then show ?thesis by (auto simp: one_rune_def replacement_def rune_width_def rune_need_def second_ok_def Let_def)
  next
    case False
    then have w: "1 < ?w" using rune_width_bounds [of c cs] by auto
    then have "take ?w (c # cs) = c # take (?w - 1) cs" by (cases ?w) auto
    then show ?thesis using rune_width_prefix [OF refl w, of "[]"] rune_width_bounds [of c cs] w by (auto simp: one_rune_def)
  qed
  then show ?case using 2 by (auto simp: Let_def)
qed simp

lemma runes_of_concat: "\<forall>e \<in> set es. one_rune e \<Longrightarrow> runes_of (concat es) = es"
  by (induction es) (simp_all add: one_rune_decodes)

end
