(* ===== verification/Retrieval.thy ===== *)
theory Retrieval
  imports MemoryStoreProps JobLearn Texts "HOL-Library.Product_Lexorder"
begin

text \<open>
  \<open>memory/retrieval\<close>: ranked reads of the projection, histories derived from the event log and summaries of traces, and
  \<open>memory/retention\<close>: trimmed views of traces. \<open>RetrievalEnv\<close> holds what is not modelled: \<open>strings.ToLower\<close> and the
  classes of letters and digits (Unicode tables), and the JSON decoding of records, events and traces.
\<close>

section \<open>Queries\<close>

record HistoryEvent =
  he_ID :: string
  he_Sequence :: int
  he_Type :: string
  he_OccurredAt :: string
  he_ProjectID :: string
  he_AggregateKind :: string
  he_AggregateID :: string
  he_WorkPackage :: "string option"  \<comment> \<open>\<open>Payload["workPackageId"]\<close>, when it is a string\<close>

record RetrievalEnv =
  rv_lower :: "string \<Rightarrow> string"
  rv_word :: "string \<Rightarrow> bool"  \<comment> \<open>is a rune a letter or a digit\<close>
  rv_fields :: "string \<Rightarrow> (string \<Rightarrow> string option) option"  \<comment> \<open>the fields of an object that are strings\<close>
  rv_event :: "string \<Rightarrow> HistoryEvent option"
  rv_trace :: "string \<Rightarrow> Trace option"

record Query =
  qy_proj :: Projection
  qy_store :: Store

definition ByID :: "string \<Rightarrow> string \<Rightarrow> Query \<Rightarrow> StoreRecord option" where "ByID kind rid q = proj_Get kind rid (qy_proj q)"

definition ByKind :: "string \<Rightarrow> Query \<Rightarrow> StoreRecord list" where "ByKind kind q = proj_List kind (qy_proj q)"

definition Query_Filter :: "string \<Rightarrow> (StoreRecord \<Rightarrow> bool) \<Rightarrow> Query \<Rightarrow> StoreRecord list" where
  "Query_Filter kind keep q = sort_key sr_ID (filter keep (proj_List kind (qy_proj q)))"

definition Query_Count :: "string \<Rightarrow> Query \<Rightarrow> int" where "Query_Count kind q = int (length (proj_List kind (qy_proj q)))"

definition Query_Events :: "StoreEnv \<Rightarrow> Query \<Rightarrow> store_error + EventRecord list" where "Query_Events S q = store_Events S (qy_store q)"

section \<open>Ranked retrieval\<close>

record RetrievalProvenance =
  qp_Source :: string
  qp_Kind :: string
  qp_ID :: string
  qp_Revision :: int
  qp_Hash :: string

record RetrievalCandidate =
  qc_Kind :: string
  qc_ID :: string
  qc_Revision :: int
  qc_Hash :: string
  qc_Text :: string
  qc_Provenance :: RetrievalProvenance

record RetrievalResult =
  qr_Candidate :: RetrievalCandidate
  qr_Score :: int
  qr_Rank :: int

record RetrievalRequest =
  qq_Kinds :: "string list"
  qq_Terms :: "string list"
  qq_Filter :: "(RetrievalCandidate \<Rightarrow> bool) option"
  qq_Limit :: int

datatype retrieval_error = RetCancelled | RetInvalid string

definition DefaultLimit :: int where "DefaultLimit = 100"
definition MaxLimit :: int where "MaxLimit = 10000"

definition resolveLimit :: "int \<Rightarrow> retrieval_error + int" where
  "resolveLimit limit =
     (if limit < 0 then Err (RetInvalid ''limit must not be negative'')
      else if limit = 0 then Ok DefaultLimit
      else if MaxLimit < limit then Err (RetInvalid ''limit exceeds max'')
      else Ok limit)"

definition resolveKinds :: "string list \<Rightarrow> Projection \<Rightarrow> retrieval_error + string list" where
  "resolveKinds kinds p =
     (if kinds = [] then Ok (proj_Kinds p)
      else if [] \<in> set kinds then Err (RetInvalid ''empty kind'')
      else Ok (sort (remdups kinds)))"

definition normalizeTerms :: "RetrievalEnv \<Rightarrow> string list \<Rightarrow> string list" where
  "normalizeTerms E ts = sort (remdups (filter (\<lambda>t. t \<noteq> []) (map (\<lambda>t. rv_lower E (trim_space t)) ts)))"

fun str_contains :: "string \<Rightarrow> string \<Rightarrow> bool" where
  "str_contains [] t \<longleftrightarrow> t = []"
| "str_contains (c # cs) t \<longleftrightarrow> take (length t) (c # cs) = t \<or> str_contains cs t"

definition ret_score :: "RetrievalEnv \<Rightarrow> string \<Rightarrow> string list \<Rightarrow> int" where
  "ret_score E text terms =
     (if terms = [] \<or> text = [] then 0 else int (length (filter (str_contains (rv_lower E text)) terms)))"

definition accepts :: "(RetrievalCandidate \<Rightarrow> bool) option \<Rightarrow> RetrievalCandidate \<Rightarrow> bool" where
  "accepts f c = (case f of None \<Rightarrow> True | Some g \<Rightarrow> g c)"

definition text_fields :: "string list" where
  "text_fields = [''text'', ''summary'', ''title'', ''name'', ''description'', ''body'', ''prompt'']"

definition candidateText :: "RetrievalEnv \<Rightarrow> string \<Rightarrow> string" where
  "candidateText E data =
     (if data = [] then []
      else (case rv_fields E data of None \<Rightarrow> []
        | Some obj \<Rightarrow> (case List.map_filter (\<lambda>k. case obj k of Some [] \<Rightarrow> None | v \<Rightarrow> v) text_fields of [] \<Rightarrow> [] | v # _ \<Rightarrow> v)))"

definition candidate_of :: "RetrievalEnv \<Rightarrow> StoreRecord \<Rightarrow> RetrievalCandidate" where
  "candidate_of E e =
     \<lparr>qc_Kind = sr_Kind e, qc_ID = sr_ID e, qc_Revision = sr_Revision e, qc_Hash = sr_Hash e, qc_Text = candidateText E (sr_Data e),
      qc_Provenance = \<lparr>qp_Source = ''projection'', qp_Kind = sr_Kind e, qp_ID = sr_ID e, qp_Revision = sr_Revision e, qp_Hash = sr_Hash e\<rparr>\<rparr>"

definition result_key :: "RetrievalResult \<Rightarrow> int \<times> string \<times> string" where
  "result_key r = (- qr_Score r, qc_Kind (qr_Candidate r), qc_ID (qr_Candidate r))"

definition scored_results ::
  "RetrievalEnv \<Rightarrow> Projection \<Rightarrow> (RetrievalCandidate \<Rightarrow> bool) option \<Rightarrow> string list \<Rightarrow> string list \<Rightarrow> RetrievalResult list" where
  "scored_results E p f terms kinds =
     concat (map (\<lambda>kind. map (\<lambda>c. \<lparr>qr_Candidate = c, qr_Score = ret_score E (qc_Text c) terms, qr_Rank = 0\<rparr>)
       (filter (accepts f) (map (candidate_of E) (proj_List kind p)))) kinds)"

definition number_ranks :: "RetrievalResult list \<Rightarrow> RetrievalResult list" where
  "number_ranks rs = map (\<lambda>(i, r). r\<lparr>qr_Rank := int i + 1\<rparr>) (zip [0..<length rs] rs)"

text \<open>\<open>cancelled\<close> is whether \<open>ctx.Err()\<close> reports an error.\<close>

definition Retrieve :: "RetrievalEnv \<Rightarrow> bool \<Rightarrow> Query \<Rightarrow> RetrievalRequest \<Rightarrow> retrieval_error + RetrievalResult list" where
  "Retrieve E cancelled q req =
     (if cancelled then Err RetCancelled
      else (case resolveLimit (qq_Limit req) of Inl e \<Rightarrow> Err e
       | Inr limit \<Rightarrow> (case resolveKinds (qq_Kinds req) (qy_proj q) of Inl e \<Rightarrow> Err e
        | Inr kinds \<Rightarrow>
            Ok (number_ranks (take (nat limit) (sort_key result_key
              (scored_results E (qy_proj q) (qq_Filter req) (normalizeTerms E (qq_Terms req)) kinds)))))))"

section \<open>Histories\<close>

record WorkHistoryEntry =
  wh_WorkPackageID :: string
  wh_CreatedAt :: string
  wh_ReadyAt :: string
  wh_CompletedAt :: string
  wh_State :: string
  wh_EventIDs :: "string list"

record ProjectHistoryEntry =
  ph_ProjectID :: string
  ph_EventID :: string
  ph_Type :: string
  ph_Sequence :: int
  ph_OccurredAt :: string

record JobHistoryEntry =
  jh_AssignmentID :: string
  jh_WorkPackageID :: string
  jh_StartedAt :: string
  jh_FinishedAt :: string
  jh_Outcome :: string
  jh_EventIDs :: "string list"

datatype history_error = HistStore store_error | HistDecode

fun decode_events :: "RetrievalEnv \<Rightarrow> EventRecord list \<Rightarrow> history_error + HistoryEvent list" where
  "decode_events E [] = Ok []"
| "decode_events E (r # rs) =
     (case rv_event E (er_Data r) of None \<Rightarrow> Err HistDecode
      | Some e \<Rightarrow> (case decode_events E rs of Inl x \<Rightarrow> Err x | Inr es \<Rightarrow> Ok (e # es)))"

definition decodedEvents :: "StoreEnv \<Rightarrow> RetrievalEnv \<Rightarrow> Query \<Rightarrow> history_error + HistoryEvent list" where
  "decodedEvents S E q =
     (case store_Events S (qy_store q) of Inl e \<Rightarrow> Err (HistStore e)
      | Inr rs \<Rightarrow> (case decode_events E rs of Inl x \<Rightarrow> Err x | Inr es \<Rightarrow> Ok (sort_key he_Sequence es)))"

definition work_entry :: "HistoryEvent \<Rightarrow> WorkHistoryEntry \<Rightarrow> WorkHistoryEntry" where
  "work_entry e w0 =
     (let w = w0\<lparr>wh_EventIDs := wh_EventIDs w0 @ [he_ID e]\<rparr> in
      if he_Type e = ''WORK_PACKAGE_CREATED'' then w\<lparr>wh_CreatedAt := he_OccurredAt e\<rparr>
      else if he_Type e = ''WORK_PACKAGE_READY''
        then w\<lparr>wh_ReadyAt := he_OccurredAt e, wh_State := (if wh_State w = ''proposed'' then ''ready'' else wh_State w)\<rparr>
      else if he_Type e = ''WORK_PACKAGE_COMPLETED'' then w\<lparr>wh_CompletedAt := he_OccurredAt e, wh_State := ''completed''\<rparr>
      else w)"

definition new_work_entry :: "string \<Rightarrow> WorkHistoryEntry" where
  "new_work_entry k = \<lparr>wh_WorkPackageID = k, wh_CreatedAt = [], wh_ReadyAt = [], wh_CompletedAt = [], wh_State = ''proposed'', wh_EventIDs = []\<rparr>"

definition job_entry :: "HistoryEvent \<Rightarrow> JobHistoryEntry \<Rightarrow> JobHistoryEntry" where
  "job_entry e j0 =
     (let j1 = (case he_WorkPackage e of Some (c # cs) \<Rightarrow> j0\<lparr>jh_WorkPackageID := c # cs\<rparr> | _ \<Rightarrow> j0);
          j = j1\<lparr>jh_EventIDs := jh_EventIDs j1 @ [he_ID e]\<rparr> in
      if he_Type e \<in> set [''EXECUTION_STARTED'', ''EXECUTION_LEASED'', ''EXECUTION_PLANNED'']
        then j\<lparr>jh_StartedAt := (if jh_StartedAt j = [] then he_OccurredAt e else jh_StartedAt j),
               jh_Outcome := (if jh_Outcome j = ''unknown'' then ''running'' else jh_Outcome j)\<rparr>
      else if he_Type e = ''EXECUTION_COMPLETED'' then j\<lparr>jh_FinishedAt := he_OccurredAt e, jh_Outcome := ''succeeded''\<rparr>
      else if he_Type e = ''EXECUTION_FAILED'' then j\<lparr>jh_FinishedAt := he_OccurredAt e, jh_Outcome := ''failed''\<rparr>
      else if he_Type e = ''EXECUTION_EXPIRED'' then j\<lparr>jh_FinishedAt := he_OccurredAt e, jh_Outcome := ''expired''\<rparr>
      else j)"

definition new_job_entry :: "string \<Rightarrow> JobHistoryEntry" where
  "new_job_entry k = \<lparr>jh_AssignmentID = k, jh_WorkPackageID = [], jh_StartedAt = [], jh_FinishedAt = [], jh_Outcome = ''unknown'', jh_EventIDs = []\<rparr>"

text \<open>The map by aggregate id that both histories build; its entries come out in the order of the ids.\<close>

definition history_step ::
  "string \<Rightarrow> (string \<Rightarrow> 'a) \<Rightarrow> (HistoryEvent \<Rightarrow> 'a \<Rightarrow> 'a) \<Rightarrow> HistoryEvent \<Rightarrow> (string, 'a) fmap \<Rightarrow> (string, 'a) fmap" where
  "history_step kind new step e m =
     (if he_AggregateKind e \<noteq> kind then m
      else fmupd (he_AggregateID e) (step e (fm_getd (new (he_AggregateID e)) m (he_AggregateID e))) m)"

definition WorkHistory :: "StoreEnv \<Rightarrow> RetrievalEnv \<Rightarrow> Query \<Rightarrow> history_error + WorkHistoryEntry list" where
  "WorkHistory S E q =
     (case decodedEvents S E q of Inl x \<Rightarrow> Err x
      | Inr es \<Rightarrow> Ok (sort_key wh_WorkPackageID (fm_vals (fold (history_step ''work_package'' new_work_entry work_entry) es fmempty))))"

definition ProjectHistory :: "StoreEnv \<Rightarrow> RetrievalEnv \<Rightarrow> Query \<Rightarrow> history_error + ProjectHistoryEntry list" where
  "ProjectHistory S E q =
     (case decodedEvents S E q of Inl x \<Rightarrow> Err x
      | Inr es \<Rightarrow> Ok (map (\<lambda>e. \<lparr>ph_ProjectID = he_ProjectID e, ph_EventID = he_ID e, ph_Type = he_Type e, ph_Sequence = he_Sequence e,
            ph_OccurredAt = he_OccurredAt e\<rparr>) (filter (\<lambda>e. he_AggregateKind e = ''project'') es)))"

definition JobHistory :: "StoreEnv \<Rightarrow> RetrievalEnv \<Rightarrow> Query \<Rightarrow> history_error + JobHistoryEntry list" where
  "JobHistory S E q =
     (case decodedEvents S E q of Inl x \<Rightarrow> Err x
      | Inr es \<Rightarrow> Ok (sort_key jh_AssignmentID (fm_vals (fold (history_step ''assignment'' new_job_entry job_entry) es fmempty))))"

section \<open>Summaries of traces\<close>

record TraceSummary =
  sm_TraceID :: string
  sm_AttemptID :: string
  sm_ProjectID :: string
  sm_Steps :: int
  sm_FailedSteps :: int
  sm_BlockedSteps :: int
  sm_DurationMS :: int
  sm_TokensIn :: int
  sm_TokensOut :: int
  sm_CostUSD :: go_float
  sm_Truncated :: bool
  sm_Redacted :: bool
  sm_Outcome :: string

definition summarize_step :: "FloatOps \<Rightarrow> TraceStep \<Rightarrow> TraceSummary \<Rightarrow> TraceSummary" where
  "summarize_step F s t =
     t\<lparr>sm_FailedSteps := bump (ts_Outcome s = ''failed'') (sm_FailedSteps t),
       sm_BlockedSteps := bump (ts_Outcome s = ''blocked'') (sm_BlockedSteps t),
       sm_DurationMS := wrap_int (sm_DurationMS t + or_zero (ts_DurationMS s)),
       sm_TokensIn := wrap_int (sm_TokensIn t + (case ts_Tokens s of None \<Rightarrow> 0 | Some k \<Rightarrow> or_zero (tc_Input k))),
       sm_TokensOut := wrap_int (sm_TokensOut t + (case ts_Tokens s of None \<Rightarrow> 0 | Some k \<Rightarrow> or_zero (tc_Output k))),
       sm_CostUSD := (case ts_CostUSD s of None \<Rightarrow> sm_CostUSD t | Some c \<Rightarrow> fa_add F (sm_CostUSD t) c),
       sm_Redacted := (sm_Redacted t \<or> ts_Redacted s = Some True)\<rparr>"

definition SummarizeTrace :: "FloatOps \<Rightarrow> Trace \<Rightarrow> TraceSummary" where
  "SummarizeTrace F tr =
     (let s = fold (summarize_step F) (tr_Steps tr)
        \<lparr>sm_TraceID = ev_ID (tr_Envelope tr), sm_AttemptID = tr_AttemptID tr, sm_ProjectID = ev_ProjectID (tr_Envelope tr),
         sm_Steps = int (length (tr_Steps tr)), sm_FailedSteps = 0, sm_BlockedSteps = 0, sm_DurationMS = 0, sm_TokensIn = 0,
         sm_TokensOut = 0, sm_CostUSD = Finite 0, sm_Truncated = (tr_Truncated tr = Some True), sm_Redacted = False, sm_Outcome = []\<rparr>;
        allSkipped = (tr_Steps tr \<noteq> [] \<and> list_all (\<lambda>x. ts_Outcome x = ''skipped'') (tr_Steps tr)) in
      s\<lparr>sm_Outcome := (if 0 < sm_FailedSteps s then ''failed'' else if 0 < sm_BlockedSteps s then ''blocked''
         else if allSkipped then ''skipped'' else ''succeeded'')\<rparr>)"

fun summarize_entries :: "FloatOps \<Rightarrow> RetrievalEnv \<Rightarrow> StoreRecord list \<Rightarrow> TraceSummary list option" where
  "summarize_entries F E [] = Some []"
| "summarize_entries F E (e # es) =
     (case rv_trace E (sr_Data e) of None \<Rightarrow> None
      | Some tr \<Rightarrow> (case summarize_entries F E es of None \<Rightarrow> None | Some ss \<Rightarrow> Some (SummarizeTrace F tr # ss)))"

datatype summary_error = SummaryDecode | SummaryContract val_error

definition TraceSummaries :: "FloatOps \<Rightarrow> RetrievalEnv \<Rightarrow> Query \<Rightarrow> summary_error + TraceSummary list" where
  "TraceSummaries F E q =
     (case summarize_entries F E (proj_List ''trace'' (qy_proj q)) of None \<Rightarrow> Err SummaryDecode
      | Some ss \<Rightarrow> Ok (sort_key sm_TraceID ss))"

definition TraceSummariesByAttempt :: "FloatOps \<Rightarrow> RetrievalEnv \<Rightarrow> Query \<Rightarrow> string \<Rightarrow> summary_error + TraceSummary list" where
  "TraceSummariesByAttempt F E q attempt =
     (case RequireIdentifier ''attemptId'' attempt of Some e \<Rightarrow> Err (SummaryContract e)
      | None \<Rightarrow> (case TraceSummaries F E q of Inl e \<Rightarrow> Err e | Inr ss \<Rightarrow> Ok (filter (\<lambda>s. sm_AttemptID s = attempt) ss)))"

section \<open>Retention of traces\<close>

record RetentionPolicy =
  rpy_MaxStepsPerTrace :: int
  rpy_MaxTracesPerAttempt :: int

definition DefaultRetention :: RetentionPolicy where
  "DefaultRetention = \<lparr>rpy_MaxStepsPerTrace = 0, rpy_MaxTracesPerAttempt = 0\<rparr>"

definition trimSteps :: "int \<Rightarrow> TraceStep list \<Rightarrow> TraceStep list" where
  "trimSteps limit steps =
     (let kept = sort_key (\<lambda>s. or_zero (ts_Sequence s)) steps in
      if 0 < limit \<and> limit < int (length kept) then drop (length kept - nat limit) kept else kept)"

definition trace_id :: "Trace \<Rightarrow> string" where "trace_id t = ev_ID (tr_Envelope t)"

definition trace_revision :: "Trace \<Rightarrow> int" where "trace_revision t = or_zero (ev_Revision (tr_Envelope t))"

definition limitPerAttempt :: "int \<Rightarrow> Trace list \<Rightarrow> Trace list" where
  "limitPerAttempt limit ts =
     concat (map (\<lambda>(attempt, g). take (nat limit) (sort_key (\<lambda>t. (- trace_revision t, trace_id t)) g)) (groups_of tr_AttemptID ts))"

definition Trim :: "Trace list \<Rightarrow> RetentionPolicy \<Rightarrow> Trace list" where
  "Trim ts p =
     (let out = map (\<lambda>t. t\<lparr>tr_Steps := trimSteps (rpy_MaxStepsPerTrace p) (tr_Steps t)\<rparr>) ts in
      sort_key trace_id (if 0 < rpy_MaxTracesPerAttempt p then limitPerAttempt (rpy_MaxTracesPerAttempt p) out else out))"

end
