(* ===== verification/RetrievalProps.thy ===== *)
theory RetrievalProps
  imports Retrieval
begin

text \<open>
  A retrieval returns the best candidates of the projection: what it returns is fixed by the sets of kinds and terms and by
  the limit, up to candidates that share their score, kind and id.
\<close>

section \<open>Ranked retrieval\<close>

text \<open>The candidates asked for, and the number of distinct terms that occur in one.\<close>

definition wanted :: "RetrievalEnv \<Rightarrow> Query \<Rightarrow> RetrievalRequest \<Rightarrow> RetrievalCandidate list" where
  "wanted E q req = filter (accepts (qq_Filter req)) (map (candidate_of E)
     (filter (\<lambda>e. qq_Kinds req = [] \<or> sr_Kind e \<in> set (qq_Kinds req)) (fm_vals (qy_proj q))))"

definition term_hits :: "RetrievalEnv \<Rightarrow> RetrievalRequest \<Rightarrow> RetrievalCandidate \<Rightarrow> int" where
  "term_hits E req c = (if qc_Text c = [] then 0 else int (card {t \<in> (\<lambda>t. rv_lower E (trim_space t)) ` set (qq_Terms req).
     t \<noteq> [] \<and> str_contains (rv_lower E (qc_Text c)) t}))"

definition candidate_rank :: "RetrievalEnv \<Rightarrow> RetrievalRequest \<Rightarrow> RetrievalCandidate \<Rightarrow> int \<times> string \<times> string" where
  "candidate_rank E req c = (- term_hits E req c, qc_Kind c, qc_ID c)"

lemma ret_score_hits: "ret_score E (qc_Text c) (normalizeTerms E (qq_Terms req)) = term_hits E req c"
proof -
  let ?ts = "normalizeTerms E (qq_Terms req)" and ?P = "str_contains (rv_lower E (qc_Text c))"
  have d: "distinct ?ts" by (simp add: normalizeTerms_def)
  have "{t \<in> (\<lambda>t. rv_lower E (trim_space t)) ` set (qq_Terms req). t \<noteq> [] \<and> ?P t} = set (filter ?P ?ts)"
    by (auto simp: normalizeTerms_def)
  then have "card {t \<in> (\<lambda>t. rv_lower E (trim_space t)) ` set (qq_Terms req). t \<noteq> [] \<and> ?P t} = length (filter ?P ?ts)"
    using distinct_card [OF distinct_filter [OF d]] by metis
  then show ?thesis by (auto simp: ret_score_def term_hits_def)
qed

lemma mset_by_kind:
  "distinct ks \<Longrightarrow> mset (concat (map (\<lambda>k. sort_key h (filter (\<lambda>e. f e = k) es)) ks)) = mset (filter (\<lambda>e. f e \<in> set ks) es)"
proof (induction ks)
  case (Cons k ks)
  have "filter_mset (\<lambda>e. f e = k) M + filter_mset (\<lambda>e. f e \<in> set ks) M = filter_mset (\<lambda>e. f e \<in> set (k # ks)) M" for M
    using Cons.prems by (intro multiset_eqI) auto
  then show ?case using Cons by simp
qed simp

lemma resolved_kinds:
  assumes "resolveKinds kinds p = Ok ks"
  shows "distinct ks \<and> filter (\<lambda>e. sr_Kind e \<in> set ks) (fm_vals p) = filter (\<lambda>e. kinds = [] \<or> sr_Kind e \<in> set kinds) (fm_vals p)"
  using assms by (auto simp: resolveKinds_def proj_Kinds_def split: if_splits intro!: filter_cong)

lemma scored_candidates:
  assumes "resolveKinds (qq_Kinds req) (qy_proj q) = Ok ks"
  shows "mset (map qr_Candidate (scored_results E (qy_proj q) (qq_Filter req) terms ks)) = mset (wanted E q req)"
proof -
  have "map qr_Candidate (scored_results E (qy_proj q) (qq_Filter req) terms ks) =
      filter (accepts (qq_Filter req)) (map (candidate_of E) (concat (map (\<lambda>kind. proj_List kind (qy_proj q)) ks)))"
    by (induction ks) (simp_all add: scored_results_def o_def)
  moreover have "mset (concat (map (\<lambda>kind. proj_List kind (qy_proj q)) ks)) =
      mset (filter (\<lambda>e. qq_Kinds req = [] \<or> sr_Kind e \<in> set (qq_Kinds req)) (fm_vals (qy_proj q)))"
    unfolding proj_List_def using resolved_kinds [OF assms] mset_by_kind by metis
  ultimately show ?thesis by (simp only: wanted_def mset_filter mset_map)
qed

lemma number_ranks_map:
  "map qr_Candidate (number_ranks rs) = map qr_Candidate rs" "map qr_Score (number_ranks rs) = map qr_Score rs"
  "map qr_Rank (number_ranks rs) = map (\<lambda>i. int i + 1) [0..<length rs]"
proof -
  have "map qr_Candidate (map (\<lambda>(i, r). r\<lparr>qr_Rank := int i + 1\<rparr>) (zip is rs)) = map qr_Candidate rs"
    "map qr_Score (map (\<lambda>(i, r). r\<lparr>qr_Rank := int i + 1\<rparr>) (zip is rs)) = map qr_Score rs"
    "map qr_Rank (map (\<lambda>(i, r). r\<lparr>qr_Rank := int i + 1\<rparr>) (zip is rs)) = map (\<lambda>i. int i + 1) is"
    if "length is = length rs" for "is" :: "nat list"
    using that by (induction "is" rs rule: list_induct2) simp_all
  from this [of "[0..<length rs]"] show "map qr_Candidate (number_ranks rs) = map qr_Candidate rs"
    "map qr_Score (number_ranks rs) = map qr_Score rs" "map qr_Rank (number_ranks rs) = map (\<lambda>i. int i + 1) [0..<length rs]"
    by (simp_all only: number_ranks_def) simp_all
qed

text \<open>
  A retrieval splits the candidates asked for into those it returns, sorted and ranked from one by the number of distinct
  terms they contain, then kind and id, and those it leaves out; it leaves some out only at the limit, and none of them
  comes before one it returns.
\<close>

lemma retrieve_best:
  assumes "Retrieve E False q req = Ok rs"
  shows "\<exists>limit rest. resolveLimit (qq_Limit req) = Ok limit \<and> int (length rs) \<le> limit \<and> (rest \<noteq> [] \<longrightarrow> int (length rs) = limit) \<and>
    mset (map qr_Candidate rs @ rest) = mset (wanted E q req) \<and>
    map qr_Rank rs = map (\<lambda>i. int i + 1) [0..<length rs] \<and>
    map qr_Score rs = map (term_hits E req) (map qr_Candidate rs) \<and>
    sorted (map (candidate_rank E req) (map qr_Candidate rs)) \<and>
    (\<forall>c \<in> set (map qr_Candidate rs). \<forall>d \<in> set rest. candidate_rank E req c \<le> candidate_rank E req d)"
proof -
  let ?terms = "normalizeTerms E (qq_Terms req)"
  obtain limit ks where limit: "resolveLimit (qq_Limit req) = Ok limit" and ks: "resolveKinds (qq_Kinds req) (qy_proj q) = Ok ks"
    and rs: "rs = number_ranks (take (nat limit) (sort_key result_key (scored_results E (qy_proj q) (qq_Filter req) ?terms ks)))"
    using assms by (auto simp: Retrieve_def split: sum.splits)
  define S where "S = sort_key result_key (scored_results E (qy_proj q) (qq_Filter req) ?terms ks)"
  have "0 \<le> limit" using limit by (auto simp: resolveLimit_def DefaultLimit_def split: if_splits)
  have score: "qr_Score r = term_hits E req (qr_Candidate r)" if "r \<in> set S" for r
    using that by (auto simp: S_def scored_results_def ret_score_hits)
  then have key: "map result_key xs = map (candidate_rank E req) (map qr_Candidate xs)" if "set xs \<subseteq> set S" for xs
    using that by (auto simp: result_key_def candidate_rank_def)
  have "sorted (map result_key (take (nat limit) S @ drop (nat limit) S))" by (simp add: S_def)
  then have sorted: "sorted (map (candidate_rank E req) (map qr_Candidate (take (nat limit) S)) @
      map (candidate_rank E req) (map qr_Candidate (drop (nat limit) S)))"
    using key [of "take (nat limit) S"] key [of "drop (nat limit) S"] by (simp only: map_append set_take_subset set_drop_subset)
  let ?rest = "map qr_Candidate (drop (nat limit) S)"
  have cands: "map qr_Candidate rs = map qr_Candidate (take (nat limit) S)" and len: "length rs = min (length S) (nat limit)"
    unfolding rs S_def by (simp_all add: number_ranks_map) (simp add: number_ranks_def)
  have "map qr_Candidate rs @ ?rest = map qr_Candidate S" unfolding cands by (simp flip: map_append)
  then have "mset (map qr_Candidate rs @ ?rest) = mset (wanted E q req)"
    using scored_candidates [OF ks, of E ?terms] by (simp add: S_def)
  moreover have "map qr_Score rs = map (term_hits E req) (map qr_Candidate rs)"
    unfolding cands using score by (simp add: rs number_ranks_map flip: S_def) (meson in_set_takeD)
  moreover have "map qr_Rank rs = map (\<lambda>i. int i + 1) [0..<length rs]"
    unfolding rs number_ranks_map by (simp add: number_ranks_def)
  moreover have "int (length rs) \<le> limit" "?rest \<noteq> [] \<longrightarrow> int (length rs) = limit" using len \<open>0 \<le> limit\<close> by auto
  ultimately show ?thesis using limit sorted unfolding cands by (intro exI [of _ limit] exI [of _ ?rest]) (auto simp: sorted_append)
qed

section \<open>Retention\<close>

text \<open>The steps that are kept are the last ones in order of their sequence, and some are dropped only at the limit.\<close>

lemma trimSteps_latest:
  "\<exists>old. sort_key (\<lambda>s. or_zero (ts_Sequence s)) steps = old @ trimSteps limit steps \<and>
     (0 < limit \<longrightarrow> int (length (trimSteps limit steps)) \<le> limit) \<and>
     (old \<noteq> [] \<longrightarrow> 0 < limit \<and> int (length (trimSteps limit steps)) = limit)"
proof (cases "0 < limit \<and> limit < int (length steps)")
  case True
  let ?kept = "sort_key (\<lambda>s. or_zero (ts_Sequence s)) steps"
  have "trimSteps limit steps = drop (length ?kept - nat limit) ?kept" using True by (simp add: trimSteps_def Let_def)
  moreover have "int (length steps) - int (length steps - nat limit) = limit" using True by linarith
  ultimately show ?thesis using True by (intro exI [of _ "take (length ?kept - nat limit) ?kept"]) simp
next
  case False
  then have "trimSteps limit steps = sort_key (\<lambda>s. or_zero (ts_Sequence s)) steps" by (auto simp: trimSteps_def Let_def)
  then show ?thesis using False by (intro exI [of _ "[]"]) auto
qed

text \<open>At most the limit of traces is kept per attempt, each of them an input.\<close>

lemma limitPerAttempt_bound:
  "length (filter (\<lambda>t. tr_AttemptID t = a) (limitPerAttempt limit ts)) \<le> nat limit \<and> set (limitPerAttempt limit ts) \<subseteq> set ts"
proof
  define top where "top g = take (nat limit) (sort_key (\<lambda>t. (- trace_revision t, trace_id t)) g)" for g
  let ?group = "\<lambda>k. filter (\<lambda>t. tr_AttemptID t = k) ts"
  have out: "limitPerAttempt limit ts = concat (map (\<lambda>k. top (?group k)) (sort (remdups (map tr_AttemptID ts))))"
    by (simp add: limitPerAttempt_def groups_of_def o_def top_def)
  have top: "set (top g) \<subseteq> set g" "length (top g) \<le> nat limit" for g
    using set_take_subset [of "nat limit" "sort_key (\<lambda>t. (- trace_revision t, trace_id t)) g"] by (simp_all add: top_def)
  have pure: "\<forall>t \<in> set xs. tr_AttemptID t = k \<Longrightarrow> filter (\<lambda>t. tr_AttemptID t = a) xs = (if k = a then xs else [])" for k xs
    by (induction xs) auto
  have own: "filter (\<lambda>t. tr_AttemptID t = a) (top (?group k)) = (if k = a then top (?group k) else [])" for k
    by (rule pure) (use top(1) [of "?group k"] in auto)
  have "distinct ks \<Longrightarrow> length (filter (\<lambda>t. tr_AttemptID t = a) (concat (map (\<lambda>k. top (?group k)) ks))) \<le> (if a \<in> set ks then nat limit else 0)" for ks
  proof (induction ks)
    case (Cons k ks)
    have "filter (\<lambda>t. tr_AttemptID t = a) (concat (map (\<lambda>k. top (?group k)) (k # ks))) =
        (if k = a then top (?group k) else []) @ filter (\<lambda>t. tr_AttemptID t = a) (concat (map (\<lambda>k. top (?group k)) ks))"
      by (simp only: list.map concat.simps filter_append own)
    then show ?case using Cons top(2) [of "?group k"] by (cases "k = a") (auto simp del: filter_filter)
  qed simp
  from this [of "sort (remdups (map tr_AttemptID ts))"]
  show "length (filter (\<lambda>t. tr_AttemptID t = a) (limitPerAttempt limit ts)) \<le> nat limit" by (simp add: out split: if_splits)
  show "set (limitPerAttempt limit ts) \<subseteq> set ts" using top(1) by (fastforce simp: out)
qed

end
