(* ===== verification/ContextCompiler.thy ===== *)
theory ContextCompiler
  imports RetrievalProps
begin

text \<open>
  \<open>kernel/context\<close>: bundles of context within a budget of tokens, from given inputs (\<open>compiler.go\<close>) and from a retrieval
  (\<open>select.go\<close>). SHA-256 in hex is a parameter. The sort leaves open the order of inputs that share their kind and id;
  here they keep their order.
\<close>

section \<open>Bundles\<close>

record CtxInput =
  ix_Kind :: string
  ix_ID :: string
  ix_Text :: string
  ix_Provenance :: "RetrievalProvenance option"

record CtxSection =
  sx_Kind :: string
  sx_ID :: string
  sx_Text :: string
  sx_Tokens :: int
  sx_Provenance :: "RetrievalProvenance option"

record CtxBundle =
  bx_ProjectID :: string
  bx_WorkPackageID :: string
  bx_Sections :: "CtxSection list"
  bx_TokenBudget :: int
  bx_TokensUsed :: int
  bx_Truncated :: bool
  bx_Digest :: string

definition EstimateTokens :: "string \<Rightarrow> int" where
  "EstimateTokens text = (let n = int (length (runes_of text)) in if n = 0 then 0 else (n + 3) div 4)"

definition DefaultMaxTokens :: int where "DefaultMaxTokens = 8000"

text \<open>\<open>strings.TrimSpace\<close> of a valid text, given by its runes.\<close>

definition trim_runes :: "string list \<Rightarrow> string list" where
  "trim_runes es = rev (dropWhile (\<lambda>e. e \<in> set space_encodings) (rev (dropWhile (\<lambda>e. e \<in> set space_encodings) es)))"

definition ellipsis :: string where "ellipsis = [CHR 0xE2, CHR 0x80, CHR 0xA6]"

definition truncateToTokens :: "string \<Rightarrow> int \<Rightarrow> string" where
  "truncateToTokens text maxTokens =
     (let rs = runes_of text; maxRunes = maxTokens * 4 in
      if int (length rs) \<le> maxRunes then text
      else if maxRunes \<le> 1 then []
      else concat (trim_runes (take (nat (maxRunes - 1)) rs)) @ ellipsis)"

definition section_of :: "CtxInput \<Rightarrow> string \<Rightarrow> CtxSection" where
  "section_of i text = \<lparr>sx_Kind = ix_Kind i, sx_ID = ix_ID i, sx_Text = text, sx_Tokens = EstimateTokens text, sx_Provenance = ix_Provenance i\<rparr>"

text \<open>The loop over the sorted inputs: the sections, the tokens used and whether it was cut off.\<close>

fun compile_loop :: "int \<Rightarrow> CtxInput list \<Rightarrow> CtxSection list \<Rightarrow> int \<Rightarrow> CtxSection list \<times> int \<times> bool" where
  "compile_loop budget [] out used = (out, used, False)"
| "compile_loop budget (i # is) out used =
     (if ix_Text i = [] then compile_loop budget is out used
      else if used + EstimateTokens (ix_Text i) \<le> budget
        then compile_loop budget is (out @ [section_of i (ix_Text i)]) (used + EstimateTokens (ix_Text i))
      else if budget - used \<le> 0 then (out, used, True)
      else let cutoff = truncateToTokens (ix_Text i) (budget - used) in
        if cutoff = [] then (out, used, True) else (out @ [section_of i cutoff], used + EstimateTokens cutoff, True))"

definition digest_section :: "CtxSection \<Rightarrow> string" where
  "digest_section s =
     strings_Join [CHR 0x00] [sx_Kind s, sx_ID s, itoa_int (sx_Tokens s), sx_Text s] @ [CHR 0x0A]
     @ (case sx_Provenance s of None \<Rightarrow> []
        | Some p \<Rightarrow> strings_Join [CHR 0x00] [''p'', qp_Source p, qp_Kind p, qp_ID p, itoa_int (qp_Revision p), qp_Hash p] @ [CHR 0x0A])"

definition ctx_digest :: "(string \<Rightarrow> string) \<Rightarrow> CtxBundle \<Rightarrow> string" where
  "ctx_digest sha b =
     sha (strings_Join [CHR 0x00] [bx_ProjectID b, bx_WorkPackageID b, itoa_int (bx_TokenBudget b)] @ [CHR 0x0A]
       @ concat (map digest_section (bx_Sections b)))"

definition ctx_sorted :: "CtxInput list \<Rightarrow> CtxInput list" where "ctx_sorted is = sort_key (\<lambda>i. (ix_Kind i, ix_ID i)) is"

definition ctx_Compile :: "(string \<Rightarrow> string) \<Rightarrow> int \<Rightarrow> string \<Rightarrow> string \<Rightarrow> CtxInput list \<Rightarrow> CtxBundle" where
  "ctx_Compile sha maxTokens pid wp is =
     (let budget = (if maxTokens \<le> 0 then DefaultMaxTokens else maxTokens) in
      case compile_loop budget (ctx_sorted is) [] 0 of (sections, used, cutoff) \<Rightarrow>
        let b = \<lparr>bx_ProjectID = pid, bx_WorkPackageID = wp, bx_Sections = sections, bx_TokenBudget = budget, bx_TokensUsed = used,
                 bx_Truncated = cutoff, bx_Digest = []\<rparr>
        in b\<lparr>bx_Digest := ctx_digest sha b\<rparr>)"

section \<open>Needs\<close>

record Needs =
  nd_Kinds :: "string list"
  nd_Terms :: "string list"
  nd_Limit :: int

definition DefaultKinds :: "string list" where "DefaultKinds = [''strategy'', ''issue'', ''memory_record'', ''trace'']"

text \<open>\<open>strings.FieldsFunc\<close>: the longest runs of word runes.\<close>

fun word_fields :: "(string \<Rightarrow> bool) \<Rightarrow> string list \<Rightarrow> string list \<Rightarrow> string list" where
  "word_fields word [] cur = (if cur = [] then [] else [concat cur])"
| "word_fields word (e # es) cur =
     (if word e then word_fields word es (cur @ [e])
      else (if cur = [] then [] else [concat cur]) @ word_fields word es [])"

definition DeriveNeeds :: "RetrievalEnv \<Rightarrow> string \<Rightarrow> string \<Rightarrow> Needs" where
  "DeriveNeeds E objective wp =
     \<lparr>nd_Kinds = DefaultKinds,
      nd_Terms = sort (remdups (filter (\<lambda>t. 3 \<le> length (runes_of t))
        (map (\<lambda>w. rv_lower E (trim_space w)) (wp # word_fields (rv_word E) (runes_of objective) [])))),
      nd_Limit = DefaultLimit\<rparr>"

datatype 'e context_error = RetrieverRequired | RetrieverError 'e | BudgetExceeded

definition input_of :: "RetrievalResult \<Rightarrow> CtxInput" where
  "input_of r = (let c = qr_Candidate r in
     \<lparr>ix_Kind = qc_Kind c, ix_ID = qc_ID c, ix_Text = qc_Text c, ix_Provenance = Some (qc_Provenance c)\<rparr>)"

text \<open>The bundle is returned together with the error; it is the zero bundle when there is none to return.\<close>

definition zero_bundle :: CtxBundle where
  "zero_bundle = \<lparr>bx_ProjectID = [], bx_WorkPackageID = [], bx_Sections = [], bx_TokenBudget = 0, bx_TokensUsed = 0, bx_Truncated = False,
     bx_Digest = []\<rparr>"

definition needs_request :: "Needs \<Rightarrow> RetrievalRequest" where
  "needs_request needs = \<lparr>qq_Kinds = nd_Kinds needs, qq_Terms = nd_Terms needs, qq_Filter = None,
     qq_Limit = (if nd_Limit needs = 0 then DefaultLimit else nd_Limit needs)\<rparr>"

definition CompileFromRetrieval ::
  "(string \<Rightarrow> string) \<Rightarrow> int \<Rightarrow> (RetrievalRequest \<Rightarrow> 'e + RetrievalResult list) option \<Rightarrow> string \<Rightarrow> string \<Rightarrow> Needs \<Rightarrow>
     CtxBundle \<times> 'e context_error option" where
  "CompileFromRetrieval sha maxTokens r pid wp needs =
     (case r of None \<Rightarrow> (zero_bundle, Some RetrieverRequired)
      | Some retrieve \<Rightarrow>
          (case retrieve (needs_request needs) of
             Inl e \<Rightarrow> (zero_bundle, Some (RetrieverError e))
           | Inr results \<Rightarrow>
               let b = ctx_Compile sha maxTokens pid wp (map input_of results) in
               (b, if bx_Truncated b then Some BudgetExceeded else None)))"

section \<open>Budgets\<close>

lemma quarter: "0 \<le> n \<Longrightarrow> n \<le> m * 4 \<Longrightarrow> (n + 3) div 4 \<le> (m::int)"
  by presburger

lemma EstimateTokens_le: "int (length (runes_of text)) \<le> m * 4 \<Longrightarrow> 0 \<le> m \<Longrightarrow> EstimateTokens text \<le> m"
  using quarter [of "int (length (runes_of text))" m] by (simp add: EstimateTokens_def Let_def)

lemma trim_runes_subset: "set (trim_runes es) \<subseteq> set es" "length (trim_runes es) \<le> length es"
proof -
  show "set (trim_runes es) \<subseteq> set es" by (auto simp: trim_runes_def dest!: set_dropWhileD)
  have "length (dropWhile P xs) \<le> length xs" for P and xs :: "string list" by (rule length_dropWhile_le)
  then show "length (trim_runes es) \<le> length es" unfolding trim_runes_def by (metis le_trans length_rev)
qed

lemma truncate_fits: "1 \<le> n \<Longrightarrow> EstimateTokens (truncateToTokens text n) \<le> n"
proof -
  assume n: "1 \<le> n"
  let ?rs = "runes_of text" and ?k = "nat (n * 4 - 1)"
  show ?thesis
  proof (cases "int (length ?rs) \<le> n * 4")
    case True
    then have "truncateToTokens text n = text" by (simp add: truncateToTokens_def Let_def)
    then show ?thesis using EstimateTokens_le [OF True] n by simp
  next
    case False
    let ?es = "trim_runes (take ?k ?rs) @ [ellipsis]"
    have "one_rune ellipsis" by code_simp
    moreover have "\<forall>e \<in> set (trim_runes (take ?k ?rs)). one_rune e"
      using trim_runes_subset(1) [of "take ?k ?rs"] runes_one [of _ "text"] by (meson in_set_takeD subsetD)
    ultimately have "\<forall>e \<in> set ?es. one_rune e" by auto
    then have "runes_of (concat ?es) = ?es" by (rule runes_of_concat)
    moreover have "truncateToTokens text n = concat ?es" using False n by (simp add: truncateToTokens_def Let_def)
    moreover have "length (trim_runes (take ?k ?rs)) \<le> ?k" using trim_runes_subset(2) [of "take ?k ?rs"] by simp
    then have "int (length ?es) \<le> n * 4" using n by (simp add: nat_le_iff zle_int [symmetric] del: zle_int)
    ultimately show ?thesis using n by (intro EstimateTokens_le) simp_all
  qed
qed

lemma truncate_nonempty: "1 \<le> n \<Longrightarrow> text \<noteq> [] \<Longrightarrow> truncateToTokens text n \<noteq> []"
  by (simp add: truncateToTokens_def Let_def ellipsis_def)

definition with_text :: "CtxInput list \<Rightarrow> CtxInput list" where "with_text is = filter (\<lambda>i. ix_Text i \<noteq> []) is"

definition whole :: "CtxInput \<Rightarrow> CtxSection" where "whole i = section_of i (ix_Text i)"

abbreviation tokens_of :: "CtxSection list \<Rightarrow> int" where "tokens_of ss \<equiv> (\<Sum>s \<leftarrow> ss. sx_Tokens s)"

text \<open>
  The loop takes inputs whole while they fit. It stops at the first that does not, of which it takes as much as fits, and
  says so.
\<close>

lemma compile_loop_result:
  assumes "compile_loop budget is out used = (sections, u, cutoff)" and "used = tokens_of out" and "used \<le> budget"
  shows "u = tokens_of sections \<and> u \<le> budget \<and> (\<exists>n tail. sections = out @ map whole (take n (with_text is)) @ tail \<and>
     (if cutoff then n < length (with_text is) \<and> budget < tokens_of (out @ map whole (take (Suc n) (with_text is))) \<and>
         (tail = [] \<or> (\<exists>left. 1 \<le> left \<and> tail = [section_of (with_text is ! n) (truncateToTokens (ix_Text (with_text is ! n)) left)]))
      else n = length (with_text is) \<and> tail = []))"
  using assms
proof (induction budget "is" out used rule: compile_loop.induct)
  case (2 budget i "is" out used)
  let ?t = "ix_Text i"
  show ?case
  proof (cases "?t = []")
    case True
    then have w: "with_text (i # is) = with_text is" by (simp add: with_text_def)
    have "compile_loop budget is out used = (sections, u, cutoff)" using "2.prems"(1) True by simp
    from "2.IH"(1) [OF True this "2.prems"(2,3)] show ?thesis unfolding w .
  next
    case False
    then have w: "with_text (i # is) = i # with_text is" by (simp add: with_text_def)
    show ?thesis
    proof (cases "used + EstimateTokens ?t \<le> budget")
      case True
      have run: "compile_loop budget is (out @ [whole i]) (used + EstimateTokens ?t) = (sections, u, cutoff)"
        using "2.prems"(1) False True by (simp add: whole_def)
      have tok: "used + EstimateTokens ?t = tokens_of (out @ [whole i])" using "2.prems"(2) by (simp add: whole_def section_of_def)
      from "2.IH"(2) [OF False True run [unfolded whole_def] tok [unfolded whole_def] True]
      obtain n tail where IH: "u = tokens_of sections" "u \<le> budget" "sections = (out @ [whole i]) @ map whole (take n (with_text is)) @ tail"
        "if cutoff then n < length (with_text is) \<and> budget < tokens_of ((out @ [whole i]) @ map whole (take (Suc n) (with_text is))) \<and>
           (tail = [] \<or> (\<exists>left. 1 \<le> left \<and> tail = [section_of (with_text is ! n) (truncateToTokens (ix_Text (with_text is ! n)) left)]))
         else n = length (with_text is) \<and> tail = []"
        unfolding whole_def by blast
      show ?thesis unfolding w using IH by (intro conjI exI [of _ "Suc n"] exI [of _ tail]) (auto split: if_splits)
    next
      case full: False
      have over: "budget < tokens_of (out @ map whole (take (Suc 0) (with_text (i # is))))"
        using full "2.prems"(2) by (simp add: w whole_def section_of_def)
      show ?thesis
      proof (cases "budget - used \<le> 0")
        case True
        then show ?thesis using "2.prems" False full over by (auto simp: w intro!: exI [of _ 0] exI [of _ "[]"])
      next
        case room: False
        let ?cutoff = "truncateToTokens ?t (budget - used)"
        have fits: "?cutoff \<noteq> []" "EstimateTokens ?cutoff \<le> budget - used"
          using truncate_nonempty [of "budget - used" ?t] truncate_fits [of "budget - used" ?t] room False by simp_all
        then have r: "sections = out @ [section_of i ?cutoff]" "u = used + EstimateTokens ?cutoff" "cutoff"
          using "2.prems"(1) False full room by (auto simp: Let_def)
        have "1 \<le> budget - used" using room by simp
        then show ?thesis using r fits over "2.prems"(2)
          by (intro conjI exI [of _ 0] exI [of _ "[section_of i ?cutoff]"]) (auto simp: w section_of_def)
      qed
    qed
  qed
qed (auto simp: with_text_def)

text \<open>
  A bundle never uses more tokens than its budget, and its count is that of its sections. It holds the inputs with a
  text in the order of kind and id, whole; only when it says it was truncated, it stops at the first that does not fit, and
  may end with a shortened copy of that one.
\<close>

lemma bundle_within_budget:
  "let b = ctx_Compile sha maxTokens pid wp is; items = with_text (ctx_sorted is) in
   bx_TokensUsed b \<le> bx_TokenBudget b \<and> bx_TokensUsed b = tokens_of (bx_Sections b) \<and>
   (\<exists>n tail. bx_Sections b = map whole (take n items) @ tail \<and>
     (if bx_Truncated b then n < length items \<and> bx_TokenBudget b < tokens_of (map whole (take (Suc n) items)) \<and>
         (tail = [] \<or> (\<exists>left. 1 \<le> left \<and> tail = [section_of (items ! n) (truncateToTokens (ix_Text (items ! n)) left)]))
      else n = length items \<and> tail = []))"
proof -
  let ?budget = "if maxTokens \<le> 0 then DefaultMaxTokens else maxTokens"
  obtain ss u cutoff where run: "compile_loop ?budget (ctx_sorted is) [] 0 = (ss, u, cutoff)" by (metis surj_pair)
  have start: "0 = tokens_of []" "0 \<le> ?budget" by (simp_all add: DefaultMaxTokens_def)
  note r = compile_loop_result [OF run start, unfolded append_Nil]
  have b: "bx_TokensUsed (ctx_Compile sha maxTokens pid wp is) = u" "bx_TokenBudget (ctx_Compile sha maxTokens pid wp is) = ?budget"
    "bx_Sections (ctx_Compile sha maxTokens pid wp is) = ss" "bx_Truncated (ctx_Compile sha maxTokens pid wp is) = cutoff"
    using run by (simp_all add: ctx_Compile_def Let_def)
  show ?thesis unfolding Let_def b using r by blast
qed

text \<open>The kind, id and text of sections and of candidates.\<close>

abbreviation section_items :: "CtxSection list \<Rightarrow> (string \<times> string \<times> string) multiset" where
  "section_items ss \<equiv> mset (map (\<lambda>s. (sx_Kind s, sx_ID s, sx_Text s)) ss)"

abbreviation candidate_items :: "RetrievalCandidate list \<Rightarrow> (string \<times> string \<times> string) multiset" where
  "candidate_items cs \<equiv> mset (map (\<lambda>c. (qc_Kind c, qc_ID c, qc_Text c)) (filter (\<lambda>c. qc_Text c \<noteq> []) cs))"

text \<open>Compiling from a retrieval fails closed: without an error every candidate with a text is there, whole.\<close>

lemma retrieved_context_complete:
  assumes "CompileFromRetrieval sha maxTokens (Some retrieve) pid wp needs = (b, None)"
  shows "\<exists>results. retrieve (needs_request needs) = Ok results \<and> section_items (bx_Sections b) = candidate_items (map qr_Candidate results)"
proof -
  obtain results where r: "retrieve (needs_request needs) = Ok results"
    and b: "b = ctx_Compile sha maxTokens pid wp (map input_of results)" "\<not> bx_Truncated b"
    using assms by (auto simp: CompileFromRetrieval_def Let_def split: sum.splits if_splits)
  let ?items = "with_text (ctx_sorted (map input_of results))"
  from bundle_within_budget [of sha maxTokens pid wp "map input_of results"] b
  have secs: "bx_Sections b = map whole ?items" by (auto simp: Let_def)
  have "mset ?items = mset (filter (\<lambda>i. ix_Text i \<noteq> []) (map input_of results))"
    by (simp add: with_text_def ctx_sorted_def)
  then have m1: "mset (map (\<lambda>i. (ix_Kind i, ix_ID i, ix_Text i)) ?items) =
      mset (map (\<lambda>i. (ix_Kind i, ix_ID i, ix_Text i)) (filter (\<lambda>i. ix_Text i \<noteq> []) (map input_of results)))"
    by (simp only: mset_map)
  have m2: "map (\<lambda>s. (sx_Kind s, sx_ID s, sx_Text s)) (map whole ?items) = map (\<lambda>i. (ix_Kind i, ix_ID i, ix_Text i)) ?items"
    by (simp add: whole_def section_of_def)
  have m3: "map (\<lambda>i. (ix_Kind i, ix_ID i, ix_Text i)) (filter (\<lambda>i. ix_Text i \<noteq> []) (map input_of rs)) =
      map (\<lambda>c. (qc_Kind c, qc_ID c, qc_Text c)) (filter (\<lambda>c. qc_Text c \<noteq> []) (map qr_Candidate rs))" for rs
    by (induction rs) (simp_all add: input_of_def Let_def)
  have "section_items (bx_Sections b) = candidate_items (map qr_Candidate results)" unfolding secs m2 m1 m3 ..
  with r show ?thesis by blast
qed

text \<open>
  C27. A context compiled from memory never exceeds its budget. When it is returned without an error, it holds whole the
  texts of the best candidates that the needs ask for: those left out are beyond the limit, and none of them has more of the
  terms, or as many and an earlier kind and id, than one that is there.
\<close>

theorem context_from_memory:
  assumes "CompileFromRetrieval sha maxTokens (Some (Retrieve E False q)) pid wp needs = (b, err)"
  shows "bx_TokensUsed b \<le> bx_TokenBudget b \<and> bx_TokensUsed b = tokens_of (bx_Sections b) \<and>
    (err = None \<longrightarrow> (\<exists>limit best rest. resolveLimit (qq_Limit (needs_request needs)) = Ok limit \<and>
       mset (best @ rest) = mset (wanted E q (needs_request needs)) \<and> int (length best) \<le> limit \<and>
       (rest \<noteq> [] \<longrightarrow> int (length best) = limit) \<and>
       (\<forall>c \<in> set best. \<forall>d \<in> set rest. candidate_rank E (needs_request needs) c \<le> candidate_rank E (needs_request needs) d) \<and>
       section_items (bx_Sections b) = candidate_items best))"
proof (intro conjI impI)
  have "b = zero_bundle \<or> (\<exists>is. b = ctx_Compile sha maxTokens pid wp is)"
    using assms by (auto simp: CompileFromRetrieval_def Let_def split: sum.splits)
  then show "bx_TokensUsed b \<le> bx_TokenBudget b" "bx_TokensUsed b = tokens_of (bx_Sections b)"
    using bundle_within_budget [of sha maxTokens pid wp] by (auto simp: zero_bundle_def Let_def)
  assume "err = None"
  with assms obtain rs where rs: "Retrieve E False q (needs_request needs) = Ok rs"
    "section_items (bx_Sections b) = candidate_items (map qr_Candidate rs)" using retrieved_context_complete by blast
  obtain limit rest where "resolveLimit (qq_Limit (needs_request needs)) = Ok limit" "int (length rs) \<le> limit"
    "rest \<noteq> [] \<longrightarrow> int (length rs) = limit" "mset (map qr_Candidate rs @ rest) = mset (wanted E q (needs_request needs))"
    "\<forall>c \<in> set (map qr_Candidate rs). \<forall>d \<in> set rest.
       candidate_rank E (needs_request needs) c \<le> candidate_rank E (needs_request needs) d"
    using retrieve_best [OF rs(1)] by blast
  then show "\<exists>limit best rest. resolveLimit (qq_Limit (needs_request needs)) = Ok limit \<and>
       mset (best @ rest) = mset (wanted E q (needs_request needs)) \<and> int (length best) \<le> limit \<and>
       (rest \<noteq> [] \<longrightarrow> int (length best) = limit) \<and>
       (\<forall>c \<in> set best. \<forall>d \<in> set rest. candidate_rank E (needs_request needs) c \<le> candidate_rank E (needs_request needs) d) \<and>
       section_items (bx_Sections b) = candidate_items best"
    using rs(2) by (intro exI [of _ limit] exI [of _ "map qr_Candidate rs"] exI [of _ rest]) simp
qed

text \<open>A memory of two strategies, whose data is their text.\<close>

definition ex_retrieval_env :: RetrievalEnv where
  "ex_retrieval_env = \<lparr>rv_lower = (\<lambda>s. s), rv_word = (\<lambda>e. e \<noteq> '' ''), rv_fields = (\<lambda>d. Some (\<lambda>k. if k = ''text'' then Some d else None)),
     rv_event = (\<lambda>_. None), rv_trace = (\<lambda>_. None)\<rparr>"

definition ex_memory :: Query where
  "ex_memory = \<lparr>qy_proj = fst (put_entries
       [\<lparr>sr_Kind = ''strategy'', sr_ID = ''a'', sr_Revision = 1, sr_Data = ''write docs'', sr_Hash = ''h''\<rparr>,
        \<lparr>sr_Kind = ''strategy'', sr_ID = ''b'', sr_Revision = 1, sr_Data = ''write tests'', sr_Hash = ''h''\<rparr>] fmempty),
     qy_store = store_empty\<rparr>"

definition ex_needs :: Needs where
  "ex_needs = \<lparr>nd_Kinds = [''strategy''], nd_Terms = [''tests''], nd_Limit = 1\<rparr>"

theorem context_from_memory_witness:
  "\<exists>b. CompileFromRetrieval (\<lambda>_. []) 100 (Some (Retrieve ex_retrieval_env False ex_memory)) ''p'' ''w'' ex_needs = (b, None) \<and>
     map sx_Text (bx_Sections b) = [''write tests''] \<and> bx_TokensUsed b \<le> bx_TokenBudget b"
proof -
  have "case CompileFromRetrieval (\<lambda>_. []) 100 (Some (Retrieve ex_retrieval_env False ex_memory)) ''p'' ''w'' ex_needs of
      (b, err) \<Rightarrow> map sx_Text (bx_Sections b) = [''write tests''] \<and> err = None"
    by code_simp
  then obtain b where b: "CompileFromRetrieval (\<lambda>_. []) 100 (Some (Retrieve ex_retrieval_env False ex_memory)) ''p'' ''w'' ex_needs = (b, None)"
    "map sx_Text (bx_Sections b) = [''write tests'']"
    by (auto split: prod.splits)
  have "bx_TokensUsed b \<le> bx_TokenBudget b" using context_from_memory [OF b(1)] by (rule conjunct1)
  with b show ?thesis by (intro exI [of _ b] conjI)
qed

end
