(* ===== verification/Forge.thy ===== *)
theory Forge
  imports Texts
begin

text \<open>
  \<open>forge\<close>: the types of the version-control provider, their validation, idempotency keys and the audit log, and
  \<open>forge/fake\<close>: the in-memory reference implementation. Every method of the fake holds its mutex, so a method is
  a function of the \<open>Fake\<close> value. \<open>fk_ctx\<close> holds the answers \<open>ctx.Err()\<close> will give, one per call (none when it
  is empty); \<open>fk_clock\<close> is the clock as a function of the calls made to it.
\<close>

section \<open>Types\<close>

record Ref =
  rfr_Kind :: string
  rfr_ID :: string
  rfr_URL :: string

record Repository =
  rp_ID :: string
  rp_Owner :: string
  rp_Name :: string
  rp_DefaultBranch :: string
  rp_Private :: bool
  rp_Ref :: Ref

record Branch =
  br_Name :: string
  br_CommitSHA :: string

record Milestone =
  ms_ID :: string
  ms_Title :: string
  ms_State :: string
  ms_Ref :: Ref

record ForgeIssue =
  fi_ID :: string
  fi_Number :: int
  fi_Title :: string
  fi_Body :: string
  fi_Type :: string
  fi_State :: string
  fi_Labels :: "string list option"
  fi_Milestone :: string
  fi_Ref :: Ref

record PullRequest =
  pq_ID :: string
  pq_Number :: int
  pq_Title :: string
  pq_Body :: string
  pq_Base :: string
  pq_Head :: string
  pq_State :: string
  pq_Draft :: bool
  pq_Ref :: Ref

record Checkpoint =
  cp_ID :: string
  cp_Phase :: string
  cp_Commit :: string
  cp_Issues :: "Ref list"
  cp_PRs :: "Ref list"
  cp_CreatedAt :: time

record Release =
  rl_ID :: string
  rl_Tag :: string
  rl_Notes :: string
  rl_Commit :: string
  rl_CreatedAt :: time

record AuditFinding =
  af_ID :: string
  af_Title :: string
  af_Classification :: string
  af_Severity :: string
  af_Evidence :: string
  af_Impact :: string
  af_Recommendation :: string
  af_Scope :: string
  af_SuggestedPhase :: string

record Audit =
  au_ID :: string
  au_Phase :: string
  au_Findings :: "AuditFinding list"
  au_Result :: string
  au_CreatedAt :: time

record MergeApproval =
  ma_Actor :: string
  ma_Reason :: string
  ma_GrantedAt :: time

definition AuditReady :: string where "AuditReady = ''ready''"
definition AuditReadyWithConditions :: string where "AuditReadyWithConditions = ''ready_with_conditions''"
definition AuditNotReady :: string where "AuditNotReady = ''not_ready''"

datatype forge_error =
    FgNotFound string
  | FgConflict string
  | FgRateLimited
  | FgHumanGate string
  | FgInvalid string
  | FgContext string
  | FgOther string
  | FgPanic  \<comment> \<open>a failed type assertion\<close>

section \<open>Validation\<close>

definition is_lower :: "char \<Rightarrow> bool" where
  "is_lower c \<longleftrightarrow> 97 \<le> (of_char c :: nat) \<and> (of_char c :: nat) \<le> 122"

definition is_upper :: "char \<Rightarrow> bool" where
  "is_upper c \<longleftrightarrow> 65 \<le> (of_char c :: nat) \<and> (of_char c :: nat) \<le> 90"

definition is_letter_or_digit :: "char \<Rightarrow> bool" where
  "is_letter_or_digit c \<longleftrightarrow> is_lower c \<or> is_upper c \<or> is_digit c"

text \<open>
  The three regular expressions as automata. The flag of \<open>scope_tail\<close> and \<open>tag_tail\<close> says that the last character
  read was a separator, which must not end the string.
\<close>

fun scope_tail :: "bool \<Rightarrow> string \<Rightarrow> bool" where
  "scope_tail sep [] = (\<not> sep)"
| "scope_tail sep (c # cs) =
     (if is_lower c \<or> is_digit c then scope_tail False cs
      else if c = CHR ''-'' then \<not> sep \<and> scope_tail True cs
      else False)"

definition scopeRE :: "string \<Rightarrow> bool" where
  "scopeRE s = (case s of [] \<Rightarrow> False | c # cs \<Rightarrow> is_lower c \<and> scope_tail False cs)"

definition branchRE :: "string \<Rightarrow> bool" where
  "branchRE s = (case s of [] \<Rightarrow> False
     | c # cs \<Rightarrow> is_letter_or_digit c \<and> list_all (\<lambda>x. is_letter_or_digit x \<or> x \<in> set ''._/-'') cs)"

fun tag_tail :: "bool \<Rightarrow> string \<Rightarrow> bool" where
  "tag_tail sep [] = (\<not> sep)"
| "tag_tail sep (c # cs) =
     (if is_letter_or_digit c \<or> c = CHR ''.'' then tag_tail False cs
      else if c = CHR ''-'' \<or> c = CHR ''+'' then \<not> sep \<and> tag_tail True cs
      else False)"

definition tag_number :: "string \<Rightarrow> string option" where
  "tag_number s = (case takeWhile is_digit s of [] \<Rightarrow> None | _ \<Rightarrow> Some (dropWhile is_digit s))"

definition tag_dot :: "string \<Rightarrow> string option" where
  "tag_dot s = (case s of c # cs \<Rightarrow> if c = CHR ''.'' then Some cs else None | [] \<Rightarrow> None)"

definition tagRE :: "string \<Rightarrow> bool" where
  "tagRE s = (case s of [] \<Rightarrow> False | c # cs \<Rightarrow> c = CHR ''v'' \<and>
     (case Option.bind (Option.bind (Option.bind (Option.bind (tag_number cs) tag_dot) tag_number) tag_dot) tag_number of
        None \<Rightarrow> False
      | Some rest \<Rightarrow> (case rest of [] \<Rightarrow> True | x # xs \<Rightarrow> (x = CHR ''-'' \<or> x = CHR ''+'') \<and> tag_tail True xs)))"

definition ValidateScope :: "string \<Rightarrow> forge_error option" where
  "ValidateScope scope =
     (if scope = [] then Some (FgInvalid ''scope is required'')
      else if \<not> scopeRE scope then Some (FgInvalid ''scope'') else None)"

definition PhaseBranch :: "int \<Rightarrow> string \<Rightarrow> string" where
  "PhaseBranch phase scope = ''ph'' @ itoa_int phase @ ''-'' @ scope"

definition ValidatePhaseBranch :: "string \<Rightarrow> int \<Rightarrow> string \<Rightarrow> forge_error option" where
  "ValidatePhaseBranch name phase scope =
     (case ValidateScope scope of Some e \<Rightarrow> Some e
      | None \<Rightarrow> if name \<noteq> PhaseBranch phase scope then Some (FgInvalid ''phase branch'') else None)"

fun contains_dots :: "string \<Rightarrow> bool" where
  "contains_dots (a # b # cs) = ((a = CHR ''.'' \<and> b = CHR ''.'') \<or> contains_dots (b # cs))"
| "contains_dots _ = False"

definition ValidateBranchName :: "string \<Rightarrow> forge_error option" where
  "ValidateBranchName name =
     (if name = [] then Some (FgInvalid ''branch name is required'')
      else if list_ex (\<lambda>c. c = CHR '' '' \<or> c = CHR 0x09 \<or> c = CHR 0x0A) name \<or> \<not> branchRE name \<or> contains_dots name
        then Some (FgInvalid ''branch name'') else None)"

definition ValidateTag :: "string \<Rightarrow> forge_error option" where
  "ValidateTag tag = (if \<not> tagRE tag then Some (FgInvalid ''tag'') else None)"

definition ValidateSeverity :: "string \<Rightarrow> forge_error option" where
  "ValidateSeverity s = (if s \<notin> set [''P0'', ''P1'', ''P2'', ''P3'', ''none''] then Some (FgInvalid ''severity'') else None)"

definition ValidateClassification :: "string \<Rightarrow> forge_error option" where
  "ValidateClassification c =
     (if c \<notin> set [''bug'', ''tech_debt'', ''refactor'', ''security'', ''test'', ''documentation'']
      then Some (FgInvalid ''classification'') else None)"

definition SeverityRank :: "string \<Rightarrow> int" where
  "SeverityRank s = (if s = ''P0'' then 0 else if s = ''P1'' then 1 else if s = ''P2'' then 2 else if s = ''P3'' then 3 else 4)"

definition SortFindings :: "AuditFinding list \<Rightarrow> AuditFinding list" where
  "SortFindings fs = sort_key (\<lambda>f. (SeverityRank (af_Severity f), af_ID f)) fs"

definition Repository_Validate :: "Repository \<Rightarrow> forge_error option" where
  "Repository_Validate r =
     (if rp_Owner r = [] \<or> rp_Name r = [] then Some (FgInvalid ''repository owner and name are required'') else None)"

definition ForgeIssue_Validate :: "ForgeIssue \<Rightarrow> forge_error option" where
  "ForgeIssue_Validate i = (if fi_Title i = [] then Some (FgInvalid ''issue title is required'') else None)"

definition PullRequest_Validate :: "PullRequest \<Rightarrow> forge_error option" where
  "PullRequest_Validate p =
     (if pq_Title p = [] then Some (FgInvalid ''pull request title is required'')
      else if pq_Base p = [] \<or> pq_Head p = [] then Some (FgInvalid ''pull request base and head are required'')
      else if pq_Base p = pq_Head p then Some (FgInvalid ''pull request head must differ from base'')
      else None)"

definition Checkpoint_Validate :: "Checkpoint \<Rightarrow> forge_error option" where
  "Checkpoint_Validate c =
     (if cp_Phase c = [] then Some (FgInvalid ''checkpoint phase is required'')
      else if cp_Commit c = [] then Some (FgInvalid ''checkpoint commit is required'') else None)"

definition Release_Validate :: "Release \<Rightarrow> forge_error option" where
  "Release_Validate r = ValidateTag (rl_Tag r)"

definition finding_check :: "AuditFinding \<Rightarrow> forge_error option" where
  "finding_check f =
     (if af_Title f = [] then Some (FgInvalid ''finding title is required'')
      else (case ValidateClassification (af_Classification f) of Some e \<Rightarrow> Some e
        | None \<Rightarrow> ValidateSeverity (af_Severity f)))"

definition Audit_Validate :: "Audit \<Rightarrow> forge_error option" where
  "Audit_Validate a =
     (if au_Phase a = [] then Some (FgInvalid ''audit phase is required'') else first_err finding_check (au_Findings a))"

definition MergeApproval_Validate :: "MergeApproval \<Rightarrow> forge_error option" where
  "MergeApproval_Validate m = (if ma_Actor m = [] then Some (FgInvalid ''merge approval actor is required'') else None)"

section \<open>Keys\<close>

definition Key :: "string \<Rightarrow> string list \<Rightarrow> string" where
  "Key operation parts = strings_Join '':'' (map trim_space (operation # parts))"

section \<open>The audit log\<close>

record Operation =
  op_Seq :: int
  op_Operation :: string
  op_Key :: string
  op_RepoID :: string
  op_Target :: Ref
  op_Fields :: "(string \<times> string) list"
  op_At :: time

type_synonym AuditLog = "Operation list"

definition NewAuditLog :: AuditLog where "NewAuditLog = []"

definition Log_Record :: "Operation \<Rightarrow> AuditLog \<Rightarrow> AuditLog" where
  "Log_Record p l = l @ [p\<lparr>op_Seq := int (length l) + 1\<rparr>]"

definition Log_Entries :: "AuditLog \<Rightarrow> Operation list" where "Log_Entries l = l"
definition Log_Len :: "AuditLog \<Rightarrow> nat" where "Log_Len l = length l"

text \<open>The deterministic clock: the Unix epoch and one second more per call.\<close>

definition unix_epoch :: time where "unix_epoch = 62135596800 * 10 ^ 9"

definition FixedClock_Now :: "nat \<Rightarrow> time" where "FixedClock_Now calls = unix_epoch + int calls * 10 ^ 9"

end
