(* ===== verification/ForgeFake.thy ===== *)
theory ForgeFake
  imports Forge
begin

text \<open>\<open>forge/fake\<close>: the in-memory forge.\<close>

section \<open>State\<close>

datatype forge_obj =
    ObjRepository Repository
  | ObjBranch Branch
  | ObjMilestone Milestone
  | ObjIssue ForgeIssue
  | ObjPull PullRequest
  | ObjCheckpoint Checkpoint
  | ObjRelease Release
  | ObjAudit Audit

record Failure =
  fl_remaining :: int
  fl_err :: "forge_error option"

record Fake =
  fk_clock :: "nat \<Rightarrow> time"
  fk_calls :: nat
  fk_ctx :: "string option list"
  fk_log :: AuditLog
  fk_repos :: "(string, Repository) fmap"
  fk_branches :: "(string, (string, Branch) fmap) fmap"
  fk_milestones :: "(string, (string, Milestone) fmap) fmap"
  fk_issues :: "(string, (int, ForgeIssue) fmap) fmap"
  fk_pulls :: "(string, (int, PullRequest) fmap) fmap"
  fk_checkpoints :: "(string, (string, Checkpoint) fmap) fmap"
  fk_releases :: "(string, (string, Release) fmap) fmap"
  fk_audits :: "(string, (string, Audit) fmap) fmap"
  fk_counters :: "(string, int) fmap"
  fk_idem :: "(string, forge_obj) fmap"
  fk_failures :: "(string, Failure) fmap"

definition NewWithClock :: "(nat \<Rightarrow> time) option \<Rightarrow> Fake" where
  "NewWithClock clock =
     \<lparr>fk_clock = (case clock of None \<Rightarrow> FixedClock_Now | Some c \<Rightarrow> c), fk_calls = 0, fk_ctx = [], fk_log = NewAuditLog,
      fk_repos = fmempty, fk_branches = fmempty, fk_milestones = fmempty, fk_issues = fmempty, fk_pulls = fmempty,
      fk_checkpoints = fmempty, fk_releases = fmempty, fk_audits = fmempty, fk_counters = fmempty, fk_idem = fmempty,
      fk_failures = fmempty\<rparr>"

definition Fake_New :: Fake where "Fake_New = NewWithClock (Some FixedClock_Now)"

definition Inject :: "string \<Rightarrow> int \<Rightarrow> forge_error option \<Rightarrow> Fake \<Rightarrow> Fake" where
  "Inject operation n err f =
     f\<lparr>fk_failures := fmupd operation \<lparr>fl_remaining = n, fl_err = err\<rparr> (fk_failures f)\<rparr>"

definition maybeFail :: "string \<Rightarrow> Fake \<Rightarrow> Fake \<times> forge_error option" where
  "maybeFail operation f =
     (case fmlookup (fk_failures f) operation of
        Some x \<Rightarrow>
          if 0 < fl_remaining x then
            (f\<lparr>fk_failures := fmupd operation (x\<lparr>fl_remaining := fl_remaining x - 1\<rparr>) (fk_failures f)\<rparr>, fl_err x)
          else (f, None)
      | None \<Rightarrow> (f, None))"

definition next_count :: "string \<Rightarrow> Fake \<Rightarrow> Fake \<times> int" where
  "next_count k f = (let n = fm_getd 0 (fk_counters f) k + 1 in (f\<lparr>fk_counters := fmupd k n (fk_counters f)\<rparr>, n))"

definition nextID :: "string \<Rightarrow> Fake \<Rightarrow> Fake \<times> string" where
  "nextID prefix f = (case next_count prefix f of (f1, n) \<Rightarrow> (f1, prefix @ ''_'' @ itoa_int n))"

definition nextNumber :: "string \<Rightarrow> Fake \<Rightarrow> Fake \<times> int" where
  "nextNumber repoID f = next_count (''number:'' @ repoID) f"

definition nextPRNumber :: "string \<Rightarrow> Fake \<Rightarrow> Fake \<times> int" where
  "nextPRNumber repoID f = next_count (''prnumber:'' @ repoID) f"

definition clock_now :: "Fake \<Rightarrow> Fake \<times> time" where
  "clock_now f = (f\<lparr>fk_calls := fk_calls f + 1\<rparr>, fk_clock f (fk_calls f))"

definition fake_record :: "string \<Rightarrow> string \<Rightarrow> string \<Rightarrow> Ref \<Rightarrow> (string \<times> string) list \<Rightarrow> Fake \<Rightarrow> Fake" where
  "fake_record operation key repoID target fs f =
     (case clock_now f of (f1, t) \<Rightarrow>
        f1\<lparr>fk_log := Log_Record \<lparr>op_Seq = 0, op_Operation = operation, op_Key = key, op_RepoID = repoID, op_Target = target,
                       op_Fields = fs, op_At = t\<rparr> (fk_log f1)\<rparr>)"

definition ctx_err :: "Fake \<Rightarrow> Fake \<times> string option" where
  "ctx_err f = (case fk_ctx f of [] \<Rightarrow> (f, None) | e # es \<Rightarrow> (f\<lparr>fk_ctx := es\<rparr>, e))"

definition Ref_zero :: Ref where "Ref_zero = \<lparr>rfr_Kind = [], rfr_ID = [], rfr_URL = []\<rparr>"

definition mk_ref :: "string \<Rightarrow> string \<Rightarrow> Ref" where "mk_ref kind rid = \<lparr>rfr_Kind = kind, rfr_ID = rid, rfr_URL = []\<rparr>"

definition inner_put :: "string \<Rightarrow> 'k \<Rightarrow> 'v \<Rightarrow> (string, ('k, 'v) fmap) fmap \<Rightarrow> (string, ('k, 'v) fmap) fmap" where
  "inner_put r k v m = fmupd r (fmupd k v (fm_getd fmempty m r)) m"

definition inner_get :: "(string, ('k, 'v) fmap) fmap \<Rightarrow> string \<Rightarrow> 'k \<Rightarrow> 'v option" where
  "inner_get m r k = fmlookup (fm_getd fmempty m r) k"

text \<open>
  What the creating methods share after their checks: a known key is recorded as a replay and gives its object, else
  an injected failure may strike, else the object is made.
\<close>

definition replay_or ::
  "string \<Rightarrow> string \<Rightarrow> (forge_obj \<Rightarrow> 'a option) \<Rightarrow> ('a \<Rightarrow> string) \<Rightarrow> ('a \<Rightarrow> Ref) \<Rightarrow> (Fake \<Rightarrow> Fake \<times> 'a) \<Rightarrow> Fake \<Rightarrow>
     Fake \<times> (forge_error + 'a)" where
  "replay_or operation key as repo_of target create f =
     (case fmlookup (fk_idem f) key of
        Some x \<Rightarrow> (case as x of None \<Rightarrow> (f, Err FgPanic)
          | Some v \<Rightarrow> (fake_record operation key (repo_of v) (target v) [(''idempotent'', ''replay'')] f, Ok v))
      | None \<Rightarrow> (case maybeFail operation f of (f1, Some e) \<Rightarrow> (f1, Err e)
          | (f1, None) \<Rightarrow> (case create f1 of (f2, v) \<Rightarrow> (f2, Ok v))))"

text \<open>The checks before it: the context, the repository where one is needed, and the object.\<close>

definition checked ::
  "string option \<Rightarrow> forge_error option \<Rightarrow> (Fake \<Rightarrow> Fake \<times> (forge_error + 'a)) \<Rightarrow> Fake \<Rightarrow> Fake \<times> (forge_error + 'a)" where
  "checked repo invalid body f =
     (case ctx_err f of
        (f1, Some e) \<Rightarrow> (f1, Err (FgContext e))
      | (f1, None) \<Rightarrow>
          (case repo of
             Some rid \<Rightarrow>
               if fmlookup (fk_repos f1) rid = None then (f1, Err (FgNotFound rid))
               else (case invalid of Some e \<Rightarrow> (f1, Err e) | None \<Rightarrow> body f1)
           | None \<Rightarrow> (case invalid of Some e \<Rightarrow> (f1, Err e) | None \<Rightarrow> body f1)))"

definition default_id :: "string \<Rightarrow> string \<Rightarrow> Fake \<Rightarrow> Fake \<times> string" where
  "default_id prefix oid f = (if oid = [] then nextID prefix f else (f, oid))"

definition default_time :: "time \<Rightarrow> Fake \<Rightarrow> Fake \<times> time" where
  "default_time t f = (if t = 0 then clock_now f else (f, t))"

fun as_repository :: "forge_obj \<Rightarrow> Repository option" where
  "as_repository (ObjRepository r) = Some r" | "as_repository _ = None"
fun as_branch :: "forge_obj \<Rightarrow> Branch option" where
  "as_branch (ObjBranch r) = Some r" | "as_branch _ = None"
fun as_milestone :: "forge_obj \<Rightarrow> Milestone option" where
  "as_milestone (ObjMilestone r) = Some r" | "as_milestone _ = None"
fun as_issue :: "forge_obj \<Rightarrow> ForgeIssue option" where
  "as_issue (ObjIssue r) = Some r" | "as_issue _ = None"
fun as_pull :: "forge_obj \<Rightarrow> PullRequest option" where
  "as_pull (ObjPull r) = Some r" | "as_pull _ = None"
fun as_checkpoint :: "forge_obj \<Rightarrow> Checkpoint option" where
  "as_checkpoint (ObjCheckpoint r) = Some r" | "as_checkpoint _ = None"
fun as_release :: "forge_obj \<Rightarrow> Release option" where
  "as_release (ObjRelease r) = Some r" | "as_release _ = None"
fun as_audit :: "forge_obj \<Rightarrow> Audit option" where
  "as_audit (ObjAudit r) = Some r" | "as_audit _ = None"

section \<open>Repositories, branches, milestones\<close>

definition CreateRepository :: "Repository \<Rightarrow> Fake \<Rightarrow> Fake \<times> (forge_error + Repository)" where
  "CreateRepository r0 =
     checked None (Repository_Validate r0)
       (let key = Key ''repository.create'' [rp_Owner r0, rp_Name r0] in
        replay_or ''repository.create'' key as_repository rp_ID (\<lambda>_. Ref_zero)
         (\<lambda>f. case default_id ''repo'' (rp_ID r0) f of (f1, rid) \<Rightarrow>
           let r = r0\<lparr>rp_ID := rid, rp_DefaultBranch := (if rp_DefaultBranch r0 = [] then ''main'' else rp_DefaultBranch r0),
                 rp_Ref := \<lparr>rfr_Kind = ''repository'', rfr_ID = rid, rfr_URL = ''forge://'' @ rp_Owner r0 @ ''/'' @ rp_Name r0\<rparr>\<rparr>
           in (fake_record ''repository.create'' key rid (rp_Ref r) []
                 (f1\<lparr>fk_repos := fmupd rid r (fk_repos f1), fk_idem := fmupd key (ObjRepository r) (fk_idem f1)\<rparr>), r)))"

definition CreateBranch :: "string \<Rightarrow> Branch \<Rightarrow> Fake \<Rightarrow> Fake \<times> (forge_error + Branch)" where
  "CreateBranch repoID b =
     checked (Some repoID) (ValidateBranchName (br_Name b))
       (let key = Key ''branch.create'' [repoID, br_Name b]; target = mk_ref ''branch'' (br_Name b) in
        replay_or ''branch.create'' key as_branch (\<lambda>_. repoID) (\<lambda>_. target)
         (\<lambda>f. (fake_record ''branch.create'' key repoID target [(''commit'', br_CommitSHA b)]
            (f\<lparr>fk_branches := inner_put repoID (br_Name b) b (fk_branches f), fk_idem := fmupd key (ObjBranch b) (fk_idem f)\<rparr>), b)))"

definition CreateMilestone :: "string \<Rightarrow> Milestone \<Rightarrow> Fake \<Rightarrow> Fake \<times> (forge_error + Milestone)" where
  "CreateMilestone repoID m0 =
     checked (Some repoID) (if ms_Title m0 = [] then Some (FgInvalid ''milestone title is required'') else None)
       (let key = Key ''milestone.create'' [repoID, ms_Title m0] in
        replay_or ''milestone.create'' key as_milestone (\<lambda>_. repoID) ms_Ref
         (\<lambda>f. case default_id ''milestone'' (ms_ID m0) f of (f1, mid) \<Rightarrow>
           let m = m0\<lparr>ms_ID := mid, ms_State := (if ms_State m0 = [] then ''open'' else ms_State m0),
                 ms_Ref := mk_ref ''milestone'' mid\<rparr>
           in (fake_record ''milestone.create'' key repoID (ms_Ref m) [(''title'', ms_Title m)]
                 (f1\<lparr>fk_milestones := inner_put repoID mid m (fk_milestones f1),
                     fk_idem := fmupd key (ObjMilestone m) (fk_idem f1)\<rparr>), m)))"

section \<open>Issues\<close>

definition CreateIssue :: "string \<Rightarrow> ForgeIssue \<Rightarrow> Fake \<Rightarrow> Fake \<times> (forge_error + ForgeIssue)" where
  "CreateIssue repoID i0 =
     checked (Some repoID) (ForgeIssue_Validate i0)
       (let key = Key ''issue.create'' [repoID, fi_Title i0] in
        replay_or ''issue.create'' key as_issue (\<lambda>_. repoID) fi_Ref
         (\<lambda>f. case default_id ''issue'' (fi_ID i0) f of (f1, iid) \<Rightarrow>
           (case (if fi_Number i0 = 0 then nextNumber repoID f1 else (f1, fi_Number i0)) of (f2, n) \<Rightarrow>
            let i = i0\<lparr>fi_ID := iid, fi_State := (if fi_State i0 = [] then ''open'' else fi_State i0), fi_Number := n,
                  fi_Ref := mk_ref ''issue'' iid\<rparr>
            in (fake_record ''issue.create'' key repoID (fi_Ref i) [(''number'', itoa_int n)]
                  (f2\<lparr>fk_issues := inner_put repoID n i (fk_issues f2), fk_idem := fmupd key (ObjIssue i) (fk_idem f2)\<rparr>), i))))"

definition UpdateIssue :: "string \<Rightarrow> ForgeIssue \<Rightarrow> Fake \<Rightarrow> Fake \<times> (forge_error + ForgeIssue)" where
  "UpdateIssue repoID i =
     checked None None (\<lambda>f.
       (case inner_get (fk_issues f) repoID (fi_Number i) of
          None \<Rightarrow> (f, Err (FgNotFound (itoa_int (fi_Number i))))
        | Some c0 \<Rightarrow>
            let c = c0\<lparr>fi_Title := (if fi_Title i \<noteq> [] then fi_Title i else fi_Title c0),
                       fi_Body := (if fi_Body i \<noteq> [] then fi_Body i else fi_Body c0),
                       fi_State := (if fi_State i \<noteq> [] then fi_State i else fi_State c0),
                       fi_Labels := (if fi_Labels i \<noteq> None then fi_Labels i else fi_Labels c0),
                       fi_Milestone := (if fi_Milestone i \<noteq> [] then fi_Milestone i else fi_Milestone c0)\<rparr>
            in (fake_record ''issue.update'' (Key ''issue.update'' [repoID, itoa_int (fi_Number i)]) repoID (fi_Ref c)
                  [(''state'', fi_State c)] (f\<lparr>fk_issues := inner_put repoID (fi_Number i) c (fk_issues f)\<rparr>), Ok c)))"

section \<open>Pull requests\<close>

definition bool_string :: "bool \<Rightarrow> string" where "bool_string b = (if b then ''true'' else ''false'')"

definition OpenPullRequest :: "string \<Rightarrow> PullRequest \<Rightarrow> Fake \<Rightarrow> Fake \<times> (forge_error + PullRequest)" where
  "OpenPullRequest repoID p0 =
     checked (Some repoID) (PullRequest_Validate p0)
       (let key = Key ''pull.open'' [repoID, pq_Head p0, pq_Base p0, pq_Title p0] in
        replay_or ''pull.open'' key as_pull (\<lambda>_. repoID) pq_Ref
         (\<lambda>f. case default_id ''pull'' (pq_ID p0) f of (f1, pid) \<Rightarrow>
           (case (if pq_Number p0 = 0 then nextPRNumber repoID f1 else (f1, pq_Number p0)) of (f2, n) \<Rightarrow>
            let p = p0\<lparr>pq_ID := pid, pq_Number := n, pq_State := (if pq_State p0 = [] then ''open'' else pq_State p0),
                  pq_Ref := mk_ref ''pull_request'' pid\<rparr>
            in (fake_record ''pull.open'' key repoID (pq_Ref p) [(''draft'', bool_string (pq_Draft p))]
                  (f2\<lparr>fk_pulls := inner_put repoID n p (fk_pulls f2), fk_idem := fmupd key (ObjPull p) (fk_idem f2)\<rparr>), p))))"

definition UpdatePullRequest :: "string \<Rightarrow> PullRequest \<Rightarrow> Fake \<Rightarrow> Fake \<times> (forge_error + PullRequest)" where
  "UpdatePullRequest repoID p =
     checked None None (\<lambda>f.
       (case inner_get (fk_pulls f) repoID (pq_Number p) of
          None \<Rightarrow> (f, Err (FgNotFound (itoa_int (pq_Number p))))
        | Some c0 \<Rightarrow>
            if pq_State c0 = ''merged'' then (f, Err (FgConflict (itoa_int (pq_Number p))))
            else
              let c = c0\<lparr>pq_Title := (if pq_Title p \<noteq> [] then pq_Title p else pq_Title c0),
                         pq_Body := (if pq_Body p \<noteq> [] then pq_Body p else pq_Body c0),
                         pq_State := (if pq_State p \<noteq> [] then pq_State p else pq_State c0),
                         pq_Draft := pq_Draft p\<rparr>
              in (fake_record ''pull.update'' (Key ''pull.update'' [repoID, itoa_int (pq_Number p)]) repoID (pq_Ref c)
                    [(''draft'', bool_string (pq_Draft c))] (f\<lparr>fk_pulls := inner_put repoID (pq_Number p) c (fk_pulls f)\<rparr>), Ok c)))"

definition MergePullRequest :: "string \<Rightarrow> int \<Rightarrow> MergeApproval \<Rightarrow> Fake \<Rightarrow> Fake \<times> (forge_error + PullRequest)" where
  "MergePullRequest repoID number approval =
     checked None None (\<lambda>f.
       (case inner_get (fk_pulls f) repoID number of
          None \<Rightarrow> (f, Err (FgNotFound (itoa_int number)))
        | Some c0 \<Rightarrow>
            if MergeApproval_Validate approval \<noteq> None then (f, Err (FgHumanGate ''merge approval actor is required''))
            else
              let key = Key ''pull.merge'' [repoID, itoa_int number] in
              if pq_State c0 = ''merged'' then
                (fake_record ''pull.merge'' key repoID (pq_Ref c0) [(''idempotent'', ''replay'')] f, Ok c0)
              else (case maybeFail ''pull.merge'' f of (f1, Some e) \<Rightarrow> (f1, Err e)
                | (f1, None) \<Rightarrow>
                    let c = c0\<lparr>pq_State := ''merged'', pq_Draft := False\<rparr>
                    in (fake_record ''pull.merge'' key repoID (pq_Ref c) [(''actor'', ma_Actor approval)]
                          (f1\<lparr>fk_pulls := inner_put repoID number c (fk_pulls f1)\<rparr>), Ok c))))"

section \<open>Checkpoints, releases, audits\<close>

definition CreateCheckpoint :: "string \<Rightarrow> Checkpoint \<Rightarrow> Fake \<Rightarrow> Fake \<times> (forge_error + Checkpoint)" where
  "CreateCheckpoint repoID c0 =
     checked None (Checkpoint_Validate c0)
       (let key = Key ''checkpoint.create'' [repoID, cp_Phase c0, cp_Commit c0] in
        replay_or ''checkpoint.create'' key as_checkpoint (\<lambda>_. repoID) (\<lambda>c. mk_ref ''checkpoint'' (cp_ID c))
         (\<lambda>f. case default_id ''checkpoint'' (cp_ID c0) f of (f1, cid) \<Rightarrow>
           (case default_time (cp_CreatedAt c0) f1 of (f2, t) \<Rightarrow>
            let c = c0\<lparr>cp_ID := cid, cp_CreatedAt := t\<rparr>
            in (fake_record ''checkpoint.create'' key repoID (mk_ref ''checkpoint'' cid) [(''phase'', cp_Phase c)]
                  (f2\<lparr>fk_checkpoints := inner_put repoID cid c (fk_checkpoints f2),
                      fk_idem := fmupd key (ObjCheckpoint c) (fk_idem f2)\<rparr>), c))))"

definition CreateRelease :: "string \<Rightarrow> Release \<Rightarrow> Fake \<Rightarrow> Fake \<times> (forge_error + Release)" where
  "CreateRelease repoID r0 =
     checked None (Release_Validate r0)
       (let key = Key ''release.create'' [repoID, rl_Tag r0] in
        replay_or ''release.create'' key as_release (\<lambda>_. repoID) (\<lambda>r. mk_ref ''release'' (rl_ID r))
         (\<lambda>f. case default_id ''release'' (rl_ID r0) f of (f1, rid) \<Rightarrow>
           (case default_time (rl_CreatedAt r0) f1 of (f2, t) \<Rightarrow>
            let r = r0\<lparr>rl_ID := rid, rl_CreatedAt := t\<rparr>
            in (fake_record ''release.create'' key repoID (mk_ref ''release'' rid) [(''tag'', rl_Tag r)]
                  (f2\<lparr>fk_releases := inner_put repoID (rl_Tag r) r (fk_releases f2),
                      fk_idem := fmupd key (ObjRelease r) (fk_idem f2)\<rparr>), r))))"

fun derive_loop :: "string \<Rightarrow> AuditFinding list \<Rightarrow> string" where
  "derive_loop result [] = result"
| "derive_loop result (f # fs) =
     (if af_Severity f = ''P0'' \<or> af_Severity f = ''P1'' then AuditNotReady
      else if af_Severity f = ''P2'' then derive_loop AuditReadyWithConditions fs
      else derive_loop result fs)"

definition deriveResult :: "AuditFinding list \<Rightarrow> string" where "deriveResult fs = derive_loop AuditReady fs"

fun number_findings :: "string \<Rightarrow> int \<Rightarrow> AuditFinding list \<Rightarrow> AuditFinding list" where
  "number_findings aid n [] = []"
| "number_findings aid n (f # fs) =
     (if af_ID f = [] then f\<lparr>af_ID := aid @ ''-f'' @ itoa_int n\<rparr> else f) # number_findings aid (n + 1) fs"

text \<open>The ids are written into the caller's slice of findings too.\<close>

definition RecordAudit :: "string \<Rightarrow> Audit \<Rightarrow> Fake \<Rightarrow> Fake \<times> (forge_error + Audit)" where
  "RecordAudit repoID a0 =
     checked (Some repoID) (Audit_Validate a0)
       (let key = Key ''audit.record'' [repoID, au_Phase a0] in
        replay_or ''audit.record'' key as_audit (\<lambda>_. repoID) (\<lambda>a. mk_ref ''audit'' (au_ID a))
         (\<lambda>f. case default_id ''audit'' (au_ID a0) f of (f1, aid) \<Rightarrow>
            let fs = SortFindings (number_findings aid 1 (au_Findings a0));
                result = (if au_Result a0 = [] then deriveResult fs else au_Result a0) in
           (case default_time (au_CreatedAt a0) f1 of (f2, t) \<Rightarrow>
            let a = a0\<lparr>au_ID := aid, au_Findings := fs, au_Result := result, au_CreatedAt := t\<rparr>
            in (fake_record ''audit.record'' key repoID (mk_ref ''audit'' aid) [(''result'', au_Result a)]
                  (f2\<lparr>fk_audits := inner_put repoID aid a (fk_audits f2),
                      fk_idem := fmupd key (ObjAudit a) (fk_idem f2)\<rparr>), a))))"

section \<open>Reading\<close>

definition Fake_AuditLog :: "Fake \<Rightarrow> AuditLog" where "Fake_AuditLog f = fk_log f"
definition Fake_Repository :: "Fake \<Rightarrow> string \<Rightarrow> Repository option" where "Fake_Repository f rid = fmlookup (fk_repos f) rid"
definition Fake_Branch :: "Fake \<Rightarrow> string \<Rightarrow> string \<Rightarrow> Branch option" where "Fake_Branch f = inner_get (fk_branches f)"
definition Fake_Milestone :: "Fake \<Rightarrow> string \<Rightarrow> string \<Rightarrow> Milestone option" where "Fake_Milestone f = inner_get (fk_milestones f)"
definition Fake_Issue :: "Fake \<Rightarrow> string \<Rightarrow> int \<Rightarrow> ForgeIssue option" where "Fake_Issue f = inner_get (fk_issues f)"
definition Fake_PullRequest :: "Fake \<Rightarrow> string \<Rightarrow> int \<Rightarrow> PullRequest option" where "Fake_PullRequest f = inner_get (fk_pulls f)"
definition Fake_Checkpoint :: "Fake \<Rightarrow> string \<Rightarrow> string \<Rightarrow> Checkpoint option" where "Fake_Checkpoint f = inner_get (fk_checkpoints f)"
definition Fake_Release :: "Fake \<Rightarrow> string \<Rightarrow> string \<Rightarrow> Release option" where "Fake_Release f = inner_get (fk_releases f)"
definition Fake_Audit :: "Fake \<Rightarrow> string \<Rightarrow> string \<Rightarrow> Audit option" where "Fake_Audit f = inner_get (fk_audits f)"

end
