(* ===== verification/ForgeLifecycle.thy ===== *)
theory ForgeLifecycle
  imports ForgeFake ContractEvidence
begin

text \<open>
  \<open>forge/memsync\<close>: forge objects as contract records, and \<open>forge/lifecycle\<close>: the manager that drives a phase.
  The manager works on any forge: \<open>ForgeAPI\<close> is the interface \<open>Forge\<close> with its state as an argument, and
  \<open>fake_api\<close> its implementation by the fake. Rendering a template is a parameter (its data are names and values),
  and so are the exporter's clock and the sink, which work on a world of their own.
\<close>

section \<open>Synchronization to memory\<close>

record Exporter =
  xp_projectID :: string
  xp_source :: string

record 'w SyncEnv =
  sy_now :: "'w \<Rightarrow> 'w \<times> time"
  sy_rfc3339 :: "time \<Rightarrow> string"
  sy_parse :: "string \<Rightarrow> time option"
  sy_put_issue :: "Issue \<Rightarrow> 'w \<Rightarrow> 'w \<times> string option"
  sy_put_memory :: "MemoryRecord \<Rightarrow> 'w \<Rightarrow> 'w \<times> string option"

datatype sync_error = SyncForge forge_error | SyncState string | SyncContract val_error | SyncSink string

definition NewExporter :: "string \<Rightarrow> Exporter" where
  "NewExporter projectID = \<lparr>xp_projectID = projectID, xp_source = ''aa-forge''\<rparr>"

definition mapIssueState :: "string \<Rightarrow> sync_error + string" where
  "mapIssueState state =
     (if state = [] \<or> state = ''open'' then Ok ''open''
      else if state \<in> set [''in_progress'', ''review'', ''closed'', ''deferred'', ''cancelled''] then Ok state
      else Err (SyncState state))"

definition defaultKind :: "string \<Rightarrow> string \<Rightarrow> string" where
  "defaultKind kind fallback = (if kind = [] then fallback else kind)"

definition sync_envelope :: "Exporter \<Rightarrow> string \<Rightarrow> string \<Rightarrow> string \<Rightarrow> Envelope" where
  "sync_envelope x kind rid created =
     \<lparr>ev_ContractVersion = ''2.0'', ev_Kind = kind, ev_ID = rid, ev_ProjectID = xp_projectID x, ev_CreatedAt = created,
      ev_Revision = None,
      ev_Provenance = Some \<lparr>pv_Source = xp_source x, pv_ProducedAt = created, pv_ProducedBy = None, pv_Confidence = ''exact'',
        pv_Evidence = [], pv_ContentHash = []\<rparr>\<rparr>"

definition mk_reference :: "string \<Rightarrow> string \<Rightarrow> Reference" where
  "mk_reference kind rid = \<lparr>ref_Kind = kind, ref_ID = rid, ref_Version = []\<rparr>"

definition Exporter_Issue :: "'w SyncEnv \<Rightarrow> Exporter \<Rightarrow> ForgeIssue \<Rightarrow> 'w \<Rightarrow> 'w \<times> (sync_error + Issue)" where
  "Exporter_Issue E x i w =
     (case ForgeIssue_Validate i of Some e \<Rightarrow> (w, Err (SyncForge e)) | None \<Rightarrow>
      (case mapIssueState (fi_State i) of Inl e \<Rightarrow> (w, Err e) | Inr status \<Rightarrow>
       let issueType = (if fi_Type i = [] then ''feature'' else fi_Type i) in
       (case RequireEnum ''type'' issueType [''feature'', ''user_story'', ''bug'', ''tech_debt'', ''refactor'', ''test'',
               ''documentation'', ''audit'', ''investigation'', ''deficiency''] of
          Some e \<Rightarrow> (w, Err (SyncContract e))
        | None \<Rightarrow>
          (case sy_now E w of (w1, now) \<Rightarrow>
           let out = \<lparr>is_Envelope = sync_envelope x ''issue'' (fi_ID i) (sy_rfc3339 E now), is_Title = fi_Title i,
                       is_Type = issueType, is_Status = status, is_Severity = [], is_Body = fi_Body i,
                       is_Milestone = fi_Milestone i,
                       is_ForgeRef = (if rfr_ID (fi_Ref i) \<noteq> []
                         then Some (mk_reference (defaultKind (rfr_Kind (fi_Ref i)) ''issue'') (rfr_ID (fi_Ref i))) else None),
                       is_Links = None, is_DeferredTo = []\<rparr>
           in (case Issue_Validate (sy_parse E) out of Some e \<Rightarrow> (w1, Err (SyncContract e)) | None \<Rightarrow> (w1, Ok out))))))"

definition CheckpointRecord :: "'w SyncEnv \<Rightarrow> Exporter \<Rightarrow> Checkpoint \<Rightarrow> 'w \<Rightarrow> 'w \<times> (sync_error + MemoryRecord)" where
  "CheckpointRecord E x c w =
     (case Checkpoint_Validate c of Some e \<Rightarrow> (w, Err (SyncForge e)) | None \<Rightarrow>
      (case (if cp_CreatedAt c = 0 then sy_now E w else (w, cp_CreatedAt c)) of (w1, at) \<Rightarrow>
       let record = \<lparr>mr_Envelope = sync_envelope x ''memory_record'' (''mem_'' @ cp_ID c) (sy_rfc3339 E at),
             mr_Level = ''project'', mr_Lifecycle = ''CANDIDATE'', mr_Title = ''Checkpoint '' @ cp_Phase c,
             mr_Content = \<lparr>mc_Summary = ''Phase '' @ cp_Phase c @ '' checkpoint at '' @ cp_Commit c, mc_Details = [], mc_Tags = []\<rparr>,
             mr_Applicability = None,
             mr_Evidence = map (\<lambda>r. mk_reference (defaultKind (rfr_Kind r) ''issue'') (rfr_ID r)) (cp_Issues c)
               @ map (\<lambda>r. mk_reference (defaultKind (rfr_Kind r) ''pull_request'') (rfr_ID r)) (cp_PRs c),
             mr_Confidence = Some (Finite 1), mr_Supersedes = []\<rparr>
       in (case MemoryRecord_Validate (sy_parse E) record of Some e \<Rightarrow> (w1, Err (SyncContract e)) | None \<Rightarrow> (w1, Ok record))))"

definition SyncIssue :: "'w SyncEnv \<Rightarrow> Exporter \<Rightarrow> ForgeIssue \<Rightarrow> 'w \<Rightarrow> 'w \<times> (sync_error + Issue)" where
  "SyncIssue E x i w =
     (case Exporter_Issue E x i w of (w1, Inl e) \<Rightarrow> (w1, Err e)
      | (w1, Inr record) \<Rightarrow> (case sy_put_issue E record w1 of (w2, Some e) \<Rightarrow> (w2, Err (SyncSink e)) | (w2, None) \<Rightarrow> (w2, Ok record)))"

definition SyncCheckpoint :: "'w SyncEnv \<Rightarrow> Exporter \<Rightarrow> Checkpoint \<Rightarrow> 'w \<Rightarrow> 'w \<times> (sync_error + MemoryRecord)" where
  "SyncCheckpoint E x c w =
     (case CheckpointRecord E x c w of (w1, Inl e) \<Rightarrow> (w1, Err e)
      | (w1, Inr record) \<Rightarrow> (case sy_put_memory E record w1 of (w2, Some e) \<Rightarrow> (w2, Err (SyncSink e)) | (w2, None) \<Rightarrow> (w2, Ok record)))"

section \<open>The forge as an interface\<close>

record 'f ForgeAPI =
  fo_CreateRepository :: "Repository \<Rightarrow> 'f \<Rightarrow> 'f \<times> (forge_error + Repository)"
  fo_CreateBranch :: "string \<Rightarrow> Branch \<Rightarrow> 'f \<Rightarrow> 'f \<times> (forge_error + Branch)"
  fo_CreateMilestone :: "string \<Rightarrow> Milestone \<Rightarrow> 'f \<Rightarrow> 'f \<times> (forge_error + Milestone)"
  fo_CreateIssue :: "string \<Rightarrow> ForgeIssue \<Rightarrow> 'f \<Rightarrow> 'f \<times> (forge_error + ForgeIssue)"
  fo_OpenPullRequest :: "string \<Rightarrow> PullRequest \<Rightarrow> 'f \<Rightarrow> 'f \<times> (forge_error + PullRequest)"
  fo_UpdatePullRequest :: "string \<Rightarrow> PullRequest \<Rightarrow> 'f \<Rightarrow> 'f \<times> (forge_error + PullRequest)"
  fo_MergePullRequest :: "string \<Rightarrow> int \<Rightarrow> MergeApproval \<Rightarrow> 'f \<Rightarrow> 'f \<times> (forge_error + PullRequest)"
  fo_CreateCheckpoint :: "string \<Rightarrow> Checkpoint \<Rightarrow> 'f \<Rightarrow> 'f \<times> (forge_error + Checkpoint)"
  fo_CreateRelease :: "string \<Rightarrow> Release \<Rightarrow> 'f \<Rightarrow> 'f \<times> (forge_error + Release)"
  fo_RecordAudit :: "string \<Rightarrow> Audit \<Rightarrow> 'f \<Rightarrow> 'f \<times> (forge_error + Audit)"

definition fake_api :: "Fake ForgeAPI" where
  "fake_api = \<lparr>fo_CreateRepository = CreateRepository, fo_CreateBranch = CreateBranch, fo_CreateMilestone = CreateMilestone,
     fo_CreateIssue = CreateIssue, fo_OpenPullRequest = OpenPullRequest, fo_UpdatePullRequest = UpdatePullRequest,
     fo_MergePullRequest = MergePullRequest, fo_CreateCheckpoint = CreateCheckpoint, fo_CreateRelease = CreateRelease,
     fo_RecordAudit = RecordAudit\<rparr>"

section \<open>The manager\<close>

record Phase =
  ph_Repo :: Repository
  ph_Number :: int
  ph_Scope :: string
  ph_Branch :: string
  ph_Milestone :: Milestone
  ph_TrackingIssue :: ForgeIssue
  ph_PhasePR :: PullRequest

record PhaseSpec =
  sp_Repository :: Repository
  sp_Number :: int
  sp_Scope :: string
  sp_Objective :: string
  sp_Milestone :: string

record ChildIssueSpec =
  ci_Title :: string
  ci_Goal :: string
  ci_Requirements :: "string list"
  ci_Acceptance :: "string list"
  ci_Notes :: string
  ci_Type :: string

record ChildPRSpec =
  cpr_Title :: string
  cpr_Branch :: string
  cpr_Summary :: string
  cpr_Changes :: "string list"
  cpr_Notes :: string
  cpr_Issue :: int

datatype tpl_value = TplString string | TplInt int | TplStrings "string list" | TplInts "int list"

text \<open>\<open>mg_templates\<close> is the engine's \<open>Render\<close> (\<open>None\<close>: an error); \<open>mg_sync\<close> is the exporter with its sink.\<close>

record ('f, 'w) Manager =
  mg_forge :: "'f ForgeAPI"
  mg_templates :: "(string \<Rightarrow> (string \<times> tpl_value) list \<Rightarrow> string option) option"
  mg_sync :: "('w SyncEnv \<times> Exporter) option"

datatype lc_error = LcForge forge_error | LcSync sync_error

definition BranchName :: "Phase \<Rightarrow> string" where "BranchName p = PhaseBranch (ph_Number p) (ph_Scope p)"

definition render :: "('f, 'w) Manager \<Rightarrow> string \<Rightarrow> (string \<times> tpl_value) list \<Rightarrow> string" where
  "render M name data =
     (case mg_templates M of None \<Rightarrow> [] | Some r \<Rightarrow> (case r name data of None \<Rightarrow> [] | Some out \<Rightarrow> out))"

definition to_upper :: "char \<Rightarrow> char" where
  "to_upper c = (if is_lower c then char_of ((of_char c :: nat) - 32) else c)"

text \<open>On a scope, which is lowercase ASCII, \<open>ToUpper\<close> of the first byte is \<open>to_upper\<close>.\<close>

definition titleCase :: "string \<Rightarrow> string" where
  "titleCase scope = strings_Join '' '' (map (\<lambda>p. case p of [] \<Rightarrow> [] | c # cs \<Rightarrow> to_upper c # cs) (split_on (CHR ''-'') scope))"

definition em_dash :: string where "em_dash = [CHR 0xE2, CHR 0x80, CHR 0x94]"

definition phase_title :: "PhaseSpec \<Rightarrow> string" where
  "phase_title spec = ''Phase '' @ itoa_int (sp_Number spec) @ '': '' @ sp_Objective spec"

definition milestone_title :: "PhaseSpec \<Rightarrow> string" where
  "milestone_title spec = (if sp_Milestone spec = []
     then ''Phase '' @ itoa_int (sp_Number spec) @ '' '' @ em_dash @ '' '' @ titleCase (sp_Scope spec) else sp_Milestone spec)"

definition phasePRBody :: "('f, 'w) Manager \<Rightarrow> PhaseSpec \<Rightarrow> ForgeIssue \<Rightarrow> string" where
  "phasePRBody M spec issue =
     (let body = render M ''github/phase-pr.md''
        [(''Objective'', TplString (sp_Objective spec)), (''TrackingIssue'', TplInt (fi_Number issue)),
         (''Milestone'', TplString (sp_Milestone spec)), (''Features'', TplStrings []), (''Infrastructure'', TplStrings []),
         (''Testing'', TplStrings []), (''Documentation'', TplStrings []), (''ChildPRs'', TplInts []),
         (''Status'', TplString ''Phase started.''), (''Risks'', TplString [])]
      in if body \<noteq> [] then body else fi_Body issue)"

text \<open>A method runs on the forge and the world of the sink, and returns early with an error.\<close>

type_synonym ('f, 'w, 'a) phase_step = "'f \<times> 'w \<Rightarrow> ('f \<times> 'w) \<times> (lc_error + 'a)"

definition lc_return :: "'a \<Rightarrow> ('f, 'w, 'a) phase_step" where "lc_return v s = (s, Ok v)"

definition lc_check :: "forge_error option \<Rightarrow> ('f, 'w, unit) phase_step" where
  "lc_check c s = (s, case c of Some e \<Rightarrow> Err (LcForge e) | None \<Rightarrow> Ok ())"

definition lc_bind :: "('f, 'w, 'a) phase_step \<Rightarrow> ('a \<Rightarrow> ('f, 'w, 'b) phase_step) \<Rightarrow> ('f, 'w, 'b) phase_step" where
  "lc_bind op k s = (case op s of (s1, Inl e) \<Rightarrow> (s1, Err e) | (s1, Inr v) \<Rightarrow> k v s1)"

definition on_forge :: "('f \<Rightarrow> 'f \<times> (forge_error + 'a)) \<Rightarrow> ('f, 'w, 'a) phase_step" where
  "on_forge call s = (case call (fst s) of (f1, Inl e) \<Rightarrow> ((f1, snd s), Err (LcForge e)) | (f1, Inr v) \<Rightarrow> ((f1, snd s), Ok v))"

definition on_sink :: "('w \<Rightarrow> 'w \<times> (sync_error + 'a)) \<Rightarrow> ('f, 'w, unit) phase_step" where
  "on_sink call s = (case call (snd s) of (w1, Inl e) \<Rightarrow> ((fst s, w1), Err (LcSync e)) | (w1, Inr _) \<Rightarrow> ((fst s, w1), Ok ()))"

definition lc_syncIssue :: "('f, 'w) Manager \<Rightarrow> ForgeIssue \<Rightarrow> ('f, 'w, unit) phase_step" where
  "lc_syncIssue M issue = (case mg_sync M of None \<Rightarrow> lc_return () | Some (E, x) \<Rightarrow> on_sink (SyncIssue E x issue))"

definition new_issue :: "string \<Rightarrow> string \<Rightarrow> string \<Rightarrow> string \<Rightarrow> ForgeIssue" where
  "new_issue title body type milestone =
     \<lparr>fi_ID = [], fi_Number = 0, fi_Title = title, fi_Body = body, fi_Type = type, fi_State = [], fi_Labels = None,
      fi_Milestone = milestone, fi_Ref = Ref_zero\<rparr>"

definition new_pull :: "string \<Rightarrow> string \<Rightarrow> string \<Rightarrow> string \<Rightarrow> bool \<Rightarrow> PullRequest" where
  "new_pull title body base head draft =
     \<lparr>pq_ID = [], pq_Number = 0, pq_Title = title, pq_Body = body, pq_Base = base, pq_Head = head, pq_State = [],
      pq_Draft = draft, pq_Ref = Ref_zero\<rparr>"

definition create_and_sync :: "('f, 'w) Manager \<Rightarrow> string \<Rightarrow> ForgeIssue \<Rightarrow> ('f, 'w, ForgeIssue) phase_step" where
  "create_and_sync M repoID i =
     lc_bind (on_forge (fo_CreateIssue (mg_forge M) repoID i)) (\<lambda>issue.
     lc_bind (lc_syncIssue M issue) (\<lambda>_. lc_return issue))"

definition CreateTrackingIssue :: "('f, 'w) Manager \<Rightarrow> string \<Rightarrow> PhaseSpec \<Rightarrow> string \<Rightarrow> ('f, 'w, ForgeIssue) phase_step" where
  "CreateTrackingIssue M repoID spec milestoneID =
     create_and_sync M repoID
       (new_issue (phase_title spec)
          (render M ''github/phase-tracking-issue.md''
             [(''Number'', TplInt (sp_Number spec)), (''Objective'', TplString (sp_Objective spec)), (''Scope'', TplStrings []),
              (''Issues'', TplInts []), (''Dependencies'', TplString []), (''Risks'', TplString [])])
          ''feature'' milestoneID)"

definition StartPhase :: "('f, 'w) Manager \<Rightarrow> PhaseSpec \<Rightarrow> ('f, 'w, Phase) phase_step" where
  "StartPhase M spec =
     (let branch = PhaseBranch (sp_Number spec) (sp_Scope spec); F = mg_forge M in
      lc_bind (lc_check (ValidateScope (sp_Scope spec))) (\<lambda>_.
      lc_bind (lc_check (ValidatePhaseBranch branch (sp_Number spec) (sp_Scope spec))) (\<lambda>_.
      lc_bind (on_forge (fo_CreateRepository F (sp_Repository spec))) (\<lambda>repo.
      lc_bind (on_forge (fo_CreateBranch F (rp_ID repo) \<lparr>br_Name = branch, br_CommitSHA = []\<rparr>)) (\<lambda>_.
      lc_bind (on_forge (fo_CreateMilestone F (rp_ID repo)
        \<lparr>ms_ID = [], ms_Title = milestone_title spec, ms_State = [], ms_Ref = Ref_zero\<rparr>)) (\<lambda>milestone.
      lc_bind (CreateTrackingIssue M (rp_ID repo) spec (ms_ID milestone)) (\<lambda>issue.
      lc_bind (on_forge (fo_OpenPullRequest F (rp_ID repo)
        (new_pull (phase_title spec) (phasePRBody M spec issue) (rp_DefaultBranch repo) branch True))) (\<lambda>pr.
      lc_return \<lparr>ph_Repo = repo, ph_Number = sp_Number spec, ph_Scope = sp_Scope spec, ph_Branch = branch,
        ph_Milestone = milestone, ph_TrackingIssue = issue, ph_PhasePR = pr\<rparr>))))))))"

definition CreateChildIssue :: "('f, 'w) Manager \<Rightarrow> Phase \<Rightarrow> ChildIssueSpec \<Rightarrow> ('f, 'w, ForgeIssue) phase_step" where
  "CreateChildIssue M phase spec =
     create_and_sync M (rp_ID (ph_Repo phase))
       (new_issue (ci_Title spec)
          (render M ''github/feature-issue.md''
             [(''Title'', TplString (ci_Title spec)), (''Goal'', TplString (ci_Goal spec)),
              (''Requirements'', TplStrings (ci_Requirements spec)), (''Acceptance'', TplStrings (ci_Acceptance spec)),
              (''Notes'', TplString (ci_Notes spec))])
          (if ci_Type spec = [] then ''feature'' else ci_Type spec) (ms_ID (ph_Milestone phase)))"

definition OpenChildPR :: "('f, 'w) Manager \<Rightarrow> Phase \<Rightarrow> ChildPRSpec \<Rightarrow> ('f, 'w, PullRequest) phase_step" where
  "OpenChildPR M phase spec =
     lc_bind (lc_check (if cpr_Branch spec = [] then Some (FgInvalid ''child PR branch is required'') else None)) (\<lambda>_.
     lc_bind (on_forge (fo_CreateBranch (mg_forge M) (rp_ID (ph_Repo phase)) \<lparr>br_Name = cpr_Branch spec, br_CommitSHA = []\<rparr>)) (\<lambda>_.
     on_forge (fo_OpenPullRequest (mg_forge M) (rp_ID (ph_Repo phase))
       (new_pull (cpr_Title spec)
          (render M ''github/child-pr.md''
             [(''Summary'', TplString (cpr_Summary spec)), (''Issue'', TplInt (cpr_Issue spec)),
              (''Changes'', TplStrings (cpr_Changes spec)), (''Notes'', TplString (cpr_Notes spec)),
              (''PhaseIssue'', TplInt (fi_Number (ph_TrackingIssue phase))),
              (''Milestone'', TplString (ms_Title (ph_Milestone phase)))])
          (ph_Branch phase) (cpr_Branch spec) False))))"

definition lc_Checkpoint ::
  "('f, 'w) Manager \<Rightarrow> Phase \<Rightarrow> string \<Rightarrow> Ref list \<Rightarrow> Ref list \<Rightarrow> ('f, 'w, Checkpoint) phase_step" where
  "lc_Checkpoint M phase commit issues prs =
     lc_bind (on_forge (fo_CreateCheckpoint (mg_forge M) (rp_ID (ph_Repo phase))
        \<lparr>cp_ID = [], cp_Phase = BranchName phase, cp_Commit = commit, cp_Issues = issues, cp_PRs = prs, cp_CreatedAt = 0\<rparr>)) (\<lambda>c.
     lc_bind (case mg_sync M of None \<Rightarrow> lc_return () | Some (E, x) \<Rightarrow> on_sink (SyncCheckpoint E x c)) (\<lambda>_. lc_return c))"

definition refIssue :: "ForgeIssue \<Rightarrow> Ref" where
  "refIssue i = mk_ref (defaultKind (rfr_Kind (fi_Ref i)) ''issue'') (rfr_ID (fi_Ref i))"

definition refPR :: "PullRequest \<Rightarrow> Ref" where
  "refPR p = mk_ref (defaultKind (rfr_Kind (pq_Ref p)) ''pull_request'') (rfr_ID (pq_Ref p))"

definition CompletePhase ::
  "('f, 'w) Manager \<Rightarrow> Phase \<Rightarrow> string \<Rightarrow> MergeApproval \<Rightarrow> ('f, 'w, PullRequest) phase_step" where
  "CompletePhase M phase commit approval =
     lc_bind (lc_check (if ma_Actor approval = [] then Some (FgHumanGate ''merge actor is required'') else None)) (\<lambda>_.
     lc_bind (lc_Checkpoint M phase commit [refIssue (ph_TrackingIssue phase)] [refPR (ph_PhasePR phase)]) (\<lambda>_.
     lc_bind (on_forge (fo_UpdatePullRequest (mg_forge M) (rp_ID (ph_Repo phase))
        ((new_pull [] [] [] [] False)\<lparr>pq_Number := pq_Number (ph_PhasePR phase)\<rparr>))) (\<lambda>ready.
     on_forge (fo_MergePullRequest (mg_forge M) (rp_ID (ph_Repo phase)) (pq_Number ready) approval))))"

definition lc_Audit :: "('f, 'w) Manager \<Rightarrow> Phase \<Rightarrow> AuditFinding list \<Rightarrow> ('f, 'w, Audit) phase_step" where
  "lc_Audit M phase findings =
     on_forge (fo_RecordAudit (mg_forge M) (rp_ID (ph_Repo phase))
       \<lparr>au_ID = [], au_Phase = BranchName phase, au_Findings = findings, au_Result = [], au_CreatedAt = 0\<rparr>)"

definition lc_Release :: "('f, 'w) Manager \<Rightarrow> Phase \<Rightarrow> string \<Rightarrow> string \<Rightarrow> string \<Rightarrow> ('f, 'w, Release) phase_step" where
  "lc_Release M phase tag notes commit =
     on_forge (fo_CreateRelease (mg_forge M) (rp_ID (ph_Repo phase))
       \<lparr>rl_ID = [], rl_Tag = tag, rl_Notes = notes, rl_Commit = commit, rl_CreatedAt = 0\<rparr>)"

definition auditType :: "string \<Rightarrow> string" where
  "auditType c =
     (if c \<in> set [''bug'', ''tech_debt'', ''refactor'', ''test'', ''documentation''] then c
      else if c = ''security'' then ''audit'' else ''investigation'')"

definition nonEmpty :: "string list \<Rightarrow> string list" where
  "nonEmpty vs = filter (\<lambda>v. trim_space v \<noteq> []) vs"

definition FindingsFromAudit :: "Audit \<Rightarrow> ChildIssueSpec list" where
  "FindingsFromAudit a =
     map (\<lambda>f. \<lparr>ci_Title = af_Title f, ci_Goal = af_Recommendation f,
               ci_Requirements = nonEmpty [af_Evidence f, af_Impact f], ci_Acceptance = [],
               ci_Notes = strings_Join '' '' [af_Scope f, af_SuggestedPhase f], ci_Type = auditType (af_Classification f)\<rparr>)
       (au_Findings a)"

end
