(* ===== verification/ForgeProps.thy ===== *)
theory ForgeProps
  imports ForgeLifecycle
begin

text \<open>
  Starting a phase again gives the same phase, on any forge whose creating operations replay, the fake among them;
  a pull request is merged by an approval or by a state that a caller supplied.
\<close>

section \<open>Operations that replay\<close>

text \<open>
  \<open>later f g\<close>: the forge came from \<open>f\<close> to \<open>g\<close> by its operations; \<open>same f g\<close>: no object changed between them. A
  creating operation replays when, after it succeeded, calling it again at any later time gives the same result and
  creates nothing, unless the context is done.
\<close>

definition replays :: "('f \<Rightarrow> 'f \<Rightarrow> bool) \<Rightarrow> ('f \<Rightarrow> 'f \<Rightarrow> bool) \<Rightarrow> ('f \<Rightarrow> 'f \<times> (forge_error + 'a)) \<Rightarrow> bool" where
  "replays later same call \<longleftrightarrow> (\<forall>f f1 r. call f = (f1, r) \<longrightarrow> later f f1 \<and>
     (\<forall>v. r = Ok v \<longrightarrow> (\<forall>g g1 r1. later f1 g \<longrightarrow> call g = (g1, r1) \<longrightarrow>
        same g g1 \<and> (r1 = Ok v \<or> (\<exists>e. r1 = Err (FgContext e))))))"

locale phase_forge =
  fixes F :: "'f ForgeAPI" and later :: "'f \<Rightarrow> 'f \<Rightarrow> bool" and same :: "'f \<Rightarrow> 'f \<Rightarrow> bool"
  assumes later_refl: "later f f"
    and later_trans: "later f g \<Longrightarrow> later g h \<Longrightarrow> later f h"
    and same_refl: "same f f"
    and same_trans: "same f g \<Longrightarrow> same g h \<Longrightarrow> same f h"
    and repository_replays: "replays later same (fo_CreateRepository F repo)"
    and branch_replays: "replays later same (fo_CreateBranch F rid branch)"
    and milestone_replays: "replays later same (fo_CreateMilestone F rid milestone)"
    and issue_replays: "replays later same (fo_CreateIssue F rid issue)"
    and pull_replays: "replays later same (fo_OpenPullRequest F rid pull)"
begin

lemma replaysD:
  "replays later same call \<Longrightarrow> call f = (f1, r) \<Longrightarrow> later f f1"
  "replays later same call \<Longrightarrow> call f = (f1, Ok v) \<Longrightarrow> later f1 g \<Longrightarrow> call g = (g1, r1) \<Longrightarrow>
     same g g1 \<and> later g g1 \<and> (r1 = Ok v \<or> (\<exists>e. r1 = Err (FgContext e)))"
  unfolding replays_def by blast+

text \<open>The same for the manager's steps, which may also stop at the sink.\<close>

definition excused :: "lc_error \<Rightarrow> bool" where
  "excused e \<longleftrightarrow> (\<exists>x. e = LcForge (FgContext x)) \<or> (\<exists>x. e = LcSync x)"

definition step_replays :: "('f, 'w, 'a) phase_step \<Rightarrow> bool" where
  "step_replays op \<longleftrightarrow> (\<forall>s s1 r. op s = (s1, r) \<longrightarrow> later (fst s) (fst s1) \<and>
     (\<forall>v. r = Ok v \<longrightarrow> (\<forall>t t1 r1. later (fst s1) (fst t) \<longrightarrow> op t = (t1, r1) \<longrightarrow>
        same (fst t) (fst t1) \<and> (r1 = Ok v \<or> (\<exists>e. r1 = Err e \<and> excused e)))))"

lemma step_replaysD:
  "step_replays op \<Longrightarrow> op s = (s1, r) \<Longrightarrow> later (fst s) (fst s1)"
  "step_replays op \<Longrightarrow> op s = (s1, Ok v) \<Longrightarrow> later (fst s1) (fst t) \<Longrightarrow> op t = (t1, r1) \<Longrightarrow>
     same (fst t) (fst t1) \<and> (r1 = Ok v \<or> (\<exists>e. r1 = Err e \<and> excused e))"
  unfolding step_replays_def by blast+

lemma step_replays_return: "step_replays (lc_return v)"
  by (simp add: step_replays_def lc_return_def later_refl same_refl)

lemma step_replays_check: "step_replays (lc_check c)"
  by (simp add: step_replays_def lc_check_def later_refl same_refl split: option.splits)

lemma step_replays_sink: "step_replays (on_sink call)"
  by (auto simp: step_replays_def on_sink_def excused_def later_refl same_refl split: prod.splits sum.splits)

lemma step_replays_forge:
  assumes "replays later same call"
  shows "step_replays (on_forge call)"
  unfolding step_replays_def
proof (intro allI impI conjI)
  fix s s1 :: "'f \<times> 'w" and r :: "lc_error + 'a" assume r: "on_forge call s = (s1, r)"
  obtain f1 x where c: "call (fst s) = (f1, x)" by fastforce
  then have s1: "fst s1 = f1" using r by (auto simp: on_forge_def split: sum.splits)
  show "later (fst s) (fst s1)" using replaysD(1) [OF assms c] s1 by simp
  fix v t t1 r1 assume v: "r = Ok v" and later: "later (fst s1) (fst t)" and again: "on_forge call t = (t1, r1)"
  obtain g1 y where d: "call (fst t) = (g1, y)" by fastforce
  have "call (fst s) = (f1, Ok v)" using c r v by (auto simp: on_forge_def split: sum.splits)
  from replaysD(2) [OF assms this later [unfolded s1] d]
  have "same (fst t) g1 \<and> (y = Ok v \<or> (\<exists>e. y = Err (FgContext e)))" by blast
  then show "same (fst t) (fst t1)" "r1 = Ok v \<or> (\<exists>e. r1 = Err e \<and> excused e)"
    using again d by (auto simp: on_forge_def excused_def)
qed

lemma step_replays_bind:
  assumes op: "step_replays op" and k: "\<And>v. step_replays (k v)"
  shows "step_replays (lc_bind op k)"
  unfolding step_replays_def
proof (intro allI impI)
  fix s s2 r assume run: "lc_bind op k s = (s2, r)"
  obtain s1 x where c: "op s = (s1, x)" by fastforce
  note l1 = step_replaysD(1) [OF op c]
  show "later (fst s) (fst s2) \<and> (\<forall>v. r = Ok v \<longrightarrow> (\<forall>t t2 r1. later (fst s2) (fst t) \<longrightarrow> lc_bind op k t = (t2, r1) \<longrightarrow>
        same (fst t) (fst t2) \<and> (r1 = Ok v \<or> (\<exists>e. r1 = Err e \<and> excused e))))"
  proof (cases x)
    case (Inl e)
    then show ?thesis using run c l1 by (simp add: lc_bind_def) blast
  next
    case (Inr u)
    then have c2: "k u s1 = (s2, r)" using run c by (simp add: lc_bind_def)
    note l2 = step_replaysD(1) [OF k c2]
    have "same (fst t) (fst t2) \<and> (r1 = Ok v \<or> (\<exists>e. r1 = Err e \<and> excused e))"
      if v: "r = Ok v" and later: "later (fst s2) (fst t)" and again: "lc_bind op k t = (t2, r1)" for v t t2 r1
    proof -
      obtain t1 y where d: "op t = (t1, y)" by fastforce
      from step_replaysD(2) [OF op c [unfolded Inr] later_trans [OF l2 later] d]
      have s1: "same (fst t) (fst t1)" and y: "y = Ok u \<or> (\<exists>e. y = Err e \<and> excused e)" by blast+
      from y show ?thesis
      proof
        assume y: "y = Ok u"
        then have "k u t1 = (t2, r1)" using again d by (simp add: lc_bind_def)
        from step_replaysD(2) [OF k c2 [unfolded v] later_trans [OF later step_replaysD(1) [OF op d]] this]
        show ?thesis using same_trans [OF s1] by blast
      next
        assume "\<exists>e. y = Err e \<and> excused e"
        then show ?thesis using again d s1 by (auto simp: lc_bind_def)
      qed
    qed
    then show ?thesis using later_trans [OF l1 l2] by blast
  qed
qed

lemma start_phase_replays:
  assumes F: "mg_forge M = F"
  shows "step_replays (StartPhase M spec)"
proof -
  have sync: "step_replays (lc_syncIssue M issue)" for issue
    by (auto simp: lc_syncIssue_def step_replays_return step_replays_sink split: option.splits)
  show ?thesis
    unfolding StartPhase_def Let_def CreateTrackingIssue_def create_and_sync_def F
    by (intro step_replays_bind step_replays_check step_replays_return step_replays_forge sync
        repository_replays branch_replays milestone_replays issue_replays pull_replays)
qed

end

section \<open>The fake replays\<close>

definition fake_later :: "Fake \<Rightarrow> Fake \<Rightarrow> bool" where
  "fake_later f g \<longleftrightarrow> (\<forall>k x. fmlookup (fk_idem f) k = Some x \<longrightarrow> fmlookup (fk_idem g) k = Some x)
     \<and> (\<forall>r. fmlookup (fk_repos f) r \<noteq> None \<longrightarrow> fmlookup (fk_repos g) r \<noteq> None)"

text \<open>The objects of a forge: everything but its clock, context, failures and audit log.\<close>

definition fake_same :: "Fake \<Rightarrow> Fake \<Rightarrow> bool" where
  "fake_same f g \<longleftrightarrow> fk_repos g = fk_repos f \<and> fk_branches g = fk_branches f \<and> fk_milestones g = fk_milestones f
     \<and> fk_issues g = fk_issues f \<and> fk_pulls g = fk_pulls f \<and> fk_checkpoints g = fk_checkpoints f
     \<and> fk_releases g = fk_releases f \<and> fk_audits g = fk_audits f \<and> fk_counters g = fk_counters f \<and> fk_idem g = fk_idem f"

lemma fake_same_later: "fake_same f g \<Longrightarrow> fake_later f g"
  by (simp add: fake_same_def fake_later_def)

lemma fake_later_trans: "fake_later f g \<Longrightarrow> fake_later g h \<Longrightarrow> fake_later f h"
  by (simp add: fake_later_def)

lemma fake_same_refl [simp]: "fake_same f f"
  by (simp add: fake_same_def)

lemma fake_same_trans: "fake_same f g \<Longrightarrow> fake_same g h \<Longrightarrow> fake_same f h"
  by (simp add: fake_same_def)

lemma fake_same_ctx: "ctx_err f = (g, e) \<Longrightarrow> fake_same f g"
  by (auto simp: ctx_err_def fake_same_def split: list.splits)

lemma fake_same_fail: "maybeFail operation f = (g, e) \<Longrightarrow> fake_same f g"
  by (auto simp: maybeFail_def fake_same_def split: option.splits if_splits)

lemma fake_same_record [simp]: "fake_same f (fake_record operation key r t fs g) \<longleftrightarrow> fake_same f g"
  by (simp add: fake_record_def clock_now_def fake_same_def)

lemma fake_record_fields [simp]:
  "fk_idem (fake_record operation key r t fs f) = fk_idem f" "fk_repos (fake_record operation key r t fs f) = fk_repos f"
  "fk_pulls (fake_record operation key r t fs f) = fk_pulls f" "fk_ctx (fake_record operation key r t fs f) = fk_ctx f"
  by (simp_all add: fake_record_def clock_now_def)

lemma next_count_fields:
  "next_count k f = (g, n) \<Longrightarrow> fk_idem g = fk_idem f \<and> fk_repos g = fk_repos f \<and> fk_pulls g = fk_pulls f"
  by (auto simp: next_count_def Let_def)

lemma default_id_fields:
  "default_id prefix i f = (g, n) \<Longrightarrow> fk_idem g = fk_idem f \<and> fk_repos g = fk_repos f \<and> fk_pulls g = fk_pulls f"
  using next_count_fields [of prefix f] by (auto simp: default_id_def nextID_def split: if_splits prod.splits)

lemma default_time_fields:
  "default_time t f = (g, n) \<Longrightarrow> fk_idem g = fk_idem f \<and> fk_repos g = fk_repos f \<and> fk_pulls g = fk_pulls f"
  by (auto simp: default_time_def clock_now_def split: if_splits)

text \<open>What the making of an object owes: it enters under its key, nothing is lost.\<close>

definition makes :: "string \<Rightarrow> (forge_obj \<Rightarrow> 'a option) \<Rightarrow> (Fake \<Rightarrow> Fake \<times> 'a) \<Rightarrow> bool" where
  "makes key as create \<longleftrightarrow> (\<forall>f g v. fmlookup (fk_idem f) key = None \<longrightarrow> create f = (g, v) \<longrightarrow>
     fake_later f g \<and> (\<exists>x. fmlookup (fk_idem g) key = Some x \<and> as x = Some v))"

lemma replay_or_later:
  assumes "makes key as create" and "replay_or operation key as ro tg create f = (g, r)"
  shows "fake_later f g \<and> (\<forall>v. r = Ok v \<longrightarrow> (\<exists>x. fmlookup (fk_idem g) key = Some x \<and> as x = Some v))"
proof (cases "fmlookup (fk_idem f) key")
  case (Some x)
  have "fake_same f g" using assms(2) Some by (auto simp: replay_or_def split: option.splits)
  then show ?thesis using assms(2) Some fake_same_later by (auto simp: replay_or_def split: option.splits)
next
  case None
  obtain f1 e where m: "maybeFail operation f = (f1, e)" by fastforce
  note s = fake_same_fail [OF m]
  show ?thesis
  proof (cases e)
    case (Some e1)
    then show ?thesis using assms(2) None m fake_same_later [OF s] by (auto simp: replay_or_def)
  next
    case no: None
    obtain f2 v where c: "create f1 = (f2, v)" by fastforce
    have "fmlookup (fk_idem f1) key = None" using None s by (simp add: fake_same_def)
    then have "fake_later f1 f2 \<and> (\<exists>x. fmlookup (fk_idem f2) key = Some x \<and> as x = Some v)"
      using assms(1) c unfolding makes_def by blast
    then show ?thesis using assms(2) None m no c fake_later_trans [OF fake_same_later [OF s]] by (auto simp: replay_or_def)
  qed
qed

lemma fake_replays:
  assumes "makes key as create"
  shows "replays fake_later fake_same (checked repo invalid (replay_or operation key as ro tg create))"
  unfolding replays_def
proof (intro allI impI conjI)
  fix f f2 r assume run: "checked repo invalid (replay_or operation key as ro tg create) f = (f2, r)"
  obtain f1 e where c: "ctx_err f = (f1, e)" by fastforce
  note s = fake_same_ctx [OF c]
  obtain f3 r3 where body: "replay_or operation key as ro tg create f1 = (f3, r3)" by fastforce
  note l = replay_or_later [OF assms body]
  have cases: "(f2 = f1 \<and> \<not> is_Ok r) \<or> (f2 = f3 \<and> r = r3 \<and> invalid = None \<and> (\<forall>rid. repo = Some rid \<longrightarrow> fmlookup (fk_repos f1) rid \<noteq> None))"
    using run c body by (auto simp: checked_def split: option.splits if_splits)
  then show "fake_later f f2" using fake_same_later [OF s] fake_later_trans [OF fake_same_later [OF s]] l by auto
  fix v g g2 r2 assume v: "r = Ok v" and later: "fake_later f2 g"
    and again: "checked repo invalid (replay_or operation key as ro tg create) g = (g2, r2)"
  obtain x where x: "fmlookup (fk_idem f3) key = Some x" "as x = Some v" and f2: "f2 = f3" and ok: "invalid = None"
    and repo: "\<forall>rid. repo = Some rid \<longrightarrow> fmlookup (fk_repos f1) rid \<noteq> None"
    using cases v l by auto
  obtain g1 e1 where d: "ctx_err g = (g1, e1)" by fastforce
  note t = fake_same_ctx [OF d]
  have idem: "fmlookup (fk_idem g1) key = Some x" using later x(1) t f2 by (auto simp: fake_later_def fake_same_def)
  have known: "repo = Some rid \<Longrightarrow> fmlookup (fk_repos g1) rid \<noteq> None" for rid
    using repo l later f2 t unfolding fake_later_def fake_same_def by metis
  have "(g2 = g1 \<and> (\<exists>x. r2 = Err (FgContext x))) \<or> (fake_same g1 g2 \<and> r2 = Ok v)"
    using again d known idem x(2) ok
    by (cases e1; cases repo) (auto simp: checked_def replay_or_def split: if_splits)
  then show "fake_same g g2" "r2 = Ok v \<or> (\<exists>e. r2 = Err (FgContext e))" using t fake_same_trans by auto
qed

lemma fake_later_update:
  "fmlookup (fk_idem f) key = None \<Longrightarrow> fk_idem g = fmupd key x (fk_idem f) \<Longrightarrow>
     (\<And>r. fmlookup (fk_repos f) r \<noteq> None \<Longrightarrow> fmlookup (fk_repos g) r \<noteq> None) \<Longrightarrow> fake_later f g"
  by (auto simp: fake_later_def)

lemma CreateRepository_replays: "replays fake_later fake_same (CreateRepository r)"
  unfolding CreateRepository_def Let_def
  by (rule fake_replays) (auto simp: makes_def Let_def fake_later_def dest!: default_id_fields split: prod.splits)

lemma CreateBranch_replays: "replays fake_later fake_same (CreateBranch rid b)"
  unfolding CreateBranch_def Let_def
  by (rule fake_replays) (auto simp: makes_def Let_def fake_later_def)

lemma CreateMilestone_replays: "replays fake_later fake_same (CreateMilestone rid m)"
  unfolding CreateMilestone_def Let_def
  by (rule fake_replays) (auto simp: makes_def Let_def fake_later_def dest!: default_id_fields split: prod.splits)

lemma CreateIssue_replays: "replays fake_later fake_same (CreateIssue rid i)"
  unfolding CreateIssue_def Let_def nextNumber_def
  by (rule fake_replays) (auto simp: makes_def Let_def fake_later_def dest!: default_id_fields next_count_fields split: prod.splits if_splits)

lemma OpenPullRequest_replays: "replays fake_later fake_same (OpenPullRequest rid p)"
  unfolding OpenPullRequest_def Let_def nextPRNumber_def
  by (rule fake_replays) (auto simp: makes_def Let_def fake_later_def dest!: default_id_fields next_count_fields split: prod.splits if_splits)

interpretation fake: phase_forge fake_api fake_later fake_same
proof
  show "fake_later f f" for f by (simp add: fake_later_def)
  show "fake_later f g \<Longrightarrow> fake_later g h \<Longrightarrow> fake_later f h" for f g h by (rule fake_later_trans)
  show "fake_same f f" for f by simp
  show "fake_same f g \<Longrightarrow> fake_same g h \<Longrightarrow> fake_same f h" for f g h by (rule fake_same_trans)
qed (simp_all add: fake_api_def CreateRepository_replays CreateBranch_replays CreateMilestone_replays CreateIssue_replays
    OpenPullRequest_replays)

section \<open>Histories of the fake\<close>

datatype fake_op =
    OpContext "string option list"  \<comment> \<open>what the contexts of the next calls answer\<close>
  | OpInject string int "forge_error option"
  | OpRepository Repository
  | OpBranch string Branch
  | OpMilestone string Milestone
  | OpIssue string ForgeIssue
  | OpUpdateIssue string ForgeIssue
  | OpPull string PullRequest
  | OpUpdatePull string PullRequest
  | OpMerge string int MergeApproval
  | OpCheckpoint string Checkpoint
  | OpRelease string Release
  | OpAudit string Audit

fun fake_step :: "fake_op \<Rightarrow> Fake \<Rightarrow> Fake" where
  "fake_step (OpContext es) f = f\<lparr>fk_ctx := es\<rparr>"
| "fake_step (OpInject operation n e) f = Inject operation n e f"
| "fake_step (OpRepository r) f = fst (CreateRepository r f)"
| "fake_step (OpBranch rid b) f = fst (CreateBranch rid b f)"
| "fake_step (OpMilestone rid m) f = fst (CreateMilestone rid m f)"
| "fake_step (OpIssue rid i) f = fst (CreateIssue rid i f)"
| "fake_step (OpUpdateIssue rid i) f = fst (UpdateIssue rid i f)"
| "fake_step (OpPull rid p) f = fst (OpenPullRequest rid p f)"
| "fake_step (OpUpdatePull rid p) f = fst (UpdatePullRequest rid p f)"
| "fake_step (OpMerge rid n a) f = fst (MergePullRequest rid n a f)"
| "fake_step (OpCheckpoint rid c) f = fst (CreateCheckpoint rid c f)"
| "fake_step (OpRelease rid r) f = fst (CreateRelease rid r f)"
| "fake_step (OpAudit rid a) f = fst (RecordAudit rid a f)"

definition fake_run :: "fake_op list \<Rightarrow> Fake \<Rightarrow> Fake" where "fake_run ops f = fold fake_step ops f"

lemma CreateCheckpoint_replays: "replays fake_later fake_same (CreateCheckpoint rid c)"
  unfolding CreateCheckpoint_def Let_def
  by (rule fake_replays)
     (auto simp: makes_def Let_def fake_later_def dest!: default_id_fields default_time_fields split: prod.splits)

lemma CreateRelease_replays: "replays fake_later fake_same (CreateRelease rid c)"
  unfolding CreateRelease_def Let_def
  by (rule fake_replays)
     (auto simp: makes_def Let_def fake_later_def dest!: default_id_fields default_time_fields split: prod.splits)

lemma RecordAudit_replays: "replays fake_later fake_same (RecordAudit rid c)"
  unfolding RecordAudit_def Let_def
  by (rule fake_replays)
     (auto simp: makes_def Let_def fake_later_def dest!: default_id_fields default_time_fields split: prod.splits)

lemmas creating_replays = CreateRepository_replays CreateBranch_replays CreateMilestone_replays CreateIssue_replays
  OpenPullRequest_replays CreateCheckpoint_replays CreateRelease_replays RecordAudit_replays

text \<open>The updating methods keep keys and repositories.\<close>

lemma checked_frame:
  assumes "\<And>g h r. body g = (h, r) \<Longrightarrow> fk_idem h = fk_idem g \<and> fk_repos h = fk_repos g"
    and "checked repo invalid body f = (f2, r)"
  shows "fk_idem f2 = fk_idem f \<and> fk_repos f2 = fk_repos f"
proof -
  obtain f1 e where c: "ctx_err f = (f1, e)" by fastforce
  obtain f3 r3 where b: "body f1 = (f3, r3)" by fastforce
  have "f2 = f1 \<or> f2 = f3" using assms(2) c b by (auto simp: checked_def split: option.splits if_splits)
  then show ?thesis using assms(1) [OF b] fake_same_ctx [OF c] by (auto simp: fake_same_def)
qed

lemma UpdateIssue_frame: "UpdateIssue rid i f = (g, r) \<Longrightarrow> fk_idem g = fk_idem f \<and> fk_repos g = fk_repos f"
  unfolding UpdateIssue_def by (erule checked_frame [rotated]) (auto simp: Let_def split: option.splits)

lemma UpdatePullRequest_frame: "UpdatePullRequest rid p f = (g, r) \<Longrightarrow> fk_idem g = fk_idem f \<and> fk_repos g = fk_repos f"
  unfolding UpdatePullRequest_def by (erule checked_frame [rotated]) (auto simp: Let_def split: option.splits if_splits)

lemma MergePullRequest_frame: "MergePullRequest rid n a f = (g, r) \<Longrightarrow> fk_idem g = fk_idem f \<and> fk_repos g = fk_repos f"
  unfolding MergePullRequest_def
  by (erule checked_frame [rotated])
     (auto simp: Let_def fake_same_def split: option.splits if_splits prod.splits dest!: fake_same_fail)

lemma later_frame: "fk_idem g = fk_idem f \<and> fk_repos g = fk_repos f \<Longrightarrow> fake_later f g"
  by (simp add: fake_later_def)

lemma fake_step_later: "fake_later f (fake_step op f)"
proof (cases op)
  case (OpUpdateIssue rid i)
  then show ?thesis using UpdateIssue_frame later_frame by (cases "UpdateIssue rid i f") auto
next
  case (OpUpdatePull rid p)
  then show ?thesis using UpdatePullRequest_frame later_frame by (cases "UpdatePullRequest rid p f") auto
next
  case (OpMerge rid n a)
  then show ?thesis using MergePullRequest_frame later_frame by (cases "MergePullRequest rid n a f") auto
qed (auto simp: Inject_def fake_later_def [of f "f\<lparr>fk_ctx := _\<rparr>"] fake_later_def [of f "f\<lparr>fk_failures := _\<rparr>"]
     intro: fake.replaysD(1) [OF creating_replays(1) prod.collapse [symmetric]]
       fake.replaysD(1) [OF creating_replays(2) prod.collapse [symmetric]]
       fake.replaysD(1) [OF creating_replays(3) prod.collapse [symmetric]]
       fake.replaysD(1) [OF creating_replays(4) prod.collapse [symmetric]]
       fake.replaysD(1) [OF creating_replays(5) prod.collapse [symmetric]]
       fake.replaysD(1) [OF creating_replays(6) prod.collapse [symmetric]]
       fake.replaysD(1) [OF creating_replays(7) prod.collapse [symmetric]]
       fake.replaysD(1) [OF creating_replays(8) prod.collapse [symmetric]])

lemma fake_run_later: "fake_later f (fake_run ops f)"
  unfolding fake_run_def
proof (induction ops arbitrary: f)
  case Nil
  show ?case by (simp add: fake_later_def)
next
  case (Cons op ops)
  then show ?case by (simp add: fake_later_trans [OF fake_step_later Cons.IH])
qed

text \<open>
  C24. Starting a phase again, after any other use of the forge in between, gives the same phase and creates no object;
  otherwise the context was done or the sink of the synchronization failed.
\<close>

theorem start_phase_idempotent:
  assumes "mg_forge M = fake_api"
    and "StartPhase M spec (f, w) = ((f1, w1), Ok phase)"
    and "StartPhase M spec (fake_run ops f1, v) = ((f2, v1), r)"
  shows "fake_same (fake_run ops f1) f2 \<and>
         (r = Ok phase \<or> (\<exists>e. r = Err (LcForge (FgContext e))) \<or> (\<exists>e. r = Err (LcSync e)))"
proof -
  from fake.step_replaysD(2) [OF fake.start_phase_replays [OF assms(1)] assms(2) _ assms(3)]
  show ?thesis using fake_run_later by (auto simp: fake.excused_def)
qed

definition ex_spec :: PhaseSpec where
  "ex_spec = \<lparr>sp_Repository = \<lparr>rp_ID = [], rp_Owner = ''o'', rp_Name = ''n'', rp_DefaultBranch = [], rp_Private = False,
     rp_Ref = Ref_zero\<rparr>, sp_Number = 3, sp_Scope = ''core'', sp_Objective = ''Go'', sp_Milestone = ''m''\<rparr>"

definition ex_manager :: "(Fake, unit) Manager" where
  "ex_manager = \<lparr>mg_forge = fake_api, mg_templates = None, mg_sync = None\<rparr>"

definition ex_started :: "(Fake \<times> unit) \<times> (lc_error + Phase)" where "ex_started = StartPhase ex_manager ex_spec (Fake_New, ())"

text \<open>Evaluating the fake on closed arguments.\<close>

lemma eval_texts:
  "itoa_int 1 = ''1''" "itoa_int 3 = ''3''" "PhaseBranch 3 ''core'' = ''ph3-core''" "ValidateScope ''core'' = None"
  "ValidateBranchName ''ph3-core'' = None"
  by code_simp+

lemmas fake_eval = eval_texts Key_def trim_space_ascii ascii_text_def Let_def lc_bind_def lc_check_def lc_return_def on_forge_def
  fake_api_def checked_def replay_or_def ctx_err_def Fake_New_def NewWithClock_def maybeFail_def default_id_def nextID_def
  next_count_def fm_getd_def fake_record_def clock_now_def inner_put_def inner_get_def nextNumber_def nextPRNumber_def
  Repository_Validate_def ForgeIssue_Validate_def PullRequest_Validate_def ValidatePhaseBranch_def CreateRepository_def
  CreateBranch_def CreateMilestone_def CreateIssue_def OpenPullRequest_def UpdatePullRequest_def Fake_PullRequest_def

lemma ex_started_ok: "is_Ok (snd ex_started)"
  by (simp add: ex_started_def StartPhase_def ex_manager_def ex_spec_def fake_eval CreateTrackingIssue_def create_and_sync_def
      new_issue_def new_pull_def render_def phase_title_def milestone_title_def phasePRBody_def lc_syncIssue_def)

theorem start_phase_idempotent_witness:
  "\<exists>f1 f2 phase r. ex_started = ((f1, ()), Ok phase) \<and>
     StartPhase ex_manager ex_spec (fake_run [OpMerge ''repo_1'' 1 \<lparr>ma_Actor = ''jo'', ma_Reason = [], ma_GrantedAt = 0\<rparr>] f1, ())
       = ((f2, ()), r) \<and>
     (r = Ok phase \<or> (\<exists>e. r = Err (LcForge (FgContext e))) \<or> (\<exists>e. r = Err (LcSync e)))"
proof -
  obtain f1 u x where start: "ex_started = ((f1, u), x)" by (metis surj_pair)
  then have "is_Ok x" using ex_started_ok by (metis snd_conv)
  then obtain phase where "x = Ok phase" by (cases x) auto
  then have first: "StartPhase ex_manager ex_spec (Fake_New, ()) = ((f1, ()), Ok phase)"
    using start unfolding ex_started_def by simp
  let ?ops = "[OpMerge ''repo_1'' 1 \<lparr>ma_Actor = ''jo'', ma_Reason = [], ma_GrantedAt = 0\<rparr>]"
  obtain f2 v r where second: "StartPhase ex_manager ex_spec (fake_run ?ops f1, ()) = ((f2, v), r)" by (metis surj_pair)
  from start_phase_idempotent [OF _ first second] first second
  show ?thesis by (auto simp: ex_started_def ex_manager_def)
qed

section \<open>The merge gate\<close>

lemma inner_get_put: "inner_get (inner_put r k v m) r' k' = (if r' = r \<and> k' = k then Some v else inner_get m r' k')"
  by (auto simp: inner_get_def inner_put_def fm_getd_def)

text \<open>What may make a pull request merged: an approved merge, or a state that the caller supplied.\<close>

fun may_merge :: "string \<Rightarrow> int \<Rightarrow> fake_op \<Rightarrow> bool" where
  "may_merge rid n (OpMerge rid1 n1 a) \<longleftrightarrow> rid1 = rid \<and> n1 = n \<and> ma_Actor a \<noteq> []"
| "may_merge rid n (OpPull rid1 p) \<longleftrightarrow> rid1 = rid \<and> pq_State p = ''merged''"
| "may_merge rid n (OpUpdatePull rid1 p) \<longleftrightarrow> rid1 = rid \<and> pq_Number p = n \<and> pq_State p = ''merged''"
| "may_merge rid n _ \<longleftrightarrow> False"

lemma may_merge_iff:
  "may_merge rid n op \<longleftrightarrow> (\<exists>a. op = OpMerge rid n a \<and> ma_Actor a \<noteq> []) \<or>
     (\<exists>q. op = OpPull rid q \<and> pq_State q = ''merged'') \<or>
     (\<exists>q. op = OpUpdatePull rid q \<and> pq_Number q = n \<and> pq_State q = ''merged'')"
  by (cases op) auto

lemma checked_pulls:
  assumes "\<And>g h r. body g = (h, r) \<Longrightarrow> P (fk_pulls g) (fk_pulls h)" and "\<And>m. P m m"
  shows "P (fk_pulls f) (fk_pulls (fst (checked repo invalid body f)))"
proof -
  obtain f1 e where c: "ctx_err f = (f1, e)" by fastforce
  obtain f3 r3 where b: "body f1 = (f3, r3)" by fastforce
  have "fst (checked repo invalid body f) = f1 \<or> fst (checked repo invalid body f) = f3"
    using c b by (auto simp: checked_def split: option.splits)
  then show ?thesis using assms(1) [OF b] assms(2) fake_same_ctx [OF c] by (auto simp: fake_same_def)
qed

lemma replay_or_pulls:
  assumes "replay_or operation key as ro tg create f = (g, r)"
    and "\<And>f g v. create f = (g, v) \<Longrightarrow> P (fk_pulls f) (fk_pulls g)" and "\<And>m. P m m"
  shows "P (fk_pulls f) (fk_pulls g)"
proof (cases "fmlookup (fk_idem f) key")
  case (Some x)
  then show ?thesis using assms(1,3) by (auto simp: replay_or_def split: option.splits)
next
  case None
  obtain f1 e where m: "maybeFail operation f = (f1, e)" by fastforce
  note s = fake_same_fail [OF m]
  have "create f1 = (g, v) \<Longrightarrow> P (fk_pulls f) (fk_pulls g)" for v
    using assms(2) [of f1 g v] s by (simp add: fake_same_def)
  moreover have "P (fk_pulls f) (fk_pulls f1)" using assms(3) s by (simp add: fake_same_def)
  ultimately show ?thesis using assms(1) None m
    by (cases e) (auto simp: replay_or_def split: prod.splits)
qed

text \<open>Creating anything but a pull request leaves the pull requests alone.\<close>

lemma creating_pulls:
  "fk_pulls (fst (CreateRepository r f)) = fk_pulls f"
  "fk_pulls (fst (CreateBranch rid b f)) = fk_pulls f"
  "fk_pulls (fst (CreateMilestone rid m f)) = fk_pulls f"
  "fk_pulls (fst (CreateIssue rid i f)) = fk_pulls f"
  "fk_pulls (fst (CreateCheckpoint rid c f)) = fk_pulls f"
  "fk_pulls (fst (CreateRelease rid l f)) = fk_pulls f"
  "fk_pulls (fst (RecordAudit rid a f)) = fk_pulls f"
  unfolding CreateRepository_def CreateBranch_def CreateMilestone_def CreateIssue_def CreateCheckpoint_def
    CreateRelease_def RecordAudit_def Let_def nextNumber_def
  by (rule checked_pulls [where P = "\<lambda>a b. b = a"], erule replay_or_pulls [where P = "\<lambda>a b. b = a"],
      auto simp: Let_def dest!: default_id_fields default_time_fields next_count_fields split: prod.splits if_splits)+

lemma UpdateIssue_pulls: "fk_pulls (fst (UpdateIssue rid i f)) = fk_pulls f"
  unfolding UpdateIssue_def
  by (rule checked_pulls [where P = "\<lambda>a b. b = a"]) (auto simp: Let_def split: option.splits)

definition merged_in :: "(string, (int, PullRequest) fmap) fmap \<Rightarrow> string \<Rightarrow> int \<Rightarrow> bool" where
  "merged_in m rid n \<longleftrightarrow> (\<exists>p. inner_get m rid n = Some p \<and> pq_State p = ''merged'')"

lemma merged_in_put:
  "merged_in (inner_put r k v m) rid n \<longleftrightarrow> (if rid = r \<and> n = k then pq_State v = ''merged'' else merged_in m rid n)"
  by (auto simp: merged_in_def inner_get_put)

lemma pull_step_merged:
  "merged_in (fk_pulls (fst (OpenPullRequest rid1 p f))) rid n \<Longrightarrow> merged_in (fk_pulls f) rid n \<or> may_merge rid n (OpPull rid1 p)"
  "merged_in (fk_pulls (fst (UpdatePullRequest rid1 p f))) rid n \<Longrightarrow>
     merged_in (fk_pulls f) rid n \<or> may_merge rid n (OpUpdatePull rid1 p)"
  "merged_in (fk_pulls (fst (MergePullRequest rid1 n1 a f))) rid n \<Longrightarrow>
     merged_in (fk_pulls f) rid n \<or> may_merge rid n (OpMerge rid1 n1 a)"
  unfolding OpenPullRequest_def UpdatePullRequest_def MergePullRequest_def Let_def nextPRNumber_def
  subgoal
    by (erule rev_mp, rule checked_pulls [where P = "\<lambda>u v. merged_in v rid n \<longrightarrow> merged_in u rid n \<or> may_merge rid n (OpPull rid1 p)"],
        erule replay_or_pulls [where P = "\<lambda>u v. merged_in v rid n \<longrightarrow> merged_in u rid n \<or> may_merge rid n (OpPull rid1 p)"])
       (auto simp: Let_def merged_in_put dest!: default_id_fields next_count_fields split: prod.splits if_splits)
  subgoal
    by (erule rev_mp, rule checked_pulls [where P = "\<lambda>u v. merged_in v rid n \<longrightarrow> merged_in u rid n \<or> may_merge rid n (OpUpdatePull rid1 p)"])
       (auto simp: Let_def merged_in_put split: option.splits if_splits)
  subgoal
    by (erule rev_mp, rule checked_pulls [where P = "\<lambda>u v. merged_in v rid n \<longrightarrow> merged_in u rid n \<or> may_merge rid n (OpMerge rid1 n1 a)"])
       (auto simp: Let_def merged_in_put fake_same_def MergeApproval_Validate_def dest!: fake_same_fail split: option.splits if_splits prod.splits)
  done

lemma fake_step_merged: "merged_in (fk_pulls (fake_step op f)) rid n \<Longrightarrow> merged_in (fk_pulls f) rid n \<or> may_merge rid n op"
  by (cases op) (auto simp: Inject_def creating_pulls UpdateIssue_pulls simp del: may_merge.simps dest: pull_step_merged)

lemma fake_run_merged: "merged_in (fk_pulls (fake_run ops f)) rid n \<Longrightarrow> merged_in (fk_pulls f) rid n \<or> (\<exists>op \<in> set ops. may_merge rid n op)"
  unfolding fake_run_def
proof (induction ops arbitrary: f)
  case (Cons op ops)
  then show ?case using fake_step_merged [of op f rid n] by fastforce
qed simp

text \<open>
  C23. A pull request of the fake is merged only by a merge with a named approver, or because the caller of
  OpenPullRequest or UpdatePullRequest supplied the state merged.
\<close>

theorem merge_gate:
  assumes "Fake_PullRequest (fake_run ops Fake_New) rid n = Some p" and "pq_State p = ''merged''"
  shows "(\<exists>a. OpMerge rid n a \<in> set ops \<and> ma_Actor a \<noteq> []) \<or>
         (\<exists>q. OpPull rid q \<in> set ops \<and> pq_State q = ''merged'') \<or>
         (\<exists>q. OpUpdatePull rid q \<in> set ops \<and> pq_Number q = n \<and> pq_State q = ''merged'')"
proof -
  have "merged_in (fk_pulls (fake_run ops Fake_New)) rid n"
    using assms by (simp add: merged_in_def Fake_PullRequest_def)
  moreover have "\<not> merged_in (fk_pulls Fake_New) rid n"
    by (simp add: merged_in_def inner_get_def Fake_New_def NewWithClock_def fm_getd_def)
  ultimately obtain op where "op \<in> set ops" "may_merge rid n op" using fake_run_merged by blast
  then show ?thesis unfolding may_merge_iff by blast
qed

definition ex_bypass :: "fake_op list" where
  "ex_bypass = [OpRepository (sp_Repository ex_spec), OpPull ''repo_1'' (new_pull ''t'' [] ''main'' ''b'' True),
     OpUpdatePull ''repo_1'' ((new_pull [] [] [] [] True)\<lparr>pq_Number := 1, pq_State := ''merged''\<rparr>)]"

theorem merge_gate_witness:
  "(\<forall>a. OpMerge ''repo_1'' 1 a \<notin> set ex_bypass) \<and>
   (\<exists>q. OpUpdatePull ''repo_1'' q \<in> set ex_bypass \<and> pq_Number q = 1 \<and> pq_State q = ''merged'')"
proof -
  have "map_option pq_State (Fake_PullRequest (fake_run ex_bypass Fake_New) ''repo_1'' 1) = Some ''merged''"
    by (simp add: ex_bypass_def fake_run_def ex_spec_def new_pull_def fake_eval bool_string_def)
  then obtain p where p: "Fake_PullRequest (fake_run ex_bypass Fake_New) ''repo_1'' 1 = Some p" "pq_State p = ''merged''" by auto
  from merge_gate [OF p] show ?thesis by (auto simp: ex_bypass_def new_pull_def)
qed

lemma Key_collision: "Key ''repository.create'' [''a:b'', ''c''] = Key ''repository.create'' [''a'', ''b:c'']"
  by (simp add: Key_def trim_space_ascii ascii_text_def)

end
