(* ===== verification/Registries.thy ===== *)
theory Registries
  imports JobLearn
begin

text \<open>
  \<open>registry\<close>: the stores of durable model, team, routine and policy specifications, the role vocabulary and the bundled
  model catalog. The four registries are written alike, so their operations are instances of one definition; a map of
  specifications never holds one under another id than its own.
\<close>

section \<open>Registries of specifications\<close>

datatype spec_error = SpecInvalid val_error | SpecDuplicate string

definition spec_Add ::
  "('s \<Rightarrow> val_error option) \<Rightarrow> ('s \<Rightarrow> string) \<Rightarrow> 's \<Rightarrow> (string, 's) fmap \<Rightarrow> spec_error + (string, 's) fmap" where
  "spec_Add check ident s r =
     (case check s of Some e \<Rightarrow> Err (SpecInvalid e)
      | None \<Rightarrow> if fmlookup r (ident s) \<noteq> None then Err (SpecDuplicate (ident s)) else Ok (fmupd (ident s) s r))"

definition spec_List :: "('s \<Rightarrow> string) \<Rightarrow> (string, 's) fmap \<Rightarrow> 's list" where
  "spec_List ident r = sort_key ident (fm_vals r)"

definition model_id :: "ModelSpec \<Rightarrow> string" where "model_id m = ev_ID (mo_Envelope m)"
definition team_id :: "TeamSpec \<Rightarrow> string" where "team_id t = ev_ID (te_Envelope t)"
definition routine_id :: "Routine \<Rightarrow> string" where "routine_id r = ev_ID (rn_Envelope r)"

type_synonym ModelRegistry = "(string, ModelSpec) fmap"
type_synonym TeamRegistry = "(string, TeamSpec) fmap"
type_synonym RoutineRegistry = "(string, Routine) fmap"

definition Models_New :: ModelRegistry where "Models_New = fmempty"
definition Models_Add :: "(string \<Rightarrow> time option) \<Rightarrow> ModelSpec \<Rightarrow> ModelRegistry \<Rightarrow> spec_error + ModelRegistry" where
  "Models_Add parse = spec_Add (ModelSpec_Validate parse) model_id"
definition Models_Get :: "ModelRegistry \<Rightarrow> string \<Rightarrow> ModelSpec option" where "Models_Get r k = fmlookup r k"
definition Models_List :: "ModelRegistry \<Rightarrow> ModelSpec list" where "Models_List r = spec_List model_id r"
definition Models_Count :: "ModelRegistry \<Rightarrow> int" where "Models_Count r = int (length (fm_keys r))"

definition Teams_New :: TeamRegistry where "Teams_New = fmempty"
definition Teams_Add :: "(string \<Rightarrow> time option) \<Rightarrow> TeamSpec \<Rightarrow> TeamRegistry \<Rightarrow> spec_error + TeamRegistry" where
  "Teams_Add parse = spec_Add (TeamSpec_Validate parse) team_id"
definition Teams_Get :: "TeamRegistry \<Rightarrow> string \<Rightarrow> TeamSpec option" where "Teams_Get r k = fmlookup r k"
definition Teams_List :: "TeamRegistry \<Rightarrow> TeamSpec list" where "Teams_List r = spec_List team_id r"
definition Teams_Count :: "TeamRegistry \<Rightarrow> int" where "Teams_Count r = int (length (fm_keys r))"

definition Routines_New :: RoutineRegistry where "Routines_New = fmempty"
definition Routines_Add :: "(string \<Rightarrow> time option) \<Rightarrow> Routine \<Rightarrow> RoutineRegistry \<Rightarrow> spec_error + RoutineRegistry" where
  "Routines_Add parse = spec_Add (Routine_Validate parse) routine_id"
definition Routines_Get :: "RoutineRegistry \<Rightarrow> string \<Rightarrow> Routine option" where "Routines_Get r k = fmlookup r k"
definition Routines_List :: "RoutineRegistry \<Rightarrow> Routine list" where "Routines_List r = spec_List routine_id r"
definition Routines_Count :: "RoutineRegistry \<Rightarrow> int" where "Routines_Count r = int (length (fm_keys r))"

record PolicySpec =
  ps_Envelope :: Envelope
  ps_Title :: string
  ps_PolicyKind :: string
  ps_Version :: string
  ps_Description :: string

definition policy_Kinds :: "string list" where "policy_Kinds = [''approval'', ''budget'', ''routing'', ''gate'']"

definition ValidKind :: "string \<Rightarrow> bool" where "ValidKind k \<longleftrightarrow> k \<in> set policy_Kinds"

definition PolicySpec_Validate :: "(string \<Rightarrow> time option) \<Rightarrow> PolicySpec \<Rightarrow> val_error option" where
  "PolicySpec_Validate parse p =
     first_some
      [header_check parse ''policy_definition'' (ps_Envelope p), required ''title'' (ps_Title p),
       if ValidKind (ps_PolicyKind p) then None else Some (EnumInvalid ''policyKind'' (ps_PolicyKind p)),
       required ''version'' (ps_Version p)]"

definition policy_id :: "PolicySpec \<Rightarrow> string" where "policy_id p = ev_ID (ps_Envelope p)"

type_synonym PolicyRegistry = "(string, PolicySpec) fmap"

definition Policies_New :: PolicyRegistry where "Policies_New = fmempty"
definition Policies_Add :: "(string \<Rightarrow> time option) \<Rightarrow> PolicySpec \<Rightarrow> PolicyRegistry \<Rightarrow> spec_error + PolicyRegistry" where
  "Policies_Add parse = spec_Add (PolicySpec_Validate parse) policy_id"
definition Policies_Get :: "PolicyRegistry \<Rightarrow> string \<Rightarrow> PolicySpec option" where "Policies_Get r k = fmlookup r k"
definition Policies_List :: "PolicyRegistry \<Rightarrow> PolicySpec list" where "Policies_List r = spec_List policy_id r"
definition Policies_Count :: "PolicyRegistry \<Rightarrow> int" where "Policies_Count r = int (length (fm_keys r))"

section \<open>Roles\<close>

definition KnownRoles :: "string list" where
  "KnownRoles = [''Construction Manager'', ''Architect'', ''Surveyor'', ''Archivist'', ''Planner'', ''Foreman'', ''Draftsman'',
     ''Builder'', ''General Contractor'', ''Inspector'', ''Safety Inspector'', ''Structural Engineer'', ''Adversarial Inspector'',
     ''Site Engineer'', ''Commissioner'']"

definition capabilityRole :: "string \<Rightarrow> string option" where
  "capabilityRole = map_of [(''read_project'', ''Surveyor''), (''write_workspace'', ''Builder''), (''execute_command'', ''Builder''),
     (''run_tests'', ''Inspector''), (''network_access'', ''Site Engineer''), (''install_dependencies'', ''Site Engineer''),
     (''call_model'', ''Builder''), (''read_secrets'', ''Commissioner''), (''create_artifact'', ''Builder''),
     (''open_pull_request'', ''General Contractor''), (''merge'', ''Commissioner''), (''deploy'', ''Commissioner'')]"

definition RolesFor :: "string list \<Rightarrow> string list" where
  "RolesFor cs = sort (remdups (List.map_filter capabilityRole cs))"

definition IsKnownRole :: "string \<Rightarrow> bool" where "IsKnownRole r \<longleftrightarrow> r \<in> set KnownRoles"

section \<open>The bundled models\<close>

record ModelCost =
  ct_InputPer1M :: go_float
  ct_OutputPer1M :: go_float

definition catalog_spec :: "FloatOps \<Rightarrow> string \<Rightarrow> string \<Rightarrow> int \<Rightarrow> bool \<Rightarrow> string list \<Rightarrow> ModelCost option \<Rightarrow> ModelSpec" where
  "catalog_spec F provider identifier window tools caps cost =
     \<lparr>mo_Envelope = \<lparr>ev_ContractVersion = ''2.0'', ev_Kind = ''model_spec'', ev_ID = ''mdl_'' @ provider @ ''_'' @ identifier,
        ev_ProjectID = [], ev_CreatedAt = [], ev_Revision = None, ev_Provenance = None\<rparr>,
      mo_Provider = provider, mo_Identifier = identifier, mo_ModelVersion = ''catalog'', mo_Capabilities = caps,
      mo_ContextWindow = window, mo_ToolUse = tools, mo_Locality = (if cost = None then ''local'' else ''cloud''),
      mo_Available = True, mo_CostPer1KInput = map_option (\<lambda>c. fa_div F (ct_InputPer1M c) (Finite 1000)) cost,
      mo_CostPer1KOut = map_option (\<lambda>c. fa_div F (ct_OutputPer1M c) (Finite 1000)) cost, mo_LatencyMS = 0\<rparr>"

definition per_million :: "FloatOps \<Rightarrow> rat \<Rightarrow> rat \<Rightarrow> ModelCost option" where
  "per_million F i x = Some \<lparr>ct_InputPer1M = fa_lit F i, ct_OutputPer1M = fa_lit F x\<rparr>"

definition DefaultCatalog :: "FloatOps \<Rightarrow> ModelSpec list" where
  "DefaultCatalog F =
     [catalog_spec F ''ollama'' ''qwen3.5:9b'' 131072 True [''general'', ''coding'', ''tool_use'', ''structured_output'', ''agentic''] None,
      catalog_spec F ''ollama'' ''qwen3.5:4b'' 131072 True [''general'', ''coding'', ''tool_use''] None,
      catalog_spec F ''ollama'' ''qwen2.5-coder:7b'' 32768 False [''coding'', ''general''] None,
      catalog_spec F ''ollama'' ''llama3.1:8b'' 131072 True [''general'', ''tool_use''] None,
      catalog_spec F ''ollama'' ''mistral-nemo:12b'' 131072 False [''general'', ''reasoning''] None,
      catalog_spec F ''ollama'' ''qwen3.5:32b'' 131072 True [''general'', ''coding'', ''reasoning'', ''tool_use''] None,
      catalog_spec F ''ollama'' ''deepseek-coder-v2:16b'' 131072 False [''coding'', ''general''] None,
      catalog_spec F ''deepseek'' ''deepseek-chat'' 131072 True
        [''general'', ''coding'', ''tool_use'', ''structured_output'', ''agentic'', ''long_context''] (per_million F (14 / 100) (28 / 100)),
      catalog_spec F ''deepseek'' ''deepseek-reasoner'' 131072 False
        [''general'', ''coding'', ''reasoning'', ''structured_output'', ''long_context''] (per_million F (55 / 100) (219 / 100)),
      catalog_spec F ''openai-compatible'' ''gpt-4o-mini'' 131072 True
        [''general'', ''coding'', ''tool_use'', ''structured_output'', ''vision''] (per_million F (15 / 100) (60 / 100))]"

fun Models_Add_all :: "(string \<Rightarrow> time option) \<Rightarrow> ModelSpec list \<Rightarrow> ModelRegistry \<Rightarrow> spec_error + ModelRegistry" where
  "Models_Add_all parse [] r = Ok r"
| "Models_Add_all parse (m # ms) r = (case Models_Add parse m r of Inl e \<Rightarrow> Err e | Inr r1 \<Rightarrow> Models_Add_all parse ms r1)"

definition NewDefaultRegistry :: "FloatOps \<Rightarrow> (string \<Rightarrow> time option) \<Rightarrow> spec_error + ModelRegistry" where
  "NewDefaultRegistry F parse = Models_Add_all parse (DefaultCatalog F) Models_New"

section \<open>The contract of a registry\<close>

text \<open>What the registries share: a specification is added exactly when it is valid and its id is free, and is then found.\<close>

locale spec_registry =
  fixes add :: "'s \<Rightarrow> 'r \<Rightarrow> spec_error + 'r" and get :: "'r \<Rightarrow> string \<Rightarrow> 's option" and listing :: "'r \<Rightarrow> 's list" and fresh :: 'r
    and check :: "'s \<Rightarrow> val_error option" and ident :: "'s \<Rightarrow> string"
  assumes get_fresh: "get fresh k = None"
    and add_succeeds: "is_Ok (add s r) \<longleftrightarrow> check s = None \<and> get r (ident s) = None"
    and get_add: "add s r = Ok r1 \<Longrightarrow> get r1 k = (if k = ident s then Some s else get r k)"
    and listing_sorted: "sorted (map ident (listing r))"
    and listing_set: "(\<And>k s. get r k = Some s \<Longrightarrow> ident s = k) \<Longrightarrow>
      set (listing r) = {s. \<exists>k. get r k = Some s} \<and> distinct (map ident (listing r))"

text \<open>Specifications offered one after the other; a refused one changes nothing.\<close>

fun offer_all :: "('s \<Rightarrow> 'r \<Rightarrow> 'e + 'r) \<Rightarrow> 's list \<Rightarrow> 'r \<Rightarrow> 'r" where
  "offer_all add [] r = r"
| "offer_all add (s # ss) r = offer_all add ss (case add s r of Inl e \<Rightarrow> r | Inr r1 \<Rightarrow> r1)"

context spec_registry
begin

lemma offered_from:
  "get (offer_all add ss r) k = (case get r k of Some s \<Rightarrow> Some s | None \<Rightarrow> List.find (\<lambda>s. check s = None \<and> ident s = k) ss)"
proof (induction ss arbitrary: r)
  case (Cons s ss)
  show ?case
  proof (cases "add s r")
    case (Inl e)
    then have "check s \<noteq> None \<or> get r (ident s) \<noteq> None" using add_succeeds [of s r] by simp
    then show ?thesis using Cons.IH [of r] Inl by (auto split: option.splits)
  next
    case (Inr r1)
    then have "check s = None" "get r (ident s) = None" using add_succeeds [of s r] by simp_all
    then show ?thesis using Cons.IH [of r1] Inr get_add [OF Inr, of k] by (auto split: option.splits)
  qed
qed (simp split: option.split)

text \<open>The first valid specification of an id wins; all that is listed is valid, once per id, in the order of the ids.\<close>

lemma offered:
  "get (offer_all add ss fresh) k = List.find (\<lambda>s. check s = None \<and> ident s = k) ss"
  by (simp add: offered_from get_fresh)

lemma offered_listing:
  "set (listing (offer_all add ss fresh)) = {s. \<exists>k. List.find (\<lambda>s. check s = None \<and> ident s = k) ss = Some s} \<and>
   distinct (map ident (listing (offer_all add ss fresh))) \<and> sorted (map ident (listing (offer_all add ss fresh)))"
proof -
  let ?r = "offer_all add ss fresh"
  have own: "ident s = k" if "get ?r k = Some s" for k s
    using that by (auto simp: offered find_Some_iff)
  have "set (listing ?r) = {s. \<exists>k. get ?r k = Some s} \<and> distinct (map ident (listing ?r))" by (rule listing_set) (rule own)
  then show ?thesis using listing_sorted unfolding offered by blast
qed

end

lemma spec_listing:
  assumes "\<And>k s. fmlookup r k = Some s \<Longrightarrow> ident s = k"
  shows "set (spec_List ident r) = {s. \<exists>k. fmlookup r k = Some s} \<and> distinct (map ident (spec_List ident r))"
proof -
  have "map ident (fm_vals r) = fm_keys r" using assms by (rule fm_vals_keys)
  then have "distinct (map ident (fm_vals r))" by simp
  moreover have "mset (map ident (spec_List ident r)) = mset (map ident (fm_vals r))" by (simp add: spec_List_def)
  ultimately have "distinct (map ident (spec_List ident r))" by (metis mset_eq_imp_distinct_iff)
  then show ?thesis by (simp add: spec_List_def set_fm_vals)
qed

lemma spec_add_succeeds: "is_Ok (spec_Add check ident s r) \<longleftrightarrow> check s = None \<and> fmlookup r (ident s) = None"
  by (auto simp: spec_Add_def split: option.splits)

lemma spec_get_add: "spec_Add check ident s r = Ok r1 \<Longrightarrow> fmlookup r1 k = (if k = ident s then Some s else fmlookup r k)"
  by (auto simp: spec_Add_def split: option.splits if_splits)

lemmas registry_ops = Models_New_def Models_Add_def Models_Get_def Models_List_def Teams_New_def Teams_Add_def Teams_Get_def
  Teams_List_def Routines_New_def Routines_Add_def Routines_Get_def Routines_List_def Policies_New_def Policies_Add_def
  Policies_Get_def Policies_List_def

lemmas registry_laws = spec_add_succeeds spec_get_add spec_listing

interpretation models: spec_registry "Models_Add parse" Models_Get Models_List Models_New "ModelSpec_Validate parse" model_id
  by unfold_locales (simp_all add: registry_ops registry_laws, simp add: spec_List_def)

interpretation teams: spec_registry "Teams_Add parse" Teams_Get Teams_List Teams_New "TeamSpec_Validate parse" team_id
  by unfold_locales (simp_all add: registry_ops registry_laws, simp add: spec_List_def)

interpretation routines: spec_registry "Routines_Add parse" Routines_Get Routines_List Routines_New "Routine_Validate parse" routine_id
  by unfold_locales (simp_all add: registry_ops registry_laws, simp add: spec_List_def)

interpretation policies: spec_registry "Policies_Add parse" Policies_Get Policies_List Policies_New "PolicySpec_Validate parse" policy_id
  by unfold_locales (simp_all add: registry_ops registry_laws, simp add: spec_List_def)

end
