(* ===== verification/JobGate.thy ===== *)
theory JobGate
  imports JobLearn
begin

text \<open>
  \<open>kernel/joblearn/gate\<close>: the registry that enables a learned capability only on evidence, and \<open>route\<close>: learned
  routing as a hint under that registry.
\<close>

section \<open>Evidence gates\<close>

record Evidence =
  ge_Outcomes :: int
  ge_Baseline :: bool
  ge_Improvement :: go_float
  ge_Fallback :: bool
  ge_NoGateBypass :: bool

definition Evidence_zero :: Evidence where
  "Evidence_zero = \<lparr>ge_Outcomes = 0, ge_Baseline = False, ge_Improvement = Finite 0, ge_Fallback = False, ge_NoGateBypass = False\<rparr>"

record Decision =
  gd_Capability :: string
  gd_State :: capability_state
  gd_Policy :: GatePolicy
  gd_Evidence :: Evidence
  gd_Reasons :: "string list"

record GateRegistry =
  gr_policies :: "(string, GatePolicy) fmap"
  gr_decisions :: "(string, Decision) fmap"

definition KnownCapabilities :: "string list" where
  "KnownCapabilities = [''conflict'', ''estimator'', ''learned_routing'', ''recommender'', ''retrospective'', ''similarity'']"

definition disabled_decision :: "string \<Rightarrow> GatePolicy \<Rightarrow> Decision" where
  "disabled_decision c p =
     \<lparr>gd_Capability = c, gd_State = CapabilityDisabled, gd_Policy = p, gd_Evidence = Evidence_zero, gd_Reasons = []\<rparr>"

definition register_policy :: "GatePolicy \<Rightarrow> string \<Rightarrow> GateRegistry \<Rightarrow> GateRegistry" where
  "register_policy p c g =
     g\<lparr>gr_policies := fmupd c p (gr_policies g), gr_decisions := fmupd c (disabled_decision c p) (gr_decisions g)\<rparr>"

definition GateRegistry_New :: "GatePolicy \<Rightarrow> learn_error + GateRegistry" where
  "GateRegistry_New p =
     (case GatePolicy_Validate p of Some e \<Rightarrow> Err e
      | None \<Rightarrow> Ok (fold (register_policy p) KnownCapabilities \<lparr>gr_policies = fmempty, gr_decisions = fmempty\<rparr>))"

definition SetPolicy :: "string \<Rightarrow> GatePolicy \<Rightarrow> GateRegistry \<Rightarrow> GateRegistry \<times> learn_error option" where
  "SetPolicy c p g =
     (if fmlookup (gr_policies g) c = None then (g, Some (JlNotFound c))
      else (case GatePolicy_Validate p of Some e \<Rightarrow> (g, Some e) | None \<Rightarrow> (register_policy p c g, None)))"

definition Policy :: "GateRegistry \<Rightarrow> string \<Rightarrow> GatePolicy option" where "Policy g c = fmlookup (gr_policies g) c"

definition gate_reasons :: "FloatOps \<Rightarrow> GatePolicy \<Rightarrow> Evidence \<Rightarrow> string list" where
  "gate_reasons F p e =
     (if ge_Outcomes e < gp_MinOutcomes p
      then [''insufficient outcomes: '' @ itoa_int (ge_Outcomes e) @ '' < '' @ itoa_int (gp_MinOutcomes p)] else [])
     @ (if gp_RequireBaseline p \<and> \<not> ge_Baseline e then [''no deterministic baseline''] else [])
     @ (if float_lt (Finite 0) (gp_MinImprovement p) \<and> float_lt (ge_Improvement e) (gp_MinImprovement p)
        then [''improvement '' @ fa_fixed F 3 (ge_Improvement e) @ '' < required '' @ fa_fixed F 3 (gp_MinImprovement p)] else [])
     @ (if gp_RequireFallback p \<and> \<not> ge_Fallback e then [''no deterministic fallback''] else [])
     @ (if gp_RequireNoGateBypass p \<and> \<not> ge_NoGateBypass e then [''would bypass a gate or execution contract''] else [])"

definition gate_Evaluate :: "FloatOps \<Rightarrow> string \<Rightarrow> Evidence \<Rightarrow> GateRegistry \<Rightarrow> GateRegistry \<times> (learn_error + Decision)" where
  "gate_Evaluate F c e g =
     (case fmlookup (gr_policies g) c of None \<Rightarrow> (g, Err (JlNotFound c))
      | Some p \<Rightarrow>
          (let rs = gate_reasons F p e;
               d = \<lparr>gd_Capability = c, gd_State = (if rs = [] then CapabilityEnabled else CapabilityDisabled), gd_Policy = p,
                    gd_Evidence = e, gd_Reasons = rs\<rparr>
           in (g\<lparr>gr_decisions := fmupd c d (gr_decisions g)\<rparr>, Ok d)))"

definition gate_State :: "GateRegistry \<Rightarrow> string \<Rightarrow> capability_state" where
  "gate_State g c = (case fmlookup (gr_decisions g) c of None \<Rightarrow> CapabilityDisabled | Some d \<Rightarrow> gd_State d)"

definition gate_Enabled :: "GateRegistry \<Rightarrow> string \<Rightarrow> bool" where
  "gate_Enabled g c \<longleftrightarrow> gate_State g c = CapabilityEnabled"

definition gate_Decision :: "GateRegistry \<Rightarrow> string \<Rightarrow> Decision option" where
  "gate_Decision g c = fmlookup (gr_decisions g) c"

definition RequireEnabled :: "GateRegistry \<Rightarrow> string \<Rightarrow> learn_error option" where
  "RequireEnabled g c = (if gate_Enabled g c then None else Some (JlDisabled c))"

definition gate_Decisions :: "GateRegistry \<Rightarrow> Decision list" where
  "gate_Decisions g = sort_key gd_Capability (fm_vals (gr_decisions g))"

record OutcomeCounts =
  oc_Total :: int
  oc_Succeeded :: int
  oc_Failed :: int

definition count_outcome :: "AttrResult \<Rightarrow> OutcomeCounts \<Rightarrow> OutcomeCounts" where
  "count_outcome r k =
     (let x = jat_Outcome (jr_Attribution r) in
      k\<lparr>oc_Total := oc_Total k + 1, oc_Succeeded := bump (x = ''succeeded'') (oc_Succeeded k),
        oc_Failed := bump (x = ''failed'') (oc_Failed k)\<rparr>)"

definition CountOutcomes :: "AttrResult list \<Rightarrow> OutcomeCounts" where
  "CountOutcomes rs = fold count_outcome rs \<lparr>oc_Total = 0, oc_Succeeded = 0, oc_Failed = 0\<rparr>"

definition EvidenceFromTraces :: "AttrResult list \<Rightarrow> go_float \<Rightarrow> bool \<Rightarrow> bool \<Rightarrow> bool \<Rightarrow> Evidence" where
  "EvidenceFromTraces rs improvement baseline fallback bypass =
     \<lparr>ge_Outcomes = int (length rs), ge_Baseline = baseline, ge_Improvement = improvement, ge_Fallback = fallback,
      ge_NoGateBypass = bypass\<rparr>"

section \<open>Routing hints\<close>

record RouteRequest =
  rr_WorkPackageID :: string
  rr_Role :: string
  rr_Fallback :: string
  rr_RequiresApproval :: bool
  rr_ContractID :: string

record Hint =
  hi_Option :: string
  hi_Fallback :: string
  hi_Learned :: bool
  hi_Authoritative :: bool
  hi_Reasons :: "string list"

definition Choice :: "Hint \<Rightarrow> string" where
  "Choice h = (if hi_Learned h \<and> hi_Option h \<noteq> [] then hi_Option h else hi_Fallback h)"

record RoutePolicy =
  rpo_MinWorkerOutcomes :: int
  rpo_MinImprovement :: go_float

definition DefaultRoutePolicy :: "FloatOps \<Rightarrow> RoutePolicy" where
  "DefaultRoutePolicy F = \<lparr>rpo_MinWorkerOutcomes = 3, rpo_MinImprovement = fa_lit F (1 / 10)\<rparr>"

definition RoutePolicy_Validate :: "RoutePolicy \<Rightarrow> learn_error option" where
  "RoutePolicy_Validate p =
     (if rpo_MinWorkerOutcomes p < 0 then Some (JlInvalid ''minWorkerOutcomes must be >= 0'')
      else if outside_unit (rpo_MinImprovement p) then Some (JlInvalid ''minImprovement is outside [0,1]'')
      else None)"

record Router =
  ro_gates :: GateRegistry
  ro_policy :: RoutePolicy

definition Router_New :: "GateRegistry option \<Rightarrow> RoutePolicy \<Rightarrow> learn_error + Router" where
  "Router_New gates p =
     (case gates of None \<Rightarrow> Err (JlInvalid ''gate registry is required'')
      | Some g \<Rightarrow> (case RoutePolicy_Validate p of Some e \<Rightarrow> Err e | None \<Rightarrow> Ok \<lparr>ro_gates = g, ro_policy = p\<rparr>))"

definition route_filter :: "AttrResult list \<Rightarrow> RouteRequest \<Rightarrow> AttrResult list" where
  "route_filter history req = filter (\<lambda>r. rr_Role req = [] \<or> jat_Role (jr_Attribution r) = rr_Role req) history"

text \<open>
  The loop over the workers of the scope. Go ranges over the map in any order, so the order is an argument: a list of
  the groups. The best so far is an id, its mean and its number of outcomes, and starts with the empty id.
\<close>

fun best_loop ::
  "FloatOps \<Rightarrow> (string \<times> AttrResult list) list \<Rightarrow> string \<times> go_float \<times> int \<Rightarrow> string \<times> go_float \<times> int" where
  "best_loop F [] best = best"
| "best_loop F ((wid, g) # gs) (bestID, bestMean, bestN) =
     (let s = Summarize F g in
      best_loop F gs
        (if bestID = [] \<or> float_lt bestMean (su_MeanOverall s) \<or> (float_eq (su_MeanOverall s) bestMean \<and> wid < bestID)
         then (wid, su_MeanOverall s, su_Outcomes s) else (bestID, bestMean, bestN)))"

definition worker_groups :: "AttrResult list \<Rightarrow> (string \<times> AttrResult list) list" where
  "worker_groups rs =
     groups_of (\<lambda>r. jat_Worker (jr_Attribution r)) (filter (\<lambda>r. jat_Worker (jr_Attribution r) \<noteq> []) rs)"

text \<open>\<open>visit\<close> is the order in which the map of workers is visited.\<close>

definition learnedOption ::
  "FloatOps \<Rightarrow> ((string \<times> AttrResult list) list \<Rightarrow> (string \<times> AttrResult list) list) \<Rightarrow> RoutePolicy \<Rightarrow> RouteRequest \<Rightarrow>
     AttrResult list \<Rightarrow> string \<times> string \<times> bool" where
  "learnedOption F visit p req history =
     (if rr_Role req = [] then ([], ''no routing scope'', False)
      else let scoped = route_filter history req in
      if scoped = [] then ([], ''no attributed history for scope'', False)
      else let baseline = su_MeanOverall (Summarize F scoped) in
      (case best_loop F (visit (worker_groups scoped)) ([], Finite 0, 0) of (bestID, bestMean, bestN) \<Rightarrow>
         if bestID = [] then ([], ''no worker history for scope'', False)
         else if bestN < rpo_MinWorkerOutcomes p
           then ([], ''worker '' @ bestID @ '' has '' @ itoa_int bestN @ '' outcomes < '' @ itoa_int (rpo_MinWorkerOutcomes p), False)
         else let margin = fa_sub F bestMean baseline in
         if float_lt margin (rpo_MinImprovement p)
           then ([], ''best worker beats the baseline by '' @ fa_fixed F 3 margin @ '' < '' @ fa_fixed F 3 (rpo_MinImprovement p), False)
         else (bestID, ''worker '' @ bestID @ '' beat the baseline by '' @ fa_fixed F 3 margin, True)))"

definition Route ::
  "FloatOps \<Rightarrow> ((string \<times> AttrResult list) list \<Rightarrow> (string \<times> AttrResult list) list) \<Rightarrow> Router \<Rightarrow> RouteRequest \<Rightarrow>
     AttrResult list \<Rightarrow> learn_error + Hint" where
  "Route F visit r req history =
     (if rr_Fallback req = [] then Err (JlInvalid ''fallback is required'')
      else let hint = \<lparr>hi_Option = [], hi_Fallback = rr_Fallback req, hi_Learned = False, hi_Authoritative = False, hi_Reasons = []\<rparr> in
      if rr_RequiresApproval req then Ok (hint\<lparr>hi_Reasons := [''human approval pending; learned hint withheld'']\<rparr>)
      else if \<not> gate_Enabled (ro_gates r) ''learned_routing''
        then Ok (hint\<lparr>hi_Reasons := [''learned_routing capability is disabled'']\<rparr>)
      else let rs = (if rr_ContractID req \<noteq> []
          then [''execution contract '' @ rr_ContractID req @ '' still applies; hint is advisory''] else []) in
      (case learnedOption F visit (ro_policy r) req history of (opt, reason, found) \<Rightarrow>
         if found then Ok (hint\<lparr>hi_Reasons := rs @ [reason], hi_Option := opt, hi_Learned := True\<rparr>)
         else Ok (hint\<lparr>hi_Reasons := rs @ [reason]\<rparr>)))"

end
