(* ===== verification/JobLearnProps.thy ===== *)
theory JobLearnProps
  imports JobGate
begin

text \<open>
  Scores lie in their range, summaries do not depend on the order of the results, a learned capability is enabled only by
  evidence, and a learned hint only by an enabled capability.
\<close>

section \<open>Floating-point order\<close>

text \<open>A number, which may be infinite, but no NaN.\<close>

definition is_number :: "go_float \<Rightarrow> bool" where
  "is_number x \<longleftrightarrow> (case x of Finite _ \<Rightarrow> True | NotFinite t \<Rightarrow> t = ''+Inf'' \<or> t = ''-Inf'')"

definition float_rank :: "go_float \<Rightarrow> int \<times> rat" where
  "float_rank x = (case x of Finite q \<Rightarrow> (1, q) | NotFinite t \<Rightarrow> if t = ''-Inf'' then (0, 0) else (2, 0))"

lemma float_lt_rank: "is_number x \<Longrightarrow> is_number y \<Longrightarrow> float_lt x y \<longleftrightarrow> float_rank x < float_rank y"
  by (cases x; cases y) (auto simp: is_number_def float_rank_def split: if_splits)

lemma float_eq_rank: "is_number x \<Longrightarrow> is_number y \<Longrightarrow> float_eq x y \<longleftrightarrow> float_rank x = float_rank y"
  by (cases x; cases y) (auto simp: is_number_def float_rank_def split: if_splits)

lemma clamp01_inside: "\<not> outside_unit (clamp01 v)"
  by (simp add: clamp01_def outside_unit_def)

lemma normalize_inside: "\<not> outside_unit (normalize F v m)"
  by (simp add: normalize_def clamp01_inside) (simp add: outside_unit_def)

section \<open>Scores\<close>

text \<open>
  Scoring fails only for negative limits or an unknown outcome: every component it computes is in its range, when
  dividing a count by a count that is no smaller stays within 0 and 1.
\<close>

lemma score_succeeds_iff:
  assumes div: "\<And>p n. 0 \<le> p \<Longrightarrow> p \<le> n \<Longrightarrow> 0 < n \<Longrightarrow> \<not> outside_unit (fa_div F (fa_int F p) (fa_int F n))"
  shows "(is_Ok (attr_Score F r m l) \<longleftrightarrow> Limits_Validate l = None \<and> Outcome_Valid (t_Outcome r)) \<and>
    (\<forall>s. attr_Score F r m l = Ok s \<longrightarrow> Score_Validate s = None \<and> jsc_Version s = MetricVersion)"
proof -
  have quality: "\<not> outside_unit (qualityScore F gs)" for gs
  proof (cases "gs = []")
    case True
    then show ?thesis by (simp add: qualityScore_def outside_unit_def)
  next
    case False
    then show ?thesis using div [of "int (length (filter go_Passed gs))" "int (length gs)"]
      by (simp add: qualityScore_def)
  qed
  have success: "\<not> outside_unit (successScore x)" for x
    by (simp add: successScore_def outside_unit_def)
  have valid: "\<exists>s. score_of F x c d m l = Ok s \<and> Score_Validate s = None \<and> jsc_Version s = MetricVersion" for x c d
    by (simp add: score_of_def Let_def Score_Validate_def MetricVersion_def quality success normalize_inside
        overallScore_def clamp01_inside)
  show ?thesis
    using valid [of "t_Outcome r" "t_CostUSD r" "t_DurationMS r"]
    by (auto simp: attr_Score_def ParseOutcome_def split: option.splits)
qed

section \<open>Summaries\<close>

lemma last_field_inject:
  assumes "xs @ c # s = ys @ c # t" and "c \<notin> set s" and "c \<notin> set t"
  shows "xs = ys \<and> s = t"
proof -
  have tw: "takeWhile (\<lambda>x. x \<noteq> c) (rev u @ c # z) = rev u \<and> dropWhile (\<lambda>x. x \<noteq> c) (rev u @ c # z) = c # z"
    if "c \<notin> set u" for u z
    using that by (subst takeWhile_append2, force, subst dropWhile_append2) auto
  have "rev s @ c # rev xs = rev t @ c # rev ys" using arg_cong [OF assms(1), of rev] by simp
  then show ?thesis using tw [OF assms(2), of "rev xs"] tw [OF assms(3), of "rev ys"] by (metis list.inject rev_rev_ident)
qed

lemma strings_Join_snoc: "xs \<noteq> [] \<Longrightarrow> strings_Join sep (xs @ [x]) = strings_Join sep xs @ sep @ x"
  by (induction xs rule: strings_Join.induct [of _ sep]) auto

lemma strings_Join_last:
  assumes "strings_Join [c] (xs @ [s]) = strings_Join [c] (ys @ [t])" and "xs \<noteq> []" and "ys \<noteq> []"
    and "c \<notin> set s" and "c \<notin> set t"
  shows "strings_Join [c] xs = strings_Join [c] ys \<and> s = t"
  using assms last_field_inject [of "strings_Join [c] xs" c s "strings_Join [c] ys" t] by (simp add: strings_Join_snoc)

text \<open>As many last fields as are free of the separator can be read off a joined text.\<close>

lemma strings_Join_suffix:
  "strings_Join [c] (x # xs @ ss) = strings_Join [c] (y # ys @ ts) \<Longrightarrow> length ss = length ts \<Longrightarrow>
     \<forall>s \<in> set ss. c \<notin> set s \<Longrightarrow> \<forall>t \<in> set ts. c \<notin> set t \<Longrightarrow> ss = ts"
proof (induction ss arbitrary: ts rule: rev_induct)
  case (snoc s ss)
  then obtain t ts' where ts: "ts = ts' @ [t]" by (metis length_0_conv rev_exhaust snoc_eq_iff_butlast)
  have "strings_Join [c] ((x # xs @ ss) @ [s]) = strings_Join [c] ((y # ys @ ts') @ [t])" using snoc.prems(1) ts by simp
  from strings_Join_last [OF this] have "strings_Join [c] (x # xs @ ss) = strings_Join [c] (y # ys @ ts') \<and> s = t"
    using snoc.prems ts by simp
  then show ?case using snoc.IH [of ts'] snoc.prems ts by simp
qed simp

text \<open>What a summary takes from a result.\<close>

definition contribution :: "AttrResult \<Rightarrow> string \<times> go_float \<times> go_float \<times> go_float" where
  "contribution r = (jat_Outcome (jr_Attribution r), jsc_Overall (jr_Score r), jsc_Cost (jr_Score r), jsc_Duration (jr_Score r))"

text \<open>
  \<open>V\<close> holds the values that occur. Printing tells them apart and has no bar; the result is one that scoring produced.
\<close>

definition shows_well :: "FloatOps \<Rightarrow> go_float set \<Rightarrow> bool" where
  "shows_well F V \<longleftrightarrow> inj_on (fa_show F) V \<and> (\<forall>x \<in> V. CHR ''|'' \<notin> set (fa_show F x))"

definition scored :: "go_float set \<Rightarrow> AttrResult \<Rightarrow> bool" where
  "scored V r \<longleftrightarrow> Outcome_Valid (jat_Outcome (jr_Attribution r)) \<and> jsc_Version (jr_Score r) = MetricVersion \<and>
     (let s = jr_Score r in {jsc_Success s, jsc_Cost s, jsc_Duration s, jsc_Retries s, jsc_Quality s, jsc_Overall s} \<subseteq> V)"

lemma same_key_contribution:
  assumes F: "shows_well F V" and r: "scored V r" "scored V q" and k: "attr_sortKey F r = attr_sortKey F q"
  shows "contribution r = contribution q"
proof -
  let ?tail = "\<lambda>r. [jat_Outcome (jr_Attribution r), jsc_Version (jr_Score r)] @ score_texts F (jr_Score r)"
  have free: "\<forall>s \<in> set (?tail r). CHR ''|'' \<notin> set s" if "scored V r" for r
    using that F by (auto simp: scored_def Let_def Outcome_Valid_def MetricVersion_def score_texts_def shows_well_def)
  let ?mid = "\<lambda>r. [jat_WorkPackageID (jr_Attribution r), jat_AttemptID (jr_Attribution r), jat_AssignmentID (jr_Attribution r),
    jat_Role (jr_Attribution r), jat_Worker (jr_Attribution r), itoa_int (jat_Sequence (jr_Attribution r))]"
  have "strings_Join ''|'' (jat_ProjectID (jr_Attribution r) # ?mid r @ ?tail r) =
        strings_Join ''|'' (jat_ProjectID (jr_Attribution q) # ?mid q @ ?tail q)"
    using k by (simp only: attr_sortKey_def Let_def append_Cons append_Nil)
  from strings_Join_suffix [OF this _ free [OF r(1)] free [OF r(2)]]
  have "?tail r = ?tail q" by (simp add: score_texts_def)
  then show ?thesis using F r by (auto simp: contribution_def score_texts_def shows_well_def scored_def Let_def dest: inj_onD)
qed

lemma fold_contribution:
  "list_all2 (\<lambda>r q. contribution r = contribution q) rs qs \<Longrightarrow> fold (summary_add F) rs s = fold (summary_add F) qs s"
  by (induction rs qs arbitrary: s rule: list_all2_induct) (simp_all add: summary_add_def contribution_def)

text \<open>Any sort by the key gives the same sums: results that share a key contribute the same.\<close>

lemma summary_any_sort:
  assumes F: "shows_well F V" and rs: "\<forall>r \<in> set rs. scored V r"
    and qs: "mset qs = mset rs" "sorted (map (attr_sortKey F) qs)"
  shows "fold (summary_add F) qs s = fold (summary_add F) (attr_canonical F rs) s"
proof (rule fold_contribution)
  let ?k = "attr_sortKey F"
  have "sort (map ?k rs) = map ?k qs" by (rule properties_for_sort) (simp_all add: qs)
  moreover have "sort (map ?k rs) = map ?k (attr_canonical F rs)"
    by (rule properties_for_sort) (simp_all add: attr_canonical_def)
  ultimately have "map ?k qs = map ?k (attr_canonical F rs)" by simp
  then have keys: "list_all2 (\<lambda>r q. ?k r = ?k q) qs (attr_canonical F rs)"
    by (simp add: list_all2_conv_all_nth list_eq_iff_nth_eq)
  have sets: "set qs = set rs" "set (attr_canonical F rs) = set rs"
    using qs(1) by (auto simp: attr_canonical_def dest: mset_eq_setD)
  show "list_all2 (\<lambda>r q. contribution r = contribution q) qs (attr_canonical F rs)"
    using keys
  proof (rule list.rel_mono_strong)
    fix r q assume "r \<in> set qs" "q \<in> set (attr_canonical F rs)" "?k r = ?k q"
    then show "contribution r = contribution q" using same_key_contribution [OF F] rs sets by blast
  qed
qed

lemma Summarize_perm:
  assumes F: "shows_well F V" and rs: "\<forall>r \<in> set rs. scored V r" and perm: "mset qs = mset rs"
  shows "Summarize F qs = Summarize F rs"
proof -
  have "mset (attr_canonical F qs) = mset rs" "sorted (map (attr_sortKey F) (attr_canonical F qs))"
    using perm by (simp_all add: attr_canonical_def)
  note same = summary_any_sort [OF F rs this]
  have "length qs = length rs" using perm by (metis size_mset)
  moreover from this have "qs = [] \<longleftrightarrow> rs = []" by auto
  ultimately show ?thesis by (simp add: Summarize_def same)
qed

text \<open>
  The summary of results, and their groups along a dimension, do not depend on the order in which the results are
  supplied, although the sums are rounded.
\<close>

lemma summaries_order_irrelevant:
  assumes "shows_well F V" and "\<forall>r \<in> set rs. scored V r" and "mset qs = mset rs"
  shows "Summarize F qs = Summarize F rs \<and> GroupBy F qs dimension = GroupBy F rs dimension"
proof
  show "Summarize F qs = Summarize F rs" using assms by (rule Summarize_perm)
  have "set qs = set rs" using assms(3) by (rule mset_eq_setD)
  then have labels: "sort (remdups (map key qs)) = sort (remdups (map key rs))" for key :: "AttrResult \<Rightarrow> string"
    by (intro sorted_distinct_set_unique) simp_all
  have group: "Summarize F (filter P qs) = Summarize F (filter P rs)" for P
    using assms by (intro Summarize_perm [where V = V]) simp_all
  show "GroupBy F qs dimension = GroupBy F rs dimension"
    by (simp add: GroupBy_def groups_of_def labels group split: option.splits)
qed

text \<open>Exact arithmetic, with a text for three values, and two results.\<close>

definition ex_floats :: FloatOps where
  "ex_floats = \<lparr>fa_add = exact_op (+), fa_sub = exact_op (-), fa_mul = exact_op (*), fa_div = exact_op (/), fa_lit = Finite,
     fa_int = (\<lambda>n. Finite (of_int n)),
     fa_show = (\<lambda>x. if x = Finite 0 then ''0'' else if x = Finite 1 then ''1'' else ''0.5''), fa_fixed = (\<lambda>_ _. [])\<rparr>"

definition ex_attr_result :: "string \<Rightarrow> string \<Rightarrow> string \<Rightarrow> rat \<Rightarrow> AttrResult" where
  "ex_attr_result attempt worker out overall =
     \<lparr>jr_Attribution = \<lparr>jat_ProjectID = ''p'', jat_WorkPackageID = ''w'', jat_AttemptID = attempt, jat_AssignmentID = [],
        jat_Role = ''builder'', jat_Worker = worker, jat_Outcome = out, jat_Sequence = 0, jat_Evidence = []\<rparr>,
      jr_Score = \<lparr>jsc_Version = MetricVersion, jsc_Success = Finite 1, jsc_Cost = Finite 0, jsc_Duration = Finite 0,
        jsc_Retries = Finite 0, jsc_Quality = Finite (1 / 2), jsc_Overall = Finite overall\<rparr>\<rparr>"

lemma ex_floats_shows: "shows_well ex_floats {Finite 0, Finite 1, Finite (1 / 2)}"
  by (auto simp: shows_well_def ex_floats_def inj_on_def)

section \<open>Histories of the gate registry\<close>

datatype gate_op = GateSet string GatePolicy | GateEvaluate string Evidence

fun gate_step :: "FloatOps \<Rightarrow> gate_op \<Rightarrow> GateRegistry \<Rightarrow> GateRegistry" where
  "gate_step F (GateSet c p) g = fst (SetPolicy c p g)"
| "gate_step F (GateEvaluate c e) g = fst (gate_Evaluate F c e g)"

fun about :: "gate_op \<Rightarrow> string" where
  "about (GateSet c p) = c" | "about (GateEvaluate c e) = c"

definition gate_run :: "FloatOps \<Rightarrow> gate_op list \<Rightarrow> GateRegistry \<Rightarrow> GateRegistry" where
  "gate_run F ops g = fold (gate_step F) ops g"

text \<open>Enabled capabilities passed their current policy with evidence from the history.\<close>

definition gates_justified :: "FloatOps \<Rightarrow> gate_op set \<Rightarrow> GateRegistry \<Rightarrow> bool" where
  "gates_justified F ops g \<longleftrightarrow> (\<forall>c. gate_Enabled g c \<longrightarrow>
     (\<exists>e p. GateEvaluate c e \<in> ops \<and> Policy g c = Some p \<and> gate_reasons F p e = []))"

lemma register_policies:
  "fmlookup (gr_decisions (fold (register_policy p) cs g)) c =
     (if c \<in> set cs then Some (disabled_decision c p) else fmlookup (gr_decisions g) c)"
  "fmlookup (gr_policies (fold (register_policy p) cs g)) c = (if c \<in> set cs then Some p else fmlookup (gr_policies g) c)"
  by (induction cs arbitrary: g) (auto simp: register_policy_def)

lemma gate_new_disabled: "GateRegistry_New p = Ok g \<Longrightarrow> \<not> gate_Enabled g c"
  by (auto simp: GateRegistry_New_def gate_Enabled_def gate_State_def register_policies disabled_decision_def split: option.splits if_splits)

text \<open>An operation on another capability changes neither the state nor the policy of this one.\<close>

lemma gate_step_other:
  "about op \<noteq> c \<Longrightarrow> gate_State (gate_step F op g) c = gate_State g c \<and> Policy (gate_step F op g) c = Policy g c"
  by (cases op)
     (auto simp: SetPolicy_def register_policy_def gate_Evaluate_def gate_State_def Policy_def Let_def split: option.splits)

lemma gate_step_enables:
  assumes "gate_Enabled (gate_step F op g) c"
  shows "(gate_Enabled g c \<and> Policy (gate_step F op g) c = Policy g c \<and> (about op \<noteq> c \<or> gate_step F op g = g)) \<or>
    (\<exists>e p. op = GateEvaluate c e \<and> Policy (gate_step F op g) c = Some p \<and> gate_reasons F p e = [])"
proof (cases "about op = c")
  case False
  then show ?thesis using assms gate_step_other [OF False] by (simp add: gate_Enabled_def)
next
  case True
  then show ?thesis using assms
    by (cases op) (auto simp: SetPolicy_def register_policy_def disabled_decision_def gate_Evaluate_def gate_Enabled_def
        gate_State_def Policy_def Let_def split: option.splits if_splits)
qed

lemma gates_justified_step:
  assumes "gates_justified F ops g"
  shows "gates_justified F (insert op ops) (gate_step F op g)"
  unfolding gates_justified_def
proof (intro allI impI)
  fix c assume "gate_Enabled (gate_step F op g) c"
  from gate_step_enables [OF this]
  show "\<exists>e p. GateEvaluate c e \<in> insert op ops \<and> Policy (gate_step F op g) c = Some p \<and> gate_reasons F p e = []"
    using assms unfolding gates_justified_def by (metis insertCI)
qed

lemma gates_justified_run:
  "gates_justified F seen g \<Longrightarrow> gates_justified F (seen \<union> set ops) (gate_run F ops g)"
  unfolding gate_run_def
proof (induction ops arbitrary: seen g)
  case (Cons op ops)
  from Cons.IH [OF gates_justified_step [OF Cons.prems, of op]] show ?case by simp
qed simp

text \<open>
  Whatever policies and evidence a registry is given, a capability is enabled only when evidence it was given meets
  every requirement of its current policy: outcomes, baseline, improvement, fallback and no bypass.
\<close>

lemma capability_needs_evidence:
  assumes "GateRegistry_New p = Ok g" and "gate_Enabled (gate_run F ops g) c"
  shows "\<exists>e q. GateEvaluate c e \<in> set ops \<and> Policy (gate_run F ops g) c = Some q \<and>
     gp_MinOutcomes q \<le> ge_Outcomes e \<and> (gp_RequireBaseline q \<longrightarrow> ge_Baseline e) \<and>
     (float_lt (Finite 0) (gp_MinImprovement q) \<longrightarrow> \<not> float_lt (ge_Improvement e) (gp_MinImprovement q)) \<and>
     (gp_RequireFallback q \<longrightarrow> ge_Fallback e) \<and> (gp_RequireNoGateBypass q \<longrightarrow> ge_NoGateBypass e)"
proof -
  have "gates_justified F {} g" using gate_new_disabled [OF assms(1)] by (simp add: gates_justified_def)
  from gates_justified_run [OF this, of ops]
  obtain e q where "GateEvaluate c e \<in> set ops" "Policy (gate_run F ops g) c = Some q" "gate_reasons F q e = []"
    using assms(2) by (auto simp: gates_justified_def)
  then show ?thesis by (auto simp: gate_reasons_def split: if_splits)
qed

definition ex_evidence :: Evidence where
  "ex_evidence = \<lparr>ge_Outcomes = 20, ge_Baseline = True, ge_Improvement = Finite (1 / 10), ge_Fallback = True, ge_NoGateBypass = True\<rparr>"

lemma ex_gates:
  "\<exists>g. GateRegistry_New (DefaultGatePolicy ex_floats) = Ok g \<and>
     gate_Enabled (gate_run ex_floats [GateEvaluate ''learned_routing'' ex_evidence] g) ''learned_routing''"
proof -
  let ?p = "DefaultGatePolicy ex_floats" and ?c = "''learned_routing''"
  have valid: "GatePolicy_Validate ?p = None"
    by (simp add: GatePolicy_Validate_def DefaultGatePolicy_def ex_floats_def outside_unit_def)
  then obtain g where new: "GateRegistry_New ?p = Ok g" by (simp add: GateRegistry_New_def)
  then have "fmlookup (gr_policies g) ?c = Some ?p"
    using valid by (auto simp: GateRegistry_New_def KnownCapabilities_def register_policy_def)
  moreover have "gate_reasons ex_floats ?p ex_evidence = []"
    by (simp add: gate_reasons_def DefaultGatePolicy_def ex_floats_def ex_evidence_def)
  ultimately show ?thesis using new
    by (simp add: gate_run_def gate_Evaluate_def Let_def gate_Enabled_def gate_State_def)
qed

lemma nan_improvement_passes:
  "gate_reasons F p (e\<lparr>ge_Improvement := NotFinite ''NaN''\<rparr>) = [] \<longleftrightarrow>
   gp_MinOutcomes p \<le> ge_Outcomes e \<and> (gp_RequireBaseline p \<longrightarrow> ge_Baseline e) \<and>
   (gp_RequireFallback p \<longrightarrow> ge_Fallback e) \<and> (gp_RequireNoGateBypass p \<longrightarrow> ge_NoGateBypass e)"
  by (cases "gp_MinImprovement p") (auto simp: gate_reasons_def)

section \<open>Hints\<close>

lemma su_Outcomes_fold: "su_Outcomes (fold (summary_add F) rs s) = su_Outcomes s + int (length rs)"
  by (induction rs arbitrary: s) (simp_all add: summary_add_def Let_def)

lemma su_Outcomes_Summarize [simp]: "su_Outcomes (Summarize F rs) = int (length rs)"
  by (simp add: Summarize_def summary_finish_def Let_def su_Outcomes_fold Summary_zero_def attr_canonical_def)

abbreviation group_mean :: "FloatOps \<Rightarrow> AttrResult list \<Rightarrow> go_float" where
  "group_mean F g \<equiv> su_MeanOverall (Summarize F g)"

definition beats :: "FloatOps \<Rightarrow> string \<times> AttrResult list \<Rightarrow> string \<times> AttrResult list \<Rightarrow> bool" where
  "beats F x y \<longleftrightarrow> float_lt (group_mean F (snd y)) (group_mean F (snd x)) \<or>
     (float_eq (group_mean F (snd x)) (group_mean F (snd y)) \<and> fst x < fst y)"

definition as_best :: "FloatOps \<Rightarrow> string \<times> AttrResult list \<Rightarrow> string \<times> go_float \<times> int" where
  "as_best F x = (fst x, group_mean F (snd x), int (length (snd x)))"

text \<open>The best of the groups seen so far and to come, as a fold over groups.\<close>

fun best_group :: "FloatOps \<Rightarrow> string \<times> AttrResult list \<Rightarrow> (string \<times> AttrResult list) list \<Rightarrow> string \<times> AttrResult list" where
  "best_group F x [] = x"
| "best_group F x (y # ys) = best_group F (if beats F y x then y else x) ys"

lemma best_loop_group:
  "fst x \<noteq> [] \<Longrightarrow> \<forall>y \<in> set ys. fst y \<noteq> [] \<Longrightarrow> best_loop F ys (as_best F x) = as_best F (best_group F x ys)"
proof (induction ys arbitrary: x)
  case (Cons y ys)
  obtain wid g where y: "y = (wid, g)" by fastforce
  have "best_loop F (y # ys) (as_best F x) = best_loop F ys (as_best F (if beats F y x then y else x))"
    using Cons.prems(1) by (simp add: y as_best_def beats_def Let_def)
  also have "\<dots> = as_best F (best_group F (if beats F y x then y else x) ys)"
    using Cons.prems by (intro Cons.IH) auto
  finally show ?case by simp
qed simp

lemma best_loop_start: "best_loop F (y # ys) ([], m, n) = best_loop F ys (as_best F y)"
  by (cases y) (simp add: as_best_def Let_def)

lemma best_group_in: "best_group F x ys \<in> insert x (set ys)"
  by (induction ys arbitrary: x) (fastforce split: if_splits)+

text \<open>Where means are numbers and ids differ, \<open>beats\<close> is a strict total order, so the best group is unique.\<close>

definition rank_of :: "FloatOps \<Rightarrow> string \<times> AttrResult list \<Rightarrow> int \<times> rat" where
  "rank_of F x = float_rank (group_mean F (snd x))"

lemma beats_rank:
  "is_number (group_mean F (snd x)) \<Longrightarrow> is_number (group_mean F (snd y)) \<Longrightarrow>
     beats F x y \<longleftrightarrow> rank_of F y < rank_of F x \<or> (rank_of F x = rank_of F y \<and> fst x < fst y)"
  by (simp add: beats_def rank_of_def float_lt_rank float_eq_rank)

definition comparable :: "FloatOps \<Rightarrow> (string \<times> AttrResult list) set \<Rightarrow> bool" where
  "comparable F G \<longleftrightarrow> (\<forall>x \<in> G. is_number (group_mean F (snd x))) \<and> inj_on fst G"

lemma best_group_best:
  "comparable F (insert x (set ys)) \<Longrightarrow> y \<in> insert x (set ys) \<Longrightarrow> y = best_group F x ys \<or> beats F (best_group F x ys) y"
proof (induction ys arbitrary: x y)
  case (Cons z zs)
  let ?w = "if beats F z x then z else x"
  have num: "is_number (group_mean F (snd u))" if "u \<in> insert x (set (z # zs))" for u
    using Cons.prems(1) that unfolding comparable_def by simp blast
  have IH: "u \<in> insert ?w (set zs) \<Longrightarrow> u = best_group F ?w zs \<or> beats F (best_group F ?w zs) u" for u
    by (rule Cons.IH, unfold comparable_def, rule conjI [OF _ inj_on_subset [of fst "insert x (set (z # zs))"]])
       (use Cons.prems(1) in \<open>auto simp only: comparable_def, auto split: if_splits\<close>)
  have best: "best_group F ?w zs \<in> insert x (set (z # zs))" using best_group_in [of F ?w zs] by auto
  show ?case
  proof (cases "y \<in> insert ?w (set zs)")
    case True
    then show ?thesis using IH by simp
  next
    case False
    then have y: "y \<in> {x, z}" "y \<noteq> ?w" using Cons.prems(2) by auto
    have "inj_on fst (insert x (set (z # zs)))" using Cons.prems(1) by (simp only: comparable_def)
    from inj_onD [OF this, of x z] have "fst x = fst z \<Longrightarrow> x = z" by simp
    then have "rank_of F x = rank_of F z \<Longrightarrow> x = z \<or> fst x < fst z \<or> fst z < fst x" by (metis linorder_neqE)
    moreover have "beats F z x \<longleftrightarrow> rank_of F x < rank_of F z \<or> (rank_of F z = rank_of F x \<and> fst z < fst x)"
      "beats F x z \<longleftrightarrow> rank_of F z < rank_of F x \<or> (rank_of F x = rank_of F z \<and> fst x < fst z)"
      by (rule beats_rank; rule num; simp)+
    ultimately have linear: "beats F z x \<or> x = z \<or> beats F x z" by (metis linorder_neqE)
    have "beats F ?w y" using y linear by (cases "beats F z x") auto
    moreover have "?w = best_group F ?w zs \<or> beats F (best_group F ?w zs) ?w" using IH by blast
    ultimately have "beats F (best_group F ?w zs) y"
    proof (elim disjE)
      assume "beats F (best_group F ?w zs) ?w" "beats F ?w y"
      moreover have "is_number (group_mean F (snd ?w))" by (rule num) simp
      moreover have "is_number (group_mean F (snd y))" by (rule num) (use y(1) in auto)
      ultimately show ?thesis using num [OF best] by (auto simp: beats_rank)
    qed simp
    then show ?thesis by simp
  qed
qed simp

lemma best_loop_perm:
  assumes "mset gs = mset hs" and cmp: "comparable F (set gs)" and ids: "\<forall>x \<in> set gs. fst x \<noteq> []"
  shows "best_loop F gs ([], m, n) = best_loop F hs ([], m, n)"
proof (cases gs)
  case Nil
  then show ?thesis using assms(1) by simp
next
  case (Cons x xs)
  then obtain y ys where hs: "hs = y # ys" using assms(1) by (cases hs) auto
  have sets: "set hs = set gs" using assms(1) by (metis mset_eq_setD)
  let ?a = "best_group F x xs" and ?b = "best_group F y ys"
  have ab: "?a \<in> set gs" "?b \<in> set gs" using best_group_in [of F x xs] best_group_in [of F y ys] Cons hs sets by auto
  have "?b = ?a \<or> beats F ?a ?b" using best_group_best [of F x xs ?b] cmp ab Cons by simp
  moreover have "insert y (set ys) = set gs" using hs sets by simp
  then have "?a = ?b \<or> beats F ?b ?a" using best_group_best [of F y ys ?a] cmp ab(1) by metis
  ultimately have "?a = ?b" using ab cmp by (auto simp: beats_rank comparable_def)
  moreover have "\<forall>z \<in> set (x # xs). fst z \<noteq> []" "\<forall>z \<in> set (y # ys). fst z \<noteq> []" using ids sets Cons hs by auto
  ultimately show ?thesis unfolding Cons hs by (simp add: best_loop_start best_loop_group)
qed

lemma worker_groups_ids: "x \<in> set (worker_groups rs) \<Longrightarrow> fst x \<noteq> []" "inj_on fst (set (worker_groups rs))"
  by (auto simp: worker_groups_def groups_of_def inj_on_def)

text \<open>A history in which one worker did better than the role.\<close>

definition ex_history :: "AttrResult list" where
  "ex_history = [ex_attr_result ''1'' ''a'' ''succeeded'' 1, ex_attr_result ''2'' ''b'' ''failed'' 0]"

definition ex_request :: RouteRequest where
  "ex_request = \<lparr>rr_WorkPackageID = [], rr_Role = ''builder'', rr_Fallback = ''f'', rr_RequiresApproval = False, rr_ContractID = []\<rparr>"

definition ex_route_policy :: RoutePolicy where "ex_route_policy = \<lparr>rpo_MinWorkerOutcomes = 1, rpo_MinImprovement = Finite (1 / 10)\<rparr>"

lemma ex_groups: "worker_groups (route_filter ex_history ex_request) = [(''a'', [hd ex_history]), (''b'', tl ex_history)]"
  by code_simp

lemma ex_means:
  "su_MeanOverall (Summarize ex_floats [hd ex_history]) = Finite 1" "su_MeanOverall (Summarize ex_floats (tl ex_history)) = Finite 0"
  by code_simp+

lemma ex_learned:
  "learnedOption ex_floats (\<lambda>gs. gs) ex_route_policy ex_request ex_history = (''a'', ''worker a beat the baseline by '', True)"
  by code_simp

text \<open>
  The hint does not depend on the order in which Go visits the map of workers, when the means are no NaN.
\<close>

lemma route_order_irrelevant:
  assumes perm: "\<And>gs. mset (visit gs) = mset gs" "\<And>gs. mset (visit' gs) = mset gs"
    and means: "\<forall>x \<in> set (worker_groups (route_filter history req)). is_number (su_MeanOverall (Summarize F (snd x)))"
  shows "Route F visit r req history = Route F visit' r req history"
proof -
  let ?gs = "worker_groups (route_filter history req)"
  have "best_loop F (visit ?gs) ([], Finite 0, 0) = best_loop F (visit' ?gs) ([], Finite 0, 0)"
  proof (rule best_loop_perm)
    show "mset (visit ?gs) = mset (visit' ?gs)" by (simp add: perm)
    have "set (visit ?gs) = set ?gs" using perm(1) by (rule mset_eq_setD)
    then show "comparable F (set (visit ?gs))" "\<forall>x \<in> set (visit ?gs). fst x \<noteq> []"
      using means worker_groups_ids by (auto simp: comparable_def)
  qed
  then show ?thesis by (simp add: Route_def learnedOption_def Let_def)
qed

text \<open>The option of a learned hint is a worker of the role with enough results, whose mean beats that of the scope.\<close>

lemma learnedOption_found:
  assumes "learnedOption F visit q req history = (opt, reason, True)" and perm: "\<And>gs. mset (visit gs) = mset gs"
  shows "opt \<noteq> [] \<and> (let scope = route_filter history req;
           own = filter (\<lambda>x. jat_Worker (jr_Attribution x) = opt) scope in
         own \<noteq> [] \<and> rpo_MinWorkerOutcomes q \<le> int (length own) \<and>
         \<not> float_lt (fa_sub F (group_mean F own) (group_mean F scope)) (rpo_MinImprovement q))"
proof -
  let ?scope = "route_filter history req"
  let ?gs = "visit (worker_groups ?scope)"
  have sets: "set ?gs = set (worker_groups ?scope)" using perm by (rule mset_eq_setD)
  obtain m n where best: "best_loop F ?gs ([], Finite 0, 0) = (opt, m, n)" and opt: "opt \<noteq> []"
    and ok: "rpo_MinWorkerOutcomes q \<le> n" "\<not> float_lt (fa_sub F m (group_mean F ?scope)) (rpo_MinImprovement q)"
    using assms(1) by (auto simp: learnedOption_def Let_def split: if_splits prod.splits)
  then obtain x xs where gs: "?gs = x # xs" by (cases ?gs) auto
  have ids: "\<forall>y \<in> set ?gs. fst y \<noteq> []" using sets worker_groups_ids by blast
  let ?w = "best_group F x xs"
  have "(opt, m, n) = as_best F ?w" using best ids by (simp add: gs best_loop_start best_loop_group)
  then have w: "fst ?w = opt" "m = group_mean F (snd ?w)" "n = int (length (snd ?w))" by (simp_all add: as_best_def)
  have "?w \<in> set (worker_groups ?scope)" using best_group_in [of F x xs] gs sets by auto
  then have own: "filter (\<lambda>y. jat_Worker (jr_Attribution y) = opt) ?scope = snd ?w" "snd ?w \<noteq> []"
    using w(1) by (auto simp: worker_groups_def groups_of_def filter_empty_conv intro!: filter_cong)
  show ?thesis unfolding Let_def own using ok opt w(2,3) own(2) by simp
qed



end
