(* ===== verification/Allocation.thy ===== *)
theory Allocation
  imports Registries JobLearnProps ContractRecords
begin

text \<open>
  \<open>kernel/allocator\<close>: the routing policy with its budget gate, the choice of a model, the number of workers, and the
  execution plan that puts them together. Costs are \<open>float64\<close> as in \<open>JobLearn\<close>; a product added to a product may be
  fused, so the rounded operations of \<open>FloatOps\<close> are not assumed to be the exact ones.
\<close>

record Budget =
  bu_MaxCalls :: "int option"
  bu_MaxTokens :: "int option"
  bu_MaxCostUSD :: "go_float option"
  bu_MaxDurationSeconds :: "int option"

section \<open>Routing\<close>

datatype routing_error = UnknownPolicy string | NegativeTokens

record RoutingRequest =
  rt_Policy :: string
  rt_Significance :: string
  rt_CloudAllowed :: bool
  rt_EstimatedInputTokens :: int
  rt_EstimatedOutputTokens :: int
  rt_ExpertInputCostPer1K :: go_float
  rt_ExpertOutputCostPer1K :: go_float
  rt_Budget :: Budget

record RoutingOutcome =
  dc_Locality :: string
  dc_Tier :: string
  dc_Blocked :: bool
  dc_Reason :: string
  dc_EstimatedCostUSD :: go_float
  dc_Escalate :: bool
  dc_Significance :: string

definition knownPolicy :: "string \<Rightarrow> bool" where
  "knownPolicy p \<longleftrightarrow>
     p \<in> set [''local_only'', ''cloud_only'', ''local_first'', ''expert_first'', ''adaptive'', ''budget_constrained'']"

definition preferExpert :: "string \<Rightarrow> string \<Rightarrow> bool" where
  "preferExpert policy significance =
     (if policy = ''local_only'' then False
      else if policy = ''cloud_only'' then True
      else if policy = ''expert_first'' then significance \<noteq> ''routine''
      else if policy = ''local_first'' then significance = ''major'' \<or> significance = ''critical''
      else if policy = ''adaptive'' \<or> policy = ''budget_constrained'' then significance = ''major'' \<or> significance = ''critical''
      else False)"

definition estimateCost :: "FloatOps \<Rightarrow> RoutingRequest \<Rightarrow> go_float" where
  "estimateCost F r =
     fa_add F (fa_mul F (fa_div F (fa_int F (rt_EstimatedInputTokens r)) (Finite 1000)) (rt_ExpertInputCostPer1K r))
              (fa_mul F (fa_div F (fa_int F (rt_EstimatedOutputTokens r)) (Finite 1000)) (rt_ExpertOutputCostPer1K r))"

definition Decide :: "FloatOps \<Rightarrow> RoutingRequest \<Rightarrow> routing_error + RoutingOutcome" where
  "Decide F r =
     (if \<not> knownPolicy (rt_Policy r) then Err (UnknownPolicy (rt_Policy r))
      else if rt_EstimatedInputTokens r < 0 \<or> rt_EstimatedOutputTokens r < 0 then Err NegativeTokens
      else let cost = estimateCost F r;
        d = (if preferExpert (rt_Policy r) (rt_Significance r)
             then \<lparr>dc_Locality = ''cloud'', dc_Tier = ''expert'', dc_Blocked = False, dc_Reason = ''policy selects the expert tier'',
                   dc_EstimatedCostUSD = cost, dc_Escalate = True, dc_Significance = rt_Significance r\<rparr>
             else \<lparr>dc_Locality = ''local'', dc_Tier = ''local'', dc_Blocked = False, dc_Reason = ''policy selects the local tier'',
                   dc_EstimatedCostUSD = cost, dc_Escalate = False, dc_Significance = rt_Significance r\<rparr>) in
      if dc_Escalate d \<and> \<not> rt_CloudAllowed r
        then Ok (d\<lparr>dc_Blocked := True, dc_Reason := ''cloud is disabled by the active profile''\<rparr>)
      else if dc_Escalate d
        then (case bu_MaxCostUSD (rt_Budget r) of
            None \<Rightarrow> Ok d
          | Some m \<Rightarrow> if float_lt m cost then Ok (d\<lparr>dc_Blocked := True, dc_Reason := ''estimated cost exceeds the budget''\<rparr>) else Ok d)
      else Ok d)"

definition Decision_Contract :: "RoutingOutcome \<Rightarrow> RoutingDecision" where
  "Decision_Contract d =
     \<lparr>rd_Locality = dc_Locality d, rd_Tier = dc_Tier d, rd_Blocked = dc_Blocked d, rd_Reason = dc_Reason d,
      rd_EstimatedCostUSD = dc_EstimatedCostUSD d, rd_DecisionLevel = dc_Significance d, rd_RequiresHumanApproval = False\<rparr>"

section \<open>Models\<close>

record ModelRequirement =
  mq_Capabilities :: "string list"
  mq_Locality :: string
  mq_MaxInputCostPer1K :: go_float

record ModelAllocation =
  ml_Primary :: ModelSpec
  ml_Escalation :: "ModelSpec option"
  ml_Reasons :: "string list"

definition inputCost :: "ModelSpec \<Rightarrow> go_float" where
  "inputCost m = (case mo_CostPer1KInput m of None \<Rightarrow> Finite 0 | Some c \<Rightarrow> c)"

definition hasCapability :: "ModelSpec \<Rightarrow> string \<Rightarrow> bool" where
  "hasCapability m c = list_ex (\<lambda>x. x = c) (mo_Capabilities m)"

definition satisfies :: "ModelSpec \<Rightarrow> ModelRequirement \<Rightarrow> bool" where
  "satisfies m q \<longleftrightarrow> mo_Available m \<and>
     \<not> (mq_Locality q \<noteq> [] \<and> mq_Locality q \<noteq> ''either'' \<and> mo_Locality m \<noteq> mq_Locality q) \<and>
     \<not> (float_lt (Finite 0) (mq_MaxInputCostPer1K q) \<and> float_lt (mq_MaxInputCostPer1K q) (inputCost m)) \<and>
     list_all (hasCapability m) (mq_Capabilities q)"

fun strongest_loop :: "ModelSpec list \<Rightarrow> ModelSpec option \<Rightarrow> ModelSpec option" where
  "strongest_loop [] best = best"
| "strongest_loop (m # ms) best =
     strongest_loop ms
       (if \<not> hasCapability m ''reasoning'' then best
        else (case best of None \<Rightarrow> Some m
          | Some b \<Rightarrow> if length (mo_Capabilities b) < length (mo_Capabilities m) \<or>
                (length (mo_Capabilities m) = length (mo_Capabilities b) \<and> model_id m < model_id b)
              then Some m else Some b))"

definition strongestReasoning :: "ModelSpec list \<Rightarrow> ModelSpec option" where
  "strongestReasoning ms = strongest_loop ms None"

text \<open>
  By cost, latency and id. \<open>float_rank\<close> orders the costs as \<open><\<close> does; when one of them is a NaN the comparison is no
  order, and Go leaves open how the models come out.
\<close>

definition model_order :: "ModelSpec \<Rightarrow> (int \<times> rat) \<times> int \<times> string" where
  "model_order m = (float_rank (inputCost m), mo_LatencyMS m, model_id m)"

definition Model_Allocate :: "ModelRegistry \<Rightarrow> ModelRequirement \<Rightarrow> ModelAllocation option" where
  "Model_Allocate reg q =
     (case sort_key model_order (filter (\<lambda>m. satisfies m q) (Models_List reg)) of
        [] \<Rightarrow> None
      | primary # rest \<Rightarrow>
          (if hasCapability primary ''reasoning''
           then Some \<lparr>ml_Primary = primary, ml_Escalation = None, ml_Reasons = [''lowest cost eligible model'']\<rparr>
           else (case strongestReasoning (primary # rest) of
               None \<Rightarrow> Some \<lparr>ml_Primary = primary, ml_Escalation = None, ml_Reasons = [''lowest cost eligible model'']\<rparr>
             | Some s \<Rightarrow> Some \<lparr>ml_Primary = primary, ml_Escalation = Some s,
                 ml_Reasons = [''lowest cost eligible model'', ''escalation target: reasoning-capable model'']\<rparr>)))"

section \<open>Compute\<close>

datatype compute_error = NegativeCounts | UnknownJustification string

record ComputeInput =
  cin_Units :: int
  cin_IndependentUnits :: int
  cin_Justification :: string
  cin_MaxConcurrency :: int
  cin_Budget :: Budget
  cin_Placement :: "string list"

record ComputePlan =
  cpl_Workers :: int
  cpl_Concurrency :: int
  cpl_Placement :: "string list"
  cpl_Justified :: bool
  cpl_Reason :: string

definition knownJustifications :: "string list" where
  "knownJustifications = [''latency'', ''quality'', ''coverage'', ''reliability'']"

definition Compute_Plan :: "ComputeInput \<Rightarrow> compute_error + ComputePlan" where
  "Compute_Plan i =
     (if cin_Units i < 0 \<or> cin_IndependentUnits i < 0 then Err NegativeCounts
      else if cin_Justification i \<noteq> [] \<and> cin_Justification i \<notin> set knownJustifications
        then Err (UnknownJustification (cin_Justification i))
      else let c = \<lparr>cpl_Workers = 1, cpl_Concurrency = 1, cpl_Placement = cin_Placement i, cpl_Justified = False,
                    cpl_Reason = ''no parallelism justification''\<rparr>;
               ceiling = (if cin_MaxConcurrency i < 1 then 1 else cin_MaxConcurrency i) in
      if cin_Justification i = [] then Ok c
      else if cin_IndependentUnits i \<le> 1 then Ok (c\<lparr>cpl_Reason := ''single independent unit; parallelism not useful''\<rparr>)
      else let w0 = (if ceiling < cin_IndependentUnits i then ceiling else cin_IndependentUnits i);
               w = (if w0 < 1 then 1 else w0) in
        Ok (c\<lparr>cpl_Workers := w, cpl_Concurrency := w, cpl_Justified := (1 < w),
              cpl_Reason := ''parallelism justified by '' @ cin_Justification i\<rparr>))"

section \<open>The execution plan\<close>

record AllocUnit =
  un_ID :: string
  un_Capabilities :: "string list"
  un_RequiresModel :: bool
  un_Model :: ModelRequirement

record AllocRequest =
  aq_ProjectID :: string
  aq_PlanID :: string
  aq_Units :: "AllocUnit list"
  aq_Compute :: ComputeInput

datatype alloc_error =
    NoUnits
  | UnitIDRequired
  | DuplicateUnit string
  | AllocCompute compute_error
  | ModelRegistryRequired string
  | NoModel string
  | AllocContract val_error

fun collect_units :: "AllocUnit list \<Rightarrow> (string, AllocUnit) fmap \<Rightarrow> alloc_error + (string, AllocUnit) fmap" where
  "collect_units [] m = Ok m"
| "collect_units (u # us) m =
     (if un_ID u = [] then Err UnitIDRequired
      else if fmlookup m (un_ID u) \<noteq> None then Err (DuplicateUnit (un_ID u))
      else collect_units us (fmupd (un_ID u) u m))"

definition primaryRole :: "string list \<Rightarrow> string" where
  "primaryRole cs = (case RolesFor cs of [] \<Rightarrow> [] | r # _ \<Rightarrow> r)"

definition assign_unit :: "ModelRegistry option \<Rightarrow> int \<Rightarrow> AllocUnit \<Rightarrow> alloc_error + PlanAssignment" where
  "assign_unit reg workers u =
     (if \<not> un_RequiresModel u then Ok \<lparr>pa_Role = primaryRole (un_Capabilities u), pa_Model = [], pa_Workers = workers\<rparr>
      else (case reg of None \<Rightarrow> Err (ModelRegistryRequired (un_ID u))
        | Some r \<Rightarrow> (case Model_Allocate r (un_Model u) of None \<Rightarrow> Err (NoModel (un_ID u))
          | Some a \<Rightarrow> Ok \<lparr>pa_Role = primaryRole (un_Capabilities u), pa_Model = model_id (ml_Primary a), pa_Workers = workers\<rparr>)))"

fun assign_units :: "ModelRegistry option \<Rightarrow> int \<Rightarrow> AllocUnit list \<Rightarrow> alloc_error + PlanAssignment list" where
  "assign_units reg workers [] = Ok []"
| "assign_units reg workers (u # us) =
     (case assign_unit reg workers u of Inl e \<Rightarrow> Err e
      | Inr a \<Rightarrow> (case assign_units reg workers us of Inl e \<Rightarrow> Err e | Inr bs \<Rightarrow> Ok (a # bs)))"

definition plan_of :: "AllocRequest \<Rightarrow> ComputePlan \<Rightarrow> PlanAssignment list \<Rightarrow> Budget ExecutionPlan" where
  "plan_of q c as =
     (let planID = (if aq_PlanID q = [] then ''plan'' else aq_PlanID q) in
      \<lparr>ep_Envelope = \<lparr>ev_ContractVersion = ''2.0'', ev_Kind = ''execution_plan'', ev_ID = ''epl_'' @ planID,
         ev_ProjectID = aq_ProjectID q, ev_CreatedAt = [], ev_Revision = None, ev_Provenance = None\<rparr>,
       ep_WorkPlan = None, ep_Assignments = as, ep_Budget = Some (cin_Budget (aq_Compute q)),
       ep_Concurrency = cpl_Concurrency c, ep_Placement = cpl_Placement c, ep_Constraints = []\<rparr>)"

definition Allocate :: "(string \<Rightarrow> time option) \<Rightarrow> AllocRequest \<Rightarrow> ModelRegistry option \<Rightarrow> alloc_error + Budget ExecutionPlan" where
  "Allocate parse q reg =
     (if aq_Units q = [] then Err NoUnits
      else (case collect_units (aq_Units q) fmempty of Inl e \<Rightarrow> Err e
       | Inr byID \<Rightarrow>
        (case Compute_Plan (aq_Compute q) of Inl e \<Rightarrow> Err (AllocCompute e)
         | Inr c \<Rightarrow>
          (case assign_units reg (cpl_Workers c) (fm_vals byID) of Inl e \<Rightarrow> Err e
           | Inr as \<Rightarrow>
              (case ExecutionPlan_Validate parse (plan_of q c as) of Some e \<Rightarrow> Err (AllocContract e)
               | None \<Rightarrow> Ok (plan_of q c as))))))"

end
