(* ===== verification/AllocationProps.thy ===== *)
theory AllocationProps
  imports Allocation
begin

text \<open>
  What an execution plan promises: a role, a model and workers for every unit, in the order of the units' ids; exactly when
  the allocator produces one; and what the routing policy lets through.
\<close>

section \<open>Models\<close>

definition eligible_models :: "ModelRegistry \<Rightarrow> ModelRequirement \<Rightarrow> ModelSpec set" where
  "eligible_models reg q = {m \<in> set (Models_List reg). mo_Available m \<and>
     (mq_Locality q \<in> {[], ''either''} \<or> mo_Locality m = mq_Locality q) \<and>
     (float_lt (Finite 0) (mq_MaxInputCostPer1K q) \<longrightarrow> \<not> float_lt (mq_MaxInputCostPer1K q) (inputCost m)) \<and>
     set (mq_Capabilities q) \<subseteq> set (mo_Capabilities m)}"

lemma eligible_models_satisfies: "eligible_models reg q = {m \<in> set (Models_List reg). satisfies m q}"
  by (auto simp: eligible_models_def satisfies_def hasCapability_def list_all_iff list_ex_iff)

definition cheapest :: "ModelRegistry \<Rightarrow> ModelRequirement \<Rightarrow> ModelSpec \<Rightarrow> bool" where
  "cheapest reg q m \<longleftrightarrow> m \<in> eligible_models reg q \<and> (\<forall>m' \<in> eligible_models reg q. model_order m \<le> model_order m')"

lemma strongest_loop_found:
  "strongest_loop ms best = Some s \<Longrightarrow> (s \<in> set ms \<and> hasCapability s ''reasoning'') \<or> best = Some s"
proof (induction ms arbitrary: best)
  case (Cons m ms)
  from Cons.IH [OF Cons.prems [unfolded strongest_loop.simps]] show ?case by (auto split: if_splits option.splits)
qed simp

lemma strongest_loop_None:
  "strongest_loop ms best = None \<longleftrightarrow> best = None \<and> \<not> list_ex (\<lambda>m. hasCapability m ''reasoning'') ms"
  by (induction ms arbitrary: best) (auto split: option.splits)

lemma Model_Allocate_primary:
  "Model_Allocate reg q = None \<longleftrightarrow> eligible_models reg q = {}"
  "Model_Allocate reg q = Some a \<Longrightarrow> cheapest reg q (ml_Primary a)"
proof -
  let ?ms = "sort_key model_order (filter (\<lambda>m. satisfies m q) (Models_List reg))"
  have set: "set ?ms = eligible_models reg q" by (auto simp: eligible_models_satisfies)
  have sorted: "sorted (map model_order ?ms)" by simp
  have ml: "\<exists>e rs. Model_Allocate reg q = Some \<lparr>ml_Primary = p, ml_Escalation = e, ml_Reasons = rs\<rparr>" if "?ms = p # rest" for p rest
    unfolding Model_Allocate_def that by (auto split: option.split)
  have none: "?ms = [] \<Longrightarrow> Model_Allocate reg q = None" by (simp add: Model_Allocate_def)
  show "Model_Allocate reg q = None \<longleftrightarrow> eligible_models reg q = {}"
  proof (cases ?ms)
    case Nil
    then show ?thesis using none set by simp
  next
    case (Cons p rest)
    then show ?thesis using ml [OF Cons] set by auto
  qed
  assume a: "Model_Allocate reg q = Some a"
  then obtain p rest where ms: "?ms = p # rest" using none by (cases ?ms) auto
  then have "ml_Primary a = p" using ml [OF ms] a by auto
  moreover have "\<forall>m \<in> set ?ms. model_order p \<le> model_order m" using sorted ms by auto
  moreover have "p \<in> set ?ms" using ms by simp
  ultimately show "cheapest reg q (ml_Primary a)" unfolding set cheapest_def by simp
qed

text \<open>An escalation target reasons, is eligible, and is only named for a primary that does not reason.\<close>

lemma Model_Allocate_escalation:
  assumes "Model_Allocate reg q = Some a"
  shows "case ml_Escalation a of
      Some s \<Rightarrow> s \<in> eligible_models reg q \<and> hasCapability s ''reasoning'' \<and> \<not> hasCapability (ml_Primary a) ''reasoning''
    | None \<Rightarrow> hasCapability (ml_Primary a) ''reasoning'' \<or> \<not> (\<exists>m \<in> eligible_models reg q. hasCapability m ''reasoning'')"
proof -
  let ?ms = "sort_key model_order (filter (\<lambda>m. satisfies m q) (Models_List reg))"
  have set: "set ?ms = eligible_models reg q" by (auto simp: eligible_models_satisfies)
  obtain p rest where ms: "?ms = p # rest" using assms by (cases ?ms) (auto simp: Model_Allocate_def)
  show ?thesis
  proof (cases "hasCapability p ''reasoning''")
    case True
    then show ?thesis using assms ms by (auto simp: Model_Allocate_def)
  next
    case False
    show ?thesis
    proof (cases "strongestReasoning ?ms")
      case None
      then have "\<not> (\<exists>m \<in> eligible_models reg q. hasCapability m ''reasoning'')"
        unfolding set [symmetric] by (simp add: strongestReasoning_def strongest_loop_None list_ex_iff)
      then show ?thesis using assms ms False None by (auto simp: Model_Allocate_def)
    next
      case (Some s)
      then have "s \<in> set ?ms \<and> hasCapability s ''reasoning''"
        using strongest_loop_found [of ?ms None s] by (simp only: strongestReasoning_def) simp
      then show ?thesis using assms ms False Some unfolding set by (auto simp: Model_Allocate_def)
    qed
  qed
qed

section \<open>Compute\<close>

lemma Compute_Plan_bounds:
  "Compute_Plan i = Ok c \<Longrightarrow> 1 \<le> cpl_Workers c \<and> cpl_Concurrency c = cpl_Workers c \<and> cpl_Workers c \<le> max 1 (cin_MaxConcurrency i) \<and>
     (1 < cpl_Workers c \<longrightarrow> cin_Justification i \<noteq> [] \<and> cpl_Workers c \<le> cin_IndependentUnits i)"
  by (auto simp: Compute_Plan_def Let_def split: if_splits)

lemma Compute_Plan_succeeds:
  "is_Ok (Compute_Plan i) \<longleftrightarrow> 0 \<le> cin_Units i \<and> 0 \<le> cin_IndependentUnits i \<and> cin_Justification i \<in> set ([] # knownJustifications)"
  by (auto simp: Compute_Plan_def Let_def)

section \<open>Units\<close>

lemma collect_units_succeeds:
  "is_Ok (collect_units us m) \<longleftrightarrow> distinct (map un_ID us) \<and> [] \<notin> set (map un_ID us) \<and> set (map un_ID us) \<inter> fmdom' m = {}"
proof (induction us arbitrary: m)
  case (Cons u us)
  show ?case
  proof (cases "un_ID u = [] \<or> fmlookup m (un_ID u) \<noteq> None")
    case True
    then show ?thesis by (auto simp: fmlookup_dom'_iff)
  next
    case False
    then show ?thesis using Cons.IH [of "fmupd (un_ID u) u m"] by (auto simp: fmlookup_dom'_iff)
  qed
qed simp

lemma collect_units_lookup:
  "collect_units us m = Ok m1 \<Longrightarrow> fmlookup m1 k = (case List.find (\<lambda>u. un_ID u = k) us of Some u \<Rightarrow> Some u | None \<Rightarrow> fmlookup m k)"
proof (induction us arbitrary: m)
  case (Cons u us)
  then have free: "fmlookup m (un_ID u) = None" and run: "collect_units us (fmupd (un_ID u) u m) = Ok m1" by (auto split: if_splits)
  have "is_Ok (collect_units us (fmupd (un_ID u) u m))" using run by simp
  then have "un_ID u \<notin> set (map un_ID us)" unfolding collect_units_succeeds by auto
  then have "List.find (\<lambda>u'. un_ID u' = un_ID u) us = None" unfolding find_None_iff by (metis imageI list.set_map)
  then show ?case using Cons.IH [OF run] by (auto split: option.splits)
qed simp

text \<open>The units are visited in the order of their ids, each once.\<close>

lemma collect_units_vals:
  assumes "collect_units us fmempty = Ok m"
  shows "fm_vals m = sort_key un_ID us"
proof -
  have ok: "distinct (map un_ID us)" using assms collect_units_succeeds [of us fmempty] by simp
  have look: "fmlookup m k = List.find (\<lambda>u. un_ID u = k) us" for k
    using collect_units_lookup [OF assms, of k] by (auto split: option.splits)
  have set: "set (fm_vals m) = set us"
  proof -
    have "List.find (\<lambda>u'. un_ID u' = un_ID u) us = Some u" if "u \<in> set us" for u
      using that ok by (induction us) auto
    then show ?thesis by (auto simp: set_fm_vals look find_Some_iff)
  qed
  have keys: "map un_ID (fm_vals m) = fm_keys m" by (rule fm_vals_keys) (auto simp: look find_Some_iff)
  have fm: "sorted (map un_ID (fm_vals m))" "distinct (map un_ID (fm_vals m))" unfolding keys by simp_all
  have "distinct (map un_ID (sort_key un_ID us))" using ok by (simp add: distinct_map)
  then have "map un_ID (fm_vals m) = map un_ID (sort_key un_ID us)"
    using fm set by (intro sorted_distinct_set_unique) simp_all
  moreover have "inj_on un_ID (set (fm_vals m) \<union> set (sort_key un_ID us))" using ok set by (simp add: distinct_map)
  ultimately show ?thesis by (metis inj_on_map_eq_map)
qed

lemma assign_units_all:
  "assign_units reg w us = Ok as \<longleftrightarrow> list_all2 (\<lambda>u a. assign_unit reg w u = Ok a) us as"
proof (induction us arbitrary: as)
  case (Cons u us)
  show ?case
  proof (cases "assign_unit reg w u")
    case (Inr a)
    show ?thesis
    proof (cases "assign_units reg w us")
      case (Inl e)
      then show ?thesis using Cons.IH Inr by (simp add: list_all2_Cons1)
    next
      case (Inr bs)
      then have "list_all2 (\<lambda>u a. assign_unit reg w u = Ok a) us cs \<longleftrightarrow> bs = cs" for cs using Cons.IH [of cs] by simp
      then show ?thesis using Inr \<open>assign_unit reg w u = Ok a\<close> by (auto simp: list_all2_Cons1)
    qed
  qed (simp add: list_all2_Cons1)
qed auto

section \<open>Roles\<close>

text \<open>Two of the roles that capabilities map to have a space in their name, which no contract identifier may have.\<close>

definition two_word_roles :: "string set" where
  "two_word_roles = {''General Contractor'', ''Site Engineer''}"

lemma capabilityRole_range:
  "capabilityRole c = Some r \<Longrightarrow> r \<in> set [''Surveyor'', ''Builder'', ''Inspector'', ''Site Engineer'', ''Commissioner'', ''General Contractor'']"
  by (auto simp: capabilityRole_def split: if_splits)

lemma primaryRole_range:
  "primaryRole cs \<in> set [[], ''Surveyor'', ''Builder'', ''Inspector'', ''Site Engineer'', ''Commissioner'', ''General Contractor'']"
proof (cases "RolesFor cs")
  case (Cons r rs)
  then have "r \<in> set (RolesFor cs)" by simp
  then obtain c where "capabilityRole c = Some r" by (auto simp: RolesFor_def List.map_filter_def)
  from capabilityRole_range [OF this] show ?thesis using Cons by (simp add: primaryRole_def)
qed (simp add: primaryRole_def)

lemma role_identifiers:
  "r \<in> set [[], ''Surveyor'', ''Builder'', ''Inspector'', ''Site Engineer'', ''Commissioner'', ''General Contractor''] \<Longrightarrow>
     OptionalIdentifier field r = None \<longleftrightarrow> r \<notin> two_word_roles"
  by (simp only: list.set insert_iff empty_iff simp_thms, elim disjE)
     (simp_all add: OptionalIdentifier_def RequireIdentifier_def identifierRE_def is_alnum_def is_digit_def two_word_roles_def Let_def)

section \<open>Plans\<close>

definition unit_planned :: "ModelRegistry option \<Rightarrow> int \<Rightarrow> AllocUnit \<Rightarrow> PlanAssignment \<Rightarrow> bool" where
  "unit_planned reg workers u a \<longleftrightarrow> pa_Role a = primaryRole (un_Capabilities u) \<and> pa_Workers a = workers \<and>
     (if un_RequiresModel u then \<exists>r m. reg = Some r \<and> cheapest r (un_Model u) m \<and> pa_Model a = model_id m else pa_Model a = [])"

definition unit_served :: "ModelRegistry option \<Rightarrow> AllocUnit \<Rightarrow> bool" where
  "unit_served reg u \<longleftrightarrow> (un_RequiresModel u \<longrightarrow> (\<exists>r. reg = Some r \<and> eligible_models r (un_Model u) \<noteq> {}))"

lemma assign_unit_planned: "assign_unit reg w u = Ok a \<Longrightarrow> unit_planned reg w u a"
  using Model_Allocate_primary(2)
  by (fastforce simp: assign_unit_def unit_planned_def split: if_splits option.splits)

lemma assign_unit_succeeds: "is_Ok (assign_unit reg w u) \<longleftrightarrow> unit_served reg u"
  by (auto simp: assign_unit_def unit_served_def Model_Allocate_primary(1) [symmetric] split: option.splits)

lemma assign_units_succeeds: "is_Ok (assign_units reg w us) \<longleftrightarrow> list_all (unit_served reg) us"
proof (induction us)
  case (Cons u us)
  then show ?case using assign_unit_succeeds [of reg w u] by (cases "assign_unit reg w u"; cases "assign_units reg w us") simp_all
qed simp

definition plan_header :: "AllocRequest \<Rightarrow> bool" where
  "plan_header q \<longleftrightarrow> RequireIdentifier ''id'' (''epl_'' @ (if aq_PlanID q = [] then ''plan'' else aq_PlanID q)) = None \<and>
     OptionalIdentifier ''projectId'' (aq_ProjectID q) = None"

lemma OptionalIdentifier_field: "OptionalIdentifier f x = None \<longleftrightarrow> OptionalIdentifier g x = None"
  by (simp add: OptionalIdentifier_def RequireIdentifier_def)

lemma plan_valid:
  "ExecutionPlan_Validate parse (plan_of q c as) = None \<longleftrightarrow> plan_header q \<and>
   list_all (\<lambda>a. OptionalIdentifier [] (pa_Role a) = None \<and> 0 \<le> pa_Workers a) as \<and> 0 \<le> cpl_Concurrency c"
proof -
  have "PlanAssignment_check j a = None \<longleftrightarrow> OptionalIdentifier [] (pa_Role a) = None \<and> 0 \<le> pa_Workers a" for j a
    using OptionalIdentifier_field [of "field_at ''assignments'' j ''.role''" "pa_Role a" "[]"] by (simp add: PlanAssignment_check_def)
  moreover have "RequireVersion ''contractVersion'' ''2.0'' = None" "RequireIdentifier ''kind'' ''execution_plan'' = None"
    "OptionalTimestamp parse ''createdAt'' [] = None"
    by code_simp+
  ultimately show ?thesis
    by (simp add: plan_of_def plan_header_def Let_def ExecutionPlan_Validate_def header_check_def Envelope_Validate_def list_all_length conj_ac)
qed

lemma planned_roles:
  assumes "list_all2 (unit_planned reg w) us as" and "0 \<le> w"
  shows "list_all (\<lambda>a. OptionalIdentifier [] (pa_Role a) = None \<and> 0 \<le> pa_Workers a) as \<longleftrightarrow>
    list_all (\<lambda>u. primaryRole (un_Capabilities u) \<notin> two_word_roles) us"
  using assms role_identifiers [OF primaryRole_range, of "[]"]
  by (induction us as rule: list_all2_induct) (simp_all add: unit_planned_def)

text \<open>The allocator step by step.\<close>

lemma Allocate_Ok:
  "Allocate parse q reg = Ok plan \<longleftrightarrow> (\<exists>c as. aq_Units q \<noteq> [] \<and> is_Ok (collect_units (aq_Units q) fmempty) \<and>
     Compute_Plan (aq_Compute q) = Ok c \<and> assign_units reg (cpl_Workers c) (sort_key un_ID (aq_Units q)) = Ok as \<and>
     ExecutionPlan_Validate parse (plan_of q c as) = None \<and> plan = plan_of q c as)"
proof (cases "collect_units (aq_Units q) fmempty")
  case (Inr m)
  then show ?thesis using collect_units_vals [OF Inr] by (auto simp: Allocate_def split: sum.splits option.splits)
qed (simp add: Allocate_def)

lemma assign_units_planned:
  "assign_units reg w us = Ok as \<Longrightarrow> list_all2 (unit_planned reg w) us as"
  using assign_unit_planned by (auto simp: assign_units_all elim: list_all2_mono)

text \<open>
  C26. An execution plan assigns every unit, in the order of the units' ids, the first role of its capabilities and, if it
  needs one, the id of an eligible model that comes first by cost, latency and id; every unit gets the plan's concurrency as
  its workers, which is one without a justification and never exceeds the ceiling or the number of independent units.
\<close>

theorem allocate_plan:
  assumes "Allocate parse q reg = Ok plan"
  shows "list_all2 (unit_planned reg (ep_Concurrency plan)) (sort_key un_ID (aq_Units q)) (ep_Assignments plan) \<and>
    ExecutionPlan_Validate parse plan = None \<and> 1 \<le> ep_Concurrency plan \<and>
    ep_Concurrency plan \<le> max 1 (cin_MaxConcurrency (aq_Compute q)) \<and>
    (1 < ep_Concurrency plan \<longrightarrow> cin_Justification (aq_Compute q) \<noteq> [] \<and>
       ep_Concurrency plan \<le> cin_IndependentUnits (aq_Compute q))"
proof -
  obtain c as where c: "Compute_Plan (aq_Compute q) = Ok c" and as: "assign_units reg (cpl_Workers c) (sort_key un_ID (aq_Units q)) = Ok as"
    and plan: "ExecutionPlan_Validate parse plan = None" "plan = plan_of q c as"
    using assms by (auto simp: Allocate_Ok)
  then show ?thesis using Compute_Plan_bounds [OF c] assign_units_planned [OF as] by (simp add: plan_of_def Let_def)
qed

text \<open>Two units as in the test of the package, with a registry of two models.\<close>

definition ex_no_budget :: Budget where
  "ex_no_budget = \<lparr>bu_MaxCalls = None, bu_MaxTokens = None, bu_MaxCostUSD = None, bu_MaxDurationSeconds = None\<rparr>"

definition ex_alloc_request :: AllocRequest where
  "ex_alloc_request = \<lparr>aq_ProjectID = ''prj_1'', aq_PlanID = ''wp_1'',
     aq_Units = [\<lparr>un_ID = ''u2'', un_Capabilities = [''run_tests''], un_RequiresModel = False,
                   un_Model = \<lparr>mq_Capabilities = [], mq_Locality = [], mq_MaxInputCostPer1K = Finite 0\<rparr>\<rparr>,
                 \<lparr>un_ID = ''u1'', un_Capabilities = [''write_workspace''], un_RequiresModel = True,
                   un_Model = \<lparr>mq_Capabilities = [''coding''], mq_Locality = ''local'', mq_MaxInputCostPer1K = Finite 0\<rparr>\<rparr>],
     aq_Compute = \<lparr>cin_Units = 2, cin_IndependentUnits = 2, cin_Justification = ''coverage'', cin_MaxConcurrency = 2,
       cin_Budget = ex_no_budget, cin_Placement = []\<rparr>\<rparr>"

definition ex_models :: ModelRegistry where
  "ex_models = fmap_of_list (map (\<lambda>m. (model_id m, m))
     [catalog_spec ex_floats ''ollama'' ''b'' 1 True [''coding''] None, catalog_spec ex_floats ''ollama'' ''a'' 1 True [''coding''] None])"

lemma default_registry_loads:
  "case NewDefaultRegistry ex_floats (\<lambda>_. None) of Inr r \<Rightarrow> Models_Count r = 10 | _ \<Rightarrow> False"
  by code_simp

theorem allocate_plan_witness:
  "\<exists>plan. Allocate (\<lambda>_. None) ex_alloc_request (Some ex_models) = Ok plan \<and> ep_Concurrency plan = 2 \<and>
     map pa_Role (ep_Assignments plan) = [''Builder'', ''Inspector''] \<and> map pa_Model (ep_Assignments plan) = [''mdl_ollama_a'', []] \<and>
     list_all2 (unit_planned (Some ex_models) 2) (sort_key un_ID (aq_Units ex_alloc_request)) (ep_Assignments plan)"
proof -
  have "case Allocate (\<lambda>_. None) ex_alloc_request (Some ex_models) of Inl _ \<Rightarrow> False
    | Inr plan \<Rightarrow> ep_Concurrency plan = 2 \<and> map pa_Role (ep_Assignments plan) = [''Builder'', ''Inspector''] \<and>
        map pa_Model (ep_Assignments plan) = [''mdl_ollama_a'', []]"
    by code_simp
  then obtain plan where "Allocate (\<lambda>_. None) ex_alloc_request (Some ex_models) = Ok plan" "ep_Concurrency plan = 2"
    "map pa_Role (ep_Assignments plan) = [''Builder'', ''Inspector'']" "map pa_Model (ep_Assignments plan) = [''mdl_ollama_a'', []]"
    by (auto split: sum.splits)
  then show ?thesis using allocate_plan by fastforce
qed

text \<open>
  C35. The allocator succeeds exactly when there are units with distinct non-empty ids, valid counts and a known
  justification, an eligible registered model for every unit that needs one, valid plan and project ids, and no unit whose
  first role is one of the two with a space in their name: such a unit always fails.
\<close>

theorem allocate_succeeds_iff:
  "is_Ok (Allocate parse q reg) \<longleftrightarrow> aq_Units q \<noteq> [] \<and> distinct (map un_ID (aq_Units q)) \<and> [] \<notin> set (map un_ID (aq_Units q)) \<and>
     0 \<le> cin_Units (aq_Compute q) \<and> 0 \<le> cin_IndependentUnits (aq_Compute q) \<and>
     cin_Justification (aq_Compute q) \<in> set ([] # knownJustifications) \<and> list_all (unit_served reg) (aq_Units q) \<and> plan_header q \<and>
     list_all (\<lambda>u. primaryRole (un_Capabilities u) \<notin> {''General Contractor'', ''Site Engineer''}) (aq_Units q)"
proof -
  let ?us = "sort_key un_ID (aq_Units q)"
  have sorted: "list_all P ?us = list_all P (aq_Units q)" for P by (simp add: list_all_iff)
  have valid: "ExecutionPlan_Validate parse (plan_of q c as) = None \<longleftrightarrow>
      plan_header q \<and> list_all (\<lambda>u. primaryRole (un_Capabilities u) \<notin> two_word_roles) (aq_Units q)"
    if "Compute_Plan (aq_Compute q) = Ok c" "assign_units reg (cpl_Workers c) ?us = Ok as" for c as
    using planned_roles [OF assign_units_planned [OF that(2)]] Compute_Plan_bounds [OF that(1)] by (simp add: plan_valid sorted)
  have "is_Ok (Allocate parse q reg) \<longleftrightarrow> aq_Units q \<noteq> [] \<and> is_Ok (collect_units (aq_Units q) fmempty) \<and>
     is_Ok (Compute_Plan (aq_Compute q)) \<and> list_all (unit_served reg) (aq_Units q) \<and> plan_header q \<and>
     list_all (\<lambda>u. primaryRole (un_Capabilities u) \<notin> two_word_roles) (aq_Units q)"
    (is "?l \<longleftrightarrow> ?r")
  proof
    assume ?l
    then obtain plan where "Allocate parse q reg = Ok plan" by (auto simp: is_Ok_iff)
    then obtain c as where steps: "aq_Units q \<noteq> []" "is_Ok (collect_units (aq_Units q) fmempty)" "Compute_Plan (aq_Compute q) = Ok c"
      "assign_units reg (cpl_Workers c) ?us = Ok as" "ExecutionPlan_Validate parse (plan_of q c as) = None" by (auto simp: Allocate_Ok)
    then show ?r using valid [OF steps(3,4)] assign_units_succeeds [of reg "cpl_Workers c" ?us] by (simp add: sorted)
  next
    assume r: ?r
    then obtain c where c: "Compute_Plan (aq_Compute q) = Ok c" by (auto simp: is_Ok_iff)
    obtain as where as: "assign_units reg (cpl_Workers c) ?us = Ok as"
      using r assign_units_succeeds [of reg "cpl_Workers c" ?us] by (auto simp: sorted is_Ok_iff)
    then show ?l using r c valid [OF c as] by (auto simp: is_Ok_iff Allocate_Ok)
  qed
  then show ?thesis unfolding collect_units_succeeds Compute_Plan_succeeds two_word_roles_def by auto
qed

section \<open>Routing\<close>

lemma Decide_Ok:
  assumes "Decide F r = Ok d"
  shows "dc_Escalate d = preferExpert (rt_Policy r) (rt_Significance r) \<and> dc_Significance d = rt_Significance r \<and>
    dc_EstimatedCostUSD d = estimateCost F r \<and> dc_Locality d = (if dc_Escalate d then ''cloud'' else ''local'') \<and>
    dc_Tier d = (if dc_Escalate d then ''expert'' else ''local'') \<and>
    (dc_Blocked d \<longleftrightarrow> dc_Escalate d \<and> (\<not> rt_CloudAllowed r \<or>
       (\<exists>m. bu_MaxCostUSD (rt_Budget r) = Some m \<and> float_lt m (estimateCost F r))))"
  using assms unfolding Decide_def Let_def
  by (cases "preferExpert (rt_Policy r) (rt_Significance r)"; cases "bu_MaxCostUSD (rt_Budget r)") (auto split: if_splits)

text \<open>
  The local tier is never blocked. The expert tier is chosen exactly where policy and significance ask for it, and is
  blocked unless the profile allows the cloud and the estimated cost is not above the budget. The contract passed on is
  valid exactly for a known or empty significance and a cost that is not negative.
\<close>

lemma routing_gate:
  assumes "Decide F r = Ok d"
  shows "(dc_Escalate d \<longleftrightarrow> preferExpert (rt_Policy r) (rt_Significance r)) \<and>
    (dc_Blocked d \<longleftrightarrow> dc_Escalate d \<and> (\<not> rt_CloudAllowed r \<or>
       (\<exists>m. bu_MaxCostUSD (rt_Budget r) = Some m \<and> float_lt m (estimateCost F r)))) \<and>
    (RoutingDecision_Validate (Decision_Contract d) = None \<longleftrightarrow>
       rt_Significance r \<in> set ([] # decision_levels) \<and> \<not> float_lt (estimateCost F r) (Finite 0))"
proof -
  have below: "float_below 0 x = float_lt x (Finite 0)" for x by (cases x) (auto simp: float_below_def)
  note d = Decide_Ok [OF assms]
  have "RequireEnum f x xs = None \<longleftrightarrow> x \<in> set xs" for f x xs by (auto simp: RequireEnum_def list_ex_iff)
  moreover have "optional_check x c = None \<longleftrightarrow> x = [] \<or> c = None" for x c by (simp add: optional_check_def)
  ultimately have "RoutingDecision_Validate (Decision_Contract d) = None \<longleftrightarrow>
      rt_Significance r \<in> set ([] # decision_levels) \<and> \<not> float_lt (estimateCost F r) (Finite 0)"
    using d by (cases "dc_Escalate d") (simp_all add: RoutingDecision_Validate_def Decision_Contract_def below)
  then show ?thesis using d by blast
qed

definition ex_routing_request :: RoutingRequest where
  "ex_routing_request = \<lparr>rt_Policy = ''expert_first'', rt_Significance = ''major'', rt_CloudAllowed = True, rt_EstimatedInputTokens = 1000,
     rt_EstimatedOutputTokens = 0, rt_ExpertInputCostPer1K = Finite 2, rt_ExpertOutputCostPer1K = Finite 0,
     rt_Budget = ex_no_budget\<lparr>bu_MaxCostUSD := Some (Finite 1)\<rparr>\<rparr>"

text \<open>The budget-constrained policy decides like the adaptive one: over budget it blocks and does not fall back to local.\<close>

lemma budget_constrained_is_adaptive:
  "Decide F (r\<lparr>rt_Policy := ''budget_constrained''\<rparr>) = Decide F (r\<lparr>rt_Policy := ''adaptive''\<rparr>)"
  by (cases "bu_MaxCostUSD (rt_Budget r)") (simp_all add: Decide_def knownPolicy_def preferExpert_def estimateCost_def Let_def)

end
