(* ===== verification/JobCluster.thy ===== *)
theory JobCluster
  imports JobLearnProps
begin

text \<open>
  \<open>kernel/joblearn/similarity\<close>: features of results, clusters of similar results by a breadth-first search, and
  conflicting candidates. The lists \<open>visited\<close> and \<open>ordered\<close> are indexed as in the code.
\<close>

section \<open>Similarity\<close>

definition bucket :: "FloatOps \<Rightarrow> go_float \<Rightarrow> string" where
  "bucket F v = (if float_lt v (fa_lit F (34 / 100)) then ''low'' else if float_lt v (fa_lit F (67 / 100)) then ''mid'' else ''high'')"

definition feature :: "string \<Rightarrow> string \<Rightarrow> string list" where
  "feature prefix v = (if v \<noteq> [] then [prefix @ '':'' @ v] else [])"

definition Features :: "FloatOps \<Rightarrow> AttrResult \<Rightarrow> string list" where
  "Features F r =
     dedup_by (\<lambda>x. x) [] (sort (feature ''role'' (jat_Role (jr_Attribution r)) @ feature ''outcome'' (jat_Outcome (jr_Attribution r))
       @ feature ''cost'' (bucket F (jsc_Cost (jr_Score r))) @ feature ''duration'' (bucket F (jsc_Duration (jr_Score r)))))"

definition jaccard :: "FloatOps \<Rightarrow> string list \<Rightarrow> string list \<Rightarrow> go_float" where
  "jaccard F a b =
     (if a = [] \<and> b = [] then Finite 0
      else let common = int (length (filter (\<lambda>v. v \<in> set a) b)); union = int (length a) + int (length b) - common in
        if union = 0 then Finite 0 else fa_div F (fa_int F common) (fa_int F union))"

definition Similarity :: "FloatOps \<Rightarrow> AttrResult \<Rightarrow> AttrResult \<Rightarrow> go_float" where
  "Similarity F a b = jaccard F (Features F a) (Features F b)"

section \<open>Clusters\<close>

text \<open>The loop over \<open>j\<close> for one result taken from the queue: unvisited neighbours are marked and queued.\<close>

fun scan_row :: "(nat \<Rightarrow> bool) \<Rightarrow> nat list \<Rightarrow> bool list \<times> nat list \<Rightarrow> bool list \<times> nat list" where
  "scan_row near [] s = s"
| "scan_row near (j # js) (visited, queue) =
     scan_row near js
       (if visited ! j then (visited, queue) else if near j then (visited[j := True], queue @ [j]) else (visited, queue))"

lemma scan_row_result:
  "distinct js \<Longrightarrow> \<forall>j \<in> set js. j < length visited \<Longrightarrow> scan_row near js (visited, queue) = (visited1, queue1) \<Longrightarrow>
     queue1 = queue @ filter (\<lambda>j. \<not> visited ! j \<and> near j) js \<and> length visited1 = length visited \<and>
     (\<forall>k < length visited. visited1 ! k \<longleftrightarrow> visited ! k \<or> k \<in> set (filter (\<lambda>j. \<not> visited ! j \<and> near j) js))"
proof (induction js arbitrary: visited queue)
  case (Cons j js)
  let ?s = "if visited ! j then (visited, queue) else if near j then (visited[j := True], queue @ [j]) else (visited, queue)"
  obtain v q where s: "?s = (v, q)" by fastforce
  have run: "scan_row near js (v, q) = (visited1, queue1)" using Cons.prems(3) s by simp
  have len: "length v = length visited" using s by (auto split: if_splits)
  have same: "filter (\<lambda>i. \<not> v ! i \<and> near i) js = filter (\<lambda>i. \<not> visited ! i \<and> near i) js"
    using s Cons.prems(1,2) by (intro filter_cong) (auto split: if_splits simp: nth_list_update)
  from Cons.IH [OF _ _ run] Cons.prems len
  have IH: "queue1 = q @ filter (\<lambda>i. \<not> visited ! i \<and> near i) js" "length visited1 = length visited"
    "\<forall>k < length visited. visited1 ! k \<longleftrightarrow> v ! k \<or> k \<in> set (filter (\<lambda>i. \<not> visited ! i \<and> near i) js)"
    by (simp_all add: same)
  then show ?case using s Cons.prems(2) by (auto split: if_splits simp: nth_list_update)
qed auto

definition unvisited :: "bool list \<Rightarrow> nat" where "unvisited v = length (filter Not v)"

lemma scan_row_measure:
  assumes "scan_row near [0..<length visited] (visited, queue) = (visited1, queue1)"
  shows "unvisited visited1 + length queue1 = unvisited visited + length queue"
proof -
  let ?new = "filter (\<lambda>j. \<not> visited ! j \<and> near j) [0..<length visited]"
  from scan_row_result [OF _ _ assms]
  have r: "queue1 = queue @ ?new" "length visited1 = length visited"
    "\<forall>k < length visited. visited1 ! k \<longleftrightarrow> visited ! k \<or> k \<in> set ?new" by simp_all
  let ?U = "{k. k < length visited \<and> \<not> visited1 ! k}"
  have "{k. k < length visited \<and> \<not> visited ! k} = ?U \<union> set ?new" using r(3) by auto
  moreover have "?U \<inter> set ?new = {}" using r(3) by auto
  ultimately have "card {k. k < length visited \<and> \<not> visited ! k} = card ?U + length ?new"
    by (simp add: card_Un_disjoint distinct_card [of ?new, symmetric] del: set_filter)
  then show ?thesis using r(1,2) by (simp add: unvisited_def length_filter_conv_card)
qed

text \<open>The loop over the queue. It ends: each round takes one from the queue and moves the rest from unvisited to it.\<close>

function bfs :: "(nat \<Rightarrow> nat \<Rightarrow> bool) \<Rightarrow> bool list \<Rightarrow> nat list \<Rightarrow> nat list \<Rightarrow> bool list \<times> nat list" where
  "bfs near visited [] members = (visited, members)"
| "bfs near visited (cur # queue) members =
     (case scan_row (near cur) [0..<length visited] (visited, queue) of
        (visited1, queue1) \<Rightarrow> bfs near visited1 queue1 (members @ [cur]))"
  by pat_completeness auto

termination
  by (relation "measure (\<lambda>(near, visited, queue, members). unvisited visited + length queue)")
     (auto dest!: scan_row_measure [OF sym])

fun cluster_loop :: "(nat \<Rightarrow> nat \<Rightarrow> bool) \<Rightarrow> nat list \<Rightarrow> bool list \<Rightarrow> nat list list" where
  "cluster_loop near [] visited = []"
| "cluster_loop near (i # is) visited =
     (if visited ! i then cluster_loop near is visited
      else case bfs near (visited[i := True]) [i] [] of (visited1, members) \<Rightarrow> sort members # cluster_loop near is visited1)"

definition resultKey :: "FloatOps \<Rightarrow> AttrResult \<Rightarrow> string" where
  "resultKey F r =
     (let a = jr_Attribution r; s = jr_Score r in
      strings_Join ''|'' [jat_ProjectID a, jat_Role a, jat_WorkPackageID a, jat_AttemptID a, itoa_int (jat_Sequence a),
        fa_show F (jsc_Cost s), fa_show F (jsc_Overall s)])"

definition index_clusters :: "FloatOps \<Rightarrow> go_float \<Rightarrow> AttrResult list \<Rightarrow> nat list list" where
  "index_clusters F threshold ordered =
     (let features = map (Features F) ordered; n = length ordered in
      cluster_loop (\<lambda>i j. float_le threshold (jaccard F (features ! i) (features ! j))) [0..<n] (replicate n False))"

definition Cluster :: "FloatOps \<Rightarrow> AttrResult list \<Rightarrow> go_float \<Rightarrow> learn_error + AttrResult list list" where
  "Cluster F rs threshold =
     (if outside_unit threshold then Err (JlInvalid ''threshold is outside [0,1]'')
      else if rs = [] then Ok []
      else let ordered = sort_key (resultKey F) rs in Ok (map (map ((!) ordered)) (index_clusters F threshold ordered)))"

section \<open>Conflicts\<close>

record CandidateConflict =
  cf_A :: LearnedCandidate
  cf_B :: LearnedCandidate
  cf_Reason :: string

definition polarity :: "string \<Rightarrow> int" where
  "polarity kind = (if kind = ''pattern'' \<or> kind = ''strategy'' then 1 else if kind = ''pitfall'' then -1 else 0)"

definition intersects :: "string list \<Rightarrow> string list \<Rightarrow> bool" where
  "intersects x y \<longleftrightarrow> x \<noteq> [] \<and> y \<noteq> [] \<and> list_ex (\<lambda>v. v \<in> set x) y"

definition overlap :: "Applicability option \<Rightarrow> Applicability option \<Rightarrow> bool" where
  "overlap a b = (case (a, b) of (Some x, Some y) \<Rightarrow>
     intersects (ap_Roles x) (ap_Roles y) \<or> intersects (ap_Languages x) (ap_Languages y) | _ \<Rightarrow> False)"

definition sameSubject :: "LearnedCandidate \<Rightarrow> LearnedCandidate \<Rightarrow> bool" where
  "sameSubject a b \<longleftrightarrow> (jc_Scope a \<noteq> [] \<and> jc_Scope a = jc_Scope b) \<or>
     (jc_Level a = jc_Level b \<and> overlap (jc_Applicability a) (jc_Applicability b))"

definition candidateKey :: "LearnedCandidate \<Rightarrow> string" where
  "candidateKey c = strings_Join ''|'' [jc_Kind c, jc_Level c, jc_Scope c, jc_Title c]"

definition orderPair :: "LearnedCandidate \<Rightarrow> LearnedCandidate \<Rightarrow> LearnedCandidate \<times> LearnedCandidate" where
  "orderPair a b = (if candidateKey b < candidateKey a then (b, a) else (a, b))"

definition conflicting :: "LearnedCandidate \<Rightarrow> LearnedCandidate \<Rightarrow> bool" where
  "conflicting a b \<longleftrightarrow> sameSubject a b \<and> polarity (jc_Kind a) \<noteq> 0 \<and> polarity (jc_Kind b) \<noteq> 0 \<and>
     polarity (jc_Kind a) = - polarity (jc_Kind b)"

fun candidate_pairs :: "LearnedCandidate list \<Rightarrow> (LearnedCandidate \<times> LearnedCandidate) list" where
  "candidate_pairs [] = []"
| "candidate_pairs (a # cs) = map (Pair a) cs @ candidate_pairs cs"

definition pair_key :: "LearnedCandidate \<times> LearnedCandidate \<Rightarrow> string" where
  "pair_key p = candidateKey (fst p) @ [CHR 0x00] @ candidateKey (snd p)"

definition mk_conflict :: "LearnedCandidate \<times> LearnedCandidate \<Rightarrow> CandidateConflict" where
  "mk_conflict p = \<lparr>cf_A = fst p, cf_B = snd p,
     cf_Reason = jc_Kind (fst p) @ '' and '' @ jc_Kind (snd p) @ '' target the same subject''\<rparr>"

definition Conflicts :: "LearnedCandidate list \<Rightarrow> CandidateConflict list" where
  "Conflicts cs =
     sort_key (\<lambda>x. (candidateKey (cf_A x), candidateKey (cf_B x)))
       (map mk_conflict (dedup_by pair_key []
         (map (\<lambda>(a, b). orderPair a b) (filter (\<lambda>(a, b). conflicting a b) (candidate_pairs cs)))))"

section \<open>Clusters are connected components\<close>

definition edges :: "(nat \<Rightarrow> nat \<Rightarrow> bool) \<Rightarrow> nat \<Rightarrow> (nat \<times> nat) set" where
  "edges near n = {(i, j). i < n \<and> j < n \<and> near i j}"

text \<open>
  The state of a search from \<open>i\<close> when the results of \<open>V\<close> were visited before it: the members and the queue are what it
  has reached, and the neighbours of the members are visited.
\<close>

definition search_ok :: "(nat \<Rightarrow> nat \<Rightarrow> bool) \<Rightarrow> nat set \<Rightarrow> nat \<Rightarrow> bool list \<Rightarrow> nat list \<Rightarrow> nat list \<Rightarrow> bool" where
  "search_ok near V i visited queue members \<longleftrightarrow>
     (\<forall>k < length visited. visited ! k \<longleftrightarrow> k \<in> V \<union> set members \<union> set queue) \<and>
     distinct (members @ queue) \<and> (set members \<union> set queue) \<inter> V = {} \<and> i \<in> set members \<union> set queue \<and>
     (\<forall>k \<in> set members \<union> set queue. k < length visited \<and> (i, k) \<in> (edges near (length visited))\<^sup>*) \<and>
     (\<forall>k \<in> set members. \<forall>j < length visited. near k j \<longrightarrow> j \<in> V \<union> set members \<union> set queue)"

lemma search_step:
  assumes ok: "search_ok near V i visited (cur # queue) members"
    and scan: "scan_row (near cur) [0..<length visited] (visited, queue) = (visited1, queue1)"
  shows "search_ok near V i visited1 queue1 (members @ [cur]) \<and> length visited1 = length visited"
proof -
  let ?new = "filter (\<lambda>j. \<not> visited ! j \<and> near cur j) [0..<length visited]"
  from scan_row_result [OF _ _ scan]
  have q: "queue1 = queue @ ?new" and len: "length visited1 = length visited"
    and v: "\<forall>k < length visited. visited1 ! k \<longleftrightarrow> visited ! k \<or> k \<in> set ?new" by simp_all
  have fresh: "k \<notin> V \<union> set members \<union> set (cur # queue)" if "k \<in> set ?new" for k
    using ok that by (auto simp: search_ok_def)
  have cur: "cur < length visited" "(i, cur) \<in> (edges near (length visited))\<^sup>*" using ok by (simp_all add: search_ok_def)
  have reach: "(i, k) \<in> (edges near (length visited))\<^sup>*" if "k \<in> set ?new" for k
    using rtrancl.rtrancl_into_rtrancl [OF cur(2), of k] cur(1) that by (simp add: edges_def)
  have visited: "\<forall>k < length visited. visited1 ! k \<longleftrightarrow> k \<in> V \<union> set (members @ [cur]) \<union> set queue1"
    using ok v unfolding q by (auto simp: search_ok_def)
  have old: "distinct (members @ cur # queue)" "(set members \<union> set (cur # queue)) \<inter> V = {}"
    using ok by (simp_all add: search_ok_def)
  have apart: "set ?new \<inter> (V \<union> set members \<union> set (cur # queue)) = {}" using fresh by blast
  have "distinct ?new" by simp
  moreover have "set (members @ cur # queue) \<inter> set ?new = {}" using apart by auto
  ultimately have "distinct ((members @ cur # queue) @ ?new)" using old(1) by (subst distinct_append) blast
  then have "distinct ((members @ [cur]) @ queue1)" unfolding q by simp
  moreover have "(set (members @ [cur]) \<union> set queue1) \<inter> V = {}" using old(2) apart unfolding q by auto
  moreover have "\<forall>k \<in> set (members @ [cur]) \<union> set queue1. k < length visited \<and> (i, k) \<in> (edges near (length visited))\<^sup>*"
    using ok reach unfolding q by (auto simp: search_ok_def)
  moreover have "\<forall>k \<in> set (members @ [cur]). \<forall>j < length visited. near k j \<longrightarrow> j \<in> V \<union> set (members @ [cur]) \<union> set queue1"
    using ok unfolding q by (auto simp: search_ok_def)
  moreover have "i \<in> set (members @ [cur]) \<union> set queue1" using ok unfolding q by (auto simp: search_ok_def)
  ultimately show ?thesis using visited by (simp add: search_ok_def len)
qed

lemma bfs_ok:
  "search_ok near V i visited queue members \<Longrightarrow> bfs near visited queue members = (visited1, found) \<Longrightarrow>
     search_ok near V i visited1 [] found \<and> length visited1 = length visited"
proof (induction near visited queue members rule: bfs.induct)
  case (2 near visited cur queue members)
  obtain v q where scan: "scan_row (near cur) [0..<length visited] (visited, queue) = (v, q)" by fastforce
  note step = search_step [OF "2.prems"(1) scan]
  have "bfs near v q (members @ [cur]) = (visited1, found)" using "2.prems"(2) scan by simp
  from "2.IH" [OF scan [symmetric] _ this] step show ?case by simp
qed simp

text \<open>With a symmetric relation and \<open>V\<close> closed under it, the search finds exactly what is connected to its start.\<close>

lemma search_end:
  assumes sym: "\<And>i j. i < length visited \<Longrightarrow> j < length visited \<Longrightarrow> near i j \<longleftrightarrow> near j i"
    and closed: "\<forall>a \<in> V. \<forall>b < length visited. near a b \<longrightarrow> b \<in> V"
    and ok: "search_ok near V i visited [] found"
  shows "set found = {k. (i, k) \<in> (edges near (length visited))\<^sup>*}"
proof
  show "set found \<subseteq> {k. (i, k) \<in> (edges near (length visited))\<^sup>*}" using ok by (auto simp: search_ok_def)
  have "(i, k) \<in> (edges near (length visited))\<^sup>* \<Longrightarrow> k \<in> set found" for k
  proof (induction rule: rtrancl_induct)
    case base
    show ?case using ok by (simp add: search_ok_def)
  next
    case (step y z)
    then have y: "y \<in> set found" "y < length visited" "z < length visited" "near y z" by (auto simp: edges_def)
    then have "z \<in> V \<union> set found" using ok by (simp add: search_ok_def)
    moreover have "z \<notin> V"
    proof
      assume "z \<in> V"
      moreover have "near z y" using y sym by simp
      ultimately have "y \<in> V" using closed y by blast
      then show False using ok y(1) by (auto simp: search_ok_def)
    qed
    ultimately show ?case by simp
  qed
  then show "{k. (i, k) \<in> (edges near (length visited))\<^sup>*} \<subseteq> set found" by blast
qed

definition components :: "(nat \<Rightarrow> nat \<Rightarrow> bool) \<Rightarrow> nat \<Rightarrow> nat set \<Rightarrow> nat list list \<Rightarrow> bool" where
  "components near n S cs \<longleftrightarrow> distinct (concat cs) \<and> set (concat cs) = S \<and>
     (\<forall>c \<in> set cs. c \<noteq> [] \<and> sorted c \<and> (\<forall>i \<in> set c. set c = {k. (i, k) \<in> (edges near n)\<^sup>*}))"

lemma edges_sym: "(\<And>i j. i < n \<Longrightarrow> j < n \<Longrightarrow> near i j \<longleftrightarrow> near j i) \<Longrightarrow> (i, j) \<in> (edges near n)\<^sup>* \<Longrightarrow> (j, i) \<in> (edges near n)\<^sup>*"
  by (rule symD [OF sym_rtrancl]) (auto simp: sym_def edges_def)

lemma cluster_loop_components:
  assumes sym: "\<And>i j. i < n \<Longrightarrow> j < n \<Longrightarrow> near i j \<longleftrightarrow> near j i"
  shows "length visited = n \<Longrightarrow> \<forall>k < n. visited ! k \<longleftrightarrow> k \<in> V \<Longrightarrow> V \<subseteq> {..<n} \<Longrightarrow>
     \<forall>a \<in> V. \<forall>b < n. near a b \<longrightarrow> b \<in> V \<Longrightarrow> {..<n} - V \<subseteq> set is \<Longrightarrow> set is \<subseteq> {..<n} \<Longrightarrow>
     components near n ({..<n} - V) (cluster_loop near is visited)"
proof (induction "is" arbitrary: visited V)
  case Nil
  then show ?case by (auto simp: components_def)
next
  case (Cons i "is")
  show ?case
  proof (cases "visited ! i")
    case True
    then have "i \<in> V" using Cons.prems by simp
    then have "{..<n} - V \<subseteq> set is" using Cons.prems(5) by auto
    then show ?thesis using Cons.IH [of visited V] Cons.prems True by simp
  next
    case False
    have i: "i < n" "i \<notin> V" using Cons.prems False by auto
    obtain v found where b: "bfs near (visited[i := True]) [i] [] = (v, found)" by fastforce
    have "search_ok near V i (visited[i := True]) [i] []"
      using Cons.prems(1,2) i by (auto simp: search_ok_def nth_list_update)
    from bfs_ok [OF this b] Cons.prems(1) have ok: "search_ok near V i v [] found" "length v = n" by simp_all
    have found: "set found = {k. (i, k) \<in> (edges near n)\<^sup>*}"
      using search_end [of v near V i found] sym ok Cons.prems(4) by simp
    have fresh: "distinct found" "set found \<inter> V = {}" "set found \<subseteq> {..<n}" "i \<in> set found"
      using ok by (auto simp: search_ok_def)
    let ?W = "V \<union> set found"
    have "components near n ({..<n} - ?W) (cluster_loop near is v)"
    proof (rule Cons.IH)
      show "length v = n" "\<forall>k < n. v ! k \<longleftrightarrow> k \<in> ?W" using ok by (auto simp: search_ok_def)
      show "?W \<subseteq> {..<n}" using Cons.prems(3) fresh(3) by blast
      show "\<forall>a \<in> ?W. \<forall>b < n. near a b \<longrightarrow> b \<in> ?W"
        using Cons.prems(4) ok by (auto simp: search_ok_def)
      show "{..<n} - ?W \<subseteq> set is" "set is \<subseteq> {..<n}" using Cons.prems(5,6) fresh(4) by auto
    qed
    moreover have "set (sort found) = {k. (j, k) \<in> (edges near n)\<^sup>*}" if "j \<in> set found" for j
    proof -
      have ij: "(i, j) \<in> (edges near n)\<^sup>*" using that found by blast
      have "(j, i) \<in> (edges near n)\<^sup>*" by (rule edges_sym [OF sym ij])
      then have "(i, k) \<in> (edges near n)\<^sup>* \<longleftrightarrow> (j, k) \<in> (edges near n)\<^sup>*" for k
        using rtrancl_trans [OF ij, of k] rtrancl_trans [of j i _ k] by blast
      then show ?thesis using found by simp
    qed
    moreover have "{..<n} - V = set found \<union> ({..<n} - ?W)" using fresh by auto
    ultimately show ?thesis using False b fresh by (auto simp: components_def)
  qed
qed

lemma Features_distinct: "distinct (Features F r)"
proof -
  have "distinct (dedup_by (\<lambda>x. x) seen xs) \<and> set (dedup_by (\<lambda>x. x) seen xs) \<inter> set seen = {}" for seen xs :: "string list"
    by (induction "\<lambda>x::string. x" seen xs rule: dedup_by.induct) auto
  then show ?thesis by (simp add: Features_def)
qed

lemma Similarity_sym: "Similarity F a b = Similarity F b a"
proof -
  have "length (filter (\<lambda>v. v \<in> set x) y) = card (set x \<inter> set y)" if "distinct y" for x y :: "string list"
  proof -
    have "set (filter (\<lambda>v. v \<in> set x) y) = set x \<inter> set y" by auto
    then show ?thesis using distinct_card [OF distinct_filter [OF that]] by metis
  qed
  then show ?thesis using Features_distinct by (simp add: Similarity_def jaccard_def Let_def Int_commute add.commute conj_commute)
qed

definition alike :: "FloatOps \<Rightarrow> go_float \<Rightarrow> AttrResult list \<Rightarrow> (nat \<times> nat) set" where
  "alike F threshold rs =
     {(i, j). i < length rs \<and> j < length rs \<and> float_le threshold (Similarity F (rs ! i) (rs ! j))}"

lemma index_clusters_ok:
  "distinct (concat (index_clusters F th rs)) \<and> set (concat (index_clusters F th rs)) = {..<length rs} \<and>
   (\<forall>c \<in> set (index_clusters F th rs). c \<noteq> [] \<and> sorted c \<and> (\<forall>i \<in> set c. set c = {j. (i, j) \<in> (alike F th rs)\<^sup>*}))"
proof -
  let ?near = "\<lambda>i j. float_le th (jaccard F (map (Features F) rs ! i) (map (Features F) rs ! j))"
  have sym: "?near i j \<longleftrightarrow> ?near j i" if "i < length rs" "j < length rs" for i j
    using that Similarity_sym [of F "rs ! i" "rs ! j"] by (simp add: Similarity_def)
  have "edges ?near (length rs) = alike F th rs"
    by (auto simp: edges_def alike_def Similarity_def)
  moreover have "components ?near (length rs) ({..<length rs} - {}) (cluster_loop ?near [0..<length rs] (replicate (length rs) False))"
    using sym by (rule cluster_loop_components) auto
  moreover have "index_clusters F th rs = cluster_loop ?near [0..<length rs] (replicate (length rs) False)"
    by (simp add: index_clusters_def Let_def)
  ultimately show ?thesis by (simp add: components_def)
qed

text \<open>
  C29. Clustering splits the results into the connected components of the relation of being similar enough: the clusters
  hold every result once, and two results share a cluster exactly when a chain of similar results links them.
\<close>

theorem clusters_are_components:
  assumes "Cluster F rs threshold = Ok clusters"
  shows "mset (concat clusters) = mset rs \<and>
    (\<exists>ordered index. mset ordered = mset rs \<and> clusters = map (map ((!) ordered)) index \<and>
       distinct (concat index) \<and> set (concat index) = {..<length ordered} \<and>
       (\<forall>c \<in> set index. c \<noteq> [] \<and> sorted c \<and> (\<forall>i \<in> set c. set c = {j. (i, j) \<in> (alike F threshold ordered)\<^sup>*})))"
proof -
  let ?ordered = "sort_key (resultKey F) rs"
  let ?index = "index_clusters F threshold ?ordered"
  note ok = index_clusters_ok [of F threshold ?ordered]
  have clusters: "clusters = map (map ((!) ?ordered)) ?index"
  proof (cases "rs = []")
    case True
    then show ?thesis using assms by (auto simp: Cluster_def index_clusters_def split: if_splits)
  next
    case False
    then show ?thesis using assms by (auto simp: Cluster_def Let_def split: if_splits)
  qed
  have "mset (concat ?index) = mset [0..<length ?ordered]"
    using ok by (intro set_eq_iff_mset_eq_distinct [THEN iffD1]) auto
  then have "mset (map ((!) ?ordered) (concat ?index)) = mset (map ((!) ?ordered) [0..<length ?ordered])"
    by (simp only: mset_map)
  moreover have "mset (map ((!) ?ordered) [0..<length ?ordered]) = mset rs" by (simp only: map_nth mset_sort)
  ultimately have "mset (concat clusters) = mset rs" by (simp add: clusters map_concat del: mset_map)
  then show ?thesis using ok clusters by (intro conjI exI [of _ ?ordered] exI [of _ ?index]) simp_all
qed

theorem clusters_are_components_witness:
  "\<exists>clusters. Cluster ex_floats ex_history (Finite (1 / 2)) = Ok clusters \<and> mset (concat clusters) = mset ex_history"
proof -
  obtain clusters where c: "Cluster ex_floats ex_history (Finite (1 / 2)) = Ok clusters"
    by (simp add: Cluster_def outside_unit_def ex_history_def Let_def)
  then show ?thesis using clusters_are_components [OF c] by blast
qed

end
