(* ===== verification/JobCandidates.thy ===== *)
theory JobCandidates
  imports JobLearnProps
begin

text \<open>
  \<open>kernel/joblearn/candidates\<close>: candidates from attributed results, \<open>distill\<close>: candidates from traces, and
  \<open>backtest\<close>: a policy against a baseline. Each candidate asks the clock once, when it is built, so the text of its time
  is given by its position among the candidates built. \<open>distill\<close> has its own copy of the helpers of \<open>candidates\<close>.
\<close>

section \<open>Shared helpers\<close>

definition clock_provenance :: "string \<Rightarrow> string \<Rightarrow> Provenance" where
  "clock_provenance source at = \<lparr>pv_Source = source, pv_ProducedAt = at, pv_ProducedBy = None, pv_Confidence = [],
     pv_Evidence = [], pv_ContentHash = []\<rparr>"

text \<open>The time of the candidates built, in their order.\<close>

definition stamp :: "string \<Rightarrow> (nat \<Rightarrow> string) \<Rightarrow> LearnedCandidate list \<Rightarrow> LearnedCandidate list" where
  "stamp source clock cs =
     map (\<lambda>(i, c). c\<lparr>jc_Provenance := Some (clock_provenance source (clock i))\<rparr>) (zip [0..<length cs] cs)"

definition evidenceOf :: "AttrResult list \<Rightarrow> Reference list" where
  "evidenceOf rs = unique_refs (concat (map (\<lambda>r. jat_Evidence (jr_Attribution r)) rs))"

definition mergeRefs :: "Reference list \<Rightarrow> Reference list \<Rightarrow> Reference list" where
  "mergeRefs a b = unique_refs (a @ b)"

definition merge_key :: "LearnedCandidate \<Rightarrow> string" where
  "merge_key c = jc_Kind c @ [CHR 0x00] @ jc_Scope c @ [CHR 0x00] @ jc_Title c"

definition merge_candidate :: "LearnedCandidate \<Rightarrow> (string, LearnedCandidate) fmap \<Rightarrow> (string, LearnedCandidate) fmap" where
  "merge_candidate c m =
     (case fmlookup m (merge_key c) of None \<Rightarrow> fmupd (merge_key c) c m
      | Some old \<Rightarrow> fmupd (merge_key c)
          (old\<lparr>jc_Confidence := (if float_lt (jc_Confidence old) (jc_Confidence c) then jc_Confidence c else jc_Confidence old),
               jc_Evidence := mergeRefs (jc_Evidence old) (jc_Evidence c)\<rparr>) m)"

definition dedupSort :: "LearnedCandidate list \<Rightarrow> LearnedCandidate list" where
  "dedupSort cs = sort_key (\<lambda>c. (jc_Kind c, jc_Scope c, jc_Title c)) (fm_vals (fold merge_candidate cs fmempty))"

definition rate :: "FloatOps \<Rightarrow> int \<Rightarrow> int \<Rightarrow> go_float" where
  "rate F part whole = (if whole = 0 then Finite 0 else fa_div F (fa_int F part) (fa_int F whole))"

definition draft ::
  "string \<Rightarrow> string \<Rightarrow> string \<Rightarrow> AttrResult list \<Rightarrow> Applicability option \<Rightarrow> string \<Rightarrow> string \<Rightarrow> go_float \<Rightarrow> LearnedCandidate" where
  "draft kind level scope rs applicability title content confidence =
     \<lparr>jc_Kind = kind, jc_Level = level, jc_Scope = scope, jc_Title = title, jc_Content = content,
      jc_Applicability = applicability, jc_Evidence = evidenceOf rs, jc_Provenance = None, jc_Confidence = clamp01 confidence\<rparr>"

section \<open>Candidates from results\<close>

record CandidatePolicy =
  cpo_MinOutcomes :: int
  cpo_MinWorkerOutcomes :: int
  cpo_SuccessThreshold :: go_float
  cpo_FailureThreshold :: go_float
  cpo_StrategyThreshold :: go_float
  cpo_CostThreshold :: go_float
  cpo_MinImprovement :: go_float

definition DefaultCandidatePolicy :: "FloatOps \<Rightarrow> CandidatePolicy" where
  "DefaultCandidatePolicy F =
     \<lparr>cpo_MinOutcomes = 5, cpo_MinWorkerOutcomes = 3, cpo_SuccessThreshold = fa_lit F (8 / 10), cpo_FailureThreshold = Finite (1 / 2),
      cpo_StrategyThreshold = Finite 1, cpo_CostThreshold = Finite (3 / 4), cpo_MinImprovement = fa_lit F (1 / 10)\<rparr>"

definition CandidatePolicy_Validate :: "CandidatePolicy \<Rightarrow> learn_error option" where
  "CandidatePolicy_Validate p =
     (if cpo_MinOutcomes p < 0 \<or> cpo_MinWorkerOutcomes p < 0 then Some (JlInvalid ''outcome minimums must be >= 0'')
      else if list_ex outside_unit [cpo_SuccessThreshold p, cpo_FailureThreshold p, cpo_StrategyThreshold p, cpo_CostThreshold p,
        cpo_MinImprovement p] then Some (JlInvalid ''policy is outside [0,1]'')
      else None)"

definition successRate :: "FloatOps \<Rightarrow> Summary \<Rightarrow> go_float" where
  "successRate F s = rate F (su_Successes s) (su_Outcomes s)"

definition failureRate :: "FloatOps \<Rightarrow> Summary \<Rightarrow> go_float" where
  "failureRate F s = rate F (su_Failures s) (su_Outcomes s)"

definition of_total :: "int \<Rightarrow> int \<Rightarrow> string \<Rightarrow> string" where
  "of_total k n what = itoa_int k @ '' of '' @ itoa_int n @ '' attributed outcomes '' @ what"

definition for_role :: "string \<Rightarrow> Applicability option" where
  "for_role r = Some \<lparr>ap_Roles = [r], ap_Languages = []\<rparr>"

text \<open>The groups of a dimension with a value and enough outcomes, each with its results.\<close>

definition learned_groups :: "CandidatePolicy \<Rightarrow> (Attribution \<Rightarrow> string) \<Rightarrow> AttrResult list \<Rightarrow> (string \<times> AttrResult list) list" where
  "learned_groups p key rs =
     filter (\<lambda>(v, g). v \<noteq> [] \<and> cpo_MinOutcomes p \<le> int (length g)) (groups_of (\<lambda>r. key (jr_Attribution r)) rs)"

definition role_candidates :: "FloatOps \<Rightarrow> CandidatePolicy \<Rightarrow> string \<times> AttrResult list \<Rightarrow> LearnedCandidate list" where
  "role_candidates F p vg =
     (case vg of (v, g) \<Rightarrow> let s = Summarize F g; up = successRate F s; down = failureRate F s in
      (if float_le (cpo_SuccessThreshold p) up
       then [draft ''pattern'' ''role'' (''role:'' @ v) g (for_role v) (''Role '' @ v @ '' succeeds reliably'')
               (of_total (su_Successes s) (su_Outcomes s) ''succeeded'') up] else [])
      @ (if float_le (cpo_FailureThreshold p) down
         then [draft ''pitfall'' ''role'' (''role:'' @ v) g (for_role v) (''Role '' @ v @ '' fails often'')
                 (of_total (su_Failures s) (su_Outcomes s) ''failed'') down] else []))"

definition package_candidates :: "FloatOps \<Rightarrow> CandidatePolicy \<Rightarrow> string \<times> AttrResult list \<Rightarrow> LearnedCandidate list" where
  "package_candidates F p vg =
     (case vg of (v, g) \<Rightarrow> let s = Summarize F g; up = successRate F s in
      (if float_le (cpo_StrategyThreshold p) up
       then [draft ''strategy'' ''task'' (''work_package:'' @ v) g None (''Strategy from work package '' @ v)
               (of_total (su_Successes s) (su_Outcomes s) ''succeeded'') up] else [])
      @ (if float_le (cpo_CostThreshold p) (su_MeanCost s)
         then [draft ''pitfall'' ''project'' (''work_package:'' @ v) g None (''Work package '' @ v @ '' is high cost'')
                 (''mean normalized cost '' @ fa_fixed F 2 (su_MeanCost s) @ '' met the '' @ fa_fixed F 2 (cpo_CostThreshold p) @ '' threshold'')
                 (clamp01 (su_MeanCost s))] else []))"

text \<open>The best worker of a role; \<open>visit\<close> is the order in which the map of workers is visited.\<close>

fun best_worker_loop ::
  "FloatOps \<Rightarrow> (string \<times> AttrResult list) list \<Rightarrow> (string \<times> AttrResult list) option \<Rightarrow> (string \<times> AttrResult list) option" where
  "best_worker_loop F [] best = best"
| "best_worker_loop F (x # xs) best =
     best_worker_loop F xs
       (case best of None \<Rightarrow> Some x
        | Some b \<Rightarrow> if float_lt (su_MeanOverall (Summarize F (snd b))) (su_MeanOverall (Summarize F (snd x))) \<or>
              (float_eq (su_MeanOverall (Summarize F (snd x))) (su_MeanOverall (Summarize F (snd b))) \<and> fst x < fst b)
            then Some x else Some b)"

definition bestWorker ::
  "FloatOps \<Rightarrow> ((string \<times> AttrResult list) list \<Rightarrow> (string \<times> AttrResult list) list) \<Rightarrow> AttrResult list \<Rightarrow>
     (string \<times> AttrResult list) option" where
  "bestWorker F visit rs = best_worker_loop F (visit (worker_groups rs)) None"

definition routing_candidates ::
  "FloatOps \<Rightarrow> ((string \<times> AttrResult list) list \<Rightarrow> (string \<times> AttrResult list) list) \<Rightarrow> CandidatePolicy \<Rightarrow>
     string \<times> AttrResult list \<Rightarrow> LearnedCandidate list" where
  "routing_candidates F visit p vg =
     (case vg of (v, g) \<Rightarrow>
      (case bestWorker F visit g of None \<Rightarrow> []
       | Some (w, own) \<Rightarrow>
          let mean = su_MeanOverall (Summarize F own); base = su_MeanOverall (Summarize F g); margin = fa_sub F mean base in
          if int (length own) < cpo_MinWorkerOutcomes p \<or> float_lt margin (cpo_MinImprovement p) then []
          else [draft ''routing'' ''workforce'' (''role:'' @ v) own (for_role v) (''Prefer worker '' @ w @ '' for role '' @ v)
                  (''mean overall '' @ fa_fixed F 2 mean @ '' beat the role baseline '' @ fa_fixed F 2 base @ '' by '' @ fa_fixed F 2 margin)
                  (clamp01 margin)]))"

definition Generate ::
  "FloatOps \<Rightarrow> ((string \<times> AttrResult list) list \<Rightarrow> (string \<times> AttrResult list) list) \<Rightarrow> string \<Rightarrow> (nat \<Rightarrow> string) \<Rightarrow>
     CandidatePolicy \<Rightarrow> AttrResult list \<Rightarrow> learn_error + LearnedCandidate list" where
  "Generate F visit source clock p rs =
     (case CandidatePolicy_Validate p of Some e \<Rightarrow> Err e
      | None \<Rightarrow>
        if rs = [] then Ok []
        else Ok (dedupSort (stamp source clock
          (concat (map (role_candidates F p) (learned_groups p jat_Role rs))
           @ concat (map (package_candidates F p) (learned_groups p jat_WorkPackageID rs))
           @ concat (map (routing_candidates F visit p) (learned_groups p jat_Role rs))))))"

section \<open>Candidates from traces\<close>

record DistillRecord =
  dr_Result :: AttrResult
  dr_Set :: FeatureSet

record DistillPolicy =
  dpo_MinOutcomes :: int
  dpo_SuccessThreshold :: go_float
  dpo_FailureThreshold :: go_float

definition DefaultDistillPolicy :: "FloatOps \<Rightarrow> DistillPolicy" where
  "DefaultDistillPolicy F =
     \<lparr>dpo_MinOutcomes = 3, dpo_SuccessThreshold = fa_lit F (8 / 10), dpo_FailureThreshold = Finite (1 / 2)\<rparr>"

definition DistillPolicy_Validate :: "DistillPolicy \<Rightarrow> learn_error option" where
  "DistillPolicy_Validate p =
     (if dpo_MinOutcomes p < 0 then Some (JlInvalid ''minOutcomes must be >= 0'')
      else if outside_unit (dpo_SuccessThreshold p) \<or> outside_unit (dpo_FailureThreshold p)
        then Some (JlInvalid ''policy is outside [0,1]'')
      else None)"

definition recordKey :: "DistillRecord \<Rightarrow> string" where
  "recordKey r =
     (let a = jr_Attribution (dr_Result r) in
      strings_Join ''|'' [jat_ProjectID a, jat_WorkPackageID a, jat_AttemptID a, jat_Role a, jat_Worker a,
        itoa_int (jat_Sequence a), jat_Outcome a])"

definition distill_canonical :: "DistillRecord list \<Rightarrow> DistillRecord list" where
  "distill_canonical rs = sort_key recordKey rs"

text \<open>Counting into a map, and its most frequent key; \<open>visit\<close> is the order in which the map is visited.\<close>

definition count_keys :: "string list \<Rightarrow> (string, int) fmap" where
  "count_keys ks = fold (\<lambda>k m. fmupd k (fm_getd 0 m k + 1) m) ks fmempty"

fun dominant_loop :: "(string, int) fmap \<Rightarrow> string list \<Rightarrow> string \<times> int \<Rightarrow> string \<times> int" where
  "dominant_loop m [] best = best"
| "dominant_loop m (k # ks) (best, n) =
     (let c = fm_getd 0 m k in
      dominant_loop m ks (if n < c \<or> (c = n \<and> (best = [] \<or> k < best)) then (k, c) else (best, n)))"

definition dominantKey :: "(string list \<Rightarrow> string list) \<Rightarrow> (string, int) fmap \<Rightarrow> string \<Rightarrow> string" where
  "dominantKey visit m fallback =
     (case dominant_loop m (visit (fm_keys m)) ([], 0) of (best, n) \<Rightarrow> if best = [] then fallback else best)"

definition dominantPhase :: "(string list \<Rightarrow> string list) \<Rightarrow> DistillRecord list \<Rightarrow> string" where
  "dominantPhase visit g = dominantKey visit (count_keys (concat (map (\<lambda>r. map fs_Phase (ft_Steps (dr_Set r))) g))) ''none''"

definition dominantErrorClass :: "(string list \<Rightarrow> string list) \<Rightarrow> DistillRecord list \<Rightarrow> string" where
  "dominantErrorClass visit g =
     dominantKey visit (count_keys (filter (\<lambda>k. k \<noteq> []) (concat (map (\<lambda>r. map fs_ErrorClass (ft_Steps (dr_Set r))) g)))) ''unknown''"

definition scope_group ::
  "FloatOps \<Rightarrow> (string list \<Rightarrow> string list) \<Rightarrow> DistillPolicy \<Rightarrow> string \<Rightarrow> string \<Rightarrow> string \<times> DistillRecord list \<Rightarrow> LearnedCandidate list" where
  "scope_group F visit p level prefix vg =
     (case vg of (v, g) \<Rightarrow>
      let rs = map dr_Result g; s = Summarize F rs; up = rate F (su_Successes s) (su_Outcomes s);
          down = rate F (su_Failures s) (su_Outcomes s) in
      (if float_le (dpo_SuccessThreshold p) up
       then [draft ''strategy'' level (prefix @ v) rs None (''Strategy for '' @ v)
               (itoa_int (su_Successes s) @ '' of '' @ itoa_int (su_Outcomes s) @ '' outcomes succeeded; dominant phase '' @ dominantPhase visit g) up]
       else [])
      @ (if float_le (dpo_FailureThreshold p) down
         then [draft ''pitfall'' level (prefix @ v) rs None (''Pitfall for '' @ v)
                 (itoa_int (su_Failures s) @ '' of '' @ itoa_int (su_Outcomes s) @ '' outcomes failed; recurring error class ''
                  @ dominantErrorClass visit g) down]
         else []))"

definition scopeArtifacts ::
  "FloatOps \<Rightarrow> (string list \<Rightarrow> string list) \<Rightarrow> DistillPolicy \<Rightarrow> DistillRecord list \<Rightarrow> (Attribution \<Rightarrow> string) \<Rightarrow> string \<Rightarrow> string \<Rightarrow>
     LearnedCandidate list" where
  "scopeArtifacts F visit p rs dimension level prefix =
     concat (map (scope_group F visit p level prefix)
       (filter (\<lambda>(v, g). v \<noteq> [] \<and> dpo_MinOutcomes p \<le> int (length g))
         (groups_of (\<lambda>r. dimension (jr_Attribution (dr_Result r))) rs)))"

definition Distill ::
  "FloatOps \<Rightarrow> (string list \<Rightarrow> string list) \<Rightarrow> string \<Rightarrow> (nat \<Rightarrow> string) \<Rightarrow> DistillPolicy \<Rightarrow> DistillRecord list \<Rightarrow>
     learn_error + LearnedCandidate list" where
  "Distill F visit source clock p rs =
     (case DistillPolicy_Validate p of Some e \<Rightarrow> Err e
      | None \<Rightarrow>
        if rs = [] then Ok []
        else let ordered = distill_canonical rs in
          Ok (dedupSort (stamp source clock
            (scopeArtifacts F visit p ordered jat_Role ''role'' ''role:''
             @ scopeArtifacts F visit p ordered jat_WorkPackageID ''task'' ''work_package:''))))"

section \<open>Backtests\<close>

record Sample =
  sa_ID :: string
  sa_Features :: "(string, string) fmap"
  sa_Actual :: string
  sa_Weight :: go_float

record Predictor =
  pd_Name :: string
  pd_Predict :: "(string, string) fmap \<Rightarrow> string"

record BacktestConfig =
  bc_Metric :: string
  bc_MinImprovement :: go_float
  bc_MaxSamples :: int
  bc_MaxSteps :: int

record BacktestReport =
  bt_Policy :: string
  bt_Baseline :: string
  bt_Metric :: string
  bt_Samples :: int
  bt_Weight :: go_float
  bt_PolicyMetric :: go_float
  bt_BaselineMetric :: go_float
  bt_Improvement :: go_float
  bt_MinImprovement :: go_float
  bt_Pass :: bool

definition DefaultBacktestConfig :: "FloatOps \<Rightarrow> BacktestConfig" where
  "DefaultBacktestConfig F =
     \<lparr>bc_Metric = ''accuracy'', bc_MinImprovement = fa_lit F (5 / 100), bc_MaxSamples = 100000, bc_MaxSteps = 1000000\<rparr>"

definition BacktestConfig_Validate :: "BacktestConfig \<Rightarrow> learn_error option" where
  "BacktestConfig_Validate c =
     (if bc_Metric c \<noteq> [] \<and> bc_Metric c \<noteq> ''accuracy'' then Some (JlInvalid ''unknown metric'')
      else if outside_unit (bc_MinImprovement c) then Some (JlInvalid ''minImprovement is outside [0,1]'')
      else if bc_MaxSamples c < 0 \<or> bc_MaxSteps c < 0 then Some (JlInvalid ''budget must be >= 0'')
      else None)"

definition featuresKey :: "(string, string) fmap \<Rightarrow> string" where
  "featuresKey f = concat (map (\<lambda>k. k @ ''='' @ fm_getd [] f k @ '';'') (fm_keys f))"

definition sampleKey :: "Sample \<Rightarrow> string" where
  "sampleKey s = sa_ID s @ ''|'' @ sa_Actual s @ ''|'' @ featuresKey (sa_Features s)"

fun backtest_loop ::
  "FloatOps \<Rightarrow> Predictor \<Rightarrow> Predictor \<Rightarrow> Sample list \<Rightarrow> go_float \<times> go_float \<times> go_float \<Rightarrow>
     learn_error + go_float \<times> go_float \<times> go_float" where
  "backtest_loop F p b [] acc = Ok acc"
| "backtest_loop F p b (s # ss) (whole, pc, bcor) =
     (if float_lt (sa_Weight s) (Finite 0) then Err (JlInvalid ''sample has negative weight'')
      else let w = (if float_eq (sa_Weight s) (Finite 0) then Finite 1 else sa_Weight s) in
        backtest_loop F p b ss
          (fa_add F whole w, if pd_Predict p (sa_Features s) = sa_Actual s then fa_add F pc w else pc,
           if pd_Predict b (sa_Features s) = sa_Actual s then fa_add F bcor w else bcor))"

definition backtest_Run ::
  "FloatOps \<Rightarrow> Sample list \<Rightarrow> Predictor option \<Rightarrow> Predictor option \<Rightarrow> BacktestConfig \<Rightarrow> learn_error + BacktestReport" where
  "backtest_Run F dataset policy baseline cfg0 =
     (case (policy, baseline) of (Some p, Some b) \<Rightarrow>
        let cfg = (if bc_Metric cfg0 = [] then cfg0\<lparr>bc_Metric := ''accuracy''\<rparr> else cfg0) in
        (case BacktestConfig_Validate cfg of Some e \<Rightarrow> Err e | None \<Rightarrow>
          if dataset = [] then Err JlNotReady
          else if 0 < bc_MaxSamples cfg \<and> bc_MaxSamples cfg < int (length dataset) then Err JlBudget
          else if 0 < bc_MaxSteps cfg \<and> bc_MaxSteps cfg < 2 * int (length dataset) then Err JlBudget
          else (case backtest_loop F p b (sort_key sampleKey dataset) (Finite 0, Finite 0, Finite 0) of Inl e \<Rightarrow> Err e
            | Inr (whole, pc, bcor) \<Rightarrow>
                let pm = (if float_lt (Finite 0) whole then fa_div F pc whole else Finite 0);
                    bm = (if float_lt (Finite 0) whole then fa_div F bcor whole else Finite 0);
                    gain = fa_sub F pm bm in
                Ok \<lparr>bt_Policy = pd_Name p, bt_Baseline = pd_Name b, bt_Metric = bc_Metric cfg, bt_Samples = int (length dataset),
                    bt_Weight = whole, bt_PolicyMetric = pm, bt_BaselineMetric = bm, bt_Improvement = gain,
                    bt_MinImprovement = bc_MinImprovement cfg, bt_Pass = float_le (bc_MinImprovement cfg) gain\<rparr>))
      | _ \<Rightarrow> Err (JlInvalid ''policy and baseline are required''))"

definition TraceDataset :: "AttrResult list \<Rightarrow> Sample list" where
  "TraceDataset rs =
     map (\<lambda>r. let a = jr_Attribution r; f0 = (if jat_Role a \<noteq> [] then fmupd ''role'' (jat_Role a) fmempty else fmempty);
                   f = (if jat_WorkPackageID a \<noteq> [] then fmupd ''workPackageId'' (jat_WorkPackageID a) f0 else f0)
               in \<lparr>sa_ID = jat_AttemptID a, sa_Features = f, sa_Actual = jat_Outcome a, sa_Weight = Finite 0\<rparr>) rs"

definition ConstantBaseline :: "string \<Rightarrow> Predictor" where
  "ConstantBaseline label = \<lparr>pd_Name = ''constant'', pd_Predict = (\<lambda>_. label)\<rparr>"

fun majority_loop :: "(string, int) fmap \<Rightarrow> string list \<Rightarrow> string \<times> int \<Rightarrow> string \<times> int" where
  "majority_loop m [] best = best"
| "majority_loop m (k # ks) (best, n) =
     (let c = fm_getd 0 m k in majority_loop m ks (if n < c then (k, c) else (best, n)))"

definition majority_label :: "(string, int) fmap \<Rightarrow> string" where
  "majority_label m = fst (majority_loop m (fm_keys m) ([], 0))"

definition MajorityBaseline :: "Sample list \<Rightarrow> Predictor" where
  "MajorityBaseline dataset =
     \<lparr>pd_Name = ''majority'', pd_Predict = (\<lambda>_. majority_label (count_keys (map sa_Actual dataset)))\<rparr>"

definition ScopeBaseline :: "Sample list \<Rightarrow> Predictor" where
  "ScopeBaseline dataset =
     (let package = (\<lambda>s. fm_getd [] (sa_Features s) ''workPackageId'');
          lookup = (\<lambda>pkg. if pkg = [] then [] else majority_label (count_keys (map sa_Actual (filter (\<lambda>s. package s = pkg) dataset))))
      in \<lparr>pd_Name = ''scope-majority'',
          pd_Predict = (\<lambda>f. let label = lookup (fm_getd [] f ''workPackageId'') in
            if label \<noteq> [] then label else pd_Predict (MajorityBaseline dataset) f)\<rparr>)"

end
