(* ===== verification/JobCandidatesProps.thy ===== *)
theory JobCandidatesProps
  imports JobCandidates
begin

text \<open>
  Candidates are well formed, cite only evidence of the results and come out in order of their identity; the baselines a
  learned policy has to beat are ranked: the baseline by scope is right at least as often as the overall majority, which is
  right at least as often as any constant.
\<close>

section \<open>Candidates\<close>

lemma set_unique_refs: "set (unique_refs rs) \<subseteq> set rs"
  using set_dedup_by [of ref_key "[]" rs] by (simp add: unique_refs_def sort_refs_def)

text \<open>What every candidate keeps while it is drafted, stamped and merged; \<open>E\<close> holds the references it may cite.\<close>

definition well_drafted :: "Reference set \<Rightarrow> LearnedCandidate \<Rightarrow> bool" where
  "well_drafted E c \<longleftrightarrow> Candidate_Validate c = None \<and> set (jc_Evidence c) \<subseteq> E"

definition evidence_set :: "AttrResult list \<Rightarrow> Reference set" where
  "evidence_set rs = (\<Union>r \<in> set rs. set (jat_Evidence (jr_Attribution r)))"

lemma evidence_set_mono: "set qs \<subseteq> set rs \<Longrightarrow> evidence_set qs \<subseteq> evidence_set rs"
  by (auto simp: evidence_set_def)

lemma evidenceOf_set: "set (evidenceOf rs) \<subseteq> evidence_set rs"
  using set_unique_refs [of "concat (map (\<lambda>r. jat_Evidence (jr_Attribution r)) rs)"]
  by (auto simp: evidenceOf_def evidence_set_def)

lemma draft_well:
  "CandidateKind_Valid kind \<Longrightarrow> CandidateLevel_Valid level \<Longrightarrow> title \<noteq> [] \<Longrightarrow> content \<noteq> [] \<Longrightarrow> evidence_set qs \<subseteq> E \<Longrightarrow>
     well_drafted E (draft kind level scope qs ap title content confidence)"
  using evidenceOf_set [of qs] by (auto simp: well_drafted_def draft_def Candidate_Validate_def clamp01_inside)

lemmas draft_kinds = CandidateKind_Valid_def CandidateLevel_Valid_def

lemma groups_of_set: "(v, g) \<in> set (groups_of key xs) \<Longrightarrow> set g \<subseteq> set xs \<and> g \<noteq> [] \<and> (\<forall>x \<in> set g. key x = v)"
  by (auto simp: groups_of_def filter_empty_conv)

lemma learned_group_set: "(v, g) \<in> set (learned_groups p key rs) \<Longrightarrow> evidence_set g \<subseteq> evidence_set rs"
  by (rule evidence_set_mono) (auto simp: learned_groups_def dest: groups_of_set)

lemma best_worker_in: "best_worker_loop F xs best = Some b \<Longrightarrow> b \<in> set xs \<or> best = Some b"
proof (induction xs arbitrary: best)
  case (Cons x xs)
  from Cons.IH [OF Cons.prems [unfolded best_worker_loop.simps]] show ?case
    by (auto split: option.splits if_splits)
qed simp

lemma bestWorker_group:
  assumes "\<And>gs. mset (visit gs) = mset gs" and "bestWorker F visit rs = Some (w, own)"
  shows "set own \<subseteq> set rs \<and> w \<noteq> [] \<and> own = filter (\<lambda>r. jat_Worker (jr_Attribution r) = w) rs"
proof -
  have "set (visit (worker_groups rs)) = set (worker_groups rs)" using assms(1) by (rule mset_eq_setD)
  then have "(w, own) \<in> set (worker_groups rs)" using assms(2) best_worker_in by (fastforce simp: bestWorker_def)
  then show ?thesis by (auto simp: worker_groups_def groups_of_def intro!: filter_cong)
qed

lemma well_drafted_groups:
  assumes "\<And>gs. mset (visit gs) = mset gs" and g: "evidence_set g \<subseteq> E"
  shows "\<forall>c \<in> set (role_candidates F p (v, g) @ package_candidates F p (v, g) @ routing_candidates F visit p (v, g)). well_drafted E c"
proof -
  have "evidence_set own \<subseteq> E" if "Some (w, own) = bestWorker F visit g" for w own
    using bestWorker_group [OF assms(1) that [symmetric]] evidence_set_mono [of own g] g by blast
  then show ?thesis using g
    by (auto simp: role_candidates_def package_candidates_def routing_candidates_def Let_def of_total_def draft_kinds
        intro!: draft_well split: option.splits if_splits)
qed

lemma well_drafted_provenance [simp]: "well_drafted E (c\<lparr>jc_Provenance := x\<rparr>) \<longleftrightarrow> well_drafted E c"
  by (simp add: well_drafted_def Candidate_Validate_def)

lemma stamp_well: "\<forall>c \<in> set cs. well_drafted E c \<Longrightarrow> \<forall>c \<in> set (stamp source clock cs). well_drafted E c \<and>
     (\<exists>i. jc_Provenance c = Some (clock_provenance source (clock i)))"
  by (fastforce simp: stamp_def dest: set_zip_rightD)

text \<open>The invariant of the merge: every candidate is stored under its own key.\<close>

definition merged_ok :: "(LearnedCandidate \<Rightarrow> bool) \<Rightarrow> (string, LearnedCandidate) fmap \<Rightarrow> bool" where
  "merged_ok Q m \<longleftrightarrow> (\<forall>k c. fmlookup m k = Some c \<longrightarrow> merge_key c = k \<and> Q c)"

definition from_clock :: "string \<Rightarrow> (nat \<Rightarrow> string) \<Rightarrow> Reference set \<Rightarrow> LearnedCandidate \<Rightarrow> bool" where
  "from_clock source clock E c \<longleftrightarrow> well_drafted E c \<and> (\<exists>i. jc_Provenance c = Some (clock_provenance source (clock i)))"

lemma merge_candidate_ok:
  assumes "merged_ok (from_clock source clock E) m" and "from_clock source clock E c"
  shows "merged_ok (from_clock source clock E) (merge_candidate c m)"
proof (cases "fmlookup m (merge_key c)")
  case None
  then show ?thesis using assms by (auto simp: merged_ok_def merge_candidate_def)
next
  case (Some old)
  let ?new = "old\<lparr>jc_Confidence := (if float_lt (jc_Confidence old) (jc_Confidence c) then jc_Confidence c else jc_Confidence old),
    jc_Evidence := mergeRefs (jc_Evidence old) (jc_Evidence c)\<rparr>"
  have old: "merge_key old = merge_key c" "from_clock source clock E old" using assms(1) Some by (auto simp: merged_ok_def)
  have "merge_key ?new = merge_key c" using old(1) by (simp add: merge_key_def)
  moreover have "set (mergeRefs (jc_Evidence old) (jc_Evidence c)) \<subseteq> E"
    using set_unique_refs [of "jc_Evidence old @ jc_Evidence c"] old(2) assms(2)
    by (auto simp: mergeRefs_def from_clock_def well_drafted_def)
  then have "from_clock source clock E ?new" using old(2) assms(2)
    by (auto simp: from_clock_def well_drafted_def Candidate_Validate_def split: if_splits)
  ultimately show ?thesis using assms(1) Some by (auto simp: merged_ok_def merge_candidate_def)
qed

lemma merged_keys:
  assumes "merged_ok Q m"
  shows "map merge_key (fm_vals m) = fm_keys m"
  using assms by (intro fm_vals_keys) (simp add: merged_ok_def)

definition candidate_identity :: "LearnedCandidate \<Rightarrow> string \<times> string \<times> string" where
  "candidate_identity c = (jc_Kind c, jc_Scope c, jc_Title c)"

lemma dedupSort_ok:
  assumes "\<forall>c \<in> set cs. from_clock source clock E c"
  shows "(\<forall>c \<in> set (dedupSort cs). from_clock source clock E c) \<and> sorted (map candidate_identity (dedupSort cs)) \<and>
    distinct (map candidate_identity (dedupSort cs))"
proof -
  have step: "merged_ok (from_clock source clock E) m \<Longrightarrow> merged_ok (from_clock source clock E) (fold merge_candidate cs m)" for m
    using assms by (induction cs arbitrary: m) (simp_all add: merge_candidate_ok)
  have ok: "merged_ok (from_clock source clock E) (fold merge_candidate cs fmempty)" (is "merged_ok _ ?m")
    by (rule step) (simp add: merged_ok_def)
  have keys: "merge_key = (\<lambda>(k, s, t). k @ [CHR 0x00] @ s @ [CHR 0x00] @ t) \<circ> candidate_identity"
    by (simp add: fun_eq_iff merge_key_def candidate_identity_def)
  have "distinct (map merge_key (fm_vals ?m))" using merged_keys [OF ok] by simp
  then have vals: "distinct (map candidate_identity (fm_vals ?m))"
    unfolding keys map_map [symmetric] unfolding distinct_map by blast
  have "mset (map candidate_identity (dedupSort cs)) = mset (map candidate_identity (fm_vals ?m))"
    by (simp add: dedupSort_def)
  then have "distinct (map candidate_identity (dedupSort cs))"
    using vals by (metis mset_eq_imp_distinct_iff)
  moreover have "\<forall>c \<in> set (dedupSort cs). from_clock source clock E c"
    using ok by (auto simp: dedupSort_def set_fm_vals merged_ok_def)
  moreover have "sorted (map candidate_identity (dedupSort cs))"
    by (simp add: dedupSort_def candidate_identity_def [abs_def])
  ultimately show ?thesis by blast
qed

text \<open>
  Generated candidates are valid, carry the generator's source and a time of its clock, cite only references of the
  attributed results, and come out strictly ordered by kind, scope and title.
\<close>

lemma generated_candidates:
  assumes perm: "\<And>gs. mset (visit gs) = mset gs" and "Generate F visit source clock p rs = Ok cs"
  shows "sorted (map candidate_identity cs) \<and> distinct (map candidate_identity cs) \<and>
    (\<forall>c \<in> set cs. Candidate_Validate c = None \<and> (\<exists>i. jc_Provenance c = Some (clock_provenance source (clock i))) \<and>
       (\<forall>e \<in> set (jc_Evidence c). \<exists>r \<in> set rs. e \<in> set (jat_Evidence (jr_Attribution r))))"
proof (cases "rs = []")
  case True
  then show ?thesis using assms(2) by (simp add: Generate_def split: option.splits)
next
  case False
  let ?drafts = "concat (map (role_candidates F p) (learned_groups p jat_Role rs))
    @ concat (map (package_candidates F p) (learned_groups p jat_WorkPackageID rs))
    @ concat (map (routing_candidates F visit p) (learned_groups p jat_Role rs))"
  have "\<forall>c \<in> set ?drafts. well_drafted (evidence_set rs) c"
    using well_drafted_groups [OF perm learned_group_set] by fastforce
  then have "\<forall>c \<in> set (stamp source clock ?drafts). from_clock source clock (evidence_set rs) c"
    unfolding from_clock_def by (rule stamp_well)
  note dedupSort_ok [OF this]
  moreover have "cs = dedupSort (stamp source clock ?drafts)" using assms(2) False by (simp add: Generate_def split: option.splits)
  ultimately show ?thesis by (auto simp: from_clock_def well_drafted_def evidence_set_def)
qed

text \<open>A policy that asks for one outcome, and a result with evidence.\<close>

definition ex_candidate_policy :: CandidatePolicy where
  "ex_candidate_policy = \<lparr>cpo_MinOutcomes = 1, cpo_MinWorkerOutcomes = 1, cpo_SuccessThreshold = Finite (1 / 2),
     cpo_FailureThreshold = Finite 1, cpo_StrategyThreshold = Finite 1, cpo_CostThreshold = Finite 1, cpo_MinImprovement = Finite (1 / 10)\<rparr>"

section \<open>Baselines\<close>

text \<open>The number of samples a predictor gets right.\<close>

definition hits :: "Predictor \<Rightarrow> Sample list \<Rightarrow> nat" where
  "hits p ss = length (filter (\<lambda>s. pd_Predict p (sa_Features s) = sa_Actual s) ss)"

lemma count_keys_lookup: "fm_getd 0 (count_keys ks) k = int (count_list ks k)"
proof -
  have "fm_getd 0 (fold (\<lambda>k m. fmupd k (fm_getd 0 m k + 1) m) ks m) k = fm_getd 0 m k + int (count_list ks k)" for m
    by (induction ks arbitrary: m) (simp_all add: fm_getd_def)
  then show ?thesis by (simp add: count_keys_def)
qed

lemma count_keys_dom: "set (fm_keys (count_keys ks)) = set ks"
proof -
  have "fmdom' (fold (\<lambda>k m. fmupd k (fm_getd 0 m k + (1::int)) m) ks m) = set ks \<union> fmdom' m" for m
    by (induction ks arbitrary: m) auto
  then show ?thesis by (simp add: count_keys_def)
qed

lemma majority_loop_max:
  "majority_loop m ks (b, n) = (best, k) \<Longrightarrow> n \<le> k \<and> (\<forall>x \<in> set ks. fm_getd 0 m x \<le> k) \<and>
     ((best, k) = (b, n) \<or> (best \<in> set ks \<and> k = fm_getd 0 m best))"
proof (induction ks arbitrary: b n)
  case (Cons x ks)
  show ?case
  proof (cases "n < fm_getd 0 m x")
    case True
    then have "majority_loop m ks (x, fm_getd 0 m x) = (best, k)" using Cons.prems by (simp add: Let_def)
    from Cons.IH [OF this] show ?thesis using True by auto
  next
    case False
    then have "majority_loop m ks (b, n) = (best, k)" using Cons.prems by (simp add: Let_def)
    from Cons.IH [OF this] show ?thesis using False by auto
  qed
qed simp

text \<open>The majority label occurs, unless there are no labels, and no label occurs more often.\<close>

lemma majority_label_max:
  "count_list ks x \<le> count_list ks (majority_label (count_keys ks))" "ks \<noteq> [] \<Longrightarrow> majority_label (count_keys ks) \<in> set ks"
proof -
  obtain best n where b: "majority_loop (count_keys ks) (fm_keys (count_keys ks)) ([], 0) = (best, n)" by fastforce
  note best = majority_loop_max [OF b, unfolded count_keys_dom count_keys_lookup]
  have "count_list ks x \<le> count_list ks best \<and> (ks \<noteq> [] \<longrightarrow> best \<in> set ks)"
  proof (cases "ks = []")
    case False
    then obtain k where k: "k \<in> set ks" by (cases ks) auto
    then have "0 < count_list ks k" by (simp add: count_list_0_iff neq0_conv [symmetric])
    moreover have "int (count_list ks k) \<le> n" using best k by blast
    ultimately have "best \<in> set ks \<and> n = int (count_list ks best)" using best by auto
    moreover have "x \<notin> set ks \<Longrightarrow> count_list ks x = 0" by simp
    ultimately show ?thesis using best by (metis le0 of_nat_le_iff)
  qed simp
  then show "count_list ks x \<le> count_list ks (majority_label (count_keys ks))" "ks \<noteq> [] \<Longrightarrow> majority_label (count_keys ks) \<in> set ks"
    by (simp_all add: majority_label_def b)
qed

lemma hits_constant:
  "(\<And>s. s \<in> set ss \<Longrightarrow> pd_Predict p (sa_Features s) = x) \<Longrightarrow> hits p ss = count_list (map sa_Actual ss) x"
  by (induction ss) (auto simp: hits_def)

text \<open>A predictor that is right at least as often on every part of a split is right at least as often on the whole.\<close>

lemma hits_split:
  assumes "finite A"
  shows "f ` set ss \<subseteq> A \<Longrightarrow> hits p ss = (\<Sum>v \<in> A. hits p (filter (\<lambda>s. f s = v) ss))"
proof (induction ss)
  case (Cons s ss)
  let ?b = "if pd_Predict p (sa_Features s) = sa_Actual s then 1 else (0::nat)"
  have "hits p (s # ss) = ?b + hits p ss" by (simp add: hits_def)
  moreover have "hits p (filter (\<lambda>x. f x = v) (s # ss)) = (if f s = v then ?b else 0) + hits p (filter (\<lambda>x. f x = v) ss)" for v
    by (simp add: hits_def)
  ultimately show ?case using Cons assms by (simp add: sum.distrib sum.delta)
qed (simp add: hits_def)

lemma hits_by_parts:
  assumes "\<And>v. hits p (filter (\<lambda>s. f s = v) ss) \<le> hits q (filter (\<lambda>s. f s = v) ss)"
  shows "hits p ss \<le> hits q ss"
  using hits_split [of "f ` set ss" f ss p] hits_split [of "f ` set ss" f ss q] assms by (simp add: sum_mono)

abbreviation package_of :: "Sample \<Rightarrow> string" where "package_of s \<equiv> fm_getd [] (sa_Features s) ''workPackageId''"

lemma constant_hits: "hits (ConstantBaseline x) ss = count_list (map sa_Actual ss) x"
  by (rule hits_constant) (simp add: ConstantBaseline_def)

lemma majority_hits: "hits (MajorityBaseline ds) ss = count_list (map sa_Actual ss) (majority_label (count_keys (map sa_Actual ds)))"
  by (rule hits_constant) (simp add: MajorityBaseline_def)

lemma scope_hits:
  assumes part: "part = filter (\<lambda>s. package_of s = v) ds"
  shows "hits (MajorityBaseline ds) part \<le> hits (ScopeBaseline ds) part"
proof (cases "v = [] \<or> majority_label (count_keys (map sa_Actual part)) = []")
  case True
  have "hits (ScopeBaseline ds) part = hits (MajorityBaseline ds) part"
    unfolding hits_def by (rule arg_cong [of _ _ length], rule filter_cong)
      (use True in \<open>auto simp: part ScopeBaseline_def Let_def\<close>)
  then show ?thesis by simp
next
  case False
  then have "hits (ScopeBaseline ds) part = count_list (map sa_Actual part) (majority_label (count_keys (map sa_Actual part)))"
    by (intro hits_constant) (auto simp: part ScopeBaseline_def Let_def)
  then show ?thesis using majority_label_max(1) [of "map sa_Actual part"] by (simp add: majority_hits)
qed

text \<open>
  On the dataset they were built from, the baseline by scope predicts at least as many samples right as the majority
  baseline, and that at least as many as any constant prediction.
\<close>

lemma baselines_ranked:
  "hits (ConstantBaseline x) ds \<le> hits (MajorityBaseline ds) ds \<and> hits (MajorityBaseline ds) ds \<le> hits (ScopeBaseline ds) ds"
proof
  show "hits (ConstantBaseline x) ds \<le> hits (MajorityBaseline ds) ds"
    by (simp add: constant_hits majority_hits majority_label_max(1))
  show "hits (MajorityBaseline ds) ds \<le> hits (ScopeBaseline ds) ds"
    using scope_hits [OF refl] by (rule hits_by_parts [where f = package_of])
qed

text \<open>The ranking is strict where packages differ.\<close>

definition ex_dataset :: "Sample list" where
  "ex_dataset = map (\<lambda>(w, x). \<lparr>sa_ID = [], sa_Features = fmap_of_list [(''workPackageId'', w)], sa_Actual = x, sa_Weight = Finite 0\<rparr>)
     [(''a'', ''n''), (''a'', ''n''), (''b'', ''y''), (''b'', ''y''), (''b'', ''y'')]"

lemma ex_dataset_hits: "hits (MajorityBaseline ex_dataset) ex_dataset = 3 \<and> hits (ScopeBaseline ex_dataset) ex_dataset = 5"
  by code_simp

end
