(* ===== verification/JobSource.thy ===== *)
theory JobSource
  imports JobCandidates MemoryRepoProps
begin

text \<open>
  \<open>kernel/joblearn/tracesource\<close>: a bounded load of validated traces, over any source and over the repository of traces, and
  \<open>baseline\<close>: a recommender behind the predictor it falls back to. A source is what one read of it returns.
\<close>

section \<open>Traces\<close>

record Bounds =
  bn_MaxTraces :: int
  bn_MaxSteps :: int

definition DefaultBounds :: Bounds where "DefaultBounds = \<lparr>bn_MaxTraces = 1000, bn_MaxSteps = 100000\<rparr>"

definition Bounds_Validate :: "Bounds \<Rightarrow> learn_error option" where
  "Bounds_Validate b = (if bn_MaxTraces b < 0 \<or> bn_MaxSteps b < 0 then Some (JlInvalid ''bounds must be >= 0'') else None)"

definition newStatic :: "Trace list \<Rightarrow> Trace list" where
  "newStatic traces = sort_key (\<lambda>t. ev_ID (tr_Envelope t)) traces"

fun bound_loop :: "Bounds \<Rightarrow> Trace list \<Rightarrow> Trace list \<Rightarrow> int \<Rightarrow> Trace list" where
  "bound_loop b [] out steps = out"
| "bound_loop b (t # ts) out steps =
     (if 0 < bn_MaxTraces b \<and> bn_MaxTraces b \<le> int (length out) then out
      else if 0 < bn_MaxSteps b \<and> bn_MaxSteps b < steps + int (length (tr_Steps t)) then out
      else bound_loop b ts (out @ [t]) (steps + int (length (tr_Steps t))))"

definition Bound :: "Trace list \<Rightarrow> Bounds \<Rightarrow> learn_error + Trace list" where
  "Bound traces b = (case Bounds_Validate b of Some e \<Rightarrow> Err e | None \<Rightarrow> Ok (bound_loop b traces [] 0))"

datatype 'e load_error = LoadSource 'e | LoadLearn learn_error

definition Load :: "(string \<Rightarrow> time option) \<Rightarrow> ('e + Trace list) option \<Rightarrow> Bounds \<Rightarrow> 'e load_error + Trace list" where
  "Load parse src b =
     (case src of None \<Rightarrow> Err (LoadLearn (JlInvalid ''source is required''))
      | Some read \<Rightarrow>
          (case Bounds_Validate b of Some e \<Rightarrow> Err (LoadLearn e) | None \<Rightarrow>
           (case read of Inl e \<Rightarrow> Err (LoadSource e) | Inr traces \<Rightarrow>
            (case Bound traces b of Inl e \<Rightarrow> Err (LoadLearn e) | Inr bounded \<Rightarrow>
             (case first_err (Trace_Validate parse) bounded of Some _ \<Rightarrow> Err (LoadLearn (JlInvalid ''traces'')) | None \<Rightarrow> Ok bounded)))))"

definition MemorySource :: "Trace Codec \<Rightarrow> MemState \<Rightarrow> repo_error + Trace list" where
  "MemorySource cd s = Trace_List cd s"

section \<open>Baselines from a recommender\<close>

record 'e Recommender =
  rc_Name :: string
  rc_Recommend :: "(string, string) fmap \<Rightarrow> 'e + string"

definition NewInferencePredictor :: "'e Recommender option \<Rightarrow> Predictor option \<Rightarrow> learn_error + Predictor" where
  "NewInferencePredictor recommender fallback =
     (case recommender of None \<Rightarrow> Err (JlInvalid ''recommender is required'')
      | Some r \<Rightarrow> (case fallback of None \<Rightarrow> Err (JlInvalid ''deterministic fallback is required'')
        | Some fb \<Rightarrow> Ok \<lparr>pd_Name = ''inference/'' @ rc_Name r,
            pd_Predict = (\<lambda>f. case rc_Recommend r f of Inl e \<Rightarrow> pd_Predict fb f
              | Inr label \<Rightarrow> if label = [] then pd_Predict fb f else label)\<rparr>))"

section \<open>Bounded loads\<close>

abbreviation steps_of :: "Trace list \<Rightarrow> int" where "steps_of ts \<equiv> (\<Sum>t \<leftarrow> ts. int (length (tr_Steps t)))"

definition within_bounds :: "Bounds \<Rightarrow> Trace list \<Rightarrow> bool" where
  "within_bounds b ts \<longleftrightarrow> (0 < bn_MaxTraces b \<longrightarrow> int (length ts) \<le> bn_MaxTraces b) \<and> (0 < bn_MaxSteps b \<longrightarrow> steps_of ts \<le> bn_MaxSteps b)"

lemma steps_of_nonneg: "0 \<le> steps_of ts"
  by (induction ts) auto

lemma bound_loop_prefix:
  "within_bounds b out \<Longrightarrow> \<exists>n \<le> length ts. bound_loop b ts out (steps_of out) = out @ take n ts \<and> within_bounds b (out @ take n ts) \<and>
     (\<forall>k \<le> length ts. within_bounds b (out @ take k ts) \<longrightarrow> k \<le> n)"
proof (induction ts arbitrary: out)
  case (Cons t ts)
  let ?stop = "(0 < bn_MaxTraces b \<and> bn_MaxTraces b \<le> int (length out)) \<or>
    (0 < bn_MaxSteps b \<and> bn_MaxSteps b < steps_of out + int (length (tr_Steps t)))"
  show ?case
  proof (cases ?stop)
    case True
    have "k = 0" if "within_bounds b (out @ take k (t # ts))" for k
    proof (cases k)
      case (Suc j)
      then show ?thesis using True that steps_of_nonneg [of "take j ts"] by (auto simp: within_bounds_def)
    qed simp
    then show ?thesis using True Cons.prems by (intro exI [of _ 0]) auto
  next
    case False
    then have "within_bounds b (out @ [t])" by (auto simp: within_bounds_def)
    from Cons.IH [OF this] obtain n where n: "n \<le> length ts"
      "bound_loop b ts (out @ [t]) (steps_of (out @ [t])) = (out @ [t]) @ take n ts" "within_bounds b ((out @ [t]) @ take n ts)"
      "\<forall>k \<le> length ts. within_bounds b ((out @ [t]) @ take k ts) \<longrightarrow> k \<le> n" by blast
    have "k \<le> Suc n" if "k \<le> length (t # ts)" "within_bounds b (out @ take k (t # ts))" for k
      using n(4) that by (cases k) auto
    then show ?thesis using False n by (intro exI [of _ "Suc n"]) auto
  qed
qed auto

definition longest_within :: "Bounds \<Rightarrow> Trace list \<Rightarrow> Trace list \<Rightarrow> bool" where
  "longest_within b ts out \<longleftrightarrow> within_bounds b out \<and> (\<exists>n \<le> length ts. out = take n ts \<and>
     (\<forall>k \<le> length ts. within_bounds b (take k ts) \<longrightarrow> k \<le> n))"

lemma longest_unique: "longest_within b ts xs \<Longrightarrow> longest_within b ts ys \<Longrightarrow> xs = ys"
  unfolding longest_within_def by (metis le_antisym)

lemma Bound_longest:
  assumes "Bounds_Validate b = None"
  shows "Bound ts b = Ok out \<longleftrightarrow> longest_within b ts out"
proof -
  have "within_bounds b []" using assms by (auto simp: within_bounds_def Bounds_Validate_def split: if_splits)
  from bound_loop_prefix [OF this, of ts] have "longest_within b ts (bound_loop b ts [] 0)"
    by (auto simp: longest_within_def)
  then show ?thesis using assms longest_unique by (auto simp: Bound_def)
qed


text \<open>A recommender behind a fallback predicts the fallback's label whenever it fails or is silent.\<close>

lemma inference_falls_back:
  "NewInferencePredictor (Some r) (Some fb) = Ok p \<Longrightarrow> rc_Recommend r f = Err e \<or> rc_Recommend r f = Ok [] \<Longrightarrow>
     pd_Predict p f = pd_Predict fb f"
  by (auto simp: NewInferencePredictor_def)

end
