(* ===== verification/JobPromote.thy ===== *)
theory JobPromote
  imports JobLearn MemoryRepoProps Texts
begin

text \<open>
  \<open>kernel/joblearn/promote\<close>: candidates persisted as memory records through a sink, the sink over the memory repository,
  and \<open>kernel/joblearn/experience\<close>: lessons from verified results. SHA-256 in hex and the clock, already formatted, are
  parameters; the clock gives the text of each call in turn, and the promoter counts its calls.
\<close>

section \<open>Sources\<close>

definition DefaultSource :: string where "DefaultSource = ''aa-kernel.joblearn''"

text \<open>Only ASCII characters are kept, so the value of a longer rune does not matter.\<close>

definition source_char :: "char \<Rightarrow> bool" where
  "source_char c \<longleftrightarrow> is_alnum c \<or> c \<in> set ''_.:@+-''"

function replace_runes :: "string \<Rightarrow> string" where
  "replace_runes [] = []"
| "replace_runes (c # cs) =
     (if source_char c then c # replace_runes cs else CHR ''-'' # replace_runes (drop (rune_width c cs - 1) cs))"
  by pat_completeness auto
termination by (relation "measure length") auto

definition normalizeSource :: "string \<Rightarrow> string" where
  "normalizeSource source =
     (if source = [] then DefaultSource
      else if RequireIdentifier ''source'' source = None then source
      else (case replace_runes source of
          [] \<Rightarrow> DefaultSource
        | c # cs \<Rightarrow> take 256 (if is_alnum c then c # cs else ''src'' @ c # cs)))"

section \<open>Records\<close>

record PromoteEnv =
  prm_sha :: "string \<Rightarrow> string"
  prm_clock :: "nat \<Rightarrow> string"
  prm_parse :: "string \<Rightarrow> time option"

record PromoteOptions =
  po_ProjectID :: string
  po_Source :: string

definition learn_identity :: "PromoteEnv \<Rightarrow> LearnedCandidate \<Rightarrow> string" where
  "learn_identity P c = ''mem_'' @ take 32 (prm_sha P (strings_Join [CHR 0x00] [jc_Kind c, jc_Level c, jc_Scope c, jc_Title c]))"

definition learn_tags :: "LearnedCandidate \<Rightarrow> string list" where
  "learn_tags c = [jc_Kind c, jc_Level c] @ (if jc_Scope c \<noteq> [] then [''scope:'' @ jc_Scope c] else [])"

definition learn_provenance :: "PromoteEnv \<Rightarrow> PromoteOptions \<Rightarrow> LearnedCandidate \<Rightarrow> nat \<Rightarrow> nat \<times> Provenance" where
  "learn_provenance P opts c n =
     (case jc_Provenance c of
        None \<Rightarrow> (n + 1, \<lparr>pv_Source = normalizeSource (po_Source opts), pv_ProducedAt = prm_clock P n, pv_ProducedBy = None,
                         pv_Confidence = [], pv_Evidence = [], pv_ContentHash = []\<rparr>)
      | Some p \<Rightarrow>
          if pv_ProducedAt p = [] then (n + 1, p\<lparr>pv_Source := normalizeSource (pv_Source p), pv_ProducedAt := prm_clock P n\<rparr>)
          else (n, p\<lparr>pv_Source := normalizeSource (pv_Source p)\<rparr>))"

definition candidate_record :: "PromoteEnv \<Rightarrow> PromoteOptions \<Rightarrow> LearnedCandidate \<Rightarrow> string \<Rightarrow> Provenance \<Rightarrow> MemoryRecord" where
  "candidate_record P opts c created prov =
     \<lparr>mr_Envelope = \<lparr>ev_ContractVersion = ''2.0'', ev_Kind = ''memory_record'', ev_ID = learn_identity P c,
        ev_ProjectID = po_ProjectID opts, ev_CreatedAt = created, ev_Revision = None, ev_Provenance = Some prov\<rparr>,
      mr_Level = jc_Level c, mr_Lifecycle = ''CANDIDATE'', mr_Title = jc_Title c,
      mr_Content = \<lparr>mc_Summary = jc_Content c, mc_Details = [], mc_Tags = learn_tags c\<rparr>,
      mr_Applicability = jc_Applicability c, mr_Evidence = jc_Evidence c,
      mr_Confidence = Some (jc_Confidence c), mr_Supersedes = []\<rparr>"

definition learn_record ::
  "PromoteEnv \<Rightarrow> PromoteOptions \<Rightarrow> LearnedCandidate \<Rightarrow> nat \<Rightarrow> nat \<times> (learn_error + MemoryRecord)" where
  "learn_record P opts c n =
     (case learn_provenance P opts c (n + 1) of (n1, prov) \<Rightarrow>
      (case MemoryRecord_Validate (prm_parse P) (candidate_record P opts c (prm_clock P n) prov) of
         Some e \<Rightarrow> (n1, Err (JlContract e))
       | None \<Rightarrow> (n1, Ok (candidate_record P opts c (prm_clock P n) prov))))"

section \<open>The promoter\<close>

record ('s, 'e) PromoteSink =
  sk_Propose :: "MemoryRecord \<Rightarrow> 's \<Rightarrow> 's \<times> ('e + MemoryRecord)"
  sk_Transition :: "string \<Rightarrow> string \<Rightarrow> 's \<Rightarrow> 's \<times> ('e + MemoryRecord)"

datatype 'e promote_error = PromoteLearn learn_error | PromoteSinkError 'e

definition Promoter_options :: "PromoteOptions \<Rightarrow> PromoteOptions" where
  "Promoter_options opts = (if po_Source opts = [] then opts\<lparr>po_Source := DefaultSource\<rparr> else opts)"

text \<open>The loop over the candidates, with the ids seen before and the records stored so far.\<close>

fun propose_loop ::
  "PromoteEnv \<Rightarrow> PromoteOptions \<Rightarrow> ('s, 'e) PromoteSink \<Rightarrow> LearnedCandidate list \<Rightarrow> string list \<Rightarrow> MemoryRecord list \<Rightarrow> nat \<Rightarrow> 's \<Rightarrow>
     ('s \<times> nat) \<times> ('e promote_error + MemoryRecord list)" where
  "propose_loop P opts K [] seen out n s = ((s, n), Ok out)"
| "propose_loop P opts K (c # cs) seen out n s =
     (case Candidate_Validate c of Some e \<Rightarrow> ((s, n), Err (PromoteLearn e)) | None \<Rightarrow>
      (case learn_record P opts c n of (n1, Inl e) \<Rightarrow> ((s, n1), Err (PromoteLearn e)) | (n1, Inr record) \<Rightarrow>
       if ev_ID (mr_Envelope record) \<in> set seen then propose_loop P opts K cs seen out n1 s
       else (case sk_Propose K record s of (s1, Inl e) \<Rightarrow> ((s1, n1), Err (PromoteSinkError e)) | (s1, Inr stored) \<Rightarrow>
         propose_loop P opts K cs (ev_ID (mr_Envelope record) # seen) (out @ [stored]) n1 s1)))"

definition Promoter_Propose ::
  "PromoteEnv \<Rightarrow> PromoteOptions \<Rightarrow> ('s, 'e) PromoteSink \<Rightarrow> LearnedCandidate list \<Rightarrow> nat \<Rightarrow> 's \<Rightarrow>
     ('s \<times> nat) \<times> ('e promote_error + MemoryRecord list)" where
  "Promoter_Propose P opts K cs n s = propose_loop P (Promoter_options opts) K cs [] [] n s"

definition Promoter_Promote ::
  "('s, 'e) PromoteSink \<Rightarrow> string \<Rightarrow> string \<Rightarrow> 's \<Rightarrow> 's \<times> ('e promote_error + MemoryRecord)" where
  "Promoter_Promote K rid to_state s =
     (if rid = [] then (s, Err (PromoteLearn (JlInvalid ''record id is required'')))
      else (case MemoryLifecycle_Validate to_state of Some e \<Rightarrow> (s, Err (PromoteLearn (JlInvalid ''target lifecycle''))) | None \<Rightarrow>
       (case sk_Transition K rid to_state s of (s1, Inl e) \<Rightarrow> (s1, Err (PromoteSinkError e)) | (s1, Inr r) \<Rightarrow> (s1, Ok r))))"

text \<open>\<open>MemorySink\<close>: the production sink. The records carry their id, so no fresh one is drawn.\<close>

definition MemorySink :: "StoreEnv \<Rightarrow> (string \<Rightarrow> time option) \<Rightarrow> MemoryRecord Codec \<Rightarrow> (MemState, repo_error) PromoteSink" where
  "MemorySink E parse cd =
     \<lparr>sk_Propose = Propose E (memory_kind parse cd) [], sk_Transition = lc_Transition E (memory_kind parse cd)\<rparr>"

section \<open>Experience\<close>

datatype learning_state = Apprenticing | Studying | Practicing

record Lesson =
  ln_Kind :: string
  ln_Title :: string
  ln_Content :: string

record Observation =
  ob_ProjectID :: string
  ob_WorkPackageID :: string
  ob_AttemptID :: string
  ob_Role :: string
  ob_Model :: string
  ob_Outcome :: string
  ob_Verified :: bool
  ob_Confidence :: go_float
  ob_Evidence :: "Reference list"
  ob_Lessons :: "Lesson list"

record Mentorship =
  mt_Teacher :: string
  mt_Reason :: string
  mt_Scope :: string

record Feedback =
  fb_State :: learning_state
  fb_Candidates :: "LearnedCandidate list"
  fb_Mentorship :: "Mentorship option"
  fb_Reason :: string

record ExperiencePolicy =
  xpo_MinConfidence :: go_float
  xpo_RequireVerified :: bool
  xpo_RequireEvidence :: bool

definition DefaultExperiencePolicy :: ExperiencePolicy where
  "DefaultExperiencePolicy = \<lparr>xpo_MinConfidence = Finite (1 / 2), xpo_RequireVerified = True, xpo_RequireEvidence = True\<rparr>"

definition no_lesson :: "string \<Rightarrow> Feedback" where
  "no_lesson reason = \<lparr>fb_State = Apprenticing, fb_Candidates = [], fb_Mentorship = None, fb_Reason = reason\<rparr>"

definition observation_evidence :: "Observation \<Rightarrow> Reference list" where
  "observation_evidence o' =
     [\<lparr>ref_Kind = ''work_package'', ref_ID = ob_WorkPackageID o', ref_Version = []\<rparr>,
      \<lparr>ref_Kind = ''attempt'', ref_ID = ob_AttemptID o', ref_Version = []\<rparr>]"

definition lesson_candidate :: "Observation \<Rightarrow> Lesson \<Rightarrow> LearnedCandidate" where
  "lesson_candidate o' l =
     \<lparr>jc_Kind = (if ln_Kind l = [] then ''strategy'' else ln_Kind l), jc_Level = ''project'', jc_Scope = ''project:'' @ ob_ProjectID o',
      jc_Title = ln_Title l, jc_Content = ln_Content l,
      jc_Applicability = (if ob_Role o' \<noteq> [] then Some \<lparr>ap_Roles = [ob_Role o'], ap_Languages = []\<rparr> else None),
      jc_Evidence = ob_Evidence o',
      jc_Provenance = Some \<lparr>pv_Source = ''aa-kernel/joblearn experience'', pv_ProducedAt = [], pv_ProducedBy = None,
        pv_Confidence = [], pv_Evidence = observation_evidence o' @ ob_Evidence o', pv_ContentHash = []\<rparr>,
      jc_Confidence = ob_Confidence o'\<rparr>"

definition experience_Derive :: "ExperiencePolicy \<Rightarrow> Observation \<Rightarrow> learn_error + Feedback" where
  "experience_Derive p o' =
     (if ob_ProjectID o' = [] \<or> ob_WorkPackageID o' = [] \<or> ob_AttemptID o' = []
        then Err (JlInvalid ''projectId, workPackageId, and attemptId are required'')
      else if \<not> Outcome_Valid (ob_Outcome o') then Err (JlInvalid ''outcome is unknown'')
      else if outside_unit (ob_Confidence o') then Err (JlInvalid ''confidence is outside [0,1]'')
      else if xpo_RequireVerified p \<and> \<not> ob_Verified o' then Ok (no_lesson ''outcome not verified; no learning'')
      else if ob_Outcome o' \<noteq> ''succeeded'' then Ok (no_lesson ''non-successful outcome; no lesson'')
      else if float_lt (ob_Confidence o') (xpo_MinConfidence p) then Ok (no_lesson ''confidence below threshold'')
      else if xpo_RequireEvidence p \<and> ob_Evidence o' = [] then Ok (no_lesson ''no evidence; refusing to learn'')
      else let cs = map (lesson_candidate o') (ob_Lessons o') in
      (case first_err Candidate_Validate cs of Some e \<Rightarrow> Err e
       | None \<Rightarrow> Ok \<lparr>fb_State = Apprenticing, fb_Candidates = sort_key (\<lambda>c. (jc_Title c, jc_Content c)) cs,
           fb_Mentorship = (if cs \<noteq> [] \<and> ob_Model o' \<noteq> []
             then Some \<lparr>mt_Teacher = ob_Model o', mt_Reason = ''share a verified lesson with cheaper workers'',
                        mt_Scope = ''project:'' @ ob_ProjectID o'\<rparr> else None),
           fb_Reason = []\<rparr>))"

definition level_State :: "string \<Rightarrow> learning_state" where
  "level_State l = (if l \<in> set [''session'', ''task'', ''project''] then Apprenticing
     else if l \<in> set [''role'', ''workforce''] then Studying else Practicing)"

definition Graduate :: "LearnedCandidate \<Rightarrow> learn_error + LearnedCandidate" where
  "Graduate c =
     (if jc_Level c \<noteq> ''project'' then Err (JlInvalid ''only project lessons can graduate'')
      else let g = c\<lparr>jc_Level := ''workforce'', jc_Scope := ''organization''\<rparr> in
      (case Candidate_Validate g of Some e \<Rightarrow> Err e | None \<Rightarrow> Ok g))"

type_synonym MemExperience = "(string, LearnedCandidate) fmap"

definition NewMemStore :: MemExperience where "NewMemStore = fmempty"

definition experience_identity :: "LearnedCandidate \<Rightarrow> string" where
  "experience_identity c = jc_Kind c @ ''|'' @ jc_Level c @ ''|'' @ jc_Scope c @ ''|'' @ jc_Title c"

definition MemStore_Put :: "LearnedCandidate \<Rightarrow> MemExperience \<Rightarrow> MemExperience \<times> learn_error option" where
  "MemStore_Put c s =
     (case Candidate_Validate c of Some e \<Rightarrow> (s, Some e) | None \<Rightarrow> (fmupd (experience_identity c) c s, None))"

text \<open>Candidates with the same title and content come out in the order of their keys here, in any order in the code.\<close>

definition MemStore_List :: "string \<Rightarrow> MemExperience \<Rightarrow> LearnedCandidate list" where
  "MemStore_List scope s =
     sort_key (\<lambda>c. (jc_Title c, jc_Content c)) (filter (\<lambda>c. scope = [] \<or> jc_Scope c = scope) (fm_vals s))"

text \<open>\<open>Record\<close> over any store given by its \<open>Put\<close>: the number written and the first error.\<close>

fun experience_Record :: "(LearnedCandidate \<Rightarrow> 's \<Rightarrow> 's \<times> 'e option) \<Rightarrow> LearnedCandidate list \<Rightarrow> int \<Rightarrow> 's \<Rightarrow> 's \<times> int \<times> 'e option" where
  "experience_Record put [] written s = (s, written, None)"
| "experience_Record put (c # cs) written s =
     (case put c s of (s1, Some e) \<Rightarrow> (s1, written, Some e) | (s1, None) \<Rightarrow> experience_Record put cs (written + 1) s1)"

end
