(* ===== verification/JobPromoteProps.thy ===== *)
theory JobPromoteProps
  imports JobPromote
begin

text \<open>
  Proposing candidates only adds records, in the state CANDIDATE, and proposing one again later fails.
\<close>

section \<open>Sources\<close>

lemma replace_runes_chars: "c \<in> set (replace_runes s) \<Longrightarrow> source_char c"
  by (induction s rule: replace_runes.induct) (auto simp: source_char_def split: if_splits)

lemma normalizeSource_valid: "RequireIdentifier field (normalizeSource source) = None"
proof (cases "source = [] \<or> RequireIdentifier ''source'' source = None \<or> replace_runes source = []")
  case True
  have "RequireIdentifier field DefaultSource = None" by code_simp
  then show ?thesis using True by (auto simp: normalizeSource_def RequireIdentifier_def split: if_splits list.splits)
next
  case False
  then obtain c cs where r: "replace_runes source = c # cs" by (cases "replace_runes source") auto
  let ?out = "if is_alnum c then c # cs else ''src'' @ c # cs"
  obtain d ds where d: "?out = d # ds" "is_alnum d" "set ds \<subseteq> set ''rc'' \<union> set (c # cs)" by (cases "is_alnum c") (auto simp: is_alnum_def)
  have "source_char (CHR ''r'') \<and> source_char (CHR ''c'')" by code_simp
  moreover have "\<forall>x \<in> set (c # cs). source_char x" using replace_runes_chars [of _ source] unfolding r by blast
  ultimately have "\<forall>x \<in> set ds. source_char x" using d(3) by fastforce
  then have "identifierRE (take 256 (d # ds))"
    using d(2) by (auto simp: identifierRE_def source_char_def list_all_iff dest!: in_set_takeD)
  then show ?thesis using False r d(1) by (auto simp: normalizeSource_def RequireIdentifier_def)
qed

section \<open>Proposing adds\<close>

text \<open>
  The interface of a sink: what it stores is read by \<open>stored\<close> under keys, and a proposal either changes nothing or adds
  what was proposed under its key, where nothing was.
\<close>

definition proposed_by ::
  "PromoteEnv \<Rightarrow> PromoteOptions \<Rightarrow> (MemoryRecord \<Rightarrow> 'k) \<Rightarrow> (MemoryRecord \<Rightarrow> 'r \<Rightarrow> bool) \<Rightarrow> LearnedCandidate \<Rightarrow> 'k \<Rightarrow> 'r \<Rightarrow> bool" where
  "proposed_by P opts key added c k x \<longleftrightarrow> Candidate_Validate c = None \<and>
     (\<exists>n n1 r. learn_record P opts c n = (n1, Ok r) \<and> k = key r \<and> added r x)"

locale candidate_sink =
  fixes K :: "('s, 'e) PromoteSink" and stored :: "'s \<Rightarrow> 'k \<Rightarrow> 'r option"
    and key :: "MemoryRecord \<Rightarrow> 'k" and added :: "MemoryRecord \<Rightarrow> 'r \<Rightarrow> bool"
  assumes propose_adds: "sk_Propose K r s = (s1, res) \<Longrightarrow>
    stored s1 k = stored s k \<or> (k = key r \<and> stored s k = None \<and> (\<exists>x. stored s1 k = Some x \<and> added r x))"
begin

lemma propose_loop_adds:
  "propose_loop P opts K cs seen out n s = ((s1, n1), res) \<Longrightarrow>
     stored s1 k = stored s k \<or>
     (stored s k = None \<and> (\<exists>c \<in> set cs. \<exists>x. stored s1 k = Some x \<and> proposed_by P opts key added c k x))"
proof (induction cs arbitrary: seen out n s)
  case (Cons c cs)
  show ?case
  proof (cases "Candidate_Validate c = None")
    case False
    then show ?thesis using Cons.prems by auto
  next
    case valid: True
    obtain n2 y where rec: "learn_record P opts c n = (n2, y)" by fastforce
    show ?thesis
    proof (cases y)
      case (Inl e)
      then show ?thesis using Cons.prems valid rec by simp
    next
      case (Inr r)
      show ?thesis
      proof (cases "ev_ID (mr_Envelope r) \<in> set seen")
        case True
        then have "propose_loop P opts K cs seen out n2 s = ((s1, n1), res)" using Cons.prems valid rec Inr by simp
        from Cons.IH [OF this] show ?thesis by auto
      next
        case False
        obtain s2 z where p: "sk_Propose K r s = (s2, z)" by fastforce
        have step: "stored s2 k = stored s k \<or>
            (stored s k = None \<and> (\<exists>x. stored s2 k = Some x \<and> proposed_by P opts key added c k x))"
          using propose_adds [OF p, of k] valid rec Inr unfolding proposed_by_def by blast
        show ?thesis
        proof (cases z)
          case (Inl e)
          then have "s1 = s2" using Cons.prems valid rec Inr False p by simp
          then show ?thesis using step by auto
        next
          case (Inr w)
          then have "propose_loop P opts K cs (ev_ID (mr_Envelope r) # seen) (out @ [w]) n2 s2 = ((s1, n1), res)"
            using Cons.prems valid rec \<open>y = Inr r\<close> False p by simp
          from Cons.IH [OF this] step show ?thesis by auto
        qed
      qed
    qed
  qed
qed simp

end

text \<open>The memory sink is one: a record of revision 1 or more is never replaced by a proposal, which has revision 1.\<close>

definition mem_stored :: "MemState \<Rightarrow> string \<times> string \<Rightarrow> StoreRecord option" where
  "mem_stored m k = (case readRecord (ms_store m) (fst k) (snd k) of Inl _ \<Rightarrow> None
     | Inr x \<Rightarrow> if 1 \<le> sr_Revision x then Some x else None)"

definition mem_key :: "MemoryRecord \<Rightarrow> string \<times> string" where "mem_key r = (''memory_record'', ev_ID (mr_Envelope r))"

definition as_candidate :: "StoreEnv \<Rightarrow> MemoryRecord Codec \<Rightarrow> StoreRecord \<Rightarrow> bool" where
  "as_candidate E cd x \<longleftrightarrow> sr_Revision x = 1 \<and>
     (\<exists>v d. mr_Lifecycle v = ''CANDIDATE'' \<and> cd_enc cd v = Some d \<and> se_canon E d = Some (sr_Data x))"

lemma putTyped_adds:
  assumes "putTyped E cd k i 1 v m = (m1, res)"
  shows "mem_stored m1 q = mem_stored m q \<or> (q = (k, i) \<and> mem_stored m q = None \<and>
    (\<exists>x d. mem_stored m1 q = Some x \<and> sr_Revision x = 1 \<and> cd_enc cd v = Some d \<and> se_canon E d = Some (sr_Data x)))"
  using assms
proof (cases rule: putTyped_cases)
  case (wrote r d)
  note f = NewRecord_fields [OF wrote(3)]
  have less: "readRecord (ms_store m) k i = Ok x \<Longrightarrow> sr_Revision x < 1" for x
    using disk.put_newer [OF wrote(4)] by (simp add: f)
  show ?thesis
  proof (cases "q = (k, i)")
    case True
    have "mem_stored m q = None" using less True by (auto simp: mem_stored_def split: sum.splits)
    moreover have "mem_stored m1 q = Some r" using disk.put_changes [OF wrote(4)] True by (simp add: mem_stored_def f)
    ultimately show ?thesis using True wrote(2) f(3,4) by blast
  next
    case False
    then show ?thesis using disk.put_others [OF wrote(4), of "fst q" "snd q"] by (cases q) (simp add: mem_stored_def f)
  qed
next
  case (kept r d)
  then obtain x where "x \<noteq> Ok True" "PutRecord E r (ms_store m) = (ms_store m1, x)" by blast
  then show ?thesis using disk.put_others [of E r "ms_store m" "ms_store m1" x] by (simp add: mem_stored_def)
next
  case refused
  then show ?thesis by auto
qed

text \<open>What the memory sink writes: the record with the revision it gives to a proposal.\<close>

definition proposal :: "MemoryRecord \<Rightarrow> MemoryRecord" where
  "proposal r = r\<lparr>mr_Envelope := new_envelope ''memory_record'' [] (mr_Envelope r)\<rparr>"

lemma memory_kind_fields [simp]:
  "lk_kind (memory_kind parse cd) = ''memory_record''" "lk_codec (memory_kind parse cd) = cd"
  "lk_validate (memory_kind parse cd) = MemoryRecord_Validate parse" "lk_lifecycle (memory_kind parse cd) = mr_Lifecycle"
  "lk_env (memory_kind parse cd) = mr_Envelope"
  "lk_set_env (memory_kind parse cd) e r = r\<lparr>mr_Envelope := e\<rparr>"
  "lk_set_lifecycle (memory_kind parse cd) l r = r\<lparr>mr_Lifecycle := l\<rparr>"
  by (simp_all add: memory_kind_def)

lemma proposal_fields [simp]: "ev_ID (mr_Envelope (proposal r)) = ev_ID (mr_Envelope r)" "mr_Lifecycle (proposal r) = mr_Lifecycle r"
  by (simp_all add: proposal_def new_envelope_def)

lemma MemorySink_put:
  assumes "mr_Lifecycle r = ''CANDIDATE''"
  shows "sk_Propose (MemorySink E parse cd) r m =
    (case MemoryRecord_Validate parse (proposal r) of Some e \<Rightarrow> (m, Err (RepoContract e)) | None \<Rightarrow>
      (case putTyped E cd ''memory_record'' (ev_ID (mr_Envelope r)) 1 (proposal r) m of
         (m1, Inl e) \<Rightarrow> (m1, Err e) | (m1, Inr _) \<Rightarrow> (m1, Ok (proposal r))))"
  using assms by (cases "MemoryRecord_Validate parse (proposal r)")
    (simp_all add: MemorySink_def Propose_def Let_def store_valid_def flip: proposal_def)

lemma MemorySink_refuses:
  "mr_Lifecycle r \<noteq> ''CANDIDATE'' \<Longrightarrow> mr_Lifecycle r \<noteq> [] \<Longrightarrow>
     sk_Propose (MemorySink E parse cd) r m = (m, Err (RepoNotCandidate (mr_Lifecycle r)))"
  by (simp add: MemorySink_def Propose_def)

lemma MemorySink_default:
  "mr_Lifecycle r = [] \<Longrightarrow>
     sk_Propose (MemorySink E parse cd) r m = sk_Propose (MemorySink E parse cd) (r\<lparr>mr_Lifecycle := ''CANDIDATE''\<rparr>) m"
  by (simp add: MemorySink_def Propose_def Let_def)

lemma MemorySink_adds:
  assumes r: "mr_Lifecycle r = ''CANDIDATE''" and p: "sk_Propose (MemorySink E parse cd) r m = (m1, res)"
  shows "mem_stored m1 k = mem_stored m k \<or> (k = mem_key r \<and> mem_stored m k = None \<and>
    (\<exists>x. mem_stored m1 k = Some x \<and> as_candidate E cd x))"
proof -
  have c: "mr_Lifecycle (proposal r) = ''CANDIDATE''" by (simp add: r)
  obtain m2 y where put: "putTyped E cd ''memory_record'' (ev_ID (mr_Envelope r)) 1 (proposal r) m = (m2, y)" by fastforce
  then have "m1 = m \<or> m1 = m2" using p by (auto simp: MemorySink_put [OF r] split: option.splits sum.splits)
  moreover have "as_candidate E cd x"
    if "sr_Revision x = 1" "cd_enc cd (proposal r) = Some d" "se_canon E d = Some (sr_Data x)" for x d
    using that c unfolding as_candidate_def by blast
  ultimately show ?thesis using putTyped_adds [OF put, of k] unfolding mem_key_def by blast
qed

interpretation memory: candidate_sink "MemorySink E parse cd" mem_stored mem_key "\<lambda>r. as_candidate E cd" for E parse cd
proof
  fix r :: MemoryRecord and m m1 :: MemState and res k
  assume p: "sk_Propose (MemorySink E parse cd) r m = (m1, res)"
  consider "mr_Lifecycle r = ''CANDIDATE''" | "mr_Lifecycle r = []" | "mr_Lifecycle r \<noteq> ''CANDIDATE''" "mr_Lifecycle r \<noteq> []" by blast
  then show "mem_stored m1 k = mem_stored m k \<or> (k = mem_key r \<and> mem_stored m k = None \<and>
    (\<exists>x. mem_stored m1 k = Some x \<and> as_candidate E cd x))"
  proof cases
    case 1
    then show ?thesis using MemorySink_adds p by blast
  next
    case 2
    let ?r = "r\<lparr>mr_Lifecycle := ''CANDIDATE''\<rparr>"
    have "sk_Propose (MemorySink E parse cd) ?r m = (m1, res)" using p MemorySink_default [OF 2, of E parse cd m] by simp
    moreover have "mr_Lifecycle ?r = ''CANDIDATE''" "mem_key ?r = mem_key r" by (simp_all add: mem_key_def)
    ultimately show ?thesis using MemorySink_adds [of ?r E parse cd m m1 res k] by presburger
  next
    case 3
    then show ?thesis using MemorySink_refuses [OF 3] p by simp
  qed
qed

lemma learn_record_fields:
  assumes "learn_record P opts c n = (n1, Ok r)"
  shows "ev_ID (mr_Envelope r) = learn_identity P c" "mr_Lifecycle r = ''CANDIDATE''" "ev_CreatedAt (mr_Envelope r) = prm_clock P n"
  using assms by (auto simp: learn_record_def candidate_record_def split: prod.splits option.splits)

text \<open>A codec that keeps the time only, and one candidate.\<close>

definition ex_time_codec :: "MemoryRecord Codec" where
  "ex_time_codec = \<lparr>cd_enc = (\<lambda>r. Some (ev_CreatedAt (mr_Envelope r))), cd_dec = (\<lambda>_. None)\<rparr>"

definition ex_promote_env :: PromoteEnv where
  "ex_promote_env = \<lparr>prm_sha = (\<lambda>_. ''a''), prm_clock = itoa, prm_parse = (\<lambda>_. Some 0)\<rparr>"

definition ex_candidate :: LearnedCandidate where
  "ex_candidate = \<lparr>jc_Kind = ''strategy'', jc_Level = ''project'', jc_Scope = [], jc_Title = ''t'', jc_Content = ''c'',
     jc_Applicability = None, jc_Evidence = [], jc_Provenance = None, jc_Confidence = Finite 1\<rparr>"

definition ex_options :: PromoteOptions where "ex_options = \<lparr>po_ProjectID = ''p'', po_Source = []\<rparr>"

abbreviation "ex_sink \<equiv> MemorySink ex_store_env (\<lambda>_. Some 0) ex_time_codec"

definition ex_promoted :: "(MemState \<times> nat) \<times> (repo_error promote_error + MemoryRecord list)" where
  "ex_promoted = Promoter_Propose ex_promote_env ex_options ex_sink [ex_candidate] 0 (mem_start [])"

lemma ex_promoted_ok: "is_Ok (snd ex_promoted)" by code_simp

lemma ex_promoted_read:
  "map_sum (\<lambda>_. ()) sr_Revision
     (readRecord (ms_store (fst (fst ex_promoted))) ''memory_record'' (learn_identity ex_promote_env ex_candidate)) = Ok 1"
  by code_simp

lemma ex_promoted_run:
  obtains m1 n1 out where
    "Promoter_Propose ex_promote_env ex_options ex_sink [ex_candidate] 0 (mem_start []) = ((m1, n1), Ok out)" "m1 = fst (fst ex_promoted)"
proof -
  obtain m1 n1 x where p: "ex_promoted = ((m1, n1), x)" by (metis surj_pair)
  then have "is_Ok x" using ex_promoted_ok by (metis snd_conv)
  then obtain out where "x = Ok out" by (cases x) auto
  then show thesis using that p unfolding ex_promoted_def by (metis fst_conv)
qed



section \<open>Proposing again\<close>

lemma PutRecord_stale:
  "readRecord s (sr_Kind r) (sr_ID r) = Ok x \<Longrightarrow> sr_Hash x \<noteq> sr_Hash r \<Longrightarrow> sr_Revision r \<le> sr_Revision x \<Longrightarrow>
     \<exists>e. PutRecord E r s = (s, Err e)"
  by (auto simp: PutRecord_def Let_def split: option.splits)

lemma putTyped_stale:
  assumes x: "readRecord (ms_store m) k i = Ok x" "1 \<le> sr_Revision x"
    and hash: "\<And>d c. cd_enc cd v = Some d \<Longrightarrow> se_canon E d = Some c \<Longrightarrow> HashBytes E c \<noteq> Some (sr_Hash x)"
  shows "\<exists>e. putTyped E cd k i 1 v m = (m, Err e)"
proof (cases "cd_enc cd v")
  case None
  then show ?thesis by (simp add: putTyped_def)
next
  case (Some d)
  show ?thesis
  proof (cases "NewRecord E k i 1 d")
    case (Inl e)
    then show ?thesis using Some by (simp add: putTyped_def)
  next
    case (Inr y)
    note f = NewRecord_fields [OF Inr]
    have "sr_Hash x \<noteq> sr_Hash y" using hash [OF Some f(4)] f(6) by auto
    then obtain e where "PutRecord E y (ms_store m) = (ms_store m, Err e)"
      using PutRecord_stale [of "ms_store m" y x E] x f by auto
    then show ?thesis using Some Inr by (simp add: putTyped_def)
  qed
qed

text \<open>Encodings with the same hash are of records created at the same time: the time is part of the encoding.\<close>

definition hash_shows_time :: "StoreEnv \<Rightarrow> MemoryRecord Codec \<Rightarrow> bool" where
  "hash_shows_time E cd \<longleftrightarrow> (\<forall>v w d e x y. cd_enc cd v = Some d \<longrightarrow> cd_enc cd w = Some e \<longrightarrow>
     se_canon E d = Some x \<longrightarrow> se_canon E e = Some y \<longrightarrow> HashBytes E x = HashBytes E y \<longrightarrow>
     ev_CreatedAt (mr_Envelope v) = ev_CreatedAt (mr_Envelope w))"

lemma proposal_created [simp]: "ev_CreatedAt (mr_Envelope (proposal r)) = ev_CreatedAt (mr_Envelope r)"
  by (simp add: proposal_def new_envelope_def)

text \<open>A first proposal that succeeds leaves its record in the store.\<close>

lemma propose_stores:
  assumes ok: "Promoter_Propose P opts (MemorySink E parse cd) [c] n m = ((m1, n1), Ok out)"
    and absent: "readRecord (ms_store m) ''memory_record'' (learn_identity P c) = Err StNotFound"
  obtains r d x where "ev_CreatedAt (mr_Envelope r) = prm_clock P n" "cd_enc cd r = Some d" "se_canon E d = Some (sr_Data x)"
    "HashBytes E (sr_Data x) = Some (sr_Hash x)" "sr_Revision x = 1"
    "readRecord (ms_store m1) ''memory_record'' (learn_identity P c) = Ok x" "Candidate_Validate c = None"
proof -
  let ?K = "MemorySink E parse cd"
  obtain k z where rec: "learn_record P (Promoter_options opts) c n = (k, z)" by fastforce
  from ok rec obtain r where valid: "Candidate_Validate c = None" and z: "z = Ok r"
    by (auto simp: Promoter_Propose_def split: option.splits sum.splits)
  note f = learn_record_fields [OF rec [unfolded z]]
  obtain stored where "sk_Propose ?K r m = (m1, Ok stored)"
    using ok rec valid z by (auto simp: Promoter_Propose_def split: prod.splits sum.splits)
  then obtain b where put: "putTyped E cd ''memory_record'' (learn_identity P c) 1 (proposal r) m = (m1, Ok b)"
    using f by (auto simp: MemorySink_put split: option.splits prod.splits sum.splits)
  then show thesis
  proof (cases rule: putTyped_cases)
    case (wrote x d)
    note g = NewRecord_fields [OF wrote(3)]
    show thesis using that [of "proposal r" d x] wrote(2) disk.put_changes [OF wrote(4)] f valid g by simp
  next
    case (kept x d)
    note g = NewRecord_fields [OF kept(3)]
    have "PutRecord E x (ms_store m) = (ms_store m1, Ok b)"
      using put kept(2,3) by (auto simp: putTyped_def split: prod.splits sum.splits)
    moreover have "b = False" using kept(1) by simp
    ultimately show thesis using disk.put_unchanged absent g by fastforce
  next
    case refused
    then show thesis by simp
  qed
qed

text \<open>
  Proposing a stored candidate again at another time fails and stops there: nothing is stored, and the candidates
  after it are not proposed.
\<close>

lemma repropose_fails:
  assumes "hash_shows_time E cd"
    and "Promoter_Propose P opts (MemorySink E parse cd) [c] n m = ((m1, n1), Ok out)"
    and "readRecord (ms_store m) ''memory_record'' (learn_identity P c) = Err StNotFound"
    and "prm_clock P n2 \<noteq> prm_clock P n"
  shows "\<exists>n3 e. Promoter_Propose P opts (MemorySink E parse cd) (c # cs) n2 m1 = ((m1, n3), Err e)"
proof -
  from propose_stores [OF assms(2,3)] obtain r d x where
    r: "ev_CreatedAt (mr_Envelope r) = prm_clock P n" "cd_enc cd r = Some d" "se_canon E d = Some (sr_Data x)"
    and x: "HashBytes E (sr_Data x) = Some (sr_Hash x)" "sr_Revision x = 1"
      "readRecord (ms_store m1) ''memory_record'' (learn_identity P c) = Ok x" and valid: "Candidate_Validate c = None" by metis
  obtain n3 z where rec: "learn_record P (Promoter_options opts) c n2 = (n3, z)" by fastforce
  show ?thesis
  proof (cases z)
    case (Inl e)
    then show ?thesis using rec valid by (simp add: Promoter_Propose_def)
  next
    case (Inr q)
    note f = learn_record_fields [OF rec [unfolded Inr]]
    have "\<exists>e. putTyped E cd ''memory_record'' (learn_identity P c) 1 (proposal q) m1 = (m1, Err e)"
    proof (rule putTyped_stale [OF x(3)])
      fix d2 y assume y: "cd_enc cd (proposal q) = Some d2" "se_canon E d2 = Some y"
      show "HashBytes E y \<noteq> Some (sr_Hash x)"
      proof
        assume "HashBytes E y = Some (sr_Hash x)"
        then have "ev_CreatedAt (mr_Envelope r) = ev_CreatedAt (mr_Envelope (proposal q))"
          using assms(1) r(2,3) y x(1) unfolding hash_shows_time_def by metis
        then show False using r(1) f(3) assms(4) by simp
      qed
    qed (simp add: x(2))
    then obtain e where "sk_Propose (MemorySink E parse cd) q m1 = (m1, Err e)"
      using f by (cases "MemoryRecord_Validate parse (proposal q)") (auto simp: MemorySink_put)
    then show ?thesis using rec valid Inr by (simp add: Promoter_Propose_def)
  qed
qed

end
