(* ===== verification/SchedulerLog.thy ===== *)
theory SchedulerLog
  imports SchedulerProps
begin

text \<open>
  The scheduler seen from its sink and across a restart: events are numbered consecutively, the
  durable assignment record follows the in-memory one except after a gate failure inside a
  dispatch, and \<open>Restore\<close> rebuilds assignments and attempt counters so that assignment ids are
  never reused.
\<close>

section \<open>Event numbers\<close>

fun event_number :: "world_call \<Rightarrow> int option" where
  "event_number (SinkEvent n _ _) = Some n"
| "event_number _ = None"

definition event_numbers :: "world_call list \<Rightarrow> int list" where
  "event_numbers log = List.map_filter event_number log"

definition log_numbered :: "Scheduler \<Rightarrow> bool" where
  "log_numbered s \<longleftrightarrow> 0 \<le> o_sequence s \<and> event_numbers (o_log s) = map int [1..<Suc (nat (o_sequence s))]"

lemma event_numbers_simps [simp]:
  "event_numbers [] = []"
  "event_numbers (xs @ ys) = event_numbers xs @ event_numbers ys"
  "event_numbers (c # cs) = (case event_number c of None \<Rightarrow> [] | Some n \<Rightarrow> [n]) @ event_numbers cs"
  by (auto simp: event_numbers_def List.map_filter_def split: option.splits)

lemma log_numbered_cong:
  "o_sequence s' = o_sequence s \<Longrightarrow> event_numbers (o_log s') = event_numbers (o_log s) \<Longrightarrow> log_numbered s' = log_numbered s"
  by (simp add: log_numbered_def)

lemma log_numbered_log_call: "event_number c = None \<Longrightarrow> log_numbered (log_call c s) = log_numbered s"
  by (rule log_numbered_cong) (simp_all add: log_call_def)

lemma log_numbered_emit: "log_numbered s \<Longrightarrow> log_numbered (emit ty p s)"
  by (simp add: log_numbered_def emit_def log_call_def Let_def nat_add_distrib)

lemma log_numbered_store [simp]: "log_numbered (store_assignment wp a s) = log_numbered s"
  by (rule log_numbered_cong) simp_all

lemma log_numbered_telemetry [simp]: "log_numbered (recordTelemetry a r s) = log_numbered s"
  by (rule log_numbered_cong) simp_all

lemma log_numbered_fields [simp]:
  "log_numbered (s\<lparr>o_intake := i\<rparr>) = log_numbered s" "log_numbered (s\<lparr>o_results := r\<rparr>) = log_numbered s"
  "log_numbered (s\<lparr>o_attempts := att\<rparr>) = log_numbered s" "log_numbered (s\<lparr>o_gates := g\<rparr>) = log_numbered s"
  "log_numbered (s\<lparr>o_graph := gr\<rparr>) = log_numbered s"
  by (simp_all add: log_numbered_def)

lemma log_numbered_setState: "log_numbered s \<Longrightarrow> log_numbered (setWorkPackageState env wp st s)"
  by (auto simp: setWorkPackageState_def Let_def log_numbered_log_call intro!: log_numbered_emit
      split: sum.splits option.splits)

lemma log_numbered_record: "log_numbered s \<Longrightarrow> recordAssignment env a s = (s1, e) \<Longrightarrow> log_numbered s1"
  by (auto simp: recordAssignment_def Let_def log_numbered_log_call intro!: log_numbered_emit
      split: option.splits)

lemma log_numbered_accept: "log_numbered s \<Longrightarrow> accept_work env a rep acc s = (s1, out) \<Longrightarrow> log_numbered s1"
  by (auto simp: accept_work_def Let_def split: prod.splits option.splits
      intro!: log_numbered_emit log_numbered_setState elim!: log_numbered_record [rotated])

lemma log_numbered_begin: "log_numbered s \<Longrightarrow> dispatch_begin env now wp s = (s1, out) \<Longrightarrow> log_numbered s1"
  by (auto simp: dispatch_begin_def Let_def split: prod.splits option.splits sum.splits
      intro!: log_numbered_emit log_numbered_setState elim!: log_numbered_record [rotated])

lemma log_numbered_error: "log_numbered s \<Longrightarrow> finish_error env t e s = (s1, out) \<Longrightarrow> log_numbered s1"
  by (auto simp: finish_error_def Let_def split: if_splits prod.splits option.splits
      intro!: log_numbered_setState elim!: log_numbered_record [rotated])

lemma log_numbered_gates:
  "log_numbered s \<Longrightarrow> finish_gates env wp a r acc s = (s1, out) \<Longrightarrow> log_numbered s1"
  by (auto simp: finish_gates_def Let_def split: if_splits prod.splits option.splits sum.splits
      intro!: log_numbered_setState elim!: log_numbered_record [rotated] log_numbered_accept [rotated])

lemma log_numbered_result: "log_numbered s \<Longrightarrow> finish_result env t r s = (s1, out) \<Longrightarrow> log_numbered s1"
  by (auto simp: finish_result_def Let_def split: prod.splits option.splits sum.splits
      elim!: log_numbered_record [rotated] log_numbered_gates [rotated])

lemma log_numbered_lifecycle:
  "log_numbered (fst (lifecycle_begin env t s)) = log_numbered s"
  "log_numbered (lifecycle_end env t out s) = log_numbered s"
  by (simp_all add: lifecycle_begin_def lifecycle_end_def log_numbered_log_call split: option.splits)

lemma log_numbered_finish: "log_numbered s \<Longrightarrow> dispatch_finish env t out s = (s1, res) \<Longrightarrow> log_numbered s1"
  by (cases out) (auto simp: dispatch_finish_def intro: log_numbered_error log_numbered_result)

lemma log_numbered_dispatchOne:
  assumes "log_numbered s"
  shows "log_numbered (fst (dispatchOne env now wp s))"
proof (cases "dispatchOne env now wp s" rule: prod.exhaust)
  case (Pair s' res)
  then show ?thesis
  proof (cases rule: dispatchOne_cases)
    case (begin_failed e)
    with assms show ?thesis by (simp add: Pair log_numbered_begin)
  next
    case (finished s1 t t' s2 out)
    have "log_numbered s2"
      unfolding finished(4) log_numbered_lifecycle by (rule log_numbered_begin [OF assms finished(1)])
    then show ?thesis using log_numbered_finish [OF _ finished(5)] by (simp add: Pair)
  qed
qed

lemma log_numbered_resolve: "log_numbered s \<Longrightarrow> Scheduler_Resolve env wp s = (s1, out) \<Longrightarrow> log_numbered s1"
  by (auto simp: Scheduler_Resolve_def Let_def split: if_splits prod.splits option.splits
      intro!: log_numbered_setState elim!: log_numbered_record [rotated] log_numbered_accept [rotated])

lemma log_numbered_restore: "log_numbered s \<Longrightarrow> restore_loop parse now upd rs s = (s1, out) \<Longrightarrow> log_numbered s1"
  by (induction parse now upd rs s rule: restore_loop.induct)
    (auto simp: Let_def split: sum.splits)

text \<open>The scheduler's operations, in any sequence.\<close>

datatype sched_op =
    OpDispatch time | OpResolve string | OpApprove string | OpReject string string
  | OpRestore "RestoreAssignment list" time

fun sched_apply :: "Env \<Rightarrow> (string \<Rightarrow> time option) \<Rightarrow> sched_op \<Rightarrow> Scheduler \<Rightarrow> Scheduler" where
  "sched_apply env parse (OpDispatch now) s = fst (Scheduler_Dispatch env now s)"
| "sched_apply env parse (OpResolve wp) s = fst (Scheduler_Resolve env wp s)"
| "sched_apply env parse (OpApprove wp) s = Scheduler_Approve wp s"
| "sched_apply env parse (OpReject wp reason) s = Scheduler_Reject wp reason s"
| "sched_apply env parse (OpRestore rs now) s = fst (Scheduler_Restore parse rs now s)"

lemma log_numbered_apply: "log_numbered s \<Longrightarrow> log_numbered (sched_apply env parse p s)"
proof (cases p)
  case (OpDispatch now)
  assume "log_numbered s"
  then show ?thesis
    using log_numbered_dispatchOne [of s env now]
    by (auto simp: OpDispatch Scheduler_Dispatch_def Let_def case_prod_beta split: list.splits)
next
  case (OpResolve wp)
  assume "log_numbered s"
  then show ?thesis
    using log_numbered_resolve [of s env wp "fst (Scheduler_Resolve env wp s)" "snd (Scheduler_Resolve env wp s)"]
    by (simp add: OpResolve)
next
  case (OpRestore rs now)
  assume "log_numbered s"
  then show ?thesis
    using log_numbered_restore [of s parse now "[]" rs] by (simp add: OpRestore Scheduler_Restore_def)
      (metis prod.collapse)
qed (simp_all add: Scheduler_Approve_def Scheduler_Reject_def)

text \<open>
  The event stream is gapless: after any sequence of dispatches, resolutions, approvals,
  rejections and restores on a new scheduler, whether or not the sink's calls failed, the events
  handed to the sink carry the numbers 1, 2, ..., n in this order.
\<close>

lemma events_numbered:
  assumes "Scheduler_New g cfg = Ok s0"
  shows "event_numbers (o_log (fold (sched_apply env parse) ops s0))
    = map int [1..<Suc (nat (o_sequence (fold (sched_apply env parse) ops s0)))]"
proof -
  have "log_numbered s0"
    using assms by (auto simp: Scheduler_New_def log_numbered_def split: option.splits if_splits)
  then have "log_numbered (fold (sched_apply env parse) ops s0)"
    by (induction ops arbitrary: s0) (simp_all add: log_numbered_apply)
  then show ?thesis by (simp add: log_numbered_def)
qed

section \<open>The durable assignment\<close>

text \<open>The state of the last record handed to the sink for an assignment.\<close>

fun handed_step :: "string \<Rightarrow> asg_state option \<Rightarrow> world_call \<Rightarrow> asg_state option" where
  "handed_step i d (SinkRecord r) = (if ar_ID r = i then Some (ar_State r) else d)"
| "handed_step i d _ = d"

definition handed_state :: "world_call list \<Rightarrow> string \<Rightarrow> asg_state option" where
  "handed_state log i = foldl (handed_step i) None log"

lemma handed_log_call:
  "handed_state (o_log (log_call c s)) i = handed_step i (handed_state (o_log s) i) c"
  by (simp add: handed_state_def log_call_def)

lemma handed_state_in: "handed_state log i = Some st \<Longrightarrow> \<exists>d. SinkRecord d \<in> set log \<and> ar_State d = st"
proof (induction log rule: rev_induct)
  case (snoc c log)
  then show ?case by (cases c) (auto simp: handed_state_def split: if_splits)
qed (simp add: handed_state_def)

lemma handed_emit [simp]: "handed_state (o_log (emit ty p s)) i = handed_state (o_log s) i"
  by (simp add: emit_def Let_def handed_log_call)

lemma handed_setState [simp]:
  "handed_state (o_log (setWorkPackageState env wp st s)) i = handed_state (o_log s) i"
  by (auto simp: setWorkPackageState_def Let_def handed_log_call split: sum.splits option.splits)

lemma handed_record:
  "recordAssignment env a s = (s1, e) \<Longrightarrow>
     handed_state (o_log s1) i = (if a_ID a = i then Some (a_State a) else handed_state (o_log s) i)"
  by (auto simp: recordAssignment_def Let_def handed_log_call assignment_record_def split: option.splits)

lemma finish_gates_failed:
  assumes fin: "finish_gates env wp a result acc s = (s', Inr r)"
    and a: "a_State a = AsgCollecting" and failed: "dr_Status r = ''failed''"
    and st: "res_Status result = ''succeeded'' \<or> res_Status result = ''partial''"
  shows "handed_state (o_log s') (a_ID a) = Some AsgAwaitingGates
    \<and> (\<exists>b. fmlookup (o_assignments s') wp = Some b \<and> a_ID b = a_ID a \<and> a_State b = AsgFailed)"
proof -
  let ?rep = "Gates_Evaluate (o_gates s) (subject wp result)"
  define a1 where "a1 = a\<lparr>a_State := AsgAwaitingGates\<rparr>"
  obtain s1 oe where rec: "recordAssignment env a1 (store_assignment wp a1 s) = (s1, oe)" by fastforce
  have a1: "Assignment_Transition a AsgAwaitingGates = Ok a1" "a_State a1 = AsgAwaitingGates" "a_ID a1 = a_ID a"
    using a by (simp_all add: a1_def Assignment_Transition_def)
  have oe: "oe = None"
    using fin st by (cases oe) (auto simp: finish_gates_def Let_def a1 rec)
  have np: "\<not> r_Passed ?rep"
    using fin st failed accept_work_ok [of env a1 ?rep acc s1 s' r] a1(2)
    by (auto simp: finish_gates_def Let_def a1 rec oe)
  moreover have "\<not> r_Pending ?rep"
    using fin st failed np by (auto simp: finish_gates_def Let_def a1 rec oe mk_report_def)
  ultimately have "s' = setWorkPackageState env wp StateDeficient (store_assignment wp (Assignment_force a1 AsgFailed) s1)"
    using fin st by (auto simp: finish_gates_def Let_def a1 rec oe)
  then show ?thesis
    using handed_record [OF rec, of "a_ID a"] a1
    by (simp add: Assignment_force_def Assignment_Transition_def)
qed

lemma gate_failed_handed:
  assumes run: "dispatchOne env now wp s = (s', Inr r)" and failed: "dr_Status r = ''failed''"
    and started: "dispatch_begin env now wp s = (s1, Inr t)" and ran: "o_runtime s (tk_request t) = Inr result"
    and st: "res_Status result = ''succeeded'' \<or> res_Status result = ''partial''"
  shows "handed_state (o_log s') (a_ID (tk_assignment t)) = Some AsgAwaitingGates
    \<and> (\<exists>b. fmlookup (o_assignments s') wp = Some b \<and> a_ID b = a_ID (tk_assignment t) \<and> a_State b = AsgFailed)"
  using run
proof (cases rule: dispatchOne_cases)
  case (finished s1' t0 t' s2 out)
  have t: "t0 = t" "s1' = s1" using finished(1) started by simp_all
  have req: "tk_request t' = tk_request t" "tk_assignment t' = tk_assignment t"
    by (simp_all add: finished(2) t)
  have "out = Inr result" using finished(3) ran req by simp
  with finished(5) have fin: "finish_result env t' result s2 = (s', Inr r)" by (simp add: dispatch_finish_def)
  define a where "a = (tk_assignment t')\<lparr>a_State := AsgCollecting\<rparr>"
  have a: "Assignment_Transition (tk_assignment t') AsgCollecting = Ok a" "a_State a = AsgCollecting"
    "a_ID a = a_ID (tk_assignment t)"
    using finished(6) req by (simp_all add: a_def ticket_ok_def Assignment_Transition_def)
  from fin obtain acc s3 where "finish_gates env wp a result acc s3 = (s', Inr r)"
    by (auto simp: finish_result_def a Let_def finished(7) split: prod.splits sum.splits option.splits)
  from finish_gates_failed [OF this a(2) failed st] show ?thesis by (simp add: a)
qed simp

text \<open>
  A gate failure inside a dispatch is not made durable: when a dispatch reports \<open>failed\<close> although
  the runtime's result was acceptable (so a gate failed), the assignment in memory is failed while
  the last record handed to the sink for it still says \<open>awaiting_gates\<close>.
\<close>

lemma gate_failure_not_recorded:
  assumes run: "dispatchOne env now wp s = (s', Inr r)" and failed: "dr_Status r = ''failed''"
    and started: "dispatch_begin env now wp s = (s1, Inr t)" and ran: "o_runtime s (tk_request t) = Inr result"
    and st: "res_Status result = ''succeeded'' \<or> res_Status result = ''partial''"
  shows "handed_state (o_log s') (a_ID (tk_assignment t)) = Some AsgAwaitingGates
    \<and> (\<exists>b. fmlookup (o_assignments s') wp = Some b \<and> a_ID b = a_ID (tk_assignment t) \<and> a_State b = AsgFailed)"
  by (rule gate_failed_handed [OF assms])

text \<open>
  \<open>Resolve\<close> on the other hand makes its verdict durable: when it accepts or fails an assignment,
  the stored assignment, the report and the last record handed to the sink agree.
\<close>

lemma resolve_records:
  assumes res: "Scheduler_Resolve env wp s = (s', Inr r)" and final: "dr_Status r \<noteq> ''pending''"
    and a: "fmlookup (o_assignments s) wp = Some a" and key: "a_WorkPackageID a = wp"
  shows "dr_State r \<in> {AsgAccepted, AsgFailed} \<and> handed_state (o_log s') (a_ID a) = Some (dr_State r)
    \<and> (\<exists>b. fmlookup (o_assignments s') wp = Some b \<and> a_ID b = a_ID a \<and> a_State b = dr_State r)"
proof -
  have st: "a_State a = AsgAwaitingGates" using res a by (auto simp: Scheduler_Resolve_def split: if_splits)
  have to: "Assignment_force a x = a\<lparr>a_State := x\<rparr>" if "x \<in> {AsgAccepted, AsgFailed}" for x
    using that st by (auto simp: Assignment_force_def Assignment_Transition_def)
  show ?thesis
    using res final a key st
    by (auto simp: Scheduler_Resolve_def accept_work_def Let_def to mk_report_def recordAssignment_frame
        handed_record split: if_splits prod.splits option.splits)
qed

section \<open>Restart\<close>

text \<open>
  Every record handed to the sink describes an assignment that was already running, so the lease
  reconciliation of \<open>Restore\<close>, which looks at leased and preparing assignments only, never applies
  to them.
\<close>

definition records_started :: "Scheduler \<Rightarrow> bool" where
  "records_started s \<longleftrightarrow> (\<forall>r. SinkRecord r \<in> set (o_log s) \<longrightarrow> ar_State r \<noteq> AsgLeased \<and> ar_State r \<noteq> AsgPreparing)"

definition startable :: "Assignment \<Rightarrow> bool" where
  "startable a \<longleftrightarrow> a_State a \<noteq> AsgLeased \<and> a_State a \<noteq> AsgPreparing"

lemma startable_force [simp]:
  "st \<noteq> AsgLeased \<Longrightarrow> st \<noteq> AsgPreparing \<Longrightarrow> startable a \<Longrightarrow> startable (Assignment_force a st)"
  by (auto simp: startable_def Assignment_force_state)

lemma started_log_call:
  "records_started (log_call c s) \<longleftrightarrow> records_started s \<and>
     (case c of SinkRecord r \<Rightarrow> ar_State r \<noteq> AsgLeased \<and> ar_State r \<noteq> AsgPreparing | _ \<Rightarrow> True)"
  by (auto simp: records_started_def log_call_def split: world_call.splits)

lemma started_fields [simp]:
  "records_started (s\<lparr>o_sequence := n\<rparr>) = records_started s"
  "records_started (s\<lparr>o_graph := g\<rparr>) = records_started s"
  "records_started (s\<lparr>o_gates := gs\<rparr>) = records_started s"
  "records_started (s\<lparr>o_intake := i\<rparr>) = records_started s" "records_started (s\<lparr>o_results := r\<rparr>) = records_started s"
  "records_started (s\<lparr>o_attempts := att\<rparr>) = records_started s"
  "records_started (store_assignment wp a s) = records_started s"
  "records_started (recordTelemetry a res s) = records_started s"
  by (simp_all add: records_started_def)

lemma started_emit [simp]: "records_started (emit ty p s) = records_started s"
  by (simp add: emit_def Let_def started_log_call)

lemma started_setState [simp]: "records_started (setWorkPackageState env wp st s) = records_started s"
  by (auto simp: setWorkPackageState_def Let_def started_log_call split: sum.splits option.splits)

lemma started_record:
  "recordAssignment env a s = (s1, e) \<Longrightarrow> records_started s1 = (records_started s \<and> startable a)"
  by (auto simp: recordAssignment_def Let_def started_log_call assignment_record_def startable_def
      split: option.splits)

lemma started_lifecycle [simp]:
  "records_started (fst (lifecycle_begin env t s)) = records_started s"
  "records_started (lifecycle_end env t out s) = records_started s"
  by (simp_all add: lifecycle_begin_def lifecycle_end_def started_log_call split: option.splits)

lemma started_accept:
  "records_started s \<Longrightarrow> startable a \<Longrightarrow> accept_work env a rep acc s = (s1, out) \<Longrightarrow> records_started s1"
  by (auto simp: accept_work_def Let_def started_record split: prod.splits option.splits)

lemma started_begin: "records_started s \<Longrightarrow> dispatch_begin env now wp s = (s1, out) \<Longrightarrow> records_started s1"
  by (auto simp: dispatch_begin_def Let_def started_record NewAssignment_def lease_loop Assignment_LeaseFor_def
      startable_def split: prod.splits option.splits sum.splits)

lemma started_finish:
  assumes st: "records_started s" and fin: "dispatch_finish env t out s = (s1, res)" and t: "ticket_ok t"
  shows "records_started s1"
proof (cases out)
  case (Inl e)
  have "startable (tk_assignment t)" using t by (simp add: ticket_ok_def startable_def)
  with st fin show ?thesis
    by (auto simp: Inl dispatch_finish_def finish_error_def Let_def started_record
        split: if_splits prod.splits option.splits)
next
  case (Inr result)
  have a: "Assignment_Transition (tk_assignment t) AsgCollecting = Ok ((tk_assignment t)\<lparr>a_State := AsgCollecting\<rparr>)"
    using t by (simp add: ticket_ok_def Assignment_Transition_def)
  show ?thesis
    using st fin
    by (auto simp: Inr dispatch_finish_def finish_result_def finish_gates_def a Let_def started_record
        startable_def Assignment_Transition_def Assignment_force_state
        split: if_splits prod.splits option.splits sum.splits elim!: started_accept [rotated 2])
qed

lemma started_dispatchOne:
  assumes "records_started s"
  shows "records_started (fst (dispatchOne env now wp s))"
proof (cases "dispatchOne env now wp s" rule: prod.exhaust)
  case (Pair s' res)
  then show ?thesis
  proof (cases rule: dispatchOne_cases)
    case (begin_failed e)
    with assms show ?thesis by (simp add: Pair started_begin)
  next
    case (finished s1 t t' s2 out)
    have "records_started s2"
      unfolding finished(4) started_lifecycle by (rule started_begin [OF assms finished(1)])
    then show ?thesis using started_finish [OF _ finished(5,6)] by (simp add: Pair)
  qed
qed

lemma started_resolve: "records_started s \<Longrightarrow> Scheduler_Resolve env wp s = (s1, out) \<Longrightarrow> records_started s1"
  by (auto simp: Scheduler_Resolve_def Let_def started_record startable_def Assignment_force_state
      split: if_splits prod.splits option.splits elim!: started_accept [rotated 2])

lemma started_restore: "restore_loop parse now upd rs s = (s1, out) \<Longrightarrow> records_started s1 = records_started s"
  by (induction parse now upd rs s rule: restore_loop.induct) (auto simp: Let_def split: sum.splits)

lemma started_apply: "records_started s \<Longrightarrow> records_started (sched_apply env parse p s)"
proof (cases p)
  case (OpDispatch now)
  assume "records_started s"
  then show ?thesis
    using started_dispatchOne [of s env now]
    by (auto simp: OpDispatch Scheduler_Dispatch_def Let_def case_prod_beta split: list.splits)
next
  case (OpResolve wp)
  assume "records_started s"
  then show ?thesis
    using started_resolve [of s env wp "fst (Scheduler_Resolve env wp s)" "snd (Scheduler_Resolve env wp s)"]
    by (simp add: OpResolve)
next
  case (OpRestore rs now)
  assume "records_started s"
  then show ?thesis
    using started_restore [of parse now "[]" rs s] by (simp add: OpRestore Scheduler_Restore_def)
      (metis prod.collapse)
qed (simp_all add: Scheduler_Approve_def Scheduler_Reject_def)

text \<open>One record of \<open>Restore\<close>'s loop.\<close>

definition restore_put :: "Assignment \<Rightarrow> Scheduler \<Rightarrow> Scheduler" where
  "restore_put a s = (let s1 = store_assignment (a_WorkPackageID a) a s in
     if fm_getd 0 (o_attempts s1) (a_WorkPackageID a) < a_Attempt a
     then s1\<lparr>o_attempts := fmupd (a_WorkPackageID a) (a_Attempt a) (o_attempts s1)\<rparr> else s1)"

lemma restore_loop_ConsE:
  assumes "restore_loop parse now upd (r # rs) s = (s1, Ok u)"
  obtains l a where "restore_lease parse r = Ok l" "Assignment_Expire (restore_assignment r l) now = Ok a"
    "restore_loop parse now (if a_State a \<noteq> ra_State r then upd @ [r\<lparr>ra_State := a_State a\<rparr>] else upd) rs
       (restore_put a s) = (s1, Ok u)"
    "a_WorkPackageID a = ra_WorkPackageID r" "a_Attempt a = ra_Attempt r" "a_ID a = ra_ID r"
    "a_State a = ra_State r \<or> a_State a = AsgExpired \<and> (ra_State r = AsgLeased \<or> ra_State r = AsgPreparing)"
proof -
  obtain l where l: "restore_lease parse r = Ok l" using assms by (auto split: sum.splits)
  obtain a where a: "Assignment_Expire (restore_assignment r l) now = Ok a"
    using assms l by (auto split: sum.splits)
  show thesis
    using assms a
    by (intro that [OF l a])
      (auto simp: l restore_put_def Let_def Assignment_Expire_def Assignment_Transition_def
        restore_assignment_def split: if_splits)
qed

lemma restore_no_update:
  assumes "\<forall>r\<in>set rs. ra_State r \<noteq> AsgLeased \<and> ra_State r \<noteq> AsgPreparing"
    and "restore_loop parse now upd rs s = (s1, Ok u)"
  shows "u = upd"
  using assms
proof (induction rs arbitrary: upd s)
  case (Cons r rs)
  from Cons.prems(2) show ?case
    by (rule restore_loop_ConsE) (use Cons in auto)
qed simp

text \<open>
  The scheduler never hands the sink a record that a later \<open>Restore\<close> would reconcile: whatever
  happened, if the records restored after a restart carry states that were recorded, \<open>Restore\<close>
  reports no update, whatever the time and however long their leases have expired. An assignment
  that was running when the process died stays running.
\<close>

lemma own_records_never_expire:
  assumes new: "Scheduler_New g cfg = Ok s0"
    and own: "\<forall>r\<in>set rs. \<exists>d. SinkRecord d \<in> set (o_log (fold (sched_apply env parse) ops s0)) \<and> ra_State r = ar_State d"
    and restore: "Scheduler_Restore parse rs now s = (s1, Ok upd)"
  shows "upd = []"
proof -
  have "records_started s0"
    using new by (auto simp: Scheduler_New_def records_started_def split: option.splits if_splits)
  then have "records_started (fold (sched_apply env parse) ops s0)"
    by (induction ops arbitrary: s0) (simp_all add: started_apply)
  with own have "\<forall>r\<in>set rs. ra_State r \<noteq> AsgLeased \<and> ra_State r \<noteq> AsgPreparing"
    by (fastforce simp: records_started_def)
  with restore_no_update [of rs parse now "[]" s s1 upd] restore show ?thesis
    by (simp add: Scheduler_Restore_def)
qed

text \<open>What \<open>Restore\<close> does to the attempt counters and the assignments.\<close>

lemma restore_put_attempts:
  "fm_getd 0 (o_attempts (restore_put a s)) wp =
     (if wp = a_WorkPackageID a then max (fm_getd 0 (o_attempts s) wp) (a_Attempt a)
      else fm_getd 0 (o_attempts s) wp)"
  by (auto simp: restore_put_def Let_def)

lemma restore_loop_attempts:
  assumes "restore_loop parse now upd rs s = (s1, Ok u)"
  shows "fm_getd 0 (o_attempts s1) wp =
    fold max (map ra_Attempt (filter (\<lambda>r. ra_WorkPackageID r = wp) rs)) (fm_getd 0 (o_attempts s) wp)"
  using assms
proof (induction rs arbitrary: upd s)
  case (Cons r rs)
  from Cons.prems show ?case
    by (rule restore_loop_ConsE) (use Cons.IH in \<open>auto simp: restore_put_attempts max.commute\<close>)
qed simp

lemma fold_max: "fold max xs (m :: int) = Max (insert m (set xs))"
  using Max.set_eq_fold [of m xs] by simp

lemma assignment_id_inject:
  "0 \<le> m \<Longrightarrow> 0 \<le> n \<Longrightarrow> assignment_id wp m = assignment_id wp' n \<longleftrightarrow> wp = wp' \<and> m = n"
  using append_sep_itoa_inject [of "CHR ''_''" wp "nat m" wp' "nat n"]
  by (auto simp: assignment_id_def itoa_int_nonneg is_digit_def)

text \<open>
  \<open>Restore\<close> sets every package's attempt counter to the greatest attempt among its records (or
  leaves it, when that is greater), so an assignment id of a later dispatch is not the id of any
  restored assignment.
\<close>

lemma restore_no_id_reuse:
  assumes restore: "Scheduler_Restore parse rs now s = (s1, Ok upd)"
    and ids: "\<forall>r\<in>set rs. ra_ID r = assignment_id (ra_WorkPackageID r) (ra_Attempt r) \<and> 0 \<le> ra_Attempt r"
    and nonneg: "0 \<le> fm_getd 0 (o_attempts s) wp"
  shows "fm_getd 0 (o_attempts s1) wp =
      Max (insert (fm_getd 0 (o_attempts s) wp) (ra_Attempt ` {r \<in> set rs. ra_WorkPackageID r = wp}))
    \<and> (\<forall>r\<in>set rs. assignment_id wp (fm_getd 0 (o_attempts s1) wp + 1) \<noteq> ra_ID r)"
proof -
  have att: "fm_getd 0 (o_attempts s1) wp =
      Max (insert (fm_getd 0 (o_attempts s) wp) (ra_Attempt ` {r \<in> set rs. ra_WorkPackageID r = wp}))"
    using restore_loop_attempts [of parse now "[]" rs s s1 upd wp] restore
    by (simp add: Scheduler_Restore_def fold_max)
  have ge: "x \<le> fm_getd 0 (o_attempts s1) wp"
    if "x \<in> insert (fm_getd 0 (o_attempts s) wp) (ra_Attempt ` {r \<in> set rs. ra_WorkPackageID r = wp})" for x
    unfolding att by (rule Max_ge) (use that in simp_all)
  have pos: "0 \<le> fm_getd 0 (o_attempts s1) wp" using ge [of "fm_getd 0 (o_attempts s) wp"] nonneg by simp
  have "assignment_id wp (fm_getd 0 (o_attempts s1) wp + 1) \<noteq> ra_ID r" if r: "r \<in> set rs" for r
  proof
    assume eq: "assignment_id wp (fm_getd 0 (o_attempts s1) wp + 1) = ra_ID r"
    have "ra_ID r = assignment_id (ra_WorkPackageID r) (ra_Attempt r)" "0 \<le> ra_Attempt r"
      using ids r by blast+
    moreover have "0 \<le> fm_getd 0 (o_attempts s1) wp + 1" using pos by simp
    ultimately have "wp = ra_WorkPackageID r \<and> fm_getd 0 (o_attempts s1) wp + 1 = ra_Attempt r"
      using assignment_id_inject eq by metis
    with ge [of "ra_Attempt r"] r show False by auto
  qed
  with att show ?thesis by blast
qed

lemma restore_loop_results: "restore_loop parse now upd rs s = (s1, Ok u) \<Longrightarrow> o_results s1 = o_results s \<and> o_gates s1 = o_gates s"
proof (induction rs arbitrary: upd s)
  case (Cons r rs)
  from Cons.prems show ?case
    by (rule restore_loop_ConsE) (use Cons.IH in \<open>auto simp: restore_put_def Let_def\<close>)
qed simp

text \<open>
  Results do not survive a restart: with the tests gate configured, resolving a work package
  right after \<open>Restore\<close> on a new scheduler never accepts it, because the gates see an empty result.
\<close>

lemma resolve_after_restart:
  assumes new: "Scheduler_New g cfg = Ok s0" and tests: "TestsGate \<in> set (o_gates s0)"
    and restore: "Scheduler_Restore parse rs now s0 = (s1, Ok upd)"
    and res: "Scheduler_Resolve env wp s1 = (s2, Inr r)"
  shows "dr_Status r \<noteq> ''succeeded'' \<and> d_Reason (TestsGate_Evaluate (subject wp WorkerResult_zero)) = ''no tests reported''"
proof -
  have "o_results s0 = fmempty" using new by (auto simp: Scheduler_New_def split: option.splits if_splits)
  then have z: "fm_getd WorkerResult_zero (o_results s1) wp = WorkerResult_zero" and gt: "o_gates s1 = o_gates s0"
    using restore_loop_results [of parse now "[]" rs s0 s1 upd] restore by (simp_all add: Scheduler_Restore_def)
  have "\<not> r_Passed (Gates_Evaluate (o_gates s1) (subject wp WorkerResult_zero))"
    using tests
    by (auto simp: gt Gates_Evaluate_Passed subject_def WorkerResult_zero_def TestsGate_Evaluate_def
        intro!: bexI [of _ TestsGate])
  then have "dr_Status r \<noteq> ''succeeded''"
    using res by (auto simp: Scheduler_Resolve_def z Let_def mk_report_def split: option.splits if_splits prod.splits)
  then show ?thesis by (simp add: subject_def WorkerResult_zero_def TestsGate_Evaluate_def)
qed

section \<open>Witnesses\<close>

lemma ex_sched_new: "Scheduler_New (Some ex_graph) (ex_config rt) = Ok (ex_sched rt)"
  by (simp add: ex_sched_def Scheduler_New_def ex_graph_valid ex_config_def)

definition ex_untested :: WorkerResult where
  "ex_untested = \<lparr>res_Status = ''succeeded'', res_Summary = [], res_Tests = [], res_Artifacts = [], res_Failure = None\<rparr>"

lemma ex_untested_dispatch:
  "\<exists>s' r s1 t. dispatchOne ex_env 5 ''a'' (ex_sched (\<lambda>_. Ok ex_untested)) = (s', Inr r) \<and> dr_Status r = ''failed''
     \<and> dispatch_begin ex_env 5 ''a'' (ex_sched (\<lambda>_. Ok ex_untested)) = (s1, Inr t)
     \<and> o_runtime (ex_sched (\<lambda>_. Ok ex_untested)) (tk_request t) = Inr ex_untested"
proof -
  have "\<not> r_Passed (Gates_Evaluate [TestsGate] (subject ''a'' ex_untested))"
    by (simp add: Gates_Evaluate_Passed TestsGate_Evaluate_def subject_def ex_untested_def)
  then show ?thesis
    using ex_dispatch_any [of ex_untested] ex_sched_begin [of "\<lambda>_. Ok ex_untested"]
    by (simp add: ex_untested_def ex_sched_eq)
qed

definition ex_awaiting :: Assignment where
  "ex_awaiting = \<lparr>a_ID = ''asg_a_1'', a_ProjectID = ''p'', a_WorkPackageID = ''a'', a_WorkerID = ''w'',
     a_State = AsgAwaitingGates, a_Lease = Lease_zero, a_Attempt = 1\<rparr>"

definition ex_waiting_sched :: Scheduler where
  "ex_waiting_sched = (ex_sched Disabled_Run)\<lparr>o_assignments := fmupd ''a'' ex_awaiting fmempty,
     o_results := fmupd ''a'' ex_result fmempty\<rparr>"

definition ex_restore :: "asg_state \<Rightarrow> RestoreAssignment" where
  "ex_restore st = \<lparr>ra_ID = assignment_id ''a'' 1, ra_ProjectID = ''p'', ra_WorkPackageID = ''a'', ra_WorkerID = ''w'',
     ra_State = st, ra_Attempt = 1, ra_LeaseOwner = ''w'', ra_LeaseExpiresAt = []\<rparr>"

lemma ex_restore_eq:
  "Scheduler_Restore (\<lambda>_. None) [ex_restore AsgAwaitingGates] 7 s =
     (let s1 = store_assignment ''a'' (restore_assignment (ex_restore AsgAwaitingGates) Lease_zero) s in
        (if fm_getd 0 (o_attempts s) ''a'' < 1 then s1\<lparr>o_attempts := fmupd ''a'' 1 (o_attempts s1)\<rparr> else s1, Ok []))"
  by (simp add: Scheduler_Restore_def restore_lease_def ex_restore_def restore_assignment_def Assignment_Expire_def Let_def)

end
