(* ===== verification/SyncTypes.thy ===== *)
theory SyncTypes
  imports Prelude
begin

text \<open>
  \<open>sync/types.go\<close>: the records the sync packages exchange, and the contract shared by the change
  queue and the revision set: a map from paths to records in which a put keeps the better record.
  A revision is a Go \<open>uint64\<close>, compared as an unsigned 64-bit word; \<open>Hash\<close> (SHA-256) is a parameter
  of the definitions that use it.
\<close>

type_synonym NodeID = string
type_synonym bytes = "8 word list"

record Chunk =
  ch_Index :: int
  ch_Offset :: int
  ch_Length :: int
  ch_Hash :: string

record Manifest =
  m_ID :: string
  m_Name :: string
  m_Size :: int
  m_ChunkSize :: int
  m_Hash :: string
  m_Chunks :: "Chunk list"

record RevisionRecord =
  rv_ID :: string
  rv_Path :: string
  rv_Revision :: u64
  rv_Hash :: string
  rv_Size :: int
  rv_Deleted :: bool

record Change =
  c_Record :: RevisionRecord
  c_Node :: NodeID

datatype OpKind = OpPut | OpDelete

record Op =
  op_Kind :: OpKind
  op_Record :: RevisionRecord

datatype sync_error = ErrInvalid string | ErrConflict string | ErrNotFound string | ErrCorrupt string
  | ErrTransport  \<comment> \<open>the connection or the context ended\<close>
  | ErrPanic  \<comment> \<open>a run-time panic\<close>

text \<open>Splitting a list at the first or the last separator.\<close>

lemma split_first:
  "x \<notin> set a \<Longrightarrow> x \<notin> set b \<Longrightarrow> a @ x # r = b @ x # t \<longleftrightarrow> a = b \<and> r = t"
proof (induction a arbitrary: b)
  case (Cons y a)
  then show ?case by (cases b) auto
next
  case Nil
  then show ?case by (cases b) auto
qed

lemma split_last:
  assumes "x \<notin> set b" and "x \<notin> set d"
  shows "a @ x # b = c @ x # d \<longleftrightarrow> a = c \<and> b = d"
proof -
  have "a @ x # b = c @ x # d \<longleftrightarrow> rev (a @ x # b) = rev (c @ x # d)" by (simp only: rev_is_rev_conv)
  then show ?thesis using assms by (auto simp: split_first)
qed

section \<open>Maps that keep the better record\<close>

text \<open>
  The client is any sequence of puts; \<open>wins c e\<close> decides whether a new record \<open>c\<close> replaces the
  stored record \<open>e\<close> of the same key. The two laws say that the decision follows a linear rank.
\<close>

locale newest_wins =
  fixes key :: "'c \<Rightarrow> string"
    and rank :: "'c \<Rightarrow> 'r::linorder"
    and wins :: "'c \<Rightarrow> 'c \<Rightarrow> bool"
  assumes wins_rank: "wins c e \<Longrightarrow> rank e \<le> rank c"
    and loses_rank: "\<not> wins c e \<Longrightarrow> rank c \<le> rank e"
begin

definition put :: "'c \<Rightarrow> (string, 'c) fmap \<Rightarrow> (string, 'c) fmap" where
  "put c m = (case fmlookup m (key c) of
       None \<Rightarrow> fmupd (key c) c m
     | Some e \<Rightarrow> if wins c e then fmupd (key c) c m else m)"

definition keyed :: "(string, 'c) fmap \<Rightarrow> bool" where
  "keyed m \<longleftrightarrow> (\<forall>k c. fmlookup m k = Some c \<longrightarrow> key c = k)"

lemma keyed_empty [simp]: "keyed fmempty"
  by (simp add: keyed_def)

lemma keyed_put: "keyed m \<Longrightarrow> keyed (put c m)"
  by (auto simp: keyed_def put_def split: option.splits)

lemma put_other: "k \<noteq> key c \<Longrightarrow> fmlookup (put c m) k = fmlookup m k"
  by (auto simp: put_def split: option.splits)

lemma put_monotone:
  "fmlookup m k = Some e \<Longrightarrow> \<exists>e'. fmlookup (put c m) k = Some e' \<and> rank e \<le> rank e'"
  using wins_rank by (auto simp: put_def split: option.splits)

lemma put_own: "\<exists>e. fmlookup (put c m) (key c) = Some e \<and> rank c \<le> rank e"
  using loses_rank by (auto simp: put_def split: option.splits)

lemma put_origin: "fmlookup (put c m) k = Some e \<Longrightarrow> fmlookup m k = Some e \<or> e = c \<and> key c = k"
  by (auto simp: put_def split: option.splits if_splits)

lemma keyed_fold: "keyed m \<Longrightarrow> keyed (fold put cs m)"
  by (induction cs arbitrary: m) (simp_all add: keyed_put)

lemma fold_origin:
  "fmlookup (fold put cs m) k = Some e \<Longrightarrow> fmlookup m k = Some e \<or> e \<in> set cs \<and> key e = k"
proof (induction cs arbitrary: m)
  case (Cons c cs)
  from Cons.IH [of "put c m"] Cons.prems put_origin [of c m k e] show ?case by auto
qed simp

lemma fold_monotone:
  "fmlookup m k = Some e \<Longrightarrow> \<exists>e'. fmlookup (fold put cs m) k = Some e' \<and> rank e \<le> rank e'"
proof (induction cs arbitrary: m e)
  case (Cons c cs)
  from put_monotone [OF Cons.prems, of c] obtain e' where
    "fmlookup (put c m) k = Some e'" "rank e \<le> rank e'" by blast
  with Cons.IH [of "put c m" e'] show ?case by (fastforce intro: order_trans)
qed simp

lemma fold_covers:
  "c \<in> set cs \<Longrightarrow> \<exists>e. fmlookup (fold put cs m) (key c) = Some e \<and> rank c \<le> rank e"
proof (induction cs arbitrary: m)
  case (Cons x xs)
  show ?case
  proof (cases "c \<in> set xs")
    case True
    with Cons.IH [of "put x m"] show ?thesis by simp
  next
    case False
    with Cons.prems have "c = x" by simp
    from put_own [of c m] obtain e where "fmlookup (put c m) (key c) = Some e" "rank c \<le> rank e" by blast
    with fold_monotone [of "put c m" "key c" e xs] \<open>c = x\<close> show ?thesis by (fastforce intro: order_trans)
  qed
qed simp

lemma fold_absent: "k \<notin> key ` set cs \<Longrightarrow> fmlookup (fold put cs m) k = fmlookup m k"
  by (induction cs arbitrary: m) (auto simp: put_other)

lemma put_lookup_cong:
  "fmlookup m (key c) = fmlookup m' (key c) \<Longrightarrow> fmlookup (put c m) (key c) = fmlookup (put c m') (key c)"
  by (auto simp: put_def split: option.splits)

lemma fold_distinct:
  "distinct (map key cs) \<Longrightarrow> c \<in> set cs \<Longrightarrow> fmlookup (fold put cs m) (key c) = fmlookup (put c m) (key c)"
proof (induction cs arbitrary: m)
  case (Cons x xs)
  show ?case
  proof (cases "c = x")
    case True
    with Cons.prems show ?thesis by (simp add: fold_absent)
  next
    case False
    with Cons.prems have c: "c \<in> set xs" by simp
    then have "key c \<in> key ` set xs" by (rule imageI)
    with Cons.prems have "key c \<noteq> key x" by auto
    with c Cons.prems have "c \<in> set xs" "key c \<noteq> key x" by simp_all
    with Cons show ?thesis by (auto intro: put_lookup_cong simp: put_other)
  qed
qed simp

text \<open>Starting from the empty map the stored record is a best one among those put under its key.\<close>

lemma fold_best:
  "fmlookup (fold put cs fmempty) k = Some e \<longleftrightarrow>
     (e = the (fmlookup (fold put cs fmempty) k) \<and> e \<in> set cs \<and> key e = k
       \<and> (\<forall>c\<in>set cs. key c = k \<longrightarrow> rank c \<le> rank e))"
  (is "?l \<longleftrightarrow> ?r")
proof
  assume l: ?l
  with fold_origin [OF l] have "e \<in> set cs" "key e = k" by auto
  moreover have "rank c \<le> rank e" if "c \<in> set cs" "key c = k" for c
    using fold_covers [OF that(1), of fmempty] that(2) l by auto
  ultimately show ?r using l by simp
next
  assume r: ?r
  with fold_covers [of e cs fmempty] show ?l by fastforce
qed

text \<open>When the rank identifies a record among those of its key, the order of the puts is irrelevant.\<close>

lemma fold_order_irrelevant:
  assumes same: "set cs = set cs'"
    and inj: "\<And>c d. c \<in> set cs \<Longrightarrow> d \<in> set cs \<Longrightarrow> key c = key d \<Longrightarrow> rank c = rank d \<Longrightarrow> c = d"
  shows "fold put cs fmempty = fold put cs' fmempty"
proof (rule fmap_ext)
  fix k
  show "fmlookup (fold put cs fmempty) k = fmlookup (fold put cs' fmempty) k"
  proof (cases "\<exists>c\<in>set cs. key c = k")
    case True
    then obtain c where c: "c \<in> set cs" "key c = k" by blast
    from fold_covers [of c cs fmempty] fold_covers [of c cs' fmempty] c same obtain e e' where
      e: "fmlookup (fold put cs fmempty) k = Some e" "fmlookup (fold put cs' fmempty) k = Some e'" by auto
    have "e \<in> set cs \<and> key e = k \<and> (\<forall>c\<in>set cs. key c = k \<longrightarrow> rank c \<le> rank e)"
      using e(1) unfolding fold_best by blast
    moreover have "e' \<in> set cs \<and> key e' = k \<and> (\<forall>c\<in>set cs. key c = k \<longrightarrow> rank c \<le> rank e')"
      using e(2) same unfolding fold_best by blast
    ultimately have "e = e'" using inj by (metis order_antisym)
    with e show ?thesis by simp
  next
    case False
    have "fmlookup (fold put ds fmempty) k = None" if "set ds = set cs" for ds
    proof (cases "fmlookup (fold put ds fmempty) k")
      case (Some d)
      with fold_origin [OF Some] False that show ?thesis by auto
    qed simp
    then have "fmlookup (fold put cs fmempty) k = None" "fmlookup (fold put cs' fmempty) k = None"
      using same by simp_all
    then show ?thesis by simp
  qed
qed

end

end
