(* ===== verification/SyncQueue.thy ===== *)
theory SyncQueue
  imports SyncTypes
begin

text \<open>
  \<open>sync/queue/queue.go\<close>: the offline change queue and the reconciliation of two change sets. The
  queue and \<open>bestByPath\<close> keep, per path, the change with the greatest revision and node; both are
  interpretations of \<open>newest_wins\<close>.
\<close>

section \<open>The queue\<close>

type_synonym Queue = "(string, Change) fmap"

abbreviation c_path :: "Change \<Rightarrow> string" where "c_path c \<equiv> rv_Path (c_Record c)"
abbreviation c_rev :: "Change \<Rightarrow> u64" where "c_rev c \<equiv> rv_Revision (c_Record c)"

definition Queue_New :: Queue where "Queue_New = fmempty"

definition Queue_Len :: "Queue \<Rightarrow> nat" where "Queue_Len q = card (fmdom' q)"

definition newer :: "Change \<Rightarrow> Change \<Rightarrow> bool" where
  "newer a b = (if c_rev a \<noteq> c_rev b then c_rev b < c_rev a else c_Node b < c_Node a)"

definition Queue_Enqueue :: "Queue \<Rightarrow> Change \<Rightarrow> sync_error + Queue" where
  "Queue_Enqueue q c =
     (if c_path c = [] then Err (ErrInvalid ''path is required'')
      else (case fmlookup q (c_path c) of
              Some existing \<Rightarrow> if \<not> newer c existing then Ok q else Ok (fmupd (c_path c) c q)
            | None \<Rightarrow> Ok (fmupd (c_path c) c q)))"

definition Queue_Pending :: "Queue \<Rightarrow> Change list" where
  "Queue_Pending q = sort_key c_path (fm_vals q)"

definition Queue_Drain :: "Queue \<Rightarrow> Change list \<times> Queue" where
  "Queue_Drain q = (Queue_Pending q, Queue_New)"

section \<open>Reconciliation\<close>

record Conflict =
  cf_Path :: string
  cf_Local :: Change
  cf_Remote :: Change

record Decision =
  de_Send :: "Change list"
  de_Apply :: "Change list"
  de_Converged :: "string list"
  de_Conflicts :: "Conflict list"

definition same_content :: "Change \<Rightarrow> Change \<Rightarrow> bool" where
  "same_content a b \<longleftrightarrow> rv_Deleted (c_Record a) = rv_Deleted (c_Record b)
     \<and> rv_Hash (c_Record a) = rv_Hash (c_Record b)"

fun bestByPath_loop :: "(string, Change) fmap \<Rightarrow> Change list \<Rightarrow> sync_error + (string, Change) fmap" where
  "bestByPath_loop best [] = Ok best"
| "bestByPath_loop best (c # cs) =
     (if c_path c = [] then Err (ErrInvalid ''path is required'')
      else bestByPath_loop
        (if (case fmlookup best (c_path c) of None \<Rightarrow> True | Some existing \<Rightarrow> newer c existing)
         then fmupd (c_path c) c best else best) cs)"

definition bestByPath :: "Change list \<Rightarrow> sync_error + (string, Change) fmap" where
  "bestByPath changes = bestByPath_loop fmempty changes"

text \<open>One path of the switch.\<close>

definition reconcile_path ::
  "(string, Change) fmap \<Rightarrow> (string, Change) fmap \<Rightarrow> string \<Rightarrow> Decision \<Rightarrow> Decision" where
  "reconcile_path localBest remoteBest path d =
     (case (fmlookup localBest path, fmlookup remoteBest path) of
        (Some lc, None) \<Rightarrow> d\<lparr>de_Send := de_Send d @ [lc]\<rparr>
      | (None, Some rc) \<Rightarrow> d\<lparr>de_Apply := de_Apply d @ [rc]\<rparr>
      | (Some lc, Some rc) \<Rightarrow>
          (if c_rev rc < c_rev lc then d\<lparr>de_Send := de_Send d @ [lc]\<rparr>
           else if c_rev lc < c_rev rc then d\<lparr>de_Apply := de_Apply d @ [rc]\<rparr>
           else if same_content lc rc then d\<lparr>de_Converged := de_Converged d @ [path]\<rparr>
           else d\<lparr>de_Conflicts := de_Conflicts d @ [\<lparr>cf_Path = path, cf_Local = lc, cf_Remote = rc\<rparr>]\<rparr>)
      | (None, None) \<Rightarrow> d)"

definition Reconcile :: "Change list \<Rightarrow> Change list \<Rightarrow> sync_error + Decision" where
  "Reconcile local remote =
     (case bestByPath local of Inl e \<Rightarrow> Err e | Inr localBest \<Rightarrow>
     (case bestByPath remote of Inl e \<Rightarrow> Err e | Inr remoteBest \<Rightarrow>
        Ok (fold (reconcile_path localBest remoteBest)
              (sort (remdups (fm_keys localBest @ fm_keys remoteBest)))
              \<lparr>de_Send = [], de_Apply = [], de_Converged = [], de_Conflicts = []\<rparr>)))"

section \<open>The queue keeps the newest change\<close>

definition change_rank :: "Change \<Rightarrow> u64 \<times> string" where
  "change_rank c = (c_rev c, c_Node c)"

interpretation change_map: newest_wins c_path change_rank newer
  by unfold_locales (auto simp: newer_def change_rank_def split: if_splits)

lemma newer_rank: "newer a b \<longleftrightarrow> change_rank b < change_rank a"
  by (auto simp: newer_def change_rank_def)

lemma Enqueue_put:
  "Queue_Enqueue q c = (if c_path c = [] then Err (ErrInvalid ''path is required'') else Ok (change_map.put c q))"
  by (auto simp: Queue_Enqueue_def change_map.put_def split: option.splits)

lemma bestByPath_loop_eq:
  "bestByPath_loop best cs = (if \<forall>c\<in>set cs. c_path c \<noteq> [] then Ok (fold change_map.put cs best)
     else Err (ErrInvalid ''path is required''))"
proof (induction best cs rule: bestByPath_loop.induct)
  case (2 best c cs)
  have "(if (case fmlookup best (c_path c) of None \<Rightarrow> True | Some existing \<Rightarrow> newer c existing)
      then fmupd (c_path c) c best else best) = change_map.put c best"
    by (auto simp: change_map.put_def split: option.splits)
  with 2 show ?case by simp
qed simp

text \<open>A run of \<open>Enqueue\<close> calls; a rejected change leaves the queue as it is.\<close>

fun enqueue_all :: "Change list \<Rightarrow> Queue \<Rightarrow> Queue" where
  "enqueue_all [] q = q"
| "enqueue_all (c # cs) q = enqueue_all cs (case Queue_Enqueue q c of Inl _ \<Rightarrow> q | Inr q' \<Rightarrow> q')"

lemma enqueue_all_fold: "enqueue_all cs q = fold change_map.put (filter (\<lambda>c. c_path c \<noteq> []) cs) q"
  by (induction cs q rule: enqueue_all.induct) (auto simp: Enqueue_put)

lemma Pending_set: "change_map.keyed q \<Longrightarrow> set (Queue_Pending q) = {c. fmlookup q (c_path c) = Some c}"
  by (auto simp: Queue_Pending_def set_fm_vals change_map.keyed_def)

lemma map_path_fm_vals:
  assumes "change_map.keyed q"
  shows "map c_path (fm_vals q) = fm_keys q"
proof -
  have "map c_path (List.map_filter (fmlookup q) ks) = ks" if "set ks \<subseteq> fmdom' q" for ks
    using that assms by (induction ks) (auto simp: List.map_filter_def in_fmdom'_iff change_map.keyed_def)
  then show ?thesis by (simp add: fm_vals_def)
qed

lemma Pending_sorted:
  assumes "change_map.keyed q"
  shows "map c_path (Queue_Pending q) = fm_keys q"
proof -
  have "sorted (map c_path (fm_vals q))" by (simp add: map_path_fm_vals [OF assms])
  then have "Queue_Pending q = fm_vals q" unfolding Queue_Pending_def by (rule sort_key_id_if_sorted)
  then show ?thesis by (simp add: map_path_fm_vals [OF assms])
qed

text \<open>
  The queue holds the newest change per path, whatever the order of the enqueues: after any
  sequence of \<open>Enqueue\<close> calls on a new queue, \<open>Pending\<close> lists each enqueued path once, in path order,
  with a change of that path whose revision and node are the greatest of all that were enqueued.
\<close>

lemma queue_keeps_newest:
  "(let p = Queue_Pending (enqueue_all cs Queue_New) in
      sorted (map c_path p) \<and> distinct (map c_path p)
    \<and> set (map c_path p) = {c_path c |c. c \<in> set cs} - {[]}
    \<and> list_all (\<lambda>c. c \<in> set cs \<and> list_all (\<lambda>d. c_path d \<noteq> c_path c \<or> change_rank d \<le> change_rank c) cs) p)"
proof -
  let ?cs = "filter (\<lambda>c. c_path c \<noteq> []) cs"
  let ?q = "fold change_map.put ?cs fmempty"
  have k: "change_map.keyed ?q" by (rule change_map.keyed_fold) simp
  have q: "enqueue_all cs Queue_New = ?q" by (simp add: enqueue_all_fold Queue_New_def)
  have dom: "fmdom' ?q = {c_path c |c. c \<in> set cs} - {[]}"
  proof (intro set_eqI iffI)
    fix p assume "p \<in> fmdom' ?q"
    then obtain c where "fmlookup ?q p = Some c" by (auto simp: in_fmdom'_iff)
    from change_map.fold_origin [OF this] show "p \<in> {c_path c |c. c \<in> set cs} - {[]}" by auto
  next
    fix p assume "p \<in> {c_path c |c. c \<in> set cs} - {[]}"
    then obtain c where "c \<in> set ?cs" "c_path c = p" by auto
    with change_map.fold_covers [of c ?cs fmempty] show "p \<in> fmdom' ?q" by (auto simp: in_fmdom'_iff)
  qed
  have best: "c \<in> set cs \<and> (\<forall>d\<in>set cs. c_path d \<noteq> c_path c \<or> change_rank d \<le> change_rank c)"
    if "c \<in> set (Queue_Pending ?q)" for c
  proof -
    from that have l: "fmlookup ?q (c_path c) = Some c" using Pending_set [OF k] by auto
    then have "c \<in> set ?cs" "\<forall>d\<in>set ?cs. c_path d = c_path c \<longrightarrow> change_rank d \<le> change_rank c"
      using change_map.fold_best [of ?cs "c_path c" c] by auto
    then show ?thesis by auto
  qed
  have paths: "set (map c_path (Queue_Pending ?q)) = fmdom' ?q"
    by (simp only: Pending_sorted [OF k] set_fm_keys)
  have order: "sorted (map c_path (Queue_Pending ?q))" "distinct (map c_path (Queue_Pending ?q))"
    by (simp_all only: Pending_sorted [OF k] sorted_fm_keys distinct_fm_keys)
  show ?thesis
    unfolding Let_def q list_all_iff
    by (intro conjI order paths [unfolded dom]) (rule ballI, erule best)
qed

section \<open>Reconciliation\<close>

text \<open>The switch as a classification of one path.\<close>

definition sends :: "(string, Change) fmap \<Rightarrow> (string, Change) fmap \<Rightarrow> string \<Rightarrow> bool" where
  "sends lb rb p = (case fmlookup lb p of None \<Rightarrow> False | Some lc \<Rightarrow>
     (case fmlookup rb p of None \<Rightarrow> True | Some rc \<Rightarrow> c_rev rc < c_rev lc))"

definition ties :: "(string, Change) fmap \<Rightarrow> (string, Change) fmap \<Rightarrow> bool \<Rightarrow> string \<Rightarrow> bool" where
  "ties lb rb b p = (case fmlookup lb p of None \<Rightarrow> False | Some lc \<Rightarrow>
     (case fmlookup rb p of None \<Rightarrow> False | Some rc \<Rightarrow> c_rev rc = c_rev lc \<and> same_content lc rc = b))"

definition clash :: "(string, Change) fmap \<Rightarrow> (string, Change) fmap \<Rightarrow> string \<Rightarrow> Conflict" where
  "clash lb rb p = \<lparr>cf_Path = p, cf_Local = the (fmlookup lb p), cf_Remote = the (fmlookup rb p)\<rparr>"

lemma reconcile_fold:
  "fold (reconcile_path lb rb) ps d =
     \<lparr>de_Send = de_Send d @ map (\<lambda>p. the (fmlookup lb p)) (filter (sends lb rb) ps),
      de_Apply = de_Apply d @ map (\<lambda>p. the (fmlookup rb p)) (filter (sends rb lb) ps),
      de_Converged = de_Converged d @ filter (ties lb rb True) ps,
      de_Conflicts = de_Conflicts d @ map (clash lb rb) (filter (ties lb rb False) ps)\<rparr>"
proof (induction ps arbitrary: d)
  case (Cons p ps)
  show ?case
    using Cons [of "reconcile_path lb rb p d"]
    by (cases "fmlookup lb p"; cases "fmlookup rb p")
      (auto simp: reconcile_path_def sends_def ties_def clash_def)
qed simp

definition union_paths :: "(string, Change) fmap \<Rightarrow> (string, Change) fmap \<Rightarrow> string list" where
  "union_paths lb rb = sort (remdups (fm_keys lb @ fm_keys rb))"

lemma union_paths_sym: "union_paths lb rb = union_paths rb lb"
  unfolding union_paths_def by (rule sorted_distinct_set_unique) auto

lemma union_paths_set [simp]: "set (union_paths lb rb) = fmdom' lb \<union> fmdom' rb"
  and union_paths_distinct [simp]: "distinct (union_paths lb rb)"
  by (simp_all add: union_paths_def)

lemma Reconcile_eq:
  assumes "bestByPath local = Ok lb" and "bestByPath remote = Ok rb"
  shows "Reconcile local remote = Ok
     \<lparr>de_Send = map (\<lambda>p. the (fmlookup lb p)) (filter (sends lb rb) (union_paths lb rb)),
      de_Apply = map (\<lambda>p. the (fmlookup rb p)) (filter (sends rb lb) (union_paths lb rb)),
      de_Converged = filter (ties lb rb True) (union_paths lb rb),
      de_Conflicts = map (clash lb rb) (filter (ties lb rb False) (union_paths lb rb))\<rparr>"
  using assms by (simp add: Reconcile_def reconcile_fold union_paths_def)

lemma ties_sym: "ties lb rb b p = ties rb lb b p"
  by (auto simp: ties_def same_content_def split: option.splits)

definition swap_conflict :: "Conflict \<Rightarrow> Conflict" where
  "swap_conflict c = c\<lparr>cf_Local := cf_Remote c, cf_Remote := cf_Local c\<rparr>"

definition swap_decision :: "Decision \<Rightarrow> Decision" where
  "swap_decision d = d\<lparr>de_Send := de_Apply d, de_Apply := de_Send d,
     de_Conflicts := map swap_conflict (de_Conflicts d)\<rparr>"

lemma bestByPath_eq:
  "bestByPath cs = (if \<forall>c\<in>set cs. c_path c \<noteq> [] then Ok (fold change_map.put cs fmempty)
     else Err (ErrInvalid ''path is required''))"
  by (simp add: bestByPath_def bestByPath_loop_eq)

text \<open>
  The two sides agree without talking: reconciling with the arguments exchanged gives the mirror
  image, so what one replica decides to send is exactly what the other decides to apply, and both see
  the same converged paths and the same conflicts.
\<close>

lemma reconcile_mirror:
  "Reconcile remote local = map_sum id swap_decision (Reconcile local remote)"
proof (cases "bestByPath local")
  case (Inl e)
  then have e: "e = ErrInvalid ''path is required''" by (auto simp: bestByPath_eq split: if_splits)
  show ?thesis
    using Inl e by (auto simp: Reconcile_def bestByPath_eq)
next
  case (Inr lb)
  note l = this
  show ?thesis
  proof (cases "bestByPath remote")
    case (Inl e)
    with l show ?thesis by (simp add: Reconcile_def)
  next
    case (Inr rb)
    have "ties rb lb = ties lb rb" by (intro ext) (rule ties_sym)
    moreover have "clash rb lb p = swap_conflict (clash lb rb p)" for p
      by (simp add: clash_def swap_conflict_def)
    ultimately show ?thesis
      unfolding Reconcile_eq [OF l Inr] Reconcile_eq [OF Inr l] union_paths_sym [of rb lb]
      by (simp add: swap_decision_def)
  qed
qed

definition agree :: "Change option \<Rightarrow> Change option \<Rightarrow> bool" where
  "agree x y = (case (x, y) of (Some a, Some b) \<Rightarrow> c_rev a = c_rev b \<and> same_content a b | (None, None) \<Rightarrow> True | _ \<Rightarrow> False)"

lemma exchange_lookup:
  assumes lk: "change_map.keyed lb" and rk: "change_map.keyed rb" and ps: "distinct ps"
  shows "fmlookup (fold change_map.put (map (\<lambda>p. the (fmlookup rb p)) (filter (sends rb lb) ps)) lb) p =
    (if p \<in> set ps \<and> sends rb lb p then fmlookup rb p else fmlookup lb p)"
proof -
  let ?cs = "map (\<lambda>p. the (fmlookup rb p)) (filter (sends rb lb) ps)"
  have path: "c_path (the (fmlookup rb q)) = q" if "sends rb lb q" for q
    using that rk by (auto simp: sends_def change_map.keyed_def split: option.splits)
  then have keys: "map c_path ?cs = filter (sends rb lb) ps" by (induction ps) auto
  show ?thesis
  proof (cases "p \<in> set ps \<and> sends rb lb p")
    case True
    then obtain rc where rc: "fmlookup rb p = Some rc" by (auto simp: sends_def split: option.splits)
    have "rc \<in> set ?cs" using True rc by force
    moreover have "c_path rc = p" using rc rk by (simp add: change_map.keyed_def)
    moreover have "distinct (map c_path ?cs)" unfolding keys using ps by simp
    ultimately have "fmlookup (fold change_map.put ?cs lb) p = fmlookup (change_map.put rc lb) p"
      using change_map.fold_distinct [of ?cs rc lb] by simp
    also have "\<dots> = Some rc"
      using True rc \<open>c_path rc = p\<close> by (auto simp: change_map.put_def sends_def newer_def split: option.splits)
    finally show ?thesis using True rc by simp
  next
    case False
    have "c_path ` set ?cs = set (filter (sends rb lb) ps)"
      using arg_cong [OF keys, of set] by (simp only: set_map)
    then have "p \<notin> c_path ` set ?cs" using False by (simp only: set_filter mem_Collect_eq not_False_eq_True)
    from change_map.fold_absent [OF this, of lb] False show ?thesis by auto
  qed
qed

text \<open>
  C12. One exchange reconciles: when both replicas enqueue what the decision tells them (the local one
  the changes to apply, the remote one the changes sent), then on every path without a reported
  conflict they hold a change with the same revision and the same content, or both hold none.
\<close>

theorem reconcile_converges:
  assumes d: "Reconcile local remote = Ok d" and free: "p \<notin> cf_Path ` set (de_Conflicts d)"
  shows "agree (fmlookup (enqueue_all (de_Apply d) (enqueue_all local Queue_New)) p)
               (fmlookup (enqueue_all (de_Send d) (enqueue_all remote Queue_New)) p)"
proof -
  obtain lb rb where b: "bestByPath local = Ok lb" "bestByPath remote = Ok rb"
    using d by (auto simp: Reconcile_def split: sum.splits)
  then have paths: "\<forall>c\<in>set local. c_path c \<noteq> []" "\<forall>c\<in>set remote. c_path c \<noteq> []"
    and lb: "lb = fold change_map.put local fmempty" and rb: "rb = fold change_map.put remote fmempty"
    by (auto simp: bestByPath_eq split: if_splits)
  have q: "enqueue_all local Queue_New = lb" "enqueue_all remote Queue_New = rb"
    using paths by (simp_all add: enqueue_all_fold Queue_New_def lb rb)
  have k: "change_map.keyed lb" "change_map.keyed rb"
    unfolding lb rb by (rule change_map.keyed_fold, simp)+
  define ps where "ps = union_paths lb rb"
  have D: "d = \<lparr>de_Send = map (\<lambda>p. the (fmlookup lb p)) (filter (sends lb rb) ps),
      de_Apply = map (\<lambda>p. the (fmlookup rb p)) (filter (sends rb lb) ps),
      de_Converged = filter (ties lb rb True) ps,
      de_Conflicts = map (clash lb rb) (filter (ties lb rb False) ps)\<rparr>"
    using d unfolding Reconcile_eq [OF b] by (simp add: ps_def)
  have ne: "c_path (the (fmlookup lb q)) \<noteq> []" if "sends lb rb q" for q
    using that paths change_map.fold_origin [of local fmempty q] by (auto simp: sends_def lb split: option.splits)
  have ne': "c_path (the (fmlookup rb q)) \<noteq> []" if "sends rb lb q" for q
    using that paths change_map.fold_origin [of remote fmempty q] by (auto simp: sends_def rb split: option.splits)
  have fs: "filter (\<lambda>c. c_path c \<noteq> []) (de_Send d) = de_Send d" "filter (\<lambda>c. c_path c \<noteq> []) (de_Apply d) = de_Apply d"
    using ne ne' by (auto simp: D filter_id_conv)
  have dist: "distinct ps" and dom: "p \<in> set ps \<longleftrightarrow> fmlookup lb p \<noteq> None \<or> fmlookup rb p \<noteq> None"
    by (auto simp: ps_def in_fmdom'_iff)
  have "\<not> ties lb rb False p"
  proof
    assume t: "ties lb rb False p"
    then have "p \<in> set ps" using dom by (auto simp: ties_def split: option.splits)
    with t have "clash lb rb p \<in> set (de_Conflicts d)" by (simp add: D)
    then have "cf_Path (clash lb rb p) \<in> cf_Path ` set (de_Conflicts d)" by (rule imageI)
    with free show False by (simp add: clash_def)
  qed
  moreover have L: "fmlookup (enqueue_all (de_Apply d) lb) p = (if p \<in> set ps \<and> sends rb lb p then fmlookup rb p else fmlookup lb p)"
    unfolding enqueue_all_fold fs unfolding D by (simp only: select_convs exchange_lookup [OF k dist])
  moreover have R: "fmlookup (enqueue_all (de_Send d) rb) p = (if p \<in> set ps \<and> sends lb rb p then fmlookup lb p else fmlookup rb p)"
    unfolding enqueue_all_fold fs unfolding D by (simp only: select_convs exchange_lookup [OF k(2,1) dist])
  ultimately show ?thesis
    using dom unfolding q L R
    by (cases "fmlookup lb p"; cases "fmlookup rb p")
      (auto simp: sends_def ties_def agree_def same_content_def)
qed

section \<open>A concrete exchange\<close>

definition ex_change :: "string \<Rightarrow> u64 \<Rightarrow> string \<Rightarrow> string \<Rightarrow> Change" where
  "ex_change p r h n = \<lparr>c_Record = \<lparr>rv_ID = [], rv_Path = p, rv_Revision = r, rv_Hash = h, rv_Size = 0,
     rv_Deleted = False\<rparr>, c_Node = n\<rparr>"

lemma ex_reconcile:
  "\<exists>d. Reconcile [ex_change ''p'' 2 ''h'' ''n''] [ex_change ''p'' 1 ''g'' ''m''] = Ok d \<and> de_Conflicts d = []"
  by (simp add: Reconcile_def bestByPath_def ex_change_def reconcile_path_def fm_keys_fmupd)

theorem reconcile_converges_witness:
  "\<exists>d. Reconcile [ex_change ''p'' 2 ''h'' ''n''] [ex_change ''p'' 1 ''g'' ''m''] = Ok d
     \<and> agree (fmlookup (enqueue_all (de_Apply d) (enqueue_all [ex_change ''p'' 2 ''h'' ''n''] Queue_New)) ''p'')
             (fmlookup (enqueue_all (de_Send d) (enqueue_all [ex_change ''p'' 1 ''g'' ''m''] Queue_New)) ''p'')"
proof -
  obtain d where d: "Reconcile [ex_change ''p'' 2 ''h'' ''n''] [ex_change ''p'' 1 ''g'' ''m''] = Ok d"
    "de_Conflicts d = []"
    using ex_reconcile by blast
  have "''p'' \<notin> cf_Path ` set (de_Conflicts d)" by (simp add: d(2))
  from reconcile_converges [OF d(1) this] d(1) show ?thesis by blast
qed

end
