(* ===== verification/SyncRevision.thy ===== *)
theory SyncRevision
  imports SyncTypes
begin

text \<open>
  \<open>sync/revision/revision.go\<close>: a replica as a map from paths to revision records, the one-way
  \<open>Diff\<close> from a source to a replica, and the guarded \<open>Apply\<close>. \<open>Set.Put\<close> is an interpretation of
  \<open>newest_wins\<close> in which the later of two equal revisions wins. The digest renders the records
  with \<open>fmt\<close> and hashes them; rendering a revision (\<open>%d\<close> of a \<open>uint64\<close>) is \<open>itoa\<close> of its value.
\<close>

section \<open>Replicas\<close>

type_synonym RevSet = "(string, RevisionRecord) fmap"

definition NewSet :: RevSet where "NewSet = fmempty"

definition Set_Put :: "RevSet \<Rightarrow> RevisionRecord \<Rightarrow> sync_error + RevSet" where
  "Set_Put s rec =
     (if rv_Path rec = [] then Err (ErrInvalid ''path is required'')
      else (case fmlookup s (rv_Path rec) of
              Some existing \<Rightarrow>
                if rv_Revision rec < rv_Revision existing then Err (ErrConflict (rv_Path rec))
                else Ok (fmupd (rv_Path rec) rec s)
            | None \<Rightarrow> Ok (fmupd (rv_Path rec) rec s)))"

definition Set_Get :: "RevSet \<Rightarrow> string \<Rightarrow> RevisionRecord option" where
  "Set_Get s path = fmlookup s path"

definition Set_Records :: "RevSet \<Rightarrow> RevisionRecord list" where
  "Set_Records s = sort_key rv_Path (fm_vals s)"

definition digest_line :: "RevisionRecord \<Rightarrow> string" where
  "digest_line r = rv_Path r @ ''|'' @ itoa (unat (rv_Revision r)) @ ''|'' @ rv_Hash r @ ''|''
     @ (if rv_Deleted r then ''true'' else ''false'') @ [char_of (10::nat)]"

definition Set_Digest :: "(string \<Rightarrow> string) \<Rightarrow> RevSet \<Rightarrow> string" where
  "Set_Digest hash s = hash (concat (map digest_line (Set_Records s)))"

section \<open>Diff and Apply\<close>

definition diff_path :: "RevSet \<Rightarrow> RevisionRecord \<Rightarrow> string \<Rightarrow> Op list" where
  "diff_path replica src path =
     (case Set_Get replica path of
        Some local \<Rightarrow>
          (if rv_Revision src \<le> rv_Revision local \<and> rv_Deleted local = rv_Deleted src then []
           else if rv_Revision src < rv_Revision local then []
           else [\<lparr>op_Kind = (if rv_Deleted src then OpDelete else OpPut), op_Record = src\<rparr>])
      | None \<Rightarrow> [\<lparr>op_Kind = (if rv_Deleted src then OpDelete else OpPut), op_Record = src\<rparr>])"

text \<open>\<open>None\<close> is a nil source.\<close>

definition Diff :: "RevSet option \<Rightarrow> RevSet \<Rightarrow> Op list" where
  "Diff source replica = (case source of
       None \<Rightarrow> []
     | Some s \<Rightarrow> concat (map (\<lambda>path. diff_path replica (the (fmlookup s path)) path) (fm_keys s)))"

record Refusal =
  rf_Path :: string
  rf_Newer :: bool  \<comment> \<open>the guard's reason; otherwise the text of the put's conflict error\<close>

record ApplyResult =
  ar_Applied :: int
  ar_Refused :: "Refusal list"

text \<open>One iteration of \<open>Apply\<close>'s loop.\<close>

datatype apply_outcome = Skipped | Refused Refusal | Applied RevSet | Failed sync_error

definition apply_step :: "RevSet \<Rightarrow> Op \<Rightarrow> apply_outcome" where
  "apply_step replica p =
     (let rec = op_Record p; local = Set_Get replica (rv_Path rec) in
      if (case local of None \<Rightarrow> False | Some l \<Rightarrow> rv_Revision l = rv_Revision rec
            \<and> rv_Hash l = rv_Hash rec \<and> rv_Deleted l = rv_Deleted rec)
      then Skipped
      else if op_Kind p = OpDelete \<and> (case local of None \<Rightarrow> False | Some l \<Rightarrow> rv_Revision rec < rv_Revision l)
      then Refused \<lparr>rf_Path = rv_Path rec, rf_Newer = True\<rparr>
      else if op_Kind p = OpDelete \<and> (case local of None \<Rightarrow> False | Some l \<Rightarrow> rv_Deleted l)
      then Skipped
      else (case Set_Put replica rec of
              Inl (ErrConflict _) \<Rightarrow> Refused \<lparr>rf_Path = rv_Path rec, rf_Newer = False\<rparr>
            | Inl e \<Rightarrow> Failed e
            | Inr replica' \<Rightarrow> Applied replica'))"

fun Apply_loop :: "RevSet \<Rightarrow> ApplyResult \<Rightarrow> Op list \<Rightarrow> RevSet \<times> ApplyResult \<times> sync_error option" where
  "Apply_loop replica res [] = (replica, res, None)"
| "Apply_loop replica res (p # ops) =
     (case apply_step replica p of
        Skipped \<Rightarrow> Apply_loop replica res ops
      | Refused r \<Rightarrow> Apply_loop replica (res\<lparr>ar_Refused := ar_Refused res @ [r]\<rparr>) ops
      | Applied replica' \<Rightarrow> Apply_loop replica' (res\<lparr>ar_Applied := ar_Applied res + 1\<rparr>) ops
      | Failed e \<Rightarrow> (replica, res, Some e))"

definition Apply :: "RevSet \<Rightarrow> Op list \<Rightarrow> RevSet \<times> ApplyResult \<times> sync_error option" where
  "Apply replica ops = Apply_loop replica \<lparr>ar_Applied = 0, ar_Refused = []\<rparr> ops"

section \<open>Puts never go back\<close>

interpretation rev_map: newest_wins rv_Path rv_Revision "\<lambda>c e. \<not> rv_Revision c < rv_Revision e"
  by unfold_locales auto

lemma Put_put: "Set_Put s r = Ok s' \<Longrightarrow> s' = rev_map.put r s \<and> rv_Path r \<noteq> []"
  by (auto simp: Set_Put_def rev_map.put_def split: option.splits if_splits)

text \<open>What one operation makes of the record at its own path.\<close>

definition own_effect :: "RevisionRecord option \<Rightarrow> Op \<Rightarrow> RevisionRecord option" where
  "own_effect local p = (let rec = op_Record p in
     case local of None \<Rightarrow> Some rec
     | Some l \<Rightarrow> if rv_Revision l = rv_Revision rec \<and> rv_Hash l = rv_Hash rec \<and> rv_Deleted l = rv_Deleted rec
         then Some l
       else if op_Kind p = OpDelete \<and> rv_Deleted l \<or> rv_Revision rec < rv_Revision l then Some l
       else Some rec)"

lemma apply_step_Applied:
  "apply_step replica p = Applied replica' \<Longrightarrow> replica' = rev_map.put (op_Record p) replica \<and> rv_Path (op_Record p) \<noteq> []"
  using Put_put [of replica "op_Record p" replica']
  by (auto simp: apply_step_def Let_def split: if_splits option.splits sum.splits sync_error.splits)

lemma apply_step_lookup:
  assumes "rv_Path (op_Record p) \<noteq> []"
  shows "apply_step replica p \<noteq> Failed e"
    and "fmlookup (case apply_step replica p of Applied r \<Rightarrow> r | _ \<Rightarrow> replica) k =
      (if k = rv_Path (op_Record p) then own_effect (fmlookup replica k) p else fmlookup replica k)"
    and "apply_step replica p = Refused r \<Longrightarrow>
      \<exists>l. fmlookup replica (rv_Path (op_Record p)) = Some l \<and> rv_Revision (op_Record p) < rv_Revision l"
  using assms
  by (auto simp: apply_step_def own_effect_def Let_def Set_Get_def Set_Put_def
      split: if_splits option.splits sum.splits)

lemma Apply_loop_monotone:
  "Apply_loop replica res ops = (replica', res', e) \<Longrightarrow> fmlookup replica k = Some l \<Longrightarrow>
     \<exists>l'. fmlookup replica' k = Some l' \<and> rv_Revision l \<le> rv_Revision l'"
proof (induction ops arbitrary: replica res l)
  case (Cons p ops)
  show ?case
  proof (cases "apply_step replica p")
    case (Applied s')
    from rev_map.put_monotone [OF Cons.prems(2), of "op_Record p"] apply_step_Applied [OF Applied]
    obtain l1 where l1: "fmlookup s' k = Some l1" "rv_Revision l \<le> rv_Revision l1" by auto
    from Cons.IH [OF _ l1(1)] Cons.prems(1) Applied obtain l2 where
      "fmlookup replica' k = Some l2" "rv_Revision l1 \<le> rv_Revision l2" by auto
    with l1(2) show ?thesis by (meson order_trans)
  qed (use Cons in auto)
qed simp

text \<open>
  \<open>Apply\<close> never loses work: whatever the operations, no path disappears from the replica and no
  path's revision decreases, even when \<open>Apply\<close> stops with an error.
\<close>

lemma apply_never_regresses:
  "(case Apply replica ops of (replica', res, e) \<Rightarrow>
     \<forall>k. case fmlookup replica k of None \<Rightarrow> True
       | Some l \<Rightarrow> (case fmlookup replica' k of None \<Rightarrow> False | Some l' \<Rightarrow> rv_Revision l \<le> rv_Revision l'))"
  using Apply_loop_monotone [of replica "\<lparr>ar_Applied = 0, ar_Refused = []\<rparr>" ops]
  by (fastforce simp: Apply_def split: prod.splits option.splits)

section \<open>Diff, then Apply\<close>

definition rev_keyed :: "RevSet \<Rightarrow> bool" where
  "rev_keyed s \<longleftrightarrow> (\<forall>k\<in>fmdom' s. k \<noteq> [] \<and> rv_Path (the (fmlookup s k)) = k)"

lemma Put_keyed: "Set_Put s r = Ok s' \<Longrightarrow> rev_keyed s \<Longrightarrow> rev_keyed s'"
  by (auto simp: Set_Put_def rev_keyed_def split: option.splits if_splits)

lemma Apply_loop_distinct:
  "distinct (map (\<lambda>p. rv_Path (op_Record p)) ops) \<Longrightarrow> \<forall>p\<in>set ops. rv_Path (op_Record p) \<noteq> [] \<Longrightarrow>
   Apply_loop replica res ops = (replica', res', e) \<Longrightarrow>
     e = None
   \<and> (\<forall>p\<in>set ops. fmlookup replica' (rv_Path (op_Record p)) = own_effect (fmlookup replica (rv_Path (op_Record p))) p)
   \<and> (\<forall>k. k \<notin> (\<lambda>p. rv_Path (op_Record p)) ` set ops \<longrightarrow> fmlookup replica' k = fmlookup replica k)
   \<and> ((\<forall>p\<in>set ops. \<forall>l. fmlookup replica (rv_Path (op_Record p)) = Some l \<longrightarrow> rv_Revision l \<le> rv_Revision (op_Record p))
       \<longrightarrow> ar_Refused res' = ar_Refused res)"
proof (induction ops arbitrary: replica res)
  case (Cons p ops)
  define r1 where "r1 = (case apply_step replica p of Applied r \<Rightarrow> r | _ \<Rightarrow> replica)"
  have ne: "rv_Path (op_Record p) \<noteq> []" using Cons.prems by simp
  note st = apply_step_lookup [OF ne]
  have l1: "fmlookup r1 k = (if k = rv_Path (op_Record p) then own_effect (fmlookup replica k) p else fmlookup replica k)" for k
    unfolding r1_def by (rule st(2))
  obtain res1 where go: "Apply_loop r1 res1 ops = (replica', res', e)"
    and rf: "(\<forall>l. fmlookup replica (rv_Path (op_Record p)) = Some l \<longrightarrow> rv_Revision l \<le> rv_Revision (op_Record p))
        \<Longrightarrow> ar_Refused res1 = ar_Refused res"
  proof (cases "apply_step replica p")
    case (Refused r)
    with Cons.prems st(3) [OF Refused] show thesis
      by (intro that [of "res\<lparr>ar_Refused := ar_Refused res @ [r]\<rparr>"]) (auto simp: r1_def not_le)
  next
    case (Failed x)
    with st(1) show thesis by blast
  qed (use Cons.prems in \<open>auto simp: r1_def intro: that\<close>)
  have "rv_Path (op_Record p) \<notin> (\<lambda>p. rv_Path (op_Record p)) ` set ops" using Cons.prems(1) by simp
  then have other: "\<forall>q\<in>set ops. rv_Path (op_Record q) \<noteq> rv_Path (op_Record p)" by (metis imageI)
  from Cons.IH [OF _ _ go] Cons.prems other rf show ?case by (auto simp: l1)
qed simp

text \<open>The condition under which \<open>Diff\<close> emits an operation, and the operation.\<close>

definition needed :: "RevSet \<Rightarrow> RevisionRecord \<Rightarrow> string \<Rightarrow> bool" where
  "needed replica src k = (case fmlookup replica k of None \<Rightarrow> True
     | Some l \<Rightarrow> rv_Revision l < rv_Revision src \<or> rv_Revision l = rv_Revision src \<and> rv_Deleted l \<noteq> rv_Deleted src)"

definition op_for :: "RevisionRecord \<Rightarrow> Op" where
  "op_for src = \<lparr>op_Kind = (if rv_Deleted src then OpDelete else OpPut), op_Record = src\<rparr>"

lemma diff_path_eq: "diff_path replica src k = (if needed replica src k then [op_for src] else [])"
  by (auto simp: diff_path_def needed_def op_for_def Set_Get_def split: option.splits)

lemma Diff_eq:
  "Diff (Some s) replica = map (\<lambda>k. op_for (the (fmlookup s k))) (filter (\<lambda>k. needed replica (the (fmlookup s k)) k) (fm_keys s))"
proof -
  have "concat (map (\<lambda>k. diff_path replica (the (fmlookup s k)) k) ks)
      = map (\<lambda>k. op_for (the (fmlookup s k))) (filter (\<lambda>k. needed replica (the (fmlookup s k)) k) ks)" for ks
    by (induction ks) (simp_all add: diff_path_eq)
  then show ?thesis by (simp add: Diff_def)
qed

lemma Diff_paths:
  assumes "rev_keyed s"
  shows "map (\<lambda>p. rv_Path (op_Record p)) (Diff (Some s) replica) = filter (\<lambda>k. needed replica (the (fmlookup s k)) k) (fm_keys s)"
proof -
  have "map (\<lambda>k. rv_Path (op_Record (op_for (the (fmlookup s k))))) (filter P ks) = filter P ks"
    if "set ks \<subseteq> fmdom' s" for ks P
    using that assms by (induction ks) (auto simp: op_for_def rev_keyed_def)
  from this [of "fm_keys s"] show ?thesis by (simp add: Diff_eq comp_def)
qed

text \<open>A deletion whose path the replica already holds as a tombstone.\<close>

definition stale_tombstone :: "RevSet \<Rightarrow> Op \<Rightarrow> bool" where
  "stale_tombstone replica p \<longleftrightarrow> op_Kind p = OpDelete
     \<and> (case fmlookup replica (rv_Path (op_Record p)) of None \<Rightarrow> False | Some l \<Rightarrow> rv_Deleted l)"

lemma Apply_Diff:
  assumes s: "rev_keyed s" and ap: "Apply replica (Diff (Some s) replica) = (replica', res, e)"
  shows "e = None" and "ar_Refused res = []"
    and "fmlookup replica' k = (case fmlookup s k of None \<Rightarrow> fmlookup replica k
      | Some src \<Rightarrow> if needed replica src k \<and> \<not> stale_tombstone replica (op_for src) then Some src else fmlookup replica k)"
proof -
  let ?ops = "Diff (Some s) replica"
  have path: "rv_Path (the (fmlookup s k)) = k \<and> k \<noteq> []" if "k \<in> fmdom' s" for k
    using s that by (simp add: rev_keyed_def)
  have paths: "(\<lambda>p. rv_Path (op_Record p)) ` set ?ops = {k \<in> fmdom' s. needed replica (the (fmlookup s k)) k}"
    using arg_cong [OF Diff_paths [OF s, of replica], of set] by auto
  have "distinct (map (\<lambda>p. rv_Path (op_Record p)) ?ops)" unfolding Diff_paths [OF s] by simp
  moreover have "\<forall>p\<in>set ?ops. rv_Path (op_Record p) \<noteq> []" using path by (auto simp: Diff_eq op_for_def)
  ultimately have D: "e = None
   \<and> (\<forall>p\<in>set ?ops. fmlookup replica' (rv_Path (op_Record p)) = own_effect (fmlookup replica (rv_Path (op_Record p))) p)
   \<and> (\<forall>k. k \<notin> (\<lambda>p. rv_Path (op_Record p)) ` set ?ops \<longrightarrow> fmlookup replica' k = fmlookup replica k)
   \<and> ((\<forall>p\<in>set ?ops. \<forall>l. fmlookup replica (rv_Path (op_Record p)) = Some l \<longrightarrow> rv_Revision l \<le> rv_Revision (op_Record p))
       \<longrightarrow> ar_Refused res = [])"
    using Apply_loop_distinct [of ?ops replica "\<lparr>ar_Applied = 0, ar_Refused = []\<rparr>" replica' res e] ap
    by (simp add: Apply_def)
  show "e = None" using D by simp
  have "\<forall>p\<in>set ?ops. \<forall>l. fmlookup replica (rv_Path (op_Record p)) = Some l \<longrightarrow> rv_Revision l \<le> rv_Revision (op_Record p)"
    using path by (auto simp: Diff_eq op_for_def needed_def)
  with D show "ar_Refused res = []" by simp
  show "fmlookup replica' k = (case fmlookup s k of None \<Rightarrow> fmlookup replica k
      | Some src \<Rightarrow> if needed replica src k \<and> \<not> stale_tombstone replica (op_for src) then Some src else fmlookup replica k)"
  proof (cases "\<exists>src. fmlookup s k = Some src \<and> needed replica src k")
    case True
    then obtain src where src: "fmlookup s k = Some src" "needed replica src k" by blast
    then have k: "k \<in> fmdom' s" "rv_Path src = k" using path [of k] by (auto simp: in_fmdom'_iff)
    have "op_for src \<in> set ?ops" using src k by (force simp: Diff_eq)
    with D k have "fmlookup replica' k = own_effect (fmlookup replica k) (op_for src)" by (force simp: op_for_def)
    then show ?thesis
      using src k by (auto simp: own_effect_def stale_tombstone_def needed_def op_for_def Let_def split: option.splits)
  next
    case False
    then have "k \<notin> (\<lambda>p. rv_Path (op_Record p)) ` set ?ops" unfolding paths by (auto simp: in_fmdom'_iff)
    with D False show ?thesis by (auto split: option.splits)
  qed
qed

text \<open>
  One round of sync is refused nowhere and settles the replica: applying the diff of a source to a
  replica ends without error or refusal, gives each path the source's record where that is newer (or
  has the same revision and another deletion mark), leaves the others and the paths missing from the
  source untouched; and a second diff asks only for deletions of paths that already were tombstones
  in the replica, which \<open>Apply\<close> skips without recording the newer revision.
\<close>

lemma diff_apply_settles:
  assumes "rev_keyed s" and "Apply replica (Diff (Some s) replica) = (replica', res, e)"
  shows "e = None \<and> ar_Refused res = []
    \<and> (\<forall>k. fmlookup s k = None \<longrightarrow> fmlookup replica' k = fmlookup replica k)
    \<and> (\<forall>p\<in>set (Diff (Some s) replica). \<not> stale_tombstone replica p \<longrightarrow>
         fmlookup replica' (rv_Path (op_Record p)) = Some (op_Record p))
    \<and> Diff (Some s) replica' = filter (stale_tombstone replica) (Diff (Some s) replica)"
proof -
  note D = Apply_Diff [OF assms]
  have path: "rv_Path (the (fmlookup s k)) = k" if "k \<in> fmdom' s" for k
    using assms(1) that by (simp add: rev_keyed_def)
  have look: "fmlookup replica' k = (let src = the (fmlookup s k) in
      if needed replica src k \<and> \<not> stale_tombstone replica (op_for src) then Some src else fmlookup replica k)"
    if "k \<in> fmdom' s" for k
    using that D(3) [of k] by (auto simp: in_fmdom'_iff Let_def)
  have again: "needed replica' (the (fmlookup s k)) k \<longleftrightarrow>
      needed replica (the (fmlookup s k)) k \<and> stale_tombstone replica (op_for (the (fmlookup s k)))"
    if "k \<in> fmdom' s" for k
    using that unfolding needed_def look [OF that] Let_def by (auto split: option.splits)
  have flt: "filter (\<lambda>k. needed replica' (the (fmlookup s k)) k) (fm_keys s)
      = filter (\<lambda>k. stale_tombstone replica (op_for (the (fmlookup s k))))
          (filter (\<lambda>k. needed replica (the (fmlookup s k)) k) (fm_keys s))"
    unfolding filter_filter by (rule filter_cong) (use again in auto)
  have "Diff (Some s) replica' = filter (stale_tombstone replica) (Diff (Some s) replica)"
    unfolding Diff_eq flt by (simp add: filter_map comp_def)
  moreover have "fmlookup replica' (rv_Path (op_Record p)) = Some (op_Record p)"
    if p: "p \<in> set (Diff (Some s) replica)" "\<not> stale_tombstone replica p" for p
  proof -
    from p(1) obtain k where k: "k \<in> fmdom' s" "needed replica (the (fmlookup s k)) k" "p = op_for (the (fmlookup s k))"
      by (auto simp: Diff_eq)
    with path [OF k(1)] look [OF k(1)] p(2) show ?thesis by (simp add: op_for_def Let_def)
  qed
  ultimately show ?thesis using D by auto
qed

definition ex_rev :: "u64 \<Rightarrow> bool \<Rightarrow> RevisionRecord" where
  "ex_rev r d = \<lparr>rv_ID = ''i'', rv_Path = ''p'', rv_Revision = r, rv_Hash = [], rv_Size = 0, rv_Deleted = d\<rparr>"

end
