(* ===== verification/SyncParallel.thy ===== *)
theory SyncParallel
  imports SyncTypes
begin

text \<open>
  \<open>sync/parallel/parallel.go\<close>: deterministic, balanced placement of work packages on nodes.
\<close>

record Placement =
  pl_Node :: NodeID
  pl_Packages :: "string list"

type_synonym Coordinator = "NodeID list"

text \<open>The loop of \<open>NewCoordinator\<close>: reject empty ids, drop repetitions.\<close>

fun clean_loop :: "NodeID list \<Rightarrow> NodeID list \<Rightarrow> sync_error + NodeID list" where
  "clean_loop clean [] = Ok clean"
| "clean_loop clean (n # ns) =
     (if n = [] then Err (ErrInvalid ''node id is required'')
      else if n \<in> set clean then clean_loop clean ns
      else clean_loop (clean @ [n]) ns)"

definition NewCoordinator :: "NodeID list \<Rightarrow> sync_error + Coordinator" where
  "NewCoordinator nodes =
     (case clean_loop [] nodes of
        Inl e \<Rightarrow> Err e
      | Inr clean \<Rightarrow>
          if clean = [] then Err (ErrInvalid ''at least one node is required'') else Ok (sort clean))"

definition Coordinator_Nodes :: "Coordinator \<Rightarrow> NodeID list" where
  "Coordinator_Nodes c = c"

fun assign_loop :: "nat \<Rightarrow> string list \<Rightarrow> Placement list \<Rightarrow> Placement list" where
  "assign_loop i [] as = as"
| "assign_loop i (k # ks) as =
     (let idx = i mod length as; a = as ! idx
      in assign_loop (Suc i) ks (as[idx := a\<lparr>pl_Packages := pl_Packages a @ [k]\<rparr>]))"

definition Coordinator_Assign :: "Coordinator \<Rightarrow> string list \<Rightarrow> sync_error + Placement list" where
  "Coordinator_Assign c packageIDs =
     (let ids = sort packageIDs in
      if [] \<in> set ids then Err (ErrInvalid ''work package id is required'')
      else Ok (assign_loop 0 ids (map (\<lambda>n. \<lparr>pl_Node = n, pl_Packages = []\<rparr>) c)))"

definition MostLoaded :: "Placement list \<Rightarrow> int" where
  "MostLoaded as = foldl (\<lambda>most a. if int (length (pl_Packages a)) > most then int (length (pl_Packages a)) else most) 0 as"

definition LeastLoaded :: "Placement list \<Rightarrow> int" where
  "LeastLoaded as =
     (if as = [] then 0
      else foldl (\<lambda>least a. if least < 0 \<or> int (length (pl_Packages a)) < least
                             then int (length (pl_Packages a)) else least) (- 1) as)"

section \<open>The coordinator's nodes\<close>

lemma clean_loop_spec:
  "distinct clean \<Longrightarrow> clean_loop clean ns = Ok c \<Longrightarrow> distinct c \<and> set c = set clean \<union> set ns \<and> [] \<notin> set ns"
  by (induction clean ns rule: clean_loop.induct) (auto split: if_splits)

text \<open>
  A coordinator's nodes are the given ones, sorted, each once, none empty, and at least one.
\<close>

lemma NewCoordinator_nodes:
  assumes "NewCoordinator nodes = Ok c"
  shows "sorted (Coordinator_Nodes c) \<and> distinct (Coordinator_Nodes c)
    \<and> set (Coordinator_Nodes c) = set nodes \<and> [] \<notin> set nodes \<and> Coordinator_Nodes c \<noteq> []"
proof -
  obtain d where d: "clean_loop [] nodes = Ok d" "d \<noteq> []" "c = sort d"
    using assms by (auto simp: NewCoordinator_def split: sum.splits if_splits)
  from clean_loop_spec [OF _ d(1)] have "distinct d" "set d = set nodes" "[] \<notin> set nodes" by auto
  moreover have "sort d \<noteq> []" using d(2) by (metis length_0_conv length_sort)
  ultimately show ?thesis using d(3) by (simp add: Coordinator_Nodes_def)
qed

section \<open>Balanced round robin\<close>

definition loads :: "nat \<Rightarrow> nat \<Rightarrow> Placement list \<Rightarrow> bool" where
  "loads n i as \<longleftrightarrow> length as = n
     \<and> (\<forall>j<n. length (pl_Packages (as ! j)) = i div n + (if j < i mod n then 1 else 0))"

lemma loads_step:
  assumes "0 < n" and "loads n i as"
  shows "loads n (Suc i) (as[i mod n := (as ! (i mod n))\<lparr>pl_Packages := pl_Packages (as ! (i mod n)) @ [k]\<rparr>])"
  using assms by (auto simp: loads_def nth_list_update div_Suc mod_Suc less_Suc_eq)

lemma assign_loop_loads:
  "0 < n \<Longrightarrow> loads n i as \<Longrightarrow> loads n (i + length ks) (assign_loop i ks as)"
proof (induction ks arbitrary: i as)
  case (Cons k ks)
  from Cons.IH [OF Cons.prems(1) loads_step [OF Cons.prems]] Cons.prems(2) show ?case
    by (simp add: Let_def loads_def)
qed simp

lemma assign_loop_nodes: "map pl_Node (assign_loop i ks as) = map pl_Node as"
proof (induction i ks as rule: assign_loop.induct)
  case (2 i k ks as)
  have "(map pl_Node as)[i mod length as := pl_Node (as ! (i mod length as))] = map pl_Node as"
    by (metis list_update_id map_update)
  with 2 show ?case by (simp add: Let_def map_update)
qed simp

lemma mset_concat_update:
  assumes "j < length as"
  shows "mset (concat (map pl_Packages (as[j := (as ! j)\<lparr>pl_Packages := pl_Packages (as ! j) @ [k]\<rparr>])))
    = add_mset k (mset (concat (map pl_Packages as)))"
proof -
  have "as = take j as @ as ! j # drop (Suc j) as" using assms by (rule id_take_nth_drop)
  then have "concat (map pl_Packages as)
      = concat (map pl_Packages (take j as)) @ pl_Packages (as ! j) @ concat (map pl_Packages (drop (Suc j) as))"
    by (metis concat.simps(2) concat_append list.simps(9) map_append)
  then show ?thesis using assms by (simp add: upd_conv_take_nth_drop)
qed

lemma assign_loop_mset:
  "as \<noteq> [] \<Longrightarrow> mset (concat (map pl_Packages (assign_loop i ks as))) = mset (concat (map pl_Packages as)) + mset ks"
proof (induction i ks as rule: assign_loop.induct)
  case (2 i k ks as)
  then show ?case by (simp add: Let_def mset_concat_update)
qed simp

lemma MostLoaded_le:
  assumes "\<forall>a\<in>set as. int (length (pl_Packages a)) \<le> b" and "0 \<le> b"
  shows "MostLoaded as \<le> b"
proof -
  have "foldl (\<lambda>most a. if int (length (pl_Packages a)) > most then int (length (pl_Packages a)) else most) m as \<le> b"
    if "m \<le> b" for m
    using that assms(1) by (induction as arbitrary: m) auto
  with assms(2) show ?thesis by (simp add: MostLoaded_def)
qed

lemma LeastLoaded_ge:
  assumes "\<forall>a\<in>set as. b \<le> int (length (pl_Packages a))" and "as \<noteq> []"
  shows "b \<le> LeastLoaded as"
proof -
  have go: "b \<le> foldl (\<lambda>least a. if least < 0 \<or> int (length (pl_Packages a)) < least
      then int (length (pl_Packages a)) else least) m xs"
    if "b \<le> m" "\<forall>a\<in>set xs. b \<le> int (length (pl_Packages a))" for m xs
    using that by (induction xs arbitrary: m) auto
  show ?thesis using assms go by (cases as) (auto simp: LeastLoaded_def)
qed

text \<open>
  Placement is complete, balanced and independent of the input order: every package (with its
  multiplicity) is placed on exactly one node, the loads of any two nodes differ by at most one, the
  nodes appear in the coordinator's order, and permuted input gives the same placement.
\<close>

lemma Assign_balanced:
  assumes "Coordinator_Assign c ids = Ok as" and "c \<noteq> []"
  shows "map pl_Node as = c
    \<and> mset (concat (map pl_Packages as)) = mset ids
    \<and> MostLoaded as - LeastLoaded as \<le> 1
    \<and> (\<forall>ids'. mset ids' = mset ids \<longrightarrow> Coordinator_Assign c ids' = Ok as)"
proof -
  let ?as0 = "map (\<lambda>n. \<lparr>pl_Node = n, pl_Packages = []\<rparr>) c"
  let ?n = "length c"
  have as: "as = assign_loop 0 (sort ids) ?as0" and ne: "[] \<notin> set ids"
    using assms(1) by (auto simp: Coordinator_Assign_def Let_def split: if_splits)
  have n: "0 < ?n" using assms(2) by simp
  have l: "loads ?n (length ids) as"
    using assign_loop_loads [OF n, of 0 ?as0 "sort ids"] by (simp add: as loads_def)
  have load: "int (length ids div ?n) \<le> int (length (pl_Packages a))
      \<and> int (length (pl_Packages a)) \<le> int (length ids div ?n) + 1" if "a \<in> set as" for a
    using l that by (auto simp: loads_def in_set_conv_nth)
  have "as \<noteq> []" using l n by (auto simp: loads_def)
  then have "int (length ids div ?n) \<le> LeastLoaded as" using load by (intro LeastLoaded_ge) auto
  moreover have "MostLoaded as \<le> int (length ids div ?n) + 1" using load by (intro MostLoaded_le) auto
  moreover have "mset (concat (map pl_Packages as)) = mset ids"
    using assign_loop_mset [of ?as0 0 "sort ids"] assms(2) by (simp add: as comp_def)
  moreover have "map pl_Node as = c" by (simp add: as assign_loop_nodes comp_def)
  moreover have "Coordinator_Assign c ids' = Ok as" if "mset ids' = mset ids" for ids'
    using assms(1) sort_perm_eq [OF that] by (simp add: Coordinator_Assign_def)
  ultimately show ?thesis by simp
qed

end
