(* ===== verification/SyncTransfer.thy ===== *)
theory SyncTransfer
  imports SyncTypes
begin

text \<open>
  \<open>sync/transfer/transfer.go\<close>: chunked, hash-verified, resumable transfer. \<open>hash\<close> is \<open>Hash\<close> of
  \<open>sync/types.go\<close> (SHA-256). A connection delivers frames in order; the frames a session carries are
  a list, and a session cut off by a failing connection or context is a prefix of it, after which
  \<open>Receive\<close> returns an error. The JSON encoding of frame bodies is not modelled. Offsets and indexes
  are non-negative in \<open>Build\<close> and stay below the payload's length, so they do not wrap. Slicing with
  a negative start or a start after its end panics in Go: \<open>ErrPanic\<close>.
\<close>

section \<open>The source\<close>

record Source =
  so_Manifest :: Manifest
  so_Data :: bytes

definition DefaultChunkSize :: int where "DefaultChunkSize = 64 * 1024"

function build_loop :: "(bytes \<Rightarrow> string) \<Rightarrow> bytes \<Rightarrow> nat \<Rightarrow> nat \<Rightarrow> nat \<Rightarrow> Chunk list" where
  "build_loop hash data chunkSize offset index =
     (if offset < length data \<and> 0 < chunkSize then
        (let end = min (offset + chunkSize) (length data);
             part = take (end - offset) (drop offset data)
         in \<lparr>ch_Index = int index, ch_Offset = int offset, ch_Length = int (length part), ch_Hash = hash part\<rparr>
            # build_loop hash data chunkSize (offset + chunkSize) (index + 1))
      else [])"
  by pat_completeness auto
termination
  by (relation "measure (\<lambda>(hash, data, chunkSize, offset, index). length data - offset)") auto

declare build_loop.simps [simp del]

definition Build :: "(bytes \<Rightarrow> string) \<Rightarrow> string \<Rightarrow> string \<Rightarrow> bytes \<Rightarrow> int \<Rightarrow> sync_error + Manifest" where
  "Build hash i name data chunkSize =
     (if i = [] then Err (ErrInvalid ''manifest id is required'')
      else (let cs = (if chunkSize \<le> 0 then DefaultChunkSize else chunkSize) in
        Ok \<lparr>m_ID = i, m_Name = name, m_Size = int (length data), m_ChunkSize = cs, m_Hash = hash data,
            m_Chunks = build_loop hash data (nat cs) 0 0\<rparr>))"

definition NewSource :: "(bytes \<Rightarrow> string) \<Rightarrow> string \<Rightarrow> string \<Rightarrow> bytes \<Rightarrow> int \<Rightarrow> sync_error + Source" where
  "NewSource hash i name data chunkSize =
     (case Build hash i name data chunkSize of Inl e \<Rightarrow> Err e
      | Inr m \<Rightarrow> Ok \<lparr>so_Manifest = m, so_Data = data\<rparr>)"

definition chunk_bytes :: "bytes \<Rightarrow> Chunk \<Rightarrow> bytes" where
  "chunk_bytes data c = take (nat (ch_Length c)) (drop (nat (ch_Offset c)) data)"

definition ChunkData :: "Source \<Rightarrow> int \<Rightarrow> sync_error + bytes" where
  "ChunkData s index =
     (if index < 0 \<or> int (length (m_Chunks (so_Manifest s))) \<le> index then Err (ErrNotFound ''chunk'')
      else (let ch = m_Chunks (so_Manifest s) ! nat index in
        if int (length (so_Data s)) < ch_Offset ch + ch_Length ch then Err (ErrCorrupt ''chunk out of range'')
        else if ch_Offset ch < 0 \<or> ch_Length ch < 0 then Err ErrPanic
        else Ok (chunk_bytes (so_Data s) ch)))"

section \<open>The receiver\<close>

record Receiver =
  re_manifest :: Manifest
  re_parts :: "(int, bytes) fmap"
  re_have :: "(int, bool) fmap"

definition NewReceiver :: "Manifest \<Rightarrow> Receiver" where
  "NewReceiver m = \<lparr>re_manifest = m, re_parts = fmempty, re_have = fmempty\<rparr>"

definition Accept :: "(bytes \<Rightarrow> string) \<Rightarrow> Receiver \<Rightarrow> Chunk \<Rightarrow> bytes \<Rightarrow> sync_error + Receiver" where
  "Accept hash r c data =
     (if ch_Index c < 0 \<or> int (length (m_Chunks (re_manifest r))) \<le> ch_Index c
      then Err (ErrInvalid ''chunk index'')
      else (let want = m_Chunks (re_manifest r) ! nat (ch_Index c) in
        if int (length data) \<noteq> ch_Length want then Err (ErrCorrupt ''chunk length'')
        else if hash data \<noteq> ch_Hash want then Err (ErrCorrupt ''chunk hash mismatch'')
        else Ok (r\<lparr>re_parts := fmupd (ch_Index c) data (re_parts r),
                   re_have := fmupd (ch_Index c) True (re_have r)\<rparr>)))"

abbreviation n_chunks :: "Receiver \<Rightarrow> nat" where "n_chunks r \<equiv> length (m_Chunks (re_manifest r))"

definition Have :: "Receiver \<Rightarrow> int list" where
  "Have r = filter (\<lambda>i. fm_getd False (re_have r) i) (map int [0..<n_chunks r])"

definition Missing :: "Receiver \<Rightarrow> int list" where
  "Missing r = filter (\<lambda>i. \<not> fm_getd False (re_have r) i) (map int [0..<n_chunks r])"

definition Complete :: "(bytes \<Rightarrow> string) \<Rightarrow> Receiver \<Rightarrow> sync_error + bytes" where
  "Complete hash r =
     (if Missing r \<noteq> [] then Err (ErrNotFound ''chunks missing'')
      else (let buf = concat (map (fm_getd [] (re_parts r)) (map int [0..<n_chunks r])) in
        if hash buf \<noteq> m_Hash (re_manifest r) then Err (ErrCorrupt ''payload hash mismatch'') else Ok buf))"

section \<open>Sessions\<close>

datatype frame = KindChunk Chunk bytes | KindClose | KindAck "int list" | KindOther string

text \<open>The frames sent, and the error that stopped sending.\<close>

fun push_loop :: "Source \<Rightarrow> int set \<Rightarrow> Chunk list \<Rightarrow> frame list \<times> sync_error option" where
  "push_loop s skip [] = ([KindClose], None)"
| "push_loop s skip (c # cs) =
     (if ch_Index c \<in> skip then push_loop s skip cs
      else (case ChunkData s (ch_Index c) of
              Inl e \<Rightarrow> ([], Some e)
            | Inr data \<Rightarrow> (let (fs, e) = push_loop s skip cs in (KindChunk c data # fs, e))))"

definition push :: "Source \<Rightarrow> int list \<Rightarrow> frame list \<times> sync_error option" where
  "push s have = push_loop s (set have) (m_Chunks (so_Manifest s))"

text \<open>What the sender does with the receiver's first frame.\<close>

definition Serve :: "Source \<Rightarrow> frame list \<Rightarrow> frame list \<times> sync_error option" where
  "Serve s received =
     (case received of
        [] \<Rightarrow> ([], Some ErrTransport)
      | KindAck have # _ \<Rightarrow> push s have
      | _ # _ \<Rightarrow> ([], Some (ErrInvalid ''expected offer'')))"

text \<open>The loop of \<open>Receiver.Run\<close> after the offer was sent.\<close>

fun recv_loop :: "(bytes \<Rightarrow> string) \<Rightarrow> Receiver \<Rightarrow> frame list \<Rightarrow> Receiver \<times> (sync_error + bytes)" where
  "recv_loop hash r [] = (r, Err ErrTransport)"
| "recv_loop hash r (KindChunk c data # fs) =
     (case Accept hash r c data of Inl e \<Rightarrow> (r, Err e) | Inr r' \<Rightarrow> recv_loop hash r' fs)"
| "recv_loop hash r (KindClose # fs) = (r, Complete hash r)"
| "recv_loop hash r (KindAck _ # fs) = (r, Err (ErrInvalid ''unexpected frame''))"
| "recv_loop hash r (KindOther _ # fs) = (r, Err (ErrInvalid ''unexpected frame''))"

text \<open>
  One session: the receiver offers what it has, the sender serves, and the first \<open>n\<close> frames
  arrive (all of them when \<open>n\<close> is large).
\<close>

definition Session :: "(bytes \<Rightarrow> string) \<Rightarrow> Source \<Rightarrow> nat \<Rightarrow> Receiver \<Rightarrow> Receiver \<times> (sync_error + bytes)" where
  "Session hash s n r = recv_loop hash r (take n (fst (Serve s [KindAck (Have r)])))"

section \<open>Chunks of a built manifest\<close>

definition chunk_ok :: "(bytes \<Rightarrow> string) \<Rightarrow> bytes \<Rightarrow> Chunk \<Rightarrow> bool" where
  "chunk_ok hash data c \<longleftrightarrow> 0 \<le> ch_Offset c \<and> 0 < ch_Length c
     \<and> ch_Offset c + ch_Length c \<le> int (length data) \<and> ch_Hash c = hash (chunk_bytes data c)"

lemma build_loop_spec:
  "0 < cs \<Longrightarrow> list_all (chunk_ok hash data) (build_loop hash data cs offset index)
     \<and> map ch_Index (build_loop hash data cs offset index)
         = map int [index..<index + length (build_loop hash data cs offset index)]
     \<and> concat (map (chunk_bytes data) (build_loop hash data cs offset index)) = drop offset data
     \<and> list_all (\<lambda>c. ch_Length c \<le> int cs) (build_loop hash data cs offset index)"
proof (induction hash data cs offset index rule: build_loop.induct)
  case (1 hash data cs offset index)
  show ?case
  proof (cases "offset < length data")
    case False
    then show ?thesis by (subst (1 2 3 4 5) build_loop.simps) simp
  next
    case True
    let ?rest = "build_loop hash data cs (offset + cs) (index + 1)"
    define part where "part = take (min (offset + cs) (length data) - offset) (drop offset data)"
    define c where "c = \<lparr>ch_Index = int index, ch_Offset = int offset, ch_Length = int (length part), ch_Hash = hash part\<rparr>"
    have eq: "build_loop hash data cs offset index = c # ?rest"
      using True 1(2) by (subst build_loop.simps) (simp add: Let_def c_def part_def)
    note IH = 1(1) [OF conjI [OF True 1(2)] refl refl 1(2)]
    have len: "length part = min (offset + cs) (length data) - offset" by (simp add: part_def)
    have sl: "chunk_bytes data c = part" by (simp add: chunk_bytes_def c_def len) (simp add: part_def)
    have cat: "part @ drop (offset + cs) data = drop offset data"
      using True append_take_drop_id [of cs "drop offset data"] by (auto simp: part_def min_def add.commute)
    have ok: "chunk_ok hash data c" "ch_Length c \<le> int cs" "ch_Index c = int index"
      using True 1(2) unfolding chunk_ok_def sl by (auto simp: c_def len)
    have up: "[index..<index + Suc (length ?rest)] = index # [index + 1..<index + 1 + length ?rest]"
      using upt_conv_Cons [of index "index + Suc (length ?rest)"] by simp
    show ?thesis
      unfolding eq
      using IH cat ok up sl by (simp del: upt_Suc)
  qed
qed

definition honest_source :: "(bytes \<Rightarrow> string) \<Rightarrow> Source \<Rightarrow> bool" where
  "honest_source hash s \<longleftrightarrow> (let m = so_Manifest s; cs = m_Chunks m in
     m_Hash m = hash (so_Data s) \<and> list_all (chunk_ok hash (so_Data s)) cs
     \<and> map ch_Index cs = map int [0..<length cs] \<and> concat (map (chunk_bytes (so_Data s)) cs) = so_Data s)"

lemma NewSource_honest:
  assumes "NewSource hash i name data chunkSize = Ok s"
  shows "honest_source hash s" and "so_Data s = data"
    and "list_all (\<lambda>c. ch_Length c \<le> m_ChunkSize (so_Manifest s)) (m_Chunks (so_Manifest s))"
proof -
  define cs where "cs = (if chunkSize \<le> 0 then DefaultChunkSize else chunkSize)"
  have cs: "0 < cs" by (simp add: cs_def DefaultChunkSize_def)
  have s: "s = \<lparr>so_Manifest = \<lparr>m_ID = i, m_Name = name, m_Size = int (length data), m_ChunkSize = cs, m_Hash = hash data,
      m_Chunks = build_loop hash data (nat cs) 0 0\<rparr>, so_Data = data\<rparr>"
    using assms by (auto simp: NewSource_def Build_def cs_def Let_def split: if_splits)
  have spec: "list_all (chunk_ok hash data) (build_loop hash data (nat cs) 0 0)
     \<and> map ch_Index (build_loop hash data (nat cs) 0 0) = map int [0..<0 + length (build_loop hash data (nat cs) 0 0)]
     \<and> concat (map (chunk_bytes data) (build_loop hash data (nat cs) 0 0)) = drop 0 data
     \<and> list_all (\<lambda>c. ch_Length c \<le> int (nat cs)) (build_loop hash data (nat cs) 0 0)"
    using cs by (intro build_loop_spec) simp
  then show "honest_source hash s" "so_Data s = data"
    and "list_all (\<lambda>c. ch_Length c \<le> m_ChunkSize (so_Manifest s)) (m_Chunks (so_Manifest s))"
    using cs by (simp_all add: s honest_source_def Let_def)
qed

text \<open>
  A manifest describes its payload: the chunks have consecutive indexes, are non-empty and no longer than
  the chunk size, lie inside the payload, carry the hash of their bytes, and their bytes concatenated
  are the payload.
\<close>

lemma Build_chunks:
  assumes "NewSource hash i name data chunkSize = Ok s"
  shows "(let m = so_Manifest s in
      map ch_Index (m_Chunks m) = map int [0..<length (m_Chunks m)]
    \<and> list_all (\<lambda>c. 0 < ch_Length c \<and> ch_Length c \<le> m_ChunkSize m \<and> 0 \<le> ch_Offset c
         \<and> ch_Offset c + ch_Length c \<le> m_Size m \<and> ch_Hash c = hash (chunk_bytes data c)) (m_Chunks m)
    \<and> concat (map (chunk_bytes data) (m_Chunks m)) = data
    \<and> m_Hash m = hash data)"
proof -
  have "m_Size (so_Manifest s) = int (length data)"
    using assms by (auto simp: NewSource_def Build_def Let_def split: if_splits)
  then show ?thesis
    using NewSource_honest [OF assms] by (auto simp: honest_source_def Let_def chunk_ok_def list_all_iff)
qed

section \<open>Honest sessions\<close>

text \<open>The receiver's parts are the sender's bytes.\<close>

definition recv_good :: "Source \<Rightarrow> Receiver \<Rightarrow> bool" where
  "recv_good s r \<longleftrightarrow> re_manifest r = so_Manifest s
     \<and> (\<forall>j<length (m_Chunks (so_Manifest s)). fm_getd False (re_have r) (int j) \<longrightarrow>
          fm_getd [] (re_parts r) (int j) = chunk_bytes (so_Data s) (m_Chunks (so_Manifest s) ! j))"

lemma honest_chunk:
  assumes "honest_source hash s" and "j < length (m_Chunks (so_Manifest s))"
  shows "ch_Index (m_Chunks (so_Manifest s) ! j) = int j"
    and "ChunkData s (int j) = Ok (chunk_bytes (so_Data s) (m_Chunks (so_Manifest s) ! j))"
    and "int (length (chunk_bytes (so_Data s) (m_Chunks (so_Manifest s) ! j))) = ch_Length (m_Chunks (so_Manifest s) ! j)"
    and "hash (chunk_bytes (so_Data s) (m_Chunks (so_Manifest s) ! j)) = ch_Hash (m_Chunks (so_Manifest s) ! j)"
proof -
  let ?c = "m_Chunks (so_Manifest s) ! j"
  have "map ch_Index (m_Chunks (so_Manifest s)) ! j = map int [0..<length (m_Chunks (so_Manifest s))] ! j"
    using assms(1) by (simp add: honest_source_def Let_def)
  then show "ch_Index ?c = int j" using assms(2) by simp
  have ok: "chunk_ok hash (so_Data s) ?c"
    using assms by (simp add: honest_source_def Let_def list_all_length)
  then show "ChunkData s (int j) = Ok (chunk_bytes (so_Data s) ?c)" using assms(2) by (simp add: ChunkData_def chunk_ok_def)
  have "nat (ch_Length ?c) \<le> length (so_Data s) - nat (ch_Offset ?c)"
    using ok unfolding chunk_ok_def by linarith
  then show "int (length (chunk_bytes (so_Data s) ?c)) = ch_Length ?c" using ok by (simp add: chunk_bytes_def chunk_ok_def)
  show "hash (chunk_bytes (so_Data s) ?c) = ch_Hash ?c" using ok by (simp add: chunk_ok_def)
qed

lemma accept_honest:
  assumes "honest_source hash s" and good: "recv_good s r" and j: "j < length (m_Chunks (so_Manifest s))"
  shows "\<exists>r'. Accept hash r (m_Chunks (so_Manifest s) ! j) (chunk_bytes (so_Data s) (m_Chunks (so_Manifest s) ! j)) = Ok r'
    \<and> recv_good s r' \<and> (\<forall>i. fm_getd False (re_have r') i \<longleftrightarrow> fm_getd False (re_have r) i \<or> i = int j)"
  using honest_chunk [OF assms(1) j] good j
  by (auto simp: Accept_def Let_def recv_good_def)

text \<open>The frames of a push, for the chunks from position \<open>k\<close> on.\<close>

lemma push_loop_frames:
  assumes h: "honest_source hash s"
  shows "k \<le> length (m_Chunks (so_Manifest s)) \<Longrightarrow>
    push_loop s skip (drop k (m_Chunks (so_Manifest s))) =
      (map (\<lambda>j. KindChunk (m_Chunks (so_Manifest s) ! j) (chunk_bytes (so_Data s) (m_Chunks (so_Manifest s) ! j)))
         (filter (\<lambda>j. int j \<notin> skip) [k..<length (m_Chunks (so_Manifest s))]) @ [KindClose], None)"
proof (induction "length (m_Chunks (so_Manifest s)) - k" arbitrary: k)
  case (Suc n)
  then have k: "k < length (m_Chunks (so_Manifest s))" by simp
  have "drop k (m_Chunks (so_Manifest s)) = m_Chunks (so_Manifest s) ! k # drop (Suc k) (m_Chunks (so_Manifest s))"
    using k by (rule Cons_nth_drop_Suc [symmetric])
  moreover have "[k..<length (m_Chunks (so_Manifest s))] = k # [Suc k..<length (m_Chunks (so_Manifest s))]"
    using k by (rule upt_conv_Cons)
  moreover have "n = length (m_Chunks (so_Manifest s)) - Suc k" "Suc k \<le> length (m_Chunks (so_Manifest s))"
    using Suc.hyps(2) k by simp_all
  ultimately show ?case
    using Suc.hyps(1) [of "Suc k"] honest_chunk(1,2) [OF h k] by simp
qed simp

lemma recv_chunks:
  assumes h: "honest_source hash s"
  shows "recv_good s r \<Longrightarrow> \<forall>j\<in>set js. j < length (m_Chunks (so_Manifest s)) \<Longrightarrow>
    \<exists>r'. recv_good s r' \<and> (\<forall>i. fm_getd False (re_have r') i \<longleftrightarrow> fm_getd False (re_have r) i \<or> i \<in> int ` set js)
     \<and> (\<forall>fs. recv_loop hash r (map (\<lambda>j. KindChunk (m_Chunks (so_Manifest s) ! j)
            (chunk_bytes (so_Data s) (m_Chunks (so_Manifest s) ! j))) js @ fs) = recv_loop hash r' fs)"
proof (induction js arbitrary: r)
  case (Cons j js)
  obtain r1 where r1: "Accept hash r (m_Chunks (so_Manifest s) ! j) (chunk_bytes (so_Data s) (m_Chunks (so_Manifest s) ! j)) = Ok r1"
    "recv_good s r1" "\<forall>i. fm_getd False (re_have r1) i \<longleftrightarrow> fm_getd False (re_have r) i \<or> i = int j"
    using accept_honest [OF h Cons.prems(1), of j] Cons.prems(2) by auto
  from Cons.IH [OF r1(2)] Cons.prems(2) obtain r2 where r2: "recv_good s r2"
    "\<forall>i. fm_getd False (re_have r2) i \<longleftrightarrow> fm_getd False (re_have r1) i \<or> i \<in> int ` set js"
    "\<forall>fs. recv_loop hash r1 (map (\<lambda>j. KindChunk (m_Chunks (so_Manifest s) ! j)
            (chunk_bytes (so_Data s) (m_Chunks (so_Manifest s) ! j))) js @ fs) = recv_loop hash r2 fs" by auto
  then show ?case using r1 by (intro exI [of _ r2]) auto
qed auto

lemma Complete_honest:
  assumes h: "honest_source hash s" and good: "recv_good s r"
    and all: "\<forall>j<length (m_Chunks (so_Manifest s)). fm_getd False (re_have r) (int j)"
  shows "Complete hash r = Ok (so_Data s)"
proof -
  let ?cs = "m_Chunks (so_Manifest s)"
  have m: "re_manifest r = so_Manifest s" using good by (simp add: recv_good_def)
  have "map (fm_getd [] (re_parts r)) (map int [0..<length ?cs]) = map (chunk_bytes (so_Data s)) ?cs"
    using good all by (intro nth_equalityI) (auto simp: recv_good_def)
  moreover have "Missing r = []" using all by (auto simp: Missing_def m filter_empty_conv)
  moreover have "concat (map (chunk_bytes (so_Data s)) ?cs) = so_Data s" "m_Hash (so_Manifest s) = hash (so_Data s)"
    using h by (simp_all add: honest_source_def Let_def)
  ultimately show ?thesis by (simp add: Complete_def m Let_def)
qed

lemma Session_eq:
  assumes h: "honest_source hash s" and good: "recv_good s r"
  shows "Session hash s n r = recv_loop hash r (take n
      (map (\<lambda>j. KindChunk (m_Chunks (so_Manifest s) ! j) (chunk_bytes (so_Data s) (m_Chunks (so_Manifest s) ! j)))
         (filter (\<lambda>j. int j \<notin> set (Have r)) [0..<length (m_Chunks (so_Manifest s))]) @ [KindClose]))"
  using push_loop_frames [OF h, of 0 "set (Have r)"] by (simp add: Session_def Serve_def push_def)

text \<open>A session, cut off anywhere, keeps the receiver's parts honest and never loses one.\<close>

lemma Session_good:
  assumes h: "honest_source hash s" and good: "recv_good s r"
  shows "recv_good s (fst (Session hash s n r))
    \<and> (\<forall>i. fm_getd False (re_have r) i \<longrightarrow> fm_getd False (re_have (fst (Session hash s n r))) i)"
proof -
  let ?f = "\<lambda>j. KindChunk (m_Chunks (so_Manifest s) ! j) (chunk_bytes (so_Data s) (m_Chunks (so_Manifest s) ! j))"
  define js where "js = filter (\<lambda>j. int j \<notin> set (Have r)) [0..<length (m_Chunks (so_Manifest s))]"
  define ks where "ks = take n js"
  define fs where "fs = take (n - length js) [KindClose]"
  have fs: "fs = [] \<or> fs = [KindClose]" by (cases "n - length js") (simp_all add: fs_def)
  have "Session hash s n r = recv_loop hash r (map ?f ks @ fs)"
    unfolding Session_eq [OF h good] by (simp add: js_def ks_def fs_def take_map)
  moreover have "\<forall>j\<in>set ks. j < length (m_Chunks (so_Manifest s))"
    by (auto simp: ks_def js_def dest!: in_set_takeD)
  from recv_chunks [OF h good this] obtain r1 where r1: "recv_good s r1"
    "\<forall>i. fm_getd False (re_have r1) i \<longleftrightarrow> fm_getd False (re_have r) i \<or> i \<in> int ` set ks"
    "\<forall>fs. recv_loop hash r (map ?f ks @ fs) = recv_loop hash r1 fs" by blast
  ultimately have "fst (Session hash s n r) = r1" using fs by auto
  with r1 show ?thesis by simp
qed

lemma Session_full:
  assumes h: "honest_source hash s" and good: "recv_good s r" and n: "length (m_Chunks (so_Manifest s)) < n"
  shows "snd (Session hash s n r) = Ok (so_Data s)"
proof -
  let ?f = "\<lambda>j. KindChunk (m_Chunks (so_Manifest s) ! j) (chunk_bytes (so_Data s) (m_Chunks (so_Manifest s) ! j))"
  let ?N = "length (m_Chunks (so_Manifest s))"
  define js where "js = filter (\<lambda>j. int j \<notin> set (Have r)) [0..<?N]"
  have m: "re_manifest r = so_Manifest s" using good by (simp add: recv_good_def)
  have "length js \<le> ?N" unfolding js_def by (rule order_trans [OF length_filter_le]) simp
  then have "Session hash s n r = recv_loop hash r (map ?f js @ [KindClose])"
    unfolding Session_eq [OF h good] using n by (simp add: js_def)
  moreover have "\<forall>j\<in>set js. j < ?N" by (auto simp: js_def)
  from recv_chunks [OF h good this] obtain r1 where r1: "recv_good s r1"
    "\<forall>i. fm_getd False (re_have r1) i \<longleftrightarrow> fm_getd False (re_have r) i \<or> i \<in> int ` set js"
    "\<forall>fs. recv_loop hash r (map ?f js @ fs) = recv_loop hash r1 fs" by blast
  moreover have "\<forall>j<?N. fm_getd False (re_have r1) (int j)"
    using r1(2) by (auto simp: js_def Have_def m)
  ultimately show ?thesis using Complete_honest [OF h r1(1)] by simp
qed

text \<open>
  C10. Resumable transfer delivers the payload: a new receiver that went through any number of sessions
  with the sender, each cut off after any number of frames, ends with exactly the sender's bytes as
  soon as one session runs to its end; and a chunk once received is not sent again.
\<close>

theorem resumed_transfer_delivers:
  assumes src: "NewSource hash i name data chunkSize = Ok s"
    and whole: "length (m_Chunks (so_Manifest s)) < n"
  shows "(let r = fold (\<lambda>k r. fst (Session hash s k r)) cuts (NewReceiver (so_Manifest s)) in
      snd (Session hash s n r) = Ok data
    \<and> (\<forall>c d. KindChunk c d \<in> set (fst (Serve s [KindAck (Have r)])) \<longrightarrow> ch_Index c \<notin> set (Have r)))"
proof -
  have h: "honest_source hash s" and d: "so_Data s = data" using NewSource_honest [OF src] by simp_all
  have "recv_good s (fold (\<lambda>k r. fst (Session hash s k r)) cuts r)" if "recv_good s r" for r
    using that by (induction cuts arbitrary: r) (simp_all add: Session_good [OF h])
  then have good: "recv_good s (fold (\<lambda>k r. fst (Session hash s k r)) cuts (NewReceiver (so_Manifest s)))"
    by (simp add: recv_good_def NewReceiver_def)
  have "ch_Index c \<notin> skip" if "KindChunk c x \<in> set (fst (push_loop s skip cs))" for c x skip cs
    using that by (induction s skip cs rule: push_loop.induct) (auto simp: Let_def case_prod_beta split: if_splits sum.splits)
  then show ?thesis
    using Session_full [OF h good whole] by (simp add: d Let_def Serve_def push_def)
qed

section \<open>Dishonest senders\<close>

definition recv_verified :: "(bytes \<Rightarrow> string) \<Rightarrow> Manifest \<Rightarrow> Receiver \<Rightarrow> bool" where
  "recv_verified hash m r \<longleftrightarrow> re_manifest r = m
     \<and> (\<forall>j<length (m_Chunks m). fm_getd False (re_have r) (int j) \<longrightarrow>
          int (length (fm_getd [] (re_parts r) (int j))) = ch_Length (m_Chunks m ! j)
        \<and> hash (fm_getd [] (re_parts r) (int j)) = ch_Hash (m_Chunks m ! j))"

lemma Accept_verified:
  "recv_verified hash m r \<Longrightarrow> Accept hash r c d = Ok r' \<Longrightarrow> recv_verified hash m r'"
  by (auto simp: Accept_def recv_verified_def Let_def split: if_splits)

lemma recv_loop_verified:
  "recv_verified hash m r \<Longrightarrow> recv_loop hash r fs = (r', Inr buf) \<Longrightarrow>
     recv_verified hash m r' \<and> Complete hash r' = Ok buf"
proof (induction hash r fs rule: recv_loop.induct)
  case (2 hash r c data fs)
  then show ?case by (auto split: sum.splits dest: Accept_verified)
qed auto

text \<open>
  Nothing unverified gets through: whatever frames arrive, if the receiver returns a payload then
  its hash is the manifest's, it is the concatenation of one part per chunk of the manifest, and each
  part has the chunk's length and hash.
\<close>

lemma received_is_verified:
  assumes "recv_loop hash (NewReceiver m) fs = (r', Inr buf)"
  shows "hash buf = m_Hash m
    \<and> (\<exists>parts. buf = concat parts \<and> length parts = length (m_Chunks m)
        \<and> list_all2 (\<lambda>p c. int (length p) = ch_Length c \<and> hash p = ch_Hash c) parts (m_Chunks m))"
proof -
  have "recv_verified hash m (NewReceiver m)" by (simp add: recv_verified_def NewReceiver_def)
  from recv_loop_verified [OF this assms] have v: "recv_verified hash m r'" and c: "Complete hash r' = Ok buf" by auto
  have m: "re_manifest r' = m" using v by (simp add: recv_verified_def)
  let ?parts = "map (fm_getd [] (re_parts r')) (map int [0..<length (m_Chunks m)])"
  have miss: "Missing r' = []" and buf: "buf = concat ?parts" "hash buf = m_Hash m"
    using c by (auto simp: Complete_def m Let_def split: if_splits)
  have "\<forall>j<length (m_Chunks m). fm_getd False (re_have r') (int j)"
    using miss by (auto simp: Missing_def m filter_empty_conv)
  then have "list_all2 (\<lambda>p c. int (length p) = ch_Length c \<and> hash p = ch_Hash c) ?parts (m_Chunks m)"
    using v by (auto simp: list_all2_conv_all_nth recv_verified_def)
  with buf show ?thesis by (intro conjI exI [of _ ?parts]) simp_all
qed

section \<open>A concrete transfer\<close>

text \<open>A toy digest that tells payloads apart by length.\<close>

definition ex_hash :: "bytes \<Rightarrow> string" where "ex_hash b = itoa (length b)"

definition ex_source :: Source where
  "ex_source = ok_val \<lparr>so_Manifest = \<lparr>m_ID = [], m_Name = [], m_Size = 0, m_ChunkSize = 1, m_Hash = [], m_Chunks = []\<rparr>,
     so_Data = []\<rparr> (NewSource ex_hash ''m'' [] [1, 2, 3] 2)"

lemma ex_source_ok: "NewSource ex_hash ''m'' [] [1, 2, 3] 2 = Ok ex_source"
  by (simp add: ex_source_def NewSource_def Build_def)

lemma ex_source_chunks: "length (m_Chunks (so_Manifest ex_source)) = 2"
  by (simp add: ex_source_def NewSource_def Build_def build_loop.simps Let_def)

theorem resumed_transfer_delivers_witness:
  "snd (Session ex_hash ex_source 3 (fst (Session ex_hash ex_source 1 (NewReceiver (so_Manifest ex_source))))) = Ok [1, 2, 3]"
  using resumed_transfer_delivers [OF ex_source_ok, of 3 "[1]"] by (simp add: ex_source_chunks Let_def)

end
