(* ===== verification/SyncTransport.thy ===== *)
theory SyncTransport
  imports SyncTypes
begin

text \<open>
  \<open>sync/transport/transport.go\<close>: envelope messages and the deterministic in-memory wire. Every node has
  one inbox, a bounded queue, shared by all connections to it. Each method holds the wire's lock; only
  the wait in \<open>Receive\<close> does not, and \<open>Conn_Receive\<close> is the call that finally takes a message or sees its
  context end. \<open>enc\<close> and \<open>dec\<close> are the JSON encoder and decoder of a body.
\<close>

section \<open>Messages\<close>

record Message =
  ms_Kind :: string
  ms_From :: NodeID
  ms_To :: NodeID
  ms_Seq :: u64
  ms_Body :: string  \<comment> \<open>raw JSON, empty when there is no body\<close>

datatype transport_error = ErrClosed | ErrUnknownPeer | ErrDropped | EncodeBody | EmptyBody | DecodeBodyFailed
  | NotAddressed | InboxFull | DialInvalid | ContextDone

definition NewMessage ::
  "('b \<Rightarrow> string option) \<Rightarrow> string \<Rightarrow> NodeID \<Rightarrow> NodeID \<Rightarrow> u64 \<Rightarrow> 'b option \<Rightarrow> transport_error + Message" where
  "NewMessage enc kind src dst n body =
     (let msg = \<lparr>ms_Kind = kind, ms_From = src, ms_To = dst, ms_Seq = n, ms_Body = []\<rparr> in
      case body of None \<Rightarrow> Ok msg
      | Some b \<Rightarrow> (case enc b of None \<Rightarrow> Err EncodeBody | Some raw \<Rightarrow> Ok (msg\<lparr>ms_Body := raw\<rparr>)))"

definition DecodeBody :: "(string \<Rightarrow> 'b option) \<Rightarrow> Message \<Rightarrow> transport_error + 'b" where
  "DecodeBody dec msg =
     (if ms_Body msg = [] then Err EmptyBody
      else (case dec (ms_Body msg) of None \<Rightarrow> Err DecodeBodyFailed | Some b \<Rightarrow> Ok b))"

section \<open>The wire\<close>

record Wire =
  wi_capacity :: nat
  wi_inbox :: "(NodeID, Message list) fmap"
  wi_closed :: "(NodeID, bool) fmap"
  wi_seq :: "(string, u64) fmap"
  wi_fail :: "(NodeID, int) fmap"
  wi_delivered :: "(NodeID, int) fmap"

definition NewWire :: Wire where
  "NewWire = \<lparr>wi_capacity = 1024, wi_inbox = fmempty, wi_closed = fmempty, wi_seq = fmempty,
     wi_fail = fmempty, wi_delivered = fmempty\<rparr>"

definition ensure_node :: "NodeID \<Rightarrow> Wire \<Rightarrow> Wire" where
  "ensure_node n w =
     (if fmlookup (wi_inbox w) n \<noteq> None then w
      else w\<lparr>wi_inbox := fmupd n [] (wi_inbox w), wi_closed := fmupd n False (wi_closed w)\<rparr>)"

definition ensureLocked :: "NodeID list \<Rightarrow> Wire \<Rightarrow> Wire" where "ensureLocked nodes w = fold ensure_node nodes w"

definition Wire_Register :: "NodeID list \<Rightarrow> Wire \<Rightarrow> Wire" where "Wire_Register nodes w = ensureLocked nodes w"

definition FailNext :: "NodeID \<Rightarrow> int \<Rightarrow> Wire \<Rightarrow> Wire" where
  "FailNext node n w =
     (let w1 = ensureLocked [node] w in w1\<lparr>wi_fail := fmupd node (fm_getd 0 (wi_fail w1) node + n) (wi_fail w1)\<rparr>)"

definition Delivered :: "NodeID \<Rightarrow> Wire \<Rightarrow> int" where "Delivered node w = fm_getd 0 (wi_delivered w) node"

section \<open>Connections\<close>

record Conn =
  cn_local :: NodeID
  cn_remote :: NodeID
  cn_closed :: bool

definition Dial :: "NodeID \<Rightarrow> NodeID \<Rightarrow> Wire \<Rightarrow> Wire \<times> (transport_error + Conn)" where
  "Dial local remote w =
     (if local = [] \<or> remote = [] then (w, Err DialInvalid)
      else (let w1 = ensureLocked [local, remote] w in
        if fm_getd False (wi_closed w1) local \<or> fm_getd False (wi_closed w1) remote then (w1, Err ErrClosed)
        else (w1, Ok \<lparr>cn_local = local, cn_remote = remote, cn_closed = False\<rparr>)))"

text \<open>The envelope a message is sent in: empty addresses are filled in.\<close>

definition address :: "Conn \<Rightarrow> Message \<Rightarrow> Message" where
  "address c msg =
     (let m1 = (if ms_From msg = [] then msg\<lparr>ms_From := cn_local c\<rparr> else msg)
      in if ms_To m1 = [] then m1\<lparr>ms_To := cn_remote c\<rparr> else m1)"

definition Conn_Send :: "Conn \<Rightarrow> Message \<Rightarrow> Wire \<Rightarrow> Wire \<times> transport_error option" where
  "Conn_Send c msg w =
     (if cn_closed c \<or> fm_getd False (wi_closed w) (cn_local c) then (w, Some ErrClosed)
      else (let m = address c msg in
        if ms_From m \<noteq> cn_local c \<or> ms_To m \<noteq> cn_remote c then (w, Some NotAddressed)
        else if 0 < fm_getd 0 (wi_fail w) (cn_remote c) then
          (w\<lparr>wi_fail := fmupd (cn_remote c) (fm_getd 0 (wi_fail w) (cn_remote c) - 1) (wi_fail w)\<rparr>, Some ErrDropped)
        else (case fmlookup (wi_inbox w) (cn_remote c) of
            None \<Rightarrow> (w, Some ErrUnknownPeer)
          | Some q \<Rightarrow>
              if length q < wi_capacity w then (w\<lparr>wi_inbox := fmupd (cn_remote c) (q @ [m]) (wi_inbox w)\<rparr>, None)
              else (w, Some InboxFull))))"

text \<open>
  \<open>ctx_done\<close>: the context ended and the \<open>select\<close> took that case. With an empty inbox, or none, the call waits
  until the context ends.
\<close>

definition Conn_Receive :: "bool \<Rightarrow> Conn \<Rightarrow> Wire \<Rightarrow> Wire \<times> (transport_error + Message)" where
  "Conn_Receive ctx_done c w =
     (if cn_closed c then (w, Err ErrClosed)
      else (case fm_getd [] (wi_inbox w) (cn_local c) of
          [] \<Rightarrow> (w, Err ContextDone)
        | m # q \<Rightarrow>
            if ctx_done then (w, Err ContextDone)
            else (w\<lparr>wi_inbox := fmupd (cn_local c) q (wi_inbox w),
                    wi_delivered := fmupd (cn_local c) (fm_getd 0 (wi_delivered w) (cn_local c) + 1) (wi_delivered w)\<rparr>,
                  Ok m)))"

definition Conn_Close :: "Conn \<Rightarrow> Conn" where "Conn_Close c = c\<lparr>cn_closed := True\<rparr>"

definition NextSeq :: "NodeID \<Rightarrow> NodeID \<Rightarrow> Wire \<Rightarrow> Wire \<times> u64" where
  "NextSeq src dst w =
     (let key = src @ ''->'' @ dst; n = fm_getd 0 (wi_seq w) key + 1
      in (w\<lparr>wi_seq := fmupd key n (wi_seq w)\<rparr>, n))"

section \<open>Runs of the wire\<close>

datatype wire_op = OpRegister "NodeID list" | OpFailNext NodeID int | OpDial NodeID NodeID
  | OpSend Conn Message | OpReceive bool Conn | OpNextSeq NodeID NodeID

text \<open>A run keeps the messages accepted for each node and the messages each node received, in order.\<close>

type_synonym wire_trace = "Wire \<times> (NodeID \<times> Message) list \<times> (NodeID \<times> Message) list"

fun wire_step :: "wire_op \<Rightarrow> wire_trace \<Rightarrow> wire_trace" where
  "wire_step (OpRegister ns) (w, sent, got) = (Wire_Register ns w, sent, got)"
| "wire_step (OpFailNext n k) (w, sent, got) = (FailNext n k w, sent, got)"
| "wire_step (OpDial a b) (w, sent, got) = (fst (Dial a b w), sent, got)"
| "wire_step (OpSend c msg) (w, sent, got) =
     (case Conn_Send c msg w of (w1, None) \<Rightarrow> (w1, sent @ [(cn_remote c, address c msg)], got) | (w1, Some _) \<Rightarrow> (w1, sent, got))"
| "wire_step (OpReceive d c) (w, sent, got) =
     (case Conn_Receive d c w of (w1, Inr m) \<Rightarrow> (w1, sent, got @ [(cn_local c, m)]) | (w1, Inl _) \<Rightarrow> (w1, sent, got))"
| "wire_step (OpNextSeq a b) (w, sent, got) = (fst (NextSeq a b w), sent, got)"

definition of_node :: "NodeID \<Rightarrow> (NodeID \<times> Message) list \<Rightarrow> Message list" where
  "of_node n ms = map snd (filter (\<lambda>x. fst x = n) ms)"

lemma of_node_simps [simp]: "of_node n [] = []" "of_node n (a @ b) = of_node n a @ of_node n b"
  "of_node n (x # ms) = (if fst x = n then snd x # of_node n ms else of_node n ms)"
  by (simp_all add: of_node_def)

definition wire_ok :: "wire_trace \<Rightarrow> bool" where
  "wire_ok t \<longleftrightarrow> (case t of (w, sent, got) \<Rightarrow> wi_capacity w = 1024
     \<and> (\<forall>n. of_node n sent = of_node n got @ fm_getd [] (wi_inbox w) n
          \<and> length (fm_getd [] (wi_inbox w) n) \<le> 1024
          \<and> Delivered n w = int (length (of_node n got)))
     \<and> list_all (\<lambda>(n, m). ms_To m = n) sent)"

lemma ensure_node_fields [simp]:
  "wi_capacity (ensure_node n w) = wi_capacity w" "wi_delivered (ensure_node n w) = wi_delivered w"
  "fm_getd [] (wi_inbox (ensure_node n w)) k = fm_getd [] (wi_inbox w) k"
  by (auto simp: ensure_node_def fm_getd_def)

lemma ensureLocked_fields [simp]:
  "wi_capacity (ensureLocked ns w) = wi_capacity w" "wi_delivered (ensureLocked ns w) = wi_delivered w"
  "fm_getd [] (wi_inbox (ensureLocked ns w)) k = fm_getd [] (wi_inbox w) k"
  unfolding ensureLocked_def by (induction ns arbitrary: w) simp_all

lemma wire_ok_quiet:
  assumes "wire_ok (w, sent, got)" and "wi_capacity w1 = wi_capacity w" and "wi_delivered w1 = wi_delivered w"
    and "\<And>k. fm_getd [] (wi_inbox w1) k = fm_getd [] (wi_inbox w) k"
  shows "wire_ok (w1, sent, got)"
  using assms by (simp add: wire_ok_def Delivered_def)

lemma wire_ok_step: "wire_ok t \<Longrightarrow> wire_ok (wire_step op t)"
proof (induction op t rule: wire_step.induct)
  case (1 ns w sent got)
  then show ?case by (auto simp: Wire_Register_def intro: wire_ok_quiet)
next
  case (2 n k w sent got)
  then show ?case by (auto simp: FailNext_def Let_def intro: wire_ok_quiet)
next
  case (3 a b w sent got)
  then show ?case by (auto simp: Dial_def Let_def intro: wire_ok_quiet)
next
  case (4 c msg w sent got)
  show ?case
  proof (cases "snd (Conn_Send c msg w)")
    case None
    then obtain q where q: "fmlookup (wi_inbox w) (cn_remote c) = Some q" "length q < wi_capacity w"
      "Conn_Send c msg w = (w\<lparr>wi_inbox := fmupd (cn_remote c) (q @ [address c msg]) (wi_inbox w)\<rparr>, None)"
      "ms_To (address c msg) = cn_remote c"
      by (auto simp: Conn_Send_def Let_def split: if_splits option.splits)
    with 4 show ?thesis by (auto simp: wire_ok_def Delivered_def)
  next
    case (Some e)
    have "wi_capacity (fst (Conn_Send c msg w)) = wi_capacity w \<and> wi_delivered (fst (Conn_Send c msg w)) = wi_delivered w
        \<and> wi_inbox (fst (Conn_Send c msg w)) = wi_inbox w"
      using Some by (auto simp: Conn_Send_def Let_def split: if_splits option.splits)
    with 4 Some show ?thesis by (auto intro: wire_ok_quiet split: prod.splits option.splits)
  qed
next
  case (5 d c w sent got)
  show ?case
  proof (cases "snd (Conn_Receive d c w)")
    case (Inl e)
    then have "fst (Conn_Receive d c w) = w" by (auto simp: Conn_Receive_def split: if_splits list.splits)
    with 5 Inl show ?thesis by (auto split: prod.splits sum.splits)
  next
    case (Inr m)
    then obtain q where q: "fm_getd [] (wi_inbox w) (cn_local c) = m # q"
      "Conn_Receive d c w = (w\<lparr>wi_inbox := fmupd (cn_local c) q (wi_inbox w),
         wi_delivered := fmupd (cn_local c) (fm_getd 0 (wi_delivered w) (cn_local c) + 1) (wi_delivered w)\<rparr>, Ok m)"
      by (auto simp: Conn_Receive_def split: if_splits list.splits)
    have "length q \<le> 1024" using 5 q(1) by (auto simp: wire_ok_def dest: spec [where x = "cn_local c"])
    with 5 q show ?thesis by (auto simp: wire_ok_def Delivered_def)
  qed
next
  case (6 a b w sent got)
  then show ?case by (auto simp: NextSeq_def Let_def intro: wire_ok_quiet)
qed

text \<open>
  C13. The wire is a bounded first-in first-out channel per node: after any sequence of registrations, dials,
  injected failures, sends and receives over any connections, the messages accepted for a node are the ones
  it received, in the same order, followed by the ones in its inbox; nothing is duplicated or invented; the
  inbox never holds more than 1024 messages, the delivery counter counts the receipts, and every accepted
  message carries the node as its addressee.
\<close>

theorem wire_fifo:
  "(case fold wire_step ops (NewWire, [], []) of (w, sent, got) \<Rightarrow>
      of_node n sent = of_node n got @ fm_getd [] (wi_inbox w) n
    \<and> length (fm_getd [] (wi_inbox w) n) \<le> 1024
    \<and> Delivered n w = int (length (of_node n got))
    \<and> list_all (\<lambda>(k, m). ms_To m = k) sent)"
proof -
  have "wire_ok t \<Longrightarrow> wire_ok (fold wire_step ops t)" for t
    by (induction ops arbitrary: t) (simp_all add: wire_ok_step)
  then have "wire_ok (fold wire_step ops (NewWire, [], []))"
    by (simp add: wire_ok_def NewWire_def Delivered_def)
  then show ?thesis by (auto simp: wire_ok_def)
qed

end
