(* ===== verification/SyncIdentity.thy ===== *)
theory SyncIdentity
  imports SyncTypes
begin

text \<open>
  \<open>sync/identity/identity.go\<close>: key pairs, pairing tokens and the mutual challenge-response. The
  primitives of Go's crypto packages are parameters: \<open>hash\<close> is the hex SHA-256 of \<open>sync/types.go\<close>,
  \<open>mac\<close> the hex HMAC-SHA256 of a key and a message, \<open>new_key\<close>, \<open>sign\<close> and \<open>verify\<close> are Ed25519.
  \<open>fmt\<close> prints a time in UTC as RFC 3339 with nanoseconds. Random nonces are arguments.
\<close>

section \<open>Identities\<close>

definition byte_of :: "char \<Rightarrow> 8 word" where "byte_of c = of_nat (of_char c)"
definition str_bytes :: "string \<Rightarrow> bytes" where "str_bytes s = map byte_of s"

record KeyPair =
  kp_Private :: bytes
  kp_Public :: bytes

definition Generate :: "(bytes \<Rightarrow> bytes) \<Rightarrow> (bytes \<Rightarrow> KeyPair) \<Rightarrow> string \<Rightarrow> KeyPair" where
  "Generate sha new_key seed = new_key (sha (str_bytes (''aa-sync-identity:'' @ seed)))"

definition Fingerprint :: "(bytes \<Rightarrow> string) \<Rightarrow> bytes \<Rightarrow> NodeID" where
  "Fingerprint hash pub = take 16 (hash pub)"

record Node =
  nd_ID :: NodeID
  nd_Public :: bytes
  nd_Name :: string
  nd_key :: "KeyPair option"

definition NewNode :: "(bytes \<Rightarrow> string) \<Rightarrow> KeyPair \<Rightarrow> string \<Rightarrow> Node" where
  "NewNode hash kp name =
     \<lparr>nd_ID = Fingerprint hash (kp_Public kp), nd_Public = kp_Public kp, nd_Name = name, nd_key = Some kp\<rparr>"

definition Remote :: "(bytes \<Rightarrow> string) \<Rightarrow> bytes \<Rightarrow> string \<Rightarrow> Node" where
  "Remote hash pub name = \<lparr>nd_ID = Fingerprint hash pub, nd_Public = pub, nd_Name = name, nd_key = None\<rparr>"

record Peer =
  pe_ID :: NodeID
  pe_Name :: string

definition Node_Peer :: "Node \<Rightarrow> Peer" where "Node_Peer n = \<lparr>pe_ID = nd_ID n, pe_Name = nd_Name n\<rparr>"

definition HasPrivate :: "Node \<Rightarrow> bool" where "HasPrivate n \<longleftrightarrow> nd_key n \<noteq> None"

datatype auth_error = AuthInvalid | ErrUnauthorized | ErrStale

section \<open>Pairing tokens\<close>

record Token =
  tk_Value :: string
  tk_Node :: NodeID
  tk_ExpiresAt :: time

record PairingService =
  ps_secret :: bytes
  ps_used :: "string list"

definition NewPairingService :: "string \<Rightarrow> PairingService" where
  "NewPairingService secret = \<lparr>ps_secret = str_bytes secret, ps_used = []\<rparr>"

definition token_mac :: "(bytes \<Rightarrow> bytes \<Rightarrow> string) \<Rightarrow> (time \<Rightarrow> string) \<Rightarrow> PairingService \<Rightarrow> NodeID \<Rightarrow> time \<Rightarrow> string" where
  "token_mac mac fmt s node expires = mac (ps_secret s) (str_bytes node @ str_bytes (fmt expires))"

definition Issue ::
  "(bytes \<Rightarrow> bytes \<Rightarrow> string) \<Rightarrow> (time \<Rightarrow> string) \<Rightarrow> PairingService \<Rightarrow> time \<Rightarrow> NodeID \<Rightarrow> int \<Rightarrow> Token" where
  "Issue mac fmt s now remote ttl =
     (let expires = now + ttl
      in \<lparr>tk_Value = token_mac mac fmt s remote expires, tk_Node = remote, tk_ExpiresAt = expires\<rparr>)"

definition Pairing_Accept ::
  "(bytes \<Rightarrow> bytes \<Rightarrow> string) \<Rightarrow> (time \<Rightarrow> string) \<Rightarrow> time \<Rightarrow> Token \<Rightarrow> NodeID \<Rightarrow> PairingService \<Rightarrow>
     PairingService \<times> auth_error option" where
  "Pairing_Accept mac fmt now token claimer s =
     (if tk_Value token = [] \<or> tk_Node token = [] \<or> claimer = [] then (s, Some AuthInvalid)
      else if tk_Node token \<noteq> claimer then (s, Some ErrUnauthorized)
      else if \<not> now < tk_ExpiresAt token then (s, Some ErrStale)
      else if token_mac mac fmt s (tk_Node token) (tk_ExpiresAt token) \<noteq> tk_Value token then (s, Some ErrUnauthorized)
      else if tk_Value token \<in> set (ps_used s) then (s, Some ErrStale)
      else (s\<lparr>ps_used := tk_Value token # ps_used s\<rparr>, None))"

text \<open>A history of calls of \<open>Accept\<close>, each with the time of the call, and which of them were accepted.\<close>

type_synonym accept_call = "time \<times> Token \<times> NodeID"

fun accept_run ::
  "(bytes \<Rightarrow> bytes \<Rightarrow> string) \<Rightarrow> (time \<Rightarrow> string) \<Rightarrow> PairingService \<Rightarrow> accept_call list \<Rightarrow>
     PairingService \<times> bool list" where
  "accept_run mac fmt s [] = (s, [])"
| "accept_run mac fmt s ((now, token, claimer) # calls) =
     (let (s1, e) = Pairing_Accept mac fmt now token claimer s; (s2, oks) = accept_run mac fmt s1 calls
      in (s2, (e = None) # oks))"

text \<open>The token was made with the secret for the claimer, and its time is not over.\<close>

definition admits :: "(bytes \<Rightarrow> bytes \<Rightarrow> string) \<Rightarrow> (time \<Rightarrow> string) \<Rightarrow> PairingService \<Rightarrow> accept_call \<Rightarrow> bool" where
  "admits mac fmt s c \<longleftrightarrow> (case c of (now, token, claimer) \<Rightarrow> tk_Value token \<noteq> [] \<and> claimer \<noteq> []
     \<and> tk_Node token = claimer \<and> now < tk_ExpiresAt token
     \<and> tk_Value token = token_mac mac fmt s claimer (tk_ExpiresAt token))"

abbreviation call_value :: "accept_call \<Rightarrow> string" where "call_value c \<equiv> tk_Value (fst (snd c))"

lemma Pairing_Accept_eq:
  "Pairing_Accept mac fmt now token claimer s =
     (if admits mac fmt s (now, token, claimer) \<and> tk_Value token \<notin> set (ps_used s)
      then (s\<lparr>ps_used := tk_Value token # ps_used s\<rparr>, None)
      else (s, snd (Pairing_Accept mac fmt now token claimer s)))"
  "snd (Pairing_Accept mac fmt now token claimer s) = None \<longleftrightarrow>
     admits mac fmt s (now, token, claimer) \<and> tk_Value token \<notin> set (ps_used s)"
  by (auto simp: Pairing_Accept_def admits_def)

lemma admits_used [simp]: "admits mac fmt (s\<lparr>ps_used := u\<rparr>) c = admits mac fmt s c"
  by (simp add: admits_def token_mac_def split: prod.splits)

lemma accept_run_nth:
  "i < length calls \<Longrightarrow> length (snd (accept_run mac fmt s calls)) = length calls \<and>
     (snd (accept_run mac fmt s calls) ! i \<longleftrightarrow> admits mac fmt s (calls ! i) \<and> call_value (calls ! i) \<notin> set (ps_used s)
        \<and> (\<forall>j<i. \<not> (admits mac fmt s (calls ! j) \<and> call_value (calls ! j) = call_value (calls ! i))))"
proof (induction calls arbitrary: s i)
  case (Cons c calls)
  obtain now token claimer where c: "c = (now, token, claimer)" by (cases c)
  define s1 where "s1 = fst (Pairing_Accept mac fmt now token claimer s)"
  have s1: "s1 = (if admits mac fmt s c \<and> call_value c \<notin> set (ps_used s)
      then s\<lparr>ps_used := call_value c # ps_used s\<rparr> else s)"
    unfolding s1_def c by (subst Pairing_Accept_eq(1)) simp
  then have adm: "admits mac fmt s1 x = admits mac fmt s x" for x by simp
  have run: "snd (accept_run mac fmt s (c # calls)) =
      (admits mac fmt s c \<and> call_value c \<notin> set (ps_used s)) # snd (accept_run mac fmt s1 calls)"
    by (simp add: c s1_def Pairing_Accept_eq(2) case_prod_beta Let_def)
  have len: "length (snd (accept_run mac fmt s1 calls)) = length calls"
    using Cons.IH [of 0 s1] by (cases calls) simp_all
  show ?case
  proof (cases i)
    case 0
    then show ?thesis by (simp add: run len)
  next
    case (Suc k)
    with Cons.prems have "k < length calls" by simp
    from Cons.IH [OF this, of s1] show ?thesis
      unfolding run Suc adm by (auto simp: s1 less_Suc_eq_0_disj)
  qed
qed simp

text \<open>
  C30. A pairing token works once, for its node, before it expires: in any history of \<open>Accept\<close> calls on a new
  service, a call is accepted exactly when its token carries the MAC of its node and expiry under the
  service's secret, the claimer is that node, the time is not over, and no earlier call of the history
  presented the same value validly. In particular no value is accepted twice, and a token the service
  issued for a node is accepted there the first time.
\<close>

theorem pairing_single_use:
  assumes "i < length calls"
  shows "(let s = NewPairingService secret; ok = snd (accept_run mac fmt s calls) in
      (ok ! i \<longleftrightarrow> admits mac fmt s (calls ! i)
         \<and> list_all (\<lambda>c. admits mac fmt s c \<longrightarrow> call_value c \<noteq> call_value (calls ! i)) (take i calls))
    \<and> (\<forall>now later remote ttl. calls ! i = (later, Issue mac fmt s now remote ttl, remote) \<longrightarrow>
         later < now + ttl \<and> remote \<noteq> [] \<and> token_mac mac fmt s remote (now + ttl) \<noteq> [] \<longrightarrow>
         list_all (\<lambda>c. call_value c \<noteq> call_value (calls ! i)) (take i calls) \<longrightarrow> ok ! i))"
proof -
  have "list_all P (take i calls) \<longleftrightarrow> (\<forall>j<i. P (calls ! j))" for P
    using assms by (auto simp: list_all_length)
  then show ?thesis
    using accept_run_nth [OF assms, of mac fmt "NewPairingService secret"]
    by (auto simp: NewPairingService_def Let_def admits_def Issue_def)
qed

section \<open>Challenge and response\<close>

definition challengeFor :: "NodeID \<Rightarrow> NodeID \<Rightarrow> bytes \<Rightarrow> bytes" where
  "challengeFor a b nonce = str_bytes (''aa-sync-auth:'' @ a @ '':'' @ b @ '':'') @ nonce"

definition Respond :: "(bytes \<Rightarrow> bytes \<Rightarrow> bytes) \<Rightarrow> Node \<Rightarrow> NodeID \<Rightarrow> bytes \<Rightarrow> auth_error + bytes" where
  "Respond sign local peer nonce =
     (case nd_key local of None \<Rightarrow> Err ErrUnauthorized
      | Some k \<Rightarrow> Ok (sign (kp_Private k) (challengeFor peer (nd_ID local) nonce)))"

definition Verify :: "(bytes \<Rightarrow> bytes \<Rightarrow> bytes \<Rightarrow> bool) \<Rightarrow> Node \<Rightarrow> NodeID \<Rightarrow> bytes \<Rightarrow> bytes \<Rightarrow> auth_error option" where
  "Verify verify peer local nonce sig =
     (if length sig \<noteq> 64 then Some ErrUnauthorized
      else if \<not> verify (nd_Public peer) (challengeFor local (nd_ID peer) nonce) sig then Some ErrUnauthorized
      else None)"

record Pairing =
  pr_Local :: Peer
  pr_Remote :: Peer
  pr_PairedAt :: time

definition MutualAuthWithNonces ::
  "(bytes \<Rightarrow> bytes \<Rightarrow> bytes) \<Rightarrow> (bytes \<Rightarrow> bytes \<Rightarrow> bytes \<Rightarrow> bool) \<Rightarrow> Node \<Rightarrow> Node \<Rightarrow> bytes \<Rightarrow> bytes \<Rightarrow> time \<Rightarrow>
     auth_error + Pairing" where
  "MutualAuthWithNonces sign verify a b nonceA nonceB now =
     (if \<not> HasPrivate a \<or> \<not> HasPrivate b then Err ErrUnauthorized
      else (case Respond sign a (nd_ID b) nonceB of Inl e \<Rightarrow> Err e
      | Inr sigA \<Rightarrow> (case Verify verify a (nd_ID b) nonceB sigA of Some e \<Rightarrow> Err e
      | None \<Rightarrow> (case Respond sign b (nd_ID a) nonceA of Inl e \<Rightarrow> Err e
      | Inr sigB \<Rightarrow> (case Verify verify b (nd_ID a) nonceA sigB of Some e \<Rightarrow> Err e
      | None \<Rightarrow> Ok \<lparr>pr_Local = Node_Peer a, pr_Remote = Node_Peer b, pr_PairedAt = now\<rparr>)))))"

text \<open>\<open>MutualAuth\<close>: the nonces come from the random source, which can fail.\<close>

definition MutualAuth ::
  "(bytes \<Rightarrow> bytes \<Rightarrow> bytes) \<Rightarrow> (bytes \<Rightarrow> bytes \<Rightarrow> bytes \<Rightarrow> bool) \<Rightarrow> (auth_error + bytes) \<Rightarrow> (auth_error + bytes) \<Rightarrow>
     Node \<Rightarrow> Node \<Rightarrow> time \<Rightarrow> auth_error + Pairing" where
  "MutualAuth sign verify na nb a b now =
     (case na of Inl e \<Rightarrow> Err e | Inr nonceA \<Rightarrow>
     (case nb of Inl e \<Rightarrow> Err e | Inr nonceB \<Rightarrow> MutualAuthWithNonces sign verify a b nonceA nonceB now))"

text \<open>Node ids are fingerprints, which contain no colon.\<close>

lemma str_bytes_append [simp]: "str_bytes (a @ b) = str_bytes a @ str_bytes b"
  by (simp add: str_bytes_def)

lemma byte_of_inject [simp]: "byte_of c = byte_of d \<longleftrightarrow> c = d"
proof
  assume eq: "byte_of c = byte_of d"
  have "(of_char x :: nat) < 256" for x using range_nat_of_char by (metis atLeastLessThan_iff rangeI)
  then have "unat (byte_of x) = of_char x" for x by (simp add: byte_of_def unat_of_nat)
  with eq have "(of_char c :: nat) = of_char d" by metis
  then show "c = d" by simp
qed simp

lemma str_bytes_inject [simp]: "str_bytes a = str_bytes b \<longleftrightarrow> a = b"
  by (simp add: str_bytes_def inj_map_eq_map inj_def)

lemma challenge_binds:
  assumes "CHR '':'' \<notin> set a" "CHR '':'' \<notin> set b" "CHR '':'' \<notin> set a'" "CHR '':'' \<notin> set b'"
  shows "challengeFor a b n = challengeFor a' b' n' \<longleftrightarrow> a = a' \<and> b = b' \<and> n = n'"
proof -
  let ?x = "byte_of (CHR '':'')"
  have nx: "CHR '':'' \<notin> set s \<Longrightarrow> ?x \<notin> set (str_bytes s)" for s
    by (auto simp: str_bytes_def)
  have "str_bytes (''aa-sync-auth:'' @ a @ '':'' @ b @ '':'') @ n =
      str_bytes ''aa-sync-auth:'' @ str_bytes a @ ?x # (str_bytes b @ ?x # n)" for a b n
    by (simp add: str_bytes_def)
  then show ?thesis using assms by (simp add: challengeFor_def split_first nx del: str_bytes_append)
qed

text \<open>The documented behaviour of Ed25519: signatures have 64 bytes and verify under the public key.\<close>

definition scheme_ok :: "(bytes \<Rightarrow> bytes \<Rightarrow> bytes) \<Rightarrow> (bytes \<Rightarrow> bytes \<Rightarrow> bytes \<Rightarrow> bool) \<Rightarrow> KeyPair \<Rightarrow> bool" where
  "scheme_ok sign verify k \<longleftrightarrow> (\<forall>m. length (sign (kp_Private k) m) = 64
     \<and> verify (kp_Public k) m (sign (kp_Private k) m))"

text \<open>
  Mutual authentication of local nodes succeeds, with the two peers as the pairing, exactly when both
  hold a private key; a verified signature is for the challenge of its own channel: for node ids without a
  colon, the challenge determines both ids and the nonce, so it is never the challenge of another pair of
  nodes, of the opposite direction or of another nonce.
\<close>

lemma mutual_auth:
  assumes "\<And>k. nd_key a = Some k \<Longrightarrow> nd_Public a = kp_Public k \<and> scheme_ok sign verify k"
    and "\<And>k. nd_key b = Some k \<Longrightarrow> nd_Public b = kp_Public k \<and> scheme_ok sign verify k"
    and "CHR '':'' \<notin> set (nd_ID a) \<union> set (nd_ID b) \<union> set c \<union> set d"
  shows "MutualAuthWithNonces sign verify a b nonceA nonceB now =
      (if HasPrivate a \<and> HasPrivate b
       then Ok \<lparr>pr_Local = Node_Peer a, pr_Remote = Node_Peer b, pr_PairedAt = now\<rparr> else Err ErrUnauthorized)
    \<and> (Respond sign a (nd_ID b) nonceB = Ok sig \<longrightarrow> Verify verify a (nd_ID b) nonceB sig = None)
    \<and> (challengeFor (nd_ID b) (nd_ID a) nonceB = challengeFor c d n \<longleftrightarrow> c = nd_ID b \<and> d = nd_ID a \<and> n = nonceB)"
proof -
  have "Respond sign a p n = Ok s \<Longrightarrow> Verify verify a p n s = None" for p n s
    using assms(1) by (auto simp: Respond_def Verify_def scheme_ok_def split: option.splits)
  moreover have "Respond sign b p n = Ok s \<Longrightarrow> Verify verify b p n s = None" for p n s
    using assms(2) by (auto simp: Respond_def Verify_def scheme_ok_def split: option.splits)
  moreover have "HasPrivate x \<Longrightarrow> Respond sign x p n \<noteq> Err e" for x p n e
    by (auto simp: HasPrivate_def Respond_def)
  ultimately have "MutualAuthWithNonces sign verify a b nonceA nonceB now =
      (if HasPrivate a \<and> HasPrivate b
       then Ok \<lparr>pr_Local = Node_Peer a, pr_Remote = Node_Peer b, pr_PairedAt = now\<rparr> else Err ErrUnauthorized)"
    unfolding MutualAuthWithNonces_def by (auto split: sum.splits option.splits)
  moreover have "challengeFor (nd_ID b) (nd_ID a) nonceB = challengeFor c d n \<longleftrightarrow> c = nd_ID b \<and> d = nd_ID a \<and> n = nonceB"
    using challenge_binds [of "nd_ID b" "nd_ID a" c d nonceB n] assms(3) by auto
  moreover have "Respond sign a (nd_ID b) nonceB = Ok sig \<Longrightarrow> Verify verify a (nd_ID b) nonceB sig = None"
    using assms(1) by (auto simp: Respond_def Verify_def scheme_ok_def split: option.splits)
  ultimately show ?thesis by blast
qed

section \<open>Concrete instances\<close>

definition ex_mac :: "bytes \<Rightarrow> bytes \<Rightarrow> string" where "ex_mac k m = itoa (length m)"
definition ex_fmt :: "time \<Rightarrow> string" where "ex_fmt t = itoa_int t"

theorem pairing_single_use_witness:
  "snd (accept_run ex_mac ex_fmt (NewPairingService ''k'')
     [(0, Issue ex_mac ex_fmt (NewPairingService ''k'') 0 ''n'' 5, ''n''),
      (1, Issue ex_mac ex_fmt (NewPairingService ''k'') 0 ''n'' 5, ''n'')]) ! 1 = False"
proof -
  let ?c = "\<lambda>t::time. (t, Issue ex_mac ex_fmt (NewPairingService ''k'') 0 ''n'' 5, ''n'')"
  have "admits ex_mac ex_fmt (NewPairingService ''k'') (?c 0)"
    by (simp add: admits_def Issue_def Let_def token_mac_def ex_mac_def)
  then show ?thesis
    using pairing_single_use [of 1 "[?c 0, ?c 1]" "''k''" ex_mac ex_fmt] by (simp add: Let_def)
qed

definition ex_sign :: "bytes \<Rightarrow> bytes \<Rightarrow> bytes" where "ex_sign k m = take 64 (k @ m @ replicate 64 0)"
definition ex_verify :: "bytes \<Rightarrow> bytes \<Rightarrow> bytes \<Rightarrow> bool" where "ex_verify p m s \<longleftrightarrow> s = ex_sign p m"
definition ex_node :: "string \<Rightarrow> Node" where
  "ex_node name = \<lparr>nd_ID = name, nd_Public = [1], nd_Name = name, nd_key = Some \<lparr>kp_Private = [1], kp_Public = [1]\<rparr>\<rparr>"

end
