(* ===== verification/SyncDistribute.thy ===== *)
theory SyncDistribute
  imports SyncTransfer Texts "HOL-Library.Sublist"
begin

text \<open>
  \<open>sync/distribute/distribute.go\<close> with \<open>sync/idempotency.go\<close> and \<open>sync/clock.go\<close>: distribution of work
  packages and fetching of artifacts over a connection. What one endpoint sees of its connection is a
  \<open>Link\<close>: whether dialing succeeds, how many of its frames the connection takes before a send fails, and
  the frames that arrive before \<open>Receive\<close> returns an error. A bad body is not modelled (JSON). Strings
  are UTF-8 bytes, as in Go.
\<close>

section \<open>Idempotency keys\<close>

definition Key :: "string \<Rightarrow> string list \<Rightarrow> string" where
  "Key operation parts = strings_Join '':'' (trim_space operation # map trim_space parts)"

definition TransferKey :: "string \<Rightarrow> string \<Rightarrow> NodeID \<Rightarrow> string" where
  "TransferKey kind objectID node = Key kind [objectID, node]"

lemma TransferKey_inject:
  assumes "CHR '':'' \<notin> set node" and "CHR '':'' \<notin> set node'"
  shows "TransferKey kind i node = TransferKey kind i' node' \<longleftrightarrow>
    trim_space i = trim_space i' \<and> trim_space node = trim_space node'"
proof -
  have n: "CHR '':'' \<notin> set (trim_space node)" "CHR '':'' \<notin> set (trim_space node')"
    using assms set_trim_space by blast+
  have "TransferKey k i n = (trim_space k @ CHR '':'' # trim_space i) @ CHR '':'' # trim_space n" for k i n
    by (simp add: TransferKey_def Key_def)
  then show ?thesis by (simp only: split_last [OF n]) simp
qed

section \<open>The clock\<close>

record FixedClock =
  fc_start :: time
  fc_step :: int
  fc_calls :: int

text \<open>Times are nanoseconds since the epoch.\<close>

definition NewFixedClock :: FixedClock where
  "NewFixedClock = \<lparr>fc_start = 0, fc_step = 1000000000, fc_calls = 0\<rparr>"

definition FixedClock_Now :: "FixedClock \<Rightarrow> FixedClock \<times> time" where
  "FixedClock_Now c = (c\<lparr>fc_calls := fc_calls c + 1\<rparr>, fc_start c + fc_calls c * fc_step c)"

section \<open>Data\<close>

record SyncWorkPackage =
  sw_ID :: string
  sw_ProjectID :: string
  sw_Name :: string
  sw_Payload :: bytes
  sw_Hash :: string

record Artifact =
  ar_ID :: string
  ar_Name :: string
  ar_Size :: int
  ar_Hash :: string

datatype TransferState = TransferPending | TransferActive | TransferComplete | TransferFailed

record Receipt =
  rc_TransferID :: string
  rc_WorkPackageID :: string
  rc_ArtifactID :: string
  rc_NodeID :: NodeID
  rc_State :: TransferState
  rc_Hash :: string
  rc_Bytes :: int
  rc_CreatedAt :: time

datatype dist_frame =
    FHello string Manifest string string  \<comment> \<open>object, manifest, id, name\<close>
  | FRequest string string  \<comment> \<open>object, id\<close>
  | FTransfer frame

fun as_frame :: "dist_frame \<Rightarrow> frame" where
  "as_frame (FTransfer f) = f"
| "as_frame (FHello _ _ _ _) = KindOther ''hello''"
| "as_frame (FRequest _ _) = KindOther ''revision''"

record Link =
  ln_dials :: bool
  ln_accepts :: nat
  ln_frames :: "dist_frame list"

text \<open>Frames sent one after the other, with the error that follows them, over a connection that takes \<open>n\<close> frames.\<close>

definition send_frames :: "nat \<Rightarrow> frame list \<times> sync_error option \<Rightarrow> dist_frame list \<times> sync_error option" where
  "send_frames n out = (case out of (fs, e) \<Rightarrow>
     if n < length fs then (map FTransfer (take n fs), Some ErrTransport) else (map FTransfer fs, e))"

text \<open>\<open>Receiver.Run\<close> with \<open>n\<close> frames accepted: the offer is sent, then the arriving frames are read.\<close>

definition run_receiver ::
  "(bytes \<Rightarrow> string) \<Rightarrow> nat \<Rightarrow> Manifest \<Rightarrow> dist_frame list \<Rightarrow> dist_frame list \<times> (sync_error + bytes)" where
  "run_receiver hash n m arriving =
     (let r = NewReceiver m in
      if n = 0 then ([], Err ErrTransport)
      else ([FTransfer (KindAck (Have r))], snd (recv_loop hash r (map as_frame arriving))))"

section \<open>The distributor\<close>

record Distributor =
  di_clock :: FixedClock
  di_receipts :: "(string, Receipt) fmap"
  di_packages :: "(string, SyncWorkPackage) fmap"
  di_artifacts :: "(string, bytes) fmap"

definition Distributor_New :: "FixedClock \<Rightarrow> Distributor" where
  "Distributor_New c = \<lparr>di_clock = c, di_receipts = fmempty, di_packages = fmempty, di_artifacts = fmempty\<rparr>"

definition Distributor_Register ::
  "(bytes \<Rightarrow> string) \<Rightarrow> SyncWorkPackage \<Rightarrow> Distributor \<Rightarrow> Distributor \<times> sync_error option" where
  "Distributor_Register hash wp d =
     (if sw_ID wp = [] then (d, Some (ErrInvalid ''work package id is required''))
      else (d\<lparr>di_packages := fmupd (sw_ID wp) (wp\<lparr>sw_Hash := hash (sw_Payload wp)\<rparr>) (di_packages d)\<rparr>, None))"

text \<open>\<open>clock.Now\<close> and \<open>store\<close>: the receipt is stamped and kept under its key.\<close>

definition store_receipt :: "string \<Rightarrow> Receipt \<Rightarrow> Distributor \<Rightarrow> Distributor \<times> Receipt" where
  "store_receipt key r d =
     (let (c, now) = FixedClock_Now (di_clock d); r1 = r\<lparr>rc_CreatedAt := now\<rparr>
      in (d\<lparr>di_clock := c, di_receipts := fmupd key r1 (di_receipts d)\<rparr>, r1))"

definition Distribute ::
  "(bytes \<Rightarrow> string) \<Rightarrow> Link \<Rightarrow> SyncWorkPackage \<Rightarrow> NodeID \<Rightarrow> Distributor \<Rightarrow>
     Distributor \<times> dist_frame list \<times> (sync_error + Receipt)" where
  "Distribute hash ln wp remote d =
     (if sw_ID wp = [] \<or> remote = [] then (d, [], Err (ErrInvalid ''work package id and node are required''))
      else (let key = TransferKey ''distribute'' (sw_ID wp) remote in
      case fmlookup (di_receipts d) key of Some r \<Rightarrow> (d, [], Ok r)
      | None \<Rightarrow>
     (let wp1 = wp\<lparr>sw_Hash := hash (sw_Payload wp)\<rparr> in
      case NewSource hash (sw_ID wp) (sw_Name wp) (sw_Payload wp) 0 of Inl e \<Rightarrow> (d, [], Err e)
      | Inr src \<Rightarrow>
      if \<not> ln_dials ln then (d, [], Err ErrTransport)
      else if ln_accepts ln = 0 then (d, [], Err ErrTransport)
      else (let hello = FHello ''workpackage'' (so_Manifest src) (sw_ID wp) (sw_Name wp);
                (fs, e) = send_frames (ln_accepts ln - 1) (Serve src (map as_frame (ln_frames ln)))
            in case e of Some err \<Rightarrow> (d, hello # fs, Err err)
               | None \<Rightarrow>
                (let (d1, r) = store_receipt key
                       \<lparr>rc_TransferID = key, rc_WorkPackageID = sw_ID wp, rc_ArtifactID = [], rc_NodeID = remote,
                        rc_State = TransferComplete, rc_Hash = m_Hash (so_Manifest src),
                        rc_Bytes = m_Size (so_Manifest src), rc_CreatedAt = 0\<rparr>
                       (d\<lparr>di_packages := fmupd (sw_ID wp) wp1 (di_packages d)\<rparr>)
                 in (d1, hello # fs, Ok r))))))"

definition FetchArtifact ::
  "(bytes \<Rightarrow> string) \<Rightarrow> Link \<Rightarrow> string \<Rightarrow> NodeID \<Rightarrow> Distributor \<Rightarrow>
     Distributor \<times> dist_frame list \<times> (sync_error + Receipt)" where
  "FetchArtifact hash ln artifactID remote d =
     (if artifactID = [] \<or> remote = [] then (d, [], Err (ErrInvalid ''artifact id and node are required''))
      else (let key = TransferKey ''artifact'' artifactID remote; req = FRequest ''artifact'' artifactID in
      case fmlookup (di_receipts d) key of Some r \<Rightarrow> (d, [], Ok r)
      | None \<Rightarrow>
      if \<not> ln_dials ln then (d, [], Err ErrTransport)
      else if ln_accepts ln = 0 then (d, [], Err ErrTransport)
      else (case ln_frames ln of
          [] \<Rightarrow> (d, [req], Err ErrTransport)
        | FTransfer KindClose # _ \<Rightarrow> (d, [req], Err (ErrNotFound ''artifact''))
        | FHello obj m i name # arriving \<Rightarrow>
           (case run_receiver hash (ln_accepts ln - 1) m arriving of
              (fs, Inl e) \<Rightarrow> (d, req # fs, Err e)
            | (fs, Inr data) \<Rightarrow>
               (let (d1, r) = store_receipt key
                      \<lparr>rc_TransferID = key, rc_WorkPackageID = [], rc_ArtifactID = artifactID, rc_NodeID = remote,
                       rc_State = TransferComplete, rc_Hash = m_Hash m, rc_Bytes = m_Size m, rc_CreatedAt = 0\<rparr>
                      (d\<lparr>di_artifacts := fmupd artifactID data (di_artifacts d)\<rparr>)
                in (d1, req # fs, Ok r)))
        | _ # _ \<Rightarrow> (d, [req], Err (ErrInvalid ''expected hello'')))))"

definition Distributor_Status :: "NodeID \<Rightarrow> Distributor \<Rightarrow> Receipt list" where
  "Distributor_Status node d =
     sort_key rc_TransferID (filter (\<lambda>r. node = [] \<or> rc_NodeID r = node) (fm_vals (di_receipts d)))"

definition Distributor_Packages :: "Distributor \<Rightarrow> SyncWorkPackage list" where
  "Distributor_Packages d = sort_key sw_ID (fm_vals (di_packages d))"

section \<open>The peer\<close>

record PeerState =
  pr_packages :: "(string, SyncWorkPackage) fmap"
  pr_artifacts :: "(string, Artifact) fmap"
  pr_artifactData :: "(string, bytes) fmap"

definition NewPeer :: PeerState where
  "NewPeer = \<lparr>pr_packages = fmempty, pr_artifacts = fmempty, pr_artifactData = fmempty\<rparr>"

definition Publish :: "(bytes \<Rightarrow> string) \<Rightarrow> Artifact \<Rightarrow> bytes \<Rightarrow> PeerState \<Rightarrow> PeerState \<times> sync_error option" where
  "Publish hash a data p =
     (if ar_ID a = [] then (p, Some (ErrInvalid ''artifact id is required''))
      else (p\<lparr>pr_artifacts := fmupd (ar_ID a) (a\<lparr>ar_Hash := hash data, ar_Size := int (length data)\<rparr>) (pr_artifacts p),
              pr_artifactData := fmupd (ar_ID a) data (pr_artifactData p)\<rparr>, None))"

definition Peer_Serve ::
  "(bytes \<Rightarrow> string) \<Rightarrow> Link \<Rightarrow> PeerState \<Rightarrow> PeerState \<times> dist_frame list \<times> sync_error option" where
  "Peer_Serve hash ln p =
     (if \<not> ln_dials ln then (p, [], Some ErrTransport)
      else (case ln_frames ln of
          [] \<Rightarrow> (p, [], Some ErrTransport)
        | FHello obj m i name # arriving \<Rightarrow>
            if obj \<noteq> ''workpackage'' then (p, [], Some (ErrInvalid ''unexpected object''))
            else (case run_receiver hash (ln_accepts ln) m arriving of
                (fs, Inl e) \<Rightarrow> (p, fs, Some e)
              | (fs, Inr data) \<Rightarrow>
                  (p\<lparr>pr_packages := fmupd i \<lparr>sw_ID = i, sw_ProjectID = [], sw_Name = name, sw_Payload = data,
                      sw_Hash = m_Hash m\<rparr> (pr_packages p)\<rparr>, fs, None))
        | FRequest obj i # arriving \<Rightarrow>
            if obj \<noteq> ''artifact'' then (p, [], Some (ErrInvalid ''unexpected object''))
            else (case fmlookup (pr_artifacts p) i of
                None \<Rightarrow> (p, if 0 < ln_accepts ln then [FTransfer KindClose] else [], Some (ErrNotFound ''artifact''))
              | Some a \<Rightarrow>
                 (case NewSource hash (ar_ID a) (ar_Name a) (fm_getd [] (pr_artifactData p) i) 0 of
                    Inl e \<Rightarrow> (p, [], Some e)
                  | Inr src \<Rightarrow>
                      if ln_accepts ln = 0 then (p, [], Some ErrTransport)
                      else (let hello = FHello ''artifact'' (so_Manifest src) (ar_ID a) (ar_Name a);
                                (fs, e) = send_frames (ln_accepts ln - 1) (Serve src (map as_frame arriving))
                            in (p, hello # fs, e))))
        | FTransfer _ # _ \<Rightarrow> (p, [], Some (ErrInvalid ''unexpected frame''))))"

definition Peer_Packages :: "PeerState \<Rightarrow> SyncWorkPackage list" where
  "Peer_Packages p = sort_key sw_ID (fm_vals (pr_packages p))"

section \<open>Sessions\<close>

lemma Have_new [simp]: "Have (NewReceiver m) = []"
  by (simp add: Have_def NewReceiver_def)

lemma as_frame_FTransfer [simp]: "map as_frame (map FTransfer fs) = fs"
  by (induction fs) simp_all

lemma as_frame_o [simp]: "as_frame \<circ> FTransfer = id"
  by (rule ext) simp

text \<open>What a source sends to a receiver that has nothing yet.\<close>

definition push_all :: "Source \<Rightarrow> frame list" where "push_all s = fst (push s [])"

lemma Serve_push_all:
  assumes "honest_source hash s"
  shows "Serve s (KindAck [] # later) = (push_all s, None)" and "length (push_all s) = Suc (length (m_Chunks (so_Manifest s)))"
  using push_loop_frames [OF assms, of 0 "{}"] by (simp_all add: Serve_def push_def push_all_def)

text \<open>A fresh receiver that gets the first \<open>n\<close> frames of a push.\<close>

lemma fresh_receive:
  assumes h: "honest_source hash s"
  shows "snd (recv_loop hash (NewReceiver (so_Manifest s)) (take n (push_all s))) =
    (if length (m_Chunks (so_Manifest s)) < n then Ok (so_Data s) else Err ErrTransport)"
proof -
  let ?r = "NewReceiver (so_Manifest s)"
  have good: "recv_good s ?r" by (simp add: recv_good_def NewReceiver_def)
  have eq: "recv_loop hash ?r (take n (push_all s)) = Session hash s n ?r" by (simp add: Session_def Serve_def push_all_def)
  show ?thesis
  proof (cases "length (m_Chunks (so_Manifest s)) < n")
    case True
    then show ?thesis unfolding eq using Session_full [OF h good] by simp
  next
    case False
    define js where "js = take n [0..<length (m_Chunks (so_Manifest s))]"
    let ?f = "\<lambda>j. KindChunk (m_Chunks (so_Manifest s) ! j) (chunk_bytes (so_Data s) (m_Chunks (so_Manifest s) ! j))"
    have fs: "take n (push_all s) = map ?f js"
      using push_loop_frames [OF h, of 0 "{}"] False by (simp add: push_all_def push_def js_def take_map)
    have "\<forall>j\<in>set js. j < length (m_Chunks (so_Manifest s))" by (auto simp: js_def dest: in_set_takeD)
    from recv_chunks [OF h good this] obtain r1 where
      "\<forall>fs. recv_loop hash ?r (map ?f js @ fs) = recv_loop hash r1 fs" by blast
    from this [rule_format, of "[]"] show ?thesis using False by (simp add: fs)
  qed
qed

lemma run_receiver_fresh:
  assumes "honest_source hash s"
  shows "run_receiver hash n (so_Manifest s) (map FTransfer (take k (push_all s))) =
    (if n = 0 then ([], Err ErrTransport)
     else ([FTransfer (KindAck [])], if length (m_Chunks (so_Manifest s)) < k then Ok (so_Data s) else Err ErrTransport))"
  by (simp add: run_receiver_def fresh_receive [OF assms])

text \<open>The result of distributing to a peer that offers nothing yet, over a connection that takes every frame.\<close>

definition transfer_receipt :: "(bytes \<Rightarrow> string) \<Rightarrow> SyncWorkPackage \<Rightarrow> NodeID \<Rightarrow> time \<Rightarrow> Receipt" where
  "transfer_receipt hash wp remote now =
     \<lparr>rc_TransferID = TransferKey ''distribute'' (sw_ID wp) remote, rc_WorkPackageID = sw_ID wp, rc_ArtifactID = [],
      rc_NodeID = remote, rc_State = TransferComplete, rc_Hash = hash (sw_Payload wp),
      rc_Bytes = int (length (sw_Payload wp)), rc_CreatedAt = now\<rparr>"

lemma NewSource_manifest:
  "NewSource hash i name data cs = Ok src \<Longrightarrow> m_Hash (so_Manifest src) = hash data \<and> m_Size (so_Manifest src) = int (length data)"
  by (auto simp: NewSource_def Build_def Let_def split: if_splits)

lemma Distribute_fresh:
  assumes "sw_ID wp \<noteq> []" "remote \<noteq> []"
    and new: "fmlookup (di_receipts d) (TransferKey ''distribute'' (sw_ID wp) remote) = None"
    and src: "NewSource hash (sw_ID wp) (sw_Name wp) (sw_Payload wp) 0 = Ok src"
    and ln: "ln_dials ln" "length (m_Chunks (so_Manifest src)) + 2 \<le> ln_accepts ln"
      "ln_frames ln = FTransfer (KindAck []) # later"
  shows "\<exists>d' now. Distribute hash ln wp remote d =
      (d', FHello ''workpackage'' (so_Manifest src) (sw_ID wp) (sw_Name wp) # map FTransfer (push_all src),
       Ok (transfer_receipt hash wp remote now))
    \<and> fmlookup (di_receipts d') (TransferKey ''distribute'' (sw_ID wp) remote) = Some (transfer_receipt hash wp remote now)"
proof -
  have h: "honest_source hash src" by (rule NewSource_honest(1) [OF src])
  have sf: "send_frames (ln_accepts ln - 1) (Serve src (map as_frame (ln_frames ln))) = (map FTransfer (push_all src), None)"
    using ln Serve_push_all [OF h] by (simp add: send_frames_def)
  have acc: "ln_accepts ln \<noteq> 0" using ln(2) by simp
  note m = NewSource_manifest [OF src]
  let ?key = "TransferKey ''distribute'' (sw_ID wp) remote"
  obtain d1 now where sr: "store_receipt ?key
      \<lparr>rc_TransferID = ?key, rc_WorkPackageID = sw_ID wp, rc_ArtifactID = [], rc_NodeID = remote,
       rc_State = TransferComplete, rc_Hash = m_Hash (so_Manifest src), rc_Bytes = m_Size (so_Manifest src), rc_CreatedAt = 0\<rparr>
      (d\<lparr>di_packages := fmupd (sw_ID wp) (wp\<lparr>sw_Hash := hash (sw_Payload wp)\<rparr>) (di_packages d)\<rparr>) =
        (d1, transfer_receipt hash wp remote now)"
    "fmlookup (di_receipts d1) ?key = Some (transfer_receipt hash wp remote now)"
    by (simp add: store_receipt_def FixedClock_Now_def transfer_receipt_def m Let_def)
  have "Distribute hash ln wp remote d =
      (d1, FHello ''workpackage'' (so_Manifest src) (sw_ID wp) (sw_Name wp) # map FTransfer (push_all src),
       Ok (transfer_receipt hash wp remote now))"
    using assms(1,2) ln(1) acc sf sr(1) by (simp add: Distribute_def Let_def src new)
  with sr(2) show ?thesis by blast
qed

lemma Peer_Serve_hello:
  assumes src: "NewSource hash i name data cs = Ok src"
  shows "Peer_Serve hash \<lparr>ln_dials = True, ln_accepts = Suc k,
      ln_frames = take n (FHello ''workpackage'' (so_Manifest src) i name # map FTransfer (push_all src))\<rparr> p =
    (if Suc (length (push_all src)) \<le> n
     then (p\<lparr>pr_packages := fmupd i \<lparr>sw_ID = i, sw_ProjectID = [], sw_Name = name, sw_Payload = data, sw_Hash = hash data\<rparr>
             (pr_packages p)\<rparr>, [FTransfer (KindAck [])], None)
     else (p, if n = 0 then [] else [FTransfer (KindAck [])], Some ErrTransport))"
proof (cases n)
  case (Suc j)
  note h = NewSource_honest(1,2) [OF src]
  have "take n (FHello ''workpackage'' (so_Manifest src) i name # map FTransfer (push_all src)) =
      FHello ''workpackage'' (so_Manifest src) i name # map FTransfer (take j (push_all src))"
    by (simp add: Suc take_map)
  then show ?thesis
    using run_receiver_fresh [OF h(1), of "Suc k" j] h Serve_push_all(2) [OF h(1)] NewSource_manifest [OF src]
    by (simp add: Peer_Serve_def Suc Suc_le_eq)
qed (simp add: Peer_Serve_def)

text \<open>
  C11. Distribution delivers: when the peer's first frame offers nothing and the connection takes all frames,
  \<open>Distribute\<close> of a new package returns a complete receipt with the payload's hash and size, and the peer that
  receives the frames sends exactly that offer, verifies the payload and stores the package with its id,
  name, payload and hash, but without its project, which the frames do not carry.
\<close>

theorem distribute_delivers:
  assumes "sw_ID wp \<noteq> []" and "remote \<noteq> []"
    and "fmlookup (di_receipts d) (TransferKey ''distribute'' (sw_ID wp) remote) = None"
    and "NewSource hash (sw_ID wp) (sw_Name wp) (sw_Payload wp) 0 = Ok src"
    and "ln_dials ln" and "length (m_Chunks (so_Manifest src)) + 2 \<le> ln_accepts ln"
    and "ln_frames ln = FTransfer (KindAck []) # later"
  shows "\<exists>d' sent now. Distribute hash ln wp remote d = (d', sent, Ok (transfer_receipt hash wp remote now))
    \<and> Peer_Serve hash \<lparr>ln_dials = True, ln_accepts = Suc k, ln_frames = sent\<rparr> p =
        (p\<lparr>pr_packages := fmupd (sw_ID wp) (wp\<lparr>sw_ProjectID := [], sw_Hash := hash (sw_Payload wp)\<rparr>) (pr_packages p)\<rparr>,
         [FTransfer (KindAck [])], None)"
proof -
  obtain d' now where "Distribute hash ln wp remote d =
      (d', FHello ''workpackage'' (so_Manifest src) (sw_ID wp) (sw_Name wp) # map FTransfer (push_all src),
       Ok (transfer_receipt hash wp remote now))"
    using Distribute_fresh [OF assms] by blast
  moreover have wp: "wp\<lparr>sw_ProjectID := [], sw_Hash := hash (sw_Payload wp)\<rparr> =
      \<lparr>sw_ID = sw_ID wp, sw_ProjectID = [], sw_Name = sw_Name wp, sw_Payload = sw_Payload wp, sw_Hash = hash (sw_Payload wp)\<rparr>"
    by (cases wp) simp
  ultimately show ?thesis
    unfolding wp
    using Peer_Serve_hello [OF assms(4), of k "Suc (length (push_all src))" p] by (intro exI conjI) simp_all
qed


section \<open>Artifacts\<close>

lemma length_concat_ge: "\<forall>x\<in>set xs. f x \<noteq> [] \<Longrightarrow> length xs \<le> length (concat (map f xs))"
  by (induction xs) (auto simp: Suc_le_eq neq_Nil_conv)

lemma chunks_bounded:
  assumes "honest_source hash s"
  shows "length (m_Chunks (so_Manifest s)) \<le> length (so_Data s)"
proof -
  have "chunk_bytes (so_Data s) c \<noteq> []" if c: "c \<in> set (m_Chunks (so_Manifest s))" for c
  proof -
    obtain j where j: "j < length (m_Chunks (so_Manifest s))" "c = m_Chunks (so_Manifest s) ! j"
      using c by (metis in_set_conv_nth)
    have "chunk_ok hash (so_Data s) c" using assms c by (auto simp: honest_source_def Let_def list_all_iff)
    then show ?thesis using honest_chunk(3) [OF assms j(1)] j(2) by (auto simp: chunk_ok_def)
  qed
  then have "length (m_Chunks (so_Manifest s)) \<le> length (concat (map (chunk_bytes (so_Data s)) (m_Chunks (so_Manifest s))))"
    by (intro length_concat_ge) simp
  then show ?thesis using assms by (simp add: honest_source_def Let_def)
qed

lemma FetchArtifact_fresh:
  assumes "artifactID \<noteq> []" "remote \<noteq> []"
    and "fmlookup (di_receipts d) (TransferKey ''artifact'' artifactID remote) = None"
    and src: "NewSource hash i name data cs = Ok src"
    and "ln_dials ln" "2 \<le> ln_accepts ln" "ln_frames ln = FHello obj (so_Manifest src) i2 name2 # map FTransfer (push_all src)"
  shows "\<exists>d' r. FetchArtifact hash ln artifactID remote d =
      (d', [FRequest ''artifact'' artifactID, FTransfer (KindAck [])], Ok r)
    \<and> fmlookup (di_artifacts d') artifactID = Some data \<and> rc_Hash r = hash data \<and> rc_Bytes r = int (length data)
    \<and> rc_ArtifactID r = artifactID"
proof -
  note h = NewSource_honest(1,2) [OF src]
  have "run_receiver hash (ln_accepts ln - 1) (so_Manifest src) (map FTransfer (push_all src)) =
      ([FTransfer (KindAck [])], Ok data)"
    using run_receiver_fresh [OF h(1), of "ln_accepts ln - 1" "length (push_all src)"] Serve_push_all(2) [OF h(1)] h(2) assms(6)
    by simp
  then show ?thesis
    using assms NewSource_manifest [OF src]
    by (simp add: FetchArtifact_def Let_def store_receipt_def FixedClock_Now_def)
qed

text \<open>
  Fetching delivers a published artifact: the frames the peer sends in answer to the request and the offer
  make \<open>FetchArtifact\<close> keep exactly the published bytes, with a receipt of their hash and size. The names in the
  peer's answer are not looked at: the same bytes are kept under the requested id when the answer names any
  other object or id.
\<close>

lemma fetch_delivers:
  assumes "artifactID \<noteq> []" and "remote \<noteq> []"
    and "fmlookup (di_receipts d) (TransferKey ''artifact'' artifactID remote) = None"
    and "ar_ID a = artifactID" and "Publish hash a data p0 = (p, None)"
    and "length data + 3 \<le> n" and "2 \<le> k"
  shows "\<exists>m frames. Peer_Serve hash \<lparr>ln_dials = True, ln_accepts = n,
        ln_frames = [FRequest ''artifact'' artifactID, FTransfer (KindAck [])]\<rparr> p = (p, FHello ''artifact'' m artifactID (ar_Name a) # frames, None)
    \<and> (\<forall>obj i name. \<exists>d' r. FetchArtifact hash \<lparr>ln_dials = True, ln_accepts = k, ln_frames = FHello obj m i name # frames\<rparr>
          artifactID remote d = (d', [FRequest ''artifact'' artifactID, FTransfer (KindAck [])], Ok r)
        \<and> fmlookup (di_artifacts d') artifactID = Some data \<and> rc_Hash r = hash data \<and> rc_Bytes r = int (length data))"
proof -
  have p: "fmlookup (pr_artifacts p) artifactID = Some (a\<lparr>ar_Hash := hash data, ar_Size := int (length data)\<rparr>)"
    "fmlookup (pr_artifactData p) artifactID = Some data"
    using assms(4,5) by (auto simp: Publish_def split: if_splits)
  obtain src where src: "NewSource hash artifactID (ar_Name a) data 0 = Ok src"
    using assms(1) by (simp add: NewSource_def Build_def Let_def)
  note h = NewSource_honest(1,2) [OF src]
  have "length (m_Chunks (so_Manifest src)) \<le> length data" using chunks_bounded [OF h(1)] h(2) by simp
  then have "send_frames (n - 1) (Serve src [KindAck []]) = (map FTransfer (push_all src), None)"
    using assms(6) Serve_push_all [OF h(1)] by (simp add: send_frames_def)
  then have "Peer_Serve hash \<lparr>ln_dials = True, ln_accepts = n,
        ln_frames = [FRequest ''artifact'' artifactID, FTransfer (KindAck [])]\<rparr> p =
      (p, FHello ''artifact'' (so_Manifest src) artifactID (ar_Name a) # map FTransfer (push_all src), None)"
    using p src assms(4,6) by (simp add: Peer_Serve_def Let_def)
  moreover have "\<exists>d' r. FetchArtifact hash \<lparr>ln_dials = True, ln_accepts = k,
          ln_frames = FHello obj (so_Manifest src) i name # map FTransfer (push_all src)\<rparr>
          artifactID remote d = (d', [FRequest ''artifact'' artifactID, FTransfer (KindAck [])], Ok r)
        \<and> fmlookup (di_artifacts d') artifactID = Some data \<and> rc_Hash r = hash data \<and> rc_Bytes r = int (length data)" for obj i name
    using FetchArtifact_fresh [OF assms(1-3) src, where ln = "\<lparr>ln_dials = True, ln_accepts = k,
          ln_frames = FHello obj (so_Manifest src) i name # map FTransfer (push_all src)\<rparr>"] assms(7) by auto
  ultimately show ?thesis by blast
qed

section \<open>Concrete sessions\<close>

definition ex_wp :: SyncWorkPackage where
  "ex_wp = \<lparr>sw_ID = ''w'', sw_ProjectID = ''p'', sw_Name = ''n'', sw_Payload = [1, 2, 3], sw_Hash = []\<rparr>"

definition ex_link :: Link where
  "ex_link = \<lparr>ln_dials = True, ln_accepts = 5, ln_frames = [FTransfer (KindAck [])]\<rparr>"

lemma ex_wp_source:
  "\<exists>src. NewSource ex_hash (sw_ID ex_wp) (sw_Name ex_wp) (sw_Payload ex_wp) 0 = Ok src
     \<and> length (m_Chunks (so_Manifest src)) + 2 \<le> ln_accepts ex_link"
proof -
  obtain src where src: "NewSource ex_hash ''w'' ''n'' [1, 2, 3] 0 = Ok src"
    by (simp add: NewSource_def Build_def Let_def)
  with chunks_bounded [OF NewSource_honest(1) [OF src]] NewSource_honest(2) [OF src] show ?thesis
    by (simp add: ex_wp_def ex_link_def)
qed

lemma ex_link_ok: "sw_ID ex_wp \<noteq> []" "''r'' \<noteq> []" "ln_dials ex_link" "ln_frames ex_link = FTransfer (KindAck []) # []"
  "fmlookup (di_receipts (Distributor_New NewFixedClock)) (TransferKey ''distribute'' (sw_ID ex_wp) ''r'') = None"
  by (simp_all add: ex_wp_def ex_link_def Distributor_New_def)

theorem distribute_delivers_witness:
  "\<exists>d' sent r p. Distribute ex_hash ex_link ex_wp ''r'' (Distributor_New NewFixedClock) = (d', sent, Ok r)
     \<and> Peer_Serve ex_hash \<lparr>ln_dials = True, ln_accepts = 1, ln_frames = sent\<rparr> NewPeer = (p, [FTransfer (KindAck [])], None)
     \<and> fmlookup (pr_packages p) ''w'' = Some (ex_wp\<lparr>sw_ProjectID := [], sw_Hash := ex_hash [1, 2, 3]\<rparr>)"
proof -
  obtain src where src: "NewSource ex_hash (sw_ID ex_wp) (sw_Name ex_wp) (sw_Payload ex_wp) 0 = Ok src"
    "length (m_Chunks (so_Manifest src)) + 2 \<le> ln_accepts ex_link"
    using ex_wp_source by blast
  have "ex_hash (sw_Payload ex_wp) = ex_hash [1, 2, 3]" "sw_ID ex_wp = ''w''" by (simp_all add: ex_wp_def)
  with distribute_delivers [OF ex_link_ok(1,2,5) src(1) ex_link_ok(3) src(2) ex_link_ok(4), where k = 0 and p = NewPeer]
  show ?thesis by fastforce
qed


end
