(* ===== verification/WorkflowCompile.thy ===== *)
theory WorkflowCompile
  imports Contracts Kahn
begin

text \<open>
  \<open>toolbox/workflow/compile.go\<close>: a declarative workflow is validated and ordered into a plan. The
  maps \<open>steps\<close> and \<open>depends\<close> are finite maps; \<open>topoOrder\<close> ranges over them and sorts what it
  collects, so ranging in key order gives its result. Its loop is \<open>kahn_loop\<close>, and the interface
  \<open>dep_graph\<close> is interpreted on the two maps. The budget is copied: its type is a parameter.
\<close>

section \<open>Plans and errors\<close>

record 'b Plan =
  pn_WorkflowID :: string
  pn_Version :: string
  pn_Budget :: "'b option"
  pn_Order :: "string list"
  pn_Steps :: "(string, WorkflowStep) fmap"
  pn_DependsOn :: "(string, string list) fmap"

datatype compile_error =
    ContractInvalid val_error
  | ToolStepWithoutTool string
  | GateStepWithoutGates string
  | NegativeRetries string
  | ConfigInvalid string
  | SelfDependency string
  | UnknownDependency string string
  | ErrCycle

section \<open>Step configuration\<close>

definition concurrency_check :: "go_any \<Rightarrow> compile_error option" where
  "concurrency_check raw =
     (case raw of
        AInt v \<Rightarrow> if v \<le> 0 then Some (ConfigInvalid ''concurrency must be positive'') else None
      | AInt64 v \<Rightarrow> if v \<le> 0 then Some (ConfigInvalid ''concurrency must be positive'') else None
      | AFloat64 v \<Rightarrow>
          if (case v of Finite r \<Rightarrow> r \<le> 0 | NotFinite s \<Rightarrow> s = ''-Inf'') \<or> \<not> float_integral v
          then Some (ConfigInvalid ''concurrency must be a positive integer'') else None
      | _ \<Rightarrow> Some (ConfigInvalid ''concurrency must be an integer''))"

definition validateParallelConfig :: "config \<Rightarrow> compile_error option" where
  "validateParallelConfig cfg =
     (case fmlookup cfg ''concurrency'' of
        None \<Rightarrow> Some (ConfigInvalid ''missing concurrency'')
      | Some raw \<Rightarrow> concurrency_check raw)"

definition validateConditionalConfig :: "config \<Rightarrow> compile_error option" where
  "validateConditionalConfig cfg =
     (case fmlookup cfg ''condition'' of
        None \<Rightarrow> Some (ConfigInvalid ''missing condition'')
      | Some (AString _) \<Rightarrow> None
      | Some _ \<Rightarrow> Some (ConfigInvalid ''condition must be a string''))"

definition validateStepConfig :: "WorkflowStep \<Rightarrow> compile_error option" where
  "validateStepConfig s =
     (case st_Config s of
        None \<Rightarrow> None
      | Some cfg \<Rightarrow>
          if st_Kind s = ''parallel'' then validateParallelConfig cfg
          else if st_Kind s = ''conditional'' then validateConditionalConfig cfg
          else None)"

section \<open>Dependencies\<close>

text \<open>The loop over \<open>s.DependsOn\<close>; \<open>deps\<close> holds the dependencies seen so far.\<close>

fun deps_loop ::
  "(string, WorkflowStep) fmap \<Rightarrow> string \<Rightarrow> string list \<Rightarrow> string list \<Rightarrow> compile_error + string list" where
  "deps_loop steps k deps [] = Ok deps"
| "deps_loop steps k deps (dep # ds) =
     (if dep = k then Err (SelfDependency k)
      else if fmlookup steps dep = None then Err (UnknownDependency k dep)
      else if dep \<in> set deps then deps_loop steps k deps ds
      else deps_loop steps k (deps @ [dep]) ds)"

definition step_check :: "WorkflowStep \<Rightarrow> compile_error option" where
  "step_check s =
     first_some
      [if st_Kind s = ''tool'' \<and> st_ToolID s = [] then Some (ToolStepWithoutTool (st_ID s)) else None,
       if st_Kind s = ''gate'' \<and> st_Gates s = [] then Some (GateStepWithoutGates (st_ID s)) else None,
       (case st_Retries s of None \<Rightarrow> None | Some r \<Rightarrow> if r < 0 then Some (NegativeRetries (st_ID s)) else None),
       validateStepConfig s]"

fun depends_loop ::
  "(string, WorkflowStep) fmap \<Rightarrow> (string, string list) fmap \<Rightarrow> WorkflowStep list \<Rightarrow>
     compile_error + (string, string list) fmap" where
  "depends_loop steps depends [] = Ok depends"
| "depends_loop steps depends (s # ss) =
     (case step_check s of Some e \<Rightarrow> Err e | None \<Rightarrow>
     (case deps_loop steps (st_ID s) [] (st_DependsOn s) of
        Inl e \<Rightarrow> Err e
      | Inr deps \<Rightarrow> depends_loop steps (fmupd (st_ID s) (sort deps) depends) ss))"

definition steps_map :: "WorkflowStep list \<Rightarrow> (string, WorkflowStep) fmap" where
  "steps_map ss = fold (\<lambda>s. fmupd (st_ID s) s) ss fmempty"

section \<open>The order\<close>

definition topo_indegree ::
  "(string, WorkflowStep) fmap \<Rightarrow> (string, string list) fmap \<Rightarrow> (string, int) fmap" where
  "topo_indegree steps depends =
     fold (\<lambda>k. fmupd k (int (length (fm_getd [] depends k)))) (fm_keys depends)
       (fold (\<lambda>k. fmupd k 0) (fm_keys steps) fmempty)"

definition topo_dependents :: "(string, string list) fmap \<Rightarrow> (string, string list) fmap" where
  "topo_dependents depends = fold (\<lambda>k. fold (add_child k) (fm_getd [] depends k)) (fm_keys depends) fmempty"

definition topoOrder ::
  "(string, WorkflowStep) fmap \<Rightarrow> (string, string list) fmap \<Rightarrow> compile_error + string list" where
  "topoOrder steps depends =
     (let indegree = topo_indegree steps depends;
          out = topo_run (\<lambda>k. sort (fm_getd [] (topo_dependents depends) k)) indegree (fm_keys indegree)
      in if length out \<noteq> card (fmdom' steps) then Err ErrCycle else Ok out)"

definition Compile :: "(string \<Rightarrow> time option) \<Rightarrow> 'b Workflow \<Rightarrow> compile_error + 'b Plan" where
  "Compile parse w =
     (case Workflow_Validate parse w of
        Some e \<Rightarrow> Err (ContractInvalid e)
      | None \<Rightarrow> (let steps = steps_map (wf_Steps w) in
     (case depends_loop steps fmempty (wf_Steps w) of
        Inl e \<Rightarrow> Err e
      | Inr depends \<Rightarrow>
     (case topoOrder steps depends of
        Inl e \<Rightarrow> Err e
      | Inr ord \<Rightarrow>
          Ok \<lparr>pn_WorkflowID = ev_ID (wf_Envelope w), pn_Version = wf_Version w, pn_Budget = wf_Budget w,
              pn_Order = ord, pn_Steps = steps, pn_DependsOn = depends\<rparr>))))"

definition Plan_Step :: "'b Plan \<Rightarrow> string \<Rightarrow> WorkflowStep option" where
  "Plan_Step p k = fmlookup (pn_Steps p) k"

definition Plan_Dependencies :: "'b Plan \<Rightarrow> string \<Rightarrow> string list" where
  "Plan_Dependencies p k = fm_getd [] (pn_DependsOn p) k"

section \<open>The maps\<close>

lemma steps_map_dom: "fmdom' (steps_map ss) = st_ID ` set ss"
proof -
  have "fmdom' (fold (\<lambda>s. fmupd (st_ID s) s) ss m) = fmdom' m \<union> st_ID ` set ss" for m
    by (induction ss arbitrary: m) auto
  then show ?thesis by (simp add: steps_map_def)
qed

lemma steps_map_lookup:
  assumes "distinct (map st_ID ss)" and "s \<in> set ss"
  shows "fmlookup (steps_map ss) (st_ID s) = Some s"
proof -
  have "fmlookup (fold (\<lambda>s. fmupd (st_ID s) s) ss m) (st_ID s) = Some s" for m
    using assms
  proof (induction ss arbitrary: m)
    case (Cons a ss)
    have keep: "st_ID a \<notin> st_ID ` set ss \<Longrightarrow>
        fmlookup (fold (\<lambda>s. fmupd (st_ID s) s) ss m') (st_ID a) = fmlookup m' (st_ID a)" for m'
      by (induction ss arbitrary: m') auto
    show ?case
    proof (cases "s = a")
      case True
      with Cons.prems show ?thesis by (simp add: keep)
    next
      case False
      with Cons show ?thesis by auto
    qed
  qed simp
  then show ?thesis by (simp add: steps_map_def)
qed

lemma deps_loop_spec:
  "deps_loop steps k deps ds = Ok r \<Longrightarrow> distinct deps \<Longrightarrow>
     distinct r \<and> set r = set deps \<union> set ds \<and> k \<notin> set ds \<and> set ds \<subseteq> fmdom' steps"
  by (induction steps k deps ds rule: deps_loop.induct) (auto split: if_splits simp: in_fmdom'_iff)

lemma depends_loop_spec:
  "depends_loop steps depends ss = Ok depends' \<Longrightarrow> distinct (map st_ID ss) \<Longrightarrow>
     fmdom' depends' = fmdom' depends \<union> st_ID ` set ss
   \<and> (\<forall>k. k \<notin> st_ID ` set ss \<longrightarrow> fmlookup depends' k = fmlookup depends k)
   \<and> (\<forall>s\<in>set ss. step_check s = None
        \<and> fm_getd [] depends' (st_ID s) = sorted_list_of_set (set (st_DependsOn s))
        \<and> st_ID s \<notin> set (st_DependsOn s) \<and> set (st_DependsOn s) \<subseteq> fmdom' steps)"
proof (induction steps depends ss rule: depends_loop.induct)
  case (2 steps depends s ss)
  obtain deps where c: "step_check s = None" and d: "deps_loop steps (st_ID s) [] (st_DependsOn s) = Ok deps"
    and rest: "depends_loop steps (fmupd (st_ID s) (sort deps) depends) ss = Ok depends'"
    using 2(2) by (auto split: option.splits sum.splits)
  have dist: "distinct (map st_ID ss)" "st_ID s \<notin> st_ID ` set ss" using 2(3) by auto
  note IH = 2(1) [OF c d rest dist(1)]
  have sp: "distinct deps" "set deps = set (st_DependsOn s)" "st_ID s \<notin> set (st_DependsOn s)"
    "set (st_DependsOn s) \<subseteq> fmdom' steps"
    using deps_loop_spec [OF d] by auto
  have "sort deps = sorted_list_of_set (set (st_DependsOn s))"
    using sp(1,2) by (metis distinct_remdups_id sorted_list_of_set_sort_remdups)
  moreover have "fmlookup depends' (st_ID s) = Some (sort deps)" using IH dist(2) by auto
  ultimately have own: "fm_getd [] depends' (st_ID s) = sorted_list_of_set (set (st_DependsOn s))" by simp
  show ?case
  proof (intro conjI ballI allI impI)
    show "fmdom' depends' = fmdom' depends \<union> st_ID ` set (s # ss)" using IH by auto
  next
    fix k assume "k \<notin> st_ID ` set (s # ss)"
    then show "fmlookup depends' k = fmlookup depends k" using IH by auto
  qed (use IH own c sp in auto)
qed simp

section \<open>The order is the graph's least topological order\<close>

type_synonym step_graph = "(string, WorkflowStep) fmap \<times> (string, string list) fmap"

definition step_graph_ok :: "step_graph \<Rightarrow> bool" where
  "step_graph_ok g \<longleftrightarrow> fmdom' (snd g) = fmdom' (fst g)"

lemma dom_fold_upd: "fmdom' (fold (\<lambda>k. fmupd k (f k)) ks m) = fmdom' m \<union> set ks"
  by (induction ks arbitrary: m) auto

interpretation step_order: dep_graph step_graph_ok "\<lambda>(steps, depends). fm_keys steps"
  "\<lambda>(steps, depends). fm_getd [] depends" "\<lambda>(steps, depends). topo_indegree steps depends"
  "\<lambda>(steps, depends) k. sort (fm_getd [] (topo_dependents depends) k)"
proof (unfold_locales, goal_cases)
  case (1 g)
  then show ?case by (cases g) simp
next
  case (2 g k)
  then show ?case by (cases g) (simp add: topo_indegree_def fold_indegree step_graph_ok_def)
next
  case (3 g k c)
  then show ?case
    by (cases g) (simp add: topo_dependents_def count_list_sort fold_children_count count_list_distinct step_graph_ok_def)
qed

lemma topoOrder_order:
  assumes "fmdom' depends = fmdom' steps"
  shows "topoOrder steps depends =
    (if length (step_order.order (steps, depends)) = length (fm_keys steps)
     then Ok (step_order.order (steps, depends)) else Err ErrCycle)"
proof -
  have "fm_keys (topo_indegree steps depends) = fm_keys steps"
    by (rule fm_keys_eqI) (simp_all add: topo_indegree_def dom_fold_upd assms)
  then show ?thesis
    by (simp add: topoOrder_def step_order.order_def Let_def length_fm_keys)
qed

section \<open>What Compile promises\<close>

text \<open>The edges from a dependency to the step that names it.\<close>

definition step_edges :: "WorkflowStep list \<Rightarrow> (string \<times> string) set" where
  "step_edges ss = {(d, k). \<exists>s\<in>set ss. k = st_ID s \<and> d \<in> set (st_DependsOn s)}"

definition step_valid :: "WorkflowStep list \<Rightarrow> WorkflowStep \<Rightarrow> bool" where
  "step_valid ss s \<longleftrightarrow> step_check s = None \<and> st_ID s \<notin> set (st_DependsOn s)
     \<and> set (st_DependsOn s) \<subseteq> st_ID ` set ss"

lemma deps_loop_total:
  "k \<notin> set ds \<Longrightarrow> set ds \<subseteq> fmdom' steps \<Longrightarrow> is_Ok (deps_loop steps k deps ds)"
  by (induction steps k deps ds rule: deps_loop.induct) (auto simp: in_fmdom'_iff)

lemma depends_loop_total:
  "(\<And>s. s \<in> set ss \<Longrightarrow> step_check s = None \<and> st_ID s \<notin> set (st_DependsOn s) \<and> set (st_DependsOn s) \<subseteq> fmdom' steps)
     \<Longrightarrow> is_Ok (depends_loop steps depends ss)"
proof (induction steps depends ss rule: depends_loop.induct)
  case (2 steps depends s ss)
  have s: "step_check s = None" "is_Ok (deps_loop steps (st_ID s) [] (st_DependsOn s))"
    using 2(2) [of s] deps_loop_total [of "st_ID s" "st_DependsOn s" steps "[]"] by auto
  then obtain deps where "deps_loop steps (st_ID s) [] (st_DependsOn s) = Ok deps" by (auto simp: is_Ok_iff)
  with 2(1) [OF s(1) this 2(2)] s(1) show ?case by simp
qed simp

lemma depends_loop_Ok_iff:
  assumes "distinct (map st_ID ss)"
  shows "is_Ok (depends_loop (steps_map ss) fmempty ss) \<longleftrightarrow> list_all (step_valid ss) ss"
proof
  assume "is_Ok (depends_loop (steps_map ss) fmempty ss)"
  then obtain d where d: "depends_loop (steps_map ss) fmempty ss = Ok d" by (auto simp: is_Ok_iff)
  show "list_all (step_valid ss) ss"
    using depends_loop_spec [OF d assms] by (auto simp: list_all_iff step_valid_def steps_map_dom)
next
  assume "list_all (step_valid ss) ss"
  then show "is_Ok (depends_loop (steps_map ss) fmempty ss)"
    by (intro depends_loop_total) (auto simp: list_all_iff step_valid_def steps_map_dom)
qed

text \<open>The facts about the maps of a workflow that got past the dependency loop.\<close>

lemma depends_facts:
  assumes d: "depends_loop (steps_map ss) fmempty ss = Ok depends" and dist: "distinct (map st_ID ss)"
  shows "fmdom' depends = fmdom' (steps_map ss)"
    and "step_graph_ok (steps_map ss, depends)"
    and "s \<in> set ss \<Longrightarrow> fm_getd [] depends (st_ID s) = sorted_list_of_set (set (st_DependsOn s))"
    and "\<forall>k\<in>fmdom' (steps_map ss). set (fm_getd [] depends k) \<subseteq> fmdom' (steps_map ss)"
    and "dep_rel (fm_keys (steps_map ss)) (fm_getd [] depends) = step_edges ss"
proof -
  note sp = depends_loop_spec [OF d dist]
  show dom: "fmdom' depends = fmdom' (steps_map ss)" using sp by (simp add: steps_map_dom)
  then show "step_graph_ok (steps_map ss, depends)" by (simp add: step_graph_ok_def)
  show own: "fm_getd [] depends (st_ID s) = sorted_list_of_set (set (st_DependsOn s))" if "s \<in> set ss" for s
    using sp that by blast
  show "\<forall>k\<in>fmdom' (steps_map ss). set (fm_getd [] depends k) \<subseteq> fmdom' (steps_map ss)"
    using sp own by (auto simp: steps_map_dom)
  show "dep_rel (fm_keys (steps_map ss)) (fm_getd [] depends) = step_edges ss"
    using own by (force simp: dep_rel_def step_edges_def steps_map_dom)
qed

lemma Workflow_Validate_ids: "Workflow_Validate parse w = None \<Longrightarrow> distinct (map st_ID (wf_Steps w))"
  using steps_check_ids [of 0 "[]" "wf_Steps w"] by (simp add: Workflow_Validate_def)

lemma Compile_Ok_iff:
  "is_Ok (Compile parse w) = (Workflow_Validate parse w = None \<and> list_all (step_valid (wf_Steps w)) (wf_Steps w)
     \<and> acyclic (step_edges (wf_Steps w)))"
proof (cases "Workflow_Validate parse w")
  case (Some e)
  then show ?thesis by (simp add: Compile_def)
next
  case None
  let ?ss = "wf_Steps w"
  note dist = Workflow_Validate_ids [OF None]
  show ?thesis
  proof (cases "depends_loop (steps_map ?ss) fmempty ?ss")
    case (Inl e)
    then have "\<not> is_Ok (depends_loop (steps_map ?ss) fmempty ?ss)" by simp
    then have "\<not> list_all (step_valid ?ss) ?ss" by (simp add: depends_loop_Ok_iff [OF dist])
    with Inl None show ?thesis by (simp add: Compile_def Let_def)
  next
    case (Inr depends)
    note f = depends_facts [OF Inr dist]
    have "is_Ok (depends_loop (steps_map ?ss) fmempty ?ss)" by (simp add: Inr)
    then have v: "list_all (step_valid ?ss) ?ss" by (simp add: depends_loop_Ok_iff [OF dist])
    have "is_Ok (topoOrder (steps_map ?ss) depends) \<longleftrightarrow> acyclic (step_edges ?ss)"
      using step_order.order_complete_iff [OF f(2)] f(4) by (simp add: topoOrder_order [OF f(1)] f(5))
    then show ?thesis
      using None Inr v by (cases "topoOrder (steps_map ?ss) depends") (auto simp: Compile_def Let_def)
  qed
qed

text \<open>
  C14. \<open>Compile\<close> accepts exactly the valid workflows: those that satisfy the workflow contract, whose every
  step passes the step checks and depends only on other existing steps, and whose dependency relation has
  no cycle.
\<close>

theorem Compile_accepts_iff:
  "is_Ok (Compile parse w) = (Workflow_Validate parse w = None \<and> list_all (step_valid (wf_Steps w)) (wf_Steps w)
     \<and> acyclic (step_edges (wf_Steps w)))"
  by (rule Compile_Ok_iff)

text \<open>
  C32. A compiled plan holds every step of the workflow once, lists the step's dependencies sorted and without
  repetition, and its order puts every step after all of its dependencies, always choosing the least step
  that is possible next, so the plan is determined by the workflow's steps.
\<close>

theorem Compile_plan:
  assumes "Compile parse w = Ok p"
  shows "distinct (pn_Order p) \<and> set (pn_Order p) = st_ID ` set (wf_Steps w)
    \<and> least_first (fm_keys (pn_Steps p)) (Plan_Dependencies p) (pn_Order p)
    \<and> topo_sorted (Plan_Dependencies p) (pn_Order p)
    \<and> (\<forall>s\<in>set (wf_Steps w). Plan_Step p (st_ID s) = Some s
          \<and> Plan_Dependencies p (st_ID s) = sorted_list_of_set (set (st_DependsOn s)))"
proof -
  let ?ss = "wf_Steps w"
  obtain depends where v: "Workflow_Validate parse w = None"
    and d: "depends_loop (steps_map ?ss) fmempty ?ss = Ok depends"
    and o: "topoOrder (steps_map ?ss) depends = Ok (pn_Order p)"
    and p: "pn_Steps p = steps_map ?ss" "pn_DependsOn p = depends"
    using assms by (auto simp: Compile_def Let_def split: option.splits sum.splits)
  note dist = Workflow_Validate_ids [OF v]
  note f = depends_facts [OF d dist]
  have len: "length (step_order.order (steps_map ?ss, depends)) = length (fm_keys (steps_map ?ss))"
    and ord: "pn_Order p = step_order.order (steps_map ?ss, depends)"
    using o by (auto simp: topoOrder_order [OF f(1)] split: if_splits)
  have "set (pn_Order p) = fmdom' (steps_map ?ss)"
    using step_order.order_complete_iff_set [OF f(2)] len ord by simp
  moreover have "Plan_Dependencies p = fm_getd [] depends"
    by (rule ext) (simp add: Plan_Dependencies_def p(2))
  ultimately show ?thesis
    using step_order.order_distinct [OF f(2)] step_order.order_least_first [OF f(2)]
      step_order.order_sorted [OF f(2)] f(3) dist
    by (simp add: ord p(1) steps_map_dom Plan_Step_def steps_map_lookup)
qed

section \<open>A concrete workflow\<close>

definition ex_step :: "string \<Rightarrow> string \<Rightarrow> string list \<Rightarrow> WorkflowStep" where
  "ex_step k kind ds = \<lparr>st_ID = k, st_Kind = kind, st_Role = [], st_ToolID = [], st_DependsOn = ds,
     st_Retries = Some 1, st_Gates = [''tests''], st_OnFailure = [], st_Config = None\<rparr>"

definition ex_workflow :: "unit Workflow" where
  "ex_workflow = \<lparr>wf_Envelope = \<lparr>ev_ContractVersion = ''2.0'', ev_Kind = ''workflow'', ev_ID = ''w'', ev_ProjectID = [],
       ev_CreatedAt = [], ev_Revision = None, ev_Provenance = None\<rparr>,
     wf_Name = [], wf_Version = ''1'', wf_Description = [], wf_Budget = None,
     wf_Steps = [ex_step ''b'' ''gate'' [''a''], ex_step ''a'' ''task'' []]\<rparr>"

lemma ex_workflow_valid: "Workflow_Validate parse ex_workflow = None"
  by (simp add: Workflow_Validate_def ex_workflow_def header_check_def Envelope_Validate_def RequireVersion_def
      versionRE_def is_digit_def RequireIdentifier_def identifierRE_def is_alnum_def Let_def OptionalIdentifier_def
      OptionalTimestamp_def ex_step_def RequireEnum_def)

lemma ex_compile: "is_Ok (Compile parse ex_workflow)"
proof -
  have "step_edges (wf_Steps ex_workflow) = {(''a'', ''b'')}"
    by (auto simp: step_edges_def ex_workflow_def ex_step_def)
  moreover have "acyclic {(''a'', ''b'')}" by (rule acyclicI) (auto elim: trancl.cases)
  moreover have "list_all (step_valid (wf_Steps ex_workflow)) (wf_Steps ex_workflow)"
    by (simp add: ex_workflow_def ex_step_def step_valid_def step_check_def validateStepConfig_def)
  ultimately show ?thesis by (simp add: Compile_Ok_iff ex_workflow_valid)
qed

theorem Compile_plan_witness:
  "\<exists>p. Compile (\<lambda>_. None) ex_workflow = Ok p \<and> topo_sorted (Plan_Dependencies p) (pn_Order p)
     \<and> Plan_Dependencies p ''b'' = [''a'']"
proof -
  obtain p where p: "Compile (\<lambda>_. None) ex_workflow = Ok p"
    using ex_compile [of "\<lambda>_. None"] by (auto simp: is_Ok_iff)
  from Compile_plan [OF p] have "topo_sorted (Plan_Dependencies p) (pn_Order p)"
    and "Plan_Dependencies p (st_ID (ex_step ''b'' ''gate'' [''a'']))
      = sorted_list_of_set (set (st_DependsOn (ex_step ''b'' ''gate'' [''a''])))"
    by (simp_all add: ex_workflow_def)
  with p show ?thesis by (simp add: ex_step_def)
qed

end
