(* ===== verification/WorkflowRun.thy ===== *)
theory WorkflowRun
  imports WorkflowCompile
begin

text \<open>
  \<open>toolbox/workflow/runtime.go\<close>: the resumable execution of a plan. The runner, its optional
  compensator and the gate evaluator are code outside this module: functions of the calls made so
  far and their arguments, so they may keep state. The model records every call to them and to the
  metrics collector, in order (latencies are left out). An error of the runner is its text. Calling
  \<open>Error\<close> on a nil error panics: \<open>RunPanic\<close>. Attempt counters are Go \<open>int\<close>s of 64 bits; the only
  operation that can wrap is \<open>retries + 1\<close>.
\<close>

section \<open>State\<close>

datatype run_status = RunRunning | RunComplete | RunFailed | RunAwaitingApproval | RunOther string

datatype step_state = StepPending | StepRunning | StepComplete | StepSkipped | StepCompensated | StepFailed
  | StepAwaitingGate | StepOther string

type_synonym step_output = "config option"

record StepResult =
  sr_ID :: string
  sr_State :: step_state
  sr_Attempts :: int
  sr_Output :: step_output
  sr_Reason :: string

record WfRunState =
  ws_WorkflowID :: string
  ws_Version :: string
  ws_Status :: run_status
  ws_Order :: "string list"
  ws_Results :: "(string, StepResult) fmap"

text \<open>An error of the gate evaluator, and whether it wraps \<open>ErrApproval\<close>.\<close>

datatype gate_error = GateApproval string | GateOther string

fun gate_error_text :: "gate_error \<Rightarrow> string" where
  "gate_error_text (GateApproval s) = s"
| "gate_error_text (GateOther s) = s"

datatype wf_run_error = DepsNotSatisfied string | GateFailed gate_error | GateNotPassed string
  | NoRunner string | CompensateFailed string string | StepFailedErr string string | RunPanic

definition IsApproval :: "wf_run_error \<Rightarrow> bool" where
  "IsApproval e = (case e of GateFailed (GateApproval _) \<Rightarrow> True | GateNotPassed _ \<Rightarrow> True | _ \<Rightarrow> False)"

datatype wf_call = CallRun string int | CallCompensate string | CallGate string
  | RecordWorkflowStep string string int bool

record WfRuntime =
  rt_runner :: "(wf_call list \<Rightarrow> WorkflowStep \<Rightarrow> int \<Rightarrow> string + step_output) option"
  rt_compensator :: "(wf_call list \<Rightarrow> WorkflowStep \<Rightarrow> step_output \<Rightarrow> string option) option"
  rt_gates :: "(wf_call list \<Rightarrow> WorkflowStep \<Rightarrow> gate_error + bool) option"

definition Terminal :: "StepResult \<Rightarrow> bool" where
  "Terminal r \<longleftrightarrow> sr_State r = StepComplete \<or> sr_State r = StepSkipped \<or> sr_State r = StepCompensated"

definition StepResult_zero :: StepResult where
  "StepResult_zero = \<lparr>sr_ID = [], sr_State = StepOther [], sr_Attempts = 0, sr_Output = None, sr_Reason = []\<rparr>"

definition newRunState :: "'b Plan \<Rightarrow> WfRunState" where
  "newRunState plan = \<lparr>ws_WorkflowID = pn_WorkflowID plan, ws_Version = pn_Version plan,
     ws_Status = RunRunning, ws_Order = pn_Order plan, ws_Results = fmempty\<rparr>"

section \<open>Steps\<close>

definition depsSatisfied :: "'b Plan \<Rightarrow> WfRunState \<Rightarrow> string \<Rightarrow> bool" where
  "depsSatisfied plan st k \<longleftrightarrow> list_all (\<lambda>dep. case fmlookup (ws_Results st) dep of
      None \<Rightarrow> False | Some res \<Rightarrow> Terminal res) (fm_getd [] (pn_DependsOn plan) k)"

definition maxAttempts :: "WorkflowStep \<Rightarrow> int" where
  "maxAttempts step =
     (let retries = (case st_Retries step of None \<Rightarrow> 0 | Some r \<Rightarrow> r);
          retries' = (if retries < 0 then 0 else retries)
      in wrap_int (retries' + 1))"

definition onFailure :: "WorkflowStep \<Rightarrow> string" where
  "onFailure step = (if st_OnFailure step = [] then ''fail'' else st_OnFailure step)"

definition set_result :: "string \<Rightarrow> StepResult \<Rightarrow> WfRunState \<Rightarrow> WfRunState" where
  "set_result k r st = st\<lparr>ws_Results := fmupd k r (ws_Results st)\<rparr>"

definition mk_result :: "string \<Rightarrow> step_state \<Rightarrow> int \<Rightarrow> step_output \<Rightarrow> string \<Rightarrow> StepResult" where
  "mk_result k s attempts out reason =
     \<lparr>sr_ID = k, sr_State = s, sr_Attempts = attempts, sr_Output = out, sr_Reason = reason\<rparr>"

definition evaluateGate :: "WfRuntime \<Rightarrow> wf_call list \<Rightarrow> WorkflowStep \<Rightarrow> wf_call list \<times> (gate_error + bool)" where
  "evaluateGate rt log step =
     (case rt_gates rt of
        None \<Rightarrow> (log, Err (GateApproval (''no gate evaluator: '' @ st_ID step)))
      | Some ev \<Rightarrow> (log @ [CallGate (st_ID step)], ev log step))"

text \<open>The loop over the attempts: its result is the attempt reached and, if none succeeded, the last error.\<close>

function attempt_loop ::
  "(wf_call list \<Rightarrow> WorkflowStep \<Rightarrow> int \<Rightarrow> string + step_output) \<Rightarrow> WorkflowStep \<Rightarrow> int \<Rightarrow> int \<Rightarrow> string option \<Rightarrow>
     WfRunState \<Rightarrow> wf_call list \<Rightarrow> WfRunState \<times> wf_call list \<times> int \<times> (string option + unit)" where
  "attempt_loop runner step mx attempt lastErr st log =
     (if attempt < mx then
        (let a = attempt + 1; log1 = log @ [CallRun (st_ID step) a] in
         case runner log step a of
           Inr out \<Rightarrow> (set_result (st_ID step) (mk_result (st_ID step) StepComplete a out []) st, log1, a, Ok ())
         | Inl e \<Rightarrow> attempt_loop runner step mx a (Some e)
             (set_result (st_ID step) (mk_result (st_ID step) StepRunning a None e) st) log1)
      else (st, log, attempt, Err lastErr))"
  by pat_completeness auto
termination
  by (relation "measure (\<lambda>(runner, step, mx, attempt, _). nat (mx - attempt))") auto

declare attempt_loop.simps [simp del]

text \<open>The end of \<open>runWithPolicy\<close>: the step fails with the last error.\<close>

definition fail_step :: "string \<Rightarrow> int \<Rightarrow> string option \<Rightarrow> WfRunState \<Rightarrow> WfRunState \<times> wf_run_error option" where
  "fail_step k attempt lastErr st =
     (case lastErr of
        None \<Rightarrow> (st, Some RunPanic)
      | Some e \<Rightarrow> ((set_result k (mk_result k StepFailed attempt None e) st)\<lparr>ws_Status := RunFailed\<rparr>,
                   Some (StepFailedErr k e)))"

definition skip_step :: "string \<Rightarrow> step_state \<Rightarrow> int \<Rightarrow> string option \<Rightarrow> WfRunState \<Rightarrow> WfRunState \<times> wf_run_error option" where
  "skip_step k s attempt lastErr st =
     (case lastErr of
        None \<Rightarrow> (st, Some RunPanic)
      | Some e \<Rightarrow> (set_result k (mk_result k s attempt None e) st, None))"

definition runWithPolicy ::
  "WfRuntime \<Rightarrow> WfRunState \<Rightarrow> wf_call list \<Rightarrow> WorkflowStep \<Rightarrow> WfRunState \<times> wf_call list \<times> wf_run_error option" where
  "runWithPolicy rt st log step =
     (let k = st_ID step in
      case rt_runner rt of
        None \<Rightarrow> ((set_result k (mk_result k StepFailed 0 None ''no runner configured'') st)\<lparr>ws_Status := RunFailed\<rparr>,
                 log, Some (NoRunner k))
      | Some runner \<Rightarrow>
         (let prior = fm_getd StepResult_zero (ws_Results st) k in
          case attempt_loop runner step (maxAttempts step) (sr_Attempts prior) None st log of
            (st1, log1, attempt, Inr _) \<Rightarrow> (st1, log1, None)
          | (st1, log1, attempt, Inl lastErr) \<Rightarrow>
              if onFailure step = ''skip'' then
                (let (st2, e) = skip_step k StepSkipped attempt lastErr st1 in (st2, log1, e))
              else (case (onFailure step = ''compensate'', rt_compensator rt) of
                (True, Some undo) \<Rightarrow>
                  (let log2 = log1 @ [CallCompensate k] in
                   case undo log1 step (sr_Output prior) of
                     Some cerr \<Rightarrow> ((set_result k (mk_result k StepFailed attempt None cerr) st1)\<lparr>ws_Status := RunFailed\<rparr>,
                                   log2, Some (CompensateFailed k cerr))
                   | None \<Rightarrow> (let (st2, e) = skip_step k StepCompensated attempt lastErr st1 in (st2, log2, e)))
              | _ \<Rightarrow> (let (st2, e) = fail_step k attempt lastErr st1 in (st2, log1, e)))))"

definition recordStep :: "WorkflowStep \<Rightarrow> int \<Rightarrow> bool \<Rightarrow> wf_call list \<Rightarrow> wf_call list" where
  "recordStep step attempts success log = log @ [RecordWorkflowStep (st_ID step) (st_Kind step) attempts success]"

section \<open>The run\<close>

text \<open>A step that is neither terminal nor missing from the plan. The panic is not recorded as a step.\<close>

definition run_step ::
  "WfRuntime \<Rightarrow> 'b Plan \<Rightarrow> string \<Rightarrow> WorkflowStep \<Rightarrow> WfRunState \<Rightarrow> wf_call list \<Rightarrow>
     WfRunState \<times> wf_call list \<times> wf_run_error option" where
  "run_step rt plan k step st log =
     (if \<not> depsSatisfied plan st k then
        ((set_result k (mk_result k StepAwaitingGate 0 None ''dependencies not satisfied'') st)\<lparr>ws_Status := RunFailed\<rparr>,
         recordStep step 0 False log, Some (DepsNotSatisfied k))
      else if st_Kind step = ''gate'' \<or> st_Kind step = ''human_approval'' then
        (case evaluateGate rt log step of
           (log1, Inl e) \<Rightarrow>
             ((set_result k (mk_result k StepAwaitingGate 0 None (gate_error_text e)) st)\<lparr>ws_Status := RunAwaitingApproval\<rparr>,
              recordStep step 1 False log1, Some (GateFailed e))
         | (log1, Inr False) \<Rightarrow>
             ((set_result k (mk_result k StepAwaitingGate 0 None ''gate not passed'') st)\<lparr>ws_Status := RunAwaitingApproval\<rparr>,
              recordStep step 1 False log1, Some (GateNotPassed k))
         | (log1, Inr True) \<Rightarrow>
             (set_result k (mk_result k StepComplete 0 None []) st, recordStep step 1 True log1, None))
      else
        (case runWithPolicy rt st log step of
           (st1, log1, Some e) \<Rightarrow>
             (st1, if e = RunPanic then log1
                   else recordStep step (sr_Attempts (fm_getd StepResult_zero (ws_Results st1) k)) False log1, Some e)
         | (st1, log1, None) \<Rightarrow>
             (let res = fm_getd StepResult_zero (ws_Results st1) k
              in (st1, recordStep step (sr_Attempts res) (Terminal res) log1, None))))"

fun run_steps ::
  "WfRuntime \<Rightarrow> 'b Plan \<Rightarrow> string list \<Rightarrow> WfRunState \<Rightarrow> wf_call list \<Rightarrow>
     WfRunState \<times> wf_call list \<times> wf_run_error option" where
  "run_steps rt plan [] st log = (st\<lparr>ws_Status := RunComplete\<rparr>, log, None)"
| "run_steps rt plan (k # ks) st log =
     (case Plan_Step plan k of
        None \<Rightarrow> run_steps rt plan ks st log
      | Some step \<Rightarrow>
          if (case fmlookup (ws_Results st) k of None \<Rightarrow> False | Some res \<Rightarrow> Terminal res)
          then run_steps rt plan ks st log
          else (case run_step rt plan k step st log of
                  (st1, log1, Some e) \<Rightarrow> (st1, log1, Some e)
                | (st1, log1, None) \<Rightarrow> run_steps rt plan ks st1 log1))"

definition start_state :: "'b Plan \<Rightarrow> WfRunState option \<Rightarrow> WfRunState" where
  "start_state plan prior =
     (case prior of
        None \<Rightarrow> newRunState plan
      | Some p \<Rightarrow> p\<lparr>ws_WorkflowID := (if ws_WorkflowID p = [] then pn_WorkflowID plan else ws_WorkflowID p),
                     ws_Version := (if ws_Version p = [] then pn_Version plan else ws_Version p)\<rparr>)"

definition Runtime_Run ::
  "WfRuntime \<Rightarrow> 'b Plan \<Rightarrow> WfRunState option \<Rightarrow> wf_call list \<Rightarrow>
     WfRunState \<times> wf_call list \<times> wf_run_error option" where
  "Runtime_Run rt plan prior log =
     run_steps rt plan (pn_Order plan) ((start_state plan prior)\<lparr>ws_Status := RunRunning\<rparr>) log"

section \<open>The effect of a step\<close>

definition other_keys :: "string \<Rightarrow> WfRunState \<Rightarrow> WfRunState \<Rightarrow> bool" where
  "other_keys k st st' \<longleftrightarrow> (\<forall>j. j \<noteq> k \<longrightarrow> fmlookup (ws_Results st') j = fmlookup (ws_Results st) j)"

lemma other_keys_refl [simp]: "other_keys k st st"
  and other_keys_set [simp]: "other_keys k st (set_result k r st') = other_keys k st st'"
  and other_keys_status [simp]: "other_keys k st (st'\<lparr>ws_Status := x\<rparr>) = other_keys k st st'"
  by (simp_all add: other_keys_def set_result_def)

lemma set_result_simps [simp]:
  "fmlookup (ws_Results (set_result k r st)) j = (if j = k then Some r else fmlookup (ws_Results st) j)"
  "ws_Status (set_result k r st) = ws_Status st"
  by (simp_all add: set_result_def)

lemma mk_result_simps [simp]:
  "sr_State (mk_result k s a out why) = s" "sr_Attempts (mk_result k s a out why) = a"
  "Terminal (mk_result k s a out why) \<longleftrightarrow> s = StepComplete \<or> s = StepSkipped \<or> s = StepCompensated"
  by (simp_all add: mk_result_def Terminal_def)

lemma attempt_loop_spec:
  "attempt_loop runner step mx attempt lastErr st log = (st', log', a', r) \<Longrightarrow>
     log' = log @ map (CallRun (st_ID step)) [attempt + 1..a'] \<and> attempt \<le> a' \<and> (attempt < a' \<longrightarrow> a' \<le> mx)
   \<and> other_keys (st_ID step) st st' \<and> ws_Status st' = ws_Status st
   \<and> (r = Ok () \<longrightarrow> (\<exists>out. fmlookup (ws_Results st') (st_ID step) = Some (mk_result (st_ID step) StepComplete a' out [])))
   \<and> (\<forall>e. r = Err e \<longrightarrow> mx \<le> a' \<and> (e = None \<longleftrightarrow> lastErr = None \<and> mx \<le> attempt)
        \<and> (a' = attempt \<longrightarrow> fmlookup (ws_Results st') = fmlookup (ws_Results st)))"
proof (induction runner step mx attempt lastErr st log rule: attempt_loop.induct)
  case (1 runner step mx attempt lastErr st log)
  show ?case
  proof (cases "attempt < mx")
    case False
    with 1(2) show ?thesis by (subst (asm) attempt_loop.simps) auto
  next
    case True
    have up: "[attempt + 1..a'] = (attempt + 1) # [attempt + 1 + 1..a']" if "attempt + 1 \<le> a'" for a'
      using that by (rule upto_rec1)
    show ?thesis
    proof (cases "runner log step (attempt + 1)")
      case (Inr out)
      with True 1(2) show ?thesis by (subst (asm) attempt_loop.simps) (auto simp: Let_def)
    next
      case (Inl e)
      have "attempt_loop runner step mx (attempt + 1) (Some e)
          (set_result (st_ID step) (mk_result (st_ID step) StepRunning (attempt + 1) None e) st)
          (log @ [CallRun (st_ID step) (attempt + 1)]) = (st', log', a', r)"
        using 1(2) True Inl by (subst (asm) attempt_loop.simps) (simp add: Let_def)
      note IH = 1(1) [OF True refl refl Inl this]
      have "attempt + 1 \<le> a'" using IH by simp
      with IH True show ?thesis by (auto simp: other_keys_def up)
    qed
  qed
qed

text \<open>The runner's calls among the recorded ones.\<close>

definition runs :: "wf_call list \<Rightarrow> (string \<times> int) list" where
  "runs log = List.map_filter (\<lambda>c. case c of CallRun k a \<Rightarrow> Some (k, a) | _ \<Rightarrow> None) log"

lemma runs_simps [simp]:
  "runs [] = []" "runs (xs @ ys) = runs xs @ runs ys" "runs (CallRun k a # xs) = (k, a) # runs xs"
  "runs (CallCompensate k # xs) = runs xs" "runs (CallGate k # xs) = runs xs"
  "runs (RecordWorkflowStep k kd n ok # xs) = runs xs" "runs (map (CallRun k) as) = map (Pair k) as"
  by (simp_all add: runs_def List.map_filter_def comp_def)

definition attempts_at :: "WfRunState \<Rightarrow> string \<Rightarrow> int" where
  "attempts_at st k = sr_Attempts (fm_getd StepResult_zero (ws_Results st) k)"

text \<open>What \<open>runWithPolicy\<close> does: it runs the attempts that are left and settles the step or returns an error.\<close>

lemma runWithPolicy_spec:
  assumes "runWithPolicy rt st log step = (st', log', e)"
  shows "\<exists>new. log' = log @ new \<and> (\<exists>hi. runs new = map (Pair (st_ID step)) [attempts_at st (st_ID step) + 1..hi]
          \<and> (attempts_at st (st_ID step) < hi \<longrightarrow> hi \<le> maxAttempts step))"
    and "other_keys (st_ID step) st st'"
    and "e = None \<Longrightarrow> ws_Status st' = ws_Status st \<and> (\<exists>r. fmlookup (ws_Results st') (st_ID step) = Some r \<and> Terminal r)"
    and "e \<noteq> None \<Longrightarrow> ws_Status st' \<noteq> RunComplete \<or> ws_Status st = RunComplete"
    and "e = Some (StepFailedErr k err) \<Longrightarrow> k = st_ID step \<and> onFailure step \<noteq> ''skip''
      \<and> (onFailure step = ''compensate'' \<longrightarrow> rt_compensator rt = None) \<and> rt_runner rt \<noteq> None
      \<and> maxAttempts step \<le> attempts_at st' k \<and> (\<exists>r. fmlookup (ws_Results st') k = Some r \<and> \<not> Terminal r)"
proof (atomize (full), goal_cases)
  case 1
  let ?k = "st_ID step"
  show ?case
  proof (cases "rt_runner rt")
    case None
    with assms show ?thesis by (auto simp: runWithPolicy_def Let_def)
  next
    case (Some runner)
    obtain st1 log1 a r where l: "attempt_loop runner step (maxAttempts step) (attempts_at st ?k) None st log = (st1, log1, a, r)"
      by (metis prod_cases4)
    note sp = attempt_loop_spec [OF l]
    show ?thesis
    proof (cases r)
      case (Inr u)
      with assms Some l sp show ?thesis
        by (auto simp: runWithPolicy_def Let_def attempts_at_def)
    next
      case (Inl lastErr)
      from assms Some l Inl show ?thesis
        using sp
        by (cases lastErr; cases "rt_compensator rt")
          (auto simp: runWithPolicy_def Let_def attempts_at_def skip_step_def fail_step_def
            split: if_splits option.splits bool.splits)
    qed
  qed
qed

definition terminal_at :: "WfRunState \<Rightarrow> string \<Rightarrow> bool" where
  "terminal_at st k \<longleftrightarrow> (case fmlookup (ws_Results st) k of None \<Rightarrow> False | Some r \<Rightarrow> Terminal r)"

lemma terminal_at_iff: "terminal_at st k \<longleftrightarrow> (\<exists>r. fmlookup (ws_Results st) k = Some r \<and> Terminal r)"
  by (auto simp: terminal_at_def split: option.splits)

lemma depsSatisfied_iff:
  "depsSatisfied plan st k \<longleftrightarrow> (\<forall>d\<in>set (Plan_Dependencies plan k). terminal_at st d)"
  by (simp add: depsSatisfied_def list_all_iff Plan_Dependencies_def terminal_at_def)

text \<open>Terminal results are never replaced.\<close>

definition keeps_terminal :: "WfRunState \<Rightarrow> WfRunState \<Rightarrow> bool" where
  "keeps_terminal st st' \<longleftrightarrow>
     (\<forall>k. terminal_at st k \<longrightarrow> fmlookup (ws_Results st') k = fmlookup (ws_Results st) k)"

lemma keeps_terminal_refl [simp]: "keeps_terminal st st"
  by (simp add: keeps_terminal_def)

lemma keeps_terminal_trans:
  "keeps_terminal st st1 \<Longrightarrow> keeps_terminal st1 st2 \<Longrightarrow> keeps_terminal st st2"
  by (auto simp: keeps_terminal_def terminal_at_def)

lemma keeps_terminal_other: "other_keys k st st' \<Longrightarrow> \<not> terminal_at st k \<Longrightarrow> keeps_terminal st st'"
  by (auto simp: keeps_terminal_def other_keys_def)

lemma keeps_terminal_at: "keeps_terminal st st' \<Longrightarrow> terminal_at st k \<Longrightarrow> terminal_at st' k"
  by (auto simp: keeps_terminal_def terminal_at_def)

lemma depsSatisfied_mono: "keeps_terminal st st' \<Longrightarrow> depsSatisfied plan st k \<Longrightarrow> depsSatisfied plan st' k"
  by (auto simp: depsSatisfied_iff intro: keeps_terminal_at)

definition gate_step :: "WorkflowStep \<Rightarrow> bool" where
  "gate_step s \<longleftrightarrow> st_Kind s = ''gate'' \<or> st_Kind s = ''human_approval''"

text \<open>The state a step fails in after its attempts are used up, and that makes a later run panic.\<close>

definition exhausted :: "WfRuntime \<Rightarrow> 'b Plan \<Rightarrow> WfRunState \<Rightarrow> WorkflowStep \<Rightarrow> bool" where
  "exhausted rt plan st s \<longleftrightarrow> depsSatisfied plan st (st_ID s) \<and> \<not> gate_step s \<and> \<not> terminal_at st (st_ID s)
     \<and> rt_runner rt \<noteq> None \<and> (onFailure s = ''compensate'' \<longrightarrow> rt_compensator rt = None)
     \<and> maxAttempts s \<le> attempts_at st (st_ID s)"

lemma run_step_spec:
  assumes run: "run_step rt plan k step st log = (st', log', e)" and k: "st_ID step = k"
    and open': "\<not> terminal_at st k" and status: "ws_Status st = RunRunning"
  shows "\<exists>new. log' = log @ new \<and> distinct (runs new)
      \<and> (\<forall>(j, a)\<in>set (runs new). j = k \<and> attempts_at st k < a \<and> a \<le> maxAttempts step \<and> depsSatisfied plan st k)"
    and "other_keys k st st'"
    and "e = None \<Longrightarrow> ws_Status st' = RunRunning \<and> terminal_at st' k"
    and "e \<noteq> None \<Longrightarrow> ws_Status st' \<noteq> RunComplete"
    and "e = Some (StepFailedErr j err) \<Longrightarrow> exhausted rt plan st' step"
proof (atomize (full), goal_cases)
  case 1
  show ?case
  proof (cases "depsSatisfied plan st k")
    case False
    with run show ?thesis by (auto simp: run_step_def recordStep_def)
  next
    case deps: True
    show ?thesis
    proof (cases "gate_step step")
      case True
      with run deps show ?thesis
        by (auto simp: run_step_def recordStep_def gate_step_def evaluateGate_def terminal_at_def status
            split: option.splits sum.splits bool.splits)
    next
      case False
      obtain st1 log1 e1 where p: "runWithPolicy rt st log step = (st1, log1, e1)" by (cases "runWithPolicy rt st log step")
      note sp = runWithPolicy_spec [OF p, unfolded k]
      from sp(1) obtain new hi where new: "log1 = log @ new" "runs new = map (Pair k) [attempts_at st k + 1..hi]"
        "attempts_at st k < hi \<longrightarrow> hi \<le> maxAttempts step" by auto
      have rd: "distinct (runs new)" by (simp add: new distinct_map inj_on_def)
      have ra: "\<forall>(j, a)\<in>set (runs new). j = k \<and> attempts_at st k < a \<and> a \<le> maxAttempts step" using new by auto
      have res: "st' = st1" "e = e1" "\<exists>m. log' = log1 @ m \<and> runs m = []"
        using run deps False p
        by (cases e1; force simp: run_step_def recordStep_def gate_step_def Let_def split: if_splits)+
      from res(3) obtain m where m: "log' = log1 @ m" "runs m = []" by auto
      have "depsSatisfied plan st' k"
        unfolding res(1) by (rule depsSatisfied_mono [OF keeps_terminal_other [OF sp(2) open'] deps])
      then have "e = Some (StepFailedErr j err) \<longrightarrow> exhausted rt plan st' step"
        using sp(5) [of j err] False by (auto simp: exhausted_def res k terminal_at_iff)
      then show ?thesis
        using sp(2-4) rd ra deps new(1) m status by (auto simp: res terminal_at_iff intro: exI [of _ "new @ m"])
    qed
  qed
qed

lemma runWithPolicy_exhausted:
  assumes "exhausted rt plan st s"
  shows "runWithPolicy rt st log s = (st, log, Some RunPanic)"
proof -
  obtain runner where r: "rt_runner rt = Some runner" using assms by (auto simp: exhausted_def)
  have "attempt_loop runner s (maxAttempts s) (attempts_at st (st_ID s)) None st log
      = (st, log, attempts_at st (st_ID s), Err None)"
    using assms by (subst attempt_loop.simps) (simp add: exhausted_def)
  then show ?thesis
    using assms r
    by (auto simp: runWithPolicy_def Let_def attempts_at_def exhausted_def skip_step_def fail_step_def
        split: option.splits bool.splits)
qed

section \<open>The whole run\<close>

definition plan_ids :: "'b Plan \<Rightarrow> bool" where
  "plan_ids plan \<longleftrightarrow> distinct (pn_Order plan) \<and> (\<forall>k s. Plan_Step plan k = Some s \<longrightarrow> st_ID s = k)"

text \<open>The recorded runs of \<open>new\<close> are justified: each is a fresh attempt of a step that was open and whose
  dependencies were settled.\<close>

definition fresh_runs :: "'b Plan \<Rightarrow> WfRunState \<Rightarrow> WfRunState \<Rightarrow> wf_call list \<Rightarrow> bool" where
  "fresh_runs plan st st' new \<longleftrightarrow> distinct (runs new)
     \<and> (\<forall>(j, a)\<in>set (runs new). \<not> terminal_at st j \<and> depsSatisfied plan st' j
          \<and> (\<exists>s. Plan_Step plan j = Some s \<and> attempts_at st j < a \<and> a \<le> maxAttempts s))"

definition settled_steps :: "'b Plan \<Rightarrow> WfRunState \<Rightarrow> string list \<Rightarrow> bool" where
  "settled_steps plan st ks \<longleftrightarrow> (\<forall>k\<in>set ks. Plan_Step plan k = None \<or> terminal_at st k)"

lemma fresh_own:
  assumes "distinct (runs new)"
    and own: "\<forall>(j, a)\<in>set (runs new). j = k \<and> attempts_at st k < a \<and> a \<le> maxAttempts s \<and> depsSatisfied plan st k"
    and "\<not> terminal_at st k" and "Plan_Step plan k = Some s" and kt: "keeps_terminal st st'"
  shows "fresh_runs plan st st' new"
proof -
  have "\<not> terminal_at st j \<and> depsSatisfied plan st' j
      \<and> (\<exists>s. Plan_Step plan j = Some s \<and> attempts_at st j < a \<and> a \<le> maxAttempts s)"
    if "(j, a) \<in> set (runs new)" for j a
  proof -
    from own that have "j = k" "attempts_at st k < a" "a \<le> maxAttempts s" "depsSatisfied plan st k" by auto
    with assms(3,4) depsSatisfied_mono [OF kt] show ?thesis by simp
  qed
  with assms(1) show ?thesis by (auto simp: fresh_runs_def)
qed

definition stopped_at :: "WfRuntime \<Rightarrow> 'b Plan \<Rightarrow> string list \<Rightarrow> WfRunState \<Rightarrow> bool" where
  "stopped_at rt plan ks st \<longleftrightarrow> (\<exists>pre k post s. ks = pre @ k # post \<and> settled_steps plan st pre
     \<and> Plan_Step plan k = Some s \<and> exhausted rt plan st s)"

lemma settled_steps_Cons:
  "settled_steps plan st (k # ks) \<longleftrightarrow> (Plan_Step plan k = None \<or> terminal_at st k) \<and> settled_steps plan st ks"
  by (simp add: settled_steps_def)

lemma stopped_at_Cons:
  assumes "stopped_at rt plan ks st" and "Plan_Step plan k = None \<or> terminal_at st k"
  shows "stopped_at rt plan (k # ks) st"
proof -
  obtain pre i post s where "ks = pre @ i # post" "settled_steps plan st pre" "Plan_Step plan i = Some s"
    "exhausted rt plan st s" using assms(1) by (auto simp: stopped_at_def)
  with assms(2) show ?thesis
    unfolding stopped_at_def by (intro exI [of _ "k # pre"]) (auto simp: settled_steps_Cons)
qed

definition run_ok ::
  "WfRuntime \<Rightarrow> 'b Plan \<Rightarrow> string list \<Rightarrow> WfRunState \<Rightarrow> wf_call list \<Rightarrow> WfRunState \<Rightarrow> wf_call list \<Rightarrow>
     wf_run_error option \<Rightarrow> bool" where
  "run_ok rt plan ks st log st' log' e \<longleftrightarrow>
     (\<exists>new. log' = log @ new \<and> fresh_runs plan st st' new \<and> fst ` set (runs new) \<subseteq> set ks)
   \<and> keeps_terminal st st' \<and> (\<forall>j. j \<notin> set ks \<longrightarrow> fmlookup (ws_Results st') j = fmlookup (ws_Results st) j)
   \<and> (e = None \<longleftrightarrow> ws_Status st' = RunComplete) \<and> (e = None \<longrightarrow> settled_steps plan st' ks)
   \<and> (\<forall>j err. e = Some (StepFailedErr j err) \<longrightarrow> stopped_at rt plan ks st')"

lemma run_ok_skip:
  assumes "run_ok rt plan ks st log st' log' e" and "k \<notin> set ks" and "Plan_Step plan k = None \<or> terminal_at st k"
  shows "run_ok rt plan (k # ks) st log st' log' e"
proof -
  have "Plan_Step plan k = None \<or> terminal_at st' k"
    using assms(1,3) keeps_terminal_at unfolding run_ok_def by blast
  then have "stopped_at rt plan ks st' \<Longrightarrow> stopped_at rt plan (k # ks) st'"
    "settled_steps plan st' ks \<Longrightarrow> settled_steps plan st' (k # ks)"
    by (simp_all add: stopped_at_Cons settled_steps_Cons)
  moreover obtain new where "log' = log @ new" "fresh_runs plan st st' new" "fst ` set (runs new) \<subseteq> set ks"
    using assms(1) unfolding run_ok_def by blast
  moreover have "fst ` set (runs new) \<subseteq> set (k # ks)" using calculation(5) by (rule subset_trans) auto
  ultimately show ?thesis
    using assms(1) unfolding run_ok_def by simp
qed

lemma run_ok_stop:
  assumes sp: "log' = log @ new" "fresh_runs plan st st' new" "fst ` set (runs new) \<subseteq> {k}" "other_keys k st st'"
    "keeps_terminal st st'" "ws_Status st' \<noteq> RunComplete" "e \<noteq> None"
    and ex: "\<And>j err. e = Some (StepFailedErr j err) \<Longrightarrow> exhausted rt plan st' s" and s: "Plan_Step plan k = Some s"
  shows "run_ok rt plan (k # ks) st log st' log' e"
proof -
  have "stopped_at rt plan (k # ks) st'" if "e = Some (StepFailedErr j err)" for j err
    unfolding stopped_at_def using ex [OF that] s
    by (intro exI [of _ "[]"] exI [of _ k] exI [of _ ks] exI [of _ s]) (simp add: settled_steps_def)
  moreover have "fst ` set (runs new) \<subseteq> set (k # ks)" using sp(3) by (rule subset_trans) simp
  ultimately show ?thesis using sp unfolding run_ok_def other_keys_def by auto
qed

lemma run_ok_step:
  assumes ok: "run_ok rt plan ks st1 log1 st' log' e" and sp: "log1 = log @ new1"
    "fresh_runs plan st st' new1" "fst ` set (runs new1) \<subseteq> {k}" "other_keys k st st1" "keeps_terminal st st1"
    and t: "terminal_at st1 k" and k: "k \<notin> set ks"
  shows "run_ok rt plan (k # ks) st log st' log' e"
proof -
  obtain new2 where n2: "log' = log1 @ new2" "fresh_runs plan st1 st' new2" "fst ` set (runs new2) \<subseteq> set ks"
    using ok unfolding run_ok_def by blast
  have kt: "keeps_terminal st1 st'" using ok unfolding run_ok_def by blast
  have t': "Plan_Step plan k = None \<or> terminal_at st' k" using keeps_terminal_at [OF kt t] by simp
  have old: "attempts_at st1 j = attempts_at st j" "terminal_at st1 j = terminal_at st j" if "j \<noteq> k" for j
    using sp(4) that by (simp_all add: attempts_at_def terminal_at_def other_keys_def fm_getd_def)
  have r1: "j = k" if "(j, a) \<in> set (runs new1)" for j a using sp(3) that by force
  have r2: "j \<noteq> k" if "(j, a) \<in> set (runs new2)" for j a using n2(3) that k by force
  have "distinct (runs (new1 @ new2))"
    using sp(2) n2(2) r1 r2 by (auto simp: fresh_runs_def)
  moreover have "\<not> terminal_at st j \<and> depsSatisfied plan st' j
          \<and> (\<exists>s. Plan_Step plan j = Some s \<and> attempts_at st j < a \<and> a \<le> maxAttempts s)"
    if ja: "(j, a) \<in> set (runs (new1 @ new2))" for j a
  proof (cases "(j, a) \<in> set (runs new1)")
    case True
    with sp(2) show ?thesis by (auto simp: fresh_runs_def)
  next
    case False
    with ja have j: "(j, a) \<in> set (runs new2)" by simp
    with n2(2) have "\<not> terminal_at st1 j \<and> depsSatisfied plan st' j
          \<and> (\<exists>s. Plan_Step plan j = Some s \<and> attempts_at st1 j < a \<and> a \<le> maxAttempts s)"
      by (auto simp: fresh_runs_def)
    then show ?thesis by (simp add: old [OF r2 [OF j]])
  qed
  ultimately have "fresh_runs plan st st' (new1 @ new2)" unfolding fresh_runs_def by blast
  moreover have "fst ` set (runs (new1 @ new2)) \<subseteq> set (k # ks)"
    using sp(3) n2(3) by (auto simp del: image_subset_iff)
  moreover have "\<forall>j. j \<notin> set (k # ks) \<longrightarrow> fmlookup (ws_Results st') j = fmlookup (ws_Results st) j"
    using ok sp(4) unfolding run_ok_def other_keys_def by simp
  moreover have "keeps_terminal st st'" by (rule keeps_terminal_trans [OF sp(5) kt])
  moreover have "stopped_at rt plan ks st' \<Longrightarrow> stopped_at rt plan (k # ks) st'"
    "settled_steps plan st' ks \<Longrightarrow> settled_steps plan st' (k # ks)"
    using t' by (simp_all add: stopped_at_Cons settled_steps_Cons)
  moreover have "log' = log @ new1 @ new2" by (simp add: n2 sp(1))
  ultimately show ?thesis
    using ok unfolding run_ok_def by blast
qed

lemma run_steps_spec:
  assumes ids: "\<forall>k s. Plan_Step plan k = Some s \<longrightarrow> st_ID s = k"
  shows "run_steps rt plan ks st log = (st', log', e) \<Longrightarrow> ws_Status st = RunRunning \<Longrightarrow> distinct ks \<Longrightarrow>
     run_ok rt plan ks st log st' log' e"
proof (induction ks arbitrary: st log)
  case Nil
  then show ?case
    by (auto simp: run_ok_def fresh_runs_def settled_steps_def keeps_terminal_def terminal_at_def)
next
  case (Cons k ks)
  from Cons.prems(3) have dist: "distinct ks" "k \<notin> set ks" by auto
  show ?case
  proof (cases "Plan_Step plan k = None \<or> terminal_at st k")
    case True
    have "run_steps rt plan ks st log = (st', log', e)"
      using Cons.prems(1) True by (auto simp: terminal_at_def split: option.splits if_splits)
    from Cons.IH [OF this Cons.prems(2) dist(1)] dist(2) True show ?thesis by (rule run_ok_skip)
  next
    case False
    then obtain step where s: "Plan_Step plan k = Some step" and o: "\<not> terminal_at st k" by auto
    obtain st1 log1 e1 where rs: "run_step rt plan k step st log = (st1, log1, e1)"
      by (cases "run_step rt plan k step st log")
    have k: "st_ID step = k" using ids s by simp
    note sp = run_step_spec [OF rs k o Cons.prems(2)]
    obtain new1 where n1: "log1 = log @ new1" "distinct (runs new1)"
      "\<forall>(j, a)\<in>set (runs new1). j = k \<and> attempts_at st k < a \<and> a \<le> maxAttempts step \<and> depsSatisfied plan st k"
      using sp(1) by blast
    have own: "fst ` set (runs new1) \<subseteq> {k}" using n1(3) by auto
    have kt1: "keeps_terminal st st1" by (rule keeps_terminal_other [OF sp(2) o])
    have fr1: "fresh_runs plan st st2 new1" if "keeps_terminal st st2" for st2
      by (rule fresh_own [OF n1(2,3) o s that])
    have next': "run_steps rt plan (k # ks) st log = (case e1 of Some x \<Rightarrow> (st1, log1, Some x)
        | None \<Rightarrow> run_steps rt plan ks st1 log1)"
      using s o rs by (auto simp: terminal_at_def split: option.splits)
    show ?thesis
    proof (cases e1)
      case (Some x)
      with next' Cons.prems(1) have eq: "st' = st1" "log' = log1" "e = e1" by simp_all
      have e: "e1 \<noteq> None" using Some by simp
      show ?thesis
        unfolding eq by (rule run_ok_stop [OF n1(1) fr1 [OF kt1] own sp(2) kt1 sp(4) [OF e] e sp(5) s])
    next
      case None
      with next' Cons.prems(1) have r: "run_steps rt plan ks st1 log1 = (st', log', e)" by simp
      from sp(3) [OF None] have st1: "ws_Status st1 = RunRunning" "terminal_at st1 k" by simp_all
      note ok = Cons.IH [OF r st1(1) dist(1)]
      have "keeps_terminal st st'"
        using keeps_terminal_trans [OF kt1] ok unfolding run_ok_def by blast
      from run_ok_step [OF ok n1(1) fr1 [OF this] own sp(2) kt1 st1(2) dist(2)] show ?thesis .
    qed
  qed
qed

end
