(* ===== verification/WorkflowProps.thy ===== *)
theory WorkflowProps
  imports WorkflowRun
begin

text \<open>Properties of the workflow runtime on compiled plans.\<close>

section \<open>Compiled plans\<close>

lemma steps_map_key: "fmlookup (steps_map ss) k = Some s \<Longrightarrow> st_ID s = k"
proof -
  have "fmlookup (fold (\<lambda>s. fmupd (st_ID s) s) ss m) k = Some s \<Longrightarrow> \<forall>j r. fmlookup m j = Some r \<longrightarrow> st_ID r = j
      \<Longrightarrow> st_ID s = k" for m
  proof (induction ss arbitrary: m)
    case (Cons a ss)
    have keys: "\<forall>j r. fmlookup (fmupd (st_ID a) a m) j = Some r \<longrightarrow> st_ID r = j"
      using Cons.prems(2) by (metis fmupd_lookup option.inject)
    have "fmlookup (fold (\<lambda>s. fmupd (st_ID s) s) ss (fmupd (st_ID a) a m)) k = Some s"
      using Cons.prems(1) by (simp only: fold_Cons comp_apply)
    from Cons.IH [OF this keys] show ?case .
  qed simp
  from this [of fmempty] show "fmlookup (steps_map ss) k = Some s \<Longrightarrow> st_ID s = k" by (simp add: steps_map_def)
qed

lemma Compile_facts:
  assumes "Compile parse w = Ok plan"
  shows "distinct (pn_Order plan)" and "Plan_Step plan k = Some s \<Longrightarrow> st_ID s = k"
    and "set (pn_Order plan) = fmdom' (pn_Steps plan)"
proof -
  let ?ss = "wf_Steps w"
  obtain depends where v: "Workflow_Validate parse w = None"
    and d: "depends_loop (steps_map ?ss) fmempty ?ss = Ok depends"
    and o: "topoOrder (steps_map ?ss) depends = Ok (pn_Order plan)" and p: "pn_Steps plan = steps_map ?ss"
    using assms by (auto simp: Compile_def Let_def split: option.splits sum.splits)
  note f = depends_facts [OF d Workflow_Validate_ids [OF v]]
  from o have ord: "pn_Order plan = step_order.order (steps_map ?ss, depends)"
    and len: "length (step_order.order (steps_map ?ss, depends)) = length (fm_keys (steps_map ?ss))"
    by (auto simp: topoOrder_order [OF f(1)] split: if_splits)
  show "distinct (pn_Order plan)" using step_order.order_distinct [OF f(2)] by (simp add: ord)
  show "Plan_Step plan k = Some s \<Longrightarrow> st_ID s = k" by (simp add: Plan_Step_def p steps_map_key)
  show "set (pn_Order plan) = fmdom' (pn_Steps plan)"
    using step_order.order_complete_iff_set [OF f(2)] len by (simp add: ord p)
qed

abbreviation begin_state :: "'b Plan \<Rightarrow> WfRunState option \<Rightarrow> WfRunState" where
  "begin_state plan prior \<equiv> (start_state plan prior)\<lparr>ws_Status := RunRunning\<rparr>"

lemma Runtime_Run_ok:
  assumes "Compile parse w = Ok plan" and "Runtime_Run rt plan prior log = (st', log', e)"
  shows "run_ok rt plan (pn_Order plan) (begin_state plan prior) log st' log' e"
  using run_steps_spec [of plan rt "pn_Order plan" "begin_state plan prior" log st' log' e]
    Compile_facts [OF assms(1)] assms(2) by (simp add: Runtime_Run_def)

text \<open>Predicates on the results only.\<close>

lemma terminal_at_cong: "ws_Results st = ws_Results st2 \<Longrightarrow> terminal_at st k = terminal_at st2 k"
  by (simp add: terminal_at_def)

lemma exhausted_cong: "ws_Results st = ws_Results st2 \<Longrightarrow> exhausted rt plan st s = exhausted rt plan st2 s"
  by (simp add: exhausted_def depsSatisfied_iff terminal_at_def attempts_at_def)

lemma settled_steps_cong: "ws_Results st = ws_Results st2 \<Longrightarrow> settled_steps plan st ks = settled_steps plan st2 ks"
  by (simp add: settled_steps_def terminal_at_def)

lemma run_steps_prefix:
  "settled_steps plan st pre \<Longrightarrow> run_steps rt plan (pre @ ks) st log = run_steps rt plan ks st log"
proof (induction pre)
  case (Cons k pre)
  then have "Plan_Step plan k = None \<or> terminal_at st k" and "settled_steps plan st pre"
    by (simp_all add: settled_steps_Cons)
  with Cons.IH show ?case by (auto simp: terminal_at_def split: option.splits)
qed simp

lemma run_steps_settled:
  "settled_steps plan st ks \<Longrightarrow> run_steps rt plan ks st log = (st\<lparr>ws_Status := RunComplete\<rparr>, log, None)"
  using run_steps_prefix [of plan st ks rt "[]" log] by simp

lemma run_step_exhausted:
  assumes "exhausted rt plan st s"
  shows "run_step rt plan (st_ID s) s st log = (st, log, Some RunPanic)"
  using assms runWithPolicy_exhausted [OF assms, of log]
  by (simp add: run_step_def exhausted_def gate_step_def)

lemma start_results [simp]: "ws_Results (start_state plan (Some p)) = ws_Results p"
  by (simp add: start_state_def)

section \<open>Properties\<close>


text \<open>
  \<open>Run\<close> returns without an error exactly when it reports the run complete; then every step of the plan
  is settled, and running the plan again from the returned state, with whatever runner, makes no call at all
  and returns the same results.
\<close>

lemma workflow_completes:
  assumes "Compile parse w = Ok plan" and "Runtime_Run rt plan prior log = (st', log', e)"
  shows "(e = None \<longleftrightarrow> ws_Status st' = RunComplete)
    \<and> (e = None \<longrightarrow> (\<forall>k\<in>set (pn_Order plan). terminal_at st' k)
         \<and> (case Runtime_Run rt2 plan (Some st') log2 of (st2, log3, e2) \<Rightarrow>
              log3 = log2 \<and> e2 = None \<and> ws_Status st2 = RunComplete \<and> ws_Results st2 = ws_Results st'))"
proof -
  note ok = Runtime_Run_ok [OF assms]
  have again: "case Runtime_Run rt2 plan (Some st') log2 of (st2, log3, e2) \<Rightarrow>
      log3 = log2 \<and> e2 = None \<and> ws_Status st2 = RunComplete \<and> ws_Results st2 = ws_Results st'" if "e = None"
  proof -
    have "settled_steps plan st' (pn_Order plan)" using ok that by (simp add: run_ok_def)
    then have "settled_steps plan (begin_state plan (Some st')) (pn_Order plan)"
      by (subst settled_steps_cong [of _ st']) simp_all
    from run_steps_settled [OF this, of rt2 log2] show ?thesis by (simp add: Runtime_Run_def)
  qed
  moreover have "terminal_at st' k" if "e = None" "k \<in> set (pn_Order plan)" for k
  proof -
    have "Plan_Step plan k \<noteq> None" using Compile_facts(3) [OF assms(1)] that(2)
      by (auto simp: Plan_Step_def in_fmdom'_iff)
    with ok that show ?thesis by (auto simp: run_ok_def settled_steps_def)
  qed
  ultimately show ?thesis using ok by (auto simp: run_ok_def)
qed

text \<open>
  A failed run cannot be resumed: when \<open>Run\<close> returned because a step failed for good, running the plan
  again from the returned state panics (it asks a nil error for its text), instead of reporting the failure.
\<close>

lemma resume_after_failure_panics:
  assumes "Compile parse w = Ok plan" and "Runtime_Run rt plan prior log = (st', log', Some (StepFailedErr k err))"
  shows "snd (snd (Runtime_Run rt plan (Some st') log2)) = Some RunPanic"
proof -
  obtain pre i post s where o: "pn_Order plan = pre @ i # post" and pre: "settled_steps plan st' pre"
    and s: "Plan_Step plan i = Some s" and ex: "exhausted rt plan st' s"
    using Runtime_Run_ok [OF assms] by (auto simp: run_ok_def stopped_at_def)
  let ?st = "begin_state plan (Some st')"
  have i: "st_ID s = i" by (rule Compile_facts(2) [OF assms(1) s])
  have ex': "exhausted rt plan ?st s" using ex by (subst exhausted_cong [of _ st']) simp_all
  have "settled_steps plan ?st pre" using pre by (subst settled_steps_cong [of _ st']) simp_all
  then have "Runtime_Run rt plan (Some st') log2 = run_steps rt plan (i # post) ?st log2"
    by (simp add: Runtime_Run_def o run_steps_prefix)
  also have "\<dots> = (?st, log2, Some RunPanic)"
    using s ex' run_step_exhausted [OF ex', of log2] i
    by (auto simp: exhausted_def terminal_at_def split: option.splits)
  finally show ?thesis by simp
qed

section \<open>A concrete run\<close>

definition ex_plan :: "unit Plan" where
  "ex_plan = \<lparr>pn_WorkflowID = ''w'', pn_Version = ''1'', pn_Budget = None, pn_Order = [''a'', ''b''],
     pn_Steps = fmupd ''a'' (ex_step ''a'' ''task'' []) (fmupd ''b'' (ex_step ''b'' ''gate'' [''a'']) fmempty),
     pn_DependsOn = fmupd ''a'' [] (fmupd ''b'' [''a''] fmempty)\<rparr>"

lemma ex_compile_eq: "Compile parse ex_workflow = Ok ex_plan"
  unfolding Compile_def ex_workflow_valid
  by (simp add: ex_plan_def ex_workflow_def ex_step_def steps_map_def step_check_def validateStepConfig_def
      topoOrder_def topo_run_def topo_indegree_def topo_dependents_def add_child_def Let_def eval_simps)

definition ex_wf_runtime :: "bool \<Rightarrow> WfRuntime" where
  "ex_wf_runtime ok = \<lparr>rt_runner = Some (\<lambda>_ _ _. if ok then Ok None else Err ''boom''),
     rt_compensator = None, rt_gates = Some (\<lambda>_ _. Ok True)\<rparr>"

lemmas wf_eval = Runtime_Run_def ex_plan_def ex_step_def start_state_def newRunState_def Plan_Step_def run_step_def
  depsSatisfied_def runWithPolicy_def maxAttempts_def wrap_int_def ex_wf_runtime_def Let_def onFailure_def
  recordStep_def evaluateGate_def set_result_def mk_result_def StepResult_zero_def attempt_loop.simps fail_step_def
  Terminal_def eval_simps

lemma ex_run_completes:
  "\<exists>st'. Runtime_Run (ex_wf_runtime True) ex_plan None [] =
     (st', [CallRun ''a'' 1, RecordWorkflowStep ''a'' ''task'' 1 True, CallGate ''b'', RecordWorkflowStep ''b'' ''gate'' 1 True], None)"
  by (simp add: wf_eval)

lemma ex_run_fails:
  "\<exists>st'. Runtime_Run (ex_wf_runtime False) ex_plan None [] =
     (st', [CallRun ''a'' 1, CallRun ''a'' 2, RecordWorkflowStep ''a'' ''task'' 2 False], Some (StepFailedErr ''a'' ''boom''))"
  by (simp add: wf_eval)


end
