(* ===== verification/ToolPolicy.thy ===== *)
theory ToolPolicy
  imports ContractRecords
begin

text \<open>
  \<open>toolbox/policy/policy.go\<close>: whether a caller may invoke a tool. The engine keeps the audit log; the
  calls of the metrics collector are recorded in \<open>en_denials\<close>. \<open>now\<close> is what the clock returns.
\<close>

record SandboxDecision =
  sd_Required :: bool
  sd_Kind :: string
  sd_Network :: bool
  sd_Allowed :: bool
  sd_Reason :: string

record PolicyDecision =
  pd_Allowed :: bool
  pd_ToolID :: string
  pd_Granted :: "string list"
  pd_Missing :: "string list"
  pd_Denied :: "string list"
  pd_Permissions :: "string list"
  pd_Sandbox :: SandboxDecision
  pd_Reason :: string

record AuditEntry =
  ae_Seq :: int
  ae_ToolID :: string
  ae_ContractID :: string
  ae_Allowed :: bool
  ae_Granted :: "string list"
  ae_Missing :: "string list"
  ae_Denied :: "string list"
  ae_Sandbox :: string
  ae_Reason :: string
  ae_At :: time

record Engine =
  en_enforcer :: "(string \<Rightarrow> bool) option"  \<comment> \<open>\<open>CanEnforce\<close>; \<open>None\<close> is a nil enforcer\<close>
  en_seq :: int
  en_log :: "AuditEntry list"
  en_denials :: "(string \<times> string \<times> string) list"

definition Engine_New :: "(string \<Rightarrow> bool) option \<Rightarrow> Engine" where
  "Engine_New enforcer = \<lparr>en_enforcer = enforcer, en_seq = 0, en_log = [], en_denials = []\<rparr>"

text \<open>The switch over the declared capabilities: granted, missing, denied.\<close>

fun split_caps ::
  "string list \<Rightarrow> string list \<Rightarrow> string list \<Rightarrow> string list \<times> string list \<times> string list \<Rightarrow>
     string list \<times> string list \<times> string list" where
  "split_caps grants denials [] acc = acc"
| "split_caps grants denials (cap # caps) (granted, missing, denied) =
     split_caps grants denials caps
      (if cap \<in> set denials then (granted, missing, denied @ [cap])
       else if cap \<in> set grants then (granted @ [cap], missing, denied)
       else (granted, missing @ [cap], denied))"

definition evaluateSandbox :: "Engine \<Rightarrow> ToolManifest \<Rightarrow> string list \<Rightarrow> SandboxDecision" where
  "evaluateSandbox e m granted =
     (case tm_Sandbox m of
        None \<Rightarrow> \<lparr>sd_Required = False, sd_Kind = [], sd_Network = False, sd_Allowed = True, sd_Reason = []\<rparr>
      | Some spec \<Rightarrow>
         (let kind = (if sb_Kind spec = [] then ''none'' else sb_Kind spec);
              d = \<lparr>sd_Required = sb_Required spec, sd_Kind = kind, sd_Network = sb_Network spec,
                   sd_Allowed = True, sd_Reason = []\<rparr>
          in if sb_Network spec \<and> ''network_access'' \<notin> set granted then
               d\<lparr>sd_Allowed := False, sd_Reason := ''network access requires the network_access capability''\<rparr>
             else if sb_Required spec \<and> kind = ''none'' then
               d\<lparr>sd_Allowed := False, sd_Reason := ''sandbox is required but no isolation kind was declared''\<rparr>
             else if sb_Required spec \<and> (case en_enforcer e of None \<Rightarrow> True | Some can \<Rightarrow> \<not> can kind) then
               d\<lparr>sd_Allowed := False, sd_Reason := ''sandbox kind '' @ kind @ '' cannot be enforced''\<rparr>
             else d))"

definition policy_reason :: "PolicyDecision \<Rightarrow> string" where
  "policy_reason d =
     (if pd_Denied d \<noteq> [] then ''explicitly denied capability''
      else if pd_Missing d \<noteq> [] then ''caller lacks a declared capability''
      else if \<not> sd_Allowed (pd_Sandbox d) then sd_Reason (pd_Sandbox d)
      else [])"

definition policy_record :: "time \<Rightarrow> PolicyDecision \<Rightarrow> string \<Rightarrow> Engine \<Rightarrow> Engine" where
  "policy_record now d contractID e =
     (let n = en_seq e + 1 in
      e\<lparr>en_seq := n,
        en_log := en_log e @ [\<lparr>ae_Seq = n, ae_ToolID = pd_ToolID d, ae_ContractID = contractID,
          ae_Allowed = pd_Allowed d, ae_Granted = pd_Granted d, ae_Missing = pd_Missing d,
          ae_Denied = pd_Denied d, ae_Sandbox = sd_Kind (pd_Sandbox d), ae_Reason = pd_Reason d, ae_At = now\<rparr>]\<rparr>)"

definition denialCapability :: "PolicyDecision \<Rightarrow> string" where
  "denialCapability d =
     (case pd_Missing d of m # _ \<Rightarrow> m | [] \<Rightarrow> (case pd_Denied d of x # _ \<Rightarrow> x | [] \<Rightarrow> []))"

definition policy_decide :: "Engine \<Rightarrow> ToolManifest \<Rightarrow> 'b ExecutionContract \<Rightarrow> PolicyDecision" where
  "policy_decide e m c =
     (let (granted, missing, denied) = split_caps (ec_Capabilities c) (ec_Denied c) (tm_Capabilities m) ([], [], []);
          sandbox = evaluateSandbox e m (ec_Capabilities c);
          d = \<lparr>pd_Allowed = (missing = [] \<and> denied = [] \<and> sd_Allowed sandbox),
               pd_ToolID = ev_ID (tm_Envelope m), pd_Granted = sort granted, pd_Missing = sort missing,
               pd_Denied = sort denied, pd_Permissions = tm_Permissions m, pd_Sandbox = sandbox, pd_Reason = []\<rparr>
      in d\<lparr>pd_Reason := policy_reason d\<rparr>)"

definition Engine_Evaluate :: "time \<Rightarrow> Engine \<Rightarrow> ToolManifest \<Rightarrow> 'b ExecutionContract \<Rightarrow> Engine \<times> PolicyDecision" where
  "Engine_Evaluate now e m c =
     (let d = policy_decide e m c;
          e1 = policy_record now d (ev_ID (ec_Envelope c)) e
      in (if pd_Allowed d then e1
          else e1\<lparr>en_denials := en_denials e1 @ [(pd_ToolID d, pd_Reason d, denialCapability d)]\<rparr>, d))"

section \<open>Properties\<close>

lemma split_caps_spec:
  "split_caps grants denials caps (g, m, d) =
     (g @ filter (\<lambda>c. c \<in> set grants \<and> c \<notin> set denials) caps,
      m @ filter (\<lambda>c. c \<notin> set grants \<and> c \<notin> set denials) caps,
      d @ filter (\<lambda>c. c \<in> set denials) caps)"
  by (induction caps arbitrary: g m d) auto

lemma policy_decide_lists:
  "pd_Granted (policy_decide e m c) = sort (filter (\<lambda>x. x \<in> set (ec_Capabilities c) \<and> x \<notin> set (ec_Denied c)) (tm_Capabilities m))"
  "pd_Missing (policy_decide e m c) = sort (filter (\<lambda>x. x \<notin> set (ec_Capabilities c) \<and> x \<notin> set (ec_Denied c)) (tm_Capabilities m))"
  "pd_Denied (policy_decide e m c) = sort (filter (\<lambda>x. x \<in> set (ec_Denied c)) (tm_Capabilities m))"
  "pd_Sandbox (policy_decide e m c) = evaluateSandbox e m (ec_Capabilities c)"
  by (simp_all add: policy_decide_def split_caps_spec Let_def)

lemma policy_decide_Allowed:
  "pd_Allowed (policy_decide e m c) \<longleftrightarrow>
     (set (tm_Capabilities m) \<subseteq> set (ec_Capabilities c) - set (ec_Denied c))
     \<and> sd_Allowed (evaluateSandbox e m (ec_Capabilities c))"
  by (auto simp: policy_decide_def split_caps_spec Let_def filter_empty_conv)

lemma sandbox_Allowed:
  "sd_Allowed (evaluateSandbox e m granted) \<longleftrightarrow> (case tm_Sandbox m of None \<Rightarrow> True | Some spec \<Rightarrow>
     (\<not> sb_Network spec \<or> ''network_access'' \<in> set granted)
     \<and> (\<not> sb_Required spec \<or> (sb_Kind spec \<noteq> [] \<and> sb_Kind spec \<noteq> ''none''
           \<and> (\<exists>can. en_enforcer e = Some can \<and> can (sb_Kind spec)))))"
  by (auto simp: evaluateSandbox_def Let_def split: option.splits)

lemma mset_split_caps:
  "mset (filter (\<lambda>x. x \<in> g \<and> x \<notin> d) xs) + mset (filter (\<lambda>x. x \<notin> g \<and> x \<notin> d) xs) + mset (filter (\<lambda>x. x \<in> d) xs) = mset xs"
  by (induction xs) auto

text \<open>
  A tool call is allowed exactly when every capability the tool declares is granted by the contract and
  not denied by it, network access is backed by a grant, and a required sandbox names a kind that the
  enforcer can enforce: without an enforcer a required sandbox is refused. The capabilities of the decision
  split the declared ones into granted, missing and denied, and a refusal always has a reason.
\<close>

lemma policy_fails_closed:
  "(case Engine_Evaluate now e m c of (e', d) \<Rightarrow>
      pd_Allowed d = (set (tm_Capabilities m) \<subseteq> set (ec_Capabilities c) - set (ec_Denied c)
        \<and> (case tm_Sandbox m of None \<Rightarrow> True | Some spec \<Rightarrow>
             (if sb_Network spec then ''network_access'' \<in> set (ec_Capabilities c) else True)
           \<and> (if sb_Required spec then sb_Kind spec \<noteq> [] \<and> sb_Kind spec \<noteq> ''none''
                \<and> (\<exists>can. en_enforcer e = Some can \<and> can (sb_Kind spec)) else True)))
    \<and> mset (pd_Granted d) + mset (pd_Missing d) + mset (pd_Denied d) = mset (tm_Capabilities m)
    \<and> set (pd_Granted d) = set (tm_Capabilities m) \<inter> set (ec_Capabilities c) - set (ec_Denied c)
    \<and> pd_Allowed d = (pd_Reason d = []))"
proof -
  let ?d = "policy_decide e m c"
  have "mset (pd_Granted ?d) + mset (pd_Missing ?d) + mset (pd_Denied ?d) = mset (tm_Capabilities m)"
    unfolding policy_decide_lists mset_sort by (rule mset_split_caps)
  moreover have "pd_Allowed ?d = (pd_Reason ?d = [])"
    by (auto simp: policy_decide_def split_caps_spec Let_def policy_reason_def evaluateSandbox_def filter_empty_conv
        split: option.splits)
  ultimately show ?thesis
    by (auto simp: Engine_Evaluate_def Let_def policy_decide_Allowed sandbox_Allowed policy_decide_lists split: option.splits)
qed

text \<open>
  The network check ignores explicit denials: a tool that asks for network access without listing the
  \<open>network_access\<close> capability is allowed although the contract denies that capability, as long as the
  contract's grants still contain it.
\<close>

lemma network_denial_ignored:
  assumes "tm_Sandbox m = Some \<lparr>sb_Required = False, sb_Kind = kind, sb_Network = True\<rparr>"
    and "''network_access'' \<in> set (ec_Capabilities c)" and "''network_access'' \<in> set (ec_Denied c)"
    and "set (tm_Capabilities m) \<subseteq> set (ec_Capabilities c) - set (ec_Denied c)"
  shows "pd_Allowed (snd (Engine_Evaluate now e m c)) \<and> sd_Network (pd_Sandbox (snd (Engine_Evaluate now e m c)))"
  using assms by (simp add: Engine_Evaluate_def Let_def policy_decide_Allowed sandbox_Allowed policy_decide_lists
      evaluateSandbox_def)

text \<open>The audit log numbers every evaluation.\<close>

lemma audit_numbered:
  "map ae_Seq (en_log e) = map int [1..<Suc (length (en_log e))] \<Longrightarrow> en_seq e = int (length (en_log e)) \<Longrightarrow>
     (case Engine_Evaluate now e m c of (e', d) \<Rightarrow>
        map ae_Seq (en_log e') = map int [1..<Suc (length (en_log e'))] \<and> en_seq e' = int (length (en_log e'))
      \<and> ae_Allowed (last (en_log e')) = pd_Allowed d)"
  by (simp add: Engine_Evaluate_def policy_record_def Let_def)

definition ex_manifest :: ToolManifest where
  "ex_manifest = \<lparr>tm_Envelope = \<lparr>ev_ContractVersion = ''2.0'', ev_Kind = ''tool_manifest'', ev_ID = ''t'', ev_ProjectID = [],
       ev_CreatedAt = [], ev_Revision = None, ev_Provenance = None\<rparr>, tm_Name = ''t'', tm_ToolKind = ''tool'',
     tm_Version = ''1'', tm_Description = [], tm_Capabilities = [''run_tests''], tm_Permissions = [],
     tm_InputSchema = None, tm_OutputSchema = None,
     tm_Sandbox = Some \<lparr>sb_Required = False, sb_Kind = [], sb_Network = True\<rparr>, tm_Endpoint = []\<rparr>"

definition ex_exec_contract :: "unit ExecutionContract" where
  "ex_exec_contract = \<lparr>ec_Envelope = tm_Envelope ex_manifest, ec_WorkPackageID = ''w'', ec_AssignmentID = ''a'',
     ec_Capabilities = [''run_tests'', ''network_access''], ec_Denied = [''network_access''], ec_Runtime = None,
     ec_Workspace = None, ec_Budget = (), ec_Gates = [], ec_ExpiresAt = [], ec_Digest = []\<rparr>"

end
