(* ===== verification/ToolHost.thy ===== *)
theory ToolHost
  imports ToolPolicy
begin

text \<open>
  \<open>toolbox/registry/registry.go\<close>, \<open>toolbox/host/host.go\<close> and \<open>toolbox/idempotency.go\<close>: the registry of
  tools and providers, and the host that runs a tool under an execution contract, with its idempotency
  cache. \<open>Invoke\<close> is called by many goroutines at once: each call is a \<open>host_job\<close> that moves from one
  critical section to the next; a system is a host with its jobs. The entries of the map \<open>inflight\<close>
  are shared by the running call and its waiters, so they live in a store and are named by their
  index. What a provider returns is any outcome; a panic of a provider is one of its errors, because
  \<open>invokeProvider\<close> recovers it. Values of inputs and outputs have an arbitrary type \<open>'v\<close>: the deep copies
  of \<open>cloneResult\<close> are the identity on values. \<open>ho_log\<close> records the calls of metrics and providers, and
  what happened to the cache; latencies are left out.
\<close>

section \<open>The registry\<close>

record Registry =
  rg_manifests :: "(string, ToolManifest) fmap"
  rg_providers :: "(string, nat) fmap"  \<comment> \<open>providers are named by numbers\<close>

datatype toolbox_error = ManifestInvalid val_error | ToolRegistered string | NilProvider | ProviderKindRequired
  | ProviderRegistered string

definition toolRegistry_New :: Registry where
  "toolRegistry_New = \<lparr>rg_manifests = fmempty, rg_providers = fmempty\<rparr>"

text \<open>A provider with what its \<open>Kind\<close> returns; \<open>None\<close> is a nil provider.\<close>

definition RegisterProvider :: "(nat \<times> string) option \<Rightarrow> Registry \<Rightarrow> Registry \<times> toolbox_error option" where
  "RegisterProvider p r =
     (case p of None \<Rightarrow> (r, Some NilProvider)
      | Some (prov, kind) \<Rightarrow>
          if kind = [] then (r, Some ProviderKindRequired)
          else if fmlookup (rg_providers r) kind \<noteq> None then (r, Some (ProviderRegistered kind))
          else (r\<lparr>rg_providers := fmupd kind prov (rg_providers r)\<rparr>, None))"

definition manifest_id :: "ToolManifest \<Rightarrow> string" where "manifest_id m = ev_ID (tm_Envelope m)"

definition tool_Register :: "(string \<Rightarrow> time option) \<Rightarrow> ToolManifest \<Rightarrow> Registry \<Rightarrow> Registry \<times> toolbox_error option" where
  "tool_Register parse m r =
     (case ToolManifest_Validate parse m of Some e \<Rightarrow> (r, Some (ManifestInvalid e))
      | None \<Rightarrow>
          if fmlookup (rg_manifests r) (manifest_id m) \<noteq> None then (r, Some (ToolRegistered (manifest_id m)))
          else (r\<lparr>rg_manifests := fmupd (manifest_id m) m (rg_manifests r)\<rparr>, None))"

definition tool_Replace :: "(string \<Rightarrow> time option) \<Rightarrow> ToolManifest \<Rightarrow> Registry \<Rightarrow> Registry \<times> toolbox_error option" where
  "tool_Replace parse m r =
     (case ToolManifest_Validate parse m of Some e \<Rightarrow> (r, Some (ManifestInvalid e))
      | None \<Rightarrow> (r\<lparr>rg_manifests := fmupd (manifest_id m) m (rg_manifests r)\<rparr>, None))"

definition tool_Get :: "string \<Rightarrow> Registry \<Rightarrow> ToolManifest option" where
  "tool_Get k r = fmlookup (rg_manifests r) k"

definition tool_Remove :: "string \<Rightarrow> Registry \<Rightarrow> Registry \<times> bool" where
  "tool_Remove k r =
     (if fmlookup (rg_manifests r) k = None then (r, False)
      else (r\<lparr>rg_manifests := fmdrop k (rg_manifests r)\<rparr>, True))"

definition tool_List :: "string \<Rightarrow> Registry \<Rightarrow> ToolManifest list" where
  "tool_List kind r =
     sort_key manifest_id (filter (\<lambda>m. \<not> (kind \<noteq> [] \<and> tm_ToolKind m \<noteq> kind)) (fm_vals (rg_manifests r)))"

definition ProviderFor :: "string \<Rightarrow> Registry \<Rightarrow> nat option" where
  "ProviderFor kind r = fmlookup (rg_providers r) kind"

definition ProviderForManifest :: "ToolManifest \<Rightarrow> Registry \<Rightarrow> nat option" where
  "ProviderForManifest m r = ProviderFor (tm_ToolKind m) r"

definition tool_Count :: "Registry \<Rightarrow> nat" where "tool_Count r = card (fmdom' (rg_manifests r))"

section \<open>The host's data\<close>

record 'v Invocation =
  iv_ToolID :: string
  iv_Input :: "(string, 'v) fmap option"
  iv_ExecutionContractID :: string
  iv_IdempotencyKey :: string

record 'v ToolResult =
  tr_ToolID :: string
  tr_Output :: "(string, 'v) fmap option"
  tr_Replayed :: bool

datatype host_error = ToolIdRequired | ToolNotFound string | SandboxRefused string | CapabilityDenied string
  | NoProvider string | InputInvalid | KeyConflict | ProviderFailed string | ContextEnded

text \<open>What a provider returns: an error's text or an output.\<close>

type_synonym 'v tool_outcome = "string + (string, 'v) fmap option"

record 'v hostCacheEntry =
  ce_result :: "'v ToolResult"
  ce_inputHash :: string

record 'v hostInflight =
  if_done :: bool
  if_result :: "'v ToolResult"
  if_err :: "host_error option"
  if_inputHash :: string

datatype ('b, 'v) host_event =
    RecordInvocation string string bool
  | RecordCacheHit string
  | RecordCacheMiss string
  | ProviderCalled nat ToolManifest "'v Invocation" "'b ExecutionContract"
  | Completed string string "'v tool_outcome"  \<comment> \<open>key, input hash and outcome of a keyed run\<close>
  | Evicted string

record ('b, 'v) Host =
  ho_registry :: Registry
  ho_policy :: "Engine option"
  ho_cache :: "(string, 'v hostCacheEntry) fmap"
  ho_cacheOrder :: "string list"
  ho_inflight :: "(string, nat) fmap"
  ho_calls :: "'v hostInflight list"
  ho_log :: "('b, 'v) host_event list"

definition Host_New :: "Registry \<Rightarrow> Engine option \<Rightarrow> ('b, 'v) Host" where
  "Host_New reg eng = \<lparr>ho_registry = reg, ho_policy = eng, ho_cache = fmempty, ho_cacheOrder = [],
     ho_inflight = fmempty, ho_calls = [], ho_log = []\<rparr>"

text \<open>The library code the host calls: \<open>Hash\<close>, and JSON of a list of strings and of an input.\<close>

record 'v HostEnv =
  he_hash :: "string \<Rightarrow> string"
  he_json_strings :: "string list \<Rightarrow> string"
  he_json_input :: "(string, 'v) fmap \<Rightarrow> string option"
  he_parse :: "string \<Rightarrow> time option"

definition InvocationKey :: "'v HostEnv \<Rightarrow> string \<Rightarrow> string \<Rightarrow> string \<Rightarrow> string" where
  "InvocationKey E toolID contractID explicit =
     ''invoke:'' @ he_hash E (he_json_strings E [''invoke'', toolID, contractID, explicit])"

definition inputFingerprint :: "'v HostEnv \<Rightarrow> (string, 'v) fmap option \<Rightarrow> string option" where
  "inputFingerprint E input =
     map_option (he_hash E) (he_json_input E (case input of None \<Rightarrow> fmempty | Some m \<Rightarrow> m))"

text \<open>The contract's id, or the invocation's when it is empty, makes the key.\<close>

definition host_key :: "'v HostEnv \<Rightarrow> 'v Invocation \<Rightarrow> 'b ExecutionContract \<Rightarrow> string" where
  "host_key E iv c =
     (let cid = ev_ID (ec_Envelope c); contractID = (if cid = [] then iv_ExecutionContractID iv else cid)
      in InvocationKey E (iv_ToolID iv) contractID (iv_IdempotencyKey iv))"

section \<open>The cache\<close>

definition defaultCacheLimit :: nat where "defaultCacheLimit = 10000"

text \<open>The loop that evicts the oldest entries: what is left, and the keys that went.\<close>

fun evict_loop ::
  "(string, 'v hostCacheEntry) fmap \<Rightarrow> string list \<Rightarrow> (string, 'v hostCacheEntry) fmap \<times> string list \<times> string list" where
  "evict_loop cache [] = (cache, [], [])"
| "evict_loop cache (oldest # rest) =
     (if defaultCacheLimit < card (fmdom' cache) then
        (let (c, ord, gone) = evict_loop (fmdrop oldest cache) rest in (c, ord, oldest # gone))
      else (cache, oldest # rest, []))"

definition storeLocked :: "string \<Rightarrow> 'v hostCacheEntry \<Rightarrow> ('b, 'v) Host \<Rightarrow> ('b, 'v) Host" where
  "storeLocked key entry h =
     (let ord = (if fmlookup (ho_cache h) key = None then ho_cacheOrder h @ [key] else ho_cacheOrder h);
          (cache, ord1, gone) = evict_loop (fmupd key entry (ho_cache h)) ord
      in h\<lparr>ho_cache := cache, ho_cacheOrder := ord1, ho_log := ho_log h @ map Evicted gone\<rparr>)"

section \<open>Invocations\<close>

datatype ('b, 'v) host_job =
    HStart "'v Invocation" "'b ExecutionContract"
  | HPolicy "'v Invocation" "'b ExecutionContract" ToolManifest
  | HProvider "'v Invocation" "'b ExecutionContract" ToolManifest
  | HPlain "'v Invocation" "'b ExecutionContract" ToolManifest
  | HLookup "'v Invocation" "'b ExecutionContract" ToolManifest nat string string
  | HRun "'v Invocation" "'b ExecutionContract" ToolManifest string string nat
  | HStore "'v Invocation" "'b ExecutionContract" ToolManifest string string nat "'v tool_outcome"
  | HWait "'v Invocation" "'b ExecutionContract" ToolManifest string string nat
  | HReturned "'v Invocation" "'b ExecutionContract" "host_error + 'v ToolResult"

definition emit_event :: "('b, 'v) host_event \<Rightarrow> ('b, 'v) Host \<Rightarrow> ('b, 'v) Host" where
  "emit_event ev h = h\<lparr>ho_log := ho_log h @ [ev]\<rparr>"

text \<open>Return from \<open>Invoke\<close> once the manifest is known: the deferred call records the invocation.\<close>

definition ret ::
  "'v Invocation \<Rightarrow> 'b ExecutionContract \<Rightarrow> ToolManifest \<Rightarrow> host_error + 'v ToolResult \<Rightarrow> ('b, 'v) Host \<Rightarrow>
     ('b, 'v) Host \<times> ('b, 'v) host_job" where
  "ret iv c m res h = (emit_event (RecordInvocation (iv_ToolID iv) (tm_ToolKind m) (is_Ok res)) h, HReturned iv c res)"

definition mk_tool_result :: "'v Invocation \<Rightarrow> (string, 'v) fmap option \<Rightarrow> 'v ToolResult" where
  "mk_tool_result iv out = \<lparr>tr_ToolID = iv_ToolID iv, tr_Output = out, tr_Replayed = False\<rparr>"

text \<open>The section under the lock that finds the key cached, in flight or free.\<close>

definition host_lookup ::
  "'v Invocation \<Rightarrow> 'b ExecutionContract \<Rightarrow> ToolManifest \<Rightarrow> nat \<Rightarrow> string \<Rightarrow> string \<Rightarrow> ('b, 'v) Host \<Rightarrow>
     ('b, 'v) Host \<times> ('b, 'v) host_job" where
  "host_lookup iv c m p key ih h =
     (case fmlookup (ho_cache h) key of
        Some cached \<Rightarrow>
          if ce_inputHash cached \<noteq> ih then ret iv c m (Err KeyConflict) h
          else ret iv c m (Ok ((ce_result cached)\<lparr>tr_Replayed := True\<rparr>)) (emit_event (RecordCacheHit key) h)
      | None \<Rightarrow>
         (case fmlookup (ho_inflight h) key of
            Some i \<Rightarrow> if if_inputHash (ho_calls h ! i) \<noteq> ih then ret iv c m (Err KeyConflict) h
                      else (h, HWait iv c m key ih i)
          | None \<Rightarrow>
             (let i = length (ho_calls h);
                  call = \<lparr>if_done = False, if_result = mk_tool_result iv None, if_err = None, if_inputHash = ih\<rparr>
              in (h\<lparr>ho_inflight := fmupd key i (ho_inflight h), ho_calls := ho_calls h @ [call],
                    ho_log := ho_log h @ [RecordCacheMiss key, ProviderCalled p m iv c]\<rparr>,
                  HRun iv c m key ih i))))"

text \<open>The section under the lock after the provider returned.\<close>

definition host_store ::
  "'v Invocation \<Rightarrow> string \<Rightarrow> string \<Rightarrow> nat \<Rightarrow> 'v tool_outcome \<Rightarrow> ('b, 'v) Host \<Rightarrow> ('b, 'v) Host" where
  "host_store iv key ih i out h =
     (let r = mk_tool_result iv (case out of Inl _ \<Rightarrow> None | Inr o1 \<Rightarrow> o1);
          e = (case out of Inl msg \<Rightarrow> Some (ProviderFailed msg) | Inr _ \<Rightarrow> None);
          h1 = emit_event (Completed key ih out)
                 (h\<lparr>ho_calls := (ho_calls h)[i := (ho_calls h ! i)\<lparr>if_done := True, if_result := r, if_err := e\<rparr>]\<rparr>);
          h2 = (if e = None then storeLocked key \<lparr>ce_result = r, ce_inputHash = ih\<rparr> h1 else h1)
      in h2\<lparr>ho_inflight := fmdrop key (ho_inflight h2)\<rparr>)"

text \<open>
  The next critical section of \<open>Invoke\<close>. \<open>out\<close> is what the provider returns when it is running, \<open>ctx_done\<close>
  that the context ended and a waiting \<open>select\<close> took that case.
\<close>

fun host_next ::
  "'v HostEnv \<Rightarrow> time \<Rightarrow> bool \<Rightarrow> 'v tool_outcome \<Rightarrow> ('b, 'v) host_job \<Rightarrow> ('b, 'v) Host \<Rightarrow>
     ('b, 'v) Host \<times> ('b, 'v) host_job" where
  "host_next E now ctx_done out (HStart iv c) h =
     (if iv_ToolID iv = [] then (h, HReturned iv c (Err ToolIdRequired))
      else (case tool_Get (iv_ToolID iv) (ho_registry h) of
          None \<Rightarrow> (emit_event (RecordInvocation (iv_ToolID iv) [] False) h, HReturned iv c (Err (ToolNotFound (iv_ToolID iv))))
        | Some m \<Rightarrow> (h, HPolicy iv c m)))"
| "host_next E now ctx_done out (HPolicy iv c m) h =
     (case ho_policy h of
        None \<Rightarrow> (h, HProvider iv c m)
      | Some e \<Rightarrow>
         (let (e1, d) = Engine_Evaluate now e m c; h1 = h\<lparr>ho_policy := Some e1\<rparr> in
          if pd_Allowed d then (h1, HProvider iv c m)
          else if \<not> sd_Allowed (pd_Sandbox d) then ret iv c m (Err (SandboxRefused (pd_Reason d))) h1
          else ret iv c m (Err (CapabilityDenied (pd_Reason d))) h1))"
| "host_next E now ctx_done out (HProvider iv c m) h =
     (case ProviderForManifest m (ho_registry h) of
        None \<Rightarrow> ret iv c m (Err (NoProvider (tm_ToolKind m))) h
      | Some p \<Rightarrow>
          if iv_IdempotencyKey iv = [] then (emit_event (ProviderCalled p m iv c) h, HPlain iv c m)
          else (case inputFingerprint E (iv_Input iv) of
              None \<Rightarrow> ret iv c m (Err InputInvalid) h
            | Some ih \<Rightarrow> (h, HLookup iv c m p (host_key E iv c) ih)))"
| "host_next E now ctx_done out (HPlain iv c m) h =
     (case out of Inl msg \<Rightarrow> ret iv c m (Err (ProviderFailed msg)) h
      | Inr o1 \<Rightarrow> ret iv c m (Ok (mk_tool_result iv o1)) h)"
| "host_next E now ctx_done out (HLookup iv c m p key ih) h = host_lookup iv c m p key ih h"
| "host_next E now ctx_done out (HRun iv c m key ih i) h = (h, HStore iv c m key ih i out)"
| "host_next E now ctx_done out (HStore iv c m key ih i out1) h =
     ret iv c m (case out1 of Inl msg \<Rightarrow> Err (ProviderFailed msg) | Inr o1 \<Rightarrow> Ok (mk_tool_result iv o1))
       (host_store iv key ih i out1 h)"
| "host_next E now ctx_done out (HWait iv c m key ih i) h =
     (if ctx_done then ret iv c m (Err ContextEnded) h
      else if if_done (ho_calls h ! i) then
        ret iv c m (case if_err (ho_calls h ! i) of Some e \<Rightarrow> Err e
          | None \<Rightarrow> Ok ((if_result (ho_calls h ! i))\<lparr>tr_Replayed := True\<rparr>)) h
      else (h, HWait iv c m key ih i))"
| "host_next E now ctx_done out (HReturned iv c res) h = (h, HReturned iv c res)"

definition Host_Audit :: "('b, 'v) Host \<Rightarrow> AuditEntry list" where
  "Host_Audit h = (case ho_policy h of None \<Rightarrow> [] | Some e \<Rightarrow> en_log e)"

definition ListTools :: "string \<Rightarrow> ('b, 'v) Host \<Rightarrow> ToolManifest list" where
  "ListTools kind h = tool_List kind (ho_registry h)"

section \<open>Concurrent calls\<close>

record ('b, 'v) HostSystem =
  hs_host :: "('b, 'v) Host"
  hs_jobs :: "('b, 'v) host_job list"

datatype ('b, 'v) host_action =
    CallInvoke "'v Invocation" "'b ExecutionContract"
  | StepInvoke nat time bool "'v tool_outcome"
  | CallRegister ToolManifest
  | CallReplace ToolManifest
  | CallRemove string
  | CallRegisterProvider "(nat \<times> string) option"

definition on_registry :: "(Registry \<Rightarrow> Registry \<times> 'r) \<Rightarrow> ('b, 'v) HostSystem \<Rightarrow> ('b, 'v) HostSystem" where
  "on_registry f S = S\<lparr>hs_host := (hs_host S)\<lparr>ho_registry := fst (f (ho_registry (hs_host S)))\<rparr>\<rparr>"

fun host_apply :: "'v HostEnv \<Rightarrow> ('b, 'v) host_action \<Rightarrow> ('b, 'v) HostSystem \<Rightarrow> ('b, 'v) HostSystem" where
  "host_apply E (CallInvoke iv c) S = S\<lparr>hs_jobs := hs_jobs S @ [HStart iv c]\<rparr>"
| "host_apply E (StepInvoke i now ctx_done out) S =
     (if i < length (hs_jobs S) then
        (let (h1, j) = host_next E now ctx_done out (hs_jobs S ! i) (hs_host S)
         in S\<lparr>hs_host := h1, hs_jobs := (hs_jobs S)[i := j]\<rparr>)
      else S)"
| "host_apply E (CallRegister m) S = on_registry (tool_Register (he_parse E) m) S"
| "host_apply E (CallReplace m) S = on_registry (tool_Replace (he_parse E) m) S"
| "host_apply E (CallRemove k) S = on_registry (tool_Remove k) S"
| "host_apply E (CallRegisterProvider p) S = on_registry (RegisterProvider p) S"

definition host_start :: "Engine option \<Rightarrow> ('b, 'v) HostSystem" where
  "host_start eng = \<lparr>hs_host = Host_New toolRegistry_New eng, hs_jobs = []\<rparr>"

definition host_run :: "'v HostEnv \<Rightarrow> ('b, 'v) host_action list \<Rightarrow> Engine option \<Rightarrow> ('b, 'v) HostSystem" where
  "host_run E acts eng = fold (host_apply E) acts (host_start eng)"

end
