(* ===== verification/ToolHostProps.thy ===== *)
theory ToolHostProps
  imports ToolHost
begin

text \<open>
  The host under concurrent invocations. Each call is judged by \<open>job_ok\<close>, which the steps of the other calls
  preserve because they only change the host as \<open>host_grows\<close> allows; \<open>host_ok\<close> holds of the host itself.
\<close>

section \<open>Eviction\<close>

lemma evict_loop_spec:
  "evict_loop cache ord = (c, ord1, gone) \<Longrightarrow> fmdom' cache = set ord \<Longrightarrow> distinct ord \<Longrightarrow>
     ord = gone @ ord1 \<and> fmdom' c = set ord1 \<and> length ord1 \<le> defaultCacheLimit
     \<and> (\<forall>k. fmlookup c k = (if k \<in> set gone then None else fmlookup cache k))"
proof (induction cache ord arbitrary: c ord1 gone rule: evict_loop.induct)
  case (2 cache oldest rest)
  have n: "card (fmdom' cache) = Suc (length rest)"
    using 2(3,4) by (simp add: distinct_card)
  show ?case
  proof (cases "defaultCacheLimit < card (fmdom' cache)")
    case True
    obtain c2 o2 g2 where e: "evict_loop (fmdrop oldest cache) rest = (c2, o2, g2)" by (cases "evict_loop (fmdrop oldest cache) rest")
    have "fmdom' (fmdrop oldest cache) = set rest" using 2(3,4) by auto
    from 2(1) [OF True e this] 2(4) have "rest = g2 @ o2 \<and> fmdom' c2 = set o2 \<and> length o2 \<le> defaultCacheLimit
      \<and> (\<forall>k. fmlookup c2 k = (if k \<in> set g2 then None else fmlookup (fmdrop oldest cache) k))" by simp
    moreover have "c = c2" "ord1 = o2" "gone = oldest # g2" using 2(2) True e by simp_all
    ultimately show ?thesis by auto
  next
    case False
    then have "c = cache" "ord1 = oldest # rest" "gone = []" using 2(2) by simp_all
    moreover have "length (oldest # rest) \<le> defaultCacheLimit" using False n by simp
    ultimately show ?thesis using 2(3) by simp
  qed
qed simp

section \<open>Events\<close>

text \<open>A call of a provider under the idempotency key \<open>k\<close>.\<close>

fun is_run :: "'v HostEnv \<Rightarrow> string \<Rightarrow> ('b, 'v) host_event \<Rightarrow> bool" where
  "is_run E k (ProviderCalled p m iv c) = (iv_IdempotencyKey iv \<noteq> [] \<and> host_key E iv c = k)" | "is_run E k _ = False"

fun is_success :: "string \<Rightarrow> ('b, 'v) host_event \<Rightarrow> bool" where
  "is_success k (Completed key _ (Inr _)) = (key = k)" | "is_success k _ = False"

fun is_failure :: "string \<Rightarrow> ('b, 'v) host_event \<Rightarrow> bool" where
  "is_failure k (Completed key _ (Inl _)) = (key = k)" | "is_failure k _ = False"

fun is_evicted :: "string \<Rightarrow> ('b, 'v) host_event \<Rightarrow> bool" where
  "is_evicted k (Evicted key) = (key = k)" | "is_evicted k _ = False"

abbreviation occurs :: "(('b, 'v) host_event \<Rightarrow> bool) \<Rightarrow> ('b, 'v) Host \<Rightarrow> nat" where
  "occurs P h \<equiv> length (filter P (ho_log h))"

lemma filter_map_Evicted [simp]:
  "filter (is_run E k) (map Evicted gone) = []" "filter (is_success k) (map Evicted gone) = []"
  "filter (is_failure k) (map Evicted gone) = []"
  by (induction gone) simp_all

lemma count_Evicted:
  "distinct gone \<Longrightarrow> length (filter (is_evicted k) (map Evicted gone)) = (if k \<in> set gone then 1 else 0)"
  unfolding filter_map comp_def is_evicted.simps length_map by (induction gone) (auto simp: filter_empty_conv)

section \<open>What a call may do\<close>

definition permitted :: "(string \<Rightarrow> bool) option option \<Rightarrow> 'b ExecutionContract \<Rightarrow> ToolManifest \<Rightarrow> bool" where
  "permitted en c m \<longleftrightarrow> (case en of None \<Rightarrow> True | Some enf \<Rightarrow> pd_Allowed (policy_decide (Engine_New enf) m c))"

abbreviation host_enforcer :: "('b, 'v) Host \<Rightarrow> (string \<Rightarrow> bool) option option" where
  "host_enforcer h \<equiv> map_option en_enforcer (ho_policy h)"

definition tool_known :: "'v HostEnv \<Rightarrow> 'v Invocation \<Rightarrow> ToolManifest \<Rightarrow> bool" where
  "tool_known E iv m \<longleftrightarrow> manifest_id m = iv_ToolID iv \<and> ToolManifest_Validate (he_parse E) m = None"

definition tool_ok ::
  "'v HostEnv \<Rightarrow> (string \<Rightarrow> bool) option option \<Rightarrow> 'v Invocation \<Rightarrow> 'b ExecutionContract \<Rightarrow> ToolManifest \<Rightarrow> bool" where
  "tool_ok E en iv c m \<longleftrightarrow> tool_known E iv m \<and> permitted en c m"

definition keyed_call :: "'v HostEnv \<Rightarrow> 'v Invocation \<Rightarrow> 'b ExecutionContract \<Rightarrow> string \<Rightarrow> string \<Rightarrow> bool" where
  "keyed_call E iv c key ih \<longleftrightarrow> iv_IdempotencyKey iv \<noteq> [] \<and> key = host_key E iv c
     \<and> inputFingerprint E (iv_Input iv) = Some ih"

lemma policy_decide_enforcer: "en_enforcer e = en_enforcer e' \<Longrightarrow> policy_decide e m c = policy_decide e' m c"
proof -
  assume eq: "en_enforcer e = en_enforcer e'"
  have "evaluateSandbox e m g = evaluateSandbox e' m g" for g unfolding evaluateSandbox_def eq ..
  then show ?thesis by (simp add: policy_decide_def)
qed

lemma Engine_Evaluate_facts:
  assumes "Engine_Evaluate now e m c = (e1, d)"
  shows "en_enforcer e1 = en_enforcer e" and "d = policy_decide (Engine_New (en_enforcer e)) m c"
proof -
  show "en_enforcer e1 = en_enforcer e" using assms by (auto simp: Engine_Evaluate_def Let_def policy_record_def)
  have "d = policy_decide e m c" using assms by (auto simp: Engine_Evaluate_def Let_def)
  then show "d = policy_decide (Engine_New (en_enforcer e)) m c"
    using policy_decide_enforcer [of e "Engine_New (en_enforcer e)"] by (simp add: Engine_New_def)
qed

section \<open>Invariants\<close>

definition cache_ok :: "('b, 'v) Host \<Rightarrow> bool" where
  "cache_ok h \<longleftrightarrow> fmdom' (ho_cache h) = set (ho_cacheOrder h) \<and> distinct (ho_cacheOrder h)
     \<and> length (ho_cacheOrder h) \<le> defaultCacheLimit
     \<and> (\<forall>k ce. fmlookup (ho_cache h) k = Some ce \<longrightarrow>
          Completed k (ce_inputHash ce) (Inr (tr_Output (ce_result ce))) \<in> set (ho_log h))"

definition calls_ok :: "('b, 'v) Host \<Rightarrow> bool" where
  "calls_ok h \<longleftrightarrow> (\<forall>k i. fmlookup (ho_inflight h) k = Some i \<longrightarrow>
        i < length (ho_calls h) \<and> \<not> if_done (ho_calls h ! i) \<and> fmlookup (ho_cache h) k = None)
     \<and> (\<forall>k k2 i. fmlookup (ho_inflight h) k = Some i \<longrightarrow> fmlookup (ho_inflight h) k2 = Some i \<longrightarrow> k = k2)"

definition counts_ok :: "'v HostEnv \<Rightarrow> ('b, 'v) Host \<Rightarrow> bool" where
  "counts_ok E h \<longleftrightarrow> (\<forall>k.
      occurs (is_run E k) h = occurs (is_success k) h + occurs (is_failure k) h
        + (if fmlookup (ho_inflight h) k = None then 0 else 1)
    \<and> occurs (is_success k) h = occurs (is_evicted k) h + (if fmlookup (ho_cache h) k = None then 0 else 1))"

definition host_ok :: "'v HostEnv \<Rightarrow> (string \<Rightarrow> bool) option option \<Rightarrow> ('b, 'v) Host \<Rightarrow> bool" where
  "host_ok E en h \<longleftrightarrow> cache_ok h \<and> calls_ok h \<and> counts_ok E h \<and> host_enforcer h = en
     \<and> (\<forall>k m. fmlookup (rg_manifests (ho_registry h)) k = Some m \<longrightarrow>
          manifest_id m = k \<and> ToolManifest_Validate (he_parse E) m = None)
     \<and> (\<forall>p m iv c. ProviderCalled p m iv c \<in> set (ho_log h) \<longrightarrow> tool_ok E en iv c m)"

text \<open>A finished call that succeeded has the outcome of a completed run.\<close>

definition served :: "('b, 'v) Host \<Rightarrow> string \<Rightarrow> nat \<Rightarrow> bool" where
  "served h key i \<longleftrightarrow> (if_err (ho_calls h ! i) = None \<longrightarrow>
     Completed key (if_inputHash (ho_calls h ! i)) (Inr (tr_Output (if_result (ho_calls h ! i)))) \<in> set (ho_log h))"

definition running :: "('b, 'v) Host \<Rightarrow> string \<Rightarrow> nat \<Rightarrow> bool" where
  "running h ih i \<longleftrightarrow> i < length (ho_calls h) \<and> if_inputHash (ho_calls h ! i) = ih"

fun job_ok ::
  "'v HostEnv \<Rightarrow> (string \<Rightarrow> bool) option option \<Rightarrow> ('b, 'v) Host \<Rightarrow> ('b, 'v) host_job \<Rightarrow> bool" where
  "job_ok E en h (HStart iv c) = True"
| "job_ok E en h (HPolicy iv c m) = tool_known E iv m"
| "job_ok E en h (HProvider iv c m) = tool_ok E en iv c m"
| "job_ok E en h (HPlain iv c m) = tool_ok E en iv c m"
| "job_ok E en h (HLookup iv c m p key ih) = (tool_ok E en iv c m \<and> keyed_call E iv c key ih)"
| "job_ok E en h (HRun iv c m key ih i) = (tool_ok E en iv c m \<and> keyed_call E iv c key ih \<and> running h ih i)"
| "job_ok E en h (HStore iv c m key ih i out) = (tool_ok E en iv c m \<and> keyed_call E iv c key ih \<and> running h ih i)"
| "job_ok E en h (HWait iv c m key ih i) = (tool_ok E en iv c m \<and> keyed_call E iv c key ih \<and> running h ih i
     \<and> (if if_done (ho_calls h ! i) then served h key i else fmlookup (ho_inflight h) key = Some i))"
| "job_ok E en h (HReturned iv c res) = (case res of Inl _ \<Rightarrow> True
     | Inr r \<Rightarrow> (\<exists>m. tool_ok E en iv c m)
        \<and> (tr_Replayed r \<longrightarrow> (\<exists>ih. keyed_call E iv c (host_key E iv c) ih
             \<and> Completed (host_key E iv c) ih (Inr (tr_Output r)) \<in> set (ho_log h))))"

text \<open>What any step may do to the host.\<close>

definition host_grows :: "('b, 'v) Host \<Rightarrow> ('b, 'v) Host \<Rightarrow> bool" where
  "host_grows h h' \<longleftrightarrow> set (ho_log h) \<subseteq> set (ho_log h') \<and> length (ho_calls h) \<le> length (ho_calls h')
     \<and> (\<forall>i<length (ho_calls h).
          (ho_calls h' ! i = ho_calls h ! i \<and> (\<forall>k. fmlookup (ho_inflight h) k = Some i \<longrightarrow> fmlookup (ho_inflight h') k = Some i))
        \<or> (\<not> if_done (ho_calls h ! i) \<and> if_done (ho_calls h' ! i)
             \<and> if_inputHash (ho_calls h' ! i) = if_inputHash (ho_calls h ! i)
             \<and> (\<forall>k. fmlookup (ho_inflight h) k = Some i \<longrightarrow> served h' k i)))"

lemma host_grows_same:
  "set (ho_log h) \<subseteq> set (ho_log h') \<Longrightarrow> ho_calls h' = ho_calls h \<Longrightarrow> ho_inflight h' = ho_inflight h \<Longrightarrow> host_grows h h'"
  by (simp add: host_grows_def)

lemma job_ok_grows:
  assumes "job_ok E en h j" and g: "host_grows h h'"
  shows "job_ok E en h' j"
proof -
  have run: "running h ih i \<Longrightarrow> running h' ih i" for ih i
    using g by (fastforce simp: running_def host_grows_def)
  show ?thesis
  proof (cases j)
    case (HWait iv c m key ih i)
    have i: "i < length (ho_calls h)" using assms HWait by (simp add: running_def)
    then consider
      (same) "ho_calls h' ! i = ho_calls h ! i" "\<forall>k. fmlookup (ho_inflight h) k = Some i \<longrightarrow> fmlookup (ho_inflight h') k = Some i"
    | (fin) "\<not> if_done (ho_calls h ! i)" "if_done (ho_calls h' ! i)" "\<forall>k. fmlookup (ho_inflight h) k = Some i \<longrightarrow> served h' k i"
      using g by (auto simp: host_grows_def)
    then have "if if_done (ho_calls h' ! i) then served h' key i else fmlookup (ho_inflight h') key = Some i"
    proof cases
      case same
      have "served h key i \<Longrightarrow> served h' key i" using same(1) g by (auto simp: served_def host_grows_def)
      with assms(1) HWait same show ?thesis by (auto split: if_splits)
    next
      case fin
      with assms(1) HWait show ?thesis by simp
    qed
    with assms(1) HWait run show ?thesis by auto
  next
    case (HReturned iv c res)
    have "set (ho_log h) \<subseteq> set (ho_log h')" using g by (simp add: host_grows_def)
    with assms(1) HReturned show ?thesis by (cases res) auto
  qed (use assms(1) run in auto)
qed

section \<open>Quiet steps\<close>

fun neutral :: "'v HostEnv \<Rightarrow> (string \<Rightarrow> bool) option option \<Rightarrow> ('b, 'v) host_event \<Rightarrow> bool" where
  "neutral E en (RecordInvocation _ _ _) = True"
| "neutral E en (RecordCacheHit _) = True"
| "neutral E en (RecordCacheMiss _) = True"
| "neutral E en (ProviderCalled p m iv c) = (tool_ok E en iv c m \<and> iv_IdempotencyKey iv = [])"
| "neutral E en _ = False"

text \<open>The step records something but leaves the cache and the running calls alone.\<close>

definition quiet :: "'v HostEnv \<Rightarrow> (string \<Rightarrow> bool) option option \<Rightarrow> ('b, 'v) Host \<Rightarrow> ('b, 'v) Host \<Rightarrow> bool" where
  "quiet E en h h' \<longleftrightarrow> ho_cache h' = ho_cache h \<and> ho_cacheOrder h' = ho_cacheOrder h \<and> ho_inflight h' = ho_inflight h
     \<and> ho_calls h' = ho_calls h \<and> ho_registry h' = ho_registry h \<and> host_enforcer h' = host_enforcer h
     \<and> (\<exists>evs. ho_log h' = ho_log h @ evs \<and> list_all (neutral E en) evs)"

lemma quiet_refl [simp]: "quiet E en h h"
  by (simp add: quiet_def exI [of _ "[]"])

lemma neutral_uncounted:
  "neutral E en ev \<Longrightarrow> \<not> is_run E k ev \<and> \<not> is_success k ev \<and> \<not> is_failure k ev \<and> \<not> is_evicted k ev"
  by (cases ev) simp_all

lemma quiet_emit [simp]: "neutral E en ev \<Longrightarrow> quiet E en h (emit_event ev h)"
  by (simp add: quiet_def emit_event_def)

lemma quiet_trans: "quiet E en h h1 \<Longrightarrow> quiet E en h1 h2 \<Longrightarrow> quiet E en h h2"
  unfolding quiet_def by (elim conjE exE) simp

lemma quiet_ret: "ret iv c m res h1 = (h', j') \<Longrightarrow> quiet E en h h1 \<Longrightarrow> quiet E en h h' \<and> j' = HReturned iv c res"
  using quiet_emit [of E en "RecordInvocation (iv_ToolID iv) (tm_ToolKind m) (is_Ok res)" h1]
  by (auto simp: ret_def intro: quiet_trans)

lemma quiet_ok:
  assumes ok: "host_ok E en h" and q: "quiet E en h h'"
  shows "host_ok E en h'" and "host_grows h h'" and "ho_inflight h' = ho_inflight h"
proof -
  obtain evs where log: "ho_log h' = ho_log h @ evs" and ne: "list_all (neutral E en) evs"
    and f: "ho_cache h' = ho_cache h" "ho_cacheOrder h' = ho_cacheOrder h" "ho_inflight h' = ho_inflight h"
      "ho_calls h' = ho_calls h" "ho_registry h' = ho_registry h" "host_enforcer h' = host_enforcer h"
    using q by (auto simp: quiet_def)
  have nil: "filter (is_run E k) evs = []" "filter (is_success k) evs = []" "filter (is_failure k) evs = []"
    "filter (is_evicted k) evs = []" for k
    using ne neutral_uncounted by (fastforce simp: filter_empty_conv list_all_iff)+
  have "tool_ok E en iv c m" if "ProviderCalled p m iv c \<in> set (ho_log h')" for p m iv c
    using that ok ne by (auto simp: log host_ok_def list_all_iff dest: bspec)
  then show "host_ok E en h'"
    using ok by (simp add: host_ok_def cache_ok_def calls_ok_def counts_ok_def f log nil)
  show "host_grows h h'" by (rule host_grows_same) (simp_all add: f log)
  show "ho_inflight h' = ho_inflight h" by (rule f(3))
qed

lemma host_grows_quiet:
  assumes g: "host_grows h h1" and q: "quiet E en h1 h2"
  shows "host_grows h h2"
proof -
  have f: "ho_calls h2 = ho_calls h1" "ho_inflight h2 = ho_inflight h1" and log: "set (ho_log h1) \<subseteq> set (ho_log h2)"
    using q by (auto simp: quiet_def)
  have "served h1 k i \<Longrightarrow> served h2 k i" for k i using log by (auto simp: served_def f)
  then show ?thesis using g log unfolding host_grows_def f by blast
qed

section \<open>Claiming a key\<close>

fun owner :: "('b, 'v) host_job \<Rightarrow> (string \<times> nat) option" where
  "owner (HRun iv c m key ih i) = Some (key, i)"
| "owner (HStore iv c m key ih i out) = Some (key, i)"
| "owner _ = None"

definition claimed :: "'v Invocation \<Rightarrow> 'b ExecutionContract \<Rightarrow> ToolManifest \<Rightarrow> nat \<Rightarrow> string \<Rightarrow> string \<Rightarrow> ('b, 'v) Host \<Rightarrow> ('b, 'v) Host" where
  "claimed iv c m p key ih h = h\<lparr>ho_inflight := fmupd key (length (ho_calls h)) (ho_inflight h),
     ho_calls := ho_calls h @ [\<lparr>if_done = False, if_result = mk_tool_result iv None, if_err = None, if_inputHash = ih\<rparr>],
     ho_log := ho_log h @ [RecordCacheMiss key, ProviderCalled p m iv c]\<rparr>"

lemma claim_ok:
  assumes ok: "host_ok E en h" and t: "tool_ok E en iv c m" and kc: "keyed_call E iv c key ih"
    and free: "fmlookup (ho_cache h) key = None" "fmlookup (ho_inflight h) key = None"
  shows "host_ok E en (claimed iv c m p key ih h)" and "host_grows h (claimed iv c m p key ih h)"
    and "running (claimed iv c m p key ih h) ih (length (ho_calls h))"
proof -
  let ?h = "claimed iv c m p key ih h"
  have "calls_ok ?h"
    using ok free by (auto simp: host_ok_def calls_ok_def claimed_def nth_append less_Suc_eq split: if_splits)
  moreover have "counts_ok E ?h"
    using ok free kc by (auto simp: host_ok_def counts_ok_def claimed_def keyed_call_def)
  ultimately show "host_ok E en ?h"
    using ok t by (auto simp: host_ok_def cache_ok_def claimed_def)
  show "host_grows h ?h" using free(2) by (auto simp: host_grows_def claimed_def nth_append)
  show "running ?h ih (length (ho_calls h))" by (simp add: running_def claimed_def)
qed

section \<open>Finishing a run\<close>

lemma finished_grows:
  assumes ok: "host_ok E en h" and i: "fmlookup (ho_inflight h) key = Some i"
    and log: "set (ho_log h) \<subseteq> set (ho_log h')" and calls: "ho_calls h' = (ho_calls h)[i := call]"
    and infl: "ho_inflight h' = fmdrop key (ho_inflight h)" and fin: "if_done call" "if_inputHash call = if_inputHash (ho_calls h ! i)"
    and served: "if_err call = None \<Longrightarrow> Completed key (if_inputHash call) (Inr (tr_Output (if_result call))) \<in> set (ho_log h')"
  shows "host_grows h h'"
proof -
  have co: "i < length (ho_calls h)" "\<not> if_done (ho_calls h ! i)"
    and inj: "\<And>k. fmlookup (ho_inflight h) k = Some i \<Longrightarrow> k = key"
    using ok i by (auto simp: host_ok_def calls_ok_def)
  have "ho_calls h' ! i = call" using co(1) calls by simp
  then have "served h' k i" if "fmlookup (ho_inflight h) k = Some i" for k
    using served inj [OF that] by (simp add: served_def)
  moreover have "fmlookup (ho_inflight h') k = Some j" if "fmlookup (ho_inflight h) k = Some j" "j \<noteq> i" for k j
    using that i infl by auto
  ultimately show ?thesis
    using log co fin \<open>ho_calls h' ! i = call\<close> unfolding host_grows_def calls
    by (auto simp: nth_list_update)
qed

lemma dropped_calls_ok:
  assumes ok: "calls_ok h" and i: "fmlookup (ho_inflight h) key = Some i"
    and calls: "ho_calls h' = (ho_calls h)[i := call]" and infl: "ho_inflight h' = fmdrop key (ho_inflight h)"
    and cache: "\<And>k. k \<noteq> key \<Longrightarrow> fmlookup (ho_cache h) k = None \<Longrightarrow> fmlookup (ho_cache h') k = None"
  shows "calls_ok h'"
proof -
  have "j \<noteq> i" if "fmlookup (ho_inflight h) k = Some j" "k \<noteq> key" for k j
    using ok i that by (auto simp: calls_ok_def)
  then show ?thesis using ok cache by (fastforce simp: calls_ok_def calls infl)
qed

lemma store_failed:
  assumes ok: "host_ok E en h" and i: "fmlookup (ho_inflight h) key = Some i" and ih: "running h ih i"
    and h': "h' = host_store iv key ih i (Inl msg) h"
  shows "host_ok E en h' \<and> host_grows h h' \<and> ho_inflight h' = fmdrop key (ho_inflight h)"
proof -
  define call where "call = (ho_calls h ! i)\<lparr>if_done := True, if_result := mk_tool_result iv None, if_err := Some (ProviderFailed msg)\<rparr>"
  have f: "ho_cache h' = ho_cache h" "ho_cacheOrder h' = ho_cacheOrder h" "ho_log h' = ho_log h @ [Completed key ih (Inl msg)]"
    "ho_calls h' = (ho_calls h)[i := call]" "ho_inflight h' = fmdrop key (ho_inflight h)" "ho_registry h' = ho_registry h"
    "ho_policy h' = ho_policy h"
    by (simp_all add: h' host_store_def emit_event_def call_def Let_def)
  have "calls_ok h'" by (rule dropped_calls_ok [OF _ i f(4,5)]) (use ok f(1) in \<open>auto simp: host_ok_def\<close>)
  moreover have "counts_ok E h'" using ok i by (auto simp: host_ok_def counts_ok_def f)
  ultimately have "host_ok E en h'" using ok by (simp add: host_ok_def cache_ok_def f)
  moreover have "host_grows h h'"
    by (rule finished_grows [OF ok i _ f(4,5)]) (auto simp: f(3) call_def)
  ultimately show ?thesis using f(5) by simp
qed

lemma store_succeeded:
  assumes ok: "host_ok E en h" and i: "fmlookup (ho_inflight h) key = Some i" and ih: "running h ih i"
    and h': "h' = host_store iv key ih i (Inr o1) h"
  shows "host_ok E en h' \<and> host_grows h h' \<and> ho_inflight h' = fmdrop key (ho_inflight h)"
proof -
  define r where "r = mk_tool_result iv o1"
  define call where "call = (ho_calls h ! i)\<lparr>if_done := True, if_result := r, if_err := None\<rparr>"
  define entry where "entry = \<lparr>ce_result = r, ce_inputHash = ih\<rparr>"
  obtain c ord gone where ev: "evict_loop (fmupd key entry (ho_cache h)) (ho_cacheOrder h @ [key]) = (c, ord, gone)"
    by (cases "evict_loop (fmupd key entry (ho_cache h)) (ho_cacheOrder h @ [key])")
  have free: "fmlookup (ho_cache h) key = None" using ok i by (auto simp: host_ok_def calls_ok_def)
  have f: "ho_cache h' = c" "ho_cacheOrder h' = ord"
    "ho_log h' = ho_log h @ Completed key ih (Inr o1) # map Evicted gone"
    "ho_calls h' = (ho_calls h)[i := call]" "ho_inflight h' = fmdrop key (ho_inflight h)" "ho_registry h' = ho_registry h"
    "ho_policy h' = ho_policy h"
    using free ev by (simp_all add: h' host_store_def emit_event_def call_def Let_def storeLocked_def r_def entry_def)
  have dom: "fmdom' (ho_cache h) = set (ho_cacheOrder h)" "distinct (ho_cacheOrder h)"
    using ok by (auto simp: host_ok_def cache_ok_def)
  have "key \<notin> fmdom' (ho_cache h)" using free by (simp add: in_fmdom'_iff)
  then have new: "key \<notin> set (ho_cacheOrder h)" by (simp add: dom(1))
  with dom have "fmdom' (fmupd key entry (ho_cache h)) = set (ho_cacheOrder h @ [key])" "distinct (ho_cacheOrder h @ [key])" by auto
  note e = evict_loop_spec [OF ev this]
  have split: "ho_cacheOrder h @ [key] = gone @ ord" and len: "length ord \<le> defaultCacheLimit"
    and look: "\<And>k. fmlookup c k = (if k \<in> set gone then None else fmlookup (fmupd key entry (ho_cache h)) k)"
    and domc: "fmdom' c = set ord"
    using e by auto
  have dist: "distinct (gone @ ord)" using dom(2) new by (simp add: split [symmetric])
  have gone: "k \<in> set gone \<Longrightarrow> k = key \<or> fmlookup (ho_cache h) k \<noteq> None" for k
  proof -
    assume "k \<in> set gone"
    then have "k \<in> set (ho_cacheOrder h @ [key])" by (simp add: split)
    then have "k = key \<or> k \<in> fmdom' (ho_cache h)" by (auto simp: dom(1))
    then show ?thesis by (auto simp: in_fmdom'_iff)
  qed
  have ce: "tr_Output (ce_result entry) = o1" "ce_inputHash entry = ih" by (simp_all add: entry_def r_def mk_tool_result_def)
  have "Completed k (ce_inputHash x) (Inr (tr_Output (ce_result x))) \<in> set (ho_log h')" if "fmlookup c k = Some x" for k x
    using that ok ce by (auto simp: look f(3) host_ok_def cache_ok_def split: if_splits)
  then have "cache_ok h'" using dist len domc by (simp add: cache_ok_def f(1,2))
  moreover have "calls_ok h'"
    by (rule dropped_calls_ok [OF _ i f(4,5)]) (use ok in \<open>auto simp: host_ok_def f(1) look\<close>)
  moreover have "counts_ok E h'"
  proof -
    have old: "occurs (is_run E k) h = occurs (is_success k) h + occurs (is_failure k) h
        + (if fmlookup (ho_inflight h) k = None then 0 else 1)"
      "occurs (is_success k) h = occurs (is_evicted k) h + (if fmlookup (ho_cache h) k = None then 0 else 1)" for k
      using ok by (auto simp: host_ok_def counts_ok_def)
    have ev: "occurs (is_evicted k) h' = occurs (is_evicted k) h + (if k \<in> set gone then 1 else 0)" for k
      using dist count_Evicted [of gone k] by (simp add: f(3))
    have su: "occurs (is_success k) h' = occurs (is_success k) h + (if key = k then 1 else 0)" for k by (simp add: f(3))
    have other: "occurs (is_run E k) h' = occurs (is_run E k) h" "occurs (is_failure k) h' = occurs (is_failure k) h" for k
      by (simp_all add: f(3))
    show ?thesis
      unfolding counts_ok_def ev su other f(1,5) look
    proof (intro allI conjI)
      fix k
      show "occurs (is_run E k) h = occurs (is_success k) h + (if key = k then 1 else 0) + occurs (is_failure k) h
          + (if fmlookup (fmdrop key (ho_inflight h)) k = None then 0 else 1)"
        using old(1) [of k] i by auto
      show "occurs (is_success k) h + (if key = k then 1 else 0) = occurs (is_evicted k) h + (if k \<in> set gone then 1 else 0)
          + (if (if k \<in> set gone then None else fmlookup (fmupd key entry (ho_cache h)) k) = None then 0 else 1)"
        using old(2) [of k] gone [of k] free by auto
    qed
  qed
  ultimately have "host_ok E en h'" using ok by (auto simp: host_ok_def f(3,6,7))
  moreover have "host_grows h h'"
    by (rule finished_grows [OF ok i _ f(4,5)]) (use ih in \<open>auto simp: f(3) call_def r_def mk_tool_result_def running_def\<close>)
  ultimately show ?thesis using f(5) by simp
qed

section \<open>The steps of a call\<close>

text \<open>How a step changes who is in charge of which key.\<close>

definition hands_over :: "('b, 'v) host_job \<Rightarrow> ('b, 'v) host_job \<Rightarrow> (string, nat) fmap \<Rightarrow> (string, nat) fmap \<Rightarrow> bool" where
  "hands_over j j' infl infl' \<longleftrightarrow> (owner j' = owner j \<and> infl' = infl)
     \<or> (\<exists>k i. owner j = None \<and> owner j' = Some (k, i) \<and> fmlookup infl k = None \<and> infl' = fmupd k i infl)
     \<or> (\<exists>k i. owner j = Some (k, i) \<and> owner j' = None \<and> infl' = fmdrop k infl)"

definition step_ok ::
  "'v HostEnv \<Rightarrow> (string \<Rightarrow> bool) option option \<Rightarrow> ('b, 'v) Host \<Rightarrow> ('b, 'v) host_job \<Rightarrow>
     ('b, 'v) Host \<Rightarrow> ('b, 'v) host_job \<Rightarrow> bool" where
  "step_ok E en h j h' j' \<longleftrightarrow> host_ok E en h' \<and> job_ok E en h' j' \<and> host_grows h h'
     \<and> hands_over j j' (ho_inflight h) (ho_inflight h')"

lemma quiet_step:
  assumes "host_ok E en h" and q: "quiet E en h h'" and "job_ok E en h j'" and "owner j' = owner j"
  shows "step_ok E en h j h' j'"
  using quiet_ok [OF assms(1) q] job_ok_grows [OF assms(3)] assms(4) by (simp add: step_ok_def hands_over_def)

lemma stay_step: "host_ok E en h \<Longrightarrow> job_ok E en h j' \<Longrightarrow> owner j' = owner j \<Longrightarrow> step_ok E en h j h j'"
  by (rule quiet_step) simp_all

lemma emit_step:
  "host_ok E en h \<Longrightarrow> neutral E en ev \<Longrightarrow> job_ok E en h j' \<Longrightarrow> owner j' = owner j \<Longrightarrow>
     step_ok E en h j (emit_event ev h) j'"
  by (rule quiet_step) simp_all

lemma ret_step:
  assumes "host_ok E en h" and "ret iv c m res h1 = (h', j')" and "quiet E en h h1"
    and "job_ok E en h (HReturned iv c res)" and "owner j = None"
  shows "step_ok E en h j h' j'"
  using quiet_ret [OF assms(2,3)] assms by (auto intro: quiet_step)

lemma lookup_step:
  assumes ok: "host_ok E en h" and j: "job_ok E en h (HLookup iv c m p key ih)"
    and s: "host_lookup iv c m p key ih h = (h', j')"
  shows "step_ok E en h (HLookup iv c m p key ih) h' j'"
proof (cases "fmlookup (ho_cache h) key")
  case (Some cached)
  show ?thesis
  proof (cases "ce_inputHash cached = ih")
    case True
    let ?r = "(ce_result cached)\<lparr>tr_Replayed := True\<rparr>"
    have "Completed key ih (Inr (tr_Output (ce_result cached))) \<in> set (ho_log h)"
      using ok Some True by (auto simp: host_ok_def cache_ok_def)
    then have "job_ok E en h (HReturned iv c (Ok ?r))" using j by (auto simp: keyed_call_def)
    moreover have "ret iv c m (Ok ?r) (emit_event (RecordCacheHit key) h) = (h', j')"
      using s Some True by (simp add: host_lookup_def)
    ultimately show ?thesis using ret_step [OF ok _ quiet_emit] by fastforce
  next
    case False
    with s Some have "ret iv c m (Err KeyConflict) h = (h', j')" by (simp add: host_lookup_def)
    then show ?thesis using ret_step [OF ok _ quiet_refl] by fastforce
  qed
next
  case nc: None
  show ?thesis
  proof (cases "fmlookup (ho_inflight h) key")
    case (Some i)
    show ?thesis
    proof (cases "if_inputHash (ho_calls h ! i) = ih")
      case True
      have "job_ok E en h (HWait iv c m key ih i)"
        using ok j Some True by (auto simp: host_ok_def calls_ok_def running_def)
      moreover have "h' = h" "j' = HWait iv c m key ih i" using s nc Some True by (simp_all add: host_lookup_def)
      ultimately show ?thesis using quiet_step [OF ok quiet_refl] by simp
    next
      case False
      with s nc Some have "ret iv c m (Err KeyConflict) h = (h', j')" by (simp add: host_lookup_def)
      then show ?thesis using ret_step [OF ok _ quiet_refl] by fastforce
    qed
  next
    case None
    have t: "tool_ok E en iv c m" and kc: "keyed_call E iv c key ih" using j by simp_all
    have "h' = claimed iv c m p key ih h" "j' = HRun iv c m key ih (length (ho_calls h))"
      using s nc None by (simp_all add: host_lookup_def claimed_def Let_def)
    then show ?thesis
      using claim_ok [OF ok t kc nc None] j None by (simp add: step_ok_def hands_over_def) (simp add: claimed_def)
  qed
qed

lemma host_next_ok:
  assumes ok: "host_ok E en h" and j: "job_ok E en h j"
    and own: "\<And>k i. owner j = Some (k, i) \<Longrightarrow> fmlookup (ho_inflight h) k = Some i"
    and s: "host_next E now ctx_done out j h = (h', j')"
  shows "step_ok E en h j h' j'"
proof (cases j)
  case (HStart iv c)
  show ?thesis
  proof (cases "iv_ToolID iv = []")
    case True
    with s HStart ok show ?thesis by (auto intro!: stay_step)
  next
    case False
    show ?thesis
    proof (cases "tool_Get (iv_ToolID iv) (ho_registry h)")
      case None
      with s HStart False ok show ?thesis by (auto intro!: emit_step)
    next
      case (Some m)
      then have "tool_known E iv m" using ok by (auto simp: host_ok_def tool_Get_def tool_known_def)
      with s HStart False Some ok show ?thesis by (auto intro!: stay_step)
    qed
  qed
next
  case (HPolicy iv c m)
  show ?thesis
  proof (cases "ho_policy h")
    case None
    then have "permitted en c m" using ok by (auto simp: host_ok_def permitted_def)
    with s HPolicy None j ok show ?thesis by (auto intro!: stay_step simp: tool_ok_def)
  next
    case (Some e)
    obtain e1 d where ed: "Engine_Evaluate now e m c = (e1, d)" by fastforce
    note f = Engine_Evaluate_facts [OF ed]
    have en: "en = Some (en_enforcer e)" using ok Some by (auto simp: host_ok_def)
    have q: "quiet E en h (h\<lparr>ho_policy := Some e1\<rparr>)" using Some f(1) by (simp add: quiet_def exI [of _ "[]"])
    show ?thesis
    proof (cases "pd_Allowed d")
      case True
      then have "tool_ok E en iv c m" using j HPolicy by (simp add: tool_ok_def permitted_def en f(2))
      with s HPolicy Some ed True show ?thesis by (auto intro!: quiet_step [OF ok q])
    next
      case False
      then obtain x where "ret iv c m (Err x) (h\<lparr>ho_policy := Some e1\<rparr>) = (h', j')"
        using s HPolicy Some ed by (auto simp: Let_def split: if_splits)
      then show ?thesis by (rule ret_step [OF ok _ q]) (simp_all add: HPolicy)
    qed
  qed
next
  case (HProvider iv c m)
  have t: "tool_ok E en iv c m" using j HProvider by simp
  show ?thesis
  proof (cases "ProviderForManifest m (ho_registry h)")
    case None
    then have "ret iv c m (Err (NoProvider (tm_ToolKind m))) h = (h', j')" using s HProvider by simp
    then show ?thesis by (rule ret_step [OF ok _ quiet_refl]) (simp_all add: HProvider)
  next
    case (Some p)
    show ?thesis
    proof (cases "iv_IdempotencyKey iv = []")
      case True
      with s HProvider Some t ok show ?thesis by (auto intro!: emit_step)
    next
      case False
      show ?thesis
      proof (cases "inputFingerprint E (iv_Input iv)")
        case None
        then have "ret iv c m (Err InputInvalid) h = (h', j')" using s HProvider Some False by simp
        then show ?thesis by (rule ret_step [OF ok _ quiet_refl]) (simp_all add: HProvider)
      next
        case (Some ih)
        with s HProvider \<open>ProviderForManifest m (ho_registry h) = Some p\<close> False t ok show ?thesis
          by (auto intro!: stay_step simp: keyed_call_def)
      qed
    qed
  qed
next
  case (HPlain iv c m)
  define res where "res = (case out of Inl msg \<Rightarrow> Err (ProviderFailed msg) | Inr o1 \<Rightarrow> Ok (mk_tool_result iv o1))"
  have "ret iv c m res h = (h', j')" using s HPlain by (cases out) (simp_all add: res_def)
  moreover have "job_ok E en h (HReturned iv c res)"
    using j HPlain by (cases out) (auto simp: res_def mk_tool_result_def)
  ultimately show ?thesis by (rule ret_step [OF ok _ quiet_refl]) (simp add: HPlain)
next
  case (HLookup iv c m p key ih)
  with s j show ?thesis using lookup_step [OF ok] by simp
next
  case (HRun iv c m key ih i)
  with s j ok show ?thesis by (auto intro!: stay_step)
next
  case (HStore iv c m key ih i out1)
  define res where "res = (case out1 of Inl msg \<Rightarrow> Err (ProviderFailed msg) | Inr o1 \<Rightarrow> Ok (mk_tool_result iv o1))"
  define h1 where "h1 = host_store iv key ih i out1 h"
  have i: "fmlookup (ho_inflight h) key = Some i" by (rule own) (simp add: HStore)
  have run: "running h ih i" using j by (simp add: HStore)
  have st: "host_ok E en h1 \<and> host_grows h h1 \<and> ho_inflight h1 = fmdrop key (ho_inflight h)"
  proof (cases out1)
    case (Inl msg)
    then show ?thesis using store_failed [OF ok i run refl] by (simp add: h1_def)
  next
    case (Inr o1)
    then show ?thesis using store_succeeded [OF ok i run refl] by (simp add: h1_def)
  qed
  have r: "ret iv c m res h1 = (h', j')" using s HStore by (simp add: res_def h1_def)
  note q = quiet_ret [OF r quiet_refl]
  have "job_ok E en h' (HReturned iv c res)" using j HStore by (auto simp: res_def mk_tool_result_def split: sum.splits)
  moreover have "host_grows h h'"
    using st q host_grows_quiet by blast
  ultimately show ?thesis
    using quiet_ok [of E en h1 h'] st q HStore by (simp add: step_ok_def hands_over_def)
next
  case (HWait iv c m key ih i)
  show ?thesis
  proof (cases "ctx_done \<or> \<not> if_done (ho_calls h ! i)")
    case True
    show ?thesis
    proof (cases ctx_done)
      case True
      then have "ret iv c m (Err ContextEnded) h = (h', j')" using s HWait by simp
      then show ?thesis by (rule ret_step [OF ok _ quiet_refl]) (simp_all add: HWait)
    next
      case False
      with True s HWait j ok show ?thesis by (auto intro!: stay_step)
    qed
  next
    case False
    define res where "res = (case if_err (ho_calls h ! i) of Some e \<Rightarrow> Err e
      | None \<Rightarrow> Ok ((if_result (ho_calls h ! i))\<lparr>tr_Replayed := True\<rparr>))"
    have "ret iv c m res h = (h', j')" using s HWait False by (simp add: res_def)
    moreover have "job_ok E en h (HReturned iv c res)"
      using j HWait False by (auto simp: res_def served_def running_def keyed_call_def split: option.splits)
    ultimately show ?thesis by (rule ret_step [OF ok _ quiet_refl]) (simp add: HWait)
  qed
next
  case (HReturned iv c res)
  with s j ok show ?thesis by (auto intro!: stay_step)
qed

section \<open>Systems\<close>

text \<open>Every key in flight has exactly one call in charge of it.\<close>

definition owners_ok :: "('b, 'v) host_job list \<Rightarrow> (string, nat) fmap \<Rightarrow> bool" where
  "owners_ok js infl \<longleftrightarrow> (\<forall>k i. fmlookup infl k = Some i \<longleftrightarrow> (\<exists>l<length js. owner (js ! l) = Some (k, i)))
     \<and> (\<forall>l l2 k i i2. l < length js \<longrightarrow> l2 < length js \<longrightarrow> owner (js ! l) = Some (k, i) \<longrightarrow> owner (js ! l2) = Some (k, i2) \<longrightarrow> l = l2)"

lemma owners_okD:
  assumes "owners_ok js infl"
  shows "l < length js \<Longrightarrow> owner (js ! l) = Some (k, i) \<Longrightarrow> fmlookup infl k = Some i"
    and "fmlookup infl k = Some i \<Longrightarrow> \<exists>l<length js. owner (js ! l) = Some (k, i)"
    and "l < length js \<Longrightarrow> l2 < length js \<Longrightarrow> owner (js ! l) = Some (k, i) \<Longrightarrow> owner (js ! l2) = Some (k, i2) \<Longrightarrow> l = l2"
  using assms unfolding owners_ok_def by blast+

lemma owners_ok_update:
  assumes ok: "owners_ok js infl" and l: "l < length js" and h: "hands_over (js ! l) j' infl infl'"
  shows "owners_ok (js[l := j']) infl'"
proof -
  note D = owners_okD [OF ok]
  consider (same) "owner j' = owner (js ! l)" "infl' = infl"
    | (claim) k i where "owner (js ! l) = None" "owner j' = Some (k, i)" "fmlookup infl k = None" "infl' = fmupd k i infl"
    | (drop) k i where "owner (js ! l) = Some (k, i)" "owner j' = None" "infl' = fmdrop k infl"
    using h unfolding hands_over_def by blast
  then show ?thesis
  proof cases
    case same
    have "owner (js[l := j'] ! n) = owner (js ! n)" if "n < length js" for n
      using that same(1) l by (cases "n = l") simp_all
    then show ?thesis using ok unfolding owners_ok_def same(2) length_list_update by (simp cong: conj_cong imp_cong)
  next
    case claim
    have o: "owner (js[l := j'] ! n) = (if n = l then Some (k, i) else owner (js ! n))" if "n < length js" for n
      using that claim(2) l by simp
    have nk: "n < length js \<Longrightarrow> owner (js ! n) \<noteq> Some (k, i2)" for n i2
      using D(1) [of n k i2] claim(3) by auto
    show ?thesis
      unfolding owners_ok_def claim(4) length_list_update
    proof (intro conjI allI impI)
      fix k2 i2
      show "fmlookup (fmupd k i infl) k2 = Some i2 \<longleftrightarrow> (\<exists>n<length js. owner (js[l := j'] ! n) = Some (k2, i2))"
      proof
        assume a: "fmlookup (fmupd k i infl) k2 = Some i2"
        show "\<exists>n<length js. owner (js[l := j'] ! n) = Some (k2, i2)"
        proof (cases "k2 = k")
          case True
          with a l o [OF l] show ?thesis by (intro exI [of _ l]) simp
        next
          case False
          with a obtain n where n: "n < length js" "owner (js ! n) = Some (k2, i2)" using D(2) by auto
          with claim(1) have "n \<noteq> l" by auto
          with n o show ?thesis by (intro exI [of _ n]) simp
        qed
      next
        assume "\<exists>n<length js. owner (js[l := j'] ! n) = Some (k2, i2)"
        then obtain n where n: "n < length js" "owner (js[l := j'] ! n) = Some (k2, i2)" by blast
        show "fmlookup (fmupd k i infl) k2 = Some i2"
        proof (cases "n = l")
          case True
          with n o [of n] show ?thesis by simp
        next
          case False
          then have "owner (js ! n) = Some (k2, i2)" using n o [of n] by simp
          with D(1) [of n k2 i2] nk n(1) show ?thesis by auto
        qed
      qed
    next
      fix n n2 k2 i2 i3
      assume "n < length js" "n2 < length js" "owner (js[l := j'] ! n) = Some (k2, i2)" "owner (js[l := j'] ! n2) = Some (k2, i3)"
      then show "n = n2" using o [of n] o [of n2] nk [of n] nk [of n2] D(3) [of n n2 k2 i2 i3] by (auto split: if_splits)
    qed
  next
    case drop
    have o: "owner (js[l := j'] ! n) = (if n = l then None else owner (js ! n))" if "n < length js" for n
      using that drop(2) l by simp
    have only: "n < length js \<Longrightarrow> owner (js ! n) = Some (k, i2) \<Longrightarrow> n = l" for n i2
      using D(3) [OF _ l _ drop(1)] by blast
    show ?thesis
      unfolding owners_ok_def drop(3) length_list_update
    proof (intro conjI allI impI)
      fix k2 i2
      show "fmlookup (fmdrop k infl) k2 = Some i2 \<longleftrightarrow> (\<exists>n<length js. owner (js[l := j'] ! n) = Some (k2, i2))"
      proof
        assume a: "fmlookup (fmdrop k infl) k2 = Some i2"
        then have k2: "k2 \<noteq> k" "fmlookup infl k2 = Some i2" by (auto split: if_splits)
        then obtain n where n: "n < length js" "owner (js ! n) = Some (k2, i2)" using D(2) by blast
        with drop(1) k2 have "n \<noteq> l" by auto
        with n o show "\<exists>n<length js. owner (js[l := j'] ! n) = Some (k2, i2)" by (intro exI [of _ n]) simp
      next
        assume "\<exists>n<length js. owner (js[l := j'] ! n) = Some (k2, i2)"
        then obtain n where n: "n < length js" "owner (js[l := j'] ! n) = Some (k2, i2)" by blast
        then have "n \<noteq> l" "owner (js ! n) = Some (k2, i2)" using o [of n] by (auto split: if_splits)
        with D(1) [of n k2 i2] only [of n i2] n(1) show "fmlookup (fmdrop k infl) k2 = Some i2" by auto
      qed
    next
      fix n n2 k2 i2 i3
      assume "n < length js" "n2 < length js" "owner (js[l := j'] ! n) = Some (k2, i2)" "owner (js[l := j'] ! n2) = Some (k2, i3)"
      then show "n = n2" using o [of n] o [of n2] D(3) [of n n2 k2 i2 i3] by (auto split: if_splits)
    qed
  qed
qed

definition system_ok :: "'v HostEnv \<Rightarrow> (string \<Rightarrow> bool) option option \<Rightarrow> ('b, 'v) HostSystem \<Rightarrow> bool" where
  "system_ok E en S \<longleftrightarrow> host_ok E en (hs_host S) \<and> list_all (job_ok E en (hs_host S)) (hs_jobs S)
     \<and> owners_ok (hs_jobs S) (ho_inflight (hs_host S))"

lemma system_ok_registry:
  assumes ok: "system_ok E en S"
    and r: "\<And>k m. fmlookup (rg_manifests r) k = Some m \<Longrightarrow> manifest_id m = k \<and> ToolManifest_Validate (he_parse E) m = None"
  shows "system_ok E en (S\<lparr>hs_host := (hs_host S)\<lparr>ho_registry := r\<rparr>\<rparr>)"
proof -
  let ?h = "(hs_host S)\<lparr>ho_registry := r\<rparr>"
  have g: "host_grows (hs_host S) ?h" by (rule host_grows_same) simp_all
  have "host_ok E en ?h" using ok r by (auto simp: system_ok_def host_ok_def cache_ok_def calls_ok_def counts_ok_def)
  moreover have "list_all (job_ok E en ?h) (hs_jobs S)"
    using ok job_ok_grows [OF _ g] by (auto simp: system_ok_def list_all_iff)
  ultimately show ?thesis using ok by (simp add: system_ok_def)
qed

lemma same_registry [simp]: "S\<lparr>hs_host := (hs_host S)\<lparr>ho_registry := ho_registry (hs_host S)\<rparr>\<rparr> = S"
  by simp

lemma system_ok_step:
  assumes ok: "system_ok E en S"
  shows "system_ok E en (host_apply E a S)"
proof -
  have reg: "fmlookup (rg_manifests (ho_registry (hs_host S))) k = Some m \<Longrightarrow>
      manifest_id m = k \<and> ToolManifest_Validate (he_parse E) m = None" for k m
    using ok by (auto simp: system_ok_def host_ok_def)
  show ?thesis
  proof (cases a)
    case (CallInvoke iv c)
    have "owners_ok (hs_jobs S @ [HStart iv c]) (ho_inflight (hs_host S))"
      using ok by (auto simp: system_ok_def owners_ok_def nth_append less_Suc_eq split: if_splits)
    with ok CallInvoke show ?thesis by (simp add: system_ok_def)
  next
    case (StepInvoke l now d out)
    show ?thesis
    proof (cases "l < length (hs_jobs S)")
      case True
      obtain h' j' where n: "host_next E now d out (hs_jobs S ! l) (hs_host S) = (h', j')" by fastforce
      have h: "host_ok E en (hs_host S)" and js: "list_all (job_ok E en (hs_host S)) (hs_jobs S)"
        and ow: "owners_ok (hs_jobs S) (ho_inflight (hs_host S))" using ok by (simp_all add: system_ok_def)
      have j: "job_ok E en (hs_host S) (hs_jobs S ! l)" using js True by (simp add: list_all_length)
      from host_next_ok [OF h j owners_okD(1) [OF ow True] n]
      have s: "host_ok E en h'" "job_ok E en h' j'" "host_grows (hs_host S) h'"
        "hands_over (hs_jobs S ! l) j' (ho_inflight (hs_host S)) (ho_inflight h')" by (simp_all add: step_ok_def)
      have "job_ok E en h' ((hs_jobs S)[l := j'] ! n)" if "n < length (hs_jobs S)" for n
        using that js s(2) job_ok_grows [OF _ s(3)] by (cases "n = l") (simp_all add: list_all_length)
      then have "list_all (job_ok E en h') ((hs_jobs S)[l := j'])" by (simp add: list_all_length)
      with s(1) owners_ok_update [OF ow True s(4)] show ?thesis
        by (simp add: StepInvoke True n system_ok_def)
    qed (simp add: StepInvoke ok)
  qed (use reg in \<open>auto simp: on_registry_def tool_Register_def tool_Replace_def tool_Remove_def RegisterProvider_def ok
      intro!: system_ok_registry [OF ok] split: option.splits if_splits\<close>)
qed

lemma system_ok_run: "system_ok E (map_option en_enforcer eng) (host_run E acts eng)"
proof -
  have "system_ok E en S \<Longrightarrow> system_ok E en (fold (host_apply E) acts S)" for en S
    by (induction acts arbitrary: S) (simp_all add: system_ok_step)
  moreover have "system_ok E (map_option en_enforcer eng) (host_start eng)"
    by (auto simp: system_ok_def host_start_def Host_New_def toolRegistry_New_def host_ok_def cache_ok_def calls_ok_def
        counts_ok_def owners_ok_def)
  ultimately show ?thesis by (simp add: host_run_def)
qed

section \<open>Claims\<close>

text \<open>What a contract must grant, and not deny, for a tool to run.\<close>

definition authorized :: "(string \<Rightarrow> bool) option \<Rightarrow> 'b ExecutionContract \<Rightarrow> ToolManifest \<Rightarrow> bool" where
  "authorized enf c m \<longleftrightarrow> set (tm_Capabilities m) \<subseteq> set (ec_Capabilities c) - set (ec_Denied c)
     \<and> (case tm_Sandbox m of None \<Rightarrow> True | Some spec \<Rightarrow>
          (sb_Network spec \<longrightarrow> ''network_access'' \<in> set (ec_Capabilities c))
        \<and> (sb_Required spec \<longrightarrow> sb_Kind spec \<noteq> [] \<and> sb_Kind spec \<noteq> ''none'' \<and> (\<exists>can. enf = Some can \<and> can (sb_Kind spec))))"

lemma permitted_authorized: "permitted (Some enf) c m \<longleftrightarrow> authorized enf c m"
  by (auto simp: permitted_def authorized_def policy_decide_Allowed sandbox_Allowed Engine_New_def split: option.splits)

lemma run_facts:
  assumes "S = host_run E acts eng"
  shows "host_ok E (map_option en_enforcer eng) (hs_host S)"
    and "j \<in> set (hs_jobs S) \<Longrightarrow> job_ok E (map_option en_enforcer eng) (hs_host S) j"
    and "owners_ok (hs_jobs S) (ho_inflight (hs_host S))"
  using system_ok_run [of E eng acts] assms by (auto simp: system_ok_def list_all_iff)

definition ex_host_env :: "nat HostEnv" where
  "ex_host_env = \<lparr>he_hash = (\<lambda>x. x), he_json_strings = concat, he_json_input = (\<lambda>m. Some []), he_parse = (\<lambda>s. Some 0)\<rparr>"

definition ex_tool :: ToolManifest where
  "ex_tool = ex_manifest\<lparr>tm_Envelope := (tm_Envelope ex_manifest)\<lparr>ev_CreatedAt := ''2026''\<rparr>\<rparr>"

definition ex_call :: "nat Invocation" where
  "ex_call = \<lparr>iv_ToolID = ''t'', iv_Input = None, iv_ExecutionContractID = [], iv_IdempotencyKey = ''k''\<rparr>"

abbreviation ex_step :: "nat \<Rightarrow> (unit, nat) host_action" where
  "ex_step l \<equiv> StepInvoke l 0 False (Inr (Some (fmupd ''x'' 7 fmempty)))"

text \<open>Two calls with the same key: the second waits for the first; then it gets the first one's result.\<close>

definition ex_host_waiting :: "(unit, nat) host_action list" where
  "ex_host_waiting = [CallRegisterProvider (Some (1, ''tool'')), CallRegister ex_tool, CallInvoke ex_call ex_exec_contract,
     CallInvoke ex_call ex_exec_contract] @ map ex_step [0, 1, 0, 1, 0, 1, 0, 1]"

definition ex_host_replayed :: "(unit, nat) host_action list" where
  "ex_host_replayed = ex_host_waiting @ map ex_step [0, 0, 1]"

abbreviation ex_host_system :: "(unit, nat) host_action list \<Rightarrow> (unit, nat) HostSystem" where
  "ex_host_system acts \<equiv> host_run ex_host_env acts (Some (Engine_New None))"

lemma ex_provider_called:
  "ProviderCalled 1 ex_tool ex_call ex_exec_contract \<in> set (ho_log (hs_host (ex_host_system ex_host_waiting)))"
  by code_simp

lemma ex_replayed:
  "HReturned ex_call ex_exec_contract (Ok \<lparr>tr_ToolID = ''t'', tr_Output = Some (fmupd ''x'' 7 fmempty), tr_Replayed = True\<rparr>)
     \<in> set (hs_jobs (ex_host_system ex_host_replayed))"
  by code_simp

lemma ex_second_waits:
  "length (hs_jobs (ex_host_system ex_host_waiting)) = 2
   \<and> hs_jobs (ex_host_system ex_host_waiting) ! 1
     = HWait ex_call ex_exec_contract ex_tool (host_key ex_host_env ex_call ex_exec_contract) [] 0"
  by code_simp



text \<open>
  C16. Providers run at most once per idempotency key: a second run needs the first to have failed or its result
  to have been evicted, whatever the number of concurrent callers. The cache holds at most 10000 results, and
  its order lists exactly the cached keys.
\<close>

theorem host_runs_once:
  "let h = hs_host (host_run E acts eng) in
     occurs (is_run E k) h \<le> 1 + occurs (is_failure k) h + occurs (is_evicted k) h
   \<and> (occurs (is_run E k) h = occurs (is_success k) h + occurs (is_failure k) h + (if fmlookup (ho_inflight h) k = None then 0 else 1))
   \<and> set (ho_cacheOrder h) = fmdom' (ho_cache h) \<and> card (fmdom' (ho_cache h)) \<le> 10000"
proof -
  define h where "h = hs_host (host_run E acts eng)"
  have ok: "host_ok E (map_option en_enforcer eng) h" using run_facts(1) [OF refl] by (simp add: h_def)
  have runs: "occurs (is_run E k) h = occurs (is_success k) h + occurs (is_failure k) h
        + (if fmlookup (ho_inflight h) k = None then 0 else 1)"
    and succ: "occurs (is_success k) h = occurs (is_evicted k) h + (if fmlookup (ho_cache h) k = None then 0 else 1)"
    using ok by (simp_all add: host_ok_def counts_ok_def)
  have "fmlookup (ho_inflight h) k = None \<or> fmlookup (ho_cache h) k = None"
    using ok by (cases "fmlookup (ho_inflight h) k") (auto simp: host_ok_def calls_ok_def)
  then have "occurs (is_run E k) h \<le> 1 + occurs (is_failure k) h + occurs (is_evicted k) h"
    using runs succ by (auto split: if_splits)
  moreover have "set (ho_cacheOrder h) = fmdom' (ho_cache h)" "card (fmdom' (ho_cache h)) \<le> 10000"
    using ok by (auto simp: host_ok_def cache_ok_def distinct_card defaultCacheLimit_def)
  ultimately show ?thesis using runs by (simp add: h_def Let_def)
qed

text \<open>
  A replayed result has the output of a run that completed under the same tool, contract and idempotency key
  with an input of the same fingerprint: a key reused with another input never replays.
\<close>

lemma host_replays_same:
  assumes "S = host_run E acts eng" and "HReturned iv c (Ok r) \<in> set (hs_jobs S)" and "tr_Replayed r"
  shows "iv_IdempotencyKey iv \<noteq> [] \<and> (\<exists>ih. inputFingerprint E (iv_Input iv) = Some ih
     \<and> Completed (host_key E iv c) ih (Inr (tr_Output r)) \<in> set (ho_log (hs_host S)))"
  using run_facts(2) [OF assms(1,2)] assms(3) by (auto simp: keyed_call_def)

section \<open>Waiting calls\<close>

lemma host_run_append: "host_run E (acts @ acts2) eng = fold (host_apply E) acts2 (host_run E acts eng)"
  by (simp add: host_run_def)

lemma host_apply_step:
  "l < length (hs_jobs S) \<Longrightarrow> host_apply E (StepInvoke l now d out) S =
     (let (h1, j) = host_next E now d out (hs_jobs S ! l) (hs_host S) in S\<lparr>hs_host := h1, hs_jobs := (hs_jobs S)[l := j]\<rparr>)"
  by simp

lemma host_store_calls:
  "i < length (ho_calls h) \<Longrightarrow> if_done (ho_calls (host_store iv key ih i out h) ! i)"
  by (simp add: host_store_def storeLocked_def emit_event_def Let_def split: prod.splits)

lemma waiter_returns:
  assumes "w < length (hs_jobs S)" and "hs_jobs S ! w = HWait iv c m key ih i" and "if_done (ho_calls (hs_host S) ! i)"
  shows "\<exists>res. hs_jobs (host_apply E (StepInvoke w now False out) S) ! w = HReturned iv c res"
  using assms by (auto simp: ret_def split: option.splits)

lemma owner_finishes:
  assumes l: "l < length (hs_jobs S)" "hs_jobs S ! l = HStore iv c m key ih i o1" and i: "i < length (ho_calls (hs_host S))"
    and w: "w < length (hs_jobs S)" "hs_jobs S ! w = HWait iv2 c2 m2 key2 ih2 i"
  shows "\<exists>res. hs_jobs (fold (host_apply E) [StepInvoke l now False out, StepInvoke w now False out] S) ! w = HReturned iv2 c2 res"
proof -
  define S2 where "S2 = host_apply E (StepInvoke l now False out) S"
  have "l \<noteq> w" using l w by auto
  then have "hs_jobs S2 ! w = HWait iv2 c2 m2 key2 ih2 i" "length (hs_jobs S2) = length (hs_jobs S)"
    "if_done (ho_calls (hs_host S2) ! i)"
    using l w host_store_calls [OF i] by (simp_all add: S2_def ret_def emit_event_def)
  then show ?thesis using waiter_returns [of w S2] w by (simp add: S2_def)
qed

text \<open>
  C17. No caller waits for a run that nobody will finish: while a call waits, either its run is done or another
  call is in charge of it, and then at most two more steps of that call, whatever its provider returns,
  followed by one of the waiting call, make the waiting call return.
\<close>

theorem host_waiters_served:
  assumes "S = host_run E acts eng" and "w < length (hs_jobs S)" and "hs_jobs S ! w = HWait iv c m key ih i"
  shows "\<exists>ls res. length ls \<le> 3
    \<and> hs_jobs (host_run E (acts @ map (\<lambda>l. StepInvoke l now False out) ls) eng) ! w = HReturned iv c res"
proof -
  have "hs_jobs S ! w \<in> set (hs_jobs S)" using assms(2) by simp
  from run_facts(2) [OF assms(1) this] have i: "i < length (ho_calls (hs_host S))"
    and st: "if_done (ho_calls (hs_host S) ! i) \<or> fmlookup (ho_inflight (hs_host S)) key = Some i"
    by (auto simp: assms(3) running_def split: if_splits)
  note app = host_run_append [of E acts _ eng, folded assms(1)]
  show ?thesis
  proof (cases "if_done (ho_calls (hs_host S) ! i)")
    case True
    from waiter_returns [OF assms(2,3) True] show ?thesis by (intro exI [of _ "[w]"]) (simp add: app del: host_apply.simps)
  next
    case False
    with st obtain l where l: "l < length (hs_jobs S)" "owner (hs_jobs S ! l) = Some (key, i)"
      using owners_okD(2) [OF run_facts(3) [OF assms(1)]] by blast
    then consider (run) iv1 c1 m1 ih1 where "hs_jobs S ! l = HRun iv1 c1 m1 key ih1 i"
      | (store) iv1 c1 m1 ih1 o1 where "hs_jobs S ! l = HStore iv1 c1 m1 key ih1 i o1"
      by (cases "hs_jobs S ! l") auto
    then show ?thesis
    proof cases
      case run
      define S2 where "S2 = host_apply E (StepInvoke l now False out) S"
      have "l \<noteq> w" using run assms(3) by auto
      then have "hs_jobs S2 ! l = HStore iv1 c1 m1 key ih1 i out" "hs_jobs S2 ! w = HWait iv c m key ih i"
        "length (hs_jobs S2) = length (hs_jobs S)" "hs_host S2 = hs_host S"
        using l run assms(3) by (simp_all add: S2_def)
      with owner_finishes [of l S2 iv1 c1 m1 key ih1 i out w iv c m key ih E now out] l i assms(2)
      show ?thesis by (intro exI [of _ "[l, l, w]"]) (simp add: app S2_def del: host_apply.simps)
    next
      case store
      from owner_finishes [OF l(1) store i assms(2,3)] show ?thesis
        by (intro exI [of _ "[l, w]"]) (simp add: app del: host_apply.simps)
    qed
  qed
qed

theorem host_waiters_served_witness:
  "\<exists>ls res. length ls \<le> 3 \<and> hs_jobs (host_run ex_host_env (ex_host_waiting @ map (\<lambda>l. StepInvoke l 0 False (Inl ''e'')) ls)
      (Some (Engine_New None))) ! 1 = HReturned ex_call ex_exec_contract res"
  using host_waiters_served [OF refl, of 1 ex_host_env ex_host_waiting "Some (Engine_New None)"] ex_second_waits by simp

end
