(* ===== verification/Lifecycle.thy ===== *)
theory Lifecycle
  imports Intake
begin

text \<open>
  \<open>runtime/lifecycle/lifecycle.go\<close>: the manager of worker instances. \<open>Run\<close> is called by many
  goroutines at once, with \<open>Stop\<close> and \<open>Terminate\<close> arriving at any time: each call is a \<open>lc_job\<close> that
  moves from one critical section to the next, and a system is a manager with its jobs. \<open>control\<close>
  values are shared by the running call and the map of active workers, so they live in a store and
  are named by their index. The adapter's outcome is any result with any error. \<open>mg_emitted\<close> collects the
  events handed to the sink, which is failure-open and cannot influence anything.
\<close>

section \<open>Data\<close>

datatype lc_state = LcCreated | LcStarting | LcRunning | LcStopping | LcStopped | LcTerminated | LcFailed

definition lc_terminal :: "lc_state \<Rightarrow> bool" where
  "lc_terminal s \<longleftrightarrow> s = LcStopped \<or> s = LcTerminated \<or> s = LcFailed"

record LcEvent =
  le_WorkerID :: string
  le_AssignmentID :: string
  le_WorkPackageID :: string
  le_State :: lc_state
  le_At :: time
  le_Reason :: string

record LcRecord =
  lr_id :: string
  lr_selectedWorker :: string
  lr_assignmentID :: string
  lr_workPackageID :: string
  lr_capabilities :: "string list"
  lr_state :: lc_state
  lr_createdAt :: time
  lr_endedAt :: time
  lr_status :: string
  lr_summary :: string
  lr_err :: string

record control =
  ct_canceled :: bool  \<comment> \<open>the run's context was canceled\<close>
  ct_stopped :: bool
  ct_terminated :: bool

record Manager =
  mg_retain :: int
  mg_seq :: int
  mg_workers :: "(string, LcRecord) fmap"
  mg_active :: "(string, nat) fmap"
  mg_ctrls :: "control list"
  mg_events :: "LcEvent list"
  mg_emitted :: "LcEvent list"

text \<open>What an adapter returns: a result and possibly an error.\<close>

type_synonym run_outcome = "WorkerResult \<times> run_error option"

definition Manager_New :: "int \<Rightarrow> Manager" where
  "Manager_New retain = \<lparr>mg_retain = (if retain \<le> 0 then 1024 else retain), mg_seq = 0, mg_workers = fmempty,
     mg_active = fmempty, mg_ctrls = [], mg_events = [], mg_emitted = []\<rparr>"

section \<open>Critical sections\<close>

definition worker_id :: "string \<Rightarrow> string" where "worker_id s = ''wrk_'' @ s"

definition nextIDLocked :: "string \<Rightarrow> Manager \<Rightarrow> Manager \<times> string" where
  "nextIDLocked assignmentID m =
     (if assignmentID \<noteq> [] then (m, worker_id assignmentID)
      else (m\<lparr>mg_seq := mg_seq m + 1\<rparr>, worker_id (itoa_int (mg_seq m + 1))))"

definition new_record :: "time \<Rightarrow> string \<Rightarrow> string \<Rightarrow> string \<Rightarrow> string \<Rightarrow> string list \<Rightarrow> LcRecord" where
  "new_record now k workerID assignmentID workPackageID caps =
     \<lparr>lr_id = k, lr_selectedWorker = workerID, lr_assignmentID = assignmentID, lr_workPackageID = workPackageID,
      lr_capabilities = caps, lr_state = LcCreated, lr_createdAt = now, lr_endedAt = 0, lr_status = [],
      lr_summary = [], lr_err = []\<rparr>"

definition instantiate :: "time \<Rightarrow> WorkerRequest \<Rightarrow> Manager \<Rightarrow> Manager \<times> string \<times> LcRecord" where
  "instantiate now req m =
     (let (m1, k) = nextIDLocked (wr_AssignmentID req) m
      in (m1, k, new_record now k [] (wr_AssignmentID req) (wr_WorkPackageID req) (wr_Capabilities req)))"

definition register :: "string \<Rightarrow> LcRecord \<Rightarrow> Manager \<Rightarrow> Manager \<times> nat" where
  "register k r m =
     (m\<lparr>mg_workers := fmupd k r (mg_workers m),
        mg_ctrls := mg_ctrls m @ [\<lparr>ct_canceled = False, ct_stopped = False, ct_terminated = False\<rparr>],
        mg_active := fmupd k (length (mg_ctrls m)) (mg_active m)\<rparr>, length (mg_ctrls m))"

definition transition :: "time \<Rightarrow> string \<Rightarrow> lc_state \<Rightarrow> string \<Rightarrow> Manager \<Rightarrow> Manager" where
  "transition now k st reason m =
     (case fmlookup (mg_workers m) k of
        None \<Rightarrow> m
      | Some r \<Rightarrow>
         (let event = \<lparr>le_WorkerID = lr_id r, le_AssignmentID = lr_assignmentID r,
                       le_WorkPackageID = lr_workPackageID r, le_State = st, le_At = now, le_Reason = reason\<rparr>;
              evs = mg_events m @ [event];
              n = int (length evs)
          in m\<lparr>mg_workers := fmupd k (r\<lparr>lr_state := st\<rparr>) (mg_workers m),
               mg_events := (if mg_retain m < n then drop (nat (n - mg_retain m)) evs else evs),
               mg_emitted := mg_emitted m @ [event]\<rparr>))"

definition finish :: "time \<Rightarrow> string \<Rightarrow> run_outcome \<Rightarrow> Manager \<Rightarrow> Manager" where
  "finish now k out m =
     (case fmlookup (mg_workers m) k of
        None \<Rightarrow> m
      | Some r \<Rightarrow>
          m\<lparr>mg_workers := fmupd k (r\<lparr>lr_status := res_Status (fst out), lr_summary := res_Summary (fst out),
              lr_err := (case snd out of None \<Rightarrow> lr_err r | Some e \<Rightarrow> run_error_text e), lr_endedAt := now\<rparr>)
            (mg_workers m)\<rparr>)"

text \<open>After the adapter returned: the worker is no longer active, and the flags are read.\<close>

definition collect :: "string \<Rightarrow> nat \<Rightarrow> Manager \<Rightarrow> Manager \<times> bool \<times> bool" where
  "collect k c m =
     (m\<lparr>mg_active := fmdrop k (mg_active m)\<rparr>, ct_terminated (mg_ctrls m ! c), ct_stopped (mg_ctrls m ! c))"

definition run_verdict :: "bool \<Rightarrow> bool \<Rightarrow> run_error option \<Rightarrow> lc_state \<times> string" where
  "run_verdict terminated stopped err =
     (if terminated then (LcTerminated, ''terminated'')
      else if stopped then (LcStopped, ''stopped'')
      else case err of
          None \<Rightarrow> (LcStopped, ''completed'')
        | Some e \<Rightarrow> if context_error e then (LcStopped, ''canceled'') else (LcFailed, run_error_text e))"

definition signal :: "string \<Rightarrow> bool \<Rightarrow> Manager \<Rightarrow> Manager \<times> bool" where
  "signal k terminate m =
     (case fmlookup (mg_active m) k of
        None \<Rightarrow> (m, False)
      | Some c \<Rightarrow>
         (let ct = mg_ctrls m ! c;
              ct1 = (if terminate then ct\<lparr>ct_terminated := True\<rparr> else ct\<lparr>ct_stopped := True\<rparr>)
          in (m\<lparr>mg_ctrls := (mg_ctrls m)[c := ct1\<lparr>ct_canceled := True\<rparr>]\<rparr>, True)))"

definition Manager_Stop :: "string \<Rightarrow> Manager \<Rightarrow> Manager \<times> bool" where "Manager_Stop k m = signal k False m"
definition Manager_Terminate :: "string \<Rightarrow> Manager \<Rightarrow> Manager \<times> bool" where "Manager_Terminate k m = signal k True m"

definition Manager_Active :: "string \<Rightarrow> Manager \<Rightarrow> bool" where
  "Manager_Active k m \<longleftrightarrow> fmlookup (mg_active m) k \<noteq> None"

definition Manager_Workers :: "Manager \<Rightarrow> LcRecord list" where
  "Manager_Workers m = sort_key lr_id (fm_vals (mg_workers m))"

section \<open>The scheduler's hooks\<close>

text \<open>\<open>t1\<close>, \<open>t2\<close>, \<open>t3\<close> are the times the clock returns in turn.\<close>

definition Manager_Begin ::
  "time \<Rightarrow> time \<Rightarrow> time \<Rightarrow> string \<Rightarrow> string \<Rightarrow> string \<Rightarrow> string list \<Rightarrow> Manager \<Rightarrow> Manager \<times> string" where
  "Manager_Begin t1 t2 t3 assignmentID workPackageID workerID caps m =
     (let (m1, k) = nextIDLocked assignmentID m;
          m2 = m1\<lparr>mg_workers := fmupd k (new_record t1 k workerID assignmentID workPackageID caps) (mg_workers m1)\<rparr>
      in (transition t3 k LcRunning [] (transition t2 k LcStarting [] m2), k))"

definition Manager_End :: "time \<Rightarrow> time \<Rightarrow> time \<Rightarrow> string \<Rightarrow> run_outcome \<Rightarrow> Manager \<Rightarrow> Manager" where
  "Manager_End t1 t2 t3 k out m =
     (let (st, reason) = run_verdict False False (snd out)
      in transition t3 k st reason (transition t2 k LcStopping reason (finish t1 k out m)))"

section \<open>Concurrent runs\<close>

datatype lc_job =
    JInstantiate WorkerRequest
  | JRegister string LcRecord WorkerRequest
  | JStarting string nat WorkerRequest
  | JRunning string nat WorkerRequest
  | JCall string nat WorkerRequest
  | JCollect string nat run_outcome
  | JFinish string run_outcome lc_state string
  | JStopping string run_outcome lc_state string
  | JFinal string run_outcome lc_state string
  | JReturned string run_outcome

text \<open>The next critical section of \<open>Run\<close>; \<open>out\<close> is what the adapter returns when it is called.\<close>

fun job_next :: "time \<Rightarrow> run_outcome \<Rightarrow> lc_job \<Rightarrow> Manager \<Rightarrow> Manager \<times> lc_job" where
  "job_next now out (JInstantiate req) m = (let (m1, k, r) = instantiate now req m in (m1, JRegister k r req))"
| "job_next now out (JRegister k r req) m = (let (m1, c) = register k r m in (m1, JStarting k c req))"
| "job_next now out (JStarting k c req) m = (transition now k LcStarting [] m, JRunning k c req)"
| "job_next now out (JRunning k c req) m = (transition now k LcRunning [] m, JCall k c req)"
| "job_next now out (JCall k c req) m = (m, JCollect k c out)"
| "job_next now out (JCollect k c o1) m =
     (let (m1, terminated, stopped) = collect k c m;
          (st, reason) = run_verdict terminated stopped (snd o1)
      in (m1, JFinish k o1 st reason))"
| "job_next now out (JFinish k o1 st reason) m = (finish now k o1 m, JStopping k o1 st reason)"
| "job_next now out (JStopping k o1 st reason) m = (transition now k LcStopping reason m, JFinal k o1 st reason)"
| "job_next now out (JFinal k o1 st reason) m = (transition now k st reason m, JReturned k o1)"
| "job_next now out (JReturned k o1) m = (m, JReturned k o1)"

record LcSystem =
  ls_manager :: Manager
  ls_jobs :: "lc_job list"

datatype lc_action =
    StartRun WorkerRequest "run_error option"  \<comment> \<open>the call of \<open>Run\<close> and what \<open>ctx.Err()\<close> returns\<close>
  | StepJob nat time run_outcome
  | SendSignal string bool

fun lc_apply :: "lc_action \<Rightarrow> LcSystem \<Rightarrow> LcSystem" where
  "lc_apply (StartRun req ctx_err) S =
     (if ctx_err \<noteq> None then S else S\<lparr>ls_jobs := ls_jobs S @ [JInstantiate req]\<rparr>)"
| "lc_apply (StepJob i now out) S =
     (if i < length (ls_jobs S) then
        (let (m1, j) = job_next now out (ls_jobs S ! i) (ls_manager S)
         in S\<lparr>ls_manager := m1, ls_jobs := (ls_jobs S)[i := j]\<rparr>)
      else S)"
| "lc_apply (SendSignal k terminate) S = S\<lparr>ls_manager := fst (signal k terminate (ls_manager S))\<rparr>"

definition lc_start :: "int \<Rightarrow> LcSystem" where
  "lc_start retain = \<lparr>ls_manager = Manager_New retain, ls_jobs = []\<rparr>"

definition lc_run :: "lc_action list \<Rightarrow> int \<Rightarrow> LcSystem" where
  "lc_run acts retain = fold lc_apply acts (lc_start retain)"

end
