(* ===== verification/LifecycleProps.thy ===== *)
theory LifecycleProps
  imports Lifecycle
begin

text \<open>Invariants of the lifecycle manager under concurrent runs.\<close>

section \<open>The event log\<close>

definition log_window :: "Manager \<Rightarrow> bool" where
  "log_window m \<longleftrightarrow> mg_events m = drop (length (mg_emitted m) - nat (mg_retain m)) (mg_emitted m)"

lemma drop_window: "drop (length (drop (n - r) xs @ [x]) - r) (drop (n - r) xs @ [x]) = drop (Suc n - r) (xs @ [x])"
  if "length xs = n"
  using that by (cases "n \<le> r") (auto simp: Suc_diff_le)

lemma transition_window:
  assumes "0 < mg_retain m" and "log_window m"
  shows "log_window (transition now k st reason m)"
proof (cases "fmlookup (mg_workers m) k")
  case (Some r)
  let ?ev = "\<lparr>le_WorkerID = lr_id r, le_AssignmentID = lr_assignmentID r, le_WorkPackageID = lr_workPackageID r,
      le_State = st, le_At = now, le_Reason = reason\<rparr>"
  let ?evs = "mg_events m @ [?ev]"
  have "mg_events (transition now k st reason m) = drop (length ?evs - nat (mg_retain m)) ?evs"
    using Some assms(1) by (auto simp: transition_def Let_def nat_diff_distrib' nat_less_iff intro: arg_cong2 [where f = drop])
  moreover have "mg_emitted (transition now k st reason m) = mg_emitted m @ [?ev]"
    "mg_retain (transition now k st reason m) = mg_retain m"
    using Some by (simp_all add: transition_def Let_def)
  ultimately show ?thesis
    using assms(2) drop_window [of "mg_emitted m" "length (mg_emitted m)" "nat (mg_retain m)" ?ev]
    by (simp add: log_window_def)
qed (use assms in \<open>simp add: transition_def log_window_def\<close>)

lemma transition_other [simp]:
  "mg_retain (transition now k st reason m) = mg_retain m"
  "mg_active (transition now k st reason m) = mg_active m"
  "mg_ctrls (transition now k st reason m) = mg_ctrls m"
  by (simp_all add: transition_def Let_def split: option.splits)

lemma finish_other [simp]:
  "mg_retain (finish now k out m) = mg_retain m" "mg_active (finish now k out m) = mg_active m"
  "mg_ctrls (finish now k out m) = mg_ctrls m" "mg_events (finish now k out m) = mg_events m"
  "mg_emitted (finish now k out m) = mg_emitted m"
  by (simp_all add: finish_def split: option.splits)

lemma signal_other [simp]:
  "mg_retain (fst (signal k b m)) = mg_retain m" "mg_workers (fst (signal k b m)) = mg_workers m"
  "mg_active (fst (signal k b m)) = mg_active m" "mg_events (fst (signal k b m)) = mg_events m"
  "mg_emitted (fst (signal k b m)) = mg_emitted m" "length (mg_ctrls (fst (signal k b m))) = length (mg_ctrls m)"
  by (simp_all add: signal_def Let_def split: option.splits)

lemma job_next_window:
  assumes "0 < mg_retain m" and "log_window m"
  shows "log_window (fst (job_next now out j m)) \<and> mg_retain (fst (job_next now out j m)) = mg_retain m"
  using assms transition_window [OF assms]
  by (cases "(now, out, j, m)" rule: job_next.cases)
    (auto simp: instantiate_def nextIDLocked_def register_def collect_def log_window_def Let_def split: prod.splits)

text \<open>
  The in-memory event log is bounded: after any interleaving of runs and signals it holds exactly the
  last \<open>Retain\<close> transitions (1024 when \<open>Retain\<close> is not positive), in order.
\<close>

lemma lifecycle_log_bounded:
  "(let m = ls_manager (lc_run acts retain); bound = nat (if retain \<le> 0 then 1024 else retain) in
      mg_events m = drop (length (mg_emitted m) - bound) (mg_emitted m) \<and> length (mg_events m) \<le> bound)"
proof -
  let ?R = "if retain \<le> 0 then 1024 else retain"
  have "0 < mg_retain (ls_manager S) \<Longrightarrow> log_window (ls_manager S) \<Longrightarrow>
      log_window (ls_manager (fold lc_apply acts S)) \<and> mg_retain (ls_manager (fold lc_apply acts S)) = mg_retain (ls_manager S)" for S
  proof (induction acts arbitrary: S)
    case (Cons a acts)
    have "log_window (ls_manager (lc_apply a S)) \<and> mg_retain (ls_manager (lc_apply a S)) = mg_retain (ls_manager S)"
    proof (cases a)
      case (StepJob i now out)
      then show ?thesis
        using Cons.prems job_next_window [of "ls_manager S" now out "ls_jobs S ! i"] by (auto simp: Let_def split: prod.splits)
    qed (use Cons.prems in \<open>auto simp: log_window_def\<close>)
    with Cons.IH [of "lc_apply a S"] Cons.prems(1) show ?case by simp
  qed simp
  from this [of "lc_start retain"] have "log_window (ls_manager (lc_run acts retain))"
    "mg_retain (ls_manager (lc_run acts retain)) = ?R"
    by (simp_all add: lc_run_def lc_start_def Manager_New_def log_window_def)
  then show ?thesis by (simp add: log_window_def Let_def)
qed

section \<open>Each run owns its worker\<close>

fun job_id :: "lc_job \<Rightarrow> string" where
  "job_id (JInstantiate req) = worker_id (wr_AssignmentID req)"
| "job_id (JRegister k _ _) = k" | "job_id (JStarting k _ _) = k" | "job_id (JRunning k _ _) = k"
| "job_id (JCall k _ _) = k" | "job_id (JCollect k _ _) = k" | "job_id (JFinish k _ _ _) = k"
| "job_id (JStopping k _ _ _) = k" | "job_id (JFinal k _ _ _) = k" | "job_id (JReturned k _) = k"

text \<open>The worker exists and has not ended.\<close>

definition live :: "Manager \<Rightarrow> string \<Rightarrow> bool" where
  "live m k \<longleftrightarrow> (case fmlookup (mg_workers m) k of None \<Rightarrow> False | Some r \<Rightarrow> \<not> lc_terminal (lr_state r))"

text \<open>The worker carries the outcome of its run.\<close>

definition carries :: "Manager \<Rightarrow> string \<Rightarrow> run_outcome \<Rightarrow> bool" where
  "carries m k out \<longleftrightarrow> (case fmlookup (mg_workers m) k of None \<Rightarrow> False
     | Some r \<Rightarrow> lr_status r = res_Status (fst out) \<and> lr_summary r = res_Summary (fst out))"

definition ended :: "Manager \<Rightarrow> string \<Rightarrow> bool" where
  "ended m k \<longleftrightarrow> (case fmlookup (mg_workers m) k of None \<Rightarrow> False | Some r \<Rightarrow> lc_terminal (lr_state r))"

definition is_active :: "Manager \<Rightarrow> string \<Rightarrow> nat \<Rightarrow> bool" where
  "is_active m k c \<longleftrightarrow> fmlookup (mg_active m) k = Some c \<and> c < length (mg_ctrls m)"

fun job_inv :: "Manager \<Rightarrow> lc_job \<Rightarrow> bool" where
  "job_inv m (JInstantiate req) = (wr_AssignmentID req \<noteq> [] \<and> \<not> Manager_Active (worker_id (wr_AssignmentID req)) m)"
| "job_inv m (JRegister k r _) = (lr_state r = LcCreated \<and> \<not> Manager_Active k m)"
| "job_inv m (JStarting k c _) = (live m k \<and> is_active m k c)"
| "job_inv m (JRunning k c _) = (live m k \<and> is_active m k c)"
| "job_inv m (JCall k c _) = (live m k \<and> is_active m k c)"
| "job_inv m (JCollect k c _) = (live m k \<and> is_active m k c)"
| "job_inv m (JFinish k _ st _) = (live m k \<and> \<not> Manager_Active k m \<and> lc_terminal st)"
| "job_inv m (JStopping k out st _) = (live m k \<and> carries m k out \<and> \<not> Manager_Active k m \<and> lc_terminal st)"
| "job_inv m (JFinal k out st _) = (live m k \<and> carries m k out \<and> \<not> Manager_Active k m \<and> lc_terminal st)"
| "job_inv m (JReturned k out) = (ended m k \<and> carries m k out \<and> \<not> Manager_Active k m)"

text \<open>A step of one run leaves the other runs' workers alone.\<close>

definition apart :: "string \<Rightarrow> Manager \<Rightarrow> Manager \<Rightarrow> bool" where
  "apart k m m' \<longleftrightarrow> (\<forall>j. j \<noteq> k \<longrightarrow> fmlookup (mg_workers m') j = fmlookup (mg_workers m) j
     \<and> fmlookup (mg_active m') j = fmlookup (mg_active m) j) \<and> length (mg_ctrls m) \<le> length (mg_ctrls m')"

lemma job_inv_apart: "apart k m m' \<Longrightarrow> job_id j \<noteq> k \<Longrightarrow> job_inv m j \<Longrightarrow> job_inv m' j"
  by (cases j) (auto simp: apart_def live_def carries_def ended_def is_active_def Manager_Active_def)

lemma run_verdict_terminal: "run_verdict t s err = (st, reason) \<Longrightarrow> lc_terminal st"
  by (auto simp: run_verdict_def lc_terminal_def split: if_splits option.splits)

lemma transition_lookup:
  "fmlookup (mg_workers (transition now k st reason m)) j =
     (if j = k then map_option (\<lambda>r. r\<lparr>lr_state := st\<rparr>) (fmlookup (mg_workers m) k) else fmlookup (mg_workers m) j)"
  by (simp add: transition_def Let_def split: option.splits)

lemma finish_lookup:
  "fmlookup (mg_workers (finish now k out m)) j =
     (if j = k then map_option (\<lambda>r. r\<lparr>lr_status := res_Status (fst out), lr_summary := res_Summary (fst out),
        lr_err := (case snd out of None \<Rightarrow> lr_err r | Some e \<Rightarrow> run_error_text e), lr_endedAt := now\<rparr>)
        (fmlookup (mg_workers m) k) else fmlookup (mg_workers m) j)"
  by (simp add: finish_def split: option.splits)

lemma job_next_inv:
  assumes "job_inv m j" and "job_next now out j m = (m', j')"
  shows "job_inv m' j' \<and> job_id j' = job_id j \<and> apart (job_id j) m m'"
proof (cases j)
  case (JCollect k c o1)
  obtain st reason where v: "run_verdict (ct_terminated (mg_ctrls m ! c)) (ct_stopped (mg_ctrls m ! c)) (snd o1) = (st, reason)"
    by fastforce
  with JCollect assms run_verdict_terminal [OF v] show ?thesis
    by (auto simp: collect_def apart_def live_def Manager_Active_def)
qed (use assms in \<open>auto simp: instantiate_def nextIDLocked_def new_record_def register_def Let_def apart_def live_def
      carries_def ended_def is_active_def Manager_Active_def transition_lookup finish_lookup lc_terminal_def
      split: option.splits\<close>)

section \<open>Systems\<close>

definition started :: "lc_action list \<Rightarrow> string list" where
  "started acts = List.map_filter (\<lambda>a. case a of StartRun req None \<Rightarrow> Some (wr_AssignmentID req) | _ \<Rightarrow> None) acts"

definition sys_inv :: "LcSystem \<Rightarrow> bool" where
  "sys_inv S \<longleftrightarrow> distinct (map job_id (ls_jobs S)) \<and> list_all (job_inv (ls_manager S)) (ls_jobs S)
     \<and> fmdom' (mg_active (ls_manager S)) \<subseteq> set (map job_id (ls_jobs S))"

lemma sys_inv_step:
  assumes inv: "sys_inv S" and i: "i < length (ls_jobs S)"
    and n: "job_next now out (ls_jobs S ! i) (ls_manager S) = (m1, j)"
  shows "sys_inv (S\<lparr>ls_manager := m1, ls_jobs := (ls_jobs S)[i := j]\<rparr>)
    \<and> map job_id ((ls_jobs S)[i := j]) = map job_id (ls_jobs S)"
proof -
  let ?m = "ls_manager S" and ?js = "ls_jobs S"
  have ji: "job_inv ?m (?js ! i)" using inv i by (auto simp: sys_inv_def list_all_length)
  note step = job_next_inv [OF ji n]
  have ids: "map job_id (?js[i := j]) = map job_id ?js"
    using step i by (simp add: map_update list_update_same_conv)
  have "job_inv m1 (?js[i := j] ! l)" if "l < length ?js" for l
  proof (cases "l = i")
    case True
    with step i show ?thesis by simp
  next
    case False
    have "job_id (?js ! l) \<noteq> job_id (?js ! i)"
      using inv i that False by (auto simp: sys_inv_def distinct_conv_nth)
    with False show ?thesis using inv that step job_inv_apart by (auto simp: sys_inv_def list_all_length)
  qed
  moreover have "fmdom' (mg_active m1) \<subseteq> set (map job_id ?js)"
  proof
    fix k assume k: "k \<in> fmdom' (mg_active m1)"
    show "k \<in> set (map job_id ?js)"
    proof (cases "k = job_id (?js ! i)")
      case True
      with i show ?thesis by simp
    next
      case False
      then have "k \<in> fmdom' (mg_active ?m)" using k step by (auto simp: apart_def in_fmdom'_iff)
      with inv show ?thesis by (auto simp: sys_inv_def)
    qed
  qed
  ultimately show ?thesis using inv ids by (simp add: sys_inv_def list_all_length)
qed

lemma sys_inv_run:
  "sys_inv S \<Longrightarrow> distinct (map job_id (ls_jobs S) @ map worker_id (started acts)) \<Longrightarrow> [] \<notin> set (started acts) \<Longrightarrow>
     sys_inv (fold lc_apply acts S)"
proof (induction acts arbitrary: S)
  case (Cons a acts)
  have "sys_inv (lc_apply a S) \<and> distinct (map job_id (ls_jobs (lc_apply a S)) @ map worker_id (started acts))
      \<and> [] \<notin> set (started acts)"
  proof (cases a)
    case (StepJob i now out)
    obtain m1 j where n: "job_next now out (ls_jobs S ! i) (ls_manager S) = (m1, j)" by fastforce
    have st: "started (a # acts) = started acts" by (simp add: StepJob started_def List.map_filter_def)
    show ?thesis
    proof (cases "i < length (ls_jobs S)")
      case True
      let ?S1 = "S\<lparr>ls_manager := m1, ls_jobs := (ls_jobs S)[i := j]\<rparr>"
      note r = sys_inv_step [OF Cons.prems(1) True n]
      have eq: "lc_apply a S = ?S1" using True by (simp add: StepJob n)
      have ids: "map job_id (ls_jobs ?S1) = map job_id (ls_jobs S)" using r by simp
      show ?thesis unfolding eq ids using r Cons.prems(2,3) unfolding st by blast
    next
      case False
      then show ?thesis using Cons.prems unfolding st by (simp add: StepJob)
    qed
  next
    case (SendSignal k b)
    have st: "started (a # acts) = started acts" by (simp add: SendSignal started_def List.map_filter_def)
    have "job_inv (fst (signal k b (ls_manager S))) j = job_inv (ls_manager S) j" for j
      by (cases j) (simp_all add: live_def carries_def ended_def is_active_def Manager_Active_def)
    then show ?thesis using Cons.prems unfolding st by (simp add: SendSignal sys_inv_def list_all_length)
  next
    case (StartRun req err)
    show ?thesis
    proof (cases err)
      case (Some e)
      have "started (a # acts) = started acts" by (simp add: StartRun Some started_def List.map_filter_def)
      then show ?thesis using Cons.prems by (simp add: StartRun Some)
    next
      case None
      have st: "started (a # acts) = wr_AssignmentID req # started acts"
        by (simp add: StartRun None started_def List.map_filter_def)
      have "\<not> Manager_Active (worker_id (wr_AssignmentID req)) (ls_manager S)"
        using Cons.prems(1,2) unfolding st by (auto simp: sys_inv_def Manager_Active_def in_fmdom'_iff dest!: subsetD)
      then show ?thesis using Cons.prems unfolding st by (auto simp: StartRun None sys_inv_def)
    qed
  qed
  with Cons.IH [of "lc_apply a S"] show ?case by simp
qed simp


definition ex_lc_request :: WorkerRequest where
  "ex_lc_request = \<lparr>wr_AssignmentID = ''a'', wr_WorkPackageID = ''w'', wr_ContractID = [], wr_ContractDigest = [],
     wr_ContextDigest = [], wr_Instructions = [], wr_Capabilities = []\<rparr>"

definition ex_lc_acts :: "lc_action list" where
  "ex_lc_acts = StartRun ex_lc_request None # SendSignal ''wrk_a'' True
     # replicate 9 (StepJob 0 7 (failed_result ''blocked'' [] [], None))"


end
