(* ===== verification/ObsvProtocol.thy ===== *)
theory ObsvProtocol
  imports Contracts
begin

text \<open>
  \<open>obsv/protocol/protocol.go\<close>: observation events and the sanitizer of their metadata. Session ids and
  metadata values are text, which \<open>TrimSpace\<close> and \<open>truncate\<close> treat rune by rune: a valid UTF-8 string is
  its list of runes (\<open>text\<close>). \<open>fmt_float\<close> is \<open>strconv.FormatFloat\<close> with format \<open>f\<close> and precision -1 for
  the given bit size.
\<close>

type_synonym rune = nat
type_synonym rtext = "rune list"

definition ascii :: "string \<Rightarrow> rtext" where "ascii s = map of_char s"

text \<open>\<open>unicode.IsSpace\<close>.\<close>

definition is_space :: "rune \<Rightarrow> bool" where
  "is_space r \<longleftrightarrow> (9 \<le> r \<and> r \<le> 13) \<or> (8192 \<le> r \<and> r \<le> 8202)
     \<or> r \<in> {32, 133, 160, 5760, 8232, 8233, 8239, 8287, 12288}"

definition TrimSpace :: "rtext \<Rightarrow> rtext" where
  "TrimSpace s = rev (dropWhile is_space (rev (dropWhile is_space s)))"

section \<open>Events\<close>

definition obs_Version :: string where "obs_Version = ''1.0''"
definition MaxMetadataKeys :: nat where "MaxMetadataKeys = 32"
definition MaxValueLen :: nat where "MaxValueLen = 256"

record ObsEvent =
  oe_Version :: string
  oe_SessionID :: rtext
  oe_Sequence :: int
  oe_OccurredAt :: string
  oe_SourceType :: string
  oe_Source :: string
  oe_Action :: string
  oe_Confidence :: string
  oe_Actor :: string
  oe_WorkPackageID :: string
  oe_AttemptID :: string
  oe_Metadata :: "(string, rtext) fmap"

datatype obs_error = VersionRequired | UnsupportedVersion string | SessionRequired | NegativeSequence
  | UnknownSourceType string | UnknownConfidence string

definition SourceTypes :: "string list" where
  "SourceTypes = [''session'', ''tool'', ''file'', ''work_delta'']"

definition Confidences :: "string list" where
  "Confidences = [''exact'', ''correlated'', ''observed'', ''inferred'']"

definition ValidSourceType :: "string \<Rightarrow> bool" where
  "ValidSourceType t \<longleftrightarrow> t = ''session'' \<or> t = ''tool'' \<or> t = ''file'' \<or> t = ''work_delta''"

definition ValidConfidence :: "string \<Rightarrow> bool" where
  "ValidConfidence c \<longleftrightarrow> c = ''exact'' \<or> c = ''correlated'' \<or> c = ''observed'' \<or> c = ''inferred''"

definition ObsEvent_Validate :: "ObsEvent \<Rightarrow> obs_error option" where
  "ObsEvent_Validate e =
     (if oe_Version e = [] then Some VersionRequired
      else if oe_Version e \<noteq> obs_Version then Some (UnsupportedVersion (oe_Version e))
      else if TrimSpace (oe_SessionID e) = [] then Some SessionRequired
      else if oe_Sequence e < 0 then Some NegativeSequence
      else if \<not> ValidSourceType (oe_SourceType e) then Some (UnknownSourceType (oe_SourceType e))
      else if \<not> ValidConfidence (oe_Confidence e) then Some (UnknownConfidence (oe_Confidence e))
      else None)"

section \<open>Sanitizing metadata\<close>

definition allowlist :: "string list" where
  "allowlist = [''tool'', ''command'', ''operation'', ''target'', ''direction'', ''path'', ''language'', ''branch'',
     ''commit'', ''repo'', ''status'', ''outcome'', ''testName'', ''model'', ''provider'', ''kind'', ''count'',
     ''bytes'', ''line'', ''column'', ''exitCode'', ''durationMs'', ''url'', ''secondary_paths'', ''access_sequence'']"

definition denied :: "string list" where
  "denied = [''content'', ''prompt'', ''source'', ''code'', ''diff'', ''patch'', ''text'', ''body'', ''message'',
     ''token'', ''secret'', ''password'', ''credential'', ''authorization'', ''apikey'', ''apiKey'', ''env'']"

definition MetadataKeys :: "string list" where "MetadataKeys = sort allowlist"

text \<open>An attribute value; a string is text, the other dynamic values are those of \<open>go_any\<close>.\<close>

datatype attr = Text rtext | Other go_any

fun scalar :: "(nat \<Rightarrow> go_float \<Rightarrow> string) \<Rightarrow> attr \<Rightarrow> rtext option" where
  "scalar fmt_float (Text s) = Some s"
| "scalar fmt_float (Other ANil) = None"
| "scalar fmt_float (Other (AString s)) = Some (ascii s)"
| "scalar fmt_float (Other (ABool b)) = Some (ascii (if b then ''true'' else ''false''))"
| "scalar fmt_float (Other (AInt i)) = Some (ascii (itoa_int i))"
| "scalar fmt_float (Other (AInt64 i)) = Some (ascii (itoa_int i))"
| "scalar fmt_float (Other (AFloat64 f)) =
     Some (ascii (case f of
         Finite r \<Rightarrow> if float_integral f then itoa_int \<lfloor>r\<rfloor> else fmt_float 64 f
       | NotFinite _ \<Rightarrow> fmt_float 64 f))"
| "scalar fmt_float (Other (AFloat32 f)) = Some (ascii (fmt_float 32 f))"
| "scalar fmt_float (Other (AStrings _)) = None"
| "scalar fmt_float (Other (AList _)) = None"
| "scalar fmt_float (Other AOther) = None"

definition truncate :: "rtext \<Rightarrow> rtext" where
  "truncate v = (if length v \<le> MaxValueLen then v else take MaxValueLen v)"

text \<open>The value an attribute is stored with, or \<open>None\<close> when the loop skips it.\<close>

definition clean_value :: "(nat \<Rightarrow> go_float \<Rightarrow> string) \<Rightarrow> string \<Rightarrow> attr \<Rightarrow> rtext option" where
  "clean_value fmt_float k a =
     (if k \<in> set denied \<or> k \<notin> set allowlist then None
      else (case scalar fmt_float a of
              None \<Rightarrow> None
            | Some v \<Rightarrow> (let w = truncate (TrimSpace v) in if w = [] then None else Some w)))"

fun sanitize_loop ::
  "(nat \<Rightarrow> go_float \<Rightarrow> string) \<Rightarrow> (string, attr) fmap \<Rightarrow> string list \<Rightarrow> (string, rtext) fmap \<Rightarrow> (string, rtext) fmap" where
  "sanitize_loop fmt_float attrs [] out = out"
| "sanitize_loop fmt_float attrs (k # ks) out =
     (if MaxMetadataKeys \<le> card (fmdom' out) then out
      else (case clean_value fmt_float k (the (fmlookup attrs k)) of
              None \<Rightarrow> sanitize_loop fmt_float attrs ks out
            | Some w \<Rightarrow> sanitize_loop fmt_float attrs ks (fmupd k w out)))"

text \<open>A nil result is the empty map.\<close>

definition Sanitize :: "(nat \<Rightarrow> go_float \<Rightarrow> string) \<Rightarrow> (string, attr) fmap \<Rightarrow> (string, rtext) fmap" where
  "Sanitize fmt_float attrs = sanitize_loop fmt_float attrs (fm_keys attrs) fmempty"

definition SanitizeMetadata :: "(nat \<Rightarrow> go_float \<Rightarrow> string) \<Rightarrow> (string, rtext) fmap \<Rightarrow> (string, rtext) fmap" where
  "SanitizeMetadata fmt_float m = Sanitize fmt_float (fmmap Text m)"

section \<open>What survives\<close>

lemma allowlist_props: "set denied \<inter> set allowlist = {}" "card (set allowlist) = 25" "distinct allowlist"
  by (simp_all add: allowlist_def denied_def)

lemma clean_value_Some:
  assumes "clean_value fmt_float k a = Some w"
  shows "k \<in> set allowlist" and "w \<noteq> []" and "length w \<le> MaxValueLen"
  using assms by (auto simp: clean_value_def Let_def truncate_def split: if_splits option.splits)

lemma sanitize_loop_lookup:
  assumes "distinct ks" and "fmdom' out \<subseteq> set allowlist" and "set ks \<inter> fmdom' out = {}"
  shows "fmlookup (sanitize_loop fmt_float attrs ks out) k =
    (if k \<in> set ks then clean_value fmt_float k (the (fmlookup attrs k)) else fmlookup out k)"
  using assms
proof (induction fmt_float attrs ks out rule: sanitize_loop.induct)
  case (2 fmt_float attrs k' ks out)
  have "card (fmdom' out) \<le> card (set allowlist)" by (rule card_mono) (use 2(4) in auto)
  then have room: "\<not> MaxMetadataKeys \<le> card (fmdom' out)"
    by (simp add: allowlist_props MaxMetadataKeys_def)
  show ?case
  proof (cases "clean_value fmt_float k' (the (fmlookup attrs k'))")
    case None
    with 2 room show ?thesis by (auto simp: in_fmdom'_iff)
  next
    case (Some w)
    have "fmdom' (fmupd k' w out) \<subseteq> set allowlist" using 2(4) clean_value_Some [OF Some] by simp
    moreover have "set ks \<inter> fmdom' (fmupd k' w out) = {}" using 2(3,5) by auto
    ultimately show ?thesis using 2(2) [OF room Some] 2(3) room Some by auto
  qed
qed simp

lemma Sanitize_lookup:
  "fmlookup (Sanitize fmt_float attrs) k =
     (case fmlookup attrs k of None \<Rightarrow> None | Some a \<Rightarrow> clean_value fmt_float k a)"
  unfolding Sanitize_def
  by (subst sanitize_loop_lookup) (auto simp: in_fmdom'_iff split: option.splits)

text \<open>
  Only allowlisted metadata survives, and it is bounded: whatever the attributes, every key \<open>Sanitize\<close>
  keeps is in the allowlist and not in the deny list, its value is a non-empty text of at most 256 runes,
  and an attribute is kept exactly when its key is allowed and its scalar text is not blank: the limit on
  the number of keys never drops one.
\<close>

lemma sanitize_bounded:
  "(let out = Sanitize fmt_float attrs in
      fmdom' out \<subseteq> set allowlist - set denied \<and> card (fmdom' out) \<le> 25
    \<and> fmdom' out = {k \<in> fmdom' attrs \<inter> set allowlist. (case scalar fmt_float (the (fmlookup attrs k)) of
          None \<Rightarrow> False | Some v \<Rightarrow> TrimSpace v \<noteq> [])}
    \<and> fmpred (\<lambda>k w. w \<noteq> [] \<and> length w \<le> 256) out)"
proof -
  let ?out = "Sanitize fmt_float attrs"
  have sub: "fmdom' ?out \<subseteq> set allowlist"
    by (auto simp: in_fmdom'_iff Sanitize_lookup split: option.splits dest: clean_value_Some)
  moreover from sub have "fmdom' ?out \<subseteq> set allowlist - set denied" using allowlist_props(1) by blast
  moreover have "card (fmdom' ?out) \<le> card (set allowlist)" by (rule card_mono) (use sub in auto)
  moreover have "fmpred (\<lambda>k w. w \<noteq> [] \<and> length w \<le> 256) ?out"
    by (rule fmpredI) (auto simp: Sanitize_lookup MaxValueLen_def split: option.splits dest: clean_value_Some)
  moreover have "k \<in> fmdom' ?out \<longleftrightarrow> k \<in> fmdom' attrs \<and> k \<in> set allowlist
      \<and> (case scalar fmt_float (the (fmlookup attrs k)) of None \<Rightarrow> False | Some v \<Rightarrow> TrimSpace v \<noteq> [])" for k
  proof (cases "fmlookup attrs k")
    case (Some a)
    have "truncate w = [] \<longleftrightarrow> w = []" for w by (simp add: truncate_def MaxValueLen_def)
    then show ?thesis
      using Some allowlist_props(1)
      by (auto simp: in_fmdom'_iff Sanitize_lookup clean_value_def Let_def split: option.splits)
  qed (simp add: in_fmdom'_iff Sanitize_lookup)
  ultimately show ?thesis unfolding Let_def allowlist_props(2) by (intro conjI set_eqI) auto
qed

end
