(* ===== verification/Journal.thy ===== *)
theory Journal
  imports ObsvProtocol
begin

text \<open>
  \<open>obsv/journal/journal.go\<close>: the append-only journal in memory with its subscriptions, and the durable
  file journal. A subscription is its channel (a bounded queue) with the counter of dropped events;
  subscriptions are named by the order of their creation. \<open>Append\<close> and \<open>Subscribe\<close> work outside
  the journal's lock for a part of their run: \<open>append_store\<close> and \<open>subscribe_register\<close> are the locked
  parts. A file is its list of lines. \<open>enc\<close> and \<open>dec\<close> are the JSON encoder and decoder of events.
\<close>

section \<open>The memory journal\<close>

record Sub =
  sub_chan :: "ObsEvent list"
  sub_cap :: nat
  sub_dropped :: int
  sub_closed :: bool

record Memory =
  mem_events :: "ObsEvent list"
  mem_next :: int
  mem_subs :: "nat list"       \<comment> \<open>the registered subscriptions\<close>
  mem_all :: "Sub list"        \<comment> \<open>every subscription ever created\<close>
  mem_closed :: bool

datatype journal_error = JournalClosed | InvalidEvent obs_error | EncodeFailed | WriteFailed | DecodeFailed
  | LineTooLong | SendOnClosed | SendBlocks

definition NewMemory :: Memory where
  "NewMemory = \<lparr>mem_events = [], mem_next = 0, mem_subs = [], mem_all = [], mem_closed = False\<rparr>"

text \<open>\<open>deliver\<close>: a full channel drops the event, a closed subscription ignores it.\<close>

definition sub_deliver :: "ObsEvent \<Rightarrow> Sub \<Rightarrow> Sub" where
  "sub_deliver ev s =
     (if sub_closed s then s
      else if length (sub_chan s) < sub_cap s then s\<lparr>sub_chan := sub_chan s @ [ev]\<rparr>
      else s\<lparr>sub_dropped := sub_dropped s + 1\<rparr>)"

definition deliver :: "ObsEvent \<Rightarrow> nat \<Rightarrow> Memory \<Rightarrow> Memory" where
  "deliver ev i m = m\<lparr>mem_all := (mem_all m)[i := sub_deliver ev (mem_all m ! i)]\<rparr>"

definition append_store :: "ObsEvent \<Rightarrow> Memory \<Rightarrow> Memory \<times> (journal_error + ObsEvent \<times> nat list)" where
  "append_store ev m =
     (if mem_closed m then (m, Err JournalClosed)
      else (let ev1 = (if oe_Version ev = [] then ev\<lparr>oe_Version := obs_Version\<rparr> else ev);
                ev2 = ev1\<lparr>oe_Sequence := mem_next m\<rparr>
            in case ObsEvent_Validate ev2 of
                 Some e \<Rightarrow> (m, Err (InvalidEvent e))
               | None \<Rightarrow> (m\<lparr>mem_events := mem_events m @ [ev2], mem_next := mem_next m + 1\<rparr>, Ok (ev2, mem_subs m))))"

definition appendAssigned :: "ObsEvent \<Rightarrow> Memory \<Rightarrow> Memory \<times> (journal_error + ObsEvent)" where
  "appendAssigned ev m =
     (case append_store ev m of
        (m1, Inl e) \<Rightarrow> (m1, Err e)
      | (m1, Inr (ev2, subs)) \<Rightarrow> (fold (deliver ev2) subs m1, Ok ev2))"

definition since :: "int \<Rightarrow> Memory \<Rightarrow> ObsEvent list" where
  "since from m = filter (\<lambda>ev. from \<le> oe_Sequence ev) (mem_events m)"

definition Memory_Replay :: "int \<Rightarrow> Memory \<Rightarrow> ObsEvent list" where
  "Memory_Replay from m = since from m"

definition subscribe_register :: "int \<Rightarrow> Memory \<Rightarrow> Memory \<times> (journal_error + nat \<times> ObsEvent list)" where
  "subscribe_register from m =
     (if mem_closed m then (m, Err JournalClosed)
      else (let backlog = since from m; i = length (mem_all m);
                s = \<lparr>sub_chan = [], sub_cap = length backlog + 64, sub_dropped = 0, sub_closed = False\<rparr>
            in (m\<lparr>mem_all := mem_all m @ [s], mem_subs := mem_subs m @ [i]\<rparr>, Ok (i, backlog))))"

text \<open>
  One \<open>s.ch <- ev\<close> of \<open>Subscribe\<close>: it panics on a closed channel and waits while the channel is full;
  nobody else holds the subscription yet, so waiting never ends.
\<close>

definition backlog_send :: "nat \<Rightarrow> ObsEvent \<Rightarrow> Memory \<Rightarrow> journal_error + Memory" where
  "backlog_send i ev m =
     (let s = mem_all m ! i in
      if sub_closed s then Err SendOnClosed
      else if sub_cap s \<le> length (sub_chan s) then Err SendBlocks
      else Ok (m\<lparr>mem_all := (mem_all m)[i := s\<lparr>sub_chan := sub_chan s @ [ev]\<rparr>]\<rparr>))"

fun backlog_loop :: "nat \<Rightarrow> ObsEvent list \<Rightarrow> Memory \<Rightarrow> journal_error + Memory" where
  "backlog_loop i [] m = Ok m"
| "backlog_loop i (ev # evs) m =
     (case backlog_send i ev m of Inl e \<Rightarrow> Err e | Inr m1 \<Rightarrow> backlog_loop i evs m1)"

text \<open>\<open>Subscribe\<close> when nothing else happens in between.\<close>

definition Memory_Subscribe :: "int \<Rightarrow> Memory \<Rightarrow> Memory \<times> (journal_error + nat)" where
  "Memory_Subscribe from m =
     (case subscribe_register from m of
        (m1, Inl e) \<Rightarrow> (m1, Err e)
      | (m1, Inr (i, backlog)) \<Rightarrow>
          (case backlog_loop i backlog m1 of Inl e \<Rightarrow> (m1, Err e) | Inr m2 \<Rightarrow> (m2, Ok i)))"

definition Sub_Close :: "nat \<Rightarrow> Memory \<Rightarrow> Memory" where
  "Sub_Close i m = m\<lparr>mem_subs := filter (\<lambda>j. j \<noteq> i) (mem_subs m),
     mem_all := (mem_all m)[i := (mem_all m ! i)\<lparr>sub_closed := True\<rparr>]\<rparr>"

definition Memory_Close :: "Memory \<Rightarrow> Memory" where
  "Memory_Close m = (if mem_closed m then m
     else fold Sub_Close (mem_subs m) (m\<lparr>mem_closed := True, mem_subs := []\<rparr>))"

text \<open>The consumer takes one event from its channel.\<close>

definition Sub_Receive :: "nat \<Rightarrow> Memory \<Rightarrow> Memory \<times> ObsEvent option" where
  "Sub_Receive i m =
     (case sub_chan (mem_all m ! i) of
        [] \<Rightarrow> (m, None)
      | ev # evs \<Rightarrow> (m\<lparr>mem_all := (mem_all m)[i := (mem_all m ! i)\<lparr>sub_chan := evs\<rparr>]\<rparr>, Some ev))"

definition Memory_Len :: "Memory \<Rightarrow> nat" where "Memory_Len m = length (mem_events m)"

record Policy =
  po_MaxEvents :: int
  po_MinSequence :: int

definition trim :: "ObsEvent list \<Rightarrow> Policy \<Rightarrow> ObsEvent list" where
  "trim events p =
     (let kept = filter (\<lambda>ev. \<not> (0 < po_MinSequence p \<and> oe_Sequence ev < po_MinSequence p)) events;
          n = int (length kept)
      in if 0 < po_MaxEvents p \<and> po_MaxEvents p < n then drop (nat (n - po_MaxEvents p)) kept else kept)"

section \<open>The file journal\<close>

record FileJournal =
  fj_lines :: "string list"
  fj_mem :: Memory

text \<open>The scanner gives up on a line that does not fit, with its newline, into a buffer of one mebibyte.\<close>

definition max_line :: nat where "max_line = 2 ^ 20 - 1"

fun load_lines :: "(string \<Rightarrow> ObsEvent option) \<Rightarrow> string list \<Rightarrow> journal_error + ObsEvent list" where
  "load_lines dec [] = Ok []"
| "load_lines dec (l # ls) =
     (if max_line < length l then Err LineTooLong
      else if l = [] then load_lines dec ls
      else (case dec l of None \<Rightarrow> Err DecodeFailed
            | Some ev \<Rightarrow> (case load_lines dec ls of Inl e \<Rightarrow> Err e | Inr evs \<Rightarrow> Ok (ev # evs))))"

fun index_loop :: "ObsEvent list \<Rightarrow> Memory \<Rightarrow> journal_error + Memory" where
  "index_loop [] m = Ok m"
| "index_loop (ev # evs) m =
     (let m1 = (if mem_next m < oe_Sequence ev then m\<lparr>mem_next := oe_Sequence ev\<rparr> else m) in
      case appendAssigned ev m1 of (_, Inl e) \<Rightarrow> Err e | (m2, Inr _) \<Rightarrow> index_loop evs m2)"

definition OpenFile :: "(string \<Rightarrow> ObsEvent option) \<Rightarrow> string list \<Rightarrow> journal_error + FileJournal" where
  "OpenFile dec ls =
     (case load_lines dec ls of
        Inl e \<Rightarrow> Err e
      | Inr evs \<Rightarrow> (case index_loop evs NewMemory of
          Inl e \<Rightarrow> Err e | Inr m \<Rightarrow> Ok \<lparr>fj_lines = ls, fj_mem = m\<rparr>))"

text \<open>\<open>wrote\<close>: whether the write to the file succeeds. A failed write is taken to write nothing.\<close>

definition File_Append ::
  "(ObsEvent \<Rightarrow> string option) \<Rightarrow> bool \<Rightarrow> ObsEvent \<Rightarrow> FileJournal \<Rightarrow> FileJournal \<times> (journal_error + ObsEvent)" where
  "File_Append enc wrote ev f =
     (case appendAssigned ev (fj_mem f) of
        (m1, Inl e) \<Rightarrow> (f\<lparr>fj_mem := m1\<rparr>, Err e)
      | (m1, Inr stored) \<Rightarrow>
          (case enc stored of
             None \<Rightarrow> (f\<lparr>fj_mem := m1\<rparr>, Err EncodeFailed)
           | Some line \<Rightarrow>
               if \<not> wrote then (f\<lparr>fj_mem := m1\<rparr>, Err WriteFailed)
               else (f\<lparr>fj_mem := m1, fj_lines := fj_lines f @ [line]\<rparr>, Ok stored)))"

text \<open>
  The rest of the file journal answers from its index. \<open>Close\<close> closes the index first, so nothing is written to the file
  afterwards; what closing the file itself returns is left to the system.
\<close>

definition File_Replay :: "int \<Rightarrow> FileJournal \<Rightarrow> ObsEvent list" where "File_Replay frm f = Memory_Replay frm (fj_mem f)"

definition File_Subscribe :: "int \<Rightarrow> FileJournal \<Rightarrow> FileJournal \<times> (journal_error + nat)" where
  "File_Subscribe frm f = (case Memory_Subscribe frm (fj_mem f) of (m, r) \<Rightarrow> (f\<lparr>fj_mem := m\<rparr>, r))"

definition File_Len :: "FileJournal \<Rightarrow> nat" where "File_Len f = Memory_Len (fj_mem f)"

definition File_Trim :: "Policy \<Rightarrow> FileJournal \<Rightarrow> ObsEvent list" where "File_Trim p f = trim (mem_events (fj_mem f)) p"

definition Memory_Trim :: "Policy \<Rightarrow> Memory \<Rightarrow> ObsEvent list" where "Memory_Trim p m = trim (mem_events m) p"

definition File_Close :: "FileJournal \<Rightarrow> FileJournal" where "File_Close f = f\<lparr>fj_mem := Memory_Close (fj_mem f)\<rparr>"

end
