(* ===== verification/JournalProps.thy ===== *)
theory JournalProps
  imports Journal "HOL-Library.Sublist"
begin

text \<open>Durability of the file journal and completeness of subscriptions.\<close>

section \<open>Appending\<close>

definition stored_ok :: "ObsEvent \<Rightarrow> bool" where
  "stored_ok ev \<longleftrightarrow> oe_Version ev \<noteq> [] \<and> ObsEvent_Validate ev = None"

definition ascending :: "ObsEvent list \<Rightarrow> bool" where
  "ascending evs \<longleftrightarrow> sorted_wrt (<) (map oe_Sequence evs)"

lemma ascending_snoc:
  "ascending (evs @ [ev]) \<longleftrightarrow> ascending evs \<and> (\<forall>x\<in>set evs. oe_Sequence x < oe_Sequence ev)"
  by (auto simp: ascending_def sorted_wrt_append)

lemma deliver_fields [simp]:
  "mem_events (deliver ev i m) = mem_events m" "mem_next (deliver ev i m) = mem_next m"
  "mem_subs (deliver ev i m) = mem_subs m" "mem_closed (deliver ev i m) = mem_closed m"
  "length (mem_all (deliver ev i m)) = length (mem_all m)"
  by (simp_all add: deliver_def)

lemma fold_deliver_fields [simp]:
  "mem_events (fold (deliver ev) is m) = mem_events m" "mem_next (fold (deliver ev) is m) = mem_next m"
  "mem_subs (fold (deliver ev) is m) = mem_subs m" "mem_closed (fold (deliver ev) is m) = mem_closed m"
  "length (mem_all (fold (deliver ev) is m)) = length (mem_all m)"
  by (induction "is" arbitrary: m) simp_all

lemma append_store_Ok:
  assumes "append_store ev m = (m1, Ok (ev2, subs))"
  shows "mem_events m1 = mem_events m @ [ev2]" "mem_next m1 = mem_next m + 1" "oe_Sequence ev2 = mem_next m"
    "stored_ok ev2" "mem_closed m1 = mem_closed m" "subs = mem_subs m" "mem_all m1 = mem_all m" "mem_subs m1 = mem_subs m"
  using assms
  by (auto simp: append_store_def Let_def stored_ok_def obs_Version_def split: if_splits option.splits)

lemma append_store_Err: "append_store ev m = (m1, Err e) \<Longrightarrow> m1 = m"
  by (auto simp: append_store_def Let_def split: if_splits option.splits)

lemma appendAssigned_Ok:
  assumes "appendAssigned ev m = (m1, Ok ev2)"
  shows "mem_events m1 = mem_events m @ [ev2]" "mem_next m1 = mem_next m + 1" "oe_Sequence ev2 = mem_next m"
    "stored_ok ev2" "mem_closed m1 = mem_closed m"
proof -
  obtain m0 subs where "append_store ev m = (m0, Ok (ev2, subs))" "m1 = fold (deliver ev2) subs m0"
    using assms by (auto simp: appendAssigned_def split: prod.splits sum.splits)
  then show "mem_events m1 = mem_events m @ [ev2]" "mem_next m1 = mem_next m + 1" "oe_Sequence ev2 = mem_next m"
    "stored_ok ev2" "mem_closed m1 = mem_closed m"
    using append_store_Ok by simp_all
qed

text \<open>What is stored is the event with the version filled in and the next sequence.\<close>

definition stamped :: "int \<Rightarrow> ObsEvent \<Rightarrow> ObsEvent" where
  "stamped n ev = (if oe_Version ev = [] then ev\<lparr>oe_Version := obs_Version\<rparr> else ev)\<lparr>oe_Sequence := n\<rparr>"

lemma appendAssigned_stamped: "appendAssigned ev m = (m1, Ok ev2) \<Longrightarrow> ev2 = stamped (mem_next m) ev"
  by (auto simp: appendAssigned_def append_store_def Let_def stamped_def split: if_splits option.splits prod.splits)

lemma appendAssigned_Err: "appendAssigned ev m = (m1, Err e) \<Longrightarrow> m1 = m"
  by (auto simp: appendAssigned_def split: prod.splits sum.splits dest: append_store_Err)

text \<open>A stored event is appended unchanged when the counter stands at its sequence.\<close>

lemma appendAssigned_stored:
  assumes "stored_ok ev" and "oe_Sequence ev = mem_next m" and "\<not> mem_closed m"
  shows "snd (appendAssigned ev m) = Ok ev"
proof -
  have "ev\<lparr>oe_Sequence := mem_next m\<rparr> = ev" using assms(2) by simp
  then show ?thesis using assms(1,3) by (auto simp: appendAssigned_def append_store_def stored_ok_def Let_def)
qed

section \<open>Reopening\<close>

lemma index_loop_stored:
  "list_all stored_ok evs \<Longrightarrow> ascending evs \<Longrightarrow> \<forall>ev\<in>set evs. mem_next m \<le> oe_Sequence ev \<Longrightarrow> \<not> mem_closed m \<Longrightarrow>
     \<exists>m'. index_loop evs m = Ok m' \<and> mem_events m' = mem_events m @ evs \<and> \<not> mem_closed m'
        \<and> mem_next m' = (if evs = [] then mem_next m else oe_Sequence (last evs) + 1)"
proof (induction evs arbitrary: m)
  case (Cons ev evs)
  define m1 where "m1 = (if mem_next m < oe_Sequence ev then m\<lparr>mem_next := oe_Sequence ev\<rparr> else m)"
  have n1: "mem_next m1 = oe_Sequence ev" and e1: "mem_events m1 = mem_events m" "\<not> mem_closed m1"
    using Cons.prems by (auto simp: m1_def)
  from Cons.prems(1) n1 e1 have "snd (appendAssigned ev m1) = Ok ev" by (intro appendAssigned_stored) auto
  then obtain m2 where a: "appendAssigned ev m1 = (m2, Ok ev)" by (cases "appendAssigned ev m1") auto
  note f = appendAssigned_Ok [OF a]
  have asc: "ascending evs" "\<forall>x\<in>set evs. mem_next m2 \<le> oe_Sequence x"
    using Cons.prems(2) f(2) n1 by (auto simp: ascending_def)
  obtain m' where m': "index_loop evs m2 = Ok m'" "mem_events m' = mem_events m2 @ evs" "\<not> mem_closed m'"
    "mem_next m' = (if evs = [] then mem_next m2 else oe_Sequence (last evs) + 1)"
    using Cons.IH [OF _ asc] Cons.prems(1) f(5) e1(2) by auto
  have "index_loop (ev # evs) m = (case appendAssigned ev m1 of (_, Inl e) \<Rightarrow> Err e | (m2, Inr _) \<Rightarrow> index_loop evs m2)"
    by (simp only: index_loop.simps m1_def Let_def)
  then have "index_loop (ev # evs) m = Ok m'" using m'(1) by (simp add: a)
  moreover have "mem_events m' = mem_events m @ ev # evs" using m'(2) f(1) e1(1) by simp
  moreover have "mem_next m' = (if ev # evs = [] then mem_next m else oe_Sequence (last (ev # evs)) + 1)"
    using m'(4) f(2) n1 by simp
  ultimately show ?case using m'(3) by blast
qed simp

lemma load_lines_append:
  "load_lines dec ls = Ok evs \<Longrightarrow> dec l = Some ev \<Longrightarrow> l \<noteq> [] \<Longrightarrow> length l \<le> max_line \<Longrightarrow>
     load_lines dec (ls @ [l]) = Ok (evs @ [ev])"
  by (induction dec ls arbitrary: evs rule: load_lines.induct) (auto split: if_splits option.splits sum.splits)

text \<open>A file whose events are stored, ascending and below the counter reopens to exactly its events.\<close>

definition faithful :: "(string \<Rightarrow> ObsEvent option) \<Rightarrow> FileJournal \<Rightarrow> ObsEvent list \<Rightarrow> bool" where
  "faithful dec f evs \<longleftrightarrow> load_lines dec (fj_lines f) = Ok evs \<and> list_all stored_ok evs \<and> ascending evs
     \<and> (\<forall>ev\<in>set evs. 0 \<le> oe_Sequence ev \<and> oe_Sequence ev < mem_next (fj_mem f)) \<and> \<not> mem_closed (fj_mem f)
     \<and> 0 \<le> mem_next (fj_mem f)"

lemma faithful_reopen:
  assumes "faithful dec f evs"
  shows "\<exists>f'. OpenFile dec (fj_lines f) = Ok f' \<and> mem_events (fj_mem f') = evs \<and> faithful dec f' evs"
proof -
  have l: "load_lines dec (fj_lines f) = Ok evs" using assms by (simp add: faithful_def)
  obtain m' where m': "index_loop evs NewMemory = Ok m'" "mem_events m' = evs" "\<not> mem_closed m'"
    "mem_next m' = (if evs = [] then 0 else oe_Sequence (last evs) + 1)"
    using index_loop_stored [of evs NewMemory] assms by (auto simp: faithful_def NewMemory_def)
  have "oe_Sequence ev < mem_next m'" if "ev \<in> set evs" for ev
  proof -
    from that obtain ini where "evs = ini @ [last evs]" by (metis append_butlast_last_id empty_iff empty_set)
    then have "ascending (ini @ [last evs])" "ev \<in> set (ini @ [last evs])"
      using assms that by (simp_all add: faithful_def)
    then have "oe_Sequence ev \<le> oe_Sequence (last evs)" by (auto simp: ascending_snoc)
    with m'(4) that show ?thesis by auto
  qed
  moreover have "0 \<le> mem_next m'"
  proof (cases "evs = []")
    case False
    then have "last evs \<in> set evs" by simp
    with assms have "0 \<le> oe_Sequence (last evs)" by (auto simp: faithful_def)
    with m'(4) show ?thesis by simp
  qed (simp add: m'(4))
  ultimately have "faithful dec \<lparr>fj_lines = fj_lines f, fj_mem = m'\<rparr> evs"
    using assms m' l by (simp add: faithful_def)
  moreover have "OpenFile dec (fj_lines f) = Ok \<lparr>fj_lines = fj_lines f, fj_mem = m'\<rparr>"
    using l m'(1) by (simp add: OpenFile_def)
  ultimately show ?thesis using m'(2) by auto
qed

text \<open>
  The codec's documented behaviour on the events that are \<open>clean\<close> (valid UTF-8, and short enough for the
  scanner's buffer): what was encoded decodes to the same event, and a line is not empty.
\<close>

definition codec_ok ::
  "(ObsEvent \<Rightarrow> bool) \<Rightarrow> (ObsEvent \<Rightarrow> string option) \<Rightarrow> (string \<Rightarrow> ObsEvent option) \<Rightarrow> bool" where
  "codec_ok clean enc dec \<longleftrightarrow>
     (\<forall>ev l. clean ev \<longrightarrow> enc ev = Some l \<longrightarrow> dec l = Some ev \<and> l \<noteq> [] \<and> length l \<le> max_line)"

text \<open>The version and the sequence do not matter for being clean.\<close>

definition appends_clean :: "(ObsEvent \<Rightarrow> bool) \<Rightarrow> (bool \<times> ObsEvent) list \<Rightarrow> bool" where
  "appends_clean clean ops \<longleftrightarrow> list_all (\<lambda>op. \<forall>n. clean (stamped n (snd op))) ops"

lemma faithful_append:
  assumes f: "faithful dec f evs" and a: "File_Append enc wrote ev f = (f', r)" and c: "codec_ok clean enc dec"
    and cl: "\<And>n. clean (stamped n ev)"
  shows "faithful dec f' (evs @ (case r of Inr stored \<Rightarrow> [stored] | Inl _ \<Rightarrow> []))"
proof (cases "appendAssigned ev (fj_mem f)")
  case (Pair m1 res)
  show ?thesis
  proof (cases res)
    case (Inl e)
    with Pair have "m1 = fj_mem f" by (auto dest: appendAssigned_Err)
    with Inl Pair a f show ?thesis by (auto simp: File_Append_def)
  next
    case (Inr stored)
    with Pair have s: "appendAssigned ev (fj_mem f) = (m1, Ok stored)" by simp
    note g = appendAssigned_Ok [OF s]
    have keep: "faithful dec (f\<lparr>fj_mem := m1\<rparr>) evs"
      using f g(2,5) by (auto simp: faithful_def)
    show ?thesis
    proof (cases "enc stored")
      case None
      with a s keep show ?thesis by (auto simp: File_Append_def)
    next
      case (Some l)
      show ?thesis
      proof (cases wrote)
        case False
        with a s Some keep show ?thesis by (auto simp: File_Append_def)
      next
        case True
        have "load_lines dec (fj_lines f @ [l]) = Ok (evs @ [stored])"
          using f c Some cl [of "mem_next (fj_mem f)"] appendAssigned_stamped [OF s]
          by (intro load_lines_append) (auto simp: faithful_def codec_ok_def)
        then have "faithful dec (f\<lparr>fj_mem := m1, fj_lines := fj_lines f @ [l]\<rparr>) (evs @ [stored])"
          using f g by (auto simp: faithful_def ascending_snoc)
        with a s Some True show ?thesis by (auto simp: File_Append_def)
      qed
    qed
  qed
qed

text \<open>A session appends events, each with the success of its write; the acknowledged ones are collected.\<close>

fun file_session ::
  "(ObsEvent \<Rightarrow> string option) \<Rightarrow> (bool \<times> ObsEvent) list \<Rightarrow> FileJournal \<Rightarrow> FileJournal \<times> ObsEvent list" where
  "file_session enc [] f = (f, [])"
| "file_session enc ((wrote, ev) # ops) f =
     (case File_Append enc wrote ev f of
        (f1, Inl _) \<Rightarrow> file_session enc ops f1
      | (f1, Inr stored) \<Rightarrow> (let (f2, acked) = file_session enc ops f1 in (f2, stored # acked)))"

text \<open>Sessions separated by a crash: only the file's lines survive.\<close>

fun journal_life ::
  "(ObsEvent \<Rightarrow> string option) \<Rightarrow> (string \<Rightarrow> ObsEvent option) \<Rightarrow> (bool \<times> ObsEvent) list list \<Rightarrow> string list \<Rightarrow>
     journal_error + FileJournal \<times> ObsEvent list" where
  "journal_life enc dec [] ls = (case OpenFile dec ls of Inl e \<Rightarrow> Err e | Inr f \<Rightarrow> Ok (f, []))"
| "journal_life enc dec (ops # sessions) ls =
     (case OpenFile dec ls of
        Inl e \<Rightarrow> Err e
      | Inr f \<Rightarrow> (let (f1, acked) = file_session enc ops f in
          case journal_life enc dec sessions (fj_lines f1) of
            Inl e \<Rightarrow> Err e | Inr (f2, later) \<Rightarrow> Ok (f2, acked @ later)))"

lemma file_session_faithful:
  "codec_ok clean enc dec \<Longrightarrow> faithful dec f evs \<Longrightarrow> appends_clean clean ops \<Longrightarrow> file_session enc ops f = (f', acked) \<Longrightarrow> faithful dec f' (evs @ acked)"
proof (induction enc ops f arbitrary: evs acked rule: file_session.induct)
  case (2 enc wrote ev ops f)
  obtain f1 r where a: "File_Append enc wrote ev f = (f1, r)" by fastforce
  have step: "faithful dec f1 (evs @ (case r of Inr stored \<Rightarrow> [stored] | Inl _ \<Rightarrow> []))"
    by (rule faithful_append [OF 2(4) a 2(3)]) (use 2(5) in \<open>simp add: appends_clean_def\<close>)
  have cl: "appends_clean clean ops" using 2(5) by (simp add: appends_clean_def)
  show ?case
  proof (cases r)
    case (Inl e)
    with 2(1) [OF a [symmetric] Inl 2(3) _ cl] step 2(6) a show ?thesis by auto
  next
    case (Inr stored)
    obtain later where l: "file_session enc ops f1 = (f', later)" "acked = stored # later"
      using 2(6) a Inr by (auto split: prod.splits)
    from 2(2) [OF a [symmetric] Inr 2(3) _ cl l(1), of "evs @ [stored]"] step Inr l(2) show ?thesis by simp
  qed
qed simp


text \<open>
  The journal can lock itself out: an event that \<open>Append\<close> accepted, wrote and acknowledged, but whose
  line is longer than the scanner's buffer, makes every later \<open>OpenFile\<close> fail.
\<close>

lemma oversized_event_blocks_reopen:
  assumes "File_Append enc True ev f = (f', Ok stored)" and "enc stored = Some l" and "max_line < length l"
  shows "\<not> is_Ok (OpenFile dec (fj_lines f' @ rest))"
proof -
  have "fj_lines f' = fj_lines f @ [l]"
    using assms(1,2) by (auto simp: File_Append_def split: prod.splits sum.splits option.splits)
  moreover have "load_lines dec (ls @ l # rest) \<noteq> Ok evs" for ls evs
    using assms(3) by (induction ls arbitrary: evs) (auto split: option.splits sum.splits)
  ultimately show ?thesis by (cases "load_lines dec (fj_lines f' @ rest)") (auto simp: OpenFile_def)
qed

section \<open>Subscriptions\<close>

definition mem_ok :: "Memory \<Rightarrow> bool" where
  "mem_ok m \<longleftrightarrow> distinct (mem_subs m) \<and> (\<forall>i\<in>set (mem_subs m). i < length (mem_all m))
     \<and> (\<forall>ev\<in>set (mem_events m). oe_Sequence ev < mem_next m)"

datatype journal_op = OpAppend ObsEvent | OpReceive nat | OpSubscribe int | OpCloseSub nat

text \<open>One operation; the events that the consumer of subscription \<open>i\<close> received are collected.\<close>

fun journal_op_apply :: "nat \<Rightarrow> journal_op \<Rightarrow> Memory \<times> ObsEvent list \<Rightarrow> Memory \<times> ObsEvent list" where
  "journal_op_apply i (OpAppend ev) (m, got) = (fst (appendAssigned ev m), got)"
| "journal_op_apply i (OpReceive j) (m, got) =
     (let (m1, r) = Sub_Receive j m in (m1, if j = i then got @ (case r of None \<Rightarrow> [] | Some ev \<Rightarrow> [ev]) else got))"
| "journal_op_apply i (OpSubscribe from) (m, got) = (fst (Memory_Subscribe from m), got)"
| "journal_op_apply i (OpCloseSub j) (m, got) = (Sub_Close j m, got)"

lemma fold_deliver_nth:
  "distinct is \<Longrightarrow> i < length (mem_all m) \<Longrightarrow>
     mem_all (fold (deliver ev) is m) ! i = (if i \<in> set is then sub_deliver ev (mem_all m ! i) else mem_all m ! i)"
proof (induction "is" arbitrary: m)
  case (Cons j js)
  have "mem_all (deliver ev j m) ! i = (if i = j then sub_deliver ev (mem_all m ! i) else mem_all m ! i)"
    using Cons.prems(2) by (simp add: deliver_def nth_list_update)
  with Cons.IH [of "deliver ev j m"] Cons.prems show ?case by auto
qed simp

lemma append_delivers:
  assumes "appendAssigned ev m = (m1, Ok ev2)" and "mem_ok m" and "i < length (mem_all m)"
  shows "mem_all m1 ! i = (if i \<in> set (mem_subs m) then sub_deliver ev2 (mem_all m ! i) else mem_all m ! i)"
    and "mem_ok m1" and "mem_subs m1 = mem_subs m" and "length (mem_all m1) = length (mem_all m)"
proof -
  obtain m0 subs where s: "append_store ev m = (m0, Ok (ev2, subs))" "m1 = fold (deliver ev2) subs m0"
    using assms(1) by (auto simp: appendAssigned_def split: prod.splits sum.splits)
  note f = append_store_Ok [OF s(1)]
  show "mem_all m1 ! i = (if i \<in> set (mem_subs m) then sub_deliver ev2 (mem_all m ! i) else mem_all m ! i)"
    using fold_deliver_nth [of subs i m0 ev2] assms(2,3) f s(2) by (simp add: mem_ok_def)
  show "mem_subs m1 = mem_subs m" "length (mem_all m1) = length (mem_all m)" using s(2) f by simp_all
  then show "mem_ok m1" using assms(2) f s(2) unfolding mem_ok_def by fastforce
qed

lemma backlog_loop_other:
  "backlog_loop k evs m = Ok m' \<Longrightarrow> mem_events m' = mem_events m \<and> mem_next m' = mem_next m \<and> mem_subs m' = mem_subs m
     \<and> length (mem_all m') = length (mem_all m) \<and> (\<forall>i. i \<noteq> k \<longrightarrow> mem_all m' ! i = mem_all m ! i)"
proof (induction k evs m rule: backlog_loop.induct)
  case (2 k ev evs m)
  obtain m1 where s: "backlog_send k ev m = Ok m1" "backlog_loop k evs m1 = Ok m'"
    using 2(2) by (auto split: sum.splits)
  have "mem_events m1 = mem_events m \<and> mem_next m1 = mem_next m \<and> mem_subs m1 = mem_subs m
     \<and> length (mem_all m1) = length (mem_all m) \<and> (\<forall>i. i \<noteq> k \<longrightarrow> mem_all m1 ! i = mem_all m ! i)"
    using s(1) by (auto simp: backlog_send_def Let_def split: if_splits)
  with 2(1) [OF s] show ?case by simp
qed simp

lemma backlog_loop_own:
  "k < length (mem_all m) \<Longrightarrow> \<not> sub_closed (mem_all m ! k) \<Longrightarrow>
     length (sub_chan (mem_all m ! k)) + length evs \<le> sub_cap (mem_all m ! k) \<Longrightarrow>
     \<exists>m'. backlog_loop k evs m = Ok m'
       \<and> mem_all m' ! k = (mem_all m ! k)\<lparr>sub_chan := sub_chan (mem_all m ! k) @ evs\<rparr>"
proof (induction evs arbitrary: m)
  case (Cons ev evs)
  define m1 where "m1 = m\<lparr>mem_all := (mem_all m)[k := (mem_all m ! k)\<lparr>sub_chan := sub_chan (mem_all m ! k) @ [ev]\<rparr>]\<rparr>"
  have s: "backlog_send k ev m = Ok m1" using Cons.prems by (simp add: backlog_send_def m1_def Let_def)
  have "mem_all m1 ! k = (mem_all m ! k)\<lparr>sub_chan := sub_chan (mem_all m ! k) @ [ev]\<rparr>" "k < length (mem_all m1)"
    using Cons.prems(1) by (simp_all add: m1_def)
  with Cons.IH [of m1] Cons.prems s show ?case by auto
qed simp

text \<open>An undisturbed \<open>Subscribe\<close> never fails on an open journal and queues the backlog.\<close>

lemma Memory_Subscribe_spec:
  assumes "mem_ok m" and "Memory_Subscribe from m = (m1, r)"
  shows "mem_ok m1 \<and> mem_events m1 = mem_events m
    \<and> (\<forall>i<length (mem_all m). mem_all m1 ! i = mem_all m ! i) \<and> length (mem_all m) \<le> length (mem_all m1)
    \<and> set (mem_subs m) \<subseteq> set (mem_subs m1)
    \<and> (\<forall>i. r = Ok i \<longrightarrow> i = length (mem_all m) \<and> i \<in> set (mem_subs m1) \<and> i < length (mem_all m1)
        \<and> mem_all m1 ! i = \<lparr>sub_chan = since from m, sub_cap = length (since from m) + 64, sub_dropped = 0, sub_closed = False\<rparr>)"
proof (cases "mem_closed m")
  case True
  with assms show ?thesis by (auto simp: Memory_Subscribe_def subscribe_register_def)
next
  case False
  let ?k = "length (mem_all m)" and ?b = "since from m"
  let ?s = "\<lparr>sub_chan = [], sub_cap = length ?b + 64, sub_dropped = 0, sub_closed = False\<rparr>"
  define m0 where "m0 = m\<lparr>mem_all := mem_all m @ [?s], mem_subs := mem_subs m @ [?k]\<rparr>"
  have reg: "subscribe_register from m = (m0, Ok (?k, ?b))"
    using False by (simp add: subscribe_register_def m0_def Let_def)
  have at: "mem_all m0 ! ?k = ?s" "?k < length (mem_all m0)" by (simp_all add: m0_def)
  obtain m' where m': "backlog_loop ?k ?b m0 = Ok m'" "mem_all m' ! ?k = ?s\<lparr>sub_chan := ?b\<rparr>"
    using backlog_loop_own [of ?k m0 ?b] at by auto
  have eq: "m1 = m'" "r = Ok ?k" using assms(2) m'(1) by (auto simp: Memory_Subscribe_def reg)
  note o = backlog_loop_other [OF m'(1)]
  have old: "mem_all m0 ! i = mem_all m ! i" if "i < ?k" for i using that by (simp add: m0_def nth_append)
  have ev: "mem_events m0 = mem_events m" "mem_next m0 = mem_next m" "mem_subs m0 = mem_subs m @ [?k]"
    "length (mem_all m0) = Suc ?k" by (simp_all add: m0_def)
  have "mem_ok m'" using assms(1) o ev by (auto simp: mem_ok_def less_Suc_eq)
  moreover have "mem_all m' ! i = mem_all m ! i" if "i < ?k" for i
    using o old that by (metis less_irrefl)
  ultimately show ?thesis unfolding eq using o ev m'(2) by (auto simp: less_Suc_eq)
qed

definition sub_inv :: "nat \<Rightarrow> ObsEvent list \<Rightarrow> nat \<Rightarrow> Memory \<times> ObsEvent list \<Rightarrow> bool" where
  "sub_inv i base n mg \<longleftrightarrow> (let (m, got) = mg; s = mem_all m ! i; offered = base @ drop n (mem_events m) in
     mem_ok m \<and> i < length (mem_all m) \<and> i \<in> set (mem_subs m) \<and> \<not> sub_closed s \<and> n \<le> length (mem_events m)
     \<and> subseq (got @ sub_chan s) offered
     \<and> int (length (got @ sub_chan s)) + sub_dropped s = int (length offered))"

lemma sub_inv_step:
  assumes inv: "sub_inv i base n (m, got)" and other: "op \<noteq> OpCloseSub i"
  shows "sub_inv i base n (journal_op_apply i op (m, got))"
proof (cases op)
  case (OpAppend ev)
  show ?thesis
  proof (cases "appendAssigned ev m")
    case (Pair m1 r)
    show ?thesis
    proof (cases r)
      case (Inl e)
      with Pair OpAppend inv show ?thesis by (auto dest: appendAssigned_Err)
    next
      case (Inr ev2)
      with Pair have a: "appendAssigned ev m = (m1, Ok ev2)" by simp
      have pre: "mem_ok m" "i < length (mem_all m)" using inv by (auto simp: sub_inv_def Let_def)
      note d = append_delivers [OF a pre] and g = appendAssigned_Ok [OF a]
      have i: "i \<in> set (mem_subs m)" "\<not> sub_closed (mem_all m ! i)" "n \<le> length (mem_events m)"
        using inv by (simp_all add: sub_inv_def Let_def)
      have off: "base @ drop n (mem_events m1) = (base @ drop n (mem_events m)) @ [ev2]" using i(3) g(1) by simp
      have s: "mem_all m1 ! i = sub_deliver ev2 (mem_all m ! i)" using d(1) i(1) by simp
      have sub: "subseq (got @ sub_chan (mem_all m ! i)) (base @ drop n (mem_events m))"
        and len: "int (length (got @ sub_chan (mem_all m ! i))) + sub_dropped (mem_all m ! i)
          = int (length (base @ drop n (mem_events m)))"
        using inv by (simp_all add: sub_inv_def Let_def)
      have "subseq (got @ sub_chan (mem_all m1 ! i)) ((base @ drop n (mem_events m)) @ [ev2])"
        using i(2) list_emb_append_mono [OF sub subseq_order.refl [of "[ev2]"]] subseq_rev_drop_many [OF sub, of "[ev2]"]
        by (auto simp: s sub_deliver_def)
      moreover have "int (length (got @ sub_chan (mem_all m1 ! i))) + sub_dropped (mem_all m1 ! i)
          = int (length ((base @ drop n (mem_events m)) @ [ev2]))"
        using len i(2) by (auto simp: s sub_deliver_def)
      moreover have "\<not> sub_closed (mem_all m1 ! i)" using i(2) by (simp add: s sub_deliver_def)
      ultimately show ?thesis
        using d(2-4) pre(2) i g(1) a unfolding sub_inv_def OpAppend Let_def off [symmetric] by simp
    qed
  qed
next
  case (OpReceive j)
  show ?thesis
  proof (cases "sub_chan (mem_all m ! j)")
    case Nil
    with inv OpReceive show ?thesis by (simp add: Sub_Receive_def sub_inv_def)
  next
    case (Cons ev evs)
    with inv OpReceive show ?thesis
      by (auto simp: Sub_Receive_def sub_inv_def mem_ok_def Let_def nth_list_update)
  qed
next
  case (OpSubscribe fr)
  obtain m1 r where "Memory_Subscribe fr m = (m1, r)" by fastforce
  with inv OpSubscribe Memory_Subscribe_spec [of m fr m1 r] show ?thesis
    by (auto simp: sub_inv_def Let_def)
next
  case (OpCloseSub j)
  with inv other show ?thesis
    by (auto simp: Sub_Close_def sub_inv_def mem_ok_def Let_def nth_list_update)
qed

lemma sub_inv_fold:
  "sub_inv i base n mg \<Longrightarrow> OpCloseSub i \<notin> set ops \<Longrightarrow> sub_inv i base n (fold (journal_op_apply i) ops mg)"
proof (induction ops arbitrary: mg)
  case (Cons op ops)
  have "sub_inv i base n (journal_op_apply i op mg)"
    using sub_inv_step [of i base n "fst mg" "snd mg" op] Cons.prems by auto
  with Cons.IH Cons.prems(2) show ?case by simp
qed simp


text \<open>
  \<open>Subscribe\<close> races with the producers, because it queues the backlog after it released the journal's
  lock: an \<open>Append\<close> in between is delivered before the older backlog, so the subscriber sees the sequence
  numbers go back; and a \<open>Close\<close> in between makes \<open>Subscribe\<close> panic on the closed channel.
\<close>

lemma subscribe_race:
  assumes "mem_ok m" and reg: "subscribe_register fr m = (m1, Ok (i, backlog))"
    and app: "appendAssigned ev m1 = (m2, Ok stored)" and fin: "backlog_loop i backlog m2 = Ok m3"
  shows "sub_chan (mem_all m3 ! i) = stored # backlog \<and> (\<forall>x\<in>set backlog. oe_Sequence x < oe_Sequence stored)
    \<and> (if backlog = [] then True else backlog_loop i backlog (Memory_Close m1) = Err SendOnClosed)"
proof -
  let ?s = "\<lparr>sub_chan = [], sub_cap = length backlog + 64, sub_dropped = 0, sub_closed = False\<rparr>"
  have r: "i = length (mem_all m)" "backlog = since fr m" "\<not> mem_closed m1" "mem_next m1 = mem_next m"
    "mem_all m1 = mem_all m @ [?s]" "mem_subs m1 = mem_subs m @ [i]" "mem_events m1 = mem_events m"
    using reg by (auto simp: subscribe_register_def Let_def split: if_splits)
  have ok1: "mem_ok m1" using assms(1) r by (auto simp: mem_ok_def less_Suc_eq)
  have i1: "i < length (mem_all m1)" "mem_all m1 ! i = ?s" "i \<in> set (mem_subs m1)" using r by simp_all
  have "mem_all m2 ! i = ?s\<lparr>sub_chan := [stored]\<rparr>" and l2: "i < length (mem_all m2)"
    using append_delivers [OF app ok1 i1(1)] i1 by (simp_all add: sub_deliver_def)
  then have "mem_all m3 ! i = ?s\<lparr>sub_chan := stored # backlog\<rparr>"
    using backlog_loop_own [of i m2 backlog] fin by auto
  moreover have "\<forall>x\<in>set backlog. oe_Sequence x < oe_Sequence stored"
    using assms(1) appendAssigned_Ok(3) [OF app] r(2,4) by (auto simp: mem_ok_def since_def)
  moreover have "backlog_loop i backlog (Memory_Close m1) = Err SendOnClosed" if "backlog \<noteq> []"
  proof -
    have keep: "sub_closed (mem_all mm ! i) \<Longrightarrow> sub_closed (mem_all (Sub_Close j mm) ! i)"
      if "i < length (mem_all mm)" for j mm
      using that by (cases "j = i") (simp_all add: Sub_Close_def)
    have closes: "i < length (mem_all mm) \<Longrightarrow> i \<in> set js \<or> sub_closed (mem_all mm ! i) \<Longrightarrow>
        sub_closed (mem_all (fold Sub_Close js mm) ! i)" for js mm
    proof (induction js arbitrary: mm)
      case (Cons j js)
      have "i < length (mem_all (Sub_Close j mm))" using Cons.prems(1) by (simp add: Sub_Close_def)
      moreover have "i \<in> set js \<or> sub_closed (mem_all (Sub_Close j mm) ! i)"
        using Cons.prems keep [of mm j] by (auto simp: Sub_Close_def)
      ultimately show ?case using Cons.IH by simp
    qed simp
    have "sub_closed (mem_all (Memory_Close m1) ! i)"
      using closes [of "m1\<lparr>mem_closed := True, mem_subs := []\<rparr>" "mem_subs m1"] i1 r(3) by (simp add: Memory_Close_def)
    with that show ?thesis by (cases backlog) (simp_all add: backlog_send_def Let_def)
  qed
  ultimately show ?thesis by simp
qed

section \<open>A concrete journal\<close>

definition ex_obs :: ObsEvent where
  "ex_obs = \<lparr>oe_Version = ''1.0'', oe_SessionID = [115], oe_Sequence = 0, oe_OccurredAt = [], oe_SourceType = ''tool'',
     oe_Source = [], oe_Action = [], oe_Confidence = ''exact'', oe_Actor = [], oe_WorkPackageID = [], oe_AttemptID = [],
     oe_Metadata = fmempty\<rparr>"

definition ex_enc :: "ObsEvent \<Rightarrow> string option" where "ex_enc ev = (if ev = ex_obs then Some ''x'' else None)"
definition ex_dec :: "string \<Rightarrow> ObsEvent option" where "ex_dec l = (if l = ''x'' then Some ex_obs else None)"

lemma ex_obs_valid: "ObsEvent_Validate (ex_obs\<lparr>oe_Sequence := n\<rparr>) = None" if "0 \<le> n"
  using that by (simp add: ObsEvent_Validate_def ex_obs_def obs_Version_def TrimSpace_def is_space_def
      ValidSourceType_def ValidConfidence_def)

lemma ex_append:
  "appendAssigned ex_obs NewMemory =
     (NewMemory\<lparr>mem_events := [ex_obs], mem_next := 1\<rparr>, Ok ex_obs)"
proof -
  have e: "ex_obs\<lparr>oe_Sequence := 0\<rparr> = ex_obs" "oe_Version ex_obs \<noteq> []" by (simp_all add: ex_obs_def)
  show ?thesis
    using ex_obs_valid [of 0] by (simp add: appendAssigned_def append_store_def NewMemory_def e Let_def)
qed

lemma ex_codec: "codec_ok (\<lambda>_. True) ex_enc ex_dec"
  by (auto simp: codec_ok_def ex_enc_def ex_dec_def max_line_def split: if_splits)


definition ex_long :: "ObsEvent \<Rightarrow> string option" where
  "ex_long ev = Some (replicate (2 ^ 20) (CHR ''x''))"

definition ex_journal :: Memory where
  "ex_journal = NewMemory\<lparr>mem_events := [ex_obs], mem_next := 1\<rparr>"

lemma ex_journal_ok: "mem_ok ex_journal"
  by (simp add: mem_ok_def ex_journal_def NewMemory_def ex_obs_def)


end
