(* ===== verification/VisSession.thy ===== *)
theory VisSession
  imports ContractEvidence Texts
begin

text \<open>
  \<open>visualizer/types.go\<close>, \<open>visualizer/compat\<close> and \<open>visualizer/session\<close>: the graph that a session's events are folded into, with
  the observation metadata adopted by the compatibility profile. A payload is the list of its fields, which JSON keeps
  distinct; a node of the map carries the id it is stored under, so \<open>ensure\<close> is used for its map only.
\<close>

section \<open>Graphs\<close>

record VisNode =
  vn_ID :: string
  vn_Kind :: string
  vn_Label :: string
  vn_Ref :: string
  vn_Sequence :: int
  vn_Metadata :: "(string, string) fmap"

record VisEdge =
  ve_From :: string
  ve_To :: string
  ve_Kind :: string
  ve_Sequence :: int

record VisGraph =
  vg_SessionID :: string
  vg_Nodes :: "VisNode list"
  vg_Edges :: "VisEdge list"

record VisSummary =
  vs_ID :: string
  vs_ProjectID :: string
  vs_Actors :: "string list"
  vs_StartSequence :: int
  vs_EndSequence :: int
  vs_EventCount :: int
  vs_StartedAt :: time
  vs_EndedAt :: time

datatype vis_error =
    VisRequired string
  | VisEmpty
  | VisNotFound string
  | VisUnavailable
  | VisInvalidEvent val_error
  | VisInvalidObservation
  | VisItemNotString string nat
  | VisNotStrings string
  | VisTooManyNodes int
  | VisTooManyEdges int
  | VisFrameRange int
  | VisUndecodable string
  | VisMode string
  | VisCancelled
  | VisAt nat

definition NodeByID :: "string \<Rightarrow> VisGraph \<Rightarrow> VisNode option" where
  "NodeByID k g = find (\<lambda>n. vn_ID n = k) (vg_Nodes g)"

definition NodeIDFor :: "string \<Rightarrow> string \<Rightarrow> string" where "NodeIDFor kind ref = kind @ '':'' @ ref"
definition SessionNodeID :: "string \<Rightarrow> string" where "SessionNodeID sid = NodeIDFor ''session'' sid"
definition ActorNodeID :: "string \<Rightarrow> string" where "ActorNodeID a = NodeIDFor ''actor'' a"

section \<open>The compatibility profile\<close>

record VisMetadata =
  vm_SecondaryPaths :: "string list"
  vm_AccessSequence :: "string list"

definition Metadata_Empty :: "VisMetadata \<Rightarrow> bool" where
  "Metadata_Empty m \<longleftrightarrow> vm_SecondaryPaths m = [] \<and> vm_AccessSequence m = []"

definition compat_Keys :: "string list" where "compat_Keys = [''secondary_paths'', ''access_sequence'']"

definition compat_lookup :: "(string \<times> go_any) list \<Rightarrow> string list \<Rightarrow> go_any option" where
  "compat_lookup payload keys = (case List.map_filter (map_of payload) keys of [] \<Rightarrow> None | v # _ \<Rightarrow> Some v)"

definition splitDelimited :: "string \<Rightarrow> string list" where
  "splitDelimited v =
     (if trim_space v = [] then [] else filter (\<lambda>p. p \<noteq> []) (map trim_space (split_on (CHR '','') v)))"

fun strings_of :: "string \<Rightarrow> nat \<Rightarrow> go_any list \<Rightarrow> vis_error + string list" where
  "strings_of field i [] = Ok []"
| "strings_of field i (v # vs) =
     (case v of AString s \<Rightarrow> (case strings_of field (Suc i) vs of Inl e \<Rightarrow> Err e | Inr ss \<Rightarrow> Ok (s # ss))
      | _ \<Rightarrow> Err (VisItemNotString field i))"

definition toStrings :: "string \<Rightarrow> go_any \<Rightarrow> vis_error + string list" where
  "toStrings field v =
     (case v of ANil \<Rightarrow> Ok []
      | AString s \<Rightarrow> Ok (splitDelimited s)
      | AStrings ss \<Rightarrow> Ok ss
      | AList vs \<Rightarrow> strings_of field 0 vs
      | _ \<Rightarrow> Err (VisNotStrings field))"

definition compat_dedup :: "string list \<Rightarrow> string list" where "compat_dedup vs = dedup_by (\<lambda>v. v) [] vs"

definition profile_list :: "string \<Rightarrow> string list \<Rightarrow> (string \<times> go_any) list \<Rightarrow> vis_error + string list" where
  "profile_list field keys payload =
     (case compat_lookup payload keys of None \<Rightarrow> Ok []
      | Some raw \<Rightarrow> (case toStrings field raw of Inl e \<Rightarrow> Err e | Inr vs \<Rightarrow> Ok (compat_dedup vs)))"

definition NormalizePayload :: "(string \<times> go_any) list \<Rightarrow> vis_error + VisMetadata" where
  "NormalizePayload payload =
     (case profile_list ''secondary_paths'' [''secondary_paths'', ''secondaryPaths''] payload of Inl e \<Rightarrow> Err e
      | Inr ps \<Rightarrow> (case profile_list ''access_sequence'' [''access_sequence'', ''accessSequence''] payload of Inl e \<Rightarrow> Err e
        | Inr as \<Rightarrow> Ok \<lparr>vm_SecondaryPaths = ps, vm_AccessSequence = as\<rparr>))"

definition compat_Normalize :: "Event \<Rightarrow> vis_error + VisMetadata" where
  "compat_Normalize e = NormalizePayload (en_Payload e)"

section \<open>Projection\<close>

definition ensure_node :: "string \<Rightarrow> string \<Rightarrow> string \<Rightarrow> string \<Rightarrow> int \<Rightarrow> (string, VisNode) fmap \<Rightarrow> (string, VisNode) fmap" where
  "ensure_node k kind label ref q nodes =
     (case fmlookup nodes k of Some _ \<Rightarrow> nodes
      | None \<Rightarrow> fmupd k \<lparr>vn_ID = k, vn_Kind = kind, vn_Label = label, vn_Ref = ref, vn_Sequence = q, vn_Metadata = fmempty\<rparr> nodes)"

definition annotate_node :: "string \<Rightarrow> VisMetadata \<Rightarrow> (string, VisNode) fmap \<Rightarrow> (string, VisNode) fmap" where
  "annotate_node k m nodes =
     (case fmlookup nodes k of None \<Rightarrow> nodes
      | Some n \<Rightarrow>
         let d1 = (if vm_SecondaryPaths m \<noteq> [] then fmupd ''secondary_paths'' (strings_Join '','' (vm_SecondaryPaths m)) (vn_Metadata n)
                   else vn_Metadata n);
             d2 = (if vm_AccessSequence m \<noteq> [] then fmupd ''access_sequence'' (strings_Join '','' (vm_AccessSequence m)) d1 else d1)
         in fmupd k (n\<lparr>vn_Metadata := d2\<rparr>) nodes)"

definition sorted_nodes :: "(string, VisNode) fmap \<Rightarrow> VisNode list" where
  "sorted_nodes nodes = sort_key vn_ID (fm_vals nodes)"

definition edge_key :: "string \<Rightarrow> string \<Rightarrow> string \<Rightarrow> string" where
  "edge_key a b kind = a @ [CHR 0x00] @ b @ [CHR 0x00] @ kind"

definition add_edge :: "string \<Rightarrow> string \<Rightarrow> string \<Rightarrow> int \<Rightarrow> (string, VisEdge) fmap \<Rightarrow> (string, VisEdge) fmap" where
  "add_edge a b kind q edges =
     (case fmlookup edges (edge_key a b kind) of
        Some x \<Rightarrow> (if q < ve_Sequence x then fmupd (edge_key a b kind) (x\<lparr>ve_Sequence := q\<rparr>) edges else edges)
      | None \<Rightarrow> fmupd (edge_key a b kind) \<lparr>ve_From = a, ve_To = b, ve_Kind = kind, ve_Sequence = q\<rparr> edges)"

definition sorted_edges :: "(string, VisEdge) fmap \<Rightarrow> VisEdge list" where
  "sorted_edges edges = sort_key (\<lambda>x. (ve_From x, ve_To x, ve_Kind x)) (fm_vals edges)"

definition payloadString :: "(string \<times> go_any) list \<Rightarrow> string \<Rightarrow> string option" where
  "payloadString payload key = (case map_of payload key of Some (AString v) \<Rightarrow> (if v = [] then None else Some v) | _ \<Rightarrow> None)"

text \<open>The maps of the fold, and the passages of its loop body in their order.\<close>

record VisFold =
  vf_nodes :: "(string, VisNode) fmap"
  vf_edges :: "(string, VisEdge) fmap"
  vf_byEvent :: "(string, string) fmap"
  vf_firstBy :: "(string, string) fmap"

definition agg_id :: "Event \<Rightarrow> string" where "agg_id e = NodeIDFor (ea_Kind (en_Aggregate e)) (ea_ID (en_Aggregate e))"

definition link_nodes :: "string \<Rightarrow> string \<Rightarrow> string \<Rightarrow> int \<Rightarrow> VisFold \<Rightarrow> VisFold" where
  "link_nodes a b kind q f = f\<lparr>vf_edges := (if a \<noteq> b then add_edge a b kind q (vf_edges f) else vf_edges f)\<rparr>"

definition see_node :: "string \<Rightarrow> string \<Rightarrow> int \<Rightarrow> VisFold \<Rightarrow> VisFold" where
  "see_node kind ref q f = f\<lparr>vf_nodes := ensure_node (NodeIDFor kind ref) kind ref ref q (vf_nodes f)\<rparr>"

definition see_aggregate :: "string \<Rightarrow> Event \<Rightarrow> VisFold \<Rightarrow> VisFold" where
  "see_aggregate root e f =
     (let f1 = link_nodes root (agg_id e) ''contains'' (en_Sequence e)
          (see_node (ea_Kind (en_Aggregate e)) (ea_ID (en_Aggregate e)) (en_Sequence e) f)
      in f1\<lparr>vf_byEvent := fmupd (ev_ID (en_Envelope e)) (agg_id e) (vf_byEvent f1)\<rparr>)"

definition see_actor :: "Event \<Rightarrow> VisFold \<Rightarrow> VisFold" where
  "see_actor e f =
     (let a = ac_ID (en_Actor e) in
      if a = [] then f
      else let f1 = see_node ''actor'' a (en_Sequence e) f in
        f1\<lparr>vf_edges := add_edge (ActorNodeID a) (agg_id e) ''access'' (en_Sequence e) (vf_edges f1)\<rparr>)"

definition see_causation :: "Event \<Rightarrow> VisFold \<Rightarrow> VisFold" where
  "see_causation e f =
     (if en_CausationID e = [] then f
      else (case fmlookup (vf_byEvent f) (en_CausationID e) of None \<Rightarrow> f
        | Some cause \<Rightarrow> link_nodes cause (agg_id e) ''causation'' (en_Sequence e) f))"

definition see_correlation :: "Event \<Rightarrow> VisFold \<Rightarrow> VisFold" where
  "see_correlation e f =
     (if en_CorrelationID e = [] then f
      else (case fmlookup (vf_firstBy f) (en_CorrelationID e) of
          Some frst \<Rightarrow> link_nodes frst (agg_id e) ''correlation'' (en_Sequence e) f
        | None \<Rightarrow> f\<lparr>vf_firstBy := fmupd (en_CorrelationID e) (agg_id e) (vf_firstBy f)\<rparr>))"

definition see_metadata :: "Event \<Rightarrow> VisMetadata \<Rightarrow> VisFold \<Rightarrow> VisFold" where
  "see_metadata e m f = (if Metadata_Empty m then f else f\<lparr>vf_nodes := annotate_node (agg_id e) m (vf_nodes f)\<rparr>)"

definition see_payload :: "string \<Rightarrow> string \<Rightarrow> string \<Rightarrow> Event \<Rightarrow> VisFold \<Rightarrow> VisFold" where
  "see_payload key kind edge e f =
     (case payloadString (en_Payload e) key of None \<Rightarrow> f
      | Some ref \<Rightarrow> link_nodes (agg_id e) (NodeIDFor kind ref) edge (en_Sequence e) (see_node kind ref (en_Sequence e) f))"

definition project_event :: "string \<Rightarrow> Event \<Rightarrow> VisFold \<Rightarrow> vis_error + VisFold" where
  "project_event root e f =
     (let f1 = see_correlation e (see_causation e (see_actor e (see_aggregate root e f))) in
      case compat_Normalize e of Inl x \<Rightarrow> Err x
      | Inr m \<Rightarrow> Ok (see_payload ''artifactId'' ''artifact'' ''produces'' e
          (see_payload ''workPackageId'' ''work_package'' ''assigns'' e (see_metadata e m f1))))"

fun project_loop :: "string \<Rightarrow> Event list \<Rightarrow> VisFold \<Rightarrow> vis_error + VisFold" where
  "project_loop root [] f = Ok f"
| "project_loop root (e # es) f = (case project_event root e f of Inl x \<Rightarrow> Err x | Inr f1 \<Rightarrow> project_loop root es f1)"

definition orderedCopy :: "Event list \<Rightarrow> Event list" where "orderedCopy es = sort_key en_Sequence es"

definition first_fold :: "string \<Rightarrow> int \<Rightarrow> VisFold" where
  "first_fold sid q = see_node ''session'' sid q
     \<lparr>vf_nodes = fmempty, vf_edges = fmempty, vf_byEvent = fmempty, vf_firstBy = fmempty\<rparr>"

definition graph_of :: "string \<Rightarrow> VisFold \<Rightarrow> VisGraph" where
  "graph_of sid f = \<lparr>vg_SessionID = sid, vg_Nodes = sorted_nodes (vf_nodes f), vg_Edges = sorted_edges (vf_edges f)\<rparr>"

definition vis_Project :: "string \<Rightarrow> Event list \<Rightarrow> vis_error + VisGraph" where
  "vis_Project sid es =
     (if sid = [] then Err (VisRequired ''sessionId'')
      else (case orderedCopy es of [] \<Rightarrow> Err VisEmpty
       | e # rest \<Rightarrow>
         (case project_loop (SessionNodeID sid) (e # rest) (first_fold sid (en_Sequence e)) of Inl x \<Rightarrow> Err x
          | Inr f \<Rightarrow> Ok (graph_of sid f))))"

text \<open>\<open>parse\<close> is RFC 3339; an unparsable time leaves the zero time.\<close>

definition vis_Summarize :: "(string \<Rightarrow> time option) \<Rightarrow> string \<Rightarrow> Event list \<Rightarrow> vis_error + VisSummary" where
  "vis_Summarize parse sid es =
     (case orderedCopy es of [] \<Rightarrow> Err VisEmpty
      | e # rest \<Rightarrow>
         let l = last (e # rest); or_zero_time = (\<lambda>t. case t of None \<Rightarrow> 0 | Some x \<Rightarrow> x) in
         Ok \<lparr>vs_ID = sid,
           vs_ProjectID = (case filter (\<lambda>p. p \<noteq> []) (map (\<lambda>x. ev_ProjectID (en_Envelope x)) (e # rest)) of [] \<Rightarrow> [] | p # _ \<Rightarrow> p),
           vs_Actors = sort (remdups (filter (\<lambda>a. a \<noteq> []) (map (\<lambda>x. ac_ID (en_Actor x)) (e # rest)))),
           vs_StartSequence = en_Sequence e, vs_EndSequence = en_Sequence l, vs_EventCount = int (length (e # rest)),
           vs_StartedAt = or_zero_time (parse (en_OccurredAt e)), vs_EndedAt = or_zero_time (parse (en_OccurredAt l))\<rparr>)"

end
