(* ===== verification/VisReplay.thy ===== *)
theory VisReplay
  imports VisSession Floats
begin

text \<open>
  \<open>visualizer/layout\<close>, \<open>visualizer/replay\<close>, \<open>visualizer/retention\<close> and \<open>visualizer/bridge\<close>: where the nodes of a graph stand,
  the frames of a session with the cursor over them, the trimmed trail, and the bridge that keeps a live session. The
  arithmetic of \<open>float64\<close> with its square root, sine and cosine is a parameter.
\<close>

section \<open>Layout\<close>

record VisMath =
  ma_ops :: FloatOps
  ma_sqrt :: "go_float \<Rightarrow> go_float"
  ma_cos :: "go_float \<Rightarrow> go_float"
  ma_sin :: "go_float \<Rightarrow> go_float"

record VisPoint =
  pt_X :: go_float
  pt_Y :: go_float
  pt_Z :: go_float

type_synonym Placement = "(string, VisPoint) fmap"

record LayoutBudget =
  lb_MaxNodes :: int
  lb_MaxEdges :: int

definition DefaultLayoutBudget :: LayoutBudget where "DefaultLayoutBudget = \<lparr>lb_MaxNodes = 250000, lb_MaxEdges = 1000000\<rparr>"

text \<open>FNV-1a with 64 bits.\<close>

definition fnv1a :: "string \<Rightarrow> u64" where
  "fnv1a s = foldl (\<lambda>h c. xor h (of_nat (of_char c)) * 1099511628211) 14695981039346656037 s"

definition jitter_unit :: "FloatOps \<Rightarrow> u64 \<Rightarrow> nat \<Rightarrow> go_float" where
  "jitter_unit F h shift =
     fa_sub F (fa_mul F (fa_div F (fa_int F (uint (and (drop_bit shift h) 0xffff))) (fa_int F 0xffff)) (Finite 2)) (Finite 1)"

definition jitter :: "FloatOps \<Rightarrow> string \<Rightarrow> go_float \<times> go_float \<times> go_float" where
  "jitter F k = (let h = fnv1a k; j = (\<lambda>shift. fa_mul F (jitter_unit F h shift) (Finite (1 / 4))) in (j 0, j 16, j 32))"

definition layout_point :: "VisMath \<Rightarrow> int \<Rightarrow> int \<Rightarrow> int \<Rightarrow> string \<Rightarrow> VisPoint" where
  "layout_point M layer total_n i k =
     (let F = ma_ops M;
          radius = fa_add F (Finite 4) (fa_mul F (fa_lit F (6 / 10)) (ma_sqrt M (fa_int F total_n)));
          z = fa_mul F (fa_int F layer) (Finite 6);
          angle = fa_mul F (fa_lit F (2399963229728653 / 1000000000000000)) (fa_int F i);
          r = (if 1 < total_n
               then fa_mul F radius (fa_add F (fa_lit F (85 / 100))
                 (fa_div F (fa_mul F (fa_lit F (3 / 10)) (fa_int F i)) (fa_int F (total_n - 1))))
               else radius)
      in case jitter F k of (jx, jy, jz) \<Rightarrow>
        \<lparr>pt_X = fa_add F (fa_mul F r (ma_cos M angle)) jx, pt_Y = fa_add F (fa_mul F r (ma_sin M angle)) jy, pt_Z = fa_add F z jz\<rparr>)"

definition layer_points :: "VisMath \<Rightarrow> int \<Rightarrow> VisNode list \<Rightarrow> (string \<times> VisPoint) list" where
  "layer_points M layer ns =
     (let os = sort_key vn_ID ns in
      map (\<lambda>(i, n). (vn_ID n, layout_point M layer (int (length os)) (int i) (vn_ID n))) (zip [0..<length os] os))"

definition LayoutBudgeted :: "VisMath \<Rightarrow> LayoutBudget \<Rightarrow> VisGraph \<Rightarrow> vis_error + Placement" where
  "LayoutBudgeted M b g =
     (if lb_MaxNodes b < int (length (vg_Nodes g)) then Err (VisTooManyNodes (int (length (vg_Nodes g))))
      else if lb_MaxEdges b < int (length (vg_Edges g)) then Err (VisTooManyEdges (int (length (vg_Edges g))))
      else let kinds = sort (remdups (map vn_Kind (vg_Nodes g)));
        points = concat (map (\<lambda>(layer, kind). layer_points M (int layer) (filter (\<lambda>n. vn_Kind n = kind) (vg_Nodes g)))
          (zip [0..<length kinds] kinds))
      in Ok (fold (\<lambda>(k, p). fmupd k p) points fmempty))"

definition Layout :: "VisMath \<Rightarrow> VisGraph \<Rightarrow> vis_error + Placement" where "Layout M g = LayoutBudgeted M DefaultLayoutBudget g"

text \<open>\<open>math.Min\<close> and \<open>math.Max\<close>.\<close>

definition float_min :: "go_float \<Rightarrow> go_float \<Rightarrow> go_float" where
  "float_min x y =
     (if x = NotFinite ''-Inf'' \<or> y = NotFinite ''-Inf'' then NotFinite ''-Inf''
      else if \<not> float_eq x x \<or> \<not> float_eq y y then NotFinite ''NaN''
      else if float_lt x y then x else y)"

definition float_max :: "go_float \<Rightarrow> go_float \<Rightarrow> go_float" where
  "float_max x y =
     (if x = NotFinite ''+Inf'' \<or> y = NotFinite ''+Inf'' then NotFinite ''+Inf''
      else if \<not> float_eq x x \<or> \<not> float_eq y y then NotFinite ''NaN''
      else if float_lt y x then x else y)"

definition zero_point :: VisPoint where "zero_point = \<lparr>pt_X = Finite 0, pt_Y = Finite 0, pt_Z = Finite 0\<rparr>"

definition point_with :: "(go_float \<Rightarrow> go_float \<Rightarrow> go_float) \<Rightarrow> VisPoint \<Rightarrow> VisPoint \<Rightarrow> VisPoint" where
  "point_with h p q = \<lparr>pt_X = h (pt_X p) (pt_X q), pt_Y = h (pt_Y p) (pt_Y q), pt_Z = h (pt_Z p) (pt_Z q)\<rparr>"

definition layout_Bounds :: "Placement \<Rightarrow> VisPoint \<times> VisPoint" where
  "layout_Bounds p =
     (case fm_vals p of [] \<Rightarrow> (zero_point, zero_point)
      | q # qs \<Rightarrow> (foldl (point_with float_min) q qs, foldl (point_with float_max) q qs))"

section \<open>Frames\<close>

record VisFrame =
  fr_Index :: int
  fr_Sequence :: int
  fr_EventID :: string
  fr_Type :: string
  fr_Graph :: VisGraph
  fr_Placement :: Placement

record VisFrameList =
  fl_SessionID :: string
  fl_Frames :: "VisFrame list"

definition frame_at :: "VisMath \<Rightarrow> string \<Rightarrow> Event list \<Rightarrow> nat \<Rightarrow> vis_error + VisFrame" where
  "frame_at M sid ordered i =
     (case vis_Project sid (take (Suc i) ordered) of Inl x \<Rightarrow> Err x
      | Inr g \<Rightarrow> (case Layout M g of Inl x \<Rightarrow> Err x
        | Inr p \<Rightarrow> Ok \<lparr>fr_Index = int i, fr_Sequence = en_Sequence (ordered ! i), fr_EventID = ev_ID (en_Envelope (ordered ! i)),
            fr_Type = en_Type (ordered ! i), fr_Graph = g, fr_Placement = p\<rparr>))"

fun frames_loop :: "VisMath \<Rightarrow> string \<Rightarrow> Event list \<Rightarrow> nat list \<Rightarrow> vis_error + VisFrame list" where
  "frames_loop M sid ordered [] = Ok []"
| "frames_loop M sid ordered (i # is) =
     (case frame_at M sid ordered i of Inl x \<Rightarrow> Err x
      | Inr fr \<Rightarrow> (case frames_loop M sid ordered is of Inl x \<Rightarrow> Err x | Inr frs \<Rightarrow> Ok (fr # frs)))"

definition replay_Build :: "VisMath \<Rightarrow> string \<Rightarrow> Event list \<Rightarrow> vis_error + VisFrameList" where
  "replay_Build M sid es =
     (if sid = [] then Err (VisRequired ''sessionId'')
      else if es = [] then Err VisEmpty
      else (case frames_loop M sid (orderedCopy es) [0..<length (orderedCopy es)] of Inl x \<Rightarrow> Err x
        | Inr frs \<Rightarrow> Ok \<lparr>fl_SessionID = sid, fl_Frames = frs\<rparr>))"

section \<open>The cursor\<close>

record VisCursor =
  cu_frames :: "VisFrame list"
  cu_index :: int

definition NewCursor :: "VisFrame list \<Rightarrow> vis_error + VisCursor" where
  "NewCursor frs = (if frs = [] then Err VisEmpty else Ok \<lparr>cu_frames = frs, cu_index = 0\<rparr>)"

definition Cursor_Len :: "VisCursor \<Rightarrow> int" where "Cursor_Len c = int (length (cu_frames c))"
definition AtStart :: "VisCursor \<Rightarrow> bool" where "AtStart c \<longleftrightarrow> cu_index c = 0"
definition AtEnd :: "VisCursor \<Rightarrow> bool" where
  "AtEnd c \<longleftrightarrow> cu_frames c \<noteq> [] \<and> cu_index c = int (length (cu_frames c)) - 1"

definition Cursor_Snapshot :: "VisCursor \<Rightarrow> vis_error + VisFrame" where
  "Cursor_Snapshot c = (if cu_frames c = [] then Err VisEmpty else Ok (cu_frames c ! nat (cu_index c)))"

definition Seek :: "int \<Rightarrow> VisCursor \<Rightarrow> VisCursor \<times> (vis_error + VisFrame)" where
  "Seek i c =
     (if cu_frames c = [] then (c, Err VisEmpty)
      else if i < 0 \<or> int (length (cu_frames c)) \<le> i then (c, Err (VisFrameRange i))
      else (c\<lparr>cu_index := i\<rparr>, Ok (cu_frames c ! nat i)))"

definition Cursor_Step :: "int \<Rightarrow> VisCursor \<Rightarrow> VisCursor \<times> (vis_error + VisFrame)" where
  "Cursor_Step d c = (if cu_frames c = [] then (c, Err VisEmpty) else Seek (wrap_int (cu_index c + d)) c)"

fun sequence_index :: "int \<Rightarrow> nat \<Rightarrow> VisFrame list \<Rightarrow> nat option" where
  "sequence_index q i [] = None"
| "sequence_index q i (fr # frs) = (if fr_Sequence fr = q then Some i else sequence_index q (Suc i) frs)"

definition SeekSequence :: "int \<Rightarrow> VisCursor \<Rightarrow> VisCursor \<times> (vis_error + VisFrame)" where
  "SeekSequence q c =
     (if cu_frames c = [] then (c, Err VisEmpty)
      else (case sequence_index q 0 (cu_frames c) of
          Some i \<Rightarrow> (c\<lparr>cu_index := int i\<rparr>, Ok (cu_frames c ! i))
        | None \<Rightarrow> (c, Err (VisNotFound ''sequence''))))"

definition Cursor_Reset :: "VisCursor \<Rightarrow> VisCursor \<times> (vis_error + VisFrame)" where "Cursor_Reset c = Seek 0 c"

section \<open>Retention\<close>

record TrailPolicy =
  tp_MaxFrames :: int
  tp_MinSequence :: int

definition DefaultTrail :: TrailPolicy where "DefaultTrail = \<lparr>tp_MaxFrames = 0, tp_MinSequence = 0\<rparr>"

definition trail_Trim :: "VisFrame list \<Rightarrow> TrailPolicy \<Rightarrow> VisFrame list" where
  "trail_Trim frs p =
     (let kept = filter (\<lambda>fr. \<not> (0 < tp_MinSequence p \<and> fr_Sequence fr < tp_MinSequence p)) frs;
          recent = (if 0 < tp_MaxFrames p \<and> tp_MaxFrames p < int (length kept) then drop (length kept - nat (tp_MaxFrames p)) kept
                    else kept)
      in map (\<lambda>(i, fr). fr\<lparr>fr_Index := int i\<rparr>) (zip [0..<length recent] recent))"

definition TrimList :: "VisFrameList \<Rightarrow> TrailPolicy \<Rightarrow> VisFrameList" where
  "TrimList l p = \<lparr>fl_SessionID = fl_SessionID l, fl_Frames = trail_Trim (fl_Frames l) p\<rparr>"

section \<open>The bridge\<close>

record VisBridge =
  br_SessionID :: string
  br_events :: "Event list"
  br_frames :: VisFrameList
  br_built :: bool

definition NewBridge :: "string \<Rightarrow> vis_error + VisBridge" where
  "NewBridge sid =
     (if sid = [] then Err (VisRequired ''sessionId'')
      else Ok \<lparr>br_SessionID = sid, br_events = [], br_frames = \<lparr>fl_SessionID = [], fl_Frames = []\<rparr>, br_built = False\<rparr>)"

definition Bridge_Apply :: "(string \<Rightarrow> time option) \<Rightarrow> Event list \<Rightarrow> VisBridge \<Rightarrow> VisBridge \<times> vis_error option" where
  "Bridge_Apply parse es b =
     (case first_err (Event_Validate parse) es of Some x \<Rightarrow> (b, Some (VisInvalidEvent x))
      | None \<Rightarrow> (b\<lparr>br_events := br_events b @ es, br_built := False\<rparr>, None))"

definition Bridge_FrameList :: "VisMath \<Rightarrow> VisBridge \<Rightarrow> VisBridge \<times> (vis_error + VisFrameList)" where
  "Bridge_FrameList M b =
     (if br_built b then (b, Ok (br_frames b))
      else (case replay_Build M (br_SessionID b) (br_events b) of Inl x \<Rightarrow> (b, Err x)
        | Inr l \<Rightarrow> (b\<lparr>br_frames := l, br_built := True\<rparr>, Ok l)))"

definition Bridge_Cursor :: "VisMath \<Rightarrow> VisBridge \<Rightarrow> VisBridge \<times> (vis_error + VisCursor)" where
  "Bridge_Cursor M b =
     (case Bridge_FrameList M b of (b1, Inl x) \<Rightarrow> (b1, Err x) | (b1, Inr l) \<Rightarrow> (b1, NewCursor (fl_Frames l)))"

text \<open>
  \<open>Consume\<close> over the events it receives before the subscription closes, or before it notices that the context is done
  (\<open>cancelled\<close>, the context's error).
\<close>

datatype consume_error = ConsumeEvent vis_error | ConsumeCancelled

fun Bridge_Consume :: "(string \<Rightarrow> time option) \<Rightarrow> bool \<Rightarrow> Event list \<Rightarrow> VisBridge \<Rightarrow> VisBridge \<times> consume_error option" where
  "Bridge_Consume parse cancelled [] b = (b, if cancelled then Some ConsumeCancelled else None)"
| "Bridge_Consume parse cancelled (e # es) b =
     (case Bridge_Apply parse [e] b of (b1, Some x) \<Rightarrow> (b1, Some (ConsumeEvent x))
      | (b1, None) \<Rightarrow> Bridge_Consume parse cancelled es b1)"

end
