(* ===== verification/ObsvTransport.thy ===== *)
theory ObsvTransport
  imports Journal
begin

text \<open>
  \<open>obsv/transport\<close>, \<open>obsv/emit\<close>, \<open>obsv/report\<close> and \<open>obsv/runtime.go\<close>: one journal per session behind a local transport, the
  emitter that never fails its caller, the bounded buffer, the report over a journal, and the manager that ties them
  together. A method that only takes one lock is one step; the transport looks a journal up and then calls it, and a
  \<open>Close\<close> between the two makes the call fail on the closed journal as one on an unknown session does.
\<close>

section \<open>The two journals behind one interface\<close>

datatype ObsJournal = JMemory Memory | JFile FileJournal

text \<open>The printing of floats, the JSON encoder of the file journal, and whether the write of a call succeeds.\<close>

record JournalEnv =
  je_fmt :: "nat \<Rightarrow> go_float \<Rightarrow> string"
  je_enc :: "ObsEvent \<Rightarrow> string option"
  je_wrote :: bool

fun journal_mem :: "ObsJournal \<Rightarrow> Memory" where
  "journal_mem (JMemory m) = m"
| "journal_mem (JFile f) = fj_mem f"

fun Journal_Append :: "JournalEnv \<Rightarrow> ObsEvent \<Rightarrow> ObsJournal \<Rightarrow> ObsJournal \<times> (journal_error + ObsEvent)" where
  "Journal_Append J ev (JMemory m) = (case appendAssigned ev m of (m1, r) \<Rightarrow> (JMemory m1, r))"
| "Journal_Append J ev (JFile f) = (case File_Append (je_enc J) (je_wrote J) ev f of (f1, r) \<Rightarrow> (JFile f1, r))"

fun Journal_Replay :: "int \<Rightarrow> ObsJournal \<Rightarrow> ObsEvent list" where
  "Journal_Replay frm (JMemory m) = Memory_Replay frm m"
| "Journal_Replay frm (JFile f) = File_Replay frm f"

fun Journal_Subscribe :: "int \<Rightarrow> ObsJournal \<Rightarrow> ObsJournal \<times> (journal_error + nat)" where
  "Journal_Subscribe frm (JMemory m) = (case Memory_Subscribe frm m of (m1, r) \<Rightarrow> (JMemory m1, r))"
| "Journal_Subscribe frm (JFile f) = (case File_Subscribe frm f of (f1, r) \<Rightarrow> (JFile f1, r))"

fun Journal_Close :: "ObsJournal \<Rightarrow> ObsJournal" where
  "Journal_Close (JMemory m) = JMemory (Memory_Close m)"
| "Journal_Close (JFile f) = JFile (File_Close f)"

section \<open>The local transport\<close>

record Hello =
  hl_Protocol :: string
  hl_SessionID :: rtext
  hl_Owner :: string
  hl_Attached :: bool

record ObsSession =
  os_hello :: Hello
  os_journal :: ObsJournal

record ObsLocal =
  ol_owner :: string
  ol_sessions :: "(rtext, ObsSession) fmap"
  ol_closed :: bool

datatype transport_error = SessionIDRequired | TransportClosed | UnknownSession rtext | TransportJournal journal_error

type_synonym new_journal = "rtext \<Rightarrow> journal_error + ObsJournal"

definition memory_journals :: new_journal where "memory_journals sid = Ok (JMemory NewMemory)"

definition NewLocal :: "string \<Rightarrow> ObsLocal" where
  "NewLocal owner = \<lparr>ol_owner = owner, ol_sessions = fmempty, ol_closed = False\<rparr>"

definition Local_Hello :: "new_journal \<Rightarrow> rtext \<Rightarrow> ObsLocal \<Rightarrow> ObsLocal \<times> (transport_error + Hello)" where
  "Local_Hello newJ sid l =
     (if sid = [] then (l, Err SessionIDRequired)
      else if ol_closed l then (l, Err TransportClosed)
      else (case fmlookup (ol_sessions l) sid of
          Some s \<Rightarrow> (l, Ok ((os_hello s)\<lparr>hl_Attached := True\<rparr>))
        | None \<Rightarrow> (case newJ sid of
            Inl e \<Rightarrow> (l, Err (TransportJournal e))
          | Inr j \<Rightarrow>
              let h = \<lparr>hl_Protocol = obs_Version, hl_SessionID = sid, hl_Owner = ol_owner l, hl_Attached = False\<rparr> in
              (l\<lparr>ol_sessions := fmupd sid \<lparr>os_hello = h, os_journal = j\<rparr> (ol_sessions l)\<rparr>, Ok h))))"

definition local_journal :: "rtext \<Rightarrow> ObsLocal \<Rightarrow> transport_error + ObsSession" where
  "local_journal sid l =
     (if sid = [] then Err SessionIDRequired
      else (case fmlookup (ol_sessions l) sid of None \<Rightarrow> Err (UnknownSession sid) | Some s \<Rightarrow> Ok s))"

definition put_journal :: "rtext \<Rightarrow> ObsSession \<Rightarrow> ObsJournal \<Rightarrow> ObsLocal \<Rightarrow> ObsLocal" where
  "put_journal sid s j l = l\<lparr>ol_sessions := fmupd sid (s\<lparr>os_journal := j\<rparr>) (ol_sessions l)\<rparr>"

text \<open>The acknowledgement is the sequence of the stored event.\<close>

definition Local_Append :: "JournalEnv \<Rightarrow> rtext \<Rightarrow> ObsEvent \<Rightarrow> ObsLocal \<Rightarrow> ObsLocal \<times> (transport_error + int)" where
  "Local_Append J sid ev l =
     (case local_journal sid l of Inl e \<Rightarrow> (l, Err e)
      | Inr s \<Rightarrow> (case Journal_Append J ev (os_journal s) of
          (j, Inl e) \<Rightarrow> (put_journal sid s j l, Err (TransportJournal e))
        | (j, Inr stored) \<Rightarrow> (put_journal sid s j l, Ok (oe_Sequence stored))))"

definition Local_Replay :: "rtext \<Rightarrow> int \<Rightarrow> ObsLocal \<Rightarrow> transport_error + ObsEvent list" where
  "Local_Replay sid frm l =
     (case local_journal sid l of Inl e \<Rightarrow> Err e | Inr s \<Rightarrow> Ok (Journal_Replay frm (os_journal s)))"

definition Local_Subscribe :: "rtext \<Rightarrow> int \<Rightarrow> ObsLocal \<Rightarrow> ObsLocal \<times> (transport_error + nat)" where
  "Local_Subscribe sid frm l =
     (case local_journal sid l of Inl e \<Rightarrow> (l, Err e)
      | Inr s \<Rightarrow> (case Journal_Subscribe frm (os_journal s) of
          (j, Inl e) \<Rightarrow> (put_journal sid s j l, Err (TransportJournal e))
        | (j, Inr i) \<Rightarrow> (put_journal sid s j l, Ok i)))"

text \<open>The journals that \<open>Close\<close> closes are no longer reachable through the transport; they are returned beside it.\<close>

definition Local_Close :: "ObsLocal \<Rightarrow> ObsLocal \<times> ObsJournal list" where
  "Local_Close l =
     (if ol_closed l then (l, [])
      else (l\<lparr>ol_closed := True, ol_sessions := fmempty\<rparr>, map (\<lambda>s. Journal_Close (os_journal s)) (fm_vals (ol_sessions l))))"

record ObsClient =
  oc_sessionID :: rtext
  oc_hello :: Hello

definition Dial_session :: "new_journal \<Rightarrow> rtext \<Rightarrow> ObsLocal \<Rightarrow> ObsLocal \<times> (transport_error + ObsClient)" where
  "Dial_session newJ sid l =
     (case Local_Hello newJ sid l of
        (l1, Inl e) \<Rightarrow> (l1, Err e)
      | (l1, Inr h) \<Rightarrow> (l1, Ok \<lparr>oc_sessionID = sid, oc_hello = h\<rparr>))"

definition Client_Append :: "JournalEnv \<Rightarrow> ObsClient \<Rightarrow> ObsEvent \<Rightarrow> ObsLocal \<Rightarrow> ObsLocal \<times> (transport_error + int)" where
  "Client_Append J c ev l = Local_Append J (oc_sessionID c) ev l"

definition Client_Replay :: "ObsClient \<Rightarrow> int \<Rightarrow> ObsLocal \<Rightarrow> transport_error + ObsEvent list" where
  "Client_Replay c frm l = Local_Replay (oc_sessionID c) frm l"

definition Client_Subscribe :: "ObsClient \<Rightarrow> int \<Rightarrow> ObsLocal \<Rightarrow> ObsLocal \<times> (transport_error + nat)" where
  "Client_Subscribe c frm l = Local_Subscribe (oc_sessionID c) frm l"

section \<open>The emitter and the buffer\<close>

record EmitStats =
  es_Accepted :: int
  es_Dropped :: int
  es_Failed :: int

definition no_stats :: EmitStats where "no_stats = \<lparr>es_Accepted = 0, es_Dropped = 0, es_Failed = 0\<rparr>"

text \<open>What a target's \<open>Append\<close> does: it may also panic, which \<open>write\<close> recovers.\<close>

datatype append_answer = Appended | TargetFull | TargetError | TargetPanic

datatype emit_outcome = OutcomeAccepted | OutcomeDropped | OutcomeFailed

type_synonym 't target = "ObsEvent \<Rightarrow> 't \<Rightarrow> 't \<times> append_answer"

definition discard :: "'t target" where "discard ev t = (t, Appended)"

definition emit_write :: "'t target \<Rightarrow> ObsEvent \<Rightarrow> 't \<Rightarrow> 't \<times> emit_outcome" where
  "emit_write target ev t =
     (case target ev t of
        (t1, Appended) \<Rightarrow> (t1, OutcomeAccepted)
      | (t1, TargetFull) \<Rightarrow> (t1, OutcomeDropped)
      | (t1, _) \<Rightarrow> (t1, OutcomeFailed))"

definition emit_prepare :: "(nat \<Rightarrow> go_float \<Rightarrow> string) \<Rightarrow> ObsEvent \<Rightarrow> ObsEvent" where
  "emit_prepare fmt ev =
     (let ev1 = (if oe_Version ev = [] then ev\<lparr>oe_Version := obs_Version\<rparr> else ev)
      in ev1\<lparr>oe_Metadata := SanitizeMetadata fmt (oe_Metadata ev1)\<rparr>)"

definition Emit :: "(nat \<Rightarrow> go_float \<Rightarrow> string) \<Rightarrow> 't target \<Rightarrow> ObsEvent \<Rightarrow> EmitStats \<Rightarrow> 't \<Rightarrow> EmitStats \<times> 't \<times> bool" where
  "Emit fmt target ev st t =
     (if ObsEvent_Validate (emit_prepare fmt ev) \<noteq> None then (st\<lparr>es_Dropped := es_Dropped st + 1\<rparr>, t, False)
      else (case emit_write target (emit_prepare fmt ev) t of
          (t1, OutcomeAccepted) \<Rightarrow> (st\<lparr>es_Accepted := es_Accepted st + 1\<rparr>, t1, True)
        | (t1, OutcomeDropped) \<Rightarrow> (st\<lparr>es_Dropped := es_Dropped st + 1\<rparr>, t1, False)
        | (t1, OutcomeFailed) \<Rightarrow> (st\<lparr>es_Failed := es_Failed st + 1\<rparr>, t1, False)))"

record ObsBuffer =
  ob_cap :: int
  ob_events :: "ObsEvent list"
  ob_dropped :: int

definition NewBuffer :: "int \<Rightarrow> ObsBuffer" where "NewBuffer c = \<lparr>ob_cap = c, ob_events = [], ob_dropped = 0\<rparr>"

definition Buffer_Append :: "ObsBuffer target" where
  "Buffer_Append ev b =
     (if 0 < ob_cap b \<and> ob_cap b \<le> int (length (ob_events b)) then (b\<lparr>ob_dropped := ob_dropped b + 1\<rparr>, TargetFull)
      else (b\<lparr>ob_events := ob_events b @ [ev]\<rparr>, Appended))"

text \<open>
  The loop of \<open>Drain\<close>: the events not written, their count and how the last write ended. A panic of the target leaves
  the buffer as it was, with the events that were written.
\<close>

fun drain_loop :: "'t target \<Rightarrow> ObsEvent list \<Rightarrow> int \<Rightarrow> 't \<Rightarrow> 't \<times> ObsEvent list \<times> int \<times> append_answer" where
  "drain_loop target [] n t = (t, [], n, Appended)"
| "drain_loop target (ev # evs) n t =
     (case target ev t of
        (t1, Appended) \<Rightarrow> drain_loop target evs (n + 1) t1
      | (t1, a) \<Rightarrow> (t1, ev # evs, n, a))"

definition Buffer_Drain :: "'t target \<Rightarrow> ObsBuffer \<Rightarrow> 't \<Rightarrow> 't \<times> ObsBuffer \<times> int \<times> append_answer" where
  "Buffer_Drain target b t =
     (case drain_loop target (ob_events b) 0 t of
        (t1, rest, n, TargetPanic) \<Rightarrow> (t1, b, n, TargetPanic)
      | (t1, rest, n, a) \<Rightarrow> (t1, b\<lparr>ob_events := rest\<rparr>, n, a))"

section \<open>Reports\<close>

record ObsCount =
  ct_Label :: string
  ct_Count :: int

record ObsReport =
  ort_SessionID :: rtext
  ort_Events :: int
  ort_FirstSequence :: int
  ort_LastSequence :: int
  ort_BySourceType :: "ObsCount list"
  ort_ByConfidence :: "ObsCount list"
  ort_WorkPackages :: "string list"
  ort_Actors :: "string list"

definition toCounts :: "(string, int) fmap \<Rightarrow> ObsCount list" where
  "toCounts m = map (\<lambda>l. \<lparr>ct_Label = l, ct_Count = fm_getd 0 m l\<rparr>) (fm_keys m)"

definition count_labels :: "string list \<Rightarrow> (string, int) fmap" where
  "count_labels ls = fold (\<lambda>l m. fmupd l (fm_getd 0 m l + 1) m) ls fmempty"

definition obs_Report :: "rtext \<Rightarrow> ObsEvent list \<Rightarrow> ObsReport" where
  "obs_Report sid evs =
     (let os = sort_key oe_Sequence evs in
      \<lparr>ort_SessionID = sid, ort_Events = int (length os),
       ort_FirstSequence = (case os of [] \<Rightarrow> 0 | e # _ \<Rightarrow> oe_Sequence e),
       ort_LastSequence = (case os of [] \<Rightarrow> 0 | _ \<Rightarrow> oe_Sequence (last os)),
       ort_BySourceType = toCounts (count_labels (map oe_SourceType os)),
       ort_ByConfidence = toCounts (count_labels (map oe_Confidence os)),
       ort_WorkPackages = sort (remdups (filter (\<lambda>w. w \<noteq> []) (map oe_WorkPackageID os))),
       ort_Actors = sort (remdups (filter (\<lambda>w. w \<noteq> []) (map oe_Actor os)))\<rparr>)"

section \<open>The manager of runtimes\<close>

record ObsRuntime =
  or_client :: ObsClient
  or_stats :: EmitStats

record ObsManager =
  om_host :: ObsLocal
  om_runtimes :: "(rtext, ObsRuntime) fmap"
  om_closed :: bool

datatype manager_error = ManagerSessionRequired | ManagerClosed | ManagerTransport transport_error

definition NewManager :: "string \<Rightarrow> ObsManager" where
  "NewManager owner =
     \<lparr>om_host = NewLocal (if owner = [] then ''kernel'' else owner), om_runtimes = fmempty, om_closed = False\<rparr>"

definition Manager_Ensure :: "new_journal \<Rightarrow> rtext \<Rightarrow> ObsManager \<Rightarrow> ObsManager \<times> (manager_error + ObsRuntime)" where
  "Manager_Ensure newJ sid m =
     (if sid = [] then (m, Err ManagerSessionRequired)
      else if om_closed m then (m, Err ManagerClosed)
      else (case fmlookup (om_runtimes m) sid of
          Some r \<Rightarrow> (m, Ok r)
        | None \<Rightarrow> (case Dial_session newJ sid (om_host m) of
            (l, Inl e) \<Rightarrow> (m\<lparr>om_host := l\<rparr>, Err (ManagerTransport e))
          | (l, Inr c) \<Rightarrow> let r = \<lparr>or_client = c, or_stats = no_stats\<rparr> in
              (m\<lparr>om_host := l, om_runtimes := fmupd sid r (om_runtimes m)\<rparr>, Ok r))))"

definition clientTarget :: "JournalEnv \<Rightarrow> ObsClient \<Rightarrow> ObsLocal target" where
  "clientTarget J c ev l = (case Client_Append J c ev l of (l1, Inl _) \<Rightarrow> (l1, TargetError) | (l1, Inr _) \<Rightarrow> (l1, Appended))"

text \<open>
  A runtime held by a caller is the one stored under its session; one that outlives \<open>Close\<close> sends into an unknown
  session, which only its own counters notice.
\<close>

definition Runtime_Send :: "JournalEnv \<Rightarrow> ObsEvent \<Rightarrow> ObsRuntime \<Rightarrow> ObsLocal \<Rightarrow> ObsRuntime \<times> ObsLocal \<times> bool" where
  "Runtime_Send J ev r l =
     (case Emit (je_fmt J) (clientTarget J (or_client r)) ev (or_stats r) l of (st, l1, ok) \<Rightarrow> (r\<lparr>or_stats := st\<rparr>, l1, ok))"

definition Runtime_Report :: "ObsRuntime \<Rightarrow> ObsLocal \<Rightarrow> transport_error + ObsReport" where
  "Runtime_Report r l =
     (case Client_Replay (or_client r) 0 l of Inl e \<Rightarrow> Err e | Inr evs \<Rightarrow> Ok (obs_Report (oc_sessionID (or_client r)) evs))"

definition Manager_Send :: "new_journal \<Rightarrow> JournalEnv \<Rightarrow> rtext \<Rightarrow> ObsEvent \<Rightarrow> ObsManager \<Rightarrow> ObsManager \<times> (manager_error + bool)" where
  "Manager_Send newJ J sid ev m =
     (case Manager_Ensure newJ sid m of
        (m1, Inl e) \<Rightarrow> (m1, Err e)
      | (m1, Inr r) \<Rightarrow> (case Runtime_Send J ev r (om_host m1) of (r1, l1, ok) \<Rightarrow>
          (m1\<lparr>om_host := l1, om_runtimes := fmupd sid r1 (om_runtimes m1)\<rparr>, Ok ok)))"

definition Manager_Replay :: "new_journal \<Rightarrow> rtext \<Rightarrow> int \<Rightarrow> ObsManager \<Rightarrow> ObsManager \<times> (manager_error + ObsEvent list)" where
  "Manager_Replay newJ sid frm m =
     (case Manager_Ensure newJ sid m of
        (m1, Inl e) \<Rightarrow> (m1, Err e)
      | (m1, Inr r) \<Rightarrow> (case Client_Replay (or_client r) frm (om_host m1) of
          Inl e \<Rightarrow> (m1, Err (ManagerTransport e)) | Inr evs \<Rightarrow> (m1, Ok evs)))"

definition Manager_Subscribe :: "new_journal \<Rightarrow> rtext \<Rightarrow> int \<Rightarrow> ObsManager \<Rightarrow> ObsManager \<times> (manager_error + nat)" where
  "Manager_Subscribe newJ sid frm m =
     (case Manager_Ensure newJ sid m of
        (m1, Inl e) \<Rightarrow> (m1, Err e)
      | (m1, Inr r) \<Rightarrow> (case Client_Subscribe (or_client r) frm (om_host m1) of
          (l, Inl e) \<Rightarrow> (m1\<lparr>om_host := l\<rparr>, Err (ManagerTransport e)) | (l, Inr i) \<Rightarrow> (m1\<lparr>om_host := l\<rparr>, Ok i)))"

definition Manager_Close :: "ObsManager \<Rightarrow> ObsManager \<times> ObsJournal list" where
  "Manager_Close m =
     (if om_closed m then (m, [])
      else (case Local_Close (om_host m) of (l, js) \<Rightarrow> (m\<lparr>om_host := l, om_runtimes := fmempty, om_closed := True\<rparr>, js)))"

end
