(* ===== verification/VisSource.thy ===== *)
theory VisSource
  imports VisReplay ObsvTransport Retrieval
begin

text \<open>
  \<open>visualizer/adapter\<close>, \<open>visualizer/source\<close>, \<open>visualizer/browse\<close> and the part of \<open>visualizer/bridge\<close> that follows a source: the
  mapping of observations to contract events, replay and live subscription over the transport, and the sessions of the
  event log. A session id is text on the side of the observations and its UTF-8 bytes on the side of the visualizer.
\<close>

section \<open>The adapter\<close>

definition rune_bytes :: "rune \<Rightarrow> string" where
  "rune_bytes r =
     (if r < 0x80 then [char_of r]
      else if r < 0x800 then [char_of (0xC0 + r div 64), char_of (0x80 + r mod 64)]
      else if r < 0x10000 then [char_of (0xE0 + r div 4096), char_of (0x80 + r div 64 mod 64), char_of (0x80 + r mod 64)]
      else [char_of (0xF0 + r div 262144), char_of (0x80 + r div 4096 mod 64), char_of (0x80 + r div 64 mod 64), char_of (0x80 + r mod 64)])"

definition utf8 :: "rtext \<Rightarrow> string" where "utf8 s = concat (map rune_bytes s)"

definition isLeadingRune :: "string \<Rightarrow> bool" where "isLeadingRune e = (case e of [c] \<Rightarrow> is_alnum c | _ \<Rightarrow> False)"

definition isIdentifierRune :: "string \<Rightarrow> bool" where
  "isIdentifierRune e \<longleftrightarrow> isLeadingRune e \<or> e \<in> set [''_'', ''.'', '':'', ''@'', ''+'', ''-'']"

definition vis_identifier :: "string \<Rightarrow> string" where
  "vis_identifier s =
     (let out = concat (map (\<lambda>e. if isIdentifierRune e then e else ''-'') (runes_of s)) in
      case out of [] \<Rightarrow> ''unknown'' | c # _ \<Rightarrow> if \<not> isLeadingRune [c] then CHR ''x'' # out else out)"

definition firstNonEmpty :: "string list \<Rightarrow> string" where
  "firstNonEmpty vs = (case filter (\<lambda>v. v \<noteq> []) vs of [] \<Rightarrow> [] | v # _ \<Rightarrow> v)"

definition aggregateKind :: "string \<Rightarrow> string" where
  "aggregateKind st =
     (if st = ''tool'' then ''tool'' else if st = ''file'' then ''artifact'' else if st = ''session'' then ''workflow''
      else ''work_package'')"

text \<open>Kind and id of the aggregate, the work package and the attempt.\<close>

definition obs_identity :: "ObsEvent \<Rightarrow> string \<times> string \<times> string \<times> string" where
  "obs_identity ev =
     (if oe_WorkPackageID ev \<noteq> []
      then (''work_package'', vis_identifier (oe_WorkPackageID ev), vis_identifier (oe_WorkPackageID ev), vis_identifier (oe_AttemptID ev))
      else if oe_AttemptID ev \<noteq> []
      then (''attempt'', vis_identifier (oe_AttemptID ev), [], vis_identifier (oe_AttemptID ev))
      else (aggregateKind (oe_SourceType ev),
            vis_identifier (firstNonEmpty [oe_Source ev, oe_Action ev, utf8 (oe_SessionID ev)]), [], []))"

definition observationID :: "ObsEvent \<Rightarrow> string" where
  "observationID ev = vis_identifier (utf8 (oe_SessionID ev)) @ '':'' @ itoa_int (oe_Sequence ev)"

definition zeroTimestamp :: string where "zeroTimestamp = ''1970-01-01T00:00:00Z''"

definition obs_occurredAt :: "ObsEvent \<Rightarrow> string" where
  "obs_occurredAt ev = (if oe_OccurredAt ev \<noteq> [] then oe_OccurredAt ev else zeroTimestamp)"

definition obs_actor :: "ObsEvent \<Rightarrow> Actor" where
  "obs_actor ev =
     (if oe_Actor ev = [] then \<lparr>ac_Kind = ''system'', ac_ID = ''obsv'', ac_Role = [], ac_WorkerID = [], ac_Model = []\<rparr>
      else \<lparr>ac_Kind = ''agent'', ac_ID = vis_identifier (oe_Actor ev), ac_Role = [], ac_WorkerID = [],
        ac_Model = []\<rparr>)"

definition put_text :: "string \<Rightarrow> string \<Rightarrow> (string, go_any) fmap \<Rightarrow> (string, go_any) fmap" where
  "put_text k v m = (if v \<noteq> [] then fmupd k (AString v) m else m)"

definition obs_payload :: "ObsEvent \<Rightarrow> (string, go_any) fmap" where
  "obs_payload ev =
     (case obs_identity ev of (_, _, wp, attempt) \<Rightarrow>
        put_text ''attemptId'' attempt (put_text ''workPackageId'' wp (put_text ''action'' (oe_Action ev) (put_text ''source'' (oe_Source ev)
          (fmupd ''sourceConfidence'' (AString (oe_Confidence ev)) (fmupd ''sourceType'' (AString (oe_SourceType ev))
            (fmupd ''sequence'' (AInt (oe_Sequence ev)) (fmupd ''sessionId'' (AString (utf8 (oe_SessionID ev)))
              (fmmap (\<lambda>v. AString (utf8 v)) (oe_Metadata ev))))))))))"

definition payload_fields :: "(string, go_any) fmap \<Rightarrow> (string \<times> go_any) list" where
  "payload_fields m = map (\<lambda>k. (k, the (fmlookup m k))) (fm_keys m)"

definition mapped_event :: "ObsEvent \<Rightarrow> Event" where
  "mapped_event ev =
     (case obs_identity ev of (kind, k, _, _) \<Rightarrow>
      \<lparr>en_Envelope = \<lparr>ev_ContractVersion = ''2.0'', ev_Kind = ''event'', ev_ID = observationID ev, ev_ProjectID = [],
         ev_CreatedAt = [], ev_Revision = None, ev_Provenance = None\<rparr>,
       en_Sequence = oe_Sequence ev, en_OccurredAt = obs_occurredAt ev, en_RecordedAt = [], en_Type = ''TELEMETRY_RECORDED'',
       en_Aggregate = \<lparr>ea_Kind = kind, ea_ID = k, ea_Version = None\<rparr>, en_Actor = obs_actor ev, en_CausationID = [],
       en_CorrelationID = [], en_Payload = payload_fields (obs_payload ev)\<rparr>)"

definition ToContract :: "(string \<Rightarrow> time option) \<Rightarrow> ObsEvent \<Rightarrow> vis_error + Event" where
  "ToContract parse ev =
     (if ObsEvent_Validate ev \<noteq> None then Err VisInvalidObservation
      else (case Event_Validate parse (mapped_event ev) of Some x \<Rightarrow> Err (VisInvalidEvent x) | None \<Rightarrow> Ok (mapped_event ev)))"

section \<open>The source\<close>

fun map_observations :: "(string \<Rightarrow> time option) \<Rightarrow> nat \<Rightarrow> ObsEvent list \<Rightarrow> vis_error + Event list" where
  "map_observations parse i [] = Ok []"
| "map_observations parse i (ev # evs) =
     (case ToContract parse ev of Inl _ \<Rightarrow> Err (VisAt i)
      | Inr e \<Rightarrow> (case map_observations parse (Suc i) evs of Inl x \<Rightarrow> Err x | Inr es \<Rightarrow> Ok (e # es)))"

text \<open>The transport is a local one; \<open>cancelled\<close> is whether the context is done.\<close>

definition Source_Replay ::
  "(string \<Rightarrow> time option) \<Rightarrow> new_journal \<Rightarrow> bool \<Rightarrow> rtext \<Rightarrow> ObsLocal \<Rightarrow> ObsLocal \<times> (vis_error + Event list)" where
  "Source_Replay parse newJ cancelled sid l =
     (if cancelled then (l, Err VisCancelled)
      else if sid = [] then (l, Err (VisRequired ''sessionId''))
      else (case Dial_session newJ sid l of
          (l1, Inl _) \<Rightarrow> (l1, Err VisUnavailable)
        | (l1, Inr c) \<Rightarrow> (case Client_Replay c 0 l1 of
            Inl _ \<Rightarrow> (l1, Err VisUnavailable)
          | Inr raw \<Rightarrow> (l1, if raw = [] then Err VisEmpty else map_observations parse 0 raw))))"

definition Source_Subscribe ::
  "new_journal \<Rightarrow> bool \<Rightarrow> rtext \<Rightarrow> ObsLocal \<Rightarrow> ObsLocal \<times> (vis_error + nat)" where
  "Source_Subscribe newJ cancelled sid l =
     (if cancelled then (l, Err VisCancelled)
      else if sid = [] then (l, Err (VisRequired ''sessionId''))
      else (case Dial_session newJ sid l of
          (l1, Inl _) \<Rightarrow> (l1, Err VisUnavailable)
        | (l1, Inr c) \<Rightarrow> (case Client_Subscribe c 0 l1 of
            (l2, Inl _) \<Rightarrow> (l2, Err VisUnavailable)
          | (l2, Inr i) \<Rightarrow> (l2, Ok i))))"

text \<open>What \<open>pump\<close> passes on of the observations it receives; it waits for room, so its own channel loses nothing.\<close>

definition pump :: "(string \<Rightarrow> time option) \<Rightarrow> ObsEvent list \<Rightarrow> Event list" where
  "pump parse evs = List.map_filter (\<lambda>ev. case ToContract parse ev of Inl _ \<Rightarrow> None | Inr e \<Rightarrow> Some e) evs"

record 't SourceConfig =
  sc_Mode :: string
  sc_Owner :: string
  sc_Socket :: string
  sc_Transport :: "'t option"

definition source_Open :: "(string \<Rightarrow> 't) \<Rightarrow> 't SourceConfig \<Rightarrow> vis_error + 't" where
  "source_Open newLocal cfg =
     (case sc_Transport cfg of Some t \<Rightarrow> Ok t
      | None \<Rightarrow>
          if sc_Mode cfg = [] \<or> sc_Mode cfg = ''in_process''
            then Ok (newLocal (if sc_Owner cfg = [] then ''visualizer'' else sc_Owner cfg))
          else if sc_Mode cfg = ''socket'' then Err VisUnavailable
          else Err (VisMode (sc_Mode cfg)))"

text \<open>\<open>Follow\<close>: subscribes, then consumes what the subscription delivers (\<open>received\<close>) until it ends.\<close>

definition Bridge_Follow ::
  "(string \<Rightarrow> time option) \<Rightarrow> (vis_error + ObsEvent list) \<Rightarrow> bool \<Rightarrow> VisBridge \<Rightarrow> VisBridge \<times> consume_error option" where
  "Bridge_Follow parse received cancelled b =
     (case received of Inl x \<Rightarrow> (b, Some (ConsumeEvent x)) | Inr evs \<Rightarrow> Bridge_Consume parse cancelled (pump parse evs) b)"

section \<open>Past sessions\<close>

definition DefaultSessionID :: string where "DefaultSessionID = ''default''"

definition SessionKey :: "Event \<Rightarrow> string" where
  "SessionKey e =
     (case payloadString (en_Payload e) ''sessionId'' of Some v \<Rightarrow> v
      | None \<Rightarrow> if ev_ProjectID (en_Envelope e) \<noteq> [] then ev_ProjectID (en_Envelope e) else DefaultSessionID)"

datatype 'e browse_error = BrowseSource 'e | BrowseError vis_error

fun decode_log :: "(string \<Rightarrow> Event option) \<Rightarrow> EventRecord list \<Rightarrow> vis_error + Event list" where
  "decode_log dec [] = Ok []"
| "decode_log dec (r # rs) =
     (case dec (er_Data r) of None \<Rightarrow> Err (VisUndecodable (er_ID r))
      | Some e \<Rightarrow> (case decode_log dec rs of Inl x \<Rightarrow> Err x | Inr es \<Rightarrow> Ok (e # es)))"

text \<open>\<open>src\<close> is what the event source returns.\<close>

definition browse_events :: "(string \<Rightarrow> Event option) \<Rightarrow> ('e + EventRecord list) \<Rightarrow> 'e browse_error + Event list" where
  "browse_events dec src =
     (case src of Inl x \<Rightarrow> Err (BrowseSource x)
      | Inr rs \<Rightarrow> (case decode_log dec rs of Inl x \<Rightarrow> Err (BrowseError x) | Inr es \<Rightarrow> Ok es))"

fun summaries :: "(string \<Rightarrow> time option) \<Rightarrow> (string \<times> Event list) list \<Rightarrow> vis_error + VisSummary list" where
  "summaries parse [] = Ok []"
| "summaries parse ((sid, g) # gs) =
     (case vis_Summarize parse sid g of Inl x \<Rightarrow> Err x
      | Inr s \<Rightarrow> (case summaries parse gs of Inl x \<Rightarrow> Err x | Inr ss \<Rightarrow> Ok (s # ss)))"

definition Browser_List ::
  "(string \<Rightarrow> time option) \<Rightarrow> (string \<Rightarrow> Event option) \<Rightarrow> ('e + EventRecord list) \<Rightarrow> 'e browse_error + VisSummary list" where
  "Browser_List parse dec src =
     (case browse_events dec src of Inl x \<Rightarrow> Err x
      | Inr es \<Rightarrow> (case summaries parse (groups_of SessionKey es) of Inl x \<Rightarrow> Err (BrowseError x) | Inr ss \<Rightarrow> Ok (sort_key vs_ID ss)))"

definition Browser_Load :: "(string \<Rightarrow> Event option) \<Rightarrow> ('e + EventRecord list) \<Rightarrow> string \<Rightarrow> 'e browse_error + Event list" where
  "Browser_Load dec src sid =
     (if sid = [] then Err (BrowseError (VisRequired ''sessionId''))
      else (case browse_events dec src of Inl x \<Rightarrow> Err x
       | Inr es \<Rightarrow> (case filter (\<lambda>e. SessionKey e = sid) es of [] \<Rightarrow> Err (BrowseError (VisNotFound sid))
         | g \<Rightarrow> Ok (sort_key en_Sequence g))))"

definition Browser_Timeline ::
  "VisMath \<Rightarrow> (string \<Rightarrow> Event option) \<Rightarrow> ('e + EventRecord list) \<Rightarrow> string \<Rightarrow> 'e browse_error + VisFrameList" where
  "Browser_Timeline M dec src sid =
     (case Browser_Load dec src sid of Inl x \<Rightarrow> Err x
      | Inr es \<Rightarrow> (case replay_Build M sid es of Inl x \<Rightarrow> Err (BrowseError x) | Inr l \<Rightarrow> Ok l))"

end
