(* ===== verification/VisSessionProps.thy ===== *)
theory VisSessionProps
  imports VisSession
begin

text \<open>
  The graph of a session: its nodes are the entities its events mention, every edge joins two of them, and the session node
  reaches all of them; as the session goes on the graph only grows.
\<close>

section \<open>The maps of the fold\<close>

named_theorems fold_defs \<open>the passages of the fold\<close>

lemmas [fold_defs] = see_node_def link_nodes_def see_aggregate_def see_actor_def see_causation_def see_correlation_def
  see_metadata_def see_payload_def Let_def

lemma dom_ensure [simp]: "fmdom' (ensure_node k kind label ref q nodes) = insert k (fmdom' nodes)"
  by (auto simp: ensure_node_def in_fmdom'_iff split: option.splits)

lemma dom_annotate [simp]: "fmdom' (annotate_node k m nodes) = fmdom' nodes"
  by (auto simp: annotate_node_def Let_def in_fmdom'_iff split: option.splits)

lemma ensure_lookup:
  "fmlookup (ensure_node k kind label ref q nodes) j =
     (case fmlookup nodes j of Some n \<Rightarrow> Some n
      | None \<Rightarrow> if j = k then Some \<lparr>vn_ID = k, vn_Kind = kind, vn_Label = label, vn_Ref = ref, vn_Sequence = q, vn_Metadata = fmempty\<rparr>
                else None)"
  by (auto simp: ensure_node_def split: option.splits)

lemma annotate_ids:
  "(\<And>j n. fmlookup nodes j = Some n \<Longrightarrow> vn_ID n = j) \<Longrightarrow> fmlookup (annotate_node k m nodes) j = Some n \<Longrightarrow> vn_ID n = j"
  by (auto simp: annotate_node_def Let_def split: option.splits if_splits)

text \<open>What a node id is made of, besides the session node.\<close>

definition payload_ids :: "Event \<Rightarrow> string list" where
  "payload_ids e =
     (case payloadString (en_Payload e) ''workPackageId'' of None \<Rightarrow> [] | Some r \<Rightarrow> [NodeIDFor ''work_package'' r]) @
     (case payloadString (en_Payload e) ''artifactId'' of None \<Rightarrow> [] | Some r \<Rightarrow> [NodeIDFor ''artifact'' r])"

definition mentions :: "Event \<Rightarrow> string list" where
  "mentions e = agg_id e # (if ac_ID (en_Actor e) = [] then [] else [ActorNodeID (ac_ID (en_Actor e))]) @ payload_ids e"

lemma passage_doms:
  "fmdom' (vf_nodes (see_aggregate root e f)) = insert (agg_id e) (fmdom' (vf_nodes f))"
  "fmdom' (vf_nodes (see_actor e f)) = (if ac_ID (en_Actor e) = [] then {} else {ActorNodeID (ac_ID (en_Actor e))}) \<union> fmdom' (vf_nodes f)"
  "vf_nodes (see_causation e f) = vf_nodes f"
  "vf_nodes (see_correlation e f) = vf_nodes f"
  "fmdom' (vf_nodes (see_metadata e m f)) = fmdom' (vf_nodes f)"
  "fmdom' (vf_nodes (see_payload key kind edge e f)) =
     (case payloadString (en_Payload e) key of None \<Rightarrow> {} | Some r \<Rightarrow> {NodeIDFor kind r}) \<union> fmdom' (vf_nodes f)"
  by (simp_all add: fold_defs agg_id_def ActorNodeID_def split: option.split)

lemma project_event_dom:
  assumes "project_event root e f = Ok f1"
  shows "fmdom' (vf_nodes f1) = fmdom' (vf_nodes f) \<union> set (mentions e)"
proof -
  obtain m where "f1 = see_payload ''artifactId'' ''artifact'' ''produces'' e
      (see_payload ''workPackageId'' ''work_package'' ''assigns'' e (see_metadata e m
        (see_correlation e (see_causation e (see_actor e (see_aggregate root e f))))))"
    using assms by (auto simp: project_event_def Let_def split: sum.splits)
  then show ?thesis by (auto simp: passage_doms mentions_def payload_ids_def split: option.splits)
qed

lemma project_loop_dom:
  "project_loop root es f = Ok f1 \<Longrightarrow> fmdom' (vf_nodes f1) = fmdom' (vf_nodes f) \<union> (\<Union>e \<in> set es. set (mentions e))"
proof (induction es arbitrary: f)
  case (Cons e es)
  then obtain f2 where f2: "project_event root e f = Ok f2" "project_loop root es f2 = Ok f1" by (auto split: sum.splits)
  show ?case using Cons.IH [OF f2(2)] project_event_dom [OF f2(1)] by auto
qed simp

section \<open>A connected graph\<close>

definition adjacent :: "VisFold \<Rightarrow> string \<Rightarrow> string \<Rightarrow> bool" where
  "adjacent f a b \<longleftrightarrow> (\<exists>k x. fmlookup (vf_edges f) k = Some x \<and> {ve_From x, ve_To x} = {a, b})"

definition reach :: "string \<Rightarrow> VisFold \<Rightarrow> string set" where "reach root f = {k. (adjacent f)\<^sup>*\<^sup>* root k}"

abbreviation no_nul :: "string \<Rightarrow> bool" where "no_nul s \<equiv> CHR 0x00 \<notin> set s"

definition fold_ok :: "string \<Rightarrow> VisFold \<Rightarrow> bool" where
  "fold_ok root f \<longleftrightarrow> root \<in> fmdom' (vf_nodes f) \<and> (\<forall>k n. fmlookup (vf_nodes f) k = Some n \<longrightarrow> vn_ID n = k) \<and>
     (\<forall>k \<in> fmdom' (vf_nodes f). no_nul k) \<and>
     (\<forall>k x. fmlookup (vf_edges f) k = Some x \<longrightarrow> k = edge_key (ve_From x) (ve_To x) (ve_Kind x) \<and>
        ve_From x \<in> fmdom' (vf_nodes f) \<and> ve_To x \<in> fmdom' (vf_nodes f) \<and> no_nul (ve_Kind x)) \<and>
     fmran' (vf_byEvent f) \<subseteq> fmdom' (vf_nodes f) \<and> fmran' (vf_firstBy f) \<subseteq> fmdom' (vf_nodes f)"

lemma adjacent_sym: "adjacent f a b \<Longrightarrow> adjacent f b a"
  by (auto simp: adjacent_def insert_commute)

lemma nul_cut: "no_nul x \<Longrightarrow> no_nul y \<Longrightarrow> x @ CHR 0x00 # u = y @ CHR 0x00 # v \<longleftrightarrow> x = y \<and> u = v"
proof (induction x arbitrary: y)
  case Nil
  then show ?case by (cases y) auto
next
  case (Cons c cs)
  then show ?case by (cases y) auto
qed

lemma edge_key_inject:
  "no_nul a \<Longrightarrow> no_nul a' \<Longrightarrow> no_nul b \<Longrightarrow> no_nul b' \<Longrightarrow> edge_key a b k = edge_key a' b' k' \<Longrightarrow> a = a' \<and> b = b' \<and> k = k'"
  by (simp add: edge_key_def nul_cut)

lemma adjacent_cong: "vf_edges f = vf_edges g \<Longrightarrow> adjacent f = adjacent g"
  by (simp add: adjacent_def fun_eq_iff)

lemma reach_cong: "vf_edges f = vf_edges g \<Longrightarrow> reach root f = reach root g"
  using adjacent_cong [of f g] by (simp add: reach_def)

lemma reach_mono: "(\<And>a b. adjacent f a b \<Longrightarrow> adjacent f1 a b) \<Longrightarrow> reach root f \<subseteq> reach root f1"
  unfolding reach_def using rtranclp_mono [of "adjacent f" "adjacent f1"] by blast

lemma reach_step: "a \<in> reach root f \<Longrightarrow> adjacent f a b \<Longrightarrow> b \<in> reach root f"
  by (auto simp: reach_def)

lemma root_reach [simp]: "root \<in> reach root f"
  by (simp add: reach_def)

text \<open>An edge between two nodes keeps the invariant and joins them; nothing that was adjacent comes apart.\<close>

lemma add_edge_ok:
  fixes q :: int
  assumes ok: "fold_ok root f" and a: "a \<in> fmdom' (vf_nodes f)" and b: "b \<in> fmdom' (vf_nodes f)" and k: "no_nul kind"
  defines "f1 \<equiv> f\<lparr>vf_edges := add_edge a b kind q (vf_edges f)\<rparr>"
  shows "fold_ok root f1" and "adjacent f1 a b" and "adjacent f c d \<Longrightarrow> adjacent f1 c d"
proof -
  let ?k = "edge_key a b kind"
  have nn: "no_nul a" "no_nul b" using ok a b by (auto simp: fold_ok_def)
  have same: "ve_From x = a \<and> ve_To x = b \<and> ve_Kind x = kind" if "fmlookup (vf_edges f) ?k = Some x" for x
  proof -
    have "edge_key a b kind = edge_key (ve_From x) (ve_To x) (ve_Kind x)" "no_nul (ve_From x)" "no_nul (ve_To x)"
      using that ok unfolding fold_ok_def by blast+
    then show ?thesis using edge_key_inject nn by metis
  qed
  have look: "fmlookup (vf_edges f1) j = (if j = ?k then fmlookup (vf_edges f1) ?k else fmlookup (vf_edges f) j)" for j
    by (auto simp: f1_def add_edge_def split: option.splits)
  have "\<exists>x. fmlookup (vf_edges f1) ?k = Some x \<and> ve_From x = a \<and> ve_To x = b \<and> ve_Kind x = kind"
  proof (cases "fmlookup (vf_edges f) ?k")
    case None
    then show ?thesis by (simp add: f1_def add_edge_def)
  next
    case (Some y)
    then show ?thesis using same [OF Some] by (simp add: f1_def add_edge_def)
  qed
  then obtain x where x: "fmlookup (vf_edges f1) ?k = Some x" "ve_From x = a" "ve_To x = b" "ve_Kind x = kind" by blast
  have rest: "vf_nodes f1 = vf_nodes f" "vf_byEvent f1 = vf_byEvent f" "vf_firstBy f1 = vf_firstBy f" by (simp_all add: f1_def)
  show "fold_ok root f1"
    unfolding fold_ok_def rest
  proof (intro conjI allI impI)
    fix j y assume y: "fmlookup (vf_edges f1) j = Some y"
    show "j = edge_key (ve_From y) (ve_To y) (ve_Kind y)" "ve_From y \<in> fmdom' (vf_nodes f)" "ve_To y \<in> fmdom' (vf_nodes f)"
      "no_nul (ve_Kind y)"
      using y look [of j] x a b k ok by (auto simp: fold_ok_def split: if_splits)
  qed (use ok in \<open>auto simp: fold_ok_def\<close>)
  show "adjacent f1 a b" using x by (auto simp: adjacent_def)
  show "adjacent f1 c d" if cd: "adjacent f c d"
  proof -
    obtain j y where y: "fmlookup (vf_edges f) j = Some y" "{ve_From y, ve_To y} = {c, d}"
      using cd unfolding adjacent_def by blast
    have "\<exists>k z. fmlookup (vf_edges f1) k = Some z \<and> {ve_From z, ve_To z} = {c, d}"
    proof (cases "j = ?k")
      case True
      then show ?thesis using same [of y] y x by (intro exI [of _ ?k] exI [of _ x]) simp
    next
      case False
      then show ?thesis using y look [of j] by (intro exI [of _ j] exI [of _ y]) simp
    qed
    then show ?thesis unfolding adjacent_def .
  qed
qed

lemma see_node_ok:
  assumes "fold_ok root f" and "no_nul (NodeIDFor kind ref)"
  shows "fold_ok root (see_node kind ref q f)" and "adjacent (see_node kind ref q f) = adjacent f"
  using assms unfolding fold_ok_def by (auto simp: see_node_def ensure_lookup adjacent_def fun_eq_iff split: option.splits if_splits)

lemma link_nodes_ok:
  assumes "fold_ok root f" and "a \<in> fmdom' (vf_nodes f)" and "b \<in> fmdom' (vf_nodes f)" and "no_nul kind"
  shows "fold_ok root (link_nodes a b kind q f)" and "a = b \<or> adjacent (link_nodes a b kind q f) a b"
    and "adjacent f c d \<Longrightarrow> adjacent (link_nodes a b kind q f) c d"
  using add_edge_ok [OF assms, where q = q] assms(1) by (cases "a = b"; simp add: link_nodes_def)+

text \<open>A passage is sound when it keeps the invariant, takes no edge away and leaves every new node reachable.\<close>

definition sound_step :: "string \<Rightarrow> VisFold \<Rightarrow> VisFold \<Rightarrow> bool" where
  "sound_step root f f1 \<longleftrightarrow> fold_ok root f1 \<and> fmdom' (vf_nodes f1) \<subseteq> reach root f1 \<and> fmdom' (vf_nodes f) \<subseteq> fmdom' (vf_nodes f1)"

definition connected :: "string \<Rightarrow> VisFold \<Rightarrow> bool" where
  "connected root f \<longleftrightarrow> fold_ok root f \<and> fmdom' (vf_nodes f) \<subseteq> reach root f"

text \<open>A node that is there, a second one that need not be, and an edge between them.\<close>

lemma connected_join:
  assumes f: "connected root f" and a: "a \<in> fmdom' (vf_nodes f)" and n: "no_nul (NodeIDFor kind ref)" and k: "no_nul edge"
    and g: "g \<in> {link_nodes a (NodeIDFor kind ref) edge q (see_node kind ref q f),
      (see_node kind ref q f)\<lparr>vf_edges := add_edge (NodeIDFor kind ref) a edge q (vf_edges (see_node kind ref q f))\<rparr>}"
  shows "connected root g"
proof -
  let ?b = "NodeIDFor kind ref" and ?f = "see_node kind ref q f"
  have ok: "fold_ok root ?f" and adj: "adjacent ?f = adjacent f" using see_node_ok [OF _ n] f by (auto simp: connected_def)
  have dom: "fmdom' (vf_nodes ?f) = insert ?b (fmdom' (vf_nodes f))" by (simp add: see_node_def)
  have mem: "a \<in> fmdom' (vf_nodes ?f)" "?b \<in> fmdom' (vf_nodes ?f)" using dom a by auto
  note l = link_nodes_ok [OF ok mem k, where q = q] and e = add_edge_ok [OF ok mem(2,1) k, where q = q]
  have g1: "fold_ok root g" "vf_nodes g = vf_nodes ?f" using g l(1) e(1) by (auto simp: link_nodes_def)
  have mono: "adjacent f c d \<Longrightarrow> adjacent g c d" for c d using g l(3) e(3) adj by auto
  have edge: "a = ?b \<or> adjacent g a ?b" using g l(2) adjacent_sym [OF e(2)] by auto
  have old: "fmdom' (vf_nodes f) \<subseteq> reach root g" using f reach_mono [of f g root] mono by (auto simp: connected_def)
  then have "?b \<in> reach root g" using a edge reach_step by auto
  then show ?thesis using g1 old dom by (simp add: connected_def)
qed

lemmas connected_join_link = connected_join [OF _ _ _ _ insertI1]
lemmas connected_join_edge = connected_join [OF _ _ _ _ insertI2 [OF singletonI]]

lemma connected_link:
  assumes f: "connected root f" and "a \<in> fmdom' (vf_nodes f)" and "b \<in> fmdom' (vf_nodes f)" and "no_nul edge"
  shows "connected root (link_nodes a b edge q f)"
proof -
  note l = link_nodes_ok [of root f, OF _ assms(2-4), where q = q]
  have "reach root f \<subseteq> reach root (link_nodes a b edge q f)" using l(3) f by (intro reach_mono) (auto simp: connected_def)
  then show ?thesis using f l(1) by (auto simp: connected_def link_nodes_def)
qed

text \<open>The fields that the invariant of connection does not read beyond their values being nodes.\<close>

lemma connected_maps:
  assumes "connected root f" and "fmran' e \<subseteq> fmdom' (vf_nodes f)" and "fmran' c \<subseteq> fmdom' (vf_nodes f)"
  shows "connected root (f\<lparr>vf_byEvent := e, vf_firstBy := c\<rparr>)"
  using assms reach_cong [of "f\<lparr>vf_byEvent := e, vf_firstBy := c\<rparr>" f root] by (simp add: connected_def fold_ok_def)

lemma connected_metadata:
  assumes "connected root f"
  shows "connected root (see_metadata e m f)"
proof -
  let ?ns = "annotate_node (agg_id e) m (vf_nodes f)"
  have ok: "fold_ok root f" using assms by (simp add: connected_def)
  then have "vn_ID n = j" if "fmlookup ?ns j = Some n" for j n using annotate_ids [OF _ that] by (simp add: fold_ok_def)
  then have "fold_ok root (f\<lparr>vf_nodes := ?ns\<rparr>)" using ok by (simp add: fold_ok_def)
  then show ?thesis using assms reach_cong [of "f\<lparr>vf_nodes := ?ns\<rparr>" f root] by (simp add: see_metadata_def connected_def)
qed

section \<open>The events\<close>

text \<open>The ids of an event without a NUL byte, as those of a valid event are; the payload is the caller's.\<close>

definition plain_event :: "Event \<Rightarrow> bool" where "plain_event e \<longleftrightarrow> (\<forall>k \<in> set (mentions e). no_nul k)"

lemma fmran_upd: "fmran' (fmupd k v m) \<subseteq> insert v (fmran' m)"
  by (auto simp: fmlookup_ran'_iff split: if_splits)

lemma connected_aggregate:
  assumes f: "connected root f" and e: "plain_event e"
  shows "connected root (see_aggregate root e f)"
proof -
  let ?g = "link_nodes root (agg_id e) ''contains'' (en_Sequence e) (see_node (ea_Kind (en_Aggregate e)) (ea_ID (en_Aggregate e)) (en_Sequence e) f)"
  have root: "root \<in> fmdom' (vf_nodes f)" using f by (simp add: connected_def fold_ok_def)
  have n: "no_nul (NodeIDFor (ea_Kind (en_Aggregate e)) (ea_ID (en_Aggregate e)))" using e by (simp add: plain_event_def mentions_def agg_id_def)
  have g: "connected root ?g"
    unfolding agg_id_def
    by (rule connected_join_link [OF f root n]) simp
  have ran: "fmran' (vf_byEvent ?g) \<subseteq> fmdom' (vf_nodes ?g)" "fmran' (vf_firstBy ?g) \<subseteq> fmdom' (vf_nodes ?g)"
    using g by (simp_all add: connected_def fold_ok_def)
  have "agg_id e \<in> fmdom' (vf_nodes ?g)" by (simp add: link_nodes_def see_node_def agg_id_def)
  then have "connected root (?g\<lparr>vf_byEvent := fmupd (ev_ID (en_Envelope e)) (agg_id e) (vf_byEvent ?g), vf_firstBy := vf_firstBy ?g\<rparr>)"
    using ran subset_trans [OF fmran_upd insert_subsetI [OF _ ran(1)]] by (intro connected_maps [OF g])
  then show ?thesis by (simp add: see_aggregate_def Let_def)
qed
text \<open>The sums over nodes above are no longer needed in this form.\<close>

lemma connected_actor:
  assumes "connected root f" and "plain_event e" and "agg_id e \<in> fmdom' (vf_nodes f)"
  shows "connected root (see_actor e f)"
proof (cases "ac_ID (en_Actor e) = []")
  case False
  then have "no_nul (NodeIDFor ''actor'' (ac_ID (en_Actor e)))" using assms(2) by (simp add: plain_event_def mentions_def ActorNodeID_def)
  from connected_join_edge [OF assms(1,3) this, of "''access''"] False show ?thesis by (simp add: see_actor_def Let_def ActorNodeID_def)
qed (use assms in \<open>simp add: see_actor_def Let_def\<close>)

lemma connected_known:
  assumes "connected root f"
  shows "fmlookup (vf_byEvent f) k = Some v \<Longrightarrow> v \<in> fmdom' (vf_nodes f)"
    and "fmlookup (vf_firstBy f) k = Some v \<Longrightarrow> v \<in> fmdom' (vf_nodes f)"
  using assms unfolding connected_def fold_ok_def by (meson fmran'I subsetD)+

lemma connected_causation:
  assumes f: "connected root f" and a: "agg_id e \<in> fmdom' (vf_nodes f)"
  shows "connected root (see_causation e f)"
proof (cases "fmlookup (vf_byEvent f) (en_CausationID e)")
  case (Some cause)
  then have "cause \<in> fmdom' (vf_nodes f)" using connected_known(1) [OF f] by blast
  then show ?thesis using connected_link [OF f _ a, of cause "''causation''"] Some f by (simp add: see_causation_def)
qed (use f in \<open>simp add: see_causation_def\<close>)

lemma connected_correlation:
  assumes f: "connected root f" and a: "agg_id e \<in> fmdom' (vf_nodes f)"
  shows "connected root (see_correlation e f)"
proof (cases "fmlookup (vf_firstBy f) (en_CorrelationID e)")
  case (Some frst)
  then have "frst \<in> fmdom' (vf_nodes f)" using connected_known(2) [OF f] by blast
  then show ?thesis using connected_link [OF f _ a, of frst "''correlation''"] Some f by (simp add: see_correlation_def)
next
  case None
  have ran: "fmran' (vf_byEvent f) \<subseteq> fmdom' (vf_nodes f)" "fmran' (vf_firstBy f) \<subseteq> fmdom' (vf_nodes f)"
    using f by (simp_all add: connected_def fold_ok_def)
  from connected_maps [OF f ran(1) subset_trans [OF fmran_upd insert_subsetI [OF a ran(2)]]] None f
  show ?thesis by (simp add: see_correlation_def)
qed

lemma connected_payload:
  assumes f: "connected root f" and a: "agg_id e \<in> fmdom' (vf_nodes f)" and k: "no_nul edge"
    and n: "\<And>r. payloadString (en_Payload e) key = Some r \<Longrightarrow> no_nul (NodeIDFor kind r)"
  shows "connected root (see_payload key kind edge e f)"
  using f connected_join_link [OF f a n k] by (auto simp: see_payload_def split: option.split)

lemma project_event_connected:
  assumes f: "connected root f" and e: "plain_event e" and p: "project_event root e f = Ok f1"
  shows "connected root f1"
proof -
  obtain m where m: "f1 = see_payload ''artifactId'' ''artifact'' ''produces'' e
      (see_payload ''workPackageId'' ''work_package'' ''assigns'' e (see_metadata e m
        (see_correlation e (see_causation e (see_actor e (see_aggregate root e f))))))"
    using p by (auto simp: project_event_def Let_def split: sum.splits)
  have n: "payloadString (en_Payload e) ''workPackageId'' = Some r \<Longrightarrow> no_nul (NodeIDFor ''work_package'' r)"
    "payloadString (en_Payload e) ''artifactId'' = Some r \<Longrightarrow> no_nul (NodeIDFor ''artifact'' r)" for r
    using e by (simp_all add: plain_event_def mentions_def payload_ids_def)
  show ?thesis unfolding m
    by (intro connected_payload connected_metadata connected_correlation connected_causation connected_actor connected_aggregate f e)
      (simp_all add: passage_doms n)
qed

lemma project_loop_connected:
  "connected root f \<Longrightarrow> \<forall>e \<in> set es. plain_event e \<Longrightarrow> project_loop root es f = Ok f1 \<Longrightarrow> connected root f1"
proof (induction es arbitrary: f)
  case (Cons e es)
  from Cons.prems(3) obtain f2 where "project_event root e f = Ok f2" "project_loop root es f2 = Ok f1" by (auto split: sum.splits)
  then show ?case using Cons.IH [of f2] project_event_connected [of root f e f2] Cons.prems by simp
qed simp

lemma first_fold_connected: "no_nul sid \<Longrightarrow> connected (SessionNodeID sid) (first_fold sid q)"
  by (auto simp: connected_def fold_ok_def first_fold_def see_node_def SessionNodeID_def NodeIDFor_def ensure_node_def reach_def
      fmlookup_ran'_iff)

section \<open>Growth\<close>

text \<open>Nodes stay as they were first seen, but for their metadata; edges keep the sequence of their first event.\<close>

definition same_node :: "VisNode \<Rightarrow> VisNode \<Rightarrow> bool" where
  "same_node n m \<longleftrightarrow> m = n\<lparr>vn_Metadata := vn_Metadata m\<rparr>"

lemma same_node_refl [simp]: "same_node n n"
  by (simp add: same_node_def)

lemma same_node_trans: "same_node a b \<Longrightarrow> same_node b c \<Longrightarrow> same_node a c"
  unfolding same_node_def by (cases a; cases b; cases c) simp

definition nodes_le :: "(string, VisNode) fmap \<Rightarrow> (string, VisNode) fmap \<Rightarrow> bool" where
  "nodes_le ns ms \<longleftrightarrow> (\<forall>k n. fmlookup ns k = Some n \<longrightarrow> (\<exists>m. fmlookup ms k = Some m \<and> same_node n m))"

definition edges_le :: "(string, VisEdge) fmap \<Rightarrow> (string, VisEdge) fmap \<Rightarrow> bool" where
  "edges_le es fs \<longleftrightarrow> (\<forall>k x. fmlookup es k = Some x \<longrightarrow> fmlookup fs k = Some x)"

definition fold_le :: "VisFold \<Rightarrow> VisFold \<Rightarrow> bool" where
  "fold_le f f1 \<longleftrightarrow> nodes_le (vf_nodes f) (vf_nodes f1) \<and> edges_le (vf_edges f) (vf_edges f1)"

lemma le_refl [simp]: "nodes_le ns ns" "edges_le es es"
  using same_node_refl by (auto simp: nodes_le_def edges_le_def)

definition edges_upto :: "int \<Rightarrow> VisFold \<Rightarrow> bool" where
  "edges_upto q f \<longleftrightarrow> (\<forall>k x. fmlookup (vf_edges f) k = Some x \<longrightarrow> ve_Sequence x \<le> q)"

definition grows :: "int \<Rightarrow> VisFold \<Rightarrow> VisFold \<Rightarrow> bool" where "grows q f f1 \<longleftrightarrow> fold_le f f1 \<and> edges_upto q f1"

lemma fold_le_trans: "fold_le f g \<Longrightarrow> fold_le g h \<Longrightarrow> fold_le f h"
  unfolding fold_le_def nodes_le_def edges_le_def by (meson same_node_trans)

lemma grows_trans: "fold_le f g \<Longrightarrow> grows q g h \<Longrightarrow> grows q f h"
  using fold_le_trans by (auto simp: grows_def)

lemma grows_node: "edges_upto q f \<Longrightarrow> grows q f (see_node kind ref p f)"
  by (simp add: grows_def fold_le_def nodes_le_def edges_upto_def see_node_def ensure_lookup)

lemma grows_edge:
  assumes "edges_upto q f"
  shows "grows q f (f\<lparr>vf_edges := add_edge a b kind q (vf_edges f)\<rparr>)"
proof (cases "fmlookup (vf_edges f) (edge_key a b kind)")
  case None
  then show ?thesis using assms by (auto simp: grows_def fold_le_def edges_le_def edges_upto_def add_edge_def)
next
  case (Some x)
  then have "\<not> q < ve_Sequence x" using assms unfolding edges_upto_def by (meson not_less)
  then show ?thesis using assms Some by (simp add: grows_def fold_le_def add_edge_def)
qed

lemma grows_link: "edges_upto q f \<Longrightarrow> grows q f (link_nodes a b kind q f)"
  using grows_edge [of q f a b kind] by (auto simp: link_nodes_def grows_def fold_le_def)

lemma grows_other: "grows q f g \<Longrightarrow> vf_nodes h = vf_nodes g \<Longrightarrow> vf_edges h = vf_edges g \<Longrightarrow> grows q f h"
  by (simp add: grows_def fold_le_def edges_upto_def)

lemma grows_step:
  assumes "\<And>g. edges_upto q g \<Longrightarrow> grows q g (h g)" and "grows q f g"
  shows "grows q f (h g)"
  using assms(1) [of g] assms(2) grows_trans [of f g q "h g"] by (simp add: grows_def)

lemma grows_node_link: "edges_upto q f \<Longrightarrow> grows q f (link_nodes a b edge q (see_node kind ref p f))"
  by (rule grows_step [OF grows_link grows_node])

lemma grows_node_edge:
  "edges_upto q f \<Longrightarrow> grows q f ((see_node kind ref p f)\<lparr>vf_edges := add_edge a b edge q (vf_edges (see_node kind ref p f))\<rparr>)"
  using grows_edge [of q "see_node kind ref p f" a b edge] grows_trans [of f "see_node kind ref p f"] grows_node [of q f kind ref p]
  by (simp add: grows_def)

lemma grows_refl: "edges_upto q f \<Longrightarrow> grows q f f"
  by (simp add: grows_def fold_le_def)

lemma grows_aggregate: "edges_upto (en_Sequence e) f \<Longrightarrow> grows (en_Sequence e) f (see_aggregate root e f)"
  by (rule grows_other [OF grows_node_link]) (simp_all add: see_aggregate_def Let_def)

lemma grows_actor: "edges_upto (en_Sequence e) f \<Longrightarrow> grows (en_Sequence e) f (see_actor e f)"
  by (simp add: see_actor_def Let_def grows_node_edge grows_refl)

lemma grows_causation: "edges_upto (en_Sequence e) f \<Longrightarrow> grows (en_Sequence e) f (see_causation e f)"
  by (simp add: see_causation_def grows_link grows_refl split: option.split)

lemma grows_correlation: "edges_upto (en_Sequence e) f \<Longrightarrow> grows (en_Sequence e) f (see_correlation e f)"
  by (auto simp: see_correlation_def grows_link grows_refl intro: grows_other [OF grows_refl] split: option.split)

lemma annotate_lookup: "fmlookup nodes j = Some n \<Longrightarrow> \<exists>x. fmlookup (annotate_node k m nodes) j = Some x \<and> same_node n x"
  by (auto simp: annotate_node_def Let_def same_node_def split: option.split)

lemma grows_metadata: "edges_upto q f \<Longrightarrow> grows q f (see_metadata e m f)"
  using annotate_lookup [of "vf_nodes f"] by (simp add: see_metadata_def grows_def edges_upto_def fold_le_def nodes_le_def)

lemma grows_payload: "edges_upto (en_Sequence e) f \<Longrightarrow> grows (en_Sequence e) f (see_payload key kind edge e f)"
  by (simp add: see_payload_def grows_node_link grows_refl split: option.split)

lemma project_event_grows:
  assumes f: "edges_upto (en_Sequence e) f" and p: "project_event root e f = Ok f1"
  shows "grows (en_Sequence e) f f1"
proof -
  obtain m where m: "f1 = see_payload ''artifactId'' ''artifact'' ''produces'' e
      (see_payload ''workPackageId'' ''work_package'' ''assigns'' e (see_metadata e m
        (see_correlation e (see_causation e (see_actor e (see_aggregate root e f))))))"
    using p by (auto simp: project_event_def Let_def split: sum.splits)
  show ?thesis unfolding m
    by (rule grows_step [OF grows_payload] grows_step [OF grows_metadata] grows_step [OF grows_correlation]
        grows_step [OF grows_causation] grows_step [OF grows_actor] grows_aggregate f | assumption)+
qed

lemma project_loop_grows:
  "sorted (map en_Sequence es) \<Longrightarrow> \<forall>e \<in> set es. edges_upto (en_Sequence e) f \<Longrightarrow> project_loop root es f = Ok f1 \<Longrightarrow> fold_le f f1"
proof (induction es arbitrary: f)
  case (Cons e es)
  from Cons.prems(3) obtain f2 where f2: "project_event root e f = Ok f2" "project_loop root es f2 = Ok f1" by (auto split: sum.splits)
  have g: "grows (en_Sequence e) f f2" using project_event_grows [OF _ f2(1)] Cons.prems by simp
  have "edges_upto (en_Sequence d) f2" if "d \<in> set es" for d
    using g that Cons.prems(1) by (fastforce simp: grows_def edges_upto_def)
  then have "fold_le f2 f1" using Cons.IH [OF _ _ f2(2)] Cons.prems(1) by simp
  then show ?case using g fold_le_trans by (auto simp: grows_def)
qed (simp add: fold_le_def)

section \<open>Graphs\<close>

definition linked :: "VisGraph \<Rightarrow> string \<Rightarrow> string \<Rightarrow> bool" where
  "linked g a b \<longleftrightarrow> (\<exists>x \<in> set (vg_Edges g). {ve_From x, ve_To x} = {a, b})"

definition graph_ids :: "VisGraph \<Rightarrow> string list" where "graph_ids g = map vn_ID (vg_Nodes g)"

lemma set_sorted_edges: "set (sorted_edges es) = {x. \<exists>k. fmlookup es k = Some x}"
  by (simp add: sorted_edges_def set_fm_vals)

lemma graph_ids_of:
  assumes "fold_ok root f"
  shows "graph_ids (graph_of sid f) = fm_keys (vf_nodes f)"
proof -
  have ids: "map vn_ID (fm_vals (vf_nodes f)) = fm_keys (vf_nodes f)"
    by (rule fm_vals_keys) (use assms in \<open>auto simp: fold_ok_def\<close>)
  have "sorted (map vn_ID (fm_vals (vf_nodes f)))" unfolding ids by simp
  then have "sort_key vn_ID (fm_vals (vf_nodes f)) = fm_vals (vf_nodes f)" by (rule sort_key_id_if_sorted)
  then show ?thesis using ids by (simp add: graph_ids_def graph_of_def sorted_nodes_def)
qed

lemma distinct_edges:
  assumes "fold_ok root f"
  shows "distinct (map (\<lambda>x. (ve_From x, ve_To x, ve_Kind x)) (sorted_edges (vf_edges f)))"
proof -
  let ?key = "\<lambda>x. (ve_From x, ve_To x, ve_Kind x)" and ?es = "fm_vals (vf_edges f)"
  have "map (\<lambda>x. edge_key (ve_From x) (ve_To x) (ve_Kind x)) ?es = fm_keys (vf_edges f)"
    by (rule fm_vals_keys) (use assms in \<open>auto simp: fold_ok_def\<close>)
  then have "distinct (map (\<lambda>(a, b, k). edge_key a b k) (map ?key ?es))" by (simp add: comp_def)
  then have "distinct (map ?key ?es)" by (rule distinct_map [THEN iffD1, THEN conjunct1])
  moreover have "mset (map ?key (sorted_edges (vf_edges f))) = mset (map ?key ?es)" by (simp add: sorted_edges_def)
  ultimately show ?thesis using mset_eq_imp_distinct_iff by blast
qed

lemma vis_Project_Ok:
  "vis_Project sid es = Ok g \<longleftrightarrow> sid \<noteq> [] \<and> es \<noteq> [] \<and>
     (\<exists>f. project_loop (SessionNodeID sid) (orderedCopy es) (first_fold sid (en_Sequence (hd (orderedCopy es)))) = Ok f \<and> g = graph_of sid f)"
proof (cases "orderedCopy es")
  case Nil
  then have "es = []" by (metis orderedCopy_def length_0_conv length_sort)
  then show ?thesis using Nil by (simp add: vis_Project_def)
next
  case (Cons e rest)
  then have "es \<noteq> []" by (auto simp: orderedCopy_def)
  then show ?thesis using Cons by (auto simp: vis_Project_def split: sum.splits)
qed


text \<open>A work package is created and a run of it leaves an artifact; the run arrives first.\<close>

definition ex_vis_event :: "int \<Rightarrow> string \<Rightarrow> string \<Rightarrow> string \<Rightarrow> string \<Rightarrow> (string \<times> go_any) list \<Rightarrow> Event" where
  "ex_vis_event q k kind agg cause payload =
     \<lparr>en_Envelope = \<lparr>ev_ContractVersion = ''2.0'', ev_Kind = ''event'', ev_ID = k, ev_ProjectID = ''p'', ev_CreatedAt = [],
        ev_Revision = None, ev_Provenance = None\<rparr>,
      en_Sequence = q, en_OccurredAt = ''t'', en_RecordedAt = [], en_Type = ''TELEMETRY_RECORDED'',
      en_Aggregate = \<lparr>ea_Kind = kind, ea_ID = agg, ea_Version = None\<rparr>,
      en_Actor = \<lparr>ac_Kind = ''agent'', ac_ID = ''a'', ac_Role = [], ac_WorkerID = [], ac_Model = []\<rparr>,
      en_CausationID = cause, en_CorrelationID = [], en_Payload = payload\<rparr>"

definition ex_session :: "Event list" where
  "ex_session =
     [ex_vis_event 2 ''e2'' ''attempt'' ''t1'' ''e1'' [(''artifactId'', AString ''out''), (''workPackageId'', AString ''w1'')],
      ex_vis_event 1 ''e1'' ''work_package'' ''w1'' [] []]"

lemma ex_session_graph:
  "case vis_Project ''s'' ex_session of Inl _ \<Rightarrow> False
   | Inr g \<Rightarrow> graph_ids g = [''actor:a'', ''artifact:out'', ''attempt:t1'', ''session:s'', ''work_package:w1''] \<and> length (vg_Edges g) = 7"
  by code_simp


definition graph_grows :: "VisGraph \<Rightarrow> VisGraph \<Rightarrow> bool" where
  "graph_grows g h \<longleftrightarrow> vg_SessionID g = vg_SessionID h \<and> (\<forall>n \<in> set (vg_Nodes g). \<exists>m \<in> set (vg_Nodes h). same_node n m) \<and>
     set (vg_Edges g) \<subseteq> set (vg_Edges h)"

lemma project_loop_append:
  "project_loop root (xs @ ys) f = (case project_loop root xs f of Inl x \<Rightarrow> Err x | Inr f1 \<Rightarrow> project_loop root ys f1)"
  by (induction xs arbitrary: f) (auto split: sum.split)

lemma project_loop_upto:
  "sorted (map en_Sequence (es @ [d])) \<Longrightarrow> edges_upto (en_Sequence d) f \<Longrightarrow> \<forall>e \<in> set es. edges_upto (en_Sequence e) f \<Longrightarrow>
     project_loop root es f = Ok f1 \<Longrightarrow> edges_upto (en_Sequence d) f1"
proof (induction es arbitrary: f)
  case (Cons e es)
  from Cons.prems(4) obtain f2 where f2: "project_event root e f = Ok f2" "project_loop root es f2 = Ok f1" by (auto split: sum.splits)
  have "edges_upto (en_Sequence e) f2" using project_event_grows [OF _ f2(1)] Cons.prems by (simp add: grows_def)
  then have up: "edges_upto (en_Sequence c) f2" if "c \<in> set (es @ [d])" for c
    using that Cons.prems(1) unfolding edges_upto_def by (force intro: order_trans)
  show ?case using Cons.IH [OF _ _ _ f2(2)] up Cons.prems(1) by simp
qed simp

lemma orderedCopy_sorted: "sorted (map en_Sequence es) \<Longrightarrow> orderedCopy es = es"
  by (simp add: orderedCopy_def sort_key_id_if_sorted)

lemma first_fold_upto [simp]: "edges_upto q (first_fold sid p)"
  by (simp add: edges_upto_def first_fold_def see_node_def)

lemma project_le:
  assumes es: "sorted (map en_Sequence (xs @ ys))" and g: "vis_Project sid xs = Ok g" and h: "vis_Project sid (xs @ ys) = Ok h"
  shows "\<exists>f f1. g = graph_of sid f \<and> h = graph_of sid f1 \<and> fold_le f f1"
proof -
  have xs: "sorted (map en_Sequence xs)" "xs \<noteq> []" using es g by (auto simp: sorted_append vis_Project_Ok)
  let ?root = "SessionNodeID sid" and ?f0 = "first_fold sid (en_Sequence (hd xs))"
  obtain f where f: "project_loop ?root xs ?f0 = Ok f" "g = graph_of sid f"
    using g xs by (auto simp: vis_Project_Ok orderedCopy_sorted)
  obtain f1 where "project_loop ?root (xs @ ys) ?f0 = Ok f1" and h1: "h = graph_of sid f1"
    using h xs es by (auto simp: vis_Project_Ok orderedCopy_sorted)
  then have f1: "project_loop ?root ys f = Ok f1" using f by (simp add: project_loop_append)
  have "edges_upto (en_Sequence d) f" if "d \<in> set ys" for d
    using project_loop_upto [OF _ _ _ f(1), of d] es that by (simp add: sorted_append)
  then have "fold_le f f1" using project_loop_grows [OF _ _ f1] es by (simp add: sorted_append)
  then show ?thesis using f(2) h1 by blast
qed

text \<open>The graph of the first events of a session is part of the graph of more of them.\<close>

lemma project_grows:
  assumes "sorted (map en_Sequence (xs @ ys))" and "vis_Project sid xs = Ok g" and "vis_Project sid (xs @ ys) = Ok h"
  shows "graph_grows g h"
proof -
  obtain f f1 where g: "g = graph_of sid f" "h = graph_of sid f1" and le: "fold_le f f1" using project_le [OF assms] by blast
  show ?thesis
    using le unfolding g graph_grows_def graph_of_def fold_le_def nodes_le_def edges_le_def
    by (auto simp: sorted_nodes_def set_sorted_edges set_fm_vals) blast+
qed

lemma project_sizes:
  assumes "sorted (map en_Sequence (xs @ ys))" and "vis_Project sid xs = Ok g" and "vis_Project sid (xs @ ys) = Ok h"
  shows "length (vg_Nodes g) \<le> length (vg_Nodes h)" and "length (vg_Edges g) \<le> length (vg_Edges h)"
proof -
  obtain f f1 where g: "g = graph_of sid f" "h = graph_of sid f1" and le: "fold_le f f1" using project_le [OF assms] by blast
  have "fmdom' (vf_nodes f) \<subseteq> fmdom' (vf_nodes f1)" "fmdom' (vf_edges f) \<subseteq> fmdom' (vf_edges f1)"
    using le by (auto simp: fold_le_def nodes_le_def edges_le_def in_fmdom'_iff) blast+
  then show "length (vg_Nodes g) \<le> length (vg_Nodes h)" "length (vg_Edges g) \<le> length (vg_Edges h)"
    by (simp_all add: g graph_of_def sorted_nodes_def sorted_edges_def length_fm_vals card_mono)
qed

text \<open>Projection fails only on metadata that the profile does not accept.\<close>

lemma project_loop_succeeds: "is_Ok (project_loop root es f) \<longleftrightarrow> (\<forall>e \<in> set es. is_Ok (compat_Normalize e))"
proof (induction es arbitrary: f)
  case (Cons e es)
  then show ?case by (cases "compat_Normalize e") (simp_all add: project_event_def Let_def)
qed simp

lemma vis_Project_succeeds:
  "is_Ok (vis_Project sid es) \<longleftrightarrow> sid \<noteq> [] \<and> es \<noteq> [] \<and> (\<forall>e \<in> set es. is_Ok (compat_Normalize e))"
  using project_loop_succeeds [of "SessionNodeID sid" "orderedCopy es"]
  by (auto simp: is_Ok_iff vis_Project_Ok orderedCopy_def)

end
