(* ===== verification/VisProps.thy ===== *)
theory VisProps
  imports VisSource VisSessionProps
begin

text \<open>
  Replay and live view: the frames of a session, the bridge, the sessions of the log, and what the adapter accepts.
\<close>

section \<open>Replay\<close>

lemma frames_loop_Ok:
  "frames_loop M sid os is = Ok frs \<longleftrightarrow> list_all2 (\<lambda>i fr. frame_at M sid os i = Ok fr) is frs"
proof (induction "is" arbitrary: frs)
  case (Cons i "is")
  show ?case
    by (cases frs) (auto simp: Cons.IH [symmetric] split: sum.splits)
qed (auto split: list.split)

lemma length_orderedCopy [simp]: "length (orderedCopy es) = length es"
  by (simp add: orderedCopy_def)

lemma orderedCopy_Nil [simp]: "orderedCopy [] = []"
  by (simp add: orderedCopy_def)

lemma orderedCopy_Nil_iff [simp]: "orderedCopy es = [] \<longleftrightarrow> es = []"
  by (metis length_0_conv length_orderedCopy)

lemma sorted_orderedCopy [simp]: "sorted (map en_Sequence (orderedCopy es))"
  by (simp add: orderedCopy_def)

lemma orderedCopy_idem [simp]: "orderedCopy (orderedCopy es) = orderedCopy es"
  by (rule orderedCopy_sorted) simp

lemma vis_Project_ordered: "vis_Project sid (orderedCopy es) = vis_Project sid es"
  by (simp add: vis_Project_def)

lemma project_prefix_grows:
  assumes "vis_Project sid (take i (orderedCopy es)) = Ok g" and "vis_Project sid (take j (orderedCopy es)) = Ok h" and "i \<le> j"
  shows "graph_grows g h"
proof -
  obtain ys where ys: "take j (orderedCopy es) = take i (orderedCopy es) @ ys"
    using assms(3) by (metis le_add_diff_inverse take_add)
  have "sorted (map en_Sequence (take j (orderedCopy es)))" by (simp add: take_map [symmetric] sorted_wrt_take)
  then show ?thesis using project_grows [of "take i (orderedCopy es)" ys sid g h] assms(1,2) ys by simp
qed

definition is_frame :: "VisMath \<Rightarrow> string \<Rightarrow> Event list \<Rightarrow> nat \<Rightarrow> VisFrame \<Rightarrow> bool" where
  "is_frame M sid os i fr \<longleftrightarrow> vis_Project sid (take (Suc i) os) = Ok (fr_Graph fr) \<and> Layout M (fr_Graph fr) = Ok (fr_Placement fr) \<and>
     fr_Index fr = int i \<and> fr_Sequence fr = en_Sequence (os ! i) \<and> fr_EventID fr = ev_ID (en_Envelope (os ! i)) \<and>
     fr_Type fr = en_Type (os ! i)"

lemma frame_at_Ok: "frame_at M sid os i = Ok fr \<longleftrightarrow> is_frame M sid os i fr"
  by (cases fr) (auto simp: frame_at_def is_frame_def split: sum.splits)

lemma replay_Build_Ok:
  "replay_Build M sid es = Ok l \<longleftrightarrow> sid \<noteq> [] \<and> es \<noteq> [] \<and> fl_SessionID l = sid \<and> length (fl_Frames l) = length es \<and>
     (\<forall>i < length es. is_frame M sid (orderedCopy es) i (fl_Frames l ! i))"
proof -
  have "replay_Build M sid es = Ok l \<longleftrightarrow> sid \<noteq> [] \<and> es \<noteq> [] \<and> fl_SessionID l = sid \<and>
      frames_loop M sid (orderedCopy es) [0..<length es] = Ok (fl_Frames l)"
    by (cases l) (auto simp: replay_Build_def split: sum.splits)
  then show ?thesis by (auto simp: frames_loop_Ok frame_at_Ok list_all2_conv_all_nth)
qed

lemma Layout_succeeds: "is_Ok (Layout M g) \<longleftrightarrow> length (vg_Nodes g) \<le> 250000 \<and> length (vg_Edges g) \<le> 1000000"
  by (auto simp: Layout_def LayoutBudgeted_def DefaultLayoutBudget_def Let_def)

lemma frame_at_succeeds:
  "is_Ok (frame_at M sid os i) \<longleftrightarrow> (\<exists>g. vis_Project sid (take (Suc i) os) = Ok g \<and> is_Ok (Layout M g))"
  by (auto simp: frame_at_def is_Ok_iff split: sum.split)

lemma frames_loop_succeeds: "is_Ok (frames_loop M sid os is) \<longleftrightarrow> (\<forall>i \<in> set is. is_Ok (frame_at M sid os i))"
proof (induction "is")
  case (Cons i "is")
  then show ?case by (cases "frame_at M sid os i"; cases "frames_loop M sid os is") auto
qed simp

text \<open>A replay exists exactly when the projection of the whole session does and fits the budget of the layout.\<close>

lemma replay_exists_iff:
  "is_Ok (replay_Build M sid es) \<longleftrightarrow>
     (\<exists>g. vis_Project sid es = Ok g \<and> length (vg_Nodes g) \<le> 250000 \<and> length (vg_Edges g) \<le> 1000000)" (is "_ \<longleftrightarrow> ?fits")
proof (cases "sid = [] \<or> es = []")
  case False
  let ?os = "orderedCopy es" and ?n = "length es"
  have build: "is_Ok (replay_Build M sid es) \<longleftrightarrow> (\<forall>i < ?n. is_Ok (frame_at M sid ?os i))"
    using False frames_loop_succeeds [of M sid ?os "[0..<?n]"] by (auto simp: replay_Build_def is_Ok_iff split: sum.splits)
  have last: "take (Suc (?n - 1)) ?os = ?os" using False by simp
  show ?thesis
  proof
    assume "is_Ok (replay_Build M sid es)"
    then have "is_Ok (frame_at M sid ?os (?n - 1))" using build False by simp
    then show ?fits using last by (auto simp: frame_at_succeeds Layout_succeeds vis_Project_ordered)
  next
    assume ?fits
    then obtain g where g: "vis_Project sid ?os = Ok g" "is_Ok (Layout M g)"
      by (auto simp: Layout_succeeds vis_Project_ordered)
    have "is_Ok (frame_at M sid ?os i)" if "i < ?n" for i
    proof -
      let ?xs = "take (Suc i) ?os" and ?ys = "drop (Suc i) ?os"
      have "?xs \<noteq> []" using that by auto
      moreover have "set ?xs \<subseteq> set ?os" by (rule set_take_subset)
      ultimately have "is_Ok (vis_Project sid ?xs)" using g(1) vis_Project_succeeds [of sid ?os] vis_Project_succeeds [of sid ?xs] by auto
      then obtain h where h: "vis_Project sid ?xs = Ok h" by (auto simp: is_Ok_iff)
      then show ?thesis using project_sizes [of ?xs ?ys sid h g] g by (auto simp: frame_at_succeeds Layout_succeeds)
    qed
    then show "is_Ok (replay_Build M sid es)" using build by simp
  qed
qed (auto simp: replay_Build_def vis_Project_def)


definition ex_math :: VisMath where
  "ex_math = \<lparr>ma_ops = \<lparr>fa_add = exact_op (+), fa_sub = exact_op (-), fa_mul = exact_op (*), fa_div = exact_op (/), fa_lit = Finite,
     fa_int = (\<lambda>n. Finite (of_int n)), fa_show = (\<lambda>_. []), fa_fixed = (\<lambda>_ _. [])\<rparr>, ma_sqrt = id, ma_cos = id, ma_sin = id\<rparr>"

lemma ex_session_replays: "\<exists>l. replay_Build ex_math ''s'' ex_session = Ok l"
proof -
  obtain g where g: "vis_Project ''s'' ex_session = Ok g" "length (graph_ids g) = 5" "length (vg_Edges g) = 7"
    using ex_session_graph by (auto split: sum.splits)
  then have "length (vg_Nodes g) = 5" by (simp add: graph_ids_def)
  then have "is_Ok (replay_Build ex_math ''s'' ex_session)" using g by (auto simp: replay_exists_iff)
  then show ?thesis by (auto simp: is_Ok_iff)
qed


section \<open>The order of delivery\<close>

lemma orderedCopy_perm:
  assumes "mset xs = mset ys" and "distinct (map en_Sequence xs)"
  shows "orderedCopy xs = orderedCopy ys"
proof -
  have "inj_on en_Sequence (set xs)" using assms(2) by (simp add: distinct_map)
  then show ?thesis unfolding orderedCopy_def by (intro sort_key_inj_key_eq) (simp_all add: assms(1))
qed

lemma replay_Build_perm:
  "mset xs = mset ys \<Longrightarrow> distinct (map en_Sequence xs) \<Longrightarrow> replay_Build M sid xs = replay_Build M sid ys"
  using orderedCopy_perm [of xs ys] by (auto simp: replay_Build_def)

section \<open>The bridge\<close>

text \<open>The calls on a bridge: batches of events, and the frame list asked for in between.\<close>

datatype bridge_op = BridgeApply "Event list" | BridgeFrames

fun bridge_step :: "VisMath \<Rightarrow> (string \<Rightarrow> time option) \<Rightarrow> bridge_op \<Rightarrow> VisBridge \<Rightarrow> VisBridge" where
  "bridge_step M parse (BridgeApply es) b = fst (Bridge_Apply parse es b)"
| "bridge_step M parse BridgeFrames b = fst (Bridge_FrameList M b)"

definition batch_ok :: "(string \<Rightarrow> time option) \<Rightarrow> Event list \<Rightarrow> bool" where
  "batch_ok parse es \<longleftrightarrow> (\<forall>e \<in> set es. Event_Validate parse e = None)"

fun applied :: "(string \<Rightarrow> time option) \<Rightarrow> bridge_op list \<Rightarrow> Event list" where
  "applied parse [] = []"
| "applied parse (BridgeApply es # ops) = (if batch_ok parse es then es else []) @ applied parse ops"
| "applied parse (BridgeFrames # ops) = applied parse ops"

definition bridge_ok :: "VisMath \<Rightarrow> VisBridge \<Rightarrow> bool" where
  "bridge_ok M b \<longleftrightarrow> (br_built b \<longrightarrow> replay_Build M (br_SessionID b) (br_events b) = Ok (br_frames b))"

lemma Bridge_Apply_batch:
  "fst (Bridge_Apply parse es b) = (if batch_ok parse es then b\<lparr>br_events := br_events b @ es, br_built := False\<rparr> else b)"
  by (cases "first_err (Event_Validate parse) es") (simp_all add: Bridge_Apply_def batch_ok_def flip: first_err_None_iff)

lemma bridge_frames: "bridge_ok M b \<Longrightarrow> snd (Bridge_FrameList M b) = replay_Build M (br_SessionID b) (br_events b)"
  by (auto simp: Bridge_FrameList_def bridge_ok_def split: sum.split)

lemma bridge_step_ok:
  assumes "bridge_ok M b"
  shows "bridge_ok M (bridge_step M parse op b)" and "br_SessionID (bridge_step M parse op b) = br_SessionID b"
    and "br_events (bridge_step M parse op b) = br_events b @ applied parse [op]"
  using assms by (cases op; auto simp: Bridge_Apply_batch bridge_ok_def Bridge_FrameList_def split: sum.split)+

lemma applied_Cons: "applied parse (op # ops) = applied parse [op] @ applied parse ops"
  by (cases op) simp_all

lemma bridge_run_ok:
  "bridge_ok M b \<Longrightarrow> bridge_ok M (fold (bridge_step M parse) ops b) \<and>
     br_SessionID (fold (bridge_step M parse) ops b) = br_SessionID b \<and>
     br_events (fold (bridge_step M parse) ops b) = br_events b @ applied parse ops"
proof (induction ops arbitrary: b)
  case (Cons op ops)
  then show ?case using bridge_step_ok [OF Cons.prems, of parse op] applied_Cons [of parse op ops] by simp
qed simp

text \<open>
  C39. However the events of a session arrive, in whatever batches and order and with the frame list asked for in between,
  the live frames are those of a replay of the events accepted, provided no two of them have the same sequence.
\<close>

theorem live_equals_replay:
  assumes "NewBridge sid = Ok b" and "mset es = mset (applied parse ops)" and "distinct (map en_Sequence es)"
  shows "snd (Bridge_FrameList M (fold (bridge_step M parse) ops b)) = replay_Build M sid es"
proof -
  have b: "bridge_ok M b" "br_SessionID b = sid" "br_events b = []"
    using assms(1) by (auto simp: NewBridge_def bridge_ok_def split: if_splits)
  then show ?thesis
    using bridge_run_ok [OF b(1), of parse ops] bridge_frames replay_Build_perm [OF assms(2,3)] by simp
qed

theorem live_equals_replay_witness:
  "\<exists>b. NewBridge ''s'' = Ok b \<and>
     snd (Bridge_FrameList ex_math (fold (bridge_step ex_math (\<lambda>_. Some 0))
       [BridgeApply [ex_session ! 1], BridgeFrames, BridgeApply [ex_session ! 0]] b)) = replay_Build ex_math ''s'' ex_session"
proof -
  have "mset ex_session = mset (applied (\<lambda>_. Some 0) [BridgeApply [ex_session ! 1], BridgeFrames, BridgeApply [ex_session ! 0]])"
  proof -
    have "batch_ok (\<lambda>_. Some 0) [ex_session ! 1]" "batch_ok (\<lambda>_. Some 0) [ex_session ! 0]" by code_simp+
    then show ?thesis by (simp add: ex_session_def)
  qed
  moreover have "distinct (map en_Sequence ex_session)" by code_simp
  moreover have "\<exists>b. NewBridge ''s'' = Ok b" by (simp add: NewBridge_def)
  ultimately show ?thesis using live_equals_replay by blast
qed

text \<open>A live source passes on what a replay of the same observations returns, when the replay accepts them all.\<close>

lemma pump_replays: "map_observations parse i evs = Ok es \<Longrightarrow> pump parse evs = es"
  by (induction parse i evs arbitrary: es rule: map_observations.induct) (auto simp: pump_def List.map_filter_simps split: sum.splits)

text \<open>One observation that cannot be mapped ends the replay with an error, while the live source drops it.\<close>

lemma unmappable_observation:
  assumes "ToContract parse ev = Err x" and "map_observations parse 0 evs = Ok es"
  shows "map_observations parse 0 (ev # evs) = Err (VisAt 0)" and "pump parse (ev # evs) = es"
  using assms pump_replays [OF assms(2)] by (simp_all add: pump_def List.map_filter_simps)

section \<open>Past sessions\<close>

lemma vis_Summarize_count: "vis_Summarize parse sid g = Ok s \<Longrightarrow> vs_ID s = sid \<and> vs_EventCount s = int (length g)"
proof (cases "orderedCopy g")
  case (Cons e rest)
  then have "length g = Suc (length rest)" by (metis length_Cons length_orderedCopy)
  then show "vis_Summarize parse sid g = Ok s \<Longrightarrow> vs_ID s = sid \<and> vs_EventCount s = int (length g)"
    using Cons by (auto simp: vis_Summarize_def Let_def)
qed (simp add: vis_Summarize_def)

lemma summaries_Ok:
  "summaries parse gs = Ok ss \<Longrightarrow> map vs_ID ss = map fst gs \<and> map vs_EventCount ss = map (\<lambda>g. int (length (snd g))) gs"
proof (induction gs arbitrary: ss)
  case (Cons g gs)
  obtain sid es where g: "g = (sid, es)" by (cases g)
  with Cons.prems obtain s rest where s: "vis_Summarize parse sid es = Ok s" "summaries parse gs = Ok rest" "ss = s # rest"
    by (auto split: sum.splits)
  then show ?case using Cons.IH [OF s(2)] vis_Summarize_count [OF s(1)] g by simp
qed simp

lemma summaries_succeed: "is_Ok (summaries parse gs) \<longleftrightarrow> (\<forall>g \<in> set gs. snd g \<noteq> [])"
proof (induction gs)
  case (Cons g gs)
  obtain sid es where g: "g = (sid, es)" by (cases g)
  have "is_Ok (vis_Summarize parse sid es) \<longleftrightarrow> es \<noteq> []"
    by (cases "orderedCopy es") (auto simp: vis_Summarize_def Let_def)
  then show ?case using Cons.IH g by (cases "vis_Summarize parse sid es"; cases "summaries parse gs") auto
qed simp

lemma SessionKey_not_empty: "SessionKey e \<noteq> []"
  by (auto simp: SessionKey_def payloadString_def DefaultSessionID_def split: option.split go_any.split if_splits)

lemma sum_filter_lengths:
  assumes "finite S"
  shows "key ` set xs \<subseteq> S \<Longrightarrow> (\<Sum>v \<in> S. int (length (filter (\<lambda>x. key x = v) xs))) = int (length xs)"
proof (induction xs)
  case (Cons x xs)
  have step: "int (length (filter (\<lambda>y. key y = v) (x # xs))) = (if key x = v then 1 else 0) + int (length (filter (\<lambda>y. key y = v) xs))" for v
    by simp
  show ?case unfolding step sum.distrib using Cons assms by (simp add: sum.delta)
qed simp

lemma groups_count:
  "(\<Sum>v \<leftarrow> sort (remdups (map key xs)). int (length (filter (\<lambda>x. key x = v) xs))) = int (length xs)" for key :: "'a \<Rightarrow> string"
  by (subst sum_list_distinct_conv_sum_set) (simp_all add: sum_filter_lengths)

text \<open>
  The sessions that are listed partition the log: every event counts in exactly one of them, and a listed session can
  be loaded with as many events as it counts, those of its key in the order of their sequences.
\<close>

lemma sessions_partition_log:
  assumes "browse_events dec src = Ok es"
  shows "\<exists>ss. Browser_List parse dec src = Ok ss \<and> map vs_ID ss = sort (remdups (map SessionKey es)) \<and>
    (\<Sum>s \<leftarrow> ss. vs_EventCount s) = int (length es) \<and>
    (\<forall>s \<in> set ss. \<exists>g. Browser_Load dec src (vs_ID s) = Ok g \<and> int (length g) = vs_EventCount s \<and>
       mset g = {#e \<in># mset es. SessionKey e = vs_ID s#} \<and> sorted (map en_Sequence g))"
proof -
  let ?keys = "sort (remdups (map SessionKey es))" and ?of = "\<lambda>k. filter (\<lambda>e. SessionKey e = k) es"
  have "is_Ok (summaries parse (groups_of SessionKey es))"
    unfolding summaries_succeed groups_of_def by (auto simp: filter_empty_conv)
  then obtain ss where ss: "summaries parse (groups_of SessionKey es) = Ok ss" by (auto simp: is_Ok_iff)
  have ids: "map vs_ID ss = ?keys" and counts: "map vs_EventCount ss = map (\<lambda>k. int (length (?of k))) ?keys"
    using summaries_Ok [OF ss] by (simp_all add: groups_of_def comp_def)
  have "sorted (map vs_ID ss)" by (simp add: ids)
  then have list: "Browser_List parse dec src = Ok ss" using assms ss by (simp add: Browser_List_def sort_key_id_if_sorted)
  have sum: "(\<Sum>s \<leftarrow> ss. vs_EventCount s) = int (length es)" unfolding counts by (rule groups_count)
  have load: "\<exists>g. Browser_Load dec src (vs_ID s) = Ok g \<and> int (length g) = vs_EventCount s \<and>
      mset g = {#e \<in># mset es. SessionKey e = vs_ID s#} \<and> sorted (map en_Sequence g)" if s: "s \<in> set ss" for s
  proof -
    have k: "vs_ID s \<in> SessionKey ` set es" using arg_cong [OF ids, of set] s by force
    then obtain x xs where x: "?of (vs_ID s) = x # xs" by (cases "?of (vs_ID s)") (auto simp: filter_empty_conv)
    have "vs_ID s \<noteq> []" using k SessionKey_not_empty by (metis imageE)
    then have "Browser_Load dec src (vs_ID s) = Ok (sort_key en_Sequence (?of (vs_ID s)))" using assms x by (simp add: Browser_Load_def)
    moreover have "vs_EventCount s = int (length (?of (vs_ID s)))"
    proof -
      obtain i where i: "i < length ss" "s = ss ! i" using s by (auto simp: in_set_conv_nth)
      then have "vs_ID s = ?keys ! i" "length ?keys = length ss" using arg_cong [OF ids, of "\<lambda>l. l ! i"] arg_cong [OF ids, of length] by auto
      then show ?thesis using arg_cong [OF counts, of "\<lambda>l. l ! i"] i by simp
    qed
    ultimately show ?thesis by (intro exI [of _ "sort_key en_Sequence (?of (vs_ID s))"]) simp
  qed
  show ?thesis using list ids sum load by blast
qed

section \<open>The adapter\<close>

lemma leading_single: "isLeadingRune e \<longleftrightarrow> (\<exists>c. e = [c] \<and> is_alnum c)"
  by (auto simp: isLeadingRune_def split: list.split)

lemma identifier_rune: "isIdentifierRune e \<longleftrightarrow> (\<exists>c. e = [c] \<and> (is_alnum c \<or> c \<in> set ''_.:@+-''))"
  by (auto simp: isIdentifierRune_def leading_single)

lemma identifier_chars:
  "c \<in> set (concat (map (\<lambda>e. if isIdentifierRune e then e else ''-'') es)) \<Longrightarrow> is_alnum c \<or> c \<in> set ''_.:@+-''"
  by (induction es) (auto simp: identifier_rune split: if_splits)

lemma vis_identifier_RE: "identifierRE (vis_identifier s)"
proof -
  let ?out = "concat (map (\<lambda>e. if isIdentifierRune e then e else ''-'') (runes_of s))"
  have all: "list_all (\<lambda>d. is_alnum d \<or> d \<in> set ''_.:@+-'') ?out" using identifier_chars by (auto simp: list_all_iff)
  show ?thesis
  proof (cases ?out)
    case Nil
    then have "vis_identifier s = ''unknown''" by (simp only: vis_identifier_def Let_def list.case)
    then show ?thesis by (simp only:) code_simp
  next
    case (Cons c cs)
    then have v: "vis_identifier s = (if is_alnum c then c # cs else CHR ''x'' # c # cs)"
      by (simp only: vis_identifier_def Let_def list.case isLeadingRune_def if_not_P not_not split: if_split) simp
    have "is_alnum (CHR ''x'')" by code_simp
    then show ?thesis using all Cons by (auto simp: v identifierRE_def)
  qed
qed

lemma RequireIdentifier_None: "RequireIdentifier field s = None \<longleftrightarrow> length s \<le> 256 \<and> identifierRE s"
  by (auto simp: RequireIdentifier_def identifierRE_def)

lemma identifierRE_append: "identifierRE s \<Longrightarrow> list_all (\<lambda>d. is_alnum d \<or> d \<in> set ''_.:@+-'') t \<Longrightarrow> identifierRE (s @ t)"
  by (cases s) (simp_all add: identifierRE_def)

lemma observationID_RE: "0 \<le> oe_Sequence ev \<Longrightarrow> identifierRE (observationID ev)"
  unfolding observationID_def
  by (rule identifierRE_append [OF vis_identifier_RE]) (auto simp: itoa_int_nonneg list_all_iff is_alnum_def dest: itoa_digits)

lemma map_of_payload_fields: "map_of (payload_fields m) k = fmlookup m k"
proof -
  have "map_of (map (\<lambda>j. (j, the (fmlookup m j))) ks) k = (if k \<in> set ks then Some (the (fmlookup m k)) else None)" for ks
    by (induction ks) auto
  then show ?thesis by (auto simp: payload_fields_def in_fmdom'_iff)
qed

lemma put_text_lookup: "j \<noteq> k \<Longrightarrow> fmlookup (put_text k v m) j = fmlookup m j"
  by (simp add: put_text_def)

lemma utf8_not_Nil: "s \<noteq> [] \<Longrightarrow> utf8 s \<noteq> []"
  by (cases s) (simp_all add: utf8_def rune_bytes_def)

lemma mapped_session:
  assumes "ObsEvent_Validate ev = None"
  shows "SessionKey (mapped_event ev) = utf8 (oe_SessionID ev)"
proof -
  have "oe_SessionID ev \<noteq> []" using assms by (auto simp: ObsEvent_Validate_def TrimSpace_def split: if_splits)
  moreover have "fmlookup (obs_payload ev) ''sessionId'' = Some (AString (utf8 (oe_SessionID ev)))"
    by (simp add: obs_payload_def put_text_lookup split: prod.split)
  ultimately show ?thesis
    by (simp add: SessionKey_def payloadString_def mapped_event_def map_of_payload_fields utf8_not_Nil split: prod.split)
qed

lemma mapped_fields:
  "en_Envelope (mapped_event ev) = \<lparr>ev_ContractVersion = ''2.0'', ev_Kind = ''event'', ev_ID = observationID ev, ev_ProjectID = [],
     ev_CreatedAt = [], ev_Revision = None, ev_Provenance = None\<rparr>"
  "en_Sequence (mapped_event ev) = oe_Sequence ev" "en_OccurredAt (mapped_event ev) = obs_occurredAt ev"
  "en_RecordedAt (mapped_event ev) = []" "en_Type (mapped_event ev) = ''TELEMETRY_RECORDED''"
  "en_Aggregate (mapped_event ev) = \<lparr>ea_Kind = fst (obs_identity ev), ea_ID = fst (snd (obs_identity ev)), ea_Version = None\<rparr>"
  "en_Actor (mapped_event ev) = obs_actor ev" "en_CausationID (mapped_event ev) = []" "en_CorrelationID (mapped_event ev) = []"
  by (simp_all add: mapped_event_def split: prod.split)

lemma identity_valid:
  "fst (obs_identity ev) \<in> {''work_package'', ''attempt'', ''tool'', ''artifact'', ''workflow''}"
  "identifierRE (fst (snd (obs_identity ev)))"
  by (auto simp: obs_identity_def aggregateKind_def vis_identifier_RE)

lemma actor_valid: "ac_Kind (obs_actor ev) \<in> {''system'', ''agent''}" "identifierRE (ac_ID (obs_actor ev))"
proof -
  have "identifierRE ''obsv''" by code_simp
  then show "ac_Kind (obs_actor ev) \<in> {''system'', ''agent''}" "identifierRE (ac_ID (obs_actor ev))"
    by (auto simp: obs_actor_def vis_identifier_RE)
qed


definition ex_observation :: ObsEvent where
  "ex_observation =
     \<lparr>oe_Version = ''1.0'', oe_SessionID = [115, 233], oe_Sequence = 3, oe_OccurredAt = [], oe_SourceType = ''tool'', oe_Source = ''sh x'',
      oe_Action = ''run'', oe_Confidence = ''observed'', oe_Actor = [], oe_WorkPackageID = [], oe_AttemptID = [], oe_Metadata = fmempty\<rparr>"


text \<open>An attempt of a work package that names no attempt is reported under the attempt \<open>unknown\<close>.\<close>

lemma missing_attempt_unknown:
  "oe_WorkPackageID ev \<noteq> [] \<Longrightarrow> oe_AttemptID ev = [] \<Longrightarrow> payloadString (en_Payload (mapped_event ev)) ''attemptId'' = Some ''unknown''"
  by (simp add: mapped_event_def payloadString_def map_of_payload_fields obs_payload_def obs_identity_def put_text_def vis_identifier_def)

end
