(* ===== verification/ObsvProps.thy ===== *)
theory ObsvProps
  imports ObsvTransport JournalProps
begin

text \<open>
  What an observed session holds: the manager, its transport and the emitters over memory journals refine a log per session;
  the counters of an emitter account for every event; the buffer loses nothing silently.
\<close>

section \<open>Logs\<close>

definition numbered :: "ObsEvent list \<Rightarrow> ObsEvent list" where
  "numbered evs = map (\<lambda>(i, ev). ev\<lparr>oe_Sequence := int i\<rparr>) (zip [0..<length evs] evs)"

lemma numbered_snoc: "numbered (evs @ [ev]) = numbered evs @ [ev\<lparr>oe_Sequence := int (length evs)\<rparr>]"
  by (simp add: numbered_def zip_append1)

lemma backlog_frame:
  "backlog_loop i evs m = Ok m1 \<Longrightarrow> mem_events m1 = mem_events m \<and> mem_next m1 = mem_next m \<and> mem_closed m1 = mem_closed m"
proof (induction evs arbitrary: m)
  case (Cons ev evs)
  then obtain m2 where m2: "backlog_send i ev m = Ok m2" "backlog_loop i evs m2 = Ok m1" by (auto split: sum.splits)
  show ?case using Cons.IH [OF m2(2)] m2(1) by (auto simp: backlog_send_def Let_def split: if_splits)
qed simp

lemma subscribe_frame:
  "mem_events (fst (Memory_Subscribe frm m)) = mem_events m \<and> mem_next (fst (Memory_Subscribe frm m)) = mem_next m \<and>
     mem_closed (fst (Memory_Subscribe frm m)) = mem_closed m"
  using backlog_frame by (auto simp: Memory_Subscribe_def subscribe_register_def Let_def split: sum.split)

section \<open>The manager\<close>

datatype obs_call = CallEnsure rtext | CallSend rtext ObsEvent | CallReplay rtext int | CallSubscribe rtext int

fun obs_step :: "JournalEnv \<Rightarrow> obs_call \<Rightarrow> ObsManager \<Rightarrow> ObsManager" where
  "obs_step J (CallEnsure sid) m = fst (Manager_Ensure memory_journals sid m)"
| "obs_step J (CallSend sid ev) m = fst (Manager_Send memory_journals J sid ev m)"
| "obs_step J (CallReplay sid frm) m = fst (Manager_Replay memory_journals sid frm m)"
| "obs_step J (CallSubscribe sid frm) m = fst (Manager_Subscribe memory_journals sid frm m)"

definition well_formed :: "JournalEnv \<Rightarrow> ObsEvent \<Rightarrow> bool" where
  "well_formed J ev \<longleftrightarrow> ObsEvent_Validate (emit_prepare (je_fmt J) ev) = None"

definition sent :: "rtext \<Rightarrow> obs_call list \<Rightarrow> ObsEvent list" where
  "sent sid ops = List.map_filter (\<lambda>c. case c of CallSend s ev \<Rightarrow> if s = sid then Some ev else None | _ \<Rightarrow> None) ops"

definition accepted_events :: "JournalEnv \<Rightarrow> rtext \<Rightarrow> obs_call list \<Rightarrow> ObsEvent list" where
  "accepted_events J sid ops = map (emit_prepare (je_fmt J)) (filter (well_formed J) (sent sid ops))"

definition rejected :: "JournalEnv \<Rightarrow> rtext \<Rightarrow> obs_call list \<Rightarrow> int" where
  "rejected J sid ops = int (length (filter (\<lambda>ev. \<not> well_formed J ev) (sent sid ops)))"

text \<open>A session with its log and its count of refused events.\<close>

definition session_ok :: "rtext \<Rightarrow> ObsEvent list \<Rightarrow> int \<Rightarrow> ObsManager \<Rightarrow> bool" where
  "session_ok sid evs d m \<longleftrightarrow> \<not> om_closed m \<and> \<not> ol_closed (om_host m) \<and>
     (case fmlookup (om_runtimes m) sid of
        None \<Rightarrow> fmlookup (ol_sessions (om_host m)) sid = None \<and> evs = [] \<and> d = 0
      | Some r \<Rightarrow> oc_sessionID (or_client r) = sid \<and> or_stats r = \<lparr>es_Accepted = int (length evs), es_Dropped = d, es_Failed = 0\<rparr> \<and>
          (\<exists>h mem. fmlookup (ol_sessions (om_host m)) sid = Some \<lparr>os_hello = h, os_journal = JMemory mem\<rparr> \<and> \<not> mem_closed mem \<and>
             mem_events mem = numbered evs \<and> mem_next mem = int (length evs)))"

lemma session_ok_new: "session_ok sid [] 0 (NewManager owner)"
  by (simp add: session_ok_def NewManager_def NewLocal_def)

text \<open>After \<open>Ensure\<close> the session is there; other sessions are as before.\<close>

lemma Ensure_ok:
  assumes "session_ok s evs d m"
  shows "session_ok s evs d (fst (Manager_Ensure memory_journals sid m))"
  using assms
  by (auto simp: session_ok_def Manager_Ensure_def Dial_session_def Local_Hello_def memory_journals_def NewMemory_def numbered_def no_stats_def
      Let_def split: option.splits)

lemma Ensure_returns:
  assumes "session_ok sid evs d m" and "sid \<noteq> []"
  shows "\<exists>r. snd (Manager_Ensure memory_journals sid m) = Ok r \<and> fmlookup (om_runtimes (fst (Manager_Ensure memory_journals sid m))) sid = Some r"
  using assms
  by (auto simp: session_ok_def Manager_Ensure_def Dial_session_def Local_Hello_def memory_journals_def Let_def split: option.splits)

text \<open>A well-formed event is stored behind the others under the next sequence.\<close>

lemma Validate_sequence: "ObsEvent_Validate ev = None \<Longrightarrow> 0 \<le> n \<Longrightarrow> ObsEvent_Validate (ev\<lparr>oe_Sequence := n\<rparr>) = None"
  by (simp add: ObsEvent_Validate_def split: if_splits)

lemma append_numbered:
  assumes "\<not> mem_closed mem" and "mem_events mem = numbered evs" and "mem_next mem = int (length evs)"
    and "oe_Version p \<noteq> []" and "ObsEvent_Validate p = None"
  shows "\<exists>mem1. appendAssigned p mem = (mem1, Ok (p\<lparr>oe_Sequence := int (length evs)\<rparr>)) \<and> \<not> mem_closed mem1 \<and>
     mem_events mem1 = numbered (evs @ [p]) \<and> mem_next mem1 = int (length (evs @ [p]))"
  using assms Validate_sequence [OF assms(5), of "int (length evs)"]
  by (simp add: appendAssigned_def append_store_def Let_def numbered_snoc)

lemma emit_prepare_version: "oe_Version (emit_prepare fmt ev) \<noteq> []"
  by (simp add: emit_prepare_def obs_Version_def Let_def)

text \<open>One event into an open session.\<close>

definition with_sent :: "JournalEnv \<Rightarrow> ObsEvent \<Rightarrow> ObsEvent list \<Rightarrow> ObsEvent list" where
  "with_sent J ev evs = (if well_formed J ev then evs @ [emit_prepare (je_fmt J) ev] else evs)"

definition with_refused :: "JournalEnv \<Rightarrow> ObsEvent \<Rightarrow> int \<Rightarrow> int" where
  "with_refused J ev d = (if well_formed J ev then d else d + 1)"

lemma session_ok_open:
  assumes "session_ok sid evs d m" and "fmlookup (om_runtimes m) sid = Some r"
  obtains h mem where "oc_sessionID (or_client r) = sid" "or_stats r = \<lparr>es_Accepted = int (length evs), es_Dropped = d, es_Failed = 0\<rparr>"
    "fmlookup (ol_sessions (om_host m)) sid = Some \<lparr>os_hello = h, os_journal = JMemory mem\<rparr>" "\<not> mem_closed mem"
    "mem_events mem = numbered evs" "mem_next mem = int (length evs)"
  using assms by (auto simp: session_ok_def)

lemma Send_open:
  assumes ok: "session_ok sid evs d m" and r: "fmlookup (om_runtimes m) sid = Some r" and sid: "sid \<noteq> []"
    and sent: "Runtime_Send J ev r (om_host m) = (r1, l1, b)"
  shows "session_ok sid (with_sent J ev evs) (with_refused J ev d) (m\<lparr>om_host := l1, om_runtimes := fmupd sid r1 (om_runtimes m)\<rparr>)
     \<and> b = well_formed J ev \<and> ol_closed l1 = ol_closed (om_host m) \<and>
     (\<forall>s. s \<noteq> sid \<longrightarrow> fmlookup (ol_sessions l1) s = fmlookup (ol_sessions (om_host m)) s)"
proof -
  let ?p = "emit_prepare (je_fmt J) ev"
  obtain h mem where o: "oc_sessionID (or_client r) = sid"
    "or_stats r = \<lparr>es_Accepted = int (length evs), es_Dropped = d, es_Failed = 0\<rparr>"
    "fmlookup (ol_sessions (om_host m)) sid = Some \<lparr>os_hello = h, os_journal = JMemory mem\<rparr>" "\<not> mem_closed mem"
    "mem_events mem = numbered evs" "mem_next mem = int (length evs)"
    using session_ok_open [OF ok r] by metis
  show ?thesis
  proof (cases "well_formed J ev")
    case True
    then have v: "ObsEvent_Validate ?p = None" by (simp add: well_formed_def)
    obtain mem1 where m1: "appendAssigned ?p mem = (mem1, Ok (?p\<lparr>oe_Sequence := int (length evs)\<rparr>))" "\<not> mem_closed mem1"
      "mem_events mem1 = numbered (evs @ [?p])" "mem_next mem1 = int (length (evs @ [?p]))"
      using append_numbered [OF o(4-6) emit_prepare_version v] by blast
    show ?thesis
      using True ok o sid sent v m1
      by (auto simp: Runtime_Send_def Emit_def emit_write_def clientTarget_def Client_Append_def Local_Append_def local_journal_def
          put_journal_def session_ok_def with_sent_def with_refused_def)
  next
    case False
    then have v: "ObsEvent_Validate ?p \<noteq> None" by (simp add: well_formed_def)
    show ?thesis
      using False ok o sent v
      by (auto simp: Runtime_Send_def Emit_def session_ok_def with_sent_def with_refused_def)
  qed
qed

lemma session_ok_other:
  assumes "session_ok s evs d m" and "s \<noteq> sid" and "ol_closed l1 = ol_closed (om_host m)"
    and "\<forall>s. s \<noteq> sid \<longrightarrow> fmlookup (ol_sessions l1) s = fmlookup (ol_sessions (om_host m)) s"
  shows "session_ok s evs d (m\<lparr>om_host := l1, om_runtimes := fmupd sid r1 (om_runtimes m)\<rparr>)"
    and "session_ok s evs d (m\<lparr>om_host := l1\<rparr>)"
  using assms by (cases "fmlookup (om_runtimes m) s"; simp add: session_ok_def)+

section \<open>Every session at once\<close>

definition manager_ok :: "(rtext \<Rightarrow> ObsEvent list) \<Rightarrow> (rtext \<Rightarrow> int) \<Rightarrow> ObsManager \<Rightarrow> bool" where
  "manager_ok L D m \<longleftrightarrow> (\<forall>s. s \<noteq> [] \<longrightarrow> session_ok s (L s) (D s) m)"

lemma manager_Ensure:
  assumes "manager_ok L D m" and "sid \<noteq> []"
  obtains m1 r where "Manager_Ensure memory_journals sid m = (m1, Ok r)" "manager_ok L D m1" "fmlookup (om_runtimes m1) sid = Some r"
proof -
  have "\<exists>r. snd (Manager_Ensure memory_journals sid m) = Ok r \<and> fmlookup (om_runtimes (fst (Manager_Ensure memory_journals sid m))) sid = Some r"
    using Ensure_returns assms by (auto simp: manager_ok_def)
  moreover have "manager_ok L D (fst (Manager_Ensure memory_journals sid m))"
    using assms(1) Ensure_ok by (simp add: manager_ok_def)
  ultimately show ?thesis using that by (metis prod.collapse)
qed

lemma manager_Send:
  assumes "manager_ok L D m" and "sid \<noteq> []"
  shows "manager_ok (L(sid := with_sent J ev (L sid))) (D(sid := with_refused J ev (D sid))) (fst (Manager_Send memory_journals J sid ev m))
     \<and> snd (Manager_Send memory_journals J sid ev m) = Ok (well_formed J ev)"
proof -
  obtain m1 r where e: "Manager_Ensure memory_journals sid m = (m1, Ok r)" "manager_ok L D m1" "fmlookup (om_runtimes m1) sid = Some r"
    using manager_Ensure [OF assms] by metis
  obtain r1 l1 b where s: "Runtime_Send J ev r (om_host m1) = (r1, l1, b)" by (metis prod_cases3)
  have ok: "session_ok sid (L sid) (D sid) m1" using e(2) assms(2) by (simp add: manager_ok_def)
  note f = Send_open [OF ok e(3) assms(2) s]
  let ?m = "m1\<lparr>om_host := l1, om_runtimes := fmupd sid r1 (om_runtimes m1)\<rparr>"
  have "session_ok t (L t) (D t) ?m" if "t \<noteq> []" "t \<noteq> sid" for t
    using session_ok_other(1) [of t "L t" "D t" m1 sid l1 r1] e(2) f that by (simp add: manager_ok_def)
  with f have "manager_ok (L(sid := with_sent J ev (L sid))) (D(sid := with_refused J ev (D sid))) ?m"
    by (simp add: manager_ok_def)
  with f show ?thesis by (simp add: Manager_Send_def e(1) s)
qed

lemma manager_Replay:
  assumes "manager_ok L D m" and "sid \<noteq> []"
  shows "manager_ok L D (fst (Manager_Replay memory_journals sid frm m))
     \<and> snd (Manager_Replay memory_journals sid frm m) = Ok (filter (\<lambda>ev. frm \<le> oe_Sequence ev) (numbered (L sid)))"
proof -
  obtain m1 r where e: "Manager_Ensure memory_journals sid m = (m1, Ok r)" "manager_ok L D m1" "fmlookup (om_runtimes m1) sid = Some r"
    using manager_Ensure [OF assms] by metis
  have ok: "session_ok sid (L sid) (D sid) m1" using e(2) assms(2) by (simp add: manager_ok_def)
  show ?thesis
    by (rule session_ok_open [OF ok e(3)])
      (simp add: assms(2) e(1,2) Manager_Replay_def Client_Replay_def Local_Replay_def local_journal_def Memory_Replay_def since_def)
qed

lemma manager_Subscribe:
  assumes "manager_ok L D m" and "sid \<noteq> []"
  shows "manager_ok L D (fst (Manager_Subscribe memory_journals sid frm m))"
proof -
  obtain m1 r where e: "Manager_Ensure memory_journals sid m = (m1, Ok r)" "manager_ok L D m1" "fmlookup (om_runtimes m1) sid = Some r"
    using manager_Ensure [OF assms] by metis
  have ok: "session_ok sid (L sid) (D sid) m1" using e(2) assms(2) by (simp add: manager_ok_def)
  obtain h mem where o: "oc_sessionID (or_client r) = sid"
    "or_stats r = \<lparr>es_Accepted = int (length (L sid)), es_Dropped = D sid, es_Failed = 0\<rparr>"
    "fmlookup (ol_sessions (om_host m1)) sid = Some \<lparr>os_hello = h, os_journal = JMemory mem\<rparr>" "\<not> mem_closed mem"
    "mem_events mem = numbered (L sid)" "mem_next mem = int (length (L sid))"
    using session_ok_open [OF ok e(3)] by metis
  obtain mem1 q where q: "Memory_Subscribe frm mem = (mem1, q)" by (cases "Memory_Subscribe frm mem")
  have fr: "mem_events mem1 = mem_events mem" "mem_next mem1 = mem_next mem" "mem_closed mem1 = mem_closed mem"
    using subscribe_frame [of frm mem] q by simp_all
  let ?l = "put_journal sid \<lparr>os_hello = h, os_journal = JMemory mem\<rparr> (JMemory mem1) (om_host m1)"
  have "fst (Manager_Subscribe memory_journals sid frm m) = m1\<lparr>om_host := ?l\<rparr>"
    using o assms(2)
    by (simp add: Manager_Subscribe_def e(1) Client_Subscribe_def Local_Subscribe_def local_journal_def q split: sum.split)
  moreover have "session_ok sid (L sid) (D sid) (m1\<lparr>om_host := ?l\<rparr>)"
    using ok e(3) o fr by (simp add: session_ok_def put_journal_def)
  moreover have "session_ok t (L t) (D t) (m1\<lparr>om_host := ?l\<rparr>)" if "t \<noteq> []" "t \<noteq> sid" for t
    using session_ok_other(2) [of t "L t" "D t" m1 sid ?l] e(2) that by (simp add: manager_ok_def put_journal_def)
  ultimately show ?thesis by (metis manager_ok_def)
qed

lemma sent_snoc:
  "sent sid (ops @ [c]) = sent sid ops @ (case c of CallSend s ev \<Rightarrow> if s = sid then [ev] else [] | _ \<Rightarrow> [])"
  by (simp add: sent_def List.map_filter_def split: obs_call.split)

lemma manager_calls:
  "manager_ok (\<lambda>s. accepted_events J s ops) (\<lambda>s. rejected J s ops) (fold (obs_step J) ops (NewManager owner))"
proof (induction ops rule: rev_induct)
  case Nil
  then show ?case
    using session_ok_new by (simp add: manager_ok_def accepted_events_def rejected_def sent_def List.map_filter_def)
next
  case (snoc c ops)
  let ?L = "\<lambda>s. accepted_events J s ops" and ?D = "\<lambda>s. rejected J s ops" and ?m = "fold (obs_step J) ops (NewManager owner)"
  show ?case
  proof (cases "c")
    case (CallSend sid ev)
    have L: "accepted_events J s (ops @ [c]) = (if s = sid then with_sent J ev (?L s) else ?L s)"
      and D: "rejected J s (ops @ [c]) = (if s = sid then with_refused J ev (?D s) else ?D s)" for s
      by (simp_all add: accepted_events_def rejected_def sent_snoc CallSend with_sent_def with_refused_def)
    show ?thesis
    proof (cases "sid = []")
      case True
      then have "obs_step J c ?m = ?m" by (simp add: CallSend Manager_Send_def Manager_Ensure_def)
      with snoc.IH True show ?thesis by (simp add: manager_ok_def L D)
    next
      case False
      have "obs_step J c ?m = fst (Manager_Send memory_journals J sid ev ?m)" by (simp add: CallSend)
      moreover have "(\<lambda>s. accepted_events J s (ops @ [c])) = ?L(sid := with_sent J ev (?L sid))"
        and "(\<lambda>s. rejected J s (ops @ [c])) = ?D(sid := with_refused J ev (?D sid))"
        by (simp_all add: L D fun_eq_iff)
      ultimately show ?thesis using manager_Send [OF snoc.IH False, of J ev] by simp
    qed
  next
    case (CallEnsure sid)
    with snoc.IH Ensure_ok show ?thesis
      by (simp add: manager_ok_def accepted_events_def rejected_def sent_snoc)
  next
    case (CallReplay sid frm)
    have "manager_ok ?L ?D (fst (Manager_Replay memory_journals sid frm ?m))"
      using manager_Replay [OF snoc.IH] snoc.IH by (cases "sid = []") (simp_all add: Manager_Replay_def Manager_Ensure_def)
    with CallReplay show ?thesis by (simp add: accepted_events_def rejected_def sent_snoc)
  next
    case (CallSubscribe sid frm)
    have "manager_ok ?L ?D (fst (Manager_Subscribe memory_journals sid frm ?m))"
      using manager_Subscribe [OF snoc.IH] snoc.IH by (cases "sid = []") (simp_all add: Manager_Subscribe_def Manager_Ensure_def)
    with CallSubscribe show ?thesis by (simp add: accepted_events_def rejected_def sent_snoc)
  qed
qed


lemma ex_well_formed: "emit_prepare fmt ex_obs = ex_obs" "ObsEvent_Validate ex_obs = None"
  "ObsEvent_Validate (emit_prepare fmt (ex_obs\<lparr>oe_SessionID := []\<rparr>)) \<noteq> None"
proof -
  show e: "emit_prepare fmt ex_obs = ex_obs" by (simp add: emit_prepare_def ex_obs_def SanitizeMetadata_def Sanitize_def fm_keys_def sorted_list_of_fset.rep_eq Let_def)
  have "ex_obs\<lparr>oe_Sequence := 0\<rparr> = ex_obs" by (simp add: ex_obs_def)
  with ex_obs_valid [of 0] show "ObsEvent_Validate ex_obs = None" by simp
  show "ObsEvent_Validate (emit_prepare fmt (ex_obs\<lparr>oe_SessionID := []\<rparr>)) \<noteq> None"
    by (simp add: emit_prepare_def ex_obs_def SanitizeMetadata_def Sanitize_def fm_keys_def sorted_list_of_fset.rep_eq ObsEvent_Validate_def TrimSpace_def obs_Version_def Let_def)
qed


section \<open>The buffer\<close>

text \<open>
  Draining keeps the order and loses nothing when the target does not panic: what was written and what is left are the
  events that were held.
\<close>

lemma drain_loop_splits:
  "drain_loop target evs n t = (t1, rest, k, a) \<Longrightarrow> n \<le> k \<and> evs = take (nat (k - n)) evs @ rest \<and> (a = Appended \<longrightarrow> rest = [])"
proof (induction evs arbitrary: n t)
  case (Cons ev evs)
  obtain t2 b where t: "target ev t = (t2, b)" by fastforce
  show ?case
  proof (cases "b = Appended")
    case True
    then have i: "n + 1 \<le> k" "evs = take (nat (k - (n + 1))) evs @ rest" "a = Appended \<longrightarrow> rest = []"
      using Cons t by auto
    have k: "nat (k - n) = Suc (nat (k - (n + 1)))" using i(1) by simp
    have "take (nat (k - n)) (ev # evs) @ rest = ev # (take (nat (k - (n + 1))) evs @ rest)" unfolding k by simp
    with i show ?thesis by simp
  next
    case False
    with Cons.prems t show ?thesis by (cases b) auto
  qed
qed simp

text \<open>A full buffer refuses the newest event: it keeps the oldest ones.\<close>

lemma buffer_keeps_oldest:
  assumes "0 < ob_cap b" and "ob_cap b \<le> int (length (ob_events b))"
  shows "fold (\<lambda>ev b. fst (Buffer_Append ev b)) evs b = b\<lparr>ob_dropped := ob_dropped b + int (length evs)\<rparr>"
  using assms by (induction evs arbitrary: b) (simp_all add: Buffer_Append_def algebra_simps)

end
