(* ===== verification/Spec2Isabelle.thy ===== *)
theory Spec2Isabelle
  imports RunProps ProjectRestart ContextCompiler ForgeProps AllocationProps JobCluster JobCandidatesProps JobSource JobPromoteProps SchedulerLog SyncQueue SyncRevision SyncParallel SyncTransfer SyncTransport SyncIdentity SyncDistribute
    WorkflowProps ToolHostProps LifecycleProps JournalProps MemoryRepoProps VisProps ObsvProps
begin

text \<open>
  A verification library for the Go modules under \<open>src/\<close>: an agent platform whose kernel plans work packages,
  hands them to workers under contracts, and accepts their results only through gates; whose toolbox runs
  declarative workflows and tools under the same contracts; whose runtime manages worker instances and
  journals what they report; whose memory keeps records and events and learns from them; whose forge client drives
  repositories; and whose sync library moves work packages and files between nodes.

  \<^bold>\<open>How the parts fit together.\<close> The planner's graph decides which package is ready. The scheduler leases an
  assignment for it, selects a worker (role allocator), builds a least-privilege contract, calls the worker
  runtime, takes the result in, derives telemetry, evaluates the gates, and completes or blocks the package;
  \<open>Run\<close> does so for batches of packages with one goroutine each. A tool call carries the contract to the
  host, which asks the policy engine before any provider runs. The workflow compiler orders the steps of a
  workflow with the same algorithm that orders work packages; the runtime executes the plan and can resume
  it. The lifecycle manager wraps every adapter run; its events and those of other components are sanitized
  by the observation protocol and stored in the journal, one per session behind a transport; the visualizer folds a session's
  journal into graphs, live and in replay. The project state keeps the schedulers of the application and their
  durable records in the memory store; job learning reads those records and proposes candidates back into it; the
  context compiler and the allocators choose what a worker sees and which model it runs on. Sync has its own stack: messages on a wire,
  identities and pairing, chunked transfer, distribution with receipts on top of it, and, for replicas,
  change queues and revision sets.

  \<^bold>\<open>The theories and the code they model.\<close> Each theory opens with its own conventions.

  \<^item> \<open>Prelude\<close>: what Go's standard library does and the components share: maps ranged over in sorted order
    (\<open>fm_keys\<close>, \<open>fm_vals\<close>), maps with a default (\<open>fm_getd\<close>), validation loops (\<open>first_err\<close>, \<open>first_some\<close>), \<open>strings.Join\<close>,
    \<open>strconv.Itoa\<close>, results as sums (\<open>Ok\<close>, \<open>Err\<close>), times as nanoseconds.
  \<^item> \<open>Kahn\<close>: the topological ordering that \<open>kernel/allocator/planner\<close> and \<open>toolbox/workflow\<close> both contain; the locale
    \<open>dep_graph\<close> is the interface of the loop to their input maps, interpreted in \<open>Planner\<close> and \<open>WorkflowCompile\<close>.
  \<^item> \<open>Planner\<close>: \<open>kernel/allocator/planner/planner.go\<close>. \<open>Assignment\<close>: \<open>kernel/scheduler/assignment.go\<close>.
    \<open>Gate\<close>: \<open>kernel/gate/gate.go\<close>. \<open>Contract\<close>: \<open>kernel/contract/contract.go\<close> and \<open>registry/capabilities\<close>.
    \<open>Intake\<close>: \<open>runtime/worker/\<close> and \<open>runtime/intake/intake.go\<close>. \<open>RoleAllocator\<close>:
    \<open>kernel/allocator/role_allocator/role_allocator.go\<close>. \<open>Telemetry\<close>: \<open>kernel/telemetry/telemetry.go\<close>.
  \<^item> \<open>Scheduler\<close>, \<open>SchedulerProps\<close>, \<open>SchedulerLog\<close>: \<open>kernel/scheduler/scheduler.go\<close>, the state \<open>Scheduler\<close> with the
    operations dispatch, resolve, approve, reject and restore, what they change, and what the sink sees.
  \<^item> \<open>SchedulerRun\<close>, \<open>RunProps\<close>: \<open>kernel/scheduler/run.go\<close>; \<open>run_apply\<close> is one step of the main loop or of one of its
    goroutines, each \<open>job\<close> standing between two lock sections of \<open>dispatchOne\<close>.
  \<^item> \<open>Contracts\<close>, \<open>ContractRecords\<close>, \<open>ContractEvidence\<close>: the records of \<open>contracts/go/v2\<close> with their \<open>Validate\<close> methods.
  \<^item> \<open>WorkflowCompile\<close>, \<open>WorkflowRun\<close>, \<open>WorkflowProps\<close>: \<open>toolbox/workflow/compile.go\<close> and \<open>runtime.go\<close>.
  \<^item> \<open>ToolPolicy\<close>, \<open>ToolHost\<close>, \<open>ToolHostProps\<close>: \<open>toolbox/policy/policy.go\<close>, \<open>toolbox/registry/registry.go\<close>,
    \<open>toolbox/host/host.go\<close> and \<open>toolbox/idempotency.go\<close>; concurrent calls of \<open>Invoke\<close> are \<open>host_job\<close>s.
  \<^item> \<open>Lifecycle\<close>, \<open>LifecycleProps\<close>: \<open>runtime/lifecycle/lifecycle.go\<close>; concurrent calls of \<open>Run\<close> are \<open>lc_job\<close>s.
  \<^item> \<open>ObsvProtocol\<close>: \<open>obsv/protocol/protocol.go\<close>. \<open>Journal\<close>, \<open>JournalProps\<close>: \<open>obsv/journal/journal.go\<close>. \<open>ObsvTransport\<close>,
    \<open>ObsvProps\<close>: \<open>obsv/transport\<close>, \<open>obsv/emit\<close>, \<open>obsv/report\<close> and \<open>obsv/runtime.go\<close>.
  \<^item> \<open>VisSession\<close>, \<open>VisSessionProps\<close>: \<open>visualizer/compat\<close> and \<open>visualizer/session\<close>. \<open>VisReplay\<close>: \<open>layout\<close>, \<open>replay\<close>,
    \<open>retention\<close> and \<open>bridge\<close>. \<open>VisSource\<close>, \<open>VisProps\<close>: \<open>adapter\<close>, \<open>source\<close> and \<open>browse\<close>.
  \<^item> \<open>SyncTypes\<close>: \<open>sync/types.go\<close>, with the locale \<open>newest_wins\<close>, the contract of the change queue and the revision
    set. \<open>SyncQueue\<close>: \<open>sync/queue\<close>. \<open>SyncRevision\<close>: \<open>sync/revision\<close>. \<open>SyncParallel\<close>: \<open>sync/parallel\<close>.
    \<open>SyncTransfer\<close>: \<open>sync/transfer\<close>. \<open>SyncTransport\<close>: \<open>sync/transport\<close>. \<open>SyncIdentity\<close>: \<open>sync/identity\<close>.
    \<open>SyncDistribute\<close>: \<open>sync/distribute\<close>, \<open>sync/idempotency.go\<close>, \<open>sync/clock.go\<close>.
  \<^item> \<open>MemoryStore\<close>, \<open>MemoryStoreProps\<close>: \<open>memory/store\<close> and \<open>memory/projection\<close>, records and the event log over a map of
    files in which a write happens or fails as a whole. \<open>MemoryRepo\<close>, \<open>MemoryRepoProps\<close>: \<open>memory/repo\<close>. \<open>Retrieval\<close>,
    \<open>RetrievalProps\<close>: \<open>memory/retrieval\<close> and \<open>memory/retention\<close>. \<open>ContextCompiler\<close>: \<open>kernel/context\<close>.
  \<^item> \<open>ProjectState\<close>, \<open>ProjectStateProps\<close>, \<open>ProjectRestart\<close>: \<open>app/internal/projectstate\<close> with \<open>kernel/api\<close>: the projects of the
    application over a scheduler each, their durable state, and the restart from the memory.
  \<^item> \<open>Texts\<close>: UTF-8 texts by their runes, \<open>strings.TrimSpace\<close>. \<open>Floats\<close>: the comparisons of \<open>float64\<close>, its arithmetic as a parameter. \<open>Forge\<close>, \<open>ForgeFake\<close>, \<open>ForgeLifecycle\<close>, \<open>ForgeProps\<close>: \<open>forge\<close>,
    \<open>forge/fake\<close>, \<open>forge/lifecycle\<close> and \<open>forge/memsync\<close>.
  \<^item> \<open>Registries\<close>: \<open>registry/models\<close>, \<open>policies\<close>, \<open>roles\<close>, \<open>routines\<close>, \<open>teams\<close>; the locale \<open>spec_registry\<close> is what the four
    registries promise. \<open>Allocation\<close>, \<open>AllocationProps\<close>: \<open>kernel/allocator/allocation.go\<close>, \<open>routing\<close>, \<open>model_allocator\<close>
    and \<open>compute_allocator\<close>.
  \<^item> \<open>JobLearn\<close>, \<open>JobSource\<close>, \<open>JobLearnProps\<close>: \<open>kernel/joblearn\<close>, its \<open>features\<close>, \<open>attribution\<close>, \<open>tracesource\<close> and \<open>baseline\<close>;
    \<open>JobGate\<close>: \<open>gate\<close> and \<open>route\<close>; \<open>JobCandidates\<close>, \<open>JobCandidatesProps\<close>: \<open>candidates\<close>, \<open>distill\<close>, \<open>backtest\<close>;
    \<open>JobCluster\<close>: \<open>similarity\<close>; \<open>JobPromote\<close>, \<open>JobPromoteProps\<close>: \<open>promote\<close> and \<open>experience\<close>.

  \<^bold>\<open>Conventions.\<close> Structs are records, Go maps finite maps, errors values of a component's own datatype in a
  sum or option. A mutex makes a method one step; where a method unlocks in between, or runs in a goroutine,
  its lock sections are separate steps and any interleaving is allowed. Code outside the repository is a
  parameter: JSON encoders, SHA-256, HMAC, Ed25519, RFC 3339, float arithmetic, and the callbacks a component
  is constructed with (runtimes, sinks, providers, runners, enforcers), which may answer anything.
\<close>

text \<open>
  \<^bold>\<open>What is proved.\<close>

  \<^item> Scheduling: under every interleaving a completed package has a successful result that passed all gates, no
    package is dispatched twice at once or more often than allowed, \<open>Run\<close> ends within a bound and leaves
    nothing ready; the outcome of one dispatch on every branch; consecutive event numbers; assignment
    ids are never reused after a restore. Two gaps: a gate error leaves the durable assignment behind, and an
    assignment that waited for its gates can be resolved after a restart but its package stays as it was.
  \<^item> Planning and compiling: an order exists exactly when the graph is closed and acyclic, respects
    dependencies and is the least such order; a workflow compiles exactly when it is valid.
  \<^item> Workflows: a step runs only after its dependencies succeeded or were skipped or compensated; a plan whose
    runner always succeeds completes with every step run once; resuming a failed run panics on a nil error.
  \<^item> Tools: the policy allows a call exactly when the contract grants everything and denies nothing; the host
    never runs a provider or returns a result, replayed or not, without that; a provider runs once per
    idempotency key but for failures and evictions; replays are of the same input; waiting calls are served.
  \<^item> Workers and events: every worker reaches one terminal state, once; sanitized metadata is bounded; the file
    journal returns after a reopen what it accepted, except when a line exceeds the scanner's limit, after
    which it cannot be opened; a subscriber sees every event or counts it as dropped, but for the gap between
    the replay and the registration; whatever the callers of the runtime do, a session's log is the accepted events in order.
  \<^item> Visualizer: a graph reaches every node from the session and names every entity the events mention; a replay is the
    sequence of the projections and only grows; live and replayed frames agree whatever the order of delivery; the adapter
    accepts exactly the observations described; every event of the log is in exactly one session.
  \<^item> Sync: transfers deliver exactly the payload however often a session is cut; reconciled queues agree; a
    revision set settles on its source after one diff; the wire delivers in order what it accepted; a token
    is accepted once; distribution delivers when the frames arrive, and keeps a receipt when they do not.
  \<^item> Memory and projects: revisions only grow, the event log keeps each event once across restarts and failing
    writes, the projection equals its rebuild; a restart rebuilds the projects, packages and ready lists, and an
    approval decision is final.
  \<^item> Allocation, retrieval and context: a plan gives each unit the cheapest eligible model and exists exactly for the
    requests described, which leaves out units of two roles; the routing gate blocks exactly above the budget or without the
    cloud; a context holds the best-ranked candidates within its tokens.
  \<^item> Forge: a pull request is merged by an approved merge or by a caller that sets its state; starting a phase twice
    creates nothing new.
  \<^item> Learning: a hint never overrides the caller's fallback and is learned only behind its gates; proposing only adds
    candidates, and fails on one stored before; clusters are connected components; summaries do not depend on the order
    of results; bounded loads return the longest run of whole traces.

  \<^bold>\<open>Bounds and fuel.\<close> No definition uses fuel except \<open>run_trace\<close>-like lists of actions, which are the
  schedules themselves; termination of \<open>Run\<close> is a theorem over them. Go's \<open>int\<close> and \<open>uint64\<close> are 64-bit where
  the code can reach the wrap (attempt counters of workflows, revisions); elsewhere the values are bounded by
  the sizes of lists. The bounds of the code are the model's: the journal's line of 1 MiB, the wire's inbox, the
  host's cache of 10000 results, the lifecycle's retained events, the retries of a package.

  \<^bold>\<open>Not modelled.\<close> Latencies and durations; deep copies (the identity on values); the encodings themselves. Of
  the repository: the application's commands, its control plane and the user interface (input, output and wiring), HTTP
  and socket adapters of sync, the forge and the toolbox, the observation adapter of an external program, text templates,
  desktop control, sandboxes and the Python inference service (operating system).
\<close>

end
